(* ===== verification/Prelude.thy ===== *)
theory Prelude
  imports Main "HOL-Library.AList" "HOL-Library.Word" "HOL-Library.Multiset"
begin

text \<open>
  Shared vocabulary of the development: Go's \<open>time.Time\<close> and \<open>time.Duration\<close> as integers,
  64-bit wrap-around, and Go maps as association lists whose iteration order is chosen by a
  parameter.
\<close>

named_theorems go_simps \<open>unfolding rules of the small Go vocabulary\<close>
named_theorems inv_intros \<open>introduction rules for component invariants\<close>

section \<open>Time\<close>

text \<open>
  A \<open>time.Time\<close> is the number of nanoseconds since Go's zero time (year 1), so the zero
  value of a struct field is \<open>0\<close> and \<open>IsZero\<close> is a comparison with it.  \<open>Sub\<close>
  saturates at the bounds of \<open>time.Duration\<close>, an \<open>int64\<close>; a multiplication of
  durations wraps around.
\<close>

type_synonym go_time = int
type_synonym duration = int

definition int64 :: "int \<Rightarrow> int" where
  "int64 x = (x + 2 ^ 63) mod 2 ^ 64 - 2 ^ 63"

definition is_zero_time :: "go_time \<Rightarrow> bool" where
  [go_simps]: "is_zero_time t \<longleftrightarrow> t = 0"

definition time_sub :: "go_time \<Rightarrow> go_time \<Rightarrow> duration" where
  "time_sub a b = max (- (2 ^ 63)) (min (2 ^ 63 - 1) (a - b))"

definition second_ns :: duration where
  [go_simps]: "second_ns = 1000000000"

definition minute_ns :: duration where
  [go_simps]: "minute_ns = 60000000000"

definition hour_ns :: duration where
  [go_simps]: "hour_ns = 3600000000000"

definition millisecond_ns :: duration where
  [go_simps]: "millisecond_ns = 1000000"

lemma int64_id: "- (2 ^ 63) \<le> x \<Longrightarrow> x < 2 ^ 63 \<Longrightarrow> int64 x = x"
  by (simp add: int64_def)

lemma int64_bounds: "- (2 ^ 63) \<le> int64 x" "int64 x < 2 ^ 63"
proof -
  have "0 \<le> (x + 2 ^ 63) mod 2 ^ 64" and "(x + 2 ^ 63) mod 2 ^ 64 < 2 * 2 ^ 63"
    by simp_all
  then show "- (2 ^ 63) \<le> int64 x" and "int64 x < 2 ^ 63"
    unfolding int64_def by linarith+
qed

lemma time_sub_nonneg [simp]: "0 \<le> time_sub a b \<longleftrightarrow> b \<le> a"
  by (auto simp: time_sub_def)

lemma time_sub_pos [simp]: "0 < time_sub a b \<longleftrightarrow> b < a"
  by (auto simp: time_sub_def)

lemma time_sub_less: "d < 2 ^ 63 \<Longrightarrow> - (2 ^ 63) < d \<Longrightarrow> time_sub a b < d \<longleftrightarrow> a - b < d"
  by (auto simp: time_sub_def)

lemma time_sub_greater: "d < 2 ^ 63 - 1 \<Longrightarrow> - (2 ^ 63) \<le> d \<Longrightarrow> d < time_sub a b \<longleftrightarrow> d < a - b"
  by (auto simp: time_sub_def)

section \<open>Maps with an iteration order\<close>

text \<open>
  A Go map is an association list with distinct keys; \<open>AList.update\<close> stores and
  \<open>AList.delete\<close> removes.  \<open>range\<close> over a map visits the entries in an unspecified
  order: a definition that ranges takes a function \<open>order\<close> that returns the entries as
  the runtime visits them, and \<open>iteration_order\<close> is the runtime's promise that this is a
  permutation.
\<close>

type_synonym ('k, 'v) gomap = "('k \<times> 'v) list"

definition iteration_order :: "('a list \<Rightarrow> 'a list) \<Rightarrow> bool" where
  "iteration_order order \<longleftrightarrow> (\<forall>xs. mset (order xs) = mset xs)"

definition gomap_wf :: "('k, 'v) gomap \<Rightarrow> bool" where
  "gomap_wf m \<longleftrightarrow> distinct (map fst m)"

lemma iteration_order_set: "iteration_order order \<Longrightarrow> set (order xs) = set xs"
  by (metis iteration_order_def mset_eq_setD)

lemma iteration_order_id: "iteration_order (\<lambda>xs. xs)"
  by (simp add: iteration_order_def)

lemma iteration_order_rev: "iteration_order rev"
  by (simp add: iteration_order_def)

lemma gomap_wf_empty [simp, inv_intros]: "gomap_wf []"
  by (simp add: gomap_wf_def)

lemma gomap_wf_update [simp, inv_intros]: "gomap_wf m \<Longrightarrow> gomap_wf (AList.update k v m)"
  by (simp add: gomap_wf_def distinct_update)

lemma gomap_wf_delete [simp, inv_intros]: "gomap_wf m \<Longrightarrow> gomap_wf (AList.delete k m)"
  by (simp add: gomap_wf_def distinct_delete)

lemma gomap_wf_filter [simp, inv_intros]: "gomap_wf m \<Longrightarrow> gomap_wf (filter P m)"
  unfolding gomap_wf_def by (rule distinct_map_filter)

lemma map_of_update [simp]: "map_of (AList.update k v m) = (map_of m)(k \<mapsto> v)"
  by (simp add: update_conv')

lemma map_of_delete [simp]: "map_of (AList.delete k m) = (map_of m)(k := None)"
  by (simp add: delete_conv')

lemma map_of_Some_iff: "gomap_wf m \<Longrightarrow> map_of m k = Some v \<longleftrightarrow> (k, v) \<in> set m"
  by (simp add: gomap_wf_def)

lemma length_update_present:
  "k \<in> fst ` set m \<Longrightarrow> length (AList.update k v m) = length m"
  by (induction m) auto

lemma length_update_absent:
  "k \<notin> fst ` set m \<Longrightarrow> length (AList.update k v m) = Suc (length m)"
  by (induction m) auto

lemma length_update_le: "length (AList.update k v m) \<le> Suc (length m)"
  by (cases "k \<in> fst ` set m") (simp_all add: length_update_present length_update_absent)

lemma length_delete_le: "length (AList.delete k m) \<le> length m"
  by (simp add: AList.delete_eq)

lemma length_delete_present:
  "k \<in> fst ` set m \<Longrightarrow> length (AList.delete k m) < length m"
  by (auto simp: AList.delete_eq intro: length_filter_less)

lemma length_delete_distinct:
  "gomap_wf m \<Longrightarrow> k \<in> fst ` set m \<Longrightarrow> length m = Suc (length (AList.delete k m))"
proof (induction m)
  case (Cons p m)
  show ?case
  proof (cases "fst p = k")
    case True
    with Cons.prems have "k \<notin> fst ` set m" by (auto simp: gomap_wf_def)
    with True show ?thesis by (cases p) (simp add: delete_idem)
  next
    case False
    with Cons show ?thesis by (cases p) (auto simp: gomap_wf_def)
  qed
qed simp

lemma keys_update [simp]: "fst ` set (AList.update k v m) = insert k (fst ` set m)"
  by (metis dom_update map_of_update dom_map_of_conv_image_fst dom_fun_upd option.discI)

lemma keys_delete [simp]: "fst ` set (AList.delete k m) = fst ` set m - {k}"
  by (auto simp: AList.delete_eq)

lemma map_of_eq_None_keys: "map_of m k = None \<longleftrightarrow> k \<notin> fst ` set m"
  by (rule map_of_eq_None_iff)

end
