(* ===== verification/ProxyCircuit.thy ===== *)
theory ProxyCircuit
  imports Prelude
begin

text \<open>
  The proxy stream circuit of \<open>backend/internal/service/openai_proxy_stream_circuit.go\<close>:
  an in-process breaker keyed by proxy id that quarantines a proxy after repeated stream
  disconnects.  Every operation runs under the circuit's mutex, so an execution is a
  sequence of operations; the theorems speak about such sequences.  The nil receiver of the
  Go methods is \<open>None\<close>.
\<close>

section \<open>Settings and state\<close>

definition defaultOpenAIProxyStreamFailureThreshold :: int where
  "defaultOpenAIProxyStreamFailureThreshold = 2"

definition defaultOpenAIProxyStreamFailureWindow :: duration where
  "defaultOpenAIProxyStreamFailureWindow = minute_ns"

definition defaultOpenAIProxyStreamQuarantineTTL :: duration where
  "defaultOpenAIProxyStreamQuarantineTTL = 10 * minute_ns"

definition defaultOpenAIProxyStreamCircuitMaxEntries :: int where
  "defaultOpenAIProxyStreamCircuitMaxEntries = 4096"

definition defaultOpenAIProxyStreamFailureCollapse :: duration where
  "defaultOpenAIProxyStreamFailureCollapse = 3 * second_ns"

definition openAIProxyStreamFailOpenLogInterval :: duration where
  "openAIProxyStreamFailOpenLogInterval = 5 * second_ns"

lemmas circuit_defaults =
  defaultOpenAIProxyStreamFailureThreshold_def defaultOpenAIProxyStreamFailureWindow_def
  defaultOpenAIProxyStreamQuarantineTTL_def defaultOpenAIProxyStreamCircuitMaxEntries_def
  defaultOpenAIProxyStreamFailureCollapse_def openAIProxyStreamFailOpenLogInterval_def

record circuit_settings =
  disabled :: bool
  failureThreshold :: int
  failureWindow :: duration
  quarantineTTL :: duration
  collapseInterval :: duration
  maxEntries :: int

record circuit_entry =
  failureCount :: int
  windowStart :: go_time
  lastFailureAt :: go_time
  blockedUntil :: go_time
  lastTouched :: go_time

record circuit =
  settings :: circuit_settings
  entries :: "(int, circuit_entry) gomap"

text \<open>The zero value a Go map lookup returns for an absent key.\<close>

definition zero_entry :: circuit_entry where
  "zero_entry = \<lparr>failureCount = 0, windowStart = 0, lastFailureAt = 0, blockedUntil = 0,
     lastTouched = 0\<rparr>"

record circuit_config =
  cfg_Disabled :: bool
  cfg_FailureThreshold :: int
  cfg_WindowSeconds :: int
  cfg_TTLSeconds :: int

definition resolveOpenAIProxyStreamCircuitSettings ::
  "circuit_config option \<Rightarrow> circuit_settings" where
  "resolveOpenAIProxyStreamCircuitSettings scfg =
     (let s = \<lparr>disabled = False,
               failureThreshold = defaultOpenAIProxyStreamFailureThreshold,
               failureWindow = defaultOpenAIProxyStreamFailureWindow,
               quarantineTTL = defaultOpenAIProxyStreamQuarantineTTL,
               collapseInterval = defaultOpenAIProxyStreamFailureCollapse,
               maxEntries = defaultOpenAIProxyStreamCircuitMaxEntries\<rparr>
      in case scfg of
           None \<Rightarrow> s
         | Some cfg \<Rightarrow>
             let s1 = s\<lparr>disabled := cfg_Disabled cfg\<rparr>;
                 s2 = (if cfg_FailureThreshold cfg > 0
                       then s1\<lparr>failureThreshold := cfg_FailureThreshold cfg\<rparr> else s1);
                 s3 = (if cfg_WindowSeconds cfg > 0
                       then s2\<lparr>failureWindow := int64 (cfg_WindowSeconds cfg * second_ns)\<rparr>
                       else s2)
             in (if cfg_TTLSeconds cfg > 0
                 then s3\<lparr>quarantineTTL := int64 (cfg_TTLSeconds cfg * second_ns)\<rparr> else s3))"

definition newOpenAIProxyStreamCircuit :: "circuit_settings \<Rightarrow> circuit" where
  "newOpenAIProxyStreamCircuit s0 =
     (let s1 = (if failureThreshold s0 \<le> 0
                then s0\<lparr>failureThreshold := defaultOpenAIProxyStreamFailureThreshold\<rparr> else s0);
          s2 = (if failureWindow s1 \<le> 0
                then s1\<lparr>failureWindow := defaultOpenAIProxyStreamFailureWindow\<rparr> else s1);
          s3 = (if quarantineTTL s2 \<le> 0
                then s2\<lparr>quarantineTTL := defaultOpenAIProxyStreamQuarantineTTL\<rparr> else s2);
          s4 = (if maxEntries s3 \<le> 0
                then s3\<lparr>maxEntries := defaultOpenAIProxyStreamCircuitMaxEntries\<rparr> else s3);
          s5 = (if collapseInterval s4 < 0 then s4\<lparr>collapseInterval := 0\<rparr> else s4)
      in \<lparr>settings = s5, entries = []\<rparr>)"

text \<open>The lazily created circuit of the gateway service (\<open>sync.Once\<close>).\<close>

definition getOpenAIProxyStreamCircuit ::
  "circuit option \<Rightarrow> circuit_config option \<Rightarrow> circuit" where
  "getOpenAIProxyStreamCircuit current scfg =
     (case current of
        Some c \<Rightarrow> c
      | None \<Rightarrow> newOpenAIProxyStreamCircuit (resolveOpenAIProxyStreamCircuitSettings scfg))"

section \<open>Operations\<close>

definition stale_or_expired :: "circuit_settings \<Rightarrow> go_time \<Rightarrow> circuit_entry \<Rightarrow> bool" where
  "stale_or_expired s now e \<longleftrightarrow>
     (is_zero_time (blockedUntil e) \<and> time_sub now (lastTouched e) > failureWindow s)
     \<or> (\<not> is_zero_time (blockedUntil e) \<and> \<not> now < blockedUntil e)"

text \<open>
  The scan for the least recently touched entry: \<open>oldestProxyID = 0\<close> marks \<open>none yet\<close>,
  as in the source.
\<close>

fun oldest_scan :: "int \<Rightarrow> go_time \<Rightarrow> (int \<times> circuit_entry) list \<Rightarrow> int" where
  "oldest_scan oldestID oldest [] = oldestID"
| "oldest_scan oldestID oldest ((pid, e) # rest) =
     (if oldestID = 0 \<or> lastTouched e < oldest
      then oldest_scan pid (lastTouched e) rest
      else oldest_scan oldestID oldest rest)"

definition ensureCapacityLocked ::
  "((int \<times> circuit_entry) list \<Rightarrow> (int \<times> circuit_entry) list) \<Rightarrow> go_time \<Rightarrow> circuit \<Rightarrow> circuit" where
  "ensureCapacityLocked order now c =
     (if int (length (entries c)) < maxEntries (settings c) then c
      else
        let kept = filter (\<lambda>(pid, e). \<not> stale_or_expired (settings c) now e) (entries c)
        in if int (length kept) < maxEntries (settings c) then c\<lparr>entries := kept\<rparr>
           else
             let oldestID = oldest_scan 0 0 (order kept)
             in if oldestID > 0 then c\<lparr>entries := AList.delete oldestID kept\<rparr>
                else c\<lparr>entries := kept\<rparr>)"

text \<open>
  The counting part of \<open>recordFailure\<close>: restart an old window, merge a burst of
  disconnects into one event, count, and trip at the threshold.
\<close>

definition count_failure ::
  "int \<Rightarrow> go_time \<Rightarrow> circuit \<Rightarrow> circuit_entry \<Rightarrow> (bool \<times> go_time) \<times> circuit" where
  "count_failure proxyID now c e0 =
     (let s = settings c;
          e1 = (if is_zero_time (windowStart e0) \<or> now < windowStart e0
                   \<or> time_sub now (windowStart e0) > failureWindow s
                then e0\<lparr>failureCount := 0, windowStart := now, blockedUntil := 0\<rparr>
                else e0)
      in if collapseInterval s > 0 \<and> \<not> is_zero_time (lastFailureAt e1)
            \<and> time_sub now (lastFailureAt e1) \<ge> 0
            \<and> time_sub now (lastFailureAt e1) < collapseInterval s
         then ((False, 0),
               c\<lparr>entries := AList.update proxyID (e1\<lparr>lastTouched := now\<rparr>) (entries c)\<rparr>)
         else
           let e2 = e1\<lparr>failureCount := failureCount e1 + 1, lastFailureAt := now,
                       lastTouched := now\<rparr>;
               tripped = (failureCount e2 \<ge> failureThreshold s);
               e3 = (if tripped then e2\<lparr>blockedUntil := now + quarantineTTL s\<rparr> else e2)
           in ((tripped, blockedUntil e3),
               c\<lparr>entries := AList.update proxyID e3 (entries c)\<rparr>))"

definition recordFailure_locked ::
  "((int \<times> circuit_entry) list \<Rightarrow> (int \<times> circuit_entry) list) \<Rightarrow> int \<Rightarrow> go_time \<Rightarrow> circuit
     \<Rightarrow> (bool \<times> go_time) \<times> circuit" where
  "recordFailure_locked order proxyID now c =
     (case map_of (entries c) proxyID of
        Some e0 \<Rightarrow>
          if now < blockedUntil e0
          then ((False, blockedUntil e0),
                c\<lparr>entries := AList.update proxyID (e0\<lparr>lastTouched := now\<rparr>) (entries c)\<rparr>)
          else count_failure proxyID now c e0
      | None \<Rightarrow> count_failure proxyID now (ensureCapacityLocked order now c) zero_entry)"

definition recordFailure ::
  "((int \<times> circuit_entry) list \<Rightarrow> (int \<times> circuit_entry) list) \<Rightarrow> int \<Rightarrow> go_time
     \<Rightarrow> circuit option \<Rightarrow> (bool \<times> go_time) \<times> circuit option" where
  "recordFailure order proxyID now oc =
     (case oc of
        None \<Rightarrow> ((False, 0), None)
      | Some c \<Rightarrow>
          if disabled (settings c) \<or> proxyID \<le> 0 then ((False, 0), Some c)
          else (case recordFailure_locked order proxyID now c of
                  (r, c') \<Rightarrow> (r, Some c')))"

definition recordSuccess :: "int \<Rightarrow> circuit option \<Rightarrow> bool \<times> circuit option" where
  "recordSuccess proxyID oc =
     (case oc of
        None \<Rightarrow> (False, None)
      | Some c \<Rightarrow>
          if proxyID \<le> 0 then (False, Some c)
          else (case map_of (entries c) proxyID of
                  None \<Rightarrow> (False, Some c)
                | Some _ \<Rightarrow> (True, Some (c\<lparr>entries := AList.delete proxyID (entries c)\<rparr>))))"

definition isBlocked :: "int \<Rightarrow> go_time \<Rightarrow> circuit option \<Rightarrow> bool \<times> circuit option" where
  "isBlocked proxyID now oc =
     (case oc of
        None \<Rightarrow> (False, None)
      | Some c \<Rightarrow>
          if disabled (settings c) \<or> proxyID \<le> 0 then (False, Some c)
          else (case map_of (entries c) proxyID of
                  None \<Rightarrow> (False, Some c)
                | Some e \<Rightarrow>
                    if is_zero_time (blockedUntil e) then (False, Some c)
                    else if \<not> now < blockedUntil e
                    then (False, Some (c\<lparr>entries := AList.delete proxyID (entries c)\<rparr>))
                    else (True, Some c)))"

definition activeBlockCount :: "go_time \<Rightarrow> circuit option \<Rightarrow> nat" where
  "activeBlockCount now oc =
     (case oc of
        None \<Rightarrow> 0
      | Some c \<Rightarrow>
          if disabled (settings c) then 0
          else length (filter (\<lambda>(pid, e). \<not> is_zero_time (blockedUntil e) \<and> now < blockedUntil e)
                              (entries c)))"

section \<open>The gateway's use of the circuit\<close>

text \<open>
  Only the fields of an account that the circuit reads; \<open>None\<close> is a nil account.  The
  error of a stream is abstracted to the two tests the code makes on it.
\<close>

record stream_account =
  acct_Platform :: string
  acct_ProxyID :: "int option"

datatype stream_error = ContextCanceled | ContextDeadlineExceeded | OtherStreamError

definition openAIProxyStreamCircuitProxyID :: "stream_account option \<Rightarrow> int option" where
  "openAIProxyStreamCircuitProxyID account =
     (case account of
        None \<Rightarrow> None
      | Some a \<Rightarrow>
          if acct_Platform a \<noteq> ''openai'' then None
          else (case acct_ProxyID a of
                  None \<Rightarrow> None
                | Some pid \<Rightarrow> if pid \<le> 0 then None else Some pid))"

definition recordOpenAIProxyStreamDisconnect ::
  "((int \<times> circuit_entry) list \<Rightarrow> (int \<times> circuit_entry) list) \<Rightarrow> stream_account option
     \<Rightarrow> stream_error option \<Rightarrow> go_time \<Rightarrow> circuit \<Rightarrow> circuit" where
  "recordOpenAIProxyStreamDisconnect order account streamErr now c =
     (case openAIProxyStreamCircuitProxyID account of
        None \<Rightarrow> c
      | Some pid \<Rightarrow>
          if streamErr = None \<or> streamErr = Some ContextCanceled
             \<or> streamErr = Some ContextDeadlineExceeded
          then c
          else the (snd (recordFailure order pid now (Some c))))"

definition clearOpenAIProxyStreamDisconnect ::
  "stream_account option \<Rightarrow> circuit \<Rightarrow> circuit" where
  "clearOpenAIProxyStreamDisconnect account c =
     (case openAIProxyStreamCircuitProxyID account of
        None \<Rightarrow> c
      | Some pid \<Rightarrow> the (snd (recordSuccess pid (Some c))))"

definition isOpenAIProxyStreamQuarantined ::
  "bool \<Rightarrow> stream_account option \<Rightarrow> go_time \<Rightarrow> circuit option \<Rightarrow> bool \<times> circuit option" where
  "isOpenAIProxyStreamQuarantined bypassed account now oc =
     (case openAIProxyStreamCircuitProxyID account of
        None \<Rightarrow> (False, oc)
      | Some pid \<Rightarrow>
          if bypassed then (False, oc)
          else isBlocked pid now oc)"

text \<open>
  The rate limit of the fail-open warning: the atomic holds the last log time (Unix
  nanoseconds); the model is the uncontended compare-and-swap.
\<close>

definition logOpenAIProxyStreamQuarantineFailOpen :: "int \<Rightarrow> int \<Rightarrow> bool \<times> int" where
  "logOpenAIProxyStreamQuarantineFailOpen now lastLog =
     (if now - lastLog < openAIProxyStreamFailOpenLogInterval then (False, lastLog)
      else (True, now))"

section \<open>Invariant\<close>

definition settings_ok :: "circuit_settings \<Rightarrow> bool" where
  "settings_ok s \<longleftrightarrow> failureThreshold s > 0 \<and> failureWindow s > 0 \<and> quarantineTTL s > 0
     \<and> maxEntries s > 0 \<and> collapseInterval s \<ge> 0"

definition circuit_inv :: "circuit \<Rightarrow> bool" where
  "circuit_inv c \<longleftrightarrow> settings_ok (settings c) \<and> gomap_wf (entries c)
     \<and> (\<forall>k \<in> fst ` set (entries c). k > 0)
     \<and> int (length (entries c)) \<le> maxEntries (settings c)"

lemma new_settings_ok: "settings_ok (settings (newOpenAIProxyStreamCircuit s))"
  by (simp add: newOpenAIProxyStreamCircuit_def settings_ok_def circuit_defaults Let_def
      minute_ns_def)

lemma new_circuit_inv: "circuit_inv (newOpenAIProxyStreamCircuit s)"
  using new_settings_ok [of s]
  by (simp add: circuit_inv_def newOpenAIProxyStreamCircuit_def Let_def settings_ok_def)

lemma oldest_scan_mem:
  "oldest_scan i t xs = i \<or> oldest_scan i t xs \<in> fst ` set xs"
  by (induction i t xs rule: oldest_scan.induct) auto

lemma oldest_scan_nonempty:
  assumes "xs \<noteq> []" and "\<forall>k \<in> fst ` set xs. k > 0"
  shows "oldest_scan 0 t xs \<in> fst ` set xs"
proof (cases xs)
  case (Cons x rest)
  then obtain pid e where x: "xs = (pid, e) # rest" by (cases x) auto
  then show ?thesis
    using oldest_scan_mem [of pid "lastTouched e" rest] by auto
qed (use assms in simp)

text \<open>The scan finds an entry that no other entry was touched before.\<close>

lemma oldest_scan_least:
  assumes "i \<noteq> 0" and "\<forall>j \<in> fst ` set xs. j \<noteq> 0"
  shows "\<exists>u. u \<le> t
           \<and> ((oldest_scan i t xs = i \<and> u = t)
              \<or> (\<exists>e. (oldest_scan i t xs, e) \<in> set xs \<and> lastTouched e = u))
           \<and> (\<forall>p \<in> set xs. u \<le> lastTouched (snd p))"
  using assms
proof (induction xs arbitrary: i t)
  case (Cons x xs)
  obtain pid e where x: "x = (pid, e)" by (cases x)
  define i' t' where "i' = (if lastTouched e < t then pid else i)"
    and "t' = (if lastTouched e < t then lastTouched e else t)"
  have step: "oldest_scan i t (x # xs) = oldest_scan i' t' xs"
    using Cons.prems by (simp add: x i'_def t'_def)
  have "i' \<noteq> 0" and "\<forall>j \<in> fst ` set xs. j \<noteq> 0"
    using Cons.prems by (auto simp: x i'_def)
  from Cons.IH [OF this, of t'] obtain u where u: "u \<le> t'"
    "(oldest_scan i' t' xs = i' \<and> u = t')
       \<or> (\<exists>e. (oldest_scan i' t' xs, e) \<in> set xs \<and> lastTouched e = u)"
    "\<forall>p \<in> set xs. u \<le> lastTouched (snd p)"
    by blast
  have "u \<le> t" and "u \<le> lastTouched e"
    using u(1) by (auto simp: t'_def split: if_splits)
  moreover have "(oldest_scan i' t' xs = i \<and> u = t)
       \<or> (\<exists>e. (oldest_scan i' t' xs, e) \<in> set (x # xs) \<and> lastTouched e = u)"
    using u(2) by (auto simp: x i'_def t'_def split: if_splits)
  ultimately show ?case
    using u(3) unfolding step by (intro exI [of _ u]) (simp add: x)
qed simp

lemma ensureCapacity_settings [simp]: "settings (ensureCapacityLocked order now c) = settings c"
  by (simp add: ensureCapacityLocked_def Let_def)

lemma ensureCapacity_subset:
  "set (entries (ensureCapacityLocked order now c)) \<subseteq> set (entries c)"
  by (auto simp: ensureCapacityLocked_def Let_def AList.delete_eq)

lemma ensureCapacity_wf:
  "gomap_wf (entries c) \<Longrightarrow> gomap_wf (entries (ensureCapacityLocked order now c))"
  by (simp add: ensureCapacityLocked_def Let_def)

lemma ensureCapacity_room:
  assumes "iteration_order order" and "circuit_inv c"
  shows "int (length (entries (ensureCapacityLocked order now c))) < maxEntries (settings c)"
proof -
  let ?kept = "filter (\<lambda>(pid, e). \<not> stale_or_expired (settings c) now e) (entries c)"
  let ?old = "oldest_scan 0 0 (order ?kept)"
  have len: "int (length ?kept) \<le> maxEntries (settings c)"
    using assms(2) length_filter_le [of _ "entries c"]
    unfolding circuit_inv_def by (meson of_nat_le_iff order_trans)
  have pos: "\<forall>k \<in> fst ` set ?kept. k > 0" and max: "maxEntries (settings c) > 0"
    using assms(2) by (auto simp: circuit_inv_def settings_ok_def)
  have del: "int (length (AList.delete ?old ?kept)) < maxEntries (settings c) \<and> ?old > 0"
    if "\<not> int (length ?kept) < maxEntries (settings c)"
  proof -
    have "order ?kept \<noteq> []"
    proof
      assume "order ?kept = []"
      then have "length ?kept = 0"
        using assms(1) by (metis iteration_order_def list.size(3) mset_eq_length)
      then show False using that max by linarith
    qed
    then have old: "?old \<in> fst ` set ?kept"
      using oldest_scan_nonempty [of "order ?kept"] pos iteration_order_set [OF assms(1)] by auto
    then show ?thesis using pos len length_delete_present [OF old] by fastforce
  qed
  show ?thesis
    using del by (auto simp: ensureCapacityLocked_def Let_def)
qed

lemma ensureCapacity_inv:
  assumes "iteration_order order" and "circuit_inv c"
  shows "circuit_inv (ensureCapacityLocked order now c)"
  using assms ensureCapacity_room [OF assms, of now] ensureCapacity_wf [of c order now]
    ensureCapacity_subset [of order now c]
  by (fastforce simp: circuit_inv_def)

lemma circuit_inv_store:
  assumes "circuit_inv c" and "pid > 0"
    and "pid \<in> fst ` set (entries c) \<or> int (length (entries c)) < maxEntries (settings c)"
  shows "circuit_inv (c\<lparr>entries := AList.update pid e (entries c)\<rparr>)"
proof -
  have "int (length (AList.update pid e (entries c))) \<le> maxEntries (settings c)"
  proof (cases "pid \<in> fst ` set (entries c)")
    case True
    with assms(1) show ?thesis by (simp add: length_update_present circuit_inv_def)
  next
    case False
    with assms show ?thesis by (simp add: length_update_absent circuit_inv_def)
  qed
  with assms show ?thesis by (auto simp: circuit_inv_def)
qed

lemma circuit_inv_delete:
  "circuit_inv c \<Longrightarrow> circuit_inv (c\<lparr>entries := AList.delete pid (entries c)\<rparr>)"
  using length_delete_le [of pid "entries c"] by (auto simp: circuit_inv_def)

lemma count_failure_inv:
  assumes "circuit_inv c" and "pid > 0"
    and "pid \<in> fst ` set (entries c) \<or> int (length (entries c)) < maxEntries (settings c)"
  shows "circuit_inv (snd (count_failure pid now c e))"
  using circuit_inv_store [OF assms] by (simp add: count_failure_def Let_def)

lemma recordFailure_locked_inv:
  assumes "iteration_order order" and "circuit_inv c" and "pid > 0"
  shows "circuit_inv (snd (recordFailure_locked order pid now c))"
proof (cases "map_of (entries c) pid")
  case None
  then show ?thesis
    using ensureCapacity_room [OF assms(1,2), of now] assms
    by (auto simp: recordFailure_locked_def intro!: count_failure_inv ensureCapacity_inv)
next
  case (Some e0)
  then have "pid \<in> fst ` set (entries c)"
    by (metis map_of_eq_None_keys option.distinct(1))
  with Some show ?thesis
    using assms by (auto simp: recordFailure_locked_def intro!: count_failure_inv circuit_inv_store)
qed

section \<open>Runs\<close>

datatype circuit_event =
  StreamFailure int go_time | StreamSuccess int | BlockCheck int go_time

fun circuit_step ::
  "((int \<times> circuit_entry) list \<Rightarrow> (int \<times> circuit_entry) list) \<Rightarrow> circuit \<Rightarrow> circuit_event
     \<Rightarrow> circuit" where
  "circuit_step order c (StreamFailure pid t) = the (snd (recordFailure order pid t (Some c)))"
| "circuit_step order c (StreamSuccess pid) = the (snd (recordSuccess pid (Some c)))"
| "circuit_step order c (BlockCheck pid t) = the (snd (isBlocked pid t (Some c)))"

fun circuit_run ::
  "((int \<times> circuit_entry) list \<Rightarrow> (int \<times> circuit_entry) list) \<Rightarrow> circuit \<Rightarrow> circuit_event list
     \<Rightarrow> circuit" where
  "circuit_run order c [] = c"
| "circuit_run order c (ev # evs) = circuit_run order (circuit_step order c ev) evs"

lemma circuit_step_inv:
  assumes "iteration_order order" and "circuit_inv c"
  shows "circuit_inv (circuit_step order c ev)"
proof (cases ev)
  case (StreamFailure pid t)
  then show ?thesis
    using recordFailure_locked_inv [OF assms, of pid t] assms(2)
    by (auto simp: recordFailure_def split: prod.splits)
qed (use assms circuit_inv_delete in
      \<open>auto simp: recordSuccess_def isBlocked_def split: option.splits\<close>)

lemma circuit_run_inv_from:
  "iteration_order order \<Longrightarrow> circuit_inv c \<Longrightarrow> circuit_inv (circuit_run order c evs)"
  by (induction evs arbitrary: c) (auto intro: circuit_step_inv)

text \<open>C34 (circuit_run_bounded): whatever sequence of disconnects, completed streams and
  quarantine checks a new circuit sees, and in whatever order the runtime iterates its map,
  the map never holds more than \<open>maxEntries\<close> proxies, no proxy twice and only positive
  proxy ids, so memory stays bounded and the sentinel \<open>0\<close> of the eviction scan is never a
  key.\<close>

theorem circuit_run_bounded:
  assumes "iteration_order order"
  shows "let c = circuit_run order (newOpenAIProxyStreamCircuit s) evs in
     int (length (entries c)) \<le> maxEntries (settings c) \<and> gomap_wf (entries c)
     \<and> (\<forall>k \<in> fst ` set (entries c). k > 0)"
  using circuit_run_inv_from [OF assms new_circuit_inv, of s evs]
  by (simp add: circuit_inv_def Let_def)

theorem circuit_run_bounded_witness:
  "let c = circuit_run rev (newOpenAIProxyStreamCircuit
              \<lparr>disabled = False, failureThreshold = 2, failureWindow = 60, quarantineTTL = 600,
               collapseInterval = 3, maxEntries = 1\<rparr>) [StreamFailure 7 1, StreamFailure 8 2] in
     int (length (entries c)) \<le> maxEntries (settings c) \<and> gomap_wf (entries c)
     \<and> (\<forall>k \<in> fst ` set (entries c). k > 0)"
  by (rule circuit_run_bounded [OF iteration_order_rev])

section \<open>Quarantine\<close>

lemma count_failure_tripped:
  assumes "count_failure pid now c e = ((True, until), c')"
  shows "until = now + quarantineTTL (settings c)
    \<and> (\<exists>e'. map_of (entries c') pid = Some e' \<and> blockedUntil e' = until)
    \<and> settings c' = settings c"
  using assms by (auto simp: count_failure_def Let_def split: if_splits)

lemma recordFailure_tripped:
  assumes "recordFailure order pid now (Some c) = ((True, until), Some c')"
  shows "until = now + quarantineTTL (settings c)
    \<and> (\<exists>e'. map_of (entries c') pid = Some e' \<and> blockedUntil e' = until)
    \<and> settings c' = settings c \<and> \<not> disabled (settings c) \<and> pid > 0"
  using assms
  by (auto simp: recordFailure_def recordFailure_locked_def
      split: if_splits prod.splits option.splits dest!: count_failure_tripped)

text \<open>When \<open>recordFailure\<close> reports that a proxy
  tripped, the returned deadline is \<open>now + quarantineTTL\<close> and \<open>isBlocked\<close> answers
  \<open>true\<close> for that proxy at exactly the times before the deadline: the quarantine neither
  ends early nor outlives its TTL.\<close>

theorem trip_quarantines_exactly_ttl:
  assumes "circuit_inv c" and "now > 0"
    and "recordFailure order pid now (Some c) = ((True, until), Some c')"
  shows "until = now + quarantineTTL (settings c)
    \<and> (\<forall>t. fst (isBlocked pid t (Some c')) \<longleftrightarrow> t < until)"
proof -
  from recordFailure_tripped [OF assms(3)] obtain e' where
    "until = now + quarantineTTL (settings c)" "map_of (entries c') pid = Some e'"
    "blockedUntil e' = until" "settings c' = settings c" "\<not> disabled (settings c)" "pid > 0"
    by blast
  moreover from this assms(1,2) have "until > 0"
    by (simp add: circuit_inv_def settings_ok_def)
  ultimately show ?thesis
    by (auto simp: isBlocked_def is_zero_time_def)
qed

definition sample_circuit :: circuit where
  "sample_circuit = newOpenAIProxyStreamCircuit
     \<lparr>disabled = False, failureThreshold = 2, failureWindow = 60, quarantineTTL = 600,
      collapseInterval = 3, maxEntries = 2\<rparr>"

lemma sample_circuit_inv: "circuit_inv sample_circuit"
  unfolding sample_circuit_def by (rule new_circuit_inv)

lemmas circuit_eval =
  sample_circuit_def newOpenAIProxyStreamCircuit_def circuit_defaults recordFailure_def
  recordFailure_locked_def count_failure_def ensureCapacityLocked_def recordSuccess_def
  isBlocked_def zero_entry_def Let_def is_zero_time_def time_sub_def

theorem trip_quarantines_exactly_ttl_witness:
  "\<exists>c until c'. circuit_inv c
     \<and> recordFailure rev 7 110 (Some c) = ((True, until), Some c')
     \<and> until = 110 + 600 \<and> (\<forall>t. fst (isBlocked 7 t (Some c')) \<longleftrightarrow> t < until)"
proof -
  define c where "c = circuit_step rev sample_circuit (StreamFailure 7 100)"
  have inv: "circuit_inv c"
    unfolding c_def by (rule circuit_step_inv [OF iteration_order_rev sample_circuit_inv])
  obtain until c' where trip: "recordFailure rev 7 110 (Some c) = ((True, until), Some c')"
    and ttl: "quarantineTTL (settings c) = 600"
    unfolding c_def by (simp add: circuit_eval)
  from trip_quarantines_exactly_ttl [OF inv _ trip] ttl
  have "until = 110 + 600 \<and> (\<forall>t. fst (isBlocked 7 t (Some c')) \<longleftrightarrow> t < until)" by simp
  with inv trip show ?thesis by blast
qed

section \<open>Bursts and spaced failures\<close>

text \<open>Recording a list of disconnects of one proxy; the result lists the trip flags.\<close>

fun record_failures ::
  "((int \<times> circuit_entry) list \<Rightarrow> (int \<times> circuit_entry) list) \<Rightarrow> int \<Rightarrow> circuit \<Rightarrow> go_time list
     \<Rightarrow> bool list" where
  "record_failures order pid c [] = []"
| "record_failures order pid c (t # ts) =
     fst (fst (recordFailure order pid t (Some c)))
       # record_failures order pid (the (snd (recordFailure order pid t (Some c)))) ts"

definition enabled_for :: "circuit \<Rightarrow> int \<Rightarrow> bool" where
  "enabled_for c pid \<longleftrightarrow> \<not> disabled (settings c) \<and> pid > 0 \<and> settings_ok (settings c)
     \<and> collapseInterval (settings c) < 2 ^ 63 \<and> failureWindow (settings c) < 2 ^ 63 - 1"

lemma recordFailure_entry:
  assumes "enabled_for c pid" and "map_of (entries c) pid = Some e" and "\<not> t < blockedUntil e"
  shows "recordFailure order pid t (Some c)
    = (fst (count_failure pid t c e), Some (snd (count_failure pid t c e)))"
  using assms by (simp add: recordFailure_def recordFailure_locked_def enabled_for_def
      split: prod.splits)

lemma recordFailure_fresh:
  assumes "enabled_for c pid" and "map_of (entries c) pid = None"
  shows "\<exists>c0. settings c0 = settings c \<and> recordFailure order pid t (Some c)
    = (fst (count_failure pid t c0 zero_entry), Some (snd (count_failure pid t c0 zero_entry)))"
  using assms
  by (intro exI [of _ "ensureCapacityLocked order t c"])
    (simp add: recordFailure_def recordFailure_locked_def enabled_for_def split: prod.splits)

lemma count_failure_collapsed:
  assumes "lastFailureAt e \<noteq> 0" and "0 \<le> time_sub now (lastFailureAt e)"
    and "time_sub now (lastFailureAt e) < collapseInterval (settings c)"
  shows "\<exists>e'. count_failure pid now c e
      = ((False, 0), c\<lparr>entries := AList.update pid e' (entries c)\<rparr>)
    \<and> lastFailureAt e' = lastFailureAt e \<and> (blockedUntil e = 0 \<longrightarrow> blockedUntil e' = 0)"
proof -
  let ?reset = "is_zero_time (windowStart e) \<or> now < windowStart e
    \<or> time_sub now (windowStart e) > failureWindow (settings c)"
  let ?e = "if ?reset then e\<lparr>failureCount := 0, windowStart := now, blockedUntil := 0\<rparr> else e"
  have "lastFailureAt ?e = lastFailureAt e" by simp
  moreover from assms have "collapseInterval (settings c) > 0" by linarith
  ultimately have "count_failure pid now c e
      = ((False, 0), c\<lparr>entries := AList.update pid (?e\<lparr>lastTouched := now\<rparr>) (entries c)\<rparr>)"
    using assms by (simp only: count_failure_def Let_def is_zero_time_def) simp
  then show ?thesis by (intro exI [of _ "?e\<lparr>lastTouched := now\<rparr>"]) simp
qed

lemma burst_tail_never_trips:
  assumes "enabled_for c pid" and "map_of (entries c) pid = Some e"
    and "lastFailureAt e = t0" and "blockedUntil e = 0" and "t0 > 0"
    and "\<forall>t \<in> set ts. t0 \<le> t \<and> t < t0 + collapseInterval (settings c)"
  shows "True \<notin> set (record_failures order pid c ts)"
  using assms
proof (induction ts arbitrary: c e)
  case (Cons t ts)
  have t: "t0 \<le> t" "t < t0 + collapseInterval (settings c)" using Cons.prems(6) by auto
  have "time_sub t t0 < collapseInterval (settings c)"
    using Cons.prems(1) t by (subst time_sub_less) (auto simp: enabled_for_def)
  then obtain e' where e': "count_failure pid t c e
        = ((False, 0), c\<lparr>entries := AList.update pid e' (entries c)\<rparr>)"
      "lastFailureAt e' = t0" "blockedUntil e' = 0"
    using count_failure_collapsed [of e t c pid] Cons.prems t by auto
  let ?c' = "c\<lparr>entries := AList.update pid e' (entries c)\<rparr>"
  have "True \<notin> set (record_failures order pid ?c' ts)"
    using Cons.prems e' by (intro Cons.IH [of ?c' e']) (auto simp: enabled_for_def)
  moreover have "\<not> t < blockedUntil e" using Cons.prems t by simp
  ultimately show ?case
    using e' recordFailure_entry [OF Cons.prems(1,2)] by simp
qed simp

text \<open>A burst of disconnects of one proxy, each within
  \<open>collapseInterval\<close> of the first, never trips the breaker when the threshold is at least
  two: one connection loss that kills every multiplexed stream counts as one event.\<close>

theorem burst_is_one_failure:
  assumes "enabled_for c pid" and "map_of (entries c) pid = None" and "t0 > 0"
    and "failureThreshold (settings c) \<ge> 2"
    and "\<forall>t \<in> set ts. t0 \<le> t \<and> t < t0 + collapseInterval (settings c)"
  shows "True \<notin> set (record_failures order pid c (t0 # ts))"
proof -
  obtain c0 where c0: "settings c0 = settings c" "recordFailure order pid t0 (Some c)
    = (fst (count_failure pid t0 c0 zero_entry), Some (snd (count_failure pid t0 c0 zero_entry)))"
    using recordFailure_fresh [OF assms(1,2)] by blast
  let ?c1 = "snd (count_failure pid t0 c0 zero_entry)"
  obtain e where e: "map_of (entries ?c1) pid = Some e" "lastFailureAt e = t0"
      "blockedUntil e = 0" "settings ?c1 = settings c"
      "\<not> fst (fst (count_failure pid t0 c0 zero_entry))"
    using assms c0(1) by (auto simp: count_failure_def zero_entry_def Let_def is_zero_time_def)
  have "True \<notin> set (record_failures order pid ?c1 ts)"
    using assms e by (intro burst_tail_never_trips [of ?c1 pid e t0]) (auto simp: enabled_for_def)
  with e c0 show ?thesis by simp
qed

theorem burst_is_one_failure_witness:
  "enabled_for sample_circuit 7
   \<and> True \<notin> set (record_failures rev 7 sample_circuit (100 # [100, 101, 102]))"
proof -
  have en: "enabled_for sample_circuit 7" and none: "map_of (entries sample_circuit) 7 = None"
    and thr: "failureThreshold (settings sample_circuit) \<ge> 2"
    and ci: "collapseInterval (settings sample_circuit) = 3"
    by (simp_all add: circuit_eval enabled_for_def settings_ok_def)
  have "True \<notin> set (record_failures rev 7 sample_circuit (100 # [100, 101, 102]))"
    by (rule burst_is_one_failure [OF en none _ thr]) (simp_all add: ci)
  with en show ?thesis by (rule conjI)
qed

fun spaced :: "duration \<Rightarrow> go_time \<Rightarrow> go_time list \<Rightarrow> bool" where
  "spaced d prev [] = True"
| "spaced d prev (t # ts) \<longleftrightarrow> prev + d \<le> t \<and> spaced d t ts"

lemma spaced_count_step:
  assumes "enabled_for c pid" and "map_of (entries c) pid = Some e"
    and "blockedUntil e = 0" and "windowStart e > 0" and "lastFailureAt e > 0"
    and "windowStart e \<le> lastFailureAt e"
    and "lastFailureAt e + collapseInterval (settings c) \<le> t"
    and "t \<le> windowStart e + failureWindow (settings c)"
  shows "\<exists>c'. recordFailure order pid t (Some c)
      = ((failureCount e + 1 \<ge> failureThreshold (settings c),
          if failureCount e + 1 \<ge> failureThreshold (settings c)
          then t + quarantineTTL (settings c) else 0), Some c')
    \<and> settings c' = settings c
    \<and> (failureCount e + 1 < failureThreshold (settings c) \<longrightarrow>
        map_of (entries c') pid = Some (e\<lparr>failureCount := failureCount e + 1,
          lastFailureAt := t, lastTouched := t\<rparr>))"
proof -
  have ci: "collapseInterval (settings c) \<ge> 0" "failureWindow (settings c) > 0"
      "collapseInterval (settings c) < 2 ^ 63" "failureWindow (settings c) < 2 ^ 63 - 1"
    using assms(1) by (auto simp: enabled_for_def settings_ok_def)
  have "\<not> time_sub t (windowStart e) > failureWindow (settings c)"
    using ci assms(8) by (subst time_sub_greater) auto
  moreover have "\<not> (collapseInterval (settings c) > 0
      \<and> time_sub t (lastFailureAt e) < collapseInterval (settings c))"
    using ci assms(7) by (subst time_sub_less) auto
  moreover have "\<not> t < blockedUntil e" and "\<not> t < windowStart e"
    using assms ci by auto
  ultimately show ?thesis
    using recordFailure_entry [OF assms(1,2)] assms
    by (auto simp: count_failure_def Let_def is_zero_time_def)
qed

lemma spaced_failures_count:
  assumes "enabled_for c pid" and "map_of (entries c) pid = Some e"
    and "blockedUntil e = 0" and "windowStart e > 0" and "lastFailureAt e > 0"
    and "windowStart e \<le> lastFailureAt e"
    and "spaced (collapseInterval (settings c)) (lastFailureAt e) ts"
    and "\<forall>t \<in> set ts. t \<le> windowStart e + failureWindow (settings c)"
    and "failureCount e + int (length ts) = failureThreshold (settings c)" and "ts \<noteq> []"
  shows "record_failures order pid c ts = replicate (length ts - 1) False @ [True]"
  using assms
proof (induction ts arbitrary: c e)
  case (Cons t ts)
  from Cons.prems obtain c' where c': "recordFailure order pid t (Some c)
      = ((failureCount e + 1 \<ge> failureThreshold (settings c),
          if failureCount e + 1 \<ge> failureThreshold (settings c)
          then t + quarantineTTL (settings c) else 0), Some c')" "settings c' = settings c"
      "failureCount e + 1 < failureThreshold (settings c) \<longrightarrow>
        map_of (entries c') pid = Some (e\<lparr>failureCount := failureCount e + 1,
          lastFailureAt := t, lastTouched := t\<rparr>)"
    using spaced_count_step [OF Cons.prems(1-6), of t order] by auto
  show ?case
  proof (cases ts)
    case Nil
    with Cons.prems c' show ?thesis by simp
  next
    case more: (Cons u us)
    then have lt: "failureCount e + 1 < failureThreshold (settings c)" using Cons.prems(9) by simp
    let ?e = "e\<lparr>failureCount := failureCount e + 1, lastFailureAt := t, lastTouched := t\<rparr>"
    have ci: "collapseInterval (settings c) \<ge> 0"
      using Cons.prems(1) by (auto simp: enabled_for_def settings_ok_def)
    have "record_failures order pid c' ts = replicate (length ts - 1) False @ [True]"
      using Cons.prems c' lt more ci
      by (intro Cons.IH [of c' ?e]) (auto simp: enabled_for_def)
    with c' lt more show ?thesis by simp
  qed
qed simp

text \<open>Exactly \<open>failureThreshold\<close> disconnects of a proxy
  without a record, spaced at least \<open>collapseInterval\<close> apart and inside one failure
  window, trip the breaker, and only the last one does.\<close>

theorem threshold_failures_trip:
  assumes "enabled_for c pid" and "map_of (entries c) pid = None" and "t0 > 0"
    and "spaced (collapseInterval (settings c)) t0 ts"
    and "\<forall>t \<in> set ts. t \<le> t0 + failureWindow (settings c)"
    and "int (length (t0 # ts)) = failureThreshold (settings c)"
  shows "record_failures order pid c (t0 # ts) = replicate (length ts) False @ [True]"
proof -
  obtain c0 where c0: "settings c0 = settings c" "recordFailure order pid t0 (Some c)
    = (fst (count_failure pid t0 c0 zero_entry), Some (snd (count_failure pid t0 c0 zero_entry)))"
    using recordFailure_fresh [OF assms(1,2)] by blast
  let ?r = "count_failure pid t0 c0 zero_entry"
  have r: "settings (snd ?r) = settings c" "fst (fst ?r) = (ts = [])"
      "ts \<noteq> [] \<Longrightarrow> map_of (entries (snd ?r)) pid = Some \<lparr>failureCount = 1, windowStart = t0,
         lastFailureAt = t0, blockedUntil = 0, lastTouched = t0\<rparr>"
    using assms c0(1) by (cases ts; auto simp: count_failure_def zero_entry_def Let_def
        is_zero_time_def)+
  show ?thesis
  proof (cases "ts = []")
    case True
    with r c0 show ?thesis by simp
  next
    case False
    then have "record_failures order pid (snd ?r) ts = replicate (length ts - 1) False @ [True]"
      using assms r by (intro spaced_failures_count [OF _ r(3)]) (auto simp: enabled_for_def)
    with r c0 False show ?thesis by (cases ts) auto
  qed
qed

theorem threshold_failures_trip_witness:
  "record_failures rev 7 sample_circuit (100 # [110]) = [False, True]"
proof -
  have en: "enabled_for sample_circuit 7" and none: "map_of (entries sample_circuit) 7 = None"
    and thr: "int (length (100 # [110::int])) = failureThreshold (settings sample_circuit)"
    and ci: "collapseInterval (settings sample_circuit) = 3"
      "failureWindow (settings sample_circuit) = 60"
    by (simp_all add: circuit_eval enabled_for_def settings_ok_def)
  show ?thesis
    using threshold_failures_trip [OF en none _ _ _ thr, of rev] by (simp add: ci)
qed

section \<open>Eviction\<close>

text \<open>Making room never drops a live observation or a
  running quarantine unless every entry that stays was touched at least as recently; entries
  that are neither stale nor expired are otherwise kept.\<close>

theorem eviction_prefers_dead_entries:
  assumes "iteration_order order" and "circuit_inv c"
    and "(q, e) \<in> set (entries c)"
    and "(q, e) \<notin> set (entries (ensureCapacityLocked order now c))"
  shows "stale_or_expired (settings c) now e
    \<or> (\<forall>p \<in> set (entries (ensureCapacityLocked order now c)). lastTouched e \<le> lastTouched (snd p))"
proof (rule disjCI)
  assume older: "\<not> (\<forall>p \<in> set (entries (ensureCapacityLocked order now c)).
    lastTouched e \<le> lastTouched (snd p))"
  let ?kept = "filter (\<lambda>(pid, e). \<not> stale_or_expired (settings c) now e) (entries c)"
  let ?old = "oldest_scan 0 0 (order ?kept)"
  show "stale_or_expired (settings c) now e"
  proof (rule ccontr)
    assume live: "\<not> stale_or_expired (settings c) now e"
    with assms(3) have kept: "(q, e) \<in> set ?kept" by simp
    then have q: "q = ?old"
      and ens: "entries (ensureCapacityLocked order now c) = AList.delete ?old ?kept"
      using assms(3,4) by (auto simp: ensureCapacityLocked_def Let_def AList.delete_eq
          split: if_splits)
    have wf: "gomap_wf ?kept" using assms(2) by (simp add: circuit_inv_def)
    have nz: "\<forall>j \<in> fst ` set ?kept. j \<noteq> 0" using assms(2) by (auto simp: circuit_inv_def)
    have sets: "set (order ?kept) = set ?kept" by (rule iteration_order_set [OF assms(1)])
    then obtain i f rest where ord: "order ?kept = (i, f) # rest"
      using kept by (cases "order ?kept") auto
    have i0: "i \<noteq> 0" and rest0: "\<forall>j \<in> fst ` set rest. j \<noteq> 0"
    proof -
      have "\<forall>j \<in> fst ` set (order ?kept). j \<noteq> 0" using nz by (simp only: sets)
      then show "i \<noteq> 0" and "\<forall>j \<in> fst ` set rest. j \<noteq> 0" unfolding ord by auto
    qed
    from oldest_scan_least [OF i0 rest0, of "lastTouched f"] obtain g where
      "(?old, g) \<in> set (order ?kept)"
      "\<forall>p \<in> set (order ?kept). lastTouched g \<le> lastTouched (snd p)"
      unfolding ord by auto
    moreover from this(1) have "g = e"
      using wf kept q sets map_of_Some_iff [OF wf] by (metis option.inject)
    ultimately have "\<forall>p \<in> set ?kept. lastTouched e \<le> lastTouched (snd p)" by (simp only: sets)
    then show False using older ens by (auto simp: AList.delete_eq)
  qed
qed

theorem eviction_prefers_dead_entries_witness:
  "\<exists>c q e. circuit_inv c \<and> (q, e) \<in> set (entries c)
    \<and> (q, e) \<notin> set (entries (ensureCapacityLocked rev 30 c))
    \<and> (stale_or_expired (settings c) 30 e
        \<or> (\<forall>p \<in> set (entries (ensureCapacityLocked rev 30 c)). lastTouched e \<le> lastTouched (snd p)))"
proof -
  define c where "c = circuit_run rev sample_circuit [StreamFailure 7 10, StreamFailure 8 20]"
  have inv: "circuit_inv c"
    unfolding c_def by (rule circuit_run_inv_from [OF iteration_order_rev sample_circuit_inv])
  define e where "e = \<lparr>failureCount = 1, windowStart = 10, lastFailureAt = 10,
    blockedUntil = 0, lastTouched = 10\<rparr>"
  have mem: "(7, e) \<in> set (entries c)"
    and gone: "(7, e) \<notin> set (entries (ensureCapacityLocked rev 30 c))"
    unfolding c_def e_def by (simp_all add: circuit_eval stale_or_expired_def)
  from inv mem gone eviction_prefers_dead_entries [OF iteration_order_rev inv mem gone]
  show ?thesis by blast
qed

text \<open>A disconnect of one proxy never changes the record of another
  one while the failing proxy is already known or the map has room.\<close>

theorem failure_isolated:
  assumes "q \<noteq> pid"
    and "map_of (entries c) pid \<noteq> None \<or> int (length (entries c)) < maxEntries (settings c)"
    and "recordFailure order pid now (Some c) = (r, Some c')"
  shows "map_of (entries c') q = map_of (entries c) q"
  using assms
  by (auto simp: recordFailure_def recordFailure_locked_def count_failure_def
      ensureCapacityLocked_def Let_def split: if_splits option.splits prod.splits)

theorem failure_isolated_witness:
  "\<exists>r c'. recordFailure rev 7 100 (Some sample_circuit) = (r, Some c')
    \<and> map_of (entries c') 8 = map_of (entries sample_circuit) 8"
proof -
  obtain r c' where rc: "recordFailure rev 7 100 (Some sample_circuit) = (r, Some c')"
    by (simp add: circuit_eval)
  have "int (length (entries sample_circuit)) < maxEntries (settings sample_circuit)"
    by (simp add: circuit_eval)
  then show ?thesis using failure_isolated [OF _ _ rc, of 8] rc by auto
qed

end
