(* ===== verification/AuthAbuse.thy ===== *)
theory AuthAbuse
  imports Prelude
begin

text \<open>
  The invalid-authentication limiter of
  \<open>backend/internal/service/invalid_auth_abuse_limiter.go\<close>: sixteen shards of per-client
  failure windows, one overflow window for clients that do not fit, and atomic counters.  An
  operation takes the time \<open>l.now()\<close> returned as an argument.  The model runs operations one
  after the other; the compare-and-swap loops are modelled without contention.
\<close>

unbundle bit_operations_syntax

section \<open>State\<close>

definition invalidAuthAbuseShardCount :: nat where
  "invalidAuthAbuseShardCount = 16"

record abuse_entry =
  ae_failures :: int
  ae_windowStart :: go_time
  ae_blockedUntil :: go_time

record abuse_overflow =
  ov_failures :: int
  ov_windowStart :: go_time
  ov_blockedUntil :: go_time

record abuse_limiter =
  threshold :: int
  window :: duration
  block :: duration
  capacity :: int
  shards :: "(string, abuse_entry) gomap list"
  overflow :: abuse_overflow
  tracked :: int
  recorded :: "64 word"
  blocked :: "64 word"
  rejected :: "64 word"
  expired :: "64 word"
  overflowed :: "64 word"
  globalBlocked :: "64 word"
  cleanupNext :: int
  cleanupCursor :: "32 word"

record abuse_config =
  Enabled :: bool
  Threshold :: int
  WindowSeconds :: int
  BlockSeconds :: int
  Capacity :: int

definition newInvalidAuthAbuseLimiter :: "abuse_config option \<Rightarrow> abuse_limiter option" where
  "newInvalidAuthAbuseLimiter cfg =
     (case cfg of
        None \<Rightarrow> None
      | Some c \<Rightarrow>
          if \<not> Enabled c then None
          else if Threshold c \<le> 0 \<or> WindowSeconds c \<le> 0 \<or> BlockSeconds c \<le> 0 \<or> Capacity c \<le> 0
          then None
          else Some
            \<lparr>threshold = Threshold c,
             window = int64 (WindowSeconds c * second_ns),
             block = int64 (BlockSeconds c * second_ns),
             capacity = Capacity c,
             shards = replicate invalidAuthAbuseShardCount [],
             overflow = \<lparr>ov_failures = 0, ov_windowStart = 0, ov_blockedUntil = 0\<rparr>,
             tracked = 0, recorded = 0, blocked = 0, rejected = 0, expired = 0,
             overflowed = 0, globalBlocked = 0, cleanupNext = 0, cleanupCursor = 0\<rparr>)"

section \<open>Helpers\<close>

text \<open>\<open>UnixNano\<close>: nanoseconds since 1970 as an \<open>int64\<close>.\<close>

definition unix_nano :: "go_time \<Rightarrow> int" where
  "unix_nano t = int64 (t - 62135596800 * second_ns)"

definition entryExpired :: "abuse_limiter \<Rightarrow> abuse_entry \<Rightarrow> go_time \<Rightarrow> bool" where
  "entryExpired l e now \<longleftrightarrow>
     \<not> ae_blockedUntil e > now \<and> \<not> ae_windowStart e > now
     \<and> \<not> now < ae_windowStart e + window l"

definition fnv1a :: "string \<Rightarrow> 32 word" where
  "fnv1a key = foldl (\<lambda>hash c. (hash XOR of_nat (of_char c)) * 16777619) 2166136261 key"

definition shard_index :: "string \<Rightarrow> nat" where
  "shard_index key = unat (fnv1a key mod of_nat invalidAuthAbuseShardCount)"

definition reserveEntry :: "abuse_limiter \<Rightarrow> bool \<times> abuse_limiter" where
  "reserveEntry l =
     (if tracked l \<ge> capacity l then (False, l) else (True, l\<lparr>tracked := tracked l + 1\<rparr>))"

definition cleanup_shard :: "nat \<Rightarrow> go_time \<Rightarrow> abuse_limiter \<Rightarrow> abuse_limiter" where
  "cleanup_shard i now l =
     (let shard = shards l ! i;
          kept = filter (\<lambda>(k, e). \<not> entryExpired l e now) shard;
          removed = length shard - length kept
      in l\<lparr>shards := (shards l)[i := kept],
           tracked := tracked l - int removed,
           expired := expired l + of_nat removed\<rparr>)"

definition maybeCleanupAtCapacity :: "go_time \<Rightarrow> abuse_limiter \<Rightarrow> abuse_limiter" where
  "maybeCleanupAtCapacity now l =
     (if tracked l < capacity l then l
      else if unix_nano now < cleanupNext l then l
      else
        let l1 = l\<lparr>cleanupNext := unix_nano (now + 100 * millisecond_ns)\<rparr>;
            index = cleanupCursor l1;
            l2 = l1\<lparr>cleanupCursor := cleanupCursor l1 + 1\<rparr>
        in cleanup_shard (unat (index mod of_nat invalidAuthAbuseShardCount)) now l2)"

text \<open>Lookup in the client's shard that drops an expired entry on the way.\<close>

definition lookup_live :: "string \<Rightarrow> go_time \<Rightarrow> abuse_limiter \<Rightarrow> abuse_entry option \<times> abuse_limiter" where
  "lookup_live key now l =
     (let i = shard_index key in
      case map_of (shards l ! i) key of
        None \<Rightarrow> (None, l)
      | Some e \<Rightarrow>
          if entryExpired l e now
          then (None, l\<lparr>shards := (shards l)[i := AList.delete key (shards l ! i)],
                        tracked := tracked l - 1, expired := expired l + 1\<rparr>)
          else (Some e, l))"

definition store_entry :: "string \<Rightarrow> abuse_entry \<Rightarrow> abuse_limiter \<Rightarrow> abuse_limiter" where
  "store_entry key e l =
     (let i = shard_index key
      in l\<lparr>shards := (shards l)[i := AList.update key e (shards l ! i)]\<rparr>)"

section \<open>Operations\<close>

definition recordOverflow :: "go_time \<Rightarrow> abuse_limiter \<Rightarrow> abuse_limiter" where
  "recordOverflow now l0 =
     (let l = l0\<lparr>overflowed := overflowed l0 + 1\<rparr>; ov = overflow l in
      if ov_blockedUntil ov > now then l
      else
        let ov1 = (if is_zero_time (ov_windowStart ov) \<or> \<not> now < ov_windowStart ov + window l
                   then ov\<lparr>ov_windowStart := now, ov_failures := 0\<rparr> else ov);
            ov2 = ov1\<lparr>ov_failures := ov_failures ov1 + 1\<rparr>
        in if ov_failures ov2 \<ge> threshold l
           then l\<lparr>overflow := ov2\<lparr>ov_failures := 0, ov_blockedUntil := now + block l,
                                   ov_windowStart := now + block l\<rparr>,
                  blocked := blocked l + 1\<rparr>
           else l\<lparr>overflow := ov2\<rparr>)"

definition checkOverflow :: "go_time \<Rightarrow> abuse_limiter \<Rightarrow> duration \<times> bool" where
  "checkOverflow now l =
     (if ov_blockedUntil (overflow l) > now
      then (time_sub (ov_blockedUntil (overflow l)) now, True) else (0, False))"

definition check :: "string \<Rightarrow> go_time \<Rightarrow> abuse_limiter option
    \<Rightarrow> (duration \<times> bool) \<times> abuse_limiter option" where
  "check clientKey now ol =
     (case ol of
        None \<Rightarrow> ((0, False), None)
      | Some l0 \<Rightarrow>
          if clientKey = [] then ((0, False), Some l0)
          else
            (case lookup_live clientKey now (maybeCleanupAtCapacity now l0) of
               (entry, l) \<Rightarrow>
                 (case entry of
                    Some e \<Rightarrow>
                      if ae_blockedUntil e > now
                      then ((time_sub (ae_blockedUntil e) now, True),
                            Some (l\<lparr>rejected := rejected l + 1\<rparr>))
                      else ((0, False), Some l)
                  | None \<Rightarrow>
                      if tracked l \<ge> capacity l
                      then (case checkOverflow now l of
                              (retry, True) \<Rightarrow>
                                ((retry, True),
                                 Some (l\<lparr>rejected := rejected l + 1,
                                         globalBlocked := globalBlocked l + 1\<rparr>))
                            | (_, False) \<Rightarrow> ((0, False), Some l))
                      else ((0, False), Some l))))"

text \<open>The counting part of \<open>record\<close> on the client's entry, under the shard's lock.\<close>

definition count_entry :: "string \<Rightarrow> go_time \<Rightarrow> abuse_entry \<Rightarrow> abuse_limiter \<Rightarrow> abuse_limiter" where
  "count_entry key now e l =
     (if ae_blockedUntil e > now then store_entry key e l
      else
        let e1 = (if ae_windowStart e > now \<or> \<not> now < ae_windowStart e + window l
                  then e\<lparr>ae_windowStart := now, ae_failures := 0\<rparr> else e);
            e2 = e1\<lparr>ae_failures := ae_failures e1 + 1\<rparr>
        in if ae_failures e2 \<ge> threshold l
           then let l1 = store_entry key
                      (e2\<lparr>ae_failures := 0, ae_blockedUntil := now + block l,
                          ae_windowStart := now + block l\<rparr>) l
                in l1\<lparr>blocked := blocked l1 + 1\<rparr>
           else store_entry key e2 l)"

definition record_failure :: "string \<Rightarrow> go_time \<Rightarrow> abuse_limiter option \<Rightarrow> abuse_limiter option" where
  "record_failure clientKey now ol =
     (case ol of
        None \<Rightarrow> None
      | Some l0 \<Rightarrow>
          if clientKey = [] then Some l0
          else
            (case lookup_live clientKey now
                    (maybeCleanupAtCapacity now (l0\<lparr>recorded := recorded l0 + 1\<rparr>)) of
               (Some e, l) \<Rightarrow> Some (count_entry clientKey now e l)
             | (None, l) \<Rightarrow>
                 (case reserveEntry l of
                    (False, l1) \<Rightarrow> Some (recordOverflow now l1)
                  | (True, l1) \<Rightarrow>
                      Some (count_entry clientKey now
                              \<lparr>ae_failures = 0, ae_windowStart = now, ae_blockedUntil = 0\<rparr> l1))))"

record abuse_health =
  h_Enabled :: bool
  h_Tracked :: int
  h_Capacity :: int
  h_Recorded :: "64 word"
  h_Blocks :: "64 word"
  h_Rejected :: "64 word"
  h_Expired :: "64 word"
  h_Overflowed :: "64 word"
  h_GlobalBlocked :: "64 word"

definition health :: "abuse_limiter \<Rightarrow> abuse_health" where
  "health l =
     \<lparr>h_Enabled = True, h_Tracked = tracked l, h_Capacity = capacity l, h_Recorded = recorded l,
      h_Blocks = blocked l, h_Rejected = rejected l, h_Expired = expired l,
      h_Overflowed = overflowed l, h_GlobalBlocked = globalBlocked l\<rparr>"

text \<open>The service's wrappers: a nil limiter never blocks.\<close>

definition CheckInvalidAuthAbuse :: "abuse_limiter option \<Rightarrow> string \<Rightarrow> go_time
    \<Rightarrow> (duration \<times> bool) \<times> abuse_limiter option" where
  "CheckInvalidAuthAbuse ol key now = (case ol of None \<Rightarrow> ((0, False), None) | Some l \<Rightarrow> check key now (Some l))"

definition RecordInvalidAuthFailure :: "abuse_limiter option \<Rightarrow> string \<Rightarrow> go_time
    \<Rightarrow> abuse_limiter option" where
  "RecordInvalidAuthFailure ol key now = (case ol of None \<Rightarrow> None | Some l \<Rightarrow> record_failure key now (Some l))"

definition InvalidAuthAbuseHealth :: "abuse_limiter option \<Rightarrow> abuse_health" where
  "InvalidAuthAbuseHealth ol =
     (case ol of
        None \<Rightarrow> \<lparr>h_Enabled = False, h_Tracked = 0, h_Capacity = 0, h_Recorded = 0, h_Blocks = 0,
                 h_Rejected = 0, h_Expired = 0, h_Overflowed = 0, h_GlobalBlocked = 0\<rparr>
      | Some l \<Rightarrow> health l)"

section \<open>Invariant\<close>

definition shards_ok :: "abuse_limiter \<Rightarrow> bool" where
  "shards_ok l \<longleftrightarrow> length (shards l) = invalidAuthAbuseShardCount
     \<and> (\<forall>i < invalidAuthAbuseShardCount. gomap_wf (shards l ! i)
          \<and> (\<forall>k \<in> fst ` set (shards l ! i). shard_index k = i))"

definition entry_count :: "abuse_limiter \<Rightarrow> int" where
  "entry_count l = int (sum_list (map length (shards l)))"

definition abuse_inv :: "abuse_limiter \<Rightarrow> bool" where
  "abuse_inv l \<longleftrightarrow> shards_ok l \<and> tracked l = entry_count l \<and> tracked l \<le> capacity l"

lemma shard_index_less [simp]: "shard_index key < invalidAuthAbuseShardCount"
  by (simp add: shard_index_def invalidAuthAbuseShardCount_def unat_mod)

lemma sum_list_length_update:
  "i < length xs \<Longrightarrow>
   int (sum_list (map length (xs[i := v]))) =
   int (sum_list (map length xs)) + int (length v) - int (length (xs ! i))"
  by (induction xs arbitrary: i) (auto split: nat.splits)

lemma shards_ok_update:
  assumes "shards_ok l" and "gomap_wf v" and "\<forall>k \<in> fst ` set v. shard_index k = i"
  shows "shards_ok (l\<lparr>shards := (shards l)[i := v]\<rparr>)"
  using assms by (cases "i < invalidAuthAbuseShardCount") (auto simp: shards_ok_def nth_list_update)

lemma shards_ok_cong: "shards l' = shards l \<Longrightarrow> shards_ok l' = shards_ok l"
  by (simp add: shards_ok_def)

lemma entry_count_cong: "shards l' = shards l \<Longrightarrow> entry_count l' = entry_count l"
  by (simp add: entry_count_def)

lemma entry_count_update:
  assumes "shards_ok l" and "i < invalidAuthAbuseShardCount"
  shows "entry_count (l\<lparr>shards := (shards l)[i := v]\<rparr>)
    = entry_count l + int (length v) - int (length (shards l ! i))"
  using assms by (simp add: entry_count_def shards_ok_def sum_list_length_update)

lemma abuse_inv_shard_update:
  assumes "abuse_inv l" and "i < invalidAuthAbuseShardCount" and "gomap_wf v"
    and "\<forall>k \<in> fst ` set v. shard_index k = i"
    and "shards l' = (shards l)[i := v]" and "capacity l' = capacity l"
    and "tracked l' = tracked l + int (length v) - int (length (shards l ! i))"
    and "tracked l' \<le> capacity l"
  shows "abuse_inv l'"
proof -
  let ?u = "l\<lparr>shards := (shards l)[i := v]\<rparr>"
  have "shards l' = shards ?u" using assms(5) by simp
  moreover have "shards_ok ?u" using assms by (intro shards_ok_update) (auto simp: abuse_inv_def)
  moreover have "entry_count ?u = entry_count l + int (length v) - int (length (shards l ! i))"
    using assms by (intro entry_count_update) (auto simp: abuse_inv_def)
  ultimately show ?thesis
    using assms shards_ok_cong entry_count_cong by (metis abuse_inv_def)
qed

lemma cleanup_shard_inv:
  assumes "abuse_inv l" and "i < invalidAuthAbuseShardCount"
  shows "abuse_inv (cleanup_shard i now l)"
proof -
  let ?kept = "filter (\<lambda>(k, e). \<not> entryExpired l e now) (shards l ! i)"
  have le: "length ?kept \<le> length (shards l ! i)" by (rule length_filter_le)
  have t: "tracked (cleanup_shard i now l)
      = tracked l + int (length ?kept) - int (length (shards l ! i))"
    using le by (simp add: cleanup_shard_def Let_def)
  have "tracked l \<le> capacity l" using assms(1) by (simp add: abuse_inv_def)
  with le t have "tracked (cleanup_shard i now l) \<le> capacity l" by linarith
  with t show ?thesis
    using assms by (intro abuse_inv_shard_update [OF assms, of ?kept])
      (auto simp: cleanup_shard_def Let_def abuse_inv_def shards_ok_def)
qed

lemma abuse_inv_frame:
  "abuse_inv l \<Longrightarrow> shards l' = shards l \<Longrightarrow> tracked l' = tracked l \<Longrightarrow> capacity l' = capacity l
   \<Longrightarrow> abuse_inv l'"
  by (auto simp: abuse_inv_def shards_ok_cong [of l' l] entry_count_cong [of l' l])

lemma maybeCleanup_inv: "abuse_inv l \<Longrightarrow> abuse_inv (maybeCleanupAtCapacity now l)"
  unfolding maybeCleanupAtCapacity_def Let_def
  by (auto intro!: cleanup_shard_inv elim: abuse_inv_frame
      simp: invalidAuthAbuseShardCount_def unat_mod)

lemma lookup_live_inv:
  assumes "abuse_inv l"
  shows "abuse_inv (snd (lookup_live key now l))"
proof (cases "map_of (shards l ! shard_index key) key")
  case (Some e)
  let ?i = "shard_index key" let ?v = "AList.delete key (shards l ! ?i)"
  have wf: "gomap_wf (shards l ! ?i)" "\<forall>k \<in> fst ` set (shards l ! ?i). shard_index k = ?i"
    using assms by (auto simp: abuse_inv_def shards_ok_def)
  have "key \<in> fst ` set (shards l ! ?i)"
    using Some by (metis map_of_eq_None_keys option.distinct(1))
  then have len: "length (shards l ! ?i) = Suc (length ?v)"
    using wf(1) by (intro length_delete_distinct)
  define l' where "l' = l\<lparr>shards := (shards l)[?i := ?v], tracked := tracked l - 1,
    expired := expired l + 1\<rparr>"
  have "abuse_inv l'"
  proof (rule abuse_inv_shard_update [OF assms, of ?i ?v])
    show "tracked l' = tracked l + int (length ?v) - int (length (shards l ! ?i))"
      using len by (simp add: l'_def)
    show "tracked l' \<le> capacity l" using assms by (simp add: l'_def abuse_inv_def)
    show "\<forall>k \<in> fst ` set ?v. shard_index k = ?i"
      using wf(2) by (simp only: keys_delete) blast
  qed (use wf(1) in \<open>simp_all add: l'_def\<close>)
  then show ?thesis using Some assms by (simp add: lookup_live_def Let_def l'_def)
qed (use assms in \<open>simp add: lookup_live_def Let_def\<close>)

text \<open>The entry a client has, and how each helper acts on it.\<close>

definition entry_of :: "abuse_limiter \<Rightarrow> string \<Rightarrow> abuse_entry option" where
  "entry_of l key = map_of (shards l ! shard_index key) key"

lemma entry_of_cong: "shards l' = shards l \<Longrightarrow> entry_of l' key = entry_of l key"
  by (simp add: entry_of_def)

lemma entry_of_store:
  assumes "shards_ok l"
  shows "entry_of (store_entry k e l) key = (if key = k then Some e else entry_of l key)"
  using assms
  by (auto simp: entry_of_def store_entry_def Let_def shards_ok_def nth_list_update)

lemma lookup_live_entry:
  "fst (lookup_live key now l) =
     (case entry_of l key of
        Some e \<Rightarrow> (if entryExpired l e now then None else Some e) | None \<Rightarrow> None)"
  by (auto simp: lookup_live_def entry_of_def Let_def split: option.splits)

lemma lookup_live_window [simp]: "window (snd (lookup_live key now l)) = window l"
  "threshold (snd (lookup_live key now l)) = threshold l"
  "block (snd (lookup_live key now l)) = block l"
  "capacity (snd (lookup_live key now l)) = capacity l"
  by (auto simp: lookup_live_def Let_def split: option.splits)

lemma maybeCleanup_window [simp]: "window (maybeCleanupAtCapacity now l) = window l"
  "threshold (maybeCleanupAtCapacity now l) = threshold l"
  "block (maybeCleanupAtCapacity now l) = block l"
  "capacity (maybeCleanupAtCapacity now l) = capacity l"
  by (auto simp: maybeCleanupAtCapacity_def cleanup_shard_def Let_def)

lemma entryExpired_cong: "window l' = window l \<Longrightarrow> entryExpired l' e now = entryExpired l e now"
  by (simp add: entryExpired_def)

lemma lookup_live_keeps:
  assumes "shards_ok l" and "entry_of l key = Some e" and "\<not> entryExpired l e now"
  shows "entry_of (snd (lookup_live k now l)) key = Some e"
  using assms
  by (auto simp: lookup_live_def entry_of_def Let_def shards_ok_def nth_list_update
      split: option.splits)

lemma map_of_filter_keeps:
  "map_of m k = Some v \<Longrightarrow> P (k, v) \<Longrightarrow> gomap_wf m \<Longrightarrow> map_of (filter P m) k = Some v"
  by (auto simp: map_of_Some_iff)

lemma cleanup_shard_keeps:
  assumes "shards_ok l" and "entry_of l key = Some e" and "\<not> entryExpired l e now"
  shows "entry_of (cleanup_shard i now l) key = Some e"
proof (cases "i = shard_index key")
  case True
  have "gomap_wf (shards l ! shard_index key)" using assms(1) by (simp add: shards_ok_def)
  with True assms show ?thesis
    by (auto simp: cleanup_shard_def entry_of_def Let_def shards_ok_def intro!: map_of_filter_keeps)
qed (use assms in \<open>simp add: cleanup_shard_def entry_of_def Let_def\<close>)

lemma maybeCleanup_keeps:
  assumes "shards_ok l" and "entry_of l key = Some e" and "\<not> entryExpired l e now"
  shows "entry_of (maybeCleanupAtCapacity now l) key = Some e"
proof -
  let ?l = "l\<lparr>cleanupNext := unix_nano (now + 100 * millisecond_ns),
               cleanupCursor := cleanupCursor l + 1\<rparr>"
  have "shards_ok ?l" "entry_of ?l key = Some e" "\<not> entryExpired ?l e now"
    using assms by (simp_all add: shards_ok_def entry_of_def entryExpired_def)
  then have "entry_of (cleanup_shard i now ?l) key = Some e" for i
    by (rule cleanup_shard_keeps)
  with assms(2) show ?thesis by (simp add: maybeCleanupAtCapacity_def Let_def)
qed

lemma store_entry_inv:
  assumes "abuse_inv l" and "entry_of l key \<noteq> None"
  shows "abuse_inv (store_entry key e l)"
proof -
  let ?i = "shard_index key" let ?v = "AList.update key e (shards l ! ?i)"
  have wf: "gomap_wf (shards l ! ?i)" "\<forall>k \<in> fst ` set (shards l ! ?i). shard_index k = ?i"
    using assms by (auto simp: abuse_inv_def shards_ok_def)
  have "key \<in> fst ` set (shards l ! ?i)"
    using assms(2) by (simp add: entry_of_def map_of_eq_None_keys)
  then have len: "length ?v = length (shards l ! ?i)" by (rule length_update_present)
  show ?thesis
  proof (rule abuse_inv_shard_update [OF assms(1), of ?i ?v])
    show "\<forall>k \<in> fst ` set ?v. shard_index k = ?i"
      using wf(2) by (simp only: keys_update) blast
    show "tracked (store_entry key e l) \<le> capacity l"
      using assms by (simp add: store_entry_def Let_def abuse_inv_def)
  qed (use wf(1) len in \<open>simp_all add: store_entry_def Let_def\<close>)
qed

lemma store_new_inv:
  assumes "abuse_inv l" and "entry_of l key = None" and "tracked l < capacity l"
  shows "abuse_inv (store_entry key e (l\<lparr>tracked := tracked l + 1\<rparr>))"
proof -
  let ?i = "shard_index key" let ?v = "AList.update key e (shards l ! ?i)"
  have wf: "gomap_wf (shards l ! ?i)" "\<forall>k \<in> fst ` set (shards l ! ?i). shard_index k = ?i"
    using assms by (auto simp: abuse_inv_def shards_ok_def)
  have "key \<notin> fst ` set (shards l ! ?i)"
    using assms(2) by (simp add: entry_of_def map_of_eq_None_keys)
  then have len: "length ?v = Suc (length (shards l ! ?i))" by (rule length_update_absent)
  show ?thesis
  proof (rule abuse_inv_shard_update [OF assms(1), of ?i ?v])
    show "\<forall>k \<in> fst ` set ?v. shard_index k = ?i"
      using wf(2) by (simp only: keys_update) blast
  qed (use wf(1) len assms(3) in \<open>simp_all add: store_entry_def Let_def\<close>)
qed

lemma count_entry_store:
  "\<exists>e' b. count_entry key now e l = (store_entry key e' l)\<lparr>blocked := b\<rparr>
     \<and> (ae_blockedUntil e > now \<longrightarrow> e' = e)"
proof (cases "ae_blockedUntil e > now")
  case True
  then show ?thesis
    by (intro exI [of _ e] exI [of _ "blocked l"])
      (simp add: count_entry_def store_entry_def Let_def)
next
  case False
  define e1 where "e1 = (if ae_windowStart e > now \<or> \<not> now < ae_windowStart e + window l
    then e\<lparr>ae_windowStart := now, ae_failures := 0\<rparr> else e)"
  have "count_entry key now e l =
    (if ae_failures e1 + 1 \<ge> threshold l
     then (store_entry key (e1\<lparr>ae_failures := 0, ae_blockedUntil := now + block l,
             ae_windowStart := now + block l\<rparr>) l)\<lparr>blocked := blocked l + 1\<rparr>
     else (store_entry key (e1\<lparr>ae_failures := ae_failures e1 + 1\<rparr>) l)\<lparr>blocked := blocked l\<rparr>)"
    using False by (simp add: count_entry_def store_entry_def Let_def e1_def)
  with False show ?thesis by (cases "ae_failures e1 + 1 \<ge> threshold l") auto
qed

lemma shards_blocked_update: "shards (l\<lparr>blocked := b\<rparr>) = shards l"
  by simp

lemma abuse_inv_blocked: "abuse_inv l \<Longrightarrow> abuse_inv (l\<lparr>blocked := b\<rparr>)"
  by (rule abuse_inv_frame) simp_all

lemma recordOverflow_frame [simp]:
  "shards (recordOverflow now l) = shards l" "tracked (recordOverflow now l) = tracked l"
  "capacity (recordOverflow now l) = capacity l" "window (recordOverflow now l) = window l"
  "threshold (recordOverflow now l) = threshold l" "block (recordOverflow now l) = block l"
  by (auto simp: recordOverflow_def Let_def)

lemma abuse_inv_ok: "abuse_inv l \<Longrightarrow> shards_ok l"
  by (simp add: abuse_inv_def)

lemma lookup_live_absent:
  assumes "shards_ok l" and "fst (lookup_live key now l) = None"
  shows "entry_of (snd (lookup_live key now l)) key = None"
  using assms
  by (auto simp: lookup_live_def entry_of_def Let_def shards_ok_def split: option.splits if_splits)

lemma record_inv:
  assumes "abuse_inv l0"
  shows "abuse_inv (the (record_failure key now (Some l0)))"
proof (cases "key = []")
  case False
  let ?l1 = "maybeCleanupAtCapacity now (l0\<lparr>recorded := recorded l0 + 1\<rparr>)"
  have inv1: "abuse_inv ?l1"
    by (rule maybeCleanup_inv, rule abuse_inv_frame [OF assms]) simp_all
  obtain oe l where ll: "lookup_live key now ?l1 = (oe, l)" by (cases "lookup_live key now ?l1")
  have inv: "abuse_inv l" using lookup_live_inv [OF inv1, of key now] ll by simp
  show ?thesis
  proof (cases oe)
    case (Some e)
    have "entry_of l key = Some e"
      using lookup_live_entry [of key now ?l1] ll Some lookup_live_keeps [OF abuse_inv_ok [OF inv1]]
      by (auto split: option.splits if_splits) (metis snd_conv)
    then show ?thesis
      using False ll Some count_entry_store [of key now e l] store_entry_inv [OF inv]
      by (auto simp: record_failure_def intro!: abuse_inv_blocked)
  next
    case None
    have "entry_of l key = None"
      using lookup_live_absent [OF abuse_inv_ok [OF inv1], of key now] ll None by simp
    then show ?thesis
      using False ll None count_entry_store store_new_inv [OF inv] inv
      by (cases "tracked l \<ge> capacity l")
        (auto simp: record_failure_def reserveEntry_def intro: abuse_inv_frame abuse_inv_blocked,
         metis abuse_inv_blocked not_le)
  qed
qed (use assms in \<open>simp add: record_failure_def\<close>)

lemma check_inv:
  assumes "abuse_inv l0"
  shows "abuse_inv (the (snd (check key now (Some l0))))"
proof (cases "key = []")
  case False
  let ?l1 = "maybeCleanupAtCapacity now l0"
  obtain oe l where ll: "lookup_live key now ?l1 = (oe, l)" by (cases "lookup_live key now ?l1")
  have inv: "abuse_inv l" using lookup_live_inv [OF maybeCleanup_inv [OF assms], of key now now] ll
    by simp
  then show ?thesis
    using False ll
    by (auto simp: check_def checkOverflow_def split: option.splits elim: abuse_inv_frame)
qed (use assms in \<open>simp add: check_def\<close>)

section \<open>Runs\<close>

datatype abuse_event = Check string go_time | Record string go_time

fun event_time :: "abuse_event \<Rightarrow> go_time" where
  "event_time (Check k t) = t"
| "event_time (Record k t) = t"

fun abuse_step :: "abuse_limiter \<Rightarrow> abuse_event \<Rightarrow> abuse_limiter" where
  "abuse_step l (Check k t) = the (snd (check k t (Some l)))"
| "abuse_step l (Record k t) = the (record_failure k t (Some l))"

fun abuse_run :: "abuse_limiter \<Rightarrow> abuse_event list \<Rightarrow> abuse_limiter" where
  "abuse_run l [] = l"
| "abuse_run l (ev # evs) = abuse_run (abuse_step l ev) evs"

lemma abuse_step_inv: "abuse_inv l \<Longrightarrow> abuse_inv (abuse_step l ev)"
  by (cases ev) (simp_all add: check_inv record_inv)

lemma abuse_run_inv: "abuse_inv l \<Longrightarrow> abuse_inv (abuse_run l evs)"
  by (induction evs arbitrary: l) (simp_all add: abuse_step_inv)

lemma new_abuse_inv: "newInvalidAuthAbuseLimiter cfg = Some l \<Longrightarrow> abuse_inv l"
  by (auto simp: newInvalidAuthAbuseLimiter_def abuse_inv_def shards_ok_def entry_count_def
      sum_list_replicate split: option.splits if_splits)

text \<open>C35 (abuse_tracking_exact): after any sequence of checks and recorded failures on a new
  limiter, the atomic \<open>tracked\<close> counter equals the number of entries in the sixteen shards,
  never exceeds the capacity, and every client's entry sits in the one shard its FNV-1a hash
  selects.\<close>

theorem abuse_tracking_exact:
  assumes "newInvalidAuthAbuseLimiter cfg = Some l0"
  shows "let l = abuse_run l0 evs in
     tracked l = int (sum_list (map length (shards l))) \<and> tracked l \<le> capacity l
     \<and> length (shards l) = 16
     \<and> (\<forall>i < 16. distinct (map fst (shards l ! i))
           \<and> (\<forall>k \<in> fst ` set (shards l ! i). shard_index k = i))"
  using abuse_run_inv [OF new_abuse_inv [OF assms], of evs]
  by (simp add: abuse_inv_def shards_ok_def entry_count_def gomap_wf_def
      invalidAuthAbuseShardCount_def Let_def)

definition sample_limiter :: abuse_limiter where
  "sample_limiter = the (newInvalidAuthAbuseLimiter
     (Some \<lparr>Enabled = True, Threshold = 2, WindowSeconds = 60, BlockSeconds = 300, Capacity = 2\<rparr>))"

lemma sample_limiter_new: "newInvalidAuthAbuseLimiter
    (Some \<lparr>Enabled = True, Threshold = 2, WindowSeconds = 60, BlockSeconds = 300, Capacity = 2\<rparr>)
  = Some sample_limiter"
  by (simp add: sample_limiter_def newInvalidAuthAbuseLimiter_def)

theorem abuse_tracking_exact_witness:
  "let l = abuse_run sample_limiter [Record ''a'' 1, Check ''b'' 2, Record ''c'' 3, Record ''d'' 4] in
     tracked l = int (sum_list (map length (shards l))) \<and> tracked l \<le> capacity l
     \<and> length (shards l) = 16
     \<and> (\<forall>i < 16. distinct (map fst (shards l ! i))
           \<and> (\<forall>k \<in> fst ` set (shards l ! i). shard_index k = i))"
  by (rule abuse_tracking_exact [OF sample_limiter_new])

section \<open>A block lasts\<close>

definition quarantined :: "string \<Rightarrow> go_time \<Rightarrow> abuse_limiter \<Rightarrow> bool" where
  "quarantined key B l \<longleftrightarrow> (\<exists>e. entry_of l key = Some e \<and> ae_blockedUntil e = B)"

lemma live_through_lookup:
  assumes "abuse_inv l" and "entry_of l key = Some e" and "\<not> entryExpired l e now"
  shows "entry_of (snd (lookup_live k now (maybeCleanupAtCapacity now l))) key = Some e"
proof (rule lookup_live_keeps)
  show "entry_of (maybeCleanupAtCapacity now l) key = Some e"
    by (rule maybeCleanup_keeps [OF abuse_inv_ok [OF assms(1)] assms(2,3)])
  show "shards_ok (maybeCleanupAtCapacity now l)"
    by (rule abuse_inv_ok [OF maybeCleanup_inv [OF assms(1)]])
  show "\<not> entryExpired (maybeCleanupAtCapacity now l) e now"
    using assms(3) by (simp add: entryExpired_def)
qed

lemma lookup_found:
  assumes "abuse_inv l" and "entry_of l key = Some e" and "\<not> entryExpired l e now"
  shows "lookup_live key now (maybeCleanupAtCapacity now l) = (Some e, maybeCleanupAtCapacity now l)"
  using maybeCleanup_keeps [OF abuse_inv_ok [OF assms(1)] assms(2,3)] assms(3)
  by (simp add: lookup_live_def entry_of_def Let_def entryExpired_def)

lemma record_found:
  assumes "abuse_inv l" and "entry_of l key = Some e" and "\<not> entryExpired l e now" and "key \<noteq> []"
  shows "record_failure key now (Some l) = Some (count_entry key now e
    (maybeCleanupAtCapacity now (l\<lparr>recorded := recorded l + 1\<rparr>)))"
proof -
  have "abuse_inv (l\<lparr>recorded := recorded l + 1\<rparr>)" by (rule abuse_inv_frame [OF assms(1)]) simp_all
  from lookup_found [OF this, of key e now] assms show ?thesis
    by (simp add: record_failure_def entry_of_def entryExpired_def)
qed

lemma record_other_keeps:
  assumes "abuse_inv l" and "entry_of l key = Some e" and "\<not> entryExpired l e now" and "k \<noteq> key"
  shows "entry_of (the (record_failure k now (Some l))) key = Some e"
proof (cases "k = []")
  case False
  let ?l0 = "l\<lparr>recorded := recorded l + 1\<rparr>"
  let ?l1 = "maybeCleanupAtCapacity now ?l0"
  have inv0: "abuse_inv ?l0" by (rule abuse_inv_frame [OF assms(1)]) simp_all
  obtain oe l2 where ll: "lookup_live k now ?l1 = (oe, l2)" by (cases "lookup_live k now ?l1")
  have keep: "entry_of l2 key = Some e"
    using live_through_lookup [OF inv0, of key e now k] assms(2,3) ll
    by (simp add: entry_of_def entryExpired_def)
  have ok: "shards_ok l2"
    using abuse_inv_ok [OF lookup_live_inv [OF maybeCleanup_inv [OF inv0]], of k now now] ll by simp
  have count: "entry_of (count_entry k now f l') key = Some e"
    if "shards_ok l'" "entry_of l' key = Some e" for f l'
    using count_entry_store [of k now f l'] entry_of_store [OF that(1)] that(2) assms(4)
    by (metis entry_of_cong shards_blocked_update)
  show ?thesis
    using False ll keep ok count [of l2] count [of "l2\<lparr>tracked := tracked l2 + 1\<rparr>"]
    by (auto simp: record_failure_def reserveEntry_def entry_of_def shards_ok_def
        split: option.splits)
qed (use assms in \<open>simp add: record_failure_def\<close>)

lemma check_keeps:
  assumes "abuse_inv l" and "entry_of l key = Some e" and "\<not> entryExpired l e now"
  shows "entry_of (the (snd (check k now (Some l)))) key = Some e"
proof (cases "k = []")
  case False
  obtain oe l2 where ll: "lookup_live k now (maybeCleanupAtCapacity now l) = (oe, l2)"
    by (cases "lookup_live k now (maybeCleanupAtCapacity now l)")
  have "entry_of l2 key = Some e" using live_through_lookup [OF assms, of k] ll by simp
  with False ll show ?thesis
    by (auto simp: check_def checkOverflow_def entry_of_def split: option.splits)
qed (use assms in \<open>simp add: check_def\<close>)

lemma quarantined_step:
  assumes "abuse_inv l" and "quarantined key B l" and "event_time ev < B"
  shows "quarantined key B (abuse_step l ev)"
proof -
  from assms(2) obtain e where e: "entry_of l key = Some e" "ae_blockedUntil e = B"
    by (auto simp: quarantined_def)
  with assms(3) have live: "\<not> entryExpired l e (event_time ev)" by (simp add: entryExpired_def)
  show ?thesis
  proof (cases ev)
    case (Check k t)
    with check_keeps [OF assms(1) e(1), of t k] live e(2) show ?thesis
      by (simp add: quarantined_def)
  next
    case (Record k t)
    show ?thesis
    proof (cases "k = key \<and> key \<noteq> []")
      case True
      let ?l1 = "maybeCleanupAtCapacity t (l\<lparr>recorded := recorded l + 1\<rparr>)"
      have inv0: "abuse_inv (l\<lparr>recorded := recorded l + 1\<rparr>)"
        by (rule abuse_inv_frame [OF assms(1)]) simp_all
      have "ae_blockedUntil e > t" using e(2) assms(3) Record by simp
      then have kept: "entry_of (count_entry key t e ?l1) key = Some e"
        using entry_of_store [OF abuse_inv_ok [OF maybeCleanup_inv [OF inv0, of t]], of key e key]
        by (simp add: count_entry_def)
      have "\<not> entryExpired l e t" using live Record by simp
      from record_found [OF assms(1) e(1) this] True Record
      have "abuse_step l ev = count_entry key t e ?l1" by simp
      with kept e(2) show ?thesis unfolding quarantined_def by simp
    next
      case False
      have live': "\<not> entryExpired l e t" using live Record by simp
      have "entry_of (the (record_failure k t (Some l))) key = Some e"
      proof (cases "k = []")
        case True
        with e(1) show ?thesis by (simp add: record_failure_def)
      next
        case ne: False
        with False have "k \<noteq> key" by auto
        then show ?thesis by (rule record_other_keeps [OF assms(1) e(1) live'])
      qed
      with Record e(2) show ?thesis by (simp add: quarantined_def)
    qed
  qed
qed

lemma quarantined_run:
  assumes "abuse_inv l" and "quarantined key B l" and "\<forall>ev \<in> set evs. event_time ev < B"
  shows "quarantined key B (abuse_run l evs)"
  using assms by (induction evs arbitrary: l) (auto intro: quarantined_step abuse_step_inv)

lemma quarantined_rejects:
  assumes "abuse_inv l" and "quarantined key B l" and "t < B" and "key \<noteq> []"
  shows "fst (check key t (Some l)) = (time_sub B t, True)"
proof -
  from assms(2) obtain e where e: "entry_of l key = Some e" "ae_blockedUntil e = B"
    by (auto simp: quarantined_def)
  with assms(3) have "\<not> entryExpired l e t" by (simp add: entryExpired_def)
  with lookup_found [OF assms(1) e(1) this] e assms show ?thesis by (simp add: check_def)
qed

text \<open>Once a client is blocked until \<open>B\<close>, every check
  of it before \<open>B\<close> is rejected with the remaining time, whatever checks, failures,
  evictions and capacity cleanups of any client happened in between.\<close>

theorem blocked_client_stays_blocked:
  assumes "abuse_inv l" and "quarantined key B l" and "key \<noteq> []"
    and "\<forall>ev \<in> set evs. event_time ev < B" and "t < B"
  shows "fst (check key t (Some (abuse_run l evs))) = (time_sub B t, True)"
  by (rule quarantined_rejects [OF abuse_run_inv [OF assms(1)]
        quarantined_run [OF assms(1,2,4)] assms(5,3)])

section \<open>The threshold\<close>

fun record_all :: "string \<Rightarrow> abuse_limiter \<Rightarrow> go_time list \<Rightarrow> abuse_limiter" where
  "record_all key l [] = l"
| "record_all key l (t # ts) = record_all key (the (record_failure key t (Some l))) ts"

lemma record_failure_window [simp]:
  "window (the (record_failure key t (Some l))) = window l"
  "threshold (the (record_failure key t (Some l))) = threshold l"
  "block (the (record_failure key t (Some l))) = block l"
proof -
  obtain oe l2 where ll: "lookup_live key t (maybeCleanupAtCapacity t
      (l\<lparr>recorded := recorded l + 1\<rparr>)) = (oe, l2)"
    by (cases "lookup_live key t (maybeCleanupAtCapacity t (l\<lparr>recorded := recorded l + 1\<rparr>))")
  have "window l2 = window l \<and> threshold l2 = threshold l \<and> block l2 = block l"
    using ll lookup_live_window [of key t "maybeCleanupAtCapacity t (l\<lparr>recorded := recorded l + 1\<rparr>)"]
    by simp
  then show "window (the (record_failure key t (Some l))) = window l"
    "threshold (the (record_failure key t (Some l))) = threshold l"
    "block (the (record_failure key t (Some l))) = block l"
    using ll by (auto simp: record_failure_def reserveEntry_def count_entry_def store_entry_def
        Let_def split: option.splits)
qed

lemma count_entry_entry:
  assumes "shards_ok l" and "\<not> ae_blockedUntil e > now"
    and "\<not> ae_windowStart e > now" and "now < ae_windowStart e + window l"
  shows "entry_of (count_entry key now e l) key = Some
    (if ae_failures e + 1 \<ge> threshold l
     then e\<lparr>ae_failures := 0, ae_blockedUntil := now + block l, ae_windowStart := now + block l\<rparr>
     else e\<lparr>ae_failures := ae_failures e + 1\<rparr>)"
  using assms entry_of_store [OF assms(1)]
  by (auto simp: count_entry_def Let_def entry_of_cong [OF shards_blocked_update])

lemma record_counts:
  assumes "abuse_inv l" and "key \<noteq> []" and "entry_of l key = Some e"
    and "\<not> ae_blockedUntil e > t" and "ae_windowStart e \<le> t" and "t < ae_windowStart e + window l"
  shows "entry_of (the (record_failure key t (Some l))) key = Some
    (if ae_failures e + 1 \<ge> threshold l
     then e\<lparr>ae_failures := 0, ae_blockedUntil := t + block l, ae_windowStart := t + block l\<rparr>
     else e\<lparr>ae_failures := ae_failures e + 1\<rparr>)"
proof -
  have inv0: "abuse_inv (l\<lparr>recorded := recorded l + 1\<rparr>)"
    by (rule abuse_inv_frame [OF assms(1)]) simp_all
  have "\<not> entryExpired l e t" using assms by (simp add: entryExpired_def)
  from record_found [OF assms(1,3) this assms(2)]
    count_entry_entry [OF abuse_inv_ok [OF maybeCleanup_inv [OF inv0, of t]],
      where e = e and now = t and key = key] assms
  show ?thesis by simp
qed

lemma record_all_counts:
  assumes "abuse_inv l" and "key \<noteq> []"
    and "entry_of l key = Some \<lparr>ae_failures = k, ae_windowStart = t0, ae_blockedUntil = 0\<rparr>"
    and "\<forall>t \<in> set ts. 0 < t \<and> t0 \<le> t \<and> t < t0 + window l"
    and "k + int (length ts) < threshold l"
  shows "entry_of (record_all key l ts) key
      = Some \<lparr>ae_failures = k + int (length ts), ae_windowStart = t0, ae_blockedUntil = 0\<rparr>
    \<and> abuse_inv (record_all key l ts) \<and> threshold (record_all key l ts) = threshold l
    \<and> window (record_all key l ts) = window l \<and> block (record_all key l ts) = block l"
  using assms
proof (induction ts arbitrary: l k)
  case (Cons t ts)
  let ?l = "the (record_failure key t (Some l))"
  have "entry_of ?l key = Some \<lparr>ae_failures = k + 1, ae_windowStart = t0, ae_blockedUntil = 0\<rparr>"
    using record_counts [OF Cons.prems(1-3), of t] Cons.prems(4,5) by simp
  then show ?case
    using Cons.IH [of ?l "k + 1"] Cons.prems record_inv [OF Cons.prems(1)] by (simp add: add.commute)
qed simp

lemma record_fresh:
  assumes "abuse_inv l" and "key \<noteq> []" and "entry_of l key = None"
    and "tracked l < capacity l" and "t > 0" and "window l > 0" and "threshold l \<ge> 2"
  shows "entry_of (the (record_failure key t (Some l))) key
    = Some \<lparr>ae_failures = 1, ae_windowStart = t, ae_blockedUntil = 0\<rparr>"
proof -
  let ?l = "l\<lparr>recorded := recorded l + 1\<rparr>"
  have "record_failure key t (Some l) = Some (count_entry key t
      \<lparr>ae_failures = 0, ae_windowStart = t, ae_blockedUntil = 0\<rparr> (?l\<lparr>tracked := tracked l + 1\<rparr>))"
    using assms by (simp add: record_failure_def maybeCleanupAtCapacity_def lookup_live_def
        reserveEntry_def entry_of_def Let_def)
  moreover have "shards_ok (?l\<lparr>tracked := tracked l + 1\<rparr>)"
    using assms(1) by (simp add: abuse_inv_def shards_ok_def)
  ultimately show ?thesis
    using count_entry_entry [where l = "?l\<lparr>tracked := tracked l + 1\<rparr>" and
        e = "\<lparr>ae_failures = 0, ae_windowStart = t, ae_blockedUntil = 0\<rparr>" and now = t
        and key = key] assms
    by simp
qed

text \<open>A client without a record, with room in the limiter, is
  not blocked by fewer than \<open>threshold\<close> failures inside one window, and exactly the
  \<open>threshold\<close>-th one blocks it until that failure's time plus \<open>block\<close>.\<close>

theorem abuse_threshold_exact:
  assumes "abuse_inv l" and "key \<noteq> []" and "entry_of l key = None" and "tracked l < capacity l"
    and "threshold l \<ge> 2" and "0 < t0" and "0 < window l"
    and "\<forall>t \<in> set (ts @ [u]). t0 \<le> t \<and> t < t0 + window l"
    and "int (length (t0 # ts @ [u])) = threshold l"
  shows "(\<forall>v. t0 \<le> v \<and> v < t0 + window l \<longrightarrow>
             \<not> snd (fst (check key v (Some (record_all key l (t0 # ts))))))
    \<and> quarantined key (u + block l) (the (record_failure key u (Some (record_all key l (t0 # ts)))))"
proof -
  let ?l1 = "the (record_failure key t0 (Some l))"
  have e1: "entry_of ?l1 key = Some \<lparr>ae_failures = 1, ae_windowStart = t0, ae_blockedUntil = 0\<rparr>"
    using record_fresh [OF assms(1-4,6,7,5)] .
  have pos: "\<forall>t \<in> set ts. 0 < t" using assms(6,8) by fastforce
  let ?l = "record_all key l (t0 # ts)"
  have l: "entry_of ?l key = Some \<lparr>ae_failures = 1 + int (length ts), ae_windowStart = t0,
        ae_blockedUntil = 0\<rparr>" "abuse_inv ?l" "threshold ?l = threshold l" "window ?l = window l"
      "block ?l = block l"
    using record_all_counts [OF record_inv [OF assms(1)] assms(2) e1, of ts] pos assms(8,9)
    by simp_all
  have pass: "\<not> snd (fst (check key v (Some ?l)))" if "t0 \<le> v" "v < t0 + window l" for v
  proof -
    have "\<not> entryExpired ?l \<lparr>ae_failures = 1 + int (length ts), ae_windowStart = t0,
        ae_blockedUntil = 0\<rparr> v"
      using that l(4) by (simp add: entryExpired_def)
    from lookup_found [OF l(2,1) this] that assms(2,6) show ?thesis by (simp add: check_def)
  qed
  have "entry_of (the (record_failure key u (Some ?l))) key
      = Some \<lparr>ae_failures = 0, ae_windowStart = u + block l, ae_blockedUntil = u + block l\<rparr>"
    using record_counts [OF l(2) assms(2) l(1), of u] l assms(6,8,9) by auto
  with pass show ?thesis unfolding quarantined_def by fastforce
qed

theorem abuse_threshold_exact_witness:
  "quarantined ''a'' (20 + 300 * second_ns) (the (record_failure ''a'' 20
     (Some (record_all ''a'' sample_limiter (10 # [])))))"
proof -
  have inv: "abuse_inv sample_limiter" by (rule new_abuse_inv [OF sample_limiter_new])
  have facts: "entry_of sample_limiter ''a'' = None" "tracked sample_limiter < capacity sample_limiter"
    "threshold sample_limiter = 2" "window sample_limiter = 60 * second_ns"
    "block sample_limiter = 300 * second_ns"
    using shard_index_less [of "''a''"]
    by (simp_all add: sample_limiter_def newInvalidAuthAbuseLimiter_def entry_of_def int64_def
        second_ns_def)
  show ?thesis
    using abuse_threshold_exact [OF inv _ facts(1,2), of 10 "[]" 20] facts
    by (simp add: second_ns_def)
qed

theorem blocked_client_stays_blocked_witness:
  "fst (check ''a'' 30 (Some (abuse_run (the (record_failure ''a'' 20
      (Some (record_all ''a'' sample_limiter (10 # []))))) [Record ''b'' 25, Check ''a'' 26])))
   = (300 * second_ns - 10, True)"
proof -
  let ?l = "the (record_failure ''a'' 20 (Some (record_all ''a'' sample_limiter (10 # []))))"
  have inv: "abuse_inv ?l"
    using record_inv [OF record_inv [OF new_abuse_inv [OF sample_limiter_new]]] by simp
  have eval: "entry_of ?l ''a'' = Some \<lparr>ae_failures = 0, ae_windowStart = 20 + 300 * second_ns,
      ae_blockedUntil = 20 + 300 * second_ns\<rparr>"
  proof -
    have inv0: "abuse_inv sample_limiter" by (rule new_abuse_inv [OF sample_limiter_new])
    have facts: "entry_of sample_limiter ''a'' = None" "tracked sample_limiter < capacity sample_limiter"
      "threshold sample_limiter = 2" "window sample_limiter = 60 * second_ns"
      "block sample_limiter = 300 * second_ns"
      using shard_index_less [of "''a''"]
      by (simp_all add: sample_limiter_def newInvalidAuthAbuseLimiter_def entry_of_def int64_def
          second_ns_def)
    show ?thesis
      using record_counts [OF record_inv [OF inv0] _ record_fresh [OF inv0 _ facts(1,2)], of 10 20] facts
      by (simp add: second_ns_def)
  qed
  then have q: "quarantined ''a'' (20 + 300 * second_ns) ?l" by (simp add: quarantined_def)
  show ?thesis
    using blocked_client_stays_blocked [OF inv q, of "[Record ''b'' 25, Check ''a'' 26]" 30]
    by (simp add: second_ns_def time_sub_def)
qed

end
