(* ===== verification/GoStrings.thy ===== *)
theory GoStrings
  imports Prelude "HOL-Library.Sublist" "HOL-Library.Char_ord"
begin

text \<open>
  Go's \<open>string\<close> as a list of bytes (\<open>char\<close> has 256 values) with what the modelled
  components use of \<open>strings\<close>, \<open>strconv\<close> and \<open>fmt\<close>.  \<open>strings.TrimSpace\<close>
  is exact on every byte string: the 25 code points of \<open>unicode.IsSpace\<close> are matched by
  their UTF-8 encodings.
\<close>

section \<open>\<open>strings.TrimSpace\<close>\<close>

definition space1 :: "char \<Rightarrow> bool" where
  "space1 c \<longleftrightarrow> c \<in> {CHR 0x09, CHR 0x0A, CHR 0x0B, CHR 0x0C, CHR 0x0D, CHR 0x20}"

text \<open>U+0085 and U+00A0.\<close>

definition space2 :: "char \<Rightarrow> char \<Rightarrow> bool" where
  "space2 c d \<longleftrightarrow> c = CHR 0xC2 \<and> (d = CHR 0x85 \<or> d = CHR 0xA0)"

text \<open>U+1680, U+2000 to U+200A, U+2028, U+2029, U+202F, U+205F and U+3000.\<close>

definition space3 :: "char \<Rightarrow> char \<Rightarrow> char \<Rightarrow> bool" where
  "space3 c d e \<longleftrightarrow>
     (c = CHR 0xE1 \<and> d = CHR 0x9A \<and> e = CHR 0x80)
     \<or> (c = CHR 0xE2 \<and> d = CHR 0x80
        \<and> e \<in> {CHR 0x80, CHR 0x81, CHR 0x82, CHR 0x83, CHR 0x84, CHR 0x85, CHR 0x86, CHR 0x87,
               CHR 0x88, CHR 0x89, CHR 0x8A, CHR 0xA8, CHR 0xA9, CHR 0xAF})
     \<or> (c = CHR 0xE2 \<and> d = CHR 0x81 \<and> e = CHR 0x9F)
     \<or> (c = CHR 0xE3 \<and> d = CHR 0x80 \<and> e = CHR 0x80)"

fun trim_seqs :: "(char \<Rightarrow> bool) \<Rightarrow> (char \<Rightarrow> char \<Rightarrow> bool) \<Rightarrow> (char \<Rightarrow> char \<Rightarrow> char \<Rightarrow> bool)
  \<Rightarrow> string \<Rightarrow> string" where
  "trim_seqs p1 p2 p3 [] = []"
| "trim_seqs p1 p2 p3 (c # cs) =
     (if p1 c then trim_seqs p1 p2 p3 cs
      else case cs of
        [] \<Rightarrow> c # cs
      | d # ds \<Rightarrow>
          if p2 c d then trim_seqs p1 p2 p3 ds
          else (case ds of
                  [] \<Rightarrow> c # cs
                | e # es \<Rightarrow> if p3 c d e then trim_seqs p1 p2 p3 es else c # cs))"

definition trim_left :: "string \<Rightarrow> string" where
  "trim_left s = trim_seqs space1 space2 space3 s"

definition trim_right :: "string \<Rightarrow> string" where
  "trim_right s =
     rev (trim_seqs space1 (\<lambda>d c. space2 c d) (\<lambda>e d c. space3 c d e) (rev s))"

definition trim_space :: "string \<Rightarrow> string" where
  "trim_space s = trim_right (trim_left s)"

text \<open>The starts at which trimming stops.\<close>

fun trimmed_start :: "(char \<Rightarrow> bool) \<Rightarrow> (char \<Rightarrow> char \<Rightarrow> bool) \<Rightarrow> (char \<Rightarrow> char \<Rightarrow> char \<Rightarrow> bool)
  \<Rightarrow> string \<Rightarrow> bool" where
  "trimmed_start p1 p2 p3 [] = True"
| "trimmed_start p1 p2 p3 [c] = (\<not> p1 c)"
| "trimmed_start p1 p2 p3 [c, d] = (\<not> p1 c \<and> \<not> p2 c d)"
| "trimmed_start p1 p2 p3 (c # d # e # es) = (\<not> p1 c \<and> \<not> p2 c d \<and> \<not> p3 c d e)"

lemma trimmed_start_trim_seqs: "trimmed_start p1 p2 p3 (trim_seqs p1 p2 p3 s)"
  by (induction p1 p2 p3 s rule: trim_seqs.induct) (auto split: list.split)

lemma trim_seqs_id: "trimmed_start p1 p2 p3 s \<Longrightarrow> trim_seqs p1 p2 p3 s = s"
  by (cases "(p1, p2, p3, s)" rule: trimmed_start.cases) auto

lemma suffix_trim_seqs: "\<exists>us. s = us @ trim_seqs p1 p2 p3 s"
proof (induction p1 p2 p3 s rule: trim_seqs.induct)
  case (2 p1 p2 p3 c cs)
  show ?case
  proof (cases "p1 c")
    case True
    with 2(1) obtain us where "cs = us @ trim_seqs p1 p2 p3 cs" by blast
    with True show ?thesis by (intro exI [of _ "c # us"]) simp
  next
    case c: False
    show ?thesis
    proof (cases cs)
      case cs: (Cons d ds)
      show ?thesis
      proof (cases "p2 c d")
        case True
        with 2(2) c cs obtain us where "ds = us @ trim_seqs p1 p2 p3 ds" by blast
        with True c cs show ?thesis by (intro exI [of _ "c # d # us"]) simp
      next
        case d: False
        show ?thesis
        proof (cases ds)
          case ds: (Cons e es)
          show ?thesis
          proof (cases "p3 c d e")
            case True
            with 2(3) c d cs ds obtain us where "es = us @ trim_seqs p1 p2 p3 es" by blast
            with True c d cs ds show ?thesis by (intro exI [of _ "c # d # e # us"]) simp
          qed (use c d cs ds in simp)
        qed (use c d cs in simp)
      qed
    qed (use c in simp)
  qed
qed simp

lemma trimmed_start_iff:
  "trimmed_start p1 p2 p3 s \<longleftrightarrow>
     (\<forall>c r. s = c # r \<longrightarrow> \<not> p1 c) \<and> (\<forall>c d r. s = c # d # r \<longrightarrow> \<not> p2 c d)
     \<and> (\<forall>c d e r. s = c # d # e # r \<longrightarrow> \<not> p3 c d e)"
  by (cases "(p1, p2, p3, s)" rule: trimmed_start.cases) auto

lemma trimmed_start_prefix:
  "trimmed_start p1 p2 p3 s \<Longrightarrow> prefix t s \<Longrightarrow> trimmed_start p1 p2 p3 t"
  by (auto simp: trimmed_start_iff prefix_def)

lemma prefix_trim_right: "prefix (trim_right s) s"
proof -
  obtain us where "rev s = us @ trim_seqs space1 (\<lambda>d c. space2 c d) (\<lambda>e d c. space3 c d e) (rev s)"
    using suffix_trim_seqs by blast
  then have "s = trim_right s @ rev us"
    by (metis rev_append rev_rev_ident trim_right_def)
  then show ?thesis by (metis prefixI)
qed

lemma trim_right_idem [simp]: "trim_right (trim_right s) = trim_right s"
  by (simp add: trim_right_def trim_seqs_id trimmed_start_trim_seqs)

lemma trim_left_trim_space [simp]: "trim_left (trim_space s) = trim_space s"
proof -
  have "trimmed_start space1 space2 space3 (trim_left s)"
    unfolding trim_left_def by (rule trimmed_start_trim_seqs)
  then have "trimmed_start space1 space2 space3 (trim_space s)"
    unfolding trim_space_def by (rule trimmed_start_prefix [OF _ prefix_trim_right])
  then show ?thesis by (simp add: trim_left_def trim_seqs_id)
qed

lemma trim_space_idem [simp]: "trim_space (trim_space s) = trim_space s"
  by (metis trim_left_trim_space trim_right_idem trim_space_def)

lemma trim_space_Nil [simp]: "trim_space [] = []"
  by (simp add: trim_space_def trim_left_def trim_right_def)

section \<open>\<open>strconv\<close>, \<open>fmt\<close> and case folding\<close>

definition digit_char :: "nat \<Rightarrow> char" where
  "digit_char d = char_of (48 + d)"

fun nat_digits :: "nat \<Rightarrow> string" where
  "nat_digits n = (if n < 10 then [digit_char n] else nat_digits (n div 10) @ [digit_char (n mod 10)])"

declare nat_digits.simps [simp del]

definition itoa :: "int \<Rightarrow> string" where
  "itoa i = (if i < 0 then CHR ''-'' # nat_digits (nat (- i)) else nat_digits (nat i))"

text \<open>\<open>strconv.Atoi\<close>, and \<open>ParseInt\<close> in base 10 with 64 bits: a sign and digits, within \<open>int64\<close>.\<close>

fun parse_digits :: "nat \<Rightarrow> string \<Rightarrow> nat option" where
  "parse_digits acc [] = Some acc"
| "parse_digits acc (c # cs) =
     (if 48 \<le> (of_char c :: nat) \<and> (of_char c :: nat) \<le> 57
      then parse_digits (10 * acc + (of_char c - 48)) cs else None)"

definition atoi :: "string \<Rightarrow> int option" where
  "atoi s =
     (let (neg, ds) = (case s of
            [] \<Rightarrow> (False, [])
          | c # cs \<Rightarrow> if c = CHR ''-'' then (True, cs) else if c = CHR ''+'' then (False, cs) else (False, s))
      in if ds = [] then None
         else case parse_digits 0 ds of
                None \<Rightarrow> None
              | Some n \<Rightarrow>
                  let v = (if neg then - int n else int n)
                  in if - (2 ^ 63) \<le> v \<and> v < 2 ^ 63 then Some v else None)"

lemma digit_char_of: "d < 10 \<Longrightarrow> of_char (digit_char d) = 48 + d"
  by (simp add: digit_char_def)

lemma parse_digits_append:
  "parse_digits acc (xs @ [digit_char d]) =
     (case parse_digits acc xs of None \<Rightarrow> None | Some n \<Rightarrow> Some (10 * n + d))" if "d < 10"
  using that by (induction acc xs rule: parse_digits.induct) (simp_all add: digit_char_of)

lemma parse_nat_digits: "parse_digits 0 (nat_digits n) = Some n"
proof (induction n rule: nat_digits.induct)
  case (1 n)
  show ?case
  proof (cases "n < 10")
    case True
    then show ?thesis by (subst nat_digits.simps) (simp add: digit_char_of)
  next
    case False
    with 1 show ?thesis by (subst nat_digits.simps) (simp add: parse_digits_append)
  qed
qed

lemma nat_digits_Cons: "\<exists>d cs. nat_digits n = digit_char d # cs \<and> d < 10"
proof (induction n rule: nat_digits.induct)
  case (1 n)
  then show ?case by (subst nat_digits.simps) (cases "n < 10"; auto)
qed

lemma digit_char_not_sign: "d < 10 \<Longrightarrow> digit_char d \<noteq> CHR ''-'' \<and> digit_char d \<noteq> CHR ''+''"
proof -
  assume d: "d < 10"
  have "of_char (digit_char d) \<noteq> (of_char (CHR ''-'') :: nat)"
    "of_char (digit_char d) \<noteq> (of_char (CHR ''+'') :: nat)"
    using d by (simp_all add: digit_char_of)
  then show ?thesis by metis
qed

lemma atoi_itoa: "- (2 ^ 63) \<le> i \<Longrightarrow> i < 2 ^ 63 \<Longrightarrow> atoi (itoa i) = Some i"
proof -
  assume b: "- (2 ^ 63) \<le> i" "i < 2 ^ 63"
  obtain d cs where n: "nat_digits (nat i) = digit_char d # cs" "d < 10"
    using nat_digits_Cons by blast
  obtain d' cs' where m: "nat_digits (nat (- i)) = digit_char d' # cs'" "d' < 10"
    using nat_digits_Cons by blast
  show ?thesis
  proof (cases "i < 0")
    case True
    with b m parse_nat_digits [of "nat (- i)"] show ?thesis by (simp add: atoi_def itoa_def)
  next
    case False
    with b n parse_nat_digits [of "nat i"] digit_char_not_sign [OF n(2)]
    show ?thesis by (simp add: atoi_def itoa_def)
  qed
qed

lemma digit_char_not_space: "d < 10 \<Longrightarrow> 48 \<le> (of_char (digit_char d) :: nat) \<and> (of_char (digit_char d) :: nat) \<le> 57"
  by (simp add: digit_char_of)

lemma nat_digits_digits: "c \<in> set (nat_digits n) \<Longrightarrow> 48 \<le> (of_char c :: nat) \<and> (of_char c :: nat) \<le> 57"
proof (induction n rule: nat_digits.induct)
  case (1 n)
  then show ?case
    by (subst (asm) nat_digits.simps) (auto simp: digit_char_not_space split: if_splits)
qed

lemma itoa_nonempty: "itoa i \<noteq> []"
  using nat_digits_Cons by (auto simp: itoa_def) (metis list.discI)

definition to_lower_byte :: "char \<Rightarrow> char" where
  "to_lower_byte c = (if 65 \<le> (of_char c :: nat) \<and> (of_char c :: nat) \<le> 90
     then char_of ((of_char c :: nat) + 32) else c)"

text \<open>
  \<open>strings.EqualFold\<close> against an ASCII constant.  Apart from the ASCII letters only two code
  points fold to ASCII: the Kelvin sign U+212A to \<open>k\<close> and the long s U+017F to \<open>s\<close>.
\<close>

fun fold_ascii :: "string \<Rightarrow> string" where
  "fold_ascii [] = []"
| "fold_ascii (c # cs) =
     (case cs of
        d # ds \<Rightarrow>
          if c = CHR 0xC5 \<and> d = CHR 0xBF then CHR ''s'' # fold_ascii ds
          else (case ds of
                  e # es \<Rightarrow>
                    if c = CHR 0xE2 \<and> d = CHR 0x84 \<and> e = CHR 0xAA then CHR ''k'' # fold_ascii es
                    else to_lower_byte c # fold_ascii cs
                | [] \<Rightarrow> to_lower_byte c # fold_ascii cs)
      | [] \<Rightarrow> to_lower_byte c # fold_ascii cs)"

definition equal_fold :: "string \<Rightarrow> string \<Rightarrow> bool" where
  "equal_fold s const \<longleftrightarrow> fold_ascii s = fold_ascii const"

lemma equal_fold_refl [simp]: "equal_fold s s"
  by (simp add: equal_fold_def)

text \<open>\<open>strings.Join\<close>.\<close>

fun join :: "string \<Rightarrow> string list \<Rightarrow> string" where
  "join sep [] = []"
| "join sep [s] = s"
| "join sep (s # t # rest) = s @ sep @ join sep (t # rest)"

text \<open>\<open>strings.HasPrefix\<close> and \<open>strings.HasSuffix\<close>.\<close>

definition has_prefix :: "string \<Rightarrow> string \<Rightarrow> bool" where
  [go_simps]: "has_prefix s p \<longleftrightarrow> take (length p) s = p"

lemma has_prefix_append [simp]: "has_prefix (p @ s) p"
  by (simp add: has_prefix_def)

lemma has_prefix_iff: "has_prefix s p \<longleftrightarrow> prefix p s"
  by (metis append_eq_conv_conj append_take_drop_id has_prefix_def prefix_def)

text \<open>\<open>strings.Contains\<close>.\<close>

fun contains :: "string \<Rightarrow> string \<Rightarrow> bool" where
  "contains [] sub = (sub = [])"
| "contains (c # cs) sub = (has_prefix (c # cs) sub \<or> contains cs sub)"

end
