(* ===== verification/IdempotencyStore.thy ===== *)
theory IdempotencyStore
  imports GoStrings
begin

text \<open>
  The idempotency records: the interface \<open>IdempotencyRepository\<close> of
  \<open>backend/internal/service/idempotency.go\<close> as a record of operations with its contract as a
  locale, and the table \<open>idempotency_records\<close> with the SQL statements of
  \<open>backend/internal/repository/idempotency_repo.go\<close>, which the interpretation at the end shows to
  keep the contract.  Instants are whole microseconds, the precision of \<open>timestamptz\<close>.
\<close>

section \<open>Records and operations\<close>

definition IdempotencyStatusProcessing :: string where
  "IdempotencyStatusProcessing = ''processing''"

definition IdempotencyStatusSucceeded :: string where
  "IdempotencyStatusSucceeded = ''succeeded''"

definition IdempotencyStatusFailedRetryable :: string where
  "IdempotencyStatusFailedRetryable = ''failed_retryable''"

lemma idem_status_distinct [simp]:
  "IdempotencyStatusProcessing \<noteq> IdempotencyStatusSucceeded"
  "IdempotencyStatusProcessing \<noteq> IdempotencyStatusFailedRetryable"
  "IdempotencyStatusSucceeded \<noteq> IdempotencyStatusProcessing"
  "IdempotencyStatusSucceeded \<noteq> IdempotencyStatusFailedRetryable"
  "IdempotencyStatusFailedRetryable \<noteq> IdempotencyStatusProcessing"
  "IdempotencyStatusFailedRetryable \<noteq> IdempotencyStatusSucceeded"
  by (simp_all add: IdempotencyStatusProcessing_def IdempotencyStatusSucceeded_def
      IdempotencyStatusFailedRetryable_def)

record IdempotencyRecord =
  r_ID :: int
  r_Scope :: string
  r_KeyHash :: string
  r_Fingerprint :: string
  r_Status :: string
  r_ResponseStatus :: "int option"
  r_ResponseBody :: "string option"
  r_ErrorReason :: "string option"
  r_LockedUntil :: "go_time option"
  r_ExpiresAt :: go_time
  r_CreatedAt :: go_time
  r_UpdatedAt :: go_time

text \<open>
  An interface value of Go is a record of functions on the store \<open>'s\<close>; the first argument of a
  statement that reads \<open>NOW()\<close> is the server's clock.
\<close>

record 's IdempotencyRepository =
  CreateProcessing :: "go_time \<Rightarrow> IdempotencyRecord \<Rightarrow> 's \<Rightarrow> (bool \<times> IdempotencyRecord) \<times> 's"
  GetByScopeAndKeyHash :: "string \<Rightarrow> string \<Rightarrow> 's \<Rightarrow> IdempotencyRecord option"
  TryReclaim :: "go_time \<Rightarrow> int \<Rightarrow> string \<Rightarrow> go_time \<Rightarrow> go_time \<Rightarrow> go_time \<Rightarrow> 's \<Rightarrow> bool \<times> 's"
  ExtendProcessingLock :: "go_time \<Rightarrow> int \<Rightarrow> string \<Rightarrow> go_time \<Rightarrow> go_time \<Rightarrow> 's \<Rightarrow> bool \<times> 's"
  MarkSucceeded :: "go_time \<Rightarrow> int \<Rightarrow> int \<Rightarrow> string \<Rightarrow> go_time \<Rightarrow> 's \<Rightarrow> 's"
  MarkFailedRetryable :: "go_time \<Rightarrow> int \<Rightarrow> string \<Rightarrow> go_time \<Rightarrow> go_time \<Rightarrow> 's \<Rightarrow> 's"
  DeleteExpired :: "go_time \<Rightarrow> int \<Rightarrow> 's \<Rightarrow> int \<times> 's"

section \<open>What the statements do to a row\<close>

definition reclaimable :: "string \<Rightarrow> go_time \<Rightarrow> IdempotencyRecord \<Rightarrow> bool" where
  "reclaimable fromStatus now r \<longleftrightarrow>
     r_Status r = fromStatus
     \<and> (case r_LockedUntil r of None \<Rightarrow> True | Some l \<Rightarrow> l \<le> now)"

definition reclaim_row :: "go_time \<Rightarrow> go_time \<Rightarrow> go_time \<Rightarrow> IdempotencyRecord \<Rightarrow> IdempotencyRecord" where
  "reclaim_row clk locked expires r =
     r\<lparr>r_Status := IdempotencyStatusProcessing, r_LockedUntil := Some locked, r_ErrorReason := None,
       r_UpdatedAt := clk, r_ExpiresAt := expires\<rparr>"

definition extendable :: "string \<Rightarrow> IdempotencyRecord \<Rightarrow> bool" where
  "extendable fingerprint r \<longleftrightarrow>
     r_Status r = IdempotencyStatusProcessing \<and> r_Fingerprint r = fingerprint"

definition extend_row :: "go_time \<Rightarrow> go_time \<Rightarrow> go_time \<Rightarrow> IdempotencyRecord \<Rightarrow> IdempotencyRecord" where
  "extend_row clk locked expires r =
     r\<lparr>r_LockedUntil := Some locked, r_ExpiresAt := expires, r_UpdatedAt := clk\<rparr>"

definition succeed_row :: "go_time \<Rightarrow> int \<Rightarrow> string \<Rightarrow> go_time \<Rightarrow> IdempotencyRecord \<Rightarrow> IdempotencyRecord" where
  "succeed_row clk status body expires r =
     r\<lparr>r_Status := IdempotencyStatusSucceeded, r_ResponseStatus := Some status,
       r_ResponseBody := Some body, r_ErrorReason := None, r_LockedUntil := None,
       r_ExpiresAt := expires, r_UpdatedAt := clk\<rparr>"

definition fail_row :: "go_time \<Rightarrow> string \<Rightarrow> go_time \<Rightarrow> go_time \<Rightarrow> IdempotencyRecord \<Rightarrow> IdempotencyRecord" where
  "fail_row clk reason locked expires r =
     r\<lparr>r_Status := IdempotencyStatusFailedRetryable, r_ErrorReason := Some reason,
       r_LockedUntil := Some locked, r_ExpiresAt := expires, r_UpdatedAt := clk\<rparr>"

lemmas row_change_defs = reclaim_row_def extend_row_def succeed_row_def fail_row_def

lemma row_change_key [simp]:
  "r_ID (reclaim_row c l e r) = r_ID r" "r_Scope (reclaim_row c l e r) = r_Scope r"
  "r_KeyHash (reclaim_row c l e r) = r_KeyHash r" "r_Fingerprint (reclaim_row c l e r) = r_Fingerprint r"
  "r_ID (extend_row c l e r) = r_ID r" "r_Scope (extend_row c l e r) = r_Scope r"
  "r_KeyHash (extend_row c l e r) = r_KeyHash r" "r_Fingerprint (extend_row c l e r) = r_Fingerprint r"
  "r_ID (succeed_row c n b e r) = r_ID r" "r_Scope (succeed_row c n b e r) = r_Scope r"
  "r_KeyHash (succeed_row c n b e r) = r_KeyHash r" "r_Fingerprint (succeed_row c n b e r) = r_Fingerprint r"
  "r_ID (fail_row c why l e r) = r_ID r" "r_Scope (fail_row c why l e r) = r_Scope r"
  "r_KeyHash (fail_row c why l e r) = r_KeyHash r" "r_Fingerprint (fail_row c why l e r) = r_Fingerprint r"
  by (simp_all add: row_change_defs)

section \<open>The contract\<close>

text \<open>
  What the coordinator relies on, over the records the store returns: a creation succeeds exactly
  on a free scope and key and then returns the record under a positive id; an update by id changes
  the record with that id when its guard holds and no other.
\<close>

definition on_id :: "int \<Rightarrow> (IdempotencyRecord \<Rightarrow> bool) \<Rightarrow> (IdempotencyRecord \<Rightarrow> IdempotencyRecord)
  \<Rightarrow> IdempotencyRecord option \<Rightarrow> IdempotencyRecord option" where
  "on_id i guard change = map_option (\<lambda>r. if r_ID r = i \<and> guard r then change r else r)"

locale idempotency_store =
  fixes repo :: "'s IdempotencyRepository"
    and store_ok :: "'s \<Rightarrow> bool"
  assumes create_free:
      "store_ok s \<Longrightarrow> GetByScopeAndKeyHash repo (r_Scope r) (r_KeyHash r) s = None \<Longrightarrow>
         \<exists>i s'. CreateProcessing repo clk r s
             = ((True, r\<lparr>r_ID := i, r_CreatedAt := clk, r_UpdatedAt := clk\<rparr>), s')
           \<and> 0 < i \<and> store_ok s'
           \<and> (\<forall>sc k. GetByScopeAndKeyHash repo sc k s'
                = (if sc = r_Scope r \<and> k = r_KeyHash r
                   then Some (r\<lparr>r_ID := i, r_CreatedAt := clk, r_UpdatedAt := clk\<rparr>)
                   else GetByScopeAndKeyHash repo sc k s))"
    and create_taken:
      "store_ok s \<Longrightarrow> GetByScopeAndKeyHash repo (r_Scope r) (r_KeyHash r) s \<noteq> None \<Longrightarrow>
         \<exists>s'. CreateProcessing repo clk r s = ((False, r), s') \<and> store_ok s'
           \<and> (\<forall>sc k. GetByScopeAndKeyHash repo sc k s' = GetByScopeAndKeyHash repo sc k s)"
    and get_key:
      "store_ok s \<Longrightarrow> GetByScopeAndKeyHash repo sc k s = Some r \<Longrightarrow>
         r_Scope r = sc \<and> r_KeyHash r = k \<and> 0 < r_ID r"
    and get_id:
      "store_ok s \<Longrightarrow> GetByScopeAndKeyHash repo sc k s = Some r \<Longrightarrow>
         GetByScopeAndKeyHash repo sc' k' s = Some r' \<Longrightarrow> r_ID r = r_ID r' \<Longrightarrow> sc = sc' \<and> k = k'"
    and reclaim_ok: "store_ok s \<Longrightarrow> store_ok (snd (TryReclaim repo clk i st now l e s))"
    and reclaim_get:
      "store_ok s \<Longrightarrow> GetByScopeAndKeyHash repo sc k (snd (TryReclaim repo clk i st now l e s))
         = on_id i (reclaimable st now) (reclaim_row clk l e) (GetByScopeAndKeyHash repo sc k s)"
    and reclaim_taken:
      "store_ok s \<Longrightarrow> fst (TryReclaim repo clk i st now l e s) \<longleftrightarrow>
         (\<exists>sc k r. GetByScopeAndKeyHash repo sc k s = Some r \<and> r_ID r = i \<and> reclaimable st now r)"
    and extend_ok: "store_ok s \<Longrightarrow> store_ok (snd (ExtendProcessingLock repo clk i fp l e s))"
    and extend_get:
      "store_ok s \<Longrightarrow> GetByScopeAndKeyHash repo sc k (snd (ExtendProcessingLock repo clk i fp l e s))
         = on_id i (extendable fp) (extend_row clk l e) (GetByScopeAndKeyHash repo sc k s)"
    and succeed_ok: "store_ok s \<Longrightarrow> store_ok (MarkSucceeded repo clk i n b e s)"
    and succeed_get:
      "store_ok s \<Longrightarrow> GetByScopeAndKeyHash repo sc k (MarkSucceeded repo clk i n b e s)
         = on_id i (\<lambda>_. True) (succeed_row clk n b e) (GetByScopeAndKeyHash repo sc k s)"
    and fail_ok: "store_ok s \<Longrightarrow> store_ok (MarkFailedRetryable repo clk i why l e s)"
    and fail_get:
      "store_ok s \<Longrightarrow> GetByScopeAndKeyHash repo sc k (MarkFailedRetryable repo clk i why l e s)
         = on_id i (\<lambda>_. True) (fail_row clk why l e) (GetByScopeAndKeyHash repo sc k s)"
    and delete_ok: "store_ok s \<Longrightarrow> store_ok (snd (DeleteExpired repo now lim s))"
    and delete_get:
      "store_ok s \<Longrightarrow> GetByScopeAndKeyHash repo sc k s = Some r \<Longrightarrow>
         GetByScopeAndKeyHash repo sc k (snd (DeleteExpired repo now lim s)) = Some r
         \<or> (GetByScopeAndKeyHash repo sc k (snd (DeleteExpired repo now lim s)) = None
            \<and> r_ExpiresAt r \<le> now)"
    and delete_none:
      "store_ok s \<Longrightarrow> GetByScopeAndKeyHash repo sc k s = None \<Longrightarrow>
         GetByScopeAndKeyHash repo sc k (snd (DeleteExpired repo now lim s)) = None"
begin

lemma reclaim_taken_iff:
  assumes "store_ok s" and "GetByScopeAndKeyHash repo sc k s = Some r"
  shows "fst (TryReclaim repo clk (r_ID r) st now l e s) \<longleftrightarrow> reclaimable st now r"
  using assms reclaim_taken [OF assms(1)] get_id [OF assms(1)] by (metis option.inject)

end

section \<open>The table\<close>

record idem_table =
  t_rows :: "IdempotencyRecord list"
  t_next_id :: int

definition same_key :: "string \<Rightarrow> string \<Rightarrow> IdempotencyRecord \<Rightarrow> bool" where
  "same_key sc k r \<longleftrightarrow> r_Scope r = sc \<and> r_KeyHash r = k"

definition sql_get :: "string \<Rightarrow> string \<Rightarrow> idem_table \<Rightarrow> IdempotencyRecord option" where
  "sql_get scope keyHash t = find (same_key scope keyHash) (t_rows t)"

text \<open>\<open>ON CONFLICT DO NOTHING\<close>: no row comes back and only the sequence has moved on.\<close>

definition sql_create ::
  "go_time \<Rightarrow> IdempotencyRecord \<Rightarrow> idem_table \<Rightarrow> (bool \<times> IdempotencyRecord) \<times> idem_table" where
  "sql_create clk r t =
     (let i = t_next_id t; t1 = t\<lparr>t_next_id := i + 1\<rparr> in
      if sql_get (r_Scope r) (r_KeyHash r) t \<noteq> None then ((False, r), t1)
      else
        let row = r\<lparr>r_ID := i, r_CreatedAt := clk, r_UpdatedAt := clk\<rparr>
        in ((True, row), t1\<lparr>t_rows := t_rows t @ [row]\<rparr>))"

definition sql_update ::
  "int \<Rightarrow> (IdempotencyRecord \<Rightarrow> bool) \<Rightarrow> (IdempotencyRecord \<Rightarrow> IdempotencyRecord) \<Rightarrow> idem_table
     \<Rightarrow> bool \<times> idem_table" where
  "sql_update i guard change t =
     ((\<exists>r\<in>set (t_rows t). r_ID r = i \<and> guard r),
      t\<lparr>t_rows := map (\<lambda>r. if r_ID r = i \<and> guard r then change r else r) (t_rows t)\<rparr>)"

text \<open>
  \<open>ORDER BY expires_at LIMIT\<close> takes the oldest expired rows; rows that expire together are
  taken in table order, one of the orders SQL allows.
\<close>

definition sql_victims :: "go_time \<Rightarrow> int \<Rightarrow> idem_table \<Rightarrow> int list" where
  "sql_victims now lim t =
     take (nat lim) (map r_ID (sort_key r_ExpiresAt (filter (\<lambda>r. r_ExpiresAt r \<le> now) (t_rows t))))"

definition sql_delete_expired :: "go_time \<Rightarrow> int \<Rightarrow> idem_table \<Rightarrow> int \<times> idem_table" where
  "sql_delete_expired now lim0 t =
     (let lim = (if lim0 \<le> 0 then 500 else lim0);
          victims = sql_victims now lim t;
          kept = filter (\<lambda>r. r_ID r \<notin> set victims) (t_rows t)
      in (int (length (t_rows t)) - int (length kept), t\<lparr>t_rows := kept\<rparr>))"

definition sql_repo :: "idem_table IdempotencyRepository" where
  "sql_repo =
     \<lparr>CreateProcessing = sql_create,
      GetByScopeAndKeyHash = sql_get,
      TryReclaim = (\<lambda>clk i st now l e. sql_update i (reclaimable st now) (reclaim_row clk l e)),
      ExtendProcessingLock = (\<lambda>clk i fp l e. sql_update i (extendable fp) (extend_row clk l e)),
      MarkSucceeded = (\<lambda>clk i n b e t. snd (sql_update i (\<lambda>_. True) (succeed_row clk n b e) t)),
      MarkFailedRetryable = (\<lambda>clk i why l e t. snd (sql_update i (\<lambda>_. True) (fail_row clk why l e) t)),
      DeleteExpired = sql_delete_expired\<rparr>"

text \<open>Primary key, unique index and sequence.\<close>

definition table_ok :: "idem_table \<Rightarrow> bool" where
  "table_ok t \<longleftrightarrow>
     distinct (map r_ID (t_rows t))
     \<and> distinct (map (\<lambda>r. (r_Scope r, r_KeyHash r)) (t_rows t))
     \<and> (\<forall>r\<in>set (t_rows t). 0 < r_ID r \<and> r_ID r < t_next_id t) \<and> 0 < t_next_id t"

lemma sql_get_Some:
  "table_ok t \<Longrightarrow> sql_get sc k t = Some r \<longleftrightarrow> r \<in> set (t_rows t) \<and> r_Scope r = sc \<and> r_KeyHash r = k"
proof -
  assume ok: "table_ok t"
  have "find P xs = Some r \<longleftrightarrow> r \<in> set xs \<and> P r"
    if "distinct (map f xs)" "\<And>x y. P x \<Longrightarrow> P y \<Longrightarrow> f x = f y" for P and xs :: "'a list" and f :: "'a \<Rightarrow> 'b" and r
    using that(1) by (induction xs) (use that(2) in \<open>auto simp: image_iff\<close>)
  from this [of "\<lambda>r. (r_Scope r, r_KeyHash r)" "t_rows t" "same_key sc k" r] ok
  show ?thesis by (auto simp: sql_get_def table_ok_def same_key_def)
qed

lemma sql_get_None:
  "sql_get sc k t = None \<longleftrightarrow> (\<forall>r\<in>set (t_rows t). \<not> (r_Scope r = sc \<and> r_KeyHash r = k))"
  by (auto simp: sql_get_def find_None_iff same_key_def)

lemma sql_update_get:
  assumes "\<And>r. r_Scope (change r) = r_Scope r" "\<And>r. r_KeyHash (change r) = r_KeyHash r"
  shows "sql_get sc k (snd (sql_update i guard change t)) = on_id i guard change (sql_get sc k t)"
proof -
  have "find (same_key sc k) (map (\<lambda>r. if r_ID r = i \<and> guard r then change r else r) xs)
      = on_id i guard change (find (same_key sc k) xs)" for xs
    by (induction xs) (auto simp: on_id_def same_key_def assms)
  then show ?thesis by (simp add: sql_update_def sql_get_def)
qed

lemma sql_update_ok:
  assumes "\<And>r. r_ID (change r) = r_ID r" "\<And>r. r_Scope (change r) = r_Scope r"
    "\<And>r. r_KeyHash (change r) = r_KeyHash r" and "table_ok t"
  shows "table_ok (snd (sql_update i guard change t))"
proof -
  define f where "f = (\<lambda>r. if r_ID r = i \<and> guard r then change r else r)"
  have f: "r_ID \<circ> f = r_ID"
    "(\<lambda>r. (r_Scope r, r_KeyHash r)) \<circ> f = (\<lambda>r. (r_Scope r, r_KeyHash r))"
    "\<And>r. r_ID (f r) = r_ID r"
    by (auto simp: f_def assms(1-3))
  have "t_rows (snd (sql_update i guard change t)) = map f (t_rows t)"
    "t_next_id (snd (sql_update i guard change t)) = t_next_id t"
    by (simp_all add: sql_update_def f_def)
  with assms(4) f show ?thesis by (auto simp: table_ok_def)
qed

lemma sql_create_ok: "table_ok t \<Longrightarrow> table_ok (snd (sql_create clk r t))"
  by (auto simp: sql_create_def Let_def table_ok_def sql_get_None)

lemma sql_create_get:
  assumes "sql_get (r_Scope r) (r_KeyHash r) t = None"
  shows "sql_get sc k (snd (sql_create clk r t)) =
    (if sc = r_Scope r \<and> k = r_KeyHash r
     then Some (r\<lparr>r_ID := t_next_id t, r_CreatedAt := clk, r_UpdatedAt := clk\<rparr>) else sql_get sc k t)"
proof -
  have "find P (xs @ [x]) = (case find P xs of None \<Rightarrow> if P x then Some x else None | Some y \<Rightarrow> Some y)"
    for P and x :: IdempotencyRecord and xs
    by (induction xs) simp_all
  with assms show ?thesis
    by (auto simp: sql_create_def Let_def sql_get_def same_key_def split: option.splits)
qed

lemma sql_delete_ok: "table_ok t \<Longrightarrow> table_ok (snd (sql_delete_expired now lim t))"
  by (auto simp: sql_delete_expired_def Let_def table_ok_def distinct_map_filter)

lemma sql_delete_row:
  assumes "table_ok t" "r \<in> set (t_rows t)" "r \<notin> set (t_rows (snd (sql_delete_expired now lim t)))"
  shows "r_ExpiresAt r \<le> now"
proof -
  have "r_ID r \<in> set (sql_victims now (if lim \<le> 0 then 500 else lim) t)"
    using assms(2,3) by (simp add: sql_delete_expired_def Let_def split: if_splits)
  then have "r_ID r \<in> r_ID ` {r \<in> set (t_rows t). r_ExpiresAt r \<le> now}"
    by (auto simp: sql_victims_def dest!: in_set_takeD)
  then obtain v where v: "v \<in> set (t_rows t)" "r_ExpiresAt v \<le> now" "r_ID r = r_ID v" by auto
  with assms(1,2) have "v = r" by (auto simp: table_ok_def distinct_map inj_on_def)
  with v show ?thesis by simp
qed

lemma sql_delete_subset: "set (t_rows (snd (sql_delete_expired now lim t))) \<subseteq> set (t_rows t)"
  by (auto simp: sql_delete_expired_def Let_def)

interpretation sql: idempotency_store sql_repo table_ok
proof
  fix s clk and r :: IdempotencyRecord
  assume ok: "table_ok s" and free: "GetByScopeAndKeyHash sql_repo (r_Scope r) (r_KeyHash r) s = None"
  then have "sql_create clk r s = ((True, r\<lparr>r_ID := t_next_id s, r_CreatedAt := clk, r_UpdatedAt := clk\<rparr>),
      snd (sql_create clk r s))"
    by (simp add: sql_repo_def sql_create_def Let_def)
  with ok free sql_create_ok [OF ok, of clk r] sql_create_get [of r s _ _ clk]
  show "\<exists>i s'. CreateProcessing sql_repo clk r s
             = ((True, r\<lparr>r_ID := i, r_CreatedAt := clk, r_UpdatedAt := clk\<rparr>), s')
           \<and> 0 < i \<and> table_ok s'
           \<and> (\<forall>sc k. GetByScopeAndKeyHash sql_repo sc k s'
                = (if sc = r_Scope r \<and> k = r_KeyHash r
                   then Some (r\<lparr>r_ID := i, r_CreatedAt := clk, r_UpdatedAt := clk\<rparr>)
                   else GetByScopeAndKeyHash sql_repo sc k s))"
    by (intro exI [of _ "t_next_id s"] exI [of _ "snd (sql_create clk r s)"])
       (simp add: sql_repo_def table_ok_def)
next
  fix s clk and r :: IdempotencyRecord
  assume ok: "table_ok s" and taken: "GetByScopeAndKeyHash sql_repo (r_Scope r) (r_KeyHash r) s \<noteq> None"
  then show "\<exists>s'. CreateProcessing sql_repo clk r s = ((False, r), s') \<and> table_ok s'
      \<and> (\<forall>sc k. GetByScopeAndKeyHash sql_repo sc k s' = GetByScopeAndKeyHash sql_repo sc k s)"
    by (auto simp: sql_repo_def sql_create_def Let_def table_ok_def sql_get_def)
next
  fix s sc k r
  assume "table_ok s" "GetByScopeAndKeyHash sql_repo sc k s = Some r"
  then show "r_Scope r = sc \<and> r_KeyHash r = k \<and> 0 < r_ID r"
    by (auto simp: sql_repo_def sql_get_Some table_ok_def)
next
  fix s sc k r sc' k' r'
  assume "table_ok s" "GetByScopeAndKeyHash sql_repo sc k s = Some r"
    "GetByScopeAndKeyHash sql_repo sc' k' s = Some r'" "r_ID r = r_ID r'"
  then show "sc = sc' \<and> k = k'"
    by (auto simp: sql_repo_def sql_get_Some table_ok_def distinct_map inj_on_def)
next
  fix s sc k r now lim
  assume ok: "table_ok s" and g: "GetByScopeAndKeyHash sql_repo sc k s = Some r"
  let ?s = "snd (sql_delete_expired now lim s)"
  have r: "r \<in> set (t_rows s)" "r_Scope r = sc" "r_KeyHash r = k"
    using ok g by (auto simp: sql_repo_def sql_get_Some)
  have uniq: "r' = r" if "r' \<in> set (t_rows s)" "r_Scope r' = sc" "r_KeyHash r' = k" for r'
    using ok r that by (auto simp: table_ok_def distinct_map inj_on_def)
  show "GetByScopeAndKeyHash sql_repo sc k (snd (DeleteExpired sql_repo now lim s)) = Some r
      \<or> (GetByScopeAndKeyHash sql_repo sc k (snd (DeleteExpired sql_repo now lim s)) = None
         \<and> r_ExpiresAt r \<le> now)"
  proof (cases "r \<in> set (t_rows ?s)")
    case True
    with r ok show ?thesis by (simp add: sql_repo_def sql_get_Some sql_delete_ok)
  next
    case False
    then have "sql_get sc k ?s = None"
      using uniq sql_delete_subset [of now lim s] by (auto simp: sql_get_None)
    with False r ok show ?thesis by (simp add: sql_repo_def sql_delete_row)
  qed
next
  fix s sc k now lim
  assume "table_ok s" "GetByScopeAndKeyHash sql_repo sc k s = None"
  then show "GetByScopeAndKeyHash sql_repo sc k (snd (DeleteExpired sql_repo now lim s)) = None"
    using sql_delete_subset [of now lim s] by (auto simp: sql_repo_def sql_get_None)
next
  fix s i st now clk l e
  assume "table_ok s"
  then show "fst (TryReclaim sql_repo clk i st now l e s) \<longleftrightarrow>
     (\<exists>sc k r. GetByScopeAndKeyHash sql_repo sc k s = Some r \<and> r_ID r = i \<and> reclaimable st now r)"
    by (auto simp: sql_repo_def sql_update_def sql_get_Some)
qed (simp_all add: sql_repo_def sql_update_ok sql_update_get sql_delete_ok)

end
