(* ===== verification/Float64.thy ===== *)
theory Float64
  imports Complex_Main "HOL-Library.Log_Nat"
begin

text \<open>
  Go's \<open>float64\<close> arithmetic on finite values: \<open>f64\<close> rounds a rational to the nearest
  IEEE 754 binary64 value, ties to even, so \<open>a - b\<close> of the source is
  \<open>f64 (a - b)\<close>.  Overflow to infinity is outside the model: the amounts the components
  compute with are far below it.
\<close>

definition half_even :: "rat \<Rightarrow> int" where
  "half_even x =
     (let n = \<lfloor>x\<rfloor>; d = x - of_int n in
      if d < 1 / 2 then n else if 1 / 2 < d then n + 1 else if even n then n else n + 1)"

text \<open>The binary exponent of a positive rational.\<close>

function bit_length :: "int \<Rightarrow> int" where
  "bit_length n = (if n \<le> 0 then 0 else 1 + bit_length (n div 2))"
  by pat_completeness auto

termination by (relation "measure nat") auto

declare bit_length.simps [simp del]

definition ilog2 :: "rat \<Rightarrow> int" where
  "ilog2 x = (if 1 \<le> x then bit_length \<lfloor>x\<rfloor> - 1 else - bit_length (\<lceil>1 / x\<rceil> - 1))"

definition f64_exponent :: "rat \<Rightarrow> int" where
  "f64_exponent x = max (ilog2 \<bar>x\<bar>) (- 1022) - 52"

definition f64 :: "rat \<Rightarrow> rat" where
  "f64 x = (if x = 0 then 0
     else sgn x * of_int (half_even (\<bar>x\<bar> / 2 powi f64_exponent x)) * 2 powi f64_exponent x)"

lemma powi_le_iff [simp]: "(2 :: rat) powi a \<le> 2 powi b \<longleftrightarrow> a \<le> b"
  by (metis linorder_not_le order.refl power_int_increasing power_int_strict_increasing one_less_numeral_iff
      semiring_norm(76) one_le_numeral)

lemma powi_less_iff [simp]: "(2 :: rat) powi a < 2 powi b \<longleftrightarrow> a < b"
  by (simp flip: linorder_not_le)

lemma powi_add_numeral: "(2 :: rat) powi (e + numeral n) = 2 ^ numeral n * 2 powi e"
  by (simp add: power_int_add)

lemma half_even_of_int [simp]: "half_even (of_int i) = i"
  by (simp add: half_even_def Let_def)

lemma half_even_bounds: "\<lfloor>x\<rfloor> \<le> half_even x" "half_even x \<le> \<lfloor>x\<rfloor> + 1"
  by (simp_all add: half_even_def Let_def)

lemma half_even_mono: "x \<le> y \<Longrightarrow> half_even x \<le> half_even y"
proof -
  assume le: "x \<le> y"
  show ?thesis
  proof (cases "\<lfloor>x\<rfloor> = \<lfloor>y\<rfloor>")
    case True
    with le show ?thesis by (auto simp: half_even_def Let_def)
  next
    case False
    with floor_mono [OF le] have "\<lfloor>x\<rfloor> + 1 \<le> \<lfloor>y\<rfloor>" by linarith
    with half_even_bounds [of x] half_even_bounds [of y] show ?thesis by linarith
  qed
qed

lemma half_even_error: "\<bar>of_int (half_even x) - x\<bar> \<le> 1 / 2"
proof -
  have "of_int \<lfloor>x\<rfloor> \<le> x" "x < of_int \<lfloor>x\<rfloor> + 1" by linarith+
  then show ?thesis by (simp add: half_even_def Let_def abs_le_iff)
qed

lemma bit_length_floorlog: "bit_length n = int (floorlog 2 (nat n))"
proof (induction n rule: bit_length.induct)
  case (1 n)
  show ?case
  proof (cases "n \<le> 0")
    case False
    then have "floorlog 2 (nat n) = Suc (floorlog 2 (nat n div 2))"
      by (subst compute_floorlog) simp
    with False 1 show ?thesis by (subst bit_length.simps) (simp add: nat_div_distrib)
  qed (simp add: bit_length.simps floorlog_def)
qed

lemma floorlog2_bounds:
  assumes "0 < n"
  shows "(2::nat) ^ (floorlog 2 n - 1) \<le> n" and "n < 2 ^ floorlog 2 n" and "0 < floorlog 2 n"
  using assms Log_Nat.floorlog_bounds [of n 2] floorlog_eq_zero_iff [of 2 n] by auto

lemma ilog2_ge1:
  assumes "1 \<le> x"
  shows "2 powi ilog2 x \<le> x \<and> x < 2 powi (ilog2 x + 1)"
proof -
  define n where "n = nat \<lfloor>x\<rfloor>"
  have fl: "1 \<le> \<lfloor>x\<rfloor>" using assms by simp
  then have pos: "0 < n" by (simp add: n_def)
  have n_int: "int n = \<lfloor>x\<rfloor>" using fl by (simp add: n_def)
  have n_rat: "of_nat n = (of_int \<lfloor>x\<rfloor> :: rat)"
    by (metis n_int of_int_of_nat_eq)
  have e: "ilog2 x = int (floorlog 2 n - 1)"
    using assms floorlog2_bounds(3) [OF pos] by (simp add: ilog2_def n_def bit_length_floorlog)
  have e1: "ilog2 x + 1 = int (floorlog 2 n)"
    using floorlog2_bounds(3) [OF pos] by (simp add: e)
  have "(2 :: rat) ^ (floorlog 2 n - 1) \<le> of_nat n"
    using floorlog2_bounds(1) [OF pos] by (metis of_nat_le_iff of_nat_numeral of_nat_power)
  also have "\<dots> \<le> x" by (simp add: n_rat)
  finally have lo: "2 powi ilog2 x \<le> x" by (simp add: e power_int_def)
  have "int n + 1 \<le> 2 ^ floorlog 2 n"
    using floorlog2_bounds(2) [OF pos]
    by (metis Suc_leI of_nat_Suc of_nat_le_iff of_nat_numeral of_nat_power add.commute)
  then have "of_int (\<lfloor>x\<rfloor> + 1) \<le> (of_int (2 ^ floorlog 2 n) :: rat)"
    unfolding n_int of_int_le_iff .
  moreover have "x < of_int (\<lfloor>x\<rfloor> + 1)" by linarith
  ultimately have "x < 2 ^ floorlog 2 n" by simp
  then have "x < 2 powi (ilog2 x + 1)" by (simp add: e1 power_int_def)
  with lo show ?thesis ..
qed

lemma ilog2_less1:
  assumes "0 < x" and "x < 1"
  shows "2 powi ilog2 x \<le> x \<and> x < 2 powi (ilog2 x + 1)"
proof -
  define y where "y = 1 / x"
  define n where "n = nat (\<lceil>y\<rceil> - 1)"
  have y1: "1 < y" using assms by (simp add: y_def)
  then have ce: "2 \<le> \<lceil>y\<rceil>" by linarith
  then have pos: "0 < n" by (simp add: n_def)
  have n_int: "int n = \<lceil>y\<rceil> - 1" using ce by (simp add: n_def)
  define k where "k = floorlog 2 n"
  have k0: "0 < k" using floorlog2_bounds(3) [OF pos] by (simp add: k_def)
  have e: "ilog2 x = - int k"
    using assms by (simp add: ilog2_def n_def k_def y_def bit_length_floorlog)
  have "int n + 1 \<le> 2 ^ k"
    using floorlog2_bounds(2) [OF pos] unfolding k_def
    by (metis Suc_leI of_nat_Suc of_nat_le_iff of_nat_numeral of_nat_power add.commute)
  then have "\<lceil>y\<rceil> \<le> 2 ^ k" by (simp add: n_int)
  then have yk: "y \<le> 2 ^ k" by (simp add: ceiling_le_iff)
  have "int (2 ^ (k - 1)) \<le> int n"
    using floorlog2_bounds(1) [OF pos] unfolding k_def of_nat_le_iff .
  then have "2 ^ (k - 1) < \<lceil>y\<rceil>" by (simp add: n_int)
  then have ky: "2 ^ (k - 1) < y" by (simp add: less_ceiling_iff)
  have lo: "2 powi ilog2 x \<le> x"
    using yk assms k0 by (simp add: e power_int_minus power_int_def y_def field_simps)
  have e1: "ilog2 x + 1 = - int (k - 1)" using k0 by (simp add: e)
  have "x < 2 powi (ilog2 x + 1)"
    unfolding e1 using ky assms
    by (simp only: power_int_minus power_int_of_nat y_def) (simp add: field_simps)
  with lo show ?thesis ..
qed

lemma ilog2_bounds:
  "0 < x \<Longrightarrow> 2 powi ilog2 x \<le> x" "0 < x \<Longrightarrow> x < 2 powi (ilog2 x + 1)"
  using ilog2_ge1 ilog2_less1 by (meson linorder_not_less)+

lemma ilog2_mono: "0 < x \<Longrightarrow> x \<le> y \<Longrightarrow> ilog2 x \<le> ilog2 y"
proof -
  assume "0 < x" "x \<le> y"
  then have "2 powi ilog2 x < (2 :: rat) powi (ilog2 y + 1)"
    using ilog2_bounds(1) [of x] ilog2_bounds(2) [of y] by linarith
  then show ?thesis by simp
qed

lemma f64_0 [simp]: "f64 0 = 0"
  by (simp add: f64_def)

lemma f64_uminus: "f64 (- x) = - f64 x"
  by (simp add: f64_def f64_exponent_def)

lemma f64_pos: "0 < x \<Longrightarrow>
  f64 x = of_int (half_even (x / 2 powi f64_exponent x)) * 2 powi f64_exponent x"
  by (simp add: f64_def)

lemma f64_nonneg: "0 \<le> x \<Longrightarrow> 0 \<le> f64 x"
proof (cases "x = 0")
  case False
  assume "0 \<le> x"
  with False have x: "0 < x" by simp
  then have "0 \<le> half_even (x / 2 powi f64_exponent x)"
    using half_even_mono [of 0 "x / 2 powi f64_exponent x"] half_even_of_int [of 0] by simp
  then show ?thesis by (simp add: f64_pos [OF x])
qed simp

lemma f64_upper: "0 < x \<Longrightarrow> f64 x \<le> 2 powi (f64_exponent x + 53)"
proof -
  assume x: "0 < x"
  let ?e = "f64_exponent x"
  have "x < 2 powi (ilog2 x + 1)" using x by (rule ilog2_bounds)
  also have "\<dots> \<le> 2 powi (?e + 53)" using x by (simp add: f64_exponent_def)
  finally have "x / 2 powi ?e \<le> 2 powi 53"
    by (simp add: divide_le_eq power_int_add mult.commute)
  then have "x / 2 powi ?e \<le> of_int (2 ^ 53)" by (simp add: power_int_def)
  then have "half_even (x / 2 powi ?e) \<le> 2 ^ 53"
    using half_even_mono half_even_of_int by metis
  then have "of_int (half_even (x / 2 powi ?e)) \<le> (of_int (2 ^ 53) :: rat)"
    unfolding of_int_le_iff .
  then have "of_int (half_even (x / 2 powi ?e)) * 2 powi ?e \<le> (of_int (2 ^ 53) :: rat) * 2 powi ?e"
    by (rule mult_right_mono) simp
  then show ?thesis
    by (simp add: f64_pos [OF x] powi_add_numeral)
qed

lemma f64_lower: "0 < x \<Longrightarrow> ilog2 x \<ge> - 1022 \<Longrightarrow> 2 powi (f64_exponent x + 52) \<le> f64 x"
proof -
  assume x: "0 < x" and n: "ilog2 x \<ge> - 1022"
  let ?e = "f64_exponent x"
  have "2 powi (?e + 52) \<le> x" using x n ilog2_bounds(1) [OF x] by (simp add: f64_exponent_def)
  then have "2 powi 52 \<le> x / 2 powi ?e"
    by (simp add: le_divide_eq power_int_add mult.commute)
  then have "of_int (2 ^ 52) \<le> x / 2 powi ?e" by (simp add: power_int_def)
  then have "2 ^ 52 \<le> half_even (x / 2 powi ?e)"
    using half_even_mono half_even_of_int by metis
  then have "(of_int (2 ^ 52) :: rat) \<le> of_int (half_even (x / 2 powi ?e))"
    unfolding of_int_le_iff .
  then have "(of_int (2 ^ 52) :: rat) * 2 powi ?e \<le> of_int (half_even (x / 2 powi ?e)) * 2 powi ?e"
    by (rule mult_right_mono) simp
  then show ?thesis
    by (simp add: f64_pos [OF x] powi_add_numeral)
qed

lemma f64_mono_pos: "0 < x \<Longrightarrow> x \<le> y \<Longrightarrow> f64 x \<le> f64 y"
proof -
  assume x: "0 < x" and le: "x \<le> y"
  then have y: "0 < y" by simp
  have mono: "ilog2 x \<le> ilog2 y" using x le by (rule ilog2_mono)
  show ?thesis
  proof (cases "f64_exponent x = f64_exponent y")
    case True
    have "half_even (x / 2 powi f64_exponent y) \<le> half_even (y / 2 powi f64_exponent y)"
      by (rule half_even_mono) (simp add: divide_right_mono le)
    then show ?thesis
      unfolding f64_pos [OF x] f64_pos [OF y] True by (intro mult_right_mono) simp_all
  next
    case False
    with mono x y have less: "f64_exponent x + 1 \<le> f64_exponent y" and big: "ilog2 y \<ge> - 1022"
      by (auto simp: f64_exponent_def)
    have "f64 x \<le> 2 powi (f64_exponent x + 53)" using x by (rule f64_upper)
    also have "\<dots> \<le> 2 powi (f64_exponent y + 52)" using less by simp
    also have "\<dots> \<le> f64 y" using y big by (rule f64_lower)
    finally show ?thesis .
  qed
qed

lemma f64_mono: "x \<le> y \<Longrightarrow> f64 x \<le> f64 y"
proof -
  assume le: "x \<le> y"
  consider "0 < x" | "x \<le> 0" "0 \<le> y" | "y < 0" using le by linarith
  then show ?thesis
  proof cases
    case 1
    then show ?thesis using le by (rule f64_mono_pos)
  next
    case 2
    have "f64 x \<le> 0" using f64_nonneg [of "- x"] 2 by (simp add: f64_uminus)
    also have "0 \<le> f64 y" using 2 by (simp add: f64_nonneg)
    finally show ?thesis .
  next
    case 3
    then show ?thesis using f64_mono_pos [of "- y" "- x"] le by (simp add: f64_uminus)
  qed
qed

lemma f64_error_pos:
  assumes x: "0 < x"
  shows "\<bar>f64 x - x\<bar> \<le> x / 2 ^ 53 + 2 powi (- 1075)"
proof -
  let ?e = "f64_exponent x"
  have "\<bar>f64 x - x\<bar> = \<bar>of_int (half_even (x / 2 powi ?e)) - x / 2 powi ?e\<bar> * 2 powi ?e"
  proof -
    have "f64 x - x = (of_int (half_even (x / 2 powi ?e)) - x / 2 powi ?e) * 2 powi ?e"
      by (simp add: f64_pos [OF x] left_diff_distrib)
    then show ?thesis by (simp add: abs_mult)
  qed
  also have "\<dots> \<le> 1 / 2 * 2 powi ?e"
    by (intro mult_right_mono half_even_error) simp
  also have "\<dots> \<le> x / 2 ^ 53 + 2 powi (- 1075)"
  proof (cases "ilog2 x \<ge> - 1022")
    case True
    then have "2 powi ?e * 2 ^ 52 \<le> x"
      using ilog2_bounds(1) [OF x] x powi_add_numeral [of "ilog2 x - 52" "num.Bit0 (num.Bit0 (num.Bit1 (num.Bit0 (num.Bit1 num.One))))"]
      by (simp add: f64_exponent_def)
    moreover have "0 < (2 :: rat) powi (- 1075)" by simp
    ultimately show ?thesis by (simp add: field_simps)
  next
    case False
    then have "?e = - 1074" using x by (simp add: f64_exponent_def)
    then have "1 / 2 * 2 powi ?e = (2 :: rat) powi (- 1075)"
      by (simp add: power_int_def field_simps)
    then show ?thesis using x by simp
  qed
  finally show ?thesis .
qed

lemma f64_error: "\<bar>f64 x - x\<bar> \<le> \<bar>x\<bar> / 2 ^ 53 + 2 powi (- 1075)"
  using f64_error_pos [of x] f64_error_pos [of "- x"]
  by (cases "0 < x"; cases "x = 0") (simp_all add: f64_uminus abs_if split: if_splits)

lemma f64_of_int: "\<bar>n\<bar> < 2 ^ 53 \<Longrightarrow> f64 (of_int n) = of_int n"
proof -
  have pos: "f64 (of_int n) = of_int n" if n: "0 < n" "n < 2 ^ 53" for n
  proof -
    let ?x = "of_int n :: rat"
    have x: "0 < ?x" using n by simp
    have "2 powi ilog2 ?x \<le> ?x" using x by (rule ilog2_bounds)
    also have "?x < of_int (2 ^ 53)" using n(2) by (simp only: of_int_less_iff)
    also have "of_int (2 ^ 53) = (2 :: rat) powi 53" by simp
    finally have "ilog2 ?x < 53" by (simp only: powi_less_iff)
    then have e: "f64_exponent ?x \<le> 0" using x by (simp add: f64_exponent_def)
    define k where "k = nat (- f64_exponent ?x)"
    have ek: "f64_exponent ?x = - int k" using e by (simp add: k_def)
    have "?x / 2 powi f64_exponent ?x = of_int (n * 2 ^ k)"
      unfolding ek by (simp only: power_int_minus power_int_of_nat) (simp add: divide_inverse)
    then have "half_even (?x / 2 powi f64_exponent ?x) = n * 2 ^ k"
      by (simp only: half_even_of_int)
    then have "f64 ?x = of_int (n * 2 ^ k) * 2 powi f64_exponent ?x"
      by (simp only: f64_pos [OF x])
    then show ?thesis unfolding ek by (simp add: power_int_minus)
  qed
  assume "\<bar>n\<bar> < 2 ^ 53"
  then show ?thesis
    using pos [of n] pos [of "- n"] f64_uminus [of "of_int n"]
    by (cases "0 < n"; cases "n = 0") simp_all
qed

end
