(* ===== verification/Idempotency.thy ===== *)
theory Idempotency
  imports IdempotencyStore Float64
begin

text \<open>
  The coordinator of \<open>backend/internal/service/idempotency.go\<close>.  \<open>Execute\<close> is cut at its
  repository calls and at the call of the executor: \<open>begin_execute\<close> is the code before the first
  call, \<open>client_next\<close> performs one call and the code up to the next, and \<open>run_client\<close> strings
  the steps together.  A repository call may report an error with or without having taken effect.
  JSON encoding, log redaction, SHA-256 and \<open>strings.ToUpper\<close> are fields of \<open>idem_lib\<close>.
  Metrics and audit log lines are left out.
\<close>

section \<open>Keys, fingerprints and stored responses\<close>

record ('v, 'e) idem_lib =
  lib_marshal :: "'v \<Rightarrow> string option"
  lib_unmarshal :: "string \<Rightarrow> 'v option"
  lib_empty_object :: 'v
  lib_redact :: "string \<Rightarrow> string"
  lib_sha256 :: "string \<Rightarrow> string"
  lib_upper :: "string \<Rightarrow> string"
  lib_reason :: "'e \<Rightarrow> string"

datatype 'e idem_error =
  ErrExecutorNil
| ErrKeyRequired
| ErrKeyInvalid
| ErrKeyConflict
| ErrInProgress "string option"
| ErrRetryBackoff "string option"
| ErrStoreUnavail
| ErrInvalidPayload
| ErrScopeRequired
| ErrExecution 'e

text \<open>The argument of a conflict is its \<open>retry_after\<close> metadata.\<close>

definition NormalizeIdempotencyKey :: "string \<Rightarrow> 'e idem_error + string" where
  "NormalizeIdempotencyKey raw =
     (let key = trim_space raw in
      if key = '''' then Inr ''''
      else if length key > 128 then Inl ErrKeyInvalid
      else if (\<exists>c\<in>set key. (of_char c :: nat) < 33 \<or> 126 < (of_char c :: nat)) then Inl ErrKeyInvalid
      else Inr key)"

definition HashIdempotencyKey :: "('v, 'e) idem_lib \<Rightarrow> string \<Rightarrow> string" where
  "HashIdempotencyKey lib key = lib_sha256 lib key"

definition BuildIdempotencyFingerprint ::
  "('v, 'e) idem_lib \<Rightarrow> string \<Rightarrow> string \<Rightarrow> string \<Rightarrow> 'v \<Rightarrow> 'e idem_error + string" where
  "BuildIdempotencyFingerprint lib method0 route0 actorScope0 payload =
     (let method = (if method0 = '''' then ''POST'' else method0);
          route = (if route0 = '''' then ''/'' else route0);
          actorScope = (if actorScope0 = '''' then ''anonymous'' else actorScope0)
      in case lib_marshal lib payload of
           None \<Rightarrow> Inl ErrInvalidPayload
         | Some raw \<Rightarrow>
             Inr (lib_sha256 lib (lib_upper lib method @ [CHR 0x0A] @ route @ [CHR 0x0A]
                    @ actorScope @ [CHR 0x0A] @ raw)))"

text \<open>\<open>utf8.ValidString\<close>.\<close>

definition cont_byte :: "nat \<Rightarrow> bool" where
  "cont_byte b \<longleftrightarrow> 128 \<le> b \<and> b \<le> 191"

fun valid_utf8_bytes :: "nat list \<Rightarrow> bool" where
  "valid_utf8_bytes [] = True"
| "valid_utf8_bytes (a # bs) =
     (if a < 128 then valid_utf8_bytes bs
      else if a < 194 \<or> 244 < a then False
      else case bs of
        [] \<Rightarrow> False
      | b # cs \<Rightarrow>
          if a < 224 then cont_byte b \<and> valid_utf8_bytes cs
          else (case cs of
            [] \<Rightarrow> False
          | c # ds \<Rightarrow>
              if a < 240 then
                cont_byte b \<and> (a = 224 \<longrightarrow> 160 \<le> b) \<and> (a = 237 \<longrightarrow> b \<le> 159) \<and> cont_byte c
                \<and> valid_utf8_bytes ds
              else (case ds of
                [] \<Rightarrow> False
              | d # es \<Rightarrow>
                  cont_byte b \<and> (a = 240 \<longrightarrow> 144 \<le> b) \<and> (a = 244 \<longrightarrow> b \<le> 143)
                  \<and> cont_byte c \<and> cont_byte d \<and> valid_utf8_bytes es)))"

definition valid_string :: "string \<Rightarrow> bool" where
  "valid_string s = valid_utf8_bytes (map of_char s)"

fun truncate_loop :: "string \<Rightarrow> nat \<Rightarrow> string" where
  "truncate_loop s n =
     (if n > 0 \<and> \<not> valid_string (take n s) then truncate_loop s (n - 1) else take n s)"

declare truncate_loop.simps [simp del]

definition truncateUTF8 :: "string \<Rightarrow> int \<Rightarrow> string" where
  "truncateUTF8 s maxBytes =
     (if maxBytes \<le> 0 \<or> int (length s) \<le> maxBytes then s else truncate_loop s (nat maxBytes))"

record idem_config =
  DefaultTTL :: duration
  SystemOperationTTL :: duration
  ProcessingTimeout :: duration
  FailedRetryBackoff :: duration
  MaxStoredResponseLen :: int
  ObserveOnly :: bool

definition DefaultIdempotencyConfig :: idem_config where
  "DefaultIdempotencyConfig =
     \<lparr>DefaultTTL = 24 * hour_ns, SystemOperationTTL = 1 * hour_ns, ProcessingTimeout = 30 * second_ns,
      FailedRetryBackoff = 5 * second_ns, MaxStoredResponseLen = 64 * 1024, ObserveOnly = True\<rparr>"

definition marshalStoredResponse ::
  "('v, 'e) idem_lib \<Rightarrow> idem_config \<Rightarrow> 'v \<Rightarrow> string option" where
  "marshalStoredResponse lib cfg data =
     (case lib_marshal lib data of
        None \<Rightarrow> None
      | Some raw \<Rightarrow>
          let redacted = lib_redact lib raw in
          Some (if MaxStoredResponseLen cfg > 0 \<and> int (length redacted) > MaxStoredResponseLen cfg
                then truncateUTF8 redacted (MaxStoredResponseLen cfg) @ ''...(truncated)''
                else redacted))"

definition decodeStoredResponse :: "('v, 'e) idem_lib \<Rightarrow> string option \<Rightarrow> 'v option" where
  "decodeStoredResponse lib stored =
     (case stored of
        None \<Rightarrow> Some (lib_empty_object lib)
      | Some s \<Rightarrow> if trim_space s = '''' then Some (lib_empty_object lib) else lib_unmarshal lib s)"

section \<open>Retry delays\<close>

text \<open>\<open>Duration.Seconds\<close> adds whole seconds and nanoseconds as \<open>float64\<close>; the conversion to
  \<open>int\<close> drops the fraction.\<close>

definition quot_int :: "int \<Rightarrow> int \<Rightarrow> int" where
  "quot_int a b = (if a < 0 then - ((- a) div b) else a div b)"

definition duration_seconds :: "duration \<Rightarrow> rat" where
  "duration_seconds d =
     f64 (f64 (of_int (quot_int d second_ns))
          + f64 (f64 (of_int (d - quot_int d second_ns * second_ns)) / 10 ^ 9))"

definition trunc_rat :: "rat \<Rightarrow> int" where
  "trunc_rat x = (if x < 0 then \<lceil>x\<rceil> else \<lfloor>x\<rfloor>)"

definition retry_seconds :: "go_time \<Rightarrow> go_time \<Rightarrow> int" where
  "retry_seconds lockedUntil now =
     (let sec = trunc_rat (duration_seconds (time_sub lockedUntil now)) in if sec \<le> 0 then 1 else sec)"

definition conflictWithRetryAfter ::
  "(string option \<Rightarrow> 'e idem_error) \<Rightarrow> go_time option \<Rightarrow> go_time \<Rightarrow> 'e idem_error" where
  "conflictWithRetryAfter base lockedUntil now =
     (case lockedUntil of
        None \<Rightarrow> base None
      | Some l \<Rightarrow> base (Some (itoa (retry_seconds l now))))"

definition RetryAfterSecondsFromError :: "'e idem_error \<Rightarrow> int" where
  "RetryAfterSecondsFromError err =
     (let md = (case err of ErrInProgress m \<Rightarrow> m | ErrRetryBackoff m \<Rightarrow> m | _ \<Rightarrow> None) in
      case md of
        None \<Rightarrow> 0
      | Some raw \<Rightarrow>
          let v = trim_space raw in
          if v = '''' then 0
          else case atoi v of None \<Rightarrow> 0 | Some seconds \<Rightarrow> if seconds \<le> 0 then 0 else seconds)"

section \<open>Execute\<close>

record 'v IdempotencyExecuteOptions =
  Scope :: string
  ActorScope :: string
  Method :: string
  Route :: string
  IdempotencyKey :: string
  Payload :: 'v
  TTL :: duration
  RequireKey :: bool

record 'v IdempotencyExecuteResult =
  Data :: 'v
  Replayed :: bool

datatype ('v, 'e) idem_pc =
  AtCreate
| AtGetExisting
| AtReclaimExpired IdempotencyRecord
| AtGetLatest
| AtReclaimFailed IdempotencyRecord
| AtExecute int
| AtMarkFailed int 'e go_time
| AtMarkSucceeded int 'v string
| Finished "'e idem_error + 'v IdempotencyExecuteResult"

text \<open>The local variables of one call of \<open>Execute\<close>.\<close>

record ('v, 'e) idem_client =
  c_scope :: string
  c_keyHash :: string
  c_fingerprint :: string
  c_now :: go_time
  c_lockedUntil :: go_time
  c_expiresAt :: go_time
  c_pc :: "('v, 'e) idem_pc"

text \<open>What the executor returns when it is called.\<close>

type_synonym ('v, 'e) outcome = "'e + 'v"

definition run_without_key :: "('v, 'e) outcome \<Rightarrow> 'e idem_error + 'v IdempotencyExecuteResult" where
  "run_without_key outcome =
     (case outcome of Inl e \<Rightarrow> Inl (ErrExecution e) | Inr v \<Rightarrow> Inr \<lparr>Data = v, Replayed = False\<rparr>)"

text \<open>
  The code before the first repository call; \<open>Inl\<close> is a return.  \<open>has_executor\<close> and
  \<open>has_repo\<close> say whether the function and the repository are non-nil.
\<close>

definition begin_execute ::
  "('v, 'e) idem_lib \<Rightarrow> idem_config \<Rightarrow> bool \<Rightarrow> bool \<Rightarrow> go_time \<Rightarrow> 'v IdempotencyExecuteOptions
     \<Rightarrow> ('v, 'e) outcome \<Rightarrow> ('e idem_error + 'v IdempotencyExecuteResult) + ('v, 'e) idem_client" where
  "begin_execute lib cfg has_executor has_repo now opts outcome =
     (if \<not> has_executor then Inl (Inl ErrExecutorNil)
      else case NormalizeIdempotencyKey (IdempotencyKey opts) of
        Inl e \<Rightarrow> Inl (Inl e)
      | Inr key \<Rightarrow>
          if key = '''' then
            (if RequireKey opts \<and> \<not> ObserveOnly cfg then Inl (Inl ErrKeyRequired)
             else Inl (run_without_key outcome))
          else if \<not> has_repo then Inl (Inl ErrStoreUnavail)
          else if Scope opts = '''' then Inl (Inl ErrScopeRequired)
          else case BuildIdempotencyFingerprint lib (Method opts) (Route opts) (ActorScope opts) (Payload opts) of
            Inl e \<Rightarrow> Inl (Inl e)
          | Inr fingerprint \<Rightarrow>
              let ttl = (if TTL opts \<le> 0 then DefaultTTL cfg else TTL opts)
              in Inr \<lparr>c_scope = Scope opts, c_keyHash = HashIdempotencyKey lib key,
                      c_fingerprint = fingerprint, c_now = now,
                      c_lockedUntil = now + ProcessingTimeout cfg, c_expiresAt = now + ttl,
                      c_pc = AtCreate\<rparr>)"

definition claim_record :: "('v, 'e) idem_client \<Rightarrow> IdempotencyRecord" where
  "claim_record c =
     \<lparr>r_ID = 0, r_Scope = c_scope c, r_KeyHash = c_keyHash c, r_Fingerprint = c_fingerprint c,
      r_Status = IdempotencyStatusProcessing, r_ResponseStatus = None, r_ResponseBody = None,
      r_ErrorReason = None, r_LockedUntil = Some (c_lockedUntil c), r_ExpiresAt = c_expiresAt c,
      r_CreatedAt = 0, r_UpdatedAt = 0\<rparr>"

definition claimed_pc :: "int \<Rightarrow> ('v, 'e) idem_pc" where
  "claimed_pc i = (if i = 0 then Finished (Inl ErrStoreUnavail) else AtExecute i)"

text \<open>The switch on the status of a record that was not reclaimed.\<close>

definition dispatch :: "('v, 'e) idem_lib \<Rightarrow> go_time \<Rightarrow> IdempotencyRecord \<Rightarrow> ('v, 'e) idem_pc" where
  "dispatch lib now existing =
     (if r_Status existing = IdempotencyStatusSucceeded then
        (case decodeStoredResponse lib (r_ResponseBody existing) of
           None \<Rightarrow> Finished (Inl ErrStoreUnavail)
         | Some v \<Rightarrow> Finished (Inr \<lparr>Data = v, Replayed = True\<rparr>))
      else if r_Status existing = IdempotencyStatusProcessing then
        Finished (Inl (conflictWithRetryAfter ErrInProgress (r_LockedUntil existing) now))
      else if r_Status existing = IdempotencyStatusFailedRetryable then
        (if (case r_LockedUntil existing of None \<Rightarrow> False | Some l \<Rightarrow> l > now)
         then Finished (Inl (conflictWithRetryAfter ErrRetryBackoff (r_LockedUntil existing) now))
         else AtReclaimFailed existing)
      else Finished (Inl ErrKeyConflict))"

definition after_get :: "('v, 'e) idem_lib \<Rightarrow> ('v, 'e) idem_client \<Rightarrow> IdempotencyRecord option
  \<Rightarrow> ('v, 'e) idem_pc" where
  "after_get lib c found =
     (case found of
        None \<Rightarrow> Finished (Inl ErrStoreUnavail)
      | Some existing \<Rightarrow>
          if r_Fingerprint existing \<noteq> c_fingerprint c then Finished (Inl ErrKeyConflict)
          else if \<not> r_ExpiresAt existing > c_now c then AtReclaimExpired existing
          else dispatch lib (c_now c) existing)"

definition after_latest :: "('v, 'e) idem_lib \<Rightarrow> ('v, 'e) idem_client \<Rightarrow> IdempotencyRecord option
  \<Rightarrow> ('v, 'e) idem_pc" where
  "after_latest lib c found =
     (case found of
        None \<Rightarrow> Finished (Inl ErrStoreUnavail)
      | Some latest \<Rightarrow>
          if r_Fingerprint latest \<noteq> c_fingerprint c then Finished (Inl ErrKeyConflict)
          else dispatch lib (c_now c) latest)"

text \<open>The code after the executor has returned, at its own reading of the clock.\<close>

definition after_execute ::
  "('v, 'e) idem_lib \<Rightarrow> idem_config \<Rightarrow> go_time \<Rightarrow> int \<Rightarrow> ('v, 'e) outcome \<Rightarrow> ('v, 'e) idem_pc" where
  "after_execute lib cfg clk i outcome =
     (case outcome of
        Inl e \<Rightarrow> AtMarkFailed i e (clk + FailedRetryBackoff cfg)
      | Inr v \<Rightarrow>
          (case marshalStoredResponse lib cfg v of
             None \<Rightarrow> Finished (Inl ErrStoreUnavail)
           | Some body \<Rightarrow> AtMarkSucceeded i v body))"

definition failure_reason :: "('v, 'e) idem_lib \<Rightarrow> 'e \<Rightarrow> string" where
  "failure_reason lib e = (if lib_reason lib e = '''' then ''EXECUTION_FAILED'' else lib_reason lib e)"

text \<open>A repository call works, or reports an error before or after it took effect.\<close>

datatype fault = Works | FailsBefore | FailsAfter

definition faulty :: "fault \<Rightarrow> 's \<Rightarrow> 's \<Rightarrow> 's" where
  "faulty f before after = (if f = FailsBefore then before else after)"

definition client_next ::
  "'s IdempotencyRepository \<Rightarrow> ('v, 'e) idem_lib \<Rightarrow> idem_config \<Rightarrow> go_time \<Rightarrow> fault \<Rightarrow> ('v, 'e) outcome
     \<Rightarrow> ('v, 'e) idem_client \<Rightarrow> 's \<Rightarrow> ('v, 'e) idem_client \<times> 's" where
  "client_next repo lib cfg clk f outcome c s =
     (let unavailable = (Finished (Inl ErrStoreUnavail) :: ('v, 'e) idem_pc);
          ret = (\<lambda>pc s1. (c\<lparr>c_pc := if f = Works then pc else unavailable\<rparr>, faulty f s s1))
      in case c_pc c of
        AtCreate \<Rightarrow>
          (case CreateProcessing repo clk (claim_record c) s of
             ((owner, r), s1) \<Rightarrow> ret (if owner then claimed_pc (r_ID r) else AtGetExisting) s1)
      | AtGetExisting \<Rightarrow>
          ret (after_get lib c (GetByScopeAndKeyHash repo (c_scope c) (c_keyHash c) s)) s
      | AtReclaimExpired r \<Rightarrow>
          (case TryReclaim repo clk (r_ID r) (r_Status r) (c_now c) (c_lockedUntil c) (c_expiresAt c) s of
             (taken, s1) \<Rightarrow> ret (if taken then claimed_pc (r_ID r) else AtGetLatest) s1)
      | AtGetLatest \<Rightarrow>
          ret (after_latest lib c (GetByScopeAndKeyHash repo (c_scope c) (c_keyHash c) s)) s
      | AtReclaimFailed r \<Rightarrow>
          (case TryReclaim repo clk (r_ID r) IdempotencyStatusFailedRetryable (c_now c)
                  (c_lockedUntil c) (c_expiresAt c) s of
             (taken, s1) \<Rightarrow>
               ret (if taken then claimed_pc (r_ID r)
                    else Finished (Inl (conflictWithRetryAfter ErrInProgress (r_LockedUntil r) (c_now c)))) s1)
      | AtExecute i \<Rightarrow> (c\<lparr>c_pc := after_execute lib cfg clk i outcome\<rparr>, s)
      | AtMarkFailed i e backoffUntil \<Rightarrow>
          (c\<lparr>c_pc := Finished (Inl (ErrExecution e))\<rparr>,
           faulty f s (MarkFailedRetryable repo clk i (failure_reason lib e) backoffUntil (c_expiresAt c) s))
      | AtMarkSucceeded i v body \<Rightarrow>
          ret (Finished (Inr \<lparr>Data = v, Replayed = False\<rparr>))
              (MarkSucceeded repo clk i 200 body (c_expiresAt c) s)
      | Finished r \<Rightarrow> (c, s))"

text \<open>How many steps are left at most; the clock and the faults are given per step.\<close>

fun pc_rank :: "('v, 'e) idem_pc \<Rightarrow> nat" where
  "pc_rank AtCreate = 7"
| "pc_rank AtGetExisting = 6"
| "pc_rank (AtReclaimExpired r) = 5"
| "pc_rank AtGetLatest = 4"
| "pc_rank (AtReclaimFailed r) = 3"
| "pc_rank (AtExecute i) = 2"
| "pc_rank (AtMarkFailed i e t) = 1"
| "pc_rank (AtMarkSucceeded i v b) = 1"
| "pc_rank (Finished r) = 0"

record ('v, 'e) idem_run =
  run_clock :: "nat \<Rightarrow> go_time"
  run_fault :: "nat \<Rightarrow> fault"
  run_outcome :: "('v, 'e) outcome"

lemma pc_rank_claimed: "pc_rank (claimed_pc i) \<le> 2"
  by (simp add: claimed_pc_def)

lemma pc_rank_dispatch: "pc_rank (dispatch lib t r) \<le> 3"
  by (auto simp: dispatch_def split: option.split)

lemma pc_rank_after_get: "pc_rank (after_get lib c found) \<le> 5"
  using pc_rank_dispatch [of lib]
  by (auto simp: after_get_def split: option.split intro: le_trans [where j = 3])

lemma pc_rank_after_latest: "pc_rank (after_latest lib c found) \<le> 3"
  using pc_rank_dispatch [of lib] by (auto simp: after_latest_def split: option.split)

lemma pc_rank_after_execute: "pc_rank (after_execute lib cfg clk i outcome) \<le> 1"
  by (auto simp: after_execute_def split: sum.split option.split)

lemmas pc_rank_bounds = pc_rank_claimed pc_rank_dispatch pc_rank_after_get pc_rank_after_latest
  pc_rank_after_execute

lemma client_next_rank:
  assumes "0 < pc_rank (c_pc c)"
  shows "pc_rank (c_pc (fst (client_next repo lib cfg clk f outcome c s))) < pc_rank (c_pc c)"
proof -
  have less: "pc_rank (claimed_pc i) < n" if "3 \<le> n" for i n
    by (rule le_less_trans [OF pc_rank_claimed]) (use that in simp)
  have get: "pc_rank (after_get lib c x) < 6" for x
    by (rule le_less_trans [OF pc_rank_after_get]) simp
  have latest: "pc_rank (after_latest lib c x) < 4" for x
    by (rule le_less_trans [OF pc_rank_after_latest]) simp
  have exec: "pc_rank (after_execute lib cfg clk i outcome) < 2" for i
    by (rule le_less_trans [OF pc_rank_after_execute]) simp
  show ?thesis
    using assms
    by (cases "c_pc c")
       (auto simp: client_next_def Let_def less get latest exec split: prod.split)
qed

lemma client_next_decreases:
  "c_pc c = pc \<Longrightarrow> 0 < pc_rank pc \<Longrightarrow>
     ((repo, lib, cfg, run, client_next repo lib cfg clk f outcome c s), (repo, lib, cfg, run, c, s))
     \<in> measure (\<lambda>(repo, lib, cfg, run, c, s). pc_rank (c_pc c))"
  using client_next_rank [of c repo lib cfg clk f outcome s] by (simp add: case_prod_beta)

function run_client ::
  "'s IdempotencyRepository \<Rightarrow> ('v, 'e) idem_lib \<Rightarrow> idem_config \<Rightarrow> ('v, 'e) idem_run
     \<Rightarrow> ('v, 'e) idem_client \<Rightarrow> 's \<Rightarrow> ('e idem_error + 'v IdempotencyExecuteResult) \<times> 's" where
  "run_client repo lib cfg run c s =
     (case c_pc c of
        Finished r \<Rightarrow> (r, s)
      | pc \<Rightarrow>
          run_client repo lib cfg run
            (fst (client_next repo lib cfg (run_clock run (pc_rank pc)) (run_fault run (pc_rank pc))
                    (run_outcome run) c s))
            (snd (client_next repo lib cfg (run_clock run (pc_rank pc)) (run_fault run (pc_rank pc))
                    (run_outcome run) c s)))"
  by pat_completeness auto

termination
  by (relation "measure (\<lambda>(repo, lib, cfg, run, c, s). pc_rank (c_pc c))")
     (rule wf_measure, simp_all only: prod.collapse, (erule client_next_decreases, simp)+)

declare run_client.simps [simp del]

definition Execute ::
  "'s IdempotencyRepository \<Rightarrow> ('v, 'e) idem_lib \<Rightarrow> idem_config \<Rightarrow> bool \<Rightarrow> bool \<Rightarrow> go_time
     \<Rightarrow> 'v IdempotencyExecuteOptions \<Rightarrow> ('v, 'e) idem_run \<Rightarrow> 's
     \<Rightarrow> ('e idem_error + 'v IdempotencyExecuteResult) \<times> 's" where
  "Execute repo lib cfg has_executor has_repo now opts run s =
     (case begin_execute lib cfg has_executor has_repo now opts (run_outcome run) of
        Inl r \<Rightarrow> (r, s)
      | Inr c \<Rightarrow> run_client repo lib cfg run c s)"

lemma run_client_Finished: "c_pc c = Finished r \<Longrightarrow> run_client repo lib cfg run c s = (r, s)"
  by (subst run_client.simps) simp

lemma run_client_step:
  assumes "0 < pc_rank (c_pc c)"
    and "client_next repo lib cfg (run_clock run (pc_rank (c_pc c))) (run_fault run (pc_rank (c_pc c)))
           (run_outcome run) c s = (c1, s1)"
  shows "run_client repo lib cfg run c s = run_client repo lib cfg run c1 s1"
  using assms by (subst run_client.simps) (cases "c_pc c"; simp)

definition fault_free :: "('v, 'e) idem_run \<Rightarrow> bool" where
  "fault_free run \<longleftrightarrow> (\<forall>n. run_fault run n = Works)"

section \<open>Lemmas on the contract\<close>

context idempotency_store
begin

text \<open>A call that finds a record goes on to inspect it, and the store still answers the same.\<close>

lemma run_taken:
  assumes "store_ok s" "fault_free run" "c_pc c = AtCreate"
    and "GetByScopeAndKeyHash repo (c_scope c) (c_keyHash c) s = Some r"
  shows "\<exists>s1. store_ok s1
    \<and> (\<forall>sc k. GetByScopeAndKeyHash repo sc k s1 = GetByScopeAndKeyHash repo sc k s)
    \<and> run_client repo lib cfg run c s
      = run_client repo lib cfg run (c\<lparr>c_pc := after_get lib c (Some r)\<rparr>) s1"
proof -
  have taken: "GetByScopeAndKeyHash repo (r_Scope (claim_record c)) (r_KeyHash (claim_record c)) s \<noteq> None"
    using assms(4) by (simp add: claim_record_def)
  obtain s1 where s1: "CreateProcessing repo (run_clock run 7) (claim_record c) s = ((False, claim_record c), s1)"
    "store_ok s1" "\<forall>sc k. GetByScopeAndKeyHash repo sc k s1 = GetByScopeAndKeyHash repo sc k s"
    using create_taken [OF assms(1) taken] by blast
  have "run_client repo lib cfg run c s = run_client repo lib cfg run (c\<lparr>c_pc := AtGetExisting\<rparr>) s1"
    by (rule run_client_step)
       (use assms(2,3) s1 in \<open>simp_all add: client_next_def Let_def fault_free_def faulty_def\<close>)
  also have "\<dots> = run_client repo lib cfg run (c\<lparr>c_pc := after_get lib c (Some r)\<rparr>) s1"
    by (rule run_client_step)
       (use assms(2,4) s1 in \<open>simp_all add: client_next_def Let_def fault_free_def faulty_def after_get_def\<close>)
  finally show ?thesis using s1 by blast
qed

text \<open>A call that finds none owns a new record and comes to its executor.\<close>

lemma run_free:
  assumes "store_ok s" "fault_free run" "c_pc c = AtCreate"
    and "GetByScopeAndKeyHash repo (c_scope c) (c_keyHash c) s = None"
  shows "\<exists>i s1 r. store_ok s1 \<and> 0 < i \<and> r_ID r = i
    \<and> r_Fingerprint r = c_fingerprint c \<and> r_Status r = IdempotencyStatusProcessing
    \<and> r_LockedUntil r = Some (c_lockedUntil c) \<and> r_ExpiresAt r = c_expiresAt c
    \<and> (\<forall>sc k. GetByScopeAndKeyHash repo sc k s1 =
          (if sc = c_scope c \<and> k = c_keyHash c then Some r else GetByScopeAndKeyHash repo sc k s))
    \<and> run_client repo lib cfg run c s = run_client repo lib cfg run (c\<lparr>c_pc := AtExecute i\<rparr>) s1"
proof -
  let ?r = "claim_record c"
  have free: "GetByScopeAndKeyHash repo (r_Scope ?r) (r_KeyHash ?r) s = None"
    using assms(4) by (simp add: claim_record_def)
  obtain i s1 where s1: "CreateProcessing repo (run_clock run 7) ?r s
      = ((True, ?r\<lparr>r_ID := i, r_CreatedAt := run_clock run 7, r_UpdatedAt := run_clock run 7\<rparr>), s1)"
    "0 < i" "store_ok s1"
    "\<forall>sc k. GetByScopeAndKeyHash repo sc k s1 =
       (if sc = r_Scope ?r \<and> k = r_KeyHash ?r
        then Some (?r\<lparr>r_ID := i, r_CreatedAt := run_clock run 7, r_UpdatedAt := run_clock run 7\<rparr>)
        else GetByScopeAndKeyHash repo sc k s)"
    using create_free [OF assms(1) free] by blast
  have "run_client repo lib cfg run c s = run_client repo lib cfg run (c\<lparr>c_pc := AtExecute i\<rparr>) s1"
    by (rule run_client_step)
       (use assms(2,3) s1(1,2) in \<open>simp_all add: client_next_def Let_def fault_free_def faulty_def claimed_pc_def\<close>)
  with s1 show ?thesis
    by (intro exI [of _ i] exI [of _ s1]
        exI [of _ "?r\<lparr>r_ID := i, r_CreatedAt := run_clock run 7, r_UpdatedAt := run_clock run 7\<rparr>"])
       (simp add: claim_record_def)
qed

text \<open>From the executor to the end: what is stored for a result and for an error.\<close>

lemma run_execute_ok:
  assumes "store_ok s" "fault_free run" "c_pc c = AtExecute i"
    and "GetByScopeAndKeyHash repo sc k s = Some r" "r_ID r = i"
    and "run_outcome run = Inr v" "marshalStoredResponse lib cfg v = Some body"
  shows "\<exists>s1. store_ok s1
    \<and> run_client repo lib cfg run c s = (Inr \<lparr>Data = v, Replayed = False\<rparr>, s1)
    \<and> GetByScopeAndKeyHash repo sc k s1
      = Some (succeed_row (run_clock run 1) 200 body (c_expiresAt c) r)"
proof -
  define s1 where "s1 = MarkSucceeded repo (run_clock run 1) i 200 body (c_expiresAt c) s"
  have "run_client repo lib cfg run c s = run_client repo lib cfg run (c\<lparr>c_pc := AtMarkSucceeded i v body\<rparr>) s"
    by (rule run_client_step)
       (use assms in \<open>simp_all add: client_next_def Let_def after_execute_def\<close>)
  also have "\<dots> = run_client repo lib cfg run (c\<lparr>c_pc := Finished (Inr \<lparr>Data = v, Replayed = False\<rparr>)\<rparr>) s1"
    by (rule run_client_step)
       (use assms(2) in \<open>simp_all add: client_next_def Let_def fault_free_def faulty_def s1_def\<close>)
  also have "\<dots> = (Inr \<lparr>Data = v, Replayed = False\<rparr>, s1)"
    by (rule run_client_Finished) simp
  finally show ?thesis
    using assms(1,4,5) succeed_ok succeed_get by (auto simp: s1_def on_id_def)
qed

lemma run_execute_error:
  assumes "store_ok s" "fault_free run" "c_pc c = AtExecute i"
    and "GetByScopeAndKeyHash repo sc k s = Some r" "r_ID r = i"
    and "run_outcome run = Inl e"
  shows "\<exists>s1. store_ok s1
    \<and> run_client repo lib cfg run c s = (Inl (ErrExecution e), s1)
    \<and> GetByScopeAndKeyHash repo sc k s1
      = Some (fail_row (run_clock run 1) (failure_reason lib e)
                (run_clock run 2 + FailedRetryBackoff cfg) (c_expiresAt c) r)"
proof -
  define until where "until = run_clock run 2 + FailedRetryBackoff cfg"
  define s1 where "s1 = MarkFailedRetryable repo (run_clock run 1) i (failure_reason lib e) until (c_expiresAt c) s"
  have "run_client repo lib cfg run c s = run_client repo lib cfg run (c\<lparr>c_pc := AtMarkFailed i e until\<rparr>) s"
    by (rule run_client_step)
       (use assms in \<open>simp_all add: client_next_def Let_def after_execute_def until_def\<close>)
  also have "\<dots> = run_client repo lib cfg run (c\<lparr>c_pc := Finished (Inl (ErrExecution e))\<rparr>) s1"
    by (rule run_client_step)
       (use assms(2) in \<open>simp_all add: client_next_def Let_def fault_free_def faulty_def s1_def\<close>)
  also have "\<dots> = (Inl (ErrExecution e), s1)"
    by (rule run_client_Finished) simp
  finally show ?thesis
    using assms(1,4,5) fail_ok fail_get by (auto simp: s1_def until_def on_id_def)
qed

text \<open>A record that has not expired is dispatched on its status without touching the store.\<close>

lemma run_dispatch:
  assumes "store_ok s" "fault_free run" "c_pc c = AtCreate"
    and "GetByScopeAndKeyHash repo (c_scope c) (c_keyHash c) s = Some r"
    and "r_Fingerprint r = c_fingerprint c" "c_now c < r_ExpiresAt r"
    and "dispatch lib (c_now c) r = Finished res"
  shows "\<exists>s1. store_ok s1
    \<and> (\<forall>sc k. GetByScopeAndKeyHash repo sc k s1 = GetByScopeAndKeyHash repo sc k s)
    \<and> run_client repo lib cfg run c s = (res, s1)"
proof -
  obtain s1 where s1: "store_ok s1"
    "\<forall>sc k. GetByScopeAndKeyHash repo sc k s1 = GetByScopeAndKeyHash repo sc k s"
    "run_client repo lib cfg run c s
      = run_client repo lib cfg run (c\<lparr>c_pc := after_get lib c (Some r)\<rparr>) s1"
    using run_taken [OF assms(1-4)] by blast
  have "after_get lib c (Some r) = Finished res"
    using assms(5-7) by (simp add: after_get_def)
  with s1(3) have "run_client repo lib cfg run c s = (res, s1)"
    by (simp add: run_client_Finished)
  with s1 show ?thesis by blast
qed

lemma run_conflict:
  assumes "store_ok s" "fault_free run" "c_pc c = AtCreate"
    and "GetByScopeAndKeyHash repo (c_scope c) (c_keyHash c) s = Some r"
    and "r_Fingerprint r \<noteq> c_fingerprint c"
  shows "\<exists>s1. store_ok s1
    \<and> (\<forall>sc k. GetByScopeAndKeyHash repo sc k s1 = GetByScopeAndKeyHash repo sc k s)
    \<and> run_client repo lib cfg run c s = (Inl ErrKeyConflict, s1)"
proof -
  obtain s1 where s1: "store_ok s1"
    "\<forall>sc k. GetByScopeAndKeyHash repo sc k s1 = GetByScopeAndKeyHash repo sc k s"
    "run_client repo lib cfg run c s
      = run_client repo lib cfg run (c\<lparr>c_pc := after_get lib c (Some r)\<rparr>) s1"
    using run_taken [OF assms(1-4)] by blast
  have "after_get lib c (Some r) = Finished (Inl ErrKeyConflict)"
    using assms(5) by (simp add: after_get_def)
  with s1(3) have "run_client repo lib cfg run c s = (Inl ErrKeyConflict, s1)"
    by (simp add: run_client_Finished)
  with s1 show ?thesis by blast
qed

end

section \<open>Truncation and retry delays\<close>

lemma truncate_loop_props:
  "prefix (truncate_loop s n) s \<and> length (truncate_loop s n) \<le> n \<and> valid_string (truncate_loop s n)
   \<and> (\<forall>m. length (truncate_loop s n) < m \<and> m \<le> n \<and> m \<le> length s \<longrightarrow> \<not> valid_string (take m s))"
proof (induction s n rule: truncate_loop.induct)
  case (1 s n)
  show ?case
  proof (cases "n > 0 \<and> \<not> valid_string (take n s)")
    case True
    then have eq: "truncate_loop s n = truncate_loop s (n - 1)"
      by (subst truncate_loop.simps) simp
    have "\<not> valid_string (take m s)"
      if "length (truncate_loop s n) < m" "m \<le> n" "m \<le> length s" for m
      using 1 [OF True] that True unfolding eq by (cases "m = n") auto
    with 1 [OF True] show ?thesis unfolding eq by auto
  next
    case False
    then have eq: "truncate_loop s n = take n s"
      by (subst truncate_loop.simps) auto
    have "valid_string (take n s)" using False by (auto simp: valid_string_def)
    then show ?thesis unfolding eq by (auto simp: take_is_prefix)
  qed
qed

text \<open>Truncating to a byte limit yields a prefix within the limit that is
  valid UTF-8, and no longer prefix within the limit is.\<close>

theorem truncateUTF8_longest:
  assumes "0 < maxBytes" and "maxBytes < int (length s)"
  shows "prefix (truncateUTF8 s maxBytes) s \<and> int (length (truncateUTF8 s maxBytes)) \<le> maxBytes
    \<and> valid_string (truncateUTF8 s maxBytes)
    \<and> (\<forall>m. length (truncateUTF8 s maxBytes) < m \<and> int m \<le> maxBytes \<longrightarrow> \<not> valid_string (take m s))"
proof -
  have eq: "truncateUTF8 s maxBytes = truncate_loop s (nat maxBytes)"
    using assms by (simp add: truncateUTF8_def)
  show ?thesis
    using truncate_loop_props [of s "nat maxBytes"] assms unfolding eq by auto
qed

lemma trim_seqs_keeps:
  assumes "\<not> p1 x" and "\<And>d. \<not> p2 x d \<and> \<not> p2 d x"
    and "\<And>d e. \<not> p3 x d e \<and> \<not> p3 d x e \<and> \<not> p3 d e x" and "x \<in> set s"
  shows "x \<in> set (trim_seqs p1 p2 p3 s)"
  using assms(4)
proof (induction s rule: length_induct)
  case (1 s)
  show ?case
  proof (cases s)
    case (Cons c cs)
    show ?thesis
    proof (cases "trimmed_start p1 p2 p3 s")
      case True
      with 1 show ?thesis by (simp add: trim_seqs_id)
    next
      case False
      then consider r where "s = c # r" "p1 c" "trim_seqs p1 p2 p3 s = trim_seqs p1 p2 p3 r"
        | d r where "s = c # d # r" "p2 c d" "trim_seqs p1 p2 p3 s = trim_seqs p1 p2 p3 r"
        | d e r where "s = c # d # e # r" "p3 c d e" "trim_seqs p1 p2 p3 s = trim_seqs p1 p2 p3 r"
        unfolding trimmed_start_iff Cons
        by (cases "p1 c"; cases cs; cases "tl cs") (fastforce simp: Cons)+
      then show ?thesis
      proof cases
        case 1
        with assms(1) "1.prems" have "x \<in> set r" by auto
        with 1 "1.IH" show ?thesis by simp
      next
        case 2
        with assms(2) "1.prems" have "x \<in> set r" by auto
        with 2 "1.IH" show ?thesis by simp
      next
        case 3
        with assms(3) "1.prems" have "x \<in> set r" by auto
        with 3 "1.IH" show ?thesis by simp
      qed
    qed
  qed (use 1 in simp)
qed

lemma trim_space_keeps_dot: "CHR ''.'' \<in> set s \<Longrightarrow> CHR ''.'' \<in> set (trim_space s)"
  unfolding trim_space_def trim_right_def trim_left_def set_rev
  by (intro trim_seqs_keeps; simp add: space1_def space2_def space3_def trim_seqs_keeps)

lemma plain_trim:
  assumes "\<forall>c\<in>set s. 33 \<le> (of_char c :: nat) \<and> (of_char c :: nat) < 127"
  shows "trim_space s = s"
proof -
  have p: "\<not> space1 c" "\<not> space2 c d" "\<not> space2 d c" "\<not> space3 c d e" "\<not> space3 d c e" "\<not> space3 d e c"
    if "33 \<le> (of_char c :: nat)" "(of_char c :: nat) < 127" for c d e
    using that by (auto simp: space1_def space2_def space3_def)
  have "trimmed_start space1 space2 space3 s"
    using assms p by (auto simp: trimmed_start_iff)
  moreover have "trimmed_start space1 (\<lambda>d c. space2 c d) (\<lambda>e d c. space3 c d e) (rev s)"
    using assms p by (auto simp: trimmed_start_iff rev_swap)
  ultimately show ?thesis
    by (simp add: trim_space_def trim_left_def trim_right_def trim_seqs_id)
qed

lemma trim_itoa: "trim_space (itoa i) = itoa i"
proof (rule plain_trim, intro ballI)
  fix c assume "c \<in> set (itoa i)"
  then have "c = CHR ''-'' \<or> 48 \<le> (of_char c :: nat) \<and> (of_char c :: nat) \<le> 57"
    by (auto simp: itoa_def dest: nat_digits_digits split: if_splits)
  then show "33 \<le> (of_char c :: nat) \<and> (of_char c :: nat) < 127" by auto
qed

lemma retry_seconds_pos: "1 \<le> retry_seconds l now"
  by (simp add: retry_seconds_def Let_def)

text \<open>Below \<open>2\<^sup>2\<^sup>2\<close> seconds, about 48 days, the binary floating-point seconds truncate to the
  whole seconds of the duration.\<close>

lemma duration_seconds_exact:
  assumes "0 \<le> d" and "d < 2 ^ 22 * second_ns"
  shows "trunc_rat (duration_seconds d) = d div second_ns"
proof -
  define q where "q = d div second_ns"
  define m where "m = d mod second_ns"
  have q: "0 \<le> q" "q < 2 ^ 22" using assms by (simp_all add: q_def second_ns_def div_less_iff_less_mult)
  have m: "0 \<le> m" "m \<le> 999999999" using pos_mod_bound [of second_ns d] by (simp_all add: m_def second_ns_def)
  have quot: "quot_int d second_ns = q" using assms(1) by (simp add: quot_int_def q_def)
  have rest: "d - q * second_ns = m" by (simp add: q_def m_def minus_div_mult_eq_mod)
  have fq: "f64 (of_int q) = of_int q" using q by (intro f64_of_int) simp
  have fm: "f64 (of_int m) = of_int m" using m by (intro f64_of_int) simp
  define y where "y = f64 (of_int m / 10 ^ 9)"
  have tiny: "(2 :: rat) powi (- 1075) \<le> 1 / 2 ^ 60"
  proof -
    have "(2 :: rat) powi (- 1075) \<le> 2 powi (- 60)" by (simp only: powi_le_iff)
    then show ?thesis by (simp add: power_int_minus)
  qed
  have mq: "0 \<le> (of_int m :: rat)" "(of_int m :: rat) \<le> 999999999" using m by simp_all
  have y: "0 \<le> y" "y \<le> of_int m / 10 ^ 9 + 1 / 2 ^ 52"
    using f64_nonneg [of "of_int m / 10 ^ 9"] f64_error [of "of_int m / 10 ^ 9"] tiny mq
    by (simp_all add: y_def abs_le_iff)
  have z: "duration_seconds d = f64 (of_int q + y)"
    by (simp add: duration_seconds_def quot rest fq fm y_def)
  have lo: "of_int q \<le> duration_seconds d"
    using f64_mono [of "of_int q" "of_int q + y"] y fq by (simp add: z)
  have qr: "(of_int q :: rat) \<le> 4194304" using q by simp
  have "\<bar>f64 (of_int q + y) - (of_int q + y)\<bar> \<le> (of_int q + y) / 2 ^ 53 + 1 / 2 ^ 60"
    using f64_error [of "of_int q + y"] tiny y q by simp
  then have u1: "f64 (of_int q + y) \<le> of_int q + y + ((of_int q + y) / 2 ^ 53 + 1 / 2 ^ 60)"
    by (simp only: abs_le_iff) linarith
  have "of_int q + y \<le> 4194306" using y mq qr by simp
  then have u2: "(of_int q + y) / 2 ^ 53 \<le> 4194306 / 2 ^ 53" by (intro divide_right_mono) simp_all
  have u3: "y \<le> 999999999 / 10 ^ 9 + 1 / 2 ^ 52"
  proof -
    have "of_int m / 10 ^ 9 \<le> (999999999 :: rat) / 10 ^ 9" using mq by (intro divide_right_mono) simp_all
    with y show ?thesis by linarith
  qed
  have "f64 (of_int q + y) \<le> of_int q + (999999999 / 10 ^ 9 + 1 / 2 ^ 52) + (4194306 / 2 ^ 53 + 1 / 2 ^ 60)"
    using u1 u2 u3 by linarith
  also have "\<dots> < of_int q + 1" by simp
  finally have "f64 (of_int q + y) < of_int q + 1" .
  then have "duration_seconds d < of_int q + 1" by (simp add: z)
  with lo have "\<lfloor>duration_seconds d\<rfloor> = q" by (simp add: floor_eq_iff)
  moreover have "0 \<le> duration_seconds d" using lo q by (meson of_int_0_le_iff order_trans)
  ultimately show ?thesis by (simp add: trunc_rat_def q_def)
qed

lemma duration_seconds_nonpos: "d < 0 \<Longrightarrow> trunc_rat (duration_seconds d) \<le> 0"
proof -
  assume d: "d < 0"
  define q where "q = quot_int d second_ns"
  have q: "q \<le> 0" using d by (simp add: q_def quot_int_def second_ns_def)
  have "d - q * second_ns = - ((- d) mod second_ns)"
    using d by (simp add: q_def quot_int_def minus_mult_div_eq_mod [symmetric] mult.commute)
  moreover have "0 \<le> (- d) mod second_ns" by (simp add: second_ns_def)
  ultimately have r: "d - q * second_ns \<le> 0" by simp
  have neg: "x \<le> 0 \<Longrightarrow> f64 x \<le> 0" for x using f64_mono [of x 0] by simp
  have "f64 (f64 (of_int (d - q * second_ns)) / 10 ^ 9) \<le> 0"
    by (intro neg divide_nonpos_pos) (use r in \<open>simp_all del: of_int_diff\<close>)
  moreover have "f64 (of_int q) \<le> 0" using q by (intro neg) simp
  ultimately have "duration_seconds d \<le> 0"
    unfolding duration_seconds_def q_def [symmetric] by (intro neg) simp
  then show ?thesis by (auto simp: trunc_rat_def ceiling_le_iff floor_le_iff)
qed

text \<open>The delay a conflict carries reads back, as the HTTP layer reads
  it, as the whole seconds until the lock ends, at least one.\<close>

theorem retry_after_roundtrip:
  assumes "l - now < 2 ^ 22 * second_ns"
  shows "RetryAfterSecondsFromError (conflictWithRetryAfter ErrInProgress (Some l) now)
    = max 1 ((l - now) div second_ns)
    \<and> RetryAfterSecondsFromError (conflictWithRetryAfter ErrRetryBackoff (Some l) now)
    = max 1 ((l - now) div second_ns)"
proof -
  have small: "time_sub l now < 2 ^ 22 * second_ns"
    using assms by (simp add: time_sub_def second_ns_def)
  have sec: "retry_seconds l now = max 1 ((l - now) div second_ns)"
  proof (cases "now \<le> l")
    case True
    then have "time_sub l now = l - now" using assms by (simp add: time_sub_def second_ns_def)
    with True assms show ?thesis
      by (simp add: retry_seconds_def Let_def duration_seconds_exact max_def)
  next
    case False
    then have "time_sub l now < 0" by (simp add: time_sub_def)
    then have "trunc_rat (duration_seconds (time_sub l now)) \<le> 0" by (rule duration_seconds_nonpos)
    then have "retry_seconds l now = 1" by (simp add: retry_seconds_def Let_def)
    moreover have "(l - now) div second_ns \<le> 0" using False by (simp add: second_ns_def)
    ultimately show ?thesis by simp
  qed
  have "(l - now) div second_ns < 2 ^ 22"
    using assms by (simp add: div_less_iff_less_mult second_ns_def)
  then have "atoi (itoa (retry_seconds l now)) = Some (retry_seconds l now)"
    by (intro atoi_itoa) (simp_all add: sec)
  then show ?thesis
    using retry_seconds_pos [of l now]
    by (simp add: RetryAfterSecondsFromError_def conflictWithRetryAfter_def Let_def trim_itoa
        itoa_nonempty) (simp add: sec)
qed
section \<open>Properties of Execute\<close>

lemma begin_pc:
  "begin_execute lib cfg he hr now opts outcome = Inr c \<Longrightarrow>
     c_pc c = AtCreate \<and> c_now c = now \<and> c_lockedUntil c = now + ProcessingTimeout cfg
     \<and> c_expiresAt c = now + (if TTL opts \<le> 0 then DefaultTTL cfg else TTL opts)"
  by (auto simp: begin_execute_def Let_def split: if_splits sum.splits)

text \<open>Two calls carry the same key when scope and key hash agree.\<close>

definition same_idem_key :: "('v, 'e) idem_client \<Rightarrow> ('v, 'e) idem_client \<Rightarrow> bool" where
  "same_idem_key c c' \<longleftrightarrow> c_scope c = c_scope c' \<and> c_keyHash c = c_keyHash c'"

text \<open>The record a successful and a failed first execution leave.\<close>

lemma first_success:
  assumes "table_ok t" and "begin_execute lib cfg True True now opts (run_outcome run) = Inr c"
    and "sql_get (c_scope c) (c_keyHash c) t = None" and "fault_free run"
    and "run_outcome run = Inr v" and "marshalStoredResponse lib cfg v = Some body"
  shows "\<exists>t1 r. Execute sql_repo lib cfg True True now opts run t = (Inr \<lparr>Data = v, Replayed = False\<rparr>, t1)
    \<and> table_ok t1 \<and> sql_get (c_scope c) (c_keyHash c) t1 = Some r
    \<and> r_Status r = IdempotencyStatusSucceeded \<and> r_ResponseBody r = Some body
    \<and> r_Fingerprint r = c_fingerprint c \<and> r_ExpiresAt r = c_expiresAt c"
proof -
  have g: "GetByScopeAndKeyHash sql_repo = sql_get" by (simp add: sql_repo_def)
  have pc: "c_pc c = AtCreate" using begin_pc [OF assms(2)] by simp
  obtain i s1 r where 1: "table_ok s1" "r_ID r = i" "r_Fingerprint r = c_fingerprint c"
    "\<forall>sc k. sql_get sc k s1 =
       (if sc = c_scope c \<and> k = c_keyHash c then Some r else sql_get sc k t)"
    "run_client sql_repo lib cfg run c t = run_client sql_repo lib cfg run (c\<lparr>c_pc := AtExecute i\<rparr>) s1"
    using sql.run_free [OF assms(1,4) pc, unfolded g, OF assms(3)] by blast
  have r: "sql_get (c_scope c) (c_keyHash c) s1 = Some r" using 1(4) by simp
  obtain t1 where 2: "table_ok t1"
    "run_client sql_repo lib cfg run (c\<lparr>c_pc := AtExecute i\<rparr>) s1 = (Inr \<lparr>Data = v, Replayed = False\<rparr>, t1)"
    "sql_get (c_scope c) (c_keyHash c) t1 = Some (succeed_row (run_clock run 1) 200 body (c_expiresAt c) r)"
    using sql.run_execute_ok [OF 1(1) assms(4), of "c\<lparr>c_pc := AtExecute i\<rparr>" i, unfolded g, OF _ r 1(2) assms(5,6)]
    by auto
  show ?thesis
    using 1 2 assms(2) by (simp add: Execute_def succeed_row_def)
qed

lemma first_failure:
  assumes "table_ok t" and "begin_execute lib cfg True True now opts (run_outcome run) = Inr c"
    and "sql_get (c_scope c) (c_keyHash c) t = None" and "fault_free run"
    and "run_outcome run = Inl e"
  shows "\<exists>t1 r. Execute sql_repo lib cfg True True now opts run t = (Inl (ErrExecution e), t1)
    \<and> table_ok t1 \<and> sql_get (c_scope c) (c_keyHash c) t1 = Some r
    \<and> r_Status r = IdempotencyStatusFailedRetryable
    \<and> r_LockedUntil r = Some (run_clock run 2 + FailedRetryBackoff cfg)
    \<and> r_Fingerprint r = c_fingerprint c \<and> r_ExpiresAt r = c_expiresAt c"
proof -
  have g: "GetByScopeAndKeyHash sql_repo = sql_get" by (simp add: sql_repo_def)
  have pc: "c_pc c = AtCreate" using begin_pc [OF assms(2)] by simp
  obtain i s1 r where 1: "table_ok s1" "r_ID r = i" "r_Fingerprint r = c_fingerprint c"
    "\<forall>sc k. sql_get sc k s1 =
       (if sc = c_scope c \<and> k = c_keyHash c then Some r else sql_get sc k t)"
    "run_client sql_repo lib cfg run c t = run_client sql_repo lib cfg run (c\<lparr>c_pc := AtExecute i\<rparr>) s1"
    using sql.run_free [OF assms(1,4) pc, unfolded g, OF assms(3)] by blast
  have r: "sql_get (c_scope c) (c_keyHash c) s1 = Some r" using 1(4) by simp
  obtain t1 where 2: "table_ok t1"
    "run_client sql_repo lib cfg run (c\<lparr>c_pc := AtExecute i\<rparr>) s1 = (Inl (ErrExecution e), t1)"
    "sql_get (c_scope c) (c_keyHash c) t1 = Some (fail_row (run_clock run 1) (failure_reason lib e)
       (run_clock run 2 + FailedRetryBackoff cfg) (c_expiresAt c) r)"
    using sql.run_execute_error [OF 1(1) assms(4), of "c\<lparr>c_pc := AtExecute i\<rparr>" i, unfolded g, OF _ r 1(2) assms(5)]
    by auto
  show ?thesis
    using 1 2 assms(2) by (simp add: Execute_def fail_row_def)
qed

text \<open>A later call against a record that has not expired.\<close>

lemma later_call:
  assumes "table_ok t" and "begin_execute lib cfg True True now opts (run_outcome run) = Inr c"
    and "sql_get (c_scope c) (c_keyHash c) t = Some r" and "fault_free run"
    and "r_Fingerprint r = c_fingerprint c" and "now < r_ExpiresAt r"
    and "dispatch lib now r = Finished res"
  shows "\<exists>t1. Execute sql_repo lib cfg True True now opts run t = (res, t1) \<and> table_ok t1
    \<and> (\<forall>sc k. sql_get sc k t1 = sql_get sc k t)"
proof -
  have g: "GetByScopeAndKeyHash sql_repo = sql_get" by (simp add: sql_repo_def)
  have pc: "c_pc c = AtCreate" "c_now c = now" using begin_pc [OF assms(2)] by simp_all
  have d: "c_now c < r_ExpiresAt r" "dispatch lib (c_now c) r = Finished res"
    using assms(6,7) by (simp_all add: pc)
  obtain t1 where "table_ok t1" "\<forall>sc k. sql_get sc k t1 = sql_get sc k t"
    "run_client sql_repo lib cfg run c t = (res, t1)"
    using sql.run_dispatch [where cfg = cfg, OF assms(1,4) pc(1), unfolded g, OF assms(3,5) d] by auto
  with assms(2) show ?thesis by (auto simp: Execute_def)
qed

text \<open>C27 (idempotent_replay): After a first call has executed and its response has been stored,
  every later call with the same key and fingerprint before the expiry returns the decoded stored
  response as a replay, whatever its executor would return, and so does not run it.\<close>

theorem idempotent_replay:
  assumes "table_ok t" and "begin_execute lib cfg True True now1 opts1 (run_outcome run1) = Inr c1"
    and "sql_get (c_scope c1) (c_keyHash c1) t = None" and "fault_free run1"
    and "run_outcome run1 = Inr v" and "marshalStoredResponse lib cfg v = Some body"
    and "decodeStoredResponse lib (Some body) = Some w"
    and "begin_execute lib cfg True True now2 opts2 (run_outcome run2) = Inr c2" and "fault_free run2"
    and "same_idem_key c1 c2" and "c_fingerprint c2 = c_fingerprint c1" and "now2 < c_expiresAt c1"
  shows "\<exists>t1. Execute sql_repo lib cfg True True now1 opts1 run1 t = (Inr \<lparr>Data = v, Replayed = False\<rparr>, t1)
    \<and> fst (Execute sql_repo lib cfg True True now2 opts2 run2 t1) = Inr \<lparr>Data = w, Replayed = True\<rparr>"
proof -
  obtain t1 r where 1: "Execute sql_repo lib cfg True True now1 opts1 run1 t
      = (Inr \<lparr>Data = v, Replayed = False\<rparr>, t1)"
    "table_ok t1" "sql_get (c_scope c1) (c_keyHash c1) t1 = Some r"
    "r_Status r = IdempotencyStatusSucceeded" "r_ResponseBody r = Some body"
    "r_Fingerprint r = c_fingerprint c1" "r_ExpiresAt r = c_expiresAt c1"
    using first_success [OF assms(1-6)] by blast
  have key: "sql_get (c_scope c2) (c_keyHash c2) t1 = Some r"
    using 1(3) assms(10) by (simp add: same_idem_key_def)
  have d: "dispatch lib now2 r = Finished (Inr \<lparr>Data = w, Replayed = True\<rparr>)"
    using 1(4,5) assms(7) by (simp add: dispatch_def)
  have fp: "r_Fingerprint r = c_fingerprint c2" and ex: "now2 < r_ExpiresAt r"
    using 1(6,7) assms(11,12) by simp_all
  show ?thesis
    using later_call [OF 1(2) assms(8) key assms(9) fp ex d] 1(1) by (metis fst_conv)
qed

text \<open>After a failed first execution the same request is refused with the
  backoff error until the backoff ends, without running the executor.\<close>

theorem retry_backoff_window:
  assumes "table_ok t" and "begin_execute lib cfg True True now1 opts1 (run_outcome run1) = Inr c1"
    and "sql_get (c_scope c1) (c_keyHash c1) t = None" and "fault_free run1"
    and "run_outcome run1 = Inl e"
    and "begin_execute lib cfg True True now2 opts2 (run_outcome run2) = Inr c2" and "fault_free run2"
    and "same_idem_key c1 c2" and "c_fingerprint c2 = c_fingerprint c1" and "now2 < c_expiresAt c1"
    and "now2 < run_clock run1 2 + FailedRetryBackoff cfg"
  shows "\<exists>t1. Execute sql_repo lib cfg True True now1 opts1 run1 t = (Inl (ErrExecution e), t1)
    \<and> fst (Execute sql_repo lib cfg True True now2 opts2 run2 t1)
      = Inl (ErrRetryBackoff (Some (itoa (retry_seconds
               (run_clock run1 2 + FailedRetryBackoff cfg) now2))))"
proof -
  obtain t1 r where 1: "Execute sql_repo lib cfg True True now1 opts1 run1 t = (Inl (ErrExecution e), t1)"
    "table_ok t1" "sql_get (c_scope c1) (c_keyHash c1) t1 = Some r"
    "r_Status r = IdempotencyStatusFailedRetryable"
    "r_LockedUntil r = Some (run_clock run1 2 + FailedRetryBackoff cfg)"
    "r_Fingerprint r = c_fingerprint c1" "r_ExpiresAt r = c_expiresAt c1"
    using first_failure [OF assms(1-5)] by blast
  have key: "sql_get (c_scope c2) (c_keyHash c2) t1 = Some r"
    using 1(3) assms(8) by (simp add: same_idem_key_def)
  have d: "dispatch lib now2 r = Finished (Inl (ErrRetryBackoff (Some (itoa (retry_seconds
               (run_clock run1 2 + FailedRetryBackoff cfg) now2)))))"
    using 1(4,5) assms(11) by (simp add: dispatch_def conflictWithRetryAfter_def)
  have fp: "r_Fingerprint r = c_fingerprint c2" and ex: "now2 < r_ExpiresAt r"
    using 1(6,7) assms(9,10) by simp_all
  show ?thesis
    using later_call [OF 1(2) assms(6) key assms(7) fp ex d] 1(1) by (metis fst_conv)
qed

text \<open>C33 (payload_mismatch_conflicts): A call whose key is on record with another fingerprint gets
  the conflict error, runs nothing and changes no record, expired or not.\<close>

theorem payload_mismatch_conflicts:
  assumes "table_ok t" and "begin_execute lib cfg True True now opts (run_outcome run) = Inr c"
    and "sql_get (c_scope c) (c_keyHash c) t = Some r" and "fault_free run"
    and "r_Fingerprint r \<noteq> c_fingerprint c"
  shows "\<exists>t1. Execute sql_repo lib cfg True True now opts run t = (Inl ErrKeyConflict, t1)
    \<and> (\<forall>sc k. sql_get sc k t1 = sql_get sc k t)"
proof -
  have g: "GetByScopeAndKeyHash sql_repo = sql_get" by (simp add: sql_repo_def)
  have pc: "c_pc c = AtCreate" using begin_pc [OF assms(2)] by simp
  show ?thesis
    using sql.run_conflict [where cfg = cfg and lib = lib, OF assms(1,4) pc, unfolded g, OF assms(3,5)] assms(2)
    by (auto simp: Execute_def)
qed

text \<open>While a record is processing and has not expired, a call
  with its key and fingerprint is refused as in progress even when the processing lock has run out:
  a request whose server died is not taken over before the record expires.\<close>

theorem processing_blocks_until_expiry:
  assumes "table_ok t" and "begin_execute lib cfg True True now opts (run_outcome run) = Inr c"
    and "sql_get (c_scope c) (c_keyHash c) t = Some r" and "fault_free run"
    and "r_Fingerprint r = c_fingerprint c" and "now < r_ExpiresAt r"
    and "r_Status r = IdempotencyStatusProcessing" and "r_LockedUntil r = Some l"
  shows "fst (Execute sql_repo lib cfg True True now opts run t)
      = Inl (ErrInProgress (Some (itoa (retry_seconds l now))))"
proof -
  have d: "dispatch lib now r = Finished (Inl (ErrInProgress (Some (itoa (retry_seconds l now)))))"
    using assms(7,8) by (simp add: dispatch_def conflictWithRetryAfter_def)
  show ?thesis using later_call [OF assms(1-6) d] by auto
qed

text \<open>A response longer than the storage limit is stored cut
  off with a marker; as no JSON text ends in the marker, a later call that should replay it gets
  the store-unavailable error.\<close>

theorem truncated_response_unreplayable:
  assumes "table_ok t" and "begin_execute lib cfg True True now1 opts1 (run_outcome run1) = Inr c1"
    and "sql_get (c_scope c1) (c_keyHash c1) t = None" and "fault_free run1"
    and "run_outcome run1 = Inr v" and "lib_marshal lib v = Some raw"
    and "0 < MaxStoredResponseLen cfg"
    and "MaxStoredResponseLen cfg < int (length (lib_redact lib raw))"
    and json: "\<forall>s. lib_unmarshal lib (s @ ''...(truncated)'') = None"
    and "begin_execute lib cfg True True now2 opts2 (run_outcome run2) = Inr c2" and "fault_free run2"
    and "same_idem_key c1 c2" and "c_fingerprint c2 = c_fingerprint c1" and "now2 < c_expiresAt c1"
  shows "\<exists>t1. Execute sql_repo lib cfg True True now1 opts1 run1 t = (Inr \<lparr>Data = v, Replayed = False\<rparr>, t1)
    \<and> fst (Execute sql_repo lib cfg True True now2 opts2 run2 t1) = Inl ErrStoreUnavail"
proof -
  define body where "body = truncateUTF8 (lib_redact lib raw) (MaxStoredResponseLen cfg) @ ''...(truncated)''"
  have body: "marshalStoredResponse lib cfg v = Some body"
    using assms(6-8) by (simp add: marshalStoredResponse_def body_def Let_def)
  obtain t1 r where 1: "Execute sql_repo lib cfg True True now1 opts1 run1 t
      = (Inr \<lparr>Data = v, Replayed = False\<rparr>, t1)"
    "table_ok t1" "sql_get (c_scope c1) (c_keyHash c1) t1 = Some r"
    "r_Status r = IdempotencyStatusSucceeded" "r_ResponseBody r = Some body"
    "r_Fingerprint r = c_fingerprint c1" "r_ExpiresAt r = c_expiresAt c1"
    using first_success [OF assms(1-5) body] by blast
  have key: "sql_get (c_scope c2) (c_keyHash c2) t1 = Some r"
    using 1(3) assms(12) by (simp add: same_idem_key_def)
  have "trim_space body \<noteq> []"
    using trim_space_keeps_dot [of body] by (auto simp: body_def)
  then have d: "dispatch lib now2 r = Finished (Inl ErrStoreUnavail)"
    using 1(4,5) json by (simp add: dispatch_def decodeStoredResponse_def body_def)
  have fp: "r_Fingerprint r = c_fingerprint c2" and ex: "now2 < r_ExpiresAt r"
    using 1(6,7) assms(13,14) by simp_all
  show ?thesis
    using later_call [OF 1(2) assms(10) key assms(11) fp ex d] 1(1) by (metis fst_conv)
qed
section \<open>Instances\<close>

definition sample_lib :: "(string, string) idem_lib" where
  "sample_lib =
     \<lparr>lib_marshal = Some,
      lib_unmarshal = (\<lambda>s. if drop (length s - 14) s = ''...(truncated)'' then None else Some s),
      lib_empty_object = ''{}'', lib_redact = (\<lambda>s. s), lib_sha256 = (\<lambda>s. s), lib_upper = (\<lambda>s. s),
      lib_reason = (\<lambda>e. e)\<rparr>"

definition small_config :: idem_config where
  "small_config = DefaultIdempotencyConfig\<lparr>MaxStoredResponseLen := 4\<rparr>"

definition sample_opts :: "string \<Rightarrow> string IdempotencyExecuteOptions" where
  "sample_opts payload =
     \<lparr>Scope = ''s'', ActorScope = ''u1'', Method = ''POST'', Route = ''/r'', IdempotencyKey = ''k1'',
      Payload = payload, TTL = 0, RequireKey = True\<rparr>"

definition sample_run :: "(string, string) outcome \<Rightarrow> (string, string) idem_run" where
  "sample_run outcome = \<lparr>run_clock = (\<lambda>_. 0), run_fault = (\<lambda>_. Works), run_outcome = outcome\<rparr>"

definition sample_client :: "string \<Rightarrow> go_time \<Rightarrow> (string, string) idem_client" where
  "sample_client payload now =
     \<lparr>c_scope = ''s'', c_keyHash = ''k1'',
      c_fingerprint = ''POST'' @ [CHR 0x0A] @ ''/r'' @ [CHR 0x0A] @ ''u1'' @ [CHR 0x0A] @ payload,
      c_now = now, c_lockedUntil = now + 30 * second_ns, c_expiresAt = now + 24 * hour_ns,
      c_pc = AtCreate\<rparr>"

definition empty_table :: idem_table where
  "empty_table = \<lparr>t_rows = [], t_next_id = 1\<rparr>"

lemma empty_table_ok: "table_ok empty_table" "sql_get sc k empty_table = None"
  by (simp_all add: empty_table_def table_ok_def sql_get_def)

lemma sample_key: "NormalizeIdempotencyKey ''k1'' = (Inr ''k1'' :: string idem_error + string)"
  by code_simp

lemma sample_begin:
  "ProcessingTimeout cfg = 30 * second_ns \<Longrightarrow> DefaultTTL cfg = 24 * hour_ns \<Longrightarrow>
     begin_execute sample_lib cfg True True now (sample_opts payload) outcome
     = Inr (sample_client payload now)"
  by (simp add: begin_execute_def sample_opts_def sample_key BuildIdempotencyFingerprint_def
      sample_lib_def HashIdempotencyKey_def sample_client_def Let_def)

lemma sample_cfg:
  "ProcessingTimeout small_config = 30 * second_ns" "DefaultTTL small_config = 24 * hour_ns"
  "ProcessingTimeout DefaultIdempotencyConfig = 30 * second_ns"
  "DefaultTTL DefaultIdempotencyConfig = 24 * hour_ns"
  by (simp_all add: small_config_def DefaultIdempotencyConfig_def)

lemma sample_fault_free: "fault_free (sample_run outcome)"
  by (simp add: fault_free_def sample_run_def)

lemma sample_same_key: "same_idem_key (sample_client p n) (sample_client p' n')"
  by (simp add: same_idem_key_def sample_client_def)

theorem truncateUTF8_longest_witness:
  "prefix (truncateUTF8 [CHR ''a'', CHR 0xC3, CHR 0xA9] 2) [CHR ''a'', CHR 0xC3, CHR 0xA9]
   \<and> valid_string (truncateUTF8 [CHR ''a'', CHR 0xC3, CHR 0xA9] 2)"
  using truncateUTF8_longest [of 2 "[CHR ''a'', CHR 0xC3, CHR 0xA9]"] by simp

theorem retry_after_roundtrip_witness:
  "RetryAfterSecondsFromError
     (conflictWithRetryAfter ErrInProgress (Some (90 * second_ns)) 0 :: string idem_error) = 90"
proof -
  have "90 * second_ns - 0 < 2 ^ 22 * second_ns" by (simp add: second_ns_def)
  then show ?thesis using retry_after_roundtrip [of "90 * second_ns" 0, where ?'a = string and ?'b = string] by (simp add: second_ns_def)
qed

theorem idempotent_replay_witness:
  "\<exists>t1. Execute sql_repo sample_lib DefaultIdempotencyConfig True True 0 (sample_opts ''p'')
          (sample_run (Inr ''ok'')) empty_table = (Inr \<lparr>Data = ''ok'', Replayed = False\<rparr>, t1)
     \<and> fst (Execute sql_repo sample_lib DefaultIdempotencyConfig True True 5 (sample_opts ''p'')
          (sample_run (Inl ''boom'')) t1) = Inr \<lparr>Data = ''ok'', Replayed = True\<rparr>"
proof (rule idempotent_replay [OF empty_table_ok(1) sample_begin [OF sample_cfg(3,4)] empty_table_ok(2)
      sample_fault_free _ _ _ sample_begin [OF sample_cfg(3,4)] sample_fault_free sample_same_key])
  show "run_outcome (sample_run (Inr ''ok'')) = Inr ''ok''" by (simp add: sample_run_def)
  show "marshalStoredResponse sample_lib DefaultIdempotencyConfig ''ok'' = Some ''ok''"
    "decodeStoredResponse sample_lib (Some ''ok'') = Some ''ok''" by code_simp+
  show "c_fingerprint (sample_client ''p'' 5) = c_fingerprint (sample_client ''p'' 0)"
    "5 < c_expiresAt (sample_client ''p'' 0)" by (simp_all add: sample_client_def hour_ns_def)
qed

theorem retry_backoff_window_witness:
  "\<exists>t1. Execute sql_repo sample_lib DefaultIdempotencyConfig True True 0 (sample_opts ''p'')
          (sample_run (Inl ''boom'')) empty_table = (Inl (ErrExecution ''boom''), t1)
     \<and> fst (Execute sql_repo sample_lib DefaultIdempotencyConfig True True second_ns (sample_opts ''p'')
          (sample_run (Inr ''ok'')) t1)
       = Inl (ErrRetryBackoff (Some (itoa (retry_seconds
            (run_clock (sample_run (Inl ''boom'')) 2 + FailedRetryBackoff DefaultIdempotencyConfig) second_ns))))"
proof (rule retry_backoff_window [OF empty_table_ok(1) sample_begin [OF sample_cfg(3,4)] empty_table_ok(2)
      sample_fault_free _ sample_begin [OF sample_cfg(3,4)] sample_fault_free sample_same_key])
  show "run_outcome (sample_run (Inl ''boom'')) = Inl ''boom''" by (simp add: sample_run_def)
  show "c_fingerprint (sample_client ''p'' second_ns) = c_fingerprint (sample_client ''p'' 0)"
    "second_ns < c_expiresAt (sample_client ''p'' 0)"
    by (simp_all add: sample_client_def hour_ns_def second_ns_def)
  show "second_ns < run_clock (sample_run (Inl ''boom'')) 2 + FailedRetryBackoff DefaultIdempotencyConfig"
    by (simp add: sample_run_def DefaultIdempotencyConfig_def second_ns_def)
qed

text \<open>A row of another request under the sample key.\<close>

definition sample_row :: IdempotencyRecord where
  "sample_row = (claim_record (sample_client ''q'' 0))\<lparr>r_ID := 1\<rparr>"

definition one_row :: idem_table where
  "one_row = \<lparr>t_rows = [sample_row], t_next_id = 2\<rparr>"

lemma one_row_ok: "table_ok one_row" "sql_get ''s'' ''k1'' one_row = Some sample_row"
  by (simp_all add: one_row_def table_ok_def sql_get_def same_key_def sample_row_def claim_record_def
      sample_client_def)

lemma one_row_get: "sql_get (c_scope (sample_client p n)) (c_keyHash (sample_client p n)) one_row = Some sample_row"
  using one_row_ok(2) by (simp add: sample_client_def)

theorem payload_mismatch_conflicts_witness:
  "\<exists>t1. Execute sql_repo sample_lib DefaultIdempotencyConfig True True 0 (sample_opts ''p'')
     (sample_run (Inr ''ok'')) one_row = (Inl ErrKeyConflict, t1) \<and> sql_get ''s'' ''k1'' t1 = Some sample_row"
proof -
  have "r_Fingerprint sample_row \<noteq> c_fingerprint (sample_client ''p'' 0)"
    by (simp add: sample_row_def claim_record_def sample_client_def)
  from payload_mismatch_conflicts [where run = "sample_run (Inr ''ok'')", OF one_row_ok(1) sample_begin [OF sample_cfg(3,4)] one_row_get
      sample_fault_free this] one_row_ok(2)
  show ?thesis by auto
qed

theorem processing_blocks_until_expiry_witness:
  "fst (Execute sql_repo sample_lib DefaultIdempotencyConfig True True hour_ns (sample_opts ''q'')
     (sample_run (Inr ''ok'')) one_row)
   = Inl (ErrInProgress (Some (itoa (retry_seconds (30 * second_ns) hour_ns))))"
proof (rule processing_blocks_until_expiry [OF one_row_ok(1) sample_begin [OF sample_cfg(3,4)] one_row_get
      sample_fault_free])
  show "r_Fingerprint sample_row = c_fingerprint (sample_client ''q'' hour_ns)"
    "hour_ns < r_ExpiresAt sample_row" "r_Status sample_row = IdempotencyStatusProcessing"
    "r_LockedUntil sample_row = Some (30 * second_ns)"
    by (simp_all add: sample_row_def claim_record_def sample_client_def hour_ns_def)
qed

theorem truncated_response_unreplayable_witness:
  "\<exists>t1. Execute sql_repo sample_lib small_config True True 0 (sample_opts ''p'')
          (sample_run (Inr ''long response'')) empty_table
        = (Inr \<lparr>Data = ''long response'', Replayed = False\<rparr>, t1)
     \<and> fst (Execute sql_repo sample_lib small_config True True 5 (sample_opts ''p'')
          (sample_run (Inr ''long response'')) t1) = Inl ErrStoreUnavail"
proof (rule truncated_response_unreplayable [OF empty_table_ok(1) sample_begin [OF sample_cfg(1,2)]
      empty_table_ok(2) sample_fault_free _ _ _ _ _ sample_begin [OF sample_cfg(1,2)] sample_fault_free
      sample_same_key])
  show "run_outcome (sample_run (Inr ''long response'')) = Inr ''long response''" by (simp add: sample_run_def)
  show "lib_marshal sample_lib ''long response'' = Some ''long response''" by (simp add: sample_lib_def)
  show "0 < MaxStoredResponseLen small_config"
    "MaxStoredResponseLen small_config < int (length (lib_redact sample_lib ''long response''))"
    by (simp_all add: small_config_def sample_lib_def)
  show "\<forall>s. lib_unmarshal sample_lib (s @ ''...(truncated)'') = None" by (simp add: sample_lib_def)
  show "c_fingerprint (sample_client ''p'' 5) = c_fingerprint (sample_client ''p'' 0)"
    "5 < c_expiresAt (sample_client ''p'' 0)" by (simp_all add: sample_client_def hour_ns_def)
qed

end
