(* ===== verification/IdempotencyRaces.thy ===== *)
theory IdempotencyRaces
  imports Idempotency
begin

text \<open>
  Concurrent calls of \<open>Execute\<close> (\<open>backend/internal/service/idempotency.go\<close>) on one table:
  a step relation in which clients arrive, make one repository call at a time, fail or crash, the
  clock advances and the cleanup sweeps.  A reachable state never has two clients inside the
  processing lock of one key, provided owners report before their lock ends; without the proviso
  it can, because the mark statements select by id alone.
\<close>

section \<open>The system\<close>

record ('v, 'e) idem_sys =
  y_clock :: go_time
  y_table :: idem_table
  y_clients :: "nat \<Rightarrow> ('v, 'e) idem_client option"

fun owned_id :: "('v, 'e) idem_pc \<Rightarrow> int option" where
  "owned_id (AtExecute i) = Some i"
| "owned_id (AtMarkFailed i e t) = Some i"
| "owned_id (AtMarkSucceeded i v b) = Some i"
| "owned_id AtCreate = None"
| "owned_id AtGetExisting = None"
| "owned_id (AtReclaimExpired r) = None"
| "owned_id AtGetLatest = None"
| "owned_id (AtReclaimFailed r) = None"
| "owned_id (Finished r) = None"

fun read_record :: "('v, 'e) idem_pc \<Rightarrow> IdempotencyRecord option" where
  "read_record (AtReclaimExpired r) = Some r"
| "read_record (AtReclaimFailed r) = Some r"
| "read_record pc = None"

text \<open>\<open>timely\<close> restricts the owners' reports to the time of their lock.\<close>

fun reports :: "('v, 'e) idem_pc \<Rightarrow> bool" where
  "reports (AtMarkFailed i e t) = True"
| "reports (AtMarkSucceeded i v b) = True"
| "reports pc = False"

inductive idem_step ::
  "bool \<Rightarrow> ('v, 'e) idem_lib \<Rightarrow> idem_config \<Rightarrow> ('v, 'e) idem_sys \<Rightarrow> ('v, 'e) idem_sys \<Rightarrow> bool"
  for timely :: bool and lib :: "('v, 'e) idem_lib" and cfg :: idem_config where
  Tick: "y_clock s \<le> t \<Longrightarrow> idem_step timely lib cfg s (s\<lparr>y_clock := t\<rparr>)"
| Arrive: "y_clients s i = None \<Longrightarrow> c_pc c = AtCreate \<Longrightarrow> c_now c = y_clock s \<Longrightarrow>
    c_lockedUntil c \<le> c_expiresAt c \<Longrightarrow>
    idem_step timely lib cfg s (s\<lparr>y_clients := (y_clients s)(i \<mapsto> c)\<rparr>)"
| Act: "y_clients s i = Some c \<Longrightarrow>
    timely \<longrightarrow> reports (c_pc c) \<longrightarrow> y_clock s < c_lockedUntil c \<Longrightarrow>
    client_next sql_repo lib cfg (y_clock s) f outcome c (y_table s) = (c', t') \<Longrightarrow>
    idem_step timely lib cfg s (s\<lparr>y_table := t', y_clients := (y_clients s)(i \<mapsto> c')\<rparr>)"
| Crash: "idem_step timely lib cfg s (s\<lparr>y_clients := (y_clients s)(i := None)\<rparr>)"
| Sweep: "idem_step timely lib cfg s
    (s\<lparr>y_table := snd (sql_delete_expired (y_clock s) batch (y_table s))\<rparr>)"

inductive_cases idem_stepE: "idem_step timely lib cfg s s'"

definition idem_start :: "('v, 'e) idem_sys \<Rightarrow> bool" where
  "idem_start s \<longleftrightarrow> table_ok (y_table s) \<and> (\<forall>i. y_clients s i = None)"

section \<open>The invariant\<close>

definition id_has_key :: "idem_table \<Rightarrow> int \<Rightarrow> string \<Rightarrow> string \<Rightarrow> bool" where
  "id_has_key t i sc k \<longleftrightarrow>
     i < t_next_id t \<and> (\<forall>r\<in>set (t_rows t). r_ID r = i \<longrightarrow> r_Scope r = sc \<and> r_KeyHash r = k)"

text \<open>Client \<open>i\<close> is between its claim and its report, and its lock has not ended.\<close>

definition holder :: "('v, 'e) idem_sys \<Rightarrow> nat \<Rightarrow> ('v, 'e) idem_client \<Rightarrow> int \<Rightarrow> bool" where
  "holder s i c n \<longleftrightarrow>
     y_clients s i = Some c \<and> owned_id (c_pc c) = Some n \<and> y_clock s < c_lockedUntil c"

text \<open>The row that stands for a claim.\<close>

definition claim_row :: "('v, 'e) idem_client \<Rightarrow> int \<Rightarrow> IdempotencyRecord \<Rightarrow> bool" where
  "claim_row c n r \<longleftrightarrow>
     r_ID r = n \<and> r_Scope r = c_scope c \<and> r_KeyHash r = c_keyHash c
     \<and> r_Status r = IdempotencyStatusProcessing
     \<and> r_LockedUntil r = Some (c_lockedUntil c) \<and> r_ExpiresAt r = c_expiresAt c"

definition client_ok :: "go_time \<Rightarrow> idem_table \<Rightarrow> ('v, 'e) idem_client \<Rightarrow> bool" where
  "client_ok clk t c \<longleftrightarrow>
     c_now c \<le> clk \<and> c_lockedUntil c \<le> c_expiresAt c
     \<and> (\<forall>r. read_record (c_pc c) = Some r \<longrightarrow> id_has_key t (r_ID r) (c_scope c) (c_keyHash c))"

definition idem_inv :: "('v, 'e) idem_sys \<Rightarrow> bool" where
  "idem_inv s \<longleftrightarrow>
     table_ok (y_table s)
     \<and> (\<forall>i c. y_clients s i = Some c \<longrightarrow> client_ok (y_clock s) (y_table s) c)
     \<and> (\<forall>i c n. holder s i c n \<longrightarrow> (\<exists>r\<in>set (t_rows (y_table s)). claim_row c n r))
     \<and> (\<forall>i c n j d m. holder s i c n \<longrightarrow> holder s j d m \<longrightarrow> same_idem_key c d \<longrightarrow> i = j)"

lemma idem_inv_start: "idem_start s \<Longrightarrow> idem_inv s"
  by (simp add: idem_start_def idem_inv_def holder_def)

text \<open>Rows keep their key, and new rows get new ids.\<close>

definition ids_kept :: "idem_table \<Rightarrow> idem_table \<Rightarrow> bool" where
  "ids_kept t t' \<longleftrightarrow>
     t_next_id t \<le> t_next_id t'
     \<and> (\<forall>r'\<in>set (t_rows t'). r_ID r' < t_next_id t \<longrightarrow>
          (\<exists>r\<in>set (t_rows t). r_ID r = r_ID r' \<and> r_Scope r = r_Scope r' \<and> r_KeyHash r = r_KeyHash r'))"

lemma ids_kept_refl [simp]: "ids_kept t t"
  by (auto simp: ids_kept_def)

lemma id_has_key_kept: "ids_kept t t' \<Longrightarrow> id_has_key t i sc k \<Longrightarrow> id_has_key t' i sc k"
  unfolding ids_kept_def id_has_key_def by (metis less_le_trans)

lemma ids_kept_update:
  assumes "\<And>r. r_ID (change r) = r_ID r" "\<And>r. r_Scope (change r) = r_Scope r"
    "\<And>r. r_KeyHash (change r) = r_KeyHash r"
  shows "ids_kept t (snd (sql_update i guard change t))"
  using assms by (force simp: ids_kept_def sql_update_def)

lemma ids_kept_create: "ids_kept t (snd (sql_create clk r t))"
  by (auto simp: ids_kept_def sql_create_def Let_def)

lemma ids_kept_delete: "ids_kept t (snd (sql_delete_expired now batch t))"
  by (auto simp: ids_kept_def sql_delete_expired_def Let_def)

lemma row_unique:
  "table_ok t \<Longrightarrow> r \<in> set (t_rows t) \<Longrightarrow> r' \<in> set (t_rows t) \<Longrightarrow>
     r_ID r = r_ID r' \<or> (r_Scope r = r_Scope r' \<and> r_KeyHash r = r_KeyHash r') \<Longrightarrow> r = r'"
  unfolding table_ok_def distinct_map inj_on_def by blast

text \<open>What one call of a client does to the table, and when the client comes to own a row.\<close>

definition table_action :: "('v, 'e) idem_client \<Rightarrow> idem_table \<Rightarrow> idem_table \<Rightarrow> bool" where
  "table_action c t t' \<longleftrightarrow>
     t' = t
     \<or> (\<exists>clk r. t' = snd (sql_create clk r t))
     \<or> (\<exists>clk i st l e. t' = snd (sql_update i (reclaimable st (c_now c)) (reclaim_row clk l e) t))
     \<or> (\<exists>n change. owned_id (c_pc c) = Some n \<and> reports (c_pc c)
          \<and> (\<forall>r. r_ID (change r) = r_ID r \<and> r_Scope (change r) = r_Scope r \<and> r_KeyHash (change r) = r_KeyHash r)
          \<and> t' = snd (sql_update n (\<lambda>_. True) change t))"

lemma faulty_cases: "faulty f s s' = s \<or> faulty f s s' = s'"
  by (simp add: faulty_def)

lemma client_next_action:
  assumes "client_next sql_repo lib cfg clk f outcome c t = (c', t')"
  shows "table_action c t t'"
proof -
  have refl: "table_action c t t" by (simp add: table_action_def)
  have f: "table_action c t (faulty f t u)" if "table_action c t u" for u
    using that faulty_cases [of f t u] refl by metis
  have create: "table_action c t (snd (sql_create clk r t))" for r
    by (auto simp: table_action_def)
  have reclaim: "table_action c t (snd (sql_update i (reclaimable st (c_now c)) (reclaim_row clk l e) t))"
    for i st l e
    unfolding table_action_def by blast
  show ?thesis
  proof (cases "c_pc c")
    case AtCreate
    with assms f [OF create [of "claim_record c"]] show ?thesis
      by (auto simp: client_next_def sql_repo_def Let_def split: prod.splits)
  next
    case (AtReclaimExpired r)
    with assms f [OF reclaim [of "r_ID r" "r_Status r" "c_lockedUntil c" "c_expiresAt c"]] show ?thesis
      by (auto simp: client_next_def sql_repo_def Let_def split: prod.splits)
  next
    case (AtReclaimFailed r)
    with assms f [OF reclaim [of "r_ID r" IdempotencyStatusFailedRetryable "c_lockedUntil c" "c_expiresAt c"]]
    show ?thesis by (auto simp: client_next_def sql_repo_def Let_def split: prod.splits)
  next
    case (AtMarkFailed n e u)
    have "table_action c t (snd (sql_update n (\<lambda>_. True) (fail_row clk (failure_reason lib e) u (c_expiresAt c)) t))"
      unfolding table_action_def using AtMarkFailed
      by (intro disjI2 exI [of _ n] exI [of _ "fail_row clk (failure_reason lib e) u (c_expiresAt c)"]) simp
    with assms AtMarkFailed f show ?thesis by (auto simp: client_next_def sql_repo_def Let_def)
  next
    case (AtMarkSucceeded n v b)
    have "table_action c t (snd (sql_update n (\<lambda>_. True) (succeed_row clk 200 b (c_expiresAt c)) t))"
      unfolding table_action_def using AtMarkSucceeded
      by (intro disjI2 exI [of _ n] exI [of _ "succeed_row clk 200 b (c_expiresAt c)"]) simp
    with assms AtMarkSucceeded f show ?thesis by (auto simp: client_next_def sql_repo_def Let_def)
  qed (use assms in \<open>auto simp: client_next_def table_action_def faulty_def Let_def\<close>)
qed

lemma action_ids_kept: "table_action c t t' \<Longrightarrow> ids_kept t t'"
  unfolding table_action_def
  by (auto intro: ids_kept_update ids_kept_create)

lemma action_table_ok: "table_action c t t' \<Longrightarrow> table_ok t \<Longrightarrow> table_ok t'"
  unfolding table_action_def
  by (auto intro: sql_update_ok sql_create_ok)


text \<open>An action leaves a row alone that is processing under a lock that has not ended, unless the
  row is the actor's own.\<close>

lemma action_keeps_row:
  assumes "table_action c t t'" and "r \<in> set (t_rows t)" and "c_now c \<le> clk"
    and "r_LockedUntil r = Some l" and "clk < l"
    and "reports (c_pc c) \<Longrightarrow> owned_id (c_pc c) \<noteq> Some (r_ID r)"
  shows "r \<in> set (t_rows t')"
proof -
  have "\<not> reclaimable st (c_now c) r" for st
    using assms(3-5) by (simp add: reclaimable_def)
  then show ?thesis
    using assms(1,2,6) unfolding table_action_def
    by (elim disjE exE conjE) (force simp: sql_create_def sql_update_def Let_def)+
qed

lemma reclaim_claims:
  assumes "client_ok clk t c" "table_ok t" "read_record (c_pc c) = Some r"
    and "fst (sql_update (r_ID r) (reclaimable st (c_now c))
           (reclaim_row clk (c_lockedUntil c) (c_expiresAt c)) t)"
  shows "(\<exists>q\<in>set (t_rows (snd (sql_update (r_ID r) (reclaimable st (c_now c))
             (reclaim_row clk (c_lockedUntil c) (c_expiresAt c)) t))). claim_row c (r_ID r) q)
    \<and> (\<forall>q\<in>set (t_rows t). r_Scope q = c_scope c \<and> r_KeyHash q = c_keyHash c \<longrightarrow>
         (\<forall>l. r_LockedUntil q = Some l \<longrightarrow> l \<le> clk))"
proof -
  obtain q where q: "q \<in> set (t_rows t)" "r_ID q = r_ID r" "reclaimable st (c_now c) q"
    using assms(4) by (auto simp: sql_update_def)
  have key: "r_Scope q = c_scope c" "r_KeyHash q = c_keyHash c" and now: "c_now c \<le> clk"
    using assms(1,3) q by (auto simp: client_ok_def id_has_key_def)
  have "claim_row c (r_ID r) (reclaim_row clk (c_lockedUntil c) (c_expiresAt c) q)"
    using q key by (simp add: claim_row_def reclaim_row_def)
  moreover have "reclaim_row clk (c_lockedUntil c) (c_expiresAt c) q
      \<in> set (t_rows (snd (sql_update (r_ID r) (reclaimable st (c_now c))
             (reclaim_row clk (c_lockedUntil c) (c_expiresAt c)) t)))"
    using q by (force simp: sql_update_def)
  moreover have "p = q" if "p \<in> set (t_rows t)" "r_Scope p = c_scope c" "r_KeyHash p = c_keyHash c" for p
    using row_unique [OF assms(2) that(1) q(1)] key that by simp
  ultimately show ?thesis using q(3) now by (auto simp: reclaimable_def)
qed

lemma owned_dispatch [simp]: "owned_id (dispatch lib now r) = None"
  by (auto simp: dispatch_def split: option.split)

lemma owned_after_get [simp]: "owned_id (after_get lib c found) = None"
  by (auto simp: after_get_def split: option.split)

lemma owned_after_latest [simp]: "owned_id (after_latest lib c found) = None"
  by (auto simp: after_latest_def split: option.split)

lemma owned_claimed: "owned_id (claimed_pc i) = Some n \<Longrightarrow> n = i"
  by (auto simp: claimed_pc_def split: if_splits)

text \<open>The new claim of a client that had none.\<close>

lemma new_claim:
  assumes "client_next sql_repo lib cfg clk f outcome c t = (c', t')"
    and "owned_id (c_pc c) = None" and "owned_id (c_pc c') = Some n"
    and "table_ok t" "client_ok clk t c"
  shows "(\<exists>r\<in>set (t_rows t'). claim_row c n r)
    \<and> (\<forall>r\<in>set (t_rows t). r_Scope r = c_scope c \<and> r_KeyHash r = c_keyHash c \<longrightarrow>
         (\<forall>l. r_LockedUntil r = Some l \<longrightarrow> l \<le> clk))"
proof (cases "c_pc c")
  case AtCreate
  let ?r = "claim_record c"
  have fw: "f = Works" and own: "fst (fst (sql_create clk ?r t))"
    and n: "n = r_ID (snd (fst (sql_create clk ?r t)))"
    and t': "t' = snd (sql_create clk ?r t)"
    using assms(1,3) AtCreate
    by (auto simp: client_next_def sql_repo_def Let_def claimed_pc_def faulty_def
        split: prod.splits if_splits)
  have none: "sql_get (c_scope c) (c_keyHash c) t = None"
    using own by (auto simp: sql_create_def Let_def claim_record_def split: if_splits)
  have "\<exists>r\<in>set (t_rows t'). claim_row c n r"
    using none n by (simp add: t' sql_create_def Let_def claim_record_def claim_row_def)
  with none show ?thesis by (auto simp: sql_get_None)
next
  case (AtReclaimExpired r)
  let ?u = "sql_update (r_ID r) (reclaimable (r_Status r) (c_now c))
     (reclaim_row clk (c_lockedUntil c) (c_expiresAt c)) t"
  have "fst ?u" "n = r_ID r" "t' = snd ?u"
    using assms(1,3) AtReclaimExpired
    by (auto simp: client_next_def sql_repo_def Let_def faulty_def dest: owned_claimed
        split: prod.splits if_splits)
  with reclaim_claims [OF assms(5,4), of r "r_Status r"] AtReclaimExpired show ?thesis by simp
next
  case (AtReclaimFailed r)
  let ?u = "sql_update (r_ID r) (reclaimable IdempotencyStatusFailedRetryable (c_now c))
     (reclaim_row clk (c_lockedUntil c) (c_expiresAt c)) t"
  have "fst ?u" "n = r_ID r" "t' = snd ?u"
    using assms(1,3) AtReclaimFailed
    by (auto simp: client_next_def sql_repo_def Let_def faulty_def dest: owned_claimed
        split: prod.splits if_splits)
  with reclaim_claims [OF assms(5,4), of r IdempotencyStatusFailedRetryable] AtReclaimFailed
  show ?thesis by simp
qed (use assms in \<open>auto simp: client_next_def Let_def split: if_splits\<close>)

text \<open>What stays the same in a client, and what an owner goes on owning.\<close>

lemma client_next_fixed:
  assumes "client_next repo lib cfg clk f outcome c t = (c', t')"
  shows "c_scope c' = c_scope c \<and> c_keyHash c' = c_keyHash c \<and> c_now c' = c_now c
    \<and> c_lockedUntil c' = c_lockedUntil c \<and> c_expiresAt c' = c_expiresAt c"
  using assms
  by (cases "c_pc c") (auto simp: client_next_def Let_def split: prod.splits)

lemma owner_next:
  assumes "client_next repo lib cfg clk f outcome c t = (c', t')" and "owned_id (c_pc c) = Some n"
    and "owned_id (c_pc c') = Some m"
  shows "m = n \<and> t' = t"
  using assms
  by (cases "c_pc c")
     (auto simp: client_next_def Let_def after_execute_def split: prod.splits if_splits sum.splits option.splits)

lemma read_record_next:
  assumes "client_next sql_repo lib cfg clk f outcome c t = (c', t')" and "table_ok t"
    and "read_record (c_pc c') = Some r"
  shows "(r \<in> set (t_rows t) \<and> r_Scope r = c_scope c \<and> r_KeyHash r = c_keyHash c)
    \<or> read_record (c_pc c) = Some r"
proof -
  have d: "read_record (dispatch lib now q) = Some r \<Longrightarrow> q = r" for now q
    by (auto simp: dispatch_def split: if_splits option.splits)
  have g: "read_record (after_get lib c found) = Some r \<Longrightarrow> found = Some r" for found
    by (auto simp: after_get_def dest: d split: if_splits option.splits)
  have l: "read_record (after_latest lib c found) = Some r \<Longrightarrow> found = Some r" for found
    by (auto simp: after_latest_def dest: d split: if_splits option.splits)
  have cl: "read_record (claimed_pc i) = None" for i
    by (simp add: claimed_pc_def)
  have e: "read_record (after_execute lib cfg clk i outcome) = None" for i
    by (auto simp: after_execute_def split: sum.split option.split)
  show ?thesis
    using assms
    by (cases "c_pc c")
       (auto simp: client_next_def Let_def cl e sql_repo_def sql_get_Some dest!: g l
         split: prod.splits if_splits)
qed

section \<open>Preservation\<close>

lemma client_ok_kept:
  "client_ok clk t c \<Longrightarrow> ids_kept t t' \<Longrightarrow> clk \<le> clk' \<Longrightarrow> client_ok clk' t' c"
  unfolding client_ok_def using id_has_key_kept by fastforce

lemma inv_tick:
  assumes "idem_inv s" and "y_clock s \<le> t"
  shows "idem_inv (s\<lparr>y_clock := t\<rparr>)"
proof -
  have h: "holder (s\<lparr>y_clock := t\<rparr>) i c n \<Longrightarrow> holder s i c n" for i c n
    using assms(2) by (auto simp: holder_def)
  let ?s = "s\<lparr>y_clock := t\<rparr>"
  show ?thesis
    unfolding idem_inv_def
  proof (intro conjI allI impI)
    show "table_ok (y_table ?s)" using assms by (simp add: idem_inv_def)
    show "client_ok (y_clock ?s) (y_table ?s) d" if "y_clients ?s j = Some d" for j d
      using that assms by (auto simp: idem_inv_def intro: client_ok_kept [OF _ ids_kept_refl])
    show "\<exists>r\<in>set (t_rows (y_table ?s)). claim_row d n r" if "holder ?s j d n" for j d n
      using h [OF that] assms by (simp add: idem_inv_def)
    show "j = k" if "holder ?s j d n" "holder ?s k e m" "same_idem_key d e" for j d n k e m
      using h [OF that(1)] h [OF that(2)] that(3) assms unfolding idem_inv_def by blast
  qed
qed

lemma inv_arrive:
  assumes "idem_inv s" and "c_pc c = AtCreate" "c_now c = y_clock s" "c_lockedUntil c \<le> c_expiresAt c"
  shows "idem_inv (s\<lparr>y_clients := (y_clients s)(i \<mapsto> c)\<rparr>)"
proof -
  let ?s = "s\<lparr>y_clients := (y_clients s)(i \<mapsto> c)\<rparr>"
  have h: "holder ?s j d n \<Longrightarrow> holder s j d n" for j d n
    using assms(2) by (auto simp: holder_def split: if_splits)
  have ok: "client_ok (y_clock s) (y_table s) c" using assms by (simp add: client_ok_def)
  show ?thesis
    unfolding idem_inv_def
  proof (intro conjI allI impI)
    show "table_ok (y_table ?s)" using assms(1) by (simp add: idem_inv_def)
    show "client_ok (y_clock ?s) (y_table ?s) d" if "y_clients ?s j = Some d" for j d
      using that ok assms(1) by (auto simp: idem_inv_def split: if_splits)
    show "\<exists>r\<in>set (t_rows (y_table ?s)). claim_row d n r" if "holder ?s j d n" for j d n
      using h [OF that] assms(1) by (simp add: idem_inv_def)
    show "j = k" if "holder ?s j d n" "holder ?s k e m" "same_idem_key d e" for j d n k e m
      using h [OF that(1)] h [OF that(2)] that(3) assms(1) unfolding idem_inv_def by blast
  qed
qed

lemma inv_crash:
  assumes "idem_inv s"
  shows "idem_inv (s\<lparr>y_clients := (y_clients s)(i := None)\<rparr>)"
proof -
  let ?s = "s\<lparr>y_clients := (y_clients s)(i := None)\<rparr>"
  have h: "holder ?s j d n \<Longrightarrow> holder s j d n" for j d n
    by (auto simp: holder_def split: if_splits)
  show ?thesis
    unfolding idem_inv_def
  proof (intro conjI allI impI)
    show "table_ok (y_table ?s)" using assms by (simp add: idem_inv_def)
    show "client_ok (y_clock ?s) (y_table ?s) d" if "y_clients ?s j = Some d" for j d
      using that assms by (auto simp: idem_inv_def split: if_splits)
    show "\<exists>r\<in>set (t_rows (y_table ?s)). claim_row d n r" if "holder ?s j d n" for j d n
      using h [OF that] assms by (simp add: idem_inv_def)
    show "j = k" if "holder ?s j d n" "holder ?s k e m" "same_idem_key d e" for j d n k e m
      using h [OF that(1)] h [OF that(2)] that(3) assms unfolding idem_inv_def by blast
  qed
qed

lemma inv_sweep:
  assumes "idem_inv s"
  shows "idem_inv (s\<lparr>y_table := snd (sql_delete_expired (y_clock s) batch (y_table s))\<rparr>)"
proof -
  let ?t = "snd (sql_delete_expired (y_clock s) batch (y_table s))"
  let ?s = "s\<lparr>y_table := ?t\<rparr>"
  have tok: "table_ok (y_table s)" using assms by (simp add: idem_inv_def)
  have h: "holder ?s j d n \<longleftrightarrow> holder s j d n" for j d n by (simp add: holder_def)
  show ?thesis
    unfolding idem_inv_def
  proof (intro conjI allI impI)
    show "table_ok (y_table ?s)" using tok by (simp add: sql_delete_ok)
    show "client_ok (y_clock ?s) (y_table ?s) d" if "y_clients ?s j = Some d" for j d
      using that assms by (auto simp: idem_inv_def intro: client_ok_kept ids_kept_delete)
    show "\<exists>r\<in>set (t_rows (y_table ?s)). claim_row d n r" if "holder ?s j d n" for j d n
    proof -
      have hs: "holder s j d n" using that h by simp
      then obtain r where r: "r \<in> set (t_rows (y_table s))" "claim_row d n r"
        using assms unfolding idem_inv_def by blast
      have "y_clock s < r_ExpiresAt r"
        using hs r(2) assms by (fastforce simp: holder_def claim_row_def idem_inv_def client_ok_def)
      then have "r \<in> set (t_rows ?t)"
        using sql_delete_row [OF tok r(1)] by fastforce
      with r(2) show ?thesis by auto
    qed
    show "j = k" if "holder ?s j d n" "holder ?s k e m" "same_idem_key d e" for j d n k e m
      using that assms unfolding h idem_inv_def by blast
  qed
qed

lemma inv_rows: "idem_inv s \<Longrightarrow> holder s j d n \<Longrightarrow> \<exists>r\<in>set (t_rows (y_table s)). claim_row d n r"
  unfolding idem_inv_def by blast

lemma inv_alone: "idem_inv s \<Longrightarrow> holder s j d n \<Longrightarrow> holder s k e m \<Longrightarrow> same_idem_key d e \<Longrightarrow> j = k"
  unfolding idem_inv_def by blast

lemma inv_client: "idem_inv s \<Longrightarrow> y_clients s i = Some c \<Longrightarrow> client_ok (y_clock s) (y_table s) c"
  unfolding idem_inv_def by blast

lemma inv_table: "idem_inv s \<Longrightarrow> table_ok (y_table s)"
  unfolding idem_inv_def by blast

text \<open>An action keeps the rows of the other holders.\<close>

lemma act_keeps_claim:
  assumes inv: "idem_inv s" and ci: "y_clients s i = Some c"
    and timely: "reports (c_pc c) \<longrightarrow> y_clock s < c_lockedUntil c"
    and act: "table_action c (y_table s) t'" and hj: "holder s j d n" and ne: "j \<noteq> i"
  shows "\<exists>r\<in>set (t_rows t'). claim_row d n r"
proof -
  obtain r where r: "r \<in> set (t_rows (y_table s))" "claim_row d n r"
    using inv_rows [OF inv hj] by blast
  have notown: "owned_id (c_pc c) \<noteq> Some (r_ID r)" if rep: "reports (c_pc c)"
  proof
    assume own: "owned_id (c_pc c) = Some (r_ID r)"
    then have hi: "holder s i c (r_ID r)" using ci rep timely by (simp add: holder_def)
    then obtain q where q: "q \<in> set (t_rows (y_table s))" "claim_row c (r_ID r) q"
      using inv_rows [OF inv] by blast
    have "r_ID q = r_ID r" using q(2) by (simp add: claim_row_def)
    then have "q = r" using row_unique [OF inv_table [OF inv] q(1) r(1)] by blast
    then have "same_idem_key c d" using q(2) r(2) by (simp add: claim_row_def same_idem_key_def)
    with inv_alone [OF inv hi hj] ne show False by simp
  qed
  have "c_now c \<le> y_clock s" using inv_client [OF inv ci] by (simp add: client_ok_def)
  moreover have "r_LockedUntil r = Some (c_lockedUntil d)" using r(2) by (simp add: claim_row_def)
  moreover have "y_clock s < c_lockedUntil d" using hj by (simp add: holder_def)
  ultimately have "r \<in> set (t_rows t')"
    using action_keeps_row [OF act r(1)] notown by blast
  with r(2) show ?thesis by blast
qed

text \<open>The actor's own claim, new or old, and its rivals.\<close>

lemma act_own_claim:
  assumes inv: "idem_inv s" and ci: "y_clients s i = Some c"
    and nxt: "client_next sql_repo lib cfg (y_clock s) f outcome c (y_table s) = (c', t')"
    and own': "owned_id (c_pc c') = Some n" and lock: "y_clock s < c_lockedUntil c"
  shows "\<exists>r\<in>set (t_rows t'). claim_row c n r"
    and "j \<noteq> i \<Longrightarrow> holder s j d m \<Longrightarrow> \<not> same_idem_key c d"
proof -
  have "(\<exists>r\<in>set (t_rows t'). claim_row c n r)
    \<and> (\<forall>j d m. j \<noteq> i \<longrightarrow> holder s j d m \<longrightarrow> \<not> same_idem_key c d)"
  proof (cases "owned_id (c_pc c)")
    case None
    have new: "\<exists>r\<in>set (t_rows t'). claim_row c n r"
      "\<forall>r\<in>set (t_rows (y_table s)). r_Scope r = c_scope c \<and> r_KeyHash r = c_keyHash c \<longrightarrow>
         (\<forall>l. r_LockedUntil r = Some l \<longrightarrow> l \<le> y_clock s)"
      using new_claim [OF nxt None own' inv_table [OF inv] inv_client [OF inv ci]] by blast+
    have "\<not> same_idem_key c d" if hj: "holder s j d m" for j d m
    proof
      assume same: "same_idem_key c d"
      obtain r where r: "r \<in> set (t_rows (y_table s))" "claim_row d m r"
        using inv_rows [OF inv hj] by blast
      have "r_Scope r = c_scope c \<and> r_KeyHash r = c_keyHash c" "r_LockedUntil r = Some (c_lockedUntil d)"
        using r(2) same by (simp_all add: claim_row_def same_idem_key_def)
      with new(2) r(1) have "c_lockedUntil d \<le> y_clock s" by blast
      with hj show False by (simp add: holder_def)
    qed
    with new(1) show ?thesis by blast
  next
    case (Some m)
    have "n = m" "t' = y_table s" using owner_next [OF nxt Some own'] by simp_all
    moreover have hold: "holder s i c m" using ci Some lock by (simp add: holder_def)
    ultimately show ?thesis using inv_rows [OF inv hold] inv_alone [OF inv hold] by blast
  qed
  then show "\<exists>r\<in>set (t_rows t'). claim_row c n r"
    and "j \<noteq> i \<Longrightarrow> holder s j d m \<Longrightarrow> \<not> same_idem_key c d" by blast+
qed

lemma act_client_ok:
  assumes tok: "table_ok t" and cok: "client_ok clk t c"
    and nxt: "client_next sql_repo lib cfg clk f outcome c t = (c', t')"
  shows "client_ok clk t' c'"
proof -
  note fixed = client_next_fixed [OF nxt]
  have "id_has_key t' (r_ID r) (c_scope c) (c_keyHash c)" if rr: "read_record (c_pc c') = Some r" for r
  proof -
    have "id_has_key t (r_ID r) (c_scope c) (c_keyHash c)"
      using read_record_next [OF nxt tok rr]
    proof
      assume r: "r \<in> set (t_rows t) \<and> r_Scope r = c_scope c \<and> r_KeyHash r = c_keyHash c"
      then have "r_ID r < t_next_id t" using tok by (simp add: table_ok_def)
      with r row_unique [OF tok] show ?thesis unfolding id_has_key_def by blast
    next
      assume "read_record (c_pc c) = Some r"
      then show ?thesis using cok by (simp add: client_ok_def)
    qed
    then show ?thesis
      by (rule id_has_key_kept [OF action_ids_kept [OF client_next_action [OF nxt]]])
  qed
  with cok fixed show ?thesis by (simp add: client_ok_def)
qed

lemma inv_act:
  assumes inv: "idem_inv s" and ci: "y_clients s i = Some c"
    and timely: "reports (c_pc c) \<longrightarrow> y_clock s < c_lockedUntil c"
    and nxt: "client_next sql_repo lib cfg (y_clock s) f outcome c (y_table s) = (c', t')"
  shows "idem_inv (s\<lparr>y_table := t', y_clients := (y_clients s)(i \<mapsto> c')\<rparr>)"
proof -
  let ?s = "s\<lparr>y_table := t', y_clients := (y_clients s)(i \<mapsto> c')\<rparr>"
  note act = client_next_action [OF nxt]
  have same': "same_idem_key c' d = same_idem_key c d" "claim_row c' n r = claim_row c n r" for d n r
    using client_next_fixed [OF nxt] by (simp_all add: same_idem_key_def claim_row_def)
  have mine: "d = c' \<and> owned_id (c_pc c') = Some n \<and> y_clock s < c_lockedUntil c"
    if "holder ?s i d n" for d n
    using that client_next_fixed [OF nxt] by (simp add: holder_def)
  have other: "holder s j d n" if "holder ?s j d n" "j \<noteq> i" for j d n
    using that by (simp add: holder_def)
  have exclusive: False
    if "holder ?s i d n" "holder ?s k e m" "k \<noteq> i" "same_idem_key d e" for d n k e m
    using act_own_claim(2) [OF inv ci nxt, of n k e m] mine [OF that(1)] other [OF that(2,3)] that(3,4) same'
    by simp
  show ?thesis
    unfolding idem_inv_def
  proof (intro conjI allI impI)
    show "table_ok (y_table ?s)" using action_table_ok [OF act inv_table [OF inv]] by simp
    show "client_ok (y_clock ?s) (y_table ?s) d" if "y_clients ?s j = Some d" for j d
    proof (cases "j = i")
      case True
      with that act_client_ok [OF inv_table [OF inv] inv_client [OF inv ci] nxt] show ?thesis by simp
    next
      case False
      then have "client_ok (y_clock s) (y_table s) d" using that inv_client [OF inv] by simp
      from client_ok_kept [OF this action_ids_kept [OF act]] show ?thesis by simp
    qed
    show "\<exists>r\<in>set (t_rows (y_table ?s)). claim_row d n r" if h: "holder ?s j d n" for j d n
    proof (cases "j = i")
      case True
      with act_own_claim(1) [OF inv ci nxt] mine [of d n] h same' show ?thesis by simp
    next
      case False
      from act_keeps_claim [OF inv ci timely act other [OF h False] False] show ?thesis by simp
    qed
    show "j = k" if hj: "holder ?s j d n" and hk: "holder ?s k e m" and same: "same_idem_key d e" for j d n k e m
    proof (rule ccontr)
      assume ne: "j \<noteq> k"
      have sym: "same_idem_key e d" using same by (simp add: same_idem_key_def)
      consider "j = i" "k \<noteq> i" | "k = i" "j \<noteq> i" | "j \<noteq> i" "k \<noteq> i" using ne by blast
      then show False
      proof cases
        case 1
        then show False using exclusive [OF _ hk 1(2) same] hj by simp
      next
        case 2
        then show False using exclusive [OF _ hj 2(2) sym] hk by simp
      next
        case 3
        with inv_alone [OF inv other [OF hj] other [OF hk] same] ne show False by simp
      qed
    qed
  qed
qed

lemma idem_step_inv: "idem_step True lib cfg s s' \<Longrightarrow> idem_inv s \<Longrightarrow> idem_inv s'"
proof (erule idem_stepE)
  fix c i c' t' f and outcome
  assume "idem_inv s" "s' = s\<lparr>y_table := t', y_clients := (y_clients s)(i \<mapsto> c')\<rparr>"
    "y_clients s i = Some c" "True \<longrightarrow> reports (c_pc c) \<longrightarrow> y_clock s < c_lockedUntil c"
    "client_next sql_repo lib cfg (y_clock s) f outcome c (y_table s) = (c', t')"
  then show "idem_inv s'" using inv_act by blast
qed (auto intro: inv_tick inv_arrive inv_crash inv_sweep)

lemma idem_reach_inv:
  "(idem_step True lib cfg)\<^sup>*\<^sup>* s s' \<Longrightarrow> idem_inv s \<Longrightarrow> idem_inv s'"
  by (induction rule: rtranclp_induct) (auto intro: idem_step_inv)

text \<open>C21 (processing_lock_exclusive): From a start without clients, whatever arrivals, repository
  faults, crashes, sweeps and passing of time occur, two clients with the same key are never both
  between claim and report with their locks unexpired, provided owners report within their lock.\<close>

theorem processing_lock_exclusive:
  assumes "idem_start s" and "(idem_step True lib cfg)\<^sup>*\<^sup>* s s'"
    and "holder s' i c n" and "holder s' j d m" and "same_idem_key c d"
  shows "i = j"
  using idem_reach_inv [OF assms(2) idem_inv_start [OF assms(1)]] assms(3-5)
  unfolding idem_inv_def by blast

section \<open>Late reports\<close>

text \<open>Executable events, each a step without the proviso.\<close>

datatype ('v, 'e) idem_event =
  EvTick go_time
| EvArrive nat "('v, 'e) idem_client"
| EvAct nat fault "('v, 'e) outcome"

fun apply_event ::
  "('v, 'e) idem_lib \<Rightarrow> idem_config \<Rightarrow> ('v, 'e) idem_event \<Rightarrow> ('v, 'e) idem_sys \<Rightarrow> ('v, 'e) idem_sys option" where
  "apply_event lib cfg (EvTick t) s = (if y_clock s \<le> t then Some (s\<lparr>y_clock := t\<rparr>) else None)"
| "apply_event lib cfg (EvArrive i c) s =
     (if c_now c = y_clock s \<and> c_lockedUntil c \<le> c_expiresAt c
      then case y_clients s i of
             None \<Rightarrow> (case c_pc c of
                        AtCreate \<Rightarrow> Some (s\<lparr>y_clients := (y_clients s)(i \<mapsto> c)\<rparr>) | _ \<Rightarrow> None)
           | Some d \<Rightarrow> None
      else None)"
| "apply_event lib cfg (EvAct i f outcome) s =
     (case y_clients s i of
        None \<Rightarrow> None
      | Some c \<Rightarrow>
          (case client_next sql_repo lib cfg (y_clock s) f outcome c (y_table s) of
             (c', t') \<Rightarrow> Some (s\<lparr>y_table := t', y_clients := (y_clients s)(i \<mapsto> c')\<rparr>)))"

fun apply_events ::
  "('v, 'e) idem_lib \<Rightarrow> idem_config \<Rightarrow> ('v, 'e) idem_event list \<Rightarrow> ('v, 'e) idem_sys \<Rightarrow> ('v, 'e) idem_sys option" where
  "apply_events lib cfg [] s = Some s"
| "apply_events lib cfg (ev # evs) s =
     (case apply_event lib cfg ev s of None \<Rightarrow> None | Some s1 \<Rightarrow> apply_events lib cfg evs s1)"

fun on_time :: "('v, 'e) idem_event \<Rightarrow> ('v, 'e) idem_sys \<Rightarrow> bool" where
  "on_time (EvAct i f outcome) s =
     (case y_clients s i of None \<Rightarrow> True | Some c \<Rightarrow> reports (c_pc c) \<longrightarrow> y_clock s < c_lockedUntil c)"
| "on_time ev s = True"

lemma apply_event_step:
  "apply_event lib cfg ev s = Some s' \<Longrightarrow> timely \<longrightarrow> on_time ev s \<Longrightarrow> idem_step timely lib cfg s s'"
  by (cases ev)
     (auto intro: Tick Arrive Act split: if_splits option.splits prod.splits idem_pc.splits)

lemma apply_events_reach:
  "apply_events lib cfg evs s = Some s' \<Longrightarrow> (idem_step False lib cfg)\<^sup>*\<^sup>* s s'"
proof (induction evs arbitrary: s)
  case (Cons ev evs)
  then obtain s1 where "apply_event lib cfg ev s = Some s1" "apply_events lib cfg evs s1 = Some s'"
    by (auto split: option.splits)
  with Cons.IH apply_event_step [of lib cfg ev s s1 False] show ?case
    by (meson converse_rtranclp_into_rtranclp)
qed simp

definition empty_sys :: "(string, string) idem_sys" where
  "empty_sys = \<lparr>y_clock = 0, y_table = empty_table, y_clients = (\<lambda>_. None)\<rparr>"

text \<open>
  Client 0 claims, and is still running when its record expires a day later; client 1 reclaims the
  record; client 0 then reports its failure, which frees the record for client 2.
\<close>

definition late_report :: "(string, string) idem_event list" where
  "late_report =
     [EvArrive 0 (sample_client ''p'' 0), EvAct 0 Works (Inl ''boom''),
      EvTick (24 * hour_ns), EvArrive 1 (sample_client ''p'' (24 * hour_ns)),
      EvAct 1 Works (Inl ''x''), EvAct 1 Works (Inl ''x''), EvAct 1 Works (Inl ''x''),
      EvAct 0 Works (Inl ''boom''), EvAct 0 Works (Inl ''boom''),
      EvTick (24 * hour_ns + 6 * second_ns),
      EvArrive 2 (sample_client ''p'' (24 * hour_ns + 6 * second_ns)),
      EvAct 2 Works (Inl ''y''), EvAct 2 Works (Inl ''y''), EvAct 2 Works (Inl ''y'')]"

lemma late_report_result:
  "case apply_events sample_lib DefaultIdempotencyConfig late_report empty_sys of
     None \<Rightarrow> False
   | Some s \<Rightarrow>
       (case y_clients s 1 of
          None \<Rightarrow> False
        | Some c \<Rightarrow> owned_id (c_pc c) = Some 1 \<and> y_clock s < c_lockedUntil c
            \<and> c_scope c = ''s'' \<and> c_keyHash c = ''k1'')
       \<and> (case y_clients s 2 of
          None \<Rightarrow> False
        | Some c \<Rightarrow> owned_id (c_pc c) = Some 1 \<and> y_clock s < c_lockedUntil c
            \<and> c_scope c = ''s'' \<and> c_keyHash c = ''k1'')"
  by code_simp

text \<open>When an owner may report after its lock has ended, two clients
  can come to hold the processing lock of one key at the same time: the report of the late owner
  overwrites the record its successor holds.\<close>

theorem late_report_breaks_lock:
  "\<exists>s c d. (idem_step False sample_lib DefaultIdempotencyConfig)\<^sup>*\<^sup>* empty_sys s
     \<and> holder s 1 c 1 \<and> holder s 2 d 1 \<and> same_idem_key c d"
proof -
  obtain s where s: "apply_events sample_lib DefaultIdempotencyConfig late_report empty_sys = Some s"
    using late_report_result by (cases "apply_events sample_lib DefaultIdempotencyConfig late_report empty_sys") auto
  have "\<exists>c d. holder s 1 c 1 \<and> holder s 2 d 1 \<and> same_idem_key c d"
    using late_report_result
    by (auto simp: s holder_def same_idem_key_def split: option.splits)
  with apply_events_reach [OF s] show ?thesis by blast
qed

theorem processing_lock_exclusive_witness:
  "\<exists>s c. (idem_step True sample_lib DefaultIdempotencyConfig)\<^sup>*\<^sup>* empty_sys s \<and> holder s 0 c 1
     \<and> (\<forall>j d m. holder s j d m \<longrightarrow> same_idem_key c d \<longrightarrow> j = 0)"
proof -
  have start: "idem_start empty_sys" by (simp add: idem_start_def empty_sys_def empty_table_ok)
  let ?evs = "[EvArrive 0 (sample_client ''p'' 0), EvAct 0 Works (Inl ''boom'')]"
  have result: "case apply_events sample_lib DefaultIdempotencyConfig ?evs empty_sys of
      None \<Rightarrow> False
    | Some s \<Rightarrow> (case y_clients s 0 of None \<Rightarrow> False
        | Some c \<Rightarrow> owned_id (c_pc c) = Some 1 \<and> y_clock s < c_lockedUntil c)"
    by code_simp
  obtain s1 s where 1: "apply_event sample_lib DefaultIdempotencyConfig (EvArrive 0 (sample_client ''p'' 0)) empty_sys = Some s1"
    and 2: "apply_event sample_lib DefaultIdempotencyConfig (EvAct 0 Works (Inl ''boom'')) s1 = Some s"
    and s: "apply_events sample_lib DefaultIdempotencyConfig ?evs empty_sys = Some s"
    using result by (auto simp del: apply_event.simps split: option.splits)
  have "s1 = empty_sys\<lparr>y_clients := (y_clients empty_sys)(0 \<mapsto> sample_client ''p'' 0)\<rparr>"
    using 1 by (auto split: option.splits if_splits idem_pc.splits)
  then have t: "on_time (EvAct 0 Works (Inl ''boom'')) s1" by (simp add: sample_client_def)
  have "idem_step True sample_lib DefaultIdempotencyConfig empty_sys s1"
    by (rule apply_event_step [OF 1]) simp
  moreover have "idem_step True sample_lib DefaultIdempotencyConfig s1 s"
    by (rule apply_event_step [OF 2]) (use t in simp)
  ultimately have reach: "(idem_step True sample_lib DefaultIdempotencyConfig)\<^sup>*\<^sup>* empty_sys s"
    by (meson rtranclp.rtrancl_refl rtranclp.rtrancl_into_rtrancl)
  obtain c where c: "holder s 0 c 1"
    using result unfolding s holder_def by (auto split: option.splits)
  with reach processing_lock_exclusive [OF start reach _ c] show ?thesis
    by (metis (no_types) same_idem_key_def)
qed

end
