(* ===== verification/BillingTables.thy ===== *)
theory BillingTables
  imports GoStrings Float64
begin

text \<open>
  The database the billing repository works on
  (\<open>backend/internal/repository/usage_billing_repo.go\<close>, the column types of
  \<open>backend/migrations\<close>), the environment of a transaction, and the commands with their
  normalisation (\<open>backend/internal/service/usage_billing.go\<close>).

  A monetary \<open>float64\<close> of Go is represented by its shortest decimal, which is what the
  database driver sends and what \<open>decimal.NewFromFloat\<close> reads; this is exact below
  \<open>10\<^sup>7\<close> at eight decimal places.  Go's own arithmetic on such values goes through
  \<open>f64\<close>.  Values are finite.  A table is a function from its key to a row.
\<close>

section \<open>Decimals\<close>

type_synonym decimal = rat

text \<open>Rounding half away from zero at \<open>n\<close> decimal places, as PostgreSQL's NUMERIC and
  \<open>decimal.Round\<close> do.\<close>

definition round_half_away :: "nat \<Rightarrow> decimal \<Rightarrow> decimal" where
  "round_half_away n x = sgn x * of_int \<lfloor>\<bar>x\<bar> * 10 ^ n + 1 / 2\<rfloor> / 10 ^ n"

definition on_scale :: "nat \<Rightarrow> decimal \<Rightarrow> bool" where
  "on_scale n x \<longleftrightarrow> of_int \<lfloor>x * 10 ^ n\<rfloor> = x * 10 ^ n"

lemma on_scale_int: "on_scale n x \<longleftrightarrow> (\<exists>i::int. x * 10 ^ n = of_int i)"
  by (auto simp: on_scale_def)

lemma on_scale_add [simp]: "on_scale n x \<Longrightarrow> on_scale n y \<Longrightarrow> on_scale n (x + y)"
  unfolding on_scale_int by (metis distrib_right of_int_add)

lemma on_scale_uminus [simp]: "on_scale n x \<Longrightarrow> on_scale n (- x)"
  unfolding on_scale_int by (metis mult_minus_left of_int_minus)

lemma on_scale_diff [simp]: "on_scale n x \<Longrightarrow> on_scale n y \<Longrightarrow> on_scale n (x - y)"
  by (metis add_uminus_conv_diff on_scale_add on_scale_uminus)

lemma on_scale_0 [simp]: "on_scale n 0"
  by (simp add: on_scale_def)

lemma on_scale_round [simp]: "on_scale n (round_half_away n x)"
proof -
  have "\<exists>i::int. sgn x = of_int i"
    by (cases "x = 0"; cases "0 < x") (auto intro: exI [of _ "1::int"] exI [of _ "- 1::int"] exI [of _ "0::int"])
  then obtain i :: int where "sgn x = of_int i" ..
  then have "round_half_away n x * 10 ^ n = of_int (i * \<lfloor>\<bar>x\<bar> * 10 ^ n + 1 / 2\<rfloor>)"
    by (simp add: round_half_away_def)
  then show ?thesis unfolding on_scale_int ..
qed

lemma round_on_scale [simp]: "on_scale n x \<Longrightarrow> round_half_away n x = x"
proof -
  assume "on_scale n x"
  then have "on_scale n \<bar>x\<bar>" by (cases "x \<ge> 0") simp_all
  then obtain i :: int where i: "\<bar>x\<bar> * 10 ^ n = of_int i" unfolding on_scale_int ..
  have "\<lfloor>of_int i + 1 / 2 :: rat\<rfloor> = i" by linarith
  with i have "of_int \<lfloor>\<bar>x\<bar> * 10 ^ n + 1 / 2\<rfloor> = \<bar>x\<bar> * 10 ^ n" by simp
  then have "round_half_away n x = sgn x * \<bar>x\<bar>" by (simp add: round_half_away_def)
  then show ?thesis by (simp add: sgn_mult_abs)
qed

lemma round_half_away_error: "\<bar>round_half_away n x - x\<bar> \<le> 1 / 2 / 10 ^ n"
proof -
  define z where "z = \<bar>x\<bar> * 10 ^ n"
  have z: "\<bar>of_int \<lfloor>z + 1 / 2\<rfloor> - z\<bar> \<le> 1 / 2" by linarith
  have x: "x = sgn x * z / 10 ^ n" by (simp add: z_def sgn_mult_abs)
  have "round_half_away n x - x = sgn x * (of_int \<lfloor>z + 1 / 2\<rfloor> - z) / 10 ^ n"
    using x by (simp add: round_half_away_def z_def right_diff_distrib diff_divide_distrib)
  then have "\<bar>round_half_away n x - x\<bar> \<le> \<bar>of_int \<lfloor>z + 1 / 2\<rfloor> - z\<bar> / 10 ^ n"
    by (simp add: abs_mult abs_sgn_eq divide_right_mono)
  also have "\<dots> \<le> 1 / 2 / 10 ^ n" using z by (intro divide_right_mono) simp_all
  finally show ?thesis .
qed

lemma round_half_away_nonneg: "0 \<le> x \<Longrightarrow> 0 \<le> round_half_away n x"
proof -
  assume "0 \<le> x"
  then have "0 \<le> \<lfloor>\<bar>x\<bar> * 10 ^ n + 1 / 2\<rfloor>" by simp
  then have "(0 :: rat) \<le> of_int \<lfloor>\<bar>x\<bar> * 10 ^ n + 1 / 2\<rfloor>" unfolding of_int_0_le_iff .
  moreover have "0 \<le> sgn x" using \<open>0 \<le> x\<close> by (simp add: sgn_if)
  ultimately show ?thesis by (simp add: round_half_away_def)
qed

section \<open>Tables\<close>

record user_row =
  u_balance :: decimal
  u_frozen_balance :: decimal
  u_updated_at :: go_time
  u_deleted :: bool

record api_key_row =
  k_status :: string
  k_quota :: decimal
  k_quota_used :: decimal
  k_usage_5h :: decimal
  k_usage_1d :: decimal
  k_usage_7d :: decimal
  k_window_5h_start :: "go_time option"
  k_window_1d_start :: "go_time option"
  k_window_7d_start :: "go_time option"
  k_updated_at :: go_time
  k_deleted :: bool

record subscription_row =
  s_group_id :: int
  s_daily_usage :: decimal
  s_weekly_usage :: decimal
  s_monthly_usage :: decimal
  s_updated_at :: go_time
  s_deleted :: bool

text \<open>The keys \<open>quota_<period>_*\<close> of the JSON column \<open>accounts.extra\<close>; \<open>None\<close> is an
  absent key.\<close>

record quota_period =
  q_limit :: "decimal option"
  q_used :: "decimal option"
  q_reset_mode :: "string option"
  q_start :: "go_time option"
  q_reset_at :: "go_time option"
  q_reset_hour :: "int option"
  q_reset_day :: "int option"

record account_row =
  a_quota_used :: "decimal option"
  a_quota_limit :: "decimal option"
  a_daily :: quota_period
  a_weekly :: quota_period
  a_reset_timezone :: "string option"
  a_updated_at :: go_time
  a_deleted :: bool

record outbox_row =
  o_event_type :: string
  o_account_id :: "int option"
  o_group_id :: "int option"
  o_payload :: "string option"
  o_dedup_key :: "string option"

record billing_db =
  users :: "int \<Rightarrow> user_row option"
  api_keys :: "int \<Rightarrow> api_key_row option"
  subscriptions :: "int \<Rightarrow> subscription_row option"
  groups :: "int \<Rightarrow> bool option"
  accounts :: "int \<Rightarrow> account_row option"
  dedup :: "string \<times> int \<Rightarrow> string option"
  dedup_archive :: "string \<times> int \<Rightarrow> string option"
  scheduler_outbox :: "outbox_row list"

text \<open>\<open>groups\<close> holds whether a group is deleted.\<close>

section \<open>Statements and errors\<close>

text \<open>
  Every statement of a transaction may fail, for whatever reason the server or the driver has
  (a lost connection, a NUMERIC overflow, a malformed JSON number): \<open>env_fails\<close> says which do.
\<close>

datatype billing_stmt =
  BeginTx | CommitTx | InsertDedup | SelectDedup | SelectArchive
| UpdateSubscription | DeductGuarded | DeductOverdraft
| UpdateKeyQuota | UpdateKeyRateLimit | UpdateAccountQuota | InsertOutbox
| ReserveBalance | CaptureBalance | ReleaseBalance | SelectUser
| SelectHoldDedup | SelectHoldArchive

datatype billing_error =
  RepositoryNil
| ErrUsageBillingRequestIDRequired
| ErrUsageBillingRequestConflict
| ErrUsageBillingPrimaryUnavailable
| ErrSubscriptionNotFound
| ErrUserNotFound
| ErrAPIKeyNotFound
| ErrAccountNotFound
| ErrBatchImageInsufficientBalance
| ErrBatchImageSettlementCostExceedsHold
| FrozenBalanceInsufficient
| SqlError billing_stmt

text \<open>
  \<open>env_now\<close> is \<open>NOW()\<close>, constant in a transaction; \<open>env_local tz\<close> and
  \<open>env_instant tz\<close> are PostgreSQL's \<open>AT TIME ZONE\<close> from an instant to wall-clock time and
  back; \<open>env_sha256\<close> is SHA-256 in hexadecimal.
\<close>

record billing_env =
  env_now :: go_time
  env_fails :: "billing_stmt \<Rightarrow> bool"
  env_begin_sqlstate :: string
  env_repo_nil :: bool
  env_session_tz :: string
  env_local :: "string \<Rightarrow> go_time \<Rightarrow> go_time"
  env_instant :: "string \<Rightarrow> go_time \<Rightarrow> go_time"
  env_sha256 :: "string \<Rightarrow> string"

definition run_stmt :: "billing_env \<Rightarrow> billing_stmt \<Rightarrow> (billing_error + 'a) \<Rightarrow> billing_error + 'a" where
  "run_stmt env k r = (if env_fails env k then Inl (SqlError k) else r)"

lemma run_stmt_Inr: "run_stmt env k r = Inr x \<longleftrightarrow> \<not> env_fails env k \<and> r = Inr x"
  by (simp add: run_stmt_def)

section \<open>Commands\<close>

record UsageBillingCommand =
  RequestID :: string
  APIKeyID :: int
  RequestFingerprint :: string
  RequestPayloadHash :: string
  UserID :: int
  AccountID :: int
  SubscriptionID :: "int option"
  AccountType :: string
  Model :: string
  ServiceTier :: string
  ReasoningEffort :: string
  BillingType :: int
  InputTokens :: int
  OutputTokens :: int
  CacheCreationTokens :: int
  CacheReadTokens :: int
  ImageCount :: int
  MediaType :: string
  BalanceCost :: decimal
  SubscriptionCost :: decimal
  APIKeyQuotaCost :: decimal
  APIKeyRateLimitCost :: decimal
  AccountQuotaCost :: decimal

record BatchImageBalanceHoldCommand =
  h_RequestID :: string
  h_APIKeyID :: int
  h_RequestFingerprint :: string
  h_RequestPayloadHash :: string
  h_UserID :: int
  h_BatchID :: string
  h_HoldAmount :: decimal
  h_ActualAmount :: decimal

text \<open>\<open>%0.10f\<close>: the exact binary value rounded to ten places, ties to even.\<close>

definition fmt_f10 :: "decimal \<Rightarrow> string" where
  "fmt_f10 v =
     (let m = half_even (\<bar>f64 v\<bar> * 10 ^ 10);
          frac = nat_digits (nat (m mod 10 ^ 10))
      in (if v < 0 then ''-'' else '''') @ itoa (m div 10 ^ 10) @ ''.''
         @ replicate (10 - length frac) (CHR ''0'') @ frac)"

definition valueOrZero :: "int option \<Rightarrow> int" where
  "valueOrZero v = (case v of None \<Rightarrow> 0 | Some x \<Rightarrow> x)"

definition buildUsageBillingFingerprint :: "(string \<Rightarrow> string) \<Rightarrow> UsageBillingCommand option \<Rightarrow> string" where
  "buildUsageBillingFingerprint sha c0 =
     (case c0 of None \<Rightarrow> '''' | Some c \<Rightarrow>
       let raw = join ''|''
             [itoa (UserID c), itoa (AccountID c), itoa (APIKeyID c),
              trim_space (AccountType c), trim_space (Model c), trim_space (ServiceTier c),
              trim_space (ReasoningEffort c), itoa (BillingType c), itoa (InputTokens c),
              itoa (OutputTokens c), itoa (CacheCreationTokens c), itoa (CacheReadTokens c),
              itoa (ImageCount c), trim_space (MediaType c), itoa (valueOrZero (SubscriptionID c)),
              fmt_f10 (BalanceCost c), fmt_f10 (SubscriptionCost c), fmt_f10 (APIKeyQuotaCost c),
              fmt_f10 (APIKeyRateLimitCost c), fmt_f10 (AccountQuotaCost c)];
           payloadHash = trim_space (RequestPayloadHash c)
       in sha (if payloadHash \<noteq> '''' then raw @ ''|'' @ payloadHash else raw))"

definition HashUsageRequestPayload :: "(string \<Rightarrow> string) \<Rightarrow> string \<Rightarrow> string" where
  "HashUsageRequestPayload sha payload = (if payload = [] then '''' else sha payload)"

definition UsageBillingMonetaryScale :: nat where
  "UsageBillingMonetaryScale = 8"

definition QuantizeUsageBillingAmount :: "decimal \<Rightarrow> decimal" where
  "QuantizeUsageBillingAmount v =
     (if v = 0 then v else round_half_away UsageBillingMonetaryScale v)"

definition quantizeMonetaryFields :: "UsageBillingCommand \<Rightarrow> UsageBillingCommand" where
  "quantizeMonetaryFields c =
     c\<lparr>BalanceCost := QuantizeUsageBillingAmount (BalanceCost c),
       SubscriptionCost := QuantizeUsageBillingAmount (SubscriptionCost c),
       APIKeyQuotaCost := QuantizeUsageBillingAmount (APIKeyQuotaCost c),
       APIKeyRateLimitCost := QuantizeUsageBillingAmount (APIKeyRateLimitCost c),
       AccountQuotaCost := QuantizeUsageBillingAmount (AccountQuotaCost c)\<rparr>"

definition Normalize :: "(string \<Rightarrow> string) \<Rightarrow> UsageBillingCommand \<Rightarrow> UsageBillingCommand" where
  "Normalize sha c =
     (let c1 = c\<lparr>RequestID := trim_space (RequestID c)\<rparr>;
          c2 = (if trim_space (RequestFingerprint c1) = ''''
                then c1\<lparr>RequestFingerprint := buildUsageBillingFingerprint sha (Some c1)\<rparr> else c1)
      in quantizeMonetaryFields c2)"

definition buildBatchImageBalanceHoldFingerprint ::
  "(string \<Rightarrow> string) \<Rightarrow> BatchImageBalanceHoldCommand option \<Rightarrow> string" where
  "buildBatchImageBalanceHoldFingerprint sha c0 =
     (case c0 of None \<Rightarrow> '''' | Some c \<Rightarrow>
       let raw = join ''|''
             [itoa (h_UserID c), itoa (h_APIKeyID c), trim_space (h_BatchID c),
              fmt_f10 (h_HoldAmount c), fmt_f10 (h_ActualAmount c)];
           payloadHash = trim_space (h_RequestPayloadHash c)
       in sha (if payloadHash \<noteq> '''' then raw @ ''|'' @ payloadHash else raw))"

definition NormalizeHold ::
  "(string \<Rightarrow> string) \<Rightarrow> BatchImageBalanceHoldCommand \<Rightarrow> BatchImageBalanceHoldCommand" where
  "NormalizeHold sha c =
     (let c1 = c\<lparr>h_RequestID := trim_space (h_RequestID c), h_BatchID := trim_space (h_BatchID c)\<rparr>
      in if trim_space (h_RequestFingerprint c1) = ''''
         then c1\<lparr>h_RequestFingerprint := buildBatchImageBalanceHoldFingerprint sha (Some c1)\<rparr>
         else c1)"

section \<open>Quantisation\<close>

lemma quantize_on_scale [simp]: "on_scale 8 (QuantizeUsageBillingAmount v)"
  by (simp add: QuantizeUsageBillingAmount_def UsageBillingMonetaryScale_def)

lemma quantize_idem [simp]:
  "QuantizeUsageBillingAmount (QuantizeUsageBillingAmount v) = QuantizeUsageBillingAmount v"
  using round_on_scale [OF quantize_on_scale [of v]]
  by (auto simp: QuantizeUsageBillingAmount_def UsageBillingMonetaryScale_def)

lemma quantize_nonneg: "0 \<le> v \<Longrightarrow> 0 \<le> QuantizeUsageBillingAmount v"
  by (simp add: QuantizeUsageBillingAmount_def round_half_away_nonneg)

lemma Normalize_fields [simp]:
  "RequestID (Normalize sha c) = trim_space (RequestID c)"
  "APIKeyID (Normalize sha c) = APIKeyID c"
  "UserID (Normalize sha c) = UserID c"
  "AccountID (Normalize sha c) = AccountID c"
  "SubscriptionID (Normalize sha c) = SubscriptionID c"
  "AccountType (Normalize sha c) = AccountType c"
  "BalanceCost (Normalize sha c) = QuantizeUsageBillingAmount (BalanceCost c)"
  "SubscriptionCost (Normalize sha c) = QuantizeUsageBillingAmount (SubscriptionCost c)"
  "APIKeyQuotaCost (Normalize sha c) = QuantizeUsageBillingAmount (APIKeyQuotaCost c)"
  "APIKeyRateLimitCost (Normalize sha c) = QuantizeUsageBillingAmount (APIKeyRateLimitCost c)"
  "AccountQuotaCost (Normalize sha c) = QuantizeUsageBillingAmount (AccountQuotaCost c)"
  by (simp_all add: Normalize_def quantizeMonetaryFields_def Let_def)

lemma NormalizeHold_fields [simp]:
  "h_RequestID (NormalizeHold sha c) = trim_space (h_RequestID c)"
  "h_BatchID (NormalizeHold sha c) = trim_space (h_BatchID c)"
  "h_APIKeyID (NormalizeHold sha c) = h_APIKeyID c"
  "h_UserID (NormalizeHold sha c) = h_UserID c"
  "h_HoldAmount (NormalizeHold sha c) = h_HoldAmount c"
  "h_ActualAmount (NormalizeHold sha c) = h_ActualAmount c"
  by (simp_all add: NormalizeHold_def Let_def)

section \<open>A small database\<close>

text \<open>The examples of the billing theories start from these tables, in UTC, with no failing
  statement.\<close>

definition sample_env :: billing_env where
  "sample_env =
     \<lparr>env_now = 63000000000 * second_ns, env_fails = (\<lambda>_. False), env_begin_sqlstate = '''',
      env_repo_nil = False, env_session_tz = ''UTC'', env_local = (\<lambda>tz t. t),
      env_instant = (\<lambda>tz w. w), env_sha256 = (\<lambda>s. ''digest'')\<rparr>"

definition sample_user :: user_row where
  "sample_user = \<lparr>u_balance = 10, u_frozen_balance = 0, u_updated_at = 0, u_deleted = False\<rparr>"

definition sample_key :: api_key_row where
  "sample_key =
     \<lparr>k_status = ''active'', k_quota = 5, k_quota_used = 3, k_usage_5h = 0, k_usage_1d = 0,
      k_usage_7d = 0, k_window_5h_start = None, k_window_1d_start = None,
      k_window_7d_start = None, k_updated_at = 0, k_deleted = False\<rparr>"

definition sample_period :: quota_period where
  "sample_period =
     \<lparr>q_limit = None, q_used = None, q_reset_mode = Some ''fixed'', q_start = None,
      q_reset_at = None, q_reset_hour = Some 9, q_reset_day = Some 5\<rparr>"

definition sample_account :: account_row where
  "sample_account =
     \<lparr>a_quota_used = Some 8, a_quota_limit = Some 10, a_daily = sample_period,
      a_weekly = sample_period, a_reset_timezone = None, a_updated_at = 0, a_deleted = False\<rparr>"

definition sample_db :: billing_db where
  "sample_db =
     \<lparr>users = [1 \<mapsto> sample_user], api_keys = [7 \<mapsto> sample_key], subscriptions = Map.empty,
      groups = Map.empty, accounts = [4 \<mapsto> sample_account], dedup = Map.empty,
      dedup_archive = Map.empty, scheduler_outbox = []\<rparr>"

definition sample_cmd :: UsageBillingCommand where
  "sample_cmd =
     \<lparr>RequestID = ''req-1 '', APIKeyID = 7, RequestFingerprint = ''fp'', RequestPayloadHash = '''',
      UserID = 1, AccountID = 4, SubscriptionID = None, AccountType = ''apikey'', Model = ''m'',
      ServiceTier = '''', ReasoningEffort = '''', BillingType = 0, InputTokens = 10,
      OutputTokens = 5, CacheCreationTokens = 0, CacheReadTokens = 0, ImageCount = 0,
      MediaType = '''', BalanceCost = 2, SubscriptionCost = 0, APIKeyQuotaCost = 2,
      APIKeyRateLimitCost = 0, AccountQuotaCost = 3\<rparr>"

lemma sample_rows [simp]:
  "users sample_db 1 = Some sample_user" "api_keys sample_db 7 = Some sample_key"
  "accounts sample_db 4 = Some sample_account"
  by (simp_all add: sample_db_def)

end
