(* ===== verification/UsageBilling.thy ===== *)
theory UsageBilling
  imports BillingTables
begin

text \<open>
  The billing transaction \<open>usageBillingRepository.Apply\<close> of
  \<open>backend/internal/repository/usage_billing_repo.go\<close>: the deduplication claim, the five
  effects in the code's order, and the account-quota window arithmetic whose SQL expressions are
  constants of \<open>account_repo.go\<close>.  A statement maps the transaction's tables to new ones or
  fails; a transaction that fails, or that finds its key taken, leaves the tables it started from.
  Transactions that touch the same key are serialised by the unique index, so the model runs them
  one after the other.
\<close>

section \<open>The claim\<close>

definition claimUsageBillingRequest ::
  "billing_env \<Rightarrow> string \<Rightarrow> int \<Rightarrow> string \<Rightarrow> billing_db \<Rightarrow> billing_error + (bool \<times> billing_db)" where
  "claimUsageBillingRequest env requestID apiKeyID fingerprint db =
     run_stmt env InsertDedup
       (case dedup db (requestID, apiKeyID) of
          Some _ \<Rightarrow>
            run_stmt env SelectDedup
              (case dedup db (requestID, apiKeyID) of
                 None \<Rightarrow> Inl (SqlError SelectDedup)
               | Some existing \<Rightarrow>
                   if trim_space existing \<noteq> trim_space fingerprint
                   then Inl ErrUsageBillingRequestConflict else Inr (False, db))
        | None \<Rightarrow>
            let db1 = db\<lparr>dedup := (dedup db)((requestID, apiKeyID) \<mapsto> fingerprint)\<rparr>
            in run_stmt env SelectArchive
                 (case dedup_archive db1 (requestID, apiKeyID) of
                    Some archived \<Rightarrow>
                      if trim_space archived \<noteq> trim_space fingerprint
                      then Inl ErrUsageBillingRequestConflict else Inr (False, db1)
                  | None \<Rightarrow> Inr (True, db1)))"

section \<open>Effects on users, subscriptions and API keys\<close>

definition incrementUsageBillingSubscription ::
  "billing_env \<Rightarrow> int \<Rightarrow> decimal \<Rightarrow> billing_db \<Rightarrow> billing_error + billing_db" where
  "incrementUsageBillingSubscription env subscriptionID costUSD db =
     run_stmt env UpdateSubscription
       (case subscriptions db subscriptionID of
          None \<Rightarrow> Inl ErrSubscriptionNotFound
        | Some us \<Rightarrow>
            if \<not> s_deleted us \<and> groups db (s_group_id us) = Some False
            then Inr (db\<lparr>subscriptions := (subscriptions db)(subscriptionID \<mapsto>
                   us\<lparr>s_daily_usage := round_half_away 10 (s_daily_usage us + costUSD),
                      s_weekly_usage := round_half_away 10 (s_weekly_usage us + costUSD),
                      s_monthly_usage := round_half_away 10 (s_monthly_usage us + costUSD),
                      s_updated_at := env_now env\<rparr>)\<rparr>)
            else Inl ErrSubscriptionNotFound)"

definition deductUsageBillingBalance ::
  "billing_env \<Rightarrow> int \<Rightarrow> decimal \<Rightarrow> billing_db
     \<Rightarrow> billing_error + (decimal \<times> bool \<times> billing_db)" where
  "deductUsageBillingBalance env userID amount db =
     run_stmt env DeductGuarded
       (let deducted = (\<lambda>u. u\<lparr>u_balance := round_half_away 8 (u_balance u - amount),
                             u_updated_at := env_now env\<rparr>)
        in case users db userID of
             None \<Rightarrow> run_stmt env DeductOverdraft (Inl ErrUserNotFound)
           | Some u \<Rightarrow>
               if \<not> u_deleted u \<and> u_balance u \<ge> amount
               then Inr (u_balance (deducted u), True,
                         db\<lparr>users := (users db)(userID \<mapsto> deducted u)\<rparr>)
               else run_stmt env DeductOverdraft
                      (if u_deleted u then Inl ErrUserNotFound
                       else Inr (u_balance (deducted u), False,
                                 db\<lparr>users := (users db)(userID \<mapsto> deducted u)\<rparr>)))"

definition StatusAPIKeyActive :: string where
  "StatusAPIKeyActive = ''active''"

definition StatusAPIKeyQuotaExhausted :: string where
  "StatusAPIKeyQuotaExhausted = ''quota_exhausted''"

text \<open>\<open>RETURNING\<close> reads the updated row, the assignments the old one.\<close>

definition incrementUsageBillingAPIKeyQuota ::
  "billing_env \<Rightarrow> int \<Rightarrow> decimal \<Rightarrow> billing_db \<Rightarrow> billing_error + (bool \<times> billing_db)" where
  "incrementUsageBillingAPIKeyQuota env apiKeyID amount db =
     run_stmt env UpdateKeyQuota
       (case api_keys db apiKeyID of
          None \<Rightarrow> Inl ErrAPIKeyNotFound
        | Some k \<Rightarrow>
            if k_deleted k then Inl ErrAPIKeyNotFound
            else
              let k1 = k\<lparr>k_quota_used := round_half_away 8 (k_quota_used k + amount),
                         k_status :=
                           (if k_quota k > 0 \<and> k_status k = StatusAPIKeyActive
                               \<and> k_quota_used k < k_quota k \<and> k_quota_used k + amount \<ge> k_quota k
                            then StatusAPIKeyQuotaExhausted else k_status k),
                         k_updated_at := env_now env\<rparr>
              in Inr (k_quota k1 > 0 \<and> k_quota_used k1 \<ge> k_quota k1
                        \<and> k_quota_used k1 - amount < k_quota k1,
                      db\<lparr>api_keys := (api_keys db)(apiKeyID \<mapsto> k1)\<rparr>))"

text \<open>\<open>date_trunc('day', ts)\<close> on an instant truncates the wall clock of the session's time
  zone.\<close>

definition day_ns :: duration where
  [go_simps]: "day_ns = 24 * hour_ns"

definition trunc_day :: "go_time \<Rightarrow> go_time" where
  "trunc_day w = w - w mod day_ns"

definition session_trunc_day :: "billing_env \<Rightarrow> go_time \<Rightarrow> go_time" where
  "session_trunc_day env t =
     env_instant env (env_session_tz env) (trunc_day (env_local env (env_session_tz env) t))"

text \<open>\<open>ts + INTERVAL 'n days'\<close> moves the wall clock, \<open>ts + INTERVAL 'n hours'\<close> the instant.\<close>

definition add_hours :: "int \<Rightarrow> go_time \<Rightarrow> go_time" where
  "add_hours n t = t + n * hour_ns"

definition add_days :: "billing_env \<Rightarrow> int \<Rightarrow> go_time \<Rightarrow> go_time" where
  "add_days env n t =
     env_instant env (env_session_tz env) (env_local env (env_session_tz env) t + n * day_ns)"

definition window_elapsed :: "billing_env \<Rightarrow> (go_time \<Rightarrow> go_time) \<Rightarrow> go_time option \<Rightarrow> bool" where
  "window_elapsed env window_end start =
     (case start of None \<Rightarrow> False | Some t \<Rightarrow> window_end t \<le> env_now env)"

definition incrementUsageBillingAPIKeyRateLimit ::
  "billing_env \<Rightarrow> int \<Rightarrow> decimal \<Rightarrow> billing_db \<Rightarrow> billing_error + billing_db" where
  "incrementUsageBillingAPIKeyRateLimit env apiKeyID cost db =
     run_stmt env UpdateKeyRateLimit
       (case api_keys db apiKeyID of
          None \<Rightarrow> Inl ErrAPIKeyNotFound
        | Some k \<Rightarrow>
            if k_deleted k then Inl ErrAPIKeyNotFound
            else
              let e5 = window_elapsed env (add_hours 5) (k_window_5h_start k);
                  e1 = window_elapsed env (add_hours 24) (k_window_1d_start k);
                  e7 = window_elapsed env (add_days env 7) (k_window_7d_start k);
                  day = session_trunc_day env (env_now env)
              in Inr (db\<lparr>api_keys := (api_keys db)(apiKeyID \<mapsto>
                   k\<lparr>k_usage_5h := round_half_away 8 (if e5 then cost else k_usage_5h k + cost),
                     k_usage_1d := round_half_away 8 (if e1 then cost else k_usage_1d k + cost),
                     k_usage_7d := round_half_away 8 (if e7 then cost else k_usage_7d k + cost),
                     k_window_5h_start :=
                       (if k_window_5h_start k = None \<or> e5 then Some (env_now env)
                        else k_window_5h_start k),
                     k_window_1d_start :=
                       (if k_window_1d_start k = None \<or> e1 then Some day else k_window_1d_start k),
                     k_window_7d_start :=
                       (if k_window_7d_start k = None \<or> e7 then Some day else k_window_7d_start k),
                     k_updated_at := env_now env\<rparr>)\<rparr>))"

section \<open>Account quotas\<close>

definition coalesce :: "'a option \<Rightarrow> 'a \<Rightarrow> 'a" where
  [go_simps]: "coalesce x d = (case x of None \<Rightarrow> d | Some y \<Rightarrow> y)"

text \<open>\<open>'1970-01-01'::timestamptz\<close>, midnight in the session's time zone.\<close>

definition epoch_1970 :: "billing_env \<Rightarrow> go_time" where
  "epoch_1970 env = env_instant env (env_session_tz env) (62135596800 * second_ns)"

definition fixed_mode :: "quota_period \<Rightarrow> bool" where
  "fixed_mode q \<longleftrightarrow> coalesce (q_reset_mode q) ''rolling'' = ''fixed''"

definition periodExpired :: "billing_env \<Rightarrow> duration \<Rightarrow> quota_period \<Rightarrow> bool" where
  "periodExpired env len q =
     (if fixed_mode q then env_now env \<ge> coalesce (q_reset_at q) (epoch_1970 env)
      else coalesce (q_start q) (epoch_1970 env) + len \<le> env_now env)"

definition dailyExpiredExpr :: "billing_env \<Rightarrow> quota_period \<Rightarrow> bool" where
  "dailyExpiredExpr env q = periodExpired env (24 * hour_ns) q"

definition weeklyExpiredExpr :: "billing_env \<Rightarrow> quota_period \<Rightarrow> bool" where
  "weeklyExpiredExpr env q = periodExpired env (168 * hour_ns) q"

text \<open>\<open>to_char\<close> with a format that stops at seconds drops the fraction.\<close>

definition to_seconds :: "go_time \<Rightarrow> go_time" where
  "to_seconds t = t - t mod second_ns"

text \<open>The wall-clock moment of today's reset in the account's time zone.\<close>

definition reset_wall :: "billing_env \<Rightarrow> string \<Rightarrow> quota_period \<Rightarrow> go_time" where
  "reset_wall env tz q =
     trunc_day (env_local env tz (env_now env)) + coalesce (q_reset_hour q) 0 * hour_ns"

definition nextDailyResetAtExpr :: "billing_env \<Rightarrow> string option \<Rightarrow> quota_period \<Rightarrow> go_time option" where
  "nextDailyResetAtExpr env tz0 q =
     (if fixed_mode q then
        let tz = coalesce tz0 ''UTC'' in
        Some (to_seconds
          (if env_now env \<ge> env_instant env tz (reset_wall env tz q)
           then env_instant env tz (reset_wall env tz q + day_ns)
           else env_instant env tz (reset_wall env tz q)))
      else None)"

text \<open>\<open>EXTRACT(DOW)\<close> counts from Sunday; Go's zero time is a Monday.\<close>

definition day_of_week :: "go_time \<Rightarrow> int" where
  "day_of_week w = (w div day_ns + 1) mod 7"

text \<open>SQL's \<open>%\<close> truncates towards zero.\<close>

definition sql_mod :: "int \<Rightarrow> int \<Rightarrow> int" where
  "sql_mod a b = (if a < 0 then - ((- a) mod b) else a mod b)"

definition days_forward :: "billing_env \<Rightarrow> string \<Rightarrow> quota_period \<Rightarrow> int" where
  "days_forward env tz q =
     sql_mod (coalesce (q_reset_day q) 1 - day_of_week (env_local env tz (env_now env)) + 7) 7"

definition nextWeeklyResetAtExpr :: "billing_env \<Rightarrow> string option \<Rightarrow> quota_period \<Rightarrow> go_time option" where
  "nextWeeklyResetAtExpr env tz0 q =
     (if fixed_mode q then
        let tz = coalesce tz0 ''UTC'' in
        Some (to_seconds
          (if days_forward env tz q = 0 \<and> env_now env \<ge> env_instant env tz (reset_wall env tz q)
           then env_instant env tz (reset_wall env tz q + 7 * day_ns)
           else env_instant env tz (reset_wall env tz q + days_forward env tz q * day_ns)))
      else None)"

text \<open>One period's part of the JSON update; a period without a positive limit is left alone.\<close>

definition bump_period ::
  "billing_env \<Rightarrow> decimal \<Rightarrow> bool \<Rightarrow> go_time option \<Rightarrow> quota_period \<Rightarrow> quota_period" where
  "bump_period env amount expired nextReset q =
     (if coalesce (q_limit q) 0 > 0 then
        let q1 = q\<lparr>q_used := Some (if expired then amount else coalesce (q_used q) 0 + amount),
                   q_start := Some (if expired then env_now env else coalesce (q_start q) (env_now env))\<rparr>
        in if expired \<and> nextReset \<noteq> None then q1\<lparr>q_reset_at := nextReset\<rparr> else q1
      else q)"

record AccountQuotaState =
  TotalUsed :: decimal
  TotalLimit :: decimal
  DailyUsed :: decimal
  DailyLimit :: decimal
  WeeklyUsed :: decimal
  WeeklyLimit :: decimal

definition quota_state :: "account_row \<Rightarrow> AccountQuotaState" where
  "quota_state a =
     \<lparr>TotalUsed = coalesce (a_quota_used a) 0, TotalLimit = coalesce (a_quota_limit a) 0,
      DailyUsed = coalesce (q_used (a_daily a)) 0, DailyLimit = coalesce (q_limit (a_daily a)) 0,
      WeeklyUsed = coalesce (q_used (a_weekly a)) 0, WeeklyLimit = coalesce (q_limit (a_weekly a)) 0\<rparr>"

text \<open>The crossing test is Go code on \<open>float64\<close> values.\<close>

definition crossed :: "decimal \<Rightarrow> decimal \<Rightarrow> decimal \<Rightarrow> bool" where
  "crossed used limit amount \<longleftrightarrow>
     f64 limit > 0 \<and> f64 used \<ge> f64 limit \<and> f64 (f64 used - f64 amount) < f64 limit"

definition SchedulerOutboxEventAccountChanged :: string where
  "SchedulerOutboxEventAccountChanged = ''account_changed''"

definition schedulerOutboxEventSupportsDedup :: "string \<Rightarrow> bool" where
  "schedulerOutboxEventSupportsDedup eventType \<longleftrightarrow>
     eventType \<in> {SchedulerOutboxEventAccountChanged, ''group_changed'', ''full_rebuild''}"

definition schedulerOutboxDedupKey ::
  "(string \<Rightarrow> string) \<Rightarrow> string \<Rightarrow> int option \<Rightarrow> int option \<Rightarrow> string \<Rightarrow> string" where
  "schedulerOutboxDedupKey sha eventType accountID groupID payloadJSON =
     ''scheduler_outbox:''
     @ sha (eventType @ [CHR 0x00]
            @ (case accountID of None \<Rightarrow> '''' | Some i \<Rightarrow> itoa i) @ [CHR 0x00]
            @ (case groupID of None \<Rightarrow> '''' | Some i \<Rightarrow> itoa i) @ [CHR 0x00]
            @ payloadJSON)"

text \<open>\<open>payload\<close> is the marshalled JSON; \<open>ON CONFLICT (dedup_key) DO NOTHING\<close>.\<close>

definition enqueueSchedulerOutbox ::
  "billing_env \<Rightarrow> string \<Rightarrow> int option \<Rightarrow> int option \<Rightarrow> string option \<Rightarrow> billing_db
     \<Rightarrow> billing_error + billing_db" where
  "enqueueSchedulerOutbox env eventType accountID groupID payload db =
     run_stmt env InsertOutbox
       (let key = (if schedulerOutboxEventSupportsDedup eventType
                   then Some (schedulerOutboxDedupKey (env_sha256 env) eventType accountID groupID
                                (coalesce payload ''''))
                   else None);
            row = \<lparr>o_event_type = eventType, o_account_id = accountID, o_group_id = groupID,
                   o_payload = payload, o_dedup_key = key\<rparr>
        in if key \<noteq> None \<and> key \<in> o_dedup_key ` set (scheduler_outbox db) then Inr db
           else Inr (db\<lparr>scheduler_outbox := scheduler_outbox db @ [row]\<rparr>))"

definition bump_account :: "billing_env \<Rightarrow> decimal \<Rightarrow> account_row \<Rightarrow> account_row" where
  "bump_account env amount a =
     a\<lparr>a_quota_used := Some (coalesce (a_quota_used a) 0 + amount),
       a_daily := bump_period env amount (dailyExpiredExpr env (a_daily a))
                    (nextDailyResetAtExpr env (a_reset_timezone a) (a_daily a)) (a_daily a),
       a_weekly := bump_period env amount (weeklyExpiredExpr env (a_weekly a))
                    (nextWeeklyResetAtExpr env (a_reset_timezone a) (a_weekly a)) (a_weekly a),
       a_updated_at := env_now env\<rparr>"

definition incrementUsageBillingAccountQuota ::
  "billing_env \<Rightarrow> int \<Rightarrow> decimal \<Rightarrow> billing_db \<Rightarrow> billing_error + (AccountQuotaState \<times> billing_db)" where
  "incrementUsageBillingAccountQuota env accountID amount db =
     run_stmt env UpdateAccountQuota
       (case accounts db accountID of
          None \<Rightarrow> Inl ErrAccountNotFound
        | Some a \<Rightarrow>
            if a_deleted a then Inl ErrAccountNotFound
            else
              let a1 = bump_account env amount a;
                  db1 = db\<lparr>accounts := (accounts db)(accountID \<mapsto> a1)\<rparr>;
                  st = quota_state a1
              in if crossed (TotalUsed st) (TotalLimit st) amount
                    \<or> crossed (DailyUsed st) (DailyLimit st) amount
                    \<or> crossed (WeeklyUsed st) (WeeklyLimit st) amount
                 then (case enqueueSchedulerOutbox env SchedulerOutboxEventAccountChanged
                              (Some accountID) None None db1 of
                         Inl e \<Rightarrow> Inl e
                       | Inr db2 \<Rightarrow> Inr (st, db2))
                 else Inr (st, db1))"

section \<open>The transaction\<close>

record UsageBillingApplyResult =
  Applied :: bool
  APIKeyQuotaExhausted :: bool
  NewBalance :: "decimal option"
  BalanceOverdrafted :: bool
  QuotaState :: "AccountQuotaState option"

definition empty_result :: UsageBillingApplyResult where
  "empty_result = \<lparr>Applied = False, APIKeyQuotaExhausted = False, NewBalance = None,
     BalanceOverdrafted = False, QuotaState = None\<rparr>"

definition AccountTypeAPIKey :: string where
  "AccountTypeAPIKey = ''apikey''"

definition AccountTypeBedrock :: string where
  "AccountTypeBedrock = ''bedrock''"

text \<open>The five effects of \<open>applyUsageBillingEffects\<close>, each behind its guard.\<close>

definition subscription_effect ::
  "billing_env \<Rightarrow> UsageBillingCommand \<Rightarrow> billing_db \<Rightarrow> billing_error + billing_db" where
  "subscription_effect env cmd db =
     (case SubscriptionID cmd of
        None \<Rightarrow> Inr db
      | Some sid \<Rightarrow>
          if SubscriptionCost cmd > 0
          then incrementUsageBillingSubscription env sid (SubscriptionCost cmd) db else Inr db)"

definition balance_effect ::
  "billing_env \<Rightarrow> UsageBillingCommand \<Rightarrow> UsageBillingApplyResult \<times> billing_db
     \<Rightarrow> billing_error + (UsageBillingApplyResult \<times> billing_db)" where
  "balance_effect env cmd = (\<lambda>(result, db).
     if BalanceCost cmd > 0
     then (case deductUsageBillingBalance env (UserID cmd) (BalanceCost cmd) db of
             Inl e \<Rightarrow> Inl e
           | Inr (newBalance, sufficient, db1) \<Rightarrow>
               Inr (result\<lparr>NewBalance := Some newBalance, BalanceOverdrafted := \<not> sufficient\<rparr>, db1))
     else Inr (result, db))"

definition key_quota_effect ::
  "billing_env \<Rightarrow> UsageBillingCommand \<Rightarrow> UsageBillingApplyResult \<times> billing_db
     \<Rightarrow> billing_error + (UsageBillingApplyResult \<times> billing_db)" where
  "key_quota_effect env cmd = (\<lambda>(result, db).
     if APIKeyQuotaCost cmd > 0
     then (case incrementUsageBillingAPIKeyQuota env (APIKeyID cmd) (APIKeyQuotaCost cmd) db of
             Inl e \<Rightarrow> Inl e
           | Inr (exhausted, db1) \<Rightarrow> Inr (result\<lparr>APIKeyQuotaExhausted := exhausted\<rparr>, db1))
     else Inr (result, db))"

definition key_rate_effect ::
  "billing_env \<Rightarrow> UsageBillingCommand \<Rightarrow> UsageBillingApplyResult \<times> billing_db
     \<Rightarrow> billing_error + (UsageBillingApplyResult \<times> billing_db)" where
  "key_rate_effect env cmd = (\<lambda>(result, db).
     if APIKeyRateLimitCost cmd > 0
     then (case incrementUsageBillingAPIKeyRateLimit env (APIKeyID cmd) (APIKeyRateLimitCost cmd) db of
             Inl e \<Rightarrow> Inl e
           | Inr db1 \<Rightarrow> Inr (result, db1))
     else Inr (result, db))"

definition account_quota_effect ::
  "billing_env \<Rightarrow> UsageBillingCommand \<Rightarrow> UsageBillingApplyResult \<times> billing_db
     \<Rightarrow> billing_error + (UsageBillingApplyResult \<times> billing_db)" where
  "account_quota_effect env cmd = (\<lambda>(result, db).
     if AccountQuotaCost cmd > 0
        \<and> (equal_fold (AccountType cmd) AccountTypeAPIKey \<or> equal_fold (AccountType cmd) AccountTypeBedrock)
     then (case incrementUsageBillingAccountQuota env (AccountID cmd) (AccountQuotaCost cmd) db of
             Inl e \<Rightarrow> Inl e
           | Inr (st, db1) \<Rightarrow> Inr (result\<lparr>QuotaState := Some st\<rparr>, db1))
     else Inr (result, db))"

definition and_then :: "'e + 'a \<Rightarrow> ('a \<Rightarrow> 'e + 'b) \<Rightarrow> 'e + 'b" where
  "and_then r f = (case r of Inl e \<Rightarrow> Inl e | Inr x \<Rightarrow> f x)"

definition applyUsageBillingEffects ::
  "billing_env \<Rightarrow> UsageBillingCommand \<Rightarrow> UsageBillingApplyResult \<Rightarrow> billing_db
     \<Rightarrow> billing_error + (UsageBillingApplyResult \<times> billing_db)" where
  "applyUsageBillingEffects env cmd result db =
     and_then (subscription_effect env cmd db) (\<lambda>db1.
     and_then (balance_effect env cmd (result, db1)) (\<lambda>s2.
     and_then (key_quota_effect env cmd s2) (\<lambda>s3.
     and_then (key_rate_effect env cmd s3) (\<lambda>s4.
     account_quota_effect env cmd s4))))"

text \<open>
  Begin, claim, work and commit, with the deferred rollback: only a commit changes the tables.
  The first component of what \<open>body\<close> returns tells whether there is something to commit.  A COMMIT
  that fails is modelled as a rollback: that it took effect and only its acknowledgement was lost is
  not modelled.
\<close>

definition in_transaction ::
  "billing_env \<Rightarrow> billing_error \<Rightarrow> (billing_db \<Rightarrow> billing_error + (bool \<times> 'r \<times> billing_db)) \<Rightarrow> billing_db
     \<Rightarrow> (billing_error + 'r) \<times> billing_db" where
  "in_transaction env begin_error body db =
     (if env_fails env BeginTx then (Inl begin_error, db)
      else case body db of
             Inl e \<Rightarrow> (Inl e, db)
           | Inr (commit, r, db1) \<Rightarrow>
               if \<not> commit then (Inr r, db)
               else if env_fails env CommitTx then (Inl (SqlError CommitTx), db)
               else (Inr r, db1))"

text \<open>The work of a transaction runs only when its claim is the first.\<close>

definition claim_then ::
  "billing_env \<Rightarrow> string \<Rightarrow> int \<Rightarrow> string \<Rightarrow> 'r \<Rightarrow> (billing_db \<Rightarrow> billing_error + ('r \<times> billing_db))
     \<Rightarrow> billing_db \<Rightarrow> billing_error + (bool \<times> 'r \<times> billing_db)" where
  "claim_then env rid kid fp skipped work db =
     and_then (claimUsageBillingRequest env rid kid fp db)
       (\<lambda>(applied, db1).
          if \<not> applied then Inr (False, skipped, db1)
          else and_then (work db1) (\<lambda>(result, db2). Inr (True, result, db2)))"

definition Apply ::
  "billing_env \<Rightarrow> UsageBillingCommand option \<Rightarrow> billing_db
     \<Rightarrow> (billing_error + UsageBillingApplyResult) \<times> billing_db" where
  "Apply env cmd0 db =
     (case cmd0 of
        None \<Rightarrow> (Inr empty_result, db)
      | Some c \<Rightarrow>
          if env_repo_nil env then (Inl RepositoryNil, db)
          else
            let cmd = Normalize (env_sha256 env) c in
            if RequestID cmd = '''' then (Inl ErrUsageBillingRequestIDRequired, db)
            else in_transaction env
                   (if env_begin_sqlstate env = ''0A000'' then ErrUsageBillingPrimaryUnavailable
                    else SqlError BeginTx)
                   (claim_then env (RequestID cmd) (APIKeyID cmd) (RequestFingerprint cmd) empty_result
                      (applyUsageBillingEffects env cmd (empty_result\<lparr>Applied := True\<rparr>)))
                   db)"

section \<open>What each step keeps\<close>

lemma and_then_Inr: "and_then r f = Inr y \<longleftrightarrow> (\<exists>x. r = Inr x \<and> f x = Inr y)"
  by (cases r) (simp_all add: and_then_def)

lemma and_then_simps [simp]: "and_then (Inl e) f = Inl e" "and_then (Inr x) f = f x"
  by (simp_all add: and_then_def)

lemma subscription_effect_frame:
  "subscription_effect env cmd db = Inr db' \<Longrightarrow>
     users db' = users db \<and> api_keys db' = api_keys db \<and> accounts db' = accounts db
     \<and> dedup db' = dedup db \<and> dedup_archive db' = dedup_archive db
     \<and> scheduler_outbox db' = scheduler_outbox db"
  by (auto simp: subscription_effect_def incrementUsageBillingSubscription_def run_stmt_def
      split: option.splits if_splits)

lemma deduct_frame:
  "deductUsageBillingBalance env uid amount db = Inr (nb, ok, db') \<Longrightarrow>
     api_keys db' = api_keys db \<and> accounts db' = accounts db
     \<and> subscriptions db' = subscriptions db \<and> dedup db' = dedup db
     \<and> dedup_archive db' = dedup_archive db \<and> scheduler_outbox db' = scheduler_outbox db
     \<and> (\<forall>v. v \<noteq> uid \<longrightarrow> users db' v = users db v)"
  by (auto simp: deductUsageBillingBalance_def run_stmt_def Let_def
      split: option.splits if_splits)

lemma deduct_user:
  "deductUsageBillingBalance env uid amount db = Inr (nb, ok, db') \<Longrightarrow>
     \<exists>u. users db uid = Some u \<and> \<not> u_deleted u
       \<and> users db' uid = Some (u\<lparr>u_balance := round_half_away 8 (u_balance u - amount),
                                  u_updated_at := env_now env\<rparr>)
       \<and> nb = round_half_away 8 (u_balance u - amount) \<and> (ok \<longleftrightarrow> amount \<le> u_balance u)"
  by (auto simp: deductUsageBillingBalance_def run_stmt_def Let_def
      split: option.splits if_splits)

lemma balance_effect_frame:
  assumes "balance_effect env cmd (r, db) = Inr (r', db')"
  shows "api_keys db' = api_keys db \<and> accounts db' = accounts db
     \<and> subscriptions db' = subscriptions db \<and> dedup db' = dedup db
     \<and> dedup_archive db' = dedup_archive db \<and> scheduler_outbox db' = scheduler_outbox db
     \<and> (\<forall>v. v \<noteq> UserID cmd \<longrightarrow> users db' v = users db v)
     \<and> Applied r' = Applied r"
  using assms deduct_frame
  by (fastforce simp: balance_effect_def split: if_splits sum.splits prod.splits)

lemma key_quota_effect_frame:
  assumes "key_quota_effect env cmd (r, db) = Inr (r', db')"
  shows "users db' = users db \<and> accounts db' = accounts db \<and> subscriptions db' = subscriptions db
     \<and> dedup db' = dedup db \<and> dedup_archive db' = dedup_archive db
     \<and> scheduler_outbox db' = scheduler_outbox db
     \<and> (\<forall>v. v \<noteq> APIKeyID cmd \<longrightarrow> api_keys db' v = api_keys db v)
     \<and> Applied r' = Applied r \<and> NewBalance r' = NewBalance r
     \<and> BalanceOverdrafted r' = BalanceOverdrafted r"
  using assms
  by (auto simp: key_quota_effect_def incrementUsageBillingAPIKeyQuota_def run_stmt_def Let_def
      split: if_splits sum.splits option.splits)

lemma key_rate_effect_frame:
  assumes "key_rate_effect env cmd (r, db) = Inr (r', db')"
  shows "users db' = users db \<and> accounts db' = accounts db \<and> subscriptions db' = subscriptions db
     \<and> dedup db' = dedup db \<and> dedup_archive db' = dedup_archive db
     \<and> scheduler_outbox db' = scheduler_outbox db \<and> r' = r
     \<and> (\<forall>v. v \<noteq> APIKeyID cmd \<longrightarrow> api_keys db' v = api_keys db v)
     \<and> (\<forall>v. map_option k_quota_used (api_keys db' v) = map_option k_quota_used (api_keys db v))
     \<and> (\<forall>v. map_option k_status (api_keys db' v) = map_option k_status (api_keys db v))"
  using assms
  by (auto simp: key_rate_effect_def incrementUsageBillingAPIKeyRateLimit_def run_stmt_def Let_def
      split: if_splits sum.splits option.splits)

lemma enqueue_frame:
  "enqueueSchedulerOutbox env t a g p db = Inr db' \<Longrightarrow>
     users db' = users db \<and> api_keys db' = api_keys db \<and> subscriptions db' = subscriptions db
     \<and> accounts db' = accounts db \<and> dedup db' = dedup db \<and> dedup_archive db' = dedup_archive db"
  by (auto simp: enqueueSchedulerOutbox_def run_stmt_def Let_def split: if_splits)

lemma account_quota_increment_frame:
  assumes "incrementUsageBillingAccountQuota env aid amount db = Inr (st, db')"
  shows "users db' = users db \<and> api_keys db' = api_keys db \<and> subscriptions db' = subscriptions db
     \<and> dedup db' = dedup db \<and> dedup_archive db' = dedup_archive db
     \<and> (\<forall>v. v \<noteq> aid \<longrightarrow> accounts db' v = accounts db v)"
  using assms
  by (auto simp: incrementUsageBillingAccountQuota_def run_stmt_def Let_def dest!: enqueue_frame
      split: if_splits sum.splits option.splits)

lemma account_quota_effect_frame:
  assumes "account_quota_effect env cmd (r, db) = Inr (r', db')"
  shows "users db' = users db \<and> api_keys db' = api_keys db \<and> subscriptions db' = subscriptions db
     \<and> dedup db' = dedup db \<and> dedup_archive db' = dedup_archive db
     \<and> Applied r' = Applied r \<and> NewBalance r' = NewBalance r
     \<and> BalanceOverdrafted r' = BalanceOverdrafted r
     \<and> APIKeyQuotaExhausted r' = APIKeyQuotaExhausted r"
  using assms
  by (auto simp: account_quota_effect_def dest!: account_quota_increment_frame
      split: if_splits sum.splits prod.splits)

lemma claim_cases:
  assumes "claimUsageBillingRequest env rid kid fp db = Inr (applied, db')"
  shows "applied \<longleftrightarrow> dedup db (rid, kid) = None \<and> dedup_archive db (rid, kid) = None"
    and "applied \<Longrightarrow> db' = db\<lparr>dedup := (dedup db)((rid, kid) \<mapsto> fp)\<rparr>"
  using assms
  by (auto simp: claimUsageBillingRequest_def run_stmt_def Let_def split: if_splits option.splits)

text \<open>The chain of states of an applied command.\<close>

lemma effects_chain:
  assumes "applyUsageBillingEffects env cmd r db = Inr (r', db')"
  obtains db1 r2 db2 r3 db3 r4 db4 where
    "subscription_effect env cmd db = Inr db1"
    "balance_effect env cmd (r, db1) = Inr (r2, db2)"
    "key_quota_effect env cmd (r2, db2) = Inr (r3, db3)"
    "key_rate_effect env cmd (r3, db3) = Inr (r4, db4)"
    "account_quota_effect env cmd (r4, db4) = Inr (r', db')"
  using assms unfolding applyUsageBillingEffects_def and_then_Inr by (metis surj_pair)

lemma effects_dedup:
  assumes "applyUsageBillingEffects env cmd r db = Inr (r', db')"
  shows "dedup db' = dedup db \<and> dedup_archive db' = dedup_archive db \<and> Applied r' = Applied r"
proof -
  obtain db1 r2 db2 r3 db3 r4 db4 where chain:
    "subscription_effect env cmd db = Inr db1"
    "balance_effect env cmd (r, db1) = Inr (r2, db2)"
    "key_quota_effect env cmd (r2, db2) = Inr (r3, db3)"
    "key_rate_effect env cmd (r3, db3) = Inr (r4, db4)"
    "account_quota_effect env cmd (r4, db4) = Inr (r', db')"
    using assms by (rule effects_chain)
  show ?thesis
    using subscription_effect_frame [OF chain(1)] balance_effect_frame [OF chain(2)]
      key_quota_effect_frame [OF chain(3)] key_rate_effect_frame [OF chain(4)]
      account_quota_effect_frame [OF chain(5)] by simp
qed

text \<open>The body of the transaction: claim, then effects.\<close>

lemma in_transaction_Inr:
  "in_transaction env e body db = (Inr r, db') \<longleftrightarrow>
     \<not> env_fails env BeginTx
     \<and> (\<exists>commit db1. body db = Inr (commit, r, db1)
          \<and> (if commit then \<not> env_fails env CommitTx \<and> db' = db1 else db' = db))"
  by (auto simp: in_transaction_def split: sum.split)

lemma in_transaction_Inl: "in_transaction env e body db = (Inl x, db') \<Longrightarrow> db' = db"
  by (auto simp: in_transaction_def split: sum.splits if_splits)

lemma claim_then_Inr:
  "claim_then env rid kid fp skipped work db = Inr (True, r, db') \<Longrightarrow>
     dedup db (rid, kid) = None \<and> dedup_archive db (rid, kid) = None
     \<and> work (db\<lparr>dedup := (dedup db)((rid, kid) \<mapsto> fp)\<rparr>) = Inr (r, db')"
  by (auto simp: claim_then_def and_then_Inr split: if_splits dest: claim_cases)

lemma claim_then_skipped:
  "claim_then env rid kid fp skipped work db = Inr (False, r, db') \<Longrightarrow> r = skipped"
  by (auto simp: claim_then_def and_then_Inr split: if_splits)

lemma Apply_Applied:
  assumes "Apply env (Some c) db = (Inr r, db')" and "Applied r"
    and "cmd = Normalize (env_sha256 env) c"
  shows "RequestID cmd \<noteq> []
    \<and> dedup db (RequestID cmd, APIKeyID cmd) = None
    \<and> dedup_archive db (RequestID cmd, APIKeyID cmd) = None
    \<and> applyUsageBillingEffects env cmd (empty_result\<lparr>Applied := True\<rparr>)
        (db\<lparr>dedup := (dedup db)((RequestID cmd, APIKeyID cmd) \<mapsto> RequestFingerprint cmd)\<rparr>)
      = Inr (r, db')"
proof -
  define body where "body = claim_then env (RequestID cmd) (APIKeyID cmd) (RequestFingerprint cmd)
    empty_result (applyUsageBillingEffects env cmd (empty_result\<lparr>Applied := True\<rparr>))"
  have nz: "RequestID cmd \<noteq> []"
    using assms(1,3) by (auto simp: Apply_def Let_def split: if_splits)
  have "\<exists>e. in_transaction env e body db = (Inr r, db')"
    using assms(1) nz
    by (auto simp: Apply_def Let_def body_def simp flip: assms(3) split: if_splits)
  then obtain e where "in_transaction env e body db = (Inr r, db')" ..
  then obtain commit db1 where b: "body db = Inr (commit, r, db1)"
    and c: "if commit then db' = db1 else db' = db"
    unfolding in_transaction_Inr by (auto split: if_splits)
  have "commit"
  proof (rule ccontr)
    assume "\<not> commit"
    with b have "r = empty_result" unfolding body_def by (auto dest: claim_then_skipped)
    with assms(2) show False by (simp add: empty_result_def)
  qed
  with b c nz show ?thesis unfolding body_def by (auto dest!: claim_then_Inr)
qed

lemma Apply_outcome:
  assumes "Apply env c db = (out, db')"
  shows "db' = db \<or> (\<exists>r. out = Inr r \<and> Applied r)"
proof (rule ccontr)
  assume neg: "\<not> ?thesis"
  then obtain c' where c: "c = Some c'"
    using assms by (cases c) (auto simp: Apply_def)
  define cmd where "cmd = Normalize (env_sha256 env) c'"
  define body where "body = claim_then env (RequestID cmd) (APIKeyID cmd) (RequestFingerprint cmd)
    empty_result (applyUsageBillingEffects env cmd (empty_result\<lparr>Applied := True\<rparr>))"
  obtain e where t: "in_transaction env e body db = (out, db')"
    using assms neg c
    by (auto simp: Apply_def Let_def body_def simp flip: cmd_def split: if_splits)
  then obtain r where out: "out = Inr r"
    using neg by (cases out) (auto dest: in_transaction_Inl)
  with t neg obtain db1 where "body db = Inr (True, r, db1)"
    unfolding out in_transaction_Inr by (auto split: if_splits)
  then have "Applied r" unfolding body_def by (auto dest!: claim_then_Inr effects_dedup)
  with neg out show False by blast
qed

section \<open>What a charge does\<close>

lemma balance_effect_user:
  assumes "balance_effect env cmd (r, db) = Inr (r', db')" and "BalanceCost cmd > 0"
  shows "\<exists>u. users db (UserID cmd) = Some u \<and> \<not> u_deleted u
    \<and> users db' (UserID cmd) = Some (u\<lparr>u_balance := round_half_away 8 (u_balance u - BalanceCost cmd),
                                         u_updated_at := env_now env\<rparr>)
    \<and> NewBalance r' = Some (round_half_away 8 (u_balance u - BalanceCost cmd))
    \<and> BalanceOverdrafted r' = (u_balance u < BalanceCost cmd)"
proof -
  obtain nb ok where d: "deductUsageBillingBalance env (UserID cmd) (BalanceCost cmd) db = Inr (nb, ok, db')"
    and r: "r' = r\<lparr>NewBalance := Some nb, BalanceOverdrafted := \<not> ok\<rparr>"
    using assms by (auto simp: balance_effect_def split: sum.splits)
  from deduct_user [OF d] r show ?thesis by auto
qed

lemma key_quota_effect_key:
  assumes "key_quota_effect env cmd (r, db) = Inr (r', db')" and "APIKeyQuotaCost cmd > 0"
  shows "\<exists>k. api_keys db (APIKeyID cmd) = Some k \<and> \<not> k_deleted k
    \<and> (\<exists>k'. api_keys db' (APIKeyID cmd) = Some k'
         \<and> k_quota_used k' = round_half_away 8 (k_quota_used k + APIKeyQuotaCost cmd)
         \<and> k_status k' = (if k_quota k > 0 \<and> k_status k = StatusAPIKeyActive
                             \<and> k_quota_used k < k_quota k
                             \<and> k_quota_used k + APIKeyQuotaCost cmd \<ge> k_quota k
                           then StatusAPIKeyQuotaExhausted else k_status k)
         \<and> APIKeyQuotaExhausted r' = (k_quota k > 0 \<and> k_quota_used k' \<ge> k_quota k
                        \<and> k_quota_used k' - APIKeyQuotaCost cmd < k_quota k))"
  using assms
  by (auto simp: key_quota_effect_def incrementUsageBillingAPIKeyQuota_def run_stmt_def Let_def
      split: sum.splits option.splits if_splits)

lemma Apply_user:
  assumes "Apply env (Some c) db = (Inr r, db')" and "Applied r"
    and "QuantizeUsageBillingAmount (BalanceCost c) > 0"
  shows "\<exists>u. users db (UserID c) = Some u \<and> \<not> u_deleted u
    \<and> users db' (UserID c) =
        Some (u\<lparr>u_balance := round_half_away 8 (u_balance u - QuantizeUsageBillingAmount (BalanceCost c)),
                u_updated_at := env_now env\<rparr>)
    \<and> NewBalance r = map_option u_balance (users db' (UserID c))
    \<and> BalanceOverdrafted r = (u_balance u < QuantizeUsageBillingAmount (BalanceCost c))"
proof -
  define cmd where "cmd = Normalize (env_sha256 env) c"
  define db0 where "db0 = db\<lparr>dedup := (dedup db)((RequestID cmd, APIKeyID cmd) \<mapsto> RequestFingerprint cmd)\<rparr>"
  have "applyUsageBillingEffects env cmd (empty_result\<lparr>Applied := True\<rparr>) db0 = Inr (r, db')"
    using Apply_Applied [OF assms(1,2) cmd_def] by (simp add: db0_def)
  then obtain db1 r2 db2 r3 db3 r4 db4 where chain:
    "subscription_effect env cmd db0 = Inr db1"
    "balance_effect env cmd (empty_result\<lparr>Applied := True\<rparr>, db1) = Inr (r2, db2)"
    "key_quota_effect env cmd (r2, db2) = Inr (r3, db3)"
    "key_rate_effect env cmd (r3, db3) = Inr (r4, db4)"
    "account_quota_effect env cmd (r4, db4) = Inr (r, db')"
    by (rule effects_chain)
  have pos: "BalanceCost cmd > 0" using assms(3) by (simp add: cmd_def)
  obtain u where u: "users db1 (UserID cmd) = Some u" "\<not> u_deleted u"
    "users db2 (UserID cmd) = Some (u\<lparr>u_balance := round_half_away 8 (u_balance u - BalanceCost cmd),
       u_updated_at := env_now env\<rparr>)"
    "NewBalance r2 = Some (round_half_away 8 (u_balance u - BalanceCost cmd))"
    "BalanceOverdrafted r2 = (u_balance u < BalanceCost cmd)"
    using balance_effect_user [OF chain(2) pos] by blast
  have before: "users db1 = users db"
    using subscription_effect_frame [OF chain(1)] by (simp add: db0_def)
  have after: "users db' = users db2" "NewBalance r = NewBalance r2"
    "BalanceOverdrafted r = BalanceOverdrafted r2"
    using key_quota_effect_frame [OF chain(3)] key_rate_effect_frame [OF chain(4)]
      account_quota_effect_frame [OF chain(5)] by simp_all
  show ?thesis using u before after by (simp add: cmd_def)
qed

lemma Apply_key:
  assumes "Apply env (Some c) db = (Inr r, db')" and "Applied r"
    and "QuantizeUsageBillingAmount (APIKeyQuotaCost c) > 0"
  shows "\<exists>k k'. api_keys db (APIKeyID c) = Some k \<and> \<not> k_deleted k \<and> api_keys db' (APIKeyID c) = Some k'
    \<and> k_quota_used k' = round_half_away 8 (k_quota_used k + QuantizeUsageBillingAmount (APIKeyQuotaCost c))
    \<and> k_status k' = (if k_quota k > 0 \<and> k_status k = StatusAPIKeyActive \<and> k_quota_used k < k_quota k
          \<and> k_quota_used k + QuantizeUsageBillingAmount (APIKeyQuotaCost c) \<ge> k_quota k
        then StatusAPIKeyQuotaExhausted else k_status k)
    \<and> APIKeyQuotaExhausted r = (k_quota k > 0 \<and> k_quota_used k' \<ge> k_quota k
          \<and> k_quota_used k' - QuantizeUsageBillingAmount (APIKeyQuotaCost c) < k_quota k)"
proof -
  define cmd where "cmd = Normalize (env_sha256 env) c"
  define db0 where "db0 = db\<lparr>dedup := (dedup db)((RequestID cmd, APIKeyID cmd) \<mapsto> RequestFingerprint cmd)\<rparr>"
  have "applyUsageBillingEffects env cmd (empty_result\<lparr>Applied := True\<rparr>) db0 = Inr (r, db')"
    using Apply_Applied [OF assms(1,2) cmd_def] by (simp add: db0_def)
  then obtain db1 r2 db2 r3 db3 r4 db4 where chain:
    "subscription_effect env cmd db0 = Inr db1"
    "balance_effect env cmd (empty_result\<lparr>Applied := True\<rparr>, db1) = Inr (r2, db2)"
    "key_quota_effect env cmd (r2, db2) = Inr (r3, db3)"
    "key_rate_effect env cmd (r3, db3) = Inr (r4, db4)"
    "account_quota_effect env cmd (r4, db4) = Inr (r, db')"
    by (rule effects_chain)
  have pos: "APIKeyQuotaCost cmd > 0" using assms(3) by (simp add: cmd_def)
  obtain k k' where k: "api_keys db2 (APIKeyID cmd) = Some k" "\<not> k_deleted k"
    "api_keys db3 (APIKeyID cmd) = Some k'"
    "k_quota_used k' = round_half_away 8 (k_quota_used k + APIKeyQuotaCost cmd)"
    "k_status k' = (if k_quota k > 0 \<and> k_status k = StatusAPIKeyActive \<and> k_quota_used k < k_quota k
        \<and> k_quota_used k + APIKeyQuotaCost cmd \<ge> k_quota k
      then StatusAPIKeyQuotaExhausted else k_status k)"
    "APIKeyQuotaExhausted r3 = (k_quota k > 0 \<and> k_quota_used k' \<ge> k_quota k
        \<and> k_quota_used k' - APIKeyQuotaCost cmd < k_quota k)"
    using key_quota_effect_key [OF chain(3) pos] by blast
  have before: "api_keys db2 = api_keys db"
    using subscription_effect_frame [OF chain(1)] balance_effect_frame [OF chain(2)]
    by (simp add: db0_def)
  have rate: "map_option k_quota_used (api_keys db4 (APIKeyID cmd)) = Some (k_quota_used k')"
    "map_option k_status (api_keys db4 (APIKeyID cmd)) = Some (k_status k')" "r4 = r3"
    using key_rate_effect_frame [OF chain(4)] k(3) by simp_all
  have "api_keys db' = api_keys db4" "APIKeyQuotaExhausted r = APIKeyQuotaExhausted r4"
    using account_quota_effect_frame [OF chain(5)] by simp_all
  with rate obtain k4 where "api_keys db' (APIKeyID cmd) = Some k4" "k_quota_used k4 = k_quota_used k'"
    "k_status k4 = k_status k'" "APIKeyQuotaExhausted r = APIKeyQuotaExhausted r3"
    by auto
  with k before show ?thesis by (simp add: cmd_def)
qed

text \<open>When one request charges the same cost to the user's balance and to
  the API key's quota, the balance falls and the quota usage rises by exactly the same amount, the
  cost rounded once to eight decimal places; the balance reported is the stored one, and the
  overdraft flag says whether the balance covered the cost.\<close>

theorem charge_reconciles:
  assumes "Apply env (Some c) db = (Inr r, db')" and "Applied r"
    and "APIKeyQuotaCost c = BalanceCost c"
    and "0 < QuantizeUsageBillingAmount (BalanceCost c)"
    and "users db (UserID c) = Some u" and "on_scale 8 (u_balance u)"
    and "api_keys db (APIKeyID c) = Some k" and "on_scale 8 (k_quota_used k)"
  shows "\<exists>u' k'. users db' (UserID c) = Some u' \<and> api_keys db' (APIKeyID c) = Some k'
    \<and> u_balance u - u_balance u' = QuantizeUsageBillingAmount (BalanceCost c)
    \<and> k_quota_used k' - k_quota_used k = QuantizeUsageBillingAmount (BalanceCost c)
    \<and> u_frozen_balance u' = u_frozen_balance u
    \<and> NewBalance r = Some (u_balance u')
    \<and> (BalanceOverdrafted r \<longleftrightarrow> u_balance u' < 0)"
proof -
  let ?q = "QuantizeUsageBillingAmount (BalanceCost c)"
  have "round_half_away 8 (u_balance u - ?q) = u_balance u - ?q"
    "round_half_away 8 (k_quota_used k + ?q) = k_quota_used k + ?q"
    using assms(6,8) by simp_all
  with Apply_user [OF assms(1,2,4)] Apply_key [OF assms(1,2)] assms(3-8)
  show ?thesis by auto
qed

text \<open>C28 (key_quota_flag_exact): The quota-exhausted flag of a charge is raised exactly when this
  charge takes the key's usage from below its positive quota to the quota or beyond, and an active
  key is then, and only then, moved to the exhausted status.\<close>

theorem key_quota_flag_exact:
  assumes "Apply env (Some c) db = (Inr r, db')" and "Applied r"
    and "0 < QuantizeUsageBillingAmount (APIKeyQuotaCost c)"
    and "api_keys db (APIKeyID c) = Some k" and "on_scale 8 (k_quota_used k)"
  shows "\<exists>k'. api_keys db' (APIKeyID c) = Some k'
    \<and> (APIKeyQuotaExhausted r \<longleftrightarrow>
         0 < k_quota k \<and> k_quota_used k < k_quota k \<and> k_quota k \<le> k_quota_used k')
    \<and> k_status k' = (if APIKeyQuotaExhausted r \<and> k_status k = StatusAPIKeyActive
                      then StatusAPIKeyQuotaExhausted else k_status k)"
proof -
  let ?q = "QuantizeUsageBillingAmount (APIKeyQuotaCost c)"
  have "round_half_away 8 (k_quota_used k + ?q) = k_quota_used k + ?q"
    using assms(5) by simp
  with Apply_key [OF assms(1,2,3)] assms(4) show ?thesis by auto
qed

section \<open>Account quotas: crossing and resets\<close>

lemma tiny: "(0::rat) < 2 powi (- 1075)" "(2::rat) powi (- 1075) \<le> 1 / 10 ^ 20"
proof -
  have "(10::rat) ^ 20 \<le> 2 powi 67" by simp
  also have "\<dots> \<le> 2 powi 1075" by (simp only: powi_le_iff)
  finally have "1 / 2 powi 1075 \<le> 1 / (10::rat) ^ 20" by (intro divide_left_mono) simp_all
  then show "(2::rat) powi (- 1075) \<le> 1 / 10 ^ 20"
    by (simp only: power_int_minus inverse_eq_divide)
qed simp

lemma on_scale_gap: "on_scale 8 x \<Longrightarrow> 0 < x \<Longrightarrow> 1 / 10 ^ 8 \<le> x"
proof -
  assume "on_scale 8 x" and "0 < x"
  then obtain i :: int where i: "x * 10 ^ 8 = of_int i" unfolding on_scale_int by blast
  with \<open>0 < x\<close> have "0 < (of_int i :: rat)" by (metis mult_pos_pos zero_less_power zero_less_numeral)
  then have "1 \<le> i" by simp
  then have "(1 :: rat) \<le> of_int i" by simp
  with i show ?thesis by (simp add: divide_le_eq)
qed

lemma crossed_complete:
  assumes "on_scale 8 limit" "on_scale 8 used" "0 < limit" "0 \<le> used" "used < limit"
    and "0 \<le> amount" "limit \<le> used + amount" "limit + amount \<le> 10 ^ 7"
  shows "crossed (used + amount) limit amount"
proof -
  define e :: rat where "e = 2 powi (- 1075)"
  have e: "0 < e" "e \<le> 1 / 10 ^ 20" using tiny by (simp_all add: e_def)
  have gap: "1 / 10 ^ 8 \<le> limit - used" using assms by (intro on_scale_gap) simp_all
  have lim: "1 / 10 ^ 8 \<le> limit" using assms by (intro on_scale_gap) simp_all
  define S where "S = used + amount"
  define d where "d = f64 S - f64 amount"
  have fl: "\<bar>f64 limit - limit\<bar> \<le> limit / 2 ^ 53 + e"
    using f64_error [of limit] assms(3) by (simp add: e_def)
  have fs: "\<bar>f64 S - S\<bar> \<le> S / 2 ^ 53 + e"
    using f64_error [of S] assms(4,6) by (simp add: e_def S_def)
  have fa: "\<bar>f64 amount - amount\<bar> \<le> amount / 2 ^ 53 + e"
    using f64_error [of amount] assms(6) by (simp add: e_def)
  have mono: "f64 limit \<le> f64 S" using assms(7) by (intro f64_mono) (simp add: S_def)
  have fm: "f64 amount \<le> f64 S" using assms(4) by (intro f64_mono) (simp add: S_def)
  have pos: "0 < f64 limit" using fl lim e by (simp add: abs_le_iff)
  have d0: "0 \<le> d" using fm by (simp add: d_def)
  have fd: "\<bar>f64 d - d\<bar> \<le> d / 2 ^ 53 + e"
    using f64_error [of d] d0 by (simp add: e_def)
  have d_le: "d \<le> used + (S + amount) / 2 ^ 53 + 2 * e"
    using fs fa unfolding d_def by (simp add: abs_le_iff S_def add_divide_distrib)
  have big: "S + amount \<le> 2 * 10 ^ 7" using assms(3,5,8) assms(6) by (simp add: S_def)
  have fl': "limit - limit / 2 ^ 53 - e \<le> f64 limit" using fl by (simp add: abs_le_iff)
  have "(S + amount) / 2 ^ 53 \<le> 2 * 10 ^ 7 / 2 ^ 53" using big by (intro divide_right_mono) simp_all
  with d_le have d1: "d \<le> used + 2 * 10 ^ 7 / 2 ^ 53 + 2 * e" by linarith
  have "f64 d \<le> d + d / 2 ^ 53 + e" using fd by (simp add: abs_le_iff)
  also have "\<dots> < f64 limit"
    using d1 fl' gap e assms(3,5,6,8) by simp
  finally have "f64 d < f64 limit" .
  with pos mono show ?thesis by (simp add: crossed_def S_def d_def)
qed

text \<open>A charge that takes an account's total usage from below its
  limit to the limit or beyond leaves an account-changed event for that account in the scheduler
  outbox, although the test is made in binary floating point: eight decimal places and amounts up
  to ten million leave no room for a missed crossing.\<close>

theorem quota_crossing_enqueued:
  assumes "incrementUsageBillingAccountQuota env aid amount db = Inr (st, db')"
    and "accounts db aid = Some a" and "a_quota_limit a = Some limit"
    and "used = coalesce (a_quota_used a) 0"
    and "on_scale 8 limit" "on_scale 8 used" "0 < limit" "0 \<le> used" "used < limit"
    and "0 \<le> amount" "limit \<le> used + amount" "limit + amount \<le> 10 ^ 7"
  shows "Some (schedulerOutboxDedupKey (env_sha256 env) SchedulerOutboxEventAccountChanged
      (Some aid) None []) \<in> o_dedup_key ` set (scheduler_outbox db')"
proof -
  have "crossed (used + amount) limit amount"
    using assms(5-12) by (rule crossed_complete)
  then have cr: "crossed (TotalUsed (quota_state (bump_account env amount a)))
      (TotalLimit (quota_state (bump_account env amount a))) amount"
    by (simp add: quota_state_def bump_account_def assms(3,4) coalesce_def)
  obtain db1 where "enqueueSchedulerOutbox env SchedulerOutboxEventAccountChanged
      (Some aid) None None db1 = Inr db'"
    using assms(1,2) cr
    by (auto simp: incrementUsageBillingAccountQuota_def run_stmt_def Let_def
        split: if_splits sum.splits)
  then show ?thesis
    by (auto simp: enqueueSchedulerOutbox_def run_stmt_def Let_def coalesce_def
        schedulerOutboxEventSupportsDedup_def split: if_splits)
qed

text \<open>A time zone with a constant offset of whole seconds.\<close>

definition fixed_offset :: "billing_env \<Rightarrow> string \<Rightarrow> duration \<Rightarrow> bool" where
  "fixed_offset env tz off \<longleftrightarrow>
     (\<forall>t. env_local env tz t = t + off) \<and> (\<forall>w. env_instant env tz w = w - off)
     \<and> off mod second_ns = 0"

lemma to_seconds_id: "t mod second_ns = 0 \<Longrightarrow> to_seconds t = t"
  by (simp add: to_seconds_def)

lemma trunc_day_bounds: "trunc_day w \<le> w" "w < trunc_day w + day_ns" "trunc_day w mod day_ns = 0"
  by (simp_all add: trunc_day_def day_ns_def hour_ns_def algebra_simps)

lemma whole_seconds:
  assumes "w mod day_ns = 0" and "off mod second_ns = 0"
  shows "(w + h * hour_ns + n * day_ns - off) mod second_ns = 0"
proof -
  have "second_ns dvd w"
    using assms(1) by (auto simp: day_ns_def hour_ns_def second_ns_def dvd_def mod_0_imp_dvd)
  moreover have "second_ns dvd h * hour_ns" "second_ns dvd n * day_ns"
    by (simp_all add: day_ns_def hour_ns_def second_ns_def)
  moreover have "second_ns dvd off" using assms(2) by (simp add: mod_0_imp_dvd)
  ultimately have "second_ns dvd (w + h * hour_ns + n * day_ns - off)"
    by (intro dvd_diff dvd_add)
  then show ?thesis by simp
qed

text \<open>In a time zone of constant offset the next daily reset computed in
  fixed mode is the first moment strictly after now whose wall clock shows the configured hour, at
  most 24 hours ahead.\<close>

theorem daily_reset_next:
  assumes "fixed_offset env tz off" and "fixed_mode q"
    and "h = coalesce (q_reset_hour q) 0" and "0 \<le> h" and "h < 24"
  shows "\<exists>r. nextDailyResetAtExpr env (Some tz) q = Some r
    \<and> env_now env < r \<and> r \<le> env_now env + 24 * hour_ns
    \<and> env_local env tz r mod day_ns = h * hour_ns"
proof -
  define w where "w = env_now env + off"
  define T where "T = trunc_day w"
  define n :: int where "n = (if env_now env \<ge> T + h * hour_ns - off then 1 else 0)"
  define r where "r = T + h * hour_ns + n * day_ns - off"
  have T: "T \<le> w" "w < T + day_ns" "T mod day_ns = 0"
    using trunc_day_bounds [of w] by (simp_all add: T_def)
  have off: "off mod second_ns = 0" using assms(1) by (simp add: fixed_offset_def)
  have "to_seconds r = r"
    unfolding r_def by (intro to_seconds_id whole_seconds T off)
  moreover have "nextDailyResetAtExpr env (Some tz) q = Some (to_seconds r)"
    using assms(1-3)
    by (simp add: nextDailyResetAtExpr_def fixed_offset_def reset_wall_def coalesce_def
        r_def n_def T_def w_def Let_def)
  moreover have "env_now env < r" "r \<le> env_now env + 24 * hour_ns"
    using T assms(4,5) by (auto simp: r_def n_def w_def day_ns_def hour_ns_def)
  moreover have "env_local env tz r mod day_ns = h * hour_ns"
  proof -
    have "env_local env tz r = T + (h * hour_ns + n * day_ns)"
      using assms(1) by (simp add: fixed_offset_def r_def)
    also have "\<dots> mod day_ns = h * hour_ns mod day_ns"
      using T(3) by (metis mod_add_left_eq mod_mult_self1 add_0)
    also have "\<dots> = h * hour_ns"
      using assms(4,5) by (intro mod_pos_pos_trivial) (simp_all add: day_ns_def hour_ns_def)
    finally show ?thesis .
  qed
  ultimately show ?thesis by metis
qed
text \<open>In a time zone of constant offset the next weekly reset computed in
  fixed mode falls on the configured weekday at the configured hour, strictly after now and at most
  seven days ahead: it is the first such moment.\<close>

theorem weekly_reset_next:
  assumes "fixed_offset env tz off" and "fixed_mode q"
    and "h = coalesce (q_reset_hour q) 0" and "0 \<le> h" and "h < 24"
    and "d = coalesce (q_reset_day q) 1" and "0 \<le> d" and "d \<le> 6"
  shows "\<exists>r. nextWeeklyResetAtExpr env (Some tz) q = Some r
    \<and> env_now env < r \<and> r \<le> env_now env + 7 * day_ns
    \<and> env_local env tz r mod day_ns = h * hour_ns
    \<and> day_of_week (env_local env tz r) = d"
proof -
  define w where "w = env_now env + off"
  define T where "T = trunc_day w"
  define f where "f = days_forward env tz q"
  define n :: int where
    "n = (if f = 0 \<and> env_now env \<ge> T + h * hour_ns - off then 7 else f)"
  define r where "r = T + h * hour_ns + n * day_ns - off"
  have T: "T \<le> w" "w < T + day_ns" "T mod day_ns = 0"
    using trunc_day_bounds [of w] by (simp_all add: T_def)
  have loc: "\<And>t. env_local env tz t = t + off" "\<And>v. env_instant env tz v = v - off"
    and off: "off mod second_ns = 0"
    using assms(1) by (simp_all add: fixed_offset_def)
  have dow: "0 \<le> day_of_week w" "day_of_week w \<le> 6"
    by (simp_all add: day_of_week_def)
  have f: "f = (d - day_of_week w) mod 7"
    using assms(6-8) dow
    by (simp add: f_def days_forward_def sql_mod_def loc w_def)
  have n: "n mod 7 = (d - day_of_week w) mod 7" "0 \<le> n" "n \<le> 7"
    using f by (auto simp: n_def)
  have "to_seconds r = r"
    unfolding r_def by (intro to_seconds_id whole_seconds T off)
  moreover have "nextWeeklyResetAtExpr env (Some tz) q = Some (to_seconds r)"
    using assms(2,3)
    by (simp add: nextWeeklyResetAtExpr_def loc reset_wall_def coalesce_def
        r_def n_def f_def T_def w_def Let_def)
  moreover have "env_now env < r \<and> r \<le> env_now env + 7 * day_ns"
  proof (cases "f = 0")
    case True
    then show ?thesis using T assms(4,5) by (auto simp: r_def n_def w_def day_ns_def hour_ns_def)
  next
    case False
    then have "1 \<le> f" "f \<le> 6" using f pos_mod_bound [of 7 "d - day_of_week w"] pos_mod_sign [of 7 "d - day_of_week w"] by linarith+
    then show ?thesis using False T assms(4,5) by (auto simp: r_def n_def w_def day_ns_def hour_ns_def)
  qed
  moreover have h: "0 \<le> h * hour_ns" "h * hour_ns < day_ns"
    using assms(4,5) by (simp_all add: day_ns_def hour_ns_def)
  moreover obtain D where D: "T = D * day_ns" using T(3) by (metis mod_0_imp_dvd dvd_def mult.commute)
  moreover have m: "env_local env tz r = (D + n) * day_ns + h * hour_ns"
    by (simp add: loc r_def D distrib_right)
  moreover have hr: "env_local env tz r mod day_ns = h * hour_ns"
    unfolding m using h by simp
  moreover have dr: "env_local env tz r div day_ns = D + n"
    unfolding m using h by (simp add: day_ns_def hour_ns_def)
  moreover have "day_of_week (env_local env tz r) = d"
  proof -
    have "w div day_ns = D"
      using T(1,2) unfolding D by (simp add: day_ns_def hour_ns_def)
    then have "n mod 7 = (d - (D + 1)) mod 7"
      using n(1) by (simp add: day_of_week_def mod_diff_right_eq)
    then have "(D + 1 + n) mod 7 = (D + 1 + (d - (D + 1))) mod 7"
      by (metis mod_add_right_eq)
    also have "\<dots> = d" using assms(7,8) by simp
    finally show ?thesis by (simp add: day_of_week_def dr add.commute add.left_commute)
  qed
  ultimately show ?thesis by metis
qed

section \<open>Instances\<close>

lemma sample_charge:
  "\<exists>r db'. Apply sample_env (Some sample_cmd) sample_db = (Inr r, db') \<and> Applied r
     \<and> map_option u_balance (users db' 1) = Some 8"
proof -
  have "(case fst (Apply sample_env (Some sample_cmd) sample_db) of Inl e \<Rightarrow> False | Inr r \<Rightarrow> Applied r)
    \<and> map_option u_balance (users (snd (Apply sample_env (Some sample_cmd) sample_db)) 1) = Some 8"
    by code_simp
  then show ?thesis
    by (cases "Apply sample_env (Some sample_cmd) sample_db") (auto split: sum.splits)
qed

lemma sample_amount: "QuantizeUsageBillingAmount 2 = 2" "on_scale 8 10" "on_scale 8 3" "on_scale 8 2"
  "on_scale 8 5"
  by code_simp+


theorem charge_reconciles_witness:
  "\<exists>r db' u' k'. Apply sample_env (Some sample_cmd) sample_db = (Inr r, db')
    \<and> users db' 1 = Some u' \<and> api_keys db' 7 = Some k'
    \<and> 10 - u_balance u' = 2 \<and> k_quota_used k' - 3 = 2"
proof -
  obtain r db' where a: "Apply sample_env (Some sample_cmd) sample_db = (Inr r, db')" "Applied r"
    using sample_charge by blast
  have "UserID sample_cmd = 1" "APIKeyID sample_cmd = 7" "BalanceCost sample_cmd = 2"
    "APIKeyQuotaCost sample_cmd = 2" by (simp_all add: sample_cmd_def)
  then have "\<exists>u' k'. users db' 1 = Some u' \<and> api_keys db' 7 = Some k'
      \<and> u_balance sample_user - u_balance u' = 2 \<and> k_quota_used k' - k_quota_used sample_key = 2"
    using charge_reconciles [OF a, of sample_user sample_key] sample_amount
    by (auto simp: sample_user_def sample_key_def)
  with a show ?thesis by (auto simp: sample_user_def sample_key_def)
qed

theorem key_quota_flag_exact_witness:
  "\<exists>r db' k'. Apply sample_env (Some sample_cmd) sample_db = (Inr r, db') \<and> APIKeyQuotaExhausted r
    \<and> api_keys db' 7 = Some k' \<and> k_status k' = StatusAPIKeyQuotaExhausted"
proof -
  obtain r db' where a: "Apply sample_env (Some sample_cmd) sample_db = (Inr r, db')" "Applied r"
    using sample_charge by blast
  have c: "APIKeyID sample_cmd = 7" "APIKeyQuotaCost sample_cmd = 2" by (simp_all add: sample_cmd_def)
  have k: "k_quota_used sample_key = 3" "k_quota sample_key = 5" "k_status sample_key = StatusAPIKeyActive"
    by (simp_all add: sample_key_def StatusAPIKeyActive_def)
  have pos: "0 < QuantizeUsageBillingAmount (APIKeyQuotaCost sample_cmd)" by (simp add: c sample_amount)
  have row: "api_keys sample_db (APIKeyID sample_cmd) = Some sample_key" by (simp add: c)
  have used: "on_scale 8 (k_quota_used sample_key)" by (simp add: k sample_amount)
  obtain k' where k': "api_keys db' 7 = Some k'"
    "APIKeyQuotaExhausted r \<longleftrightarrow> 0 < k_quota sample_key
       \<and> k_quota_used sample_key < k_quota sample_key \<and> k_quota sample_key \<le> k_quota_used k'"
    "k_status k' = (if APIKeyQuotaExhausted r \<and> k_status sample_key = StatusAPIKeyActive
       then StatusAPIKeyQuotaExhausted else k_status sample_key)"
    using key_quota_flag_exact [OF a pos row used] unfolding c by blast
  have "k_quota_used k' = 5"
    using Apply_key [OF a pos] k'(1) round_on_scale [OF sample_amount(5)] by (simp add: c k sample_amount)
  with a k' show ?thesis by (simp add: k)
qed

theorem quota_crossing_enqueued_witness:
  "case incrementUsageBillingAccountQuota sample_env 4 3 sample_db of
     Inl e \<Rightarrow> False
   | Inr (st, db') \<Rightarrow>
       Some (schedulerOutboxDedupKey (env_sha256 sample_env) SchedulerOutboxEventAccountChanged
         (Some 4) None []) \<in> o_dedup_key ` set (scheduler_outbox db')"
proof -
  have "isl (incrementUsageBillingAccountQuota sample_env 4 3 sample_db) = False" by code_simp
  then obtain st db' where inc: "incrementUsageBillingAccountQuota sample_env 4 3 sample_db = Inr (st, db')"
    by (cases "incrementUsageBillingAccountQuota sample_env 4 3 sample_db") auto
  have lim: "a_quota_limit sample_account = Some 10" "8 = coalesce (a_quota_used sample_account) 0"
    by (simp_all add: sample_account_def coalesce_def)
  have sc: "on_scale 8 (10 :: decimal)" "on_scale 8 (8 :: decimal)" by code_simp+
  have b: "(0::decimal) < 10" "(0::decimal) \<le> 8" "(8::decimal) < 10" "(0::decimal) \<le> 3"
    "(10::decimal) \<le> 8 + 3" "(10::decimal) + 3 \<le> 10 ^ 7" by simp_all
  show ?thesis
    using quota_crossing_enqueued [OF inc sample_rows(3) lim sc b] by (simp only: inc sum.case prod.case)
qed

lemma sample_fixed_offset: "fixed_offset sample_env ''UTC'' 0"
  by (simp add: fixed_offset_def sample_env_def)

theorem daily_reset_next_witness:
  "\<exists>r. nextDailyResetAtExpr sample_env (Some ''UTC'') sample_period = Some r
     \<and> env_now sample_env < r \<and> env_local sample_env ''UTC'' r mod day_ns = 9 * hour_ns"
proof -
  have q: "fixed_mode sample_period" "9 = coalesce (q_reset_hour sample_period) 0"
    by (simp_all add: sample_period_def fixed_mode_def coalesce_def)
  have "(0::int) \<le> 9" "(9::int) < 24" by simp_all
  from daily_reset_next [OF sample_fixed_offset q this] show ?thesis by blast
qed

theorem weekly_reset_next_witness:
  "\<exists>r. nextWeeklyResetAtExpr sample_env (Some ''UTC'') sample_period = Some r
     \<and> env_now sample_env < r \<and> day_of_week (env_local sample_env ''UTC'' r) = 5"
proof -
  have q: "fixed_mode sample_period" "9 = coalesce (q_reset_hour sample_period) 0"
    by (simp_all add: sample_period_def fixed_mode_def coalesce_def)
  have d: "5 = coalesce (q_reset_day sample_period) 1"
    by (simp add: sample_period_def coalesce_def)
  have b: "(0::int) \<le> 9" "(9::int) < 24" "(0::int) \<le> 5" "(5::int) \<le> 6" by simp_all
  from weekly_reset_next [OF sample_fixed_offset q b(1,2) d b(3,4)] show ?thesis by blast
qed
end
