(* ===== verification/BalanceHold.thy ===== *)
theory BalanceHold
  imports UsageBilling
begin

text \<open>
  The batch-image balance holds of \<open>backend/internal/repository/usage_billing_repo.go\<close>
  (reserve, capture, release), which share the deduplication table with \<open>Apply\<close>, and the
  contract of the whole repository as a ledger that applies each key at most once.
\<close>

section \<open>The three operations\<close>

record BatchImageBalanceHoldResult =
  h_Applied :: bool
  h_NewBalance :: "decimal option"
  h_FrozenBalance :: "decimal option"

definition empty_hold_result :: BatchImageBalanceHoldResult where
  "empty_hold_result = \<lparr>h_Applied = False, h_NewBalance = None, h_FrozenBalance = None\<rparr>"

definition userExistsForBilling :: "billing_env \<Rightarrow> int \<Rightarrow> billing_db \<Rightarrow> billing_error + bool" where
  "userExistsForBilling env userID db =
     run_stmt env SelectUser
       (Inr (case users db userID of None \<Rightarrow> False | Some u \<Rightarrow> \<not> u_deleted u))"

text \<open>
  A guarded \<open>UPDATE users\<close> with \<open>RETURNING balance, frozen_balance\<close>; when no row
  matches, the error tells a missing user from a refused guard.
\<close>

definition update_balances ::
  "billing_env \<Rightarrow> billing_stmt \<Rightarrow> int \<Rightarrow> (user_row \<Rightarrow> bool) \<Rightarrow> (user_row \<Rightarrow> user_row) \<Rightarrow> billing_error
     \<Rightarrow> billing_db \<Rightarrow> billing_error + (BatchImageBalanceHoldResult \<times> billing_db)" where
  "update_balances env k userID guard change refused db =
     run_stmt env k
       (let miss = and_then (userExistsForBilling env userID db)
              (\<lambda>exists. if \<not> exists then Inl ErrUserNotFound else Inl refused)
        in case users db userID of
             None \<Rightarrow> miss
           | Some u \<Rightarrow>
               if \<not> u_deleted u \<and> guard u
               then Inr (\<lparr>h_Applied = False, h_NewBalance = Some (u_balance (change u)),
                          h_FrozenBalance = Some (u_frozen_balance (change u))\<rparr>,
                         db\<lparr>users := (users db)(userID \<mapsto> change u)\<rparr>)
               else miss)"

definition reserveUsageBillingBatchImageBalance ::
  "billing_env \<Rightarrow> BatchImageBalanceHoldCommand \<Rightarrow> billing_db
     \<Rightarrow> billing_error + (BatchImageBalanceHoldResult \<times> billing_db)" where
  "reserveUsageBillingBatchImageBalance env cmd db =
     (if h_HoldAmount cmd \<le> 0 then Inr (empty_hold_result, db)
      else update_balances env ReserveBalance (h_UserID cmd)
             (\<lambda>u. u_balance u \<ge> h_HoldAmount cmd)
             (\<lambda>u. u\<lparr>u_balance := round_half_away 8 (u_balance u - h_HoldAmount cmd),
                    u_frozen_balance := round_half_away 8 (u_frozen_balance u + h_HoldAmount cmd),
                    u_updated_at := env_now env\<rparr>)
             ErrBatchImageInsufficientBalance db)"

text \<open>The tolerance test is Go code on \<open>float64\<close> values.\<close>

definition exceeds_hold :: "decimal \<Rightarrow> decimal \<Rightarrow> bool" where
  "exceeds_hold actual hold \<longleftrightarrow> f64 (f64 actual - f64 hold) > f64 (1 / 10 ^ 8)"

definition captureUsageBillingBatchImageBalance ::
  "billing_env \<Rightarrow> BatchImageBalanceHoldCommand \<Rightarrow> billing_db
     \<Rightarrow> billing_error + (BatchImageBalanceHoldResult \<times> billing_db)" where
  "captureUsageBillingBatchImageBalance env cmd db =
     (let hold = h_HoldAmount cmd; actual = h_ActualAmount cmd in
      if hold \<le> 0 \<and> actual \<le> 0 then Inr (empty_hold_result, db)
      else if exceeds_hold actual hold then Inl ErrBatchImageSettlementCostExceedsHold
      else update_balances env CaptureBalance (h_UserID cmd)
             (\<lambda>u. u_frozen_balance u \<ge> hold)
             (\<lambda>u. u\<lparr>u_balance := round_half_away 8
                      (u_balance u + (if hold > actual then hold - actual else 0)
                                   - (if actual > hold then actual - hold else 0)),
                    u_frozen_balance := round_half_away 8 (u_frozen_balance u - hold),
                    u_updated_at := env_now env\<rparr>)
             FrozenBalanceInsufficient db)"

definition BatchImageHoldRequestID :: "string \<Rightarrow> string" where
  "BatchImageHoldRequestID batchID = ''batch_image_hold:'' @ trim_space batchID"

definition BatchImageCaptureRequestID :: "string \<Rightarrow> string" where
  "BatchImageCaptureRequestID batchID = ''batch_image_capture:'' @ trim_space batchID"

definition BatchImageReleaseRequestID :: "string \<Rightarrow> string" where
  "BatchImageReleaseRequestID batchID = ''batch_image_release:'' @ trim_space batchID"

definition batchImageHoldClaimExists ::
  "billing_env \<Rightarrow> string \<Rightarrow> int \<Rightarrow> billing_db \<Rightarrow> billing_error + bool" where
  "batchImageHoldClaimExists env holdRequestID apiKeyID db =
     run_stmt env SelectHoldDedup
       (if dedup db (holdRequestID, apiKeyID) \<noteq> None then Inr True
        else run_stmt env SelectHoldArchive
               (Inr (dedup_archive db (holdRequestID, apiKeyID) \<noteq> None)))"

definition releaseUsageBillingBatchImageBalance ::
  "billing_env \<Rightarrow> BatchImageBalanceHoldCommand \<Rightarrow> billing_db
     \<Rightarrow> billing_error + (BatchImageBalanceHoldResult \<times> billing_db)" where
  "releaseUsageBillingBatchImageBalance env cmd db =
     (if h_HoldAmount cmd \<le> 0 then Inr (empty_hold_result, db)
      else and_then
        (batchImageHoldClaimExists env (BatchImageHoldRequestID (h_BatchID cmd)) (h_APIKeyID cmd) db)
        (\<lambda>held.
           if \<not> held then Inr (empty_hold_result, db)
           else update_balances env ReleaseBalance (h_UserID cmd)
                  (\<lambda>u. u_frozen_balance u \<ge> h_HoldAmount cmd)
                  (\<lambda>u. u\<lparr>u_balance := round_half_away 8 (u_balance u + h_HoldAmount cmd),
                         u_frozen_balance := round_half_away 8 (u_frozen_balance u - h_HoldAmount cmd),
                         u_updated_at := env_now env\<rparr>)
                  FrozenBalanceInsufficient db))"

definition applyBatchImageBalanceHold ::
  "(billing_env \<Rightarrow> BatchImageBalanceHoldCommand \<Rightarrow> billing_db
       \<Rightarrow> billing_error + (BatchImageBalanceHoldResult \<times> billing_db))
     \<Rightarrow> billing_env \<Rightarrow> BatchImageBalanceHoldCommand option \<Rightarrow> billing_db
     \<Rightarrow> (billing_error + BatchImageBalanceHoldResult) \<times> billing_db" where
  "applyBatchImageBalanceHold apply env cmd0 db =
     (case cmd0 of
        None \<Rightarrow> (Inr empty_hold_result, db)
      | Some c \<Rightarrow>
          if env_repo_nil env then (Inl RepositoryNil, db)
          else
            let cmd = NormalizeHold (env_sha256 env) c in
            if h_RequestID cmd = '''' then (Inl ErrUsageBillingRequestIDRequired, db)
            else in_transaction env (SqlError BeginTx)
                   (claim_then env (h_RequestID cmd) (h_APIKeyID cmd) (h_RequestFingerprint cmd)
                      empty_hold_result
                      (\<lambda>db1. and_then (apply env cmd db1)
                         (\<lambda>(result, db2). Inr (result\<lparr>h_Applied := True\<rparr>, db2))))
                   db)"

definition ReserveBatchImageBalance where
  "ReserveBatchImageBalance = applyBatchImageBalanceHold reserveUsageBillingBatchImageBalance"

definition CaptureBatchImageBalance where
  "CaptureBatchImageBalance = applyBatchImageBalanceHold captureUsageBillingBatchImageBalance"

definition ReleaseBatchImageBalance where
  "ReleaseBatchImageBalance = applyBatchImageBalanceHold releaseUsageBillingBatchImageBalance"

section \<open>Facts about one operation\<close>

lemma update_balances_Inr:
  assumes "update_balances env k uid guard change refused db = Inr (r, db')"
  shows "\<exists>u. users db uid = Some u \<and> \<not> u_deleted u \<and> guard u
    \<and> db' = db\<lparr>users := (users db)(uid \<mapsto> change u)\<rparr>"
  using assms
  by (auto simp: update_balances_def run_stmt_def Let_def and_then_Inr split: option.splits if_splits)

lemma hold_frame:
  assumes "update_balances env k uid guard change refused db = Inr (r, db')"
  shows "dedup db' = dedup db \<and> dedup_archive db' = dedup_archive db \<and> api_keys db' = api_keys db
    \<and> accounts db' = accounts db \<and> subscriptions db' = subscriptions db
    \<and> (\<forall>v. v \<noteq> uid \<longrightarrow> users db' v = users db v)"
  using update_balances_Inr [OF assms] by auto

text \<open>What the three effects do to the tables: nothing, or one user's two balances.\<close>

definition hold_effect ::
  "BatchImageBalanceHoldCommand \<Rightarrow> (user_row \<Rightarrow> bool) \<Rightarrow> (user_row \<Rightarrow> user_row) \<Rightarrow> billing_db \<Rightarrow> billing_db
     \<Rightarrow> bool" where
  "hold_effect cmd guard change db db' \<longleftrightarrow>
     (\<exists>u. users db (h_UserID cmd) = Some u \<and> \<not> u_deleted u \<and> guard u
        \<and> db' = db\<lparr>users := (users db)(h_UserID cmd \<mapsto> change u)\<rparr>)"

lemma reserve_Inr:
  assumes "reserveUsageBillingBatchImageBalance env cmd db = Inr (r, db')"
  shows "if h_HoldAmount cmd \<le> 0 then db' = db
    else hold_effect cmd (\<lambda>u. h_HoldAmount cmd \<le> u_balance u)
           (\<lambda>u. u\<lparr>u_balance := round_half_away 8 (u_balance u - h_HoldAmount cmd),
                  u_frozen_balance := round_half_away 8 (u_frozen_balance u + h_HoldAmount cmd),
                  u_updated_at := env_now env\<rparr>) db db'"
  using assms
  by (auto simp: reserveUsageBillingBatchImageBalance_def hold_effect_def
      dest: update_balances_Inr)

lemma capture_Inr:
  assumes "captureUsageBillingBatchImageBalance env cmd db = Inr (r, db')"
  shows "if h_HoldAmount cmd \<le> 0 \<and> h_ActualAmount cmd \<le> 0 then db' = db
    else hold_effect cmd (\<lambda>u. h_HoldAmount cmd \<le> u_frozen_balance u)
           (\<lambda>u. u\<lparr>u_balance := round_half_away 8 (u_balance u + (h_HoldAmount cmd - h_ActualAmount cmd)),
                  u_frozen_balance := round_half_away 8 (u_frozen_balance u - h_HoldAmount cmd),
                  u_updated_at := env_now env\<rparr>) db db'"
proof (cases "h_HoldAmount cmd \<le> 0 \<and> h_ActualAmount cmd \<le> 0")
  case True
  with assms show ?thesis by (simp add: captureUsageBillingBatchImageBalance_def)
next
  case False
  have eq: "b + (if hold > actual then hold - actual else 0) - (if actual > hold then actual - hold else 0)
      = b + (hold - actual)" for b hold actual :: decimal
    by simp
  show ?thesis
    using assms False unfolding captureUsageBillingBatchImageBalance_def Let_def eq
    by (auto simp: hold_effect_def dest: update_balances_Inr split: if_splits)
qed

lemma release_Inr:
  assumes "releaseUsageBillingBatchImageBalance env cmd db = Inr (r, db')"
  shows "if h_HoldAmount cmd \<le> 0
      \<or> dedup db (BatchImageHoldRequestID (h_BatchID cmd), h_APIKeyID cmd) = None
        \<and> dedup_archive db (BatchImageHoldRequestID (h_BatchID cmd), h_APIKeyID cmd) = None
    then db' = db
    else hold_effect cmd (\<lambda>u. h_HoldAmount cmd \<le> u_frozen_balance u)
           (\<lambda>u. u\<lparr>u_balance := round_half_away 8 (u_balance u + h_HoldAmount cmd),
                  u_frozen_balance := round_half_away 8 (u_frozen_balance u - h_HoldAmount cmd),
                  u_updated_at := env_now env\<rparr>) db db'"
  using assms
  by (auto simp: releaseUsageBillingBatchImageBalance_def hold_effect_def and_then_Inr
      batchImageHoldClaimExists_def run_stmt_def dest!: update_balances_Inr split: if_splits)

text \<open>A hold effect keeps every table but the one user's row.\<close>

lemma hold_effect_frame:
  "hold_effect cmd g ch db db' \<Longrightarrow>
     dedup db' = dedup db \<and> dedup_archive db' = dedup_archive db \<and> api_keys db' = api_keys db
     \<and> accounts db' = accounts db \<and> (\<forall>v. v \<noteq> h_UserID cmd \<longrightarrow> users db' v = users db v)"
  by (auto simp: hold_effect_def)

lemma apply_hold_cases:
  assumes "applyBatchImageBalanceHold apply env (Some c) db = (out, db')"
    and "cmd = NormalizeHold (env_sha256 env) c"
  shows "(db' = db \<and> \<not> (\<exists>r. out = Inr r \<and> h_Applied r))
    \<or> (\<exists>r. out = Inr r \<and> h_Applied r \<and> h_RequestID cmd \<noteq> []
        \<and> dedup db (h_RequestID cmd, h_APIKeyID cmd) = None
        \<and> dedup_archive db (h_RequestID cmd, h_APIKeyID cmd) = None
        \<and> (\<exists>r1. apply env cmd
             (db\<lparr>dedup := (dedup db)((h_RequestID cmd, h_APIKeyID cmd) \<mapsto> h_RequestFingerprint cmd)\<rparr>)
             = Inr (r1, db')))"
proof (cases "env_repo_nil env \<or> h_RequestID cmd = []")
  case True
  with assms show ?thesis
    by (auto simp: applyBatchImageBalanceHold_def Let_def split: if_splits)
next
  case False
  define body where "body = claim_then env (h_RequestID cmd) (h_APIKeyID cmd)
    (h_RequestFingerprint cmd) empty_hold_result
    (\<lambda>db1. and_then (apply env cmd db1) (\<lambda>(result, db2). Inr (result\<lparr>h_Applied := True\<rparr>, db2)))"
  have t: "in_transaction env (SqlError BeginTx) body db = (out, db')"
    using assms(1) False
    by (auto simp: applyBatchImageBalanceHold_def Let_def body_def simp flip: assms(2) split: if_splits)
  show ?thesis
  proof (cases out)
    case (Inl e)
    with t show ?thesis by (auto dest: in_transaction_Inl)
  next
    case (Inr r)
    then obtain commit db1 where b: "body db = Inr (commit, r, db1)"
      and c: "if commit then db' = db1 else db' = db"
      using t unfolding Inr in_transaction_Inr by (auto split: if_splits)
    show ?thesis
    proof (cases commit)
      case True
      with b have "dedup db (h_RequestID cmd, h_APIKeyID cmd) = None
          \<and> dedup_archive db (h_RequestID cmd, h_APIKeyID cmd) = None
          \<and> and_then (apply env cmd
              (db\<lparr>dedup := (dedup db)((h_RequestID cmd, h_APIKeyID cmd) \<mapsto> h_RequestFingerprint cmd)\<rparr>))
              (\<lambda>(result, db2). Inr (result\<lparr>h_Applied := True\<rparr>, db2)) = Inr (r, db1)"
        unfolding body_def by (auto dest: claim_then_Inr)
      with True c False Inr show ?thesis by (auto simp: and_then_Inr)
    next
      case False
      with b have "r = empty_hold_result" unfolding body_def by (auto dest: claim_then_skipped)
      with False c Inr show ?thesis by (simp add: empty_hold_result_def)
    qed
  qed
qed

section \<open>The repository as a ledger\<close>

text \<open>
  The contract of \<open>UsageBillingRepository\<close>, the interface the services are written
  against: an operation that is applied finds its key free and takes it, keys are never freed, and
  an operation that is not applied changes nothing.
\<close>

fun ledger_run :: "('op \<Rightarrow> 's \<Rightarrow> bool \<times> 's) \<Rightarrow> 'op list \<Rightarrow> 's \<Rightarrow> ('op \<times> bool) list \<times> 's" where
  "ledger_run step [] s = ([], s)"
| "ledger_run step (op # ops) s =
     ((op, fst (step op s)) # fst (ledger_run step ops (snd (step op s))),
      snd (ledger_run step ops (snd (step op s))))"

lemma ledger_run_ops: "map fst (fst (ledger_run step ops s)) = ops"
  by (induction ops arbitrary: s) simp_all

locale idempotent_ledger =
  fixes step :: "'op \<Rightarrow> 's \<Rightarrow> bool \<times> 's"
    and key :: "'op \<Rightarrow> 'k"
    and claimed :: "'s \<Rightarrow> 'k \<Rightarrow> bool"
  assumes applied_claims:
      "step op s = (True, s') \<Longrightarrow> \<not> claimed s (key op) \<and> claimed s' (key op)"
    and claims_kept: "step op s = (b, s') \<Longrightarrow> claimed s k \<Longrightarrow> claimed s' k"
    and refused_keeps: "step op s = (False, s') \<Longrightarrow> s' = s"
begin

lemma claimed_refused: "claimed s (key op) \<Longrightarrow> fst (step op s) = False"
  using applied_claims [of op s] by (cases "step op s") auto

lemma run_claims_kept: "claimed s k \<Longrightarrow> claimed (snd (ledger_run step ops s)) k"
proof (induction ops arbitrary: s)
  case (Cons op ops)
  then show ?case using claims_kept [of op s] by (cases "step op s") auto
qed simp

lemma none_applied:
  "claimed s k \<Longrightarrow> filter (\<lambda>(op, b). key op = k \<and> b) (fst (ledger_run step ops s)) = []"
proof (induction ops arbitrary: s)
  case (Cons op ops)
  then show ?case
    using claims_kept [of op s] claimed_refused [of s op] by (cases "step op s") auto
qed simp

lemma at_most_once:
  "length (filter (\<lambda>(op, b). key op = k \<and> b) (fst (ledger_run step ops s))) \<le> 1"
proof (induction ops arbitrary: s)
  case (Cons op ops)
  show ?case
  proof (cases "key op = k \<and> fst (step op s)")
    case True
    then have "claimed (snd (step op s)) k"
      using applied_claims [of op s] by (cases "step op s") auto
    then show ?thesis using none_applied [of "snd (step op s)" k ops] by simp
  next
    case False
    then show ?thesis using Cons.IH [of "snd (step op s)"] by auto
  qed
qed simp

lemma step_invariant:
  assumes "I s" and "\<And>s'. step op s = (True, s') \<Longrightarrow> I s'"
  shows "I (snd (step op s))"
proof (cases "fst (step op s)")
  case True
  with assms(2) [of "snd (step op s)"] show ?thesis by (metis prod.collapse)
next
  case False
  with assms(1) refused_keeps [of op s "snd (step op s)"] show ?thesis by (metis prod.collapse)
qed

lemma run_invariant:
  "I s \<Longrightarrow> (\<And>op s s'. op \<in> set ops \<Longrightarrow> I s \<Longrightarrow> step op s = (True, s') \<Longrightarrow> I s')
    \<Longrightarrow> I (snd (ledger_run step ops s))"
proof (induction ops arbitrary: s)
  case (Cons op ops)
  have "I (snd (step op s))"
    by (rule step_invariant [where I = I], rule Cons.prems(1))
       (rule Cons.prems(2) [where s = s and op = op], simp_all add: Cons.prems(1))
  then have "I (snd (ledger_run step ops (snd (step op s))))"
    by (rule Cons.IH) (rule Cons.prems(2), simp_all)
  then show ?case by simp
qed simp

end

text \<open>The four operations, each with the environment its transaction meets.\<close>

datatype billing_op =
  Charge billing_env UsageBillingCommand
| Reserve billing_env BatchImageBalanceHoldCommand
| Capture billing_env BatchImageBalanceHoldCommand
| Release billing_env BatchImageBalanceHoldCommand

definition charge_applied :: "(billing_error + UsageBillingApplyResult) \<Rightarrow> bool" where
  "charge_applied out = (case out of Inl e \<Rightarrow> False | Inr r \<Rightarrow> Applied r)"

definition hold_applied :: "(billing_error + BatchImageBalanceHoldResult) \<Rightarrow> bool" where
  "hold_applied out = (case out of Inl e \<Rightarrow> False | Inr r \<Rightarrow> h_Applied r)"

fun billing_step :: "billing_op \<Rightarrow> billing_db \<Rightarrow> bool \<times> billing_db" where
  "billing_step (Charge env c) db =
     (charge_applied (fst (Apply env (Some c) db)), snd (Apply env (Some c) db))"
| "billing_step (Reserve env c) db =
     (hold_applied (fst (ReserveBatchImageBalance env (Some c) db)),
      snd (ReserveBatchImageBalance env (Some c) db))"
| "billing_step (Capture env c) db =
     (hold_applied (fst (CaptureBatchImageBalance env (Some c) db)),
      snd (CaptureBatchImageBalance env (Some c) db))"
| "billing_step (Release env c) db =
     (hold_applied (fst (ReleaseBatchImageBalance env (Some c) db)),
      snd (ReleaseBatchImageBalance env (Some c) db))"

fun billing_key :: "billing_op \<Rightarrow> string \<times> int" where
  "billing_key (Charge env c) = (trim_space (RequestID c), APIKeyID c)"
| "billing_key (Reserve env c) = (trim_space (h_RequestID c), h_APIKeyID c)"
| "billing_key (Capture env c) = (trim_space (h_RequestID c), h_APIKeyID c)"
| "billing_key (Release env c) = (trim_space (h_RequestID c), h_APIKeyID c)"

definition key_claimed :: "billing_db \<Rightarrow> string \<times> int \<Rightarrow> bool" where
  "key_claimed db k \<longleftrightarrow> dedup db k \<noteq> None \<or> dedup_archive db k \<noteq> None"

definition hold_body ::
  "(billing_env \<Rightarrow> BatchImageBalanceHoldCommand \<Rightarrow> billing_db
       \<Rightarrow> billing_error + (BatchImageBalanceHoldResult \<times> billing_db)) \<Rightarrow> bool" where
  "hold_body f \<longleftrightarrow> f \<in> {reserveUsageBillingBatchImageBalance, captureUsageBillingBatchImageBalance,
                       releaseUsageBillingBatchImageBalance}"

lemma hold_body_dedup:
  assumes "hold_body f" and "f env cmd db = Inr (r, db')"
  shows "dedup db' = dedup db \<and> dedup_archive db' = dedup_archive db"
  using assms reserve_Inr [of env cmd db r db'] capture_Inr [of env cmd db r db']
    release_Inr [of env cmd db r db']
  by (auto simp: hold_body_def dest!: hold_effect_frame split: if_splits)

lemma apply_hold_dedup:
  assumes "hold_body f" and "applyBatchImageBalanceHold f env (Some c) db = (out, db')"
  shows "(\<not> hold_applied out \<and> db' = db)
    \<or> (hold_applied out \<and> \<not> key_claimed db (trim_space (h_RequestID c), h_APIKeyID c)
       \<and> key_claimed db' (trim_space (h_RequestID c), h_APIKeyID c)
       \<and> (\<forall>k. key_claimed db k \<longrightarrow> key_claimed db' k))"
proof -
  define cmd where "cmd = NormalizeHold (env_sha256 env) c"
  define db0 where "db0 = db\<lparr>dedup := (dedup db)((h_RequestID cmd, h_APIKeyID cmd) \<mapsto> h_RequestFingerprint cmd)\<rparr>"
  from apply_hold_cases [OF assms(2) cmd_def]
  consider "db' = db" "\<not> hold_applied out"
    | r r1 where "out = Inr r" "h_Applied r" "\<not> key_claimed db (h_RequestID cmd, h_APIKeyID cmd)"
        "f env cmd db0 = Inr (r1, db')"
    by (auto simp: hold_applied_def key_claimed_def db0_def split: sum.splits)
  then show ?thesis
  proof cases
    case 1
    then show ?thesis by simp
  next
    case 2
    have "key_claimed db' k = key_claimed db0 k" for k
      using hold_body_dedup [OF assms(1) 2(4)] by (simp add: key_claimed_def)
    with 2 show ?thesis by (simp add: hold_applied_def key_claimed_def db0_def cmd_def)
  qed
qed

lemma apply_charge_dedup:
  assumes "Apply env (Some c) db = (out, db')"
  shows "(\<not> charge_applied out \<and> db' = db)
    \<or> (charge_applied out \<and> \<not> key_claimed db (trim_space (RequestID c), APIKeyID c)
       \<and> key_claimed db' (trim_space (RequestID c), APIKeyID c)
       \<and> (\<forall>k. key_claimed db k \<longrightarrow> key_claimed db' k))"
proof (cases "charge_applied out")
  case True
  then obtain r where r: "out = Inr r" "Applied r" by (auto simp: charge_applied_def split: sum.splits)
  from Apply_Applied [OF assms [unfolded r(1)] r(2) refl] True
  show ?thesis by (auto dest!: effects_dedup simp: key_claimed_def)
next
  case False
  with Apply_outcome [OF assms] show ?thesis by (auto simp: charge_applied_def)
qed

lemma hold_bodies [simp]:
  "hold_body reserveUsageBillingBatchImageBalance"
  "hold_body captureUsageBillingBatchImageBalance"
  "hold_body releaseUsageBillingBatchImageBalance"
  by (simp_all add: hold_body_def)

lemma billing_step_ledger:
  assumes "billing_step op db = (b, db')"
  shows "(\<not> b \<and> db' = db)
    \<or> (b \<and> \<not> key_claimed db (billing_key op) \<and> key_claimed db' (billing_key op)
       \<and> (\<forall>k. key_claimed db k \<longrightarrow> key_claimed db' k))"
proof (cases op)
  case (Charge env c)
  with assms apply_charge_dedup [of env c db] show ?thesis
    by (cases "Apply env (Some c) db") simp
next
  case (Reserve env c)
  with assms apply_hold_dedup [OF hold_bodies(1), of env c db] show ?thesis
    by (cases "ReserveBatchImageBalance env (Some c) db") (simp add: ReserveBatchImageBalance_def)
next
  case (Capture env c)
  with assms apply_hold_dedup [OF hold_bodies(2), of env c db] show ?thesis
    by (cases "CaptureBatchImageBalance env (Some c) db") (simp add: CaptureBatchImageBalance_def)
next
  case (Release env c)
  with assms apply_hold_dedup [OF hold_bodies(3), of env c db] show ?thesis
    by (cases "ReleaseBatchImageBalance env (Some c) db") (simp add: ReleaseBatchImageBalance_def)
qed

interpretation ledger: idempotent_ledger billing_step billing_key key_claimed
  by unfold_locales (use billing_step_ledger in blast)+

text \<open>C1 (billing_at_most_once): However charges, reservations, captures and releases are delivered,
  retried and interleaved, with whatever statements failing, at most one delivery of a request id
  and API key is applied.\<close>

theorem billing_at_most_once:
  "length (filter (\<lambda>(op, applied). billing_key op = k \<and> applied)
      (fst (ledger_run billing_step ops db))) \<le> 1"
  by (rule ledger.at_most_once)

text \<open>A billing operation that reports an error, or that finds its
  key taken, leaves every table exactly as it was, at whichever statement it stopped.\<close>

theorem unapplied_changes_nothing:
  assumes "billing_step op db = (False, db')"
  shows "db' = db"
  using assms by (rule ledger.refused_keeps)

section \<open>Money\<close>

definition row_funds :: "user_row \<Rightarrow> decimal" where
  "row_funds u = u_balance u + u_frozen_balance u"

definition scaled_row :: "user_row \<Rightarrow> bool" where
  "scaled_row u \<longleftrightarrow> on_scale 8 (u_balance u) \<and> on_scale 8 (u_frozen_balance u)"

text \<open>What an applied operation takes out of a user's balance and frozen balance together.\<close>

fun spent :: "int \<Rightarrow> billing_op \<Rightarrow> decimal" where
  "spent uid (Charge env c) =
     (if UserID c = uid then max 0 (QuantizeUsageBillingAmount (BalanceCost c)) else 0)"
| "spent uid (Capture env c) =
     (if h_UserID c = uid \<and> (0 < h_HoldAmount c \<or> 0 < h_ActualAmount c) then h_ActualAmount c else 0)"
| "spent uid (Reserve env c) = 0"
| "spent uid (Release env c) = 0"

text \<open>The operations on a user's balances whose amounts have more than the eight decimals of the
  balance columns.  The charges are rounded by the code, the amounts of the holds are not.\<close>

fun off_scale :: "int \<Rightarrow> billing_op \<Rightarrow> bool" where
  "off_scale uid (Charge env c) \<longleftrightarrow> False"
| "off_scale uid (Reserve env c) \<longleftrightarrow> h_UserID c = uid \<and> \<not> on_scale 8 (h_HoldAmount c)"
| "off_scale uid (Capture env c) \<longleftrightarrow>
     h_UserID c = uid \<and> \<not> (on_scale 8 (h_HoldAmount c) \<and> on_scale 8 (h_ActualAmount c))"
| "off_scale uid (Release env c) \<longleftrightarrow> h_UserID c = uid \<and> \<not> on_scale 8 (h_HoldAmount c)"

lemma on_scale_uminus_iff: "on_scale n (- x) \<longleftrightarrow> on_scale n x"
  using on_scale_uminus [of n x] on_scale_uminus [of n "- x"] by auto

text \<open>The two columns are rounded separately, each by at most half a unit.\<close>

definition drift :: "bool \<Rightarrow> decimal" where
  "drift off = (if off then 1 / 10 ^ 8 else 0)"

lemma drift_simps [simp]: "drift True = 1 / 10 ^ 8" "drift False = 0" "0 \<le> drift off"
  by (simp_all add: drift_def)

lemma two_columns:
  fixes b f :: decimal
  assumes "on_scale 8 b" "on_scale 8 f"
  shows "\<bar>round_half_away 8 (b + x) + round_half_away 8 (f + y) - (b + f + (x + y))\<bar>
    \<le> drift (\<not> (on_scale 8 x \<and> on_scale 8 y))"
proof (cases "on_scale 8 x \<and> on_scale 8 y")
  case True
  with assms show ?thesis by simp
next
  case False
  have "(1 :: rat) / 10 ^ 8 = 1 / 2 / 10 ^ 8 + 1 / 2 / 10 ^ 8" by simp
  with False show ?thesis
    using round_half_away_error [of 8 "b + x"] round_half_away_error [of 8 "f + y"]
    unfolding drift_def by (simp only: if_P not_False_eq_True)
qed

text \<open>One user's row before and after an applied operation.\<close>

definition row_step :: "bool \<Rightarrow> decimal \<Rightarrow> user_row option \<Rightarrow> user_row option \<Rightarrow> bool" where
  "row_step off amount r r' \<longleftrightarrow>
     (case r of
        None \<Rightarrow> r' = None
      | Some u \<Rightarrow> \<exists>u'. r' = Some u'
          \<and> (scaled_row u \<longrightarrow> scaled_row u' \<and> \<bar>row_funds u' - (row_funds u - amount)\<bar> \<le> drift off)
          \<and> (0 \<le> u_frozen_balance u \<longrightarrow> 0 \<le> u_frozen_balance u'))"

lemma row_step_refl [simp]: "row_step off 0 r r"
  by (auto simp: row_step_def split: option.split)

lemma hold_effect_row_step:
  assumes "hold_effect cmd guard change db db'"
    and "\<And>u. u_balance (change u) = round_half_away 8 (u_balance u + x)"
    and "\<And>u. u_frozen_balance (change u) = round_half_away 8 (u_frozen_balance u + y)"
    and "\<And>u. guard u \<Longrightarrow> 0 \<le> u_frozen_balance u \<Longrightarrow> 0 \<le> u_frozen_balance u + y"
  shows "row_step (h_UserID cmd = uid \<and> \<not> (on_scale 8 x \<and> on_scale 8 y))
           (if h_UserID cmd = uid then - (x + y) else 0) (users db uid) (users db' uid)"
proof -
  from assms(1) obtain u where u: "users db (h_UserID cmd) = Some u" "guard u"
    "db' = db\<lparr>users := (users db)(h_UserID cmd \<mapsto> change u)\<rparr>"
    unfolding hold_effect_def by blast
  show ?thesis
  proof (cases "h_UserID cmd = uid")
    case True
    have "row_step (\<not> (on_scale 8 x \<and> on_scale 8 y)) (- (x + y)) (Some u) (Some (change u))"
      using two_columns [of "u_balance u" "u_frozen_balance u" x y] assms(4) [OF u(2)]
      by (auto simp: row_step_def scaled_row_def row_funds_def assms(2,3) algebra_simps
          intro: round_half_away_nonneg)
    with True u show ?thesis by simp
  next
    case False
    with u show ?thesis by simp
  qed
qed

lemma Apply_users_other:
  assumes "Apply env (Some c) db = (Inr r, db')" and "Applied r"
    and "UserID c \<noteq> uid \<or> QuantizeUsageBillingAmount (BalanceCost c) \<le> 0"
  shows "users db' uid = users db uid"
proof -
  define cmd where "cmd = Normalize (env_sha256 env) c"
  define db0 where "db0 = db\<lparr>dedup := (dedup db)((RequestID cmd, APIKeyID cmd) \<mapsto> RequestFingerprint cmd)\<rparr>"
  have "applyUsageBillingEffects env cmd (empty_result\<lparr>Applied := True\<rparr>) db0 = Inr (r, db')"
    using Apply_Applied [OF assms(1,2) cmd_def] by (simp add: db0_def)
  then obtain db1 r2 db2 r3 db3 r4 db4 where chain:
    "subscription_effect env cmd db0 = Inr db1"
    "balance_effect env cmd (empty_result\<lparr>Applied := True\<rparr>, db1) = Inr (r2, db2)"
    "key_quota_effect env cmd (r2, db2) = Inr (r3, db3)"
    "key_rate_effect env cmd (r3, db3) = Inr (r4, db4)"
    "account_quota_effect env cmd (r4, db4) = Inr (r, db')"
    by (rule effects_chain)
  have "users db2 uid = users db1 uid"
  proof (cases "BalanceCost cmd > 0")
    case True
    then have "UserID cmd \<noteq> uid" using assms(3) by (auto simp: cmd_def)
    then show ?thesis using balance_effect_frame [OF chain(2)] by simp
  next
    case False
    then show ?thesis using chain(2) by (simp add: balance_effect_def)
  qed
  then show ?thesis
    using subscription_effect_frame [OF chain(1)] key_quota_effect_frame [OF chain(3)]
      key_rate_effect_frame [OF chain(4)] account_quota_effect_frame [OF chain(5)]
    by (simp add: db0_def)
qed

lemma charge_row_step:
  assumes "Apply env (Some c) db = (out, db')" and "charge_applied out"
  shows "row_step False (spent uid (Charge env c)) (users db uid) (users db' uid)"
proof -
  let ?q = "QuantizeUsageBillingAmount (BalanceCost c)"
  obtain r where r: "out = Inr r" "Applied r"
    using assms(2) by (auto simp: charge_applied_def split: sum.splits)
  note a = assms(1) [unfolded r(1)] r(2)
  show ?thesis
  proof (cases "UserID c \<noteq> uid \<or> ?q \<le> 0")
    case True
    from Apply_users_other [OF a True] True show ?thesis by (auto simp: max_def)
  next
    case False
    then have pos: "0 < ?q" by simp
    obtain u where u: "users db uid = Some u"
      "users db' uid = Some (u\<lparr>u_balance := round_half_away 8 (u_balance u - ?q), u_updated_at := env_now env\<rparr>)"
      using Apply_user [OF a pos] False by auto
    have "on_scale 8 (u_balance u) \<Longrightarrow> round_half_away 8 (u_balance u - ?q) = u_balance u - ?q"
      by simp
    then have "row_step False (max 0 ?q) (Some u)
        (Some (u\<lparr>u_balance := round_half_away 8 (u_balance u - ?q), u_updated_at := env_now env\<rparr>))"
      using pos by (simp add: row_step_def scaled_row_def row_funds_def max_def)
    with u False show ?thesis by simp
  qed
qed

lemma hold_row_step:
  assumes "applyBatchImageBalanceHold f env (Some c) db = (out, db')" and "hold_applied out"
    and "\<And>cmd db0 r. h_UserID cmd = h_UserID c \<Longrightarrow> h_HoldAmount cmd = h_HoldAmount c \<Longrightarrow>
      h_ActualAmount cmd = h_ActualAmount c \<Longrightarrow> f env cmd db0 = Inr (r, db') \<Longrightarrow>
      row_step off amount (users db0 uid) (users db' uid)"
  shows "row_step off amount (users db uid) (users db' uid)"
proof -
  define cmd where "cmd = NormalizeHold (env_sha256 env) c"
  obtain r1 where "f env cmd
      (db\<lparr>dedup := (dedup db)((h_RequestID cmd, h_APIKeyID cmd) \<mapsto> h_RequestFingerprint cmd)\<rparr>)
      = Inr (r1, db')"
    using apply_hold_cases [OF assms(1) cmd_def] assms(2)
    by (auto simp: hold_applied_def split: sum.splits)
  from assms(3) [OF _ _ _ this] show ?thesis by (simp add: cmd_def)
qed

lemma reserve_row_step:
  assumes "reserveUsageBillingBatchImageBalance env cmd db = Inr (r, db')"
  shows "row_step (h_UserID cmd = uid \<and> \<not> on_scale 8 (h_HoldAmount cmd)) 0 (users db uid) (users db' uid)"
proof (cases "h_HoldAmount cmd \<le> 0")
  case True
  with reserve_Inr [OF assms] show ?thesis by simp
next
  case False
  from hold_effect_row_step [OF reserve_Inr [OF assms, simplified False if_False],
      of "- h_HoldAmount cmd" "h_HoldAmount cmd" uid] False
  show ?thesis by (simp add: on_scale_uminus_iff cong: if_cong)
qed

lemma release_row_step:
  assumes "releaseUsageBillingBatchImageBalance env cmd db = Inr (r, db')"
  shows "row_step (h_UserID cmd = uid \<and> \<not> on_scale 8 (h_HoldAmount cmd)) 0 (users db uid) (users db' uid)"
proof (cases "h_HoldAmount cmd \<le> 0
    \<or> dedup db (BatchImageHoldRequestID (h_BatchID cmd), h_APIKeyID cmd) = None
      \<and> dedup_archive db (BatchImageHoldRequestID (h_BatchID cmd), h_APIKeyID cmd) = None")
  case True
  with release_Inr [OF assms] show ?thesis by (metis row_step_refl)
next
  case False
  from hold_effect_row_step [OF release_Inr [OF assms, unfolded if_not_P [OF False]],
      of "h_HoldAmount cmd" "- h_HoldAmount cmd" uid] False
  show ?thesis by (simp add: on_scale_uminus_iff cong: if_cong)
qed

lemma row_step_wider: "row_step off a r r' \<Longrightarrow> (off \<Longrightarrow> off') \<Longrightarrow> row_step off' a r r'"
  by (cases off; cases off') (auto simp: row_step_def split: option.splits)

lemma capture_row_step:
  assumes "captureUsageBillingBatchImageBalance env cmd db = Inr (r, db')"
  shows "row_step
    (h_UserID cmd = uid \<and> \<not> (on_scale 8 (h_HoldAmount cmd) \<and> on_scale 8 (h_ActualAmount cmd)))
    (if h_UserID cmd = uid \<and> (0 < h_HoldAmount cmd \<or> 0 < h_ActualAmount cmd) then h_ActualAmount cmd else 0)
    (users db uid) (users db' uid)"
proof (cases "h_HoldAmount cmd \<le> 0 \<and> h_ActualAmount cmd \<le> 0")
  case True
  with capture_Inr [OF assms] show ?thesis by auto
next
  case False
  from hold_effect_row_step [OF capture_Inr [OF assms, unfolded if_not_P [OF False]],
      of "h_HoldAmount cmd - h_ActualAmount cmd" "- h_HoldAmount cmd" uid] False
  show ?thesis by (auto simp: not_le on_scale_uminus_iff elim!: row_step_wider)
qed

lemma billing_step_row:
  assumes "billing_step op db = (True, db')"
  shows "row_step (off_scale uid op) (spent uid op) (users db uid) (users db' uid)"
proof (cases op)
  case (Charge env c)
  with assms charge_row_step [of env c db] show ?thesis
    by (cases "Apply env (Some c) db") simp
next
  case (Reserve env c)
  then have a: "applyBatchImageBalanceHold reserveUsageBillingBatchImageBalance env (Some c) db
      = (fst (ReserveBatchImageBalance env (Some c) db), db')"
    and h: "hold_applied (fst (ReserveBatchImageBalance env (Some c) db))"
    using assms by (simp_all add: ReserveBatchImageBalance_def prod_eq_iff)
  show ?thesis
    unfolding Reserve spent.simps off_scale.simps
    by (rule hold_row_step [OF a h]) (metis reserve_row_step)
next
  case (Capture env c)
  then have a: "applyBatchImageBalanceHold captureUsageBillingBatchImageBalance env (Some c) db
      = (fst (CaptureBatchImageBalance env (Some c) db), db')"
    and h: "hold_applied (fst (CaptureBatchImageBalance env (Some c) db))"
    using assms by (simp_all add: CaptureBatchImageBalance_def prod_eq_iff)
  show ?thesis
    unfolding Capture spent.simps off_scale.simps
    by (rule hold_row_step [OF a h]) (metis capture_row_step)
next
  case (Release env c)
  then have a: "applyBatchImageBalanceHold releaseUsageBillingBatchImageBalance env (Some c) db
      = (fst (ReleaseBatchImageBalance env (Some c) db), db')"
    and h: "hold_applied (fst (ReleaseBatchImageBalance env (Some c) db))"
    using assms by (simp_all add: ReleaseBatchImageBalance_def prod_eq_iff)
  show ?thesis
    unfolding Release spent.simps off_scale.simps
    by (rule hold_row_step [OF a h]) (metis release_row_step)
qed

text \<open>No sequence of charges, reservations, captures and releases,
  whatever their amounts and failures, drives a user's frozen balance below zero.\<close>

theorem frozen_never_negative:
  assumes "\<forall>uid u. users db uid = Some u \<longrightarrow> 0 \<le> u_frozen_balance u"
    and "users (snd (ledger_run billing_step ops db)) uid = Some u"
  shows "0 \<le> u_frozen_balance u"
proof -
  define I where "I d \<longleftrightarrow> (\<forall>uid u. users d uid = Some u \<longrightarrow> 0 \<le> u_frozen_balance u)" for d :: billing_db
  have "I (snd (ledger_run billing_step ops db))"
  proof (rule ledger.run_invariant [where I = I])
    show "I db" using assms(1) by (simp add: I_def)
    fix op d d' assume i: "I d" and s: "billing_step op d = (True, d')"
    show "I d'"
      unfolding I_def
    proof (intro allI impI)
      fix v w assume w: "users d' v = Some w"
      from billing_step_row [OF s, of v] w i show "0 \<le> u_frozen_balance w"
        by (auto simp: row_step_def I_def split: option.splits)
    qed
  qed
  with assms(2) show ?thesis by (simp add: I_def)
qed

text \<open>The total spent by the applied operations of a run.\<close>

fun total_spent :: "int \<Rightarrow> (billing_op \<times> bool) list \<Rightarrow> decimal" where
  "total_spent uid [] = 0"
| "total_spent uid ((op, applied) # rest) =
     (if applied then spent uid op else 0) + total_spent uid rest"

text \<open>C2 (funds_conserved): Over any run of charges, reservations, captures and releases, whatever
  their amounts and failures, the balance and the frozen balance of a user together fall by the
  costs charged and the actual amounts captured, up to one unit of the eighth decimal for every
  applied operation on that user whose amounts have more than eight decimals; with no such
  operation, they fall by exactly that.  The balances start on the eight decimals of their columns.\<close>

theorem funds_conserved:
  assumes "users db uid = Some u" and "scaled_row u"
    and "ledger_run billing_step ops db = (outcomes, db')"
  shows "\<exists>u'. users db' uid = Some u' \<and> scaled_row u'
    \<and> \<bar>row_funds u' - (row_funds u - total_spent uid outcomes)\<bar>
        \<le> of_nat (length (filter (\<lambda>(op, applied). applied \<and> off_scale uid op) outcomes)) / 10 ^ 8
    \<and> ((\<forall>op \<in> set ops. \<not> off_scale uid op) \<longrightarrow> row_funds u' = row_funds u - total_spent uid outcomes)"
proof -
  have "\<exists>u'. users db' uid = Some u' \<and> scaled_row u'
    \<and> \<bar>row_funds u' - (row_funds u - total_spent uid outcomes)\<bar>
        \<le> of_nat (length (filter (\<lambda>(op, applied). applied \<and> off_scale uid op) outcomes)) / 10 ^ 8"
    using assms
  proof (induction ops arbitrary: db u outcomes db')
    case (Cons op ops)
    obtain b db1 where s: "billing_step op db = (b, db1)" by (cases "billing_step op db")
    obtain outcomes' where run: "ledger_run billing_step ops db1 = (outcomes', db')"
      and o: "outcomes = (op, b) # outcomes'"
      using Cons.prems(3) s by (cases "ledger_run billing_step ops db1") auto
    have "\<exists>u1. users db1 uid = Some u1 \<and> scaled_row u1
        \<and> \<bar>row_funds u1 - (row_funds u - (if b then spent uid op else 0))\<bar> \<le> drift (b \<and> off_scale uid op)"
    proof (cases b)
      case True
      with s have "billing_step op db = (True, db1)" by simp
      from billing_step_row [OF this, of uid] True Cons.prems(1,2) show ?thesis
        by (auto simp: row_step_def)
    next
      case False
      with s Cons.prems(1,2) ledger.refused_keeps show ?thesis by fastforce
    qed
    then obtain u1 where u1: "users db1 uid = Some u1" "scaled_row u1"
      "\<bar>row_funds u1 - (row_funds u - (if b then spent uid op else 0))\<bar> \<le> drift (b \<and> off_scale uid op)"
      by blast
    from Cons.IH [OF u1(1,2) run] obtain u' where "users db' uid = Some u'" "scaled_row u'"
      and near: "\<bar>row_funds u' - (row_funds u1 - total_spent uid outcomes')\<bar>
        \<le> of_nat (length (filter (\<lambda>(op, applied). applied \<and> off_scale uid op) outcomes')) / 10 ^ 8"
      by blast
    moreover have "\<bar>row_funds u' - (row_funds u - total_spent uid outcomes)\<bar>
        \<le> drift (b \<and> off_scale uid op)
          + of_nat (length (filter (\<lambda>(op, applied). applied \<and> off_scale uid op) outcomes')) / 10 ^ 8"
      using near u1(3) unfolding o total_spent.simps by linarith
    ultimately show ?case by (auto simp: o drift_def add_divide_distrib)
  qed simp
  then obtain u' where u': "users db' uid = Some u'" "scaled_row u'"
    and near: "\<bar>row_funds u' - (row_funds u - total_spent uid outcomes)\<bar>
        \<le> of_nat (length (filter (\<lambda>(op, applied). applied \<and> off_scale uid op) outcomes)) / 10 ^ 8"
    by blast
  have "set (map fst outcomes) \<subseteq> set ops"
    using assms(3) ledger_run_ops [of billing_step ops db] by simp
  then have "filter (\<lambda>(op, applied). applied \<and> off_scale uid op) outcomes = []"
    if "\<forall>op \<in> set ops. \<not> off_scale uid op"
    using that by (fastforce simp: filter_empty_conv)
  with u' near show ?thesis by fastforce
qed

section \<open>The life of one hold\<close>

definition free_key :: "billing_db \<Rightarrow> string \<Rightarrow> int \<Rightarrow> bool" where
  "free_key db rid kid \<longleftrightarrow> dedup db (rid, kid) = None \<and> dedup_archive db (rid, kid) = None"

definition no_faults :: "billing_env \<Rightarrow> bool" where
  "no_faults env \<longleftrightarrow> (\<forall>k. \<not> env_fails env k) \<and> \<not> env_repo_nil env"

lemma claim_fresh:
  "no_faults env \<Longrightarrow> free_key db rid kid \<Longrightarrow>
     claimUsageBillingRequest env rid kid fp db
     = Inr (True, db\<lparr>dedup := (dedup db)((rid, kid) \<mapsto> fp)\<rparr>)"
  by (simp add: claimUsageBillingRequest_def run_stmt_def no_faults_def free_key_def Let_def)

text \<open>A hold operation with a free key and no failing statement does its work and commits.\<close>

lemma apply_hold_fresh:
  assumes "no_faults env" and "cmd = NormalizeHold (env_sha256 env) c"
    and "h_RequestID cmd \<noteq> []" and "free_key db (h_RequestID cmd) (h_APIKeyID cmd)"
    and "f env cmd (db\<lparr>dedup := (dedup db)((h_RequestID cmd, h_APIKeyID cmd) \<mapsto> h_RequestFingerprint cmd)\<rparr>)
      = Inr (r, db')"
  shows "applyBatchImageBalanceHold f env (Some c) db = (Inr (r\<lparr>h_Applied := True\<rparr>), db')"
  using assms(1,3,5)
  by (simp add: applyBatchImageBalanceHold_def Let_def in_transaction_def claim_then_def no_faults_def
      claim_fresh [OF assms(1,4)] flip: assms(2))

lemma update_balances_ok:
  "no_faults env \<Longrightarrow> users db uid = Some u \<Longrightarrow> \<not> u_deleted u \<Longrightarrow> guard u \<Longrightarrow>
     update_balances env k uid guard change refused db
     = Inr (\<lparr>h_Applied = False, h_NewBalance = Some (u_balance (change u)),
             h_FrozenBalance = Some (u_frozen_balance (change u))\<rparr>,
            db\<lparr>users := (users db)(uid \<mapsto> change u)\<rparr>)"
  by (simp add: update_balances_def run_stmt_def no_faults_def)

text \<open>The command of one batch under a given request id.\<close>

definition hold_cmd :: "string \<Rightarrow> int \<Rightarrow> int \<Rightarrow> string \<Rightarrow> decimal \<Rightarrow> decimal \<Rightarrow> string \<Rightarrow> BatchImageBalanceHoldCommand" where
  "hold_cmd rid kid uid batch hold actual payloadHash =
     \<lparr>h_RequestID = rid, h_APIKeyID = kid, h_RequestFingerprint = [], h_RequestPayloadHash = payloadHash,
      h_UserID = uid, h_BatchID = batch, h_HoldAmount = hold, h_ActualAmount = actual\<rparr>"

lemma hold_cmd_simps [simp]:
  "h_RequestID (hold_cmd rid kid uid batch hold actual ph) = rid"
  "h_APIKeyID (hold_cmd rid kid uid batch hold actual ph) = kid"
  "h_UserID (hold_cmd rid kid uid batch hold actual ph) = uid"
  "h_BatchID (hold_cmd rid kid uid batch hold actual ph) = batch"
  "h_HoldAmount (hold_cmd rid kid uid batch hold actual ph) = hold"
  "h_ActualAmount (hold_cmd rid kid uid batch hold actual ph) = actual"
  by (simp_all add: hold_cmd_def)

lemma reserve_ok:
  assumes "no_faults env" and "h_RequestID c = rid" "trim_space rid = rid" "rid \<noteq> []"
    and "free_key db rid (h_APIKeyID c)" and "0 < h_HoldAmount c"
    and "users db (h_UserID c) = Some u" "\<not> u_deleted u" "h_HoldAmount c \<le> u_balance u"
  shows "\<exists>r fp. ReserveBatchImageBalance env (Some c) db = (Inr r,
      db\<lparr>dedup := (dedup db)((rid, h_APIKeyID c) \<mapsto> fp),
         users := (users db)(h_UserID c \<mapsto>
           u\<lparr>u_balance := round_half_away 8 (u_balance u - h_HoldAmount c),
             u_frozen_balance := round_half_away 8 (u_frozen_balance u + h_HoldAmount c),
             u_updated_at := env_now env\<rparr>)\<rparr>)
    \<and> h_Applied r"
proof -
  define cmd where "cmd = NormalizeHold (env_sha256 env) c"
  define db0 where "db0 = db\<lparr>dedup := (dedup db)((rid, h_APIKeyID c) \<mapsto> h_RequestFingerprint cmd)\<rparr>"
  define u1 where "u1 = u\<lparr>u_balance := round_half_away 8 (u_balance u - h_HoldAmount c),
             u_frozen_balance := round_half_away 8 (u_frozen_balance u + h_HoldAmount c),
             u_updated_at := env_now env\<rparr>"
  obtain r where r: "reserveUsageBillingBatchImageBalance env cmd db0
      = Inr (r, db0\<lparr>users := (users db0)(h_UserID c \<mapsto> u1)\<rparr>)"
    using assms update_balances_ok [OF assms(1), of db0 "h_UserID c" u]
    by (simp add: reserveUsageBillingBatchImageBalance_def cmd_def db0_def u1_def)
  have "ReserveBatchImageBalance env (Some c) db
      = (Inr (r\<lparr>h_Applied := True\<rparr>), db0\<lparr>users := (users db0)(h_UserID c \<mapsto> u1)\<rparr>)"
    unfolding ReserveBatchImageBalance_def
    by (rule apply_hold_fresh [OF assms(1) cmd_def])
       (use assms r in \<open>simp_all add: cmd_def db0_def\<close>)
  then show ?thesis unfolding db0_def u1_def by auto
qed

lemma held_known:
  "no_faults env \<Longrightarrow> key_claimed db (BatchImageHoldRequestID b, kid) \<Longrightarrow>
     batchImageHoldClaimExists env (BatchImageHoldRequestID b) kid db = Inr True"
  by (auto simp: batchImageHoldClaimExists_def run_stmt_def no_faults_def key_claimed_def)

lemma release_ok:
  assumes "no_faults env" and "h_RequestID c = rid" "trim_space rid = rid" "rid \<noteq> []"
    and "free_key db rid (h_APIKeyID c)" and "0 < h_HoldAmount c"
    and "users db (h_UserID c) = Some u" "\<not> u_deleted u"
    and "h_HoldAmount c \<le> u_frozen_balance u"
    and "key_claimed db (BatchImageHoldRequestID (h_BatchID c), h_APIKeyID c)"
  shows "\<exists>r fp. ReleaseBatchImageBalance env (Some c) db = (Inr r,
      db\<lparr>dedup := (dedup db)((rid, h_APIKeyID c) \<mapsto> fp),
         users := (users db)(h_UserID c \<mapsto>
           u\<lparr>u_balance := round_half_away 8 (u_balance u + h_HoldAmount c),
             u_frozen_balance := round_half_away 8 (u_frozen_balance u - h_HoldAmount c),
             u_updated_at := env_now env\<rparr>)\<rparr>)
    \<and> h_Applied r"
proof -
  define cmd where "cmd = NormalizeHold (env_sha256 env) c"
  define db0 where "db0 = db\<lparr>dedup := (dedup db)((rid, h_APIKeyID c) \<mapsto> h_RequestFingerprint cmd)\<rparr>"
  define u1 where "u1 = u\<lparr>u_balance := round_half_away 8 (u_balance u + h_HoldAmount c),
             u_frozen_balance := round_half_away 8 (u_frozen_balance u - h_HoldAmount c),
             u_updated_at := env_now env\<rparr>"
  have "key_claimed db0 (BatchImageHoldRequestID (h_BatchID cmd), h_APIKeyID cmd)"
    using assms(10) by (auto simp: key_claimed_def db0_def cmd_def BatchImageHoldRequestID_def)
  from held_known [OF assms(1) this]
  obtain r where r: "releaseUsageBillingBatchImageBalance env cmd db0
      = Inr (r, db0\<lparr>users := (users db0)(h_UserID c \<mapsto> u1)\<rparr>)"
    using assms(6-9) update_balances_ok [OF assms(1), of db0 "h_UserID c" u]
    by (simp add: releaseUsageBillingBatchImageBalance_def u1_def cmd_def db0_def)
  have "ReleaseBatchImageBalance env (Some c) db
      = (Inr (r\<lparr>h_Applied := True\<rparr>), db0\<lparr>users := (users db0)(h_UserID c \<mapsto> u1)\<rparr>)"
    unfolding ReleaseBatchImageBalance_def
    by (rule apply_hold_fresh [OF assms(1) cmd_def])
       (use assms r in \<open>simp_all add: cmd_def db0_def\<close>)
  then show ?thesis unfolding db0_def u1_def by auto
qed

lemma exceeds_hold_le: "actual \<le> hold \<Longrightarrow> \<not> exceeds_hold actual hold"
proof -
  assume "actual \<le> hold"
  then have "f64 actual - f64 hold \<le> 0" using f64_mono by simp
  then have "f64 (f64 actual - f64 hold) \<le> f64 0" by (rule f64_mono)
  also have "\<dots> \<le> f64 (1 / 10 ^ 8)" by (rule f64_mono) simp
  finally show ?thesis by (simp add: exceeds_hold_def)
qed

lemma capture_ok:
  assumes "no_faults env" and "h_RequestID c = rid" "trim_space rid = rid" "rid \<noteq> []"
    and "free_key db rid (h_APIKeyID c)" and "0 < h_HoldAmount c"
    and "\<not> exceeds_hold (h_ActualAmount c) (h_HoldAmount c)"
    and "users db (h_UserID c) = Some u" "\<not> u_deleted u"
    and "h_HoldAmount c \<le> u_frozen_balance u"
  shows "\<exists>r fp. CaptureBatchImageBalance env (Some c) db = (Inr r,
      db\<lparr>dedup := (dedup db)((rid, h_APIKeyID c) \<mapsto> fp),
         users := (users db)(h_UserID c \<mapsto>
           u\<lparr>u_balance := round_half_away 8 (u_balance u + (h_HoldAmount c - h_ActualAmount c)),
             u_frozen_balance := round_half_away 8 (u_frozen_balance u - h_HoldAmount c),
             u_updated_at := env_now env\<rparr>)\<rparr>)
    \<and> h_Applied r"
proof -
  define cmd where "cmd = NormalizeHold (env_sha256 env) c"
  define db0 where "db0 = db\<lparr>dedup := (dedup db)((rid, h_APIKeyID c) \<mapsto> h_RequestFingerprint cmd)\<rparr>"
  define u1 where "u1 = u\<lparr>u_balance := round_half_away 8 (u_balance u + (h_HoldAmount c - h_ActualAmount c)),
             u_frozen_balance := round_half_away 8 (u_frozen_balance u - h_HoldAmount c),
             u_updated_at := env_now env\<rparr>"
  have "(if h_ActualAmount c < h_HoldAmount c then h_HoldAmount c - h_ActualAmount c else 0)
      - (if h_HoldAmount c < h_ActualAmount c then h_ActualAmount c - h_HoldAmount c else 0)
    = h_HoldAmount c - h_ActualAmount c" by simp
  then obtain r where r: "captureUsageBillingBatchImageBalance env cmd db0
      = Inr (r, db0\<lparr>users := (users db0)(h_UserID c \<mapsto> u1)\<rparr>)"
    using assms(6-10) update_balances_ok [OF assms(1), of db0 "h_UserID c" u]
    by (simp add: captureUsageBillingBatchImageBalance_def u1_def cmd_def db0_def Let_def
        add_diff_eq [symmetric])
  have "CaptureBatchImageBalance env (Some c) db
      = (Inr (r\<lparr>h_Applied := True\<rparr>), db0\<lparr>users := (users db0)(h_UserID c \<mapsto> u1)\<rparr>)"
    unfolding CaptureBatchImageBalance_def
    by (rule apply_hold_fresh [OF assms(1) cmd_def])
       (use assms r in \<open>simp_all add: cmd_def db0_def\<close>)
  then show ?thesis unfolding db0_def u1_def by auto
qed

text \<open>A hold operation whose update finds too little frozen money is rolled back.\<close>

lemma apply_hold_error:
  assumes "no_faults env" and "cmd = NormalizeHold (env_sha256 env) c"
    and "h_RequestID cmd \<noteq> []" and "free_key db (h_RequestID cmd) (h_APIKeyID cmd)"
    and "f env cmd (db\<lparr>dedup := (dedup db)((h_RequestID cmd, h_APIKeyID cmd) \<mapsto> h_RequestFingerprint cmd)\<rparr>)
      = Inl e"
  shows "applyBatchImageBalanceHold f env (Some c) db = (Inl e, db)"
  using assms(1,3,5)
  by (simp add: applyBatchImageBalanceHold_def Let_def in_transaction_def claim_then_def no_faults_def
      claim_fresh [OF assms(1,4)] flip: assms(2))

lemma update_balances_refused:
  "no_faults env \<Longrightarrow> users db uid = Some u \<Longrightarrow> \<not> u_deleted u \<Longrightarrow> \<not> guard u \<Longrightarrow>
     update_balances env k uid guard change refused db = Inl refused"
  by (simp add: update_balances_def run_stmt_def no_faults_def userExistsForBilling_def)

lemma release_refused:
  assumes "no_faults env" and "h_RequestID c = rid" "trim_space rid = rid" "rid \<noteq> []"
    and "free_key db rid (h_APIKeyID c)" and "0 < h_HoldAmount c"
    and "users db (h_UserID c) = Some u" "\<not> u_deleted u"
    and "\<not> h_HoldAmount c \<le> u_frozen_balance u"
    and "key_claimed db (BatchImageHoldRequestID (h_BatchID c), h_APIKeyID c)"
  shows "ReleaseBatchImageBalance env (Some c) db = (Inl FrozenBalanceInsufficient, db)"
proof -
  define cmd where "cmd = NormalizeHold (env_sha256 env) c"
  define db0 where "db0 = db\<lparr>dedup := (dedup db)((rid, h_APIKeyID c) \<mapsto> h_RequestFingerprint cmd)\<rparr>"
  have "key_claimed db0 (BatchImageHoldRequestID (h_BatchID cmd), h_APIKeyID cmd)"
    using assms(10) by (auto simp: key_claimed_def db0_def cmd_def BatchImageHoldRequestID_def)
  from held_known [OF assms(1) this]
  have r: "releaseUsageBillingBatchImageBalance env cmd db0 = Inl FrozenBalanceInsufficient"
    using assms(6-9) update_balances_refused [OF assms(1), of db0 "h_UserID c" u]
    by (simp add: releaseUsageBillingBatchImageBalance_def cmd_def db0_def)
  show ?thesis
    unfolding ReleaseBatchImageBalance_def
    by (rule apply_hold_error [OF assms(1) cmd_def])
       (use assms r in \<open>simp_all add: cmd_def db0_def\<close>)
qed

lemma capture_refused:
  assumes "no_faults env" and "h_RequestID c = rid" "trim_space rid = rid" "rid \<noteq> []"
    and "free_key db rid (h_APIKeyID c)" and "0 < h_HoldAmount c"
    and "\<not> exceeds_hold (h_ActualAmount c) (h_HoldAmount c)"
    and "users db (h_UserID c) = Some u" "\<not> u_deleted u"
    and "\<not> h_HoldAmount c \<le> u_frozen_balance u"
  shows "CaptureBatchImageBalance env (Some c) db = (Inl FrozenBalanceInsufficient, db)"
proof -
  define cmd where "cmd = NormalizeHold (env_sha256 env) c"
  define db0 where "db0 = db\<lparr>dedup := (dedup db)((rid, h_APIKeyID c) \<mapsto> h_RequestFingerprint cmd)\<rparr>"
  have r: "captureUsageBillingBatchImageBalance env cmd db0 = Inl FrozenBalanceInsufficient"
    using assms(6-10) update_balances_refused [OF assms(1), of db0 "h_UserID c" u]
    by (simp add: captureUsageBillingBatchImageBalance_def cmd_def db0_def Let_def)
  show ?thesis
    unfolding CaptureBatchImageBalance_def
    by (rule apply_hold_error [OF assms(1) cmd_def])
       (use assms r in \<open>simp_all add: cmd_def db0_def\<close>)
qed

lemma trim_space_label:
  "trim_space (CHR ''b'' # q @ CHR '':'' # trim_space s) = CHR ''b'' # q @ CHR '':'' # trim_space s"
proof -
  define t where "t = CHR ''b'' # q @ CHR '':'' # trim_space s"
  have "trimmed_start space1 space2 space3 t"
    by (auto simp: trimmed_start_iff t_def space1_def space2_def space3_def)
  then have left: "trim_left t = t" by (simp add: trim_left_def trim_seqs_id)
  define p1 p2 p3 where "p1 = space1" and "p2 = (\<lambda>d c. space2 c d)" and "p3 = (\<lambda>e d c. space3 c d e)"
  define r where "r = rev (trim_space s)"
  have "r = trim_seqs p1 p2 p3 (rev (trim_left s))"
    by (simp add: r_def trim_space_def trim_right_def p1_def p2_def p3_def)
  then have r: "trimmed_start p1 p2 p3 r" by (simp add: trimmed_start_trim_seqs)
  have "trimmed_start p1 p2 p3 (r @ CHR '':'' # w)" for w
    using r unfolding p1_def p2_def p3_def
    by (cases "(p1, p2, p3, r)" rule: trimmed_start.cases; cases w)
       (auto simp: trimmed_start_iff space1_def space2_def space3_def Cons_eq_append_conv)
  then have "trimmed_start p1 p2 p3 (rev t)" by (simp add: t_def r_def)
  then have "trim_right t = t"
    by (simp add: trim_right_def p1_def p2_def p3_def trim_seqs_id)
  with left show ?thesis by (simp add: trim_space_def t_def)
qed

lemma request_ids [simp]:
  "trim_space (BatchImageHoldRequestID b) = BatchImageHoldRequestID b"
  "trim_space (BatchImageCaptureRequestID b) = BatchImageCaptureRequestID b"
  "trim_space (BatchImageReleaseRequestID b) = BatchImageReleaseRequestID b"
  using trim_space_label [of "''atch_image_hold''" b] trim_space_label [of "''atch_image_capture''" b]
    trim_space_label [of "''atch_image_release''" b]
  by (simp_all add: BatchImageHoldRequestID_def BatchImageCaptureRequestID_def
      BatchImageReleaseRequestID_def)

lemma request_ids_distinct [simp]:
  "BatchImageHoldRequestID b \<noteq> []" "BatchImageCaptureRequestID b \<noteq> []"
  "BatchImageReleaseRequestID b \<noteq> []"
  "BatchImageHoldRequestID b \<noteq> BatchImageCaptureRequestID b'"
  "BatchImageHoldRequestID b \<noteq> BatchImageReleaseRequestID b'"
  "BatchImageCaptureRequestID b \<noteq> BatchImageReleaseRequestID b'"
  by (simp_all add: BatchImageHoldRequestID_def BatchImageCaptureRequestID_def
      BatchImageReleaseRequestID_def)

lemmas request_ids_distinct' [simp] = request_ids_distinct(4-6) [symmetric]

text \<open>Adding an amount to a column and taking it off again, or the other way round: the column is
  back, unless the amount ends in half a unit, which is rounded up both times.\<close>

definition half_unit :: "decimal \<Rightarrow> bool" where
  "half_unit x \<longleftrightarrow> on_scale 8 (x + 5 / 10 ^ 9)"

lemma half_unit_uminus [simp]: "half_unit (- x) = half_unit x"
proof -
  have one: "on_scale 8 (1 / 10 ^ 8)" by (simp add: on_scale_def)
  have "- x + 5 / 10 ^ 9 = 1 / 10 ^ 8 - (x + 5 / 10 ^ 9)"
    and "x + 5 / 10 ^ 9 = 1 / 10 ^ 8 - (- x + 5 / 10 ^ 9)" by simp_all
  then show ?thesis unfolding half_unit_def using on_scale_diff [OF one] by metis
qed

lemma half_unit_off_scale: "on_scale 8 x \<Longrightarrow> \<not> half_unit x"
proof
  assume "on_scale 8 x" "half_unit x"
  then have "on_scale 8 (x + 5 / 10 ^ 9 - x)" unfolding half_unit_def by (rule on_scale_diff [rotated])
  then obtain i :: int where "(1 :: rat) / 2 = of_int i" unfolding on_scale_int by auto
  then have "(1 :: rat) = of_int (2 * i)" by simp
  then have "1 = 2 * i" by (metis of_int_1 of_int_eq_iff)
  then show False by presburger
qed

lemma round_nonneg: "0 \<le> x \<Longrightarrow> round_half_away 8 x * 10 ^ 8 = of_int \<lfloor>x * 10 ^ 8 + 1 / 2\<rfloor>"
  by (cases "x = 0") (simp_all add: round_half_away_def floor_eq_iff)

lemma there_and_back:
  assumes "on_scale 8 z" and "0 \<le> z + x" and "0 \<le> round_half_away 8 (z + x) - x"
  shows "round_half_away 8 (round_half_away 8 (z + x) - x) = z + drift (half_unit x)"
proof -
  obtain i :: int where i: "z * 10 ^ 8 = of_int i" using assms(1) unfolding on_scale_int ..
  define y where "y = x * 10 ^ 8"
  have 1: "round_half_away 8 (z + x) * 10 ^ 8 = of_int (i + \<lfloor>y + 1 / 2\<rfloor>)"
    unfolding round_nonneg [OF assms(2)] distrib_right i y_def [symmetric] by (simp add: add.assoc)
  have "round_half_away 8 (round_half_away 8 (z + x) - x) * 10 ^ 8
      = of_int \<lfloor>of_int (i + \<lfloor>y + 1 / 2\<rfloor>) - y + 1 / 2\<rfloor>"
    unfolding round_nonneg [OF assms(3)] left_diff_distrib 1 y_def [symmetric] ..
  also have "\<lfloor>of_int (i + \<lfloor>y + 1 / 2\<rfloor>) - y + 1 / 2\<rfloor> = i + \<lfloor>of_int \<lfloor>y + 1 / 2\<rfloor> - y + 1 / 2\<rfloor>"
    by (simp add: add_diff_eq [symmetric] add.assoc)
  also have "\<lfloor>of_int \<lfloor>y + 1 / 2\<rfloor> - y + 1 / 2\<rfloor> = (if half_unit x then 1 else 0)"
  proof -
    define k where "k = (of_int \<lfloor>y + 1 / 2\<rfloor> :: rat)"
    have "half_unit x \<longleftrightarrow> k = y + 1 / 2"
      by (simp add: half_unit_def on_scale_def y_def k_def distrib_right)
    moreover have "k \<le> y + 1 / 2" "y + 1 / 2 < k + 1" unfolding k_def by linarith+
    ultimately show ?thesis unfolding floor_eq_iff k_def [symmetric] by (cases "half_unit x") auto
  qed
  finally have "round_half_away 8 (round_half_away 8 (z + x) - x) * 10 ^ 8
      = (z + drift (half_unit x)) * 10 ^ 8"
    unfolding distrib_right i by (simp add: drift_def)
  then show ?thesis by simp
qed

text \<open>C31 (reserve_release_restores): Reserving a hold and releasing it later gives the user back
  the balance and the frozen balance from before.  The amount may have any number of decimals, the
  columns have eight: if the amount ends in half a unit of the eighth decimal, both columns come
  back one unit higher; and if the rounded frozen balance does not cover the amount, the release is
  refused and the hold stays frozen.  With an amount on eight decimals neither happens: both are
  applied and restore the two balances exactly.\<close>

theorem reserve_release_restores:
  assumes "no_faults env1" "no_faults env2"
    and "rc = hold_cmd (BatchImageHoldRequestID b) kid uid b hold 0 ph"
    and "lc = hold_cmd (BatchImageReleaseRequestID b) kid uid b hold 0 ph"
    and "free_key db (BatchImageHoldRequestID b) kid" "free_key db (BatchImageReleaseRequestID b) kid"
    and "users db uid = Some u" "\<not> u_deleted u" "scaled_row u"
    and "0 < hold" "hold \<le> u_balance u" "0 \<le> u_frozen_balance u"
    and "extra = (if on_scale 8 (hold + 5 / 10 ^ 9) then 1 / 10 ^ 8 else 0)"
    and "released = (hold \<le> round_half_away 8 (u_frozen_balance u + hold))"
  shows "\<exists>db' u'. ledger_run billing_step [Reserve env1 rc, Release env2 lc] db
      = ([(Reserve env1 rc, True), (Release env2 lc, released)], db')
    \<and> users db' uid = Some u'
    \<and> (if released
       then u_balance u' = u_balance u + extra \<and> u_frozen_balance u' = u_frozen_balance u + extra
       else u_balance u' = round_half_away 8 (u_balance u - hold)
         \<and> u_frozen_balance u' = round_half_away 8 (u_frozen_balance u + hold))
    \<and> (on_scale 8 hold \<longrightarrow> released \<and> u_balance u' = u_balance u \<and> u_frozen_balance u' = u_frozen_balance u)"
proof -
  have sc: "on_scale 8 (u_balance u)" "on_scale 8 (u_frozen_balance u)"
    using assms(9) by (simp_all add: scaled_row_def)
  have extra: "extra = drift (half_unit hold)" by (simp add: assms(13) drift_def half_unit_def)
  define u1 where "u1 = u\<lparr>u_balance := round_half_away 8 (u_balance u - hold),
     u_frozen_balance := round_half_away 8 (u_frozen_balance u + hold), u_updated_at := env_now env1\<rparr>"
  obtain r1 fp where 1: "ReserveBatchImageBalance env1 (Some rc) db = (Inr r1,
      db\<lparr>dedup := (dedup db)((BatchImageHoldRequestID b, kid) \<mapsto> fp),
         users := (users db)(uid \<mapsto> u1)\<rparr>)" "h_Applied r1"
    using reserve_ok [OF assms(1), of rc "BatchImageHoldRequestID b" db u] assms(3,5-12)
    by (auto simp: u1_def)
  define db1 where "db1 = db\<lparr>dedup := (dedup db)((BatchImageHoldRequestID b, kid) \<mapsto> fp),
         users := (users db)(uid \<mapsto> u1)\<rparr>"
  have db1: "free_key db1 (BatchImageReleaseRequestID b) kid" "users db1 uid = Some u1"
      "key_claimed db1 (BatchImageHoldRequestID b, kid)"
    using assms(6) by (simp_all add: db1_def free_key_def key_claimed_def)
  have thawed: "round_half_away 8 (round_half_away 8 (u_frozen_balance u + hold) - hold)
      = u_frozen_balance u + extra" if released
    using there_and_back [OF sc(2), of hold] that assms(10,12) unfolding assms(14) extra by simp
  have paid: "round_half_away 8 (round_half_away 8 (u_balance u - hold) + hold) = u_balance u + extra"
    using there_and_back [OF sc(1), of "- hold"] assms(10,11) round_half_away_nonneg [of "u_balance u - hold" 8]
    by (simp add: extra)
  have exact: "released" "extra = 0" if "on_scale 8 hold"
    using that sc(2) assms(12) by (simp_all add: extra half_unit_off_scale assms(14))
  show ?thesis
  proof (cases released)
    case True
    obtain r2 fp2 where 2: "ReleaseBatchImageBalance env2 (Some lc) db1 = (Inr r2,
        db1\<lparr>dedup := (dedup db1)((BatchImageReleaseRequestID b, kid) \<mapsto> fp2),
           users := (users db1)(uid \<mapsto>
             u1\<lparr>u_balance := round_half_away 8 (u_balance u1 + hold),
                u_frozen_balance := round_half_away 8 (u_frozen_balance u1 - hold),
                u_updated_at := env_now env2\<rparr>)\<rparr>)" "h_Applied r2"
      using release_ok [OF assms(2), of lc "BatchImageReleaseRequestID b" db1 u1] db1 assms(4,8,10) True
      by (auto simp: u1_def assms(14))
    show ?thesis
      using 1 2 True thawed paid exact
      by (simp add: hold_applied_def db1_def [symmetric]) (simp add: u1_def)
  next
    case False
    have "ReleaseBatchImageBalance env2 (Some lc) db1 = (Inl FrozenBalanceInsufficient, db1)"
      using release_refused [OF assms(2), of lc "BatchImageReleaseRequestID b" db1 u1] db1 assms(4,8,10) False
      by (simp add: u1_def assms(14))
    moreover have "\<not> on_scale 8 hold" using exact(1) False by blast
    ultimately show ?thesis
      using 1 False by (simp add: hold_applied_def db1_def [symmetric]) (simp add: db1_def u1_def)
  qed
qed

text \<open>A reserved hold that the rounded frozen balance does not cover can be neither captured nor
  released: with no other money frozen, every amount that the eighth decimal rounds down is lost to
  its user.\<close>

theorem unquantized_hold_stuck:
  assumes "no_faults env1" "no_faults env2" "no_faults env3"
    and "rc = hold_cmd (BatchImageHoldRequestID b) kid uid b hold 0 ph"
    and "lc = hold_cmd (BatchImageReleaseRequestID b) kid uid b hold 0 ph"
    and "cc = hold_cmd (BatchImageCaptureRequestID b) kid uid b hold actual ph'" "actual \<le> hold"
    and "free_key db (BatchImageHoldRequestID b) kid" "free_key db (BatchImageReleaseRequestID b) kid"
      "free_key db (BatchImageCaptureRequestID b) kid"
    and "users db uid = Some u" "\<not> u_deleted u" "u_frozen_balance u = 0"
    and "0 < hold" "hold \<le> u_balance u" "round_half_away 8 hold < hold"
  shows "\<exists>r db1. ReserveBatchImageBalance env1 (Some rc) db = (Inr r, db1) \<and> h_Applied r
    \<and> map_option u_balance (users db1 uid) = Some (round_half_away 8 (u_balance u - hold))
    \<and> ReleaseBatchImageBalance env2 (Some lc) db1 = (Inl FrozenBalanceInsufficient, db1)
    \<and> CaptureBatchImageBalance env3 (Some cc) db1 = (Inl FrozenBalanceInsufficient, db1)"
proof -
  define u1 where "u1 = u\<lparr>u_balance := round_half_away 8 (u_balance u - hold),
     u_frozen_balance := round_half_away 8 (u_frozen_balance u + hold), u_updated_at := env_now env1\<rparr>"
  obtain r1 fp where 1: "ReserveBatchImageBalance env1 (Some rc) db = (Inr r1,
      db\<lparr>dedup := (dedup db)((BatchImageHoldRequestID b, kid) \<mapsto> fp),
         users := (users db)(uid \<mapsto> u1)\<rparr>)" "h_Applied r1"
    using reserve_ok [OF assms(1), of rc "BatchImageHoldRequestID b" db u] assms(4,8,11-15)
    by (auto simp: u1_def)
  define db1 where "db1 = db\<lparr>dedup := (dedup db)((BatchImageHoldRequestID b, kid) \<mapsto> fp),
         users := (users db)(uid \<mapsto> u1)\<rparr>"
  have db1: "free_key db1 (BatchImageReleaseRequestID b) kid" "free_key db1 (BatchImageCaptureRequestID b) kid"
      "users db1 uid = Some u1" "key_claimed db1 (BatchImageHoldRequestID b, kid)"
    using assms(9,10) by (simp_all add: db1_def free_key_def key_claimed_def)
  have "ReleaseBatchImageBalance env2 (Some lc) db1 = (Inl FrozenBalanceInsufficient, db1)"
    using release_refused [OF assms(2), of lc "BatchImageReleaseRequestID b" db1 u1] db1 assms(5,12-16)
    by (simp add: u1_def)
  moreover have "CaptureBatchImageBalance env3 (Some cc) db1 = (Inl FrozenBalanceInsufficient, db1)"
    using capture_refused [OF assms(3), of cc "BatchImageCaptureRequestID b" db1 u1] db1 assms(6,7,12-16)
    by (simp add: u1_def exceeds_hold_le)
  ultimately show ?thesis using 1 by (auto simp: db1_def [symmetric]) (simp add: db1_def u1_def)
qed

text \<open>Reserving a hold and capturing an actual cost of at most the
  hold charges the user exactly the actual cost and leaves nothing of the hold frozen.\<close>

theorem reserve_capture_charges:
  assumes "no_faults env1" "no_faults env2"
    and "rc = hold_cmd (BatchImageHoldRequestID b) kid uid b hold 0 ph"
    and "cc = hold_cmd (BatchImageCaptureRequestID b) kid uid b hold actual ph'"
    and "free_key db (BatchImageHoldRequestID b) kid" "free_key db (BatchImageCaptureRequestID b) kid"
    and "users db uid = Some u" "\<not> u_deleted u" "scaled_row u"
    and "0 < hold" "on_scale 8 hold" "hold \<le> u_balance u" "0 \<le> u_frozen_balance u"
    and "actual \<le> hold" "on_scale 8 actual"
  shows "\<exists>db' u'. ledger_run billing_step [Reserve env1 rc, Capture env2 cc] db
      = ([(Reserve env1 rc, True), (Capture env2 cc, True)], db')
    \<and> users db' uid = Some u' \<and> u_balance u' = u_balance u - actual
    \<and> u_frozen_balance u' = u_frozen_balance u"
proof -
  define u1 where "u1 = u\<lparr>u_balance := u_balance u - hold,
             u_frozen_balance := u_frozen_balance u + hold, u_updated_at := env_now env1\<rparr>"
  obtain r1 fp where 1: "ReserveBatchImageBalance env1 (Some rc) db = (Inr r1,
      db\<lparr>dedup := (dedup db)((BatchImageHoldRequestID b, kid) \<mapsto> fp),
         users := (users db)(uid \<mapsto> u1)\<rparr>)" "h_Applied r1"
    using reserve_ok [OF assms(1), of rc "BatchImageHoldRequestID b" db u] assms(3,5-13)
    by (auto simp: u1_def scaled_row_def)
  define db1 where "db1 = db\<lparr>dedup := (dedup db)((BatchImageHoldRequestID b, kid) \<mapsto> fp),
         users := (users db)(uid \<mapsto> u1)\<rparr>"
  obtain r2 fp2 where 2: "CaptureBatchImageBalance env2 (Some cc) db1 = (Inr r2,
      db1\<lparr>dedup := (dedup db1)((BatchImageCaptureRequestID b, kid) \<mapsto> fp2),
         users := (users db1)(uid \<mapsto>
           u1\<lparr>u_balance := u_balance u1 + (hold - actual), u_frozen_balance := u_frozen_balance u1 - hold,
              u_updated_at := env_now env2\<rparr>)\<rparr>)" "h_Applied r2"
    using capture_ok [OF assms(2), of cc "BatchImageCaptureRequestID b" db1 u1] assms(4,6,8-15)
    by (auto simp: db1_def u1_def free_key_def scaled_row_def exceeds_hold_le)
  show ?thesis
    using 1 2 by (simp add: hold_applied_def db1_def [symmetric]) (simp add: u1_def)
qed

text \<open>C32 (phantom_release_inert): A release for a batch whose hold was never reserved under that API
  key changes no user's balance, whatever amount it names.\<close>

theorem phantom_release_inert:
  assumes "ReleaseBatchImageBalance env (Some c) db = (out, db')"
    and "\<not> key_claimed db (BatchImageHoldRequestID (h_BatchID c), h_APIKeyID c)"
    and "trim_space (h_RequestID c) \<noteq> BatchImageHoldRequestID (h_BatchID c)"
  shows "users db' = users db"
proof -
  define cmd where "cmd = NormalizeHold (env_sha256 env) c"
  from apply_hold_cases [OF assms(1) [unfolded ReleaseBatchImageBalance_def] cmd_def]
  consider "db' = db"
    | r1 where "releaseUsageBillingBatchImageBalance env cmd
        (db\<lparr>dedup := (dedup db)((h_RequestID cmd, h_APIKeyID cmd) \<mapsto> h_RequestFingerprint cmd)\<rparr>)
        = Inr (r1, db')"
    by blast
  then show ?thesis
  proof cases
    case 2
    have "BatchImageHoldRequestID (h_BatchID cmd) = BatchImageHoldRequestID (h_BatchID c)"
      by (simp add: BatchImageHoldRequestID_def cmd_def)
    with release_Inr [OF 2] assms(2,3) show ?thesis
      by (auto simp: key_claimed_def cmd_def split: if_splits)
  qed simp
qed
text \<open>Equations that evaluate each step once.\<close>

lemma ledger_run_code [code]:
  "ledger_run step [] s = ([], s)"
  "ledger_run step (op # ops) s =
     (case step op s of (b, s1) \<Rightarrow> (case ledger_run step ops s1 of (xs, s2) \<Rightarrow> ((op, b) # xs, s2)))"
  by (simp_all add: case_prod_beta)

lemma billing_step_code [code]:
  "billing_step (Charge env c) db =
     (case Apply env (Some c) db of (out, db') \<Rightarrow> (charge_applied out, db'))"
  "billing_step (Reserve env h) db =
     (case ReserveBatchImageBalance env (Some h) db of (out, db') \<Rightarrow> (hold_applied out, db'))"
  "billing_step (Capture env h) db =
     (case CaptureBatchImageBalance env (Some h) db of (out, db') \<Rightarrow> (hold_applied out, db'))"
  "billing_step (Release env h) db =
     (case ReleaseBatchImageBalance env (Some h) db of (out, db') \<Rightarrow> (hold_applied out, db'))"
  by (simp_all add: case_prod_beta)

text \<open>
  The release asks only whether the hold was reserved, not whether it was captured since.  With
  another hold frozen, capturing and then releasing one batch refunds it out of the other's money,
  whose capture is then refused.
\<close>

definition stamped :: "BatchImageBalanceHoldCommand \<Rightarrow> BatchImageBalanceHoldCommand" where
  "stamped c = c\<lparr>h_RequestFingerprint := ''fp''\<rparr>"

definition two_holds :: "billing_op list" where
  "two_holds =
     [Reserve sample_env (stamped (hold_cmd (BatchImageHoldRequestID ''a'') 7 1 ''a'' 3 0 [])),
      Reserve sample_env (stamped (hold_cmd (BatchImageHoldRequestID ''b'') 7 1 ''b'' 3 0 [])),
      Capture sample_env (stamped (hold_cmd (BatchImageCaptureRequestID ''a'') 7 1 ''a'' 3 3 [])),
      Release sample_env (stamped (hold_cmd (BatchImageReleaseRequestID ''a'') 7 1 ''a'' 3 0 []))]"

text \<open>After holds for batches a and b, a capture of a
  and a release of a are both applied; the user is back at a balance of 7 out of 10 with nothing
  frozen although the hold of b is still open, and the capture of b fails.\<close>

theorem release_after_capture_drains_other_hold:
  "case ledger_run billing_step two_holds sample_db of (outcomes, db) \<Rightarrow>
     map snd outcomes = [True, True, True, True]
     \<and> map_option u_balance (users db 1) = Some 7
     \<and> map_option u_frozen_balance (users db 1) = Some 0
     \<and> fst (CaptureBatchImageBalance sample_env
          (Some (stamped (hold_cmd (BatchImageCaptureRequestID ''b'') 7 1 ''b'' 3 3 []))) db)
        = Inl FrozenBalanceInsufficient"
  by code_simp

section \<open>Instances\<close>

lemma sample_no_faults: "no_faults sample_env"
  by (simp add: no_faults_def sample_env_def)

lemma sample_free: "free_key sample_db rid kid"
  by (simp add: free_key_def sample_db_def)

lemma sample_scaled: "scaled_row sample_user"
  unfolding scaled_row_def sample_user_def by simp code_simp

theorem unapplied_changes_nothing_witness:
  "billing_step (Charge (sample_env\<lparr>env_fails := (\<lambda>k. k = CommitTx)\<rparr>) sample_cmd) sample_db
   = (False, sample_db)"
proof -
  define op where "op = Charge (sample_env\<lparr>env_fails := (\<lambda>k. k = CommitTx)\<rparr>) sample_cmd"
  have "fst (billing_step op sample_db) = False"
    unfolding op_def by code_simp
  then have "billing_step op sample_db = (False, snd (billing_step op sample_db))"
    by (simp add: prod_eq_iff)
  with unapplied_changes_nothing [OF this] show ?thesis by (simp add: op_def)
qed

theorem frozen_never_negative_witness:
  "\<exists>u. users (snd (ledger_run billing_step two_holds sample_db)) 1 = Some u \<and> 0 \<le> u_frozen_balance u"
proof -
  have start: "\<forall>uid u. users sample_db uid = Some u \<longrightarrow> 0 \<le> u_frozen_balance u"
    by (simp add: sample_db_def sample_user_def)
  have "\<exists>u. users (snd (ledger_run billing_step two_holds sample_db)) 1 = Some u"
  proof -
    have "users (snd (ledger_run billing_step two_holds sample_db)) 1 \<noteq> None" by code_simp
    then show ?thesis by blast
  qed
  then obtain u where "users (snd (ledger_run billing_step two_holds sample_db)) 1 = Some u" ..
  with frozen_never_negative [OF start this] show ?thesis by blast
qed

theorem funds_conserved_witness:
  "\<exists>outcomes db' u'. ledger_run billing_step two_holds sample_db = (outcomes, db')
     \<and> users db' 1 = Some u' \<and> row_funds u' = row_funds sample_user - total_spent 1 outcomes"
proof -
  have "on_scale 8 3" "on_scale 8 (0::decimal)" by code_simp+
  then have exact: "\<forall>op\<in>set two_holds. \<not> off_scale 1 op" by (simp add: two_holds_def stamped_def)
  obtain outcomes db' where run: "ledger_run billing_step two_holds sample_db = (outcomes, db')"
    by (cases "ledger_run billing_step two_holds sample_db")
  from funds_conserved [OF sample_rows(1) sample_scaled run] exact run show ?thesis by blast
qed

theorem reserve_release_restores_witness:
  "\<exists>db' u'. snd (ledger_run billing_step
        [Reserve sample_env (hold_cmd (BatchImageHoldRequestID ''a'') 7 1 ''a'' 3 0 []),
         Release sample_env (hold_cmd (BatchImageReleaseRequestID ''a'') 7 1 ''a'' 3 0 [])] sample_db) = db'
     \<and> users db' 1 = Some u' \<and> u_balance u' = 10 \<and> u_frozen_balance u' = 0"
proof -
  have sc: "on_scale 8 3" by code_simp
  have u: "\<not> u_deleted sample_user" "(0::decimal) < 3" "3 \<le> u_balance sample_user"
    "0 \<le> u_frozen_balance sample_user" "u_balance sample_user = 10" "u_frozen_balance sample_user = 0"
    by (simp_all add: sample_user_def)
  from reserve_release_restores [OF sample_no_faults sample_no_faults refl refl sample_free sample_free
      sample_rows(1) u(1) sample_scaled u(2-4) refl refl] u(5,6) sc
  show ?thesis by (metis snd_conv)
qed

text \<open>A hold of 3.000000004 out of 10: 7 stay, and the 3 that are frozen cannot be moved.\<close>

theorem unquantized_hold_stuck_witness:
  "\<exists>r db1. ReserveBatchImageBalance sample_env
        (Some (hold_cmd (BatchImageHoldRequestID ''a'') 7 1 ''a'' (3 + 4 / 10 ^ 9) 0 [])) sample_db = (Inr r, db1)
     \<and> map_option u_balance (users db1 1) = Some 7
     \<and> ReleaseBatchImageBalance sample_env
        (Some (hold_cmd (BatchImageReleaseRequestID ''a'') 7 1 ''a'' (3 + 4 / 10 ^ 9) 0 [])) db1
        = (Inl FrozenBalanceInsufficient, db1)"
proof -
  have "round_half_away 8 (10 - (3 + 4 / 10 ^ 9)) = 7" "round_half_away 8 (3 + 4 / 10 ^ 9) = 3"
    by (simp_all add: round_half_away_def floor_eq_iff)
  moreover have "\<not> u_deleted sample_user" "u_frozen_balance sample_user = 0" "u_balance sample_user = 10"
    by (simp_all add: sample_user_def)
  ultimately show ?thesis
    using unquantized_hold_stuck [OF sample_no_faults sample_no_faults sample_no_faults refl refl refl _
        sample_free sample_free sample_free sample_rows(1), where actual = 0 and ph = "[]" and ph' = "[]"
        and b = "''a''" and kid = 7 and hold = "3 + 4 / 10 ^ 9"]
    by auto
qed

theorem reserve_capture_charges_witness:
  "\<exists>db' u'. snd (ledger_run billing_step
        [Reserve sample_env (hold_cmd (BatchImageHoldRequestID ''a'') 7 1 ''a'' 3 0 []),
         Capture sample_env (hold_cmd (BatchImageCaptureRequestID ''a'') 7 1 ''a'' 3 2 [])] sample_db) = db'
     \<and> users db' 1 = Some u' \<and> u_balance u' = 8"
proof -
  have sc: "on_scale 8 3" "on_scale 8 2" by code_simp+
  have u: "\<not> u_deleted sample_user" "(0::decimal) < 3" "3 \<le> u_balance sample_user"
    "0 \<le> u_frozen_balance sample_user" "u_balance sample_user = 10" "(2::decimal) \<le> 3"
    by (simp_all add: sample_user_def)
  have "(10::decimal) - 2 = 8" by simp
  with reserve_capture_charges [where b = "''a''" and kid = 7 and ph = "[]" and ph' = "[]", OF sample_no_faults sample_no_faults refl refl sample_free sample_free
      sample_rows(1) u(1) sample_scaled u(2) sc(1) u(3,4) u(6) sc(2)] u(5)
  show ?thesis by auto
qed

theorem phantom_release_inert_witness:
  "\<exists>out db'. ReleaseBatchImageBalance sample_env
       (Some (hold_cmd (BatchImageReleaseRequestID ''a'') 7 1 ''a'' 3 0 [])) sample_db = (out, db')
     \<and> users db' = users sample_db"
proof -
  obtain out db' where r: "ReleaseBatchImageBalance sample_env
       (Some (hold_cmd (BatchImageReleaseRequestID ''a'') 7 1 ''a'' 3 0 [])) sample_db = (out, db')"
    by (cases "ReleaseBatchImageBalance sample_env
       (Some (hold_cmd (BatchImageReleaseRequestID ''a'') 7 1 ''a'' 3 0 [])) sample_db")
  have "users db' = users sample_db"
    by (rule phantom_release_inert [OF r]) (simp_all add: key_claimed_def sample_db_def)
  with r show ?thesis by blast
qed

end
