(* ===== verification/BatchImageTables.thy ===== *)
theory BatchImageTables
  imports BalanceHold
begin

text \<open>
  The data of batch image jobs (\<open>backend/internal/service/batch_image.go\<close>): statuses and the
  transition relation, the job, item and event rows, the errors, and the tables
  \<open>batch_image_jobs\<close>, \<open>batch_image_items\<close> and \<open>batch_image_events\<close> as lists
  of rows with the SQL statements that act on them.

  A status is a Go string; the columns are NUMERIC at scale ten (amounts) and four
  (multipliers), and a value is rounded to its column when it is stored.
\<close>

section \<open>Statuses\<close>

definition BatchImageJobStatusCreated :: string where
  "BatchImageJobStatusCreated = ''created''"

definition BatchImageJobStatusUploading :: string where
  "BatchImageJobStatusUploading = ''uploading''"

definition BatchImageJobStatusSubmitted :: string where
  "BatchImageJobStatusSubmitted = ''submitted''"

definition BatchImageJobStatusRunning :: string where
  "BatchImageJobStatusRunning = ''running''"

definition BatchImageJobStatusIndexing :: string where
  "BatchImageJobStatusIndexing = ''indexing''"

definition BatchImageJobStatusSettling :: string where
  "BatchImageJobStatusSettling = ''settling''"

definition BatchImageJobStatusCompleted :: string where
  "BatchImageJobStatusCompleted = ''completed''"

definition BatchImageJobStatusFailed :: string where
  "BatchImageJobStatusFailed = ''failed''"

definition BatchImageJobStatusCancelled :: string where
  "BatchImageJobStatusCancelled = ''cancelled''"

definition BatchImageJobStatusOutputDeleted :: string where
  "BatchImageJobStatusOutputDeleted = ''output_deleted''"

definition BatchImageItemStatusSuccess :: string where
  "BatchImageItemStatusSuccess = ''success''"

definition BatchImageItemStatusFailed :: string where
  "BatchImageItemStatusFailed = ''failed''"

lemmas status_defs =
  BatchImageJobStatusCreated_def BatchImageJobStatusUploading_def BatchImageJobStatusSubmitted_def
  BatchImageJobStatusRunning_def BatchImageJobStatusIndexing_def BatchImageJobStatusSettling_def
  BatchImageJobStatusCompleted_def BatchImageJobStatusFailed_def BatchImageJobStatusCancelled_def
  BatchImageJobStatusOutputDeleted_def

definition IsSupportedBatchImageProvider :: "string \<Rightarrow> bool" where
  "IsSupportedBatchImageProvider provider \<longleftrightarrow> provider = ''gemini_api'' \<or> provider = ''vertex''"

definition IsTerminalBatchImageJobStatus :: "string \<Rightarrow> bool" where
  "IsTerminalBatchImageJobStatus status \<longleftrightarrow>
     status = BatchImageJobStatusCompleted \<or> status = BatchImageJobStatusFailed
     \<or> status = BatchImageJobStatusCancelled \<or> status = BatchImageJobStatusOutputDeleted"

definition allowed_transitions :: "(string \<times> string list) list" where
  "allowed_transitions =
     [(BatchImageJobStatusCreated,
         [BatchImageJobStatusUploading, BatchImageJobStatusSubmitted, BatchImageJobStatusCancelled]),
      (BatchImageJobStatusUploading, [BatchImageJobStatusSubmitted, BatchImageJobStatusCancelled]),
      (BatchImageJobStatusSubmitted,
         [BatchImageJobStatusRunning, BatchImageJobStatusIndexing, BatchImageJobStatusFailed,
          BatchImageJobStatusCancelled]),
      (BatchImageJobStatusRunning,
         [BatchImageJobStatusRunning, BatchImageJobStatusIndexing, BatchImageJobStatusFailed,
          BatchImageJobStatusCancelled]),
      (BatchImageJobStatusIndexing, [BatchImageJobStatusSettling, BatchImageJobStatusFailed]),
      (BatchImageJobStatusSettling, [BatchImageJobStatusCompleted])]"

definition CanTransitionBatchImageJob :: "string \<Rightarrow> string \<Rightarrow> bool" where
  "CanTransitionBatchImageJob frm to \<longleftrightarrow>
     (if frm = '''' \<or> to = '''' then False
      else if IsTerminalBatchImageJobStatus frm
      then to = BatchImageJobStatusOutputDeleted \<and> frm \<noteq> BatchImageJobStatusOutputDeleted
           \<and> (frm = BatchImageJobStatusCompleted \<or> frm = BatchImageJobStatusFailed
              \<or> frm = BatchImageJobStatusCancelled)
      else if to = BatchImageJobStatusFailed then True
      else (case map_of allowed_transitions frm of None \<Rightarrow> False | Some tos \<Rightarrow> to \<in> set tos))"

section \<open>Rows\<close>

record BatchImageJob =
  j_ID :: int
  j_BatchID :: string
  j_UserID :: int
  j_APIKeyID :: "int option"
  j_AccountID :: "int option"
  j_Provider :: string
  j_Model :: string
  j_TaskName :: string
  j_ParentBatchID :: "string option"
  j_Status :: string
  j_ProviderJobName :: "string option"
  j_ProviderInputRef :: "string option"
  j_ProviderOutputRef :: "string option"
  j_GCSInputURI :: "string option"
  j_GCSOutputURI :: "string option"
  j_ItemCount :: int
  j_SuccessCount :: int
  j_FailCount :: int
  j_CancelledCount :: int
  j_EstimatedCost :: decimal
  j_HoldAmount :: "decimal option"
  j_ActualCost :: "decimal option"
  j_BaseUnitPrice :: decimal
  j_GroupRateMultiplier :: decimal
  j_AccountRateMultiplier :: decimal
  j_BatchDiscountMultiplier :: decimal
  j_HoldMultiplier :: decimal
  j_BillableUnitPrice :: decimal
  j_HoldUnitPrice :: decimal
  j_PricingSnapshotVersion :: int
  j_Currency :: string
  j_HoldID :: "string option"
  j_IdempotencyKey :: "string option"
  j_RequestHash :: "string option"
  j_ManifestHash :: "string option"
  j_SessionID :: "string option"
  j_RetryCount :: int
  j_Version :: int
  j_OutputExpiresAt :: "go_time option"
  j_InputDeletedAt :: "go_time option"
  j_OutputDeletedAt :: "go_time option"
  j_DownloadedAt :: "go_time option"
  j_UserDeletedAt :: "go_time option"
  j_LastErrorCode :: "string option"
  j_LastErrorMessage :: "string option"
  j_CreatedAt :: go_time
  j_UpdatedAt :: go_time
  j_SubmittedAt :: "go_time option"
  j_StartedAt :: "go_time option"
  j_FinishedAt :: "go_time option"
  j_SettledAt :: "go_time option"

record CreateBatchImageJobParams =
  p_BatchID :: string
  p_UserID :: int
  p_APIKeyID :: "int option"
  p_AccountID :: "int option"
  p_Provider :: string
  p_Model :: string
  p_TaskName :: string
  p_ParentBatchID :: "string option"
  p_Status :: string
  p_ProviderJobName :: "string option"
  p_ProviderInputRef :: "string option"
  p_ProviderOutputRef :: "string option"
  p_GCSInputURI :: "string option"
  p_GCSOutputURI :: "string option"
  p_ItemCount :: int
  p_SuccessCount :: int
  p_FailCount :: int
  p_CancelledCount :: int
  p_EstimatedCost :: decimal
  p_HoldAmount :: "decimal option"
  p_ActualCost :: "decimal option"
  p_BaseUnitPrice :: decimal
  p_GroupRateMultiplier :: decimal
  p_AccountRateMultiplier :: decimal
  p_BatchDiscountMultiplier :: decimal
  p_HoldMultiplier :: decimal
  p_BillableUnitPrice :: decimal
  p_HoldUnitPrice :: decimal
  p_PricingSnapshotVersion :: int
  p_Currency :: string
  p_HoldID :: "string option"
  p_IdempotencyKey :: "string option"
  p_RequestHash :: "string option"
  p_ManifestHash :: "string option"
  p_SessionID :: "string option"
  p_RetryCount :: int
  p_OutputExpiresAt :: "go_time option"

record BatchImageItem =
  i_ID :: int
  i_JobID :: string
  i_CustomID :: string
  i_Status :: string
  i_RequestHash :: "string option"
  i_PromptPreview :: "string option"
  i_ProviderSourceObject :: "string option"
  i_SourceLineNumber :: "int option"
  i_SourceByteOffset :: "int option"
  i_SourceByteLength :: "int option"
  i_MimeType :: "string option"
  i_FileExtension :: "string option"
  i_ImageCount :: int
  i_ErrorCode :: "string option"
  i_ErrorMessage :: "string option"
  i_BilledAmount :: "decimal option"
  i_CreatedAt :: go_time
  i_IndexedAt :: "go_time option"

record CreateBatchImageItemParams =
  c_JobID :: string
  c_CustomID :: string
  c_Status :: string
  c_RequestHash :: "string option"
  c_PromptPreview :: "string option"
  c_ProviderSourceObject :: "string option"
  c_SourceLineNumber :: "int option"
  c_SourceByteOffset :: "int option"
  c_SourceByteLength :: "int option"
  c_MimeType :: "string option"
  c_FileExtension :: "string option"
  c_ImageCount :: int
  c_ErrorCode :: "string option"
  c_ErrorMessage :: "string option"
  c_BilledAmount :: "decimal option"
  c_IndexedAt :: "go_time option"

record BatchImageItemFilter =
  fi_Status :: string
  fi_Limit :: int
  fi_Offset :: int

record BatchImageJobFilter =
  fj_Status :: string
  fj_TaskNameLike :: string
  fj_Downloaded :: "bool option"
  fj_CreatedAfter :: "go_time option"
  fj_CreatedBefore :: "go_time option"
  fj_ExcludeDeleted :: bool
  fj_Limit :: int
  fj_Offset :: int

record BatchImageCounts =
  n_SuccessCount :: int
  n_FailCount :: int

text \<open>An event payload is the object handed to \<open>json.Marshal\<close>, kept as its fields.\<close>

datatype json_value = JStr string | JInt int | JNum decimal | JTime go_time

type_synonym event_payload = "(string \<times> json_value) list option"

record UpdateBatchImageJobProviderSubmitParams =
  s_BatchID :: string
  s_ProviderJobName :: string
  s_ProviderInputRef :: string
  s_ProviderOutputRef :: string
  s_GCSInputURI :: string
  s_GCSOutputURI :: string
  s_EventPayload :: event_payload

record BatchImageTransitionOptions =
  t_EventType :: string
  t_EventPayload :: event_payload
  t_ErrorCode :: "string option"
  t_ErrorMessage :: "string option"
  t_Now :: "go_time option"

record MarkBatchImageJobSettledParams =
  m_BatchID :: string
  m_ActualCost :: decimal
  m_ManifestHash :: string
  m_EventPayload :: event_payload
  m_Now :: "go_time option"
  m_OutputExpiresAt :: "go_time option"

record BatchImageEvent =
  e_ID :: int
  e_JobID :: string
  e_EventType :: string
  e_Payload :: event_payload
  e_EventHash :: "string option"
  e_CreatedAt :: go_time

record batch_db =
  jobs :: "BatchImageJob list"
  items :: "BatchImageItem list"
  events :: "BatchImageEvent list"
  next_job_id :: int
  next_item_id :: int
  next_event_id :: int

section \<open>Errors, environment, transactions\<close>

datatype batch_stmt =
  BBegin | BCommit | BSelectJob | BSelectJobs | BLockJob | BInsertJob | BUpdateJob | BRowsAffected
| BInsertItem string | BSelectItems | BDeleteItems | BInsertEvent

text \<open>The two errors raised for a billing failure carry it as their cause.\<close>

datatype batch_error =
  ErrBatchImageJobNotFound | ErrBatchImageJobExists | ErrBatchImageItemExists
| ErrBatchImageInvalidTransition | ErrBatchImageInvalidProvider
| ErrBatchImageMissingProviderJobName | ErrBatchImageMissingAccountID | ErrBatchImageUnsupportedProvider
| ErrBatchImageIndexOutputMissing | ErrBatchImageIndexParseFailed
| ErrBatchImageIndexNoResultLines | ErrBatchImageDuplicateCustomID | ErrBatchImageIndexStateConflict
| ErrBatchImageSettlementInvalidStatus | ErrBatchImageSettlementManifestConflict
| ErrBatchImageSettlementPricingMissing | ErrBatchImageAlreadySettled
| ErrBatchImageSettlementMissingAPIKeyID | ErrBatchImageSettlementMissingAccountID
| ErrBatchImageSettlementInvalidCounts | ErrSettlementCostExceedsHold | ErrInsufficientBalance
| ErrBatchImageSettlementBillingFailed "billing_error option"
| ErrBatchImageBillingHoldFailed "billing_error option"
| ErrBatchImageItemNotFound | ErrBatchImageRecordDeleteNotReady
| ErrScanTooLong | ErrReadFailed | ErrProviderUnsupportedAccount | ErrNotConfigured | ErrProviderCall
| ErrBatchImageDisabled | ErrBatchImageGroupDisabled | ErrBatchImageInvalidModel | ErrBatchImageInvalidItems
| ErrBatchImageTooManyOutputImages | ErrBatchImagePromptTooLong | ErrBatchImageInvalidReferenceImage
| ErrBatchImageTooManyReferenceImages | ErrBatchImageReferenceImagesTooLarge
| ErrBatchImageDuplicateCustomIDInRequest | ErrBatchImageIdempotencyConflict
| ErrBatchImageNoAccountAvailable | ErrBatchImageQueueFailed | ErrBatchImageCancelFailed
| ErrBatchImageProviderSubmitFailed | ErrBatchImageVertexGCSBucketMissing
| ErrBatchImageProviderMissingAPIKey | ErrBatchImageProviderMissingServiceAccount
| ErrNoRows | UniqueViolation | ForeignKeyViolation | RandError | ErrContextDone | BatchSqlError batch_stmt

text \<open>
  \<open>b_now\<close> is \<open>time.Now()\<close> of the operation and \<open>b_db_now\<close> the server's \<open>NOW()\<close>;
  \<open>b_tx\<close> says whether the repository has a database handle to begin transactions on;
  \<open>b_new_id\<close> is what \<open>NewBatchImageID\<close> returns; \<open>b_ilike\<close> is PostgreSQL's \<open>ILIKE\<close>.
\<close>

record batch_env =
  b_now :: go_time
  b_db_now :: go_time
  b_fails :: "batch_stmt \<Rightarrow> bool"
  b_tx :: bool
  b_new_id :: "string option"
  b_ilike :: "string \<Rightarrow> string \<Rightarrow> bool"

type_synonym 'a batch_m = "batch_db \<Rightarrow> (batch_error + 'a) \<times> batch_db"

definition bm_return :: "'a \<Rightarrow> 'a batch_m" where
  "bm_return x db = (Inr x, db)"

definition bm_fail :: "batch_error \<Rightarrow> 'a batch_m" where
  "bm_fail e db = (Inl e, db)"

definition bm_bind :: "'a batch_m \<Rightarrow> ('a \<Rightarrow> 'b batch_m) \<Rightarrow> 'b batch_m" where
  "bm_bind m f db = (case m db of (Inl e, db') \<Rightarrow> (Inl e, db') | (Inr x, db') \<Rightarrow> f x db')"

definition bm_stmt :: "batch_env \<Rightarrow> batch_stmt \<Rightarrow> 'a batch_m \<Rightarrow> 'a batch_m" where
  "bm_stmt env k m = (if b_fails env k then bm_fail (BatchSqlError k) else m)"

text \<open>The error of a failed operation, translated.\<close>

definition bm_translate :: "(batch_error \<Rightarrow> batch_error) \<Rightarrow> 'a batch_m \<Rightarrow> 'a batch_m" where
  "bm_translate tr m db = (case m db of (Inl e, db') \<Rightarrow> (Inl (tr e), db') | (Inr x, db') \<Rightarrow> (Inr x, db'))"

text \<open>Begin, work and commit with the deferred rollback, or the work alone when there is no handle
  to begin one on.  A COMMIT that fails is modelled as a rollback: that it took effect
  and only its acknowledgement was lost is not modelled.\<close>

definition bm_tx :: "batch_env \<Rightarrow> 'a batch_m \<Rightarrow> 'a batch_m" where
  "bm_tx env m db =
     (if \<not> b_tx env then m db
      else if b_fails env BBegin then (Inl (BatchSqlError BBegin), db)
      else case m db of
             (Inl e, db') \<Rightarrow> (Inl e, db)
           | (Inr x, db') \<Rightarrow> if b_fails env BCommit then (Inl (BatchSqlError BCommit), db) else (Inr x, db'))"

definition translatePersistenceError :: "batch_error option \<Rightarrow> batch_error option \<Rightarrow> batch_error \<Rightarrow> batch_error" where
  "translatePersistenceError notFound conflict e =
     (case notFound of
        Some nf \<Rightarrow> if e = ErrNoRows then nf
                   else (case conflict of Some c \<Rightarrow> if e = UniqueViolation then c else e | None \<Rightarrow> e)
      | None \<Rightarrow> (case conflict of Some c \<Rightarrow> if e = UniqueViolation then c else e | None \<Rightarrow> e))"

section \<open>Statements\<close>

text \<open>The unique indexes: batch identifiers, and manifest hashes that are neither NULL nor empty;
  an item is unique by job and custom identifier.\<close>

definition manifest_keys :: "BatchImageJob list \<Rightarrow> string list" where
  "manifest_keys js =
     map (\<lambda>j. the (j_ManifestHash j)) (filter (\<lambda>j. j_ManifestHash j \<notin> {None, Some ''''}) js)"

definition unique_jobs :: "BatchImageJob list \<Rightarrow> bool" where
  "unique_jobs js \<longleftrightarrow> distinct (map j_BatchID js) \<and> distinct (manifest_keys js)"

text \<open>\<open>UPDATE batch_image_jobs SET \<dots> WHERE \<dots>\<close>, with the number of affected rows.\<close>

definition update_jobs ::
  "batch_env \<Rightarrow> (BatchImageJob \<Rightarrow> bool) \<Rightarrow> (BatchImageJob \<Rightarrow> BatchImageJob) \<Rightarrow> nat batch_m" where
  "update_jobs env P f = bm_stmt env BUpdateJob
     (\<lambda>db. let js = map (\<lambda>j. if P j then f j else j) (jobs db) in
           if unique_jobs js then (Inr (length (filter P (jobs db))), db\<lparr>jobs := js\<rparr>)
           else (Inl UniqueViolation, db))"

definition select_job :: "batch_env \<Rightarrow> batch_stmt \<Rightarrow> (BatchImageJob \<Rightarrow> bool) \<Rightarrow> BatchImageJob batch_m" where
  "select_job env k P = bm_stmt env k
     (\<lambda>db. case find P (jobs db) of None \<Rightarrow> (Inl ErrNoRows, db) | Some j \<Rightarrow> (Inr j, db))"

text \<open>\<open>SELECT \<dots> WHERE \<dots> ORDER BY \<dots> LIMIT \<dots> OFFSET \<dots>\<close>.\<close>

definition select_jobs ::
  "batch_env \<Rightarrow> (BatchImageJob \<Rightarrow> bool) \<Rightarrow> (BatchImageJob list \<Rightarrow> BatchImageJob list) \<Rightarrow> int \<Rightarrow> int
     \<Rightarrow> BatchImageJob list batch_m" where
  "select_jobs env P order limit offset = bm_stmt env BSelectJobs
     (\<lambda>db. (Inr (take (nat limit) (drop (nat offset) (order (filter P (jobs db))))), db))"

text \<open>\<open>CASE WHEN c IS NULL THEN v ELSE c END\<close>.\<close>

definition once :: "'a option \<Rightarrow> 'a option \<Rightarrow> 'a option" where
  "once c v = (case c of None \<Rightarrow> v | Some x \<Rightarrow> Some x)"

lemma once_simps [simp]: "once None v = v" "once (Some x) v = Some x"
  by (simp_all add: once_def)

definition nullif_empty :: "string \<Rightarrow> string option" where
  "nullif_empty s = (if s = '''' then None else Some s)"

definition appendBatchImageEventWithSQL :: "batch_env \<Rightarrow> string \<Rightarrow> string \<Rightarrow> event_payload \<Rightarrow> unit batch_m" where
  "appendBatchImageEventWithSQL env batchID eventType payload = bm_stmt env BInsertEvent
     (\<lambda>db. if batchID \<in> j_BatchID ` set (jobs db)
           then (Inr (), db\<lparr>events := events db @
                   [\<lparr>e_ID = next_event_id db, e_JobID = batchID, e_EventType = eventType,
                     e_Payload = payload, e_EventHash = None, e_CreatedAt = b_db_now env\<rparr>],
                 next_event_id := next_event_id db + 1\<rparr>)
           else (Inl ForeignKeyViolation, db))"

text \<open>The inserted row, with the defaults of the columns that are not given.\<close>

definition new_job_row :: "batch_env \<Rightarrow> int \<Rightarrow> CreateBatchImageJobParams \<Rightarrow> BatchImageJob" where
  "new_job_row env jid p =
     \<lparr>j_ID = jid, j_BatchID = p_BatchID p, j_UserID = p_UserID p,
      j_APIKeyID = p_APIKeyID p, j_AccountID = p_AccountID p,
      j_Provider = p_Provider p, j_Model = p_Model p, j_TaskName = p_TaskName p,
      j_ParentBatchID = p_ParentBatchID p, j_Status = p_Status p,
      j_ProviderJobName = p_ProviderJobName p,
      j_ProviderInputRef = p_ProviderInputRef p,
      j_ProviderOutputRef = p_ProviderOutputRef p,
      j_GCSInputURI = p_GCSInputURI p, j_GCSOutputURI = p_GCSOutputURI p,
      j_ItemCount = p_ItemCount p, j_SuccessCount = p_SuccessCount p,
      j_FailCount = p_FailCount p, j_CancelledCount = p_CancelledCount p,
      j_EstimatedCost = round_half_away 10 (p_EstimatedCost p),
      j_HoldAmount = map_option (round_half_away 10) (p_HoldAmount p),
      j_ActualCost = map_option (round_half_away 10) (p_ActualCost p),
      j_BaseUnitPrice = round_half_away 10 (p_BaseUnitPrice p),
      j_GroupRateMultiplier = round_half_away 4 (p_GroupRateMultiplier p),
      j_AccountRateMultiplier = round_half_away 4 (p_AccountRateMultiplier p),
      j_BatchDiscountMultiplier = round_half_away 4 (p_BatchDiscountMultiplier p),
      j_HoldMultiplier = round_half_away 4 (p_HoldMultiplier p),
      j_BillableUnitPrice = round_half_away 10 (p_BillableUnitPrice p),
      j_HoldUnitPrice = round_half_away 10 (p_HoldUnitPrice p),
      j_PricingSnapshotVersion = p_PricingSnapshotVersion p,
      j_Currency = p_Currency p, j_HoldID = p_HoldID p,
      j_IdempotencyKey = p_IdempotencyKey p, j_RequestHash = p_RequestHash p,
      j_ManifestHash = p_ManifestHash p, j_SessionID = p_SessionID p,
      j_RetryCount = p_RetryCount p, j_Version = 0,
      j_OutputExpiresAt = p_OutputExpiresAt p, j_InputDeletedAt = None,
      j_OutputDeletedAt = None, j_DownloadedAt = None, j_UserDeletedAt = None,
      j_LastErrorCode = None, j_LastErrorMessage = None,
      j_CreatedAt = b_db_now env, j_UpdatedAt = b_db_now env,
      j_SubmittedAt = None, j_StartedAt = None, j_FinishedAt = None,
      j_SettledAt = None\<rparr>"

definition createBatchImageJobWithSQL :: "batch_env \<Rightarrow> CreateBatchImageJobParams \<Rightarrow> BatchImageJob batch_m" where
  "createBatchImageJobWithSQL env p = bm_stmt env BInsertJob
     (\<lambda>db. let j = new_job_row env (next_job_id db) p
           in if unique_jobs (jobs db @ [j])
              then (Inr j, db\<lparr>jobs := jobs db @ [j], next_job_id := next_job_id db + 1\<rparr>)
              else (Inl UniqueViolation, db))"

definition createBatchImageItemWithSQL :: "batch_env \<Rightarrow> CreateBatchImageItemParams \<Rightarrow> BatchImageItem batch_m" where
  "createBatchImageItemWithSQL env p = bm_stmt env (BInsertItem (c_CustomID p))
     (\<lambda>db. if c_JobID p \<notin> j_BatchID ` set (jobs db) then (Inl ForeignKeyViolation, db)
           else if (c_JobID p, c_CustomID p) \<in> (\<lambda>i. (i_JobID i, i_CustomID i)) ` set (items db)
           then (Inl UniqueViolation, db)
           else let i = \<lparr>i_ID = next_item_id db, i_JobID = c_JobID p, i_CustomID = c_CustomID p,
                         i_Status = c_Status p, i_RequestHash = c_RequestHash p,
                         i_PromptPreview = c_PromptPreview p,
                         i_ProviderSourceObject = c_ProviderSourceObject p,
                         i_SourceLineNumber = c_SourceLineNumber p,
                         i_SourceByteOffset = c_SourceByteOffset p,
                         i_SourceByteLength = c_SourceByteLength p, i_MimeType = c_MimeType p,
                         i_FileExtension = c_FileExtension p, i_ImageCount = c_ImageCount p,
                         i_ErrorCode = c_ErrorCode p, i_ErrorMessage = c_ErrorMessage p,
                         i_BilledAmount = map_option (round_half_away 10) (c_BilledAmount p),
                         i_CreatedAt = b_db_now env, i_IndexedAt = c_IndexedAt p\<rparr>
                in (Inr i, db\<lparr>items := items db @ [i], next_item_id := next_item_id db + 1\<rparr>))"

end
