(* ===== verification/BatchImageRepo.thy ===== *)
theory BatchImageRepo
  imports BatchImageTables
begin

text \<open>
  The repository of batch image jobs (\<open>backend/internal/repository/batch_image_repo.go\<close>):
  one definition per method, over the tables.  A method that runs in a transaction goes through
  \<open>bm_tx\<close>; the others commit statement by statement, so a failing second statement leaves
  the first one in place.
\<close>

section \<open>Creating and reading jobs\<close>

definition create_defaults :: "CreateBatchImageJobParams \<Rightarrow> CreateBatchImageJobParams" where
  "create_defaults p1 =
     (let p2 = (if p_Status p1 = '''' then p1\<lparr>p_Status := BatchImageJobStatusCreated\<rparr> else p1)
      in if p_Currency p2 = '''' then p2\<lparr>p_Currency := ''USD''\<rparr> else p2)"

definition CreateBatchImageJob :: "batch_env \<Rightarrow> CreateBatchImageJobParams \<Rightarrow> BatchImageJob batch_m" where
  "CreateBatchImageJob env p0 =
     (if \<not> IsSupportedBatchImageProvider (p_Provider p0) then bm_fail ErrBatchImageInvalidProvider
      else bm_bind
        (if p_BatchID p0 = ''''
         then (case b_new_id env of None \<Rightarrow> bm_fail RandError
                                  | Some bid \<Rightarrow> bm_return (p0\<lparr>p_BatchID := bid\<rparr>))
         else bm_return p0)
        (\<lambda>p1. bm_translate (translatePersistenceError None (Some ErrBatchImageJobExists))
                (createBatchImageJobWithSQL env (create_defaults p1))))"

definition get_job :: "batch_env \<Rightarrow> (BatchImageJob \<Rightarrow> bool) \<Rightarrow> BatchImageJob batch_m" where
  "get_job env P =
     bm_translate (translatePersistenceError (Some ErrBatchImageJobNotFound) None)
       (select_job env BSelectJob P)"

definition GetBatchImageJobByBatchID :: "batch_env \<Rightarrow> string \<Rightarrow> BatchImageJob batch_m" where
  "GetBatchImageJobByBatchID env batchID = get_job env (\<lambda>j. j_BatchID j = batchID)"

text \<open>\<open>ORDER BY id DESC LIMIT 1\<close> and the first row.\<close>

definition GetBatchImageJobByIdempotencyKey ::
  "batch_env \<Rightarrow> int \<Rightarrow> int \<Rightarrow> string \<Rightarrow> BatchImageJob batch_m" where
  "GetBatchImageJobByIdempotencyKey env userID apiKeyID key =
     bm_translate (translatePersistenceError (Some ErrBatchImageJobNotFound) None)
       (bm_stmt env BSelectJob
          (\<lambda>db. case sort_key (\<lambda>j. - j_ID j)
                       (filter (\<lambda>j. j_UserID j = userID \<and> j_APIKeyID j = Some apiKeyID
                                  \<and> j_IdempotencyKey j = Some key) (jobs db)) of
                  [] \<Rightarrow> (Inl ErrNoRows, db) | j # _ \<Rightarrow> (Inr j, db)))"

definition GetBatchImageJobByBatchIDForOwner ::
  "batch_env \<Rightarrow> int \<Rightarrow> int \<Rightarrow> string \<Rightarrow> BatchImageJob batch_m" where
  "GetBatchImageJobByBatchIDForOwner env userID apiKeyID batchID =
     get_job env (\<lambda>j. j_BatchID j = batchID \<and> j_UserID j = userID \<and> j_APIKeyID j = Some apiKeyID
                    \<and> j_UserDeletedAt j = None)"

definition GetBatchImageJobByID :: "batch_env \<Rightarrow> int \<Rightarrow> BatchImageJob batch_m" where
  "GetBatchImageJobByID env jid = get_job env (\<lambda>j. j_ID j = jid)"

definition ListBatchImageJobsForOwner ::
  "batch_env \<Rightarrow> int \<Rightarrow> int \<Rightarrow> BatchImageJobFilter \<Rightarrow> BatchImageJob list batch_m" where
  "ListBatchImageJobsForOwner env userID apiKeyID filt =
     (let limit = (if fj_Limit filt \<le> 0 \<or> fj_Limit filt > 100 then 20 else fj_Limit filt);
          offset = (if fj_Offset filt < 0 then 0 else fj_Offset filt)
      in select_jobs env
           (\<lambda>j. j_UserID j = userID \<and> j_APIKeyID j = Some apiKeyID
              \<and> (fj_ExcludeDeleted filt \<longrightarrow> j_UserDeletedAt j = None)
              \<and> (fj_Status filt \<noteq> '''' \<longrightarrow> j_Status j = fj_Status filt)
              \<and> (fj_TaskNameLike filt \<noteq> ''''
                   \<longrightarrow> b_ilike env (j_TaskName j) (''%'' @ fj_TaskNameLike filt @ ''%''))
              \<and> (case fj_Downloaded filt of None \<Rightarrow> True
                 | Some d \<Rightarrow> d = (j_DownloadedAt j \<noteq> None))
              \<and> (case fj_CreatedAfter filt of None \<Rightarrow> True | Some t \<Rightarrow> j_CreatedAt j \<ge> t)
              \<and> (case fj_CreatedBefore filt of None \<Rightarrow> True | Some t \<Rightarrow> j_CreatedAt j < t))
           (\<lambda>js. sort_key (\<lambda>j. - j_CreatedAt j) (sort_key (\<lambda>j. - j_ID j) js))
           limit offset)"

section \<open>Status changes\<close>

definition lock_status :: "batch_env \<Rightarrow> string \<Rightarrow> BatchImageJob batch_m" where
  "lock_status env batchID =
     bm_translate (translatePersistenceError (Some ErrBatchImageJobNotFound) None)
       (select_job env BLockJob (\<lambda>j. j_BatchID j = batchID))"

definition transition_row ::
  "go_time \<Rightarrow> string \<Rightarrow> BatchImageTransitionOptions \<Rightarrow> BatchImageJob \<Rightarrow> BatchImageJob" where
  "transition_row now to opts j =
     j\<lparr>j_Status := to,
       j_Version := j_Version j + 1,
       j_UpdatedAt := now,
       j_LastErrorCode := (if to = ''failed'' then t_ErrorCode opts else j_LastErrorCode j),
       j_LastErrorMessage := (if to = ''failed'' then t_ErrorMessage opts else j_LastErrorMessage j),
       j_SubmittedAt := (if to = ''submitted'' then once (j_SubmittedAt j) (Some now) else j_SubmittedAt j),
       j_StartedAt := (if to = ''running'' then once (j_StartedAt j) (Some now) else j_StartedAt j),
       j_FinishedAt := (if to \<in> {''completed'', ''failed'', ''cancelled''}
                        then once (j_FinishedAt j) (Some now) else j_FinishedAt j),
       j_SettledAt := (if to = ''completed'' then once (j_SettledAt j) (Some now) else j_SettledAt j),
       j_OutputDeletedAt := (if to = ''output_deleted'' then once (j_OutputDeletedAt j) (Some now)
                             else j_OutputDeletedAt j)\<rparr>"

definition transitionBatchImageJobStatusWithSQL ::
  "batch_env \<Rightarrow> string \<Rightarrow> string \<Rightarrow> BatchImageTransitionOptions \<Rightarrow> unit batch_m" where
  "transitionBatchImageJobStatusWithSQL env batchID toStatus opts =
     bm_bind (lock_status env batchID)
       (\<lambda>cur. if \<not> CanTransitionBatchImageJob (j_Status cur) toStatus
              then bm_fail ErrBatchImageInvalidTransition
              else let now = (case t_Now opts of None \<Rightarrow> b_now env | Some t \<Rightarrow> t)
                   in bm_bind (update_jobs env (\<lambda>j. j_BatchID j = batchID) (transition_row now toStatus opts))
                        (\<lambda>_. if t_EventType opts \<noteq> ''''
                             then appendBatchImageEventWithSQL env batchID (t_EventType opts) (t_EventPayload opts)
                             else bm_return ()))"

definition TransitionBatchImageJobStatus ::
  "batch_env \<Rightarrow> string \<Rightarrow> string \<Rightarrow> BatchImageTransitionOptions \<Rightarrow> unit batch_m" where
  "TransitionBatchImageJobStatus env batchID toStatus opts =
     bm_tx env (transitionBatchImageJobStatusWithSQL env batchID toStatus opts)"

definition unsubmitted :: "BatchImageJob \<Rightarrow> bool" where
  "unsubmitted j \<longleftrightarrow> j_Status j \<in> {''created'', ''uploading''}"

definition touch_row :: "go_time \<Rightarrow> BatchImageJob \<Rightarrow> BatchImageJob" where
  "touch_row now j = j\<lparr>j_UpdatedAt := now\<rparr>"

definition TouchBatchImageJobSubmitting :: "batch_env \<Rightarrow> string \<Rightarrow> unit batch_m" where
  "TouchBatchImageJobSubmitting env batchID =
     bm_bind (update_jobs env (\<lambda>j. j_BatchID j = batchID \<and> unsubmitted j)
                (touch_row (b_now env)))
       (\<lambda>_. bm_return ())"

text \<open>The row of a failed submission; \<open>markFailed\<close> says whether the status is set.\<close>

definition submit_failure_row ::
  "go_time \<Rightarrow> string \<Rightarrow> string \<Rightarrow> bool \<Rightarrow> BatchImageJob \<Rightarrow> BatchImageJob" where
  "submit_failure_row now code message markFailed j =
     (let st = (if markFailed then ''failed'' else j_Status j)
      in j\<lparr>j_Status := st, j_LastErrorCode := Some code, j_LastErrorMessage := Some message,
           j_FinishedAt := (if st = ''failed'' then once (j_FinishedAt j) (Some now) else j_FinishedAt j),
           j_UpdatedAt := now, j_Version := j_Version j + 1\<rparr>)"

text \<open>The two results of \<open>FailStaleUnsubmittedBatchImageJob\<close> are returned together: whether
  the update was applied, and the error, if any.\<close>

definition FailStaleUnsubmittedBatchImageJob ::
  "batch_env \<Rightarrow> string \<Rightarrow> go_time \<Rightarrow> string \<Rightarrow> string \<Rightarrow> batch_db \<Rightarrow> (bool \<times> batch_error option) \<times> batch_db" where
  "FailStaleUnsubmittedBatchImageJob env batchID cutoff code message db =
     (case bm_bind
        (update_jobs env
           (\<lambda>j. j_BatchID j = batchID \<and> unsubmitted j \<and> j_ProviderJobName j = None \<and> j_UpdatedAt j \<le> cutoff)
           (submit_failure_row (b_now env) code message True))
        (\<lambda>affected. bm_stmt env BRowsAffected (bm_return affected)) db of
        (Inl e, db1) \<Rightarrow> ((False, Some e), db1)
      | (Inr affected, db1) \<Rightarrow>
          if affected = 0 then ((False, None), db1)
          else (case appendBatchImageEventWithSQL env batchID ''billing_hold_recovery_failed_unsubmitted''
                       (Some [(''batch_id'', JStr batchID), (''error_code'', JStr code)]) db1 of
                  (Inl e, db2) \<Rightarrow> ((True, Some e), db2)
                | (Inr u, db2) \<Rightarrow> ((True, None), db2)))"

text \<open>\<open>if affected, err := res.RowsAffected(); err == nil \&\& affected == 0\<close>.\<close>

definition must_affect :: "batch_env \<Rightarrow> batch_error \<Rightarrow> nat \<Rightarrow> unit batch_m" where
  "must_affect env e affected =
     (if \<not> b_fails env BRowsAffected \<and> affected = 0 then bm_fail e else bm_return ())"

definition output_ref_row :: "go_time \<Rightarrow> string \<Rightarrow> BatchImageJob \<Rightarrow> BatchImageJob" where
  "output_ref_row now ref j = j\<lparr>j_ProviderOutputRef := Some ref, j_UpdatedAt := now\<rparr>"

definition UpdateBatchImageJobProviderOutputRef :: "batch_env \<Rightarrow> string \<Rightarrow> string \<Rightarrow> unit batch_m" where
  "UpdateBatchImageJobProviderOutputRef env batchID ref =
     bm_bind
       (bm_translate (translatePersistenceError (Some ErrBatchImageJobNotFound) None)
          (update_jobs env (\<lambda>j. j_BatchID j = batchID)
             (output_ref_row (b_now env) ref)))
       (must_affect env ErrBatchImageJobNotFound)"

definition provider_submit_row ::
  "go_time \<Rightarrow> UpdateBatchImageJobProviderSubmitParams \<Rightarrow> BatchImageJob \<Rightarrow> BatchImageJob" where
  "provider_submit_row now p j =
     j\<lparr>j_Status := ''submitted'',
       j_ProviderJobName := Some (s_ProviderJobName p),
       j_ProviderInputRef := nullif_empty (s_ProviderInputRef p),
       j_ProviderOutputRef := nullif_empty (s_ProviderOutputRef p),
       j_GCSInputURI := nullif_empty (s_GCSInputURI p),
       j_GCSOutputURI := nullif_empty (s_GCSOutputURI p),
       j_SubmittedAt := once (j_SubmittedAt j) (Some (now)),
       j_UpdatedAt := now,
       j_Version := j_Version j + 1\<rparr>"

definition updateBatchImageJobProviderSubmitWithSQL ::
  "batch_env \<Rightarrow> UpdateBatchImageJobProviderSubmitParams \<Rightarrow> unit batch_m" where
  "updateBatchImageJobProviderSubmitWithSQL env p =
     bm_bind (lock_status env (s_BatchID p))
       (\<lambda>cur. if \<not> CanTransitionBatchImageJob (j_Status cur) BatchImageJobStatusSubmitted
              then bm_fail ErrBatchImageInvalidTransition
              else bm_bind
                (update_jobs env (\<lambda>j. j_BatchID j = s_BatchID p)
                   (provider_submit_row (b_now env) p))
                (\<lambda>_. appendBatchImageEventWithSQL env (s_BatchID p) ''provider_submitted'' (s_EventPayload p)))"

definition UpdateBatchImageJobProviderSubmit ::
  "batch_env \<Rightarrow> UpdateBatchImageJobProviderSubmitParams \<Rightarrow> unit batch_m" where
  "UpdateBatchImageJobProviderSubmit env p = bm_tx env (updateBatchImageJobProviderSubmitWithSQL env p)"

definition RecordBatchImageJobSubmitFailure ::
  "batch_env \<Rightarrow> string \<Rightarrow> string \<Rightarrow> string \<Rightarrow> bool \<Rightarrow> unit batch_m" where
  "RecordBatchImageJobSubmitFailure env batchID code message markFailed =
     bm_bind
       (update_jobs env (\<lambda>j. j_BatchID j = batchID)
          (submit_failure_row (b_now env) code message markFailed))
       (\<lambda>_. appendBatchImageEventWithSQL env batchID
              (if \<not> markFailed then ''queue_failed'' else ''submit_failed'')
              (Some [(''error_code'', JStr code)]))"

section \<open>Settlement\<close>

definition settle_row :: "go_time \<Rightarrow> MarkBatchImageJobSettledParams \<Rightarrow> BatchImageJob \<Rightarrow> BatchImageJob" where
  "settle_row now p j =
     j\<lparr>j_Status := ''completed'',
       j_ActualCost := Some (round_half_away 10 (m_ActualCost p)),
       j_ManifestHash := Some (m_ManifestHash p),
       j_SettledAt := once (j_SettledAt j) (Some now),
       j_FinishedAt := once (j_FinishedAt j) (Some now),
       j_OutputExpiresAt := once (j_OutputExpiresAt j) (m_OutputExpiresAt p),
       j_UpdatedAt := now,
       j_Version := j_Version j + 1\<rparr>"

definition markBatchImageJobSettledWithSQL :: "batch_env \<Rightarrow> MarkBatchImageJobSettledParams \<Rightarrow> unit batch_m" where
  "markBatchImageJobSettledWithSQL env p =
     (let now = (case m_Now p of None \<Rightarrow> b_now env | Some t \<Rightarrow> t) in
      bm_bind
        (update_jobs env
           (\<lambda>j. j_BatchID j = m_BatchID p \<and> j_Status j = ''settling''
              \<and> j_ManifestHash j \<in> {None, Some '''', Some (m_ManifestHash p)})
           (settle_row now p))
        (\<lambda>affected0. bm_bind (bm_stmt env BRowsAffected (bm_return affected0))
           (\<lambda>affected.
              if affected = 0
              then bm_bind
                (bm_translate (translatePersistenceError (Some ErrBatchImageJobNotFound) None)
                   (select_job env BSelectJob (\<lambda>j. j_BatchID j = m_BatchID p)))
                (\<lambda>job. if j_Status job \<noteq> BatchImageJobStatusSettling
                       then (if j_Status job = BatchImageJobStatusCompleted
                             then bm_fail ErrBatchImageAlreadySettled
                             else bm_fail ErrBatchImageSettlementInvalidStatus)
                       else bm_fail ErrBatchImageSettlementManifestConflict)
              else appendBatchImageEventWithSQL env (m_BatchID p) ''settlement_completed''
                     (m_EventPayload p))))"

definition MarkBatchImageJobSettled :: "batch_env \<Rightarrow> MarkBatchImageJobSettledParams \<Rightarrow> unit batch_m" where
  "MarkBatchImageJobSettled env p = bm_tx env (markBatchImageJobSettledWithSQL env p)"

definition settlement_failed_row :: "go_time \<Rightarrow> string \<Rightarrow> string \<Rightarrow> BatchImageJob \<Rightarrow> BatchImageJob" where
  "settlement_failed_row now code message j =
     j\<lparr>j_LastErrorCode := Some code, j_LastErrorMessage := Some message,
       j_RetryCount := j_RetryCount j + 1, j_UpdatedAt := now\<rparr>"

text \<open>\<open>UPDATE \<dots> RETURNING retry_count\<close>; a failing event insertion returns the error after
  the update has been committed.\<close>

definition SetBatchImageJobSettlementFailed :: "batch_env \<Rightarrow> string \<Rightarrow> string \<Rightarrow> string \<Rightarrow> int batch_m" where
  "SetBatchImageJobSettlementFailed env batchID code message =
     bm_bind
       (update_jobs env (\<lambda>j. j_BatchID j = batchID) (settlement_failed_row (b_now env) code message))
       (\<lambda>affected.
          if affected = 0 then bm_fail ErrBatchImageJobNotFound
          else (\<lambda>db. case find (\<lambda>j. j_BatchID j = batchID) (jobs db) of
                       None \<Rightarrow> (Inl ErrBatchImageJobNotFound, db)
                     | Some j \<Rightarrow>
                         bm_bind
                           (appendBatchImageEventWithSQL env batchID ''settlement_failed''
                              (Some [(''error_code'', JStr code)]))
                           (\<lambda>_. bm_return (j_RetryCount j)) db))"
section \<open>Items\<close>

definition CreateBatchImageItem :: "batch_env \<Rightarrow> CreateBatchImageItemParams \<Rightarrow> BatchImageItem batch_m" where
  "CreateBatchImageItem env p =
     bm_translate (translatePersistenceError None (Some ErrBatchImageItemExists))
       (createBatchImageItemWithSQL env p)"

fun create_items :: "batch_env \<Rightarrow> CreateBatchImageItemParams list \<Rightarrow> unit batch_m" where
  "create_items env [] = bm_return ()"
| "create_items env (p # ps) = bm_bind (CreateBatchImageItem env p) (\<lambda>_. create_items env ps)"

definition BulkCreateBatchImageItems :: "batch_env \<Rightarrow> CreateBatchImageItemParams list \<Rightarrow> unit batch_m" where
  "BulkCreateBatchImageItems env ps = (if ps = [] then bm_return () else bm_tx env (create_items env ps))"

definition batchImageItemPromptPreviews :: "batch_env \<Rightarrow> string \<Rightarrow> (string \<rightharpoonup> string) batch_m" where
  "batchImageItemPromptPreviews env batchID = bm_stmt env BSelectItems
     (\<lambda>db. (Inr (map_of (map (\<lambda>i. (i_CustomID i, the (i_PromptPreview i)))
                   (filter (\<lambda>i. i_JobID i = batchID \<and> i_PromptPreview i \<notin> {None, Some ''''}) (items db)))), db))"

definition delete_items :: "batch_env \<Rightarrow> string \<Rightarrow> unit batch_m" where
  "delete_items env batchID = bm_stmt env BDeleteItems
     (\<lambda>db. (Inr (), db\<lparr>items := filter (\<lambda>i. i_JobID i \<noteq> batchID) (items db)\<rparr>))"

definition with_preview ::
  "string \<Rightarrow> (string \<rightharpoonup> string) \<Rightarrow> CreateBatchImageItemParams \<Rightarrow> CreateBatchImageItemParams" where
  "with_preview batchID previews p =
     p\<lparr>c_JobID := batchID,
       c_PromptPreview := (case c_PromptPreview p of Some s \<Rightarrow> Some s | None \<Rightarrow> previews (c_CustomID p))\<rparr>"

definition counts_row :: "go_time \<Rightarrow> BatchImageCounts \<Rightarrow> BatchImageJob \<Rightarrow> BatchImageJob" where
  "counts_row now counts j =
     j\<lparr>j_SuccessCount := n_SuccessCount counts, j_FailCount := n_FailCount counts, j_UpdatedAt := now\<rparr>"

definition replaceBatchImageItemsForJobWithSQL ::
  "batch_env \<Rightarrow> string \<Rightarrow> CreateBatchImageItemParams list \<Rightarrow> BatchImageCounts \<Rightarrow> unit batch_m" where
  "replaceBatchImageItemsForJobWithSQL env batchID ps counts =
     bm_bind (lock_status env batchID)
       (\<lambda>cur. if j_Status cur \<noteq> BatchImageJobStatusIndexing then bm_fail ErrBatchImageIndexStateConflict
              else bm_bind (batchImageItemPromptPreviews env batchID)
                (\<lambda>previews. bm_bind (delete_items env batchID)
                  (\<lambda>_. bm_bind (create_items env (map (with_preview batchID previews) ps))
                    (\<lambda>_. bm_bind
                      (update_jobs env (\<lambda>j. j_BatchID j = batchID)
                         (counts_row (b_now env) counts))
                      (\<lambda>_. bm_return ())))))"

definition ReplaceBatchImageItemsForJob ::
  "batch_env \<Rightarrow> string \<Rightarrow> CreateBatchImageItemParams list \<Rightarrow> BatchImageCounts \<Rightarrow> unit batch_m" where
  "ReplaceBatchImageItemsForJob env batchID ps counts =
     bm_tx env (replaceBatchImageItemsForJobWithSQL env batchID ps counts)"

definition ListBatchImageItems ::
  "batch_env \<Rightarrow> string \<Rightarrow> BatchImageItemFilter \<Rightarrow> BatchImageItem list batch_m" where
  "ListBatchImageItems env batchID filt =
     (let limit = (if fi_Limit filt \<le> 0 \<or> fi_Limit filt > 500 then 100 else fi_Limit filt);
          offset = (if fi_Offset filt < 0 then 0 else fi_Offset filt)
      in bm_stmt env BSelectItems
           (\<lambda>db. (Inr (take (nat limit) (drop (nat offset) (sort_key i_ID
                    (filter (\<lambda>i. i_JobID i = batchID
                               \<and> (fi_Status filt \<noteq> '''' \<longrightarrow> i_Status i = fi_Status filt)) (items db))))), db)))"

definition ListBatchImageItemsForOwner ::
  "batch_env \<Rightarrow> int \<Rightarrow> int \<Rightarrow> string \<Rightarrow> BatchImageItemFilter \<Rightarrow> BatchImageItem list batch_m" where
  "ListBatchImageItemsForOwner env userID apiKeyID batchID filt =
     bm_bind (GetBatchImageJobByBatchIDForOwner env userID apiKeyID batchID)
       (\<lambda>_. ListBatchImageItems env batchID filt)"

definition GetBatchImageJobForDownload :: "batch_env \<Rightarrow> int \<Rightarrow> int \<Rightarrow> string \<Rightarrow> BatchImageJob batch_m" where
  "GetBatchImageJobForDownload = GetBatchImageJobByBatchIDForOwner"

definition GetBatchImageItemForDownload :: "batch_env \<Rightarrow> string \<Rightarrow> string \<Rightarrow> BatchImageItem batch_m" where
  "GetBatchImageItemForDownload env batchID customID =
     bm_translate (translatePersistenceError (Some ErrBatchImageItemNotFound) None)
       (bm_stmt env BSelectItems
          (\<lambda>db. case find (\<lambda>i. i_JobID i = batchID \<and> i_CustomID i = customID) (items db) of
                  None \<Rightarrow> (Inl ErrNoRows, db) | Some i \<Rightarrow> (Inr i, db)))"

definition ListBatchImageItemsForDownload ::
  "batch_env \<Rightarrow> string \<Rightarrow> string \<Rightarrow> int \<Rightarrow> BatchImageItem list batch_m" where
  "ListBatchImageItemsForDownload env batchID status limit =
     ListBatchImageItems env batchID \<lparr>fi_Status = status, fi_Limit = limit, fi_Offset = 0\<rparr>"

section \<open>Scans for background work\<close>

definition scan_limit :: "int \<Rightarrow> int" where
  "scan_limit limit = (if limit \<le> 0 \<or> limit > 1000 then 100 else limit)"

definition terminal_in_sql :: "BatchImageJob \<Rightarrow> bool" where
  "terminal_in_sql j \<longleftrightarrow> j_Status j \<in> {''completed'', ''failed'', ''cancelled'', ''output_deleted''}"

definition ListBatchImageJobsDueForInputCleanup :: "batch_env \<Rightarrow> go_time \<Rightarrow> int \<Rightarrow> BatchImageJob list batch_m" where
  "ListBatchImageJobsDueForInputCleanup env cutoff limit =
     select_jobs env
       (\<lambda>j. j_InputDeletedAt j = None \<and> j_ProviderInputRef j \<noteq> None \<and> terminal_in_sql j
          \<and> coalesce (j_FinishedAt j) (coalesce (j_SettledAt j) (j_UpdatedAt j)) \<le> cutoff)
       (sort_key j_ID) (scan_limit limit) 0"

definition ListBatchImageJobsDueForOutputCleanup :: "batch_env \<Rightarrow> go_time \<Rightarrow> int \<Rightarrow> BatchImageJob list batch_m" where
  "ListBatchImageJobsDueForOutputCleanup env now limit =
     select_jobs env
       (\<lambda>j. j_OutputDeletedAt j = None \<and> j_ProviderOutputRef j \<noteq> None \<and> j_Status j = ''completed''
          \<and> (case j_OutputExpiresAt j of None \<Rightarrow> False | Some t \<Rightarrow> t \<le> now))
       (\<lambda>js. sort_key (\<lambda>j. the (j_OutputExpiresAt j)) (sort_key j_ID js)) (scan_limit limit) 0"

definition ListStaleUnsubmittedBatchImageJobs :: "batch_env \<Rightarrow> go_time \<Rightarrow> int \<Rightarrow> BatchImageJob list batch_m" where
  "ListStaleUnsubmittedBatchImageJobs env cutoff limit =
     select_jobs env
       (\<lambda>j. unsubmitted j \<and> j_ProviderJobName j = None
          \<and> coalesce (j_HoldAmount j) (j_EstimatedCost j) > 0 \<and> j_UpdatedAt j \<le> cutoff)
       (\<lambda>js. sort_key j_UpdatedAt (sort_key j_ID js)) (scan_limit limit) 0"

section \<open>Marks\<close>

definition input_deleted_row :: "go_time \<Rightarrow> BatchImageJob \<Rightarrow> BatchImageJob" where
  "input_deleted_row deletedAt j =
     j\<lparr>j_InputDeletedAt := once (j_InputDeletedAt j) (Some deletedAt),
       j_UpdatedAt := deletedAt, j_Version := j_Version j + 1\<rparr>"

definition MarkBatchImageInputDeleted :: "batch_env \<Rightarrow> string \<Rightarrow> go_time \<Rightarrow> unit batch_m" where
  "MarkBatchImageInputDeleted env batchID deletedAt =
     bm_bind
       (update_jobs env (\<lambda>j. j_BatchID j = batchID)
          (input_deleted_row deletedAt))
       (\<lambda>n. bm_bind (must_affect env ErrBatchImageJobNotFound n)
          (\<lambda>_. appendBatchImageEventWithSQL env batchID ''input_cleanup_completed''
                 (Some [(''batch_id'', JStr batchID), (''cleanup_target'', JStr ''input''),
                        (''deleted_at'', JTime deletedAt)])))"

definition output_deleted_row :: "go_time \<Rightarrow> BatchImageJob \<Rightarrow> BatchImageJob" where
  "output_deleted_row deletedAt j =
     j\<lparr>j_Status := (if j_Status j = ''completed'' then ''output_deleted'' else j_Status j),
       j_OutputDeletedAt := once (j_OutputDeletedAt j) (Some deletedAt),
       j_FinishedAt := (if j_Status j = ''completed'' then once (j_FinishedAt j) (Some deletedAt)
                        else j_FinishedAt j),
       j_UpdatedAt := deletedAt, j_Version := j_Version j + 1\<rparr>"

definition MarkBatchImageOutputDeleted :: "batch_env \<Rightarrow> string \<Rightarrow> go_time \<Rightarrow> unit batch_m" where
  "MarkBatchImageOutputDeleted env batchID deletedAt =
     bm_bind (update_jobs env (\<lambda>j. j_BatchID j = batchID) (output_deleted_row deletedAt))
       (\<lambda>n. bm_bind (must_affect env ErrBatchImageJobNotFound n)
          (\<lambda>_. appendBatchImageEventWithSQL env batchID ''output_cleanup_completed''
                 (Some [(''batch_id'', JStr batchID), (''cleanup_target'', JStr ''output''),
                        (''deleted_at'', JTime deletedAt)])))"

definition downloaded_row :: "go_time \<Rightarrow> BatchImageJob \<Rightarrow> BatchImageJob" where
  "downloaded_row downloadedAt j =
     j\<lparr>j_DownloadedAt := once (j_DownloadedAt j) (Some downloadedAt), j_UpdatedAt := downloadedAt\<rparr>"

definition MarkBatchImageDownloaded :: "batch_env \<Rightarrow> string \<Rightarrow> go_time \<Rightarrow> unit batch_m" where
  "MarkBatchImageDownloaded env batchID downloadedAt =
     bm_bind
       (update_jobs env (\<lambda>j. j_BatchID j = batchID)
          (downloaded_row downloadedAt))
       (\<lambda>n. bm_bind (must_affect env ErrBatchImageJobNotFound n)
          (\<lambda>_. appendBatchImageEventWithSQL env batchID ''download_completed''
                 (Some [(''batch_id'', JStr batchID), (''downloaded_at'', JTime downloadedAt)])))"

definition user_deleted_row :: "go_time \<Rightarrow> BatchImageJob \<Rightarrow> BatchImageJob" where
  "user_deleted_row deletedAt j =
     j\<lparr>j_UserDeletedAt := once (j_UserDeletedAt j) (Some deletedAt), j_UpdatedAt := deletedAt\<rparr>"

definition MarkBatchImageJobUserDeleted ::
  "batch_env \<Rightarrow> int \<Rightarrow> int \<Rightarrow> string \<Rightarrow> go_time \<Rightarrow> unit batch_m" where
  "MarkBatchImageJobUserDeleted env userID apiKeyID batchID deletedAt =
     bm_bind
       (update_jobs env
          (\<lambda>j. j_BatchID j = batchID \<and> j_UserID j = userID \<and> j_APIKeyID j = Some apiKeyID
             \<and> j_UserDeletedAt j = None \<and> terminal_in_sql j)
          (user_deleted_row deletedAt))
       (\<lambda>n. bm_bind (must_affect env ErrBatchImageRecordDeleteNotReady n)
          (\<lambda>_. appendBatchImageEventWithSQL env batchID ''user_record_deleted''
                 (Some [(''batch_id'', JStr batchID), (''deleted_at'', JTime deletedAt),
                        (''user_id'', JInt userID), (''api_key_id'', JInt apiKeyID)])))"

definition expires_row :: "go_time \<Rightarrow> go_time \<Rightarrow> BatchImageJob \<Rightarrow> BatchImageJob" where
  "expires_row now expiresAt j =
     j\<lparr>j_OutputExpiresAt := once (j_OutputExpiresAt j) (Some expiresAt), j_UpdatedAt := now\<rparr>"

definition SetBatchImageOutputExpiresAt :: "batch_env \<Rightarrow> string \<Rightarrow> go_time \<Rightarrow> unit batch_m" where
  "SetBatchImageOutputExpiresAt env batchID expiresAt =
     bm_bind
       (update_jobs env (\<lambda>j. j_BatchID j = batchID)
          (expires_row (b_now env) expiresAt))
       (must_affect env ErrBatchImageJobNotFound)"

definition RecordBatchImageCleanupFailure :: "batch_env \<Rightarrow> string \<Rightarrow> string \<Rightarrow> string \<Rightarrow> unit batch_m" where
  "RecordBatchImageCleanupFailure env batchID code message =
     bm_bind
       (update_jobs env (\<lambda>j. j_BatchID j = batchID) (settlement_failed_row (b_now env) code message))
       (\<lambda>_. appendBatchImageEventWithSQL env batchID ''output_cleanup_failed''
              (Some [(''error_code'', JStr code)]))"

definition AppendBatchImageEvent :: "batch_env \<Rightarrow> string \<Rightarrow> string \<Rightarrow> event_payload \<Rightarrow> unit batch_m" where
  "AppendBatchImageEvent = appendBatchImageEventWithSQL"

end
