(* ===== verification/BatchImageLifecycle.thy ===== *)
theory BatchImageLifecycle
  imports BatchImageRepo
begin

text \<open>
  What the repository does to a job over its life: a calculus for the repository's methods
  (\<open>row_policy\<close>), whose rules follow the structure of the definitions, and three policies
  it is interpreted on: which fields never change or are set once, which statuses follow which,
  and what a row in each status has been through.
\<close>

section \<open>The methods as operations\<close>

datatype batch_op =
  OpCreate CreateBatchImageJobParams
| OpTransition string string BatchImageTransitionOptions
| OpTouch string
| OpFailStale string go_time string string
| OpOutputRef string string
| OpSubmit UpdateBatchImageJobProviderSubmitParams
| OpSubmitFailure string string string bool
| OpSettled MarkBatchImageJobSettledParams
| OpSettlementFailed string string string
| OpCreateItem CreateBatchImageItemParams
| OpBulkItems "CreateBatchImageItemParams list"
| OpReplaceItems string "CreateBatchImageItemParams list" BatchImageCounts
| OpInputDeleted string go_time
| OpOutputDeleted string go_time
| OpDownloaded string go_time
| OpUserDeleted int int string go_time
| OpExpires string go_time
| OpCleanupFailure string string string
| OpEvent string string event_payload

fun batch_step :: "batch_env \<Rightarrow> batch_op \<Rightarrow> batch_db \<Rightarrow> batch_db" where
  "batch_step env (OpCreate p) db = snd (CreateBatchImageJob env p db)"
| "batch_step env (OpTransition b to opts) db = snd (TransitionBatchImageJobStatus env b to opts db)"
| "batch_step env (OpTouch b) db = snd (TouchBatchImageJobSubmitting env b db)"
| "batch_step env (OpFailStale b cutoff c m) db = snd (FailStaleUnsubmittedBatchImageJob env b cutoff c m db)"
| "batch_step env (OpOutputRef b ref) db = snd (UpdateBatchImageJobProviderOutputRef env b ref db)"
| "batch_step env (OpSubmit p) db = snd (UpdateBatchImageJobProviderSubmit env p db)"
| "batch_step env (OpSubmitFailure b c m mark) db = snd (RecordBatchImageJobSubmitFailure env b c m mark db)"
| "batch_step env (OpSettled p) db = snd (MarkBatchImageJobSettled env p db)"
| "batch_step env (OpSettlementFailed b c m) db = snd (SetBatchImageJobSettlementFailed env b c m db)"
| "batch_step env (OpCreateItem p) db = snd (CreateBatchImageItem env p db)"
| "batch_step env (OpBulkItems ps) db = snd (BulkCreateBatchImageItems env ps db)"
| "batch_step env (OpReplaceItems b ps counts) db = snd (ReplaceBatchImageItemsForJob env b ps counts db)"
| "batch_step env (OpInputDeleted b t) db = snd (MarkBatchImageInputDeleted env b t db)"
| "batch_step env (OpOutputDeleted b t) db = snd (MarkBatchImageOutputDeleted env b t db)"
| "batch_step env (OpDownloaded b t) db = snd (MarkBatchImageDownloaded env b t db)"
| "batch_step env (OpUserDeleted u k b t) db = snd (MarkBatchImageJobUserDeleted env u k b t db)"
| "batch_step env (OpExpires b t) db = snd (SetBatchImageOutputExpiresAt env b t db)"
| "batch_step env (OpCleanupFailure b c m) db = snd (RecordBatchImageCleanupFailure env b c m db)"
| "batch_step env (OpEvent b ty p) db = snd (AppendBatchImageEvent env b ty p db)"

text \<open>A history: every operation with the environment it ran in.\<close>

fun batch_run :: "(batch_env \<times> batch_op) list \<Rightarrow> batch_db \<Rightarrow> batch_db" where
  "batch_run [] db = db"
| "batch_run ((env, op) # rest) db = batch_run rest (batch_step env op db)"

definition find_job :: "string \<Rightarrow> batch_db \<Rightarrow> BatchImageJob option" where
  "find_job batchID db = find (\<lambda>j. j_BatchID j = batchID) (jobs db)"

definition unique_db :: "batch_db \<Rightarrow> bool" where
  "unique_db db \<longleftrightarrow> unique_jobs (jobs db)"

section \<open>Outcomes of the primitives\<close>

lemma bm_simps:
  "bm_return x db = (Inr x, db)" "bm_fail e db = (Inl e, db)"
  by (simp_all add: bm_return_def bm_fail_def)

lemma bm_bind_cases:
  assumes "bm_bind m f db = (r, db')"
  obtains (fail) e where "m db = (Inl e, db')" "r = Inl e"
    | (ok) x db1 where "m db = (Inr x, db1)" "f x db1 = (r, db')"
  using assms by (auto simp: bm_bind_def split: prod.splits sum.splits)

lemma bm_stmt_cases:
  assumes "bm_stmt env k m db = (r, db')"
  obtains (fail) "r = Inl (BatchSqlError k)" "db' = db" "b_fails env k"
    | (ok) "m db = (r, db')" "\<not> b_fails env k"
  using assms by (auto simp: bm_stmt_def bm_simps split: if_splits)

lemma bm_tx_snd: "snd (bm_tx env m db) = db \<or> snd (bm_tx env m db) = snd (m db)"
  by (auto simp: bm_tx_def split: prod.splits sum.splits)

lemma update_jobs_cases:
  assumes "update_jobs env P f db = (r, db')"
  shows "(db' = db \<and> (\<exists>e. r = Inl e))
    \<or> (unique_jobs (jobs db') \<and> db' = db\<lparr>jobs := map (\<lambda>j. if P j then f j else j) (jobs db)\<rparr>
       \<and> r = Inr (length (filter P (jobs db))))"
  using assms unfolding update_jobs_def
  by (elim bm_stmt_cases) (auto simp: Let_def split: if_splits)

lemma find_unique:
  "distinct (map j_BatchID js) \<Longrightarrow> j \<in> set js \<Longrightarrow> find (\<lambda>i. j_BatchID i = j_BatchID j) js = Some j"
proof (induction js)
  case (Cons i js)
  then show ?case by (cases "i = j") auto
qed simp

lemma find_job_mem: "find_job b db = Some j \<Longrightarrow> j \<in> set (jobs db) \<and> j_BatchID j = b"
  by (auto simp: find_job_def find_Some_iff)

lemma find_job_unique:
  "unique_db db \<Longrightarrow> j \<in> set (jobs db) \<Longrightarrow> find_job (j_BatchID j) db = Some j"
  by (simp add: find_job_def find_unique unique_db_def unique_jobs_def)

lemma lock_status_cases:
  assumes "lock_status env b db = (r, db')"
  shows "db' = db \<and> (\<forall>cur. r = Inr cur \<longrightarrow> find_job b db = Some cur)"
  using assms unfolding lock_status_def select_job_def
  by (auto simp: bm_translate_def bm_stmt_def bm_simps find_job_def split: prod.splits sum.splits option.splits if_splits)

text \<open>A method that leaves the job table alone.\<close>

definition keeps_jobs :: "'a batch_m \<Rightarrow> bool" where
  "keeps_jobs m \<longleftrightarrow> (\<forall>db. jobs (snd (m db)) = jobs db)"

lemma keeps_jobs_simps [simp]:
  "keeps_jobs (bm_return x)" "keeps_jobs (bm_fail e)"
  "keeps_jobs m \<Longrightarrow> keeps_jobs (bm_stmt env k m)"
  "keeps_jobs m \<Longrightarrow> keeps_jobs (bm_translate tr m)"
  by (auto simp: keeps_jobs_def bm_simps bm_stmt_def bm_translate_def split: prod.splits sum.splits)
    (metis snd_conv)+

lemma keeps_jobs_bind: "keeps_jobs m \<Longrightarrow> (\<And>x. keeps_jobs (f x)) \<Longrightarrow> keeps_jobs (bm_bind m f)"
  unfolding keeps_jobs_def bm_bind_def by (auto split: prod.splits sum.splits) (metis snd_conv)+

lemma keeps_jobs_event [simp]: "keeps_jobs (appendBatchImageEventWithSQL env b ty p)"
  unfolding appendBatchImageEventWithSQL_def
  by (rule keeps_jobs_simps) (simp add: keeps_jobs_def)

lemma keeps_jobs_affect [simp]: "keeps_jobs (must_affect env e n)"
  by (simp add: must_affect_def)

lemma keeps_jobs_create_item [simp]: "keeps_jobs (CreateBatchImageItem env p)"
  unfolding CreateBatchImageItem_def createBatchImageItemWithSQL_def
  by (intro keeps_jobs_simps) (simp add: keeps_jobs_def Let_def)

lemma keeps_jobs_create_items [simp]: "keeps_jobs (create_items env ps)"
  by (induction ps) (auto intro: keeps_jobs_bind)

lemma keeps_jobs_previews [simp]: "keeps_jobs (batchImageItemPromptPreviews env b)"
  unfolding batchImageItemPromptPreviews_def by (rule keeps_jobs_simps) (simp add: keeps_jobs_def)

lemma keeps_jobs_delete [simp]: "keeps_jobs (delete_items env b)"
  unfolding delete_items_def by (rule keeps_jobs_simps) (simp add: keeps_jobs_def)

lemma keeps_jobs_select [simp]: "keeps_jobs (select_job env k P)"
  unfolding select_job_def by (rule keeps_jobs_simps) (simp add: keeps_jobs_def split: option.split)
section \<open>A calculus for row policies\<close>

text \<open>
  A policy is a preorder \<open>R\<close> on rows that every update must respect and a condition
  \<open>N\<close> on freshly inserted rows.  A method obeys it when, from a table with unique keys, it
  leaves a table with unique keys in which every old row has moved along \<open>R\<close> and new rows come
  last.
\<close>

definition table_moves ::
  "(BatchImageJob \<Rightarrow> BatchImageJob \<Rightarrow> bool) \<Rightarrow> (BatchImageJob \<Rightarrow> bool) \<Rightarrow> BatchImageJob list \<Rightarrow> BatchImageJob list
     \<Rightarrow> bool" where
  "table_moves R N js js' \<longleftrightarrow>
     unique_jobs js' \<and> (\<exists>moved new. js' = moved @ new \<and> list_all2 R js moved \<and> list_all N new)"

definition obeys ::
  "(BatchImageJob \<Rightarrow> BatchImageJob \<Rightarrow> bool) \<Rightarrow> (BatchImageJob \<Rightarrow> bool) \<Rightarrow> 'a batch_m \<Rightarrow> bool" where
  "obeys R N m \<longleftrightarrow> (\<forall>db. unique_db db \<longrightarrow> table_moves R N (jobs db) (jobs (snd (m db))))"

locale row_policy =
  fixes R :: "BatchImageJob \<Rightarrow> BatchImageJob \<Rightarrow> bool"
    and N :: "BatchImageJob \<Rightarrow> bool"
  assumes moves_refl: "R j j"
    and moves_trans: "R i j \<Longrightarrow> R j k \<Longrightarrow> R i k"
    and new_kept: "N i \<Longrightarrow> R i j \<Longrightarrow> N j"
    and same_row: "R i j \<Longrightarrow> j_BatchID j = j_BatchID i"
begin

lemma table_refl: "unique_jobs js \<Longrightarrow> table_moves R N js js"
  unfolding table_moves_def
  by (intro conjI exI [of _ js] exI [of _ "[]"]) (simp_all add: list_all2_refl moves_refl)

lemma table_trans:
  assumes "table_moves R N a b" and "table_moves R N b c"
  shows "table_moves R N a c"
proof -
  obtain m1 n1 where 1: "b = m1 @ n1" "list_all2 R a m1" "list_all N n1"
    using assms(1) unfolding table_moves_def by blast
  obtain m2 n2 where 2: "c = m2 @ n2" "list_all2 R b m2" "list_all N n2" "unique_jobs c"
    using assms(2) unfolding table_moves_def by blast
  obtain m3 n3 where 3: "m2 = m3 @ n3" "list_all2 R m1 m3" "list_all2 R n1 n3"
    using 2(2) unfolding 1(1) list_all2_append1 by auto
  have "list_all2 R a m3"
    using 1(2) 3(2) by (rule list_all2_trans [rotated]) (rule moves_trans)
  moreover have "list_all N n3"
    using 1(3) 3(3) unfolding list_all_length list_all2_conv_all_nth by (metis new_kept)
  ultimately show ?thesis
    unfolding table_moves_def using 2 3(1)
    by (intro conjI exI [of _ m3] exI [of _ "n3 @ n2"]) simp_all
qed

lemma obeys_keeps: "keeps_jobs m \<Longrightarrow> obeys R N m"
  by (simp add: obeys_def keeps_jobs_def table_refl unique_db_def)

lemma obeys_simps:
  "obeys R N (bm_return x)" "obeys R N (bm_fail e)"
  "obeys R N m \<Longrightarrow> obeys R N (bm_stmt env k m)"
  by (simp_all add: obeys_keeps bm_stmt_def)

lemma obeys_translate: "obeys R N m \<Longrightarrow> obeys R N (bm_translate tr m)"
  unfolding obeys_def bm_translate_def by (simp split: prod.split sum.split) (metis snd_conv)

lemma obeys_tx: "obeys R N m \<Longrightarrow> obeys R N (bm_tx env m)"
  unfolding obeys_def using bm_tx_snd [of env m] by (metis table_refl unique_db_def)

lemma obeys_step:
  "obeys R N m \<Longrightarrow> unique_db db \<Longrightarrow> m db = (r, db') \<Longrightarrow>
     unique_db db' \<and> table_moves R N (jobs db) (jobs db')"
  unfolding obeys_def table_moves_def unique_db_def by (metis snd_conv)

lemma obeys_bind:
  assumes "obeys R N m" and "\<And>x. obeys R N (f x)"
  shows "obeys R N (bm_bind m f)"
  unfolding obeys_def
proof (intro allI impI)
  fix db assume u: "unique_db db"
  show "table_moves R N (jobs db) (jobs (snd (bm_bind m f db)))"
  proof (cases "bm_bind m f db")
    case (Pair r db')
    then show ?thesis
    proof (cases rule: bm_bind_cases)
      case (fail e)
      then show ?thesis using obeys_step [OF assms(1) u] Pair by auto
    next
      case (ok x db1)
      then have "unique_db db1" "table_moves R N (jobs db) (jobs db1)"
        using obeys_step [OF assms(1) u] by auto
      with ok(2) obeys_step [OF assms(2) \<open>unique_db db1\<close> ok(2)] Pair show ?thesis
        by (auto intro: table_trans)
    qed
  qed
qed

lemma update_moves:
  assumes "\<And>j. j \<in> set (jobs db) \<Longrightarrow> P j \<Longrightarrow> R j (f j)" and "unique_db db"
  shows "table_moves R N (jobs db) (jobs (snd (update_jobs env P f db)))"
proof (cases "update_jobs env P f db")
  case (Pair r db')
  from update_jobs_cases [OF Pair] show ?thesis
  proof (elim disjE conjE)
    assume "unique_jobs (jobs db')" "db' = db\<lparr>jobs := map (\<lambda>j. if P j then f j else j) (jobs db)\<rparr>"
    moreover have "list_all2 R (jobs db) (map (\<lambda>j. if P j then f j else j) (jobs db))"
      using assms(1) by (auto simp: list_all2_conv_all_nth moves_refl)
    ultimately show ?thesis unfolding table_moves_def Pair snd_conv
      by (intro conjI exI [of _ "map (\<lambda>j. if P j then f j else j) (jobs db)"] exI [of _ "[]"]) simp_all
  qed (use assms(2) Pair in \<open>auto intro: table_refl simp: unique_db_def\<close>)
qed

lemma obeys_update: "(\<And>j. P j \<Longrightarrow> R j (f j)) \<Longrightarrow> obeys R N (update_jobs env P f)"
  unfolding obeys_def by (blast intro: update_moves)

text \<open>A row that is read under its lock and then updated: the guard holds of the updated row.\<close>

lemma obeys_locked:
  assumes "\<And>j. j_BatchID j = b \<Longrightarrow> g j \<Longrightarrow> R j (f j)" and "\<And>n. obeys R N (k n)"
  shows "obeys R N (bm_bind (lock_status env b)
    (\<lambda>cur. if \<not> g cur then bm_fail e else bm_bind (update_jobs env (\<lambda>j. j_BatchID j = b) f) k))"
  unfolding obeys_def
proof (intro allI impI)
  fix db assume u: "unique_db db"
  let ?m = "\<lambda>cur. if \<not> g cur then bm_fail e else bm_bind (update_jobs env (\<lambda>j. j_BatchID j = b) f) k"
  show "table_moves R N (jobs db) (jobs (snd (bm_bind (lock_status env b) ?m db)))"
  proof (cases "bm_bind (lock_status env b) ?m db")
    case (Pair r db')
    then show ?thesis
    proof (cases rule: bm_bind_cases)
      case (fail e')
      then show ?thesis using lock_status_cases Pair u by (fastforce intro: table_refl simp: unique_db_def)
    next
      case (ok cur db1)
      then have db1: "db1 = db" and cur: "find_job b db = Some cur"
        using lock_status_cases by auto
      show ?thesis
      proof (cases "g cur")
        case False
        then show ?thesis using ok db1 Pair u by (auto simp: bm_simps unique_db_def intro: table_refl)
      next
        case True
        have "R j (f j)" if "j \<in> set (jobs db)" "j_BatchID j = b" for j
          using find_job_unique [OF u that(1)] that(2) cur True assms(1) by auto
        then have up: "table_moves R N (jobs db) (jobs (snd (update_jobs env (\<lambda>j. j_BatchID j = b) f db)))"
          using u by (blast intro: update_moves)
        from ok(2) True db1 have "bm_bind (update_jobs env (\<lambda>j. j_BatchID j = b) f) k db = (r, db')" by simp
        then show ?thesis
        proof (cases rule: bm_bind_cases)
          case (fail e')
          then show ?thesis using up Pair by simp
        next
          case (ok n db2)
          then have "unique_db db2" using up by (simp add: table_moves_def unique_db_def)
          with ok up obeys_step [OF assms(2) this ok(2)] Pair show ?thesis by (auto intro: table_trans)
        qed
      qed
    qed
  qed
qed

end

text \<open>
  A policy for the job table: \<open>ok\<close> says which operations it covers, and every covered
  operation moves the rows it updates along \<open>R\<close>, given what the operation's guard says of them.
\<close>

locale job_policy = row_policy +
  fixes ok :: "batch_op \<Rightarrow> bool"
  assumes ok_create: "ok (OpCreate p) \<Longrightarrow>
      N (new_job_row env jid (create_defaults (p\<lparr>p_BatchID := b\<rparr>)))"
    and ok_transition: "ok (OpTransition b to opts) \<Longrightarrow> CanTransitionBatchImageJob (j_Status j) to
      \<Longrightarrow> R j (transition_row now to opts j)"
    and ok_fail_stale: "ok (OpFailStale b t c m) \<Longrightarrow> unsubmitted j \<Longrightarrow> j_ProviderJobName j = None
      \<Longrightarrow> R j (submit_failure_row now c m True j)"
    and ok_submit: "CanTransitionBatchImageJob (j_Status j) BatchImageJobStatusSubmitted
      \<Longrightarrow> R j (provider_submit_row now sp j)"
    and ok_submit_failure: "ok (OpSubmitFailure b c m mark) \<Longrightarrow> R j (submit_failure_row now c m mark j)"
    and ok_settle: "j_Status j = ''settling'' \<Longrightarrow> R j (settle_row now mp j)"
    and ok_output_deleted: "R j (output_deleted_row now j)"
    and ok_user_deleted: "terminal_in_sql j \<Longrightarrow> R j (user_deleted_row now j)"
    and ok_marks: "R j (touch_row now j)" "R j (output_ref_row now ref j)"
      "R j (settlement_failed_row now c m j)" "R j (counts_row now n j)"
      "R j (input_deleted_row now j)" "R j (downloaded_row now j)" "R j (expires_row now t j)"
begin

lemma obeys_insert: "(\<And>jid. N (new_job_row env jid p)) \<Longrightarrow> obeys R N (createBatchImageJobWithSQL env p)"
  unfolding createBatchImageJobWithSQL_def
proof (rule obeys_simps(3), unfold obeys_def, intro allI impI)
  fix db assume new: "\<And>jid. N (new_job_row env jid p)" and u: "unique_db db"
  have "table_moves R N (jobs db) (jobs db @ [new_job_row env (next_job_id db) p])"
    if "unique_jobs (jobs db @ [new_job_row env (next_job_id db) p])"
    unfolding table_moves_def using that new
    by (intro conjI exI [of _ "jobs db"] exI [of _ "[new_job_row env (next_job_id db) p]"])
       (simp_all add: list_all2_refl moves_refl)
  then show "table_moves R N (jobs db) (jobs (snd
    (let j = new_job_row env (next_job_id db) p
     in if unique_jobs (jobs db @ [j])
        then (Inr j, db\<lparr>jobs := jobs db @ [j], next_job_id := next_job_id db + 1\<rparr>)
        else (Inl UniqueViolation, db))))"
    using u by (simp add: Let_def table_refl unique_db_def)
qed

lemma obeys_create:
  assumes "ok (OpCreate p)"
  shows "obeys R N (CreateBatchImageJob env p)"
proof -
  have *: "obeys R N (bm_translate (translatePersistenceError None (Some ErrBatchImageJobExists))
      (createBatchImageJobWithSQL env (create_defaults (p\<lparr>p_BatchID := b\<rparr>))))" for b
    by (intro obeys_translate obeys_insert ok_create assms)
  from * [of "p_BatchID p"] * show ?thesis
    by (auto simp: CreateBatchImageJob_def obeys_def bm_bind_def bm_simps unique_db_def
        intro: table_refl split: option.split)
qed

lemma obeys_transition:
  assumes "ok (OpTransition b to opts)"
  shows "obeys R N (TransitionBatchImageJobStatus env b to opts)"
  unfolding TransitionBatchImageJobStatus_def transitionBatchImageJobStatusWithSQL_def Let_def
  by (intro obeys_tx obeys_locked [where g = "\<lambda>cur. CanTransitionBatchImageJob (j_Status cur) to"])
     (auto intro: obeys_keeps ok_transition [OF assms])

lemma obeys_submit: "obeys R N (UpdateBatchImageJobProviderSubmit env p)"
  unfolding UpdateBatchImageJobProviderSubmit_def updateBatchImageJobProviderSubmitWithSQL_def
  by (intro obeys_tx obeys_locked
      [where g = "\<lambda>cur. CanTransitionBatchImageJob (j_Status cur) BatchImageJobStatusSubmitted"])
     (auto intro: obeys_keeps ok_submit)

lemma obeys_settled: "obeys R N (MarkBatchImageJobSettled env p)"
  unfolding MarkBatchImageJobSettled_def markBatchImageJobSettledWithSQL_def Let_def
  by (intro obeys_tx obeys_bind obeys_update)
     (auto intro!: obeys_keeps keeps_jobs_bind ok_settle)

lemma obeys_replace: "obeys R N (ReplaceBatchImageItemsForJob env b ps counts)"
  unfolding ReplaceBatchImageItemsForJob_def replaceBatchImageItemsForJobWithSQL_def
  by (intro obeys_tx obeys_bind)
     (auto simp: lock_status_def intro!: obeys_bind obeys_update ok_marks intro: obeys_keeps)

lemma obeys_fail_stale:
  assumes "ok (OpFailStale b cutoff c m)" and "unique_db db"
  shows "table_moves R N (jobs db) (jobs (snd (FailStaleUnsubmittedBatchImageJob env b cutoff c m db)))"
proof -
  let ?up = "bm_bind
    (update_jobs env
       (\<lambda>j. j_BatchID j = b \<and> unsubmitted j \<and> j_ProviderJobName j = None \<and> j_UpdatedAt j \<le> cutoff)
       (submit_failure_row (b_now env) c m True))
    (\<lambda>affected. bm_stmt env BRowsAffected (bm_return affected))"
  have up: "obeys R N ?up"
    by (intro obeys_bind obeys_update) (auto intro: ok_fail_stale [OF assms(1)] obeys_keeps)
  have ev: "jobs (snd (appendBatchImageEventWithSQL env b ty p db1)) = jobs db1" for ty p db1
    using keeps_jobs_event unfolding keeps_jobs_def by blast
  have "jobs (snd (FailStaleUnsubmittedBatchImageJob env b cutoff c m db)) = jobs (snd (?up db))"
  proof (cases "?up db")
    case (Pair r db1)
    let ?ev = "appendBatchImageEventWithSQL env b ''billing_hold_recovery_failed_unsubmitted''
      (Some [(''batch_id'', JStr b), (''error_code'', JStr c)]) db1"
    have "jobs (snd ?ev) = jobs db1" by (rule ev)
    then show ?thesis unfolding FailStaleUnsubmittedBatchImageJob_def Pair
      by (cases r; cases ?ev; cases "fst ?ev") auto
  qed
  then show ?thesis using up assms(2) unfolding obeys_def by simp
qed

lemma keeps_jobs_returning:
  "keeps_jobs (\<lambda>db. case find P (jobs db) of None \<Rightarrow> (Inl e, db)
     | Some j \<Rightarrow> bm_bind (appendBatchImageEventWithSQL env b ty p) (\<lambda>_. bm_return (f j)) db)"
proof -
  have "keeps_jobs (bm_bind (appendBatchImageEventWithSQL env b ty p) (\<lambda>_. bm_return (f j)))" for j
    by (intro keeps_jobs_bind) simp_all
  then show ?thesis unfolding keeps_jobs_def by (auto split: option.split)
qed

lemma obeys_marks:
  "obeys R N (TouchBatchImageJobSubmitting env b)"
  "obeys R N (UpdateBatchImageJobProviderOutputRef env b ref)"
  "obeys R N (SetBatchImageJobSettlementFailed env b c m)"
  "obeys R N (MarkBatchImageInputDeleted env b t)"
  "obeys R N (MarkBatchImageOutputDeleted env b t)"
  "obeys R N (MarkBatchImageDownloaded env b t)"
  "obeys R N (MarkBatchImageJobUserDeleted env u k b t)"
  "obeys R N (SetBatchImageOutputExpiresAt env b t)"
  "obeys R N (RecordBatchImageCleanupFailure env b c m)"
  unfolding TouchBatchImageJobSubmitting_def UpdateBatchImageJobProviderOutputRef_def
    SetBatchImageJobSettlementFailed_def MarkBatchImageInputDeleted_def MarkBatchImageOutputDeleted_def
    MarkBatchImageDownloaded_def MarkBatchImageJobUserDeleted_def SetBatchImageOutputExpiresAt_def
    RecordBatchImageCleanupFailure_def
  by (intro obeys_bind obeys_translate obeys_update ok_marks ok_output_deleted;
      auto simp: keeps_jobs_returning ok_user_deleted intro: obeys_keeps keeps_jobs_bind)+

lemma obeys_submit_failure:
  "ok (OpSubmitFailure b c m mark) \<Longrightarrow> obeys R N (RecordBatchImageJobSubmitFailure env b c m mark)"
  unfolding RecordBatchImageJobSubmitFailure_def
  by (intro obeys_bind obeys_update ok_submit_failure) (auto intro: obeys_keeps)

lemma obeys_items:
  "obeys R N (CreateBatchImageItem env p)" "obeys R N (BulkCreateBatchImageItems env ps)"
  "obeys R N (AppendBatchImageEvent env b ty pl)"
  unfolding BulkCreateBatchImageItems_def AppendBatchImageEvent_def
  by (auto intro!: obeys_tx intro: obeys_keeps)

lemma step_moves:
  assumes "ok op" and "unique_db db"
  shows "table_moves R N (jobs db) (jobs (batch_step env op db))"
proof -
  have via: "table_moves R N (jobs db) (jobs (snd (m db)))" if "obeys R N m" for m :: "'x batch_m"
    using that assms(2) unfolding obeys_def by blast
  show ?thesis
    using assms
    by (cases op)
       (simp_all add: via obeys_create obeys_transition obeys_fail_stale obeys_submit obeys_submit_failure
          obeys_settled obeys_replace obeys_marks obeys_items)
qed

lemma run_moves:
  "unique_db db \<Longrightarrow> \<forall>(env, op) \<in> set ops. ok op \<Longrightarrow>
     unique_db (batch_run ops db) \<and> table_moves R N (jobs db) (jobs (batch_run ops db))"
proof (induction ops arbitrary: db)
  case Nil
  then show ?case by (simp add: table_refl unique_db_def)
next
  case (Cons eo ops)
  obtain env op where eo: "eo = (env, op)" by (cases eo)
  with Cons.prems have "table_moves R N (jobs db) (jobs (batch_step env op db))"
    by (auto intro: step_moves)
  moreover from this have "unique_db (batch_step env op db)"
    by (simp add: table_moves_def unique_db_def)
  ultimately show ?case
    using Cons.IH [of "batch_step env op db"] Cons.prems(2) eo by (auto intro: table_trans)
qed

text \<open>What a history does to one job.\<close>

lemma table_moves_job:
  assumes "table_moves R N js js'" and "j \<in> set js"
  shows "\<exists>j'. find (\<lambda>i. j_BatchID i = j_BatchID j) js' = Some j' \<and> R j j'"
proof -
  obtain moved new where js': "js' = moved @ new" and moved: "list_all2 R js moved"
    and u: "unique_jobs js'"
    using assms(1) unfolding table_moves_def by blast
  obtain j' where j': "j' \<in> set moved" "R j j'"
    using moved assms(2) unfolding list_all2_conv_all_nth by (metis in_set_conv_nth)
  moreover have "find (\<lambda>i. j_BatchID i = j_BatchID j') js' = Some j'"
    using u j'(1) js' by (intro find_unique) (auto simp: unique_jobs_def)
  ultimately show ?thesis using same_row [OF j'(2)] by auto
qed

lemma run_job:
  assumes "unique_db db" and "\<forall>(env, op) \<in> set ops. ok op" and "find_job b db = Some j"
  shows "\<exists>j'. find_job b (batch_run ops db) = Some j' \<and> R j j'"
  using run_moves [OF assms(1,2)] table_moves_job [of "jobs db" "jobs (batch_run ops db)" j]
    find_job_mem [OF assms(3)]
  by (auto simp: find_job_def)

lemma run_invariant:
  assumes "unique_db db" and "\<forall>(env, op) \<in> set ops. ok op" and "list_all N (jobs db)"
  shows "list_all N (jobs (batch_run ops db))"
proof -
  obtain moved new where js': "jobs (batch_run ops db) = moved @ new"
    and moved: "list_all2 R (jobs db) moved" and "list_all N new"
    using run_moves [OF assms(1,2)] unfolding table_moves_def by blast
  moreover have "list_all N moved"
    using moved assms(3) unfolding list_all_length list_all2_conv_all_nth by (metis new_kept)
  ultimately show ?thesis by simp
qed

end

section \<open>What never changes, and what is set once\<close>

definition kept :: "'a option \<Rightarrow> 'a option \<Rightarrow> bool" where
  "kept before after \<longleftrightarrow> before = None \<or> after = before"

lemma kept_simps [simp]: "kept x x" "kept None y" "kept x (once x v)" "kept (Some t) y \<longleftrightarrow> y = Some t"
  by (auto simp: kept_def once_def split: option.split)

lemma kept_trans: "kept a b \<Longrightarrow> kept b c \<Longrightarrow> kept a c"
  by (auto simp: kept_def)

definition row_identity where
  "row_identity j =
     (j_ID j, j_BatchID j, j_UserID j, j_APIKeyID j, j_AccountID j, j_Provider j, j_Model j,
      j_ItemCount j, j_EstimatedCost j, j_HoldAmount j, j_BillableUnitPrice j,
      j_PricingSnapshotVersion j, j_IdempotencyKey j, j_RequestHash j, j_CreatedAt j)"

definition row_evolves :: "BatchImageJob \<Rightarrow> BatchImageJob \<Rightarrow> bool" where
  "row_evolves j j' \<longleftrightarrow>
     row_identity j' = row_identity j \<and> j_Version j \<le> j_Version j' \<and> j_RetryCount j \<le> j_RetryCount j'
     \<and> kept (j_SubmittedAt j) (j_SubmittedAt j') \<and> kept (j_StartedAt j) (j_StartedAt j')
     \<and> kept (j_FinishedAt j) (j_FinishedAt j') \<and> kept (j_SettledAt j) (j_SettledAt j')
     \<and> kept (j_OutputExpiresAt j) (j_OutputExpiresAt j') \<and> kept (j_InputDeletedAt j) (j_InputDeletedAt j')
     \<and> kept (j_OutputDeletedAt j) (j_OutputDeletedAt j') \<and> kept (j_DownloadedAt j) (j_DownloadedAt j')
     \<and> kept (j_UserDeletedAt j) (j_UserDeletedAt j')"

lemmas job_row_defs =
  transition_row_def submit_failure_row_def provider_submit_row_def settle_row_def
  output_deleted_row_def user_deleted_row_def touch_row_def output_ref_row_def
  settlement_failed_row_def counts_row_def input_deleted_row_def downloaded_row_def expires_row_def

interpretation evolution: job_policy row_evolves "\<lambda>j. True" "\<lambda>op. True"
proof unfold_locales
  show "row_evolves i j \<Longrightarrow> row_evolves j k \<Longrightarrow> row_evolves i k" for i j k
    unfolding row_evolves_def by (auto intro: kept_trans)
qed (simp_all add: row_evolves_def row_identity_def job_row_defs Let_def)

section \<open>Which statuses follow which\<close>

definition status_path :: "BatchImageJob \<Rightarrow> BatchImageJob \<Rightarrow> bool" where
  "status_path j j' \<longleftrightarrow>
     j_BatchID j' = j_BatchID j
     \<and> CanTransitionBatchImageJob\<^sup>*\<^sup>* (j_Status j) (j_Status j')
     \<and> (IsTerminalBatchImageJobStatus (j_Status j)
          \<longrightarrow> j_ActualCost j' = j_ActualCost j \<and> j_ManifestHash j' = j_ManifestHash j)"

text \<open>The one operation that writes a status without asking \<open>CanTransitionBatchImageJob\<close>.\<close>

fun unforced :: "batch_op \<Rightarrow> bool" where
  "unforced (OpSubmitFailure b c m mark) \<longleftrightarrow> \<not> mark"
| "unforced _ \<longleftrightarrow> True"

lemma terminal_step:
  "IsTerminalBatchImageJobStatus s \<Longrightarrow> CanTransitionBatchImageJob s t \<Longrightarrow> t = BatchImageJobStatusOutputDeleted"
  by (auto simp: CanTransitionBatchImageJob_def split: if_splits)

lemma output_deleted_final: "\<not> CanTransitionBatchImageJob BatchImageJobStatusOutputDeleted t"
  by (simp add: CanTransitionBatchImageJob_def IsTerminalBatchImageJobStatus_def)

lemma terminal_path:
  assumes "CanTransitionBatchImageJob\<^sup>*\<^sup>* s t" and "IsTerminalBatchImageJobStatus s"
  shows "t = s \<or> t = BatchImageJobStatusOutputDeleted"
  using assms
proof (induction rule: rtranclp_induct)
  case (step y z)
  then show ?case using terminal_step output_deleted_final by blast
qed simp

lemma terminal_path_terminal:
  "CanTransitionBatchImageJob\<^sup>*\<^sup>* s t \<Longrightarrow> IsTerminalBatchImageJobStatus s \<Longrightarrow> IsTerminalBatchImageJobStatus t"
  using terminal_path by (fastforce simp: IsTerminalBatchImageJobStatus_def)

lemma transitions [simp]:
  "CanTransitionBatchImageJob ''settling'' ''completed''"
  "CanTransitionBatchImageJob ''completed'' ''output_deleted''"
  "CanTransitionBatchImageJob ''created'' ''failed''"
  "CanTransitionBatchImageJob ''uploading'' ''failed''"
  "IsTerminalBatchImageJobStatus ''completed''"
  "\<not> IsTerminalBatchImageJobStatus ''settling''"
  "\<not> IsTerminalBatchImageJobStatus ''created''" "\<not> IsTerminalBatchImageJobStatus ''uploading''"
  by (simp_all add: CanTransitionBatchImageJob_def IsTerminalBatchImageJobStatus_def
      allowed_transitions_def status_defs)

interpretation path: job_policy status_path "\<lambda>j. True" unforced
proof unfold_locales
  show "status_path i j \<Longrightarrow> status_path j k \<Longrightarrow> status_path i k" for i j k
    unfolding status_path_def using terminal_path_terminal by fastforce
next
  show "status_path j (submit_failure_row now c m True j)" if "unsubmitted j" for now c m j
    using that by (auto simp: status_path_def unsubmitted_def submit_failure_row_def Let_def)
qed (auto simp: status_path_def job_row_defs Let_def status_defs)

section \<open>What a row of each status has been through\<close>

definition stamped_row :: "BatchImageJob \<Rightarrow> bool" where
  "stamped_row j \<longleftrightarrow>
     (j_Status j = ''submitted'' \<longrightarrow> j_SubmittedAt j \<noteq> None)
     \<and> (j_Status j = ''running'' \<longrightarrow> j_StartedAt j \<noteq> None)
     \<and> (j_Status j = ''completed'' \<longrightarrow> j_SettledAt j \<noteq> None)
     \<and> (j_Status j = ''output_deleted'' \<longrightarrow> j_OutputDeletedAt j \<noteq> None)
     \<and> (IsTerminalBatchImageJobStatus (j_Status j) \<longrightarrow> j_FinishedAt j \<noteq> None)"

definition stamps_kept :: "BatchImageJob \<Rightarrow> BatchImageJob \<Rightarrow> bool" where
  "stamps_kept j j' \<longleftrightarrow> j_BatchID j' = j_BatchID j \<and> (stamped_row j \<longrightarrow> stamped_row j')"

fun created_fresh :: "batch_op \<Rightarrow> bool" where
  "created_fresh (OpCreate p) \<longleftrightarrow> p_Status p \<in> {'''', ''created''}"
| "created_fresh _ \<longleftrightarrow> True"

lemma once_not_None [simp]: "once x (Some t) \<noteq> None" "\<exists>y. once x (Some t) = Some y"
  by (simp_all add: once_def split: option.split)

lemma terminal_iff:
  "IsTerminalBatchImageJobStatus s \<longleftrightarrow>
     s = ''completed'' \<or> s = ''failed'' \<or> s = ''cancelled'' \<or> s = ''output_deleted''"
  by (simp add: IsTerminalBatchImageJobStatus_def status_defs)

lemma to_output_deleted:
  "CanTransitionBatchImageJob s ''output_deleted'' \<Longrightarrow> IsTerminalBatchImageJobStatus s"
  by (simp add: CanTransitionBatchImageJob_def allowed_transitions_def status_defs split: if_splits)

lemma stamped_transition:
  assumes "CanTransitionBatchImageJob (j_Status j) to" and "stamped_row j"
  shows "stamped_row (transition_row now to opts j)"
proof (cases "to = ''output_deleted''")
  case True
  then have "j_FinishedAt j \<noteq> None"
    using assms to_output_deleted by (simp add: stamped_row_def)
  then show ?thesis by (simp add: stamped_row_def transition_row_def True)
next
  case False
  then show ?thesis by (simp add: stamped_row_def transition_row_def terminal_iff)
qed

lemma stamped_new:
  "p_Status p \<in> {[], ''created''} \<Longrightarrow> stamped_row (new_job_row env jid (create_defaults (p\<lparr>p_BatchID := b\<rparr>)))"
  by (elim insertE)
     (simp_all add: stamped_row_def new_job_row_def create_defaults_def Let_def terminal_iff
        BatchImageJobStatusCreated_def)

lemma stamped_marks:
  assumes "stamped_row j"
  shows "stamped_row (submit_failure_row now c m mark j)" "stamped_row (provider_submit_row now sp j)"
    "stamped_row (settle_row now mp j)" "stamped_row (output_deleted_row now j)"
  using assms
  by (simp_all add: stamped_row_def submit_failure_row_def provider_submit_row_def settle_row_def
      output_deleted_row_def Let_def terminal_iff)

lemma stamps_same:
  "j_BatchID j' = j_BatchID j \<Longrightarrow> j_Status j' = j_Status j \<Longrightarrow> j_SubmittedAt j' = j_SubmittedAt j
   \<Longrightarrow> j_StartedAt j' = j_StartedAt j \<Longrightarrow> j_SettledAt j' = j_SettledAt j
   \<Longrightarrow> j_OutputDeletedAt j' = j_OutputDeletedAt j \<Longrightarrow> j_FinishedAt j' = j_FinishedAt j
   \<Longrightarrow> stamps_kept j j'"
  by (simp add: stamps_kept_def stamped_row_def)

lemma stamps_kept_marks:
  "stamps_kept j (user_deleted_row now j)" "stamps_kept j (touch_row now j)"
  "stamps_kept j (output_ref_row now ref j)" "stamps_kept j (settlement_failed_row now c m j)"
  "stamps_kept j (counts_row now n j)" "stamps_kept j (input_deleted_row now j)"
  "stamps_kept j (downloaded_row now j)" "stamps_kept j (expires_row now t j)"
  by (rule stamps_same; simp add: user_deleted_row_def touch_row_def output_ref_row_def
       settlement_failed_row_def counts_row_def input_deleted_row_def downloaded_row_def expires_row_def)+

lemma stamps_kept_effects:
  "stamps_kept j (submit_failure_row now c m mark j)" "stamps_kept j (provider_submit_row now sp j)"
  "stamps_kept j (settle_row now mp j)" "stamps_kept j (output_deleted_row now j)"
  using stamped_marks
  by (simp_all add: stamps_kept_def submit_failure_row_def provider_submit_row_def settle_row_def
      output_deleted_row_def Let_def)

interpretation stamping: job_policy stamps_kept stamped_row created_fresh
proof unfold_locales
  show "stamps_kept j (transition_row now to opts j)"
    if "CanTransitionBatchImageJob (j_Status j) to" for j to now opts
    using stamped_transition [OF that] by (simp add: stamps_kept_def transition_row_def)
  show "stamped_row (new_job_row env jid (create_defaults (p\<lparr>p_BatchID := b\<rparr>)))"
    if "created_fresh (OpCreate p)" for p env jid b
    using that by (intro stamped_new) simp
  show "stamps_kept i k" if "stamps_kept i j" "stamps_kept j k" for i j k
    using that unfolding stamps_kept_def by simp
  show "stamped_row j" if "stamped_row i" "stamps_kept i j" for i j
    using that unfolding stamps_kept_def by simp
qed (rule stamps_kept_marks stamps_kept_effects | simp add: stamps_kept_def)+

section \<open>Properties\<close>

text \<open>C36 (job_history_monotone): whatever sequence of repository operations runs, and whichever of
  their statements fail, a job is never lost; its owner, account, prices, hold and request hash stay as
  created, its version and retry count never decrease, and each of its nine time stamps, once
  set, keeps its value.\<close>

theorem job_history_monotone:
  assumes "unique_db db" and "find_job b db = Some j"
  shows "\<exists>j'. find_job b (batch_run ops db) = Some j' \<and> row_evolves j j'"
  using evolution.run_job [OF assms(1) _ assms(2), of ops] by blast

text \<open>C24 (terminal_jobs_final): a completed, failed, cancelled or output-deleted job keeps its
  status, except that its output may be deleted, and keeps its actual cost and manifest hash, under
  every history without a forced submit failure; the new status is reached by permitted
  transitions.\<close>

theorem terminal_jobs_final:
  assumes "unique_db db" and "find_job b db = Some j"
    and "IsTerminalBatchImageJobStatus (j_Status j)" and "\<forall>(env, op) \<in> set ops. unforced op"
  shows "\<exists>j'. find_job b (batch_run ops db) = Some j'
    \<and> (j_Status j' = j_Status j \<or> j_Status j' = BatchImageJobStatusOutputDeleted)
    \<and> CanTransitionBatchImageJob\<^sup>*\<^sup>* (j_Status j) (j_Status j')
    \<and> j_ActualCost j' = j_ActualCost j \<and> j_ManifestHash j' = j_ManifestHash j"
proof -
  obtain j' where "find_job b (batch_run ops db) = Some j'" "status_path j j'"
    using path.run_job [OF assms(1,4,2)] by blast
  then show ?thesis using assms(3) terminal_path unfolding status_path_def by blast
qed

text \<open>If jobs are created in status \<open>created\<close>, every submitted job
  has its submission time, every running job its start time, every completed job its settlement
  time, every job whose output is deleted the deletion time, and every terminal job its finish
  time.\<close>

theorem job_stamps_invariant:
  assumes "unique_db db" and "list_all stamped_row (jobs db)"
    and "\<forall>(env, op) \<in> set ops. created_fresh op"
  shows "unique_db (batch_run ops db) \<and> list_all stamped_row (jobs (batch_run ops db))"
  using stamping.run_moves [OF assms(1,3)] stamping.run_invariant [OF assms(1,3,2)] by blast

lemma find_job_update:
  assumes "unique_db db" and "find_job b db = Some j" and "\<not> b_fails env BUpdateJob"
    and "\<And>j. j_BatchID (f j) = j_BatchID j" and "\<And>j. j_ManifestHash (f j) = j_ManifestHash j"
  shows "\<exists>db'. update_jobs env (\<lambda>j. j_BatchID j = b) f db
      = (Inr (length (filter (\<lambda>j. j_BatchID j = b) (jobs db))), db')
    \<and> find_job b db' = Some (f j)"
proof -
  let ?js = "map (\<lambda>j. if j_BatchID j = b then f j else j) (jobs db)"
  have ids: "map j_BatchID ?js = map j_BatchID (jobs db)" using assms(4) by (simp add: comp_def)
  have "manifest_keys ?js = manifest_keys (jobs db)"
    using assms(5) unfolding manifest_keys_def by (induction "jobs db") (auto simp: comp_def filter_map)
  with ids assms(1) have u: "unique_jobs ?js" by (simp only: unique_jobs_def unique_db_def)
  have "f j \<in> set ?js" using find_job_mem [OF assms(2)] by (auto simp: image_iff)
  then have "find (\<lambda>i. j_BatchID i = j_BatchID (f j)) ?js = Some (f j)"
    using u by (intro find_unique) (auto simp: unique_jobs_def)
  with assms(3,4) u find_job_mem [OF assms(2)] show ?thesis
    by (simp add: update_jobs_def bm_stmt_def find_job_def)
qed

text \<open>When the upload fails after the user has cancelled
  the job, recording the failure turns the cancelled job into a failed one, although
  \<open>CanTransitionBatchImageJob\<close> forbids it.\<close>

theorem submit_failure_overwrites_cancelled:
  assumes "unique_db db" and "find_job b db = Some j"
    and "j_Status j = BatchImageJobStatusCancelled" and "\<not> b_fails env BUpdateJob"
  shows "\<exists>j'. find_job b (snd (RecordBatchImageJobSubmitFailure env b code msg True db)) = Some j'
      \<and> j_Status j' = BatchImageJobStatusFailed
      \<and> \<not> CanTransitionBatchImageJob (j_Status j) (j_Status j')"
proof -
  obtain db' where up: "update_jobs env (\<lambda>j. j_BatchID j = b) (submit_failure_row (b_now env) code msg True) db
      = (Inr (length (filter (\<lambda>j. j_BatchID j = b) (jobs db))), db')"
    and j': "find_job b db' = Some (submit_failure_row (b_now env) code msg True j)"
    using find_job_update [where f = "submit_failure_row (b_now env) code msg True", OF assms(1,2,4)]
    by (auto simp: submit_failure_row_def Let_def)
  have "jobs (snd (RecordBatchImageJobSubmitFailure env b code msg True db)) = jobs db'"
    using keeps_jobs_event by (simp add: RecordBatchImageJobSubmitFailure_def bm_bind_def up keeps_jobs_def)
  moreover have "\<not> CanTransitionBatchImageJob BatchImageJobStatusCancelled BatchImageJobStatusFailed"
    by (simp add: CanTransitionBatchImageJob_def status_defs terminal_iff)
  ultimately show ?thesis
    using j' assms(3) by (simp add: find_job_def submit_failure_row_def Let_def BatchImageJobStatusFailed_def)
qed

section \<open>Witnesses\<close>

definition sample_benv :: batch_env where
  "sample_benv =
     \<lparr>b_now = 2000, b_db_now = 1000, b_fails = (\<lambda>_. False), b_tx = True, b_new_id = Some ''imgbatch_1'',
      b_ilike = (\<lambda>s p. True)\<rparr>"

definition sample_params :: CreateBatchImageJobParams where
  "sample_params =
     \<lparr>p_BatchID = ''b1'', p_UserID = 1, p_APIKeyID = Some 7, p_AccountID = Some 4,
      p_Provider = ''vertex'', p_Model = ''imagen'', p_TaskName = ''t'', p_ParentBatchID = None,
      p_Status = ''created'', p_ProviderJobName = None, p_ProviderInputRef = None,
      p_ProviderOutputRef = None, p_GCSInputURI = None, p_GCSOutputURI = None, p_ItemCount = 2,
      p_SuccessCount = 0, p_FailCount = 0, p_CancelledCount = 0, p_EstimatedCost = 2,
      p_HoldAmount = Some 3, p_ActualCost = None, p_BaseUnitPrice = 1, p_GroupRateMultiplier = 1,
      p_AccountRateMultiplier = 1, p_BatchDiscountMultiplier = 1, p_HoldMultiplier = 1,
      p_BillableUnitPrice = 1, p_HoldUnitPrice = 1, p_PricingSnapshotVersion = 1,
      p_Currency = ''USD'', p_HoldID = None, p_IdempotencyKey = None, p_RequestHash = Some ''rh'',
      p_ManifestHash = None, p_SessionID = None, p_RetryCount = 0, p_OutputExpiresAt = None\<rparr>"

definition sample_job :: BatchImageJob where
  "sample_job = new_job_row sample_benv 1 sample_params"

definition one_job_db :: "BatchImageJob \<Rightarrow> batch_db" where
  "one_job_db j =
     \<lparr>jobs = [j], items = [], events = [], next_job_id = 2, next_item_id = 1, next_event_id = 1\<rparr>"

lemma one_job_db_simps [simp]: "unique_db (one_job_db j)" "jobs (one_job_db j) = [j]"
  "items (one_job_db j) = []"
  by (simp_all add: one_job_db_def unique_db_def unique_jobs_def manifest_keys_def)

lemma find_one_job [simp]: "find_job b (one_job_db j) = (if j_BatchID j = b then Some j else None)"
  by (simp add: find_job_def)

lemma sample_job_simps [simp]:
  "j_BatchID sample_job = ''b1''" "j_Status sample_job = ''created''"
  by (simp_all add: sample_job_def new_job_row_def sample_params_def)

theorem job_history_monotone_witness:
  "\<exists>j'. find_job ''b1'' (batch_run [(sample_benv, OpTouch ''b1''),
      (sample_benv, OpSubmitFailure ''b1'' ''c'' ''m'' True)] (one_job_db sample_job)) = Some j'
    \<and> row_evolves sample_job j'"
  by (rule job_history_monotone) simp_all

theorem terminal_jobs_final_witness:
  "\<exists>j'. find_job ''b1'' (batch_run [(sample_benv, OpOutputDeleted ''b1'' 9)]
      (one_job_db (sample_job\<lparr>j_Status := ''completed''\<rparr>))) = Some j'
    \<and> (j_Status j' = ''completed'' \<or> j_Status j' = BatchImageJobStatusOutputDeleted)
    \<and> j_ActualCost j' = j_ActualCost sample_job"
  using terminal_jobs_final [of "one_job_db (sample_job\<lparr>j_Status := ''completed''\<rparr>)" "''b1''"
      "sample_job\<lparr>j_Status := ''completed''\<rparr>" "[(sample_benv, OpOutputDeleted ''b1'' 9)]"]
  by auto

theorem job_stamps_invariant_witness:
  "list_all stamped_row (jobs (batch_run [(sample_benv, OpSubmitFailure ''b1'' ''c'' ''m'' True)]
      (one_job_db sample_job)))"
  using job_stamps_invariant [of "one_job_db sample_job"
      "[(sample_benv, OpSubmitFailure ''b1'' ''c'' ''m'' True)]"]
  by (simp add: stamped_row_def terminal_iff)

theorem submit_failure_overwrites_cancelled_witness:
  "\<exists>j'. find_job ''b1'' (snd (RecordBatchImageJobSubmitFailure sample_benv ''b1'' ''PROVIDER_SUBMIT_FAILED''
      ''boom'' True (one_job_db (sample_job\<lparr>j_Status := ''cancelled''\<rparr>)))) = Some j'
    \<and> j_Status j' = BatchImageJobStatusFailed"
  using submit_failure_overwrites_cancelled [of "one_job_db (sample_job\<lparr>j_Status := ''cancelled''\<rparr>)" "''b1''"
      "sample_job\<lparr>j_Status := ''cancelled''\<rparr>" sample_benv "''PROVIDER_SUBMIT_FAILED''" "''boom''"]
  by (auto simp: BatchImageJobStatusCancelled_def sample_benv_def)

end
