(* ===== verification/BatchImageQuiet.thy ===== *)
theory BatchImageQuiet
  imports BatchImageLifecycle
begin

text \<open>
  The methods of the job repository when no statement fails: each changes the one job it is
  called for and leaves the other jobs and the uniqueness of keys alone.
\<close>

section \<open>The repository without failing statements\<close>

definition batch_quiet :: "batch_env \<Rightarrow> bool" where
  "batch_quiet env \<longleftrightarrow> (\<forall>k. \<not> b_fails env k)"

text \<open>No other job has this manifest hash.\<close>

definition fresh_hash :: "string \<Rightarrow> string \<Rightarrow> batch_db \<Rightarrow> bool" where
  "fresh_hash h b db \<longleftrightarrow> (\<forall>b' i. b' \<noteq> b \<longrightarrow> find_job b' db = Some i \<longrightarrow> j_ManifestHash i \<noteq> Some h)"

lemma unique_jobs_iff:
  "unique_jobs js \<longleftrightarrow> distinct (map j_BatchID js)
     \<and> (\<forall>i \<in> set js. \<forall>k \<in> set js. j_ManifestHash i = j_ManifestHash k
          \<and> j_ManifestHash i \<notin> {None, Some ''''} \<longrightarrow> i = k)"
proof (cases "distinct (map j_BatchID js)")
  case True
  let ?P = "\<lambda>j. j_ManifestHash j \<notin> {None, Some ''''}"
  have "distinct (filter ?P js)" using True by (simp add: distinct_map)
  then have "distinct (manifest_keys js)
      \<longleftrightarrow> inj_on (\<lambda>j. the (j_ManifestHash j)) (set (filter ?P js))"
    by (simp add: manifest_keys_def distinct_map)
  also have "\<dots> \<longleftrightarrow> (\<forall>i \<in> set js. \<forall>k \<in> set js. j_ManifestHash i = j_ManifestHash k \<and> ?P i \<longrightarrow> i = k)"
    unfolding inj_on_def by (auto; metis option.sel option.collapse)
  finally show ?thesis using True by (simp add: unique_jobs_def)
qed (simp add: unique_jobs_def)

text \<open>An update that selects one job, by its key.\<close>

lemma update_one:
  assumes u: "unique_db db" and j: "find_job b db = Some j" and "\<not> b_fails env BUpdateJob"
    and "P j" and P: "\<And>i. P i \<Longrightarrow> j_BatchID i = b"
    and f: "j_BatchID (f j) = b"
    and hash: "j_ManifestHash (f j) = j_ManifestHash j
      \<or> (\<exists>h. j_ManifestHash (f j) = Some h \<and> fresh_hash h b db)"
  shows "\<exists>db' n. update_jobs env P f db = (Inr (Suc n), db') \<and> unique_db db'
    \<and> find_job b db' = Some (f j) \<and> (\<forall>b'. b' \<noteq> b \<longrightarrow> find_job b' db' = find_job b' db)"
proof -
  let ?js = "map (\<lambda>i. if P i then f i else i) (jobs db)"
  have mem: "j \<in> set (jobs db)" "j_BatchID j = b" using find_job_mem [OF j] by auto
  have only: "P i \<longleftrightarrow> i = j" if "i \<in> set (jobs db)" for i
    using find_job_unique [OF u that] P [of i] j \<open>P j\<close> by auto
  have js: "?js = map (\<lambda>i. if i = j then f j else i) (jobs db)" using only by auto
  have ids: "map j_BatchID ?js = map j_BatchID (jobs db)"
    unfolding js using f mem by (auto simp: comp_def)
  have dist: "distinct (map j_BatchID (jobs db))" using u by (simp add: unique_db_def unique_jobs_def)
  have other: "j_ManifestHash i \<noteq> j_ManifestHash (f j)"
    if "i \<in> set (jobs db)" "i \<noteq> j" "j_ManifestHash (f j) \<notin> {None, Some ''''}" for i
  proof -
    have i: "find_job (j_BatchID i) db = Some i" using find_job_unique [OF u that(1)] .
    then have "j_BatchID i \<noteq> b" using j that(2) by auto
    with i hash that mem u show ?thesis
      unfolding fresh_hash_def unique_db_def unique_jobs_iff by (metis)
  qed
  have "unique_jobs ?js"
    unfolding unique_jobs_iff ids using dist
  proof (intro conjI ballI impI)
    fix i k assume "i \<in> set ?js" "k \<in> set ?js"
      and eq: "j_ManifestHash i = j_ManifestHash k \<and> j_ManifestHash i \<notin> {None, Some ''''}"
    then have ik: "i = f j \<or> (i \<in> set (jobs db) \<and> i \<noteq> j)" "k = f j \<or> (k \<in> set (jobs db) \<and> k \<noteq> j)"
      unfolding js by (auto split: if_splits)
    with eq show "i = k" using other [of i] other [of k] u unfolding unique_db_def unique_jobs_iff by metis
  qed
  moreover have "length (filter P (jobs db)) \<noteq> 0" using mem(1) \<open>P j\<close> by (auto simp: filter_empty_conv)
  ultimately obtain n where up: "update_jobs env P f db = (Inr (Suc n), db\<lparr>jobs := ?js\<rparr>)"
    using \<open>\<not> b_fails env BUpdateJob\<close>
    by (cases "length (filter P (jobs db))") (simp_all add: update_jobs_def bm_stmt_def Let_def)
  have "find (\<lambda>i. j_BatchID i = j_BatchID (f j)) ?js = Some (f j)"
    using dist mem(1) by (intro find_unique) (simp only: ids, auto simp: js)
  then have "find_job b (db\<lparr>jobs := ?js\<rparr>) = Some (f j)" using f by (simp add: find_job_def)
  moreover have "find (\<lambda>i. j_BatchID i = b') (map (\<lambda>i. if i = j then f j else i) js)
      = find (\<lambda>i. j_BatchID i = b') js" if "b' \<noteq> b" for b' js
    using that f mem(2) by (induction js) auto
  ultimately show ?thesis
    using up \<open>unique_jobs ?js\<close> unfolding find_job_def unique_db_def js by auto
qed

lemma event_quiet:
  assumes "batch_quiet env" and "find_job b db = Some j"
  shows "\<exists>db'. appendBatchImageEventWithSQL env b ty p db = (Inr (), db') \<and> jobs db' = jobs db"
  using assms find_job_mem [OF assms(2)]
  by (auto simp: appendBatchImageEventWithSQL_def bm_stmt_def batch_quiet_def)

lemma find_job_jobs: "jobs db' = jobs db \<Longrightarrow> find_job b db' = find_job b db \<and> unique_db db' = unique_db db"
  by (simp add: find_job_def unique_db_def)

text \<open>An update of one job followed by its event.\<close>

lemma update_then_event:
  assumes "batch_quiet env" and "unique_db db" and "find_job b db = Some j"
    and "P j" and "\<And>i. P i \<Longrightarrow> j_BatchID i = b" and "j_BatchID (f j) = b"
    and "j_ManifestHash (f j) = j_ManifestHash j
      \<or> (\<exists>h. j_ManifestHash (f j) = Some h \<and> fresh_hash h b db)"
  shows "\<exists>db1 db2 n. update_jobs env P f db = (Inr (Suc n), db1)
    \<and> appendBatchImageEventWithSQL env b ty p db1 = (Inr (), db2) \<and> unique_db db2
    \<and> find_job b db1 = Some (f j) \<and> find_job b db2 = Some (f j)
    \<and> (\<forall>b'. b' \<noteq> b \<longrightarrow> find_job b' db2 = find_job b' db)"
proof -
  obtain db1 n where 1: "update_jobs env P f db = (Inr (Suc n), db1)" "unique_db db1"
      "find_job b db1 = Some (f j)" "\<forall>b'. b' \<noteq> b \<longrightarrow> find_job b' db1 = find_job b' db"
    using update_one [where P = P and f = f and env = env, OF assms(2,3) _ assms(4-7)] assms(1) by (auto simp: batch_quiet_def)
  obtain db2 where 2: "appendBatchImageEventWithSQL env b ty p db1 = (Inr (), db2)" "jobs db2 = jobs db1"
    using event_quiet [OF assms(1) 1(3)] by blast
  show ?thesis using 1 2 find_job_jobs [OF 2(2)] by auto
qed

text \<open>What a quiet method leaves: one job changed, keys unique, the other jobs alone.\<close>

definition changed_job :: "string \<Rightarrow> BatchImageJob \<Rightarrow> batch_db \<Rightarrow> batch_db \<Rightarrow> bool" where
  "changed_job b j db db' \<longleftrightarrow> unique_db db' \<and> find_job b db' = Some j
     \<and> (\<forall>b'. b' \<noteq> b \<longrightarrow> find_job b' db' = find_job b' db)"

lemma changed_fresh: "changed_job b j db db' \<Longrightarrow> fresh_hash h b db \<Longrightarrow> fresh_hash h b db'"
  by (simp add: changed_job_def fresh_hash_def)

lemma changed_trans: "changed_job b i db db1 \<Longrightarrow> changed_job b j db1 db2 \<Longrightarrow> changed_job b j db db2"
  by (simp add: changed_job_def)

lemma quiet_stmt [simp]: "batch_quiet env \<Longrightarrow> bm_stmt env k m = m"
  by (simp add: batch_quiet_def bm_stmt_def)

lemma get_quiet:
  "batch_quiet env \<Longrightarrow> GetBatchImageJobByBatchID env b db
     = (case find_job b db of None \<Rightarrow> Inl ErrBatchImageJobNotFound | Some j \<Rightarrow> Inr j, db)"
  by (simp add: GetBatchImageJobByBatchID_def get_job_def select_job_def bm_translate_def find_job_def
      translatePersistenceError_def split: option.split)

lemma lock_quiet:
  "batch_quiet env \<Longrightarrow> find_job b db = Some j \<Longrightarrow> lock_status env b db = (Inr j, db)"
  by (simp add: lock_status_def select_job_def bm_translate_def find_job_def)

lemma tx_quiet: "batch_quiet env \<Longrightarrow> m db = (Inr x, db') \<Longrightarrow> bm_tx env m db = (Inr x, db')"
  by (simp add: bm_tx_def batch_quiet_def)

lemma settlement_failed_quiet:
  assumes "batch_quiet env" "unique_db db" "find_job b db = Some j"
  shows "\<exists>db'. SetBatchImageJobSettlementFailed env b c m db = (Inr (j_RetryCount j + 1), db')
    \<and> changed_job b (settlement_failed_row (b_now env) c m j) db db'"
proof -
  obtain db1 db2 n where
    "update_jobs env (\<lambda>j. j_BatchID j = b) (settlement_failed_row (b_now env) c m) db = (Inr (Suc n), db1)"
    "appendBatchImageEventWithSQL env b ''settlement_failed'' (Some [(''error_code'', JStr c)]) db1 = (Inr (), db2)"
    "unique_db db2" "find_job b db1 = Some (settlement_failed_row (b_now env) c m j)"
    "find_job b db2 = Some (settlement_failed_row (b_now env) c m j)"
    "\<forall>b'. b' \<noteq> b \<longrightarrow> find_job b' db2 = find_job b' db"
    using update_then_event [where P = "\<lambda>j. j_BatchID j = b" and f = "settlement_failed_row (b_now env) c m"
        and ty = "''settlement_failed''" and p = "Some [(''error_code'', JStr c)]", OF assms]
      find_job_mem [OF assms(3)]
    by (auto simp: settlement_failed_row_def)
  then show ?thesis
    by (auto simp: SetBatchImageJobSettlementFailed_def bm_bind_def bm_simps changed_job_def
        find_job_def settlement_failed_row_def)
qed

lemma transition_quiet:
  assumes "batch_quiet env" "unique_db db" "find_job b db = Some j"
    and "CanTransitionBatchImageJob (j_Status j) to" and "t_EventType opts \<noteq> ''''" "t_Now opts = None"
  shows "\<exists>db'. TransitionBatchImageJobStatus env b to opts db = (Inr (), db')
    \<and> changed_job b (transition_row (b_now env) to opts j) db db'"
proof -
  obtain db1 db2 n where
    "update_jobs env (\<lambda>j. j_BatchID j = b) (transition_row (b_now env) to opts) db = (Inr (Suc n), db1)"
    "appendBatchImageEventWithSQL env b (t_EventType opts) (t_EventPayload opts) db1 = (Inr (), db2)"
    "unique_db db2" "find_job b db2 = Some (transition_row (b_now env) to opts j)"
    "\<forall>b'. b' \<noteq> b \<longrightarrow> find_job b' db2 = find_job b' db"
    using update_then_event [where P = "\<lambda>j. j_BatchID j = b" and f = "transition_row (b_now env) to opts"
        and ty = "t_EventType opts" and p = "t_EventPayload opts", OF assms(1-3)]
      find_job_mem [OF assms(3)]
    by (auto simp: transition_row_def)
  then have "transitionBatchImageJobStatusWithSQL env b to opts db = (Inr (), db2)"
    using assms
    by (simp add: transitionBatchImageJobStatusWithSQL_def bm_bind_def lock_quiet bm_simps)
  from tx_quiet [where m = "transitionBatchImageJobStatusWithSQL env b to opts", OF assms(1) this]
  show ?thesis
    unfolding TransitionBatchImageJobStatus_def changed_job_def
    using \<open>unique_db db2\<close> \<open>find_job b db2 = _\<close> \<open>\<forall>b'. _\<close> by blast
qed

lemma mark_settled_quiet:
  assumes "batch_quiet env" "unique_db db" "find_job b db = Some j" "m_BatchID p = b" "m_Now p = Some now"
    and "j_Status j = ''settling''" and "j_ManifestHash j \<in> {None, Some '''', Some (m_ManifestHash p)}"
    and "fresh_hash (m_ManifestHash p) b db"
  shows "\<exists>db'. MarkBatchImageJobSettled env p db = (Inr (), db')
    \<and> changed_job b (settle_row now p j) db db'"
proof -
  let ?P = "\<lambda>j. j_BatchID j = m_BatchID p \<and> j_Status j = ''settling''
              \<and> j_ManifestHash j \<in> {None, Some '''', Some (m_ManifestHash p)}"
  have b: "j_BatchID j = b" using find_job_mem [OF assms(3)] by simp
  have Pj: "?P j" using assms(4,6,7) b by (simp only: simp_thms)
  have only: "j_BatchID i = b" if "?P i" for i using that assms(4) by simp
  have fb: "j_BatchID (settle_row now p j) = b"
    and fh: "j_ManifestHash (settle_row now p j) = Some (m_ManifestHash p)"
    using b by (simp_all add: settle_row_def)
  obtain db1 db2 n where up: "update_jobs env ?P (settle_row now p) db = (Inr (Suc n), db1)"
    and ev: "appendBatchImageEventWithSQL env b ''settlement_completed'' (m_EventPayload p) db1 = (Inr (), db2)"
    and ch: "changed_job b (settle_row now p j) db db2"
    using update_then_event [where P = ?P and f = "settle_row now p"
        and ty = "''settlement_completed''" and p = "m_EventPayload p", OF assms(1-3) Pj only fb] fh assms(8)
    unfolding changed_job_def by blast
  have "markBatchImageJobSettledWithSQL env p db = (Inr (), db2)"
    unfolding markBatchImageJobSettledWithSQL_def assms(5) option.case Let_def bm_bind_def up
    using assms(1,4) ev by (simp add: bm_simps)
  from tx_quiet [where m = "markBatchImageJobSettledWithSQL env p", OF assms(1) this] ch
  show ?thesis
    unfolding MarkBatchImageJobSettled_def by blast
qed

section \<open>Methods that leave the items alone\<close>

definition keeps_items :: "'a batch_m \<Rightarrow> bool" where
  "keeps_items m \<longleftrightarrow> (\<forall>db. items (snd (m db)) = items db)"

lemma keeps_items_rules:
  "keeps_items (bm_return x)" "keeps_items (bm_fail e)"
  "keeps_items m \<Longrightarrow> (\<And>x. keeps_items (f x)) \<Longrightarrow> keeps_items (bm_bind m f)"
  "keeps_items m \<Longrightarrow> keeps_items (bm_stmt env k m)"
  "keeps_items m \<Longrightarrow> keeps_items (bm_translate tr m)"
  "keeps_items m \<Longrightarrow> keeps_items (bm_tx env m)"
  "keeps_items (update_jobs env P g)" "keeps_items (select_job env k P)"
  "keeps_items (appendBatchImageEventWithSQL env b ty p)"
proof -
  show "keeps_items (bm_bind m f)" if "keeps_items m" "\<And>x. keeps_items (f x)"
    unfolding keeps_items_def bm_bind_def
  proof
    fix db
    obtain r db1 where m: "m db = (r, db1)" by (cases "m db")
    then have "items db1 = items db" using that(1) by (metis keeps_items_def snd_conv)
    then show "items (snd (case m db of (Inl e, db') \<Rightarrow> (Inl e, db') | (Inr x, db') \<Rightarrow> f x db')) = items db"
      using m that(2) by (cases r) (simp_all add: keeps_items_def)
  qed
  show "keeps_items (bm_translate tr m)" if "keeps_items m"
    unfolding keeps_items_def bm_translate_def
    using that by (auto simp: keeps_items_def split: prod.split sum.split) (metis snd_conv)+
  show "keeps_items (bm_tx env m)" if "keeps_items m"
    unfolding keeps_items_def bm_tx_def
    using that by (auto simp: keeps_items_def split: prod.split sum.split) (metis snd_conv)+
qed (auto simp: keeps_items_def bm_simps bm_stmt_def update_jobs_def select_job_def Let_def
      appendBatchImageEventWithSQL_def split: option.split)

lemma items_kept:
  "m db = (r, db') \<Longrightarrow> keeps_items m \<Longrightarrow> items db' = items db"
  by (metis keeps_items_def snd_conv)

lemma keeps_items_methods:
  "keeps_items (TransitionBatchImageJobStatus env b to opts)"
  "keeps_items (MarkBatchImageJobSettled env p)"
  "keeps_items (UpdateBatchImageJobProviderOutputRef env b ref)"
  unfolding TransitionBatchImageJobStatus_def transitionBatchImageJobStatusWithSQL_def lock_status_def
    MarkBatchImageJobSettled_def markBatchImageJobSettledWithSQL_def UpdateBatchImageJobProviderOutputRef_def
    must_affect_def Let_def
  by (auto intro!: keeps_items_rules)

end
