(* ===== verification/Amounts.thy ===== *)
theory Amounts
  imports BalanceHold
begin

text \<open>
  Amounts that the code computes in \<open>float64\<close>: the shortest decimal under which such an amount
  reaches the database, how far it is from the exact product, and a capture whose actual amount
  carries that rounding noise.
\<close>

section \<open>Shortest decimals\<close>

text \<open>
  The shortest decimal that reads back as a given \<open>float64\<close>: what
  \<open>strconv.FormatFloat\<close> with precision \<open>-1\<close> prints.
\<close>

definition shortest_decimal :: "rat \<Rightarrow> decimal" where
  "shortest_decimal x =
     (case find (\<lambda>k. f64 (round_half_away k x) = x) [0..<400] of
        None \<Rightarrow> x | Some k \<Rightarrow> round_half_away k x)"

lemma shortest_decimal_cases: "shortest_decimal x = x \<or> f64 (shortest_decimal x) = x"
  by (auto simp: shortest_decimal_def find_Some_iff split: option.split)

lemma shortest_decimal_nonneg: "0 \<le> x \<Longrightarrow> 0 \<le> shortest_decimal x"
  by (auto simp: shortest_decimal_def round_half_away_nonneg split: option.split)

lemma shortest_decimal_error:
  "\<bar>shortest_decimal x - x\<bar> \<le> \<bar>shortest_decimal x\<bar> / 2 ^ 53 + 2 powi (- 1075)"
  using shortest_decimal_cases [of x] f64_error [of "shortest_decimal x"] tiny(1)
  by (auto simp: abs_minus_commute)

lemma tiny30: "(2 :: rat) powi (- 1075) \<le> 1 / 10 ^ 30"
proof -
  have "(10 :: rat) ^ 30 \<le> 2 ^ 1075"
    by (rule order_trans [of _ "2 ^ 100"]) (simp, rule power_increasing, simp_all)
  then show ?thesis by (simp add: power_int_def field_simps)
qed

text \<open>A count times a unit price, as \<open>float64(count) * price\<close>.\<close>

definition computed_cost :: "int \<Rightarrow> decimal \<Rightarrow> decimal" where
  "computed_cost n p = shortest_decimal (f64 (of_int n * f64 p))"

lemma error_bound: "\<bar>f64 x - x\<bar> \<le> \<bar>x\<bar> / 2 ^ 53 + 1 / 10 ^ 30"
  using f64_error [of x] tiny30 by linarith

lemma computed_cost_nonneg: "0 \<le> n \<Longrightarrow> 0 \<le> p \<Longrightarrow> 0 \<le> computed_cost n p"
  by (simp add: computed_cost_def shortest_decimal_nonneg f64_nonneg)

lemma computed_cost_near:
  assumes n: "0 \<le> n" "n < 2 ^ 31" and p: "0 \<le> p" and np: "of_int n * p \<le> 10 ^ 5"
  shows "\<bar>computed_cost n p - of_int n * p\<bar> \<le> 4 / 10 ^ 11"
proof -
  define N :: rat where "N = of_int n"
  have N: "0 \<le> N" "N \<le> 2 ^ 31" using n by (simp_all add: N_def of_int_less_iff [symmetric] less_imp_le del: of_int_less_iff)
  define y where "y = N * f64 p"
  have "\<bar>y - N * p\<bar> = N * \<bar>f64 p - p\<bar>"
    using N by (simp add: y_def abs_mult flip: right_diff_distrib)
  also have "\<dots> \<le> N * (p / 2 ^ 53 + 1 / 10 ^ 30)"
    using error_bound [of p] p N by (intro mult_left_mono) simp_all
  also have "\<dots> \<le> 10 ^ 5 / 2 ^ 53 + 2 ^ 31 / 10 ^ 30"
  proof -
    have "N * (p / 2 ^ 53 + 1 / 10 ^ 30) = N * p / 2 ^ 53 + N / 10 ^ 30" by (simp add: algebra_simps)
    moreover have "N * p / 2 ^ 53 \<le> 10 ^ 5 / 2 ^ 53" using np by (intro divide_right_mono) (simp_all add: N_def)
    moreover have "N / 10 ^ 30 \<le> 2 ^ 31 / 10 ^ 30" using N by (intro divide_right_mono) simp_all
    ultimately show ?thesis by linarith
  qed
  finally have "\<bar>y - N * p\<bar> \<le> 10 ^ 5 / 2 ^ 53 + 2 ^ 31 / 10 ^ 30" .
  moreover have "(10 :: rat) ^ 5 / 2 ^ 53 + 2 ^ 31 / 10 ^ 30 \<le> 12 / 10 ^ 12" by simp
  moreover define c where "c = N * p"
  ultimately have 1: "\<bar>y - c\<bar> \<le> 12 / 10 ^ 12" by simp
  have y0: "0 \<le> y" using N f64_nonneg [OF p] by (simp add: y_def)
  define x where "x = f64 y"
  have 2: "\<bar>x - y\<bar> \<le> y / 2 ^ 53 + 1 / 10 ^ 30" using error_bound [of y] y0 by (simp add: x_def)
  define s where "s = shortest_decimal x"
  have s0: "0 \<le> s" using shortest_decimal_nonneg f64_nonneg [OF y0] by (simp add: s_def x_def)
  have 3: "\<bar>s - x\<bar> \<le> s / 2 ^ 53 + 1 / 10 ^ 30"
    using shortest_decimal_error [of x] s0 tiny30 by (simp add: s_def)
  have np': "c \<le> 10 ^ 5" using np by (simp add: N_def c_def)
  have tiny1: "\<bar>a\<bar> \<le> 1" if "\<bar>a\<bar> \<le> 12 / 10 ^ 12" for a :: rat
    using that by (rule order_trans) simp
  have y1: "y \<le> 100001" using tiny1 [OF 1] np' by (simp add: abs_le_iff)
  have "y / 2 ^ 53 \<le> 100001 / 2 ^ 53" using y1 by (rule divide_right_mono) simp
  moreover have "(100001 :: rat) / 2 ^ 53 + 1 / 10 ^ 30 \<le> 12 / 10 ^ 12" by simp
  ultimately have 2: "\<bar>x - y\<bar> \<le> 12 / 10 ^ 12" using 2 by linarith
  have "s \<le> x + (s / 2 ^ 53 + 1 / 10 ^ 30)" using 3 by (simp add: abs_le_iff)
  moreover have "x \<le> 100002" using tiny1 [OF 2] y1 by (simp add: abs_le_iff)
  ultimately have s1: "s \<le> 100003" by (simp add: field_simps)
  have "s / 2 ^ 53 \<le> 100003 / 2 ^ 53" using s1 by (rule divide_right_mono) simp
  moreover have "(100003 :: rat) / 2 ^ 53 + 1 / 10 ^ 30 \<le> 12 / 10 ^ 12" by simp
  ultimately have 3: "\<bar>s - x\<bar> \<le> 12 / 10 ^ 12" using 3 by linarith
  have "\<bar>s - c\<bar> \<le> \<bar>s - x\<bar> + \<bar>x - y\<bar> + \<bar>y - c\<bar>" by simp
  also have "\<dots> \<le> 12 / 10 ^ 12 + 12 / 10 ^ 12 + 12 / 10 ^ 12" using 1 2 3 by (intro add_mono)
  also have "\<dots> \<le> 4 / 10 ^ 11" by simp
  finally have "\<bar>s - c\<bar> \<le> 4 / 10 ^ 11" .
  then show ?thesis by (simp add: computed_cost_def s_def x_def y_def N_def c_def)
qed

section \<open>Rounding noise\<close>

lemma round_near:
  assumes "on_scale n z" and "\<bar>x - z\<bar> < 1 / 2 / 10 ^ n"
  shows "round_half_away n x = z"
proof -
  have err: "\<bar>round_half_away n x - z\<bar> < 1 / 10 ^ n"
  proof -
    have "1 / 2 / 10 ^ n + 1 / 2 / 10 ^ n = (1 :: rat) / 10 ^ n" by simp
    then show ?thesis using round_half_away_error [of n x] assms(2) by linarith
  qed
  obtain i j :: int where i: "z * 10 ^ n = of_int i" and j: "round_half_away n x * 10 ^ n = of_int j"
    using assms(1) on_scale_round [of n x] unfolding on_scale_int by blast
  have "\<bar>round_half_away n x - z\<bar> * 10 ^ n < 1"
    using err by (simp add: pos_less_divide_eq)
  moreover have "\<bar>round_half_away n x - z\<bar> * 10 ^ n = \<bar>of_int (j - i)\<bar>"
  proof -
    have "\<bar>round_half_away n x - z\<bar> * 10 ^ n = \<bar>(round_half_away n x - z) * 10 ^ n\<bar>" by (simp add: abs_mult)
    then show ?thesis using i j by (simp add: left_diff_distrib)
  qed
  ultimately have "i = j" by (simp flip: of_int_abs)
  with i j have "round_half_away n x * 10 ^ n = z * 10 ^ n" by (simp only:)
  then show ?thesis by simp
qed

lemma on_scale_weaken: "on_scale 8 z \<Longrightarrow> on_scale 10 z"
proof -
  assume "on_scale 8 z"
  then obtain i :: int where "z * 10 ^ 8 = of_int i" unfolding on_scale_int ..
  then have "z * 10 ^ 10 = of_int (i * 100)" by simp
  then show ?thesis unfolding on_scale_int ..
qed

lemma exceeds_hold_noise:
  assumes "0 \<le> a" "0 \<le> h" "h \<le> 10 ^ 5" and "a \<le> h + 4 / 10 ^ 11"
  shows "\<not> exceeds_hold a h"
proof -
  have "f64 a - f64 h \<le> a - h + a / 2 ^ 53 + h / 2 ^ 53 + 2 / 10 ^ 30"
    using error_bound [of a] error_bound [of h] assms(1,2) by (simp add: abs_le_iff)
  also have "\<dots> \<le> 1 / 10 ^ 8" using assms by (simp add: field_simps)
  finally have "f64 (f64 a - f64 h) \<le> f64 (1 / 10 ^ 8)" by (rule f64_mono)
  then show ?thesis by (simp add: exceeds_hold_def)
qed

text \<open>A capture of an amount that exceeds the hold by noise at most is granted.\<close>

lemma capture_near:
  assumes "no_faults env" and "h_RequestID c = rid" "trim_space rid = rid" "rid \<noteq> []"
    and "free_key db rid (h_APIKeyID c)"
    and "0 < h_HoldAmount c" "h_HoldAmount c \<le> 10 ^ 5"
    and "0 \<le> h_ActualAmount c" and "\<bar>h_ActualAmount c - cost\<bar> \<le> 4 / 10 ^ 11"
    and "cost \<le> h_HoldAmount c"
    and "users db (h_UserID c) = Some u" "\<not> u_deleted u"
    and "h_HoldAmount c \<le> u_frozen_balance u"
  shows "\<exists>r fp. CaptureBatchImageBalance env (Some c) db = (Inr r,
      db\<lparr>dedup := (dedup db)((rid, h_APIKeyID c) \<mapsto> fp),
         users := (users db)(h_UserID c \<mapsto>
           u\<lparr>u_balance := round_half_away 8 (u_balance u + (h_HoldAmount c - h_ActualAmount c)),
             u_frozen_balance := round_half_away 8 (u_frozen_balance u - h_HoldAmount c),
             u_updated_at := env_now env\<rparr>)\<rparr>)
    \<and> h_Applied r"
proof -
  have "h_ActualAmount c \<le> h_HoldAmount c + 4 / 10 ^ 11" using assms(9,10) by linarith
  then have "\<not> exceeds_hold (h_ActualAmount c) (h_HoldAmount c)"
    using assms(6,7,8) by (intro exceeds_hold_noise) simp_all
  from capture_ok [OF assms(1-6) this assms(11-13)] show ?thesis .
qed

text \<open>
  What a capture leaves of a user whose hold is charged a cost: the two columns are rounded to eight
  decimals and the captured amount carries the noise, so each is within a unit of the eighth decimal
  of the exact value, and is that value when hold and cost have eight decimals.
\<close>

definition charged :: "decimal \<Rightarrow> decimal \<Rightarrow> user_row \<Rightarrow> user_row \<Rightarrow> bool" where
  "charged hold cost u u' \<longleftrightarrow>
     \<bar>u_balance u' - (u_balance u + (hold - cost))\<bar> \<le> 6 / 10 ^ 9
     \<and> \<bar>u_frozen_balance u' - (u_frozen_balance u - hold)\<bar> \<le> 5 / 10 ^ 9
     \<and> (on_scale 8 hold \<and> on_scale 8 cost \<longrightarrow>
          u_balance u' = u_balance u + (hold - cost) \<and> u_frozen_balance u' = u_frozen_balance u - hold)"

lemma chargedI:
  assumes "\<bar>actual - cost\<bar> \<le> 4 / 10 ^ 11" "scaled_row u"
    and "u_balance u' = round_half_away 8 (u_balance u + (hold - actual))"
    and "u_frozen_balance u' = round_half_away 8 (u_frozen_balance u - hold)"
  shows "charged hold cost u u'"
proof -
  have sc: "on_scale 8 (u_balance u)" "on_scale 8 (u_frozen_balance u)"
    using assms(2) by (simp_all add: scaled_row_def)
  have "\<bar>u_balance u' - (u_balance u + (hold - actual))\<bar> \<le> 5 / 10 ^ 9"
    using round_half_away_error [of 8 "u_balance u + (hold - actual)"] unfolding assms(3) by simp
  then have "\<bar>u_balance u' - (u_balance u + (hold - cost))\<bar> \<le> 5 / 10 ^ 9 + 4 / 10 ^ 11"
    using assms(1) by linarith
  moreover have "\<bar>u_frozen_balance u' - (u_frozen_balance u - hold)\<bar> \<le> 5 / 10 ^ 9"
    using round_half_away_error [of 8 "u_frozen_balance u - hold"] unfolding assms(4) by simp
  moreover have "u_balance u' = u_balance u + (hold - cost)" if "on_scale 8 hold" "on_scale 8 cost"
    unfolding assms(3) by (rule round_near) (use assms(1) that sc in \<open>simp_all add: abs_minus_commute\<close>)
  ultimately show ?thesis using sc by (simp add: charged_def assms(4))
qed

end
