(* ===== verification/BatchImageSettlement.thy ===== *)
theory BatchImageSettlement
  imports BatchImageQuiet Amounts
begin

text \<open>
  Settling a batch image job (\<open>backend/internal/service/batch_image_settlement.go\<close>), the
  wrappers around the balance-hold ledger (\<open>batch_image_billing_hold.go\<close>): that a settlement
  charges the exact cost, and that a failing one comes to an end.

  The service works on two databases, the job tables and the billing ledger; every call to
  either meets an environment of its own.  The calls of the usage-log writer and of the
  authentication cache are recorded in the state.  Log output is left out.
\<close>

section \<open>State and environment\<close>

record usage_log =
  ul_UserID :: int
  ul_APIKeyID :: int
  ul_AccountID :: int
  ul_RequestID :: string
  ul_Model :: string
  ul_RequestedModel :: string
  ul_InboundEndpoint :: string
  ul_UpstreamEndpoint :: string
  ul_ImageCount :: int
  ul_ImageOutputCost :: decimal
  ul_TotalCost :: decimal
  ul_ActualCost :: decimal
  ul_RateMultiplier :: decimal
  ul_AccountRateMultiplier :: decimal
  ul_BillingType :: int
  ul_RequestType :: int
  ul_BillingMode :: string
  ul_ImageSize :: string
  ul_SessionID :: "string option"
  ul_CreatedAt :: go_time

record batch_store =
  bs_jobs :: batch_db
  bs_billing :: billing_db
  bs_usage_logs :: "usage_log list"
  bs_invalidated :: "int list"

text \<open>
  The fields of the service: which collaborators are set, the pricing interface, and the configured
  retention; \<open>sv_sha256\<close> is SHA-256 in hexadecimal, \<open>sv_error_text\<close> is \<open>err.Error()\<close>.
\<close>

record settlement_service =
  sv_repo :: bool
  sv_billing :: bool
  sv_usage_log :: bool
  sv_pricing :: "(BatchImageJob \<Rightarrow> batch_error + decimal) option"
  sv_auth_cache :: bool
  sv_retention_hours :: "int option"
  sv_sha256 :: "string \<Rightarrow> string"
  sv_error_text :: "batch_error \<Rightarrow> string"

record settle_env =
  se_now :: go_time
  se_get :: batch_env
  se_capture :: billing_env
  se_mark :: batch_env
  se_record :: batch_env
  se_release :: billing_env
  se_record_release :: batch_env
  se_transition :: batch_env

text \<open>A repository call on the job tables inside the service.\<close>

definition on_jobs :: "'a batch_m \<Rightarrow> batch_store \<Rightarrow> (batch_error + 'a) \<times> batch_store" where
  "on_jobs m st = (case m (bs_jobs st) of (r, db) \<Rightarrow> (r, st\<lparr>bs_jobs := db\<rparr>))"

section \<open>Hold commands\<close>

definition batchImageDerefString :: "string option \<Rightarrow> string" where
  "batchImageDerefString v = (case v of None \<Rightarrow> '''' | Some s \<Rightarrow> trim_space s)"

definition truncateBatchImageMessage :: "string \<Rightarrow> int \<Rightarrow> string" where
  "truncateBatchImageMessage message limit =
     (let m = trim_space message in
      if limit \<le> 0 \<or> int (length m) \<le> limit then m else take (nat limit) m)"

definition batchImageMaxErrorMessageLength :: int where
  "batchImageMaxErrorMessageLength = 1000"

definition job_hold_amount :: "BatchImageJob \<Rightarrow> decimal" where
  "job_hold_amount job = (case j_HoldAmount job of None \<Rightarrow> j_EstimatedCost job | Some h \<Rightarrow> h)"

definition buildBatchImageHoldCommand ::
  "BatchImageJob option \<Rightarrow> string \<Rightarrow> decimal \<Rightarrow> string \<Rightarrow> batch_error + BatchImageBalanceHoldCommand" where
  "buildBatchImageHoldCommand job0 requestID actualAmount payloadHash =
     (case job0 of
        None \<Rightarrow> Inl (ErrBatchImageBillingHoldFailed None)
      | Some job \<Rightarrow>
          (case j_APIKeyID job of
             None \<Rightarrow> Inl ErrBatchImageSettlementMissingAPIKeyID
           | Some key \<Rightarrow>
               if key \<le> 0 then Inl ErrBatchImageSettlementMissingAPIKeyID
               else Inr \<lparr>h_RequestID = requestID, h_APIKeyID = key, h_RequestFingerprint = '''',
                         h_RequestPayloadHash = trim_space payloadHash, h_UserID = j_UserID job,
                         h_BatchID = j_BatchID job,
                         h_HoldAmount = (if job_hold_amount job < 0 then 0 else job_hold_amount job),
                         h_ActualAmount = (if actualAmount < 0 then 0 else actualAmount)\<rparr>))"

definition reserveBatchImageBalanceHold ::
  "bool \<Rightarrow> billing_env \<Rightarrow> BatchImageJob \<Rightarrow> string \<Rightarrow> billing_db \<Rightarrow> batch_error option \<times> billing_db" where
  "reserveBatchImageBalanceHold repo env job payloadHash db =
     (if \<not> repo then (Some (ErrBatchImageBillingHoldFailed None), db)
      else case buildBatchImageHoldCommand (Some job) (BatchImageHoldRequestID (j_BatchID job)) 0 payloadHash of
        Inl e \<Rightarrow> (Some e, db)
      | Inr cmd \<Rightarrow>
          if h_HoldAmount cmd \<le> 0 then (None, db)
          else (case ReserveBatchImageBalance env (Some cmd) db of
                  (Inl e, db') \<Rightarrow>
                    (Some (if e = ErrBatchImageInsufficientBalance then ErrInsufficientBalance
                           else ErrBatchImageBillingHoldFailed (Some e)), db')
                | (Inr r, db') \<Rightarrow> (None, db')))"

definition captureBatchImageBalanceHold ::
  "bool \<Rightarrow> billing_env \<Rightarrow> BatchImageJob \<Rightarrow> decimal \<Rightarrow> string \<Rightarrow> billing_db \<Rightarrow> batch_error option \<times> billing_db" where
  "captureBatchImageBalanceHold repo env job actualAmount payloadHash db =
     (if \<not> repo then (Some (ErrBatchImageSettlementBillingFailed None), db)
      else case buildBatchImageHoldCommand (Some job) (BatchImageCaptureRequestID (j_BatchID job))
                  actualAmount payloadHash of
        Inl e \<Rightarrow> (Some e, db)
      | Inr cmd \<Rightarrow>
          (case CaptureBatchImageBalance env (Some cmd) db of
             (Inl e, db') \<Rightarrow> (Some (ErrBatchImageSettlementBillingFailed (Some e)), db')
           | (Inr r, db') \<Rightarrow> (None, db')))"

text \<open>A fingerprint conflict on the release means an earlier release went through.\<close>

definition releaseBatchImageBalanceHold ::
  "bool \<Rightarrow> billing_env \<Rightarrow> BatchImageJob \<Rightarrow> string \<Rightarrow> billing_db \<Rightarrow> batch_error option \<times> billing_db" where
  "releaseBatchImageBalanceHold repo env job payloadHash db =
     (if \<not> repo then (None, db)
      else case buildBatchImageHoldCommand (Some job) (BatchImageReleaseRequestID (j_BatchID job)) 0 payloadHash of
        Inl e \<Rightarrow> (Some e, db)
      | Inr cmd \<Rightarrow>
          if h_HoldAmount cmd \<le> 0 then (None, db)
          else (case ReleaseBatchImageBalance env (Some cmd) db of
                  (Inl e, db') \<Rightarrow>
                    (if e = ErrUsageBillingRequestConflict then (None, db')
                     else (Some (ErrBatchImageBillingHoldFailed (Some e)), db'))
                | (Inr r, db') \<Rightarrow> (None, db')))"

section \<open>Settling\<close>

definition batchImageSettlementMaxRetries :: int where
  "batchImageSettlementMaxRetries = 5"

definition BuildBatchImageSettlementManifestHash :: "(string \<Rightarrow> string) \<Rightarrow> BatchImageJob option \<Rightarrow> string" where
  "BuildBatchImageSettlementManifestHash sha job0 =
     (case job0 of None \<Rightarrow> '''' | Some job \<Rightarrow>
        sha (join [CHR 0x00]
          [trim_space (j_BatchID job), trim_space (j_Provider job), trim_space (j_Model job),
           batchImageDerefString (j_ProviderJobName job), batchImageDerefString (j_ProviderOutputRef job),
           itoa (j_SuccessCount job), itoa (j_FailCount job), itoa (j_ItemCount job)]))"

definition settlementUnitPrice :: "settlement_service \<Rightarrow> BatchImageJob \<Rightarrow> batch_error + decimal" where
  "settlementUnitPrice s job =
     (if j_PricingSnapshotVersion job \<ge> 1
      then (if j_BillableUnitPrice job < 0 then Inl ErrBatchImageSettlementPricingMissing
            else Inr (j_BillableUnitPrice job))
      else (case sv_pricing s of None \<Rightarrow> Inl ErrBatchImageSettlementPricingMissing | Some p \<Rightarrow> p job))"

definition outputRetentionAfterTerminal :: "settlement_service \<Rightarrow> duration" where
  "outputRetentionAfterTerminal s =
     (case sv_retention_hours s of
        Some h \<Rightarrow> if h > 0 then int64 (h * hour_ns) else 72 * hour_ns
      | None \<Rightarrow> 72 * hour_ns)"

definition isBatchImageSettlementRetryExhausted :: "BatchImageJob \<Rightarrow> bool" where
  "isBatchImageSettlementRetryExhausted job \<longleftrightarrow>
     j_Status job = BatchImageJobStatusSettling \<and> j_RetryCount job \<ge> batchImageSettlementMaxRetries
     \<and> has_prefix (batchImageDerefString (j_LastErrorCode job)) ''SETTLEMENT_''"

definition invalidateAuthCache :: "settlement_service \<Rightarrow> int \<Rightarrow> batch_store \<Rightarrow> batch_store" where
  "invalidateAuthCache s userID st =
     (if sv_auth_cache s \<and> userID > 0 then st\<lparr>bs_invalidated := bs_invalidated st @ [userID]\<rparr> else st)"

definition failExhaustedSettlement ::
  "settlement_service \<Rightarrow> settle_env \<Rightarrow> BatchImageJob \<Rightarrow> string \<Rightarrow> batch_store \<Rightarrow> batch_error \<times> batch_store" where
  "failExhaustedSettlement s env job message st =
     (case releaseBatchImageBalanceHold (sv_billing s) (se_release env) job
             (batchImageDerefString (j_RequestHash job)) (bs_billing st) of
        (Some e, bdb) \<Rightarrow>
          (let msg = truncateBatchImageMessage (sv_error_text s e) batchImageMaxErrorMessageLength;
               st1 = st\<lparr>bs_billing := bdb\<rparr>;
               st2 = snd (on_jobs (SetBatchImageJobSettlementFailed (se_record_release env) (j_BatchID job)
                            ''SETTLEMENT_RELEASE_FAILED'' msg) st1)
           in (ErrBatchImageSettlementBillingFailed
                 (case e of ErrBatchImageBillingHoldFailed c \<Rightarrow> c | _ \<Rightarrow> None), st2))
      | (None, bdb) \<Rightarrow>
          (let st1 = invalidateAuthCache s (j_UserID job) (st\<lparr>bs_billing := bdb\<rparr>);
               msg0 = trim_space message;
               msg = (if msg0 = '''' then ''settlement billing retry limit reached'' else msg0)
           in case on_jobs (TransitionBatchImageJobStatus (se_transition env) (j_BatchID job)
                     BatchImageJobStatusFailed
                     \<lparr>t_EventType = ''settlement_retry_exhausted'',
                      t_EventPayload = Some [(''batch_id'', JStr (j_BatchID job)),
                                             (''retry_count'', JInt (j_RetryCount job))],
                      t_ErrorCode = Some ''SETTLEMENT_BILLING_RETRY_EXHAUSTED'',
                      t_ErrorMessage = Some msg, t_Now = None\<rparr>) st1 of
                (Inl e, st2) \<Rightarrow> (e, st2)
              | (Inr u, st2) \<Rightarrow> (ErrBatchImageSettlementBillingFailed None, st2)))"

text \<open>\<open>None\<close> is a nil error; a failure to record is logged and swallowed.\<close>

definition recordSettlementFailure ::
  "settlement_service \<Rightarrow> settle_env \<Rightarrow> BatchImageJob \<Rightarrow> string \<Rightarrow> string \<Rightarrow> batch_store
     \<Rightarrow> batch_error option \<times> batch_store" where
  "recordSettlementFailure s env job code message st =
     (case on_jobs (SetBatchImageJobSettlementFailed (se_record env) (j_BatchID job) code
             (truncateBatchImageMessage message batchImageMaxErrorMessageLength)) st of
        (Inl e, st1) \<Rightarrow> (None, st1)
      | (Inr retryCount, st1) \<Rightarrow>
          if retryCount \<ge> batchImageSettlementMaxRetries
          then (case failExhaustedSettlement s env
                       (job\<lparr>j_RetryCount := retryCount, j_LastErrorCode := Some code\<rparr>) message st1 of
                  (e, st2) \<Rightarrow> (Some e, st2))
          else (None, st1))"

text \<open>Record a failure and return the error it leaves: its own, if the retries are exhausted, else
  the one being recorded.\<close>

definition fail_settlement ::
  "settlement_service \<Rightarrow> settle_env \<Rightarrow> BatchImageJob \<Rightarrow> string \<Rightarrow> string \<Rightarrow> batch_error \<Rightarrow> batch_store
     \<Rightarrow> batch_error \<times> batch_store" where
  "fail_settlement s env job code message e st =
     (case recordSettlementFailure s env job code message st of
        (Some e', st1) \<Rightarrow> (e', st1) | (None, st1) \<Rightarrow> (e, st1))"

record BatchImageSettlementResult =
  r_BatchID :: string
  r_SuccessCount :: int
  r_FailCount :: int
  r_ActualCost :: decimal
  r_ManifestHash :: string
  r_RequestID :: string
  r_AlreadySettled :: bool

definition recordUsageLog ::
  "settlement_service \<Rightarrow> BatchImageJob \<Rightarrow> decimal \<Rightarrow> string \<Rightarrow> go_time \<Rightarrow> batch_store \<Rightarrow> batch_store" where
  "recordUsageLog s job actualCost requestID createdAt st =
     (case (j_APIKeyID job, j_AccountID job) of
        (Some key, Some account) \<Rightarrow>
          if \<not> sv_usage_log s then st
          else st\<lparr>bs_usage_logs := bs_usage_logs st @
                 [\<lparr>ul_UserID = j_UserID job, ul_APIKeyID = key, ul_AccountID = account,
                   ul_RequestID = trim_space requestID, ul_Model = j_Model job,
                   ul_RequestedModel = j_Model job, ul_InboundEndpoint = ''/v1/images/batches'',
                   ul_UpstreamEndpoint = ''vertex:batchPredictionJobs'',
                   ul_ImageCount = j_SuccessCount job, ul_ImageOutputCost = actualCost,
                   ul_TotalCost = actualCost, ul_ActualCost = actualCost,
                   ul_RateMultiplier =
                     shortest_decimal (f64 (f64 (j_GroupRateMultiplier job) * f64 (j_BatchDiscountMultiplier job))),
                   ul_AccountRateMultiplier = j_AccountRateMultiplier job, ul_BillingType = 0,
                   ul_RequestType = 1, ul_BillingMode = ''image'', ul_ImageSize = ''1K'',
                   ul_SessionID = j_SessionID job, ul_CreatedAt = createdAt\<rparr>]\<rparr>
      | _ \<Rightarrow> st)"
text \<open>The charge and the mark, once every check has passed.\<close>

definition settle_charge ::
  "settlement_service \<Rightarrow> settle_env \<Rightarrow> BatchImageJob \<Rightarrow> string \<Rightarrow> decimal \<Rightarrow> batch_store
     \<Rightarrow> (batch_error + BatchImageSettlementResult) \<times> batch_store" where
  "settle_charge s env job manifestHash actualCost st =
     (case captureBatchImageBalanceHold (sv_billing s) (se_capture env) job actualCost manifestHash
             (bs_billing st) of
        (Some e, bdb) \<Rightarrow>
          (case fail_settlement s env job ''SETTLEMENT_BILLING_FAILED''
                  (truncateBatchImageMessage (sv_error_text s e) batchImageMaxErrorMessageLength) e
                  (st\<lparr>bs_billing := bdb\<rparr>) of
             (e', st1) \<Rightarrow> (Inl e', st1))
      | (None, bdb) \<Rightarrow>
          (let st1 = invalidateAuthCache s (j_UserID job) (st\<lparr>bs_billing := bdb\<rparr>);
               now = se_now env;
               requestID = BatchImageCaptureRequestID (j_BatchID job)
           in case on_jobs (MarkBatchImageJobSettled (se_mark env)
                     \<lparr>m_BatchID = j_BatchID job, m_ActualCost = actualCost,
                      m_ManifestHash = manifestHash,
                      m_EventPayload =
                        Some [(''batch_id'', JStr (j_BatchID job)), (''request_id'', JStr requestID),
                              (''success_count'', JInt (j_SuccessCount job)),
                              (''fail_count'', JInt (j_FailCount job)),
                              (''actual_cost'', JNum actualCost), (''manifest_hash'', JStr manifestHash)],
                      m_Now = Some now,
                      m_OutputExpiresAt = Some (now + outputRetentionAfterTerminal s)\<rparr>) st1 of
                (Inl e, st2) \<Rightarrow> (Inl e, st2)
              | (Inr u, st2) \<Rightarrow>
                  (Inr \<lparr>r_BatchID = j_BatchID job, r_SuccessCount = j_SuccessCount job,
                        r_FailCount = j_FailCount job, r_ActualCost = actualCost,
                        r_ManifestHash = manifestHash, r_RequestID = requestID,
                        r_AlreadySettled = False\<rparr>,
                   recordUsageLog s job actualCost requestID now st2)))"

text \<open>The checks of a settling job, in the order of the code, after the retry limit.\<close>

definition bad_counts :: "BatchImageJob \<Rightarrow> bool" where
  "bad_counts job \<longleftrightarrow> j_SuccessCount job < 0 \<or> j_FailCount job < 0 \<or> j_ItemCount job < 0
     \<or> j_SuccessCount job + j_FailCount job > j_ItemCount job"

definition settle_job ::
  "settlement_service \<Rightarrow> settle_env \<Rightarrow> BatchImageJob \<Rightarrow> string \<Rightarrow> batch_store
     \<Rightarrow> (batch_error + BatchImageSettlementResult) \<times> batch_store" where
  "settle_job s env job manifestHash st =
     (let failed = (\<lambda>code message e. case fail_settlement s env job code message e st of
                                       (e', st1) \<Rightarrow> (Inl e', st1))
      in if bad_counts job
         then failed ''SETTLEMENT_INVALID_COUNTS''
                (''success='' @ itoa (j_SuccessCount job) @ '' fail='' @ itoa (j_FailCount job)
                 @ '' item_count='' @ itoa (j_ItemCount job))
                ErrBatchImageSettlementInvalidCounts
         else if batchImageDerefString (j_ManifestHash job) \<noteq> ''''
                 \<and> batchImageDerefString (j_ManifestHash job) \<noteq> manifestHash
         then failed ''SETTLEMENT_MANIFEST_CONFLICT'' ''manifest hash conflict''
                ErrBatchImageSettlementManifestConflict
         else case (case settlementUnitPrice s job of
                      Inl e \<Rightarrow> Inl e
                    | Inr p \<Rightarrow> if p < 0 then Inl ErrBatchImageSettlementPricingMissing else Inr p) of
           Inl e \<Rightarrow> failed ''SETTLEMENT_PRICING_MISSING'' (sv_error_text s e) e
         | Inr unitPrice \<Rightarrow>
             (let actualCost = computed_cost (j_SuccessCount job) unitPrice;
                  holdAmount = job_hold_amount job
              in if exceeds_hold actualCost holdAmount
                 then failed ''SETTLEMENT_COST_EXCEEDS_HOLD''
                        (''actual cost '' @ fmt_f10 actualCost @ '' exceeds held amount '' @ fmt_f10 holdAmount)
                        ErrSettlementCostExceedsHold
                 else settle_charge s env job manifestHash actualCost st))"

definition Settle ::
  "settlement_service \<Rightarrow> settle_env \<Rightarrow> string \<Rightarrow> batch_store
     \<Rightarrow> (batch_error + BatchImageSettlementResult) \<times> batch_store" where
  "Settle s env batchID st =
     (if \<not> sv_repo s \<or> \<not> sv_billing s \<or> sv_pricing s = None
      then (Inl (ErrBatchImageSettlementBillingFailed None), st)
      else case on_jobs (GetBatchImageJobByBatchID (se_get env) batchID) st of
        (Inl e, st1) \<Rightarrow> (Inl e, st1)
      | (Inr job, st1) \<Rightarrow>
          (let manifestHash = BuildBatchImageSettlementManifestHash (sv_sha256 s) (Some job)
           in if j_Status job = BatchImageJobStatusCompleted
              then (Inr \<lparr>r_BatchID = j_BatchID job, r_SuccessCount = j_SuccessCount job,
                         r_FailCount = j_FailCount job,
                         r_ActualCost = (case j_ActualCost job of None \<Rightarrow> 0 | Some c \<Rightarrow> c),
                         r_ManifestHash = manifestHash,
                         r_RequestID = BatchImageCaptureRequestID (j_BatchID job),
                         r_AlreadySettled = True\<rparr>, st1)
              else if j_Status job \<noteq> BatchImageJobStatusSettling
              then (Inl ErrBatchImageSettlementInvalidStatus, st1)
              else if (case j_APIKeyID job of None \<Rightarrow> True | Some k \<Rightarrow> k \<le> 0)
              then (Inl ErrBatchImageSettlementMissingAPIKeyID, st1)
              else if (case j_AccountID job of None \<Rightarrow> True | Some a \<Rightarrow> a \<le> 0)
              then (Inl ErrBatchImageSettlementMissingAccountID, st1)
              else if isBatchImageSettlementRetryExhausted job
              then (case failExhaustedSettlement s env job
                           (''settlement retry limit reached: '' @ batchImageDerefString (j_LastErrorCode job))
                           st1 of
                      (e, st2) \<Rightarrow> (Inl e, st2))
              else settle_job s env job manifestHash st1))"

section \<open>A settlement that goes through\<close>

definition configured :: "settlement_service \<Rightarrow> bool" where
  "configured s \<longleftrightarrow> sv_repo s \<and> sv_billing s \<and> sv_pricing s \<noteq> None"

definition settling_job :: "string \<Rightarrow> int \<Rightarrow> BatchImageJob \<Rightarrow> batch_store \<Rightarrow> bool" where
  "settling_job b key job st \<longleftrightarrow>
     unique_db (bs_jobs st) \<and> find_job b (bs_jobs st) = Some job
     \<and> j_Status job = BatchImageJobStatusSettling \<and> j_APIKeyID job = Some key \<and> 0 < key
     \<and> (\<exists>a. j_AccountID job = Some a \<and> 0 < a)"

lemma on_jobs_get:
  "batch_quiet env \<Longrightarrow> find_job b (bs_jobs st) = Some job \<Longrightarrow>
     on_jobs (GetBatchImageJobByBatchID env b) st = (Inr job, st)"
  by (simp add: on_jobs_def get_quiet)

abbreviation manifest_of :: "settlement_service \<Rightarrow> BatchImageJob \<Rightarrow> string" where
  "manifest_of s job \<equiv> BuildBatchImageSettlementManifestHash (sv_sha256 s) (Some job)"

lemma Settle_settling:
  assumes "configured s" "batch_quiet (se_get env)" "settling_job b key job st"
  shows "Settle s env b st =
    (if isBatchImageSettlementRetryExhausted job
     then (case failExhaustedSettlement s env job
                  (''settlement retry limit reached: '' @ batchImageDerefString (j_LastErrorCode job)) st of
             (e, st2) \<Rightarrow> (Inl e, st2))
     else settle_job s env job (manifest_of s job) st)"
  using assms on_jobs_get [OF assms(2)]
  by (auto simp: Settle_def configured_def settling_job_def status_defs Let_def)

lemma hold_command:
  "j_APIKeyID job = Some key \<Longrightarrow> 0 < key \<Longrightarrow> 0 \<le> job_hold_amount job \<Longrightarrow> 0 \<le> actual \<Longrightarrow>
     buildBatchImageHoldCommand (Some job) rid actual ph
     = Inr (hold_cmd rid key (j_UserID job) (j_BatchID job) (job_hold_amount job) actual (trim_space ph))"
  by (simp add: buildBatchImageHoldCommand_def hold_cmd_def)

lemma on_scale_int_mult: "on_scale k x \<Longrightarrow> on_scale k (of_int n * x)"
  unfolding on_scale_int mult.assoc by (metis of_int_mult)

text \<open>The charge of a job: its hold is captured for the exact cost.\<close>

lemma capture_hold_ok:
  assumes "no_faults env" "j_APIKeyID job = Some key" "0 < key"
    and "0 < job_hold_amount job" "job_hold_amount job \<le> 10 ^ 5"
    and "0 \<le> actual" "\<bar>actual - cost\<bar> \<le> 4 / 10 ^ 11" "cost \<le> job_hold_amount job"
    and "free_key db (BatchImageCaptureRequestID (j_BatchID job)) key"
    and "users db (j_UserID job) = Some u" "\<not> u_deleted u" "scaled_row u"
    and "job_hold_amount job \<le> u_frozen_balance u"
  shows "\<exists>db' u'. captureBatchImageBalanceHold True env job actual mh db = (None, db')
    \<and> users db' (j_UserID job) = Some u' \<and> charged (job_hold_amount job) cost u u'"
proof -
  let ?c = "hold_cmd (BatchImageCaptureRequestID (j_BatchID job)) key (j_UserID job) (j_BatchID job)
              (job_hold_amount job) actual (trim_space mh)"
  let ?u = "u\<lparr>u_balance := round_half_away 8 (u_balance u + (job_hold_amount job - actual)),
             u_frozen_balance := round_half_away 8 (u_frozen_balance u - job_hold_amount job),
             u_updated_at := env_now env\<rparr>"
  obtain r fp where "CaptureBatchImageBalance env (Some ?c) db = (Inr r,
      db\<lparr>dedup := (dedup db)((BatchImageCaptureRequestID (j_BatchID job), key) \<mapsto> fp),
         users := (users db)(j_UserID job \<mapsto> ?u)\<rparr>)"
    using capture_near [OF assms(1), of ?c "BatchImageCaptureRequestID (j_BatchID job)" db cost u] assms(4-13)
    by auto
  moreover have "charged (job_hold_amount job) cost u ?u"
    by (rule chargedI [OF assms(7,12)]) simp_all
  ultimately show ?thesis
    using assms(2-4,6) by (auto simp: captureBatchImageBalanceHold_def hold_command)
qed

text \<open>A settlement that goes through, in full.\<close>

lemma settle_exact:
  assumes "configured s" and "batch_quiet (se_get env)" "no_faults (se_capture env)" "batch_quiet (se_mark env)"
    and "settling_job b key job st" and "j_RetryCount job < batchImageSettlementMaxRetries"
    and "\<not> bad_counts job" "j_SuccessCount job < 2 ^ 31"
    and "j_ManifestHash job = None" "fresh_hash (manifest_of s job) b (bs_jobs st)"
    and "1 \<le> j_PricingSnapshotVersion job" "0 \<le> j_BillableUnitPrice job"
    and "on_scale 10 (j_BillableUnitPrice job)"
    and "cost = of_int (j_SuccessCount job) * j_BillableUnitPrice job" "cost \<le> job_hold_amount job"
    and "0 < job_hold_amount job" "job_hold_amount job \<le> 10 ^ 5"
    and "free_key (bs_billing st) (BatchImageCaptureRequestID b) key"
    and "users (bs_billing st) (j_UserID job) = Some u" "\<not> u_deleted u" "scaled_row u"
    and "job_hold_amount job \<le> u_frozen_balance u"
  shows "\<exists>r st' j' u'. Settle s env b st = (Inr r, st')
    \<and> users (bs_billing st') (j_UserID job) = Some u' \<and> charged (job_hold_amount job) cost u u'
    \<and> find_job b (bs_jobs st') = Some j' \<and> j_Status j' = BatchImageJobStatusCompleted
    \<and> j_ActualCost j' = Some cost \<and> j_SettledAt j' \<noteq> None
    \<and> j_SuccessCount j' = j_SuccessCount job \<and> items (bs_jobs st') = items (bs_jobs st)"
proof -
  define mh where "mh = manifest_of s job"
  define actual where "actual = computed_cost (j_SuccessCount job) (j_BillableUnitPrice job)"
  have job: "unique_db (bs_jobs st)" "find_job b (bs_jobs st) = Some job" "j_Status job = ''settling''"
      "j_APIKeyID job = Some key" "0 < key"
    using assms(5) by (auto simp: settling_job_def status_defs)
  have b: "j_BatchID job = b" using find_job_mem [OF job(2)] by simp
  have n: "0 \<le> j_SuccessCount job" using assms(7) by (auto simp: bad_counts_def)
  have np: "of_int (j_SuccessCount job) * j_BillableUnitPrice job \<le> 10 ^ 5"
    using assms(14,15,17) by simp
  have near: "\<bar>actual - cost\<bar> \<le> 4 / 10 ^ 11" and pos: "0 \<le> actual"
    using computed_cost_near [OF n assms(8,12) np] computed_cost_nonneg [OF n assms(12)]
    by (simp_all add: actual_def assms(14))
  have "actual \<le> job_hold_amount job + 4 / 10 ^ 11" using near assms(15) by linarith
  then have ex: "\<not> exceeds_hold actual (job_hold_amount job)"
    using pos assms(16,17) by (intro exceeds_hold_noise) simp_all
  obtain bdb u' where cap: "captureBatchImageBalanceHold True (se_capture env) job actual mh (bs_billing st) = (None, bdb)"
    and u': "users bdb (j_UserID job) = Some u'" "charged (job_hold_amount job) cost u u'"
    using capture_hold_ok [OF assms(3) job(4,5) assms(16,17) pos near assms(15), of "bs_billing st" u mh]
      assms(18-22) b by auto
  let ?st1 = "invalidateAuthCache s (j_UserID job) (st\<lparr>bs_billing := bdb\<rparr>)"
  have st1: "bs_jobs ?st1 = bs_jobs st" "bs_billing ?st1 = bdb" by (simp_all add: invalidateAuthCache_def)
  define p where "p = \<lparr>m_BatchID = b, m_ActualCost = actual, m_ManifestHash = mh,
      m_EventPayload = Some [(''batch_id'', JStr b), (''request_id'', JStr (BatchImageCaptureRequestID b)),
         (''success_count'', JInt (j_SuccessCount job)), (''fail_count'', JInt (j_FailCount job)),
         (''actual_cost'', JNum actual), (''manifest_hash'', JStr mh)],
      m_Now = Some (se_now env), m_OutputExpiresAt = Some (se_now env + outputRetentionAfterTerminal s)\<rparr>"
  obtain jdb where mark: "MarkBatchImageJobSettled (se_mark env) p (bs_jobs st) = (Inr (), jdb)"
    and ch: "changed_job b (settle_row (se_now env) p job) (bs_jobs st) jdb"
    using mark_settled_quiet [OF assms(4) job(1,2), of p "se_now env"] job(3) assms(9,10)
    by (auto simp: p_def mh_def)
  let ?st2 = "?st1\<lparr>bs_jobs := jdb\<rparr>"
  have "settle_charge s env job mh actual st
      = (Inr \<lparr>r_BatchID = b, r_SuccessCount = j_SuccessCount job, r_FailCount = j_FailCount job,
              r_ActualCost = actual, r_ManifestHash = mh, r_RequestID = BatchImageCaptureRequestID b,
              r_AlreadySettled = False\<rparr>,
         recordUsageLog s job actual (BatchImageCaptureRequestID b) (se_now env) ?st2)"
    using assms(1) cap mark st1
    by (simp add: settle_charge_def configured_def b Let_def on_jobs_def p_def)
  moreover have "settle_job s env job mh st = settle_charge s env job mh actual st"
    using assms(7,9,11,12) ex
    by (simp add: settle_job_def batchImageDerefString_def settlementUnitPrice_def actual_def Let_def)
  moreover have "\<not> isBatchImageSettlementRetryExhausted job"
    using assms(6) by (simp add: isBatchImageSettlementRetryExhausted_def)
  ultimately obtain r where settle: "Settle s env b st
      = (Inr r, recordUsageLog s job actual (BatchImageCaptureRequestID b) (se_now env) ?st2)"
    using Settle_settling [OF assms(1,2,5)] by (simp add: mh_def)
  have log: "bs_jobs (recordUsageLog s job a rid t x) = bs_jobs x"
      "bs_billing (recordUsageLog s job a rid t x) = bs_billing x" for a rid t x
    by (auto simp: recordUsageLog_def split: option.split)
  have "on_scale 10 cost" unfolding assms(14) using assms(13) by (rule on_scale_int_mult)
  then have "round_half_away 10 actual = cost" by (rule round_near) (use near in simp)
  then show ?thesis
    using settle ch u' items_kept [OF mark keeps_items_methods(2)]
    by (simp add: log st1 changed_job_def settle_row_def p_def status_defs)
qed

text \<open>C9 (settle_charges_exactly): a settling job with a price snapshot whose cost fits its hold is
  settled in one call in which no statement fails: nothing of the hold stays frozen, the user gets back
  the hold less \<open>success_count * billable_unit_price\<close>, and the job is completed with exactly that cost on
  record, despite the binary arithmetic in between.  When hold and cost have eight decimals, as the
  balance columns have, both balances are exact; otherwise the columns round, and each is within
  6 units of the ninth decimal.  The unit price has the ten decimals of its column, the hold is at
  most 100000.\<close>

theorem settle_charges_exactly:
  assumes "configured s" and "batch_quiet (se_get env)" "no_faults (se_capture env)" "batch_quiet (se_mark env)"
    and "settling_job b key job st" and "j_RetryCount job < batchImageSettlementMaxRetries"
    and "\<not> bad_counts job" "j_SuccessCount job < 2 ^ 31"
    and "j_ManifestHash job = None" "fresh_hash (manifest_of s job) b (bs_jobs st)"
    and "1 \<le> j_PricingSnapshotVersion job" "0 \<le> j_BillableUnitPrice job"
    and "on_scale 10 (j_BillableUnitPrice job)"
    and "cost = of_int (j_SuccessCount job) * j_BillableUnitPrice job" "cost \<le> job_hold_amount job"
    and "0 < job_hold_amount job" "job_hold_amount job \<le> 10 ^ 5"
    and "free_key (bs_billing st) (BatchImageCaptureRequestID b) key"
    and "users (bs_billing st) (j_UserID job) = Some u" "\<not> u_deleted u" "scaled_row u"
    and "job_hold_amount job \<le> u_frozen_balance u"
  shows "\<exists>r st' j' u'. Settle s env b st = (Inr r, st')
    \<and> users (bs_billing st') (j_UserID job) = Some u'
    \<and> (on_scale 8 (job_hold_amount job) \<and> on_scale 8 cost \<longrightarrow>
          u_balance u' = u_balance u + (job_hold_amount job - cost)
          \<and> u_frozen_balance u' = u_frozen_balance u - job_hold_amount job)
    \<and> \<bar>u_balance u' - (u_balance u + (job_hold_amount job - cost))\<bar> \<le> 6 / 10 ^ 9
    \<and> \<bar>u_frozen_balance u' - (u_frozen_balance u - job_hold_amount job)\<bar> \<le> 6 / 10 ^ 9
    \<and> find_job b (bs_jobs st') = Some j' \<and> j_Status j' = BatchImageJobStatusCompleted
    \<and> j_ActualCost j' = Some cost \<and> j_SettledAt j' \<noteq> None"
  using settle_exact [OF assms] unfolding charged_def by fastforce

section \<open>A settlement that keeps failing\<close>

text \<open>The hold of the job is frozen at its user and has not been released; the balance columns have
  eight decimals, the hold any number.\<close>

definition releasable :: "string \<Rightarrow> int \<Rightarrow> BatchImageJob \<Rightarrow> user_row \<Rightarrow> billing_db \<Rightarrow> bool" where
  "releasable b key job u db \<longleftrightarrow>
     0 < job_hold_amount job
     \<and> users db (j_UserID job) = Some u \<and> \<not> u_deleted u \<and> scaled_row u
     \<and> job_hold_amount job \<le> u_frozen_balance u
     \<and> key_claimed db (BatchImageHoldRequestID b, key) \<and> free_key db (BatchImageReleaseRequestID b) key"

text \<open>The two columns round to eight decimals; a hold that has eight is returned exactly.\<close>

definition hold_returned :: "BatchImageJob \<Rightarrow> user_row \<Rightarrow> billing_db \<Rightarrow> bool" where
  "hold_returned job u db \<longleftrightarrow>
     (\<exists>u'. users db (j_UserID job) = Some u'
        \<and> u_balance u' = round_half_away 8 (u_balance u + job_hold_amount job)
        \<and> u_frozen_balance u' = round_half_away 8 (u_frozen_balance u - job_hold_amount job)
        \<and> (on_scale 8 (job_hold_amount job) \<longrightarrow>
             u_balance u' = u_balance u + job_hold_amount job
             \<and> u_frozen_balance u' = u_frozen_balance u - job_hold_amount job))"

lemma release_hold_ok:
  assumes "no_faults env" "j_APIKeyID job = Some key" "0 < key" "j_BatchID job = b"
    and "releasable b key job u db"
  shows "\<exists>db'. releaseBatchImageBalanceHold True env job ph db = (None, db') \<and> hold_returned job u db'"
proof -
  let ?c = "hold_cmd (BatchImageReleaseRequestID b) key (j_UserID job) b (job_hold_amount job) 0 (trim_space ph)"
  obtain r fp where "ReleaseBatchImageBalance env (Some ?c) db = (Inr r,
      db\<lparr>dedup := (dedup db)((BatchImageReleaseRequestID b, key) \<mapsto> fp),
         users := (users db)(j_UserID job \<mapsto>
           u\<lparr>u_balance := round_half_away 8 (u_balance u + job_hold_amount job),
             u_frozen_balance := round_half_away 8 (u_frozen_balance u - job_hold_amount job),
             u_updated_at := env_now env\<rparr>)\<rparr>)"
    using release_ok [OF assms(1), of ?c "BatchImageReleaseRequestID b" db u] assms(5)
    by (auto simp: releasable_def)
  then show ?thesis
    using assms(2-5)
    by (auto simp: releaseBatchImageBalanceHold_def hold_command releasable_def hold_returned_def scaled_row_def)
qed

text \<open>The environments in which only the capture may fail.\<close>

definition only_capture_fails :: "settle_env \<Rightarrow> bool" where
  "only_capture_fails env \<longleftrightarrow>
     batch_quiet (se_get env) \<and> batch_quiet (se_mark env) \<and> batch_quiet (se_record env)
     \<and> batch_quiet (se_transition env) \<and> no_faults (se_release env)"

definition given_up :: "string \<Rightarrow> BatchImageJob \<Rightarrow> user_row \<Rightarrow> batch_store \<Rightarrow> bool" where
  "given_up b job u st \<longleftrightarrow>
     (\<exists>j. find_job b (bs_jobs st) = Some j \<and> j_Status j = ''failed'') \<and> hold_returned job u (bs_billing st)"

lemma settling_can_fail: "CanTransitionBatchImageJob ''settling'' ''failed''"
  by (simp add: CanTransitionBatchImageJob_def terminal_iff status_defs)

lemma failExhausted_gives_up:
  assumes "only_capture_fails env" "sv_billing s"
    and "unique_db (bs_jobs st)" "find_job b (bs_jobs st) = Some row" "j_Status row = ''settling''"
    and "j_BatchID job = b" "j_APIKeyID job = Some key" "0 < key"
    and "releasable b key job u (bs_billing st)"
  shows "given_up b job u (snd (failExhaustedSettlement s env job message st))"
proof -
  obtain bdb where rel: "releaseBatchImageBalanceHold True (se_release env) job
      (batchImageDerefString (j_RequestHash job)) (bs_billing st) = (None, bdb)" "hold_returned job u bdb"
    using release_hold_ok [OF _ assms(7,8,6,9)] assms(1) by (auto simp: only_capture_fails_def)
  let ?st1 = "invalidateAuthCache s (j_UserID job) (st\<lparr>bs_billing := bdb\<rparr>)"
  have st1: "bs_jobs ?st1 = bs_jobs st" "bs_billing ?st1 = bdb" by (simp_all add: invalidateAuthCache_def)
  define opts where "opts = \<lparr>t_EventType = ''settlement_retry_exhausted'',
      t_EventPayload = Some [(''batch_id'', JStr b), (''retry_count'', JInt (j_RetryCount job))],
      t_ErrorCode = Some ''SETTLEMENT_BILLING_RETRY_EXHAUSTED'',
      t_ErrorMessage = Some (if trim_space message = '''' then ''settlement billing retry limit reached''
                             else trim_space message), t_Now = None\<rparr>"
  obtain jdb where "TransitionBatchImageJobStatus (se_transition env) b ''failed'' opts (bs_jobs st) = (Inr (), jdb)"
    and "changed_job b (transition_row (b_now (se_transition env)) ''failed'' opts row) (bs_jobs st) jdb"
    using transition_quiet [where to = "''failed''" and opts = opts, OF _ assms(3,4)] assms(1,5) settling_can_fail
    by (auto simp: only_capture_fails_def opts_def)
  then show ?thesis
    using rel st1 assms(2,6)
    by (simp add: failExhaustedSettlement_def Let_def on_jobs_def status_defs opts_def given_up_def
        changed_job_def transition_row_def)
qed

lemma fail_settlement_counts:
  assumes "only_capture_fails env" "sv_billing s"
    and "settling_job b key job st" "releasable b key job u (bs_billing st)"
  shows "if j_RetryCount job + 1 \<ge> 5
    then given_up b job u (snd (fail_settlement s env job code message e st))
    else bs_billing (snd (fail_settlement s env job code message e st)) = bs_billing st
      \<and> (\<exists>m. changed_job b (settlement_failed_row (b_now (se_record env)) code m job) (bs_jobs st)
               (bs_jobs (snd (fail_settlement s env job code message e st))))"
proof -
  have job: "unique_db (bs_jobs st)" "find_job b (bs_jobs st) = Some job" "j_Status job = ''settling''"
      "j_APIKeyID job = Some key" "0 < key" "j_BatchID job = b"
    using assms(3) find_job_mem by (auto simp: settling_job_def status_defs)
  define m where "m = truncateBatchImageMessage message batchImageMaxErrorMessageLength"
  obtain jdb where rec: "SetBatchImageJobSettlementFailed (se_record env) b code m (bs_jobs st)
      = (Inr (j_RetryCount job + 1), jdb)"
    and ch: "changed_job b (settlement_failed_row (b_now (se_record env)) code m job) (bs_jobs st) jdb"
    using settlement_failed_quiet [of "se_record env", OF _ job(1,2)] assms(1)
    unfolding only_capture_fails_def by blast
  define job1 where "job1 = job\<lparr>j_RetryCount := j_RetryCount job + 1, j_LastErrorCode := Some code\<rparr>"
  let ?st1 = "st\<lparr>bs_jobs := jdb\<rparr>"
  have "job_hold_amount job1 = job_hold_amount job" "j_UserID job1 = j_UserID job"
    by (simp_all add: job_hold_amount_def job1_def split: option.split)
  then have rows: "releasable b key job1 u (bs_billing ?st1) = releasable b key job u (bs_billing st)"
      "given_up b job1 u st' = given_up b job u st'" for st'
    by (simp_all add: releasable_def given_up_def hold_returned_def)
  have row: "unique_db (bs_jobs ?st1)"
      "find_job b (bs_jobs ?st1) = Some (settlement_failed_row (b_now (se_record env)) code m job)"
      "j_Status (settlement_failed_row (b_now (se_record env)) code m job) = ''settling''"
      "j_BatchID job1 = b" "j_APIKeyID job1 = Some key"
    using ch job by (simp_all add: changed_job_def settlement_failed_row_def job1_def)
  have rel: "releasable b key job1 u (bs_billing ?st1)" using assms(4) rows(1) by simp
  have gu: "given_up b job u (snd (failExhaustedSettlement s env job1 message ?st1))"
    using failExhausted_gives_up [OF assms(1,2) row job(5) rel] rows(2) by simp
  have fs: "fail_settlement s env job code message e st
      = (if j_RetryCount job + 1 \<ge> 5 then failExhaustedSettlement s env job1 message ?st1 else (e, ?st1))"
    unfolding fail_settlement_def recordSettlementFailure_def on_jobs_def job(6) m_def [symmetric] rec
      batchImageSettlementMaxRetries_def job1_def
    by (simp split: prod.split)
  show ?thesis
  proof (cases "j_RetryCount job + 1 \<ge> 5")
    case True
    then show ?thesis using gu by (simp add: fs)
  next
    case False
    then show ?thesis using ch by (simp add: fs) blast
  qed
qed

lemma capture_error_unchanged:
  "captureBatchImageBalanceHold repo env job a mh db = (Some e, db') \<Longrightarrow> db' = db"
  using apply_hold_cases [of captureUsageBillingBatchImageBalance env _ db]
  by (fastforce simp: captureBatchImageBalanceHold_def CaptureBatchImageBalance_def
      split: if_splits sum.splits prod.splits)

text \<open>The state between two attempts: the job waits in \<open>settling\<close> with its hold in place.\<close>

definition clean_hash :: "BatchImageJob \<Rightarrow> bool" where
  "clean_hash job \<longleftrightarrow> (\<forall>h. j_ManifestHash job = Some h \<longrightarrow> trim_space h = h)"

definition waiting ::
  "settlement_service \<Rightarrow> string \<Rightarrow> int \<Rightarrow> BatchImageJob \<Rightarrow> user_row \<Rightarrow> batch_store \<Rightarrow> bool" where
  "waiting s b key job u st \<longleftrightarrow>
     settling_job b key job st \<and> releasable b key job u (bs_billing st)
     \<and> clean_hash job \<and> fresh_hash (manifest_of s job) b (bs_jobs st)"

lemma snd_case_Inl: "snd (case x of (e, st) \<Rightarrow> (Inl e, st)) = snd x"
  by (simp split: prod.split)

lemma settle_charge_outcome:
  assumes "configured s" "only_capture_fails env" "waiting s b key job u st"
    and "j_ManifestHash job \<in> {None, Some '''', Some (manifest_of s job)}"
  shows "(\<exists>j. find_job b (bs_jobs (snd (settle_charge s env job (manifest_of s job) actual st))) = Some j
        \<and> j_Status j = ''completed'')
    \<or> (\<exists>code msg e. snd (settle_charge s env job (manifest_of s job) actual st)
         = snd (fail_settlement s env job code msg e st))"
proof (cases "captureBatchImageBalanceHold (sv_billing s) (se_capture env) job actual (manifest_of s job) (bs_billing st)")
  case (Pair r bdb)
  have job: "unique_db (bs_jobs st)" "find_job b (bs_jobs st) = Some job" "j_Status job = ''settling''"
      "j_BatchID job = b"
    using assms(3) find_job_mem by (auto simp: waiting_def settling_job_def status_defs)
  show ?thesis
  proof (cases r)
    case (Some e)
    then have "bdb = bs_billing st" using Pair capture_error_unchanged by blast
    then have same: "st\<lparr>bs_billing := bdb\<rparr> = st" by simp
    show ?thesis
      unfolding settle_charge_def Pair Some prod.case option.case same snd_case_Inl by blast
  next
    case None
    let ?st1 = "invalidateAuthCache s (j_UserID job) (st\<lparr>bs_billing := bdb\<rparr>)"
    have st1: "bs_jobs ?st1 = bs_jobs st" by (simp add: invalidateAuthCache_def)
    define p where "p = \<lparr>m_BatchID = b, m_ActualCost = actual, m_ManifestHash = manifest_of s job,
      m_EventPayload = Some [(''batch_id'', JStr b), (''request_id'', JStr (BatchImageCaptureRequestID b)),
         (''success_count'', JInt (j_SuccessCount job)), (''fail_count'', JInt (j_FailCount job)),
         (''actual_cost'', JNum actual), (''manifest_hash'', JStr (manifest_of s job))],
      m_Now = Some (se_now env), m_OutputExpiresAt = Some (se_now env + outputRetentionAfterTerminal s)\<rparr>"
    have p: "m_BatchID p = b" "m_Now p = Some (se_now env)" "m_ManifestHash p = manifest_of s job"
      by (simp_all add: p_def)
    obtain jdb where mark: "MarkBatchImageJobSettled (se_mark env) p (bs_jobs st) = (Inr (), jdb)"
      and ch: "changed_job b (settle_row (se_now env) p job) (bs_jobs st) jdb"
      using mark_settled_quiet [of "se_mark env", OF _ job(1,2) p(1,2) job(3)] assms p(3)
      unfolding only_capture_fails_def waiting_def by auto
    have "bs_jobs (snd (settle_charge s env job (manifest_of s job) actual st)) = jdb"
      using mark st1
      by (simp add: settle_charge_def Pair None Let_def on_jobs_def job(4) p_def recordUsageLog_def
          split: option.split)
    with ch show ?thesis by (auto simp: changed_job_def settle_row_def)
  qed
qed

lemma settle_job_outcome:
  assumes "configured s" "only_capture_fails env" "waiting s b key job u st"
  shows "(\<exists>j. find_job b (bs_jobs (snd (settle_job s env job (manifest_of s job) st))) = Some j
        \<and> j_Status j = ''completed'')
    \<or> (\<exists>code msg e. snd (settle_job s env job (manifest_of s job) st)
         = snd (fail_settlement s env job code msg e st))"
proof -
  let ?mh = "manifest_of s job"
  let ?conflict = "batchImageDerefString (j_ManifestHash job) \<noteq> ''''
                 \<and> batchImageDerefString (j_ManifestHash job) \<noteq> ?mh"
  define price where "price = (case settlementUnitPrice s job of
      Inl e \<Rightarrow> Inl e
    | Inr p \<Rightarrow> if p < 0 then Inl ErrBatchImageSettlementPricingMissing else Inr p)"
  consider "bad_counts job \<or> ?conflict" | e where "\<not> bad_counts job" "\<not> ?conflict" "price = Inl e"
    | p where "\<not> bad_counts job" "\<not> ?conflict" "price = Inr p"
        "exceeds_hold (computed_cost (j_SuccessCount job) p) (job_hold_amount job)"
    | p where "\<not> bad_counts job" "\<not> ?conflict" "price = Inr p"
        "\<not> exceeds_hold (computed_cost (j_SuccessCount job) p) (job_hold_amount job)"
    by (cases price) auto
  then show ?thesis
  proof cases
    case 1
    then show ?thesis by (auto simp: settle_job_def Let_def snd_case_Inl)
  next
    case 2
    then show ?thesis
      unfolding settle_job_def Let_def price_def [symmetric] by (auto simp: snd_case_Inl)
  next
    case 3
    then show ?thesis
      unfolding settle_job_def Let_def price_def [symmetric] by (auto simp: snd_case_Inl)
  next
    case 4
    then have eq: "settle_job s env job ?mh st
        = settle_charge s env job ?mh (computed_cost (j_SuccessCount job) p) st"
      unfolding settle_job_def Let_def price_def [symmetric] by auto
    have "j_ManifestHash job \<in> {None, Some '''', Some ?mh}"
      using 4(2) assms(3)
      by (cases "j_ManifestHash job") (auto simp: batchImageDerefString_def waiting_def clean_hash_def)
    from settle_charge_outcome [OF assms this] show ?thesis unfolding eq .
  qed
qed

text \<open>One attempt: done, given up, or waiting with one retry more.\<close>

lemma settle_attempt:
  assumes "configured s" "only_capture_fails env" "waiting s b key job u st"
  shows "(\<exists>j. find_job b (bs_jobs (snd (Settle s env b st))) = Some j \<and> j_Status j = ''completed'')
    \<or> given_up b job u (snd (Settle s env b st))
    \<or> (\<exists>job'. waiting s b key job' u (snd (Settle s env b st))
         \<and> j_RetryCount job' = j_RetryCount job + 1 \<and> j_RetryCount job' < 5
         \<and> j_UserID job' = j_UserID job \<and> job_hold_amount job' = job_hold_amount job)"
proof (cases "isBatchImageSettlementRetryExhausted job")
  case True
  let ?m = "''settlement retry limit reached: '' @ batchImageDerefString (j_LastErrorCode job)"
  have "given_up b job u (snd (failExhaustedSettlement s env job ?m st))"
    using assms find_job_mem [of b "bs_jobs st" job]
    by (intro failExhausted_gives_up [where row = job and key = key])
       (auto simp: waiting_def settling_job_def configured_def status_defs)
  moreover have "snd (Settle s env b st) = snd (failExhaustedSettlement s env job ?m st)"
    using Settle_settling [of s env b key job st] True assms
    by (simp add: waiting_def only_capture_fails_def snd_case_Inl)
  ultimately show ?thesis by simp
next
  case False
  then have settle: "Settle s env b st = settle_job s env job (manifest_of s job) st"
    using Settle_settling [of s env b key job st] assms
    by (simp add: waiting_def only_capture_fails_def)
  from settle_job_outcome [OF assms] show ?thesis
  proof
    assume "\<exists>code msg e. snd (settle_job s env job (manifest_of s job) st)
        = snd (fail_settlement s env job code msg e st)"
    then obtain code msg e where fs: "snd (Settle s env b st) = snd (fail_settlement s env job code msg e st)"
      unfolding settle by blast
    have st: "settling_job b key job st" "releasable b key job u (bs_billing st)" "sv_billing s"
      using assms by (simp_all add: waiting_def configured_def)
    show ?thesis
    proof (cases "j_RetryCount job + 1 \<ge> 5")
      case True
      then show ?thesis
        using fail_settlement_counts [OF assms(2) st(3,1,2), of code msg e] by (simp add: fs)
    next
      case False
      let ?st' = "snd (Settle s env b st)"
      obtain m where bill: "bs_billing ?st' = bs_billing st"
        and ch: "changed_job b (settlement_failed_row (b_now (se_record env)) code m job) (bs_jobs st) (bs_jobs ?st')"
        using fail_settlement_counts [OF assms(2) st(3,1,2), of code msg e] False by (auto simp: fs)
      define job' where "job' = settlement_failed_row (b_now (se_record env)) code m job"
      have hold: "job_hold_amount job' = job_hold_amount job" and uid: "j_UserID job' = j_UserID job"
        and mh: "manifest_of s job' = manifest_of s job" and n: "j_RetryCount job' = j_RetryCount job + 1"
        and same: "j_ManifestHash job' = j_ManifestHash job" "j_Status job' = j_Status job"
          "j_APIKeyID job' = j_APIKeyID job" "j_AccountID job' = j_AccountID job"
        by (simp_all add: job_hold_amount_def job'_def settlement_failed_row_def
            BuildBatchImageSettlementManifestHash_def split: option.split)
      have "waiting s b key job' u ?st'"
        using assms(3) ch changed_fresh [OF ch] bill hold uid mh same
        by (auto simp: waiting_def settling_job_def releasable_def clean_hash_def changed_job_def
            job'_def [symmetric])
      with hold uid n False show ?thesis by auto
    qed
  qed (simp add: settle)
qed

fun settle_attempts :: "settlement_service \<Rightarrow> settle_env list \<Rightarrow> string \<Rightarrow> batch_store \<Rightarrow> batch_store" where
  "settle_attempts s [] b st = st"
| "settle_attempts s (env # envs) b st = settle_attempts s envs b (snd (Settle s env b st))"

lemma settled_is_final:
  assumes "configured s" "\<forall>env \<in> set envs. only_capture_fails env"
    and "find_job b (bs_jobs st) = Some j" "j_Status j = ''completed'' \<or> j_Status j = ''failed''"
  shows "settle_attempts s envs b st = st"
  using assms(2)
proof (induction envs)
  case (Cons env envs)
  then have "snd (Settle s env b st) = st"
    using assms(1,3,4) on_jobs_get [of "se_get env" b st j]
    by (auto simp: Settle_def configured_def only_capture_fails_def status_defs Let_def)
  then show ?case using Cons by simp
qed simp

lemma attempts_end:
  "configured s \<Longrightarrow> \<forall>env \<in> set envs. only_capture_fails env \<Longrightarrow> waiting s b key job u st \<Longrightarrow>
   5 - j_RetryCount job \<le> int (length envs) \<Longrightarrow> envs \<noteq> [] \<Longrightarrow>
     (\<exists>j. find_job b (bs_jobs (settle_attempts s envs b st)) = Some j \<and> j_Status j = ''completed'')
     \<or> given_up b job u (settle_attempts s envs b st)"
proof (induction envs arbitrary: job st)
  case (Cons env envs)
  let ?st' = "snd (Settle s env b st)"
  have env: "only_capture_fails env" "\<forall>e \<in> set envs. only_capture_fails e" using Cons.prems(2) by auto
  from settle_attempt [OF Cons.prems(1) env(1) Cons.prems(3)]
  consider (final) j where "find_job b (bs_jobs ?st') = Some j" "j_Status j = ''completed''"
    | (gave) "given_up b job u ?st'"
    | (wait) job' where "waiting s b key job' u ?st'" "j_RetryCount job' = j_RetryCount job + 1"
        "j_RetryCount job' < 5" "j_UserID job' = j_UserID job" "job_hold_amount job' = job_hold_amount job"
    by blast
  then show ?case
  proof cases
    case final
    then show ?thesis using settled_is_final [OF Cons.prems(1) env(2) final(1)] by simp
  next
    case gave
    then obtain j where "find_job b (bs_jobs ?st') = Some j" "j_Status j = ''failed''"
      unfolding given_up_def by blast
    then show ?thesis using settled_is_final [OF Cons.prems(1) env(2)] gave by simp
  next
    case wait
    then have "envs \<noteq> []" using Cons.prems(4) by auto
    then have "(\<exists>j. find_job b (bs_jobs (settle_attempts s envs b ?st')) = Some j \<and> j_Status j = ''completed'')
        \<or> given_up b job' u (settle_attempts s envs b ?st')"
      using wait Cons.prems(4) by (intro Cons.IH [OF Cons.prems(1) env(2) wait(1)]) simp_all
    then show ?thesis using wait by (auto simp: given_up_def hold_returned_def)
  qed
qed simp

text \<open>C37 (settlement_always_ends): five attempts take a settling job out of \<open>settling\<close>, whichever
  statement of a capture fails in them and whichever check: it is completed, or it is failed and its
  user has the hold back, to the eighth decimal of the balance columns, exactly so when the hold has no
  more.  A capture that fails leaves no effect, its failing COMMIT included; the other calls of the
  attempts succeed, and nobody else works on the job or the user's balances meanwhile.  The user's frozen
  balance covers the hold.\<close>

theorem settlement_always_ends:
  assumes "configured s" and "\<forall>env \<in> set envs. only_capture_fails env" and "length envs = 5"
    and "waiting s b key job u st" and "0 \<le> j_RetryCount job"
  shows "\<exists>j. find_job b (bs_jobs (settle_attempts s envs b st)) = Some j
    \<and> (j_Status j = BatchImageJobStatusCompleted
       \<or> j_Status j = BatchImageJobStatusFailed
         \<and> (\<exists>u'. users (bs_billing (settle_attempts s envs b st)) (j_UserID job) = Some u'
              \<and> u_balance u' = round_half_away 8 (u_balance u + job_hold_amount job)
              \<and> u_frozen_balance u' = round_half_away 8 (u_frozen_balance u - job_hold_amount job)
              \<and> (on_scale 8 (job_hold_amount job) \<longrightarrow>
                   u_balance u' = u_balance u + job_hold_amount job
                   \<and> u_frozen_balance u' = u_frozen_balance u - job_hold_amount job)))"
proof -
  have "envs \<noteq> []" "5 - j_RetryCount job \<le> int (length envs)" using assms(3,5) by auto
  from attempts_end [OF assms(1,2,4) this(2,1)] show ?thesis
    by (auto simp: given_up_def hold_returned_def status_defs)
qed

section \<open>Witnesses\<close>

definition sample_service :: settlement_service where
  "sample_service =
     \<lparr>sv_repo = True, sv_billing = True, sv_usage_log = True, sv_pricing = Some (\<lambda>j. Inr 1),
      sv_auth_cache = True, sv_retention_hours = None, sv_sha256 = (\<lambda>s. ''manifest''),
      sv_error_text = (\<lambda>e. ''error'')\<rparr>"

definition sample_senv :: settle_env where
  "sample_senv =
     \<lparr>se_now = 3000, se_get = sample_benv, se_capture = sample_env, se_mark = sample_benv,
      se_record = sample_benv, se_release = sample_env, se_record_release = sample_benv,
      se_transition = sample_benv\<rparr>"

definition capture_down :: settle_env where
  "capture_down = sample_senv\<lparr>se_capture := sample_env\<lparr>env_fails := (\<lambda>k. k = CaptureBalance)\<rparr>\<rparr>"

definition sample_settling :: BatchImageJob where
  "sample_settling = sample_job\<lparr>j_Status := ''settling'', j_SuccessCount := 2\<rparr>"

definition held_user :: user_row where
  "held_user = sample_user\<lparr>u_balance := 7, u_frozen_balance := 3\<rparr>"

definition sample_store :: "BatchImageJob \<Rightarrow> batch_store" where
  "sample_store j =
     \<lparr>bs_jobs = one_job_db j,
      bs_billing = sample_db\<lparr>users := [1 \<mapsto> held_user], dedup := [(BatchImageHoldRequestID ''b1'', 7) \<mapsto> ''fp'']\<rparr>,
      bs_usage_logs = [], bs_invalidated = []\<rparr>"

lemma sample_quiet [simp]: "batch_quiet sample_benv"
  by (simp add: batch_quiet_def sample_benv_def)

lemma sample_senv_simps [simp]:
  "se_get sample_senv = sample_benv" "se_mark sample_senv = sample_benv"
  "se_capture sample_senv = sample_env" "only_capture_fails sample_senv" "only_capture_fails capture_down"
  by (simp_all add: sample_senv_def only_capture_fails_def capture_down_def sample_no_faults)

lemma sample_settling_simps [simp]:
  "j_BatchID sample_settling = ''b1''" "j_Status sample_settling = ''settling''"
  "j_APIKeyID sample_settling = Some 7" "j_AccountID sample_settling = Some 4"
  "j_UserID sample_settling = 1" "j_RetryCount sample_settling = 0"
  "j_SuccessCount sample_settling = 2" "j_FailCount sample_settling = 0" "j_ItemCount sample_settling = 2"
  "j_ManifestHash sample_settling = None" "j_PricingSnapshotVersion sample_settling = 1"
  "j_BillableUnitPrice sample_settling = 1" "job_hold_amount sample_settling = 3"
  by (simp_all add: sample_settling_def sample_job_def new_job_row_def sample_params_def job_hold_amount_def
      on_scale_def)

lemma sample_hold_scale [simp]: "on_scale 8 (numeral n :: decimal)" "on_scale 8 (1 :: decimal)"
    "on_scale 10 (1 :: decimal)"
  by (simp_all add: on_scale_def)

lemma held_user_simps [simp]: "u_balance held_user = 7" "u_frozen_balance held_user = 3" "\<not> u_deleted held_user"
  "scaled_row held_user"
  by (simp_all add: held_user_def sample_user_def scaled_row_def)

lemma sample_configured [simp]: "configured sample_service"
  by (simp add: configured_def sample_service_def)

lemma sample_store_simps [simp]:
  "bs_jobs (sample_store j) = one_job_db j" "users (bs_billing (sample_store j)) 1 = Some held_user"
  "free_key (bs_billing (sample_store j)) (BatchImageCaptureRequestID ''b1'') 7"
  "free_key (bs_billing (sample_store j)) (BatchImageReleaseRequestID ''b1'') 7"
  "key_claimed (bs_billing (sample_store j)) (BatchImageHoldRequestID ''b1'', 7)"
  by (simp_all add: sample_store_def free_key_def key_claimed_def sample_db_def)

lemma sample_settling_job: "settling_job ''b1'' 7 sample_settling (sample_store sample_settling)"
  by (simp add: settling_job_def BatchImageJobStatusSettling_def)

lemma sample_fresh: "j_BatchID j = ''b1'' \<Longrightarrow> fresh_hash h ''b1'' (one_job_db j)"
  by (simp add: fresh_hash_def)

lemma sample_releasable:
  "j_UserID j = 1 \<Longrightarrow> job_hold_amount j = 3 \<Longrightarrow> releasable ''b1'' 7 j held_user (bs_billing (sample_store i))"
  by (simp add: releasable_def)

theorem settle_charges_exactly_witness:
  "\<exists>r st' j' u'. Settle sample_service sample_senv ''b1'' (sample_store sample_settling) = (Inr r, st')
    \<and> users (bs_billing st') 1 = Some u' \<and> u_balance u' = 8 \<and> u_frozen_balance u' = 0
    \<and> find_job ''b1'' (bs_jobs st') = Some j' \<and> j_Status j' = BatchImageJobStatusCompleted
    \<and> j_ActualCost j' = Some 2 \<and> j_SettledAt j' \<noteq> None"
  using settle_charges_exactly [of sample_service sample_senv "''b1''" 7 sample_settling
      "sample_store sample_settling" 2 held_user] sample_settling_job
  by (simp add: sample_no_faults sample_fresh bad_counts_def batchImageSettlementMaxRetries_def) blast

theorem settlement_always_ends_witness:
  "\<exists>j. find_job ''b1'' (bs_jobs (settle_attempts sample_service (replicate 5 capture_down) ''b1''
        (sample_store sample_settling))) = Some j
    \<and> (j_Status j = BatchImageJobStatusCompleted \<or> j_Status j = BatchImageJobStatusFailed)"
  using settlement_always_ends [of sample_service "replicate 5 capture_down" "''b1''" 7 sample_settling
      held_user "sample_store sample_settling"] sample_settling_job
  by (auto simp: waiting_def sample_releasable clean_hash_def sample_fresh)

end
