(* ===== verification/BatchImageRecovery.thy ===== *)
theory BatchImageRecovery
  imports BatchImageSettlement
begin

text \<open>
  The recovery of jobs whose submission was lost
  (\<open>backend/internal/service/batch_image_billing_recovery.go\<close>): a stale job is failed and its
  hold released, against the tables as they are when the job is taken up.
\<close>

section \<open>Recovering lost submissions\<close>

text \<open>
  \<open>rc_cutoff\<close> is \<open>time.Now().Add(-staleAfter)\<close>; \<open>rc_fail\<close> and \<open>rc_release\<close> give the
  environments of the two calls made for a job.  The queue that takes a failed release for
  a retry is recorded as the list of batch identifiers enqueued.
\<close>

record recovery_service =
  rc_repo :: bool
  rc_billing :: bool
  rc_auth_cache :: bool
  rc_queue :: bool
  rc_stale_after :: duration
  rc_limit :: int

record recovery_env =
  rc_now :: go_time
  rc_list :: batch_env
  rc_fail :: "string \<Rightarrow> batch_env"
  rc_release :: "string \<Rightarrow> billing_env"
  rc_ctx_done :: "string \<Rightarrow> bool"

record recovery_state =
  rs_store :: batch_store
  rs_enqueued :: "string list"
  rs_released :: int
  rs_last_error :: "batch_error option"

definition stale_after :: "recovery_service \<Rightarrow> duration" where
  "stale_after s = (if rc_stale_after s \<le> 0 then 10 * minute_ns else rc_stale_after s)"

text \<open>One job of the stale list, against the tables as they are by now.\<close>

definition recover_one ::
  "recovery_service \<Rightarrow> recovery_env \<Rightarrow> go_time \<Rightarrow> BatchImageJob \<Rightarrow> recovery_state \<Rightarrow> recovery_state" where
  "recover_one s env cutoff job rs =
     (let st = rs_store rs;
          bid = j_BatchID job
      in case FailStaleUnsubmittedBatchImageJob (rc_fail env bid) bid cutoff ''SUBMIT_STALE_BEFORE_PROVIDER''
                ''batch image submission did not reach provider before recovery cutoff'' (bs_jobs st) of
           ((applied, err), jdb) \<Rightarrow>
             (let st1 = st\<lparr>bs_jobs := jdb\<rparr>
              in if \<not> applied
                 then rs\<lparr>rs_store := st1,
                         rs_last_error := (case err of None \<Rightarrow> rs_last_error rs | Some e \<Rightarrow> Some e)\<rparr>
                 else case releaseBatchImageBalanceHold (rc_billing s) (rc_release env bid)
                             (job\<lparr>j_Status := BatchImageJobStatusFailed\<rparr>)
                             (batchImageDerefString (j_RequestHash job)) (bs_billing st1) of
                        (Some e, bdb) \<Rightarrow>
                          rs\<lparr>rs_store := st1\<lparr>bs_billing := bdb\<rparr>,
                             rs_enqueued := (if rc_queue s then rs_enqueued rs @ [bid] else rs_enqueued rs),
                             rs_last_error := Some e\<rparr>
                      | (None, bdb) \<Rightarrow>
                          (let st2 = st1\<lparr>bs_billing := bdb\<rparr>
                           in rs\<lparr>rs_store :=
                                   (if rc_auth_cache s \<and> j_UserID job > 0
                                    then st2\<lparr>bs_invalidated := bs_invalidated st2 @ [j_UserID job]\<rparr> else st2),
                                 rs_released := rs_released rs + 1\<rparr>)))"

text \<open>The loop; a cancelled context ends it.  \<open>other\<close> is what the rest of the system does to
  the store before a job is taken up.\<close>

fun recover_all ::
  "recovery_service \<Rightarrow> recovery_env \<Rightarrow> go_time \<Rightarrow> (string \<Rightarrow> batch_store \<Rightarrow> batch_store) \<Rightarrow> BatchImageJob list
     \<Rightarrow> recovery_state \<Rightarrow> recovery_state" where
  "recover_all s env cutoff other [] rs = rs"
| "recover_all s env cutoff other (job # js) rs =
     (if rc_ctx_done env (j_BatchID job) then rs\<lparr>rs_last_error := Some ErrContextDone\<rparr>
      else recover_all s env cutoff other js
             (recover_one s env cutoff job (rs\<lparr>rs_store := other (j_BatchID job) (rs_store rs)\<rparr>)))"

definition ReleaseStaleUnsubmittedOnce ::
  "recovery_service \<Rightarrow> recovery_env \<Rightarrow> (string \<Rightarrow> batch_store \<Rightarrow> batch_store) \<Rightarrow> batch_store \<Rightarrow> recovery_state" where
  "ReleaseStaleUnsubmittedOnce s env other st =
     (let rs0 = \<lparr>rs_store = st, rs_enqueued = [], rs_released = 0, rs_last_error = None\<rparr>
      in if \<not> rc_repo s \<or> \<not> rc_billing s then rs0
         else let cutoff = rc_now env - stale_after s;
                  limit = (if rc_limit s \<le> 0 then 100 else rc_limit s)
              in case on_jobs (ListStaleUnsubmittedBatchImageJobs (rc_list env) cutoff limit) st of
                   (Inl e, st1) \<Rightarrow> rs0\<lparr>rs_store := st1, rs_last_error := Some e\<rparr>
                 | (Inr js, st1) \<Rightarrow> recover_all s env cutoff other js (rs0\<lparr>rs_store := st1\<rparr>))"

section \<open>Recovery touches only lost submissions\<close>

definition lost_submission :: "go_time \<Rightarrow> BatchImageJob \<Rightarrow> bool" where
  "lost_submission cutoff j \<longleftrightarrow> unsubmitted j \<and> j_ProviderJobName j = None \<and> j_UpdatedAt j \<le> cutoff"

lemma fail_stale_spared:
  assumes "batch_quiet env" "unique_db db" "find_job b db = Some cur" "\<not> lost_submission cutoff cur"
  shows "FailStaleUnsubmittedBatchImageJob env b cutoff c m db = ((False, None), db)"
proof -
  let ?P = "\<lambda>j. j_BatchID j = b \<and> unsubmitted j \<and> j_ProviderJobName j = None \<and> j_UpdatedAt j \<le> cutoff"
  have none: "\<not> ?P i" if "i \<in> set (jobs db)" for i
    using find_job_unique [OF assms(2) that] assms(3,4) by (auto simp: lost_submission_def)
  have "map (\<lambda>j. if ?P j then f j else j) (jobs db) = jobs db" for f
    by (rule map_idI, rule if_not_P, erule none)
  moreover have "filter ?P (jobs db) = []" using none by (auto simp: filter_empty_conv)
  ultimately have "update_jobs env ?P f db = (Inr 0, db)" for f
    using assms(1,2) by (simp add: update_jobs_def Let_def unique_db_def)
  then show ?thesis using assms(1)
    by (simp add: FailStaleUnsubmittedBatchImageJob_def bm_bind_def bm_simps)
qed

lemma fail_stale_applied:
  assumes "batch_quiet env" "unique_db db" "find_job b db = Some cur" "lost_submission cutoff cur"
  shows "\<exists>db'. FailStaleUnsubmittedBatchImageJob env b cutoff c m db = ((True, None), db')
    \<and> changed_job b (submit_failure_row (b_now env) c m True cur) db db'"
proof -
  let ?P = "\<lambda>j. j_BatchID j = b \<and> unsubmitted j \<and> j_ProviderJobName j = None \<and> j_UpdatedAt j \<le> cutoff"
  let ?f = "submit_failure_row (b_now env) c m True"
  let ?p = "Some [(''batch_id'', JStr b), (''error_code'', JStr c)]"
  have P: "?P cur" using assms(3,4) find_job_mem by (auto simp: lost_submission_def)
  have f: "j_BatchID (?f cur) = b" "j_ManifestHash (?f cur) = j_ManifestHash cur"
    using P by (simp_all add: submit_failure_row_def Let_def)
  obtain db1 db2 n where up: "update_jobs env ?P ?f db = (Inr (Suc n), db1)"
    and ev: "appendBatchImageEventWithSQL env b ''billing_hold_recovery_failed_unsubmitted'' ?p db1 = (Inr (), db2)"
    and ch: "changed_job b (?f cur) db db2"
    using update_then_event [where P = ?P and f = ?f and p = ?p
        and ty = "''billing_hold_recovery_failed_unsubmitted''", OF assms(1-3) P _ f(1)] f(2)
    unfolding changed_job_def by blast
  have "FailStaleUnsubmittedBatchImageJob env b cutoff c m db = ((True, None), db2)"
    unfolding FailStaleUnsubmittedBatchImageJob_def bm_bind_def up
    using assms(1) ev by (simp add: bm_simps)
  with ch show ?thesis by blast
qed

text \<open>C40 (recovery_exact): for a job listed as stale, recovery acts on the row as it is by now: if the
  job has meanwhile been submitted, cancelled or given a heartbeat, nothing changes at all;
  otherwise the job is failed and its user gets the hold back, rounded to the eight decimals of the
  balances, so exactly if the hold has no more.\<close>

theorem recovery_exact:
  assumes "batch_quiet (rc_fail env b)" "no_faults (rc_release env b)" "rc_billing s"
    and "unique_db (bs_jobs (rs_store rs))" "find_job b (bs_jobs (rs_store rs)) = Some cur"
    and "j_BatchID job = b" "j_APIKeyID job = Some key" "0 < key"
    and "releasable b key job u (bs_billing (rs_store rs))"
  shows "if unsubmitted cur \<and> j_ProviderJobName cur = None \<and> j_UpdatedAt cur \<le> cutoff
    then \<exists>j' u'. find_job b (bs_jobs (rs_store (recover_one s env cutoff job rs))) = Some j'
      \<and> j_Status j' = BatchImageJobStatusFailed
      \<and> users (bs_billing (rs_store (recover_one s env cutoff job rs))) (j_UserID job) = Some u'
      \<and> u_balance u' = round_half_away 8 (u_balance u + job_hold_amount job)
      \<and> u_frozen_balance u' = round_half_away 8 (u_frozen_balance u - job_hold_amount job)
      \<and> (on_scale 8 (job_hold_amount job) \<longrightarrow>
           u_balance u' = u_balance u + job_hold_amount job
           \<and> u_frozen_balance u' = u_frozen_balance u - job_hold_amount job)
      \<and> rs_released (recover_one s env cutoff job rs) = rs_released rs + 1
    else recover_one s env cutoff job rs = rs"
proof (cases "lost_submission cutoff cur")
  case True
  let ?job = "job\<lparr>j_Status := BatchImageJobStatusFailed\<rparr>"
  obtain jdb where fail: "FailStaleUnsubmittedBatchImageJob (rc_fail env b) b cutoff ''SUBMIT_STALE_BEFORE_PROVIDER''
      ''batch image submission did not reach provider before recovery cutoff'' (bs_jobs (rs_store rs))
      = ((True, None), jdb)"
    and ch: "changed_job b (submit_failure_row (b_now (rc_fail env b)) ''SUBMIT_STALE_BEFORE_PROVIDER''
      ''batch image submission did not reach provider before recovery cutoff'' True cur)
      (bs_jobs (rs_store rs)) jdb"
    using fail_stale_applied [OF assms(1,4,5) True] by blast
  have hold: "job_hold_amount ?job = job_hold_amount job" by (simp add: job_hold_amount_def split: option.split)
  have "releasable b key ?job u (bs_billing (rs_store rs))"
    using assms(9) by (simp add: releasable_def hold)
  then obtain bdb where rel: "releaseBatchImageBalanceHold True (rc_release env b) ?job
      (batchImageDerefString (j_RequestHash job)) (bs_billing (rs_store rs)) = (None, bdb)"
    and ret: "hold_returned ?job u bdb"
    using release_hold_ok [OF assms(2), of ?job key b u] assms(6-8) by auto
  obtain u' where u': "users bdb (j_UserID job) = Some u'"
      "u_balance u' = round_half_away 8 (u_balance u + job_hold_amount job)"
      "u_frozen_balance u' = round_half_away 8 (u_frozen_balance u - job_hold_amount job)"
      "on_scale 8 (job_hold_amount job) \<longrightarrow> u_balance u' = u_balance u + job_hold_amount job
        \<and> u_frozen_balance u' = u_frozen_balance u - job_hold_amount job"
    using ret unfolding hold_returned_def hold by auto
  have "bs_jobs (rs_store (recover_one s env cutoff job rs)) = jdb"
    "bs_billing (rs_store (recover_one s env cutoff job rs)) = bdb"
    "rs_released (recover_one s env cutoff job rs) = rs_released rs + 1"
    using fail rel assms(3,6) by (simp_all add: recover_one_def Let_def)
  then show ?thesis
    using True ch u' by (simp add: lost_submission_def changed_job_def submit_failure_row_def status_defs)
next
  case False
  have "recover_one s env cutoff job rs = rs"
    using fail_stale_spared [OF assms(1,4,5) False] assms(6)
    by (simp add: recover_one_def Let_def)
  with False show ?thesis by (simp add: lost_submission_def)
qed

section \<open>Witness\<close>

definition sample_recovery :: recovery_service where
  "sample_recovery =
     \<lparr>rc_repo = True, rc_billing = True, rc_auth_cache = True, rc_queue = True, rc_stale_after = 0, rc_limit = 0\<rparr>"

definition sample_renv :: recovery_env where
  "sample_renv =
     \<lparr>rc_now = 5000, rc_list = sample_benv, rc_fail = (\<lambda>_. sample_benv), rc_release = (\<lambda>_. sample_env),
      rc_ctx_done = (\<lambda>_. False)\<rparr>"

definition sample_rs :: "BatchImageJob \<Rightarrow> recovery_state" where
  "sample_rs j = \<lparr>rs_store = sample_store j, rs_enqueued = [], rs_released = 0, rs_last_error = None\<rparr>"

lemma sample_job_more [simp]:
  "j_APIKeyID sample_job = Some 7" "j_UserID sample_job = 1" "job_hold_amount sample_job = 3"
  "j_ProviderJobName sample_job = None" "j_UpdatedAt sample_job = 1000"
  by (simp_all add: sample_job_def new_job_row_def sample_params_def job_hold_amount_def sample_benv_def
      on_scale_def)

theorem recovery_exact_witness:
  "(\<exists>u'. users (bs_billing (rs_store (recover_one sample_recovery sample_renv 4000 sample_job
      (sample_rs sample_job)))) 1 = Some u' \<and> u_balance u' = 10)
   \<and> recover_one sample_recovery sample_renv 4000 sample_job (sample_rs (sample_job\<lparr>j_Status := ''submitted''\<rparr>))
     = sample_rs (sample_job\<lparr>j_Status := ''submitted''\<rparr>)"
  using recovery_exact [of sample_renv "''b1''" sample_recovery "sample_rs sample_job" sample_job sample_job
      7 held_user 4000]
    recovery_exact [of sample_renv "''b1''" sample_recovery "sample_rs (sample_job\<lparr>j_Status := ''submitted''\<rparr>)"
      "sample_job\<lparr>j_Status := ''submitted''\<rparr>" sample_job 7 held_user 4000]
  by (auto simp: sample_rs_def sample_renv_def sample_recovery_def sample_no_faults sample_releasable
      unsubmitted_def)

end
