(* ===== verification/BatchImageIndexer.thy ===== *)
theory BatchImageIndexer
  imports BatchImageSettlement "HOL-Library.List_Lexorder"
begin

text \<open>
  Reading a provider's result file (\<open>backend/internal/service/batch_image_processor.go\<close>):
  classifying one result line, and reconciling the lines with the items that were submitted.

  \<open>json.Unmarshal\<close> is a parameter that gives the object of a line, as the list of its
  members with distinct keys; \<open>null\<close> is the empty object.
\<close>

section \<open>JSON values and strings\<close>

datatype json =
  JsonNull | JsonBool bool | JsonNum rat | JsonStr string | JsonArr "json list"
| JsonObj "(string \<times> json) list"

type_synonym json_object = "(string \<times> json) list"

text \<open>\<open>m[key]\<close> is nil for a missing key, as for a null.\<close>

definition obj_get :: "json_object \<Rightarrow> string \<Rightarrow> json" where
  "obj_get m k = (case map_of m k of None \<Rightarrow> JsonNull | Some v \<Rightarrow> v)"

text \<open>
  \<open>strings.ToLower\<close> as seen by a test for an ASCII substring: besides the ASCII letters only
  the Kelvin sign U+212A and the dotted capital I U+0130 have ASCII lower-case forms.
\<close>

fun lower_ascii :: "string \<Rightarrow> string" where
  "lower_ascii [] = []"
| "lower_ascii (c # cs) =
     (case cs of
        d # ds \<Rightarrow>
          if c = CHR 0xC4 \<and> d = CHR 0xB0 then CHR ''i'' # lower_ascii ds
          else (case ds of
                  e # es \<Rightarrow>
                    if c = CHR 0xE2 \<and> d = CHR 0x84 \<and> e = CHR 0xAA then CHR ''k'' # lower_ascii es
                    else to_lower_byte c # lower_ascii cs
                | [] \<Rightarrow> to_lower_byte c # lower_ascii cs)
      | [] \<Rightarrow> to_lower_byte c # lower_ascii cs)"

text \<open>\<open>int64(v)\<close> truncates; out of range it is the least \<open>int64\<close> on amd64.\<close>

definition float_to_int64 :: "rat \<Rightarrow> int" where
  "float_to_int64 x =
     (let t = (if x < 0 then - \<lfloor>- x\<rfloor> else \<lfloor>x\<rfloor>)
      in if - (2 ^ 63) \<le> t \<and> t < 2 ^ 63 then t else - (2 ^ 63))"

definition batchImageMapString :: "json_object \<Rightarrow> string \<Rightarrow> string" where
  "batchImageMapString m key =
     (case obj_get m key of
        JsonStr s \<Rightarrow> trim_space s | JsonNum x \<Rightarrow> itoa (float_to_int64 x) | _ \<Rightarrow> '''')"

fun nested_any :: "json \<Rightarrow> string list \<Rightarrow> json" where
  "nested_any current [] = current"
| "nested_any (JsonObj cm) (key # keys) = nested_any (obj_get cm key) keys"
| "nested_any _ (key # keys) = JsonNull"

definition batchImageNestedAny :: "json_object \<Rightarrow> string list \<Rightarrow> json" where
  "batchImageNestedAny m keys = nested_any (JsonObj m) keys"

definition batchImageNestedString :: "json_object \<Rightarrow> string list \<Rightarrow> string" where
  "batchImageNestedString m keys =
     (case batchImageNestedAny m keys of JsonStr s \<Rightarrow> trim_space s | _ \<Rightarrow> '''')"

fun firstMap :: "json list \<Rightarrow> json_object option" where
  "firstMap [] = None"
| "firstMap (v # vs) = (case v of JsonObj m \<Rightarrow> Some m | _ \<Rightarrow> firstMap vs)"

fun batchImageFirstNonEmptyString :: "string list \<Rightarrow> string" where
  "batchImageFirstNonEmptyString [] = ''''"
| "batchImageFirstNonEmptyString (v # vs) =
     (if trim_space v \<noteq> '''' then trim_space v else batchImageFirstNonEmptyString vs)"

definition batchImageOptionalStringPtr :: "string \<Rightarrow> string option" where
  "batchImageOptionalStringPtr v = (if trim_space v = '''' then None else Some (trim_space v))"

section \<open>One result line\<close>

text \<open>The media type of a part that carries an image.\<close>

definition part_image :: "json \<Rightarrow> string option" where
  "part_image part0 =
     (case part0 of
        JsonObj part \<Rightarrow>
          (case firstMap [obj_get part ''inlineData'', obj_get part ''inline_data''] of
             None \<Rightarrow> None
           | Some inline \<Rightarrow>
               let data = trim_space (batchImageMapString inline ''data'');
                   mime = batchImageFirstNonEmptyString
                            [batchImageMapString inline ''mimeType'', batchImageMapString inline ''mime_type'']
               in if data = '''' \<or> \<not> has_prefix (lower_ascii (trim_space mime)) ''image/'' then None
                  else Some (trim_space mime))
      | _ \<Rightarrow> None)"

definition candidate_parts :: "json \<Rightarrow> json list" where
  "candidate_parts candidate0 =
     (case candidate0 of
        JsonObj candidate \<Rightarrow>
          (case batchImageNestedAny candidate [''content'', ''parts''] of JsonArr parts \<Rightarrow> parts | _ \<Rightarrow> [])
      | _ \<Rightarrow> [])"

definition batchImageFindImagePartsInCandidates :: "json \<Rightarrow> int \<times> string" where
  "batchImageFindImagePartsInCandidates raw =
     (case raw of
        JsonArr candidates \<Rightarrow>
          (let mimes = List.map_filter part_image (concat (map candidate_parts candidates))
           in (int (length mimes), case mimes of [] \<Rightarrow> '''' | m # _ \<Rightarrow> m))
      | _ \<Rightarrow> (0, ''''))"

definition batchImageFindImageParts :: "json_object \<Rightarrow> int \<times> string" where
  "batchImageFindImageParts obj =
     (case batchImageFindImagePartsInCandidates (batchImageNestedAny obj [''response'', ''candidates'']) of
        (n, mimeType) \<Rightarrow>
          if n > 0 then (n, mimeType)
          else batchImageFindImagePartsInCandidates (obj_get obj ''candidates''))"

definition batchImageMapFailureCode :: "string \<Rightarrow> string \<Rightarrow> string" where
  "batchImageMapFailureCode code message =
     (let text = lower_ascii (trim_space (code @ '' '' @ message)) in
      if contains text ''safety'' \<or> contains text ''policy'' \<or> contains text ''blocked''
         \<or> contains text ''prohibited'' then ''SAFETY_BLOCKED''
      else if contains text ''invalid_argument'' \<or> contains text ''invalid argument''
         \<or> contains text ''bad request'' then ''INVALID_ARGUMENT''
      else if contains text ''quota'' \<or> contains text ''rate'' \<or> contains text ''resource_exhausted''
         \<or> contains text ''too many requests'' then ''PROVIDER_RATE_LIMITED''
      else ''PROVIDER_ITEM_FAILED'')"

definition failure_of_object :: "json_object \<Rightarrow> string \<times> string" where
  "failure_of_object o1 =
     (let message = batchImageFirstNonEmptyString [batchImageMapString o1 ''message'', batchImageMapString o1 ''details''];
          code = batchImageFirstNonEmptyString [batchImageMapString o1 ''code'', batchImageMapString o1 ''status'']
      in (batchImageMapFailureCode code message, message))"

definition batchImageFailureFromProviderFields :: "json_object \<Rightarrow> (string \<times> string) option" where
  "batchImageFailureFromProviderFields obj =
     (case obj_get obj ''status'' of
        JsonObj status \<Rightarrow> Some (failure_of_object status)
      | _ \<Rightarrow> (case obj_get obj ''error'' of JsonObj e \<Rightarrow> Some (failure_of_object e) | _ \<Rightarrow> None))"

definition batchImageFileExtension :: "string \<Rightarrow> string" where
  "batchImageFileExtension mimeType =
     (let m = lower_ascii (trim_space mimeType) in
      if m = ''image/png'' then ''png''
      else if m = ''image/jpeg'' \<or> m = ''image/jpg'' then ''jpg''
      else if m = ''image/webp'' then ''webp'' else '''')"

definition batchImageHasCandidates :: "json_object \<Rightarrow> bool" where
  "batchImageHasCandidates obj \<longleftrightarrow>
     map_of obj ''candidates'' \<noteq> None
     \<or> (case batchImageNestedAny obj [''response'', ''candidates''] of JsonArr cs \<Rightarrow> True | _ \<Rightarrow> False)"

record ParsedBatchImageResult =
  pr_CustomID :: string
  pr_Status :: string
  pr_MimeType :: string
  pr_FileExtension :: string
  pr_ImageCount :: int
  pr_ErrorCode :: string
  pr_ErrorMessage :: string
  pr_SourceLineNumber :: int

definition ParseBatchImageResultLine ::
  "(string \<Rightarrow> json_object option) \<Rightarrow> string \<Rightarrow> int \<Rightarrow> batch_error + ParsedBatchImageResult" where
  "ParseBatchImageResultLine unmarshal line lineNumber =
     (case unmarshal line of
        None \<Rightarrow> Inl ErrBatchImageIndexParseFailed
      | Some obj \<Rightarrow>
          let customID = batchImageFirstNonEmptyString
                [batchImageMapString obj ''key'', batchImageMapString obj ''custom_id'',
                 batchImageMapString obj ''customId'', batchImageNestedString obj [''request'', ''key'']];
              parsed = \<lparr>pr_CustomID = customID, pr_Status = ''failed'', pr_MimeType = '''',
                        pr_FileExtension = '''', pr_ImageCount = 0, pr_ErrorCode = '''',
                        pr_ErrorMessage = '''', pr_SourceLineNumber = lineNumber\<rparr>
          in if customID = '''' then Inl ErrBatchImageIndexParseFailed
             else case batchImageFindImageParts obj of
               (imageCount, mimeType) \<Rightarrow>
                 if imageCount > 0
                 then Inr (parsed\<lparr>pr_Status := ''succeeded'', pr_ImageCount := imageCount,
                                  pr_MimeType := mimeType,
                                  pr_FileExtension := batchImageFileExtension mimeType\<rparr>)
                 else (case batchImageFailureFromProviderFields obj of
                         Some (code, message) \<Rightarrow>
                           Inr (parsed\<lparr>pr_ErrorCode := code, pr_ErrorMessage := 
                             truncateBatchImageMessage message batchImageMaxErrorMessageLength\<rparr>)
                       | None \<Rightarrow>
                           if map_of obj ''response'' \<noteq> None \<or> batchImageHasCandidates obj
                           then Inr (parsed\<lparr>pr_ErrorCode := ''EMPTY_IMAGE_OUTPUT'',
                                       pr_ErrorMessage := ''provider response contained no image output''\<rparr>)
                           else Inr (parsed\<lparr>pr_ErrorCode := ''PROVIDER_ITEM_FAILED'',
                                       pr_ErrorMessage := ''provider result line contained no image output''\<rparr>)))"

section \<open>The submitted items\<close>

text \<open>
  The pages of \<open>ListBatchImageItems\<close> are read until one is short; the identifiers collected are
  the keys of a Go map, kept without repetitions.
\<close>

definition item_page :: "batch_env \<Rightarrow> batch_db \<Rightarrow> string \<Rightarrow> nat \<Rightarrow> batch_error + BatchImageItem list" where
  "item_page env db batchID offset =
     fst (ListBatchImageItems env batchID \<lparr>fi_Status = '''', fi_Limit = 500, fi_Offset = int offset\<rparr> db)"

lemma item_page_eq:
  "item_page env db b offset =
     (if b_fails env BSelectItems then Inl (BatchSqlError BSelectItems)
      else Inr (take 500 (drop offset (sort_key i_ID (filter (\<lambda>i. i_JobID i = b) (items db))))))"
  by (simp add: item_page_def ListBatchImageItems_def bm_stmt_def bm_simps)

function expected_from ::
  "batch_env \<Rightarrow> batch_db \<Rightarrow> string \<Rightarrow> nat \<Rightarrow> string list \<Rightarrow> batch_error + string list" where
  "expected_from env db batchID offset acc =
     (case item_page env db batchID offset of
        Inl e \<Rightarrow> Inl e
      | Inr page \<Rightarrow>
          let acc' = acc @ map i_CustomID page
          in if length page < 500 then Inr (remdups acc')
             else expected_from env db batchID (offset + length page) acc')"
  by pat_completeness auto
termination
  by (relation "measure (\<lambda>(env, db, b, offset, acc). length (filter (\<lambda>i. i_JobID i = b) (items db)) - offset)")
     (auto simp: item_page_eq split: if_splits)

declare expected_from.simps [simp del]

definition listExpectedCustomIDs :: "batch_env \<Rightarrow> batch_db \<Rightarrow> string \<Rightarrow> batch_error + string list" where
  "listExpectedCustomIDs env db batchID = expected_from env db batchID 0 []"

section \<open>Lines of the result file\<close>

text \<open>
  A reader gives its bytes and then ends or fails.  \<open>bufio.Scanner\<close> with \<open>ScanLines\<close>
  splits at line feeds and drops a carriage return before one; data after the last line feed
  is a line of its own, also when the reader has failed.  A buffer of sixteen megabytes that
  fills up without a line feed ends the scan.
\<close>

datatype read_end = ReadEOF | ReadUnexpectedEOF | ReadFailed

definition drop_cr :: "string \<Rightarrow> string" where
  "drop_cr s = (if s \<noteq> [] \<and> last s = CHR 0x0D then butlast s else s)"

definition max_token_size :: int where
  "max_token_size = 16777216"

function scan_lines :: "string \<Rightarrow> string list \<times> bool" where
  "scan_lines s =
     (if s = [] then ([], False)
      else let line = takeWhile (\<lambda>c. c \<noteq> CHR 0x0A) s; rest = dropWhile (\<lambda>c. c \<noteq> CHR 0x0A) s
           in if max_token_size \<le> int (length line) then ([], True)
              else if rest = [] then ([drop_cr line], False)
              else let (lines, too_long) = scan_lines (tl rest) in (drop_cr line # lines, too_long))"
  by pat_completeness auto
termination
proof (relation "measure length", simp, goal_cases)
  case (1 s line rest)
  then have "rest \<noteq> []" "length rest \<le> length s" "length s \<noteq> 0"
    using length_dropWhile_le [of "\<lambda>c. c \<noteq> CHR 0x0A" s] by simp_all
  then show ?case by (cases rest) simp_all
qed

declare scan_lines.simps [simp del]

definition scanner_error :: "bool \<Rightarrow> read_end \<Rightarrow> batch_error option" where
  "scanner_error too_long e =
     (if too_long then Some ErrScanTooLong
      else case e of ReadEOF \<Rightarrow> None
                   | ReadUnexpectedEOF \<Rightarrow> Some ErrBatchImageIndexParseFailed
                   | ReadFailed \<Rightarrow> Some ErrReadFailed)"

section \<open>\<open>Index\<close>\<close>

text \<open>\<open>ix_open\<close> is the provider's \<open>OpenResult\<close>; \<open>ix_list\<close>, \<open>ix_event\<close> and
  \<open>ix_replace\<close> are the environments of the repository calls.\<close>

record index_env =
  ix_open :: "BatchImageJob \<Rightarrow> batch_error + (string \<times> read_end)"
  ix_unmarshal :: "string \<Rightarrow> json_object option"
  ix_now :: go_time
  ix_list :: batch_env
  ix_event :: batch_env
  ix_replace :: batch_env

record BatchImageIndexResult =
  x_SuccessCount :: int
  x_FailCount :: int
  x_TotalCount :: int

text \<open>The variables of the loop over the lines; of \<open>seen\<close> the keys.\<close>

record scan_state =
  ss_seen :: "string list"
  ss_unknown :: int
  ss_items :: "CreateBatchImageItemParams list"
  ss_result :: BatchImageIndexResult

definition source_object :: "BatchImageJob \<Rightarrow> string" where
  "source_object job =
     (let r = batchImageDerefString (j_ProviderOutputRef job)
      in if r = '''' then batchImageDerefString (j_ProviderJobName job) else r)"

definition item_base :: "BatchImageJob \<Rightarrow> go_time \<Rightarrow> string \<Rightarrow> CreateBatchImageItemParams" where
  "item_base job now customID =
     \<lparr>c_JobID = j_BatchID job, c_CustomID = customID, c_Status = BatchImageItemStatusFailed,
      c_RequestHash = None, c_PromptPreview = None,
      c_ProviderSourceObject = batchImageOptionalStringPtr (source_object job),
      c_SourceLineNumber = None, c_SourceByteOffset = None, c_SourceByteLength = None,
      c_MimeType = None, c_FileExtension = None, c_ImageCount = 0, c_ErrorCode = None,
      c_ErrorMessage = None, c_BilledAmount = None, c_IndexedAt = Some now\<rparr>"

definition line_item :: "BatchImageJob \<Rightarrow> go_time \<Rightarrow> ParsedBatchImageResult \<Rightarrow> CreateBatchImageItemParams" where
  "line_item job now parsed =
     (let item = (item_base job now (pr_CustomID parsed))
            \<lparr>c_SourceLineNumber := Some (pr_SourceLineNumber parsed), c_ImageCount := pr_ImageCount parsed\<rparr>
      in if pr_Status parsed = ''succeeded''
         then item\<lparr>c_Status := BatchImageItemStatusSuccess,
                   c_MimeType := batchImageOptionalStringPtr (pr_MimeType parsed),
                   c_FileExtension := batchImageOptionalStringPtr (pr_FileExtension parsed)\<rparr>
         else item\<lparr>c_ErrorCode := batchImageOptionalStringPtr (pr_ErrorCode parsed),
                   c_ErrorMessage := batchImageOptionalStringPtr (pr_ErrorMessage parsed)\<rparr>)"

definition missing_item :: "BatchImageJob \<Rightarrow> go_time \<Rightarrow> string \<Rightarrow> CreateBatchImageItemParams" where
  "missing_item job now customID =
     (item_base job now customID)
       \<lparr>c_ErrorCode := Some ''PROVIDER_RESULT_MISSING'',
        c_ErrorMessage := Some ''provider output did not include a result for this item''\<rparr>"

definition count_result :: "bool \<Rightarrow> BatchImageIndexResult \<Rightarrow> BatchImageIndexResult" where
  "count_result ok r =
     r\<lparr>x_SuccessCount := x_SuccessCount r + (if ok then 1 else 0),
       x_FailCount := x_FailCount r + (if ok then 0 else 1), x_TotalCount := x_TotalCount r + 1\<rparr>"

definition index_line ::
  "index_env \<Rightarrow> BatchImageJob \<Rightarrow> string list \<Rightarrow> int \<Rightarrow> string \<Rightarrow> scan_state \<Rightarrow> batch_error + scan_state" where
  "index_line env job expected lineNumber text st =
     (let line = trim_space text in
      if line = '''' then Inr st
      else case ParseBatchImageResultLine (ix_unmarshal env) line lineNumber of
        Inl e \<Rightarrow> Inl e
      | Inr parsed \<Rightarrow>
          if expected \<noteq> [] \<and> pr_CustomID parsed \<notin> set expected
          then Inr (st\<lparr>ss_unknown := ss_unknown st + 1\<rparr>)
          else if pr_CustomID parsed \<in> set (ss_seen st) then Inl ErrBatchImageDuplicateCustomID
          else Inr (st\<lparr>ss_seen := ss_seen st @ [pr_CustomID parsed],
                       ss_items := ss_items st @ [line_item job (ix_now env) parsed],
                       ss_result := count_result (pr_Status parsed = ''succeeded'') (ss_result st)\<rparr>))"

fun index_lines ::
  "index_env \<Rightarrow> BatchImageJob \<Rightarrow> string list \<Rightarrow> int \<Rightarrow> string list \<Rightarrow> scan_state \<Rightarrow> batch_error + scan_state" where
  "index_lines env job expected n [] st = Inr st"
| "index_lines env job expected n (line # rest) st =
     (case index_line env job expected (n + 1) line st of
        Inl e \<Rightarrow> Inl e
      | Inr st' \<Rightarrow> index_lines env job expected (n + 1) rest st')"

definition missing_ids :: "string list \<Rightarrow> string list \<Rightarrow> string list" where
  "missing_ids expected seen = sort (filter (\<lambda>customID. customID \<notin> set seen) expected)"

fun add_missing :: "index_env \<Rightarrow> BatchImageJob \<Rightarrow> string list \<Rightarrow> scan_state \<Rightarrow> scan_state" where
  "add_missing env job [] st = st"
| "add_missing env job (customID # ids) st =
     add_missing env job ids
       (st\<lparr>ss_items := ss_items st @ [missing_item job (ix_now env) customID],
           ss_result := count_result False (ss_result st)\<rparr>)"

text \<open>The event is best effort: its failure is only logged.\<close>

definition reconcile_event :: "index_env \<Rightarrow> BatchImageJob \<Rightarrow> int \<Rightarrow> int \<Rightarrow> unit batch_m" where
  "reconcile_event env job unknownCount missingCount db =
     (if unknownCount > 0 \<or> missingCount > 0
      then (Inr (), snd (AppendBatchImageEvent (ix_event env) (j_BatchID job) ''index_reconciled''
              (Some [(''batch_id'', JStr (j_BatchID job)), (''unknown_custom_ids'', JInt unknownCount),
                     (''missing_custom_ids'', JInt missingCount)]) db))
      else (Inr (), db))"

definition empty_scan :: scan_state where
  "empty_scan =
     \<lparr>ss_seen = [], ss_unknown = 0, ss_items = [],
      ss_result = \<lparr>x_SuccessCount = 0, x_FailCount = 0, x_TotalCount = 0\<rparr>\<rparr>"

definition Index :: "bool \<Rightarrow> index_env \<Rightarrow> BatchImageJob \<Rightarrow> BatchImageIndexResult batch_m" where
  "Index ready env job db =
     (if \<not> ready then (Inl ErrBatchImageIndexOutputMissing, db)
      else case listExpectedCustomIDs (ix_list env) db (j_BatchID job) of
        Inl e \<Rightarrow> (Inl e, db)
      | Inr expected \<Rightarrow>
          (case ix_open env job of
             Inl e \<Rightarrow> (Inl ErrBatchImageIndexOutputMissing, db)
           | Inr (bytes, read_end) \<Rightarrow>
               (case scan_lines bytes of (lines, too_long) \<Rightarrow>
                  (case index_lines env job expected 0 lines empty_scan of
                     Inl e \<Rightarrow> (Inl e, db)
                   | Inr st \<Rightarrow>
                       (case scanner_error too_long read_end of
                          Some e \<Rightarrow> (Inl e, db)
                        | None \<Rightarrow>
                            let missing = missing_ids expected (ss_seen st);
                                st' = add_missing env job missing st
                            in if x_TotalCount (ss_result st') = 0
                               then (Inl ErrBatchImageIndexNoResultLines, db)
                               else bm_bind (reconcile_event env job (ss_unknown st') (int (length missing)))
                                 (\<lambda>_. bm_bind
                                   (ReplaceBatchImageItemsForJob (ix_replace env) (j_BatchID job) (ss_items st')
                                      \<lparr>n_SuccessCount = x_SuccessCount (ss_result st'),
                                       n_FailCount = x_FailCount (ss_result st')\<rparr>)
                                   (\<lambda>_. bm_return (ss_result st'))) db)))))"


section \<open>The submitted identifiers\<close>

definition job_items :: "string \<Rightarrow> batch_db \<Rightarrow> BatchImageItem list" where
  "job_items b db = filter (\<lambda>i. i_JobID i = b) (items db)"

lemma expected_from_readable:
  "\<not> b_fails env BSelectItems \<Longrightarrow>
     expected_from env db b offset acc
       = Inr (remdups (acc @ map i_CustomID (drop offset (sort_key i_ID (job_items b db)))))"
proof (induction env db b offset acc rule: expected_from.induct)
  case (1 env db b offset acc)
  let ?all = "sort_key i_ID (job_items b db)"
  let ?page = "take 500 (drop offset ?all)"
  have page: "item_page env db b offset = Inr ?page"
    using 1(2) by (simp add: item_page_eq job_items_def)
  show ?case
  proof (cases "length ?page < 500")
    case True
    then have "?page = drop offset ?all" by (simp add: min_def split: if_splits)
    with True page show ?thesis by (subst expected_from.simps) (simp add: Let_def)
  next
    case False
    then have len: "length ?page = 500" by (simp add: min_def split: if_splits)
    have split: "drop offset ?all = ?page @ drop (offset + 500) ?all"
      by (metis add.commute append_take_drop_id drop_drop)
    have "expected_from env db b offset acc
        = expected_from env db b (offset + length ?page) (acc @ map i_CustomID ?page)"
      using False page by (subst expected_from.simps) (simp add: Let_def)
    also have "\<dots> = Inr (remdups ((acc @ map i_CustomID ?page)
        @ map i_CustomID (drop (offset + length ?page) ?all)))"
      using 1(1) [OF page refl False] 1(2) by simp
    finally show ?thesis using split by (metis append.assoc len map_append)
  qed
qed

text \<open>The paging loop over the job's items ends on every table: it fails
  only when a page cannot be read, and otherwise returns each identifier of the job's items once,
  however many pages there are.\<close>

theorem expected_ids_complete:
  "listExpectedCustomIDs env db b =
     (if b_fails env BSelectItems then Inl (BatchSqlError BSelectItems)
      else Inr (remdups (map i_CustomID (sort_key i_ID (filter (\<lambda>i. i_JobID i = b) (items db))))))"
proof (cases "b_fails env BSelectItems")
  case True
  then show ?thesis by (simp add: listExpectedCustomIDs_def expected_from.simps item_page_eq)
next
  case False
  then show ?thesis by (simp add: listExpectedCustomIDs_def expected_from_readable job_items_def)
qed

section \<open>Reconciliation\<close>

text \<open>What the lines say: the identifier of each line that is a result, and whether it has images.\<close>

definition line_report :: "index_env \<Rightarrow> int \<Rightarrow> string \<Rightarrow> (string \<times> bool) option" where
  "line_report env n text =
     (if trim_space text = '''' then None
      else case ParseBatchImageResultLine (ix_unmarshal env) (trim_space text) n of
        Inl e \<Rightarrow> None
      | Inr r \<Rightarrow> Some (pr_CustomID r, pr_Status r = ''succeeded''))"

fun reports :: "index_env \<Rightarrow> int \<Rightarrow> string list \<Rightarrow> (string \<times> bool) list" where
  "reports env n [] = []"
| "reports env n (line # rest) =
     (case line_report env (n + 1) line of None \<Rightarrow> [] | Some r \<Rightarrow> [r]) @ reports env (n + 1) rest"

definition item_report :: "CreateBatchImageItemParams \<Rightarrow> string \<times> bool" where
  "item_report p = (c_CustomID p, c_Status p = BatchImageItemStatusSuccess)"

definition wanted :: "string list \<Rightarrow> string \<times> bool \<Rightarrow> bool" where
  "wanted expected r \<longleftrightarrow> expected = [] \<or> fst r \<in> set expected"

text \<open>The loop's variables agree with each other.\<close>

definition scan_ok :: "string \<Rightarrow> scan_state \<Rightarrow> bool" where
  "scan_ok b st \<longleftrightarrow> distinct (ss_seen st) \<and> map c_CustomID (ss_items st) = ss_seen st
     \<and> (\<forall>p \<in> set (ss_items st). c_JobID p = b)
     \<and> x_SuccessCount (ss_result st)
         = int (length (filter (\<lambda>p. c_Status p = BatchImageItemStatusSuccess) (ss_items st)))
     \<and> x_FailCount (ss_result st)
         = int (length (filter (\<lambda>p. c_Status p = BatchImageItemStatusFailed) (ss_items st)))
     \<and> x_TotalCount (ss_result st) = int (length (ss_items st))
     \<and> x_SuccessCount (ss_result st) + x_FailCount (ss_result st) = x_TotalCount (ss_result st)"

lemma item_base_simps [simp]:
  "c_JobID (item_base job now c) = j_BatchID job" "c_CustomID (item_base job now c) = c"
  "c_Status (item_base job now c) = BatchImageItemStatusFailed"
  by (simp_all add: item_base_def)

lemma item_status_distinct [simp]:
  "BatchImageItemStatusSuccess \<noteq> BatchImageItemStatusFailed"
  "BatchImageItemStatusFailed \<noteq> BatchImageItemStatusSuccess"
  by (simp_all add: BatchImageItemStatusSuccess_def BatchImageItemStatusFailed_def)

lemma line_item_simps [simp]:
  "c_JobID (line_item job now r) = j_BatchID job" "c_CustomID (line_item job now r) = pr_CustomID r"
  "c_Status (line_item job now r)
     = (if pr_Status r = ''succeeded'' then BatchImageItemStatusSuccess else BatchImageItemStatusFailed)"
  by (simp_all add: line_item_def Let_def)

lemma missing_item_simps [simp]:
  "c_JobID (missing_item job now c) = j_BatchID job" "c_CustomID (missing_item job now c) = c"
  "c_Status (missing_item job now c) = BatchImageItemStatusFailed"
  by (simp_all add: missing_item_def)

lemma count_result_simps [simp]:
  "x_SuccessCount (count_result ok r) = x_SuccessCount r + (if ok then 1 else 0)"
  "x_FailCount (count_result ok r) = x_FailCount r + (if ok then 0 else 1)"
  "x_TotalCount (count_result ok r) = x_TotalCount r + 1"
  by (simp_all add: count_result_def)

lemma scan_ok_empty [simp]: "scan_ok b empty_scan"
  by (simp add: scan_ok_def empty_scan_def)

lemma scan_ok_add:
  "scan_ok (j_BatchID job) st \<Longrightarrow> pr_CustomID r \<notin> set (ss_seen st) \<Longrightarrow>
     scan_ok (j_BatchID job) (st\<lparr>ss_seen := ss_seen st @ [pr_CustomID r],
       ss_items := ss_items st @ [line_item job now r],
       ss_result := count_result (pr_Status r = ''succeeded'') (ss_result st)\<rparr>)"
  by (simp add: scan_ok_def)

lemma index_line_ok:
  assumes "index_line env job expected n text st = Inr st'" "scan_ok (j_BatchID job) st"
  shows "scan_ok (j_BatchID job) st' \<and> map item_report (ss_items st') = map item_report (ss_items st)
    @ filter (wanted expected) (case line_report env n text of None \<Rightarrow> [] | Some r \<Rightarrow> [r])"
proof (cases "trim_space text = ''''")
  case False
  show ?thesis
  proof (cases "ParseBatchImageResultLine (ix_unmarshal env) (trim_space text) n")
    case (Inr r)
    let ?st = "st\<lparr>ss_seen := ss_seen st @ [pr_CustomID r],
       ss_items := ss_items st @ [line_item job (ix_now env) r],
       ss_result := count_result (pr_Status r = ''succeeded'') (ss_result st)\<rparr>"
    have rep: "line_report env n text = Some (pr_CustomID r, pr_Status r = ''succeeded'')"
      using False Inr by (simp add: line_report_def)
    show ?thesis
    proof (cases "wanted expected (pr_CustomID r, pr_Status r = ''succeeded'')")
      case True
      then have "pr_CustomID r \<notin> set (ss_seen st)" "st' = ?st"
        using assms(1) False Inr by (auto simp: index_line_def Let_def wanted_def split: if_splits)
      with scan_ok_add [OF assms(2) this(1)] True rep show ?thesis
        by (simp add: item_report_def)
    next
      case no: False
      then have "st' = st\<lparr>ss_unknown := ss_unknown st + 1\<rparr>"
        using assms(1) False Inr by (auto simp: index_line_def Let_def wanted_def split: if_splits)
      with assms(2) no rep show ?thesis by (simp add: scan_ok_def)
    qed
  qed (use assms(1) False in \<open>simp add: index_line_def\<close>)
qed (use assms in \<open>simp add: index_line_def line_report_def\<close>)

lemma index_lines_ok:
  "index_lines env job expected n lines st = Inr st' \<Longrightarrow> scan_ok (j_BatchID job) st \<Longrightarrow>
     scan_ok (j_BatchID job) st' \<and> map item_report (ss_items st') = map item_report (ss_items st)
       @ filter (wanted expected) (reports env n lines)"
proof (induction lines arbitrary: n st)
  case (Cons line rest)
  then obtain st1 where 1: "index_line env job expected (n + 1) line st = Inr st1"
    "index_lines env job expected (n + 1) rest st1 = Inr st'" by (auto split: sum.splits)
  note a = index_line_ok [OF 1(1) Cons.prems(2)]
  show ?case using Cons.IH [OF 1(2) conjunct1 [OF a]] a by simp
qed simp

lemma index_line_error:
  "index_line env job expected n text st = Inl e \<Longrightarrow>
     e \<in> {ErrBatchImageIndexParseFailed, ErrBatchImageDuplicateCustomID}"
  by (auto simp: index_line_def ParseBatchImageResultLine_def Let_def
      split: if_splits sum.splits option.splits prod.splits)

lemma index_lines_error:
  "index_lines env job expected n lines st = Inl e \<Longrightarrow>
     e \<in> {ErrBatchImageIndexParseFailed, ErrBatchImageDuplicateCustomID}"
  by (induction lines arbitrary: n st) (auto split: sum.splits dest: index_line_error)

lemma add_missing_eq:
  "ss_items (add_missing env job ids st) = ss_items st @ map (missing_item job (ix_now env)) ids"
  "ss_unknown (add_missing env job ids st) = ss_unknown st"
  "ss_result (add_missing env job ids st)
     = (ss_result st)\<lparr>x_FailCount := x_FailCount (ss_result st) + int (length ids),
                      x_TotalCount := x_TotalCount (ss_result st) + int (length ids)\<rparr>"
  by (induction ids arbitrary: st) (simp_all add: count_result_def)

definition row_report :: "BatchImageItem \<Rightarrow> string \<times> bool" where
  "row_report i = (i_CustomID i, i_Status i = BatchImageItemStatusSuccess)"

text \<open>The rows keep what was said of the items, in order.\<close>

definition row_of :: "CreateBatchImageItemParams \<Rightarrow> BatchImageItem \<Rightarrow> bool" where
  "row_of p i \<longleftrightarrow> i_JobID i = c_JobID p \<and> i_CustomID i = c_CustomID p \<and> i_Status i = c_Status p"

lemma create_items_quiet:
  assumes "batch_quiet env" and "b \<in> j_BatchID ` set (jobs db)"
    and "\<forall>p \<in> set ps. c_JobID p = b" and "distinct (map c_CustomID ps)"
    and "\<forall>p \<in> set ps. c_CustomID p \<notin> i_CustomID ` set (job_items b db)"
  shows "\<exists>new db'. create_items env ps db = (Inr (), db') \<and> jobs db' = jobs db
    \<and> items db' = items db @ new \<and> list_all2 row_of ps new"
  using assms(2-5)
proof (induction ps arbitrary: db)
  case Nil
  then show ?case by (simp add: bm_return_def)
next
  case (Cons p ps)
  have b: "c_JobID p = b" and fresh: "(b, c_CustomID p) \<notin> (\<lambda>i. (i_JobID i, i_CustomID i)) ` set (items db)"
    using Cons.prems(2,4) by (auto simp: job_items_def)
  have "c_JobID p \<in> j_BatchID ` set (jobs db)" "(c_JobID p, c_CustomID p) \<notin> (\<lambda>i. (i_JobID i, i_CustomID i)) ` set (items db)"
    using Cons.prems(1) fresh unfolding b by blast+
  then have "\<exists>i db1. createBatchImageItemWithSQL env p db = (Inr i, db1) \<and> row_of p i
      \<and> jobs db1 = jobs db \<and> items db1 = items db @ [i]"
    unfolding createBatchImageItemWithSQL_def quiet_stmt [OF assms(1)]
    by (simp only: if_False if_True not_False_eq_True Let_def prod.inject sum.inject)
       (simp add: row_of_def)
  then obtain i db1 where 1: "createBatchImageItemWithSQL env p db = (Inr i, db1)" "row_of p i"
      "jobs db1 = jobs db" "items db1 = items db @ [i]" by blast
  have "i_JobID i = b" "i_CustomID i = c_CustomID p" using 1(2) b by (auto simp: row_of_def)
  then have "job_items b db1 = job_items b db @ [i]" using 1(4) by (simp add: job_items_def)
  then have jb: "i_CustomID ` set (job_items b db1) = insert (c_CustomID p) (i_CustomID ` set (job_items b db))"
    using \<open>i_CustomID i = _\<close> by simp
  have "\<forall>q \<in> set ps. c_CustomID q \<notin> i_CustomID ` set (job_items b db1)"
    unfolding jb using Cons.prems(3,4) by (metis distinct.simps(2) imageI insert_iff list.set_intros(2) list.simps(9) list.set_map)
  moreover have "b \<in> j_BatchID ` set (jobs db1)" using Cons.prems(1) 1(3) by simp
  moreover have "\<forall>q \<in> set ps. c_JobID q = b" "distinct (map c_CustomID ps)" using Cons.prems(2,3) by simp_all
  ultimately obtain new db2 where 2: "create_items env ps db1 = (Inr (), db2)" "jobs db2 = jobs db1"
      "items db2 = items db1 @ new" "list_all2 row_of ps new"
    using Cons.IH [of db1] by blast
  have "create_items env (p # ps) db = (Inr (), db2)"
    using 1(1) 2(1) by (simp add: CreateBatchImageItem_def bm_translate_def bm_bind_def)
  with 1 2 show ?case by (intro exI [of _ "i # new"] exI [of _ db2]) simp
qed

lemma rows_job:
  "list_all2 row_of ps new \<Longrightarrow> \<forall>p \<in> set ps. c_JobID p = b \<Longrightarrow> \<forall>i \<in> set new. i_JobID i = b"
  by (induction rule: list_all2_induct) (auto simp: row_of_def)

lemma rows_preview: "list_all2 row_of (map (with_preview b previews) ps) new
    \<Longrightarrow> \<forall>p \<in> set ps. c_JobID p = b \<Longrightarrow> list_all2 row_of ps new"
  by (induction ps arbitrary: new) (auto simp: list_all2_Cons1 row_of_def with_preview_def)

lemma replace_quiet:
  assumes "batch_quiet env" "unique_db db" "find_job b db = Some cur" "j_Status cur = BatchImageJobStatusIndexing"
    and "\<forall>p \<in> set ps. c_JobID p = b" "distinct (map c_CustomID ps)"
  shows "\<exists>db'. ReplaceBatchImageItemsForJob env b ps counts db = (Inr (), db')
    \<and> changed_job b (counts_row (b_now env) counts cur) db db'
    \<and> list_all2 row_of ps (job_items b db')
    \<and> filter (\<lambda>i. i_JobID i \<noteq> b) (items db') = filter (\<lambda>i. i_JobID i \<noteq> b) (items db)"
proof -
  define previews where "previews = map_of (map (\<lambda>i. (i_CustomID i, the (i_PromptPreview i)))
      (filter (\<lambda>i. i_JobID i = b \<and> i_PromptPreview i \<notin> {None, Some ''''}) (items db)))"
  define ps' where "ps' = map (with_preview b previews) ps"
  define db0 where "db0 = db\<lparr>items := filter (\<lambda>i. i_JobID i \<noteq> b) (items db)\<rparr>"
  have "j_BatchID cur = b" "cur \<in> set (jobs db)" using find_job_mem [OF assms(3)] by auto
  then have mem: "b \<in> j_BatchID ` set (jobs db0)" by (auto simp: db0_def)
  have dist: "distinct (map c_CustomID ps')"
    using assms(6) by (simp add: ps'_def with_preview_def comp_def)
  have none: "job_items b db0 = []" by (simp add: job_items_def db0_def)
  have pj: "\<forall>p \<in> set ps'. c_JobID p = b" by (simp add: ps'_def with_preview_def)
  have "\<exists>new db1. create_items env ps' db0 = (Inr (), db1) \<and> jobs db1 = jobs db0
      \<and> items db1 = items db0 @ new \<and> list_all2 row_of ps' new"
    by (rule create_items_quiet [OF assms(1) mem pj dist]) (simp add: none)
  then obtain new db1 where 1: "create_items env ps' db0 = (Inr (), db1)" "jobs db1 = jobs db"
      "items db1 = filter (\<lambda>i. i_JobID i \<noteq> b) (items db) @ new" "list_all2 row_of ps' new"
    by (auto simp: db0_def)
  have new: "\<forall>i \<in> set new. i_JobID i = b"
    by (rule rows_job [OF 1(4) pj])
  have f1: "find_job b db1 = Some cur" "unique_db db1"
    using find_job_jobs [OF 1(2)] assms(2,3) by simp_all
  let ?f = "counts_row (b_now env) counts"
  obtain db2 n where 2: "update_jobs env (\<lambda>j. j_BatchID j = b) ?f db1 = (Inr (Suc n), db2)" "unique_db db2"
      "find_job b db2 = Some (?f cur)" "\<forall>b'. b' \<noteq> b \<longrightarrow> find_job b' db2 = find_job b' db1"
    using update_one [where P = "\<lambda>j. j_BatchID j = b" and f = ?f and env = env, OF f1(2,1)]
      assms(1) \<open>j_BatchID cur = b\<close> by (auto simp: counts_row_def batch_quiet_def)
  have items2: "items db2 = items db1"
    using 2(1) assms(1) by (auto simp: update_jobs_def Let_def split: if_splits)
  have steps: "batchImageItemPromptPreviews env b db = (Inr previews, db)" "delete_items env b db = (Inr (), db0)"
    using assms(1) by (simp_all add: batchImageItemPromptPreviews_def delete_items_def previews_def db0_def)
  have "replaceBatchImageItemsForJobWithSQL env b ps counts db = (Inr (), db2)"
    using assms(4) 1(1) 2(1) steps
    by (simp add: replaceBatchImageItemsForJobWithSQL_def bm_bind_def lock_quiet [OF assms(1,3)]
        bm_return_def ps'_def)
  then have run: "ReplaceBatchImageItemsForJob env b ps counts db = (Inr (), db2)"
    unfolding ReplaceBatchImageItemsForJob_def by (rule tx_quiet [OF assms(1)])
  have "job_items b db2 = new" using items2 1(3) new by (simp add: job_items_def)
  moreover have "list_all2 row_of ps new"
    by (rule rows_preview [OF 1(4) [unfolded ps'_def] assms(5)])
  moreover have "filter (\<lambda>i. i_JobID i \<noteq> b) new = []" using new by (simp add: filter_empty_conv)
  then have "filter (\<lambda>i. i_JobID i \<noteq> b) (items db2) = filter (\<lambda>i. i_JobID i \<noteq> b) (items db)"
    using items2 1(3) by simp
  ultimately show ?thesis
    using run 2 find_job_jobs [OF 1(2)] by (auto simp: changed_job_def)
qed

lemma rows_reports:
  "list_all2 row_of ps is \<Longrightarrow> map row_report is = map item_report ps
     \<and> map i_CustomID is = map c_CustomID ps"
  by (induction rule: list_all2_induct) (auto simp: row_of_def row_report_def item_report_def)

lemma append_event_tables [simp]:
  "jobs (snd (appendBatchImageEventWithSQL env b ty p db)) = jobs db"
  "items (snd (appendBatchImageEventWithSQL env b ty p db)) = items db"
  by (simp_all add: appendBatchImageEventWithSQL_def bm_stmt_def bm_fail_def)

lemma reconcile_event_tables:
  "\<exists>db'. reconcile_event env job u m db = (Inr (), db') \<and> jobs db' = jobs db \<and> items db' = items db"
  by (simp add: reconcile_event_def AppendBatchImageEvent_def)

text \<open>The identifiers seen and the missing ones are the expected ones, each once.\<close>

lemma seen_and_missing:
  assumes "distinct expected" "distinct seen" "set seen \<subseteq> set expected"
  shows "distinct (seen @ missing_ids expected seen)"
    and "mset (seen @ missing_ids expected seen) = mset expected"
proof -
  show d: "distinct (seen @ missing_ids expected seen)"
    using assms by (auto simp: missing_ids_def)
  have "set (seen @ missing_ids expected seen) = set expected"
    using assms(3) by (auto simp: missing_ids_def)
  then show "mset (seen @ missing_ids expected seen) = mset expected"
    using d assms(1) set_eq_iff_mset_eq_distinct by blast
qed

text \<open>A row whose report is unique by identifier succeeds exactly when a line says so.\<close>

lemma success_iff_reported:
  assumes reports: "map row_report rows = filter (wanted expected) reps @ map (\<lambda>c. (c, False)) missing"
    and dist: "distinct (map i_CustomID rows)" and ids: "i_CustomID ` set rows \<subseteq> set expected"
    and i: "i \<in> set rows"
  shows "i_Status i = BatchImageItemStatusSuccess \<longleftrightarrow> (i_CustomID i, True) \<in> set reps"
proof
  assume "i_Status i = BatchImageItemStatusSuccess"
  then have "(i_CustomID i, True) = row_report i" by (simp add: row_report_def)
  also have "\<dots> \<in> set (map row_report rows)" using i by simp
  finally show "(i_CustomID i, True) \<in> set reps" unfolding reports by auto
next
  assume "(i_CustomID i, True) \<in> set reps"
  then have "(i_CustomID i, True) \<in> set (map row_report rows)"
    unfolding reports using i ids by (auto simp: wanted_def)
  then obtain k where k: "k \<in> set rows" "row_report k = (i_CustomID i, True)" by auto
  then have "k = i" using dist i by (auto simp: row_report_def distinct_map inj_on_def)
  with k show "i_Status i = BatchImageItemStatusSuccess" by (simp add: row_report_def)
qed

lemma reports_ids: "map c_CustomID ps = map fst (map item_report ps)"
  by (simp add: item_report_def)

text \<open>The items of a finished loop.\<close>

lemma scanned_items:
  fixes expected :: "string list"
  assumes "index_lines env job expected 0 lines empty_scan = Inr st" "distinct expected" "expected \<noteq> []"
    and st': "st' = add_missing env job (missing_ids expected (ss_seen st)) st"
  shows "map item_report (ss_items st') = filter (wanted expected) (reports env 0 lines)
      @ map (\<lambda>c. (c, False)) (missing_ids expected (ss_seen st))"
    and "distinct (map c_CustomID (ss_items st'))" "mset (map c_CustomID (ss_items st')) = mset expected"
    and "\<forall>p \<in> set (ss_items st'). c_JobID p = j_BatchID job"
    and "x_SuccessCount (ss_result st')
      = int (length (filter (\<lambda>p. c_Status p = BatchImageItemStatusSuccess) (ss_items st')))"
    and "x_FailCount (ss_result st')
      = int (length (filter (\<lambda>p. c_Status p = BatchImageItemStatusFailed) (ss_items st')))"
    and "x_TotalCount (ss_result st') = int (length (ss_items st'))"
    and "x_SuccessCount (ss_result st') + x_FailCount (ss_result st') = x_TotalCount (ss_result st')"
proof -
  have ok: "scan_ok (j_BatchID job) st"
    and rep: "map item_report (ss_items st) = filter (wanted expected) (reports env 0 lines)"
    using index_lines_ok [OF assms(1) scan_ok_empty] by (simp_all add: empty_scan_def [THEN arg_cong [where f = ss_items]])
  show "map item_report (ss_items st') = filter (wanted expected) (reports env 0 lines)
      @ map (\<lambda>c. (c, False)) (missing_ids expected (ss_seen st))"
    unfolding st' add_missing_eq map_append rep by (simp add: item_report_def comp_def)
  have seen: "ss_seen st = map fst (filter (wanted expected) (reports env 0 lines))"
    using ok rep by (metis reports_ids scan_ok_def)
  have "set (ss_seen st) \<subseteq> set expected" unfolding seen using assms(3) by (auto simp: wanted_def)
  moreover have "distinct (ss_seen st)" "map c_CustomID (ss_items st) = ss_seen st"
    using ok by (simp_all add: scan_ok_def)
  moreover from this have "map c_CustomID (ss_items st') = ss_seen st @ missing_ids expected (ss_seen st)"
    unfolding st' add_missing_eq by (simp add: comp_def)
  ultimately show "distinct (map c_CustomID (ss_items st'))" "mset (map c_CustomID (ss_items st')) = mset expected"
    using seen_and_missing [OF assms(2)] by simp_all
qed (use index_lines_ok [OF assms(1) scan_ok_empty] in \<open>auto simp: st' add_missing_eq scan_ok_def filter_False\<close>)


lemma filter_rows: "list_all2 row_of ps rows \<Longrightarrow>
    length (filter (\<lambda>i. i_Status i = s) rows) = length (filter (\<lambda>p. c_Status p = s) ps)"
  by (induction rule: list_all2_induct) (auto simp: row_of_def)

text \<open>What a successful indexing has done.\<close>

definition index_reconciled ::
  "index_env \<Rightarrow> BatchImageJob \<Rightarrow> BatchImageJob \<Rightarrow> batch_db \<Rightarrow> BatchImageIndexResult \<Rightarrow> batch_db \<Rightarrow> bool" where
  "index_reconciled env job cur db r db' \<longleftrightarrow>
       (let rows = job_items (j_BatchID job) db';
            ok = (\<lambda>i. i_Status i = BatchImageItemStatusSuccess);
            bad = (\<lambda>i. i_Status i = BatchImageItemStatusFailed)
        in (\<exists>bytes. ix_open env job = Inr (bytes, ReadEOF)
              \<and> (\<forall>i \<in> set rows. ok i \<longleftrightarrow> (i_CustomID i, True) \<in> set (reports env 0 (fst (scan_lines bytes)))))
           \<and> mset (map i_CustomID rows) = mset (map i_CustomID (job_items (j_BatchID job) db))
           \<and> x_SuccessCount r = int (length (filter ok rows)) \<and> x_FailCount r = int (length (filter bad rows))
           \<and> x_SuccessCount r + x_FailCount r = int (length rows)
           \<and> changed_job (j_BatchID job)
               (counts_row (b_now (ix_replace env))
                  \<lparr>n_SuccessCount = x_SuccessCount r, n_FailCount = x_FailCount r\<rparr> cur) db db'
           \<and> filter (\<lambda>i. i_JobID i \<noteq> j_BatchID job) (items db')
             = filter (\<lambda>i. i_JobID i \<noteq> j_BatchID job) (items db))"

lemma index_outcome:
  assumes "batch_quiet (ix_list env)" "batch_quiet (ix_replace env)" "unique_db db"
    and "find_job (j_BatchID job) db = Some cur" "j_Status cur = BatchImageJobStatusIndexing"
    and "distinct (map i_CustomID (job_items (j_BatchID job) db))" "job_items (j_BatchID job) db \<noteq> []"
  shows "case Index True env job db of
      (Inl e, db') \<Rightarrow> db' = db \<and> e \<in> {ErrBatchImageIndexOutputMissing, ErrBatchImageIndexParseFailed,
        ErrBatchImageDuplicateCustomID, ErrScanTooLong, ErrReadFailed}
    | (Inr r, db') \<Rightarrow> index_reconciled env job cur db r db'"
proof -
  let ?b = "j_BatchID job"
  define expected where "expected = remdups (map i_CustomID (sort_key i_ID (job_items ?b db)))"
  have list: "listExpectedCustomIDs (ix_list env) db ?b = Inr expected"
    unfolding listExpectedCustomIDs_def expected_def
    using expected_from_readable assms(1) by (simp add: batch_quiet_def)
  have "distinct (map i_CustomID (sort_key i_ID (job_items ?b db)))"
    using assms(6) by (simp add: distinct_map)
  then have ex: "expected = map i_CustomID (sort_key i_ID (job_items ?b db))"
    by (simp add: expected_def distinct_remdups_id)
  then have m: "mset expected = mset (map i_CustomID (job_items ?b db))" by simp
  have "length expected = length (job_items ?b db)" unfolding ex by simp
  then have d: "distinct expected" "expected \<noteq> []"
    using assms(7) unfolding expected_def by (simp, metis length_0_conv)
  show ?thesis
  proof (cases "ix_open env job")
    case (Inl e)
    then show ?thesis by (simp add: Index_def list)
  next
    case (Inr opened)
    obtain bytes fin where opened: "opened = (bytes, fin)" by (cases opened)
    obtain lines too_long where lines: "scan_lines bytes = (lines, too_long)" by (cases "scan_lines bytes")
    show ?thesis
    proof (cases "index_lines env job expected 0 lines empty_scan")
      case (Inl e)
      then show ?thesis
        using Inr opened lines index_lines_error [OF Inl] by (auto simp: Index_def list)
    next
      case st: (Inr st)
      show ?thesis
      proof (cases "scanner_error too_long fin")
        case (Some e)
        then show ?thesis
          using Inr opened lines st
          by (auto simp: Index_def list scanner_error_def split: if_splits read_end.splits)
      next
        case None
        then have fin: "fin = ReadEOF"
          by (auto simp: scanner_error_def split: if_splits read_end.splits)
        define st' where "st' = add_missing env job (missing_ids expected (ss_seen st)) st"
        note sc = scanned_items [OF st d st'_def]
        have "length (ss_items st') = length expected"
          using arg_cong [OF sc(3), of size] by simp
        then have pos: "x_TotalCount (ss_result st') \<noteq> 0" using sc(7) d(2) by simp
        let ?counts = "\<lparr>n_SuccessCount = x_SuccessCount (ss_result st'), n_FailCount = x_FailCount (ss_result st')\<rparr>"
        obtain db1 where 1: "reconcile_event env job (ss_unknown st') (int (length (missing_ids expected (ss_seen st)))) db
            = (Inr (), db1)" "jobs db1 = jobs db" "items db1 = items db"
          using reconcile_event_tables by blast
        have u1: "unique_db db1" "find_job ?b db1 = Some cur" using find_job_jobs [OF 1(2)] assms(3,4) by simp_all
        obtain db2 where 2: "ReplaceBatchImageItemsForJob (ix_replace env) ?b (ss_items st') ?counts db1 = (Inr (), db2)"
            "changed_job ?b (counts_row (b_now (ix_replace env)) ?counts cur) db1 db2"
            "list_all2 row_of (ss_items st') (job_items ?b db2)"
            "filter (\<lambda>i. i_JobID i \<noteq> ?b) (items db2) = filter (\<lambda>i. i_JobID i \<noteq> ?b) (items db1)"
          using replace_quiet [OF assms(2) u1 assms(5) sc(4,2)] by blast
        have run: "Index True env job db = (Inr (ss_result st'), db2)"
          using Inr opened lines st None pos 1(1) 2(1)
          by (simp add: Index_def list bm_bind_def bm_return_def Let_def flip: st'_def)
        have ch: "changed_job ?b (counts_row (b_now (ix_replace env)) ?counts cur) db db2"
          using 2(2) find_job_jobs [OF 1(2)] by (simp add: changed_job_def)
        have rep: "map row_report (job_items ?b db2)
            = filter (wanted expected) (reports env 0 lines)
              @ map (\<lambda>c. (c, False)) (missing_ids expected (ss_seen st))"
          using rows_reports [OF 2(3)] sc(1) by simp
        have "map i_CustomID (job_items ?b db2) = map c_CustomID (ss_items st')"
          using rows_reports [OF 2(3)] by blast
        then have ids: "mset (map i_CustomID (job_items ?b db2)) = mset expected"
          and dist: "distinct (map i_CustomID (job_items ?b db2))" using sc(2,3) by simp_all
        have "i_CustomID ` set (job_items ?b db2) \<subseteq> set expected"
          using mset_eq_setD [OF ids] by simp
        note succ = success_iff_reported [OF rep dist this]
        have opn: "ix_open env job = Inr (bytes, ReadEOF)" using Inr opened fin by (simp only:)
        have ok: "\<forall>i \<in> set (job_items ?b db2). (i_Status i = BatchImageItemStatusSuccess)
            = ((i_CustomID i, True) \<in> set (reports env 0 (fst (scan_lines bytes))))"
          unfolding lines fst_conv using succ by blast
        have len: "length (job_items ?b db2) = length (ss_items st')" using 2(3) by (simp add: list_all2_lengthD)
        have oth: "filter (\<lambda>i. i_JobID i \<noteq> ?b) (items db2) = filter (\<lambda>i. i_JobID i \<noteq> ?b) (items db)"
          unfolding 2(4) 1(3) ..
        have tot: "x_SuccessCount (ss_result st') + x_FailCount (ss_result st') = int (length (job_items ?b db2))"
          unfolding len sc(8) by (rule sc(7))
        show ?thesis
          unfolding run prod.case sum.case Let_def index_reconciled_def
          by (intro conjI exI [of _ bytes] opn ok ch oth tot)
             (simp_all only: ids m sc(5,6) filter_rows [OF 2(3)])
      qed
    qed
  qed
qed

text \<open>C39 (index_reconciles): for a job being indexed, with submitted items of distinct identifiers,
  indexing either fails without changing any table, or it has read the whole result file and
  leaves exactly one item for each submitted identifier, successful precisely when a line of
  the file reports images for it; the counts returned and stored are those of the items,
  other jobs' items are untouched.  The failures are a missing, unreadable or unparsable output
  and a repeated identifier: with submitted items there is no failure for want of lines, and the
  tables do not refuse the items.\<close>

theorem index_reconciles:
  assumes "batch_quiet (ix_list env)" "batch_quiet (ix_replace env)" "unique_db db"
    and "find_job (j_BatchID job) db = Some cur" "j_Status cur = BatchImageJobStatusIndexing"
    and "distinct (map i_CustomID (job_items (j_BatchID job) db))" "job_items (j_BatchID job) db \<noteq> []"
  shows "case Index True env job db of
      (Inl e, db') \<Rightarrow> db' = db \<and> e \<in> {ErrBatchImageIndexOutputMissing, ErrBatchImageIndexParseFailed,
        ErrBatchImageDuplicateCustomID, ErrScanTooLong, ErrReadFailed}
    | (Inr r, db') \<Rightarrow>
        let rows = job_items (j_BatchID job) db';
            ok = (\<lambda>i. i_Status i = BatchImageItemStatusSuccess);
            bad = (\<lambda>i. i_Status i = BatchImageItemStatusFailed)
        in (\<exists>bytes. ix_open env job = Inr (bytes, ReadEOF)
              \<and> (\<forall>i \<in> set rows. ok i \<longleftrightarrow> (i_CustomID i, True) \<in> set (reports env 0 (fst (scan_lines bytes)))))
           \<and> mset (map i_CustomID rows) = mset (map i_CustomID (job_items (j_BatchID job) db))
           \<and> x_SuccessCount r = int (length (filter ok rows)) \<and> x_FailCount r = int (length (filter bad rows))
           \<and> x_SuccessCount r + x_FailCount r = int (length rows)
           \<and> changed_job (j_BatchID job)
               (counts_row (b_now (ix_replace env))
                  \<lparr>n_SuccessCount = x_SuccessCount r, n_FailCount = x_FailCount r\<rparr> cur) db db'
           \<and> filter (\<lambda>i. i_JobID i \<noteq> j_BatchID job) (items db')
             = filter (\<lambda>i. i_JobID i \<noteq> j_BatchID job) (items db)"
  using index_outcome [OF assms] unfolding index_reconciled_def .

section \<open>Witness\<close>

text \<open>Two submitted items; the file reports an image for one of them and an unknown identifier.\<close>

definition sample_item :: "int \<Rightarrow> string \<Rightarrow> BatchImageItem" where
  "sample_item n c =
     \<lparr>i_ID = n, i_JobID = ''b1'', i_CustomID = c, i_Status = ''failed'', i_RequestHash = None,
      i_PromptPreview = None, i_ProviderSourceObject = None, i_SourceLineNumber = None,
      i_SourceByteOffset = None, i_SourceByteLength = None, i_MimeType = None, i_FileExtension = None,
      i_ImageCount = 0, i_ErrorCode = None, i_ErrorMessage = None, i_BilledAmount = None,
      i_CreatedAt = 1000, i_IndexedAt = None\<rparr>"

definition indexing_db :: batch_db where
  "indexing_db = (one_job_db (sample_job\<lparr>j_Status := ''indexing''\<rparr>))
     \<lparr>items := [sample_item 1 ''a'', sample_item 2 ''b''], next_item_id := 3\<rparr>"

definition sample_object :: "string \<Rightarrow> json_object option" where
  "sample_object line =
     (if line = ''A''
      then Some [(''key'', JsonStr ''a''),
                 (''candidates'', JsonArr [JsonObj [(''content'', JsonObj [(''parts'', JsonArr
                    [JsonObj [(''inlineData'', JsonObj [(''data'', JsonStr ''AAAA''),
                       (''mimeType'', JsonStr ''image/png'')])]])])]])]
      else Some [(''key'', JsonStr ''x'')])"

definition sample_ixe :: index_env where
  "sample_ixe =
     \<lparr>ix_open = (\<lambda>_. Inr (''A'' @ [CHR 0x0D, CHR 0x0A] @ ''X'', ReadEOF)), ix_unmarshal = sample_object,
      ix_now = 2000, ix_list = sample_benv, ix_event = sample_benv, ix_replace = sample_benv\<rparr>"

lemma sample_scan: "scan_lines (''A'' @ [CHR 0x0D, CHR 0x0A] @ ''X'') = ([''A'', ''X''], False)"
  by (simp add: scan_lines.simps max_token_size_def drop_cr_def)

lemma sample_index:
  "fst (Index True sample_ixe (sample_job\<lparr>j_Status := ''indexing''\<rparr>) indexing_db)
     = Inr \<lparr>x_SuccessCount = 1, x_FailCount = 1, x_TotalCount = 2\<rparr>"
  by code_simp


theorem index_reconciles_witness:
  "mset (map i_CustomID (job_items ''b1''
     (snd (Index True sample_ixe (sample_job\<lparr>j_Status := ''indexing''\<rparr>) indexing_db)))) = {#''a'', ''b''#}"
proof -
  let ?j = "sample_job\<lparr>j_Status := ''indexing''\<rparr>"
  have b: "j_BatchID ?j = ''b1''" and rows: "job_items ''b1'' indexing_db = [sample_item 1 ''a'', sample_item 2 ''b'']"
    by (simp_all add: sample_job_def new_job_row_def sample_params_def job_items_def indexing_db_def sample_item_def)
  have q: "batch_quiet sample_benv" by (simp add: batch_quiet_def sample_benv_def)
  have "find_job ''b1'' indexing_db = Some ?j" "unique_db indexing_db"
    using find_job_jobs [of indexing_db "one_job_db ?j"] b by (simp_all add: indexing_db_def)
  moreover have "distinct (map i_CustomID (job_items ''b1'' indexing_db))" unfolding rows by (simp add: sample_item_def)
  moreover obtain r db' where run: "Index True sample_ixe ?j indexing_db = (Inr r, db')"
    using sample_index by (metis prod.collapse)
  ultimately have "mset (map i_CustomID (job_items ''b1'' db')) = mset (map i_CustomID (job_items ''b1'' indexing_db))"
    using index_reconciles [of sample_ixe indexing_db ?j ?j] q b rows
    by (simp add: sample_ixe_def BatchImageJobStatusIndexing_def Let_def)
  then show ?thesis unfolding run rows by (simp add: sample_item_def)
qed

end
