(* ===== verification/BatchImageProcessor.thy ===== *)
theory BatchImageProcessor
  imports BatchImageIndexer
begin

text \<open>
  Following a submitted job (\<open>backend/internal/service/batch_image_processor.go\<close>, and the
  pipeline processor of \<open>batch_image_settlement.go\<close>): one call of \<open>Process\<close> asks the provider,
  moves the job along, indexes its result or gives the hold back; the pipeline settles what has
  been indexed.

  The providers, their registry and the account resolver are parameters; an account is of
  any type.
\<close>

section \<open>Collaborators\<close>

definition BatchProviderStateQueued :: string where "BatchProviderStateQueued = ''queued''"
definition BatchProviderStateRunning :: string where "BatchProviderStateRunning = ''running''"
definition BatchProviderStateSucceeded :: string where "BatchProviderStateSucceeded = ''succeeded''"
definition BatchProviderStateFailed :: string where "BatchProviderStateFailed = ''failed''"
definition BatchProviderStateCancelled :: string where "BatchProviderStateCancelled = ''cancelled''"
definition BatchProviderStateExpired :: string where "BatchProviderStateExpired = ''expired''"

lemmas provider_state_defs =
  BatchProviderStateQueued_def BatchProviderStateRunning_def BatchProviderStateSucceeded_def
  BatchProviderStateFailed_def BatchProviderStateCancelled_def BatchProviderStateExpired_def

record BatchProviderStatus =
  ps_RawState :: string
  ps_InternalState :: string
  ps_ProviderOutputRef :: string
  ps_ErrorCode :: string
  ps_ErrorMessage :: string
  ps_SuggestedRequeueAfter :: duration

record 'acct provider =
  pv_supports :: "'acct \<Rightarrow> bool"
  pv_get :: "BatchImageJob \<Rightarrow> 'acct \<Rightarrow> batch_error + BatchProviderStatus option"
  pv_open :: "BatchImageJob \<Rightarrow> 'acct \<Rightarrow> batch_error + (string \<times> read_end)"

text \<open>\<open>pp_configured\<close>: the repository, the registry and the resolver are set;
  \<open>pp_provider\<close> is the registry's \<open>Get\<close>, without nil providers.\<close>

record 'acct processor =
  pp_configured :: bool
  pp_provider :: "string \<Rightarrow> 'acct provider option"
  pp_resolve :: "int \<Rightarrow> batch_error + 'acct"
  pp_billing :: bool
  pp_auth_cache :: bool
  pp_default_requeue :: duration
  pp_unmarshal :: "string \<Rightarrow> json_object option"
  pp_error_text :: "batch_error \<Rightarrow> string"

text \<open>The environments of the repository calls of one \<open>Process\<close>; \<open>pe_finish\<close> is that of the
  transition after indexing.\<close>

record process_env =
  pe_get :: batch_env
  pe_ref :: batch_env
  pe_transition :: batch_env
  pe_list :: batch_env
  pe_event :: batch_env
  pe_replace :: batch_env
  pe_finish :: batch_env
  pe_now :: go_time
  pe_release :: billing_env

record BatchImageProcessResult =
  q_RequeueAfter :: duration
  q_Terminal :: bool

definition requeue_in :: "duration \<Rightarrow> BatchImageProcessResult" where
  "requeue_in d = \<lparr>q_RequeueAfter = d, q_Terminal = False\<rparr>"

definition terminal_result :: BatchImageProcessResult where
  "terminal_result = \<lparr>q_RequeueAfter = 0, q_Terminal = True\<rparr>"

type_synonym process_out = "(batch_error + BatchImageProcessResult) \<times> batch_store"

definition transition_options ::
  "string \<Rightarrow> event_payload \<Rightarrow> string option \<Rightarrow> string option \<Rightarrow> BatchImageTransitionOptions" where
  "transition_options ty payload code message =
     \<lparr>t_EventType = ty, t_EventPayload = payload, t_ErrorCode = code, t_ErrorMessage = message, t_Now = None\<rparr>"

section \<open>Steps of the processor\<close>

definition isBatchImageProcessorDoneStatus :: "string \<Rightarrow> bool" where
  "isBatchImageProcessorDoneStatus status \<longleftrightarrow>
     status = BatchImageJobStatusSettling \<or> IsTerminalBatchImageJobStatus status"

definition requeueDelay :: "'acct processor \<Rightarrow> duration \<Rightarrow> duration" where
  "requeueDelay p suggested =
     (if suggested > 0 then suggested
      else if pp_default_requeue p > 0 then pp_default_requeue p else 30 * second_ns)"

definition releaseTerminalHold ::
  "'acct processor \<Rightarrow> process_env \<Rightarrow> BatchImageJob \<Rightarrow> batch_store \<Rightarrow> batch_error option \<times> batch_store" where
  "releaseTerminalHold p env job st =
     (if j_Status job \<noteq> BatchImageJobStatusFailed \<and> j_Status job \<noteq> BatchImageJobStatusCancelled
      then (None, st)
      else case releaseBatchImageBalanceHold (pp_billing p) (pe_release env) job
                  (batchImageDerefString (j_RequestHash job)) (bs_billing st) of
        (Some e, bdb) \<Rightarrow> (Some e, st\<lparr>bs_billing := bdb\<rparr>)
      | (None, bdb) \<Rightarrow>
          (None, if pp_auth_cache p \<and> j_UserID job > 0
                 then st\<lparr>bs_billing := bdb, bs_invalidated := bs_invalidated st @ [j_UserID job]\<rparr>
                 else st\<lparr>bs_billing := bdb\<rparr>))"

text \<open>The job is over: release its hold and report \<open>Terminal\<close>.\<close>

definition finish_terminal ::
  "'acct processor \<Rightarrow> process_env \<Rightarrow> BatchImageJob \<Rightarrow> batch_store \<Rightarrow> process_out" where
  "finish_terminal p env job st =
     (case releaseTerminalHold p env job st of
        (Some e, st') \<Rightarrow> (Inl e, st') | (None, st') \<Rightarrow> (Inr terminal_result, st'))"

text \<open>A transition to a terminal status and the release that follows it.\<close>

definition end_job ::
  "'acct processor \<Rightarrow> process_env \<Rightarrow> batch_env \<Rightarrow> BatchImageJob \<Rightarrow> string \<Rightarrow> BatchImageTransitionOptions
     \<Rightarrow> batch_store \<Rightarrow> process_out" where
  "end_job p env tenv job status opts st =
     (case on_jobs (TransitionBatchImageJobStatus tenv (j_BatchID job) status opts) st of
        (Inl e, st1) \<Rightarrow> (Inl e, st1)
      | (Inr u, st1) \<Rightarrow> finish_terminal p env (job\<lparr>j_Status := status\<rparr>) st1)"

definition persistProviderOutputRef ::
  "process_env \<Rightarrow> BatchImageJob \<Rightarrow> string \<Rightarrow> batch_store \<Rightarrow> (batch_error + BatchImageJob) \<times> batch_store" where
  "persistProviderOutputRef env job ref0 st =
     (let ref = trim_space ref0 in
      if ref = '''' \<or> batchImageDerefString (j_ProviderOutputRef job) = ref then (Inr job, st)
      else case on_jobs (UpdateBatchImageJobProviderOutputRef (pe_ref env) (j_BatchID job) ref) st of
        (Inl e, st1) \<Rightarrow> (Inl e, st1)
      | (Inr u, st1) \<Rightarrow> (Inr (job\<lparr>j_ProviderOutputRef := Some ref\<rparr>), st1))"

definition index_env_of ::
  "'acct processor \<Rightarrow> process_env \<Rightarrow> 'acct provider \<Rightarrow> 'acct \<Rightarrow> index_env" where
  "index_env_of p env provider account =
     \<lparr>ix_open = (\<lambda>job. pv_open provider job account), ix_unmarshal = pp_unmarshal p, ix_now = pe_now env,
      ix_list = pe_list env, ix_event = pe_event env, ix_replace = pe_replace env\<rparr>"

definition indexAndSettle ::
  "'acct processor \<Rightarrow> process_env \<Rightarrow> BatchImageJob \<Rightarrow> 'acct provider \<Rightarrow> 'acct \<Rightarrow> batch_store \<Rightarrow> process_out" where
  "indexAndSettle p env job provider account st =
     (case on_jobs (Index True (index_env_of p env provider account) job) st of
        (Inl e, st1) \<Rightarrow>
          if e = ErrBatchImageIndexOutputMissing then (Inl e, st1)
          else if e = ErrBatchImageIndexStateConflict then (Inr (requeue_in millisecond_ns), st1)
          else (let code = (if e = ErrBatchImageDuplicateCustomID then ''DUPLICATE_CUSTOM_ID_IN_OUTPUT''
                            else ''INDEX_PARSE_FAILED'');
                    msg = truncateBatchImageMessage (pp_error_text p e) batchImageMaxErrorMessageLength
                in end_job p env (pe_finish env) job BatchImageJobStatusFailed
                     (transition_options ''indexing_failed'' (Some [(''error_code'', JStr code)])
                        (Some code) (batchImageOptionalStringPtr msg)) st1)
      | (Inr r, st1) \<Rightarrow>
          (case on_jobs (TransitionBatchImageJobStatus (pe_finish env) (j_BatchID job)
                  BatchImageJobStatusSettling
                  (transition_options ''indexing_completed''
                     (Some [(''success_count'', JInt (x_SuccessCount r)), (''fail_count'', JInt (x_FailCount r)),
                            (''total_count'', JInt (x_TotalCount r))]) None None)) st1 of
             (Inl e, st2) \<Rightarrow> (Inl e, st2)
           | (Inr u, st2) \<Rightarrow> (Inr (requeue_in millisecond_ns), st2)))"

text \<open>What a provider's answer leads to.\<close>

definition follow_status ::
  "'acct processor \<Rightarrow> process_env \<Rightarrow> BatchImageJob \<Rightarrow> 'acct provider \<Rightarrow> 'acct \<Rightarrow> BatchProviderStatus
     \<Rightarrow> batch_store \<Rightarrow> process_out" where
  "follow_status p env job provider account status st =
     (let bid = j_BatchID job; state = ps_InternalState status;
          raw = (''provider_state'', JStr (ps_RawState status));
          later = Inr (requeue_in (requeueDelay p (ps_SuggestedRequeueAfter status)))
      in if state = BatchProviderStateQueued then (later, st)
         else if state = BatchProviderStateRunning then
           (if j_Status job \<noteq> BatchImageJobStatusRunning
            then (case on_jobs (TransitionBatchImageJobStatus (pe_transition env) bid BatchImageJobStatusRunning
                         (transition_options ''provider_status_checked'' (Some [raw]) None None)) st of
                    (Inl e, st1) \<Rightarrow> (Inl e, st1) | (Inr u, st1) \<Rightarrow> (later, st1))
            else (later, st))
         else if state = BatchProviderStateSucceeded then
           (if j_Status job \<noteq> BatchImageJobStatusIndexing
            then (case on_jobs (TransitionBatchImageJobStatus (pe_transition env) bid BatchImageJobStatusIndexing
                         (transition_options ''indexing_started'' (Some [raw]) None None)) st of
                    (Inl e, st1) \<Rightarrow> (Inl e, st1)
                  | (Inr u, st1) \<Rightarrow>
                      indexAndSettle p env (job\<lparr>j_Status := BatchImageJobStatusIndexing\<rparr>) provider account st1)
            else indexAndSettle p env job provider account st)
         else if state = BatchProviderStateFailed \<or> state = BatchProviderStateExpired then
           (let code0 = trim_space (ps_ErrorCode status);
                code1 = (if code0 = '''' \<and> state = BatchProviderStateExpired
                         then ''PROVIDER_BATCH_EXPIRED'' else code0);
                code = (if code1 = '''' then ''PROVIDER_BATCH_FAILED'' else code1);
                msg = truncateBatchImageMessage (ps_ErrorMessage status) batchImageMaxErrorMessageLength
            in end_job p env (pe_transition env) job BatchImageJobStatusFailed
                 (transition_options ''job_failed'' (Some [raw, (''error_code'', JStr code)])
                    (Some code) (batchImageOptionalStringPtr msg)) st)
         else if state = BatchProviderStateCancelled then
           end_job p env (pe_transition env) job BatchImageJobStatusCancelled
             (transition_options ''job_failed'' (Some [raw, (''error_code'', JStr ''PROVIDER_BATCH_CANCELLED'')])
                None None) st
         else (later, st))"

text \<open>The checks before the provider is asked: the provider and the account of the job.\<close>

definition processor_account ::
  "'acct processor \<Rightarrow> BatchImageJob \<Rightarrow> batch_error + ('acct provider \<times> 'acct)" where
  "processor_account p job =
     (case pp_provider p (j_Provider job) of
        None \<Rightarrow> Inl ErrBatchImageUnsupportedProvider
      | Some provider \<Rightarrow>
          (case j_AccountID job of
             None \<Rightarrow> Inl ErrBatchImageMissingAccountID
           | Some aid \<Rightarrow>
               if aid \<le> 0 then Inl ErrBatchImageMissingAccountID
               else (case pp_resolve p aid of
                       Inl e \<Rightarrow> Inl e
                     | Inr account \<Rightarrow>
                         if \<not> pv_supports provider account then Inl ErrProviderUnsupportedAccount
                         else if trim_space (batchImageDerefString (j_ProviderJobName job)) = ''''
                         then Inl ErrBatchImageMissingProviderJobName
                         else Inr (provider, account))))"

definition process_job ::
  "'acct processor \<Rightarrow> process_env \<Rightarrow> BatchImageJob \<Rightarrow> batch_store \<Rightarrow> process_out" where
  "process_job p env job st =
     (if isBatchImageProcessorDoneStatus (j_Status job) then finish_terminal p env job st
      else case processor_account p job of
        Inl e \<Rightarrow> (Inl e, st)
      | Inr (provider, account) \<Rightarrow>
          if j_Status job = BatchImageJobStatusIndexing then indexAndSettle p env job provider account st
          else (case pv_get provider job account of
                  Inl e \<Rightarrow> (Inr (requeue_in minute_ns), st)
                | Inr None \<Rightarrow> (Inr (requeue_in (requeueDelay p 0)), st)
                | Inr (Some status) \<Rightarrow>
                    (case persistProviderOutputRef env job (ps_ProviderOutputRef status) st of
                       (Inl e, st1) \<Rightarrow> (Inl e, st1)
                     | (Inr job1, st1) \<Rightarrow> follow_status p env job1 provider account status st1)))"

definition Process :: "'acct processor \<Rightarrow> process_env \<Rightarrow> string \<Rightarrow> batch_store \<Rightarrow> process_out" where
  "Process p env batchID st =
     (if \<not> pp_configured p then (Inl ErrNotConfigured, st)
      else case on_jobs (GetBatchImageJobByBatchID (pe_get env) batchID) st of
        (Inl e, st1) \<Rightarrow> (Inl e, st1)
      | (Inr job, st1) \<Rightarrow> process_job p env job st1)"

section \<open>The pipeline\<close>

record 'acct pipeline =
  pl_processor :: "'acct processor"
  pl_settlement :: "settlement_service option"
  pl_retry_delay :: duration

record pipeline_env =
  ple_get :: batch_env
  ple_settle :: settle_env
  ple_recheck :: batch_env
  ple_process :: process_env

definition billing_failed :: "batch_error \<Rightarrow> bool" where
  "billing_failed e \<longleftrightarrow> (case e of ErrBatchImageSettlementBillingFailed c \<Rightarrow> True | _ \<Rightarrow> False)"

definition pipeline_retry :: "'acct pipeline \<Rightarrow> pipeline_env \<Rightarrow> string \<Rightarrow> batch_store \<Rightarrow> process_out" where
  "pipeline_retry pl env batchID st =
     (case on_jobs (GetBatchImageJobByBatchID (ple_recheck env) batchID) st of
        (r, st1) \<Rightarrow>
          (if (case r of Inl e \<Rightarrow> False | Inr updated \<Rightarrow> IsTerminalBatchImageJobStatus (j_Status updated))
           then (Inr terminal_result, st1)
           else (Inr (requeue_in (if pl_retry_delay pl \<le> 0 then minute_ns else pl_retry_delay pl)), st1)))"

definition PipelineProcess :: "'acct pipeline \<Rightarrow> pipeline_env \<Rightarrow> string \<Rightarrow> batch_store \<Rightarrow> process_out" where
  "PipelineProcess pl env batchID st =
     (case on_jobs (GetBatchImageJobByBatchID (ple_get env) batchID) st of
        (Inl e, st1) \<Rightarrow> (Inl e, st1)
      | (Inr job, st1) \<Rightarrow>
          if j_Status job = BatchImageJobStatusSettling then
            (case pl_settlement pl of
               None \<Rightarrow> (Inr terminal_result, st1)
             | Some s \<Rightarrow>
                 (case Settle s (ple_settle env) batchID st1 of
                    (Inl e, st2) \<Rightarrow>
                      if billing_failed e then pipeline_retry pl env batchID st2 else (Inl e, st2)
                  | (Inr r, st2) \<Rightarrow> (Inr terminal_result, st2)))
          else Process (pl_processor pl) (ple_process env) batchID st1)"


section \<open>Calls that meet no fault\<close>

definition quiet_process :: "process_env \<Rightarrow> bool" where
  "quiet_process env \<longleftrightarrow>
     batch_quiet (pe_get env) \<and> batch_quiet (pe_ref env) \<and> batch_quiet (pe_transition env)
     \<and> batch_quiet (pe_list env) \<and> batch_quiet (pe_replace env) \<and> batch_quiet (pe_finish env)
     \<and> no_faults (pe_release env)"

text \<open>One job of the store has been changed, and no item, hold or other job.\<close>

definition only_job :: "string \<Rightarrow> BatchImageJob \<Rightarrow> batch_store \<Rightarrow> batch_store \<Rightarrow> bool" where
  "only_job b j st st' \<longleftrightarrow> changed_job b j (bs_jobs st) (bs_jobs st')
     \<and> items (bs_jobs st') = items (bs_jobs st) \<and> bs_billing st' = bs_billing st"

lemma on_jobs_transition:
  assumes "batch_quiet env" "unique_db (bs_jobs st)" "find_job b (bs_jobs st) = Some cur"
    and "CanTransitionBatchImageJob (j_Status cur) to" "t_EventType opts \<noteq> ''''" "t_Now opts = None"
  shows "\<exists>st'. on_jobs (TransitionBatchImageJobStatus env b to opts) st = (Inr (), st')
    \<and> only_job b (transition_row (b_now env) to opts cur) st st'"
proof -
  obtain db' where t: "TransitionBatchImageJobStatus env b to opts (bs_jobs st) = (Inr (), db')"
      "changed_job b (transition_row (b_now env) to opts cur) (bs_jobs st) db'"
    using transition_quiet [OF assms] by blast
  then show ?thesis
    using items_kept [OF t(1) keeps_items_methods(1)] by (simp add: on_jobs_def only_job_def)
qed

lemma options_simps [simp]:
  "t_EventType (transition_options ty p c m) = ty" "t_Now (transition_options ty p c m) = None"
  "t_ErrorCode (transition_options ty p c m) = c" "t_EventPayload (transition_options ty p c m) = p"
  by (simp_all add: transition_options_def)

lemma transition_row_status [simp]:
  "j_Status (transition_row now to opts j) = to" "j_BatchID (transition_row now to opts j) = j_BatchID j"
  by (simp_all add: transition_row_def)

lemma finish_terminal_ok:
  assumes "no_faults (pe_release env)" "pp_billing p"
    and "j_Status job \<in> {BatchImageJobStatusFailed, BatchImageJobStatusCancelled}"
    and "j_BatchID job = b" "j_APIKeyID job = Some key" "0 < key" "releasable b key job u (bs_billing st)"
  shows "\<exists>st'. finish_terminal p env job st = (Inr terminal_result, st') \<and> bs_jobs st' = bs_jobs st
    \<and> hold_returned job u (bs_billing st')"
proof -
  obtain bdb where "releaseBatchImageBalanceHold True (pe_release env) job
      (batchImageDerefString (j_RequestHash job)) (bs_billing st) = (None, bdb)" "hold_returned job u bdb"
    using release_hold_ok [OF assms(1,5,6,4,7)] by blast
  then show ?thesis
    using assms(2,3) by (auto simp: finish_terminal_def releaseTerminalHold_def)
qed

lemma hold_status [simp]:
  "job_hold_amount (job\<lparr>j_Status := s\<rparr>) = job_hold_amount job"
  "job_hold_amount (job\<lparr>j_ProviderOutputRef := r\<rparr>) = job_hold_amount job"
  "releasable b key (job\<lparr>j_Status := s\<rparr>) u db = releasable b key job u db"
  "releasable b key (job\<lparr>j_ProviderOutputRef := r\<rparr>) u db = releasable b key job u db"
  "hold_returned (job\<lparr>j_Status := s\<rparr>) u db = hold_returned job u db"
  "hold_returned (job\<lparr>j_ProviderOutputRef := r\<rparr>) u db = hold_returned job u db"
  by (simp_all add: job_hold_amount_def releasable_def hold_returned_def split: option.split)

text \<open>The end of a job without result.\<close>

definition refunded :: "string \<Rightarrow> string \<Rightarrow> BatchImageJob \<Rightarrow> user_row \<Rightarrow> batch_store \<Rightarrow> bool" where
  "refunded b status job u st \<longleftrightarrow>
     (\<exists>j. find_job b (bs_jobs st) = Some j \<and> j_Status j = status) \<and> hold_returned job u (bs_billing st)"

lemma end_job_ok:
  assumes "no_faults (pe_release env)" "pp_billing p" "batch_quiet tenv"
    and "unique_db (bs_jobs st)" "find_job b (bs_jobs st) = Some cur"
    and "CanTransitionBatchImageJob (j_Status cur) status"
    and "status \<in> {BatchImageJobStatusFailed, BatchImageJobStatusCancelled}" "ty \<noteq> ''''"
    and "j_BatchID job = b" "j_APIKeyID job = Some key" "0 < key" "releasable b key job u (bs_billing st)"
  shows "\<exists>st'. end_job p env tenv job status (transition_options ty payload c m) st = (Inr terminal_result, st')
    \<and> refunded b status job u st'"
proof -
  obtain st1 where t: "on_jobs (TransitionBatchImageJobStatus tenv b status (transition_options ty payload c m)) st
      = (Inr (), st1)"
    and o1: "only_job b (transition_row (b_now tenv) status (transition_options ty payload c m) cur) st st1"
    using on_jobs_transition [OF assms(3-6), of "transition_options ty payload c m"] assms(8) by auto
  let ?job = "job\<lparr>j_Status := status\<rparr>"
  have "releasable b key ?job u (bs_billing st1)" using assms(12) o1 by (simp add: only_job_def)
  then obtain st2 where "finish_terminal p env ?job st1 = (Inr terminal_result, st2)" "bs_jobs st2 = bs_jobs st1"
      "hold_returned job u (bs_billing st2)"
    using finish_terminal_ok [OF assms(1,2), of ?job b key u st1] assms(7,9-11) by auto
  then show ?thesis
    using t o1 assms(9) by (simp add: end_job_def refunded_def only_job_def changed_job_def)
qed

section \<open>Indexing inside a step\<close>

lemma can_transition:
  "CanTransitionBatchImageJob ''submitted'' ''indexing''" "CanTransitionBatchImageJob ''running'' ''indexing''"
  "CanTransitionBatchImageJob ''indexing'' ''failed''" "CanTransitionBatchImageJob ''indexing'' ''settling''"
  "CanTransitionBatchImageJob ''submitted'' ''failed''" "CanTransitionBatchImageJob ''running'' ''failed''"
  "CanTransitionBatchImageJob ''submitted'' ''cancelled''" "CanTransitionBatchImageJob ''running'' ''cancelled''"
  by (simp_all add: CanTransitionBatchImageJob_def terminal_iff status_defs allowed_transitions_def)

text \<open>A job being indexed, with its submitted items.\<close>

definition indexable :: "string \<Rightarrow> BatchImageJob \<Rightarrow> batch_store \<Rightarrow> bool" where
  "indexable b cur st \<longleftrightarrow>
     unique_db (bs_jobs st) \<and> find_job b (bs_jobs st) = Some cur \<and> j_Status cur = BatchImageJobStatusIndexing
     \<and> distinct (map i_CustomID (job_items b (bs_jobs st))) \<and> job_items b (bs_jobs st) \<noteq> []"

lemma indexAndSettle_ok:
  fixes p :: "'acct processor" and provider :: "'acct provider" and account :: 'acct
  assumes "quiet_process env" "pp_billing p" "indexable b cur st"
    and "j_BatchID job = b" "j_APIKeyID job = Some key" "0 < key" "releasable b key job u (bs_billing st)"
  defines "ix \<equiv> index_env_of p env provider account"
  shows "(\<exists>st'. indexAndSettle p env job provider account st = (Inl ErrBatchImageIndexOutputMissing, st') \<and> st' = st)
    \<or> (\<exists>st'. indexAndSettle p env job provider account st = (Inr terminal_result, st')
        \<and> refunded b BatchImageJobStatusFailed job u st')
    \<or> (\<exists>r db1 opts st'. indexAndSettle p env job provider account st = (Inr (requeue_in millisecond_ns), st')
        \<and> index_reconciled ix job cur (bs_jobs st) r db1
        \<and> items (bs_jobs st') = items db1 \<and> bs_billing st' = bs_billing st
        \<and> changed_job b (transition_row (b_now (pe_finish env)) BatchImageJobStatusSettling opts
             (counts_row (b_now (pe_replace env))
               \<lparr>n_SuccessCount = x_SuccessCount r, n_FailCount = x_FailCount r\<rparr> cur)) (bs_jobs st) (bs_jobs st'))"
proof -
  have q: "batch_quiet (ix_list ix)" "batch_quiet (ix_replace ix)" "batch_quiet (pe_finish env)"
      "no_faults (pe_release env)"
    using assms(1) by (simp_all add: ix_def index_env_of_def quiet_process_def)
  have now: "b_now (ix_replace ix) = b_now (pe_replace env)" by (simp add: ix_def index_env_of_def)
  have cur: "unique_db (bs_jobs st)" "find_job b (bs_jobs st) = Some cur" "j_Status cur = BatchImageJobStatusIndexing"
      "distinct (map i_CustomID (job_items b (bs_jobs st)))" "job_items b (bs_jobs st) \<noteq> []"
    using assms(3) by (simp_all add: indexable_def)
  note out = index_outcome [OF q(1,2) cur(1), of job cur, unfolded assms(4), OF cur(2-5)]
  show ?thesis
  proof (cases "Index True ix job (bs_jobs st)")
    case (Pair r db1)
    show ?thesis
    proof (cases r)
      case (Inl e)
      then have db1: "st\<lparr>bs_jobs := db1\<rparr> = st" using out Pair by simp
      have step: "on_jobs (Index True (index_env_of p env provider account) job) st = (Inl e, st)"
        using Pair Inl db1 by (simp add: on_jobs_def ix_def)
      have refund: "\<exists>st'. end_job p env (pe_finish env) job BatchImageJobStatusFailed
          (transition_options ''indexing_failed'' payload c m) st = (Inr terminal_result, st')
          \<and> refunded b BatchImageJobStatusFailed job u st'" for payload c m
        using cur(3) can_transition(3) assms(2,4-7) q(3,4)
        by (intro end_job_ok [OF q(4) assms(2) q(3) cur(1,2)]) (simp_all add: status_defs)
      have "e \<noteq> ErrBatchImageIndexStateConflict" using out Pair Inl by auto
      then consider "e = ErrBatchImageIndexOutputMissing"
        | "e \<noteq> ErrBatchImageIndexOutputMissing" "e \<noteq> ErrBatchImageIndexStateConflict" by blast
      then show ?thesis
      proof cases
        case 2
        let ?code = "if e = ErrBatchImageDuplicateCustomID then ''DUPLICATE_CUSTOM_ID_IN_OUTPUT''
            else ''INDEX_PARSE_FAILED''"
        have "indexAndSettle p env job provider account st
            = end_job p env (pe_finish env) job BatchImageJobStatusFailed
                (transition_options ''indexing_failed'' (Some [(''error_code'', JStr ?code)]) (Some ?code)
                  (batchImageOptionalStringPtr (truncateBatchImageMessage (pp_error_text p e)
                     batchImageMaxErrorMessageLength))) st"
          unfolding indexAndSettle_def step by (simp add: 2 Let_def)
        with refund show ?thesis by metis
      qed (simp_all add: indexAndSettle_def step)
    next
      case (Inr x)
      then have rec: "index_reconciled ix job cur (bs_jobs st) x db1" using out Pair by simp
      let ?row = "counts_row (b_now (pe_replace env))
          \<lparr>n_SuccessCount = x_SuccessCount x, n_FailCount = x_FailCount x\<rparr> cur"
      let ?st1 = "st\<lparr>bs_jobs := db1\<rparr>"
      define opts where "opts = transition_options ''indexing_completed''
          (Some [(''success_count'', JInt (x_SuccessCount x)), (''fail_count'', JInt (x_FailCount x)),
                 (''total_count'', JInt (x_TotalCount x))]) None None"
      have ch: "changed_job b ?row (bs_jobs st) db1"
        using rec unfolding index_reconciled_def Let_def assms(4) now by (elim conjE)
      then have row: "unique_db (bs_jobs ?st1)" "find_job b (bs_jobs ?st1) = Some ?row"
          "CanTransitionBatchImageJob (j_Status ?row) BatchImageJobStatusSettling"
        using cur(3) can_transition(4) by (simp_all add: changed_job_def counts_row_def status_defs)
      have o: "t_EventType opts \<noteq> ''''" "t_Now opts = None" by (simp_all add: opts_def)
      obtain st2 where t: "on_jobs (TransitionBatchImageJobStatus (pe_finish env) b BatchImageJobStatusSettling opts) ?st1
            = (Inr (), st2)"
          "only_job b (transition_row (b_now (pe_finish env)) BatchImageJobStatusSettling opts ?row) ?st1 st2"
        using on_jobs_transition [OF q(3) row o] by blast
      have "changed_job b (transition_row (b_now (pe_finish env)) BatchImageJobStatusSettling opts ?row)
          (bs_jobs st) (bs_jobs st2)"
        using changed_trans [OF ch] t(2) by (simp add: only_job_def)
      moreover have "indexAndSettle p env job provider account st = (Inr (requeue_in millisecond_ns), st2)"
        using Pair Inr t(1) assms(4) by (simp add: indexAndSettle_def on_jobs_def ix_def opts_def)
      moreover have "items (bs_jobs st2) = items db1" "bs_billing st2 = bs_billing st"
        using t(2) by (simp_all add: only_job_def)
      ultimately show ?thesis using rec by blast
    qed
  qed
qed


section \<open>A step on a submitted job\<close>

text \<open>A submitted job whose provider answers with the given status.\<close>

definition awaits ::
  "'acct processor \<Rightarrow> string \<Rightarrow> BatchImageJob \<Rightarrow> 'acct provider \<Rightarrow> 'acct \<Rightarrow> BatchProviderStatus \<Rightarrow> batch_store \<Rightarrow> bool" where
  "awaits p b job provider account status st \<longleftrightarrow>
     pp_configured p \<and> pp_billing p \<and> unique_db (bs_jobs st) \<and> find_job b (bs_jobs st) = Some job
     \<and> (j_Status job = BatchImageJobStatusSubmitted \<or> j_Status job = BatchImageJobStatusRunning)
     \<and> processor_account p job = Inr (provider, account) \<and> pv_get provider job account = Inr (Some status)"

text \<open>The row with the provider's output on record, and what else may have changed.\<close>

definition refreshed :: "BatchImageJob \<Rightarrow> BatchImageJob \<Rightarrow> bool" where
  "refreshed job cur \<longleftrightarrow> cur = job \<or> (\<exists>now ref. cur = output_ref_row now ref job)"

lemma persist_ok:
  assumes "batch_quiet (pe_ref env)" "unique_db (bs_jobs st)" "find_job b (bs_jobs st) = Some job"
  shows "\<exists>job1 cur st1. persistProviderOutputRef env job ref st = (Inr job1, st1)
    \<and> (job1 = job \<or> (\<exists>r. job1 = job\<lparr>j_ProviderOutputRef := r\<rparr>)) \<and> refreshed job cur \<and> only_job b cur st st1"
proof (cases "trim_space ref = '''' \<or> batchImageDerefString (j_ProviderOutputRef job) = trim_space ref")
  case True
  then show ?thesis
    using assms(2,3)
    by (intro exI [of _ job] exI [of _ st])
       (auto simp: persistProviderOutputRef_def Let_def refreshed_def only_job_def changed_job_def)
next
  case False
  let ?f = "output_ref_row (b_now (pe_ref env)) (trim_space ref)"
  have b: "j_BatchID job = b" using find_job_mem [OF assms(3)] by simp
  have f: "j_BatchID (?f job) = b" "j_ManifestHash (?f job) = j_ManifestHash job"
    using b by (simp_all add: output_ref_row_def)
  have nf: "\<not> b_fails (pe_ref env) BUpdateJob" using assms(1) by (simp add: batch_quiet_def)
  obtain db1 n where up: "update_jobs (pe_ref env) (\<lambda>j. j_BatchID j = b) ?f (bs_jobs st) = (Inr (Suc n), db1)"
    and ch: "changed_job b (?f job) (bs_jobs st) db1"
    using update_one [where P = "\<lambda>j. j_BatchID j = b" and f = ?f, OF assms(2,3) nf b _ f(1)] f(2)
    unfolding changed_job_def by blast
  have run: "UpdateBatchImageJobProviderOutputRef (pe_ref env) b (trim_space ref) (bs_jobs st) = (Inr (), db1)"
    using up by (simp add: UpdateBatchImageJobProviderOutputRef_def bm_bind_def bm_translate_def must_affect_def
        bm_return_def)
  then have "persistProviderOutputRef env job ref st
      = (Inr (job\<lparr>j_ProviderOutputRef := Some (trim_space ref)\<rparr>), st\<lparr>bs_jobs := db1\<rparr>)"
    using False b by (simp add: persistProviderOutputRef_def Let_def on_jobs_def)
  moreover have "only_job b (?f job) st (st\<lparr>bs_jobs := db1\<rparr>)"
    using ch items_kept [OF run keeps_items_methods(3)] by (simp add: only_job_def)
  ultimately show ?thesis unfolding refreshed_def by blast
qed

lemma refreshed_simps:
  assumes "refreshed job cur"
  shows "j_Status cur = j_Status job" "j_BatchID cur = j_BatchID job"
  using assms by (auto simp: refreshed_def output_ref_row_def)

text \<open>A step reaches \<open>follow_status\<close>, with the provider's output on record.\<close>

lemma process_follows:
  assumes "quiet_process env" "awaits p b job provider account status st"
  shows "\<exists>job1 cur st1. Process p env b st = follow_status p env job1 provider account status st1
    \<and> (job1 = job \<or> (\<exists>r. job1 = job\<lparr>j_ProviderOutputRef := r\<rparr>)) \<and> refreshed job cur \<and> only_job b cur st st1"
proof -
  have a: "pp_configured p" "unique_db (bs_jobs st)" "find_job b (bs_jobs st) = Some job"
      "processor_account p job = Inr (provider, account)" "pv_get provider job account = Inr (Some status)"
      "\<not> isBatchImageProcessorDoneStatus (j_Status job)" "j_Status job \<noteq> BatchImageJobStatusIndexing"
    using assms(2)
    by (auto simp: awaits_def isBatchImageProcessorDoneStatus_def terminal_iff status_defs)
  obtain job1 cur st1 where "persistProviderOutputRef env job (ps_ProviderOutputRef status) st = (Inr job1, st1)"
      "job1 = job \<or> (\<exists>r. job1 = job\<lparr>j_ProviderOutputRef := r\<rparr>)" "refreshed job cur" "only_job b cur st st1"
    using persist_ok [OF _ a(2,3)] assms(1) unfolding quiet_process_def by blast
  moreover from this have "Process p env b st = follow_status p env job1 provider account status st1"
    using a assms(1) by (simp add: Process_def on_jobs_get quiet_process_def process_job_def)
  ultimately show ?thesis by blast
qed

text \<open>C38 (provider_end_refunds): when the provider of a submitted job reports that it failed, expired or was
  cancelled, one step ends the job with that status and gives its user the whole hold back, rounded to
  the eight decimals of the balances, so exactly if the hold has no more.\<close>

theorem provider_end_refunds:
  assumes "quiet_process env" and "awaits p b job provider account status st"
    and "ps_InternalState status \<in> {BatchProviderStateFailed, BatchProviderStateExpired, BatchProviderStateCancelled}"
    and "j_APIKeyID job = Some key" "0 < key" "releasable b key job u (bs_billing st)"
  shows "\<exists>st' j u'. Process p env b st = (Inr terminal_result, st') \<and> find_job b (bs_jobs st') = Some j
    \<and> j_Status j = (if ps_InternalState status = BatchProviderStateCancelled then BatchImageJobStatusCancelled
                    else BatchImageJobStatusFailed)
    \<and> users (bs_billing st') (j_UserID job) = Some u'
    \<and> u_balance u' = round_half_away 8 (u_balance u + job_hold_amount job)
    \<and> u_frozen_balance u' = round_half_away 8 (u_frozen_balance u - job_hold_amount job)
    \<and> (on_scale 8 (job_hold_amount job) \<longrightarrow>
         u_balance u' = u_balance u + job_hold_amount job
         \<and> u_frozen_balance u' = u_frozen_balance u - job_hold_amount job)"
proof -
  obtain job1 cur st1 where run: "Process p env b st = follow_status p env job1 provider account status st1"
    and job1: "job1 = job \<or> (\<exists>r. job1 = job\<lparr>j_ProviderOutputRef := r\<rparr>)"
    and cur: "refreshed job cur" and o: "only_job b cur st st1"
    using process_follows [OF assms(1,2)] by blast
  define to where "to = (if ps_InternalState status = BatchProviderStateCancelled then BatchImageJobStatusCancelled
                    else BatchImageJobStatusFailed)"
  have job: "pp_billing p" "find_job b (bs_jobs st) = Some job" "no_faults (pe_release env)"
      "batch_quiet (pe_transition env)" "j_Status job = ''submitted'' \<or> j_Status job = ''running''"
    using assms(1,2) by (simp_all add: awaits_def quiet_process_def status_defs)
  have b: "j_BatchID job1 = b" "j_APIKeyID job1 = Some key" "releasable b key job1 u (bs_billing st1)"
    using job1 find_job_mem [OF job(2)] assms(4,6) o by (auto simp: only_job_def)
  have st1: "unique_db (bs_jobs st1)" "find_job b (bs_jobs st1) = Some cur"
      "CanTransitionBatchImageJob (j_Status cur) to"
    using o refreshed_simps [OF cur] job(5) can_transition
    by (auto simp: only_job_def changed_job_def to_def status_defs)
  have to: "to \<in> {BatchImageJobStatusFailed, BatchImageJobStatusCancelled}" by (simp add: to_def)
  have end_ok: "\<exists>st'. end_job p env (pe_transition env) job1 to (transition_options ''job_failed'' payload c m) st1
      = (Inr terminal_result, st') \<and> refunded b to job1 u st'" for payload c m
    by (rule end_job_ok [OF job(3,1,4) st1 to _ b(1,2) assms(5) b(3)]) simp
  have "\<exists>payload c m. follow_status p env job1 provider account status st1
      = end_job p env (pe_transition env) job1 to (transition_options ''job_failed'' payload c m) st1"
    using assms(3) by (auto simp: follow_status_def Let_def to_def provider_state_defs)
  then obtain st' where "Process p env b st = (Inr terminal_result, st')" "refunded b to job1 u st'"
    using end_ok run by metis
  moreover have "refunded b to job1 u st' = refunded b to job u st'"
    using job1 by (auto simp: refunded_def)
  ultimately show ?thesis unfolding refunded_def hold_returned_def to_def by blast
qed


section \<open>From a result to the charge\<close>

definition quiet_pipeline :: "pipeline_env \<Rightarrow> bool" where
  "quiet_pipeline env \<longleftrightarrow> batch_quiet (ple_get env) \<and> quiet_process (ple_process env)
     \<and> batch_quiet (se_get (ple_settle env)) \<and> no_faults (se_capture (ple_settle env))
     \<and> batch_quiet (se_mark (ple_settle env))"

text \<open>A job as it is submitted: prices and hold on record, the unit price with the ten decimals of its
  column, the hold large enough for every item and at most 100000.\<close>

definition priced_job :: "settlement_service \<Rightarrow> string \<Rightarrow> BatchImageJob \<Rightarrow> batch_store \<Rightarrow> bool" where
  "priced_job s b job st \<longleftrightarrow>
     j_RetryCount job = 0 \<and> j_ManifestHash job = None \<and> 1 \<le> j_PricingSnapshotVersion job
     \<and> 0 \<le> j_BillableUnitPrice job \<and> on_scale 10 (j_BillableUnitPrice job)
     \<and> of_int (j_ItemCount job) * j_BillableUnitPrice job \<le> job_hold_amount job
     \<and> 0 < job_hold_amount job \<and> job_hold_amount job \<le> 10 ^ 5
     \<and> j_ItemCount job < 2 ^ 31
     \<and> (\<forall>i. j_BatchID i = b \<longrightarrow> fresh_hash (manifest_of s i) b (bs_jobs st))"

text \<open>The job's items: one for each submitted identifier.\<close>

definition submitted_items :: "string \<Rightarrow> BatchImageJob \<Rightarrow> batch_store \<Rightarrow> bool" where
  "submitted_items b job st \<longleftrightarrow>
     distinct (map i_CustomID (job_items b (bs_jobs st))) \<and> job_items b (bs_jobs st) \<noteq> []
     \<and> int (length (job_items b (bs_jobs st))) = j_ItemCount job"

text \<open>The indexed row keeps what the settlement reads.\<close>

definition same_terms :: "BatchImageJob \<Rightarrow> BatchImageJob \<Rightarrow> bool" where
  "same_terms job j \<longleftrightarrow>
     j_BatchID j = j_BatchID job \<and> j_APIKeyID j = j_APIKeyID job \<and> j_AccountID j = j_AccountID job
     \<and> j_UserID j = j_UserID job \<and> j_ItemCount j = j_ItemCount job \<and> j_RetryCount j = j_RetryCount job
     \<and> j_ManifestHash j = j_ManifestHash job \<and> j_PricingSnapshotVersion j = j_PricingSnapshotVersion job
     \<and> j_BillableUnitPrice j = j_BillableUnitPrice job \<and> j_HoldAmount j = j_HoldAmount job
     \<and> j_EstimatedCost j = j_EstimatedCost job"

lemma same_terms_rows:
  "same_terms job job" "same_terms job (output_ref_row now ref job)"
  "same_terms job j \<Longrightarrow> same_terms job (counts_row now c j)"
  "same_terms job j \<Longrightarrow> same_terms job (transition_row now to opts j)"
  by (simp_all add: same_terms_def output_ref_row_def counts_row_def transition_row_def)

lemma same_terms_hold: "same_terms job j \<Longrightarrow> job_hold_amount j = job_hold_amount job"
  by (simp add: same_terms_def job_hold_amount_def split: option.split)


text \<open>A job that has been indexed: it waits to be settled, its counts are those of its items.\<close>

definition indexed :: "string \<Rightarrow> BatchImageJob \<Rightarrow> BatchImageJob \<Rightarrow> batch_store \<Rightarrow> batch_store \<Rightarrow> bool" where
  "indexed b job j st st' \<longleftrightarrow>
     changed_job b j (bs_jobs st) (bs_jobs st') \<and> bs_billing st' = bs_billing st
     \<and> j_Status j = BatchImageJobStatusSettling \<and> same_terms job j
     \<and> j_SuccessCount j = int (length (filter (\<lambda>i. i_Status i = BatchImageItemStatusSuccess)
                                        (job_items b (bs_jobs st'))))
     \<and> 0 \<le> j_FailCount j \<and> j_SuccessCount j + j_FailCount j = int (length (job_items b (bs_jobs st)))"

lemma counts_then_transition [simp]:
  "j_SuccessCount (transition_row now to opts (counts_row n c j)) = n_SuccessCount c"
  "j_FailCount (transition_row now to opts (counts_row n c j)) = n_FailCount c"
  by (simp_all add: transition_row_def counts_row_def)

lemma indexAndSettle_indexed:
  assumes "quiet_process env" "pp_billing p" "indexable b cur st" "same_terms job0 cur"
    and "j_BatchID job = b" "j_APIKeyID job = Some key" "0 < key" "releasable b key job u (bs_billing st)"
  shows "indexAndSettle p env job provider account st = (Inl ErrBatchImageIndexOutputMissing, st)
    \<or> (\<exists>st'. indexAndSettle p env job provider account st = (Inr terminal_result, st')
        \<and> refunded b BatchImageJobStatusFailed job u st')
    \<or> (\<exists>j st'. indexAndSettle p env job provider account st = (Inr (requeue_in millisecond_ns), st')
        \<and> indexed b job0 j st st')"
proof -
  let ?ix = "index_env_of p env provider account"
  let ?row = "\<lambda>r. counts_row (b_now (pe_replace env))
      \<lparr>n_SuccessCount = x_SuccessCount r, n_FailCount = x_FailCount r\<rparr> cur"
  consider "indexAndSettle p env job provider account st = (Inl ErrBatchImageIndexOutputMissing, st)"
    | st' where "indexAndSettle p env job provider account st = (Inr terminal_result, st')"
        "refunded b BatchImageJobStatusFailed job u st'"
    | (ok) r db1 opts st' where
        "indexAndSettle p env job provider account st = (Inr (requeue_in millisecond_ns), st')"
        "index_reconciled ?ix job cur (bs_jobs st) r db1" "items (bs_jobs st') = items db1"
        "bs_billing st' = bs_billing st"
        "changed_job b (transition_row (b_now (pe_finish env)) BatchImageJobStatusSettling opts (?row r))
           (bs_jobs st) (bs_jobs st')"
    using indexAndSettle_ok [OF assms(1-3,5-8), of provider account] by blast
  then show ?thesis
  proof cases
    case ok
    have rows: "job_items b (bs_jobs st') = job_items b db1" using ok(3) by (simp add: job_items_def)
    have cnt: "x_SuccessCount r = int (length (filter (\<lambda>i. i_Status i = BatchImageItemStatusSuccess) (job_items b db1)))"
        "x_FailCount r = int (length (filter (\<lambda>i. i_Status i = BatchImageItemStatusFailed) (job_items b db1)))"
        "x_SuccessCount r + x_FailCount r = int (length (job_items b db1))"
        "mset (map i_CustomID (job_items b db1)) = mset (map i_CustomID (job_items b (bs_jobs st)))"
      using ok(2) unfolding index_reconciled_def Let_def assms(5) by blast+
    have "length (job_items b db1) = length (job_items b (bs_jobs st))"
      using arg_cong [OF cnt(4), of size] by simp
    then have "indexed b job0 (transition_row (b_now (pe_finish env)) BatchImageJobStatusSettling opts (?row r)) st st'"
      unfolding indexed_def rows counts_then_transition transition_row_status BatchImageCounts.select_convs
      using cnt(1-3) by (intro conjI ok(5,4) refl same_terms_rows(3,4) assms(4)) simp_all
    then show ?thesis using ok(1) by blast
  qed auto
qed

text \<open>The first run of the pipeline on a submitted job whose provider has succeeded.\<close>

lemma first_run:
  assumes "quiet_pipeline env" "awaits (pl_processor pl) b job provider account status st"
    and "ps_InternalState status = BatchProviderStateSucceeded"
    and "j_APIKeyID job = Some key" "0 < key" "releasable b key job u (bs_billing st)" "submitted_items b job st"
  shows "\<exists>r st'. PipelineProcess pl env b st = (r, st') \<and>
    (r = Inl ErrBatchImageIndexOutputMissing \<and> bs_billing st' = bs_billing st
       \<and> (\<exists>j. find_job b (bs_jobs st') = Some j \<and> j_Status j = BatchImageJobStatusIndexing)
     \<or> r = Inr terminal_result \<and> refunded b BatchImageJobStatusFailed job u st'
     \<or> (\<exists>j. r = Inr (requeue_in millisecond_ns) \<and> indexed b job j st st'))"
proof -
  let ?p = "pl_processor pl" and ?env = "ple_process env"
  have q: "quiet_process ?env" "batch_quiet (ple_get env)" using assms(1) by (simp_all add: quiet_pipeline_def)
  have job: "pp_billing ?p" "find_job b (bs_jobs st) = Some job"
      "j_Status job = ''submitted'' \<or> j_Status job = ''running''"
    using assms(2) by (simp_all add: awaits_def status_defs)
  have run: "PipelineProcess pl env b st = Process ?p ?env b st"
    using job(3) by (auto simp: PipelineProcess_def on_jobs_get [OF q(2) job(2)] status_defs)
  obtain job1 cur st1 where p1: "Process ?p ?env b st = follow_status ?p ?env job1 provider account status st1"
    and job1: "job1 = job \<or> (\<exists>r. job1 = job\<lparr>j_ProviderOutputRef := r\<rparr>)"
    and cur: "refreshed job cur" and o: "only_job b cur st st1"
    using process_follows [OF q(1) assms(2)] by blast
  have b: "j_BatchID job1 = b" "j_APIKeyID job1 = Some key" "releasable b key job1 u (bs_billing st1)"
      "j_Status job1 = j_Status job"
    using job1 find_job_mem [OF job(2)] assms(4,6) o by (auto simp: only_job_def)
  define opts where "opts = transition_options ''indexing_started''
      (Some [(''provider_state'', JStr (ps_RawState status))]) None None"
  have "unique_db (bs_jobs st1)" "find_job b (bs_jobs st1) = Some cur"
      "CanTransitionBatchImageJob (j_Status cur) BatchImageJobStatusIndexing"
    using o refreshed_simps [OF cur] job(3) can_transition
    by (auto simp: only_job_def changed_job_def status_defs)
  then obtain st2 where t: "on_jobs (TransitionBatchImageJobStatus (pe_transition ?env) b
        BatchImageJobStatusIndexing opts) st1 = (Inr (), st2)"
    and o2: "only_job b (transition_row (b_now (pe_transition ?env)) BatchImageJobStatusIndexing opts cur) st1 st2"
    using on_jobs_transition [of "pe_transition ?env" st1 b cur BatchImageJobStatusIndexing opts] q(1)
    by (auto simp: quiet_process_def opts_def)
  let ?job2 = "job1\<lparr>j_Status := BatchImageJobStatusIndexing\<rparr>"
  let ?cur2 = "transition_row (b_now (pe_transition ?env)) BatchImageJobStatusIndexing opts cur"
  have p2: "PipelineProcess pl env b st = indexAndSettle ?p ?env ?job2 provider account st2"
    using t assms(3) job(3) b(1,4) unfolding run p1
    by (auto simp: follow_status_def Let_def provider_state_defs status_defs opts_def)
  have same: "same_terms job ?cur2"
    using cur same_terms_rows by (auto simp: refreshed_def)
  have items: "items (bs_jobs st2) = items (bs_jobs st)" "bs_billing st2 = bs_billing st"
    using o o2 by (simp_all add: only_job_def)
  then have rows: "job_items b (bs_jobs st2) = job_items b (bs_jobs st)" by (simp add: job_items_def)
  have ix: "indexable b ?cur2 st2"
    using o2 assms(7) by (simp add: indexable_def only_job_def changed_job_def rows submitted_items_def)
  have jb: "j_BatchID ?job2 = b" "j_APIKeyID ?job2 = Some key" "releasable b key ?job2 u (bs_billing st2)"
    using b(1-3) o2 by (simp_all add: only_job_def)
  have ch: "changed_job b ?cur2 (bs_jobs st) (bs_jobs st2)"
    using changed_trans o o2 by (auto simp: only_job_def)
  have ref: "refunded b s ?job2 u st' = refunded b s job u st'" for s st'
    using job1 by (auto simp: refunded_def)
  from indexAndSettle_indexed [OF q(1) job(1) ix same jb(1,2) assms(5) jb(3), of provider account]
  consider (missing) "PipelineProcess pl env b st = (Inl ErrBatchImageIndexOutputMissing, st2)"
    | (failed) st' where "PipelineProcess pl env b st = (Inr terminal_result, st')"
        "refunded b BatchImageJobStatusFailed job u st'"
    | (ok) j st' where "PipelineProcess pl env b st = (Inr (requeue_in millisecond_ns), st')"
        "indexed b job j st2 st'"
    unfolding p2 ref by blast
  then show ?thesis
  proof cases
    case missing
    have "find_job b (bs_jobs st2) = Some ?cur2" using o2 by (simp add: only_job_def changed_job_def)
    then show ?thesis using missing items(2) by auto
  next
    case ok
    have "indexed b job j st st'"
      using ok(2) changed_trans [OF ch] items(2) rows by (simp add: indexed_def)
    then show ?thesis using ok(1) by blast
  qed blast
qed


text \<open>The second run settles what the first has indexed.\<close>

lemma second_run:
  assumes "quiet_pipeline env" "pl_settlement pl = Some s" "configured s"
    and "find_job b (bs_jobs st0) = Some job" "indexed b job j st0 st" "priced_job s b job st0" "submitted_items b job st0"
    and "j_APIKeyID job = Some key" "0 < key" "j_AccountID job = Some a" "0 < a"
    and "releasable b key job u (bs_billing st0)" "free_key (bs_billing st0) (BatchImageCaptureRequestID b) key"
  shows "\<exists>st' j' u'. PipelineProcess pl env b st = (Inr terminal_result, st')
    \<and> find_job b (bs_jobs st') = Some j' \<and> j_Status j' = BatchImageJobStatusCompleted
    \<and> j_SuccessCount j' = int (length (filter (\<lambda>i. i_Status i = BatchImageItemStatusSuccess)
                                        (job_items b (bs_jobs st'))))
    \<and> j_ActualCost j' = Some (of_int (j_SuccessCount j') * j_BillableUnitPrice job)
    \<and> users (bs_billing st') (j_UserID job) = Some u'
    \<and> charged (job_hold_amount job) (of_int (j_SuccessCount j') * j_BillableUnitPrice job) u u'"
proof -
  let ?cost = "of_int (j_SuccessCount j) * j_BillableUnitPrice j"
  have q: "batch_quiet (ple_get env)" "batch_quiet (se_get (ple_settle env))"
      "no_faults (se_capture (ple_settle env))" "batch_quiet (se_mark (ple_settle env))"
    using assms(1) by (simp_all add: quiet_pipeline_def)
  have ch: "changed_job b j (bs_jobs st0) (bs_jobs st)" and bill: "bs_billing st = bs_billing st0"
    and j: "j_Status j = BatchImageJobStatusSettling" and same: "same_terms job j"
    and n: "j_SuccessCount j = int (length (filter (\<lambda>i. i_Status i = BatchImageItemStatusSuccess)
                                        (job_items b (bs_jobs st))))" "0 \<le> j_FailCount j"
      "j_SuccessCount j + j_FailCount j = j_ItemCount job"
    using assms(5,7) by (simp_all add: indexed_def submitted_items_def)
  have terms: "j_BatchID j = b" "j_APIKeyID j = Some key" "j_AccountID j = Some a" "j_UserID j = j_UserID job"
      "j_ItemCount j = j_ItemCount job" "j_RetryCount j = 0" "j_ManifestHash j = None"
      "1 \<le> j_PricingSnapshotVersion j" "j_BillableUnitPrice j = j_BillableUnitPrice job"
      "job_hold_amount j = job_hold_amount job"
    using same assms(6,8,10) find_job_mem [OF assms(4)] same_terms_hold [OF same]
    by (simp_all add: same_terms_def priced_job_def)
  have price: "0 \<le> j_BillableUnitPrice j" "on_scale 10 (j_BillableUnitPrice j)"
      "of_int (j_ItemCount j) * j_BillableUnitPrice j \<le> job_hold_amount j" "0 < job_hold_amount j"
      "job_hold_amount j \<le> 10 ^ 5" "j_ItemCount j < 2 ^ 31"
    using assms(6) terms by (simp_all add: priced_job_def)
  have fresh: "fresh_hash (manifest_of s j) b (bs_jobs st)"
    using assms(6) terms(1) changed_fresh [OF ch] by (simp add: priced_job_def)
  have "?cost \<le> of_int (j_ItemCount j) * j_BillableUnitPrice j"
    using n(2,3) terms(5) price(1) by (intro mult_right_mono) simp_all
  then have cost: "?cost \<le> job_hold_amount j" using price(3) by linarith
  have sj: "settling_job b key j st"
    using ch j terms(2,3) assms(9,11) by (simp add: settling_job_def changed_job_def)
  have retries: "j_RetryCount j < batchImageSettlementMaxRetries" "\<not> bad_counts j" "j_SuccessCount j < 2 ^ 31"
    using n terms(5,6) price(6) by (simp_all add: batchImageSettlementMaxRetries_def bad_counts_def)
  have money: "free_key (bs_billing st) (BatchImageCaptureRequestID b) key"
      "users (bs_billing st) (j_UserID j) = Some u" "\<not> u_deleted u" "scaled_row u"
      "job_hold_amount j \<le> u_frozen_balance u"
    using assms(12,13) bill terms(4,10) by (simp_all add: releasable_def)
  obtain r st' j' u' where settle: "Settle s (ple_settle env) b st = (Inr r, st')"
    and user: "users (bs_billing st') (j_UserID j) = Some u'"
      "charged (job_hold_amount j) ?cost u u'"
    and job': "find_job b (bs_jobs st') = Some j'" "j_Status j' = BatchImageJobStatusCompleted"
      "j_ActualCost j' = Some ?cost" "j_SuccessCount j' = j_SuccessCount j"
      "items (bs_jobs st') = items (bs_jobs st)"
    using settle_exact [OF assms(3) q(2-4) sj retries terms(7) fresh terms(8) price(1,2) refl cost
        price(4,5) money] by blast
  have "find_job b (bs_jobs st) = Some j" using ch by (simp add: changed_job_def)
  then have "PipelineProcess pl env b st = (Inr terminal_result, st')"
    using settle assms(2) j by (simp add: PipelineProcess_def on_jobs_get [OF q(1)])
  moreover have "job_items b (bs_jobs st') = job_items b (bs_jobs st)" using job'(5) by (simp add: job_items_def)
  ultimately show ?thesis
    using user job' n(1) terms(4,9,10) by (intro exI [of _ st'] exI [of _ j'] exI [of _ u']) simp
qed

text \<open>C3 (pipeline_charges_or_refunds): a submitted job whose provider has succeeded needs two runs of the
  pipeline, if no statement of the tables fails in them and nobody else works on the job.  Unless the
  provider's output cannot be opened, when the job stays in indexing with
  its hold, the job is either failed by the first run, with the whole hold given back, or completed by the
  second: it is charged its price for every item that succeeded, and the rest of the hold is given back.
  The recorded cost is exact.  The balances are exact where hold and cost have the eight decimals of the
  balance columns, and else within a unit of the eighth decimal (\<open>charged\<close>, \<open>hold_returned\<close>).  The job's
  unit price has at most ten decimals, and its hold covers every item and is at most 100000.\<close>

theorem pipeline_charges_or_refunds:
  assumes "quiet_pipeline e1" "quiet_pipeline e2" and "pl_settlement pl = Some s" "configured s"
    and "awaits (pl_processor pl) b job provider account status st"
    and "ps_InternalState status = BatchProviderStateSucceeded"
    and "priced_job s b job st" "submitted_items b job st"
    and "j_APIKeyID job = Some key" "0 < key"
    and "releasable b key job u (bs_billing st)" "free_key (bs_billing st) (BatchImageCaptureRequestID b) key"
  defines "run1 \<equiv> PipelineProcess pl e1 b st" and "run2 \<equiv> PipelineProcess pl e2 b (snd (PipelineProcess pl e1 b st))"
  shows
    "fst run1 = Inl ErrBatchImageIndexOutputMissing \<and> bs_billing (snd run1) = bs_billing st
       \<and> (\<exists>j. find_job b (bs_jobs (snd run1)) = Some j \<and> j_Status j = BatchImageJobStatusIndexing)
     \<or> fst run1 = Inr terminal_result
       \<and> (\<exists>j. find_job b (bs_jobs (snd run1)) = Some j \<and> j_Status j = BatchImageJobStatusFailed)
       \<and> hold_returned job u (bs_billing (snd run1))
     \<or> fst run2 = Inr terminal_result
       \<and> (\<exists>j u'. find_job b (bs_jobs (snd run2)) = Some j \<and> j_Status j = BatchImageJobStatusCompleted
            \<and> j_SuccessCount j = int (length (filter (\<lambda>i. i_Status i = BatchImageItemStatusSuccess)
                                               (job_items b (bs_jobs (snd run2)))))
            \<and> j_ActualCost j = Some (of_int (j_SuccessCount j) * j_BillableUnitPrice job)
            \<and> users (bs_billing (snd run2)) (j_UserID job) = Some u'
            \<and> charged (job_hold_amount job) (of_int (j_SuccessCount j) * j_BillableUnitPrice job) u u')"
proof -
  have found: "find_job b (bs_jobs st) = Some job" using assms(5) by (simp add: awaits_def)
  obtain a where a: "j_AccountID job = Some a" "0 < a"
    using assms(5) by (auto simp: awaits_def processor_account_def split: option.splits if_splits)
  obtain r st1 where 1: "run1 = (r, st1)"
    and out: "r = Inl ErrBatchImageIndexOutputMissing \<and> bs_billing st1 = bs_billing st
       \<and> (\<exists>j. find_job b (bs_jobs st1) = Some j \<and> j_Status j = BatchImageJobStatusIndexing)
     \<or> r = Inr terminal_result \<and> refunded b BatchImageJobStatusFailed job u st1
     \<or> (\<exists>j. r = Inr (requeue_in millisecond_ns) \<and> indexed b job j st st1)"
    using first_run [OF assms(1,5,6,9,10,11,8)] unfolding run1_def by blast
  show ?thesis
  proof (cases "\<exists>j. indexed b job j st st1")
    case True
    then obtain j where "indexed b job j st st1" ..
    from second_run [OF assms(2,3,4) found this assms(7,8,9,10) a assms(11,12)]
    show ?thesis unfolding run2_def 1 [unfolded run1_def] snd_conv by auto
  next
    case False
    then show ?thesis using out 1 by (auto simp: refunded_def)
  qed
qed


section \<open>Witnesses\<close>

definition sample_submitted :: BatchImageJob where
  "sample_submitted = sample_job\<lparr>j_Status := ''submitted'', j_ProviderJobName := Some ''pj''\<rparr>"

definition submitted_store :: batch_store where
  "submitted_store = (sample_store sample_submitted)
     \<lparr>bs_jobs := (one_job_db sample_submitted)\<lparr>items := [sample_item 1 ''a'', sample_item 2 ''b''], next_item_id := 3\<rparr>\<rparr>"

definition sample_status :: "string \<Rightarrow> BatchProviderStatus" where
  "sample_status state =
     \<lparr>ps_RawState = ''JOB_STATE'', ps_InternalState = state, ps_ProviderOutputRef = ''gs://out'',
      ps_ErrorCode = '''', ps_ErrorMessage = '''', ps_SuggestedRequeueAfter = 0\<rparr>"

definition sample_provider :: "string \<Rightarrow> unit provider" where
  "sample_provider state =
     \<lparr>pv_supports = (\<lambda>_. True), pv_get = (\<lambda>_ _. Inr (Some (sample_status state))),
      pv_open = (\<lambda>_ _. Inr (''A'' @ [CHR 0x0D, CHR 0x0A] @ ''X'', ReadEOF))\<rparr>"

definition sample_processor :: "string \<Rightarrow> unit processor" where
  "sample_processor state =
     \<lparr>pp_configured = True, pp_provider = (\<lambda>_. Some (sample_provider state)), pp_resolve = (\<lambda>_. Inr ()),
      pp_billing = True, pp_auth_cache = True, pp_default_requeue = 0, pp_unmarshal = sample_object,
      pp_error_text = (\<lambda>_. ''error'')\<rparr>"

definition sample_penv :: process_env where
  "sample_penv =
     \<lparr>pe_get = sample_benv, pe_ref = sample_benv, pe_transition = sample_benv, pe_list = sample_benv,
      pe_event = sample_benv, pe_replace = sample_benv, pe_finish = sample_benv, pe_now = 2500,
      pe_release = sample_env\<rparr>"

lemma sample_penv_quiet: "quiet_process sample_penv"
  by (simp add: quiet_process_def sample_penv_def sample_no_faults)

lemma sample_submitted_simps [simp]:
  "j_BatchID sample_submitted = ''b1''" "j_Status sample_submitted = ''submitted''"
  "j_APIKeyID sample_submitted = Some 7" "j_AccountID sample_submitted = Some 4" "j_UserID sample_submitted = 1"
  "job_hold_amount sample_submitted = 3" "j_ProviderJobName sample_submitted = Some ''pj''"
  "j_RetryCount sample_submitted = 0" "j_ManifestHash sample_submitted = None" "j_ItemCount sample_submitted = 2"
  "j_PricingSnapshotVersion sample_submitted = 1" "j_BillableUnitPrice sample_submitted = 1"
  by (simp_all add: sample_submitted_def sample_job_def new_job_row_def sample_params_def job_hold_amount_def
      on_scale_def)

lemma submitted_store_simps [simp]:
  "bs_billing submitted_store = bs_billing (sample_store sample_submitted)"
  "find_job ''b1'' (bs_jobs submitted_store) = Some sample_submitted" "unique_db (bs_jobs submitted_store)"
  "job_items ''b1'' (bs_jobs submitted_store) = [sample_item 1 ''a'', sample_item 2 ''b'']"
  using find_job_jobs [of "bs_jobs submitted_store" "one_job_db sample_submitted"]
  by (simp_all add: submitted_store_def job_items_def sample_item_def)

lemma trim_pj: "trim_space ''pj'' = ''pj''"
  by code_simp

lemma sample_awaits:
  "awaits (sample_processor state) ''b1'' sample_submitted (sample_provider state) () (sample_status state) submitted_store"
  by (simp add: awaits_def processor_account_def sample_processor_def sample_provider_def
      batchImageDerefString_def trim_pj BatchImageJobStatusSubmitted_def)

theorem provider_end_refunds_witness:
  "\<exists>st' j u'. Process (sample_processor ''expired'') sample_penv ''b1'' submitted_store = (Inr terminal_result, st')
    \<and> find_job ''b1'' (bs_jobs st') = Some j \<and> j_Status j = BatchImageJobStatusFailed
    \<and> users (bs_billing st') 1 = Some u' \<and> u_balance u' = 10 \<and> u_frozen_balance u' = 0"
  using provider_end_refunds [OF sample_penv_quiet sample_awaits [of "''expired''"], of 7 held_user]
  by (simp add: sample_releasable sample_status_def provider_state_defs) blast

definition sample_pipeline :: "unit pipeline" where
  "sample_pipeline =
     \<lparr>pl_processor = sample_processor ''succeeded'', pl_settlement = Some sample_service, pl_retry_delay = 0\<rparr>"

definition sample_plenv :: pipeline_env where
  "sample_plenv =
     \<lparr>ple_get = sample_benv, ple_settle = sample_senv, ple_recheck = sample_benv, ple_process = sample_penv\<rparr>"

lemma on_scale_of_int [simp]: "on_scale n (of_int i)"
  unfolding on_scale_int by (metis of_int_mult of_int_numeral of_int_power)

lemma sample_plenv_quiet: "quiet_pipeline sample_plenv"
  by (simp add: quiet_pipeline_def sample_plenv_def sample_penv_quiet sample_no_faults)

lemma sample_priced: "priced_job sample_service ''b1'' sample_submitted submitted_store"
  "submitted_items ''b1'' sample_submitted submitted_store"
proof -
  have "fresh_hash h ''b1'' (bs_jobs submitted_store)" for h
    using find_job_jobs [of "bs_jobs submitted_store" "one_job_db sample_submitted"]
    by (simp add: fresh_hash_def submitted_store_def)
  then show "priced_job sample_service ''b1'' sample_submitted submitted_store"
    "submitted_items ''b1'' sample_submitted submitted_store"
    by (simp_all add: priced_job_def submitted_items_def sample_item_def on_scale_def)
qed

text \<open>The run of the theorem, and which of its cases it is: the first run has indexed the job.\<close>

lemma sample_first_run: "fst (PipelineProcess sample_pipeline sample_plenv ''b1'' submitted_store)
    = Inr (requeue_in millisecond_ns)"
  by code_simp

theorem pipeline_charges_or_refunds_witness:
  "let run2 = PipelineProcess sample_pipeline sample_plenv ''b1''
                (snd (PipelineProcess sample_pipeline sample_plenv ''b1'' submitted_store))
   in \<exists>j u'. find_job ''b1'' (bs_jobs (snd run2)) = Some j \<and> j_Status j = BatchImageJobStatusCompleted
        \<and> users (bs_billing (snd run2)) 1 = Some u'
        \<and> u_balance u' = 7 + (3 - of_int (j_SuccessCount j)) \<and> u_frozen_balance u' = 0"
  using pipeline_charges_or_refunds [where ?e1.0 = sample_plenv and ?e2.0 = sample_plenv
      and pl = sample_pipeline and s = sample_service and b = "''b1''" and job = sample_submitted
      and provider = "sample_provider ''succeeded''" and account = "()" and status = "sample_status ''succeeded''"
      and st = submitted_store and key = 7 and u = held_user, OF sample_plenv_quiet sample_plenv_quiet]
    sample_awaits [of "''succeeded''"] sample_priced sample_first_run
  by (auto simp: sample_pipeline_def sample_status_def provider_state_defs sample_releasable requeue_in_def
      terminal_result_def charged_def)


text \<open>An error of the tables, as opposed to one of the provider's output, also ends the job.\<close>

lemma index_database_error_fails_job:
  assumes "Index True (index_env_of p env provider account) job (bs_jobs st) = (Inl (BatchSqlError k), bs_jobs st)"
  shows "\<exists>opts. indexAndSettle p env job provider account st
      = end_job p env (pe_finish env) job BatchImageJobStatusFailed opts st
    \<and> t_ErrorCode opts = Some ''INDEX_PARSE_FAILED''"
proof -
  have "on_jobs (Index True (index_env_of p env provider account) job) st = (Inl (BatchSqlError k), st)"
    using assms by (simp add: on_jobs_def)
  then show ?thesis
    by (intro exI [of _ "transition_options ''indexing_failed'' (Some [(''error_code'', JStr ''INDEX_PARSE_FAILED'')])
        (Some ''INDEX_PARSE_FAILED'') (batchImageOptionalStringPtr (truncateBatchImageMessage
          (pp_error_text p (BatchSqlError k)) batchImageMaxErrorMessageLength))"])
       (simp add: indexAndSettle_def Let_def)
qed

end
