(* ===== verification/BatchImageQueue.thy ===== *)
theory BatchImageQueue
  imports GoStrings "HOL-Library.List_Lexorder"
begin

text \<open>
  The Redis queue of batch image jobs (\<open>backend/internal/repository/batch_image_queue.go\<close>):
  jobs that are ready, delayed or active, the keys that keep a job from being queued twice, and
  the job locks.

  Redis runs a script, a MULTI/EXEC block and a single command atomically; any of them may
  fail without effect, or take effect and lose its reply.  A sorted set is a map from members
  to scores; scores are milliseconds, exact in binary64 until the year 287396.  The keys of the
  data structures are taken to be distinct, as their defaults are.
\<close>

section \<open>Redis data\<close>

type_synonym zset = "(string, int) gomap"

text \<open>A key with a time to live exists up to its expiry, in milliseconds of the server's clock.\<close>

record queue_db =
  q_ready :: "string list"
  q_delayed :: zset
  q_active :: zset
  q_inflight :: "(string, int) gomap"
  q_locks :: "(string, string \<times> int) gomap"

datatype redis_cmd =
  CmdEnqueue | CmdReserve | CmdZRem | CmdRequeue | CmdAck | CmdHeartbeat | CmdMoveDue | CmdRecover
| CmdLock | CmdRelease | CmdRefresh

datatype fault = NoFault | NotRun | NoReply

datatype queue_error =
  ErrInvalidBatchImageQueuePayload | ErrBatchImageAlreadyQueued | ErrBatchImageQueueEmpty
| ErrRedis | ErrToken | ErrQueueContext

text \<open>\<open>qe_now\<close> is \<open>time.Now()\<close>, \<open>qe_clock\<close> the server's clock in milliseconds and
  \<open>qe_token\<close> the token that is drawn, if the random source works.\<close>

record queue_env =
  qe_now :: go_time
  qe_clock :: int
  qe_fault :: "redis_cmd \<Rightarrow> fault"
  qe_token :: "string option"

type_synonym 'a queue_m = "queue_db \<Rightarrow> (queue_error + 'a) \<times> queue_db"

definition redis :: "queue_env \<Rightarrow> redis_cmd \<Rightarrow> (queue_db \<Rightarrow> 'a \<times> queue_db) \<Rightarrow> 'a queue_m" where
  "redis env cmd f q =
     (case qe_fault env cmd of
        NoFault \<Rightarrow> (case f q of (r, q') \<Rightarrow> (Inr r, q'))
      | NotRun \<Rightarrow> (Inl ErrRedis, q)
      | NoReply \<Rightarrow> (Inl ErrRedis, snd (f q)))"

definition unix_milli :: "go_time \<Rightarrow> int" where
  "unix_milli t = (t - 62135596800 * second_ns) div millisecond_ns"

text \<open>\<open>ZRANGEBYSCORE key -inf max LIMIT 0 n\<close>: by score, then by member.\<close>

definition zrange :: "int \<Rightarrow> int \<Rightarrow> zset \<Rightarrow> string list" where
  "zrange most n z = take (nat n) (map fst (sort_key snd (sort_key fst (filter (\<lambda>p. snd p \<le> most) z))))"

definition key_live :: "int \<Rightarrow> int \<Rightarrow> bool" where
  "key_live clock expiry \<longleftrightarrow> clock \<le> expiry"

section \<open>Scripts\<close>

definition batchImageEnqueueScript :: "int \<Rightarrow> string \<Rightarrow> int \<Rightarrow> queue_db \<Rightarrow> int \<times> queue_db" where
  "batchImageEnqueueScript clock job ttl q =
     (if (case map_of (q_inflight q) job of None \<Rightarrow> False | Some e \<Rightarrow> key_live clock e) then (0, q)
      else (1, q\<lparr>q_inflight := AList.update job (clock + ttl) (q_inflight q), q_ready := job # q_ready q\<rparr>))"

definition batchImageReserveScript :: "int \<Rightarrow> queue_db \<Rightarrow> string option \<times> queue_db" where
  "batchImageReserveScript score q =
     (if q_ready q = [] then (None, q)
      else let job = last (q_ready q)
           in (Some job, q\<lparr>q_ready := butlast (q_ready q), q_active := AList.update job score (q_active q)\<rparr>))"

fun move_each :: "string list \<Rightarrow> zset \<times> string list \<Rightarrow> zset \<times> string list" where
  "move_each [] (z, r) = (z, r)"
| "move_each (job # jobs) (z, r) = move_each jobs (AList.delete job z, job # r)"

definition batchImageMoveDueDelayedScript :: "int \<Rightarrow> int \<Rightarrow> queue_db \<Rightarrow> int \<times> queue_db" where
  "batchImageMoveDueDelayedScript most n q =
     (let jobs = zrange most n (q_delayed q) in
      case move_each jobs (q_delayed q, q_ready q) of
        (z, r) \<Rightarrow> (int (length jobs), q\<lparr>q_delayed := z, q_ready := r\<rparr>))"

definition batchImageRecoverStaleActiveScript :: "int \<Rightarrow> int \<Rightarrow> queue_db \<Rightarrow> int \<times> queue_db" where
  "batchImageRecoverStaleActiveScript most n q =
     (let jobs = zrange most n (q_active q) in
      case move_each jobs (q_active q, q_ready q) of
        (z, r) \<Rightarrow> (int (length jobs), q\<lparr>q_active := z, q_ready := r\<rparr>))"

definition lock_holder :: "int \<Rightarrow> string \<Rightarrow> queue_db \<Rightarrow> string option" where
  "lock_holder clock job q =
     (case map_of (q_locks q) job of
        None \<Rightarrow> None | Some (token, expiry) \<Rightarrow> if key_live clock expiry then Some token else None)"

definition batchImageReleaseLockScript :: "int \<Rightarrow> string \<Rightarrow> string \<Rightarrow> queue_db \<Rightarrow> int \<times> queue_db" where
  "batchImageReleaseLockScript clock job token q =
     (if lock_holder clock job q = Some token then (1, q\<lparr>q_locks := AList.delete job (q_locks q)\<rparr>) else (0, q))"

text \<open>\<open>PEXPIRE\<close> with nothing left to live deletes the key.\<close>

definition batchImageRefreshLockScript :: "int \<Rightarrow> string \<Rightarrow> string \<Rightarrow> int \<Rightarrow> queue_db \<Rightarrow> int \<times> queue_db" where
  "batchImageRefreshLockScript clock job token ttl q =
     (if lock_holder clock job q = Some token
      then (1, q\<lparr>q_locks := (if ttl \<le> 0 then AList.delete job (q_locks q)
                            else AList.update job (token, clock + ttl) (q_locks q))\<rparr>)
      else (0, q))"

section \<open>The queue\<close>

definition IsValidBatchImageID :: "string \<Rightarrow> bool" where
  "IsValidBatchImageID batchID \<longleftrightarrow> has_prefix batchID ''imgbatch_'' \<and> length batchID > length ''imgbatch_''"

record queue_conf =
  qc_inflight_ttl :: duration
  qc_lock_ttl :: duration

text \<open>The two durations of \<open>normalizeBatchImageQueueOptions\<close>.\<close>

definition normalizeBatchImageQueueOptions :: "queue_conf \<Rightarrow> queue_conf" where
  "normalizeBatchImageQueueOptions o1 =
     \<lparr>qc_inflight_ttl = (if qc_inflight_ttl o1 \<le> 0 then 7 * 24 * hour_ns else qc_inflight_ttl o1),
      qc_lock_ttl = (if qc_lock_ttl o1 \<le> 0 then 5 * minute_ns else qc_lock_ttl o1)\<rparr>"

text \<open>\<open>SET\<close> refuses a time to live below a millisecond.\<close>

definition Enqueue :: "queue_conf \<Rightarrow> queue_env \<Rightarrow> string \<Rightarrow> unit queue_m" where
  "Enqueue conf env batchID q =
     (if \<not> IsValidBatchImageID batchID then (Inl ErrInvalidBatchImageQueuePayload, q)
      else if qc_inflight_ttl conf div millisecond_ns \<le> 0 then (Inl ErrRedis, q)
      else case redis env CmdEnqueue
                  (batchImageEnqueueScript (qe_clock env) batchID (qc_inflight_ttl conf div millisecond_ns)) q of
        (Inl e, q1) \<Rightarrow> (Inl e, q1)
      | (Inr applied, q1) \<Rightarrow> (if applied = 0 then Inl ErrBatchImageAlreadyQueued else Inr (), q1))"

definition reserveOnce :: "queue_env \<Rightarrow> string queue_m" where
  "reserveOnce env q =
     (case redis env CmdReserve (batchImageReserveScript (unix_milli (qe_now env))) q of
        (Inl e, q1) \<Rightarrow> (Inl e, q1)
      | (Inr None, q1) \<Rightarrow> (Inl ErrBatchImageQueueEmpty, q1)
      | (Inr (Some batchID), q1) \<Rightarrow>
          if IsValidBatchImageID batchID then (Inr batchID, q1)
          else (Inl ErrInvalidBatchImageQueuePayload,
                if batchID = '''' then q1
                else snd (redis env CmdZRem (\<lambda>q. ((), q\<lparr>q_active := AList.delete batchID (q_active q)\<rparr>)) q1)))"

definition RequeueAfter :: "queue_env \<Rightarrow> string \<Rightarrow> duration \<Rightarrow> unit queue_m" where
  "RequeueAfter env batchID delay q =
     (if \<not> IsValidBatchImageID batchID then (Inl ErrInvalidBatchImageQueuePayload, q)
      else redis env CmdRequeue
        (\<lambda>q. let q1 = q\<lparr>q_active := AList.delete batchID (q_active q), q_delayed := AList.delete batchID (q_delayed q)\<rparr>
             in ((), if delay \<le> 0 then q1\<lparr>q_ready := batchID # q_ready q1\<rparr>
                     else q1\<lparr>q_delayed := AList.update batchID (unix_milli (qe_now env + delay)) (q_delayed q1)\<rparr>)) q)"

definition Ack :: "queue_env \<Rightarrow> string \<Rightarrow> unit queue_m" where
  "Ack env batchID q =
     (if \<not> IsValidBatchImageID batchID then (Inl ErrInvalidBatchImageQueuePayload, q)
      else redis env CmdAck
        (\<lambda>q. ((), q\<lparr>q_active := AList.delete batchID (q_active q), q_delayed := AList.delete batchID (q_delayed q),
                    q_inflight := AList.delete batchID (q_inflight q)\<rparr>)) q)"

text \<open>\<open>ZADD XX\<close> only touches members that are there.\<close>

definition Heartbeat :: "queue_env \<Rightarrow> string \<Rightarrow> unit queue_m" where
  "Heartbeat env batchID q =
     (if \<not> IsValidBatchImageID batchID then (Inl ErrInvalidBatchImageQueuePayload, q)
      else redis env CmdHeartbeat
        (\<lambda>q. ((), if map_of (q_active q) batchID = None then q
                  else q\<lparr>q_active := AList.update batchID (unix_milli (qe_now env)) (q_active q)\<rparr>)) q)"

definition MoveDueDelayedToReady :: "queue_env \<Rightarrow> int \<Rightarrow> int queue_m" where
  "MoveDueDelayedToReady env limit =
     redis env CmdMoveDue
       (batchImageMoveDueDelayedScript (unix_milli (qe_now env)) (if limit \<le> 0 then 100 else limit))"

definition RecoverStaleActive :: "queue_env \<Rightarrow> duration \<Rightarrow> int \<Rightarrow> int queue_m" where
  "RecoverStaleActive env staleAfter limit q =
     (if staleAfter \<le> 0 then (Inl ErrInvalidBatchImageQueuePayload, q)
      else redis env CmdRecover
        (batchImageRecoverStaleActiveScript (unix_milli (qe_now env - staleAfter))
           (if limit \<le> 0 then 100 else limit)) q)"

text \<open>\<open>SET NX PX\<close>; the client library rounds a positive time to live up to a millisecond.
  The result is the token of the lock, if it was free.\<close>

definition ttl_millis :: "duration \<Rightarrow> int" where
  "ttl_millis ttl = max 1 (ttl div millisecond_ns)"

definition TryAcquireJobLock :: "queue_conf \<Rightarrow> queue_env \<Rightarrow> string \<Rightarrow> duration \<Rightarrow> string option queue_m" where
  "TryAcquireJobLock conf env batchID ttl0 q =
     (if \<not> IsValidBatchImageID batchID then (Inl ErrInvalidBatchImageQueuePayload, q)
      else let ttl = (if ttl0 \<le> 0 then qc_lock_ttl conf else ttl0) in
        case qe_token env of
          None \<Rightarrow> (Inl ErrToken, q)
        | Some token \<Rightarrow>
            redis env CmdLock
              (\<lambda>q. if lock_holder (qe_clock env) batchID q \<noteq> None then (None, q)
                   else (Some token,
                         q\<lparr>q_locks := AList.update batchID (token, qe_clock env + ttl_millis ttl) (q_locks q)\<rparr>)) q)"

definition ReleaseLock :: "queue_env \<Rightarrow> string \<Rightarrow> string \<Rightarrow> unit queue_m" where
  "ReleaseLock env batchID token q =
     (if token = '''' then (Inr (), q)
      else case redis env CmdRelease (batchImageReleaseLockScript (qe_clock env) batchID token) q of
        (Inl e, q1) \<Rightarrow> (Inl e, q1) | (Inr n, q1) \<Rightarrow> (Inr (), q1))"

definition RefreshLock :: "queue_env \<Rightarrow> string \<Rightarrow> string \<Rightarrow> duration \<Rightarrow> unit queue_m" where
  "RefreshLock env batchID token ttl0 q =
     (if token = '''' then (Inr (), q)
      else let ttl = (if ttl0 \<le> 0 then 5 * minute_ns else ttl0) in
        case redis env CmdRefresh
               (batchImageRefreshLockScript (qe_clock env) batchID token (ttl div millisecond_ns)) q of
          (Inl e, q1) \<Rightarrow> (Inl e, q1) | (Inr n, q1) \<Rightarrow> (Inr (), q1))"


section \<open>Where a job is\<close>

definition queued :: "string \<Rightarrow> queue_db \<Rightarrow> bool" where
  "queued b q \<longleftrightarrow> b \<in> set (q_ready q) \<or> b \<in> fst ` set (q_delayed q) \<or> b \<in> fst ` set (q_active q)"

text \<open>A job that has been enqueued and not acknowledged, whether or not its key has expired.\<close>

definition enrolled :: "string \<Rightarrow> queue_db \<Rightarrow> bool" where
  "enrolled b q \<longleftrightarrow> b \<in> fst ` set (q_inflight q)"

definition queue_wf :: "queue_db \<Rightarrow> bool" where
  "queue_wf q \<longleftrightarrow> gomap_wf (q_delayed q) \<and> gomap_wf (q_active q) \<and> gomap_wf (q_inflight q) \<and> gomap_wf (q_locks q)
     \<and> (\<forall>b. enrolled b q \<longrightarrow> IsValidBatchImageID b)"

text \<open>An operation keeps a job in the queue.\<close>

definition retains :: "(string \<Rightarrow> bool) \<Rightarrow> queue_db \<Rightarrow> queue_db \<Rightarrow> bool" where
  "retains P q q' \<longleftrightarrow> (\<forall>b. P b \<longrightarrow> queued b q \<longrightarrow> queued b q')"

lemma redis_cases:
  "snd (redis env cmd f q) = q \<or> snd (redis env cmd f q) = snd (f q)"
  by (simp add: redis_def split: fault.split prod.split)

lemma redis_induct:
  assumes "R q q" "R q (snd (f q))"
  shows "R q (snd (redis env cmd f q))"
  using redis_cases [of env cmd f q] assms by auto

lemma move_each_spec:
  "move_each jobs (z, r) = (z', r') \<Longrightarrow>
     set r' = set jobs \<union> set r \<and> fst ` set z' = fst ` set z - set jobs \<and> (gomap_wf z \<longrightarrow> gomap_wf z')"
proof (induction jobs arbitrary: z r)
  case (Cons job jobs)
  then have "move_each jobs (AList.delete job z, job # r) = (z', r')" by simp
  note ih = Cons.IH [OF this, unfolded keys_delete]
  have "set (job # r) = insert job (set r)" by simp
  with ih show ?case by (simp add: Diff_insert2 [symmetric] insert_Diff_if)
qed simp

lemma zrange_members: "set (zrange most n z) \<subseteq> fst ` set z"
  unfolding zrange_def by (auto dest!: in_set_takeD)

lemma move_script_queued:
  "b \<in> fst ` set z \<or> b \<in> set r \<Longrightarrow> move_each jobs (z, r) = (z', r') \<Longrightarrow> b \<in> fst ` set z' \<or> b \<in> set r'"
  using move_each_spec [of jobs z r z' r'] by auto


lemma move_due_queued:
  assumes "queued b q" shows "queued b (snd (batchImageMoveDueDelayedScript most n q))"
proof (cases "move_each (zrange most n (q_delayed q)) (q_delayed q, q_ready q)")
  case (Pair z r)
  then show ?thesis
    using assms move_script_queued [OF _ Pair, of b]
    by (auto simp: batchImageMoveDueDelayedScript_def Let_def queued_def)
qed

lemma recover_queued:
  assumes "queued b q" shows "queued b (snd (batchImageRecoverStaleActiveScript most n q))"
proof (cases "move_each (zrange most n (q_active q)) (q_active q, q_ready q)")
  case (Pair z r)
  then show ?thesis
    using assms move_script_queued [OF _ Pair, of b]
    by (auto simp: batchImageRecoverStaleActiveScript_def Let_def queued_def)
qed

lemma reserve_script_queued:
  assumes "queued b q" shows "queued b (snd (batchImageReserveScript score q))"
proof (cases "q_ready q = []")
  case False
  then have "set (q_ready q) = insert (last (q_ready q)) (set (butlast (q_ready q)))"
    by (metis Un_insert_right append_butlast_last_id list.set(1,2) set_append sup_bot.right_neutral)
  with assms False show ?thesis by (auto simp: batchImageReserveScript_def queued_def Let_def)
qed (use assms in \<open>simp add: batchImageReserveScript_def\<close>)

text \<open>Every operation keeps a valid job in the queue, except its own acknowledgement.\<close>

lemma snd_case_sum:
  "snd (case x of (Inl e, q1) \<Rightarrow> (Inl (f e), q1) | (Inr r, q1) \<Rightarrow> (g r, q1)) = snd x"
  by (cases x) (simp split: sum.split)

lemma redis_queued:
  "queued b q \<Longrightarrow> queued b (snd (f q)) \<Longrightarrow> queued b (snd (redis env cmd f q))"
  by (rule redis_induct [of "\<lambda>_ q'. queued b q'"])

lemma Enqueue_queued: "queued b q \<Longrightarrow> queued b (snd (Enqueue conf env c q))"
  unfolding Enqueue_def
  by (simp add: snd_case_sum, intro impI redis_queued) (auto simp: batchImageEnqueueScript_def queued_def)

lemma reserveOnce_queued:
  assumes "queued b q" "IsValidBatchImageID b" shows "queued b (snd (reserveOnce env q))"
proof (cases "redis env CmdReserve (batchImageReserveScript (unix_milli (qe_now env))) q")
  case (Pair r q1)
  have q1: "queued b q1"
    using redis_queued [where f = "batchImageReserveScript (unix_milli (qe_now env))" and env = env
        and cmd = CmdReserve, OF assms(1) reserve_script_queued [OF assms(1)]] Pair by simp
  have "queued b (snd (redis env CmdZRem (\<lambda>q. ((), q\<lparr>q_active := AList.delete c (q_active q)\<rparr>)) q1))"
    if "\<not> IsValidBatchImageID c" for c
    using q1 that assms(2) by (intro redis_queued) (auto simp: queued_def)
  then show ?thesis
    using Pair q1 by (auto simp: reserveOnce_def split: sum.split option.split)
qed

lemma RequeueAfter_queued: "queued b q \<Longrightarrow> queued b (snd (RequeueAfter env c delay q))"
  unfolding RequeueAfter_def Let_def
  by (simp, intro impI conjI redis_queued) (auto simp: queued_def)

lemma RequeueAfter_own: "RequeueAfter env c delay q = (Inr (), q') \<Longrightarrow> queued c q'"
  by (auto simp: RequeueAfter_def redis_def Let_def queued_def split: if_splits fault.splits)

lemma Ack_queued: "queued b q \<Longrightarrow> c \<noteq> b \<Longrightarrow> queued b (snd (Ack env c q))"
  unfolding Ack_def by (simp, intro impI redis_queued) (auto simp: queued_def)

lemma Heartbeat_queued: "queued b q \<Longrightarrow> queued b (snd (Heartbeat env c q))"
  unfolding Heartbeat_def by (simp, intro impI redis_queued) (auto simp: queued_def)

lemma MoveDue_queued: "queued b q \<Longrightarrow> queued b (snd (MoveDueDelayedToReady env n q))"
  unfolding MoveDueDelayedToReady_def by (intro redis_queued move_due_queued)

lemma Recover_queued: "queued b q \<Longrightarrow> queued b (snd (RecoverStaleActive env d n q))"
  unfolding RecoverStaleActive_def by (auto intro: redis_queued recover_queued)

lemma queued_locks [simp]: "queued b (q\<lparr>q_locks := l\<rparr>) = queued b q"
  by (simp add: queued_def)

lemma lock_ops_queued:
  assumes "queued b q"
  shows "queued b (snd (TryAcquireJobLock conf env c ttl q))" "queued b (snd (ReleaseLock env c tok q))"
    "queued b (snd (RefreshLock env c tok ttl q))"
proof -
  show "queued b (snd (TryAcquireJobLock conf env c ttl q))"
    unfolding TryAcquireJobLock_def Let_def
    using assms by (auto split: option.split intro!: redis_queued)
  show "queued b (snd (ReleaseLock env c tok q))"
    unfolding ReleaseLock_def
    using assms by (auto simp: snd_case_sum batchImageReleaseLockScript_def intro!: redis_queued)
  show "queued b (snd (RefreshLock env c tok ttl q))"
    unfolding RefreshLock_def Let_def
    using assms by (auto simp: snd_case_sum batchImageRefreshLockScript_def intro!: redis_queued)
qed

section \<open>Runs\<close>

text \<open>The operations of any number of workers, submitters and background loops, interleaved; a worker
  that crashes just stops issuing them.\<close>

datatype queue_op =
  OpEnqueue queue_env string | OpReserve queue_env | OpRequeue queue_env string duration
| OpAck queue_env string | OpHeartbeat queue_env string | OpMoveDue queue_env int
| OpRecover queue_env duration int | OpLock queue_env string duration | OpRelease queue_env string string
| OpRefresh queue_env string string duration

fun queue_step :: "queue_conf \<Rightarrow> queue_op \<Rightarrow> queue_db \<Rightarrow> queue_db" where
  "queue_step conf (OpEnqueue env b) q = snd (Enqueue conf env b q)"
| "queue_step conf (OpReserve env) q = snd (reserveOnce env q)"
| "queue_step conf (OpRequeue env b d) q = snd (RequeueAfter env b d q)"
| "queue_step conf (OpAck env b) q = snd (Ack env b q)"
| "queue_step conf (OpHeartbeat env b) q = snd (Heartbeat env b q)"
| "queue_step conf (OpMoveDue env n) q = snd (MoveDueDelayedToReady env n q)"
| "queue_step conf (OpRecover env d n) q = snd (RecoverStaleActive env d n q)"
| "queue_step conf (OpLock env b ttl) q = snd (TryAcquireJobLock conf env b ttl q)"
| "queue_step conf (OpRelease env b tok) q = snd (ReleaseLock env b tok q)"
| "queue_step conf (OpRefresh env b tok ttl) q = snd (RefreshLock env b tok ttl q)"

fun queue_run :: "queue_conf \<Rightarrow> queue_op list \<Rightarrow> queue_db \<Rightarrow> queue_db" where
  "queue_run conf [] q = q"
| "queue_run conf (op # ops) q = queue_run conf ops (queue_step conf op q)"

text \<open>
  \<open>Reserve\<close> polls until its deadline.  A poll has its environment, the time at which the remaining
  time is computed, whether the context is done while waiting, and what others do to the queue in
  the meantime; \<open>None\<close> is a call that is still polling when the list ends.
\<close>

record poll =
  po_env :: queue_env
  po_after :: go_time
  po_ctx_done :: bool
  po_others :: "queue_op list"

fun reserve_polls :: "queue_conf \<Rightarrow> go_time \<Rightarrow> poll list \<Rightarrow> queue_db \<Rightarrow> ((queue_error + string) \<times> queue_db) option" where
  "reserve_polls conf deadline [] q = None"
| "reserve_polls conf deadline (p # ps) q =
     (case reserveOnce (po_env p) q of
        (Inr batchID, q1) \<Rightarrow> Some (Inr batchID, q1)
      | (Inl e, q1) \<Rightarrow>
          if e \<noteq> ErrBatchImageQueueEmpty then Some (Inl e, q1)
          else if time_sub deadline (po_after p) \<le> 0 then Some (Inl ErrBatchImageQueueEmpty, q1)
          else if po_ctx_done p then Some (Inl ErrQueueContext, queue_run conf (po_others p) q1)
          else reserve_polls conf deadline ps (queue_run conf (po_others p) q1))"

definition Reserve ::
  "queue_conf \<Rightarrow> go_time \<Rightarrow> duration \<Rightarrow> poll list \<Rightarrow> queue_db \<Rightarrow> ((queue_error + string) \<times> queue_db) option" where
  "Reserve conf start blockTimeout polls = reserve_polls conf (start + blockTimeout) polls"

definition empty_queue :: queue_db where
  "empty_queue = \<lparr>q_ready = [], q_delayed = [], q_active = [], q_inflight = [], q_locks = []\<rparr>"

text \<open>Acknowledging a job.\<close>

fun acks :: "string \<Rightarrow> queue_op \<Rightarrow> bool" where
  "acks b (OpAck env c) = (c = b)"
| "acks b op = False"

lemma step_queued:
  "queued b q \<Longrightarrow> IsValidBatchImageID b \<Longrightarrow> \<not> acks b op \<Longrightarrow> queued b (queue_step conf op q)"
  by (cases op) (simp_all add: Enqueue_queued reserveOnce_queued RequeueAfter_queued Ack_queued Heartbeat_queued
      MoveDue_queued Recover_queued lock_ops_queued)

lemma run_queued:
  "queued b q \<Longrightarrow> IsValidBatchImageID b \<Longrightarrow> \<forall>op \<in> set ops. \<not> acks b op \<Longrightarrow> queued b (queue_run conf ops q)"
  by (induction ops arbitrary: q) (simp_all add: step_queued)

lemma Enqueue_ok: "Enqueue conf env b q = (Inr (), q1) \<Longrightarrow> IsValidBatchImageID b \<and> queued b q1"
  by (auto simp: Enqueue_def redis_def batchImageEnqueueScript_def queued_def split: if_splits fault.splits)

text \<open>A job that has been enqueued stays ready, delayed or active through any
  interleaving of operations, faults, lost replies and crashes, until it is acknowledged.\<close>

theorem queued_until_acked:
  assumes "Enqueue conf env b q = (Inr (), q1)" and "\<forall>op \<in> set ops. \<not> acks b op"
  shows "queued b (queue_run conf ops q1)"
  using run_queued [of b q1] Enqueue_ok [OF assms(1)] assms(2) by blast

text \<open>The keys that refuse a second enqueue.\<close>

lemma redis_inflight:
  "(\<And>q. q_inflight (snd (f q)) = q_inflight q) \<Longrightarrow> q_inflight (snd (redis env cmd f q)) = q_inflight q"
  by (rule redis_induct [of "\<lambda>_ q'. q_inflight q' = q_inflight q"]) simp_all

lemma script_inflight:
  "q_inflight (snd (batchImageReserveScript s q)) = q_inflight q"
  "q_inflight (snd (batchImageMoveDueDelayedScript m n q)) = q_inflight q"
  "q_inflight (snd (batchImageRecoverStaleActiveScript m n q)) = q_inflight q"
  "q_inflight (snd (batchImageReleaseLockScript c b t q)) = q_inflight q"
  "q_inflight (snd (batchImageRefreshLockScript c b t ttl q)) = q_inflight q"
  by (simp_all add: batchImageReserveScript_def batchImageMoveDueDelayedScript_def Let_def
      batchImageRecoverStaleActiveScript_def batchImageReleaseLockScript_def batchImageRefreshLockScript_def
      split: prod.split)

lemma reserveOnce_inflight: "q_inflight (snd (reserveOnce env q)) = q_inflight q"
proof (cases "redis env CmdReserve (batchImageReserveScript (unix_milli (qe_now env))) q")
  case (Pair r q1)
  then have "q_inflight q1 = q_inflight q"
    using redis_inflight [where f = "batchImageReserveScript (unix_milli (qe_now env))" and env = env
        and cmd = CmdReserve and q = q] script_inflight(1) by simp
  then show ?thesis
    using Pair redis_inflight [where f = "\<lambda>q. ((), q\<lparr>q_active := AList.delete c (q_active q)\<rparr>)" for c]
    by (auto simp: reserveOnce_def split: sum.split option.split)
qed

lemma step_inflight:
  "\<forall>env b. op \<noteq> OpEnqueue env b \<and> op \<noteq> OpAck env b \<Longrightarrow> q_inflight (queue_step conf op q) = q_inflight q"
  by (cases op)
     (auto simp: reserveOnce_inflight RequeueAfter_def Heartbeat_def MoveDueDelayedToReady_def
        RecoverStaleActive_def TryAcquireJobLock_def ReleaseLock_def RefreshLock_def Let_def snd_case_sum
        script_inflight intro!: redis_inflight split: option.split)

definition none_lost :: "queue_db \<Rightarrow> bool" where
  "none_lost q \<longleftrightarrow> (\<forall>b. enrolled b q \<longrightarrow> queued b q \<and> IsValidBatchImageID b)"

lemma step_none_lost:
  assumes "none_lost q" shows "none_lost (queue_step conf op q)"
proof -
  have enq: "none_lost (snd (Enqueue conf env b q))" for env b
  proof (cases "IsValidBatchImageID b")
    case True
    let ?script = "batchImageEnqueueScript (qe_clock env) b (qc_inflight_ttl conf div millisecond_ns)"
    have "enrolled c (snd (?script q)) \<Longrightarrow> enrolled c q \<or> c = b \<and> queued b (snd (?script q))" for c
      by (simp add: batchImageEnqueueScript_def enrolled_def queued_def split: if_splits) blast
    moreover have "snd (Enqueue conf env b q) = q \<or> snd (Enqueue conf env b q) = snd (?script q)"
      using redis_cases [of env CmdEnqueue ?script q] by (auto simp: Enqueue_def snd_case_sum)
    ultimately have "enrolled c (snd (Enqueue conf env b q))
        \<Longrightarrow> enrolled c q \<or> c = b \<and> queued b (snd (Enqueue conf env b q))" for c by metis
    then show ?thesis using assms Enqueue_queued True unfolding none_lost_def by blast
  qed (use assms in \<open>simp add: Enqueue_def\<close>)
  have ack: "none_lost (snd (Ack env b q))" for env b
  proof (cases "IsValidBatchImageID b")
    case True
    have "enrolled c (snd (Ack env b q)) \<Longrightarrow> enrolled c q \<and> (c \<noteq> b \<or> snd (Ack env b q) = q)" for c
      using redis_cases [of env CmdAck _ q] by (auto simp: Ack_def True enrolled_def redis_def split: fault.splits)
    then show ?thesis using assms Ack_queued unfolding none_lost_def by metis
  qed (use assms in \<open>simp add: Ack_def\<close>)
  show ?thesis
  proof (cases "\<exists>env b. op = OpEnqueue env b \<or> op = OpAck env b")
    case False
    then have "enrolled b (queue_step conf op q) = enrolled b q" "\<not> acks b op" for b
      using step_inflight [of op conf q] by (simp_all add: enrolled_def) (cases op, auto)
    then show ?thesis using assms step_queued unfolding none_lost_def by blast
  qed (use enq ack in auto)
qed

lemma run_none_lost: "none_lost q \<Longrightarrow> none_lost (queue_run conf ops q)"
  by (induction ops arbitrary: q) (simp_all add: step_none_lost)

text \<open>In every state that any interleaving of operations, faults, lost
  replies and crashes leads to, a job whose enqueueing is refused as a duplicate is in the queue:
  no job is kept out of the queue by a key it has left behind.\<close>

theorem refused_jobs_are_queued:
  "{b. fst (Enqueue conf env b (queue_run conf ops empty_queue)) = Inl ErrBatchImageAlreadyQueued}
     \<subseteq> {b. queued b (queue_run conf ops empty_queue)}"
proof -
  have "none_lost empty_queue" by (simp add: none_lost_def enrolled_def empty_queue_def)
  then have nl: "none_lost (queue_run conf ops empty_queue)" by (rule run_none_lost)
  have "fst (Enqueue conf env b q) = Inl ErrBatchImageAlreadyQueued \<Longrightarrow> enrolled b q" for b q
    by (auto simp: Enqueue_def redis_def batchImageEnqueueScript_def enrolled_def
        split: if_splits fault.splits option.splits dest: map_of_SomeD intro: rev_image_eqI)
  then show ?thesis using nl unfolding none_lost_def by blast
qed


section \<open>Job locks\<close>

fun op_clock :: "queue_op \<Rightarrow> int" where
  "op_clock (OpEnqueue env b) = qe_clock env"
| "op_clock (OpReserve env) = qe_clock env"
| "op_clock (OpRequeue env b d) = qe_clock env"
| "op_clock (OpAck env b) = qe_clock env"
| "op_clock (OpHeartbeat env b) = qe_clock env"
| "op_clock (OpMoveDue env n) = qe_clock env"
| "op_clock (OpRecover env d n) = qe_clock env"
| "op_clock (OpLock env b ttl) = qe_clock env"
| "op_clock (OpRelease env b tok) = qe_clock env"
| "op_clock (OpRefresh env b tok ttl) = qe_clock env"

text \<open>An operation by the holder of the token.\<close>

fun by_holder :: "string \<Rightarrow> queue_op \<Rightarrow> bool" where
  "by_holder token (OpRelease env b tok) = (tok = token)"
| "by_holder token (OpRefresh env b tok ttl) = (tok = token)"
| "by_holder token op = False"

lemma redis_locks:
  "(\<And>q. q_locks (snd (f q)) = q_locks q) \<Longrightarrow> q_locks (snd (redis env cmd f q)) = q_locks q"
  by (rule redis_induct [of "\<lambda>_ q'. q_locks q' = q_locks q"]) simp_all

lemma script_locks:
  "q_locks (snd (batchImageEnqueueScript c b ttl q)) = q_locks q"
  "q_locks (snd (batchImageReserveScript s q)) = q_locks q"
  "q_locks (snd (batchImageMoveDueDelayedScript m n q)) = q_locks q"
  "q_locks (snd (batchImageRecoverStaleActiveScript m n q)) = q_locks q"
  by (simp_all add: batchImageEnqueueScript_def batchImageReserveScript_def batchImageMoveDueDelayedScript_def
      batchImageRecoverStaleActiveScript_def Let_def split: prod.split)

lemma reserveOnce_locks: "q_locks (snd (reserveOnce env q)) = q_locks q"
proof (cases "redis env CmdReserve (batchImageReserveScript (unix_milli (qe_now env))) q")
  case (Pair r q1)
  then have "q_locks q1 = q_locks q"
    using redis_locks [where f = "batchImageReserveScript (unix_milli (qe_now env))" and env = env
        and cmd = CmdReserve and q = q] script_locks(2) by simp
  then show ?thesis
    using Pair redis_locks [where f = "\<lambda>q. ((), q\<lparr>q_active := AList.delete c (q_active q)\<rparr>)" for c]
    by (auto simp: reserveOnce_def split: sum.split option.split)
qed

lemma lock_kept:
  assumes "map_of (q_locks q) b = Some (token, e)" "op_clock op \<le> e" "\<not> by_holder token op"
  shows "map_of (q_locks (queue_step conf op q)) b = Some (token, e)"
proof -
  have live: "lock_holder (op_clock op) b q = Some token"
    using assms(1,2) by (simp add: lock_holder_def key_live_def)
  let ?R = "\<lambda>_ q'. map_of (q_locks q') b = Some (token, e)"
  have keep: "map_of (q_locks (snd (redis env cmd f q))) b = Some (token, e)"
    if "map_of (q_locks (snd (f q))) b = Some (token, e)" for env cmd f
    by (rule redis_induct [of ?R]) (use that assms(1) in simp_all)
  show ?thesis
  proof (cases op)
    case (OpLock env c ttl)
    have "map_of (q_locks (snd (redis env CmdLock (\<lambda>q. if lock_holder (qe_clock env) c q \<noteq> None then (None, q)
          else (Some tok, q\<lparr>q_locks := AList.update c (tok, t) (q_locks q)\<rparr>)) q))) b = Some (token, e)" for tok t
      using live OpLock assms(1) by (intro keep) auto
    with OpLock assms(1) show ?thesis
      by (simp add: TryAcquireJobLock_def Let_def split: option.split)
  next
    case (OpRelease env c tok)
    then show ?thesis
      using live assms(1,3)
      by (auto simp: ReleaseLock_def snd_case_sum batchImageReleaseLockScript_def intro!: keep)
  next
    case (OpRefresh env c tok ttl)
    then show ?thesis
      using live assms(1,3)
      by (auto simp: RefreshLock_def Let_def snd_case_sum batchImageRefreshLockScript_def intro!: keep)
  qed (use assms(1) in \<open>simp_all add: Enqueue_def snd_case_sum script_locks redis_locks reserveOnce_locks
      RequeueAfter_def Ack_def Heartbeat_def MoveDueDelayedToReady_def RecoverStaleActive_def Let_def\<close>)
qed

lemma run_lock_kept:
  "map_of (q_locks q) b = Some (token, e) \<Longrightarrow> \<forall>op \<in> set ops. op_clock op \<le> e \<and> \<not> by_holder token op \<Longrightarrow>
     map_of (q_locks (queue_run conf ops q)) b = Some (token, e)"
  by (induction ops arbitrary: q) (simp_all add: lock_kept)

text \<open>From the moment a worker gets a job's lock until the lock expires, no one
  else gets it, whatever the others do, also with locks of their own that have expired, unless
  the holder gives it up.\<close>

theorem job_lock_exclusive:
  assumes "TryAcquireJobLock conf env b ttl q = (Inr (Some token), q1)"
    and "\<forall>op \<in> set ops. op_clock op \<le> qe_clock env + ttl_millis (if ttl \<le> 0 then qc_lock_ttl conf else ttl)
           \<and> \<not> by_holder token op"
    and "qe_clock env2 \<le> qe_clock env + ttl_millis (if ttl \<le> 0 then qc_lock_ttl conf else ttl)"
  shows "fst (TryAcquireJobLock conf env2 b ttl2 (queue_run conf ops q1)) \<noteq> Inr (Some token2)
    \<and> lock_holder (qe_clock env2) b (queue_run conf ops q1) = Some token"
proof -
  let ?e = "qe_clock env + ttl_millis (if ttl \<le> 0 then qc_lock_ttl conf else ttl)"
  have "map_of (q_locks q1) b = Some (token, ?e)"
    using assms(1) by (auto simp: TryAcquireJobLock_def redis_def Let_def
        split: if_splits option.splits fault.splits)
  then have "map_of (q_locks (queue_run conf ops q1)) b = Some (token, ?e)"
    using assms(2) by (rule run_lock_kept)
  then have "lock_holder (qe_clock env2) b (queue_run conf ops q1) = Some token"
    using assms(3) by (simp add: lock_holder_def key_live_def)
  then show ?thesis
    by (auto simp: TryAcquireJobLock_def redis_def Let_def split: if_splits option.splits fault.splits)
qed

section \<open>Jobs that come back\<close>

lemma move_each_eq:
  "move_each jobs (z, r) = (filter (\<lambda>p. fst p \<notin> set jobs) z, rev jobs @ r)"
  by (induction jobs arbitrary: z r) (auto simp: AList.delete_eq intro!: filter_cong)

lemma zrange_all:
  "length (filter (\<lambda>p. snd p \<le> most) z) \<le> nat n \<Longrightarrow>
     set (zrange most n z) = {b. \<exists>t. (b, t) \<in> set z \<and> t \<le> most}"
  by (simp add: zrange_def) force

lemma zrange_keep:
  assumes "gomap_wf z" "length (filter (\<lambda>p. snd p \<le> most) z) \<le> nat n"
  shows "filter (\<lambda>p. fst p \<notin> set (zrange most n z)) z = filter (\<lambda>p. \<not> snd p \<le> most) z"
proof (rule filter_cong [OF refl])
  fix p assume p: "p \<in> set z"
  obtain b t where bt: "p = (b, t)" by (cases p)
  have "(\<exists>t'. (b, t') \<in> set z \<and> t' \<le> most) \<longleftrightarrow> t \<le> most"
    using assms(1) p eq_key_imp_eq_value [of z b t] unfolding bt gomap_wf_def by metis
  then show "fst p \<notin> set (zrange most n z) \<longleftrightarrow> \<not> snd p \<le> most"
    by (simp add: zrange_all [OF assms(2)] bt)
qed

text \<open>When at most \<open>limit\<close> active jobs have had no heartbeat since
  \<open>staleAfter\<close> ago, one recovery makes every one of them ready again and leaves exactly the
  other active jobs as they were.\<close>

theorem stale_jobs_return:
  assumes "gomap_wf (q_active q)" "0 < staleAfter" "0 < limit" "qe_fault env CmdRecover = NoFault"
    and "length (filter (\<lambda>p. snd p \<le> unix_milli (qe_now env - staleAfter)) (q_active q)) \<le> nat limit"
  shows "\<exists>n q'. RecoverStaleActive env staleAfter limit q = (Inr n, q')
    \<and> set (q_ready q') = {b. \<exists>t. (b, t) \<in> set (q_active q) \<and> t \<le> unix_milli (qe_now env - staleAfter)}
                           \<union> set (q_ready q)
    \<and> q_active q' = filter (\<lambda>p. \<not> snd p \<le> unix_milli (qe_now env - staleAfter)) (q_active q)
    \<and> q_delayed q' = q_delayed q \<and> q_inflight q' = q_inflight q"
  using assms zrange_all [OF assms(5)] zrange_keep [OF assms(1,5)]
  by (auto simp: RecoverStaleActive_def redis_def batchImageRecoverStaleActiveScript_def Let_def move_each_eq)


section \<open>Refinement of a pool of jobs\<close>

text \<open>
  What the queue promises, without lists, scores and time: a set of jobs.  A job enters when it is enqueued
  or put back and leaves when it is acknowledged; an identifier that is not valid is thrown out when
  it is taken; every other call, and a call that fails, leaves the set as it is.
\<close>

inductive pool_step :: "queue_op \<Rightarrow> string set \<Rightarrow> string set \<Rightarrow> bool" where
  pool_stutter: "pool_step op S S"
| pool_enter: "IsValidBatchImageID b \<Longrightarrow> pool_step (OpEnqueue env b) S (insert b S)"
| pool_return: "IsValidBatchImageID b \<Longrightarrow> pool_step (OpRequeue env b delay) S (insert b S)"
| pool_leave: "pool_step (OpAck env b) S (S - {b})"
| pool_discard: "\<not> IsValidBatchImageID b \<Longrightarrow> pool_step (OpReserve env) S (S - {b})"

inductive_simps pool_ack_iff: "pool_step (OpAck env b) S S'"

definition pool :: "queue_db \<Rightarrow> string set" where
  "pool q = set (q_ready q) \<union> fst ` set (q_delayed q) \<union> fst ` set (q_active q)"

lemma pool_queued: "b \<in> pool q \<longleftrightarrow> queued b q"
  by (auto simp: pool_def queued_def)

lemma pool_locks [simp]: "pool (q\<lparr>q_locks := l\<rparr>) = pool q"
  by (simp add: pool_def)

lemma redis_pool:
  assumes "pool_step op (pool q) (pool (snd (f q)))"
  shows "pool_step op (pool q) (pool (snd (redis env cmd f q)))"
  by (rule redis_induct [of "\<lambda>q q'. pool_step op (pool q) (pool q')"]) (rule pool_stutter, rule assms)

lemma move_pool:
  assumes "move_each (zrange most n z) (z, r) = (z', r')"
  shows "fst ` set z' \<union> set r' = fst ` set z \<union> set r"
  using move_each_spec [OF assms] zrange_members [of most n z] by auto

lemma script_pool:
  "pool (snd (batchImageMoveDueDelayedScript most n q)) = pool q"
  "pool (snd (batchImageRecoverStaleActiveScript most n q)) = pool q"
proof -
  show "pool (snd (batchImageMoveDueDelayedScript most n q)) = pool q"
    using move_pool [of most n "q_delayed q" "q_ready q"]
    by (cases "move_each (zrange most n (q_delayed q)) (q_delayed q, q_ready q)")
       (auto simp: batchImageMoveDueDelayedScript_def Let_def pool_def)
  show "pool (snd (batchImageRecoverStaleActiveScript most n q)) = pool q"
    using move_pool [of most n "q_active q" "q_ready q"]
    by (cases "move_each (zrange most n (q_active q)) (q_active q, q_ready q)")
       (auto simp: batchImageRecoverStaleActiveScript_def Let_def pool_def)
qed

lemma reserve_script_pool: "pool (snd (batchImageReserveScript score q)) = pool q"
proof (cases "q_ready q = []")
  case False
  then have "set (q_ready q) = insert (last (q_ready q)) (set (butlast (q_ready q)))"
    by (metis Un_insert_right append_butlast_last_id list.set(1,2) set_append sup_bot.right_neutral)
  with False show ?thesis by (auto simp: batchImageReserveScript_def pool_def Let_def)
qed (simp add: batchImageReserveScript_def)

lemma reserveOnce_pool: "pool_step (OpReserve env') (pool q) (pool (snd (reserveOnce env q)))"
proof (cases "redis env CmdReserve (batchImageReserveScript (unix_milli (qe_now env))) q")
  case (Pair r q1)
  have q1: "pool q1 = pool q"
    using redis_cases [of env CmdReserve "batchImageReserveScript (unix_milli (qe_now env))" q] Pair
      reserve_script_pool by (metis snd_conv)
  have drop: "pool_step (OpReserve env') (pool q1)
      (pool (snd (redis env CmdZRem (\<lambda>q. ((), q\<lparr>q_active := AList.delete b (q_active q)\<rparr>)) q1)))"
    if "\<not> IsValidBatchImageID b" for b
  proof (rule redis_pool)
    have "pool (q1\<lparr>q_active := AList.delete b (q_active q1)\<rparr>) = pool q1
        \<or> pool (q1\<lparr>q_active := AList.delete b (q_active q1)\<rparr>) = pool q1 - {b}"
      by (auto simp: pool_def)
    then show "pool_step (OpReserve env') (pool q1)
        (pool (snd ((), q1\<lparr>q_active := AList.delete b (q_active q1)\<rparr>)))"
      using pool_stutter pool_discard [OF that] by (metis snd_conv)
  qed
  then show ?thesis
    using Pair pool_stutter [of "OpReserve env'" "pool q"] unfolding q1
    by (auto simp: reserveOnce_def q1 split: sum.split option.split)
qed

text \<open>C26 (queue_refines_pool): the Redis queue implements the pool: every operation, with any fault, takes the
  set of jobs that are ready, delayed or active along a step of the pool.\<close>

theorem queue_refines_pool:
  "pool_step op (pool q) (pool (queue_step conf op q))"
proof (cases op)
  case (OpEnqueue env b)
  show ?thesis
  proof (cases "IsValidBatchImageID b")
    case True
    have "pool_step op (pool q) (pool (snd (batchImageEnqueueScript clk b ttl q)))" for clk ttl
      unfolding OpEnqueue batchImageEnqueueScript_def
      using pool_enter [OF True, of env "pool q"] by (simp add: pool_stutter) (simp add: pool_def)
    then show ?thesis
      using OpEnqueue pool_stutter by (simp add: Enqueue_def snd_case_sum redis_pool)
  qed (simp add: OpEnqueue Enqueue_def pool_stutter)
next
  case (OpRequeue env b delay)
  show ?thesis
  proof (cases "IsValidBatchImageID b")
    case True
    define f where "f = (\<lambda>q :: queue_db. let q1 = q\<lparr>q_active := AList.delete b (q_active q), q_delayed := AList.delete b (q_delayed q)\<rparr>
             in ((), if delay \<le> 0 then q1\<lparr>q_ready := b # q_ready q1\<rparr>
                     else q1\<lparr>q_delayed := AList.update b (unix_milli (qe_now env + delay)) (q_delayed q1)\<rparr>))"
    have "pool (snd (f q)) = insert b (pool q)" by (auto simp: f_def Let_def pool_def)
    then have "pool_step op (pool q) (pool (snd (redis env CmdRequeue f q)))"
      using pool_return [OF True, of env delay "pool q"] by (intro redis_pool) (simp add: OpRequeue)
    moreover have "RequeueAfter env b delay q = redis env CmdRequeue f q"
      by (simp only: RequeueAfter_def True simp_thms if_False f_def)
    ultimately show ?thesis by (simp add: OpRequeue)
  qed (simp add: OpRequeue RequeueAfter_def pool_stutter)
next
  case (OpAck env b)
  have "pool (q\<lparr>q_active := AList.delete b (q_active q), q_delayed := AList.delete b (q_delayed q),
           q_inflight := AList.delete b (q_inflight q)\<rparr>) \<in> {pool q, pool q - {b}}"
    by (auto simp: pool_def)
  then show ?thesis
    unfolding OpAck queue_step.simps Ack_def
    using pool_stutter pool_leave by (auto intro!: redis_pool)
next
  case (OpHeartbeat env b)
  have "pool (if map_of (q_active q) b = None then q
      else q\<lparr>q_active := AList.update b t (q_active q)\<rparr>) = pool q" for t
    by (auto simp: pool_def map_of_eq_None_keys)
  then show ?thesis
    unfolding OpHeartbeat queue_step.simps Heartbeat_def using pool_stutter by (auto intro!: redis_pool)
next
  case (OpReserve env)
  then show ?thesis by (simp add: reserveOnce_pool)
qed (auto simp: MoveDueDelayedToReady_def RecoverStaleActive_def TryAcquireJobLock_def ReleaseLock_def RefreshLock_def
    Let_def snd_case_sum script_pool batchImageReleaseLockScript_def batchImageRefreshLockScript_def pool_stutter
    intro!: redis_pool split: option.split)

section \<open>The queue as its clients see it\<close>

text \<open>
  The operations a worker calls; \<open>away\<close> is the set of jobs that others acknowledge during the
  call of \<open>Reserve\<close>.
\<close>

record 'q queue_ops =
  qo_reserve :: "duration \<Rightarrow> 'q \<Rightarrow> ((queue_error + string) \<times> 'q) option"
  qo_lock :: "string \<Rightarrow> duration \<Rightarrow> 'q \<Rightarrow> (queue_error + string option) \<times> 'q"
  qo_release :: "string \<Rightarrow> string \<Rightarrow> 'q \<Rightarrow> (queue_error + unit) \<times> 'q"
  qo_requeue :: "string \<Rightarrow> duration \<Rightarrow> 'q \<Rightarrow> (queue_error + unit) \<times> 'q"
  qo_ack :: "string \<Rightarrow> 'q \<Rightarrow> (queue_error + unit) \<times> 'q"

locale job_queue =
  fixes Q :: "'q queue_ops" and holds :: "string \<Rightarrow> 'q \<Rightarrow> bool" and valid :: "string \<Rightarrow> bool"
    and away :: "string set"
  assumes reserve_valid: "qo_reserve Q d q = Some (Inr b, q') \<Longrightarrow> valid b"
    and reserve_holds: "qo_reserve Q d q = Some (r, q') \<Longrightarrow> valid c \<Longrightarrow> c \<notin> away \<Longrightarrow> holds c q \<Longrightarrow> holds c q'"
    and lock_holds: "holds c q \<Longrightarrow> holds c (snd (qo_lock Q b ttl q))"
    and release_holds: "holds c q \<Longrightarrow> holds c (snd (qo_release Q b token q))"
    and requeue_holds: "holds c q \<Longrightarrow> holds c (snd (qo_requeue Q b delay q))"
    and ack_holds: "holds c q \<Longrightarrow> b \<noteq> c \<Longrightarrow> holds c (snd (qo_ack Q b q))"

text \<open>The Redis queue, with the environments of the calls.\<close>

record redis_calls =
  re_start :: go_time
  re_polls :: "poll list"
  re_lock :: queue_env
  re_release :: queue_env
  re_requeue :: queue_env
  re_ack :: queue_env

definition redis_queue :: "queue_conf \<Rightarrow> redis_calls \<Rightarrow> queue_db queue_ops" where
  "redis_queue conf c =
     \<lparr>qo_reserve = (\<lambda>d. Reserve conf (re_start c) d (re_polls c)),
      qo_lock = TryAcquireJobLock conf (re_lock c),
      qo_release = ReleaseLock (re_release c), qo_requeue = RequeueAfter (re_requeue c),
      qo_ack = Ack (re_ack c)\<rparr>"

definition acked_meanwhile :: "redis_calls \<Rightarrow> string set" where
  "acked_meanwhile c = {b. \<exists>p \<in> set (re_polls c). \<exists>op \<in> set (po_others p). acks b op}"

lemma reserveOnce_valid: "reserveOnce env q = (Inr b, q') \<Longrightarrow> IsValidBatchImageID b"
  by (auto simp: reserveOnce_def split: prod.splits sum.splits option.splits if_splits)

lemma reserve_polls_valid: "reserve_polls conf d ps q = Some (Inr b, q') \<Longrightarrow> IsValidBatchImageID b"
  by (induction ps arbitrary: q) (auto dest: reserveOnce_valid split: prod.splits sum.splits if_splits)

lemma reserve_polls_queued:
  "reserve_polls conf d ps q = Some (r, q') \<Longrightarrow> IsValidBatchImageID c \<Longrightarrow>
     \<forall>p \<in> set ps. \<forall>op \<in> set (po_others p). \<not> acks c op \<Longrightarrow> queued c q \<Longrightarrow> queued c q'"
proof (induction ps arbitrary: q)
  case (Cons p ps)
  obtain r1 q1 where once: "reserveOnce (po_env p) q = (r1, q1)" by (cases "reserveOnce (po_env p) q")
  then have "queued c q1" using reserveOnce_queued [of c q "po_env p"] Cons.prems(2,4) by simp
  moreover have "queued c (queue_run conf (po_others p) q1)"
    using run_queued [OF \<open>queued c q1\<close> Cons.prems(2)] Cons.prems(3) by simp
  ultimately show ?case
    using Cons.prems Cons.IH [of "queue_run conf (po_others p) q1"] once
    by (auto split: sum.splits if_splits)
qed simp

interpretation redis: job_queue "redis_queue conf c" queued IsValidBatchImageID "acked_meanwhile c" for conf c
proof unfold_locales
  show "IsValidBatchImageID b" if "qo_reserve (redis_queue conf c) d q = Some (Inr b, q')" for d q b q'
    using that by (simp add: redis_queue_def Reserve_def reserve_polls_valid)
  show "queued b q'" if "qo_reserve (redis_queue conf c) d q = Some (r, q')" "IsValidBatchImageID b"
      "b \<notin> acked_meanwhile c" "queued b q" for d q r q' b
    using reserve_polls_queued [of conf _ "re_polls c" q r q' b] that
    by (simp add: redis_queue_def Reserve_def acked_meanwhile_def)
qed (simp_all add: redis_queue_def lock_ops_queued RequeueAfter_queued Ack_queued)

section \<open>Witnesses\<close>

definition sample_qenv :: "int \<Rightarrow> string \<Rightarrow> queue_env" where
  "sample_qenv ms token =
     \<lparr>qe_now = 62135596800 * second_ns + ms * millisecond_ns, qe_clock = ms, qe_fault = (\<lambda>_. NoFault),
      qe_token = Some token\<rparr>"

definition sample_conf :: queue_conf where
  "sample_conf = normalizeBatchImageQueueOptions \<lparr>qc_inflight_ttl = 0, qc_lock_ttl = 0\<rparr>"

definition sample_id :: string where "sample_id = ''imgbatch_1''"

theorem queued_until_acked_witness:
  "queued sample_id (queue_run sample_conf
     [OpReserve (sample_qenv 1000 ''t''), OpRecover (sample_qenv 9000 ''t'') second_ns 0]
     (snd (Enqueue sample_conf (sample_qenv 0 ''t'') sample_id empty_queue)))"
proof -
  have "fst (Enqueue sample_conf (sample_qenv 0 ''t'') sample_id empty_queue) = Inr ()" by code_simp
  then have "Enqueue sample_conf (sample_qenv 0 ''t'') sample_id empty_queue
      = (Inr (), snd (Enqueue sample_conf (sample_qenv 0 ''t'') sample_id empty_queue))"
    by (simp add: prod_eq_iff)
  from queued_until_acked [OF this, of "[OpReserve (sample_qenv 1000 ''t''), OpRecover (sample_qenv 9000 ''t'') second_ns 0]"]
  show ?thesis by simp
qed

theorem job_lock_exclusive_witness:
  "fst (TryAcquireJobLock sample_conf (sample_qenv 2000 ''u'') sample_id 0
     (queue_run sample_conf [OpRelease (sample_qenv 1000 ''u'') sample_id ''u'']
       (snd (TryAcquireJobLock sample_conf (sample_qenv 0 ''t'') sample_id 0 empty_queue)))) \<noteq> Inr (Some ''u'')"
proof -
  have "fst (TryAcquireJobLock sample_conf (sample_qenv 0 ''t'') sample_id 0 empty_queue) = Inr (Some ''t'')"
    by code_simp
  then have "TryAcquireJobLock sample_conf (sample_qenv 0 ''t'') sample_id 0 empty_queue
      = (Inr (Some ''t''), snd (TryAcquireJobLock sample_conf (sample_qenv 0 ''t'') sample_id 0 empty_queue))"
    by (simp add: prod_eq_iff)
  from job_lock_exclusive [OF this, of "[OpRelease (sample_qenv 1000 ''u'') sample_id ''u'']" "sample_qenv 2000 ''u''" 0 "''u''"]
  show ?thesis
    by (simp add: sample_qenv_def sample_conf_def normalizeBatchImageQueueOptions_def ttl_millis_def go_simps)
qed

theorem stale_jobs_return_witness:
  "\<exists>n q'. RecoverStaleActive (sample_qenv 9000 ''t'') second_ns 5
      (empty_queue\<lparr>q_active := [(sample_id, 1000), (''imgbatch_2'', 8500)]\<rparr>) = (Inr n, q')
    \<and> set (q_ready q') = {sample_id} \<and> q_active q' = [(''imgbatch_2'', 8500)]"
  using stale_jobs_return [of "empty_queue\<lparr>q_active := [(sample_id, 1000), (''imgbatch_2'', 8500)]\<rparr>"
      second_ns 5 "sample_qenv 9000 ''t''"]
  by (auto simp: sample_qenv_def empty_queue_def gomap_wf_def sample_id_def unix_milli_def go_simps)

end
