(* ===== verification/BatchImageWorker.thy ===== *)
theory BatchImageWorker
  imports BatchImageProcessor BatchImageQueue
begin

text \<open>
  The worker (\<open>backend/internal/service/batch_image_worker.go\<close>): take a job from the queue, lock it,
  process it, and acknowledge it or put it back; and the front door of the queue
  (\<open>backend/internal/service/batch_image_queue.go\<close>).
\<close>

section \<open>Options\<close>

record BatchImageWorkerOptions =
  wo_ReserveBlockTimeout :: duration
  wo_JobLockTTL :: duration
  wo_LockConflictDelay :: duration
  wo_DefaultRequeueDelay :: duration
  wo_ErrorRetryDelay :: duration
  wo_ErrorBackoff :: duration
  wo_DelayedPollInterval :: duration
  wo_RecoveryInterval :: duration
  wo_StaleActiveAfter :: duration
  wo_DelayedMoveLimit :: int
  wo_RecoverLimit :: int

definition or_default :: "int \<Rightarrow> int \<Rightarrow> int" where
  "or_default x d = (if x \<le> 0 then d else x)"

definition normalizeBatchImageWorkerOptions :: "BatchImageWorkerOptions \<Rightarrow> BatchImageWorkerOptions" where
  "normalizeBatchImageWorkerOptions opts =
     \<lparr>wo_ReserveBlockTimeout = or_default (wo_ReserveBlockTimeout opts) (5 * second_ns),
      wo_JobLockTTL = or_default (wo_JobLockTTL opts) (5 * minute_ns),
      wo_LockConflictDelay = or_default (wo_LockConflictDelay opts) (5 * second_ns),
      wo_DefaultRequeueDelay = or_default (wo_DefaultRequeueDelay opts) (30 * second_ns),
      wo_ErrorRetryDelay = or_default (wo_ErrorRetryDelay opts) minute_ns,
      wo_ErrorBackoff = or_default (wo_ErrorBackoff opts) second_ns,
      wo_DelayedPollInterval = or_default (wo_DelayedPollInterval opts) (5 * second_ns),
      wo_RecoveryInterval = or_default (wo_RecoveryInterval opts) (5 * minute_ns),
      wo_StaleActiveAfter = or_default (wo_StaleActiveAfter opts) (10 * minute_ns),
      wo_DelayedMoveLimit = or_default (wo_DelayedMoveLimit opts) 100,
      wo_RecoverLimit = or_default (wo_RecoverLimit opts) 100\<rparr>"

text \<open>The division of a duration truncates; these durations are positive.\<close>

definition heartbeatInterval :: "BatchImageWorkerOptions \<Rightarrow> duration" where
  "heartbeatInterval opts =
     (let i0 = (if wo_StaleActiveAfter opts < wo_JobLockTTL opts then wo_StaleActiveAfter opts
                else wo_JobLockTTL opts);
          i1 = i0 div 3
      in if i1 < second_ns then second_ns else i1)"

section \<open>One round of the worker\<close>

text \<open>
  The state is a queue and whatever the processor works on.  The processor acts on both: while
  it runs, heartbeats and other workers go on using the queue.  A result of \<open>None\<close> is a worker
  that is still waiting for a job; the error of the round is the first component.
\<close>

type_synonym ('q, 's) worker_processor =
  "string \<Rightarrow> 'q \<times> 's \<Rightarrow> (batch_error + BatchImageProcessResult) \<times> 'q \<times> 's"

definition requeue_round :: "'q queue_ops \<Rightarrow> string \<Rightarrow> duration \<Rightarrow> 'q \<Rightarrow> queue_error option \<times> 'q" where
  "requeue_round Q batchID delay q =
     (case qo_requeue Q batchID delay q of (Inl e, q1) \<Rightarrow> (Some e, q1) | (Inr u, q1) \<Rightarrow> (None, q1))"

text \<open>What follows the processing: acknowledge, or put back.\<close>

definition conclude ::
  "BatchImageWorkerOptions \<Rightarrow> 'q queue_ops \<Rightarrow> string \<Rightarrow> batch_error + BatchImageProcessResult \<Rightarrow> 'q
     \<Rightarrow> queue_error option \<times> 'q" where
  "conclude opts Q batchID result q =
     (case result of
        Inl e \<Rightarrow> requeue_round Q batchID (wo_ErrorRetryDelay opts) q
      | Inr r \<Rightarrow>
          if q_Terminal r
          then (case qo_ack Q batchID q of (Inl e, q1) \<Rightarrow> (Some e, q1) | (Inr u, q1) \<Rightarrow> (None, q1))
          else requeue_round Q batchID (or_default (q_RequeueAfter r) (wo_DefaultRequeueDelay opts)) q)"

definition process_locked ::
  "BatchImageWorkerOptions \<Rightarrow> 'q queue_ops \<Rightarrow> ('q, 's) worker_processor \<Rightarrow> string \<Rightarrow> string \<Rightarrow> 'q \<times> 's
     \<Rightarrow> queue_error option \<times> 'q \<times> 's" where
  "process_locked opts Q process batchID token st =
     (case process batchID st of
        (result, q1, s1) \<Rightarrow>
          (case conclude opts Q batchID result q1 of
             (e, q2) \<Rightarrow> (e, snd (qo_release Q batchID token q2), s1)))"

definition RunOnce ::
  "BatchImageWorkerOptions \<Rightarrow> 'q queue_ops \<Rightarrow> ('q, 's) worker_processor \<Rightarrow> 'q \<times> 's
     \<Rightarrow> (queue_error option \<times> 'q \<times> 's) option" where
  "RunOnce opts Q process st =
     (case qo_reserve Q (wo_ReserveBlockTimeout opts) (fst st) of
        None \<Rightarrow> None
      | Some (Inl e, q1) \<Rightarrow> Some (if e = ErrBatchImageQueueEmpty then None else Some e, q1, snd st)
      | Some (Inr batchID, q1) \<Rightarrow>
          Some (case qo_lock Q batchID (wo_JobLockTTL opts) q1 of
            (Inl e, q2) \<Rightarrow>
              (case requeue_round Q batchID (wo_LockConflictDelay opts) q2 of
                 (Some e', q3) \<Rightarrow> (Some e', q3, snd st) | (None, q3) \<Rightarrow> (Some e, q3, snd st))
          | (Inr None, q2) \<Rightarrow>
              (case requeue_round Q batchID (wo_LockConflictDelay opts) q2 of (e, q3) \<Rightarrow> (e, q3, snd st))
          | (Inr (Some token), q2) \<Rightarrow> process_locked opts Q process batchID token (q2, snd st)))"

text \<open>The background loops call these.\<close>

definition MoveDueDelayedOnce :: "BatchImageWorkerOptions \<Rightarrow> queue_env \<Rightarrow> int queue_m" where
  "MoveDueDelayedOnce opts env = MoveDueDelayedToReady env (wo_DelayedMoveLimit opts)"

definition RecoverStaleActiveOnce :: "BatchImageWorkerOptions \<Rightarrow> queue_env \<Rightarrow> int queue_m" where
  "RecoverStaleActiveOnce opts env = RecoverStaleActive env (wo_StaleActiveAfter opts) (wo_RecoverLimit opts)"

text \<open>A tick of the heartbeat while a job is processed.\<close>

definition heartbeat_tick :: "BatchImageWorkerOptions \<Rightarrow> queue_env \<Rightarrow> string \<Rightarrow> string \<Rightarrow> queue_db \<Rightarrow> queue_db" where
  "heartbeat_tick opts env batchID token q =
     snd (RefreshLock env batchID token (wo_JobLockTTL opts) (snd (Heartbeat env batchID q)))"

section \<open>The front door\<close>

definition EnqueueBatchImageJob ::
  "bool \<Rightarrow> bool \<Rightarrow> queue_conf \<Rightarrow> batch_env \<Rightarrow> queue_env \<Rightarrow> string \<Rightarrow> batch_db \<times> queue_db
     \<Rightarrow> ((batch_error + queue_error) + unit) \<times> batch_db \<times> queue_db" where
  "EnqueueBatchImageJob repo queue conf benv env batchID st =
     (if \<not> IsValidBatchImageID batchID then (Inl (Inr ErrInvalidBatchImageQueuePayload), st)
      else if \<not> queue then (Inl (Inl ErrNotConfigured), st)
      else case (if repo then GetBatchImageJobByBatchID benv batchID (fst st) else (Inl ErrNoRows, fst st)) of
        (r, db) \<Rightarrow>
          (case (repo, r) of
             (True, Inl e) \<Rightarrow> (Inl (Inl e), db, snd st)
           | _ \<Rightarrow>
               (case Enqueue conf env batchID (snd st) of
                  (Inl e, q) \<Rightarrow> (Inl (Inr e), db, q) | (Inr u, q) \<Rightarrow> (Inr (), db, q))))"

section \<open>What a worker may drop\<close>

context job_queue
begin

lemma requeue_round_holds: "holds c q \<Longrightarrow> holds c (snd (requeue_round Q b delay q))"
  using requeue_holds [of c q b delay]
  by (simp add: requeue_round_def split: prod.split sum.split) (metis snd_conv)

lemma conclude_holds:
  "holds c q \<Longrightarrow> (b = c \<Longrightarrow> \<forall>r. result = Inr r \<longrightarrow> \<not> q_Terminal r) \<Longrightarrow> holds c (snd (conclude opts Q b result q))"
  using requeue_round_holds [of c q b] ack_holds [of c q b]
  by (auto simp: conclude_def split: sum.split prod.split) (metis snd_conv)+

text \<open>A job in the queue stays there unless it is the one processed, and processing it has ended.\<close>

lemma round_holds:
  assumes "RunOnce opts Q process st = Some (e, q', s')" "valid c" "c \<notin> away" "holds c (fst st)"
    and proc: "\<And>b st. holds c (fst st) \<Longrightarrow> holds c (fst (snd (process b st)))"
  shows "holds c q' \<or> (\<exists>q r. fst (process c (q, snd st)) = Inr r \<and> q_Terminal r
    \<and> snd (snd (process c (q, snd st))) = s')"
proof (cases "qo_reserve Q (wo_ReserveBlockTimeout opts) (fst st)")
  case (Some res)
  obtain r q1 where res: "res = (r, q1)" by (cases res)
  have h1: "holds c q1" using reserve_holds Some res assms(2-4) by blast
  show ?thesis
  proof (cases r)
    case (Inl err)
    then show ?thesis using assms(1) Some res h1 by (auto simp: RunOnce_def)
  next
    case (Inr b)
    obtain l q2 where lock: "qo_lock Q b (wo_JobLockTTL opts) q1 = (l, q2)"
      by (cases "qo_lock Q b (wo_JobLockTTL opts) q1")
    have h2: "holds c q2" using lock_holds [OF h1, of b "wo_JobLockTTL opts"] lock by simp
    note requeued = requeue_round_holds [OF h2, of b "wo_LockConflictDelay opts"]
    show ?thesis
    proof (cases "\<exists>token. l = Inr (Some token)")
      case False
      then have "q' = snd (requeue_round Q b (wo_LockConflictDelay opts) q2)"
        using assms(1) Some res Inr lock
        by (auto simp: RunOnce_def split: sum.splits option.splits prod.splits)
      then show ?thesis using requeued by simp
    next
      case True
      then obtain token where l: "l = Inr (Some token)" ..
      obtain result q3 s3 where p: "process b (q2, snd st) = (result, q3, s3)" by (cases "process b (q2, snd st)")
      have h3: "holds c q3" using proc [of "(q2, snd st)" b] h2 p by simp
      have out: "q' = snd (qo_release Q b token (snd (conclude opts Q b result q3)))" "s' = s3"
        using assms(1) Some res Inr lock l p
        by (auto simp: RunOnce_def process_locked_def split: prod.splits)
      show ?thesis
      proof (cases "b = c \<and> (\<exists>r. result = Inr r \<and> q_Terminal r)")
        case True
        then obtain r where "b = c" "result = Inr r" "q_Terminal r" by blast
        then show ?thesis using p out(2) by (intro disjI2 exI [of _ q2] exI [of _ r]) simp
      next
        case False
        then have "holds c (snd (conclude opts Q b result q3))" by (intro conclude_holds [OF h3]) auto
        then show ?thesis unfolding out(1) using release_holds by blast
      qed
    qed
  qed
qed (use assms(1) in \<open>simp add: RunOnce_def\<close>)

end


section \<open>A terminal result means a terminal job\<close>

definition job_over :: "string \<Rightarrow> batch_store \<Rightarrow> bool" where
  "job_over b st \<longleftrightarrow> (\<exists>j. find_job b (bs_jobs st) = Some j \<and> IsTerminalBatchImageJobStatus (j_Status j))"

lemma tx_Inr: "bm_tx env m db = (Inr x, db') \<Longrightarrow> m db = (Inr x, db')"
  by (auto simp: bm_tx_def split: if_splits prod.splits sum.splits)

lemma find_map_row:
  assumes "\<And>j. j_BatchID (f j) = j_BatchID j"
  shows "find (\<lambda>j. j_BatchID j = b) (map (\<lambda>j. if j_BatchID j = b then f j else j) js)
    = map_option f (find (\<lambda>j. j_BatchID j = b) js)"
  by (induction js) (simp_all add: assms)

lemma event_Inr: "appendBatchImageEventWithSQL env b ty p db = (Inr u, db') \<Longrightarrow> jobs db' = jobs db"
  using append_event_tables(1) [of env b ty p db] by simp

lemma transition_done:
  assumes "TransitionBatchImageJobStatus env b to opts db = (Inr (), db')"
  shows "\<exists>j. find_job b db' = Some j \<and> j_Status j = to"
proof -
  have "transitionBatchImageJobStatusWithSQL env b to opts db = (Inr (), db')"
    using assms unfolding TransitionBatchImageJobStatus_def by (rule tx_Inr)
  then obtain cur db0 now n db1 where lock: "lock_status env b db = (Inr cur, db0)"
    and up: "update_jobs env (\<lambda>j. j_BatchID j = b) (transition_row now to opts) db0 = (Inr n, db1)"
    and ev: "jobs db' = jobs db1"
    unfolding transitionBatchImageJobStatusWithSQL_def
    using event_Inr by (auto elim!: bm_bind_cases simp: Let_def bm_simps split: if_splits)
  have cur: "db0 = db" "find_job b db = Some cur" using lock_status_cases [OF lock] by auto
  have "jobs db1 = map (\<lambda>j. if j_BatchID j = b then transition_row now to opts j else j) (jobs db)"
    using update_jobs_cases [OF up] cur(1) by auto
  then have "find_job b db' = Some (transition_row now to opts cur)"
    using find_map_row [of "transition_row now to opts" b "jobs db"] cur(2) ev by (simp add: find_job_def)
  then show ?thesis by simp
qed

lemma on_jobs_Inr: "on_jobs m st = (Inr x, st') \<Longrightarrow> \<exists>db. m (bs_jobs st) = (Inr x, db) \<and> st' = st\<lparr>bs_jobs := db\<rparr>"
  by (auto simp: on_jobs_def split: prod.splits)

lemma finish_terminal_jobs: "finish_terminal p env job st = (Inr r, st') \<Longrightarrow> bs_jobs st' = bs_jobs st"
  by (auto simp: finish_terminal_def releaseTerminalHold_def split: prod.splits option.splits if_splits)

lemma end_job_over:
  assumes "end_job p env tenv job status opts st = (Inr r, st')" "j_BatchID job = b"
    and "status = BatchImageJobStatusFailed \<or> status = BatchImageJobStatusCancelled"
  shows "job_over b st'"
proof -
  obtain st1 where t: "on_jobs (TransitionBatchImageJobStatus tenv b status opts) st = (Inr (), st1)"
    and f: "finish_terminal p env (job\<lparr>j_Status := status\<rparr>) st1 = (Inr r, st')"
    using assms(1,2) by (auto simp: end_job_def split: prod.splits sum.splits)
  obtain db where db: "TransitionBatchImageJobStatus tenv b status opts (bs_jobs st) = (Inr (), db)"
      "st1 = st\<lparr>bs_jobs := db\<rparr>" using on_jobs_Inr [OF t] by blast
  then obtain j where "find_job b (bs_jobs st1) = Some j" "j_Status j = status"
    using transition_done by fastforce
  then show ?thesis
    using assms(3) finish_terminal_jobs [OF f] by (auto simp: job_over_def IsTerminalBatchImageJobStatus_def)
qed

lemma requeue_not_terminal [simp]: "\<not> q_Terminal (requeue_in d)"
  by (simp add: requeue_in_def)

lemma end_job_over_dest:
  "end_job p env tenv job BatchImageJobStatusFailed opts st = (Inr r, st') \<Longrightarrow> job_over (j_BatchID job) st'"
  "end_job p env tenv job BatchImageJobStatusCancelled opts st = (Inr r, st') \<Longrightarrow> job_over (j_BatchID job) st'"
  by (simp_all add: end_job_over)

lemma indexAndSettle_over:
  assumes "indexAndSettle p env job provider account st = (Inr r, st')" "q_Terminal r"
  shows "job_over (j_BatchID job) st'"
proof (cases "on_jobs (Index True (index_env_of p env provider account) job) st")
  case (Pair x st1)
  show ?thesis
  proof (cases x)
    case (Inl e)
    then show ?thesis
      using assms Pair by (auto simp: indexAndSettle_def Let_def split: if_splits dest!: end_job_over_dest)
  next
    case (Inr y)
    then show ?thesis
      using assms Pair by (auto simp: indexAndSettle_def split: prod.splits sum.splits)
  qed
qed

lemma follow_status_over:
  assumes "follow_status p env job provider account status st = (Inr r, st')" "q_Terminal r"
  shows "job_over (j_BatchID job) st'"
proof -
  let ?s = "ps_InternalState status"
  consider (run) "?s = BatchProviderStateRunning" | (succ) "?s = BatchProviderStateSucceeded"
    | (fail) "?s = BatchProviderStateFailed \<or> ?s = BatchProviderStateExpired"
    | (cancel) "?s = BatchProviderStateCancelled"
    | (other) "?s \<noteq> BatchProviderStateRunning" "?s \<noteq> BatchProviderStateSucceeded"
        "?s \<noteq> BatchProviderStateFailed" "?s \<noteq> BatchProviderStateExpired" "?s \<noteq> BatchProviderStateCancelled"
    by blast
  then show ?thesis
  proof cases
    case run
    then show ?thesis using assms
      by (auto simp: follow_status_def Let_def provider_state_defs split: prod.splits sum.splits if_splits)
  next
    case succ
    then obtain st1 where "indexAndSettle p env job provider account st1 = (Inr r, st')
        \<or> indexAndSettle p env (job\<lparr>j_Status := BatchImageJobStatusIndexing\<rparr>) provider account st1 = (Inr r, st')"
      using assms(1)
      by (auto simp: follow_status_def Let_def provider_state_defs split: prod.splits sum.splits if_splits)
    then show ?thesis using indexAndSettle_over [OF _ assms(2)] by fastforce
  next
    case fail
    then show ?thesis using assms
      by (auto simp: follow_status_def Let_def provider_state_defs dest!: end_job_over_dest)
  next
    case cancel
    then show ?thesis using assms
      by (auto simp: follow_status_def Let_def provider_state_defs dest!: end_job_over_dest)
  qed (use assms in \<open>auto simp: follow_status_def Let_def split: if_splits\<close>)
qed

lemma persist_job: "persistProviderOutputRef env job ref st = (Inr job1, st1) \<Longrightarrow> j_BatchID job1 = j_BatchID job"
  by (auto simp: persistProviderOutputRef_def Let_def split: if_splits prod.splits sum.splits)

lemma get_Inr:
  "on_jobs (GetBatchImageJobByBatchID env b) st = (Inr job, st1) \<Longrightarrow> st1 = st \<and> find_job b (bs_jobs st) = Some job"
  by (auto simp: on_jobs_def GetBatchImageJobByBatchID_def get_job_def select_job_def bm_translate_def bm_stmt_def
      bm_simps find_job_def split: prod.splits sum.splits option.splits if_splits)

lemma process_job_over:
  assumes "process_job p env job st = (Inr r, st')" "q_Terminal r" "find_job b (bs_jobs st) = Some job"
    and "j_Status job \<noteq> BatchImageJobStatusSettling"
  shows "job_over b st'"
proof (cases "isBatchImageProcessorDoneStatus (j_Status job)")
  case True
  then have "finish_terminal p env job st = (Inr r, st')" using assms(1) by (simp add: process_job_def)
  then show ?thesis
    using True assms(3,4) unfolding job_over_def finish_terminal_jobs [OF \<open>finish_terminal p env job st = _\<close>]
    by (simp add: isBatchImageProcessorDoneStatus_def)
next
  case False
  have b: "j_BatchID job = b" using find_job_mem [OF assms(3)] by simp
  obtain provider account where pa: "processor_account p job = Inr (provider, account)"
    using assms(1) False by (auto simp: process_job_def split: sum.splits)
  show ?thesis
  proof (cases "j_Status job = BatchImageJobStatusIndexing")
    case True
    then show ?thesis
      using assms(1,2) False pa b indexAndSettle_over by (fastforce simp: process_job_def)
  next
    case ni: False
    obtain status job1 st1 where "persistProviderOutputRef env job (ps_ProviderOutputRef status) st = (Inr job1, st1)"
        "follow_status p env job1 provider account status st1 = (Inr r, st')"
      using assms(1,2) False ni pa
      by (auto simp: process_job_def split: sum.splits option.splits prod.splits)
    then show ?thesis using follow_status_over assms(2) persist_job b by metis
  qed
qed

lemma mark_settled_done:
  assumes "MarkBatchImageJobSettled env p db = (Inr (), db')" "unique_db db"
  shows "\<exists>j. find_job (m_BatchID p) db' = Some j \<and> j_Status j = BatchImageJobStatusCompleted"
proof -
  let ?P = "\<lambda>j. j_BatchID j = m_BatchID p \<and> j_Status j = ''settling''
              \<and> j_ManifestHash j \<in> {None, Some '''', Some (m_ManifestHash p)}"
  define now where "now = (case m_Now p of None \<Rightarrow> b_now env | Some t \<Rightarrow> t)"
  have "markBatchImageJobSettledWithSQL env p db = (Inr (), db')"
    using assms(1) unfolding MarkBatchImageJobSettled_def by (rule tx_Inr)
  then obtain n db1 where up: "update_jobs env ?P (settle_row now p) db = (Inr n, db1)" and "n \<noteq> 0"
    and ev: "jobs db' = jobs db1"
    unfolding markBatchImageJobSettledWithSQL_def Let_def now_def [symmetric]
    using event_Inr
    by (auto elim!: bm_bind_cases bm_stmt_cases simp: bm_simps split: if_splits)
  have up': "jobs db1 = map (\<lambda>j. if ?P j then settle_row now p j else j) (jobs db)" "unique_db db1"
      "n = length (filter ?P (jobs db))"
    using update_jobs_cases [OF up] by (auto simp: unique_db_def)
  then obtain j where j: "j \<in> set (jobs db)" "?P j"
    using \<open>n \<noteq> 0\<close> by (auto simp: filter_empty_conv)
  then have "settle_row now p j \<in> set (jobs db1)" unfolding up'(1) by force
  then have "find_job (j_BatchID (settle_row now p j)) db1 = Some (settle_row now p j)"
    using find_job_unique up'(2) by blast
  then show ?thesis using j(2) ev by (simp add: settle_row_def find_job_def status_defs)
qed

lemma bookkeeping_jobs [simp]:
  "bs_jobs (recordUsageLog s job cost rid t st) = bs_jobs st" "bs_jobs (invalidateAuthCache s u st) = bs_jobs st"
  by (auto simp: recordUsageLog_def invalidateAuthCache_def split: option.split)

lemma settle_charge_marks:
  assumes "settle_charge s env job mh cost st = (Inr r, st')"
  shows "\<exists>p. MarkBatchImageJobSettled (se_mark env) p (bs_jobs st) = (Inr (), bs_jobs st')
    \<and> m_BatchID p = j_BatchID job"
proof (cases "captureBatchImageBalanceHold (sv_billing s) (se_capture env) job cost mh (bs_billing st)")
  case (Pair e bdb)
  with assms have "e = None" by (auto simp: settle_charge_def split: option.splits prod.splits)
  let ?st1 = "invalidateAuthCache s (j_UserID job) (st\<lparr>bs_billing := bdb\<rparr>)"
  obtain p st2 where "on_jobs (MarkBatchImageJobSettled (se_mark env) p) ?st1 = (Inr (), st2)"
      "m_BatchID p = j_BatchID job" "bs_jobs st' = bs_jobs st2"
    using assms Pair \<open>e = None\<close> unfolding settle_charge_def Let_def
    by (auto split: prod.splits sum.splits)
  then show ?thesis using on_jobs_Inr by fastforce
qed

lemma Settle_over:
  assumes "Settle s env b st = (Inr r, st')" "unique_db (bs_jobs st)"
  shows "job_over b st'"
proof -
  obtain job st1 where get: "on_jobs (GetBatchImageJobByBatchID (se_get env) b) st = (Inr job, st1)"
    using assms(1) by (auto simp: Settle_def split: if_splits prod.splits sum.splits)
  then have job: "st1 = st" "find_job b (bs_jobs st) = Some job" "j_BatchID job = b"
    using get_Inr [OF get] find_job_mem by blast+
  show ?thesis
  proof (cases "j_Status job = BatchImageJobStatusCompleted")
    case True
    then have "st' = st" using assms(1) get job(1) by (auto simp: Settle_def Let_def split: if_splits)
    then show ?thesis using job(2) True by (auto simp: job_over_def IsTerminalBatchImageJobStatus_def)
  next
    case False
    let ?mh = "BuildBatchImageSettlementManifestHash (sv_sha256 s) (Some job)"
    have "settle_job s env job ?mh st = (Inr r, st')"
      using assms(1) get job(1) False
      by (simp add: Settle_def Let_def split: if_splits prod.splits)
    then obtain cost where "settle_charge s env job ?mh cost st = (Inr r, st')"
      by (auto simp: settle_job_def Let_def split: if_splits sum.splits prod.splits)
    then obtain p where "MarkBatchImageJobSettled (se_mark env) p (bs_jobs st) = (Inr (), bs_jobs st')"
        "m_BatchID p = b"
      using settle_charge_marks job(3) by blast
    then show ?thesis
      using mark_settled_done assms(2) by (fastforce simp: job_over_def IsTerminalBatchImageJobStatus_def)
  qed
qed

lemma pipeline_over:
  assumes "PipelineProcess pl env b st = (Inr r, st')" "q_Terminal r" "unique_db (bs_jobs st)"
    and "pl_settlement pl \<noteq> None"
  shows "job_over b st'"
proof -
  obtain job st1 where get: "on_jobs (GetBatchImageJobByBatchID (ple_get env) b) st = (Inr job, st1)"
    using assms(1) by (auto simp: PipelineProcess_def split: prod.splits sum.splits)
  then have job: "st1 = st" "find_job b (bs_jobs st) = Some job" using get_Inr by blast+
  show ?thesis
  proof (cases "j_Status job = BatchImageJobStatusSettling")
    case True
    obtain s where s: "pl_settlement pl = Some s" using assms(4) by blast
    obtain x st2 where settle: "Settle s (ple_settle env) b st = (x, st2)" by (cases "Settle s (ple_settle env) b st")
    show ?thesis
    proof (cases x)
      case (Inl e)
      then have "pipeline_retry pl env b st2 = (Inr r, st')"
        using assms(1) get job True s settle by (auto simp: PipelineProcess_def split: if_splits)
      then obtain u where "on_jobs (GetBatchImageJobByBatchID (ple_recheck env) b) st2 = (Inr u, st')"
          "IsTerminalBatchImageJobStatus (j_Status u)"
        using assms(2) by (auto simp: pipeline_retry_def split: prod.splits sum.splits if_splits)
      then show ?thesis using get_Inr unfolding job_over_def by blast
    next
      case (Inr y)
      then have "st' = st2" using assms(1) get job True s settle by (simp add: PipelineProcess_def)
      then show ?thesis using Settle_over [OF _ assms(3)] settle Inr by blast
    qed
  next
    case False
    then have p: "Process (pl_processor pl) (ple_process env) b st = (Inr r, st')"
      using assms(1) get job by (simp add: PipelineProcess_def)
    then obtain job' st3 where get': "on_jobs (GetBatchImageJobByBatchID (pe_get (ple_process env)) b) st = (Inr job', st3)"
      by (auto simp: Process_def split: if_splits prod.splits sum.splits)
    then have "job' = job" "st3 = st" using get_Inr [OF get'] job(2) by simp_all
    then have "process_job (pl_processor pl) (ple_process env) job st = (Inr r, st')"
      using p get' by (auto simp: Process_def split: if_splits)
    then show ?thesis using process_job_over assms(2) job(2) False by blast
  qed
qed


section \<open>The worker on the Redis queue\<close>

text \<open>
  The processor of a worker: the pipeline on the job tables, while \<open>others\<close> are the operations
  on the queue by the heartbeat and by other workers in the meantime.
\<close>

definition worker_process ::
  "queue_conf \<Rightarrow> 'acct pipeline \<Rightarrow> pipeline_env \<Rightarrow> queue_op list \<Rightarrow> (queue_db, batch_store) worker_processor" where
  "worker_process conf pl env others batchID st =
     (case PipelineProcess pl env batchID (snd st) of (r, s) \<Rightarrow> (r, queue_run conf others (fst st), s))"

text \<open>C25 (worker_drops_only_finished): a round of the worker, whatever fails in Redis, in the database, in
  the billing or at the provider, leaves every job that was in the queue in it, unless another
  worker has acknowledged it meanwhile or its row has a terminal status by now.\<close>

theorem worker_drops_only_finished:
  assumes "RunOnce opts (redis_queue conf calls) (worker_process conf pl env others) (q, st) = Some (e, q', st')"
    and "queued b q" "IsValidBatchImageID b" and "\<forall>op \<in> set others. \<not> acks b op" "b \<notin> acked_meanwhile calls"
    and "unique_db (bs_jobs st)" and "pl_settlement pl \<noteq> None"
  shows "queued b q'
    \<or> (\<exists>j. find_job b (bs_jobs st') = Some j \<and> IsTerminalBatchImageJobStatus (j_Status j))"
proof -
  have keep: "queued b (fst (snd (worker_process conf pl env others c x)))" if "queued b (fst x)" for c x
    using run_queued [OF that assms(3,4)] by (simp add: worker_process_def split: prod.split)
  from redis.round_holds [OF assms(1,3,5) _ keep]
  have "queued b q' \<or> (\<exists>q r. fst (worker_process conf pl env others b (q, st)) = Inr r \<and> q_Terminal r
      \<and> snd (snd (worker_process conf pl env others b (q, st))) = st')"
    using assms(2) by simp
  then show ?thesis
  proof
    assume "\<exists>q r. fst (worker_process conf pl env others b (q, st)) = Inr r \<and> q_Terminal r
      \<and> snd (snd (worker_process conf pl env others b (q, st))) = st'"
    then obtain r where "PipelineProcess pl env b st = (Inr r, st')" "q_Terminal r"
      by (cases "PipelineProcess pl env b st") (auto simp: worker_process_def)
    then show ?thesis using pipeline_over [OF _ _ assms(6,7)] unfolding job_over_def by blast
  qed blast
qed

text \<open>With the normalised options, a job that is processed and its lock are
  refreshed at least three times before either could be taken for stale, unless one of the
  two limits has been configured below three seconds.\<close>

theorem heartbeats_outpace_expiry:
  assumes "opts = normalizeBatchImageWorkerOptions opts0"
    and "3 * second_ns \<le> wo_JobLockTTL opts" "3 * second_ns \<le> wo_StaleActiveAfter opts"
  shows "second_ns \<le> heartbeatInterval opts \<and> 3 * heartbeatInterval opts \<le> wo_JobLockTTL opts
    \<and> 3 * heartbeatInterval opts \<le> wo_StaleActiveAfter opts"
  using assms(2,3) by (auto simp: heartbeatInterval_def Let_def second_ns_def)

section \<open>Witnesses\<close>

definition sample_calls :: redis_calls where
  "sample_calls =
     \<lparr>re_start = 0,
      re_polls = [\<lparr>po_env = sample_qenv 1000 ''t'', po_after = 0, po_ctx_done = False, po_others = []\<rparr>],
      re_lock = sample_qenv 1000 ''t'', re_release = sample_qenv 3000 ''t'',
      re_requeue = sample_qenv 3000 ''t'', re_ack = sample_qenv 3000 ''t''\<rparr>"

definition sample_opts :: BatchImageWorkerOptions where
  "sample_opts = normalizeBatchImageWorkerOptions
     \<lparr>wo_ReserveBlockTimeout = 0, wo_JobLockTTL = 0, wo_LockConflictDelay = 0, wo_DefaultRequeueDelay = 0,
      wo_ErrorRetryDelay = 0, wo_ErrorBackoff = 0, wo_DelayedPollInterval = 0, wo_RecoveryInterval = 0,
      wo_StaleActiveAfter = 0, wo_DelayedMoveLimit = 0, wo_RecoverLimit = 0\<rparr>"

theorem heartbeats_outpace_expiry_witness:
  "3 * heartbeatInterval sample_opts \<le> wo_JobLockTTL sample_opts"
  using heartbeats_outpace_expiry [OF sample_opts_def]
  by (simp add: sample_opts_def normalizeBatchImageWorkerOptions_def or_default_def go_simps)

text \<open>The job is not in the tables: the round puts it back, to be tried again.\<close>

definition sample_queue :: queue_db where
  "sample_queue = snd (Enqueue sample_conf (sample_qenv 0 ''t'') sample_id empty_queue)"

lemma sample_round: "RunOnce sample_opts (redis_queue sample_conf sample_calls)
     (worker_process sample_conf sample_pipeline sample_plenv [OpHeartbeat (sample_qenv 2000 ''t'') sample_id])
     (sample_queue, submitted_store) \<noteq> None"
  by code_simp

theorem worker_drops_only_finished_witness:
  "\<exists>e q' st'. RunOnce sample_opts (redis_queue sample_conf sample_calls)
       (worker_process sample_conf sample_pipeline sample_plenv [OpHeartbeat (sample_qenv 2000 ''t'') sample_id])
       (sample_queue, submitted_store) = Some (e, q', st')
     \<and> (queued sample_id q' \<or> (\<exists>j. find_job sample_id (bs_jobs st') = Some j
          \<and> IsTerminalBatchImageJobStatus (j_Status j)))"
proof -
  obtain e q' st' where run: "RunOnce sample_opts (redis_queue sample_conf sample_calls)
      (worker_process sample_conf sample_pipeline sample_plenv [OpHeartbeat (sample_qenv 2000 ''t'') sample_id])
      (sample_queue, submitted_store) = Some (e, q', st')"
    using sample_round by (metis not_None_eq prod.collapse)
  have "IsValidBatchImageID sample_id" by code_simp
  moreover have "sample_id \<in> set (q_ready sample_queue)" by code_simp
  then have "queued sample_id sample_queue" by (simp add: queued_def)
  ultimately show ?thesis
    using run worker_drops_only_finished [OF run, of sample_id]
    by (simp add: acked_meanwhile_def sample_calls_def sample_pipeline_def)
qed

end
