(* ===== verification/BatchImageRequest.thy ===== *)
theory BatchImageRequest
  imports BatchImageSettlement "HOL-Library.List_Lexorder"
begin

text \<open>
  The request that submits a batch of images (\<open>backend/internal/service/batch_image_public.go\<close>):
  its data, how it is checked and normalised, and the request hash.

  The checks run in one loop over the items, which keeps running totals and the identifiers seen so
  far; the theory shows that the loop accepts exactly the requests that satisfy a condition on the
  request as a whole, and what an accepted request looks like.  Strings are bytes; \<open>json.Marshal\<close>
  and SHA-256 are parameters.
\<close>

section \<open>Requests and configuration\<close>

record BatchImageReferenceInput =
  rf_ID :: string
  rf_Type :: string
  rf_MimeType :: string
  rf_Data :: string
  rf_FileURI :: string

record BatchImageSubmitItem =
  si_CustomID :: string
  si_Prompt :: string
  si_OutputCount :: int
  si_ReferenceImages :: "BatchImageReferenceInput list"

record BatchImageSubmitRequest =
  sr_Model :: string
  sr_TaskName :: string
  sr_ParentBatchID :: string
  sr_Provider :: string
  sr_Items :: "BatchImageSubmitItem list"
  sr_ResponseMimeType :: string
  sr_AspectRatio :: string
  sr_ImageSize :: string
  sr_Metadata :: "(string, string) gomap"
  sr_SessionID :: "string option"

record batch_image_config =
  cf_Enabled :: bool
  cf_MaxItemsPerJobDefault :: int
  cf_MaxOutputImagesPerJob :: int
  cf_MaxOutputImagesPerItem :: int
  cf_MaxPromptCharsPerItem :: int
  cf_MaxReferenceImagesPerJob :: int
  cf_MaxReferenceInlineBytesPerJob :: int
  cf_DefaultResponseMimeType :: string
  cf_DefaultImageSize :: string
  cf_StaleActiveAfterSeconds :: int

text \<open>A configured limit that is set and positive, or the default.\<close>

definition config_limit :: "(batch_image_config \<Rightarrow> int) \<Rightarrow> int \<Rightarrow> batch_image_config option \<Rightarrow> int" where
  "config_limit get fallback conf =
     (case conf of None \<Rightarrow> fallback | Some c \<Rightarrow> if get c > 0 then get c else fallback)"

definition maxItems :: "batch_image_config option \<Rightarrow> int" where
  "maxItems = config_limit cf_MaxItemsPerJobDefault 200"

definition maxOutputImagesPerJob :: "batch_image_config option \<Rightarrow> int" where
  "maxOutputImagesPerJob = config_limit cf_MaxOutputImagesPerJob 200"

definition maxOutputImagesPerItem :: "batch_image_config option \<Rightarrow> int" where
  "maxOutputImagesPerItem = config_limit cf_MaxOutputImagesPerItem 4"

definition maxPromptChars :: "batch_image_config option \<Rightarrow> int" where
  "maxPromptChars = config_limit cf_MaxPromptCharsPerItem 8000"

definition maxReferenceImagesPerJob :: "batch_image_config option \<Rightarrow> int" where
  "maxReferenceImagesPerJob = config_limit cf_MaxReferenceImagesPerJob 1000"

definition maxReferenceInlineBytesPerJob :: "batch_image_config option \<Rightarrow> int" where
  "maxReferenceInlineBytesPerJob = config_limit cf_MaxReferenceInlineBytesPerJob (128 * 1024 * 1024)"

definition maxBatchImageReferenceImageBytes :: int where
  "maxBatchImageReferenceImageBytes = 10 * 1024 * 1024"

definition config_text :: "(batch_image_config \<Rightarrow> string) \<Rightarrow> string \<Rightarrow> batch_image_config option \<Rightarrow> string" where
  "config_text get fallback conf =
     (case conf of None \<Rightarrow> fallback | Some c \<Rightarrow> if trim_space (get c) \<noteq> '''' then trim_space (get c) else fallback)"

definition defaultResponseMimeType :: "batch_image_config option \<Rightarrow> string" where
  "defaultResponseMimeType = config_text cf_DefaultResponseMimeType ''image/png''"

definition defaultImageSize :: "batch_image_config option \<Rightarrow> string" where
  "defaultImageSize = config_text cf_DefaultImageSize ''1K''"

section \<open>Reference images\<close>

text \<open>
  \<open>strings.ToLower\<close> for a comparison with ASCII text.  Apart from the ASCII letters two code points
  have an ASCII letter for their lower case, the Kelvin sign U+212A and the dotted capital I U+0130;
  the bytes of other characters are left as they are.
\<close>

fun lower_ascii :: "string \<Rightarrow> string" where
  "lower_ascii [] = []"
| "lower_ascii (c # cs) =
     (case cs of
        d # ds \<Rightarrow>
          if c = CHR 0xC4 \<and> d = CHR 0xB0 then CHR ''i'' # lower_ascii ds
          else (case ds of
                  e # es \<Rightarrow>
                    if c = CHR 0xE2 \<and> d = CHR 0x84 \<and> e = CHR 0xAA then CHR ''k'' # lower_ascii es
                    else to_lower_byte c # lower_ascii cs
                | [] \<Rightarrow> to_lower_byte c # lower_ascii cs)
      | [] \<Rightarrow> to_lower_byte c # lower_ascii cs)"

definition normalizeBatchImageReferenceMimeType :: "string \<Rightarrow> string" where
  "normalizeBatchImageReferenceMimeType v =
     (let m = lower_ascii (trim_space v) in
      if m = ''image/jpeg'' \<or> m = ''image/jpg'' then ''image/jpeg''
      else if m = ''image/png'' then ''image/png''
      else if m = ''image/webp'' then ''image/webp'' else '''')"

definition maxBatchImageReferenceImagesForModel :: "string \<Rightarrow> int" where
  "maxBatchImageReferenceImagesForModel model =
     (let m = lower_ascii (trim_space model) in
      if contains m ''pro-image'' then 14 else if contains m ''flash-image'' then 3 else 0)"

definition clean_ref :: "BatchImageReferenceInput \<Rightarrow> BatchImageReferenceInput" where
  "clean_ref r =
     r\<lparr>rf_ID := truncateBatchImageMessage (trim_space (rf_ID r)) 80,
       rf_Type := truncateBatchImageMessage (trim_space (rf_Type r)) 40,
       rf_MimeType := normalizeBatchImageReferenceMimeType (rf_MimeType r),
       rf_FileURI := trim_space (rf_FileURI r)\<rparr>"

fun check_refs :: "BatchImageReferenceInput list \<Rightarrow> batch_error + (BatchImageReferenceInput list \<times> int)" where
  "check_refs [] = Inr ([], 0)"
| "check_refs (r # rs) =
     (let ref = clean_ref r in
      if rf_MimeType ref = '''' then Inl ErrBatchImageInvalidReferenceImage
      else if rf_Data ref = '''' \<and> rf_FileURI ref = '''' then Inl ErrBatchImageInvalidReferenceImage
      else if rf_Data ref \<noteq> '''' \<and> rf_FileURI ref \<noteq> '''' then Inl ErrBatchImageInvalidReferenceImage
      else if int (length (rf_Data ref)) > maxBatchImageReferenceImageBytes
      then Inl ErrBatchImageInvalidReferenceImage
      else if rf_FileURI ref \<noteq> '''' \<and> \<not> has_prefix (rf_FileURI ref) ''gs://''
      then Inl ErrBatchImageInvalidReferenceImage
      else case check_refs rs of
        Inl e \<Rightarrow> Inl e | Inr (out, n) \<Rightarrow> Inr (ref # out, int (length (rf_Data ref)) + n))"

text \<open>The item with its references cleaned, how many they are, and the bytes they carry.\<close>

definition normalizeBatchImageReferenceInputs ::
  "string \<Rightarrow> BatchImageSubmitItem \<Rightarrow> batch_error + (BatchImageSubmitItem \<times> int \<times> int)" where
  "normalizeBatchImageReferenceInputs model item =
     (if si_ReferenceImages item = [] then Inr (item, 0, 0)
      else let maxRefs = maxBatchImageReferenceImagesForModel model in
        if maxRefs \<le> 0 \<or> int (length (si_ReferenceImages item)) > maxRefs
        then Inl ErrBatchImageTooManyReferenceImages
        else case check_refs (si_ReferenceImages item) of
          Inl e \<Rightarrow> Inl e
        | Inr (out, n) \<Rightarrow> Inr (item\<lparr>si_ReferenceImages := out\<rparr>, int (length out), n))"

section \<open>Metadata and hash\<close>

text \<open>The keys in sorted order; a nil map and an empty one are one value.\<close>

fun sanitize_keys :: "(string, string) gomap \<Rightarrow> string list \<Rightarrow> (string, string) gomap \<Rightarrow> (string, string) gomap" where
  "sanitize_keys m [] out = out"
| "sanitize_keys m (k # ks) out =
     (let key = trim_space k in
      if key = '''' \<or> length key > 64 then sanitize_keys m ks out
      else let out1 = AList.update key (take 256 (trim_space (the (map_of m k)))) out
           in if length out1 \<ge> 20 then out1 else sanitize_keys m ks out1)"

definition sanitizeBatchImageMetadata :: "(string, string) gomap \<Rightarrow> (string, string) gomap" where
  "sanitizeBatchImageMetadata m = sanitize_keys m (sort (map fst m)) []"

definition HashBatchImageSubmitRequest ::
  "(BatchImageSubmitRequest \<Rightarrow> string) \<Rightarrow> (string \<Rightarrow> string) \<Rightarrow> BatchImageSubmitRequest \<Rightarrow> string" where
  "HashBatchImageSubmitRequest marshal sha req =
     sha (marshal (req\<lparr>sr_Metadata := sanitizeBatchImageMetadata (sr_Metadata req)\<rparr>))"

section \<open>Checking a request\<close>

text \<open>\<open>%0*d\<close> of a number that is not negative.\<close>

definition pad_int :: "int \<Rightarrow> int \<Rightarrow> string" where
  "pad_int width i = (let s = itoa i in replicate (nat width - length s) (CHR ''0'') @ s)"

definition batchImageRepeatSuffixWidth :: "int \<Rightarrow> int" where
  "batchImageRepeatSuffixWidth n = (if n < 10 then 2 else int (length (itoa n)))"

record check_state =
  ck_seen :: "string list"
  ck_refs :: int
  ck_bytes :: int
  ck_outputs :: int
  ck_expanded :: "BatchImageSubmitItem list"

text \<open>One copy of an item for every output; a repeated identifier ends the request.\<close>

fun expand_item ::
  "BatchImageSubmitItem \<Rightarrow> int \<Rightarrow> int list \<Rightarrow> check_state \<Rightarrow> batch_error + check_state" where
  "expand_item item outputs [] st = Inr st"
| "expand_item item outputs (i # is) st =
     (let cid = (if outputs > 1
                 then si_CustomID item @ ''_'' @ pad_int (batchImageRepeatSuffixWidth outputs) i
                 else si_CustomID item)
      in if cid \<in> set (ck_seen st) then Inl ErrBatchImageDuplicateCustomIDInRequest
         else expand_item item outputs is
                (st\<lparr>ck_seen := cid # ck_seen st,
                    ck_expanded := ck_expanded st @ [item\<lparr>si_OutputCount := 0, si_CustomID := cid\<rparr>]\<rparr>))"

definition name_item :: "int \<Rightarrow> BatchImageSubmitItem \<Rightarrow> BatchImageSubmitItem" where
  "name_item i item =
     (let cid = trim_space (si_CustomID item) in
      item\<lparr>si_CustomID := (if cid = '''' then ''item_'' @ pad_int 6 (i + 1) else cid)\<rparr>)"

definition output_count :: "BatchImageSubmitItem \<Rightarrow> int" where
  "output_count item = (if si_OutputCount item = 0 then 1 else si_OutputCount item)"

definition check_item ::
  "batch_image_config option \<Rightarrow> string \<Rightarrow> int \<Rightarrow> BatchImageSubmitItem \<Rightarrow> check_state \<Rightarrow> batch_error + check_state" where
  "check_item conf model i item0 st =
     (let item = name_item i item0;
          outputs = output_count item;
          total = ck_outputs st + outputs;
          prompt = trim_space (si_Prompt item)
      in if outputs < 1 \<or> outputs > maxOutputImagesPerItem conf then Inl ErrBatchImageInvalidItems
         else if total > maxOutputImagesPerJob conf then Inl ErrBatchImageTooManyOutputImages
         else if prompt = '''' then Inl ErrBatchImageInvalidItems
         else if int (length prompt) > maxPromptChars conf then Inl ErrBatchImagePromptTooLong
         else case normalizeBatchImageReferenceInputs model (item\<lparr>si_Prompt := prompt\<rparr>) of
           Inl e \<Rightarrow> Inl e
         | Inr (item1, refs, bytes) \<Rightarrow>
             if ck_refs st + refs * outputs > maxReferenceImagesPerJob conf
             then Inl ErrBatchImageTooManyReferenceImages
             else if ck_bytes st + bytes * outputs > maxReferenceInlineBytesPerJob conf
             then Inl ErrBatchImageReferenceImagesTooLarge
             else expand_item item1 outputs [1..outputs]
                    (st\<lparr>ck_outputs := total, ck_refs := ck_refs st + refs * outputs,
                        ck_bytes := ck_bytes st + bytes * outputs\<rparr>))"

fun check_items ::
  "batch_image_config option \<Rightarrow> string \<Rightarrow> int \<Rightarrow> BatchImageSubmitItem list \<Rightarrow> check_state \<Rightarrow> batch_error + check_state" where
  "check_items conf model i [] st = Inr st"
| "check_items conf model i (item # rest) st =
     (case check_item conf model i item st of
        Inl e \<Rightarrow> Inl e | Inr st1 \<Rightarrow> check_items conf model (i + 1) rest st1)"

definition trim_request :: "BatchImageSubmitRequest \<Rightarrow> BatchImageSubmitRequest" where
  "trim_request req =
     req\<lparr>sr_Model := trim_space (sr_Model req), sr_TaskName := trim_space (sr_TaskName req),
         sr_ParentBatchID := trim_space (sr_ParentBatchID req), sr_Provider := trim_space (sr_Provider req),
         sr_ResponseMimeType := trim_space (sr_ResponseMimeType req),
         sr_AspectRatio := trim_space (sr_AspectRatio req), sr_ImageSize := trim_space (sr_ImageSize req)\<rparr>"

definition no_items_seen :: check_state where
  "no_items_seen = \<lparr>ck_seen = [], ck_refs = 0, ck_bytes = 0, ck_outputs = 0, ck_expanded = []\<rparr>"

text \<open>\<open>today\<close> is the task name made from the current time.\<close>

definition validateSubmitRequest ::
  "batch_image_config option \<Rightarrow> string \<Rightarrow> BatchImageSubmitRequest \<Rightarrow> batch_error + BatchImageSubmitRequest" where
  "validateSubmitRequest conf today req0 =
     (let req1 = trim_request req0;
          task0 = (if sr_TaskName req1 = '''' then today else sr_TaskName req1);
          task = (if length task0 > 255 then truncateBatchImageMessage task0 255 else task0);
          mime = (if sr_ResponseMimeType req1 = '''' then defaultResponseMimeType conf else sr_ResponseMimeType req1);
          size = (if sr_ImageSize req1 = '''' then defaultImageSize conf else sr_ImageSize req1)
      in if sr_Model req1 = '''' then Inl ErrBatchImageInvalidModel
         else if sr_Provider req1 \<noteq> '''' \<and> \<not> IsSupportedBatchImageProvider (sr_Provider req1)
         then Inl ErrBatchImageUnsupportedProvider
         else if sr_Items req1 = [] then Inl ErrBatchImageInvalidItems
         else if int (length (sr_Items req1)) > maxItems conf then Inl ErrBatchImageInvalidItems
         else if \<not> equal_fold size ''1K'' then Inl ErrBatchImageInvalidItems
         else case check_items conf (sr_Model req1) 0 (sr_Items req1) no_items_seen of
           Inl e \<Rightarrow> Inl e
         | Inr st \<Rightarrow> Inr (req1\<lparr>sr_TaskName := task, sr_ResponseMimeType := mime, sr_ImageSize := ''1K'',
                              sr_Metadata := sanitizeBatchImageMetadata (sr_Metadata req1),
                              sr_Items := ck_expanded st\<rparr>))"

section \<open>Which requests are accepted\<close>

text \<open>The conditions on a request as a whole, and the items it is expanded to.\<close>

definition ref_ok :: "BatchImageReferenceInput \<Rightarrow> bool" where
  "ref_ok r \<longleftrightarrow>
     (let ref = clean_ref r in
        rf_MimeType ref \<noteq> '''' \<and> (rf_Data ref = '''' \<longleftrightarrow> rf_FileURI ref \<noteq> '''')
        \<and> int (length (rf_Data ref)) \<le> maxBatchImageReferenceImageBytes
        \<and> (rf_FileURI ref \<noteq> '''' \<longrightarrow> has_prefix (rf_FileURI ref) ''gs://''))"

definition ref_bytes :: "BatchImageReferenceInput list \<Rightarrow> int" where
  "ref_bytes rs = sum_list (map (\<lambda>r. int (length (rf_Data r))) rs)"

definition refs_ok :: "string \<Rightarrow> BatchImageReferenceInput list \<Rightarrow> bool" where
  "refs_ok model rs \<longleftrightarrow> rs = [] \<or>
     0 < maxBatchImageReferenceImagesForModel model \<and> int (length rs) \<le> maxBatchImageReferenceImagesForModel model
     \<and> (\<forall>r\<in>set rs. ref_ok r)"

definition clean_item :: "int \<Rightarrow> BatchImageSubmitItem \<Rightarrow> BatchImageSubmitItem" where
  "clean_item i item =
     (name_item i item)\<lparr>si_Prompt := trim_space (si_Prompt item),
                        si_ReferenceImages := map clean_ref (si_ReferenceImages item)\<rparr>"

definition copy_of :: "BatchImageSubmitItem \<Rightarrow> int \<Rightarrow> int \<Rightarrow> BatchImageSubmitItem" where
  "copy_of item outputs k =
     item\<lparr>si_OutputCount := 0,
          si_CustomID := (if outputs > 1
            then si_CustomID item @ ''_'' @ pad_int (batchImageRepeatSuffixWidth outputs) k else si_CustomID item)\<rparr>"

definition copies :: "int \<Rightarrow> BatchImageSubmitItem \<Rightarrow> BatchImageSubmitItem list" where
  "copies i item = map (copy_of (clean_item i item) (output_count item)) [1..output_count item]"

fun all_copies :: "int \<Rightarrow> BatchImageSubmitItem list \<Rightarrow> BatchImageSubmitItem list" where
  "all_copies i [] = []"
| "all_copies i (item # rest) = copies i item @ all_copies (i + 1) rest"

definition item_ok :: "batch_image_config option \<Rightarrow> string \<Rightarrow> BatchImageSubmitItem \<Rightarrow> bool" where
  "item_ok conf model item \<longleftrightarrow>
     1 \<le> output_count item \<and> output_count item \<le> maxOutputImagesPerItem conf
     \<and> trim_space (si_Prompt item) \<noteq> '''' \<and> int (length (trim_space (si_Prompt item))) \<le> maxPromptChars conf
     \<and> refs_ok model (si_ReferenceImages item)"

definition total_outputs :: "BatchImageSubmitItem list \<Rightarrow> int" where
  "total_outputs xs = sum_list (map output_count xs)"

definition total_refs :: "BatchImageSubmitItem list \<Rightarrow> int" where
  "total_refs xs = sum_list (map (\<lambda>i. int (length (si_ReferenceImages i)) * output_count i) xs)"

definition total_bytes :: "BatchImageSubmitItem list \<Rightarrow> int" where
  "total_bytes xs = sum_list (map (\<lambda>i. ref_bytes (si_ReferenceImages i) * output_count i) xs)"

lemmas total_defs = total_outputs_def total_refs_def total_bytes_def

definition request_ok :: "batch_image_config option \<Rightarrow> BatchImageSubmitRequest \<Rightarrow> bool" where
  "request_ok conf req \<longleftrightarrow>
     (let model = trim_space (sr_Model req); provider = trim_space (sr_Provider req);
          xs = sr_Items req; size = trim_space (sr_ImageSize req)
      in model \<noteq> '''' \<and> (provider = '''' \<or> IsSupportedBatchImageProvider provider)
         \<and> xs \<noteq> [] \<and> int (length xs) \<le> maxItems conf
         \<and> equal_fold (if size = '''' then defaultImageSize conf else size) ''1K''
         \<and> (\<forall>item\<in>set xs. item_ok conf model item)
         \<and> total_outputs xs \<le> maxOutputImagesPerJob conf
         \<and> total_refs xs \<le> maxReferenceImagesPerJob conf
         \<and> total_bytes xs \<le> maxReferenceInlineBytesPerJob conf
         \<and> distinct (map si_CustomID (all_copies 0 xs)))"

lemma clean_ref_data [simp]: "rf_Data (clean_ref r) = rf_Data r"
  by (simp add: clean_ref_def)

lemma check_refs_closed:
  "check_refs rs = (if \<forall>r\<in>set rs. ref_ok r then Inr (map clean_ref rs, ref_bytes rs)
                    else Inl ErrBatchImageInvalidReferenceImage)"
proof (induction rs)
  case (Cons r rs)
  then show ?case by (simp add: ref_ok_def ref_bytes_def Let_def split del: if_split) (auto simp: ref_bytes_def)
qed (simp add: ref_bytes_def)

lemma normalize_refs_iff:
  "normalizeBatchImageReferenceInputs model item = Inr x \<longleftrightarrow>
     refs_ok model (si_ReferenceImages item)
     \<and> x = (item\<lparr>si_ReferenceImages := map clean_ref (si_ReferenceImages item)\<rparr>,
            int (length (si_ReferenceImages item)), ref_bytes (si_ReferenceImages item))"
proof (cases "si_ReferenceImages item = []")
  case True
  then have "item\<lparr>si_ReferenceImages := []\<rparr> = item" by simp
  with True show ?thesis
    by (auto simp: normalizeBatchImageReferenceInputs_def refs_ok_def ref_bytes_def)
next
  case False
  then show ?thesis
    unfolding normalizeBatchImageReferenceInputs_def check_refs_closed refs_ok_def Let_def
    by (simp add: linorder_not_less [symmetric]) auto
qed

lemma expand_item_iff:
  "expand_item item outputs ks st = Inr st' \<longleftrightarrow>
     distinct (map (si_CustomID \<circ> copy_of item outputs) ks)
     \<and> (\<forall>k\<in>set ks. si_CustomID (copy_of item outputs k) \<notin> set (ck_seen st))
     \<and> st' = st\<lparr>ck_seen := rev (map (si_CustomID \<circ> copy_of item outputs) ks) @ ck_seen st,
                ck_expanded := ck_expanded st @ map (copy_of item outputs) ks\<rparr>"
proof (induction ks arbitrary: st)
  case Nil
  then show ?case by auto
next
  case (Cons k ks)
  let ?c = "copy_of item outputs k"
  have step: "expand_item item outputs (k # ks) st =
      (if si_CustomID ?c \<in> set (ck_seen st) then Inl ErrBatchImageDuplicateCustomIDInRequest
       else expand_item item outputs ks
              (st\<lparr>ck_seen := si_CustomID ?c # ck_seen st, ck_expanded := ck_expanded st @ [?c]\<rparr>))"
    by (simp add: copy_of_def Let_def)
  show ?case unfolding step by (simp add: Cons.IH) (auto simp: image_iff)
qed

lemma name_item_simps [simp]:
  "si_Prompt (name_item i item) = si_Prompt item" "si_OutputCount (name_item i item) = si_OutputCount item"
  "si_ReferenceImages (name_item i item) = si_ReferenceImages item"
  "output_count (name_item i item) = output_count item"
  by (simp_all add: name_item_def output_count_def Let_def)

definition after_item :: "int \<Rightarrow> BatchImageSubmitItem \<Rightarrow> check_state \<Rightarrow> check_state" where
  "after_item i item st =
     \<lparr>ck_seen = rev (map si_CustomID (copies i item)) @ ck_seen st,
      ck_refs = ck_refs st + int (length (si_ReferenceImages item)) * output_count item,
      ck_bytes = ck_bytes st + ref_bytes (si_ReferenceImages item) * output_count item,
      ck_outputs = ck_outputs st + output_count item,
      ck_expanded = ck_expanded st @ copies i item\<rparr>"

definition within_limits :: "batch_image_config option \<Rightarrow> check_state \<Rightarrow> bool" where
  "within_limits conf st \<longleftrightarrow> ck_outputs st \<le> maxOutputImagesPerJob conf
     \<and> ck_refs st \<le> maxReferenceImagesPerJob conf \<and> ck_bytes st \<le> maxReferenceInlineBytesPerJob conf"

lemma check_item_iff:
  "check_item conf model i item st = Inr st' \<longleftrightarrow>
     item_ok conf model item \<and> within_limits conf (after_item i item st)
     \<and> distinct (map si_CustomID (copies i item))
     \<and> set (map si_CustomID (copies i item)) \<inter> set (ck_seen st) = {} \<and> st' = after_item i item st"
proof (cases "refs_ok model (si_ReferenceImages item)")
  case True
  let ?named = "(name_item i item)\<lparr>si_Prompt := trim_space (si_Prompt item)\<rparr>"
  have norm: "normalizeBatchImageReferenceInputs model ?named
      = Inr (clean_item i item, int (length (si_ReferenceImages item)), ref_bytes (si_ReferenceImages item))"
    using True unfolding normalize_refs_iff clean_item_def by simp
  have result: "st\<lparr>ck_outputs := a, ck_refs := b, ck_bytes := c, ck_seen := d, ck_expanded := e\<rparr>
      = \<lparr>ck_seen = d, ck_refs = b, ck_bytes = c, ck_outputs = a, ck_expanded = e\<rparr>" for a b c d e by simp
  show ?thesis
    unfolding check_item_def Let_def name_item_simps norm sum.case prod.case
    by (simp add: expand_item_iff item_ok_def within_limits_def after_item_def copies_def True not_less
        disjoint_iff comp_def) auto
next
  case False
  let ?named = "(name_item i item)\<lparr>si_Prompt := trim_space (si_Prompt item)\<rparr>"
  obtain e where "normalizeBatchImageReferenceInputs model ?named = Inl e"
    using False normalize_refs_iff [of model ?named]
    by (cases "normalizeBatchImageReferenceInputs model ?named") auto
  with False show ?thesis unfolding check_item_def Let_def name_item_simps item_ok_def by simp
qed

lemma after_items_grow:
  assumes "item_ok conf model item" "within_limits conf (after_item i item st)"
  shows "within_limits conf st"
proof -
  have "0 \<le> ref_bytes rs" for rs unfolding ref_bytes_def by (rule sum_list_nonneg) auto
  then have "0 \<le> ref_bytes (si_ReferenceImages item) * output_count item"
      "0 \<le> int (length (si_ReferenceImages item)) * output_count item" "1 \<le> output_count item"
    using assms(1) by (simp_all add: item_ok_def)
  then show ?thesis using assms(2) unfolding within_limits_def after_item_def check_state.select_convs
    by linarith
qed

fun after_items :: "int \<Rightarrow> BatchImageSubmitItem list \<Rightarrow> check_state \<Rightarrow> check_state" where
  "after_items i [] st = st"
| "after_items i (item # rest) st = after_items (i + 1) rest (after_item i item st)"

lemma after_items_closed:
  "after_items i xs st =
     \<lparr>ck_seen = rev (map si_CustomID (all_copies i xs)) @ ck_seen st, ck_refs = ck_refs st + total_refs xs,
      ck_bytes = ck_bytes st + total_bytes xs, ck_outputs = ck_outputs st + total_outputs xs,
      ck_expanded = ck_expanded st @ all_copies i xs\<rparr>"
proof (induction i xs st rule: after_items.induct)
  case (1 i st)
  then show ?case by (simp add: total_defs)
next
  case (2 i item rest st)
  show ?case unfolding after_items.simps(2) 2
    by (simp only: after_item_def total_defs check_state.select_convs all_copies.simps map_append rev_append
        append_assoc list.map sum_list.Cons add.assoc)
qed

lemma within_limits_before:
  "\<forall>item\<in>set xs. item_ok conf model item \<Longrightarrow> within_limits conf (after_items i xs st) \<Longrightarrow> within_limits conf st"
proof (induction i xs st rule: after_items.induct)
  case (2 i item rest st)
  have "within_limits conf (after_item i item st)" using 2 by simp
  moreover have "item_ok conf model item" using 2(2) by simp
  ultimately show ?case using after_items_grow by blast
qed simp

text \<open>The loop over the items: as the totals only grow, it is enough that the last ones are within the
  limits.\<close>

lemma check_items_iff:
  assumes "within_limits conf st" "distinct (ck_seen st)"
  shows "check_items conf model i xs st = Inr st' \<longleftrightarrow>
     (\<forall>item\<in>set xs. item_ok conf model item) \<and> within_limits conf (after_items i xs st)
     \<and> distinct (ck_seen (after_items i xs st)) \<and> st' = after_items i xs st"
  using assms
proof (induction xs arbitrary: i st)
  case Nil
  then show ?case by auto
next
  case (Cons item rest)
  let ?st1 = "after_item i item st"
  have seen1: "distinct (ck_seen ?st1) \<longleftrightarrow> distinct (map si_CustomID (copies i item))
      \<and> set (map si_CustomID (copies i item)) \<inter> set (ck_seen st) = {}"
    using Cons.prems(2) by (auto simp: after_item_def)
  have later: "distinct (ck_seen (after_items (i + 1) rest ?st1)) \<Longrightarrow> distinct (ck_seen ?st1)"
    unfolding after_items_closed by simp
  have grow: "within_limits conf ?st1"
    if "\<forall>item\<in>set rest. item_ok conf model item" "within_limits conf (after_items (i + 1) rest ?st1)"
    using within_limits_before that by blast
  show ?case
  proof (cases "item_ok conf model item \<and> within_limits conf ?st1 \<and> distinct (ck_seen ?st1)")
    case True
    then have "check_item conf model i item st = Inr ?st1" unfolding check_item_iff using seen1 by blast
    then have step: "check_items conf model i (item # rest) st = check_items conf model (i + 1) rest ?st1"
      by simp
    show ?thesis unfolding step after_items.simps(2) using Cons.IH [of ?st1 "i + 1"] True by simp
  next
    case False
    then have "check_item conf model i item st \<noteq> Inr x" for x unfolding check_item_iff using seen1 by blast
    then obtain e where "check_item conf model i item st = Inl e"
      by (cases "check_item conf model i item st") blast+
    then have step: "check_items conf model i (item # rest) st = Inl e" by simp
    show ?thesis unfolding step after_items.simps(2) using False grow later by auto
  qed
qed

definition normal_request :: "batch_image_config option \<Rightarrow> string \<Rightarrow> BatchImageSubmitRequest \<Rightarrow> BatchImageSubmitRequest" where
  "normal_request conf today req0 =
     (let req = trim_request req0; task = (if sr_TaskName req = '''' then today else sr_TaskName req)
      in req\<lparr>sr_TaskName := (if length task > 255 then truncateBatchImageMessage task 255 else task),
             sr_ResponseMimeType :=
               (if sr_ResponseMimeType req = '''' then defaultResponseMimeType conf else sr_ResponseMimeType req),
             sr_ImageSize := ''1K'', sr_Metadata := sanitizeBatchImageMetadata (sr_Metadata req),
             sr_Items := all_copies 0 (sr_Items req)\<rparr>)"

lemma config_limit_pos: "0 \<le> fallback \<Longrightarrow> 0 \<le> config_limit get fallback conf"
  by (simp add: config_limit_def split: option.split)

lemma nothing_seen [simp]: "within_limits conf no_items_seen" "ck_seen no_items_seen = []"
  by (simp_all add: within_limits_def no_items_seen_def maxOutputImagesPerJob_def maxReferenceImagesPerJob_def
      maxReferenceInlineBytesPerJob_def config_limit_pos)

lemma after_all_items:
  "after_items 0 xs no_items_seen =
     \<lparr>ck_seen = rev (map si_CustomID (all_copies 0 xs)), ck_refs = total_refs xs, ck_bytes = total_bytes xs,
      ck_outputs = total_outputs xs, ck_expanded = all_copies 0 xs\<rparr>"
  unfolding after_items_closed by (simp add: no_items_seen_def)

lemma check_all_items:
  "check_items conf model 0 xs no_items_seen = Inr st \<longleftrightarrow>
     (\<forall>item\<in>set xs. item_ok conf model item) \<and> total_outputs xs \<le> maxOutputImagesPerJob conf
     \<and> total_refs xs \<le> maxReferenceImagesPerJob conf \<and> total_bytes xs \<le> maxReferenceInlineBytesPerJob conf
     \<and> distinct (map si_CustomID (all_copies 0 xs)) \<and> st = after_items 0 xs no_items_seen"
proof -
  have "check_items conf model 0 xs no_items_seen = Inr st \<longleftrightarrow>
     (\<forall>item\<in>set xs. item_ok conf model item) \<and> within_limits conf (after_items 0 xs no_items_seen)
     \<and> distinct (ck_seen (after_items 0 xs no_items_seen)) \<and> st = after_items 0 xs no_items_seen"
    by (rule check_items_iff) simp_all
  then show ?thesis
    by (simp only: after_all_items within_limits_def check_state.select_convs distinct_rev conj_assoc)
qed

lemma validate_iff:
  "validateSubmitRequest conf today req = Inr r \<longleftrightarrow> request_ok conf req \<and> r = normal_request conf today req"
proof -
  let ?req = "trim_request req"
  have trimmed: "sr_Items ?req = sr_Items req" "sr_Model ?req = trim_space (sr_Model req)"
    "sr_Provider ?req = trim_space (sr_Provider req)" "sr_ImageSize ?req = trim_space (sr_ImageSize req)"
    by (simp_all add: trim_request_def)
  show ?thesis
  proof (cases "check_items conf (trim_space (sr_Model req)) 0 (sr_Items req) no_items_seen")
    case (Inl e)
    then have "\<not> request_ok conf req"
      using check_all_items [of conf "trim_space (sr_Model req)" "sr_Items req"
          "after_items 0 (sr_Items req) no_items_seen"] by (auto simp: request_ok_def Let_def)
    with Inl show ?thesis unfolding validateSubmitRequest_def Let_def trimmed by simp
  next
    case (Inr st)
    note checked = Inr [unfolded check_all_items]
    then have st: "st = after_items 0 (sr_Items req) no_items_seen" by blast
    show ?thesis
      using checked unfolding validateSubmitRequest_def Let_def trimmed Inr
      by (simp add: request_ok_def normal_request_def Let_def trimmed st after_all_items not_less) blast
  qed
qed

section \<open>What an accepted request looks like\<close>

definition ref_wf :: "BatchImageReferenceInput \<Rightarrow> bool" where
  "ref_wf r \<longleftrightarrow> rf_MimeType r \<in> {''image/jpeg'', ''image/png'', ''image/webp''}
     \<and> (rf_Data r = '''' \<longleftrightarrow> rf_FileURI r \<noteq> '''') \<and> int (length (rf_Data r)) \<le> maxBatchImageReferenceImageBytes
     \<and> (rf_FileURI r \<noteq> '''' \<longrightarrow> has_prefix (rf_FileURI r) ''gs://'')"

definition item_wf :: "batch_image_config option \<Rightarrow> string \<Rightarrow> BatchImageSubmitItem \<Rightarrow> bool" where
  "item_wf conf model item \<longleftrightarrow>
     si_CustomID item \<noteq> '''' \<and> si_OutputCount item = 0
     \<and> si_Prompt item \<noteq> '''' \<and> trim_space (si_Prompt item) = si_Prompt item
     \<and> int (length (si_Prompt item)) \<le> maxPromptChars conf
     \<and> int (length (si_ReferenceImages item)) \<le> maxBatchImageReferenceImagesForModel model
     \<and> (\<forall>r\<in>set (si_ReferenceImages item). ref_wf r)"

definition request_wf :: "batch_image_config option \<Rightarrow> BatchImageSubmitRequest \<Rightarrow> bool" where
  "request_wf conf req \<longleftrightarrow>
     sr_Model req \<noteq> '''' \<and> trim_space (sr_Model req) = sr_Model req
     \<and> (sr_Provider req = '''' \<or> IsSupportedBatchImageProvider (sr_Provider req))
     \<and> length (sr_TaskName req) \<le> 255 \<and> sr_ImageSize req = ''1K''
     \<and> sr_Items req \<noteq> [] \<and> int (length (sr_Items req)) \<le> maxOutputImagesPerJob conf
     \<and> distinct (map si_CustomID (sr_Items req))
     \<and> (\<forall>item\<in>set (sr_Items req). item_wf conf (sr_Model req) item)
     \<and> (\<Sum>item\<leftarrow>sr_Items req. int (length (si_ReferenceImages item))) \<le> maxReferenceImagesPerJob conf
     \<and> (\<Sum>item\<leftarrow>sr_Items req. ref_bytes (si_ReferenceImages item)) \<le> maxReferenceInlineBytesPerJob conf"

lemma clean_ref_wf: "ref_ok r \<Longrightarrow> ref_wf (clean_ref r)"
  by (auto simp: ref_ok_def ref_wf_def Let_def clean_ref_def normalizeBatchImageReferenceMimeType_def
      split: if_splits)

lemma max_refs_nonneg: "0 \<le> maxBatchImageReferenceImagesForModel model"
  by (simp add: maxBatchImageReferenceImagesForModel_def Let_def)

lemma name_item_named: "si_CustomID (name_item i item) \<noteq> ''''"
  by (simp add: name_item_def Let_def)

lemma copy_of_wf:
  assumes "item_ok conf model item"
  shows "item_wf conf model (copy_of (clean_item i item) n k)"
proof -
  have "si_CustomID (copy_of (clean_item i item) n k) \<noteq> ''''"
    using name_item_named [of i item] by (simp add: copy_of_def clean_item_def)
  moreover have "si_ReferenceImages (copy_of (clean_item i item) n k) = map clean_ref (si_ReferenceImages item)"
    "si_Prompt (copy_of (clean_item i item) n k) = trim_space (si_Prompt item)"
    "si_OutputCount (copy_of (clean_item i item) n k) = 0"
    by (simp_all add: copy_of_def clean_item_def)
  moreover have "refs_ok model (si_ReferenceImages item)" using assms by (simp add: item_ok_def)
  ultimately show ?thesis
    using assms max_refs_nonneg [of model] by (auto simp: item_wf_def item_ok_def refs_ok_def clean_ref_wf)
qed

lemma copies_facts:
  assumes "item_ok conf model item"
  shows "int (length (copies i item)) = output_count item"
    and "(\<Sum>c\<leftarrow>copies i item. int (length (si_ReferenceImages c)))
      = int (length (si_ReferenceImages item)) * output_count item"
    and "(\<Sum>c\<leftarrow>copies i item. ref_bytes (si_ReferenceImages c))
      = ref_bytes (si_ReferenceImages item) * output_count item"
    and "c \<in> set (copies i item) \<Longrightarrow> item_wf conf model c"
proof -
  have pos: "1 \<le> output_count item" using assms by (simp add: item_ok_def)
  have bytes: "ref_bytes (map clean_ref rs) = ref_bytes rs" for rs by (simp add: ref_bytes_def comp_def)
  show "int (length (copies i item)) = output_count item" using pos by (simp add: copies_def)
  show "(\<Sum>c\<leftarrow>copies i item. int (length (si_ReferenceImages c)))
      = int (length (si_ReferenceImages item)) * output_count item"
    using pos by (simp add: copies_def comp_def copy_of_def clean_item_def sum_list_triv)
  show "(\<Sum>c\<leftarrow>copies i item. ref_bytes (si_ReferenceImages c))
      = ref_bytes (si_ReferenceImages item) * output_count item"
    using pos by (simp add: copies_def comp_def copy_of_def clean_item_def sum_list_triv bytes)
  show "item_wf conf model c" if "c \<in> set (copies i item)"
    using that copy_of_wf [OF assms] by (auto simp: copies_def)
qed

lemma all_copies_facts:
  assumes "\<forall>item\<in>set xs. item_ok conf model item"
  shows "int (length (all_copies i xs)) = total_outputs xs"
    and "(\<Sum>c\<leftarrow>all_copies i xs. int (length (si_ReferenceImages c))) = total_refs xs"
    and "(\<Sum>c\<leftarrow>all_copies i xs. ref_bytes (si_ReferenceImages c)) = total_bytes xs"
    and "\<forall>c\<in>set (all_copies i xs). item_wf conf model c"
proof -
  have "int (length (all_copies i xs)) = total_outputs xs
    \<and> (\<Sum>c\<leftarrow>all_copies i xs. int (length (si_ReferenceImages c))) = total_refs xs
    \<and> (\<Sum>c\<leftarrow>all_copies i xs. ref_bytes (si_ReferenceImages c)) = total_bytes xs
    \<and> (\<forall>c\<in>set (all_copies i xs). item_wf conf model c)"
    using assms
  proof (induction i xs rule: all_copies.induct)
    case (2 i item rest)
    then have ok: "item_ok conf model item" by simp
    from 2 copies_facts [OF ok] show ?case by (auto simp: total_defs)
  qed (simp add: total_defs)
  then show "int (length (all_copies i xs)) = total_outputs xs"
    and "(\<Sum>c\<leftarrow>all_copies i xs. int (length (si_ReferenceImages c))) = total_refs xs"
    and "(\<Sum>c\<leftarrow>all_copies i xs. ref_bytes (si_ReferenceImages c)) = total_bytes xs"
    and "\<forall>c\<in>set (all_copies i xs). item_wf conf model c" by blast+
qed

lemma all_copies_nonempty:
  assumes "\<forall>item\<in>set xs. item_ok conf model item" "xs \<noteq> []"
  shows "all_copies i xs \<noteq> []"
proof -
  obtain item rest where "xs = item # rest" using assms(2) by (cases xs) auto
  moreover have "1 \<le> output_count item" using assms(1) calculation by (simp add: item_ok_def)
  ultimately show ?thesis by (simp add: copies_def)
qed

lemma accepted_wf:
  assumes "validateSubmitRequest conf today req = Inr r"
  shows "request_wf conf r"
proof -
  have ok: "request_ok conf req" and r: "r = normal_request conf today req"
    using assms by (simp_all add: validate_iff)
  let ?model = "trim_space (sr_Model req)"
  have items_ok: "\<forall>item\<in>set (sr_Items req). item_ok conf ?model item" and "sr_Items req \<noteq> []"
    using ok by (simp_all add: request_ok_def Let_def)
  note facts = all_copies_facts [OF items_ok] all_copies_nonempty [OF this]
  have sel: "sr_Items r = all_copies 0 (sr_Items req)" "sr_Model r = ?model"
    "sr_Provider r = trim_space (sr_Provider req)" "sr_ImageSize r = ''1K''" "length (sr_TaskName r) \<le> 255"
    unfolding r by (simp_all add: normal_request_def trim_request_def Let_def truncateBatchImageMessage_def)
  show ?thesis
    using ok facts unfolding request_wf_def sel request_ok_def Let_def by (auto simp: sel)
qed

lemma accepted_ids_distinct:
  "validateSubmitRequest conf today req = Inr r \<Longrightarrow> distinct (map si_CustomID (sr_Items r))"
  using accepted_wf [of conf today req r] by (simp add: request_wf_def)

text \<open>C17 (accepted_request_wf): A request that passes the checks is well formed: it names a model and a
  provider the system has, its items are at least one and no more than a job may have, with
  distinct identifiers, and each has a trimmed prompt within the limit and references of an
  accepted type, by value or by a storage address; the totals are within the limits.\<close>

theorem accepted_request_wf:
  assumes "validateSubmitRequest conf today req = Inr r"
  shows "request_wf conf r"
  using assms by (rule accepted_wf)

text \<open>C16 (request_accepted_iff): The loop that checks a request, keeping totals and the identifiers seen
  so far, accepts exactly the requests that satisfy the conditions on the request as a whole.\<close>

theorem request_accepted_iff:
  "(\<exists>r. validateSubmitRequest conf today req = Inr r) \<longleftrightarrow> request_ok conf req"
  by (simp add: validate_iff)

section \<open>Examples\<close>

definition sample_request :: BatchImageSubmitRequest where
  "sample_request =
     \<lparr>sr_Model = '' gemini-2.5-flash-image '', sr_TaskName = ''cats'', sr_ParentBatchID = '''', sr_Provider = '''',
      sr_Items = [\<lparr>si_CustomID = ''a'', si_Prompt = ''a cat '', si_OutputCount = 2, si_ReferenceImages = []\<rparr>,
                  \<lparr>si_CustomID = '''', si_Prompt = ''a dog'', si_OutputCount = 0,
                   si_ReferenceImages = [\<lparr>rf_ID = '''', rf_Type = '''', rf_MimeType = ''IMAGE/JPG'', rf_Data = '''',
                                         rf_FileURI = ''gs://b/o''\<rparr>]\<rparr>],
      sr_ResponseMimeType = '''', sr_AspectRatio = '''', sr_ImageSize = ''1k'', sr_Metadata = [], sr_SessionID = None\<rparr>"

lemma sample_request_ids:
  "(case validateSubmitRequest None ''today'' sample_request of
      Inl e \<Rightarrow> [] | Inr r \<Rightarrow> map si_CustomID (sr_Items r)) = [''a_01'', ''a_02'', ''item_000002'']"
  by code_simp

theorem accepted_request_wf_witness:
  "\<exists>r. validateSubmitRequest None ''today'' sample_request = Inr r \<and> request_wf None r"
proof (cases "validateSubmitRequest None ''today'' sample_request")
  case (Inl e)
  then show ?thesis using sample_request_ids by simp
next
  case (Inr r)
  from accepted_request_wf [OF this] Inr show ?thesis by blast
qed

end
