(* ===== verification/BatchImagePricing.thy ===== *)
theory BatchImagePricing
  imports BatchImageRequest
begin

text \<open>
  The price of a batch of images (\<open>backend/internal/service/batch_image_public.go\<close>,
  \<open>resolvePricingSnapshot\<close>): the multipliers of the group, the user and the account, the amount to
  hold and the unit price the settlement will charge; and that the hold covers the charge.

  A \<open>float64\<close> is represented by its shortest decimal, under which it is stored.  The group and rate
  tables and the price list are parameters.
\<close>

section \<open>Groups, accounts and the price list\<close>

record group_row =
  g_ID :: int
  g_AllowBatchImageGeneration :: bool
  g_Platform :: string
  g_RateMultiplier :: decimal
  g_ImageRateIndependent :: bool
  g_ImageRateMultiplier :: decimal
  g_BatchImageDiscountMultiplier :: decimal
  g_BatchImageHoldMultiplier :: decimal
  g_ImagePrice1K :: "decimal option"
  g_ImagePrice2K :: "decimal option"
  g_ImagePrice4K :: "decimal option"

definition GetImagePrice :: "group_row \<Rightarrow> string \<Rightarrow> decimal option" where
  "GetImagePrice g imageSize =
     (if imageSize = ''1K'' then g_ImagePrice1K g else if imageSize = ''2K'' then g_ImagePrice2K g
      else if imageSize = ''4K'' then g_ImagePrice4K g else g_ImagePrice2K g)"

text \<open>The multiplier of an account whose own is \<open>rate\<close>.\<close>

definition BillingRateMultiplier :: "decimal option \<Rightarrow> decimal" where
  "BillingRateMultiplier rate = (case rate of None \<Rightarrow> 1 | Some r \<Rightarrow> if r < 0 then 1 else r)"

record BatchImageOwner =
  ow_UserID :: int
  ow_APIKeyID :: int
  ow_GroupID :: "int option"

text \<open>The collaborators, where they are set: the group table (a row that is missing is \<open>Inr None\<close>),
  the rates of users in groups, and the price of a provider's model.\<close>

record pricing_service =
  pc_group :: "(int \<Rightarrow> batch_error + group_row option) option"
  pc_user_rate :: "(int \<Rightarrow> int \<Rightarrow> batch_error + decimal option) option"
  pc_price :: "(string \<Rightarrow> string \<Rightarrow> batch_error + decimal) option"

definition lookup_group :: "pricing_service \<Rightarrow> int \<Rightarrow> batch_error + group_row" where
  "lookup_group p gid =
     (case pc_group p of None \<Rightarrow> Inl ErrBatchImageSettlementPricingMissing
      | Some get \<Rightarrow>
          (case get gid of Inr (Some g) \<Rightarrow> Inr g | _ \<Rightarrow> Inl ErrBatchImageSettlementPricingMissing))"

text \<open>\<open>None\<close> is a nil error.\<close>

definition ensureGroupAllowsBatchImage :: "pricing_service \<Rightarrow> int option \<Rightarrow> batch_error option" where
  "ensureGroupAllowsBatchImage p groupID =
     (case groupID of None \<Rightarrow> None
      | Some gid \<Rightarrow>
          if gid \<le> 0 then None
          else (case lookup_group p gid of
                  Inl e \<Rightarrow> Some e
                | Inr g \<Rightarrow> if \<not> g_AllowBatchImageGeneration g then Some ErrBatchImageGroupDisabled
                          else if g_Platform g \<noteq> ''gemini'' then Some ErrBatchImageGroupDisabled else None))"

section \<open>The price\<close>

record BatchImagePricingSnapshot =
  ps_BaseUnitPrice :: decimal
  ps_GroupRateMultiplier :: decimal
  ps_AccountRateMultiplier :: decimal
  ps_BatchDiscountMultiplier :: decimal
  ps_HoldMultiplier :: decimal
  ps_BillableUnitPrice :: decimal
  ps_HoldUnitPrice :: decimal
  ps_EstimatedCost :: decimal
  ps_HoldAmount :: decimal

text \<open>What the group contributes: its own price, if it has one, the multiplier of the user in the
  group, the discount and the hold multiplier.\<close>

definition group_terms ::
  "pricing_service \<Rightarrow> BatchImageOwner \<Rightarrow> string \<Rightarrow>
     batch_error + (decimal option \<times> decimal \<times> decimal \<times> decimal)" where
  "group_terms p owner imageSize =
     (case ow_GroupID owner of
        None \<Rightarrow> Inr (None, 1, 5 / 10, 6 / 10)
      | Some gid \<Rightarrow>
          if gid \<le> 0 then Inr (None, 1, 5 / 10, 6 / 10)
          else (case lookup_group p gid of
             Inl e \<Rightarrow> Inl e
           | Inr g \<Rightarrow>
               if \<not> g_AllowBatchImageGeneration g then Inl ErrBatchImageGroupDisabled
               else (case (case pc_user_rate p of None \<Rightarrow> Inr None | Some get \<Rightarrow> get (ow_UserID owner) (g_ID g)) of
                  Inl e \<Rightarrow> Inl ErrBatchImageSettlementPricingMissing
                | Inr userRate \<Rightarrow>
                    let own = (case userRate of Some r \<Rightarrow> r | None \<Rightarrow> max 0 (g_RateMultiplier g));
                        multiplier = (if g_ImageRateIndependent g then g_ImageRateMultiplier g else own);
                        groupPrice = (case GetImagePrice g imageSize of
                                        Some u \<Rightarrow> if u \<ge> 0 then Some u else None | None \<Rightarrow> None)
                    in Inr (groupPrice, max 0 multiplier, max 0 (g_BatchImageDiscountMultiplier g),
                            if g_BatchImageHoldMultiplier g \<ge> 0 then g_BatchImageHoldMultiplier g else 6 / 10))))"

definition unit_price ::
  "pricing_service \<Rightarrow> decimal option \<Rightarrow> string \<Rightarrow> string \<Rightarrow> batch_error + decimal" where
  "unit_price p groupPrice provider model =
     (case groupPrice of
        Some u \<Rightarrow> Inr u
      | None \<Rightarrow>
          (case pc_price p of
             None \<Rightarrow> Inl ErrBatchImageSettlementPricingMissing
           | Some price \<Rightarrow>
               (case price provider model of
                  Inl e \<Rightarrow> Inl ErrBatchImageSettlementPricingMissing
                | Inr u \<Rightarrow> if u < 0 then Inl ErrBatchImageSettlementPricingMissing else Inr u)))"

text \<open>The products, each rounded to a \<open>float64\<close>; the number of items is exact.\<close>

definition price_snapshot ::
  "decimal \<Rightarrow> decimal \<Rightarrow> decimal \<Rightarrow> decimal \<Rightarrow> decimal \<Rightarrow> int \<Rightarrow> BatchImagePricingSnapshot" where
  "price_snapshot unit groupRate accountRate discount hold n =
     (let standard = f64 (f64 (f64 unit * f64 groupRate) * f64 accountRate);
          billable = f64 (standard * f64 discount);
          held = f64 (standard * f64 hold)
      in \<lparr>ps_BaseUnitPrice = unit, ps_GroupRateMultiplier = groupRate, ps_AccountRateMultiplier = accountRate,
          ps_BatchDiscountMultiplier = discount, ps_HoldMultiplier = hold,
          ps_BillableUnitPrice = shortest_decimal billable, ps_HoldUnitPrice = shortest_decimal held,
          ps_EstimatedCost = shortest_decimal (f64 (billable * of_int n)),
          ps_HoldAmount = shortest_decimal (f64 (held * of_int n))\<rparr>)"

text \<open>A hold multiplier below the discount is raised to it.\<close>

definition resolvePricingSnapshot ::
  "pricing_service \<Rightarrow> BatchImageOwner \<Rightarrow> BatchImageSubmitRequest \<Rightarrow> string \<Rightarrow> decimal option
     \<Rightarrow> batch_error + BatchImagePricingSnapshot" where
  "resolvePricingSnapshot p owner req provider accountRate =
     (case group_terms p owner (sr_ImageSize req) of
        Inl e \<Rightarrow> Inl e
      | Inr (groupPrice, groupRate, discount, hold) \<Rightarrow>
          (case unit_price p groupPrice provider (sr_Model req) of
             Inl e \<Rightarrow> Inl e
           | Inr unit \<Rightarrow>
               Inr (price_snapshot unit groupRate (max 0 (BillingRateMultiplier accountRate)) discount
                      (if hold < discount then discount else hold) (int (length (sr_Items req))))))"

section \<open>The hold covers the charge\<close>

lemma float_near:
  assumes "0 \<le> x" "x \<le> c"
  shows "f64 x \<le> x + c / 2 ^ 53 + 1 / 10 ^ 30" "x - c / 2 ^ 53 - 1 / 10 ^ 30 \<le> f64 x"
proof -
  have "x / 2 ^ 53 \<le> c / 2 ^ 53" using assms(2) by (rule divide_right_mono) simp
  then show "f64 x \<le> x + c / 2 ^ 53 + 1 / 10 ^ 30" "x - c / 2 ^ 53 - 1 / 10 ^ 30 \<le> f64 x"
    using error_bound [of x] assms(1) by (simp_all add: abs_le_iff)
qed

lemma shortest_near:
  assumes "0 \<le> x"
  shows "shortest_decimal x \<le> x + shortest_decimal x / 2 ^ 53 + 1 / 10 ^ 30"
    and "x \<le> shortest_decimal x + shortest_decimal x / 2 ^ 53 + 1 / 10 ^ 30"
  using shortest_decimal_error [of x] shortest_decimal_nonneg [OF assms] tiny30
  by (simp_all add: abs_le_iff)

text \<open>A unit price \<open>b\<close> below a held one \<open>h\<close>: the cost of up to \<open>n\<close> items at the price as it is stored
  does not exceed the hold for \<open>n\<close> as it is stored, by more than the tolerance of the settlement.\<close>

lemma stored_hold_covers:
  assumes b: "0 \<le> b" "b \<le> h" and n: "0 \<le> k" "k \<le> n" "n \<le> 198"
    and small: "shortest_decimal (f64 (h * of_int n)) \<le> 1000"
  shows "\<not> exceeds_hold (computed_cost k (round_half_away 10 (shortest_decimal b)))
    (round_half_away 10 (shortest_decimal (f64 (h * of_int n))))"
proof -
  define N :: rat where "N = of_int n"
  define K :: rat where "K = of_int k"
  have N: "0 \<le> K" "K \<le> N" "N \<le> 198"
    using n by (simp_all add: N_def K_def)
  define held where "held = f64 (h * N)"
  define s where "s = shortest_decimal held"
  define stored where "stored = round_half_away 10 s"
  have h: "0 \<le> h" "0 \<le> N" using b N by linarith+
  have hN0: "0 \<le> h * N" using h by simp
  have held0: "0 \<le> held" unfolding held_def by (rule f64_nonneg [OF hN0])
  have s1: "s \<le> 1000" using small by (simp add: s_def held_def N_def)
  have s0: "0 \<le> s" unfolding s_def by (rule shortest_decimal_nonneg [OF held0])
  have held1: "held \<le> s + 1001 / 2 ^ 53"
    using shortest_near(2) [OF held0] s1 unfolding s_def [symmetric] by simp
  have "h * N - (h * N) / 2 ^ 53 - 1 / 10 ^ 30 \<le> held"
    unfolding held_def by (rule float_near(2) [OF hN0 order.refl])
  then have hN1: "h * N \<le> 1001" using held1 s1 by (simp add: field_simps)
  have hN: "h * N \<le> held + 1002 / 2 ^ 53"
    using float_near(2) [OF hN0 hN1] unfolding held_def by simp
  define u where "u = shortest_decimal b"
  have u0: "0 \<le> u" unfolding u_def by (rule shortest_decimal_nonneg [OF b(1)])
  have "u \<le> b + u / 2 ^ 53 + 1 / 10 ^ 30" using shortest_near(1) [OF b(1)] by (simp add: u_def)
  then have "N * u \<le> N * (b + u / 2 ^ 53 + 1 / 10 ^ 30)" using h(2) by (rule mult_left_mono)
  then have Nu: "N * u \<le> N * b + N * u / 2 ^ 53 + N / 10 ^ 30" by (simp add: distrib_left)
  have Nb: "N * b \<le> h * N" using b(2) h(2) by (simp add: mult.commute mult_left_mono)
  have Nu1: "N * u \<le> 1002" using Nu Nb hN1 N(3) by (simp add: field_simps)
  have Nu2: "N * u \<le> h * N + 1003 / 2 ^ 53"
  proof -
    have "N * u / 2 ^ 53 \<le> 1002 / 2 ^ 53" using Nu1 by (rule divide_right_mono) simp
    moreover have "N / 10 ^ 30 \<le> 198 / 10 ^ 30" using N(3) by (rule divide_right_mono) simp
    ultimately show ?thesis using Nu Nb by simp
  qed
  define p where "p = round_half_away 10 u"
  have p0: "0 \<le> p" unfolding p_def by (rule round_half_away_nonneg [OF u0])
  have "p \<le> u + 1 / 2 / 10 ^ 10" using round_half_away_error [of 10 u] unfolding p_def abs_le_iff by linarith
  then have "N * p \<le> N * (u + 1 / 2 / 10 ^ 10)" using h(2) by (rule mult_left_mono)
  moreover have "N * (1 / 2 / 10 ^ 10) \<le> 198 * (1 / 2 / 10 ^ 10)" using N(3) by (rule mult_right_mono) simp
  ultimately have Np: "N * p \<le> N * u + 198 * (1 / 2 / 10 ^ 10)" by (simp only: distrib_left)
  have Kp: "K * p \<le> N * p" using N(2) p0 by (rule mult_right_mono)
  have "of_int k * p \<le> 10 ^ 5" using Kp Np Nu1 by (simp add: K_def)
  then have cost: "computed_cost k p \<le> K * p + 4 / 10 ^ 11"
  proof -
    have "k < 2 ^ 31" using n by simp
    from computed_cost_near [OF n(1) this p0 \<open>of_int k * p \<le> 10 ^ 5\<close>] show ?thesis
      unfolding K_def abs_le_iff by linarith
  qed
  have stored: "s \<le> stored + 1 / 2 / 10 ^ 10"
    using round_half_away_error [of 10 s] unfolding stored_def abs_le_iff by linarith
  have stored0: "0 \<le> stored" unfolding stored_def by (rule round_half_away_nonneg [OF s0])
  have stored1: "stored \<le> 1001" using round_half_away_error [of 10 s] s1 unfolding stored_def abs_le_iff by simp
  define c where "c = computed_cost k p"
  have c0: "0 \<le> c" unfolding c_def by (rule computed_cost_nonneg [OF n(1) p0])
  have c: "c \<le> stored + 99907 / 10 ^ 13"
  proof -
    have "c \<le> stored + (1 / 2 / 10 ^ 10 + 1001 / 2 ^ 53 + 1002 / 2 ^ 53 + 1003 / 2 ^ 53
        + 198 * (1 / 2 / 10 ^ 10) + 4 / 10 ^ 11)"
      using cost Kp Np Nu2 hN held1 stored unfolding c_def by linarith
    also have "\<dots> \<le> stored + 99907 / 10 ^ 13" by simp
    finally show ?thesis .
  qed
  have c1: "c \<le> 1002" using c stored1 by simp
  have "f64 c - f64 stored \<le> c - stored + 1002 / 2 ^ 53 + 1001 / 2 ^ 53 + 2 / 10 ^ 30"
    using float_near(1) [OF c0 c1] float_near(2) [OF stored0 stored1] by linarith
  also have "\<dots> \<le> 1 / 10 ^ 8" using c by simp
  finally have "f64 (f64 c - f64 stored) \<le> f64 (1 / 10 ^ 8)" by (rule f64_mono)
  then show ?thesis
    by (simp add: exceeds_hold_def c_def stored_def s_def held_def N_def p_def u_def)
qed

text \<open>The parts of a price that was resolved: none is negative, and the hold multiplier is at least the
  discount.\<close>

lemma resolved_parts:
  assumes "resolvePricingSnapshot p owner req provider rate = Inr snap"
  obtains unit groupRate accountRate discount hold where
    "snap = price_snapshot unit groupRate accountRate discount hold (int (length (sr_Items req)))"
    "0 \<le> unit" "0 \<le> groupRate" "0 \<le> accountRate" "0 \<le> discount" "discount \<le> hold"
proof -
  obtain own groupRate discount hold where terms:
      "group_terms p owner (sr_ImageSize req) = Inr (own, groupRate, discount, hold)"
    using assms by (auto simp: resolvePricingSnapshot_def split: sum.splits prod.splits)
  have nonneg: "0 \<le> groupRate" "0 \<le> discount" "\<forall>u. own = Some u \<longrightarrow> 0 \<le> u"
    using terms by (auto simp: group_terms_def Let_def split: option.splits if_splits sum.splits)
  obtain unit where unit: "unit_price p own provider (sr_Model req) = Inr unit"
    using assms terms by (auto simp: resolvePricingSnapshot_def split: sum.splits)
  have unit0: "0 \<le> unit"
    using unit nonneg(3) by (auto simp: unit_price_def split: option.splits sum.splits if_splits)
  have "snap = price_snapshot unit groupRate (max 0 (BillingRateMultiplier rate)) discount
      (if hold < discount then discount else hold) (int (length (sr_Items req)))"
    using assms terms unit by (simp add: resolvePricingSnapshot_def)
  then show ?thesis by (rule that) (use nonneg(1,2) unit0 in auto)
qed

text \<open>C15 (hold_covers_cost): A job of up to 198 items, with a hold of up to 1000, is never refused by the
  settlement because its cost exceeds its hold, however many of its items succeed: that the hold
  multiplier is at least the discount carries over the rounding of every product to a
  \<open>float64\<close> and of the stored price and hold to ten decimals.\<close>

theorem hold_covers_cost:
  assumes "resolvePricingSnapshot p owner req provider rate = Inr snap"
    and "p_BillableUnitPrice params = ps_BillableUnitPrice snap"
    and "p_HoldAmount params = Some (ps_HoldAmount snap)"
    and "length (sr_Items req) \<le> 198" and "ps_HoldAmount snap \<le> 1000"
    and "0 \<le> successes" "successes \<le> int (length (sr_Items req))"
  shows "\<not> exceeds_hold (computed_cost successes (j_BillableUnitPrice (new_job_row env jid params)))
    (job_hold_amount (new_job_row env jid params))"
proof -
  obtain unit groupRate accountRate discount hold where snap:
      "snap = price_snapshot unit groupRate accountRate discount hold (int (length (sr_Items req)))"
      and pos: "0 \<le> unit" "0 \<le> groupRate" "0 \<le> accountRate" "0 \<le> discount" "discount \<le> hold"
    using resolved_parts [OF assms(1)] by blast
  define standard where "standard = f64 (f64 (f64 unit * f64 groupRate) * f64 accountRate)"
  have standard: "0 \<le> standard" unfolding standard_def
    using pos by (intro f64_nonneg mult_nonneg_nonneg)
  have b: "0 \<le> f64 (standard * f64 discount)" "f64 (standard * f64 discount) \<le> f64 (standard * f64 hold)"
    using standard pos by (intro f64_nonneg f64_mono mult_nonneg_nonneg mult_left_mono; simp)+
  have fields: "ps_BillableUnitPrice snap = shortest_decimal (f64 (standard * f64 discount))"
    "ps_HoldAmount snap = shortest_decimal (f64 (f64 (standard * f64 hold) * of_int (int (length (sr_Items req)))))"
    unfolding snap by (simp_all add: price_snapshot_def Let_def standard_def)
  have "\<not> exceeds_hold (computed_cost successes (round_half_away 10 (ps_BillableUnitPrice snap)))
      (round_half_away 10 (ps_HoldAmount snap))"
    unfolding fields by (rule stored_hold_covers) (use b assms(4-7) fields in simp_all)
  then show ?thesis
    using assms(2,3) by (simp add: new_job_row_def job_hold_amount_def)
qed

section \<open>At the default limit\<close>

lemma on_scale_mono:
  assumes "on_scale j x" "j \<le> k"
  shows "on_scale k x"
proof -
  obtain i :: int where i: "x * 10 ^ j = of_int i" using assms(1) unfolding on_scale_int ..
  have "x * 10 ^ k = x * 10 ^ j * 10 ^ (k - j)" using assms(2) by (simp flip: power_add)
  also have "\<dots> = of_int (i * 10 ^ (k - j))" by (simp add: i)
  finally show ?thesis unfolding on_scale_int ..
qed

text \<open>A \<open>float64\<close> with few decimals is its own shortest decimal.\<close>

lemma shortest_decimal_scaled:
  assumes "on_scale k x" "k \<le> 11" "\<bar>x\<bar> \<le> 1000" "f64 x = x"
  shows "shortest_decimal x = x"
proof -
  let ?P = "\<lambda>k. f64 (round_half_away k x) = x"
  have "round_half_away k x = x" using assms(1) by (rule round_near) simp
  then have Pk: "?P k" using assms(4) by simp
  have k: "k < 400" using assms(2) by simp
  obtain j where found: "find ?P [0..<400] = Some j"
    using Pk k by (cases "find ?P [0..<400]") (auto simp: find_None_iff)
  then obtain i where i: "i < 400" "?P ([0..<400] ! i)" "j = [0..<400] ! i" "\<forall>l<i. \<not> ?P ([0..<400] ! l)"
    by (auto simp: find_Some_iff)
  have j: "j = i" "?P j" using i by simp_all
  have "j \<le> k"
  proof (rule ccontr)
    assume "\<not> j \<le> k"
    then have "\<not> ?P ([0..<400] ! k)" using i(4) j(1) by simp
    then show False using Pk k by simp
  qed
  define d where "d = round_half_away j x"
  have d: "on_scale k d" unfolding d_def using on_scale_round \<open>j \<le> k\<close> by (rule on_scale_mono)
  have "\<bar>d - x\<bar> \<le> 1 / 2 / 10 ^ j" using round_half_away_error [of j x] by (simp only: d_def)
  also have "\<dots> \<le> 1 / 2 / 1" by (intro divide_left_mono) simp_all
  finally have d1: "\<bar>d\<bar> \<le> 1001" using assms(3) by linarith
  have "\<bar>x - d\<bar> \<le> \<bar>d\<bar> / 2 ^ 53 + 1 / 10 ^ 30" using error_bound [of d] j(2) by (simp add: d_def)
  also have "\<dots> \<le> 1001 / 2 ^ 53 + 1 / 10 ^ 30" using d1 by (intro add_right_mono divide_right_mono) simp_all
  also have "\<dots> < 1 / 2 / 10 ^ 11" by simp
  also have "\<dots> \<le> 1 / 2 / 10 ^ k" using assms(2) by (intro divide_left_mono power_increasing) simp_all
  finally have near: "\<bar>x - d\<bar> < 1 / 2 / 10 ^ k" .
  have "round_half_away k x = d" by (rule round_near [OF d near])
  then have "d = x" using \<open>round_half_away k x = x\<close> by simp
  then show ?thesis by (simp add: shortest_decimal_def found d_def)
qed

lemma f64_shortest: "f64 y = y \<Longrightarrow> f64 (shortest_decimal y) = y"
  using shortest_decimal_cases [of y] by auto

text \<open>An image price of 0.125, halved thrice by the group, the account and the batch discount, with the hold
  multiplier the administration allows at least, the discount itself.\<close>

definition tight_group :: group_row where
  "tight_group =
     \<lparr>g_ID = 1, g_AllowBatchImageGeneration = True, g_Platform = ''gemini'', g_RateMultiplier = 25 / 100,
      g_ImageRateIndependent = False, g_ImageRateMultiplier = 1, g_BatchImageDiscountMultiplier = 625 / 10000,
      g_BatchImageHoldMultiplier = 625 / 10000, g_ImagePrice1K = Some (125 / 1000), g_ImagePrice2K = None,
      g_ImagePrice4K = None\<rparr>"

definition tight_pricing :: pricing_service where
  "tight_pricing = \<lparr>pc_group = Some (\<lambda>_. Inr (Some tight_group)), pc_user_rate = None, pc_price = None\<rparr>"

definition tight_owner :: BatchImageOwner where
  "tight_owner = \<lparr>ow_UserID = 1, ow_APIKeyID = 7, ow_GroupID = Some 1\<rparr>"

lemma tight_floats:
  "f64 (f64 (f64 (125 / 1000) * f64 (25 / 100)) * f64 (25 / 100)) = 1 / 128"
  "f64 (1 / 128 * f64 (625 / 10000)) = 1 / 2048" "f64 (1 / 2048) = 1 / 2048"
  "f64 (1 / 2048 * 200) = 25 / 256" "f64 (25 / 256) = 25 / 256"
  "round_half_away 10 (1 / 2048) = 4882813 / 10 ^ 10" "round_half_away 10 (25 / 256) = 25 / 256"
  by code_simp+

lemma tight_cost:
  "f64 (computed_cost 200 (4882813 / 10 ^ 10)) = f64 (200 * f64 (4882813 / 10 ^ 10))"
  unfolding computed_cost_def of_int_numeral by (rule f64_shortest) code_simp

lemma tight_exceeds: "exceeds_hold (computed_cost 200 (4882813 / 10 ^ 10)) (25 / 256)"
  unfolding exceeds_hold_def tight_cost by code_simp

lemma tight_shortest: "shortest_decimal (1 / 2048) = 1 / 2048" "shortest_decimal (25 / 256) = 25 / 256"
  by (rule shortest_decimal_scaled [of 11]; simp add: tight_floats on_scale_def)+

theorem full_batch_exceeds_hold:
  assumes "sr_ImageSize req = ''1K''" "length (sr_Items req) = 200"
    and "resolvePricingSnapshot tight_pricing tight_owner req provider (Some (25 / 100)) = Inr snap"
    and "p_BillableUnitPrice params = ps_BillableUnitPrice snap" "p_HoldAmount params = Some (ps_HoldAmount snap)"
  shows "exceeds_hold (computed_cost 200 (j_BillableUnitPrice (new_job_row env jid params)))
    (job_hold_amount (new_job_row env jid params))"
proof -
  have "snap = price_snapshot (125 / 1000) (25 / 100) (25 / 100) (625 / 10000) (625 / 10000) 200"
    using assms(1-3)
    by (simp add: resolvePricingSnapshot_def group_terms_def lookup_group_def tight_pricing_def tight_owner_def
        tight_group_def GetImagePrice_def unit_price_def BillingRateMultiplier_def max_def)
  then have snap: "ps_BillableUnitPrice snap = 1 / 2048" "ps_HoldAmount snap = 25 / 256"
    unfolding price_snapshot_def Let_def tight_floats of_int_numeral
    by (simp_all only: tight_shortest BatchImagePricingSnapshot.select_convs)
  have "j_BillableUnitPrice (new_job_row env jid params) = 4882813 / 10 ^ 10"
    "job_hold_amount (new_job_row env jid params) = 25 / 256"
    using assms(4,5) unfolding snap by (simp_all only: new_job_row_def job_hold_amount_def tight_floats
        BatchImageJob.select_convs option.map option.case)
  then show ?thesis by (simp only: tight_exceeds)
qed

section \<open>Witnesses\<close>

definition one_item :: "int \<Rightarrow> BatchImageSubmitItem" where
  "one_item i = \<lparr>si_CustomID = itoa i, si_Prompt = ''a cat'', si_OutputCount = 0, si_ReferenceImages = []\<rparr>"

definition tight_request :: "nat \<Rightarrow> BatchImageSubmitRequest" where
  "tight_request n = sample_request\<lparr>sr_ImageSize := ''1K'', sr_Items := map (one_item \<circ> int) [0..<n]\<rparr>"

definition priced_params :: "BatchImagePricingSnapshot \<Rightarrow> CreateBatchImageJobParams" where
  "priced_params snap =
     sample_params\<lparr>p_BillableUnitPrice := ps_BillableUnitPrice snap, p_HoldAmount := Some (ps_HoldAmount snap)\<rparr>"

lemma tight_resolved:
  "resolvePricingSnapshot tight_pricing tight_owner (tight_request n) ''gemini_api'' (Some (25 / 100))
    = Inr (price_snapshot (125 / 1000) (25 / 100) (25 / 100) (625 / 10000) (625 / 10000) (int n))"
  by (simp add: resolvePricingSnapshot_def group_terms_def lookup_group_def tight_pricing_def tight_owner_def
      tight_group_def GetImagePrice_def unit_price_def BillingRateMultiplier_def max_def tight_request_def)

theorem hold_covers_cost_witness:
  "\<exists>snap. resolvePricingSnapshot tight_pricing tight_owner (tight_request 1) ''gemini_api'' (Some (25 / 100))
      = Inr snap
    \<and> \<not> exceeds_hold (computed_cost 1 (j_BillableUnitPrice (new_job_row sample_benv 1 (priced_params snap))))
      (job_hold_amount (new_job_row sample_benv 1 (priced_params snap)))"
proof -
  let ?snap = "price_snapshot (125 / 1000) (25 / 100) (25 / 100) (625 / 10000) (625 / 10000) (int 1)"
  have "ps_HoldAmount ?snap \<le> 1000"
    unfolding price_snapshot_def Let_def tight_floats by (simp add: tight_floats tight_shortest)
  then show ?thesis
    using hold_covers_cost [OF tight_resolved [of 1], of "priced_params ?snap" 1 sample_benv 1] tight_resolved [of 1]
    by (simp add: priced_params_def tight_request_def)
qed

theorem full_batch_exceeds_hold_witness:
  "\<exists>snap. exceeds_hold (computed_cost 200 (j_BillableUnitPrice (new_job_row sample_benv 1 (priced_params snap))))
      (job_hold_amount (new_job_row sample_benv 1 (priced_params snap)))"
  using full_batch_exceeds_hold [OF _ _ tight_resolved [of 200], of "priced_params
      (price_snapshot (125 / 1000) (25 / 100) (25 / 100) (625 / 10000) (625 / 10000) (int 200))" sample_benv 1]
  by (auto simp: priced_params_def tight_request_def)

end
