(* ===== verification/BatchImagePublic.thy ===== *)
theory BatchImagePublic
  imports BatchImagePricing BatchImageWorker BatchImageRecovery
begin

text \<open>
  What the owner of a batch sees of it (\<open>backend/internal/service/batch_image_public.go\<close>): the public
  form of jobs and items, the listings with their filters and cursors, and the marks an owner sets.

  Formatting and parsing of dates are parameters.
\<close>

section \<open>Public forms\<close>

definition unix_seconds :: "go_time \<Rightarrow> int" where
  "unix_seconds t = (t - 62135596800 * second_ns) div second_ns"

definition batchImageUnixPtr :: "go_time option \<Rightarrow> int option" where
  "batchImageUnixPtr = map_option unix_seconds"

definition PublicBatchImageStatus :: "string \<Rightarrow> string" where
  "PublicBatchImageStatus status =
     (if status \<in> {BatchImageJobStatusCreated, BatchImageJobStatusUploading, BatchImageJobStatusSubmitted}
      then ''queued''
      else if status = BatchImageJobStatusRunning then ''running''
      else if status = BatchImageJobStatusIndexing then ''processing_results''
      else if status = BatchImageJobStatusSettling then ''settling''
      else if status = BatchImageJobStatusCompleted then ''completed''
      else if status = BatchImageJobStatusFailed then ''failed''
      else if status = BatchImageJobStatusCancelled then ''cancelled''
      else if status = BatchImageJobStatusOutputDeleted then ''output_deleted''
      else status)"

record BatchImagePublicBatch =
  pub_ID :: string
  pub_TaskName :: string
  pub_ParentBatchID :: "string option"
  pub_Status :: string
  pub_Model :: string
  pub_Provider :: string
  pub_ItemCount :: int
  pub_SuccessCount :: int
  pub_FailCount :: int
  pub_EstimatedCost :: decimal
  pub_HoldAmount :: decimal
  pub_ActualCost :: "decimal option"
  pub_CreatedAt :: int
  pub_SubmittedAt :: "int option"
  pub_SettledAt :: "int option"
  pub_DownloadedAt :: "int option"
  pub_OutputDeletedAt :: "int option"

text \<open>\<open>format\<close> is \<open>time.Format\<close> with the layout of the default task name.\<close>

definition batchImagePublicTaskName :: "(go_time \<Rightarrow> string) \<Rightarrow> BatchImageJob \<Rightarrow> string" where
  "batchImagePublicTaskName format job =
     (if trim_space (j_TaskName job) \<noteq> '''' then trim_space (j_TaskName job) else format (j_CreatedAt job))"

definition BatchImageJobToPublic :: "(go_time \<Rightarrow> string) \<Rightarrow> BatchImageJob \<Rightarrow> BatchImagePublicBatch" where
  "BatchImageJobToPublic format job =
     \<lparr>pub_ID = j_BatchID job, pub_TaskName = batchImagePublicTaskName format job,
      pub_ParentBatchID = j_ParentBatchID job, pub_Status = PublicBatchImageStatus (j_Status job),
      pub_Model = j_Model job, pub_Provider = j_Provider job, pub_ItemCount = j_ItemCount job,
      pub_SuccessCount = j_SuccessCount job, pub_FailCount = j_FailCount job,
      pub_EstimatedCost = j_EstimatedCost job, pub_HoldAmount = job_hold_amount job,
      pub_ActualCost = j_ActualCost job, pub_CreatedAt = unix_seconds (j_CreatedAt job),
      pub_SubmittedAt = batchImageUnixPtr (j_SubmittedAt job), pub_SettledAt = batchImageUnixPtr (j_SettledAt job),
      pub_DownloadedAt = batchImageUnixPtr (j_DownloadedAt job),
      pub_OutputDeletedAt = batchImageUnixPtr (j_OutputDeletedAt job)\<rparr>"

definition sanitizeBatchImagePublicMessage :: "string \<Rightarrow> string" where
  "sanitizeBatchImagePublicMessage message =
     (let m = trim_space message;
          shown = (if list_ex (contains m) [''gs://'', ''files/'', ''projects/'']
                   then ''upstream provider operation failed'' else m)
      in take 500 shown)"

record BatchImagePublicItem =
  pit_CustomID :: string
  pit_Status :: string
  pit_PromptPreview :: "string option"
  pit_MimeType :: "string option"
  pit_FileExtension :: "string option"
  pit_ImageCount :: int
  pit_Error :: "(string \<times> string \<times> string) option"

definition batchImageItemErrorSource :: "BatchImageItem \<Rightarrow> string" where
  "batchImageItemErrorSource item =
     (case i_ErrorCode item of None \<Rightarrow> ''''
      | Some code0 \<Rightarrow>
          (let code = trim_space code0 in
           if batchImageDerefString (i_ProviderSourceObject item) \<noteq> '''' then ''provider''
           else if code \<in> {''EMPTY_IMAGE_OUTPUT'', ''PROVIDER_ITEM_FAILED''} then ''provider''
           else if code \<in> {''INDEX_OUTPUT_MISSING'', ''INDEX_PARSE_FAILED'', ''DUPLICATE_CUSTOM_ID_IN_OUTPUT''}
           then ''system'' else ''''))"

definition BatchImageItemStatusPending :: string where
  "BatchImageItemStatusPending = ''pending''"

text \<open>The error is its code, its message and its source.\<close>

definition BatchImageItemToPublic :: "BatchImageItem \<Rightarrow> BatchImagePublicItem" where
  "BatchImageItemToPublic item =
     (let out = \<lparr>pit_CustomID = i_CustomID item, pit_Status = ''failed'', pit_PromptPreview = i_PromptPreview item,
                 pit_MimeType = i_MimeType item, pit_FileExtension = i_FileExtension item,
                 pit_ImageCount = i_ImageCount item, pit_Error = None\<rparr>
      in if i_Status item = BatchImageItemStatusPending then out\<lparr>pit_Status := ''pending''\<rparr>
         else if i_Status item = BatchImageItemStatusSuccess then out\<lparr>pit_Status := ''succeeded''\<rparr>
         else out\<lparr>pit_Error := Some (batchImageDerefString (i_ErrorCode item),
                    sanitizeBatchImagePublicMessage (batchImageDerefString (i_ErrorMessage item)),
                    batchImageItemErrorSource item)\<rparr>)"

section \<open>Listings\<close>

record BatchImageJobsQuery =
  jq_Status :: string
  jq_TaskName :: string
  jq_Downloaded :: string
  jq_From :: string
  jq_To :: string
  jq_Limit :: int
  jq_Cursor :: string

record BatchImageItemsQuery =
  iq_Status :: string
  iq_Limit :: int
  iq_Cursor :: string

definition parseBatchImageCursor :: "string \<Rightarrow> int" where
  "parseBatchImageCursor cursor = (case atoi (trim_space cursor) of None \<Rightarrow> 0 | Some n \<Rightarrow> if n < 0 then 0 else n)"

text \<open>Seconds since 1970, or a date: \<open>parse\<close> is \<open>time.Parse\<close> with the two layouts, in their order.\<close>

definition parseBatchImageListTime :: "(string \<Rightarrow> go_time option) \<Rightarrow> string \<Rightarrow> go_time option" where
  "parseBatchImageListTime parse raw0 =
     (let raw = trim_space raw0 in
      if raw = '''' then None
      else case atoi raw of
        Some n \<Rightarrow> if n > 0 then Some (62135596800 * second_ns + n * second_ns) else parse raw
      | None \<Rightarrow> parse raw)"

definition listed_status :: "string \<Rightarrow> string" where
  "listed_status raw =
     (let s = trim_space raw in
      if s = '''' \<or> s = ''all'' then ''''
      else if s = ''queued'' then BatchImageJobStatusSubmitted
      else if s = ''processing_results'' then BatchImageJobStatusIndexing
      else if s = ''completed'' then BatchImageJobStatusCompleted
      else if s = ''failed'' then BatchImageJobStatusFailed
      else if s = ''cancelled'' then BatchImageJobStatusCancelled
      else if s = ''output_deleted'' then BatchImageJobStatusOutputDeleted
      else s)"

definition listed_downloaded :: "string \<Rightarrow> batch_error + bool option" where
  "listed_downloaded raw =
     (let d = trim_space (lower_ascii raw) in
      if d \<in> {'''', ''all''} then Inr None
      else if d \<in> {''true'', ''1'', ''yes'', ''downloaded''} then Inr (Some True)
      else if d \<in> {''false'', ''0'', ''no'', ''not_downloaded''} then Inr (Some False)
      else Inl ErrBatchImageInvalidItems)"

definition Get ::
  "(go_time \<Rightarrow> string) \<Rightarrow> batch_env \<Rightarrow> BatchImageOwner \<Rightarrow> string \<Rightarrow> BatchImagePublicBatch batch_m" where
  "Get format env owner batchID =
     bm_bind (GetBatchImageJobByBatchIDForOwner env (ow_UserID owner) (ow_APIKeyID owner) batchID)
       (\<lambda>job. bm_return (BatchImageJobToPublic format job))"

text \<open>The page and whether there may be more.\<close>

definition List ::
  "(go_time \<Rightarrow> string) \<Rightarrow> (string \<Rightarrow> go_time option) \<Rightarrow> batch_env \<Rightarrow> BatchImageOwner \<Rightarrow> BatchImageJobsQuery
     \<Rightarrow> (BatchImagePublicBatch list \<times> bool) batch_m" where
  "List format parse env owner q =
     (case listed_downloaded (jq_Downloaded q) of
        Inl e \<Rightarrow> bm_fail e
      | Inr downloaded \<Rightarrow>
          (let limit = (if jq_Limit q \<le> 0 \<or> jq_Limit q > 100 then 20 else jq_Limit q)
           in bm_bind (ListBatchImageJobsForOwner env (ow_UserID owner) (ow_APIKeyID owner)
                \<lparr>fj_Status = listed_status (jq_Status q), fj_TaskNameLike = trim_space (jq_TaskName q),
                 fj_Downloaded = downloaded, fj_CreatedAfter = parseBatchImageListTime parse (jq_From q),
                 fj_CreatedBefore = parseBatchImageListTime parse (jq_To q), fj_ExcludeDeleted = True,
                 fj_Limit = limit, fj_Offset = parseBatchImageCursor (jq_Cursor q)\<rparr>)
              (\<lambda>js. bm_return (map (BatchImageJobToPublic format) js, int (length js) = limit))))"

definition item_status_filter :: "string \<Rightarrow> batch_error + string" where
  "item_status_filter raw =
     (let s = trim_space raw in
      if s \<in> {'''', ''all''} then Inr ''''
      else if s \<in> {''succeeded'', ''success''} then Inr BatchImageItemStatusSuccess
      else if s = ''pending'' then Inr BatchImageItemStatusPending
      else if s = ''failed'' then Inr BatchImageItemStatusFailed
      else Inl ErrBatchImageInvalidItems)"

definition ListItems ::
  "batch_env \<Rightarrow> BatchImageOwner \<Rightarrow> string \<Rightarrow> BatchImageItemsQuery \<Rightarrow> (BatchImagePublicItem list \<times> bool) batch_m" where
  "ListItems env owner batchID q =
     (case item_status_filter (iq_Status q) of
        Inl e \<Rightarrow> bm_fail e
      | Inr status \<Rightarrow>
          (let limit = (if iq_Limit q \<le> 0 \<or> iq_Limit q > 500 then 100 else iq_Limit q)
           in bm_bind (ListBatchImageItemsForOwner env (ow_UserID owner) (ow_APIKeyID owner) batchID
                \<lparr>fi_Status = status, fi_Limit = limit, fi_Offset = parseBatchImageCursor (iq_Cursor q)\<rparr>)
              (\<lambda>is. bm_return (map BatchImageItemToPublic is, int (length is) = limit))))"

section \<open>Marks\<close>

definition MarkDownloaded :: "batch_env \<Rightarrow> batch_env \<Rightarrow> BatchImageOwner \<Rightarrow> string \<Rightarrow> unit batch_m" where
  "MarkDownloaded env env' owner batchID =
     bm_bind (GetBatchImageJobByBatchIDForOwner env (ow_UserID owner) (ow_APIKeyID owner) batchID)
       (\<lambda>job. MarkBatchImageDownloaded env' (j_BatchID job) (b_now env'))"

definition DeleteRecord :: "batch_env \<Rightarrow> batch_env \<Rightarrow> BatchImageOwner \<Rightarrow> string \<Rightarrow> unit batch_m" where
  "DeleteRecord env env' owner batchID =
     bm_bind (GetBatchImageJobByBatchIDForOwner env (ow_UserID owner) (ow_APIKeyID owner) batchID)
       (\<lambda>job. if \<not> isBatchImageProcessorDoneStatus (j_Status job) then bm_fail ErrBatchImageRecordDeleteNotReady
              else MarkBatchImageJobUserDeleted env' (ow_UserID owner) (ow_APIKeyID owner) (j_BatchID job) (b_now env'))"

end
