(* ===== verification/BatchImageSubmit.thy ===== *)
theory BatchImageSubmit
  imports BatchImagePublic
begin

text \<open>
  Submitting and cancelling a batch of images (\<open>backend/internal/service/batch_image_public.go\<close>): the
  composition of the job repository, the hold on the user's balance, the queue and the upstream
  provider.

  The state is the store of jobs and balances, the queue, and the calls made to providers; every
  call meets an environment of its own and may fail.  While the provider takes the submission,
  which may last minutes, heartbeats are written and the rest of the system goes on working.
  The choice of the provider and the account is a parameter.
\<close>

section \<open>State and collaborators\<close>

datatype upstream_call = UpSubmit string | UpCancel "string option" | UpCleanupInput "string option"

record public_store =
  us_store :: batch_store
  us_queue :: queue_db
  us_upstream :: "upstream_call list"

record BatchImageInputItem =
  bi_CustomID :: string
  bi_Prompt :: string
  bi_ReferenceImages :: "BatchImageReferenceInput list"

record BatchImageInput =
  bi_BatchID :: string
  bi_Model :: string
  bi_DisplayName :: string
  bi_ResponseMimeType :: string
  bi_AspectRatio :: string
  bi_ImageSize :: string
  bi_Metadata :: "(string, string) gomap"
  bi_Items :: "BatchImageInputItem list"

record BatchProviderJob =
  pj_ProviderJobName :: string
  pj_ProviderInputRef :: string
  pj_ProviderOutputRef :: string

text \<open>A nil job of a provider is \<open>Inr None\<close>; the result of the cleanup is only logged.\<close>

record 'acct submitter =
  up_submit :: "BatchImageJob \<Rightarrow> 'acct \<Rightarrow> BatchImageInput \<Rightarrow> batch_error + BatchProviderJob option"
  up_cancel :: "BatchImageJob \<Rightarrow> 'acct \<Rightarrow> batch_error option"

text \<open>
  The service: \<open>pu_ready\<close> says that the two repositories are set; \<open>pu_select\<close> chooses a provider,
  under its name, and an account; \<open>pu_reason\<close> is \<open>infraerrors.Reason\<close>.
\<close>

record 'acct public_service =
  pu_conf :: "batch_image_config option"
  pu_ready :: bool
  pu_pricing :: pricing_service
  pu_select :: "BatchImageOwner \<Rightarrow> string \<Rightarrow> string \<Rightarrow> batch_error + (string \<times> 'acct submitter \<times> 'acct)"
  pu_provider :: "string \<Rightarrow> 'acct submitter option"
  pu_account :: "int \<Rightarrow> batch_error + 'acct"
  pu_account_id :: "'acct \<Rightarrow> int"
  pu_account_rate :: "'acct \<Rightarrow> decimal option"
  pu_queue :: "queue_conf option"
  pu_billing :: bool
  pu_auth_cache :: bool
  pu_marshal :: "BatchImageSubmitRequest \<Rightarrow> string"
  pu_sha256 :: "string \<Rightarrow> string"
  pu_format :: "go_time \<Rightarrow> string"
  pu_reason :: "batch_error \<Rightarrow> string"
  pu_error_text :: "batch_error \<Rightarrow> string"
  pu_queue_error_text :: "queue_error \<Rightarrow> string"

text \<open>What happens while the provider works: ticks of the heartbeat, and anything else.\<close>

datatype meanwhile = Tick batch_env | Others "public_store \<Rightarrow> public_store"

record submit_env =
  sm_now :: go_time
  sm_find :: batch_env
  sm_parent :: batch_env
  sm_new_id :: "string option"
  sm_create :: batch_env
  sm_reserve :: billing_env
  sm_items :: batch_env
  sm_upload :: batch_env
  sm_meanwhile :: "meanwhile list"
  sm_submitted :: batch_env
  sm_abort :: batch_env
  sm_queue :: queue_env
  sm_release :: billing_env
  sm_failure :: batch_env
  sm_hide :: batch_env
  sm_retry :: queue_env
  sm_retry_event :: batch_env
  sm_final :: batch_env

type_synonym 'a public_m = "public_store \<Rightarrow> (batch_error + 'a) \<times> public_store"

definition repo :: "'a batch_m \<Rightarrow> 'a public_m" where
  "repo m st = (case on_jobs m (us_store st) of (r, bs) \<Rightarrow> (r, st\<lparr>us_store := bs\<rparr>))"

definition upstream :: "upstream_call \<Rightarrow> public_store \<Rightarrow> public_store" where
  "upstream c st = st\<lparr>us_upstream := us_upstream st @ [c]\<rparr>"

text \<open>\<open>Queue.Enqueue\<close> where a job that is queued already is no error; \<open>None\<close> is success.\<close>

definition enqueue :: "'acct public_service \<Rightarrow> queue_env \<Rightarrow> string \<Rightarrow> public_store \<Rightarrow> queue_error option \<times> public_store" where
  "enqueue s env batchID st =
     (case pu_queue s of None \<Rightarrow> (None, st)
      | Some conf \<Rightarrow>
          (case Enqueue conf env batchID (us_queue st) of
             (Inr u, q) \<Rightarrow> (None, st\<lparr>us_queue := q\<rparr>)
           | (Inl e, q) \<Rightarrow> (if e = ErrBatchImageAlreadyQueued then None else Some e, st\<lparr>us_queue := q\<rparr>)))"

definition enabled :: "'acct public_service \<Rightarrow> bool" where
  "enabled s \<longleftrightarrow> pu_ready s \<and> (case pu_conf s of None \<Rightarrow> False | Some c \<Rightarrow> cf_Enabled c)"

definition invalidate :: "'acct public_service \<Rightarrow> int \<Rightarrow> public_store \<Rightarrow> public_store" where
  "invalidate s userID st =
     (if pu_auth_cache s \<and> userID > 0
      then st\<lparr>us_store := (us_store st)\<lparr>bs_invalidated := bs_invalidated (us_store st) @ [userID]\<rparr>\<rparr> else st)"

definition hold_call ::
  "(billing_db \<Rightarrow> batch_error option \<times> billing_db) \<Rightarrow> public_store \<Rightarrow> batch_error option \<times> public_store" where
  "hold_call f st =
     (case f (bs_billing (us_store st)) of
        (r, bdb) \<Rightarrow> (r, st\<lparr>us_store := (us_store st)\<lparr>bs_billing := bdb\<rparr>\<rparr>))"

text \<open>A call whose result is ignored.\<close>

definition record_failure ::
  "'acct public_service \<Rightarrow> batch_env \<Rightarrow> string \<Rightarrow> string \<Rightarrow> string \<Rightarrow> bool \<Rightarrow> public_store \<Rightarrow> public_store" where
  "record_failure s env batchID code message markFailed st =
     snd (repo (RecordBatchImageJobSubmitFailure env batchID code (sanitizeBatchImagePublicMessage message) markFailed) st)"

definition hidePreUpstreamSubmitFailure ::
  "submit_env \<Rightarrow> BatchImageOwner \<Rightarrow> BatchImageJob \<Rightarrow> public_store \<Rightarrow> public_store" where
  "hidePreUpstreamSubmitFailure env owner job st =
     (if j_ProviderJobName job \<noteq> None then st
      else snd (repo (MarkBatchImageJobUserDeleted (sm_hide env) (ow_UserID owner) (ow_APIKeyID owner)
                        (j_BatchID job) (sm_now env)) st))"

definition enqueueBillingRetry ::
  "'acct public_service \<Rightarrow> queue_env \<Rightarrow> batch_env \<Rightarrow> string \<Rightarrow> public_store \<Rightarrow> public_store" where
  "enqueueBillingRetry s qenv benv batchID st =
     (case enqueue s qenv batchID st of
        (None, st1) \<Rightarrow> st1
      | (Some e, st1) \<Rightarrow>
          snd (repo (AppendBatchImageEvent benv batchID ''billing_retry_enqueue_failed''
                 (Some [(''batch_id'', JStr batchID),
                        (''error'', JStr (sanitizeBatchImagePublicMessage (pu_queue_error_text s e)))])) st1))"

text \<open>\<open>None\<close>: the hold is released.\<close>

definition releaseFailedSubmitHold ::
  "'acct public_service \<Rightarrow> submit_env \<Rightarrow> BatchImageJob \<Rightarrow> string \<Rightarrow> public_store \<Rightarrow> batch_error option \<times> public_store" where
  "releaseFailedSubmitHold s env job requestHash st =
     (case hold_call (releaseBatchImageBalanceHold (pu_billing s) (sm_release env) job requestHash) st of
        (Some e, st1) \<Rightarrow>
          (let st2 = record_failure s (sm_failure env) (j_BatchID job) ''BILLING_RELEASE_FAILED'' (pu_error_text s e) True st1
           in (Some (ErrBatchImageBillingHoldFailed None),
               enqueueBillingRetry s (sm_retry env) (sm_retry_event env) (j_BatchID job) st2))
      | (None, st1) \<Rightarrow> (None, invalidate s (j_UserID job) st1))"

text \<open>Give up a submission: release the hold, note the failure, hide the job.\<close>

definition give_up ::
  "'acct public_service \<Rightarrow> submit_env \<Rightarrow> BatchImageOwner \<Rightarrow> BatchImageJob \<Rightarrow> string \<Rightarrow> string \<Rightarrow> string \<Rightarrow> batch_error
     \<Rightarrow> public_store \<Rightarrow> batch_error \<times> public_store" where
  "give_up s env owner job requestHash code message e st =
     (case releaseFailedSubmitHold s env job requestHash st of
        (Some e', st1) \<Rightarrow> (e', st1)
      | (None, st1) \<Rightarrow>
          (e, hidePreUpstreamSubmitFailure env owner job
                (record_failure s (sm_failure env) (j_BatchID job) code message True st1)))"

section \<open>Submitting\<close>

definition batchImageGCSRef :: "string \<Rightarrow> string \<Rightarrow> string" where
  "batchImageGCSRef provider ref =
     (if provider = ''vertex'' \<and> has_prefix (trim_space ref) ''gs://'' then trim_space ref else '''')"

definition batchImageProviderSubmitPublicError :: "'acct public_service \<Rightarrow> batch_error \<Rightarrow> batch_error" where
  "batchImageProviderSubmitPublicError s e =
     (let reason = trim_space (pu_reason s e) in
      if reason = ''VERTEX_MANAGED_GCS_BUCKET_MISSING'' then ErrBatchImageVertexGCSBucketMissing
      else if reason = ''BATCH_IMAGE_PROVIDER_MISSING_API_KEY'' then ErrBatchImageProviderMissingAPIKey
      else if reason = ''BATCH_IMAGE_PROVIDER_MISSING_SERVICE_ACCOUNT'' then ErrBatchImageProviderMissingServiceAccount
      else if reason = ''BATCH_IMAGE_PROVIDER_UNSUPPORTED_ACCOUNT'' then ErrProviderUnsupportedAccount
      else ErrBatchImageProviderSubmitFailed)"

definition batchImageProviderSubmitRecordCode :: "'acct public_service \<Rightarrow> batch_error \<Rightarrow> string" where
  "batchImageProviderSubmitRecordCode s e =
     (let reason = trim_space (pu_reason s e) in
      if reason = '''' \<or> reason = ''BATCH_IMAGE_PROVIDER_SUBMIT_FAILED'' then ''PROVIDER_SUBMIT_FAILED'' else reason)"

definition submit_params ::
  "BatchImageOwner \<Rightarrow> string \<Rightarrow> string \<Rightarrow> int \<Rightarrow> BatchImageSubmitRequest \<Rightarrow> string option
     \<Rightarrow> BatchImagePricingSnapshot \<Rightarrow> string \<Rightarrow> string \<Rightarrow> CreateBatchImageJobParams" where
  "submit_params owner batchID provider accountID req parent snap key requestHash =
     \<lparr>p_BatchID = batchID, p_UserID = ow_UserID owner, p_APIKeyID = Some (ow_APIKeyID owner),
      p_AccountID = Some accountID, p_Provider = provider, p_Model = sr_Model req, p_TaskName = sr_TaskName req,
      p_ParentBatchID = parent, p_Status = BatchImageJobStatusCreated, p_ProviderJobName = None,
      p_ProviderInputRef = None, p_ProviderOutputRef = None, p_GCSInputURI = None, p_GCSOutputURI = None,
      p_ItemCount = int (length (sr_Items req)), p_SuccessCount = 0, p_FailCount = 0, p_CancelledCount = 0,
      p_EstimatedCost = ps_EstimatedCost snap, p_HoldAmount = Some (ps_HoldAmount snap), p_ActualCost = None,
      p_BaseUnitPrice = ps_BaseUnitPrice snap, p_GroupRateMultiplier = ps_GroupRateMultiplier snap,
      p_AccountRateMultiplier = ps_AccountRateMultiplier snap,
      p_BatchDiscountMultiplier = ps_BatchDiscountMultiplier snap, p_HoldMultiplier = ps_HoldMultiplier snap,
      p_BillableUnitPrice = ps_BillableUnitPrice snap, p_HoldUnitPrice = ps_HoldUnitPrice snap,
      p_PricingSnapshotVersion = 1, p_Currency = ''USD'', p_HoldID = Some (BatchImageHoldRequestID batchID),
      p_IdempotencyKey = batchImageOptionalStringPtr key, p_RequestHash = Some requestHash,
      p_ManifestHash = None, p_SessionID = sr_SessionID req, p_RetryCount = 0, p_OutputExpiresAt = None\<rparr>"

definition pending_items ::
  "batch_image_config option \<Rightarrow> string \<Rightarrow> string \<Rightarrow> BatchImageSubmitItem list \<Rightarrow> CreateBatchImageItemParams list" where
  "pending_items conf batchID requestHash its =
     map (\<lambda>item. \<lparr>c_JobID = batchID, c_CustomID = si_CustomID item, c_Status = BatchImageItemStatusPending,
                  c_RequestHash = Some requestHash,
                  c_PromptPreview = Some (truncateBatchImageMessage (si_Prompt item) (maxPromptChars conf)),
                  c_ProviderSourceObject = None, c_SourceLineNumber = None, c_SourceByteOffset = None,
                  c_SourceByteLength = None, c_MimeType = None, c_FileExtension = None, c_ImageCount = 0,
                  c_ErrorCode = None, c_ErrorMessage = None, c_BilledAmount = None, c_IndexedAt = None\<rparr>) its"

definition createPendingItems ::
  "batch_image_config option \<Rightarrow> batch_env \<Rightarrow> string \<Rightarrow> string \<Rightarrow> BatchImageSubmitItem list \<Rightarrow> unit batch_m" where
  "createPendingItems conf env batchID requestHash its =
     (if its = [] then bm_return () else BulkCreateBatchImageItems env (pending_items conf batchID requestHash its))"

definition batch_input :: "BatchImageJob \<Rightarrow> BatchImageSubmitRequest \<Rightarrow> BatchImageInput" where
  "batch_input job req =
     \<lparr>bi_BatchID = j_BatchID job, bi_Model = sr_Model req, bi_DisplayName = j_BatchID job,
      bi_ResponseMimeType = sr_ResponseMimeType req, bi_AspectRatio = sr_AspectRatio req,
      bi_ImageSize = sr_ImageSize req, bi_Metadata = sr_Metadata req,
      bi_Items = map (\<lambda>i. \<lparr>bi_CustomID = si_CustomID i, bi_Prompt = si_Prompt i,
                           bi_ReferenceImages = si_ReferenceImages i\<rparr>) (sr_Items req)\<rparr>"

definition submitHeartbeatInterval :: "batch_image_config option \<Rightarrow> duration" where
  "submitHeartbeatInterval conf =
     (let staleAfter = (case conf of None \<Rightarrow> 10 * minute_ns
                        | Some c \<Rightarrow> if cf_StaleActiveAfterSeconds c > 0
                                   then int64 (cf_StaleActiveAfterSeconds c * second_ns) else 10 * minute_ns);
          interval = staleAfter div 3
      in if interval < 15 * second_ns then 15 * second_ns else interval)"

fun runSubmitHeartbeat :: "string \<Rightarrow> meanwhile list \<Rightarrow> public_store \<Rightarrow> public_store" where
  "runSubmitHeartbeat batchID [] st = st"
| "runSubmitHeartbeat batchID (Tick env # rest) st =
     runSubmitHeartbeat batchID rest (snd (repo (TouchBatchImageJobSubmitting env batchID) st))"
| "runSubmitHeartbeat batchID (Others f # rest) st = runSubmitHeartbeat batchID rest (f st)"

text \<open>The upstream job exists but the row did not follow: cancel it and delete its input.\<close>

definition abortOrphanProviderJob ::
  "submit_env \<Rightarrow> string \<Rightarrow> BatchImageJob \<Rightarrow> BatchProviderJob \<Rightarrow> public_store \<Rightarrow> public_store" where
  "abortOrphanProviderJob env providerName job pj st =
     (let name = batchImageOptionalStringPtr (pj_ProviderJobName pj)
      in snd (repo (AppendBatchImageEvent (sm_abort env) (j_BatchID job) ''provider_job_aborted_after_submit''
               (Some [(''batch_id'', JStr (j_BatchID job)), (''provider'', JStr providerName)]))
           (upstream (UpCleanupInput name) (upstream (UpCancel name) st))))"

text \<open>After the provider has taken the job: the row, the queue, and the row as it is by then.\<close>

definition submit_accepted ::
  "'acct public_service \<Rightarrow> submit_env \<Rightarrow> string \<Rightarrow> BatchImageJob \<Rightarrow> BatchProviderJob
     \<Rightarrow> BatchImagePublicBatch public_m" where
  "submit_accepted s env providerName job pj st =
     (case repo (UpdateBatchImageJobProviderSubmit (sm_submitted env)
             \<lparr>s_BatchID = j_BatchID job, s_ProviderJobName = pj_ProviderJobName pj,
              s_ProviderInputRef = pj_ProviderInputRef pj, s_ProviderOutputRef = pj_ProviderOutputRef pj,
              s_GCSInputURI = batchImageGCSRef providerName (pj_ProviderInputRef pj),
              s_GCSOutputURI = batchImageGCSRef providerName (pj_ProviderOutputRef pj),
              s_EventPayload = Some [(''provider'', JStr providerName)]\<rparr>) st of
        (Inl e, st1) \<Rightarrow> (Inl e, abortOrphanProviderJob env providerName job pj st1)
      | (Inr u, st1) \<Rightarrow>
          (case enqueue s (sm_queue env) (j_BatchID job) st1 of
             (Some e, st2) \<Rightarrow>
               (Inl ErrBatchImageQueueFailed,
                record_failure s (sm_failure env) (j_BatchID job) ''QUEUE_FAILED'' (pu_queue_error_text s e) False st2)
           | (None, st2) \<Rightarrow>
               (case repo (GetBatchImageJobByBatchID (sm_final env) (j_BatchID job)) st2 of
                  (Inl e, st3) \<Rightarrow> (Inl e, st3)
                | (Inr created, st3) \<Rightarrow> (Inr (BatchImageJobToPublic (pu_format s) created), st3))))"

text \<open>What the provider's answer leads to.\<close>

definition submit_answer ::
  "'acct public_service \<Rightarrow> submit_env \<Rightarrow> BatchImageOwner \<Rightarrow> string \<Rightarrow> string \<Rightarrow> BatchImageJob
     \<Rightarrow> batch_error + BatchProviderJob option \<Rightarrow> BatchImagePublicBatch public_m" where
  "submit_answer s env owner requestHash providerName job answer st =
     (let refused = (\<lambda>code message e. case give_up s env owner job requestHash code message e st of
                                        (e', st1) \<Rightarrow> (Inl e', st1))
      in case answer of
           Inl e \<Rightarrow>
             (let pub = batchImageProviderSubmitPublicError s e
              in refused (batchImageProviderSubmitRecordCode s pub) (pu_error_text s e) pub)
         | Inr None \<Rightarrow>
             refused ''PROVIDER_SUBMIT_FAILED'' ''provider job name missing'' ErrBatchImageProviderSubmitFailed
         | Inr (Some pj) \<Rightarrow>
             (if trim_space (pj_ProviderJobName pj) = ''''
              then refused ''PROVIDER_SUBMIT_FAILED'' ''provider job name missing'' ErrBatchImageProviderSubmitFailed
              else submit_accepted s env providerName job pj st))"

text \<open>A job that is held for and has its items: upload it.\<close>

definition submit_upload ::
  "'acct public_service \<Rightarrow> submit_env \<Rightarrow> BatchImageOwner \<Rightarrow> BatchImageSubmitRequest \<Rightarrow> string \<Rightarrow> string
     \<Rightarrow> 'acct submitter \<Rightarrow> 'acct \<Rightarrow> BatchImageJob \<Rightarrow> BatchImagePublicBatch public_m" where
  "submit_upload s env owner req requestHash providerName provider account job st =
     (case repo (TransitionBatchImageJobStatus (sm_upload env) (j_BatchID job) BatchImageJobStatusUploading
             (transition_options ''upload_started'' (Some [(''batch_id'', JStr (j_BatchID job))]) None None)) st of
        (Inl e, st1) \<Rightarrow>
          (case releaseFailedSubmitHold s env job requestHash st1 of
             (Some e', st2) \<Rightarrow> (Inl e', st2)
           | (None, st2) \<Rightarrow>
               (Inl e, if e = ErrBatchImageInvalidTransition then st2
                       else hidePreUpstreamSubmitFailure env owner job
                              (record_failure s (sm_failure env) (j_BatchID job) ''UPLOAD_TRANSITION_FAILED''
                                 (pu_error_text s e) True st2)))
      | (Inr u, st1) \<Rightarrow>
          (let job1 = job\<lparr>j_Status := BatchImageJobStatusUploading\<rparr>
           in submit_answer s env owner requestHash providerName job1
                (up_submit provider job1 account (batch_input job req))
                (runSubmitHeartbeat (j_BatchID job) (sm_meanwhile env) (upstream (UpSubmit (j_BatchID job)) st1))))"

text \<open>The row exists: hold the amount and create the items.\<close>

definition submit_created ::
  "'acct public_service \<Rightarrow> submit_env \<Rightarrow> BatchImageOwner \<Rightarrow> BatchImageSubmitRequest \<Rightarrow> string \<Rightarrow> string
     \<Rightarrow> 'acct submitter \<Rightarrow> 'acct \<Rightarrow> BatchImageJob \<Rightarrow> BatchImagePublicBatch public_m" where
  "submit_created s env owner req requestHash providerName provider account job st =
     (case hold_call (reserveBatchImageBalanceHold (pu_billing s) (sm_reserve env) job requestHash) st of
        (Some e, st1) \<Rightarrow>
          (Inl e, hidePreUpstreamSubmitFailure env owner job
                    (record_failure s (sm_failure env) (j_BatchID job)
                       (if e = ErrInsufficientBalance then ''INSUFFICIENT_BALANCE'' else ''BILLING_HOLD_FAILED'')
                       (pu_error_text s e) True st1))
      | (None, st1) \<Rightarrow>
          (let st2 = invalidate s (ow_UserID owner) st1
           in case repo (createPendingItems (pu_conf s) (sm_items env) (j_BatchID job) requestHash (sr_Items req)) st2 of
                (Inl e, st3) \<Rightarrow>
                  (case give_up s env owner job requestHash ''ITEM_CREATE_FAILED'' (pu_error_text s e)
                          ErrBatchImageQueueFailed st3 of (e', st4) \<Rightarrow> (Inl e', st4))
              | (Inr u, st3) \<Rightarrow> submit_upload s env owner req requestHash providerName provider account job st3))"

text \<open>The parent of the batch: the one that is named, or that one's own parent.\<close>

definition submit_parent ::
  "submit_env \<Rightarrow> BatchImageOwner \<Rightarrow> string \<Rightarrow> string option public_m" where
  "submit_parent env owner name st =
     (case batchImageOptionalStringPtr name of
        None \<Rightarrow> (Inr None, st)
      | Some pid \<Rightarrow>
          (case repo (GetBatchImageJobByBatchIDForOwner (sm_parent env) (ow_UserID owner) (ow_APIKeyID owner) pid) st of
             (Inl e, st1) \<Rightarrow> (Inl e, st1)
           | (Inr parent, st1) \<Rightarrow>
               (Inr (case j_ParentBatchID parent of
                       None \<Rightarrow> Some pid
                     | Some g \<Rightarrow> if trim_space g \<noteq> '''' then Some (trim_space g) else Some pid), st1)))"

definition submit_new ::
  "'acct public_service \<Rightarrow> submit_env \<Rightarrow> BatchImageOwner \<Rightarrow> BatchImageSubmitRequest \<Rightarrow> string \<Rightarrow> string
     \<Rightarrow> BatchImagePublicBatch public_m" where
  "submit_new s env owner req requestHash key st =
     (case pu_select s owner (sr_Provider req) (sr_Model req) of
        Inl e \<Rightarrow> (Inl e, st)
      | Inr (providerName, provider, account) \<Rightarrow>
          (case resolvePricingSnapshot (pu_pricing s) owner req providerName (pu_account_rate s account) of
             Inl e \<Rightarrow> (Inl e, st)
           | Inr snap \<Rightarrow>
               (case submit_parent env owner (sr_ParentBatchID req) st of
                  (Inl e, st1) \<Rightarrow> (Inl e, st1)
                | (Inr parent, st1) \<Rightarrow>
                    (case sm_new_id env of
                       None \<Rightarrow> (Inl RandError, st1)
                     | Some batchID \<Rightarrow>
                         (case repo (CreateBatchImageJob (sm_create env)
                                 (submit_params owner batchID providerName (pu_account_id s account) req parent snap
                                    key requestHash)) st1 of
                            (Inl e, st2) \<Rightarrow> (Inl e, st2)
                          | (Inr job, st2) \<Rightarrow>
                              submit_created s env owner req requestHash providerName provider account job st2)))))"

text \<open>A request whose key is on record.\<close>

definition submit_replay ::
  "'acct public_service \<Rightarrow> submit_env \<Rightarrow> BatchImageJob \<Rightarrow> string \<Rightarrow> BatchImagePublicBatch public_m" where
  "submit_replay s env job requestHash st =
     (if batchImageDerefString (j_RequestHash job) \<noteq> requestHash then (Inl ErrBatchImageIdempotencyConflict, st)
      else if j_Status job = BatchImageJobStatusSubmitted
      then (case enqueue s (sm_queue env) (j_BatchID job) st of
              (Some e, st1) \<Rightarrow>
                (Inl ErrBatchImageQueueFailed,
                 record_failure s (sm_failure env) (j_BatchID job) ''QUEUE_FAILED'' (pu_queue_error_text s e) False st1)
            | (None, st1) \<Rightarrow> (Inr (BatchImageJobToPublic (pu_format s) job), st1))
      else (Inr (BatchImageJobToPublic (pu_format s) job), st))"

definition Submit ::
  "'acct public_service \<Rightarrow> submit_env \<Rightarrow> BatchImageOwner \<Rightarrow> BatchImageSubmitRequest \<Rightarrow> string
     \<Rightarrow> BatchImagePublicBatch public_m" where
  "Submit s env owner req0 key0 st =
     (if \<not> enabled s then (Inl ErrBatchImageDisabled, st)
      else case validateSubmitRequest (pu_conf s) (pu_format s (sm_now env)) req0 of
        Inl e \<Rightarrow> (Inl e, st)
      | Inr req \<Rightarrow>
          (case ensureGroupAllowsBatchImage (pu_pricing s) (ow_GroupID owner) of
             Some e \<Rightarrow> (Inl e, st)
           | None \<Rightarrow>
               (let requestHash = HashBatchImageSubmitRequest (pu_marshal s) (pu_sha256 s) req; key = trim_space key0
                in if key = '''' then submit_new s env owner req requestHash key st
                   else case repo (GetBatchImageJobByIdempotencyKey (sm_find env) (ow_UserID owner) (ow_APIKeyID owner) key) st of
                     (Inr job, st1) \<Rightarrow> submit_replay s env job requestHash st1
                   | (Inl e, st1) \<Rightarrow>
                       if e = ErrBatchImageJobNotFound then submit_new s env owner req requestHash key st1
                       else (Inl e, st1))))"

section \<open>Cancelling\<close>

record cancel_env =
  ca_get :: batch_env
  ca_release :: billing_env
  ca_retry :: queue_env
  ca_retry_event :: batch_env
  ca_event :: batch_env
  ca_queue :: queue_env
  ca_transition :: batch_env
  ca_final :: batch_env

definition cancel_release ::
  "'acct public_service \<Rightarrow> cancel_env \<Rightarrow> int \<Rightarrow> BatchImageJob \<Rightarrow> public_store \<Rightarrow> batch_error option \<times> public_store" where
  "cancel_release s env userID job st =
     (case hold_call (releaseBatchImageBalanceHold (pu_billing s) (ca_release env) job
                        (batchImageDerefString (j_RequestHash job))) st of
        (Some e, st1) \<Rightarrow>
          (Some ErrBatchImageCancelFailed,
           enqueueBillingRetry s (ca_retry env) (ca_retry_event env) (j_BatchID job) st1)
      | (None, st1) \<Rightarrow> (None, invalidate s userID st1))"

definition cancel_view ::
  "'acct public_service \<Rightarrow> cancel_env \<Rightarrow> BatchImageOwner \<Rightarrow> string \<Rightarrow> BatchImagePublicBatch public_m" where
  "cancel_view s env owner batchID st =
     (case repo (GetBatchImageJobByBatchIDForOwner (ca_final env) (ow_UserID owner) (ow_APIKeyID owner) batchID) st of
        (Inl e, st1) \<Rightarrow> (Inl e, st1)
      | (Inr updated, st1) \<Rightarrow> (Inr (BatchImageJobToPublic (pu_format s) updated), st1))"

text \<open>A job the provider has: ask the provider, and have the worker look.\<close>

definition cancel_submitted ::
  "'acct public_service \<Rightarrow> cancel_env \<Rightarrow> BatchImageOwner \<Rightarrow> string \<Rightarrow> BatchImageJob \<Rightarrow> BatchImagePublicBatch public_m" where
  "cancel_submitted s env owner batchID job st =
     (case pu_provider s (j_Provider job) of
        None \<Rightarrow> (Inl ErrBatchImageUnsupportedProvider, st)
      | Some provider \<Rightarrow>
          (case j_AccountID job of
             None \<Rightarrow> (Inl ErrBatchImageCancelFailed, st)
           | Some aid \<Rightarrow>
               (case pu_account s aid of
                  Inl e \<Rightarrow> (Inl ErrBatchImageCancelFailed, st)
                | Inr account \<Rightarrow>
                    (let st1 = upstream (UpCancel (j_ProviderJobName job)) st
                     in if up_cancel provider job account \<noteq> None then (Inl ErrBatchImageCancelFailed, st1)
                        else
                          let st2 = snd (repo (AppendBatchImageEvent (ca_event env) (j_BatchID job)
                                        ''job_cancel_requested'' (Some [(''batch_id'', JStr (j_BatchID job))])) st1)
                          in case enqueue s (ca_queue env) (j_BatchID job) st2 of
                               (Some e, st3) \<Rightarrow> (Inl ErrBatchImageCancelFailed, st3)
                             | (None, st3) \<Rightarrow> cancel_view s env owner batchID st3))))"

definition Cancel ::
  "'acct public_service \<Rightarrow> cancel_env \<Rightarrow> BatchImageOwner \<Rightarrow> string \<Rightarrow> BatchImagePublicBatch public_m" where
  "Cancel s env owner batchID st =
     (case repo (GetBatchImageJobByBatchIDForOwner (ca_get env) (ow_UserID owner) (ow_APIKeyID owner) batchID) st of
        (Inl e, st1) \<Rightarrow> (Inl e, st1)
      | (Inr job, st1) \<Rightarrow>
          if isBatchImageProcessorDoneStatus (j_Status job) then
            (if j_Status job = BatchImageJobStatusFailed \<or> j_Status job = BatchImageJobStatusCancelled
             then (case cancel_release s env (ow_UserID owner) job st1 of
                     (Some e, st2) \<Rightarrow> (Inl e, st2)
                   | (None, st2) \<Rightarrow> (Inr (BatchImageJobToPublic (pu_format s) job), st2))
             else (Inr (BatchImageJobToPublic (pu_format s) job), st1))
          else if batchImageDerefString (j_ProviderJobName job) \<noteq> ''''
          then cancel_submitted s env owner batchID job st1
          else (case repo (TransitionBatchImageJobStatus (ca_transition env) (j_BatchID job) BatchImageJobStatusCancelled
                       (transition_options ''job_cancelled'' (Some [(''batch_id'', JStr (j_BatchID job))]) None None)) st1 of
                  (Inl e, st2) \<Rightarrow> (Inl e, st2)
                | (Inr u, st2) \<Rightarrow>
                    (case cancel_release s env (ow_UserID owner) job st2 of
                       (Some e, st3) \<Rightarrow> (Inl e, st3)
                     | (None, st3) \<Rightarrow> cancel_view s env owner batchID st3)))"

end
