(* ===== verification/BatchImageSubmission.thy ===== *)
theory BatchImageSubmission
  imports BatchImageSubmit
begin

text \<open>
  That a submission and the money held for it belong together: what a submission that succeeds, one
  that is refused and one that loses a race against a cancellation leave behind, and that under
  any faults no hold is taken without a job on record.
\<close>

section \<open>Frames\<close>

lemma repo_frame [simp]:
  "us_queue (snd (repo m st)) = us_queue st" "us_upstream (snd (repo m st)) = us_upstream st"
  "bs_billing (us_store (snd (repo m st))) = bs_billing (us_store st)"
  by (simp_all add: repo_def on_jobs_def split: prod.split)

lemma repo_jobs: "bs_jobs (us_store (snd (repo m st))) = snd (m (bs_jobs (us_store st)))"
  by (simp add: repo_def on_jobs_def split: prod.split)

lemma repo_result: "fst (repo m st) = fst (m (bs_jobs (us_store st)))"
  by (simp add: repo_def on_jobs_def split: prod.split)

lemma hold_call_frame [simp]:
  "us_queue (snd (hold_call f st)) = us_queue st" "us_upstream (snd (hold_call f st)) = us_upstream st"
  "bs_jobs (us_store (snd (hold_call f st))) = bs_jobs (us_store st)"
  by (simp_all add: hold_call_def split: prod.split)

lemma hold_call_parts:
  "fst (hold_call f st) = fst (f (bs_billing (us_store st)))"
  "bs_billing (us_store (snd (hold_call f st))) = snd (f (bs_billing (us_store st)))"
  by (simp_all add: hold_call_def split: prod.split)

lemma submit_enqueue_frame [simp]:
  "us_store (snd (enqueue s env b st)) = us_store st" "us_upstream (snd (enqueue s env b st)) = us_upstream st"
  by (simp_all add: enqueue_def split: option.split prod.split sum.split)

lemma invalidate_frame [simp]:
  "us_queue (invalidate s u st) = us_queue st" "us_upstream (invalidate s u st) = us_upstream st"
  "bs_jobs (us_store (invalidate s u st)) = bs_jobs (us_store st)"
  "bs_billing (us_store (invalidate s u st)) = bs_billing (us_store st)"
  by (simp_all add: invalidate_def)

lemma upstream_frame [simp]:
  "us_queue (upstream c st) = us_queue st" "us_upstream (upstream c st) = us_upstream st @ [c]"
  "us_store (upstream c st) = us_store st"
  by (simp_all add: upstream_def)

lemma record_failure_frame [simp]:
  "us_queue (record_failure s env b code m mark st) = us_queue st"
  "us_upstream (record_failure s env b code m mark st) = us_upstream st"
  "bs_billing (us_store (record_failure s env b code m mark st)) = bs_billing (us_store st)"
  by (simp_all add: record_failure_def)

lemma hide_frame [simp]:
  "us_queue (hidePreUpstreamSubmitFailure env owner job st) = us_queue st"
  "us_upstream (hidePreUpstreamSubmitFailure env owner job st) = us_upstream st"
  "bs_billing (us_store (hidePreUpstreamSubmitFailure env owner job st)) = bs_billing (us_store st)"
  by (simp_all add: hidePreUpstreamSubmitFailure_def)

lemma retry_frame [simp]:
  "us_upstream (enqueueBillingRetry s qenv benv b st) = us_upstream st"
  "bs_billing (us_store (enqueueBillingRetry s qenv benv b st)) = bs_billing (us_store st)"
proof -
  obtain r st1 where e: "enqueue s qenv b st = (r, st1)" by (cases "enqueue s qenv b st")
  then have "us_store st1 = us_store st" "us_upstream st1 = us_upstream st"
    using submit_enqueue_frame [of s qenv b st] by simp_all
  with e show "us_upstream (enqueueBillingRetry s qenv benv b st) = us_upstream st"
    "bs_billing (us_store (enqueueBillingRetry s qenv benv b st)) = bs_billing (us_store st)"
    by (cases r; simp add: enqueueBillingRetry_def)+
qed

lemma abort_frame [simp]:
  "us_queue (abortOrphanProviderJob env name job pj st) = us_queue st"
  "bs_billing (us_store (abortOrphanProviderJob env name job pj st)) = bs_billing (us_store st)"
  "us_upstream (abortOrphanProviderJob env name job pj st) = us_upstream st @
     [UpCancel (batchImageOptionalStringPtr (pj_ProviderJobName pj)),
      UpCleanupInput (batchImageOptionalStringPtr (pj_ProviderJobName pj))]"
  by (simp_all add: abortOrphanProviderJob_def Let_def)

section \<open>The repository calls of a submission, without failing statements\<close>

lemma create_quiet:
  assumes "batch_quiet env" "IsSupportedBatchImageProvider (p_Provider p)" "p_BatchID p = b" "b \<noteq> []"
    and "p_Status p \<noteq> []" "p_Currency p \<noteq> []" "p_ManifestHash p = None"
    and "unique_db db" "find_job b db = None"
  shows "\<exists>db'. CreateBatchImageJob env p db = (Inr (new_job_row env (next_job_id db) p), db')
    \<and> changed_job b (new_job_row env (next_job_id db) p) db db' \<and> items db' = items db"
proof -
  let ?j = "new_job_row env (next_job_id db) p"
  let ?db' = "db\<lparr>jobs := jobs db @ [?j], next_job_id := next_job_id db + 1\<rparr>"
  have j: "j_BatchID ?j = b" "j_ManifestHash ?j = None" using assms(3,7) by (simp_all add: new_job_row_def)
  have new: "b \<notin> j_BatchID ` set (jobs db)" using assms(9) by (auto simp: find_job_def find_None_iff)
  have "unique_jobs (jobs db @ [?j])"
    using assms(8) new j by (auto simp: unique_db_def unique_jobs_def manifest_keys_def)
  moreover have "create_defaults p = p" "p\<lparr>p_BatchID := b\<rparr> = p"
    using assms(3,5,6) by (simp_all add: create_defaults_def Let_def)
  ultimately have call: "CreateBatchImageJob env p db = (Inr ?j, ?db')" and u: "unique_db ?db'"
    using assms(1-4) by (simp_all add: CreateBatchImageJob_def bm_bind_def bm_simps bm_translate_def
        createBatchImageJobWithSQL_def Let_def unique_db_def)
  have find_app: "find P (xs @ [x]) = (case find P xs of None \<Rightarrow> if P x then Some x else None | r \<Rightarrow> r)" for P :: "BatchImageJob \<Rightarrow> bool" and xs x
    by (induction xs) auto
  have "changed_job b ?j db ?db'"
    using u assms(9) j(1) unfolding changed_job_def find_job_def by (auto simp: find_app split: option.split)
  then show ?thesis using call by auto
qed

lemma create_pending_items_quiet:
  assumes "batch_quiet env" "b \<in> j_BatchID ` set (jobs db)" "\<forall>p\<in>set ps. c_JobID p = b"
    and "distinct (map c_CustomID ps)" "\<forall>p\<in>set ps. \<forall>i\<in>set (items db). i_JobID i = b \<longrightarrow> i_CustomID i \<noteq> c_CustomID p"
  shows "\<exists>db' new. create_items env ps db = (Inr (), db') \<and> jobs db' = jobs db \<and> items db' = items db @ new
    \<and> map (\<lambda>i. (i_JobID i, i_CustomID i, i_Status i)) new = map (\<lambda>p. (c_JobID p, c_CustomID p, c_Status p)) ps"
  using assms(2-)
proof (induction ps arbitrary: db)
  case Nil
  then show ?case by (simp add: bm_simps)
next
  case (Cons p ps)
  have key: "(c_JobID p, c_CustomID p) \<notin> (\<lambda>i. (i_JobID i, i_CustomID i)) ` set (items db)"
    using Cons.prems(2,4) by auto
  obtain i db1 where one: "CreateBatchImageItem env p db = (Inr i, db1)" and "jobs db1 = jobs db"
      "items db1 = items db @ [i]" "i_JobID i = c_JobID p" "i_CustomID i = c_CustomID p" "i_Status i = c_Status p"
    using assms(1) Cons.prems(1,2) key
    by (simp add: CreateBatchImageItem_def createBatchImageItemWithSQL_def bm_translate_def Let_def)
  note db1 = this(2-)
  obtain db' new where rest: "create_items env ps db1 = (Inr (), db')" "jobs db' = jobs db1"
      "items db' = items db1 @ new"
      "map (\<lambda>i. (i_JobID i, i_CustomID i, i_Status i)) new = map (\<lambda>p. (c_JobID p, c_CustomID p, c_Status p)) ps"
    using Cons.IH [of db1] Cons.prems db1 by (auto simp: image_iff)
  show ?case
    by (intro exI [of _ db'] exI [of _ "i # new"]) (use one rest db1 in \<open>simp add: bm_bind_def\<close>)
qed

lemma pending_items_quiet:
  assumes "batch_quiet env" "find_job b db = Some j" "distinct (map si_CustomID its)"
    and "\<forall>i\<in>set (items db). i_JobID i \<noteq> b"
  shows "\<exists>db' new. createPendingItems conf env b h its db = (Inr (), db') \<and> jobs db' = jobs db
    \<and> items db' = items db @ new
    \<and> map (\<lambda>i. (i_JobID i, i_CustomID i, i_Status i)) new
      = map (\<lambda>item. (b, si_CustomID item, BatchImageItemStatusPending)) its"
proof (cases "its = []")
  case False
  have ids: "map c_CustomID (pending_items conf b h its) = map si_CustomID its"
    "map (\<lambda>p. (c_JobID p, c_CustomID p, c_Status p)) (pending_items conf b h its)
      = map (\<lambda>item. (b, si_CustomID item, BatchImageItemStatusPending)) its"
    by (simp_all add: pending_items_def)
  have owned: "\<forall>p\<in>set (pending_items conf b h its). c_JobID p = b" by (auto simp: pending_items_def)
  have "b \<in> j_BatchID ` set (jobs db)" using find_job_mem [OF assms(2)] by auto
  then obtain db' new where
    "create_items env (pending_items conf b h its) db = (Inr (), db')" "jobs db' = jobs db"
    "items db' = items db @ new"
    "map (\<lambda>i. (i_JobID i, i_CustomID i, i_Status i)) new
      = map (\<lambda>p. (c_JobID p, c_CustomID p, c_Status p)) (pending_items conf b h its)"
    using create_pending_items_quiet [OF assms(1), of b db "pending_items conf b h its"] assms(3,4) ids(1) owned by auto
  note created = this
  have "pending_items conf b h its \<noteq> []" using False by (simp add: pending_items_def)
  then have "createPendingItems conf env b h its db = (Inr (), db')"
    using tx_quiet [where m = "create_items env (pending_items conf b h its)", OF assms(1) created(1)] False
    by (simp add: createPendingItems_def BulkCreateBatchImageItems_def)
  with created ids(2) show ?thesis by auto
qed (simp add: createPendingItems_def bm_simps)

lemma submit_update_quiet:
  assumes "batch_quiet env" "unique_db db" "find_job b db = Some j" "s_BatchID p = b"
    and "CanTransitionBatchImageJob (j_Status j) BatchImageJobStatusSubmitted"
  shows "\<exists>db'. UpdateBatchImageJobProviderSubmit env p db = (Inr (), db')
    \<and> changed_job b (provider_submit_row (b_now env) p j) db db'"
proof -
  obtain db1 db2 n where up:
    "update_jobs env (\<lambda>j. j_BatchID j = b) (provider_submit_row (b_now env) p) db = (Inr (Suc n), db1)"
    "appendBatchImageEventWithSQL env b ''provider_submitted'' (s_EventPayload p) db1 = (Inr (), db2)"
    and ch: "changed_job b (provider_submit_row (b_now env) p j) db db2"
    using update_then_event [where P = "\<lambda>j. j_BatchID j = b" and f = "provider_submit_row (b_now env) p"
        and ty = "''provider_submitted''" and p = "s_EventPayload p", OF assms(1-3)] find_job_mem [OF assms(3)]
    unfolding changed_job_def by (auto simp: provider_submit_row_def)
  have "updateBatchImageJobProviderSubmitWithSQL env p db = (Inr (), db2)"
    using assms up by (simp add: updateBatchImageJobProviderSubmitWithSQL_def bm_bind_def lock_quiet)
  from tx_quiet [where m = "updateBatchImageJobProviderSubmitWithSQL env p", OF assms(1) this] ch show ?thesis unfolding UpdateBatchImageJobProviderSubmit_def by blast
qed

lemma submit_update_refused:
  assumes "batch_quiet env" "find_job b db = Some j" "s_BatchID p = b"
    and "\<not> CanTransitionBatchImageJob (j_Status j) BatchImageJobStatusSubmitted"
  shows "UpdateBatchImageJobProviderSubmit env p db = (Inl ErrBatchImageInvalidTransition, db)"
proof -
  have "updateBatchImageJobProviderSubmitWithSQL env p db = (Inl ErrBatchImageInvalidTransition, db)"
    using assms by (simp add: updateBatchImageJobProviderSubmitWithSQL_def bm_bind_def lock_quiet bm_simps)
  then show ?thesis
    using assms(1) by (simp add: UpdateBatchImageJobProviderSubmit_def bm_tx_def batch_quiet_def)
qed

lemma submit_failure_quiet:
  assumes "batch_quiet env" "unique_db db" "find_job b db = Some j"
  shows "\<exists>db'. RecordBatchImageJobSubmitFailure env b c m mark db = (Inr (), db')
    \<and> changed_job b (submit_failure_row (b_now env) c m mark j) db db'"
proof -
  let ?ty = "if \<not> mark then ''queue_failed'' else ''submit_failed''"
  obtain db1 db2 n where up:
    "update_jobs env (\<lambda>j. j_BatchID j = b) (submit_failure_row (b_now env) c m mark) db = (Inr (Suc n), db1)"
    "appendBatchImageEventWithSQL env b ?ty (Some [(''error_code'', JStr c)]) db1 = (Inr (), db2)"
    and ch: "changed_job b (submit_failure_row (b_now env) c m mark j) db db2"
    using update_then_event [where P = "\<lambda>j. j_BatchID j = b" and f = "submit_failure_row (b_now env) c m mark"
        and ty = ?ty and p = "Some [(''error_code'', JStr c)]", OF assms] find_job_mem [OF assms(3)]
    unfolding changed_job_def by (auto simp: submit_failure_row_def Let_def)
  have "RecordBatchImageJobSubmitFailure env b c m mark db = (Inr (), db2)"
    unfolding RecordBatchImageJobSubmitFailure_def bm_bind_def using up by simp
  with ch show ?thesis by blast
qed

lemma user_deleted_quiet:
  assumes "batch_quiet env" "unique_db db" "find_job b db = Some j" "j_UserID j = u" "j_APIKeyID j = Some k"
    and "j_UserDeletedAt j = None" "terminal_in_sql j"
  shows "\<exists>db'. MarkBatchImageJobUserDeleted env u k b t db = (Inr (), db')
    \<and> changed_job b (user_deleted_row t j) db db'"
proof -
  let ?P = "\<lambda>j. j_BatchID j = b \<and> j_UserID j = u \<and> j_APIKeyID j = Some k \<and> j_UserDeletedAt j = None
    \<and> terminal_in_sql j"
  let ?p = "Some [(''batch_id'', JStr b), (''deleted_at'', JTime t), (''user_id'', JInt u), (''api_key_id'', JInt k)]"
  have b: "j_BatchID j = b" using find_job_mem [OF assms(3)] by simp
  have Pj: "?P j" using assms(4-7) b by (simp only: simp_thms)
  obtain db1 db2 n where up: "update_jobs env ?P (user_deleted_row t) db = (Inr (Suc n), db1)"
    "appendBatchImageEventWithSQL env b ''user_record_deleted'' ?p db1 = (Inr (), db2)"
    and ch: "changed_job b (user_deleted_row t j) db db2"
    using update_then_event [where P = ?P and f = "user_deleted_row t" and ty = "''user_record_deleted''"
        and p = ?p, OF assms(1-3) Pj] b
    unfolding changed_job_def by (auto simp: user_deleted_row_def)
  have "MarkBatchImageJobUserDeleted env u k b t db = (Inr (), db2)"
    unfolding MarkBatchImageJobUserDeleted_def bm_bind_def using up by (simp add: must_affect_def bm_simps)
  with ch show ?thesis by blast
qed

lemma repo_Inr: "m (bs_jobs (us_store st)) = (Inr x, db') \<Longrightarrow>
   repo m st = (Inr x, st\<lparr>us_store := (us_store st)\<lparr>bs_jobs := db'\<rparr>\<rparr>)"
  by (simp add: repo_def on_jobs_def)

lemma repo_Inl: "m (bs_jobs (us_store st)) = (Inl e, db') \<Longrightarrow>
   repo m st = (Inl e, st\<lparr>us_store := (us_store st)\<lparr>bs_jobs := db'\<rparr>\<rparr>)"
  by (simp add: repo_def on_jobs_def)

end
