(* ===== verification/BatchImageCancel.thy ===== *)
theory BatchImageCancel
  imports BatchImageSubmission
begin

text \<open>
  Cancelling a batch the provider does not have yet, also while its submission is under way: the
  user gets the hold back, and a submission that loses the race takes the upstream job down again.
\<close>

section \<open>Cancelling a job the provider does not have\<close>

lemma find_only: "\<forall>i\<in>set xs. P i \<longrightarrow> i = x \<Longrightarrow> P x \<Longrightarrow> x \<in> set xs \<Longrightarrow> find P xs = Some x"
proof (induction xs)
  case (Cons a xs)
  show ?case
  proof (cases "P a")
    case True
    then have "a = x" using Cons.prems(1) by (meson list.set_intros(1))
    with True show ?thesis by (simp only: find.simps if_True)
  next
    case False
    then have "x \<in> set xs" "\<forall>i\<in>set xs. P i \<longrightarrow> i = x" using Cons.prems by (metis set_ConsD, meson list.set_intros(2))
    with False Cons.IH [OF this(2) Cons.prems(2) this(1)] show ?thesis by (simp only: find.simps if_False)
  qed
qed simp

lemma owner_get_keeps_jobs:
  "jobs (bs_jobs (us_store (snd (repo (GetBatchImageJobByBatchIDForOwner env u k b) st)))) = jobs (bs_jobs (us_store st))"
proof -
  have "keeps_jobs (GetBatchImageJobByBatchIDForOwner env u k b)"
    by (simp add: GetBatchImageJobByBatchIDForOwner_def get_job_def)
  then show ?thesis by (simp add: repo_jobs keeps_jobs_def)
qed

lemma owner_quiet:
  assumes "batch_quiet env" "unique_db db" "find_job b db = Some j" "j_UserID j = u" "j_APIKeyID j = Some k"
    "j_UserDeletedAt j = None"
  shows "GetBatchImageJobByBatchIDForOwner env u k b db = (Inr j, db)"
proof -
  let ?P = "\<lambda>j. j_BatchID j = b \<and> j_UserID j = u \<and> j_APIKeyID j = Some k \<and> j_UserDeletedAt j = None"
  have j: "j \<in> set (jobs db)" "j_BatchID j = b" using find_job_mem [OF assms(3)] by auto
  have "\<forall>i\<in>set (jobs db). ?P i \<longrightarrow> i = j"
  proof (intro ballI impI)
    fix i assume "i \<in> set (jobs db)" "?P i"
    then have "find_job b db = Some i" using find_job_unique [OF assms(2), of i] by (simp only:)
    then show "i = j" using assms(3) by simp
  qed
  moreover have "?P j" by (simp only: assms(4-6) j(2) simp_thms)
  ultimately have "find ?P (jobs db) = Some j" using j(1) by (rule find_only)
  then have "select_job env BSelectJob ?P db = (Inr j, db)"
    by (simp only: select_job_def quiet_stmt [OF assms(1)] option.case)
  then show ?thesis
    by (simp only: GetBatchImageJobByBatchIDForOwner_def get_job_def bm_translate_def prod.case sum.case)
qed

text \<open>What the cancellation of such a job leaves.\<close>

definition cancelled_back :: "string \<Rightarrow> BatchImageJob \<Rightarrow> user_row \<Rightarrow> public_store \<Rightarrow> public_store \<Rightarrow> bool" where
  "cancelled_back b job u st st' \<longleftrightarrow>
     (\<exists>j. changed_job b j (bs_jobs (us_store st)) (bs_jobs (us_store st')) \<and> j_Status j = BatchImageJobStatusCancelled
        \<and> row_identity j = row_identity job \<and> j_UserDeletedAt j = j_UserDeletedAt job)
     \<and> hold_returned job u (bs_billing (us_store st'))
     \<and> us_queue st' = us_queue st \<and> us_upstream st' = us_upstream st"

lemma hold_call_Some_None:
  "f (bs_billing (us_store st)) = (r, bdb) \<Longrightarrow>
     hold_call f st = (r, st\<lparr>us_store := (us_store st)\<lparr>bs_billing := bdb\<rparr>\<rparr>)"
  by (simp add: hold_call_def)

lemma transition_row_fields:
  "j_ProviderJobName (transition_row now to opts j) = j_ProviderJobName j"
  "j_UserDeletedAt (transition_row now to opts j) = j_UserDeletedAt j"
  "j_UserID (transition_row now to opts j) = j_UserID j" "j_APIKeyID (transition_row now to opts j) = j_APIKeyID j"
  "row_identity (transition_row now to opts j) = row_identity j"
  by (simp_all add: transition_row_def row_identity_def)

lemma transition_row_hold:
  "job_hold_amount (transition_row now to opts j) = job_hold_amount j"
proof -
  have "j_HoldAmount (transition_row now to opts j) = j_HoldAmount j"
    "j_EstimatedCost (transition_row now to opts j) = j_EstimatedCost j"
    using transition_row_fields(5) [of now to opts j] by (simp_all only: row_identity_def prod.inject)
  then show ?thesis by (simp only: job_hold_amount_def)
qed

lemma unsubmitted_facts:
  assumes "unsubmitted j"
  shows "\<not> isBatchImageProcessorDoneStatus (j_Status j)"
    "CanTransitionBatchImageJob (j_Status j) BatchImageJobStatusCancelled"
  using assms by (auto simp: unsubmitted_def isBatchImageProcessorDoneStatus_def status_defs
      CanTransitionBatchImageJob_def IsTerminalBatchImageJobStatus_def allowed_transitions_def)

lemma cancel_unsubmitted:
  assumes "batch_quiet (ca_get env)" "batch_quiet (ca_transition env)" "no_faults (ca_release env)" "pu_billing s"
    and "unique_db (bs_jobs (us_store st))" "find_job b (bs_jobs (us_store st)) = Some job"
    and "unsubmitted job" "j_ProviderJobName job = None" "j_UserDeletedAt job = None"
    and "j_UserID job = ow_UserID owner" "j_APIKeyID job = Some (ow_APIKeyID owner)" "0 < ow_APIKeyID owner"
    and "releasable b (ow_APIKeyID owner) job u (bs_billing (us_store st))"
  shows "\<exists>st'. Cancel s env owner b st = cancel_view s env owner b st' \<and> cancelled_back b job u st st'"
proof -
  let ?opts = "transition_options ''job_cancelled'' (Some [(''batch_id'', JStr b)]) None None"
  let ?row = "transition_row (b_now (ca_transition env)) BatchImageJobStatusCancelled ?opts job"
  have b: "j_BatchID job = b" using find_job_mem [OF assms(6)] by simp
  have get: "repo (GetBatchImageJobByBatchIDForOwner (ca_get env) (ow_UserID owner) (ow_APIKeyID owner) b) st
      = (Inr job, st)"
    using owner_quiet [OF assms(1,5,6,10,11,9)] by (simp add: repo_def on_jobs_def)
  obtain jdb where tr: "TransitionBatchImageJobStatus (ca_transition env) b BatchImageJobStatusCancelled ?opts
      (bs_jobs (us_store st)) = (Inr (), jdb)" and ch: "changed_job b ?row (bs_jobs (us_store st)) jdb"
    using transition_quiet [OF assms(2,5,6) unsubmitted_facts(2) [OF assms(7)], of ?opts] by auto
  let ?st1 = "st\<lparr>us_store := (us_store st)\<lparr>bs_jobs := jdb\<rparr>\<rparr>"
  obtain bdb where rel: "releaseBatchImageBalanceHold True (ca_release env) job
      (batchImageDerefString (j_RequestHash job)) (bs_billing (us_store st)) = (None, bdb)"
    and ret: "hold_returned job u bdb"
    using release_hold_ok [OF assms(3,11,12) b assms(13)] by blast
  let ?st2 = "invalidate s (ow_UserID owner) (?st1\<lparr>us_store := (us_store ?st1)\<lparr>bs_billing := bdb\<rparr>\<rparr>)"
  have "cancel_release s env (ow_UserID owner) job ?st1 = (None, ?st2)"
    using rel assms(4) by (simp add: cancel_release_def hold_call_def)
  then have "Cancel s env owner b st = cancel_view s env owner b ?st2"
    using get tr unsubmitted_facts(1) [OF assms(7)] assms(8) b
    by (simp add: Cancel_def batchImageDerefString_def repo_def on_jobs_def)
  moreover have "row_identity ?row = row_identity job" "j_UserDeletedAt ?row = None"
    using assms(9) by (simp_all add: transition_row_fields)
  then have "cancelled_back b job u st ?st2"
    using ch ret assms(9) unfolding cancelled_back_def by (intro conjI exI [of _ ?row]) simp_all
  ultimately show ?thesis by blast
qed

text \<open>C14 (cancel_refunds_unsubmitted): Cancelling a job that no provider has been given yet cancels it
  and returns its hold to the user in full (rounded to the eight decimals of the balances, so exactly
  if the hold has no more); nothing is asked of a provider and nothing queued.\<close>

theorem cancel_refunds_unsubmitted:
  assumes "\<forall>e \<in> {ca_get env, ca_transition env, ca_final env}. batch_quiet e" "no_faults (ca_release env)" "pu_billing s"
    and "unique_db (bs_jobs (us_store st))" "find_job b (bs_jobs (us_store st)) = Some job"
    and "unsubmitted job" "j_ProviderJobName job = None" "j_UserDeletedAt job = None"
    and "j_UserID job = ow_UserID owner" "j_APIKeyID job = Some (ow_APIKeyID owner)" "0 < ow_APIKeyID owner"
    and "releasable b (ow_APIKeyID owner) job u (bs_billing (us_store st))"
  shows "\<exists>view st' u'. Cancel s env owner b st = (Inr view, st') \<and> pub_ID view = b \<and> pub_Status view = ''cancelled''
    \<and> users (bs_billing (us_store st')) (j_UserID job) = Some u'
    \<and> u_balance u' = round_half_away 8 (u_balance u + job_hold_amount job)
    \<and> u_frozen_balance u' = round_half_away 8 (u_frozen_balance u - job_hold_amount job)
    \<and> (on_scale 8 (job_hold_amount job) \<longrightarrow>
         u_balance u' = u_balance u + job_hold_amount job
         \<and> u_frozen_balance u' = u_frozen_balance u - job_hold_amount job)
    \<and> us_queue st' = us_queue st \<and> us_upstream st' = us_upstream st"
proof -
  obtain st' where c: "Cancel s env owner b st = cancel_view s env owner b st'" and gone: "cancelled_back b job u st st'"
    using cancel_unsubmitted [of env s st b job owner u] assms by auto
  then obtain j where j: "unique_db (bs_jobs (us_store st'))" "find_job b (bs_jobs (us_store st')) = Some j"
      "j_Status j = BatchImageJobStatusCancelled" "row_identity j = row_identity job" "j_UserDeletedAt j = None"
    using assms(8) by (auto simp: cancelled_back_def changed_job_def)
  have own: "j_UserID j = ow_UserID owner" "j_APIKeyID j = Some (ow_APIKeyID owner)" "j_BatchID j = b"
    using j(4) assms(9,10) find_job_mem [OF assms(5)] by (simp_all add: row_identity_def)
  have "cancel_view s env owner b st' = (Inr (BatchImageJobToPublic (pu_format s) j), st')"
    using owner_quiet [OF _ j(1,2) own(1,2) j(5), of "ca_final env"] assms(1)
    by (simp add: cancel_view_def repo_def on_jobs_def)
  then show ?thesis
    using c gone own(3) j(3)
    by (auto simp: cancelled_back_def hold_returned_def BatchImageJobToPublic_def PublicBatchImageStatus_def status_defs)
qed

section \<open>A submission that loses the race\<close>

lemma submit_accepted_refused:
  assumes "batch_quiet (sm_submitted env)" "find_job b (bs_jobs (us_store st)) = Some cur" "j_BatchID job = b"
    and "\<not> CanTransitionBatchImageJob (j_Status cur) BatchImageJobStatusSubmitted"
  shows "submit_accepted s env name job pj st
    = (Inl ErrBatchImageInvalidTransition, abortOrphanProviderJob env name job pj st)"
proof -
  have "repo (UpdateBatchImageJobProviderSubmit (sm_submitted env) p) st = (Inl ErrBatchImageInvalidTransition, st)"
    if "s_BatchID p = b" for p
    using submit_update_refused [OF assms(1,2) that assms(4)] by (simp add: repo_def on_jobs_def)
  then show ?thesis using assms(3) by (simp add: submit_accepted_def)
qed

lemma abort_jobs:
  "jobs (bs_jobs (us_store (abortOrphanProviderJob env name job pj st))) = jobs (bs_jobs (us_store st))"
  using keeps_jobs_event
  by (simp add: abortOrphanProviderJob_def Let_def repo_jobs AppendBatchImageEvent_def keeps_jobs_def)

text \<open>C13 (cancel_wins_over_submit): When the owner cancels a job while the provider is taking its
  submission, the submission fails, the job stays cancelled, the hold is back with the user (to the eighth
  decimal of the balances, exactly if the hold has no more), nothing is queued, and the job the provider has just created is cancelled there and its input deleted.\<close>

theorem cancel_wins_over_submit:
  assumes "\<forall>e \<in> {sm_upload env, sm_submitted env, ca_get cenv, ca_transition cenv}. batch_quiet e"
    and "no_faults (ca_release cenv)" "pu_billing s"
    and "sm_meanwhile env = [Others (\<lambda>st. snd (Cancel s cenv owner b st))]"
    and "unique_db (bs_jobs (us_store st))" "find_job b (bs_jobs (us_store st)) = Some job"
    and "j_Status job = BatchImageJobStatusCreated" "j_ProviderJobName job = None" "j_UserDeletedAt job = None"
    and "j_UserID job = ow_UserID owner" "j_APIKeyID job = Some (ow_APIKeyID owner)" "0 < ow_APIKeyID owner"
    and "releasable b (ow_APIKeyID owner) job u (bs_billing (us_store st))"
    and "up_submit provider (job\<lparr>j_Status := BatchImageJobStatusUploading\<rparr>) account (batch_input job req) = Inr (Some pj)"
    and "trim_space (pj_ProviderJobName pj) \<noteq> ''''"
  shows "\<exists>st' j u'. submit_upload s env owner req ph name provider account job st = (Inl ErrBatchImageInvalidTransition, st')
    \<and> find_job b (bs_jobs (us_store st')) = Some j \<and> j_Status j = BatchImageJobStatusCancelled
    \<and> users (bs_billing (us_store st')) (j_UserID job) = Some u'
    \<and> u_balance u' = round_half_away 8 (u_balance u + job_hold_amount job)
    \<and> u_frozen_balance u' = round_half_away 8 (u_frozen_balance u - job_hold_amount job)
    \<and> (on_scale 8 (job_hold_amount job) \<longrightarrow>
         u_balance u' = u_balance u + job_hold_amount job
         \<and> u_frozen_balance u' = u_frozen_balance u - job_hold_amount job)
    \<and> us_queue st' = us_queue st
    \<and> us_upstream st' = us_upstream st @ [UpSubmit b, UpCancel (Some (trim_space (pj_ProviderJobName pj))),
          UpCleanupInput (Some (trim_space (pj_ProviderJobName pj)))]"
proof -
  let ?opts = "transition_options ''upload_started'' (Some [(''batch_id'', JStr b)]) None None"
  let ?row = "transition_row (b_now (sm_upload env)) BatchImageJobStatusUploading ?opts job"
  let ?job1 = "job\<lparr>j_Status := BatchImageJobStatusUploading\<rparr>"
  have b: "j_BatchID job = b" using find_job_mem [OF assms(6)] by simp
  have can: "CanTransitionBatchImageJob (j_Status job) BatchImageJobStatusUploading"
    by (simp add: assms(7) CanTransitionBatchImageJob_def IsTerminalBatchImageJobStatus_def allowed_transitions_def
        status_defs)
  obtain jdb where tr: "TransitionBatchImageJobStatus (sm_upload env) b BatchImageJobStatusUploading ?opts
      (bs_jobs (us_store st)) = (Inr (), jdb)" and ch: "changed_job b ?row (bs_jobs (us_store st)) jdb"
    using transition_quiet [OF _ assms(5,6) can, of "sm_upload env" ?opts] assms(1) by auto
  define st1 where "st1 = upstream (UpSubmit b) (st\<lparr>us_store := (us_store st)\<lparr>bs_jobs := jdb\<rparr>\<rparr>)"
  have st1: "us_queue st1 = us_queue st" "us_upstream st1 = us_upstream st @ [UpSubmit b]"
      "bs_billing (us_store st1) = bs_billing (us_store st)" "bs_jobs (us_store st1) = jdb"
    by (simp_all add: st1_def)
  have row: "unsubmitted ?row" "j_ProviderJobName ?row = None" "j_UserDeletedAt ?row = None"
      "j_UserID ?row = ow_UserID owner" "j_APIKeyID ?row = Some (ow_APIKeyID owner)"
      "job_hold_amount ?row = job_hold_amount job" "j_UserID ?row = j_UserID job"
    using assms(8-11) by (simp_all add: transition_row_fields transition_row_hold unsubmitted_def status_defs)
  have "releasable b (ow_APIKeyID owner) ?row u (bs_billing (us_store st1))"
    using assms(13) unfolding releasable_def row(6,7) st1 .
  then obtain st2 where c: "Cancel s cenv owner b st1 = cancel_view s cenv owner b st2"
    and gone: "cancelled_back b ?row u st1 st2"
    using cancel_unsubmitted [OF _ _ assms(2,3) _ _ row(1-5) assms(12), of st1 b u] assms(1) ch
    by (auto simp: st1 changed_job_def)
  have same: "snd (Cancel s cenv owner b st1) = snd (repo (GetBatchImageJobByBatchIDForOwner (ca_final cenv)
      (ow_UserID owner) (ow_APIKeyID owner) b) st2)"
    unfolding c cancel_view_def by (auto split: prod.split sum.split)
  define st3 where "st3 = snd (Cancel s cenv owner b st1)"
  have jobs3: "jobs (bs_jobs (us_store st3)) = jobs (bs_jobs (us_store st2))"
    unfolding st3_def same by (rule owner_get_keeps_jobs)
  have st3: "us_queue st3 = us_queue st" "us_upstream st3 = us_upstream st @ [UpSubmit b]"
      "hold_returned job u (bs_billing (us_store st3))"
    using gone by (simp_all add: st3_def same st1 cancelled_back_def hold_returned_def row(6,7))
  obtain j where j: "find_job b (bs_jobs (us_store st3)) = Some j" "j_Status j = BatchImageJobStatusCancelled"
    using gone find_job_jobs [OF jobs3] by (auto simp: cancelled_back_def changed_job_def)
  have lost: "submit_accepted s env name ?job1 pj st3
      = (Inl ErrBatchImageInvalidTransition, abortOrphanProviderJob env name ?job1 pj st3)"
    using submit_accepted_refused [OF _ j(1), of env ?job1] assms(1) b j(2)
    by (simp add: CanTransitionBatchImageJob_def IsTerminalBatchImageJobStatus_def status_defs)
  let ?st4 = "abortOrphanProviderJob env name ?job1 pj st3"
  have "submit_upload s env owner req ph name provider account job st = (Inl ErrBatchImageInvalidTransition, ?st4)"
    using tr lost assms(4,14,15) b
    by (simp add: submit_upload_def submit_answer_def Let_def st3_def st1_def repo_def on_jobs_def)
  moreover have "find_job b (bs_jobs (us_store ?st4)) = Some j"
    using j(1) find_job_jobs [OF abort_jobs] by simp
  ultimately show ?thesis
    using j(2) st3 assms(15) by (auto simp: hold_returned_def batchImageOptionalStringPtr_def)
qed

end
