(* ===== verification/BatchImageSubmitOutcome.thy ===== *)
theory BatchImageSubmitOutcome
  imports BatchImageCancel
begin

text \<open>
  What a submission leaves behind, whatever fails on the way: money moves only for a job that is on
  record, a failure that releases reports an error, a batch that is returned is one the provider has.
\<close>

section \<open>The job stays on record\<close>

definition on_record :: "BatchImageJob \<Rightarrow> public_store \<Rightarrow> bool" where
  "on_record job st \<longleftrightarrow> unique_db (bs_jobs (us_store st))
     \<and> (\<exists>j. find_job (j_BatchID job) (bs_jobs (us_store st)) = Some j \<and> row_identity j = row_identity job)"

lemma on_record_cong:
  "jobs (bs_jobs (us_store st')) = jobs (bs_jobs (us_store st)) \<Longrightarrow> on_record job st' = on_record job st"
  by (simp only: on_record_def find_job_def unique_db_def)

lemma repo_on_record:
  assumes "obeys row_evolves (\<lambda>j. True) m" "on_record job st"
  shows "on_record job (snd (repo m st))"
proof -
  let ?db = "bs_jobs (us_store st)"
  obtain j where u: "unique_db ?db" and j: "find_job (j_BatchID job) ?db = Some j" "row_identity j = row_identity job"
    using assms(2) by (auto simp: on_record_def)
  have moves: "table_moves row_evolves (\<lambda>j. True) (jobs ?db) (jobs (snd (m ?db)))"
    using assms(1) u by (simp add: obeys_def)
  then obtain j' where "find (\<lambda>i. j_BatchID i = j_BatchID j) (jobs (snd (m ?db))) = Some j'" "row_evolves j j'"
    using evolution.table_moves_job [OF moves] find_job_mem [OF j(1)] by blast
  moreover have "j_BatchID j = j_BatchID job" using find_job_mem [OF j(1)] by simp
  moreover have "unique_db (snd (m ?db))" using moves by (simp add: table_moves_def unique_db_def)
  ultimately show ?thesis
    using j(2) by (auto simp: on_record_def repo_jobs find_job_def row_evolves_def)
qed

lemmas evolves =
  evolution.obeys_submit evolution.obeys_marks evolution.obeys_items
  evolution.obeys_transition [OF TrueI] evolution.obeys_submit_failure [OF TrueI]

lemma evolves_get: "keeps_jobs m \<Longrightarrow> obeys row_evolves (\<lambda>j. True) m"
  by (rule evolution.obeys_keeps)

lemma repo_record:
  "repo m st = (r, st1) \<Longrightarrow> obeys row_evolves (\<lambda>j. True) m \<Longrightarrow> on_record job st \<Longrightarrow> on_record job st1"
  using repo_on_record [of m job st] by simp

lemma on_record_status [simp]: "on_record (job\<lparr>j_Status := s\<rparr>) st = on_record job st"
  by (simp add: on_record_def row_identity_def)

lemma record_simps [simp]:
  "on_record job (snd (hold_call f st)) = on_record job st"
  "on_record job (invalidate s u st) = on_record job st"
  "on_record job (upstream c st) = on_record job st"
  "on_record job (snd (enqueue s env b st)) = on_record job st"
  by (simp_all add: on_record_def)

lemma record_kept:
  assumes "on_record job st"
  shows "on_record job (record_failure s benv b c m mark st)"
    "on_record job (hidePreUpstreamSubmitFailure env owner job' st)"
    "on_record job (enqueueBillingRetry s qenv benv b st)"
    "on_record job (snd (releaseFailedSubmitHold s env job' ph st))"
    "on_record job (snd (give_up s env owner job' ph code msg e st))"
    "on_record job (abortOrphanProviderJob env name job' pj st)"
proof -
  note kept = repo_on_record [OF _ assms]
  have failure: "on_record job (record_failure s benv b c m mark st)" if "on_record job st" for benv b c m mark st
    unfolding record_failure_def by (rule repo_on_record [OF _ that]) (rule evolves)
  have hide: "on_record job (hidePreUpstreamSubmitFailure env owner job' st)" if "on_record job st" for job' st
    unfolding hidePreUpstreamSubmitFailure_def using that by (auto intro: repo_on_record evolves)
  have retry: "on_record job (enqueueBillingRetry s qenv benv b st)" if "on_record job st" for qenv benv b st
  proof -
    obtain r st1 where e: "enqueue s qenv b st = (r, st1)" by (cases "enqueue s qenv b st")
    then have "on_record job st1" using that record_simps(4) [of job s qenv b st] by simp
    with e show ?thesis by (cases r) (simp_all add: enqueueBillingRetry_def repo_on_record evolves)
  qed
  have release: "on_record job (snd (releaseFailedSubmitHold s env job' ph st))"
  proof -
    let ?f = "releaseBatchImageBalanceHold (pu_billing s) (sm_release env) job' ph"
    obtain r st1 where e: "hold_call ?f st = (r, st1)" by (cases "hold_call ?f st")
    then have "on_record job st1" using assms record_simps(1) [of job ?f st] by simp
    with e show ?thesis by (cases r) (simp_all add: releaseFailedSubmitHold_def Let_def retry failure)
  qed
  show "on_record job (snd (give_up s env owner job' ph code msg e st))"
    using release unfolding give_up_def
    by (cases "releaseFailedSubmitHold s env job' ph st"; cases "fst (releaseFailedSubmitHold s env job' ph st)")
       (simp_all add: failure hide)
  show "on_record job (abortOrphanProviderJob env name job' pj st)"
    unfolding abortOrphanProviderJob_def Let_def using assms by (intro repo_on_record evolves) simp
  show "on_record job (record_failure s benv b c m mark st)" by (rule failure [OF assms])
  show "on_record job (hidePreUpstreamSubmitFailure env owner job' st)" by (rule hide [OF assms])
  show "on_record job (enqueueBillingRetry s qenv benv b st)" by (rule retry [OF assms])
  show "on_record job (snd (releaseFailedSubmitHold s env job' ph st))" by (rule release)
qed


lemma heartbeat_kept:
  assumes "\<forall>m\<in>set ms. \<exists>e. m = Tick e"
  shows "on_record job st \<Longrightarrow> on_record job (runSubmitHeartbeat b ms st)"
    and "bs_billing (us_store (runSubmitHeartbeat b ms st)) = bs_billing (us_store st)"
    and "us_queue (runSubmitHeartbeat b ms st) = us_queue st"
    and "us_upstream (runSubmitHeartbeat b ms st) = us_upstream st"
proof -
  have "(on_record job st \<longrightarrow> on_record job (runSubmitHeartbeat b ms st))
    \<and> bs_billing (us_store (runSubmitHeartbeat b ms st)) = bs_billing (us_store st)
    \<and> us_queue (runSubmitHeartbeat b ms st) = us_queue st
    \<and> us_upstream (runSubmitHeartbeat b ms st) = us_upstream st"
    using assms
  proof (induction b ms st rule: runSubmitHeartbeat.induct)
    case (2 b env rest st)
    then show ?case using repo_on_record [OF evolves(2), of job st env b] by auto
  qed auto
  then show "on_record job st \<Longrightarrow> on_record job (runSubmitHeartbeat b ms st)"
    and "bs_billing (us_store (runSubmitHeartbeat b ms st)) = bs_billing (us_store st)"
    and "us_queue (runSubmitHeartbeat b ms st) = us_queue st"
    and "us_upstream (runSubmitHeartbeat b ms st) = us_upstream st" by blast+
qed

section \<open>The money that moves\<close>

text \<open>The command of a job under a request id.\<close>

definition hold_of :: "BatchImageJob \<Rightarrow> string \<Rightarrow> BatchImageBalanceHoldCommand \<Rightarrow> bool" where
  "hold_of job rid c \<longleftrightarrow>
     h_RequestID c = rid \<and> j_APIKeyID job = Some (h_APIKeyID c) \<and> h_UserID c = j_UserID job
     \<and> h_BatchID c = j_BatchID job \<and> h_HoldAmount c = job_hold_amount job
     \<and> 0 < h_HoldAmount c \<and> 0 < h_APIKeyID c"

lemma build_hold_of:
  "buildBatchImageHoldCommand (Some job) rid x ph = Inr c \<Longrightarrow> 0 < h_HoldAmount c \<Longrightarrow> hold_of job rid c"
  by (auto simp: buildBatchImageHoldCommand_def hold_of_def split: option.splits if_splits)

lemma hold_of_status [simp]: "hold_of (job\<lparr>j_Status := s\<rparr>) rid c = hold_of job rid c"
  by (simp add: hold_of_def)

lemma hold_of_builds:
  assumes "hold_of job rid c"
  shows "\<exists>c'. buildBatchImageHoldCommand (Some job) rid' 0 ph = Inr c' \<and> hold_of job rid' c'"
  using assms by (simp add: buildBatchImageHoldCommand_def hold_of_def)

lemma reserve_money:
  "(snd (reserveBatchImageBalanceHold on env job ph db) = db \<and> (on \<longrightarrow> (\<forall>rid c. \<not> hold_of job rid c)))
   \<or> (\<exists>c. hold_of job (BatchImageHoldRequestID (j_BatchID job)) c
        \<and> snd (reserveBatchImageBalanceHold on env job ph db) = snd (billing_step (billing_op.Reserve env c) db))"
proof (cases "on \<and> (\<exists>rid c. hold_of job rid c)")
  case True
  then obtain c where c: "buildBatchImageHoldCommand (Some job) (BatchImageHoldRequestID (j_BatchID job)) 0 ph = Inr c"
      "hold_of job (BatchImageHoldRequestID (j_BatchID job)) c" using hold_of_builds by blast
  then have "snd (reserveBatchImageBalanceHold on env job ph db) = snd (billing_step (billing_op.Reserve env c) db)"
    using True by (simp add: reserveBatchImageBalanceHold_def hold_of_def split: prod.split sum.split)
  with c(2) show ?thesis by blast
next
  case False
  then have "snd (reserveBatchImageBalanceHold on env job ph db) = db"
    using build_hold_of [of job "BatchImageHoldRequestID (j_BatchID job)" 0 ph]
    by (auto simp: reserveBatchImageBalanceHold_def split: sum.split)
  with False show ?thesis by blast
qed

lemma release_money:
  "snd (releaseBatchImageBalanceHold on env job ph db) = db
   \<or> on \<and> (\<exists>c. hold_of job (BatchImageReleaseRequestID (j_BatchID job)) c
        \<and> snd (releaseBatchImageBalanceHold on env job ph db) = snd (billing_step (Release env c) db))"
proof (cases "buildBatchImageHoldCommand (Some job) (BatchImageReleaseRequestID (j_BatchID job)) 0 ph")
  case (Inr c)
  show ?thesis
  proof (cases "on \<and> 0 < h_HoldAmount c")
    case True
    then have "snd (releaseBatchImageBalanceHold on env job ph db) = snd (billing_step (Release env c) db)"
      by (simp add: releaseBatchImageBalanceHold_def Inr split: prod.split sum.split)
    with build_hold_of [OF Inr] True show ?thesis by blast
  qed (auto simp: releaseBatchImageBalanceHold_def Inr)
qed (simp add: releaseBatchImageBalanceHold_def)

text \<open>No money, or a release.\<close>

definition released :: "bool \<Rightarrow> billing_env \<Rightarrow> BatchImageJob \<Rightarrow> billing_db \<Rightarrow> billing_db \<Rightarrow> bool" where
  "released on env job db db' \<longleftrightarrow> db' = db
     \<or> on \<and> (\<exists>c. hold_of job (BatchImageReleaseRequestID (j_BatchID job)) c \<and> db' = snd (billing_step (Release env c) db))"

lemma released_refl [simp]: "released on env job db db"
  by (simp add: released_def)

lemma released_status [simp]: "released on env (job\<lparr>j_Status := s\<rparr>) db db' = released on env job db db'"
  by (simp add: released_def)

lemma release_failed_money:
  "released (pu_billing s) (sm_release env) job (bs_billing (us_store st))
     (bs_billing (us_store (snd (releaseFailedSubmitHold s env job ph st))))"
proof -
  let ?f = "releaseBatchImageBalanceHold (pu_billing s) (sm_release env) job ph"
  obtain r st1 where e: "hold_call ?f st = (r, st1)" by (cases "hold_call ?f st")
  have "released (pu_billing s) (sm_release env) job (bs_billing (us_store st)) (bs_billing (us_store st1))"
    using release_money [of "pu_billing s" "sm_release env" job ph "bs_billing (us_store st)"]
      hold_call_parts(2) [of ?f st] by (simp add: e released_def)
  then show ?thesis using e by (cases r) (simp_all add: releaseFailedSubmitHold_def Let_def)
qed

lemma give_up_money:
  "released (pu_billing s) (sm_release env) job (bs_billing (us_store st))
     (bs_billing (us_store (snd (give_up s env owner job ph code msg e st))))"
  using release_failed_money [of s env job st ph] unfolding give_up_def
  by (cases "releaseFailedSubmitHold s env job ph st"; cases "fst (releaseFailedSubmitHold s env job ph st)") simp_all


section \<open>The stages of a submission\<close>

text \<open>
  From the reservation on: the job stays on record, money moves back only when an error is
  reported, and a batch that is returned is the job as the provider has it.
\<close>

definition follows :: "'acct public_service \<Rightarrow> submit_env \<Rightarrow> BatchImageJob \<Rightarrow> public_store
    \<Rightarrow> (batch_error + BatchImagePublicBatch) \<times> public_store \<Rightarrow> bool" where
  "follows s env job st out \<longleftrightarrow>
     on_record job (snd out)
     \<and> (case fst out of
          Inl e \<Rightarrow> released (pu_billing s) (sm_release env) job (bs_billing (us_store st)) (bs_billing (us_store (snd out)))
        | Inr v \<Rightarrow> bs_billing (us_store (snd out)) = bs_billing (us_store st)
            \<and> (\<exists>j. find_job (j_BatchID job) (bs_jobs (us_store (snd out))) = Some j
                \<and> j_Status j = BatchImageJobStatusSubmitted \<and> j_ProviderJobName j \<noteq> None
                \<and> v = BatchImageJobToPublic (pu_format s) j))"

lemma update_find:
  assumes "update_jobs env (\<lambda>j. j_BatchID j = b) f db = (Inr n, db')" "find_job b db = Some j"
    and "\<And>j. j_BatchID (f j) = j_BatchID j"
  shows "find_job b db' = Some (f j)"
proof -
  have "jobs db' = map (\<lambda>j. if j_BatchID j = b then f j else j) (jobs db)"
    using update_jobs_cases [OF assms(1)] by auto
  moreover have "find (\<lambda>j. j_BatchID j = b) (map (\<lambda>j. if j_BatchID j = b then f j else j) js)
      = map_option f (find (\<lambda>j. j_BatchID j = b) js)" for js
    using assms(3) by (induction js) auto
  ultimately show ?thesis using assms(2) by (simp add: find_job_def)
qed

lemma submit_update_Inr:
  assumes "UpdateBatchImageJobProviderSubmit env p db = (Inr (), db')"
  shows "\<exists>j. find_job (s_BatchID p) db' = Some j \<and> j_Status j = BatchImageJobStatusSubmitted
    \<and> j_ProviderJobName j = Some (s_ProviderJobName p)"
proof -
  let ?b = "s_BatchID p"
  have inner: "updateBatchImageJobProviderSubmitWithSQL env p db = (Inr (), db')"
    using assms by (auto simp: UpdateBatchImageJobProviderSubmit_def bm_tx_def split: if_splits prod.splits sum.splits)
  then obtain cur db1 where 1: "lock_status env ?b db = (Inr cur, db1)"
    and up: "bm_bind (update_jobs env (\<lambda>j. j_BatchID j = ?b) (provider_submit_row (b_now env) p))
      (\<lambda>_. appendBatchImageEventWithSQL env ?b ''provider_submitted'' (s_EventPayload p)) db1 = (Inr (), db')"
    unfolding updateBatchImageJobProviderSubmitWithSQL_def
    by (elim bm_bind_cases) (auto simp: bm_simps split: if_splits)
  have cur: "db1 = db" "find_job ?b db = Some cur" using lock_status_cases [OF 1] by auto
  obtain n db2 where 2:
    "update_jobs env (\<lambda>j. j_BatchID j = ?b) (provider_submit_row (b_now env) p) db = (Inr n, db2)"
    "appendBatchImageEventWithSQL env ?b ''provider_submitted'' (s_EventPayload p) db2 = (Inr (), db')"
    using up unfolding cur(1) by (elim bm_bind_cases) auto
  have "jobs db' = jobs db2" using keeps_jobs_event 2(2) unfolding keeps_jobs_def by (metis snd_conv)
  have "find_job ?b db2 = Some (provider_submit_row (b_now env) p cur)"
    by (rule update_find [OF 2(1) cur(2)]) (simp add: provider_submit_row_def)
  with \<open>jobs db' = jobs db2\<close> show ?thesis by (simp add: find_job_def provider_submit_row_def status_defs)
qed


lemma job_get_Inr:
  "GetBatchImageJobByBatchID env b db = (Inr j, db') \<Longrightarrow> find_job b db = Some j \<and> db' = db"
  by (auto simp: GetBatchImageJobByBatchID_def get_job_def select_job_def bm_translate_def bm_stmt_def bm_simps
      find_job_def split: prod.splits sum.splits option.splits if_splits)

lemma get_evolves: "obeys row_evolves (\<lambda>j. True) (GetBatchImageJobByBatchID env b)"
  by (rule evolution.obeys_keeps) (simp add: GetBatchImageJobByBatchID_def get_job_def)

lemma repo_split: "repo m st = (r, st1) \<Longrightarrow>
   m (bs_jobs (us_store st)) = (r, bs_jobs (us_store st1)) \<and> bs_billing (us_store st1) = bs_billing (us_store st)
   \<and> us_queue st1 = us_queue st \<and> us_upstream st1 = us_upstream st"
  by (auto simp: repo_def on_jobs_def split: prod.splits)

lemma accepted_follows:
  assumes "on_record job st"
  shows "follows s env job st (submit_accepted s env name job pj st)"
proof -
  define p where "p = \<lparr>s_BatchID = j_BatchID job, s_ProviderJobName = pj_ProviderJobName pj,
      s_ProviderInputRef = pj_ProviderInputRef pj, s_ProviderOutputRef = pj_ProviderOutputRef pj,
      s_GCSInputURI = batchImageGCSRef name (pj_ProviderInputRef pj),
      s_GCSOutputURI = batchImageGCSRef name (pj_ProviderOutputRef pj),
      s_EventPayload = Some [(''provider'', JStr name)]\<rparr>"
  have pb: "s_BatchID p = j_BatchID job" by (simp add: p_def)
  obtain r st1 where up: "repo (UpdateBatchImageJobProviderSubmit (sm_submitted env) p) st = (r, st1)"
    by (cases "repo (UpdateBatchImageJobProviderSubmit (sm_submitted env) p) st")
  have rec1: "on_record job st1" by (rule repo_record [OF up evolves(1) assms])
  note sp1 = repo_split [OF up]
  show ?thesis
  proof (cases r)
    case (Inl e)
    then have "submit_accepted s env name job pj st = (Inl e, abortOrphanProviderJob env name job pj st1)"
      using up by (simp add: submit_accepted_def p_def)
    then show ?thesis using record_kept(6) [OF rec1] sp1 by (simp add: follows_def)
  next
    case (Inr u)
    obtain r2 st2 where en: "enqueue s (sm_queue env) (j_BatchID job) st1 = (r2, st2)"
      by (cases "enqueue s (sm_queue env) (j_BatchID job) st1")
    have st2: "us_store st2 = us_store st1" using submit_enqueue_frame(1) [of s "sm_queue env" "j_BatchID job" st1] en by simp
    have rec2: "on_record job st2" using rec1 st2 by (simp add: on_record_def)
    obtain r3 st3 where get: "repo (GetBatchImageJobByBatchID (sm_final env) (j_BatchID job)) st2 = (r3, st3)"
      by (cases "repo (GetBatchImageJobByBatchID (sm_final env) (j_BatchID job)) st2")
    note sp3 = repo_split [OF get]
    have out: "submit_accepted s env name job pj st =
        (case r2 of Some e \<Rightarrow> (Inl ErrBatchImageQueueFailed,
             record_failure s (sm_failure env) (j_BatchID job) ''QUEUE_FAILED'' (pu_queue_error_text s e) False st2)
         | None \<Rightarrow> (case r3 of Inl e \<Rightarrow> (Inl e, st3) | Inr j \<Rightarrow> (Inr (BatchImageJobToPublic (pu_format s) j), st3)))"
      using up en get Inr by (simp add: submit_accepted_def p_def split: option.split sum.split)
    show ?thesis
    proof (cases r2)
      case (Some e)
      then show ?thesis unfolding out using record_kept(1) [OF rec2] sp1 st2 by (simp add: follows_def)
    next
      case None
      note r2 = this
      have rec3: "on_record job st3" by (rule repo_record [OF get get_evolves rec2])
      show ?thesis
      proof (cases r3)
        case (Inl e)
        then show ?thesis unfolding out using r2 rec3 sp1 sp3 st2 by (simp add: follows_def)
      next
        case (Inr j)
        then have j: "find_job (j_BatchID job) (bs_jobs (us_store st2)) = Some j"
            "bs_jobs (us_store st3) = bs_jobs (us_store st2)"
          using sp3 job_get_Inr by auto
        obtain j' where "find_job (j_BatchID job) (bs_jobs (us_store st1)) = Some j'"
            "j_Status j' = BatchImageJobStatusSubmitted" "j_ProviderJobName j' = Some (s_ProviderJobName p)"
          using submit_update_Inr [of "sm_submitted env" p "bs_jobs (us_store st)"] sp1 \<open>r = Inr u\<close> pb by auto
        then have "j_Status j = BatchImageJobStatusSubmitted" "j_ProviderJobName j \<noteq> None" using j st2 by auto
        then show ?thesis unfolding out using r2 Inr rec3 sp1 sp3 st2 j by (simp add: follows_def)
      qed
    qed
  qed
qed


lemma follows_refused:
  assumes "on_record job st"
  shows "follows s env job st (case give_up s env owner job ph code msg e st of (e', st1) \<Rightarrow> (Inl e', st1))"
  using record_kept(5) [OF assms, of s env owner job ph code msg e] give_up_money [of s env job st owner ph code msg e]
  by (cases "give_up s env owner job ph code msg e st") (simp add: follows_def)

lemma follows_status [simp]: "follows s env (job\<lparr>j_Status := x\<rparr>) st out = follows s env job st out"
  by (simp add: follows_def split: sum.split)

lemma follows_start:
  "follows s env job st1 out \<Longrightarrow> bs_billing (us_store st1) = bs_billing (us_store st) \<Longrightarrow> follows s env job st out"
  by (simp add: follows_def split: sum.splits)

lemma answer_follows:
  assumes "on_record job st"
  shows "follows s env job st (submit_answer s env owner ph name job answer st)"
  unfolding submit_answer_def Let_def
  by (simp add: follows_refused [OF assms] accepted_follows [OF assms] split: sum.split option.split)

lemma upload_follows:
  assumes "on_record job st" "\<forall>m\<in>set (sm_meanwhile env). \<exists>e. m = Tick e"
  shows "follows s env job st (submit_upload s env owner req ph name provider account job st)"
proof -
  let ?m = "TransitionBatchImageJobStatus (sm_upload env) (j_BatchID job) BatchImageJobStatusUploading
     (transition_options ''upload_started'' (Some [(''batch_id'', JStr (j_BatchID job))]) None None)"
  obtain r st1 where up: "repo ?m st = (r, st1)" by (cases "repo ?m st")
  have rec1: "on_record job st1" by (rule repo_record [OF up evolution.obeys_transition [OF TrueI] assms(1)])
  note sp1 = repo_split [OF up]
  show ?thesis
  proof (cases r)
    case (Inl e)
    obtain r2 st2 where rel: "releaseFailedSubmitHold s env job ph st1 = (r2, st2)"
      by (cases "releaseFailedSubmitHold s env job ph st1")
    have rec2: "on_record job st2" using record_kept(4) [OF rec1, of s env job ph] rel by simp
    have "released (pu_billing s) (sm_release env) job (bs_billing (us_store st)) (bs_billing (us_store st2))"
      using release_failed_money [of s env job st1 ph] rel sp1 by simp
    then show ?thesis
      using up Inl rel rec2
      by (cases r2) (simp_all add: submit_upload_def follows_def record_kept(2) [OF record_kept(1) [OF rec2]])
  next
    case (Inr u)
    let ?st2 = "runSubmitHeartbeat (j_BatchID job) (sm_meanwhile env) (upstream (UpSubmit (j_BatchID job)) st1)"
    have "on_record job ?st2" "bs_billing (us_store ?st2) = bs_billing (us_store st)"
      using heartbeat_kept(1) [OF assms(2), of job "upstream (UpSubmit (j_BatchID job)) st1"] rec1 sp1
        heartbeat_kept(2) [OF assms(2), of "j_BatchID job" "upstream (UpSubmit (j_BatchID job)) st1"]
      by simp_all
    note rec2 = this
    have "follows s env job ?st2 (submit_answer s env owner ph name (job\<lparr>j_Status := BatchImageJobStatusUploading\<rparr>)
        (up_submit provider (job\<lparr>j_Status := BatchImageJobStatusUploading\<rparr>) account (batch_input job req)) ?st2)"
      (is "follows s env job ?st2 ?out")
      using answer_follows [of "job\<lparr>j_Status := BatchImageJobStatusUploading\<rparr>" ?st2] rec2(1) by simp
    moreover have "submit_upload s env owner req ph name provider account job st = ?out"
      using up Inr by (simp add: submit_upload_def Let_def)
    ultimately show ?thesis using follows_start rec2(2) by metis
  qed
qed

text \<open>What the whole submission of a new job leaves.\<close>

definition money_on_record :: "'acct public_service \<Rightarrow> submit_env \<Rightarrow> BatchImageOwner \<Rightarrow> public_store
    \<Rightarrow> (batch_error + BatchImagePublicBatch) \<times> public_store \<Rightarrow> bool" where
  "money_on_record s env owner st out \<longleftrightarrow>
     (let before = bs_billing (us_store st); after = bs_billing (us_store (snd out)) in
      after = before
      \<or> (\<exists>job c. find_job (j_BatchID job) (bs_jobs (us_store (snd out))) = Some job
           \<and> j_UserID job = ow_UserID owner \<and> j_APIKeyID job = Some (ow_APIKeyID owner)
           \<and> hold_of job (BatchImageHoldRequestID (j_BatchID job)) c
           \<and> (case fst out of
                Inl e \<Rightarrow> released (pu_billing s) (sm_release env) job (snd (billing_step (billing_op.Reserve (sm_reserve env) c) before)) after
              | Inr v \<Rightarrow> after = snd (billing_step (billing_op.Reserve (sm_reserve env) c) before)
                  \<and> j_Status job = BatchImageJobStatusSubmitted \<and> pub_ID v = j_BatchID job)))"

lemma hold_of_identity:
  assumes "row_identity j = row_identity job"
  shows "hold_of j rid c = hold_of job rid c"
proof -
  have "j_HoldAmount j = j_HoldAmount job" "j_EstimatedCost j = j_EstimatedCost job" "j_BatchID j = j_BatchID job"
    "j_UserID j = j_UserID job" "j_APIKeyID j = j_APIKeyID job"
    using assms by (simp_all add: row_identity_def)
  then show ?thesis by (simp only: hold_of_def job_hold_amount_def)
qed

lemma released_identity:
  "row_identity j = row_identity job \<Longrightarrow> released on env j db db' = released on env job db db'"
  using hold_of_identity [of j job] by (simp add: released_def row_identity_def)

lemma created_money:
  assumes "on_record job st" "\<forall>m\<in>set (sm_meanwhile env). \<exists>e. m = Tick e"
    and "j_UserID job = ow_UserID owner" "j_APIKeyID job = Some (ow_APIKeyID owner)"
  shows "money_on_record s env owner st (submit_created s env owner req ph name provider account job st)"
proof -
  let ?f = "reserveBatchImageBalanceHold (pu_billing s) (sm_reserve env) job ph"
  let ?out = "submit_created s env owner req ph name provider account job st"
  obtain r st1 where hold: "hold_call ?f st = (r, st1)" by (cases "hold_call ?f st")
  have bill1: "bs_billing (us_store st1) = snd (?f (bs_billing (us_store st)))" and rec1: "on_record job st1"
    using hold hold_call_parts(2) [of ?f st] assms(1) record_simps(1) [of job ?f st] by simp_all
  have follows1: "follows s env job st1 ?out"
  proof (cases r)
    case (Some e)
    then show ?thesis using hold by (simp add: submit_created_def follows_def record_kept(2) [OF record_kept(1) [OF rec1]])
  next
    case None
    let ?st2 = "invalidate s (ow_UserID owner) st1"
    let ?m = "createPendingItems (pu_conf s) (sm_items env) (j_BatchID job) ph (sr_Items req)"
    obtain r3 st3 where it: "repo ?m ?st2 = (r3, st3)" by (cases "repo ?m ?st2")
    have "obeys row_evolves (\<lambda>j. True) ?m"
      unfolding createPendingItems_def by (auto intro: evolution.obeys_keeps evolution.obeys_items)
    then have rec3: "on_record job st3" using repo_record [OF it] rec1 by simp
    have bill3: "bs_billing (us_store st3) = bs_billing (us_store st1)" using repo_split [OF it] by simp
    have "follows s env job st3 ?out"
      using hold None it
      by (cases r3) (simp_all add: submit_created_def Let_def follows_refused [OF rec3] upload_follows [OF rec3 assms(2)])
    then show ?thesis using bill3 by (rule follows_start)
  qed
  then obtain j where j: "find_job (j_BatchID job) (bs_jobs (us_store (snd ?out))) = Some j"
      "row_identity j = row_identity job" by (auto simp: follows_def on_record_def)
  have own: "j_UserID j = ow_UserID owner" "j_APIKeyID j = Some (ow_APIKeyID owner)" "j_BatchID j = j_BatchID job"
    using j(2) assms(3,4) by (simp_all add: row_identity_def)
  have bid: "pub_ID (BatchImageJobToPublic fmt j) = j_BatchID j" for fmt by (simp add: BatchImageJobToPublic_def)
  let ?before = "bs_billing (us_store st)" and ?after = "bs_billing (us_store (snd ?out))"
  from reserve_money [of "pu_billing s" "sm_reserve env" job ph ?before] show ?thesis
  proof (elim disjE conjE exE)
    assume "snd (?f ?before) = ?before" "pu_billing s \<longrightarrow> (\<forall>rid c. \<not> hold_of job rid c)"
    then have "?after = ?before"
      using follows1 bill1 by (auto simp: follows_def released_def split: sum.splits)
    then show ?thesis by (simp add: money_on_record_def Let_def)
  next
    fix c assume c: "hold_of job (BatchImageHoldRequestID (j_BatchID job)) c"
      and step: "snd (?f ?before) = snd (billing_step (billing_op.Reserve (sm_reserve env) c) ?before)"
    have "case fst ?out of
        Inl e \<Rightarrow> released (pu_billing s) (sm_release env) j (snd (billing_step (billing_op.Reserve (sm_reserve env) c) ?before)) ?after
      | Inr v \<Rightarrow> ?after = snd (billing_step (billing_op.Reserve (sm_reserve env) c) ?before)
          \<and> j_Status j = BatchImageJobStatusSubmitted \<and> pub_ID v = j_BatchID j"
      using follows1 j(1) step bill1 released_identity [OF j(2)]
      by (auto simp: follows_def bid split: sum.splits)
    moreover have "hold_of j (BatchImageHoldRequestID (j_BatchID j)) c"
      using c hold_of_identity [OF j(2)] own(3) by simp
    ultimately show ?thesis
      unfolding money_on_record_def Let_def using j(1) own by (intro disjI2 exI [of _ j] exI [of _ c]) simp
  qed
qed


lemma create_Inr:
  assumes "CreateBatchImageJob env p db = (Inr job, db')"
  shows "find_job (j_BatchID job) db' = Some job" "unique_db db'" "j_UserID job = p_UserID p" "j_APIKeyID job = p_APIKeyID p"
proof -
  have self: "p\<lparr>p_BatchID := p_BatchID p\<rparr> = p" by simp
  have "IsSupportedBatchImageProvider (p_Provider p)"
    using assms by (simp add: CreateBatchImageJob_def bm_simps split: if_splits)
  note created = assms [unfolded CreateBatchImageJob_def bm_bind_def bm_simps, simplified this]
  obtain b where "bm_translate (translatePersistenceError None (Some ErrBatchImageJobExists))
      (createBatchImageJobWithSQL env (create_defaults (p\<lparr>p_BatchID := b\<rparr>))) db = (Inr job, db')"
  proof (cases "p_BatchID p = []")
    case True
    with created show thesis using that by (cases "b_new_id env") (simp_all add: bm_simps)
  next
    case False
    with created have "bm_translate (translatePersistenceError None (Some ErrBatchImageJobExists))
      (createBatchImageJobWithSQL env (create_defaults p)) db = (Inr job, db')" by (simp add: bm_simps)
    with self show thesis by (intro that [of "p_BatchID p"]) (simp only:)
  qed
  then have ins: "createBatchImageJobWithSQL env (create_defaults (p\<lparr>p_BatchID := b\<rparr>)) db = (Inr job, db')"
    by (cases "createBatchImageJobWithSQL env (create_defaults (p\<lparr>p_BatchID := b\<rparr>)) db";
        cases "fst (createBatchImageJobWithSQL env (create_defaults (p\<lparr>p_BatchID := b\<rparr>)) db)")
       (simp_all add: bm_translate_def)
  let ?j = "new_job_row env (next_job_id db) (create_defaults (p\<lparr>p_BatchID := b\<rparr>))"
  let ?db1 = "db\<lparr>jobs := jobs db @ [?j], next_job_id := next_job_id db + 1\<rparr>"
  have "(if unique_jobs (jobs db @ [?j]) then (Inr ?j, ?db1) else (Inl UniqueViolation, db)) = (Inr job, db')"
    using ins unfolding createBatchImageJobWithSQL_def bm_stmt_def Let_def bm_simps
    by (cases "b_fails env BInsertJob") (simp_all only: if_True if_False bm_simps prod.inject sum.distinct simp_thms)
  then have "unique_jobs (jobs db @ [?j])" "?j = job" "?db1 = db'"
    by (cases "unique_jobs (jobs db @ [?j])";
        simp only: if_True if_False prod.inject sum.inject sum.distinct simp_thms)+
  then have j: "job = ?j" "jobs db' = jobs db @ [?j]" "unique_jobs (jobs db @ [?j])"
    by (simp_all only: flip: \<open>?db1 = db'\<close>) simp
  show u: "unique_db db'" using j(2,3) by (simp add: unique_db_def)
  show "find_job (j_BatchID job) db' = Some job"
    using find_job_unique [OF u, of job] j(1,2) by simp
  show "j_UserID job = p_UserID p" "j_APIKeyID job = p_APIKeyID p"
    unfolding j(1) by (simp_all add: new_job_row_def create_defaults_def Let_def)
qed

lemma no_money: "bs_billing (us_store (snd out)) = bs_billing (us_store st) \<Longrightarrow> money_on_record s env owner st out"
  by (simp add: money_on_record_def)

lemma money_start:
  "money_on_record s env owner st1 out \<Longrightarrow> bs_billing (us_store st1) = bs_billing (us_store st) \<Longrightarrow>
     money_on_record s env owner st out"
  by (simp add: money_on_record_def)

lemma parent_money: "bs_billing (us_store (snd (submit_parent env owner name st))) = bs_billing (us_store st)"
proof (cases "batchImageOptionalStringPtr name")
  case (Some pid)
  let ?m = "GetBatchImageJobByBatchIDForOwner (sm_parent env) (ow_UserID owner) (ow_APIKeyID owner) pid"
  obtain r st1 where "repo ?m st = (r, st1)" by (cases "repo ?m st")
  with Some repo_split [OF this] show ?thesis by (cases r) (simp_all add: submit_parent_def)
qed (simp add: submit_parent_def)

lemma new_money:
  assumes "\<forall>m\<in>set (sm_meanwhile env). \<exists>e. m = Tick e"
  shows "money_on_record s env owner st (submit_new s env owner req ph key st)"
proof (cases "pu_select s owner (sr_Provider req) (sr_Model req)")
  case (Inr choice)
  obtain name provider account where choice: "choice = (name, provider, account)" by (cases choice)
  show ?thesis
  proof (cases "resolvePricingSnapshot (pu_pricing s) owner req name (pu_account_rate s account)")
    case (Inr snap)
    obtain r1 st1 where par: "submit_parent env owner (sr_ParentBatchID req) st = (r1, st1)"
      by (cases "submit_parent env owner (sr_ParentBatchID req) st")
    have bill1: "bs_billing (us_store st1) = bs_billing (us_store st)"
      using parent_money [of env owner "sr_ParentBatchID req" st] par by simp
    note start = submit_new_def choice \<open>_ = Inr choice\<close> Inr par
    show ?thesis
    proof (cases r1)
      case (Inl e)
      then show ?thesis using bill1 by (simp add: start no_money)
    next
      case r1: (Inr parent)
      show ?thesis
      proof (cases "sm_new_id env")
        case None
        then show ?thesis using bill1 r1 by (simp add: start no_money)
      next
        case (Some batchID)
        let ?p = "submit_params owner batchID name (pu_account_id s account) req parent snap key ph"
        obtain r2 st2 where cr: "repo (CreateBatchImageJob (sm_create env) ?p) st1 = (r2, st2)"
          by (cases "repo (CreateBatchImageJob (sm_create env) ?p) st1")
        note sp2 = repo_split [OF cr]
        show ?thesis
        proof (cases r2)
          case (Inl e)
          then show ?thesis using bill1 sp2 r1 Some cr by (simp add: start no_money)
        next
          case r2: (Inr job)
          have "CreateBatchImageJob (sm_create env) ?p (bs_jobs (us_store st1)) = (Inr job, bs_jobs (us_store st2))"
            using sp2 r2 by simp
          note job = create_Inr [OF this]
          have "on_record job st2" using job(1,2) by (simp add: on_record_def)
          moreover have "j_UserID job = ow_UserID owner" "j_APIKeyID job = Some (ow_APIKeyID owner)"
            using job(3,4) by (simp_all add: submit_params_def)
          ultimately have "money_on_record s env owner st2 (submit_created s env owner req ph name provider account job st2)"
            by (rule created_money [OF _ assms])
          then have "money_on_record s env owner st (submit_created s env owner req ph name provider account job st2)"
            using bill1 sp2 by (simp add: money_start)
          then show ?thesis using r1 r2 Some cr by (simp add: start)
        qed
      qed
    qed
  qed (simp add: submit_new_def \<open>_ = Inr choice\<close> choice no_money)
qed (simp add: submit_new_def no_money)

lemma replay_money: "bs_billing (us_store (snd (submit_replay s env job ph st))) = bs_billing (us_store st)"
proof -
  obtain r st1 where e: "enqueue s (sm_queue env) (j_BatchID job) st = (r, st1)"
    by (cases "enqueue s (sm_queue env) (j_BatchID job) st")
  then have "us_store st1 = us_store st" using submit_enqueue_frame(1) [of s "sm_queue env" "j_BatchID job" st] by simp
  then show ?thesis using e by (cases r) (simp_all add: submit_replay_def)
qed

lemma submit_money:
  assumes "\<forall>m\<in>set (sm_meanwhile env). \<exists>e. m = Tick e"
  shows "money_on_record s env owner st (Submit s env owner req0 key0 st)"
proof (cases "enabled s")
  case True
  show ?thesis
  proof (cases "validateSubmitRequest (pu_conf s) (pu_format s (sm_now env)) req0")
    case (Inr req)
    let ?ph = "HashBatchImageSubmitRequest (pu_marshal s) (pu_sha256 s) req" and ?key = "trim_space key0"
    let ?get = "GetBatchImageJobByIdempotencyKey (sm_find env) (ow_UserID owner) (ow_APIKeyID owner) ?key"
    obtain r1 st1 where get: "repo ?get st = (r1, st1)" by (cases "repo ?get st")
    note bill1 = repo_split [OF get]
    show ?thesis
    proof (cases "ensureGroupAllowsBatchImage (pu_pricing s) (ow_GroupID owner) = None \<and> ?key \<noteq> []")
      case True
      then show ?thesis
        using get bill1 \<open>enabled s\<close> Inr money_start [OF new_money [OF assms], of st1 st s owner req ?ph ?key]
          replay_money [of s env _ ?ph st1]
        by (cases r1) (simp_all add: Submit_def Let_def no_money)
    next
      case False
      then show ?thesis
        using \<open>enabled s\<close> Inr new_money [OF assms, of s owner st req ?ph "[]"]
        by (auto simp: Submit_def Let_def no_money split: option.split)
    qed
  qed (simp add: Submit_def True no_money)
qed (simp add: Submit_def no_money)

text \<open>C10 (submit_money_on_record): Whatever fails during a submission, money moves only for a job that is
  on record under its owner: either no balance changes; or the hold of a job on record was reserved,
  and the batch returned is that job, which the provider has; or an error is returned and the hold of
  a job on record was reserved, and released again or left for the recovery of that job to release.\<close>

theorem submit_money_on_record:
  assumes "Submit s env owner req key st = (r, st')" "\<forall>m\<in>set (sm_meanwhile env). \<exists>e. m = Tick e"
  shows "bs_billing (us_store st') = bs_billing (us_store st)
    \<or> (\<exists>job c. find_job (j_BatchID job) (bs_jobs (us_store st')) = Some job
        \<and> j_UserID job = ow_UserID owner \<and> j_APIKeyID job = Some (ow_APIKeyID owner)
        \<and> hold_of job (BatchImageHoldRequestID (j_BatchID job)) c
        \<and> (let reserved = snd (billing_step (billing_op.Reserve (sm_reserve env) c) (bs_billing (us_store st))) in
           case r of
             Inr v \<Rightarrow> bs_billing (us_store st') = reserved \<and> j_Status job = BatchImageJobStatusSubmitted
                        \<and> pub_ID v = j_BatchID job
           | Inl e \<Rightarrow> bs_billing (us_store st') = reserved
                \<or> (\<exists>c'. hold_of job (BatchImageReleaseRequestID (j_BatchID job)) c'
                     \<and> bs_billing (us_store st') = snd (billing_step (Release (sm_release env) c') reserved))))"
proof -
  let ?before = "bs_billing (us_store st)" and ?after = "bs_billing (us_store st')"
  have "money_on_record s env owner st (Submit s env owner req key st)"
    by (rule submit_money [OF assms(2)])
  then consider "?after = ?before"
    | job c where "find_job (j_BatchID job) (bs_jobs (us_store st')) = Some job" "j_UserID job = ow_UserID owner"
        "j_APIKeyID job = Some (ow_APIKeyID owner)" "hold_of job (BatchImageHoldRequestID (j_BatchID job)) c"
        "case r of
            Inl e \<Rightarrow> released (pu_billing s) (sm_release env) job (snd (billing_step (billing_op.Reserve (sm_reserve env) c) ?before)) ?after
          | Inr v \<Rightarrow> ?after = snd (billing_step (billing_op.Reserve (sm_reserve env) c) ?before)
              \<and> j_Status job = BatchImageJobStatusSubmitted \<and> pub_ID v = j_BatchID job"
    unfolding assms(1) money_on_record_def Let_def fst_conv snd_conv by blast
  then show ?thesis
  proof cases
    case (2 job c)
    then show ?thesis
      unfolding Let_def by (intro disjI2 exI [of _ job] exI [of _ c]) (auto simp: released_def split: sum.splits)
  qed simp
qed

end
