(* ===== verification/BatchImageSubmitQuiet.thy ===== *)
theory BatchImageSubmitQuiet
  imports BatchImageSubmitOutcome
begin

text \<open>
  A submission in which nothing fails: the job is submitted to the provider and queued, and its hold
  is reserved; one that is repeated under its key does nothing.
\<close>

section \<open>Heartbeats\<close>

lemma find_job_map:
  assumes "\<forall>j. j_BatchID (f j) = j_BatchID j"
  shows "find (\<lambda>j. j_BatchID j = b) (map (\<lambda>j. if P j then f j else j) js)
    = map_option (\<lambda>j. if P j then f j else j) (find (\<lambda>j. j_BatchID j = b) js)"
  using assms by (induction js) auto

text \<open>What a heartbeat leaves of a row.\<close>

definition beaten :: "BatchImageJob \<Rightarrow> BatchImageJob \<Rightarrow> bool" where
  "beaten j j' \<longleftrightarrow> j_Status j' = j_Status j \<and> row_identity j' = row_identity j \<and> j_ManifestHash j' = j_ManifestHash j"

lemma touch_beats:
  assumes "changed_job b j db0 db"
  shows "\<exists>j'. changed_job b j' db0 (snd (TouchBatchImageJobSubmitting env b db)) \<and> beaten j j'"
proof -
  let ?P = "\<lambda>j. j_BatchID j = b \<and> unsubmitted j" and ?f = "touch_row (b_now env)"
  have f: "\<forall>j. j_BatchID (?f j) = j_BatchID j" "\<forall>j. beaten j (?f j)" "beaten j j"
    by (simp_all add: touch_row_def beaten_def row_identity_def)
  obtain r db' where up: "update_jobs env ?P ?f db = (r, db')" by (cases "update_jobs env ?P ?f db")
  then have snd: "snd (TouchBatchImageJobSubmitting env b db) = db'"
    by (cases r) (simp_all add: TouchBatchImageJobSubmitting_def bm_bind_def bm_simps)
  from update_jobs_cases [OF up] show ?thesis
  proof (elim disjE conjE)
    assume "db' = db"
    then show ?thesis unfolding snd using assms f(3) by blast
  next
    assume u: "unique_jobs (jobs db')" and db': "db' = db\<lparr>jobs := map (\<lambda>j. if ?P j then ?f j else j) (jobs db)\<rparr>"
    have find: "find_job b' db' = map_option (\<lambda>j. if ?P j then ?f j else j) (find_job b' db)" for b'
      unfolding db' find_job_def using find_job_map [OF f(1), of b' ?P "jobs db"] by simp
    have "find_job b' db' = find_job b' db" if "b' \<noteq> b" for b'
      unfolding find using find_job_mem [of b' db] that by (cases "find_job b' db") auto
    moreover have "find_job b db' = Some (if ?P j then ?f j else j)"
      unfolding find using assms by (simp add: changed_job_def)
    ultimately have "changed_job b (if ?P j then ?f j else j) db0 db'"
      using assms u by (simp add: changed_job_def unique_db_def)
    moreover have "beaten j (if ?P j then ?f j else j)" using f(2,3) by simp
    ultimately show ?thesis unfolding snd by blast
  qed
qed

lemma heartbeat_beats:
  assumes "\<forall>m\<in>set ms. \<exists>e. m = Tick e" "changed_job b j db0 (bs_jobs (us_store st))"
  shows "\<exists>j'. changed_job b j' db0 (bs_jobs (us_store (runSubmitHeartbeat b ms st))) \<and> beaten j j'"
  using assms
proof (induction b ms st arbitrary: j rule: runSubmitHeartbeat.induct)
  case (2 b env rest st)
  obtain j1 where "changed_job b j1 db0 (bs_jobs (us_store (snd (repo (TouchBatchImageJobSubmitting env b) st))))" "beaten j j1"
    using touch_beats [OF 2(3), of env] unfolding repo_jobs by blast
  with 2(1) [OF _ this(1)] 2(2) show ?case by (auto simp: beaten_def)
qed (auto simp: beaten_def)

section \<open>A submission in which nothing fails\<close>

definition quiet_submit :: "submit_env \<Rightarrow> bool" where
  "quiet_submit env \<longleftrightarrow> batch_quiet (sm_find env) \<and> batch_quiet (sm_create env) \<and> batch_quiet (sm_items env)
     \<and> batch_quiet (sm_upload env) \<and> batch_quiet (sm_submitted env) \<and> batch_quiet (sm_final env)
     \<and> no_faults (sm_reserve env) \<and> (\<forall>m\<in>set (sm_meanwhile env). \<exists>e. m = Tick e)"

text \<open>The provider takes the job under this name and the queue accepts it.\<close>

definition provider_takes ::
  "'acct public_service \<Rightarrow> submit_env \<Rightarrow> BatchImageSubmitRequest \<Rightarrow> 'acct submitter \<Rightarrow> 'acct \<Rightarrow> string
     \<Rightarrow> BatchProviderJob \<Rightarrow> public_store \<Rightarrow> bool" where
  "provider_takes s env req provider account b pj st \<longleftrightarrow>
     (\<forall>job. j_BatchID job = b \<longrightarrow> up_submit provider job account (batch_input job req) = Inr (Some pj))
     \<and> trim_space (pj_ProviderJobName pj) \<noteq> ''''
     \<and> (\<exists>conf. pu_queue s = Some conf \<and> fst (Enqueue conf (sm_queue env) b (us_queue st)) = Inr ())"

definition submitted_as :: "string \<Rightarrow> BatchImageJob \<Rightarrow> BatchProviderJob \<Rightarrow> public_store \<Rightarrow> public_store \<Rightarrow> bool" where
  "submitted_as b job pj st st' \<longleftrightarrow>
     (\<exists>j. changed_job b j (bs_jobs (us_store st)) (bs_jobs (us_store st')) \<and> row_identity j = row_identity job
        \<and> j_Status j = BatchImageJobStatusSubmitted \<and> j_ProviderJobName j = Some (pj_ProviderJobName pj))"

lemma enqueue_queued:
  assumes "Enqueue conf env b q = (Inr (), q')"
  shows "queued b q'"
  using assms
  by (auto simp: Enqueue_def redis_def queued_def batchImageEnqueueScript_def split: if_splits prod.splits sum.splits
      fault.splits)

lemma accepted_quiet:
  assumes "batch_quiet (sm_submitted env)" "batch_quiet (sm_final env)"
    and "unique_db (bs_jobs (us_store st))" "find_job b (bs_jobs (us_store st)) = Some cur" "j_BatchID job = b"
    and "CanTransitionBatchImageJob (j_Status cur) BatchImageJobStatusSubmitted"
    and "pu_queue s = Some conf" "fst (Enqueue conf (sm_queue env) b (us_queue st)) = Inr ()"
  shows "\<exists>v st'. submit_accepted s env name job pj st = (Inr v, st') \<and> pub_ID v = b \<and> pub_Status v = ''queued''
    \<and> submitted_as b cur pj st st' \<and> queued b (us_queue st') \<and> us_upstream st' = us_upstream st
    \<and> bs_billing (us_store st') = bs_billing (us_store st)"
proof -
  define p where "p = \<lparr>s_BatchID = b, s_ProviderJobName = pj_ProviderJobName pj,
      s_ProviderInputRef = pj_ProviderInputRef pj, s_ProviderOutputRef = pj_ProviderOutputRef pj,
      s_GCSInputURI = batchImageGCSRef name (pj_ProviderInputRef pj),
      s_GCSOutputURI = batchImageGCSRef name (pj_ProviderOutputRef pj),
      s_EventPayload = Some [(''provider'', JStr name)]\<rparr>"
  have p: "s_BatchID p = b" "s_ProviderJobName p = pj_ProviderJobName pj" by (simp_all add: p_def)
  let ?row = "provider_submit_row (b_now (sm_submitted env)) p cur"
  have row: "j_Status ?row = BatchImageJobStatusSubmitted" "j_ProviderJobName ?row = Some (pj_ProviderJobName pj)"
    "row_identity ?row = row_identity cur" "j_BatchID ?row = j_BatchID cur"
    by (simp_all add: provider_submit_row_def row_identity_def p status_defs)
  obtain jdb where up: "UpdateBatchImageJobProviderSubmit (sm_submitted env) p (bs_jobs (us_store st)) = (Inr (), jdb)"
    and ch: "changed_job b ?row (bs_jobs (us_store st)) jdb"
    using submit_update_quiet [OF assms(1,3,4) p(1) assms(6)] by blast
  let ?st1 = "st\<lparr>us_store := (us_store st)\<lparr>bs_jobs := jdb\<rparr>\<rparr>"
  obtain q where q: "Enqueue conf (sm_queue env) b (us_queue st) = (Inr (), q)"
    using assms(8) by (cases "Enqueue conf (sm_queue env) b (us_queue st)") auto
  have get: "GetBatchImageJobByBatchID (sm_final env) b jdb = (Inr ?row, jdb)"
    using ch by (simp add: get_quiet [OF assms(2)] changed_job_def)
  have up': "repo (UpdateBatchImageJobProviderSubmit (sm_submitted env) p) st = (Inr (), ?st1)"
    using up by (simp add: repo_def on_jobs_def)
  have en: "enqueue s (sm_queue env) b ?st1 = (None, ?st1\<lparr>us_queue := q\<rparr>)"
    using q assms(7) by (simp add: enqueue_def)
  have get': "repo (GetBatchImageJobByBatchID (sm_final env) b) (?st1\<lparr>us_queue := q\<rparr>) = (Inr ?row, ?st1\<lparr>us_queue := q\<rparr>)"
    using get by (simp add: repo_def on_jobs_def)
  have out: "submit_accepted s env name job pj st
      = (Inr (BatchImageJobToPublic (pu_format s) ?row), ?st1\<lparr>us_queue := q\<rparr>)"
    unfolding submit_accepted_def assms(5) p_def [symmetric] up' prod.case sum.case en option.case get' ..
  have "submitted_as b cur pj st (?st1\<lparr>us_queue := q\<rparr>)"
    unfolding submitted_as_def using ch row by (intro exI [of _ ?row]) simp
  then show ?thesis
    unfolding out using enqueue_queued [OF q] row find_job_mem [OF assms(4)]
    by (simp add: BatchImageJobToPublic_def PublicBatchImageStatus_def)
qed

lemma upload_quiet:
  assumes "quiet_submit env"
    and "unique_db (bs_jobs (us_store st))" "find_job b (bs_jobs (us_store st)) = Some job"
    and "j_Status job = BatchImageJobStatusCreated" "provider_takes s env req provider account b pj st"
  shows "\<exists>v st'. submit_upload s env owner req ph name provider account job st = (Inr v, st')
    \<and> pub_ID v = b \<and> pub_Status v = ''queued'' \<and> submitted_as b job pj st st' \<and> queued b (us_queue st')
    \<and> us_upstream st' = us_upstream st @ [UpSubmit b] \<and> bs_billing (us_store st') = bs_billing (us_store st)"
proof -
  let ?opts = "transition_options ''upload_started'' (Some [(''batch_id'', JStr b)]) None None"
  let ?row = "transition_row (b_now (sm_upload env)) BatchImageJobStatusUploading ?opts job"
  let ?job1 = "job\<lparr>j_Status := BatchImageJobStatusUploading\<rparr>"
  have b: "j_BatchID job = b" "j_BatchID ?job1 = b" using find_job_mem [OF assms(3)] by simp_all
  have can: "CanTransitionBatchImageJob (j_Status job) BatchImageJobStatusUploading"
    "CanTransitionBatchImageJob BatchImageJobStatusUploading BatchImageJobStatusSubmitted"
    by (simp_all add: assms(4) CanTransitionBatchImageJob_def IsTerminalBatchImageJobStatus_def
        allowed_transitions_def status_defs)
  obtain jdb where tr: "TransitionBatchImageJobStatus (sm_upload env) b BatchImageJobStatusUploading ?opts
      (bs_jobs (us_store st)) = (Inr (), jdb)" and ch: "changed_job b ?row (bs_jobs (us_store st)) jdb"
    using transition_quiet [OF _ assms(2,3) can(1), of "sm_upload env" ?opts] assms(1) by (auto simp: quiet_submit_def)
  define st1 where "st1 = upstream (UpSubmit b) (st\<lparr>us_store := (us_store st)\<lparr>bs_jobs := jdb\<rparr>\<rparr>)"
  define st2 where "st2 = runSubmitHeartbeat b (sm_meanwhile env) st1"
  have ticks: "\<forall>m\<in>set (sm_meanwhile env). \<exists>e. m = Tick e" using assms(1) by (simp add: quiet_submit_def)
  have ch1: "changed_job b ?row (bs_jobs (us_store st)) (bs_jobs (us_store st1))" using ch by (simp add: st1_def)
  from heartbeat_beats [OF ticks this] obtain cur where
    kept: "changed_job b cur (bs_jobs (us_store st)) (bs_jobs (us_store st2))" and beaten: "beaten ?row cur"
    unfolding st2_def by blast
  have cur: "find_job b (bs_jobs (us_store st2)) = Some cur" "unique_db (bs_jobs (us_store st2))"
    using kept by (simp_all add: changed_job_def)
  have st2: "us_queue st2 = us_queue st" "us_upstream st2 = us_upstream st @ [UpSubmit b]"
      "bs_billing (us_store st2) = bs_billing (us_store st)"
    using heartbeat_kept(2-4) [OF ticks, of b st1] by (simp_all add: st2_def st1_def)
  have cid: "j_Status cur = BatchImageJobStatusUploading" "row_identity cur = row_identity job"
    using beaten by (simp_all add: beaten_def transition_row_fields)
  obtain conf where conf: "pu_queue s = Some conf" "fst (Enqueue conf (sm_queue env) b (us_queue st2)) = Inr ()"
    using assms(5) st2(1) by (auto simp: provider_takes_def)
  obtain v st' where acc: "submit_accepted s env name ?job1 pj st2 = (Inr v, st')" "pub_ID v = b" "pub_Status v = ''queued''"
      "submitted_as b cur pj st2 st'" "queued b (us_queue st')" "us_upstream st' = us_upstream st2"
      "bs_billing (us_store st') = bs_billing (us_store st2)"
    using accepted_quiet [OF _ _ cur(2,1) b(2) _ conf, of name pj] assms(1) can(2) cid(1)
    by (auto simp: quiet_submit_def)
  have up: "up_submit provider ?job1 account (batch_input job req) = Inr (Some pj)" "trim_space (pj_ProviderJobName pj) \<noteq> []"
    using assms(5) b(2) by (auto simp: provider_takes_def batch_input_def)
  have "submit_upload s env owner req ph name provider account job st = submit_accepted s env name ?job1 pj st2"
    using tr up b(1) by (simp add: submit_upload_def submit_answer_def Let_def st2_def st1_def repo_def on_jobs_def)
  moreover have "submitted_as b job pj st st'"
    using acc(4) cid(2) changed_trans [OF kept] unfolding submitted_as_def by metis
  ultimately show ?thesis using acc st2 by auto
qed

text \<open>The money for a hold.  The hold moves from one column to the other, each rounded to eight decimals,
  so exactly if it has no more.\<close>

definition can_pay :: "BatchImageOwner \<Rightarrow> string \<Rightarrow> decimal \<Rightarrow> user_row \<Rightarrow> billing_db \<Rightarrow> bool" where
  "can_pay owner b hold u db \<longleftrightarrow>
     0 < ow_APIKeyID owner \<and> 0 < hold
     \<and> users db (ow_UserID owner) = Some u \<and> \<not> u_deleted u \<and> scaled_row u \<and> hold \<le> u_balance u
     \<and> free_key db (BatchImageHoldRequestID b) (ow_APIKeyID owner)"

definition hold_taken :: "int \<Rightarrow> decimal \<Rightarrow> user_row \<Rightarrow> billing_db \<Rightarrow> bool" where
  "hold_taken uid hold u db \<longleftrightarrow>
     (\<exists>u'. users db uid = Some u' \<and> u_balance u' = round_half_away 8 (u_balance u - hold)
        \<and> u_frozen_balance u' = round_half_away 8 (u_frozen_balance u + hold)
        \<and> (on_scale 8 hold \<longrightarrow>
             u_balance u' = u_balance u - hold \<and> u_frozen_balance u' = u_frozen_balance u + hold))"

lemma reserve_hold_ok:
  assumes "no_faults env" "j_UserID job = ow_UserID owner" "j_APIKeyID job = Some (ow_APIKeyID owner)"
    and "can_pay owner (j_BatchID job) (job_hold_amount job) u db"
  shows "\<exists>db'. reserveBatchImageBalanceHold True env job ph db = (None, db')
    \<and> hold_taken (ow_UserID owner) (job_hold_amount job) u db'"
proof -
  let ?rid = "BatchImageHoldRequestID (j_BatchID job)"
  let ?c = "hold_cmd ?rid (ow_APIKeyID owner) (j_UserID job) (j_BatchID job) (job_hold_amount job) 0 (trim_space ph)"
  obtain r fp where "ReserveBatchImageBalance env (Some ?c) db = (Inr r,
      db\<lparr>dedup := (dedup db)((?rid, ow_APIKeyID owner) \<mapsto> fp),
         users := (users db)(j_UserID job \<mapsto>
           u\<lparr>u_balance := round_half_away 8 (u_balance u - job_hold_amount job),
             u_frozen_balance := round_half_away 8 (u_frozen_balance u + job_hold_amount job),
             u_updated_at := env_now env\<rparr>)\<rparr>)"
    using reserve_ok [OF assms(1), of ?c ?rid db u] assms(2,4) by (auto simp: can_pay_def)
  moreover have "buildBatchImageHoldCommand (Some job) ?rid 0 ph = Inr ?c"
    by (rule hold_command) (use assms(3,4) in \<open>simp_all add: can_pay_def\<close>)
  ultimately show ?thesis
    using assms(2,4) by (simp add: reserveBatchImageBalanceHold_def can_pay_def hold_taken_def scaled_row_def)
qed

lemma created_quiet:
  assumes "quiet_submit env" "pu_billing s"
    and "unique_db (bs_jobs (us_store st))" "find_job b (bs_jobs (us_store st)) = Some job"
    and "j_Status job = BatchImageJobStatusCreated"
    and "j_UserID job = ow_UserID owner" "j_APIKeyID job = Some (ow_APIKeyID owner)"
    and "can_pay owner b (job_hold_amount job) u (bs_billing (us_store st))"
    and "distinct (map si_CustomID (sr_Items req))" "\<forall>i\<in>set (items (bs_jobs (us_store st))). i_JobID i \<noteq> b"
    and "provider_takes s env req provider account b pj st"
  shows "\<exists>v st'. submit_created s env owner req ph name provider account job st = (Inr v, st')
    \<and> pub_ID v = b \<and> pub_Status v = ''queued'' \<and> submitted_as b job pj st st' \<and> queued b (us_queue st')
    \<and> us_upstream st' = us_upstream st @ [UpSubmit b]
    \<and> hold_taken (ow_UserID owner) (job_hold_amount job) u (bs_billing (us_store st'))"
proof -
  have b: "j_BatchID job = b" using find_job_mem [OF assms(4)] by simp
  obtain bdb where res: "reserveBatchImageBalanceHold True (sm_reserve env) job ph (bs_billing (us_store st)) = (None, bdb)"
    and taken: "hold_taken (ow_UserID owner) (job_hold_amount job) u bdb"
    using reserve_hold_ok [OF _ assms(6,7), of "sm_reserve env" u "bs_billing (us_store st)" ph] assms(1,8) b by (auto simp: quiet_submit_def)
  define st1 where "st1 = invalidate s (ow_UserID owner) (st\<lparr>us_store := (us_store st)\<lparr>bs_billing := bdb\<rparr>\<rparr>)"
  have st1: "bs_jobs (us_store st1) = bs_jobs (us_store st)" "bs_billing (us_store st1) = bdb"
    "us_queue st1 = us_queue st" "us_upstream st1 = us_upstream st" by (simp_all add: st1_def)
  obtain jdb where it: "createPendingItems (pu_conf s) (sm_items env) b ph (sr_Items req) (bs_jobs (us_store st)) = (Inr (), jdb)"
      "jobs jdb = jobs (bs_jobs (us_store st))"
    using pending_items_quiet [OF _ assms(4,9,10), of "sm_items env" "pu_conf s" ph] assms(1) by (auto simp: quiet_submit_def)
  define st2 where "st2 = st1\<lparr>us_store := (us_store st1)\<lparr>bs_jobs := jdb\<rparr>\<rparr>"
  have st2: "unique_db (bs_jobs (us_store st2))" "find_job b (bs_jobs (us_store st2)) = Some job"
    using find_job_jobs [OF it(2), of b] assms(3,4) by (simp_all add: st2_def)
  have rest2: "bs_billing (us_store st2) = bdb" "us_queue st2 = us_queue st" "us_upstream st2 = us_upstream st"
    by (simp_all add: st2_def st1)
  have takes: "provider_takes s env req provider account b pj st2" using assms(11) by (simp add: provider_takes_def rest2)
  have "submit_created s env owner req ph name provider account job st
      = submit_upload s env owner req ph name provider account job st2"
    using res it(1) assms(2) b st1(1) by (simp add: submit_created_def hold_call_def repo_def on_jobs_def Let_def st2_def flip: st1_def)
  moreover have "submitted_as b job pj st st'" if "submitted_as b job pj st2 st'" for st'
    using that find_job_jobs [OF it(2)] by (simp add: submitted_as_def changed_job_def st2_def)
  ultimately show ?thesis
    using upload_quiet [OF assms(1) st2 assms(5) takes, of owner ph name] rest2 taken by auto
qed

text \<open>The choices a request leads to.\<close>

definition chooses ::
  "'acct public_service \<Rightarrow> submit_env \<Rightarrow> BatchImageOwner \<Rightarrow> BatchImageSubmitRequest \<Rightarrow> string
     \<Rightarrow> 'acct submitter \<Rightarrow> 'acct \<Rightarrow> BatchImagePricingSnapshot \<Rightarrow> string \<Rightarrow> bool" where
  "chooses s env owner req name provider account snap b \<longleftrightarrow>
     pu_select s owner (sr_Provider req) (sr_Model req) = Inr (name, provider, account)
     \<and> IsSupportedBatchImageProvider name
     \<and> resolvePricingSnapshot (pu_pricing s) owner req name (pu_account_rate s account) = Inr snap
     \<and> trim_space (sr_ParentBatchID req) = '''' \<and> sm_new_id env = Some b \<and> b \<noteq> ''''"

definition submits_as ::
  "'acct public_service \<Rightarrow> submit_env \<Rightarrow> BatchImageOwner \<Rightarrow> BatchImageSubmitRequest \<Rightarrow> string \<Rightarrow> public_store
     \<Rightarrow> BatchImageSubmitRequest \<Rightarrow> string \<Rightarrow> 'acct submitter \<Rightarrow> 'acct \<Rightarrow> BatchImagePricingSnapshot \<Rightarrow> string \<Rightarrow> bool" where
  "submits_as s env owner req0 key st req name provider account snap b \<longleftrightarrow>
     enabled s \<and> validateSubmitRequest (pu_conf s) (pu_format s (sm_now env)) req0 = Inr req
     \<and> ensureGroupAllowsBatchImage (pu_pricing s) (ow_GroupID owner) = None
     \<and> (trim_space key = '''' \<or> (\<forall>j\<in>set (jobs (bs_jobs (us_store st))). j_UserID j = ow_UserID owner
           \<longrightarrow> j_APIKeyID j = Some (ow_APIKeyID owner) \<longrightarrow> j_IdempotencyKey j \<noteq> Some (trim_space key)))
     \<and> chooses s env owner req name provider account snap b"

lemma find_key_quiet:
  assumes "batch_quiet env" "\<forall>j\<in>set (jobs db). j_UserID j = u \<longrightarrow> j_APIKeyID j = Some k \<longrightarrow> j_IdempotencyKey j \<noteq> Some key"
  shows "GetBatchImageJobByIdempotencyKey env u k key db = (Inl ErrBatchImageJobNotFound, db)"
proof -
  have "filter (\<lambda>j. j_UserID j = u \<and> j_APIKeyID j = Some k \<and> j_IdempotencyKey j = Some key) (jobs db) = []"
    using assms(2) by (simp add: filter_empty_conv)
  then show ?thesis
    using assms(1) by (simp add: GetBatchImageJobByIdempotencyKey_def bm_translate_def translatePersistenceError_def)
qed

lemma submit_start:
  assumes "quiet_submit env" "submits_as s env owner req0 key st req name provider account snap b"
  shows "Submit s env owner req0 key st = submit_new s env owner req
    (HashBatchImageSubmitRequest (pu_marshal s) (pu_sha256 s) req) (trim_space key) st"
proof (cases "trim_space key = []")
  case False
  have "repo (GetBatchImageJobByIdempotencyKey (sm_find env) (ow_UserID owner) (ow_APIKeyID owner) (trim_space key)) st
      = (Inl ErrBatchImageJobNotFound, st)"
    using find_key_quiet [of "sm_find env" "bs_jobs (us_store st)" "ow_UserID owner" "ow_APIKeyID owner" "trim_space key"]
      assms False by (simp add: repo_def on_jobs_def quiet_submit_def submits_as_def)
  then show ?thesis using assms(2) False by (simp add: Submit_def submits_as_def Let_def)
qed (use assms(2) in \<open>simp add: Submit_def submits_as_def\<close>)

text \<open>What a new job leaves, when its request carries this key and hash.\<close>

definition handed_over ::
  "BatchImageOwner \<Rightarrow> string \<Rightarrow> string \<Rightarrow> string \<Rightarrow> BatchProviderJob \<Rightarrow> decimal \<Rightarrow> user_row \<Rightarrow> public_store
     \<Rightarrow> (batch_error + BatchImagePublicBatch) \<times> public_store \<Rightarrow> bool" where
  "handed_over owner b key ph pj hold u st out \<longleftrightarrow>
     (\<exists>v st' j. out = (Inr v, st') \<and> pub_ID v = b \<and> pub_Status v = ''queued''
        \<and> changed_job b j (bs_jobs (us_store st)) (bs_jobs (us_store st')) \<and> j_BatchID j = b
        \<and> j_UserID j = ow_UserID owner \<and> j_APIKeyID j = Some (ow_APIKeyID owner) \<and> j_HoldAmount j = Some hold
        \<and> j_IdempotencyKey j = batchImageOptionalStringPtr key \<and> j_RequestHash j = Some ph
        \<and> j_Status j = BatchImageJobStatusSubmitted \<and> j_ProviderJobName j = Some (pj_ProviderJobName pj)
        \<and> hold_taken (ow_UserID owner) hold u (bs_billing (us_store st'))
        \<and> queued b (us_queue st') \<and> us_upstream st' = us_upstream st @ [UpSubmit b])"

lemma new_quiet:
  assumes "quiet_submit env" "pu_billing s" "chooses s env owner req name provider account snap b"
    and "provider_takes s env req provider account b pj st" "distinct (map si_CustomID (sr_Items req))"
    and "hold = round_half_away 10 (ps_HoldAmount snap)" "can_pay owner b hold u (bs_billing (us_store st))"
    and "unique_db (bs_jobs (us_store st))" "find_job b (bs_jobs (us_store st)) = None"
    and "\<forall>i\<in>set (items (bs_jobs (us_store st))). i_JobID i \<noteq> b"
  shows "handed_over owner b key ph pj hold u st (submit_new s env owner req ph key st)"
proof -
  let ?p = "submit_params owner b name (pu_account_id s account) req None snap key ph"
  let ?db = "bs_jobs (us_store st)"
  let ?job = "new_job_row (sm_create env) (next_job_id ?db) ?p"
  have way: "pu_select s owner (sr_Provider req) (sr_Model req) = Inr (name, provider, account)"
      "IsSupportedBatchImageProvider name" "trim_space (sr_ParentBatchID req) = []" "sm_new_id env = Some b" "b \<noteq> []"
      "resolvePricingSnapshot (pu_pricing s) owner req name (pu_account_rate s account) = Inr snap"
    using assms(3) by (simp_all add: chooses_def)
  have p: "p_Provider ?p = name" "p_BatchID ?p = b" "p_Status ?p \<noteq> []" "p_Currency ?p \<noteq> []" "p_ManifestHash ?p = None"
    by (simp_all add: submit_params_def status_defs)
  obtain jdb where cr: "CreateBatchImageJob (sm_create env) ?p ?db = (Inr ?job, jdb)"
    and ch: "changed_job b ?job ?db jdb" and it: "items jdb = items ?db"
    using create_quiet [of "sm_create env" ?p b ?db] assms(1,8,9) way(2,5) p by (auto simp: quiet_submit_def)
  define st1 where "st1 = st\<lparr>us_store := (us_store st)\<lparr>bs_jobs := jdb\<rparr>\<rparr>"
  have st1: "bs_jobs (us_store st1) = jdb" "bs_billing (us_store st1) = bs_billing (us_store st)"
    "us_queue st1 = us_queue st" "us_upstream st1 = us_upstream st" by (simp_all add: st1_def)
  have job: "j_Status ?job = BatchImageJobStatusCreated" "j_UserID ?job = ow_UserID owner"
    "j_APIKeyID ?job = Some (ow_APIKeyID owner)" "j_HoldAmount ?job = Some hold" "j_BatchID ?job = b"
    "j_IdempotencyKey ?job = batchImageOptionalStringPtr key" "j_RequestHash ?job = Some ph"
    by (simp_all add: new_job_row_def submit_params_def assms(6))
  have amount: "job_hold_amount ?job = hold" by (simp only: job_hold_amount_def job(4) option.case)
  have takes: "provider_takes s env req provider account b pj st1" using assms(4) by (simp add: provider_takes_def st1(3))
  have parent: "submit_parent env owner (sr_ParentBatchID req) st = (Inr None, st)"
    by (simp add: submit_parent_def batchImageOptionalStringPtr_def way(3))
  have create: "repo (CreateBatchImageJob (sm_create env) ?p) st = (Inr ?job, st1)"
    using cr by (simp add: repo_def on_jobs_def st1_def)
  have begun: "submit_new s env owner req ph key st = submit_created s env owner req ph name provider account ?job st1"
    unfolding submit_new_def way(1,4,6) sum.case prod.case option.case parent create ..
  have new: "unique_db (bs_jobs (us_store st1))" "find_job b (bs_jobs (us_store st1)) = Some ?job"
    "can_pay owner b (job_hold_amount ?job) u (bs_billing (us_store st1))"
    "\<forall>i\<in>set (items (bs_jobs (us_store st1))). i_JobID i \<noteq> b"
    using ch assms(7,10) it by (simp_all add: st1 changed_job_def amount)
  obtain v st' where out: "submit_new s env owner req ph key st = (Inr v, st')" "pub_ID v = b" "pub_Status v = ''queued''"
      "submitted_as b ?job pj st1 st'" "queued b (us_queue st')" "us_upstream st' = us_upstream st @ [UpSubmit b]"
      "hold_taken (ow_UserID owner) hold u (bs_billing (us_store st'))"
    using created_quiet [OF assms(1,2) new(1,2) job(1-3) new(3) assms(5) new(4) takes, of ph name] begun st1(4)
    unfolding amount by auto
  from out(4) obtain j where j: "changed_job b j jdb (bs_jobs (us_store st'))" "row_identity j = row_identity ?job"
      "j_Status j = BatchImageJobStatusSubmitted" "j_ProviderJobName j = Some (pj_ProviderJobName pj)"
    by (auto simp: submitted_as_def st1(1))
  have ids: "j_BatchID j = b" "j_UserID j = ow_UserID owner" "j_APIKeyID j = Some (ow_APIKeyID owner)"
    "j_HoldAmount j = Some hold" "j_IdempotencyKey j = batchImageOptionalStringPtr key" "j_RequestHash j = Some ph"
    using j(2) job by (simp_all only: row_identity_def prod.inject)
  show ?thesis
    unfolding handed_over_def
    using out(1-3,5-7) changed_trans [OF ch j(1)] ids j(3,4) by (intro exI [of _ v] exI [of _ st'] exI [of _ j]) simp
qed

lemma submit_quiet:
  assumes "quiet_submit env" "pu_billing s" "submits_as s env owner req0 key st req name provider account snap b"
    and "provider_takes s env req provider account b pj st"
    and "hold = round_half_away 10 (ps_HoldAmount snap)" "can_pay owner b hold u (bs_billing (us_store st))"
    and "unique_db (bs_jobs (us_store st))" "find_job b (bs_jobs (us_store st)) = None"
    and "\<forall>i\<in>set (items (bs_jobs (us_store st))). i_JobID i \<noteq> b"
  shows "handed_over owner b (trim_space key) (HashBatchImageSubmitRequest (pu_marshal s) (pu_sha256 s) req) pj hold u st
    (Submit s env owner req0 key st)"
proof -
  have "chooses s env owner req name provider account snap b" "distinct (map si_CustomID (sr_Items req))"
    using assms(3) accepted_ids_distinct by (auto simp: submits_as_def)
  then show ?thesis
    unfolding submit_start [OF assms(1,3)] using assms by (intro new_quiet) simp_all
qed

text \<open>C11 (submit_holds_and_queues): A submission in which nothing fails puts the job on record with its
  hold amount, moves that amount from the user's balance to the frozen balance (rounded to the eight
  decimals of the two, so exactly if the amount has no more), hands the job to the provider once, records the provider's name for it as submitted, and queues it for the worker.\<close>

theorem submit_holds_and_queues:
  assumes "quiet_submit env" "pu_billing s" "submits_as s env owner req0 key st req name provider account snap b"
    and "provider_takes s env req provider account b pj st"
    and "hold = round_half_away 10 (ps_HoldAmount snap)" "can_pay owner b hold u (bs_billing (us_store st))"
    and "unique_db (bs_jobs (us_store st))" "find_job b (bs_jobs (us_store st)) = None"
    and "\<forall>i\<in>set (items (bs_jobs (us_store st))). i_JobID i \<noteq> b"
  shows "\<exists>v st' j u'. Submit s env owner req0 key st = (Inr v, st') \<and> pub_ID v = b \<and> pub_Status v = ''queued''
    \<and> find_job b (bs_jobs (us_store st')) = Some j \<and> j_Status j = BatchImageJobStatusSubmitted
    \<and> j_ProviderJobName j = Some (pj_ProviderJobName pj) \<and> j_UserID j = ow_UserID owner \<and> j_HoldAmount j = Some hold
    \<and> users (bs_billing (us_store st')) (ow_UserID owner) = Some u'
    \<and> u_balance u' = round_half_away 8 (u_balance u - hold)
    \<and> u_frozen_balance u' = round_half_away 8 (u_frozen_balance u + hold)
    \<and> (on_scale 8 hold \<longrightarrow>
         u_balance u' = u_balance u - hold \<and> u_frozen_balance u' = u_frozen_balance u + hold)
    \<and> queued b (us_queue st') \<and> us_upstream st' = us_upstream st @ [UpSubmit b]"
  using submit_quiet [OF assms] by (auto simp: handed_over_def hold_taken_def changed_job_def)

section \<open>Repeated requests\<close>

lemma same_request_any_day:
  assumes "validateSubmitRequest conf today req0 = Inr req" "trim_space (sr_TaskName req0) \<noteq> ''''"
  shows "validateSubmitRequest conf today' req0 = Inr req"
  using assms by (simp add: validate_iff normal_request_def trim_request_def Let_def)

lemma filter_to_one:
  assumes "x \<in> set xs" "\<And>y. y \<in> set xs \<Longrightarrow> P y \<Longrightarrow> y = x" "P x" "distinct xs"
  shows "filter P xs = [x]"
proof -
  have "filter P xs = filter (\<lambda>y. y = x) xs" using assms(2,3) by (intro filter_cong) auto
  also have "\<dots> = [x]" using assms(1,4) by (induction xs) (auto simp: filter_empty_conv)
  finally show ?thesis .
qed

lemma find_key_only:
  assumes "batch_quiet env" "unique_db db" "find_job b db = Some j" "j_UserID j = u" "j_APIKeyID j = Some k"
    "j_IdempotencyKey j = Some key"
    and "\<forall>i\<in>set (jobs db). j_BatchID i \<noteq> b \<longrightarrow> j_UserID i = u \<longrightarrow> j_APIKeyID i = Some k \<longrightarrow> j_IdempotencyKey i \<noteq> Some key"
  shows "GetBatchImageJobByIdempotencyKey env u k key db = (Inr j, db)"
proof -
  let ?P = "\<lambda>j. j_UserID j = u \<and> j_APIKeyID j = Some k \<and> j_IdempotencyKey j = Some key"
  have "j \<in> set (jobs db)" using find_job_mem [OF assms(3)] by simp
  moreover have "i = j" if "i \<in> set (jobs db)" "?P i" for i
  proof -
    have "j_BatchID i = b" using that assms(7) by blast
    with find_job_unique [OF assms(2) that(1)] assms(3) show ?thesis by simp
  qed
  moreover have "?P j" by (simp only: assms(4-6) simp_thms)
  moreover have "distinct (jobs db)" using assms(2) by (simp add: unique_db_def unique_jobs_def distinct_map)
  ultimately have "filter ?P (jobs db) = [j]" by (rule filter_to_one)
  then show ?thesis
    using assms(1) by (simp add: GetBatchImageJobByIdempotencyKey_def bm_translate_def)
qed

lemma key_of_row: "trim_space key \<noteq> [] \<Longrightarrow> batchImageOptionalStringPtr (trim_space key) = Some (trim_space key)"
  by (simp add: batchImageOptionalStringPtr_def)

text \<open>What a request under a key on record leads to.\<close>

lemma submit_on_record:
  assumes "enabled s" "validateSubmitRequest (pu_conf s) (pu_format s (sm_now env)) req0 = Inr req"
    and "ensureGroupAllowsBatchImage (pu_pricing s) (ow_GroupID owner) = None" "trim_space key \<noteq> []"
    and "GetBatchImageJobByIdempotencyKey (sm_find env) (ow_UserID owner) (ow_APIKeyID owner) (trim_space key)
          (bs_jobs (us_store st)) = (Inr job, bs_jobs (us_store st))"
  shows "Submit s env owner req0 key st
    = submit_replay s env job (HashBatchImageSubmitRequest (pu_marshal s) (pu_sha256 s) req) st"
proof -
  have "repo (GetBatchImageJobByIdempotencyKey (sm_find env) (ow_UserID owner) (ow_APIKeyID owner) (trim_space key)) st
      = (Inr job, st)"
    using assms(5) by (simp add: repo_def on_jobs_def)
  then show ?thesis using assms(1-4) by (simp add: Submit_def Let_def)
qed

text \<open>The hash is printed in hexadecimal digits.\<close>

definition plain_hash :: "'acct public_service \<Rightarrow> bool" where
  "plain_hash s \<longleftrightarrow> (\<forall>x. trim_space (pu_sha256 s x) = pu_sha256 s x)"

text \<open>C12 (submit_twice_charges_once): A named request that is submitted and then repeated under the same
  key, while the job still waits for the worker, takes no second hold, hands nothing to a provider and
  leaves the jobs that are on record; unless the queue fails, the answer is the batch of the first submission.\<close>

theorem submit_twice_charges_once:
  assumes "quiet_submit env" "pu_billing s" "submits_as s env owner req0 key st req name provider account snap b"
    and "provider_takes s env req provider account b pj st"
    and "hold = round_half_away 10 (ps_HoldAmount snap)" "can_pay owner b hold u (bs_billing (us_store st))"
    and "unique_db (bs_jobs (us_store st))" "find_job b (bs_jobs (us_store st)) = None"
    and "\<forall>i\<in>set (items (bs_jobs (us_store st))). i_JobID i \<noteq> b"
    and "trim_space key \<noteq> ''''" "trim_space (sr_TaskName req0) \<noteq> ''''" "plain_hash s" "batch_quiet (sm_find env')"
  shows "\<exists>v st' r st''. Submit s env owner req0 key st = (Inr v, st') \<and> pub_ID v = b
    \<and> Submit s env' owner req0 key st' = (r, st'')
    \<and> (r = Inl ErrBatchImageQueueFailed \<or> (\<exists>v'. r = Inr v' \<and> pub_ID v' = b \<and> us_store st'' = us_store st'))
    \<and> bs_billing (us_store st'') = bs_billing (us_store st') \<and> us_upstream st'' = us_upstream st'"
proof -
  let ?ph = "HashBatchImageSubmitRequest (pu_marshal s) (pu_sha256 s) req"
  obtain v st' j where out: "Submit s env owner req0 key st = (Inr v, st')" "pub_ID v = b"
      and ch: "changed_job b j (bs_jobs (us_store st)) (bs_jobs (us_store st'))"
      and st: "j_Status j = BatchImageJobStatusSubmitted"
      and ids: "j_BatchID j = b" "j_UserID j = ow_UserID owner" "j_APIKeyID j = Some (ow_APIKeyID owner)"
      and key: "j_IdempotencyKey j = Some (trim_space key)" and hash: "j_RequestHash j = Some ?ph"
    using submit_quiet [OF assms(1-9)] key_of_row assms(10) by (auto simp: handed_over_def)
  have u: "unique_db (bs_jobs (us_store st'))" and j: "find_job b (bs_jobs (us_store st')) = Some j"
    using ch by (simp_all add: changed_job_def)
  have none: "\<forall>i\<in>set (jobs (bs_jobs (us_store st'))). j_BatchID i \<noteq> b \<longrightarrow> j_UserID i = ow_UserID owner
      \<longrightarrow> j_APIKeyID i = Some (ow_APIKeyID owner) \<longrightarrow> j_IdempotencyKey i \<noteq> Some (trim_space key)"
  proof (intro ballI impI)
    fix i assume i: "i \<in> set (jobs (bs_jobs (us_store st')))" "j_BatchID i \<noteq> b" "j_UserID i = ow_UserID owner"
      "j_APIKeyID i = Some (ow_APIKeyID owner)"
    have "find_job (j_BatchID i) (bs_jobs (us_store st)) = Some i"
      using find_job_unique [OF u i(1)] ch i(2) by (simp add: changed_job_def)
    then have "i \<in> set (jobs (bs_jobs (us_store st)))" using find_job_mem by blast
    then show "j_IdempotencyKey i \<noteq> Some (trim_space key)"
      using assms(3,10) i(3,4) by (simp add: submits_as_def)
  qed
  have found: "GetBatchImageJobByIdempotencyKey (sm_find env') (ow_UserID owner) (ow_APIKeyID owner) (trim_space key)
      (bs_jobs (us_store st')) = (Inr j, bs_jobs (us_store st'))"
    by (rule find_key_only [OF assms(13) u j ids(2,3) key none])
  have valid: "validateSubmitRequest (pu_conf s) (pu_format s (sm_now env')) req0 = Inr req"
    by (rule same_request_any_day [OF _ assms(11), of _ "pu_format s (sm_now env)"]) (use assms(3) in \<open>simp add: submits_as_def\<close>)
  have again: "Submit s env' owner req0 key st' = submit_replay s env' j ?ph st'"
    by (rule submit_on_record [OF _ valid _ _ found]) (use assms(3,10) in \<open>simp_all add: submits_as_def\<close>)
  have "batchImageDerefString (j_RequestHash j) = ?ph"
    using assms(12) by (simp add: hash batchImageDerefString_def plain_hash_def HashBatchImageSubmitRequest_def)
  moreover obtain r1 st1 where e: "enqueue s (sm_queue env') (j_BatchID j) st' = (r1, st1)"
    by (cases "enqueue s (sm_queue env') (j_BatchID j) st'")
  moreover have "us_store st1 = us_store st'" "us_upstream st1 = us_upstream st'"
    using submit_enqueue_frame [of s "sm_queue env'" "j_BatchID j" st'] e by simp_all
  ultimately show ?thesis
    using out again st ids(1) by (cases r1) (auto simp: submit_replay_def BatchImageJobToPublic_def)
qed

text \<open>C18 (unnamed_retry_conflicts): A request without a task name gets the current time for one, and the time
  enters the hash that guards its key: the same request repeated under the same key when the printed time
  has changed is refused as a conflicting one, although nothing in it has changed.\<close>

theorem unnamed_retry_conflicts:
  assumes "enabled s" "ensureGroupAllowsBatchImage (pu_pricing s) (ow_GroupID owner) = None"
    and "validateSubmitRequest (pu_conf s) (pu_format s t) req0 = Inr req" "trim_space (sr_TaskName req0) = ''''"
    and "trim_space key \<noteq> ''''" "batch_quiet (sm_find env)" "unique_db (bs_jobs (us_store st))"
    and "find_job b (bs_jobs (us_store st)) = Some j" "j_UserID j = ow_UserID owner"
    and "j_APIKeyID j = Some (ow_APIKeyID owner)" "j_IdempotencyKey j = Some (trim_space key)"
    and "\<forall>i\<in>set (jobs (bs_jobs (us_store st))). j_IdempotencyKey i = Some (trim_space key) \<longrightarrow> j_BatchID i = b"
    and "j_RequestHash j = Some (HashBatchImageSubmitRequest (pu_marshal s) (pu_sha256 s) req)" "plain_hash s"
    and "pu_format s (sm_now env) \<noteq> pu_format s t" "\<forall>t. length (pu_format s t) = 19"
    and "\<forall>r r'. HashBatchImageSubmitRequest (pu_marshal s) (pu_sha256 s) r = HashBatchImageSubmitRequest (pu_marshal s) (pu_sha256 s) r'
      \<longrightarrow> sr_TaskName r = sr_TaskName r'"
  shows "Submit s env owner req0 key st = (Inl ErrBatchImageIdempotencyConflict, st)"
proof -
  obtain req' where valid: "validateSubmitRequest (pu_conf s) (pu_format s (sm_now env)) req0 = Inr req'"
    using assms(3) by (auto simp: validate_iff)
  have "sr_TaskName req' = pu_format s (sm_now env)" "sr_TaskName req = pu_format s t"
    using valid assms(3,4,16) by (auto simp: validate_iff normal_request_def trim_request_def Let_def)
  then have differ: "HashBatchImageSubmitRequest (pu_marshal s) (pu_sha256 s) req
      \<noteq> HashBatchImageSubmitRequest (pu_marshal s) (pu_sha256 s) req'"
    using assms(15,17) by metis
  have found: "GetBatchImageJobByIdempotencyKey (sm_find env) (ow_UserID owner) (ow_APIKeyID owner) (trim_space key)
      (bs_jobs (us_store st)) = (Inr j, bs_jobs (us_store st))"
    by (rule find_key_only [OF assms(6-11)]) (use assms(12) in blast)
  have "trim_space (HashBatchImageSubmitRequest (pu_marshal s) (pu_sha256 s) req)
      = HashBatchImageSubmitRequest (pu_marshal s) (pu_sha256 s) req"
    using assms(14) by (simp add: HashBatchImageSubmitRequest_def plain_hash_def)
  then show ?thesis
    using submit_on_record [OF assms(1) valid assms(2) _ found] assms(5,13) differ
    by (simp add: submit_replay_def batchImageDerefString_def)
qed

text \<open>The key of a request does not keep two concurrent submissions apart:
  when both have looked the key up before either has created its job, both create one, both are handed to
  the provider, and the amount is held twice.\<close>

theorem concurrent_submits_hold_twice:
  assumes "quiet_submit env1" "quiet_submit env2" "pu_billing s" "distinct (map si_CustomID (sr_Items req))"
    and "chooses s env1 owner req name provider account snap b1" "chooses s env2 owner req name provider account snap b2"
    and "provider_takes s env1 req provider account b1 pj1 st" "hold = round_half_away 10 (ps_HoldAmount snap)"
    and "can_pay owner b1 hold u (bs_billing (us_store st))" "unique_db (bs_jobs (us_store st))"
    and "find_job b1 (bs_jobs (us_store st)) = None" "items (bs_jobs (us_store st)) = []" "b1 \<noteq> b2"
    and "submit_new s env1 owner req ph key st = (r1, st1)"
    and "provider_takes s env2 req provider account b2 pj2 st1" "can_pay owner b2 hold u1 (bs_billing (us_store st1))"
    and "find_job b2 (bs_jobs (us_store st)) = None" "\<forall>i\<in>set (items (bs_jobs (us_store st1))). i_JobID i \<noteq> b2"
    and "trim_space key = key" "key \<noteq> ''''"
  shows "\<exists>v1 v2 st2 j1 j2 u2. r1 = Inr v1 \<and> submit_new s env2 owner req ph key st1 = (Inr v2, st2)
    \<and> find_job b1 (bs_jobs (us_store st2)) = Some j1 \<and> find_job b2 (bs_jobs (us_store st2)) = Some j2
    \<and> j_IdempotencyKey j1 = Some key \<and> j_IdempotencyKey j2 = Some key
    \<and> users (bs_billing (us_store st2)) (ow_UserID owner) = Some u2 \<and> (on_scale 8 hold \<longrightarrow> u_balance u2 = u_balance u - 2 * hold)
    \<and> us_upstream st2 = us_upstream st @ [UpSubmit b1, UpSubmit b2]"
proof -
  have key: "batchImageOptionalStringPtr key = Some key" using assms(19,20) by (simp add: batchImageOptionalStringPtr_def)
  obtain v1 j1 where 1: "r1 = Inr v1" "changed_job b1 j1 (bs_jobs (us_store st)) (bs_jobs (us_store st1))"
      "j_IdempotencyKey j1 = Some key" "hold_taken (ow_UserID owner) hold u (bs_billing (us_store st1))"
      "us_upstream st1 = us_upstream st @ [UpSubmit b1]"
    using new_quiet [OF assms(1,3,5,7,4,8-11), of key ph] assms(12,14) key by (auto simp: handed_over_def)
  have db1: "unique_db (bs_jobs (us_store st1))" "find_job b2 (bs_jobs (us_store st1)) = None"
    using 1(2) assms(13,17) by (auto simp: changed_job_def)
  obtain v2 st2 j2 where 2: "submit_new s env2 owner req ph key st1 = (Inr v2, st2)"
      "changed_job b2 j2 (bs_jobs (us_store st1)) (bs_jobs (us_store st2))"
      "j_IdempotencyKey j2 = Some key" "hold_taken (ow_UserID owner) hold u1 (bs_billing (us_store st2))"
      "us_upstream st2 = us_upstream st1 @ [UpSubmit b2]"
    using new_quiet [OF assms(2,3,6,15,4,8,16) db1 assms(18), of key ph] key by (auto simp: handed_over_def)
  have "u_balance u1 = u_balance u - hold" if "on_scale 8 hold"
    using 1(4) that assms(16) by (auto simp: hold_taken_def can_pay_def)
  moreover have "find_job b1 (bs_jobs (us_store st2)) = Some j1" "find_job b2 (bs_jobs (us_store st2)) = Some j2"
    using 1(2) 2(2) assms(13) by (auto simp: changed_job_def)
  ultimately show ?thesis using 1 2 by (auto simp: hold_taken_def)
qed

end
