(* ===== verification/BatchImageSubmitExamples.thy ===== *)
theory BatchImageSubmitExamples
  imports BatchImageSubmitQuiet
begin

text \<open>
  A concrete service on which the properties of submission and cancellation are applied: a user with a
  balance of ten, a provider that takes every job, and requests of one image.
\<close>

section \<open>The service\<close>

definition sample_group :: group_row where
  "sample_group =
     \<lparr>g_ID = 5, g_AllowBatchImageGeneration = True, g_Platform = ''gemini'', g_RateMultiplier = 1,
      g_ImageRateIndependent = False, g_ImageRateMultiplier = 1, g_BatchImageDiscountMultiplier = 1 / 2,
      g_BatchImageHoldMultiplier = 1, g_ImagePrice1K = Some 1, g_ImagePrice2K = None, g_ImagePrice4K = None\<rparr>"

definition sample_pricing :: pricing_service where
  "sample_pricing =
     \<lparr>pc_group = Some (\<lambda>_. Inr (Some sample_group)), pc_user_rate = None, pc_price = Some (\<lambda>_ _. Inr 1)\<rparr>"

definition sample_owner :: BatchImageOwner where
  "sample_owner = \<lparr>ow_UserID = 1, ow_APIKeyID = 7, ow_GroupID = Some 5\<rparr>"

definition sample_pj :: BatchProviderJob where
  "sample_pj = \<lparr>pj_ProviderJobName = ''jobs/1'', pj_ProviderInputRef = ''files/1'', pj_ProviderOutputRef = ''''\<rparr>"

definition sample_submitter :: "unit submitter" where
  "sample_submitter = \<lparr>up_submit = (\<lambda>_ _ _. Inr (Some sample_pj)), up_cancel = (\<lambda>_ _. None)\<rparr>"

definition sample_ps :: "unit public_service" where
  "sample_ps =
     \<lparr>pu_conf = Some \<lparr>cf_Enabled = True, cf_MaxItemsPerJobDefault = 0, cf_MaxOutputImagesPerJob = 0,
        cf_MaxOutputImagesPerItem = 0, cf_MaxPromptCharsPerItem = 0, cf_MaxReferenceImagesPerJob = 0,
        cf_MaxReferenceInlineBytesPerJob = 0, cf_DefaultResponseMimeType = '''', cf_DefaultImageSize = '''',
        cf_StaleActiveAfterSeconds = 0\<rparr>,
      pu_ready = True, pu_pricing = sample_pricing, pu_select = (\<lambda>_ _ _. Inr (''vertex'', sample_submitter, ())),
      pu_provider = (\<lambda>_. Some sample_submitter), pu_account = (\<lambda>_. Inr ()), pu_account_id = (\<lambda>_. 4),
      pu_account_rate = (\<lambda>_. None), pu_queue = Some sample_conf, pu_billing = True, pu_auth_cache = True,
      pu_marshal = sr_TaskName, pu_sha256 = (\<lambda>x. CHR ''b'' # x @ CHR '':'' # trim_space []),
      pu_format = (\<lambda>t. if t = 0 then ''2026-01-01 00:00:00'' else ''2026-01-01 00:00:01''),
      pu_reason = (\<lambda>_. ''''), pu_error_text = (\<lambda>_. ''error''), pu_queue_error_text = (\<lambda>_. ''queue'')\<rparr>"

definition sample_smenv :: "string \<Rightarrow> submit_env" where
  "sample_smenv b =
     \<lparr>sm_now = 1, sm_find = sample_benv, sm_parent = sample_benv, sm_new_id = Some b, sm_create = sample_benv,
      sm_reserve = sample_env, sm_items = sample_benv, sm_upload = sample_benv,
      sm_meanwhile = [Tick sample_benv], sm_submitted = sample_benv, sm_abort = sample_benv,
      sm_queue = sample_qenv 0 ''t'', sm_release = sample_env, sm_failure = sample_benv, sm_hide = sample_benv,
      sm_retry = sample_qenv 0 ''t'', sm_retry_event = sample_benv, sm_final = sample_benv\<rparr>"

definition one_image :: "string \<Rightarrow> BatchImageSubmitRequest" where
  "one_image name =
     \<lparr>sr_Model = ''m'', sr_TaskName = name, sr_ParentBatchID = '''', sr_Provider = ''vertex'',
      sr_Items = [\<lparr>si_CustomID = ''a'', si_Prompt = ''a cat'', si_OutputCount = 0, si_ReferenceImages = []\<rparr>],
      sr_ResponseMimeType = ''image/png'', sr_AspectRatio = '''', sr_ImageSize = ''1K'', sr_Metadata = [],
      sr_SessionID = None\<rparr>"

definition sample_pstore :: "batch_db \<Rightarrow> public_store" where
  "sample_pstore db =
     \<lparr>us_store = \<lparr>bs_jobs = db, bs_billing = sample_db, bs_usage_logs = [], bs_invalidated = []\<rparr>,
      us_queue = empty_queue, us_upstream = []\<rparr>"

definition no_jobs :: batch_db where
  "no_jobs = \<lparr>jobs = [], items = [], events = [], next_job_id = 1, next_item_id = 1, next_event_id = 1\<rparr>"

definition sample_snap :: BatchImagePricingSnapshot where
  "sample_snap = price_snapshot 1 1 1 (1 / 2) 1 1"

lemma sample_accepted: "validateSubmitRequest (pu_conf sample_ps) today (one_image ''cats'') = Inr (one_image ''cats'')"
  by code_simp

lemma sample_price:
  "resolvePricingSnapshot sample_pricing sample_owner (one_image name) ''vertex'' None = Inr sample_snap"
  by (simp add: resolvePricingSnapshot_def sample_snap_def group_terms_def sample_pricing_def sample_owner_def
      lookup_group_def sample_group_def GetImagePrice_def unit_price_def one_image_def BillingRateMultiplier_def)

lemma sample_hold: "ps_HoldAmount sample_snap = 1" "round_half_away 10 (ps_HoldAmount sample_snap) = 1"
proof -
  have "f64 1 = 1" by code_simp
  moreover from this have "shortest_decimal 1 = 1" by (intro shortest_decimal_scaled [of 0]) (simp_all add: on_scale_def)
  ultimately show "ps_HoldAmount sample_snap = 1" by (simp add: sample_snap_def price_snapshot_def Let_def)
  then show "round_half_away 10 (ps_HoldAmount sample_snap) = 1" by (simp add: on_scale_def)
qed

lemma sample_quiet_submit: "quiet_submit (sample_smenv b)"
  by (simp add: quiet_submit_def sample_smenv_def sample_no_faults)

lemma sample_chooses: "b \<noteq> '''' \<Longrightarrow> chooses sample_ps (sample_smenv b) sample_owner (one_image name) ''vertex'' sample_submitter () sample_snap b"
  by (simp add: chooses_def sample_ps_def sample_smenv_def sample_price IsSupportedBatchImageProvider_def)
     (simp add: one_image_def)

lemma sample_submits:
  "b \<noteq> '''' \<Longrightarrow> submits_as sample_ps (sample_smenv b) sample_owner (one_image ''cats'') key (sample_pstore no_jobs)
     (one_image ''cats'') ''vertex'' sample_submitter () sample_snap b"
  unfolding submits_as_def using sample_accepted sample_chooses
  by (simp add: sample_pstore_def no_jobs_def enabled_def)
     (simp add: sample_ps_def ensureGroupAllowsBatchImage_def sample_owner_def lookup_group_def sample_pricing_def sample_group_def)

lemma sample_takes:
  assumes "fst (Enqueue sample_conf (sample_qenv 0 ''t'') b (us_queue st)) = Inr ()"
  shows "provider_takes sample_ps (sample_smenv b') req sample_submitter () b sample_pj st"
  using assms by (simp add: provider_takes_def sample_submitter_def sample_ps_def sample_smenv_def sample_pj_def) code_simp

lemma sample_pays: "can_pay sample_owner b 1 sample_user (bs_billing (us_store (sample_pstore db)))"
  by (simp add: can_pay_def sample_owner_def sample_pstore_def sample_db_def sample_user_def scaled_row_def free_key_def
      on_scale_def)

lemma sample_empty: "bs_jobs (us_store (sample_pstore db)) = db" "us_queue (sample_pstore db) = empty_queue"
  "us_upstream (sample_pstore db) = []" "unique_db no_jobs" "find_job b no_jobs = None" "items no_jobs = []" "jobs no_jobs = []"
  by (simp_all add: sample_pstore_def no_jobs_def unique_db_def unique_jobs_def manifest_keys_def find_job_def)

lemma sample_enqueues: "fst (Enqueue sample_conf (sample_qenv 0 ''t'') sample_id empty_queue) = Inr ()"
  by code_simp

lemma sample_id_ok: "sample_id \<noteq> ''''" by (simp add: sample_id_def)

section \<open>Submitting\<close>

lemma sample_plain: "plain_hash sample_ps"
  unfolding plain_hash_def by (simp only: sample_ps_def public_service.select_convs trim_space_label simp_thms)

lemma sample_ready:
  "provider_takes sample_ps (sample_smenv b') req sample_submitter () sample_id sample_pj (sample_pstore db)"
  by (rule sample_takes) (simp add: sample_empty sample_enqueues)

lemma sample_on: "pu_billing sample_ps" by (simp add: sample_ps_def)

theorem submit_holds_and_queues_witness:
  "\<exists>v st' u'. Submit sample_ps (sample_smenv sample_id) sample_owner (one_image ''cats'') ''k'' (sample_pstore no_jobs) = (Inr v, st')
    \<and> pub_Status v = ''queued'' \<and> users (bs_billing (us_store st')) 1 = Some u' \<and> u_balance u' = 9
    \<and> u_frozen_balance u' = 1 \<and> us_upstream st' = [UpSubmit sample_id]"
proof -
  have none: "unique_db (bs_jobs (us_store (sample_pstore no_jobs)))"
    "find_job sample_id (bs_jobs (us_store (sample_pstore no_jobs))) = None"
    "\<forall>i\<in>set (items (bs_jobs (us_store (sample_pstore no_jobs)))). i_JobID i \<noteq> sample_id"
    by (simp_all add: sample_empty)
  from submit_holds_and_queues [OF sample_quiet_submit sample_on sample_submits [OF sample_id_ok, of "''k''"] sample_ready
      sample_hold(2) [symmetric] sample_pays none]
  show ?thesis by (auto simp: sample_empty sample_owner_def sample_user_def)
qed

theorem submit_twice_charges_once_witness:
  "\<exists>v st' r st''. Submit sample_ps (sample_smenv sample_id) sample_owner (one_image ''cats'') ''k'' (sample_pstore no_jobs) = (Inr v, st')
    \<and> Submit sample_ps (sample_smenv ''other'') sample_owner (one_image ''cats'') ''k'' st' = (r, st'')
    \<and> bs_billing (us_store st'') = bs_billing (us_store st') \<and> us_upstream st'' = us_upstream st'"
proof -
  have none: "unique_db (bs_jobs (us_store (sample_pstore no_jobs)))"
    "find_job sample_id (bs_jobs (us_store (sample_pstore no_jobs))) = None"
    "\<forall>i\<in>set (items (bs_jobs (us_store (sample_pstore no_jobs)))). i_JobID i \<noteq> sample_id"
    by (simp_all add: sample_empty)
  have k: "trim_space ''k'' \<noteq> ''''" "trim_space (sr_TaskName (one_image ''cats'')) \<noteq> ''''" by code_simp+
  have q: "batch_quiet (sm_find (sample_smenv ''other''))" by (simp add: sample_smenv_def)
  from submit_twice_charges_once [OF sample_quiet_submit sample_on sample_submits [OF sample_id_ok] sample_ready
      sample_hold(2) [symmetric] sample_pays none k sample_plain q]
  show ?thesis by blast
qed

theorem submit_money_on_record_witness:
  "bs_billing (us_store (snd (Submit sample_ps (sample_smenv sample_id) sample_owner (one_image ''cats'') ''k'' (sample_pstore no_jobs))))
     = bs_billing (us_store (sample_pstore no_jobs))
   \<or> (\<exists>job. find_job (j_BatchID job) (bs_jobs (us_store (snd (Submit sample_ps (sample_smenv sample_id) sample_owner
        (one_image ''cats'') ''k'' (sample_pstore no_jobs))))) = Some job \<and> j_UserID job = 1)"
proof (cases "Submit sample_ps (sample_smenv sample_id) sample_owner (one_image ''cats'') ''k'' (sample_pstore no_jobs)")
  case (Pair r st')
  from submit_money_on_record [OF this] Pair show ?thesis by (auto simp: sample_smenv_def sample_owner_def)
qed

section \<open>A repeated request without a name\<close>

definition kept_job :: BatchImageJob where
  "kept_job = sample_job\<lparr>j_IdempotencyKey := Some ''k'',
     j_RequestHash := Some (HashBatchImageSubmitRequest (pu_marshal sample_ps) (pu_sha256 sample_ps)
       (normal_request (pu_conf sample_ps) (pu_format sample_ps 0) (one_image '''')))\<rparr>"

lemma kept_job_simps: "j_BatchID kept_job = ''b1''" "j_UserID kept_job = 1" "j_APIKeyID kept_job = Some 7"
  "j_IdempotencyKey kept_job = Some ''k''"
  by (simp_all add: kept_job_def)

theorem unnamed_retry_conflicts_witness:
  "Submit sample_ps (sample_smenv ''x'') sample_owner (one_image '''') ''k'' (sample_pstore (one_job_db kept_job))
    = (Inl ErrBatchImageIdempotencyConflict, sample_pstore (one_job_db kept_job))"
proof (rule unnamed_retry_conflicts)
  show "validateSubmitRequest (pu_conf sample_ps) (pu_format sample_ps 0) (one_image '''')
    = Inr (normal_request (pu_conf sample_ps) (pu_format sample_ps 0) (one_image ''''))"
    by code_simp
  show "enabled sample_ps" by (simp add: enabled_def sample_ps_def)
  show "ensureGroupAllowsBatchImage (pu_pricing sample_ps) (ow_GroupID sample_owner) = None"
    by (simp add: sample_ps_def ensureGroupAllowsBatchImage_def sample_owner_def lookup_group_def sample_pricing_def sample_group_def)
  show "trim_space (sr_TaskName (one_image '''')) = ''''" by code_simp
  show "trim_space ''k'' \<noteq> ''''" by code_simp
  show "batch_quiet (sm_find (sample_smenv ''x''))" by (simp add: sample_smenv_def)
  show "unique_db (bs_jobs (us_store (sample_pstore (one_job_db kept_job))))"
    "find_job ''b1'' (bs_jobs (us_store (sample_pstore (one_job_db kept_job)))) = Some kept_job"
    by (simp_all add: sample_empty kept_job_simps)
  show "j_UserID kept_job = ow_UserID sample_owner" "j_APIKeyID kept_job = Some (ow_APIKeyID sample_owner)"
    by (simp_all add: kept_job_simps sample_owner_def)
  have "trim_space ''k'' = ''k''" by code_simp
  then show "j_IdempotencyKey kept_job = Some (trim_space ''k'')"
    "\<forall>i\<in>set (jobs (bs_jobs (us_store (sample_pstore (one_job_db kept_job))))).
      j_IdempotencyKey i = Some (trim_space ''k'') \<longrightarrow> j_BatchID i = ''b1''"
    by (simp_all add: kept_job_simps sample_empty)
  show "j_RequestHash kept_job = Some (HashBatchImageSubmitRequest (pu_marshal sample_ps) (pu_sha256 sample_ps)
       (normal_request (pu_conf sample_ps) (pu_format sample_ps 0) (one_image '''')))"
    by (simp add: kept_job_def)
  show "plain_hash sample_ps" by (rule sample_plain)
  show "pu_format sample_ps (sm_now (sample_smenv ''x'')) \<noteq> pu_format sample_ps 0"
    by (simp add: sample_ps_def sample_smenv_def)
  show "\<forall>t. length (pu_format sample_ps t) = 19" by (simp add: sample_ps_def)
  show "\<forall>r r'. HashBatchImageSubmitRequest (pu_marshal sample_ps) (pu_sha256 sample_ps) r
      = HashBatchImageSubmitRequest (pu_marshal sample_ps) (pu_sha256 sample_ps) r' \<longrightarrow> sr_TaskName r = sr_TaskName r'"
    by (simp add: HashBatchImageSubmitRequest_def sample_ps_def)
qed

section \<open>Cancelling\<close>

definition sample_cenv :: cancel_env where
  "sample_cenv =
     \<lparr>ca_get = sample_benv, ca_release = sample_env, ca_retry = sample_qenv 0 ''t'', ca_retry_event = sample_benv,
      ca_event = sample_benv, ca_queue = sample_qenv 0 ''t'', ca_transition = sample_benv, ca_final = sample_benv\<rparr>"

definition held_store :: public_store where
  "held_store = \<lparr>us_store = sample_store sample_job, us_queue = empty_queue, us_upstream = []\<rparr>"

lemma held_store_simps: "us_store held_store = sample_store sample_job" "us_queue held_store = empty_queue"
  "us_upstream held_store = []" by (simp_all add: held_store_def)

lemma sample_job_owner: "unsubmitted sample_job" "j_ProviderJobName sample_job = None" "j_UserDeletedAt sample_job = None"
  "j_UserID sample_job = ow_UserID sample_owner" "j_APIKeyID sample_job = Some (ow_APIKeyID sample_owner)"
  "0 < ow_APIKeyID sample_owner" "ow_APIKeyID sample_owner = 7"
  by (simp_all add: unsubmitted_def sample_owner_def) (simp add: sample_job_def new_job_row_def)

lemma held_releasable:
  "releasable ''b1'' (ow_APIKeyID sample_owner) sample_job held_user (bs_billing (us_store held_store))"
  unfolding sample_job_owner(7) held_store_simps by (rule sample_releasable) simp_all

theorem cancel_refunds_unsubmitted_witness:
  "\<exists>view st' u'. Cancel sample_ps sample_cenv sample_owner ''b1'' held_store = (Inr view, st')
    \<and> pub_Status view = ''cancelled'' \<and> users (bs_billing (us_store st')) 1 = Some u' \<and> u_balance u' = 10
    \<and> u_frozen_balance u' = 0"
proof -
  have "\<forall>e \<in> {ca_get sample_cenv, ca_transition sample_cenv, ca_final sample_cenv}. batch_quiet e"
    "no_faults (ca_release sample_cenv)" "unique_db (bs_jobs (us_store held_store))"
    "find_job ''b1'' (bs_jobs (us_store held_store)) = Some sample_job"
    by (simp_all add: sample_cenv_def sample_no_faults held_store_simps)
  from cancel_refunds_unsubmitted [OF this(1,2) sample_on this(3,4) sample_job_owner(1-6) held_releasable]
  show ?thesis by auto
qed

theorem cancel_wins_over_submit_witness:
  "\<exists>st' j u'. submit_upload sample_ps ((sample_smenv ''b1'')\<lparr>sm_meanwhile :=
        [Others (\<lambda>st. snd (Cancel sample_ps sample_cenv sample_owner ''b1'' st))]\<rparr>)
      sample_owner (one_image ''cats'') ''h'' ''vertex'' sample_submitter () sample_job held_store
      = (Inl ErrBatchImageInvalidTransition, st')
    \<and> find_job ''b1'' (bs_jobs (us_store st')) = Some j \<and> j_Status j = BatchImageJobStatusCancelled
    \<and> users (bs_billing (us_store st')) 1 = Some u' \<and> u_balance u' = 10
    \<and> us_upstream st' = [UpSubmit ''b1'', UpCancel (Some ''jobs/1''), UpCleanupInput (Some ''jobs/1'')]"
proof -
  let ?env = "(sample_smenv ''b1'')\<lparr>sm_meanwhile := [Others (\<lambda>st. snd (Cancel sample_ps sample_cenv sample_owner ''b1'' st))]\<rparr>"
  have envs: "\<forall>e \<in> {sm_upload ?env, sm_submitted ?env, ca_get sample_cenv, ca_transition sample_cenv}. batch_quiet e"
    "no_faults (ca_release sample_cenv)"
    "sm_meanwhile ?env = [Others (\<lambda>st. snd (Cancel sample_ps sample_cenv sample_owner ''b1'' st))]"
    by (simp_all add: sample_cenv_def sample_smenv_def sample_no_faults)
  have db: "unique_db (bs_jobs (us_store held_store))" "find_job ''b1'' (bs_jobs (us_store held_store)) = Some sample_job"
    "j_Status sample_job = BatchImageJobStatusCreated"
    by (simp_all add: held_store_simps status_defs)
  have up: "up_submit sample_submitter (sample_job\<lparr>j_Status := BatchImageJobStatusUploading\<rparr>) ()
      (batch_input sample_job (one_image ''cats'')) = Inr (Some sample_pj)" by (simp add: sample_submitter_def)
  have name: "trim_space (pj_ProviderJobName sample_pj) = ''jobs/1''" unfolding sample_pj_def by code_simp
  then have named: "trim_space (pj_ProviderJobName sample_pj) \<noteq> ''''" by simp
  from cancel_wins_over_submit [OF envs(1,2) sample_on envs(3) db sample_job_owner(2-6) held_releasable up named, of "''h''" "''vertex''"]
  show ?thesis unfolding name by (auto simp: held_store_simps)
qed

end
