(* ===== verification/KeywordTrie.thy ===== *)
theory KeywordTrie
  imports GoStrings
begin

text \<open>
  The search automaton of the keyword filter (\<open>backend/internal/service/content_moderation_keyword_matcher.go\<close>,
  the first half of \<open>buildAutomaton\<close>): a trie of the terms, and the failure links and outputs
  that a breadth-first pass adds to it; and that these are the longest proper suffixes in the trie
  and the terms that end at a node.

  A node is an index into a list, an \<open>int32\<close> in the code: the terms together are taken to have
  less than \<open>2 ^ 31\<close> bytes.  \<open>range\<close> over the children of a node visits them in an
  order that a parameter chooses anew for every node.
\<close>

section \<open>The trie\<close>

record build_node =
  bn_children :: "(char, nat) gomap"
  bn_terminals :: "nat list"
  bn_outputs :: "nat list"
  bn_failure :: nat

definition new_node :: build_node where
  "new_node = \<lparr>bn_children = [], bn_terminals = [], bn_outputs = [], bn_failure = 0\<rparr>"

text \<open>Following the bytes of a term from a node, with new nodes where there is no child.\<close>

fun insert_path :: "string \<Rightarrow> nat \<Rightarrow> build_node list \<Rightarrow> nat \<times> build_node list" where
  "insert_path [] state nodes = (state, nodes)"
| "insert_path (label # rest) state nodes =
     (case map_of (bn_children (nodes ! state)) label of
        Some child \<Rightarrow> insert_path rest child nodes
      | None \<Rightarrow>
          let child = length nodes;
              node = (nodes ! state)\<lparr>bn_children := AList.update label child (bn_children (nodes ! state))\<rparr>
          in insert_path rest child (nodes[state := node] @ [new_node]))"

fun insert_terms :: "nat \<Rightarrow> string list \<Rightarrow> build_node list \<Rightarrow> build_node list" where
  "insert_terms termID [] nodes = nodes"
| "insert_terms termID (term # terms) nodes =
     (case insert_path term 0 nodes of
        (state, nodes1) \<Rightarrow>
          insert_terms (Suc termID) terms
            (nodes1[state := (nodes1 ! state)\<lparr>bn_terminals := bn_terminals (nodes1 ! state) @ [termID]\<rparr>]))"

definition init_outputs :: "build_node list \<Rightarrow> build_node list" where
  "init_outputs nodes = map (\<lambda>node. node\<lparr>bn_outputs := bn_outputs node @ bn_terminals node\<rparr>) nodes"

section \<open>Failure links\<close>

partial_function (option) find_fallback :: "build_node list \<Rightarrow> char \<Rightarrow> nat \<Rightarrow> nat \<Rightarrow> nat option" where
  "find_fallback nodes label target fallback =
     (case map_of (bn_children (nodes ! fallback)) label of
        Some child \<Rightarrow>
          if child \<noteq> target then Some child
          else if fallback = 0 then Some 0
          else find_fallback nodes label target (bn_failure (nodes ! fallback))
      | None \<Rightarrow>
          if fallback = 0 then Some 0
          else find_fallback nodes label target (bn_failure (nodes ! fallback)))"

fun link_children ::
  "nat \<Rightarrow> (char \<times> nat) list \<Rightarrow> build_node list \<Rightarrow> nat list \<Rightarrow> (build_node list \<times> nat list) option" where
  "link_children state [] nodes queue = Some (nodes, queue)"
| "link_children state ((label, target) # rest) nodes queue =
     (case find_fallback nodes label target (bn_failure (nodes ! state)) of
        None \<Rightarrow> None
      | Some fallback \<Rightarrow>
          let node = (nodes ! target)
                \<lparr>bn_failure := fallback,
                 bn_outputs := bn_outputs (nodes ! target) @ bn_outputs (nodes ! fallback)\<rparr>
          in link_children state rest (nodes[target := node]) (queue @ [target]))"

partial_function (option) link_queue ::
  "(nat \<Rightarrow> (char \<times> nat) list \<Rightarrow> (char \<times> nat) list) \<Rightarrow> nat list \<Rightarrow> build_node list \<Rightarrow> build_node list option" where
  "link_queue order queue nodes =
     (case queue of
        [] \<Rightarrow> Some nodes
      | state # rest \<Rightarrow>
          (case link_children state (order state (bn_children (nodes ! state))) nodes rest of
             None \<Rightarrow> None
           | Some (nodes1, queue1) \<Rightarrow> link_queue order queue1 nodes1))"

definition build_nodes ::
  "(nat \<Rightarrow> (char \<times> nat) list \<Rightarrow> (char \<times> nat) list) \<Rightarrow> string list \<Rightarrow> build_node list option" where
  "build_nodes order terms =
     (let nodes = init_outputs (insert_terms 0 terms [new_node])
      in link_queue order (map snd (order 0 (bn_children (nodes ! 0)))) nodes)"

section \<open>What a node stands for\<close>

text \<open>Every node has a path, the string of the bytes on the way to it; its children are the nodes whose paths extend it by a byte.\<close>

definition trie :: "build_node list \<Rightarrow> (nat \<Rightarrow> string) \<Rightarrow> bool" where
  "trie nodes path \<longleftrightarrow>
     0 < length nodes \<and> path 0 = [] \<and> inj_on path {..<length nodes}
     \<and> (\<forall>v < length nodes. gomap_wf (bn_children (nodes ! v))
          \<and> (\<forall>c w. map_of (bn_children (nodes ! v)) c = Some w \<longleftrightarrow> w < length nodes \<and> path w = path v @ [c]))
     \<and> (\<forall>v < length nodes. v \<noteq> 0 \<longrightarrow> (\<exists>u < length nodes. \<exists>c. path v = path u @ [c]))"

lemma trieD:
  assumes "trie nodes path"
  shows "0 < length nodes" "path 0 = []" "inj_on path {..<length nodes}"
    "v < length nodes \<Longrightarrow> gomap_wf (bn_children (nodes ! v))"
    "v < length nodes \<Longrightarrow> map_of (bn_children (nodes ! v)) c = Some w \<longleftrightarrow> w < length nodes \<and> path w = path v @ [c]"
    "v < length nodes \<Longrightarrow> v \<noteq> 0 \<Longrightarrow> \<exists>u < length nodes. \<exists>c. path v = path u @ [c]"
  using assms unfolding trie_def by blast+

lemma path_inj: "trie nodes path \<Longrightarrow> v < length nodes \<Longrightarrow> w < length nodes \<Longrightarrow> path v = path w \<longleftrightarrow> v = w"
  using trieD(3) by (metis inj_onD lessThan_iff)

lemma trie_new_child:
  assumes t: "trie nodes path" and v: "v < length nodes" and none: "map_of (bn_children (nodes ! v)) c = None"
  defines "n \<equiv> length nodes" and "node \<equiv> (nodes ! v)\<lparr>bn_children := AList.update c (length nodes) (bn_children (nodes ! v))\<rparr>"
  shows "trie (nodes[v := node] @ [new_node]) (path(n := path v @ [c]))"
proof -
  let ?nodes = "nodes[v := node] @ [new_node]" and ?path = "path(n := path v @ [c])"
  note [simp] = n_def
  have fresh: "path w \<noteq> path v @ [c]" if "w < n" for w
    using trieD(5) [OF t v, of c w] none that by simp
  have deep: "path w \<noteq> path v @ [c] @ x" if "w < n" for w x
    using that
  proof (induction x arbitrary: w rule: rev_induct)
    case Nil
    then show ?case using fresh by simp
  next
    case (snoc d x)
    show ?case
    proof
      assume w: "path w = path v @ [c] @ x @ [d]"
      then have "w \<noteq> 0" using trieD(2) [OF t] by (metis append_is_Nil_conv list.distinct(1))
      then obtain u e where "u < n" "path w = path u @ [e]"
        using trieD(6) [OF t, of w] snoc.prems unfolding n_def by blast
      with w have "path u = path v @ [c] @ x" by simp
      then show False using snoc.IH [OF \<open>u < n\<close>] by simp
    qed
  qed
  have len: "length ?nodes = Suc n" by simp
  have nth: "?nodes ! w = (if w = v then node else if w = n then new_node else nodes ! w)" if "w < Suc n" for w
    using that v by (auto simp: nth_append)
  have inj: "inj_on ?path {..<Suc n}"
    using trieD(3) [OF t] fresh by (fastforce simp: inj_on_def less_Suc_eq)
  have kids: "map_of (bn_children (?nodes ! u)) d = Some w \<longleftrightarrow> w < Suc n \<and> ?path w = ?path u @ [d]"
    if u: "u < Suc n" for u d w
  proof (cases "u = n")
    case True
    have "?path w \<noteq> (path v @ [c]) @ [d]" if "w < Suc n" for w
      using deep [of w "[d]"] that by (cases "w = n") auto
    then show ?thesis using True v nth [OF u] by (auto simp: new_node_def)
  next
    case False
    then have un: "u < length nodes" using u by simp
    have old: "map_of (bn_children (nodes ! u)) d = Some w \<longleftrightarrow> w < n \<and> path w = path u @ [d]"
      using trieD(5) [OF t un] by simp
    show ?thesis
    proof (cases "u = v")
      case True
      then show ?thesis using nth [OF u] False old fresh by (auto simp: node_def)
    next
      case uv: False
      have "path v @ [c] \<noteq> path u @ [d]" using path_inj [OF t v un] uv by auto
      then show ?thesis using nth [OF u] False uv old by auto
    qed
  qed
  have wf: "gomap_wf (bn_children (?nodes ! u))" if "u < Suc n" for u
    using nth [OF that] trieD(4) [OF t] that v by (auto simp: node_def new_node_def)
  have par: "\<exists>u < Suc n. \<exists>d. ?path w = ?path u @ [d]" if w: "w < Suc n" "w \<noteq> 0" for w
  proof (cases "w = n")
    case True
    then show ?thesis using v by (intro exI [of _ v]) auto
  next
    case False
    then obtain u d where "u < n" "path w = path u @ [d]" using trieD(6) [OF t, of w] w by auto
    then show ?thesis using False by (intro exI [of _ u]) auto
  qed
  show ?thesis
    unfolding trie_def len using inj kids wf par trieD(1,2) [OF t] by auto
qed

text \<open>Inserting a term keeps the paths of the old nodes and ends at the node of the term.\<close>

definition fresh_node :: "build_node \<Rightarrow> bool" where
  "fresh_node node \<longleftrightarrow> bn_outputs node = [] \<and> bn_failure node = 0"

definition grows :: "build_node list \<Rightarrow> (nat \<Rightarrow> string) \<Rightarrow> build_node list \<Rightarrow> (nat \<Rightarrow> string) \<Rightarrow> bool" where
  "grows nodes path nodes' path' \<longleftrightarrow>
     trie nodes' path' \<and> length nodes \<le> length nodes'
     \<and> (\<forall>u < length nodes. path' u = path u \<and> bn_terminals (nodes' ! u) = bn_terminals (nodes ! u))
     \<and> (\<forall>u < length nodes'. length nodes \<le> u \<longrightarrow> bn_terminals (nodes' ! u) = [])
     \<and> ((\<forall>node \<in> set nodes. fresh_node node) \<longrightarrow> (\<forall>node \<in> set nodes'. fresh_node node))"

lemma growsD:
  assumes "grows nodes path nodes' path'"
  shows "trie nodes' path'" "length nodes \<le> length nodes'"
    "u < length nodes \<Longrightarrow> path' u = path u"
    "u < length nodes \<Longrightarrow> bn_terminals (nodes' ! u) = bn_terminals (nodes ! u)"
    "u < length nodes' \<Longrightarrow> length nodes \<le> u \<Longrightarrow> bn_terminals (nodes' ! u) = []"
    "\<forall>node \<in> set nodes. fresh_node node \<Longrightarrow> node \<in> set nodes' \<Longrightarrow> fresh_node node"
  using assms unfolding grows_def by blast+

lemma grows_refl: "trie nodes path \<Longrightarrow> grows nodes path nodes path"
  by (simp add: grows_def)

lemma grows_trans:
  assumes a: "grows n1 p1 n2 p2" and b: "grows n2 p2 n3 p3"
  shows "grows n1 p1 n3 p3"
proof -
  have len: "length n1 \<le> length n3" using growsD(2) [OF a] growsD(2) [OF b] by simp
  have old: "p3 u = p1 u \<and> bn_terminals (n3 ! u) = bn_terminals (n1 ! u)" if "u < length n1" for u
    using that growsD(2) [OF a] growsD(3,4) [OF a, where u = u] growsD(3,4) [OF b, where u = u] by simp
  have new: "bn_terminals (n3 ! u) = []" if "u < length n3" "length n1 \<le> u" for u
    using that growsD(5) [OF a, where u = u] growsD(4,5) [OF b, where u = u] by (cases "u < length n2") simp_all
  have fresh: "(\<forall>node \<in> set n1. fresh_node node) \<longrightarrow> (\<forall>node \<in> set n3. fresh_node node)"
    using growsD(6) [OF a] growsD(6) [OF b] by blast
  show ?thesis
    unfolding grows_def using growsD(1) [OF b] len old new fresh by blast
qed

lemma grows_new_child:
  assumes t: "trie nodes path" and v: "v < length nodes" and none: "map_of (bn_children (nodes ! v)) c = None"
  shows "grows nodes path
    (nodes[v := (nodes ! v)\<lparr>bn_children := AList.update c (length nodes) (bn_children (nodes ! v))\<rparr>] @ [new_node])
    (path(length nodes := path v @ [c]))" (is "grows _ _ ?nodes _")
proof -
  have old: "bn_terminals (?nodes ! u) = bn_terminals (nodes ! u)" if "u < length nodes" for u
    using that v by (cases "u = v") (simp_all add: nth_append)
  have new: "bn_terminals (?nodes ! u) = []" if "u < length ?nodes" "length nodes \<le> u" for u
  proof -
    have "u = length nodes" using that by simp
    then show ?thesis by (simp add: nth_append new_node_def)
  qed
  have "fresh_node node" if f: "\<forall>node \<in> set nodes. fresh_node node" and node: "node \<in> set ?nodes" for node
  proof -
    have "fresh_node ((nodes ! v)\<lparr>bn_children := k\<rparr>)" for k
      using f nth_mem [OF v] unfolding fresh_node_def by auto
    moreover have "fresh_node new_node" by (simp add: fresh_node_def new_node_def)
    moreover have "node \<in> insert ((nodes ! v)\<lparr>bn_children := AList.update c (length nodes) (bn_children (nodes ! v))\<rparr>)
        (insert new_node (set nodes))"
      using node set_update_subset_insert by fastforce
    ultimately show ?thesis using f by blast
  qed
  then show ?thesis
    unfolding grows_def using trie_new_child [OF t v none] old new by simp
qed

lemma insert_path_grows:
  assumes "trie nodes path" "v < length nodes" "insert_path w v nodes = (state, nodes')"
  shows "\<exists>path'. grows nodes path nodes' path' \<and> state < length nodes' \<and> path' state = path v @ w"
  using assms
proof (induction w v nodes arbitrary: path rule: insert_path.induct)
  case (1 v nodes)
  then show ?case using grows_refl by auto
next
  case (2 c w v nodes)
  note t = 2(3) and v = 2(4)
  show ?case
  proof (cases "map_of (bn_children (nodes ! v)) c")
    case (Some u)
    then have u: "u < length nodes" "path u = path v @ [c]" using trieD(5) [OF t v] by auto
    have "insert_path w u nodes = (state, nodes')" using 2(5) Some by simp
    from 2(2) [OF Some t u(1) this] u(2) show ?thesis by simp
  next
    case None
    define nodes1 where "nodes1 = nodes[v := (nodes ! v)\<lparr>bn_children := AList.update c (length nodes) (bn_children (nodes ! v))\<rparr>] @ [new_node]"
    define path1 where "path1 = path(length nodes := path v @ [c])"
    have g: "grows nodes path nodes1 path1"
      unfolding nodes1_def path1_def by (rule grows_new_child [OF t v None])
    have run: "insert_path w (length nodes) nodes1 = (state, nodes')"
      using 2(5) None by (simp add: nodes1_def Let_def)
    have len: "length nodes < length nodes1" by (simp add: nodes1_def)
    obtain path' where "grows nodes1 path1 nodes' path'" "state < length nodes'"
        "path' state = path1 (length nodes) @ w"
      using 2(1) [OF None refl refl, folded nodes1_def, OF growsD(1) [OF g] len run] by blast
    then show ?thesis using grows_trans [OF g] v by (auto simp: path1_def)
  qed
qed

text \<open>The terms are marked where they end.\<close>

definition marked :: "string list \<Rightarrow> build_node list \<Rightarrow> (nat \<Rightarrow> string) \<Rightarrow> bool" where
  "marked terms nodes path \<longleftrightarrow>
     (\<forall>v < length nodes. set (bn_terminals (nodes ! v)) = {i. i < length terms \<and> terms ! i = path v})
     \<and> set terms \<subseteq> path ` {..<length nodes}"

lemma positions_snoc:
  "{i. i < length (xs @ [y]) \<and> (xs @ [y]) ! i = x}
     = {i. i < length xs \<and> xs ! i = x} \<union> (if x = y then {length xs} else {})"
  by (auto simp: nth_append less_Suc_eq)

lemma marked_snoc:
  assumes m: "marked terms nodes path" and g: "grows nodes path nodes' path'"
    and state: "state < length nodes'" and ends: "path' state = term"
  defines "node \<equiv> (nodes' ! state)\<lparr>bn_terminals := bn_terminals (nodes' ! state) @ [length terms]\<rparr>"
  shows "marked (terms @ [term]) (nodes'[state := node]) path'"
proof -
  have sub: "path ` {..<length nodes} \<subseteq> path' ` {..<length nodes'}"
  proof
    fix w assume "w \<in> path ` {..<length nodes}"
    then obtain u where "u < length nodes" "w = path' u" using growsD(3) [OF g] by auto
    then show "w \<in> path' ` {..<length nodes'}" using growsD(2) [OF g] by auto
  qed
  have before: "set (bn_terminals (nodes' ! v)) = {i. i < length terms \<and> terms ! i = path' v}"
    if v: "v < length nodes'" for v
  proof (cases "v < length nodes")
    case True
    then show ?thesis using m growsD(3,4) [OF g True] by (simp add: marked_def)
  next
    case False
    have "path' v \<notin> set terms"
    proof
      assume "path' v \<in> set terms"
      then obtain u where u: "u < length nodes" "path u = path' v" using m by (auto simp: marked_def)
      then have "path' u = path' v" using growsD(3) [OF g] by simp
      then have "u = v" using path_inj [OF growsD(1) [OF g]] u(1) v growsD(2) [OF g] by simp
      then show False using u(1) False by simp
    qed
    then have "{i. i < length terms \<and> terms ! i = path' v} = {}" using nth_mem by fastforce
    then show ?thesis using growsD(5) [OF g v] False by simp
  qed
  have "set (bn_terminals (nodes'[state := node] ! v)) = {i. i < length (terms @ [term]) \<and> (terms @ [term]) ! i = path' v}"
    if v: "v < length nodes'" for v
  proof (cases "v = state")
    case True
    then have "set (bn_terminals (nodes'[state := node] ! v)) = set (bn_terminals (nodes' ! v)) \<union> {length terms}"
      using v by (simp add: node_def)
    then show ?thesis unfolding positions_snoc before [OF v] using ends True by simp
  next
    case False
    then have "path' v \<noteq> term" using path_inj [OF growsD(1) [OF g] v state] ends by simp
    then show ?thesis unfolding positions_snoc using False before [OF v] by simp
  qed
  moreover have "set (terms @ [term]) \<subseteq> path' ` {..<length nodes'}"
    using sub m state ends by (auto simp: marked_def)
  ultimately show ?thesis by (simp add: marked_def)
qed

lemma trie_cong:
  assumes "trie nodes path" "map bn_children nodes' = map bn_children nodes"
  shows "trie nodes' path"
proof -
  have len: "length nodes' = length nodes" using assms(2) by (metis length_map)
  have "bn_children (nodes' ! v) = bn_children (nodes ! v)" if "v < length nodes" for v
    using assms(2) that len by (metis nth_map)
  then show ?thesis using assms(1) unfolding trie_def len by simp
qed

lemma map_children_update [simp]:
  "bn_children node = bn_children (nodes ! v) \<Longrightarrow> map bn_children (nodes[v := node]) = map bn_children nodes"
  by (metis list_update_id map_update)

lemma insert_terms_marked:
  assumes "trie nodes path" "marked done_terms nodes path" "\<forall>node \<in> set nodes. fresh_node node"
  shows "\<exists>path'. trie (insert_terms (length done_terms) terms nodes) path'
    \<and> marked (done_terms @ terms) (insert_terms (length done_terms) terms nodes) path'
    \<and> (\<forall>node \<in> set (insert_terms (length done_terms) terms nodes). fresh_node node)"
  using assms
proof (induction terms arbitrary: nodes path done_terms)
  case Nil
  then show ?case by auto
next
  case (Cons trm terms)
  obtain state nodes1 where run: "insert_path trm 0 nodes = (state, nodes1)" by fastforce
  obtain path1 where g: "grows nodes path nodes1 path1" and state: "state < length nodes1"
      and ends: "path1 state = trm"
    using insert_path_grows [OF Cons.prems(1) trieD(1) [OF Cons.prems(1)] run] trieD(2) [OF Cons.prems(1)] by auto
  define node where "node = (nodes1 ! state)\<lparr>bn_terminals := bn_terminals (nodes1 ! state) @ [length done_terms]\<rparr>"
  have t: "trie (nodes1[state := node]) path1"
    by (rule trie_cong [OF growsD(1) [OF g]]) (simp add: node_def)
  have m: "marked (done_terms @ [trm]) (nodes1[state := node]) path1"
    unfolding node_def by (rule marked_snoc [OF Cons.prems(2) g state ends])
  have old: "fresh_node n" if "n \<in> set nodes1" for n
    using growsD(6) [OF g Cons.prems(3) that] .
  then have "fresh_node node"
    using nth_mem [OF state] by (simp add: node_def fresh_node_def)
  then have f: "\<forall>n \<in> set (nodes1[state := node]). fresh_node n"
    using old set_update_subset_insert by fastforce
  from Cons.IH [OF t m f] show ?case
    using run by (simp add: node_def)
qed

lemma trie_start: "trie [new_node] (\<lambda>_. [])"
  by (auto simp: trie_def new_node_def inj_on_def)

text \<open>The trie of the terms.\<close>

lemma insert_terms_trie:
  "\<exists>path. trie (insert_terms 0 terms [new_node]) path \<and> marked terms (insert_terms 0 terms [new_node]) path
    \<and> (\<forall>node \<in> set (insert_terms 0 terms [new_node]). fresh_node node)"
proof -
  have "marked [] [new_node] (\<lambda>_. [])" by (simp add: marked_def new_node_def)
  moreover have "\<forall>node \<in> set [new_node]. fresh_node node" by (simp add: fresh_node_def new_node_def)
  ultimately show ?thesis using insert_terms_marked [OF trie_start, of "[]" terms] by simp
qed

section \<open>The longest suffix in the trie\<close>

fun longest :: "string set \<Rightarrow> string \<Rightarrow> string" where
  "longest P [] = []"
| "longest P (c # w) = (if c # w \<in> P then c # w else longest P w)"

definition prefix_closed :: "string set \<Rightarrow> bool" where
  "prefix_closed P \<longleftrightarrow> [] \<in> P \<and> (\<forall>w c. w @ [c] \<in> P \<longrightarrow> w \<in> P)"

lemma longest_in: "prefix_closed P \<Longrightarrow> longest P w \<in> P"
  by (induction w) (simp_all add: prefix_closed_def)

lemma longest_suffix: "suffix (longest P w) w"
  by (induction w) (auto simp: suffix_Cons)

lemma longest_greatest: "u \<in> P \<Longrightarrow> suffix u w \<Longrightarrow> suffix u (longest P w)"
  by (induction w) (auto simp: suffix_Cons)

lemma suffix_longest_iff: "u \<in> P \<Longrightarrow> suffix u (longest P w) \<longleftrightarrow> suffix u w"
  using longest_greatest longest_suffix suffix_order.trans by blast

lemma length_longest: "length (longest P w) \<le> length w"
  using longest_suffix by (rule suffix_length_le)

text \<open>The longest suffix of a text extended by a byte is found from that of the text.\<close>

lemma longest_snoc:
  assumes "prefix_closed P"
  shows "longest P (longest P w @ [c]) = longest P (w @ [c])"
proof (induction w)
  case (Cons a w)
  have "a # w @ [c] \<notin> P" if "a # w \<notin> P"
    using assms that unfolding prefix_closed_def by (metis append_Cons)
  then show ?case using Cons by simp
qed simp

lemma longest_id: "w \<in> P \<Longrightarrow> longest P w = w"
  by (cases w) simp_all

definition paths :: "build_node list \<Rightarrow> (nat \<Rightarrow> string) \<Rightarrow> string set" where
  "paths nodes path = path ` {..<length nodes}"

lemma pathsI: "v < length nodes \<Longrightarrow> path v \<in> paths nodes path"
  by (simp add: paths_def)

lemma child_in_paths:
  "trie nodes path \<Longrightarrow> v < length nodes \<Longrightarrow>
   path v @ [c] \<in> paths nodes path \<longleftrightarrow> (\<exists>w. map_of (bn_children (nodes ! v)) c = Some w)"
  using trieD(5) [of nodes path v c] unfolding paths_def image_iff by (metis lessThan_iff)

lemma prefix_closed_paths: "trie nodes path \<Longrightarrow> prefix_closed (paths nodes path)"
proof -
  assume t: "trie nodes path"
  have "w \<in> paths nodes path" if wc: "w @ [c] \<in> paths nodes path" for w c
  proof -
    obtain v where v: "v < length nodes" "path v = w @ [c]" using wc by (auto simp: paths_def)
    then have "v \<noteq> 0" using trieD(2) [OF t] by (metis append_is_Nil_conv list.distinct(1))
    then obtain u d where "u < length nodes" "path v = path u @ [d]" using trieD(6) [OF t v(1)] by blast
    then show ?thesis using v(2) pathsI by fastforce
  qed
  then show ?thesis
    unfolding prefix_closed_def using pathsI [OF trieD(1) [OF t], of path] trieD(2) [OF t] by auto
qed

lemma prefix_in_paths:
  assumes "trie nodes path" "x @ y \<in> paths nodes path"
  shows "x \<in> paths nodes path"
  using assms(2)
proof (induction y rule: rev_induct)
  case (snoc c y)
  then show ?case using prefix_closed_paths [OF assms(1)] unfolding prefix_closed_def by (metis append_assoc)
qed simp

section \<open>What the failure links and outputs are\<close>

definition linked :: "string list \<Rightarrow> (nat \<Rightarrow> string) \<Rightarrow> build_node list \<Rightarrow> nat \<Rightarrow> bool" where
  "linked terms path nodes v \<longleftrightarrow>
     bn_failure (nodes ! v) < length nodes
     \<and> path (bn_failure (nodes ! v)) = longest (paths nodes path) (tl (path v))
     \<and> set (bn_outputs (nodes ! v)) = {i. i < length terms \<and> suffix (terms ! i) (path v)}"

definition outputs_sound :: "string list \<Rightarrow> (nat \<Rightarrow> string) \<Rightarrow> build_node list \<Rightarrow> bool" where
  "outputs_sound terms path nodes \<longleftrightarrow>
     set terms \<subseteq> paths nodes path
     \<and> (\<forall>v < length nodes.
          {i. i < length terms \<and> terms ! i = path v} \<subseteq> set (bn_outputs (nodes ! v))
          \<and> set (bn_outputs (nodes ! v)) \<subseteq> {i. i < length terms \<and> suffix (terms ! i) (path v)})"

lemma find_fallback_longest:
  assumes t: "trie nodes path" and target: "length (path target) = Suc d"
    and known: "\<And>u. u < length nodes \<Longrightarrow> length (path u) < d \<Longrightarrow> linked terms path nodes u"
    and "fallback < length nodes" "length (path fallback) < d"
  shows "\<exists>r. find_fallback nodes c target fallback = Some r \<and> r < length nodes
    \<and> path r = longest (paths nodes path) (path fallback @ [c])"
  using assms(4,5)
proof (induction "length (path fallback)" arbitrary: fallback rule: less_induct)
  case less
  note run = find_fallback.simps [of nodes c target fallback]
  show ?case
  proof (cases "map_of (bn_children (nodes ! fallback)) c")
    case (Some child)
    then have child: "child < length nodes" "path child = path fallback @ [c]"
      using trieD(5) [OF t less.prems(1)] by auto
    then have "child \<noteq> target" using target less.prems(2) by auto
    moreover have "longest (paths nodes path) (path fallback @ [c]) = path fallback @ [c]"
      using pathsI [OF child(1), of path] child(2) by (simp add: longest_id)
    ultimately show ?thesis using child by (simp add: run Some)
  next
    case None
    then have out: "path fallback @ [c] \<notin> paths nodes path"
      using child_in_paths [OF t less.prems(1)] by simp
    show ?thesis
    proof (cases "fallback = 0")
      case True
      then show ?thesis
        using None out trieD(1,2) [OF t] by (simp add: find_fallback.simps [of nodes c target 0])
    next
      case False
      then obtain u a where u: "u < length nodes" "path fallback = path u @ [a]"
        using trieD(6) [OF t less.prems(1)] by blast
      then obtain b x where bx: "path fallback = b # x"
        by (metis append_is_Nil_conv list.distinct(1) neq_Nil_conv)
      define f where "f = bn_failure (nodes ! fallback)"
      have f: "f < length nodes" "path f = longest (paths nodes path) x"
        using known [OF less.prems] by (simp_all add: linked_def f_def bx)
      have shorter: "length (path f) < length (path fallback)"
        using length_longest [of "paths nodes path" x] f(2) bx by simp
      obtain r where r: "find_fallback nodes c target f = Some r" "r < length nodes"
          "path r = longest (paths nodes path) (path f @ [c])"
        using less.hyps [OF shorter f(1)] shorter less.prems(2) by auto
      have "path r = longest (paths nodes path) (x @ [c])"
        using r(3) f(2) longest_snoc [OF prefix_closed_paths [OF t]] by simp
      moreover have "longest (paths nodes path) (path fallback @ [c]) = longest (paths nodes path) (x @ [c])"
        using out bx by simp
      ultimately show ?thesis using r(1,2) None False by (simp add: run f_def)
    qed
  qed
qed

lemma children_eq: "map bn_children nodes' = map bn_children nodes \<Longrightarrow> length nodes' = length nodes"
  by (metis length_map)

lemma paths_cong: "length nodes' = length nodes \<Longrightarrow> paths nodes' path = paths nodes path"
  by (simp add: paths_def)

lemma link_children_links:
  assumes "trie nodes path" "outputs_sound terms path nodes"
    and "\<And>u. u < length nodes \<Longrightarrow> length (path u) \<le> d \<Longrightarrow> linked terms path nodes u"
    and "state < length nodes" "length (path state) = d" "path state \<noteq> []"
    and "\<And>label target. (label, target) \<in> set kids \<Longrightarrow> target < length nodes \<and> path target = path state @ [label]"
  shows "\<exists>nodes'. link_children state kids nodes queue = Some (nodes', queue @ map snd kids)
    \<and> map bn_children nodes' = map bn_children nodes \<and> outputs_sound terms path nodes'
    \<and> (\<forall>v < length nodes. linked terms path nodes v \<longrightarrow> linked terms path nodes' v)
    \<and> (\<forall>target \<in> set (map snd kids). linked terms path nodes' target)"
  using assms
proof (induction kids arbitrary: nodes queue)
  case Nil
  then show ?case by simp
next
  case (Cons kid kids)
  obtain label target where kid: "kid = (label, target)" by fastforce
  note t = Cons.prems(1) and sound = Cons.prems(2) and known = Cons.prems(3)
  let ?P = "paths nodes path"
  have target: "target < length nodes" "path target = path state @ [label]"
    using Cons.prems(7) [of label target] kid by simp_all
  obtain b x where bx: "path state = b # x" using Cons.prems(6) by (cases "path state") auto
  define f where "f = bn_failure (nodes ! state)"
  have f: "f < length nodes" "path f = longest ?P x"
    using known [OF Cons.prems(4)] Cons.prems(5) by (simp_all add: linked_def f_def bx)
  have fd: "length (path f) < d"
    using length_longest [of ?P x] f(2) bx Cons.prems(5) by simp
  have td: "length (path target) = Suc d" using target(2) Cons.prems(5) by simp
  obtain r where r: "find_fallback nodes label target f = Some r" "r < length nodes"
      "path r = longest ?P (path f @ [label])"
    using find_fallback_longest [OF t td _ f(1) fd] known by (metis less_imp_le)
  have pr: "path r = longest ?P (tl (path target))"
    using r(3) f(2) target(2) bx longest_snoc [OF prefix_closed_paths [OF t], of x label] by simp
  have rd: "length (path r) \<le> d"
    using length_longest [of ?P "tl (path target)"] pr td by simp
  define node where "node = (nodes ! target)\<lparr>bn_failure := r,
    bn_outputs := bn_outputs (nodes ! target) @ bn_outputs (nodes ! r)\<rparr>"
  define nodes1 where "nodes1 = nodes[target := node]"
  have len [simp]: "length nodes1 = length nodes" by (simp add: nodes1_def)
  have P1: "paths nodes1 path = ?P" by (simp add: paths_def)
  have kids1: "map bn_children nodes1 = map bn_children nodes" by (simp add: nodes1_def node_def)
  have outs: "set (bn_outputs node) = {i. i < length terms \<and> suffix (terms ! i) (path target)}" (is "?L = ?R")
  proof
    have "set (bn_outputs (nodes ! r)) = {i. i < length terms \<and> suffix (terms ! i) (path r)}"
      using known [OF r(2) rd] by (simp add: linked_def)
    then have node_outs: "?L = set (bn_outputs (nodes ! target)) \<union> {i. i < length terms \<and> suffix (terms ! i) (path r)}"
      by (simp add: node_def)
    have "suffix (path r) (path target)"
      unfolding pr using longest_suffix suffix_tl suffix_order.trans by blast
    then show "?L \<subseteq> ?R"
      unfolding node_outs using sound target(1) suffix_order.trans unfolding outputs_sound_def by blast
    show "?R \<subseteq> ?L"
    proof
      fix i assume "i \<in> ?R"
      then have i: "i < length terms" "suffix (terms ! i) (path target)" by auto
      show "i \<in> ?L"
      proof (cases "terms ! i = path target")
        case True
        then show ?thesis unfolding node_outs using sound target(1) i(1) unfolding outputs_sound_def by blast
      next
        case False
        then have "suffix (terms ! i) (tl (path target))"
          using i(2) by (cases "path target") (auto simp: suffix_Cons)
        moreover have "terms ! i \<in> ?P" using sound i(1) unfolding outputs_sound_def by auto
        ultimately have "suffix (terms ! i) (path r)" unfolding pr by (simp add: suffix_longest_iff)
        then show ?thesis unfolding node_outs using i(1) by blast
      qed
    qed
  qed
  have l1: "linked terms path nodes1 v" if "v < length nodes" "linked terms path nodes v \<or> v = target" for v
  proof (cases "v = target")
    case True
    then have "nodes1 ! v = node" using that(1) by (simp add: nodes1_def)
    then show ?thesis unfolding linked_def using True outs pr r(2) P1 by (simp add: node_def)
  next
    case False
    then show ?thesis using that unfolding linked_def P1 by (simp add: nodes1_def)
  qed
  have s1: "outputs_sound terms path nodes1"
    unfolding outputs_sound_def P1
  proof (intro conjI allI impI)
    show "set terms \<subseteq> ?P" using sound by (simp add: outputs_sound_def)
    fix v assume v: "v < length nodes1"
    have o: "set (bn_outputs (nodes1 ! v)) = (if v = target then ?R else set (bn_outputs (nodes ! v)))"
      using outs target(1) by (simp add: nodes1_def)
    show "{i. i < length terms \<and> terms ! i = path v} \<subseteq> set (bn_outputs (nodes1 ! v))"
      unfolding o using sound v by (cases "v = target") (auto simp: outputs_sound_def)
    show "set (bn_outputs (nodes1 ! v)) \<subseteq> {i. i < length terms \<and> suffix (terms ! i) (path v)}"
      unfolding o using sound v by (cases "v = target") (auto simp: outputs_sound_def)
  qed
  have t1: "trie nodes1 path" by (rule trie_cong [OF t kids1])
  have rest: "k < length nodes \<and> path k = path state @ [l]" if "(l, k) \<in> set kids" for l k
    using Cons.prems(7) [of l k] that by simp
  have "\<exists>nodes'. link_children state kids nodes1 (queue @ [target]) = Some (nodes', (queue @ [target]) @ map snd kids)
    \<and> map bn_children nodes' = map bn_children nodes1 \<and> outputs_sound terms path nodes'
    \<and> (\<forall>v < length nodes1. linked terms path nodes1 v \<longrightarrow> linked terms path nodes' v)
    \<and> (\<forall>target \<in> set (map snd kids). linked terms path nodes' target)"
    using Cons.prems(4-6) known l1 rest by (intro Cons.IH [OF t1 s1]) simp_all
  then obtain nodes' where n: "link_children state kids nodes1 (queue @ [target]) = Some (nodes', (queue @ [target]) @ map snd kids)"
    "map bn_children nodes' = map bn_children nodes1" "outputs_sound terms path nodes'"
    "\<And>v. v < length nodes \<Longrightarrow> linked terms path nodes1 v \<Longrightarrow> linked terms path nodes' v"
    "\<And>k. k \<in> set (map snd kids) \<Longrightarrow> linked terms path nodes' k"
    by auto
  have run: "link_children state (kid # kids) nodes queue = link_children state kids nodes1 (queue @ [target])"
    using r(1) by (simp add: kid f_def nodes1_def node_def Let_def)
  show ?case
    unfolding run n(1) using n(2-5) kids1 l1 target(1) kid by auto
qed

text \<open>
  The queue of the breadth-first pass: nodes in the order of their depth, of at most two successive
  depths, such that every node is linked or still to be reached from the queue.
\<close>

definition frontier :: "string list \<Rightarrow> (nat \<Rightarrow> string) \<Rightarrow> build_node list \<Rightarrow> nat list \<Rightarrow> bool" where
  "frontier terms path nodes queue \<longleftrightarrow>
     (\<forall>v \<in> set queue. v < length nodes \<and> path v \<noteq> [])
     \<and> sorted (map (\<lambda>v. length (path v)) queue)
     \<and> (\<forall>v \<in> set queue. length (path v) \<le> Suc (length (path (hd queue))))
     \<and> (\<forall>w < length nodes. linked terms path nodes w
          \<or> (\<exists>u \<in> set queue. strict_prefix (path u) (path w)))"

lemma frontier_known:
  assumes "frontier terms path nodes (state # rest)" "u < length nodes" "length (path u) \<le> length (path state)"
  shows "linked terms path nodes u"
proof (rule ccontr)
  assume "\<not> ?thesis"
  then obtain v where v: "v \<in> set (state # rest)" "strict_prefix (path v) (path u)"
    using assms(1,2) unfolding frontier_def by blast
  then have "length (path v) < length (path u)" by (simp add: prefix_length_less)
  moreover have "length (path state) \<le> length (path v)"
    using assms(1) v(1) by (auto simp: frontier_def)
  ultimately show False using assms(3) by simp
qed

lemma frontier_step:
  assumes f: "frontier terms path nodes (state # rest)" and t: "trie nodes path"
    and len: "length nodes' = length nodes"
    and kept: "\<And>v. v < length nodes \<Longrightarrow> linked terms path nodes v \<Longrightarrow> linked terms path nodes' v"
    and kids: "set kids = {w. w < length nodes \<and> (\<exists>c. path w = path state @ [c])}"
    and new: "\<And>k. k \<in> set kids \<Longrightarrow> linked terms path nodes' k"
  shows "frontier terms path nodes' (rest @ kids)"
proof -
  let ?d = "length (path state)"
  have kp: "k < length nodes \<and> (\<exists>c. path k = path state @ [c])" if "k \<in> set kids" for k
    using kids that by blast
  have kd: "length (path k) = Suc ?d" if "k \<in> set kids" for k
    using kp [OF that] by (metis length_append_singleton)
  have rd: "?d \<le> length (path v) \<and> length (path v) \<le> Suc ?d" if "v \<in> set rest" for v
    using f that by (auto simp: frontier_def)
  have "sorted (map (\<lambda>v. length (path v)) rest)" using f by (simp add: frontier_def)
  moreover have "map (\<lambda>v. length (path v)) kids = replicate (length kids) (Suc ?d)"
    using kd by (metis length_map map_replicate_const map_cong)
  ultimately have sorted: "sorted (map (\<lambda>v. length (path v)) (rest @ kids))"
    using rd by (auto simp: sorted_append)
  have hd: "?d \<le> length (path (hd (rest @ kids)))" if "rest @ kids \<noteq> []"
    using hd_in_set [OF that] rd kd by fastforce
  have reach: "linked terms path nodes' w \<or> (\<exists>u \<in> set (rest @ kids). strict_prefix (path u) (path w))"
    if w: "w < length nodes" for w
  proof (cases "linked terms path nodes w")
    case True
    then show ?thesis using kept w by blast
  next
    case False
    then obtain u where u: "u \<in> set (state # rest)" "strict_prefix (path u) (path w)"
      using f w unfolding frontier_def by blast
    show ?thesis
    proof (cases "u \<in> set rest")
      case True
      then show ?thesis using u(2) by auto
    next
      case False
      then have "strict_prefix (path state) (path w)" using u by simp
      then obtain c y where cy: "path w = path state @ c # y"
        by (metis strict_prefixE')
      have "path state @ [c] \<in> paths nodes path"
        using prefix_in_paths [OF t, of "path state @ [c]" y] pathsI [OF w, of path] cy by simp
      then obtain k where k: "k < length nodes" "path k = path state @ [c]" by (auto simp: paths_def)
      then have mem: "k \<in> set kids" using kids by blast
      show ?thesis
      proof (cases y)
        case Nil
        then have "k = w" using path_inj [OF t k(1) w] k(2) cy by simp
        then show ?thesis using new [OF mem] by simp
      next
        case (Cons e es)
        then have "strict_prefix (path k) (path w)" using cy k(2) by (simp add: strict_prefix_def)
        then show ?thesis using mem by auto
      qed
    qed
  qed
  have "length (path v) \<le> Suc (length (path (hd (rest @ kids))))" if v: "v \<in> set (rest @ kids)" for v
  proof -
    have "rest @ kids \<noteq> []" using v by auto
    then show ?thesis using hd v rd kd by fastforce
  qed
  moreover have "v < length nodes \<and> path v \<noteq> []" if "v \<in> set (rest @ kids)" for v
  proof (cases "v \<in> set rest")
    case True
    then show ?thesis using f by (simp add: frontier_def)
  next
    case False
    then have "v \<in> set kids" using that by simp
    from kp [OF this] show ?thesis by (metis append_is_Nil_conv list.distinct(1))
  qed
  ultimately show ?thesis
    unfolding frontier_def len using sorted reach by blast
qed

definition fair :: "(nat \<Rightarrow> (char \<times> nat) list \<Rightarrow> (char \<times> nat) list) \<Rightarrow> bool" where
  "fair order \<longleftrightarrow> (\<forall>v. iteration_order (order v))"

lemma fair_children:
  assumes "trie nodes path" "fair order" "v < length nodes"
  shows "(c, w) \<in> set (order v (bn_children (nodes ! v))) \<longleftrightarrow> w < length nodes \<and> path w = path v @ [c]"
proof -
  have "set (order v (bn_children (nodes ! v))) = set (bn_children (nodes ! v))"
    using assms(2) iteration_order_set unfolding fair_def by blast
  then show ?thesis
    using map_of_Some_iff [OF trieD(4) [OF assms(1,3)]] trieD(5) [OF assms(1,3)] by metis
qed

text \<open>
  The pass ends: every step replaces a node of the queue by nodes that are deeper.
\<close>

definition queue_measure :: "(nat \<Rightarrow> string) \<Rightarrow> nat \<Rightarrow> nat list \<Rightarrow> nat multiset" where
  "queue_measure path deepest queue = mset (map (\<lambda>v. deepest - length (path v)) queue)"

lemma queue_measure_step:
  assumes "\<And>k. k \<in> set kids \<Longrightarrow> length (path state) < length (path k) \<and> length (path k) \<le> deepest"
  shows "(queue_measure path deepest (rest @ kids), queue_measure path deepest (state # rest)) \<in> mult less_than"
proof -
  let ?f = "\<lambda>v. deepest - length (path v)"
  have "(mset (map ?f rest) + mset (map ?f kids), mset (map ?f rest) + {#?f state#}) \<in> mult less_than"
  proof (rule one_step_implies_mult)
    show "\<forall>k \<in> set_mset (mset (map ?f kids)). \<exists>j \<in> set_mset {#?f state#}. (k, j) \<in> less_than"
      using assms by (fastforce intro: diff_less_mono2)
  qed simp
  then show ?thesis by (simp add: queue_measure_def)
qed

lemma link_queue_links:
  assumes "trie nodes path" "fair order" "outputs_sound terms path nodes" "frontier terms path nodes queue"
  shows "\<exists>nodes'. link_queue order queue nodes = Some nodes'
    \<and> map bn_children nodes' = map bn_children nodes \<and> (\<forall>v < length nodes. linked terms path nodes' v)"
proof -
  define deepest where "deepest = Max ((\<lambda>v. length (path v)) ` {..<length nodes})"
  have deep: "length (path v) \<le> deepest" if "v < length nodes" for v
    unfolding deepest_def using that by (intro Max_ge) auto
  have "\<forall>nodes'. map bn_children nodes' = map bn_children nodes \<longrightarrow> outputs_sound terms path nodes'
      \<longrightarrow> frontier terms path nodes' queue \<longrightarrow>
      (\<exists>nodes''. link_queue order queue nodes' = Some nodes''
        \<and> map bn_children nodes'' = map bn_children nodes \<and> (\<forall>v < length nodes. linked terms path nodes'' v))"
  proof (induction queue rule: wf_induct_rule [OF wf_inv_image [OF wf_mult [OF wf_less_than], of "queue_measure path deepest"]])
    case (1 queue)
    show ?case
    proof (intro allI impI)
      fix n1 assume kids: "map bn_children n1 = map bn_children nodes"
        and sound: "outputs_sound terms path n1" and f: "frontier terms path n1 queue"
      have len: "length n1 = length nodes" using kids by (rule children_eq)
      have t: "trie n1 path" by (rule trie_cong [OF assms(1) kids])
      show "\<exists>nodes''. link_queue order queue n1 = Some nodes''
        \<and> map bn_children nodes'' = map bn_children nodes \<and> (\<forall>v < length nodes. linked terms path nodes'' v)"
      proof (cases queue)
        case Nil
        then have "\<forall>v < length nodes. linked terms path n1 v" using f len by (auto simp: frontier_def)
        then show ?thesis using Nil kids by (simp add: link_queue.simps)
      next
        case (Cons state rest)
        have state: "state < length n1" "path state \<noteq> []" using f Cons by (auto simp: frontier_def)
        define ks where "ks = order state (bn_children (n1 ! state))"
        have ks: "(c, w) \<in> set ks \<longleftrightarrow> w < length n1 \<and> path w = path state @ [c]" for c w
          unfolding ks_def by (rule fair_children [OF t assms(2) state(1)])
        have known: "linked terms path n1 u" if "u < length n1" "length (path u) \<le> length (path state)" for u
          using frontier_known f that unfolding Cons by blast
        obtain n2 where n2: "link_children state ks n1 rest = Some (n2, rest @ map snd ks)"
            "map bn_children n2 = map bn_children n1" "outputs_sound terms path n2"
            "\<And>v. v < length n1 \<Longrightarrow> linked terms path n1 v \<Longrightarrow> linked terms path n2 v"
            "\<And>k. k \<in> set (map snd ks) \<Longrightarrow> linked terms path n2 k"
          using link_children_links [OF t sound known state(1) refl state(2), of ks rest] ks by blast
        have kset: "set (map snd ks) = {w. w < length n1 \<and> (\<exists>c. path w = path state @ [c])}"
          using ks by force
        have f2: "frontier terms path n2 (rest @ map snd ks)"
          by (rule frontier_step [OF f [unfolded Cons] t children_eq [OF n2(2)] n2(4) kset n2(5)])
        have smaller: "(queue_measure path deepest (rest @ map snd ks), queue_measure path deepest queue) \<in> mult less_than"
          unfolding Cons
        proof (rule queue_measure_step)
          fix k assume "k \<in> set (map snd ks)"
          then have "k < length nodes" "\<exists>c. path k = path state @ [c]" using kset len by auto
          then show "length (path state) < length (path k) \<and> length (path k) \<le> deepest"
            using deep by fastforce
        qed
        have "link_queue order queue n1 = link_queue order (rest @ map snd ks) n2"
          using n2(1) by (simp add: Cons link_queue.simps [of order "state # rest"] ks_def)
        then show ?thesis using 1 [of "rest @ map snd ks"] smaller n2(2,3) kids f2 by simp
      qed
    qed
  qed
  then show ?thesis using assms(3,4) by blast
qed

text \<open>
  What the first half of \<open>buildAutomaton\<close> makes: the trie of the terms; the failure link of
  a node leads to the longest proper suffix of its path in the trie, and its outputs are the terms
  that its path ends in.
\<close>

definition automaton :: "string list \<Rightarrow> build_node list \<Rightarrow> (nat \<Rightarrow> string) \<Rightarrow> bool" where
  "automaton terms nodes path \<longleftrightarrow>
     trie nodes path \<and> set terms \<subseteq> paths nodes path \<and> (\<forall>v < length nodes. linked terms path nodes v)"

lemma init_outputs_start:
  assumes t: "trie nodes path" and m: "marked terms nodes path"
    and fresh: "\<forall>node \<in> set nodes. fresh_node node" and terms: "[] \<notin> set terms"
  shows "trie (init_outputs nodes) path" "outputs_sound terms path (init_outputs nodes)"
    "\<And>v. v < length nodes \<Longrightarrow> length (path v) \<le> 1 \<Longrightarrow> linked terms path (init_outputs nodes) v"
proof -
  let ?n = "init_outputs nodes"
  have len: "length ?n = length nodes" by (simp add: init_outputs_def)
  have P: "paths ?n path = paths nodes path" by (rule paths_cong [OF len])
  have "map bn_children ?n = map bn_children nodes" by (simp add: init_outputs_def)
  then show "trie ?n path" by (rule trie_cong [OF t])
  have nth: "set (bn_outputs (?n ! v)) = {i. i < length terms \<and> terms ! i = path v}" "bn_failure (?n ! v) = 0"
    if v: "v < length nodes" for v
    using nth_mem [OF v] fresh m v by (auto simp: init_outputs_def fresh_node_def marked_def)
  then show "outputs_sound terms path ?n"
    using m unfolding outputs_sound_def len P by (auto simp: marked_def paths_def)
  fix v assume v: "v < length nodes" "length (path v) \<le> 1"
  have "suffix (terms ! i) (path v) \<longleftrightarrow> terms ! i = path v" if i: "i < length terms" for i
  proof -
    have "terms ! i \<noteq> []" using nth_mem [OF i] terms by auto
    then show ?thesis using v(2) by (cases "path v") (auto simp: suffix_Cons)
  qed
  moreover have "tl (path v) = []" using v(2) by (cases "path v") simp_all
  ultimately show "linked terms path ?n v"
    unfolding linked_def len using nth [OF v(1)] trieD(1,2) [OF t] by auto
qed

lemma build_nodes_automaton:
  assumes order: "fair order" and terms: "[] \<notin> set terms"
  shows "\<exists>nodes path. build_nodes order terms = Some nodes \<and> automaton terms nodes path"
proof -
  define n0 where "n0 = insert_terms 0 terms [new_node]"
  obtain path where t: "trie n0 path" and m: "marked terms n0 path" and fr: "\<forall>node \<in> set n0. fresh_node node"
    using insert_terms_trie unfolding n0_def by blast
  define n1 where "n1 = init_outputs n0"
  note start = init_outputs_start [OF t m fr terms, folded n1_def]
  have len: "length n1 = length n0" by (simp add: n1_def init_outputs_def)
  have root: "0 < length n1" "path 0 = []" using trieD(1,2) [OF start(1)] .
  define ks where "ks = order 0 (bn_children (n1 ! 0))"
  have ks: "(c, w) \<in> set ks \<longleftrightarrow> w < length n1 \<and> path w = [c]" for c w
    using fair_children [OF start(1) order root(1)] unfolding ks_def root(2) by simp
  have kset: "set (map snd ks) = {w. w < length n1 \<and> (\<exists>c. path w = [c])}" using ks by force
  have "linked terms path n1 w \<or> (\<exists>u \<in> set (map snd ks). strict_prefix (path u) (path w))"
    if w: "w < length n1" for w
  proof (cases "length (path w) \<le> 1")
    case True
    then show ?thesis using start(3) w len by simp
  next
    case False
    then obtain c d x where x: "path w = [c] @ d # x"
      by (cases "path w" rule: remdups_adj.cases) auto
    then have "[c] \<in> paths n1 path"
      using prefix_in_paths [OF start(1)] pathsI [OF w, of path] by metis
    then obtain k where "k < length n1" "path k = [c]" by (auto simp: paths_def)
    then have "k \<in> set (map snd ks)" "strict_prefix (path k) (path w)"
      using kset x by (auto simp: strict_prefix_def)
    then show ?thesis by blast
  qed
  moreover have depth: "length (path v) = 1" if "v \<in> set (map snd ks)" for v
    using that unfolding kset by auto
  moreover have "sorted (map (\<lambda>v. length (path v)) (map snd ks))"
  proof -
    have "map (\<lambda>v. length (path v)) (map snd ks) = replicate (length (map snd ks)) 1"
      using depth by (metis length_map map_replicate_const map_cong)
    then show ?thesis by simp
  qed
  ultimately have f: "frontier terms path n1 (map snd ks)"
    unfolding frontier_def using kset by (metis (mono_tags, lifting) le_SucI le_add1 length_0_conv mem_Collect_eq one_neq_zero plus_1_eq_Suc)
  obtain n2 where n2: "link_queue order (map snd ks) n1 = Some n2" "map bn_children n2 = map bn_children n1"
      "\<forall>v < length n1. linked terms path n2 v"
    using link_queue_links [OF start(1) order start(2) f] by blast
  have "automaton terms n2 path"
    unfolding automaton_def paths_cong [OF children_eq [OF n2(2)]] children_eq [OF n2(2)]
    using trie_cong [OF start(1) n2(2)] start(2) n2(3) by (simp add: outputs_sound_def)
  moreover have "build_nodes order terms = Some n2"
    using n2(1) by (simp add: build_nodes_def n1_def n0_def ks_def Let_def)
  ultimately show ?thesis by blast
qed

end
