(* ===== verification/KeywordAutomaton.thy ===== *)
theory KeywordAutomaton
  imports KeywordTrie
begin

text \<open>
  The compiled automaton of the keyword filter: the second half of \<open>buildAutomaton\<close>, which
  lays the trie out in arrays, \<open>next\<close>, and the scan of a text in \<open>Match\<close>
  (\<open>backend/internal/service/content_moderation_keyword_matcher.go\<close>); and that a scan marks
  exactly the terms that occur in the text.

  The indices of the arrays are natural numbers (\<open>int32\<close> and \<open>uint32\<close> in the code, where
  negative ones do not occur).  \<open>range\<close> over the children visits them in an order of its
  own each time: \<open>link_order\<close> for the breadth-first pass, \<open>root_order\<close> for the
  transitions of the root, \<open>label_order\<close> for the labels of a node.
\<close>

section \<open>The arrays\<close>

datatype match_mode = Match_Exact | Match_Contains | Match_All

record kw_rule =
  kr_raw :: string
  kr_mode :: match_mode
  kr_term_ids :: "nat list"
  kr_exact :: string

record kw_node =
  kn_failure :: nat
  kn_edge_start :: nat
  kn_edge_count :: nat
  kn_output_start :: nat
  kn_output_count :: nat

record kw_edge =
  ke_target :: nat
  ke_label :: char

record kw_matcher =
  km_nodes :: "kw_node list"
  km_edges :: "kw_edge list"
  km_outputs :: "nat list"
  km_root :: "char \<Rightarrow> nat"
  km_terms :: "string list"
  km_rules :: "kw_rule list"

record kw_orders =
  link_order :: "nat \<Rightarrow> (char \<times> nat) list \<Rightarrow> (char \<times> nat) list"
  root_order :: "(char \<times> nat) list \<Rightarrow> (char \<times> nat) list"
  label_order :: "nat \<Rightarrow> (char \<times> nat) list \<Rightarrow> (char \<times> nat) list"

text \<open>The insertion sort of a node's labels; the inner loop moves the greater labels up.\<close>

fun shift_in :: "char \<Rightarrow> nat \<Rightarrow> char list \<Rightarrow> char list" where
  "shift_in label 0 labels = labels[0 := label]"
| "shift_in label (Suc i) labels =
     (if label < labels ! i then shift_in label i (labels[Suc i := labels ! i])
      else labels[Suc i := label])"

definition sort_labels :: "char list \<Rightarrow> char list" where
  "sort_labels labels = fold (\<lambda>left labels. shift_in (labels ! left) left labels) [1..<length labels] labels"

definition child_or_zero :: "build_node \<Rightarrow> char \<Rightarrow> nat" where
  "child_or_zero node label = (case map_of (bn_children node) label of Some child \<Rightarrow> child | None \<Rightarrow> 0)"

fun compile_nodes ::
  "(nat \<Rightarrow> (char \<times> nat) list \<Rightarrow> (char \<times> nat) list) \<Rightarrow> nat \<Rightarrow> build_node list \<Rightarrow> kw_matcher \<Rightarrow> kw_matcher" where
  "compile_nodes order index [] m = m"
| "compile_nodes order index (b # bs) m =
     (let labels = sort_labels (map fst (order index (bn_children b)));
          node = \<lparr>kn_failure = bn_failure b,
                  kn_edge_start = length (km_edges m), kn_edge_count = length labels,
                  kn_output_start = length (km_outputs m), kn_output_count = length (bn_outputs b)\<rparr>;
          edges = map (\<lambda>label. \<lparr>ke_target = child_or_zero b label, ke_label = label\<rparr>) labels
      in compile_nodes order (Suc index) bs
           (m\<lparr>km_nodes := km_nodes m @ [node], km_edges := km_edges m @ edges,
              km_outputs := km_outputs m @ bn_outputs b\<rparr>))"

definition root_transitions :: "(char \<times> nat) list \<Rightarrow> (char \<Rightarrow> nat) \<Rightarrow> char \<Rightarrow> nat" where
  "root_transitions children root = fold (\<lambda>(label, target) root. root(label := target)) children root"

definition build_automaton :: "kw_orders \<Rightarrow> kw_matcher \<Rightarrow> kw_matcher option" where
  "build_automaton orders m =
     (case build_nodes (link_order orders) (km_terms m) of
        None \<Rightarrow> None
      | Some bs \<Rightarrow>
          Some (compile_nodes (label_order orders) 0 bs
            (m\<lparr>km_root := root_transitions (root_order orders (bn_children (bs ! 0))) (km_root m),
               km_nodes := [], km_edges := [], km_outputs := []\<rparr>)))"

section \<open>\<open>next\<close> and the scan\<close>

function search_edge :: "kw_edge list \<Rightarrow> char \<Rightarrow> nat \<Rightarrow> nat \<Rightarrow> nat" where
  "search_edge edges label left right =
     (if left < right then
        let middle = left + (right - left) div 2
        in if ke_label (edges ! middle) < label then search_edge edges label (middle + 1) right
           else search_edge edges label left middle
      else left)"
  by pat_completeness auto
termination by (relation "measure (\<lambda>(_, _, left, right). right - left)") auto

declare search_edge.simps [simp del]

definition next_state :: "kw_matcher \<Rightarrow> nat \<Rightarrow> char \<Rightarrow> nat" where
  "next_state m state label =
     (if length (km_nodes m) \<le> state then 0
      else if state = 0 then km_root m label
      else
        let node = km_nodes m ! state;
            fin = kn_edge_start node + kn_edge_count node;
            left = search_edge (km_edges m) label (kn_edge_start node) fin
        in if left < fin \<and> ke_label (km_edges m ! left) = label then ke_target (km_edges m ! left) else 0)"

partial_function (option) advance :: "kw_matcher \<Rightarrow> char \<Rightarrow> nat \<Rightarrow> nat option" where
  "advance m label state =
     (let nxt = next_state m state label
      in if nxt \<noteq> 0 then Some nxt
         else if state = 0 then Some 0
         else advance m label (kn_failure (km_nodes m ! state)))"

definition mark_outputs :: "kw_matcher \<Rightarrow> kw_node \<Rightarrow> bool list \<Rightarrow> bool list" where
  "mark_outputs m node matched =
     fold (\<lambda>i matched. let termID = km_outputs m ! i
             in if termID < length matched then matched[termID := True] else matched)
       [kn_output_start node..<kn_output_start node + kn_output_count node] matched"

fun scan :: "kw_matcher \<Rightarrow> nat \<Rightarrow> string \<Rightarrow> bool list \<Rightarrow> bool list option" where
  "scan m state [] matched = Some matched"
| "scan m state (label # rest) matched =
     (case advance m label state of
        None \<Rightarrow> None
      | Some state1 \<Rightarrow> scan m state1 rest (mark_outputs m (km_nodes m ! state1) matched))"

section \<open>The layout\<close>

lemma length_shift_in [simp]: "length (shift_in label i labels) = length labels"
  by (induction label i labels rule: shift_in.induct) simp_all

lemma shift_in_sorts:
  "sorted ys \<Longrightarrow> \<exists>rs. shift_in x (length ys) (ys @ w # zs) = rs @ zs \<and> sorted rs \<and> mset rs = add_mset x (mset ys)"
proof (induction ys arbitrary: w zs rule: rev_induct)
  case Nil
  then show ?case by simp
next
  case (snoc y ys)
  have sorted: "sorted ys" "\<forall>z \<in> set ys. z \<le> y" using snoc.prems by (simp_all add: sorted_append)
  show ?case
  proof (cases "x < y")
    case True
    obtain rs where rs: "shift_in x (length ys) (ys @ y # y # zs) = rs @ y # zs" "sorted rs"
        "mset rs = add_mset x (mset ys)"
      using snoc.IH [OF sorted(1)] by blast
    have "set rs = insert x (set ys)" using rs(3) by (metis set_mset_add_mset_insert set_mset_mset)
    then have "sorted (rs @ [y])" using rs(2) sorted(2) True by (auto simp: sorted_append)
    then show ?thesis
      using True rs by (intro exI [of _ "rs @ [y]"]) (simp add: nth_append list_update_append)
  next
    case False
    then have "sorted (ys @ [y, x])" using sorted by (auto simp: sorted_append)
    then show ?thesis
      using False by (intro exI [of _ "ys @ [y, x]"]) (simp add: nth_append list_update_append)
  qed
qed

lemma sort_labels_upto:
  "n \<le> length labels \<Longrightarrow> 1 \<le> n \<Longrightarrow>
   \<exists>rs. fold (\<lambda>left labels. shift_in (labels ! left) left labels) [1..<n] labels = rs @ drop n labels
      \<and> sorted rs \<and> mset rs = mset (take n labels)"
proof (induction n)
  case (Suc n)
  show ?case
  proof (cases "n = 0")
    case True
    then show ?thesis using Suc.prems by (cases labels) (auto intro: exI [of _ "[hd labels]"])
  next
    case False
    then obtain rs where rs: "fold (\<lambda>left labels. shift_in (labels ! left) left labels) [1..<n] labels = rs @ drop n labels"
        "sorted rs" "mset rs = mset (take n labels)"
      using Suc by auto
    have n: "n < length labels" using Suc.prems by simp
    have len: "length rs = n" using rs(3) n by (metis length_take min.absorb2 less_imp_le mset_eq_length)
    have split: "rs @ drop n labels = rs @ labels ! n # drop (Suc n) labels" using n by (simp add: Cons_nth_drop_Suc)
    obtain ts where ts: "shift_in (labels ! n) (length rs) (rs @ labels ! n # drop (Suc n) labels) = ts @ drop (Suc n) labels"
        "sorted ts" "mset ts = add_mset (labels ! n) (mset rs)"
      using shift_in_sorts [OF rs(2)] by blast
    have "fold (\<lambda>left labels. shift_in (labels ! left) left labels) [1..<Suc n] labels = ts @ drop (Suc n) labels"
      using False ts(1) by (simp add: rs(1) [unfolded One_nat_def] split len nth_append)
    moreover have "mset ts = mset (take (Suc n) labels)"
      using n by (simp add: ts(3) rs(3) take_Suc_conv_app_nth)
    ultimately show ?thesis using ts(2) by blast
  qed
qed simp

lemma sort_labels_sorts: "sorted (sort_labels labels) \<and> mset (sort_labels labels) = mset labels"
proof (cases "labels = []")
  case False
  then show ?thesis using sort_labels_upto [of "length labels" labels] by (cases labels) (auto simp: sort_labels_def)
qed (simp add: sort_labels_def)

definition slice :: "nat \<Rightarrow> nat \<Rightarrow> 'a list \<Rightarrow> 'a list" where
  "slice start n xs = take n (drop start xs)"

lemma slice_append [simp]: "start + n \<le> length xs \<Longrightarrow> slice start n (xs @ ys) = slice start n xs"
  by (simp add: slice_def)

lemma slice_new [simp]: "slice (length xs) (length ys) (xs @ ys) = ys"
  by (simp add: slice_def)

lemma nth_slice: "start + n \<le> length xs \<Longrightarrow> i < n \<Longrightarrow> slice start n xs ! i = xs ! (start + i)"
  by (simp add: slice_def)

lemma length_slice: "start + n \<le> length xs \<Longrightarrow> length (slice start n xs) = n"
  by (simp add: slice_def)

text \<open>The entries of a node in the arrays hold its failure link, its children and its outputs.\<close>

definition edges_of :: "build_node \<Rightarrow> kw_edge list \<Rightarrow> bool" where
  "edges_of b es \<longleftrightarrow> sorted (map ke_label es)
     \<and> (\<forall>label target. map_of (bn_children b) label = Some target
          \<longleftrightarrow> \<lparr>ke_target = target, ke_label = label\<rparr> \<in> set es)"

definition lays_out :: "kw_matcher \<Rightarrow> build_node \<Rightarrow> kw_node \<Rightarrow> bool" where
  "lays_out m b node \<longleftrightarrow>
     kn_failure node = bn_failure b
     \<and> kn_edge_start node + kn_edge_count node \<le> length (km_edges m)
     \<and> edges_of b (slice (kn_edge_start node) (kn_edge_count node) (km_edges m))
     \<and> kn_output_start node + kn_output_count node \<le> length (km_outputs m)
     \<and> slice (kn_output_start node) (kn_output_count node) (km_outputs m) = bn_outputs b"

definition laid_out :: "kw_matcher \<Rightarrow> build_node list \<Rightarrow> bool" where
  "laid_out m bs \<longleftrightarrow> list_all2 (lays_out m) bs (km_nodes m)"

lemma edges_of_children:
  assumes wf: "gomap_wf (bn_children b)" and order: "iteration_order order"
  shows "edges_of b (map (\<lambda>label. \<lparr>ke_target = child_or_zero b label, ke_label = label\<rparr>)
    (sort_labels (map fst (order (bn_children b)))))" (is "edges_of b (map ?edge ?labels)")
proof -
  have "set ?labels = fst ` set (order (bn_children b))"
    using sort_labels_sorts by (metis list.set_map mset_eq_setD)
  also have "\<dots> = dom (map_of (bn_children b))"
    by (simp add: iteration_order_set [OF order] dom_map_of_conv_image_fst)
  finally have labels: "label \<in> set ?labels \<longleftrightarrow> (\<exists>w. map_of (bn_children b) label = Some w)" for label
    by auto
  have "map_of (bn_children b) label = Some target
      \<longleftrightarrow> \<lparr>ke_target = target, ke_label = label\<rparr> \<in> ?edge ` set ?labels" for label target
    using labels [of label] by (auto simp: child_or_zero_def image_iff)
  moreover have "map ke_label (map ?edge ?labels) = ?labels" by (simp add: comp_def)
  ultimately show ?thesis
    using sort_labels_sorts unfolding edges_of_def by (simp only: list.set_map simp_thms)
qed

lemma compile_nodes_frame [simp]:
  "km_terms (compile_nodes order index bs m) = km_terms m"
  "km_rules (compile_nodes order index bs m) = km_rules m"
  "km_root (compile_nodes order index bs m) = km_root m"
  by (induction order index bs m rule: compile_nodes.induct) (simp_all add: Let_def)

lemma compile_nodes_laid_out:
  assumes "laid_out m ds" "index = length ds"
    and "\<And>b. b \<in> set bs \<Longrightarrow> gomap_wf (bn_children b)" "\<And>v. iteration_order (order v)"
  shows "laid_out (compile_nodes order index bs m) (ds @ bs)"
  using assms
proof (induction bs arbitrary: m ds index)
  case Nil
  then show ?case by simp
next
  case (Cons b bs)
  define labels where "labels = sort_labels (map fst (order index (bn_children b)))"
  define edges where "edges = map (\<lambda>label. \<lparr>ke_target = child_or_zero b label, ke_label = label\<rparr>) labels"
  define node where "node = \<lparr>kn_failure = bn_failure b,
      kn_edge_start = length (km_edges m), kn_edge_count = length labels,
      kn_output_start = length (km_outputs m), kn_output_count = length (bn_outputs b)\<rparr>"
  define m1 where "m1 = m\<lparr>km_nodes := km_nodes m @ [node], km_edges := km_edges m @ edges,
      km_outputs := km_outputs m @ bn_outputs b\<rparr>"
  have len: "length edges = length labels" by (simp add: edges_def)
  have es: "edges_of b edges"
    unfolding edges_def labels_def using Cons.prems(3,4) by (intro edges_of_children) simp_all
  have "lays_out m1 b node"
    unfolding lays_out_def
    using es len slice_new [of "km_edges m" edges] by (simp add: m1_def node_def)
  moreover have "lays_out m1 d n" if "lays_out m d n" for d n
    using that by (simp add: lays_out_def m1_def)
  ultimately have "laid_out m1 (ds @ [b])"
    using Cons.prems(1) by (auto simp: laid_out_def m1_def intro: list_all2_mono list_all2_appendI)
  then have "laid_out (compile_nodes order (Suc index) bs m1) ((ds @ [b]) @ bs)"
    using Cons.prems(2-4) by (intro Cons.IH) simp_all
  moreover have "compile_nodes order index (b # bs) m = compile_nodes order (Suc index) bs m1"
    by (simp add: m1_def node_def edges_def labels_def Let_def)
  ultimately show ?case by simp
qed

lemma root_transitions_children:
  assumes "distinct (map fst children)"
  shows "root_transitions children root label
    = (case map_of children label of Some target \<Rightarrow> target | None \<Rightarrow> root label)"
  using assms
  by (induction children arbitrary: root)
     (auto simp: root_transitions_def map_of_eq_None_iff split: option.split dest: map_of_SomeD, force+)

text \<open>The binary search finds the first edge whose label is not smaller.\<close>

lemma search_edge_finds:
  assumes "left \<le> right" "\<And>i j. left \<le> i \<Longrightarrow> i \<le> j \<Longrightarrow> j < right \<Longrightarrow> ke_label (edges ! i) \<le> ke_label (edges ! j)"
  shows "left \<le> search_edge edges label left right \<and> search_edge edges label left right \<le> right
    \<and> (\<forall>i. left \<le> i \<longrightarrow> i < search_edge edges label left right \<longrightarrow> ke_label (edges ! i) < label)
    \<and> (\<forall>i. search_edge edges label left right \<le> i \<longrightarrow> i < right \<longrightarrow> label \<le> ke_label (edges ! i))"
  using assms
proof (induction edges label left right rule: search_edge.induct)
  case (1 edges label left right)
  show ?case
  proof (cases "left < right")
    case False
    then show ?thesis using 1(3) by (simp add: search_edge.simps [of edges label right right])
  next
    case True
    define middle where "middle = left + (right - left) div 2"
    have mid: "left \<le> middle" "middle < right" using True by (auto simp: middle_def)
    note IH = 1(1,2) [OF True middle_def]
    show ?thesis
    proof (cases "ke_label (edges ! middle) < label")
      case less: True
      have run: "search_edge edges label left right = search_edge edges label (middle + 1) right"
        using True less by (simp add: search_edge.simps [of edges label left right] middle_def Let_def)
      have low: "ke_label (edges ! i) < label" if "left \<le> i" "i \<le> middle" for i
        using 1(4) [OF that mid(2)] less by simp
      have ih: "middle + 1 \<le> r \<and> r \<le> right \<and> (\<forall>i. middle + 1 \<le> i \<longrightarrow> i < r \<longrightarrow> ke_label (edges ! i) < label)
          \<and> (\<forall>i. r \<le> i \<longrightarrow> i < right \<longrightarrow> label \<le> ke_label (edges ! i))"
        if "r = search_edge edges label (middle + 1) right" for r
        unfolding that using mid 1(4) by (intro IH(1) [OF less]) simp_all
      have "ke_label (edges ! i) < label"
        if "left \<le> i" "i < search_edge edges label (middle + 1) right" for i
        using low [OF that(1)] ih [OF refl] that(2) by (cases "i \<le> middle") simp_all
      then show ?thesis unfolding run using ih [OF refl] mid by simp
    next
      case ge: False
      have run: "search_edge edges label left right = search_edge edges label left middle"
        using True ge by (simp add: search_edge.simps [of edges label left right] middle_def Let_def)
      have high: "label \<le> ke_label (edges ! i)" if "middle \<le> i" "i < right" for i
        using 1(4) [OF mid(1) that] ge by simp
      have ih: "left \<le> r \<and> r \<le> middle \<and> (\<forall>i. left \<le> i \<longrightarrow> i < r \<longrightarrow> ke_label (edges ! i) < label)
          \<and> (\<forall>i. r \<le> i \<longrightarrow> i < middle \<longrightarrow> label \<le> ke_label (edges ! i))"
        if "r = search_edge edges label left middle" for r
        unfolding that using mid 1(4) by (intro IH(2) [OF ge]) simp_all
      have "label \<le> ke_label (edges ! i)"
        if "search_edge edges label left middle \<le> i" "i < right" for i
        using high [OF _ that(2)] ih [OF refl] that(1) by (cases "i < middle") simp_all
      then show ?thesis unfolding run using ih [OF refl] mid by simp
    qed
  qed
qed

text \<open>\<open>next\<close> reads the children back.\<close>

lemma next_state_children:
  assumes laid: "laid_out m bs" and v: "v < length bs"
    and root: "\<And>label. km_root m label = child_or_zero (bs ! 0) label"
  shows "next_state m v label = child_or_zero (bs ! v) label"
proof (cases "v = 0")
  case True
  then show ?thesis using laid v root by (simp add: next_state_def laid_out_def list_all2_lengthD)
next
  case False
  define node where "node = km_nodes m ! v"
  define start n where "start = kn_edge_start node" and "n = kn_edge_count node"
  define es where "es = slice start n (km_edges m)"
  define left where "left = search_edge (km_edges m) label start (start + n)"
  have len: "length (km_nodes m) = length bs" using laid by (simp add: laid_out_def list_all2_lengthD)
  have "lays_out m (bs ! v) node"
    unfolding node_def using laid v by (auto simp: laid_out_def dest: list_all2_nthD)
  then have fits: "start + n \<le> length (km_edges m)" and es: "edges_of (bs ! v) es"
    by (simp_all add: lays_out_def start_def n_def es_def)
  have nth: "es ! i = km_edges m ! (start + i)" if "i < n" for i
    unfolding es_def using fits that by (rule nth_slice)
  have len_es: "length es = n" unfolding es_def using fits by (rule length_slice)
  have sorted: "ke_label (km_edges m ! i) \<le> ke_label (km_edges m ! j)"
    if "start \<le> i" "i \<le> j" "j < start + n" for i j
    using es that len_es sorted_nth_mono [of "map ke_label es" "i - start" "j - start"]
      nth [of "i - start"] nth [of "j - start"] by (simp add: edges_of_def)
  have found: "start \<le> left \<and> left \<le> start + n
      \<and> (\<forall>i. start \<le> i \<longrightarrow> i < left \<longrightarrow> ke_label (km_edges m ! i) < label)
      \<and> (\<forall>i. left \<le> i \<longrightarrow> i < start + n \<longrightarrow> label \<le> ke_label (km_edges m ! i))"
    unfolding left_def by (rule search_edge_finds) (use sorted in auto)
  have run: "next_state m v label = (if left < start + n \<and> ke_label (km_edges m ! left) = label
      then ke_target (km_edges m ! left) else 0)"
    using False v len by (simp add: next_state_def left_def start_def n_def node_def Let_def)
  show ?thesis
  proof (cases "left < start + n \<and> ke_label (km_edges m ! left) = label")
    case True
    then have "es ! (left - start) = km_edges m ! left" "left - start < n"
      using nth [of "left - start"] found by auto
    then have "km_edges m ! left \<in> set es" using nth_mem len_es by metis
    then have "\<lparr>ke_target = ke_target (km_edges m ! left), ke_label = label\<rparr> \<in> set es"
      using True by (metis kw_edge.surjective old.unit.exhaust)
    then have "map_of (bn_children (bs ! v)) label = Some (ke_target (km_edges m ! left))"
      using es by (simp add: edges_of_def)
    then show ?thesis using run True by (simp add: child_or_zero_def)
  next
    case none: False
    have "map_of (bn_children (bs ! v)) label = None"
    proof (rule ccontr)
      assume "\<not> ?thesis"
      then obtain target where "\<lparr>ke_target = target, ke_label = label\<rparr> \<in> set es"
        using es by (auto simp: edges_of_def)
      then obtain i where i: "i < n" "es ! i = \<lparr>ke_target = target, ke_label = label\<rparr>"
        by (metis in_set_conv_nth len_es)
      then have lab: "ke_label (km_edges m ! (start + i)) = label" using nth by simp
      then have "left \<le> start + i" using found by (metis le_add1 not_less order_less_irrefl)
      then have "left < start + n" "ke_label (km_edges m ! left) \<le> label"
        using i(1) lab sorted [of left "start + i"] found by auto
      moreover have "label \<le> ke_label (km_edges m ! left)" using calculation(1) found by simp
      ultimately show False using none by simp
    qed
    then show ?thesis using run none by (simp add: child_or_zero_def)
  qed
qed

section \<open>The scan\<close>

text \<open>A matcher whose arrays hold the automaton of its terms.\<close>

definition compiled :: "kw_matcher \<Rightarrow> build_node list \<Rightarrow> (nat \<Rightarrow> string) \<Rightarrow> bool" where
  "compiled m bs path \<longleftrightarrow>
     automaton (km_terms m) bs path \<and> laid_out m bs
     \<and> (\<forall>label. km_root m label = child_or_zero (bs ! 0) label)"

definition no_transitions :: "char \<Rightarrow> nat" where
  "no_transitions label = 0"

lemma build_automaton_compiled:
  assumes "fair (link_order orders)" "iteration_order (root_order orders)" "\<And>v. iteration_order (label_order orders v)"
    and terms: "[] \<notin> set (km_terms m)" and root: "km_root m = no_transitions"
  shows "\<exists>m' bs path. build_automaton orders m = Some m' \<and> compiled m' bs path
    \<and> km_terms m' = km_terms m \<and> km_rules m' = km_rules m"
proof -
  obtain bs path where bs: "build_nodes (link_order orders) (km_terms m) = Some bs" "automaton (km_terms m) bs path"
    using build_nodes_automaton [OF assms(1) terms] by blast
  have t: "trie bs path" using bs(2) by (simp add: automaton_def)
  define children where "children = root_order orders (bn_children (bs ! 0))"
  define m0 where "m0 = m\<lparr>km_root := root_transitions children (km_root m),
      km_nodes := [], km_edges := [], km_outputs := []\<rparr>"
  define m' where "m' = compile_nodes (label_order orders) 0 bs m0"
  have wf: "gomap_wf (bn_children b)" if "b \<in> set bs" for b
    using that trieD(4) [OF t] by (metis in_set_conv_nth)
  have "laid_out m0 []" by (simp add: laid_out_def m0_def)
  from compile_nodes_laid_out [OF this, of 0 bs "label_order orders"]
  have laid: "laid_out m' bs" using wf assms(3) by (simp add: m'_def)
  have perm: "mset children = mset (bn_children (bs ! 0))"
    using assms(2) by (simp add: children_def iteration_order_def)
  have wf0: "gomap_wf (bn_children (bs ! 0))" by (rule trieD(4) [OF t trieD(1) [OF t]])
  have dist: "distinct (map fst children)"
    using wf0 perm unfolding gomap_wf_def by (metis mset_map mset_eq_imp_distinct_iff)
  have same: "map_of children = map_of (bn_children (bs ! 0))"
    using dist wf0 perm unfolding gomap_wf_def by (metis map_of_inject_set mset_eq_setD)
  have "km_root m' label = child_or_zero (bs ! 0) label" for label
    using root_transitions_children [OF dist, of no_transitions label]
    by (cases "map_of (bn_children (bs ! 0)) label")
       (simp_all add: m'_def m0_def child_or_zero_def same root no_transitions_def [of label])
  then have "compiled m' bs path"
    using bs(2) laid by (simp add: compiled_def) (simp add: m'_def m0_def)
  moreover have "build_automaton orders m = Some m'"
    using bs(1) by (simp add: build_automaton_def m'_def m0_def children_def)
  ultimately show ?thesis by (intro exI [of _ m'] exI [of _ bs] exI [of _ path]) (simp add: m'_def m0_def)
qed

lemma compiledD:
  assumes "compiled m bs path"
  shows "trie bs path" "set (km_terms m) \<subseteq> paths bs path"
    "v < length bs \<Longrightarrow> linked (km_terms m) path bs v"
    "length (km_nodes m) = length bs"
    "v < length bs \<Longrightarrow> lays_out m (bs ! v) (km_nodes m ! v)"
    "v < length bs \<Longrightarrow> next_state m v label = child_or_zero (bs ! v) label"
proof -
  note c = assms [unfolded compiled_def automaton_def]
  show "trie bs path" "set (km_terms m) \<subseteq> paths bs path"
    "v < length bs \<Longrightarrow> linked (km_terms m) path bs v"
    using c by blast+
  show "length (km_nodes m) = length bs"
    using c unfolding laid_out_def by (metis list_all2_lengthD)
  show "v < length bs \<Longrightarrow> lays_out m (bs ! v) (km_nodes m ! v)"
    using c unfolding laid_out_def by (blast dest: list_all2_nthD)
  show "v < length bs \<Longrightarrow> next_state m v label = child_or_zero (bs ! v) label"
    using c by (intro next_state_children) auto
qed

text \<open>The state after a text is the node of its longest suffix in the trie.\<close>

lemma advance_longest:
  assumes c: "compiled m bs path" and "state < length bs"
  shows "\<exists>r. advance m label state = Some r \<and> r < length bs
    \<and> path r = longest (paths bs path) (path state @ [label])"
  using assms(2)
proof (induction "length (path state)" arbitrary: state rule: less_induct)
  case less
  note t = compiledD(1) [OF c]
  note nxt = compiledD(6) [OF c less.prems, of label]
  note run = advance.simps [of m label state]
  show ?case
  proof (cases "map_of (bn_children (bs ! state)) label")
    case (Some child)
    then have child: "child < length bs" "path child = path state @ [label]"
      using trieD(5) [OF t less.prems] by auto
    then have "child \<noteq> 0" using trieD(2) [OF t] by (metis append_is_Nil_conv list.distinct(1))
    moreover have "longest (paths bs path) (path state @ [label]) = path state @ [label]"
      using pathsI [OF child(1), of path] child(2) by (simp add: longest_id)
    ultimately show ?thesis using child Some by (simp add: run nxt child_or_zero_def)
  next
    case None
    then have out: "path state @ [label] \<notin> paths bs path"
      using child_in_paths [OF t less.prems] by simp
    have zero: "next_state m state label = 0" using None nxt by (simp add: child_or_zero_def)
    show ?thesis
    proof (cases "state = 0")
      case True
      then show ?thesis using out zero trieD(1,2) [OF t] by (simp add: advance.simps [of m label 0])
    next
      case False
      obtain u a where "u < length bs" "path state = path u @ [a]"
        using trieD(6) [OF t less.prems False] by blast
      then obtain b x where bx: "path state = b # x"
        by (metis append_is_Nil_conv list.distinct(1) neq_Nil_conv)
      define f where "f = kn_failure (km_nodes m ! state)"
      have "f = bn_failure (bs ! state)"
        using compiledD(5) [OF c less.prems] by (simp add: f_def lays_out_def)
      then have f: "f < length bs" "path f = longest (paths bs path) x"
        using compiledD(3) [OF c less.prems] by (simp_all add: linked_def bx)
      have shorter: "length (path f) < length (path state)"
        using length_longest [of "paths bs path" x] f(2) bx by simp
      obtain r where r: "advance m label f = Some r" "r < length bs"
          "path r = longest (paths bs path) (path f @ [label])"
        using less.hyps [OF shorter f(1)] by blast
      have "path r = longest (paths bs path) (x @ [label])"
        using r(3) f(2) longest_snoc [OF prefix_closed_paths [OF t]] by simp
      then show ?thesis using r(1,2) out bx zero False by (simp add: run f_def)
    qed
  qed
qed

lemma mark_list:
  "fold (\<lambda>i matched. if i < length matched then matched[i := True] else matched) is matched
     = map (\<lambda>i. matched ! i \<or> i \<in> set is) [0..<length matched]"
proof (induction "is" arbitrary: matched)
  case Nil
  then show ?case by (simp add: map_nth)
next
  case (Cons i "is")
  show ?case
  proof (rule nth_equalityI)
    fix j assume "j < length (fold (\<lambda>i matched. if i < length matched then matched[i := True] else matched) (i # is) matched)"
    then have "j < length matched" by (simp add: Cons.IH split: if_splits)
    then show "fold (\<lambda>i matched. if i < length matched then matched[i := True] else matched) (i # is) matched ! j
        = map (\<lambda>j. matched ! j \<or> j \<in> set (i # is)) [0..<length matched] ! j"
      by (cases "i = j") (auto simp: Cons.IH)
  qed (simp add: Cons.IH)
qed

lemma mark_outputs_slice:
  assumes "lays_out m b node"
  shows "mark_outputs m node matched = map (\<lambda>i. matched ! i \<or> i \<in> set (bn_outputs b)) [0..<length matched]"
proof -
  define start n where "start = kn_output_start node" and "n = kn_output_count node"
  have fits: "start + n \<le> length (km_outputs m)" and outs: "slice start n (km_outputs m) = bn_outputs b"
    using assms by (simp_all add: lays_out_def start_def n_def)
  have "map ((!) (km_outputs m)) [start..<start + n] = bn_outputs b"
    unfolding outs [symmetric] slice_def using fits
    by (intro nth_equalityI) auto
  then have "mark_outputs m node matched
    = fold (\<lambda>i matched. if i < length matched then matched[i := True] else matched) (bn_outputs b) matched"
    by (simp add: mark_outputs_def start_def n_def fold_map comp_def Let_def flip: \<open>map _ _ = _\<close>)
  then show ?thesis by (simp add: mark_list)
qed

lemma prefix_snoc_ex:
  "(\<exists>t. prefix t (c # rest) \<and> t \<noteq> [] \<and> Q t) \<longleftrightarrow> Q [c] \<or> (\<exists>t. prefix t rest \<and> t \<noteq> [] \<and> Q (c # t))"
proof -
  have "(\<exists>t. prefix t (c # rest) \<and> t \<noteq> [] \<and> Q t) \<longleftrightarrow> (\<exists>t. prefix t rest \<and> Q (c # t))"
    by (auto simp: prefix_Cons)
  also have "\<dots> \<longleftrightarrow> Q [c] \<or> (\<exists>t. prefix t rest \<and> t \<noteq> [] \<and> Q (c # t))"
    by (cases "Q [c]") (auto intro: exI [of _ "[]"])
  finally show ?thesis .
qed

text \<open>Scanning marks the terms that end somewhere in the text.\<close>

lemma scan_marks:
  assumes c: "compiled m bs path" and "state < length bs" "path state = longest (paths bs path) seen"
    and "length matched = length (km_terms m)"
  shows "\<exists>matched'. scan m state s matched = Some matched' \<and> length matched' = length (km_terms m)
    \<and> (\<forall>i < length (km_terms m). matched' ! i
         \<longleftrightarrow> matched ! i \<or> (\<exists>t. prefix t s \<and> t \<noteq> [] \<and> suffix (km_terms m ! i) (seen @ t)))"
  using assms(2-4)
proof (induction s arbitrary: state seen matched)
  case Nil
  then show ?case by simp
next
  case (Cons label rest)
  let ?P = "paths bs path"
  obtain r where r: "advance m label state = Some r" "r < length bs" "path r = longest ?P (path state @ [label])"
    using advance_longest [OF c Cons.prems(1)] by blast
  have pr: "path r = longest ?P (seen @ [label])"
    using r(3) Cons.prems(2) longest_snoc [OF prefix_closed_paths [OF compiledD(1) [OF c]]] by simp
  define matched1 where "matched1 = mark_outputs m (km_nodes m ! r) matched"
  have m1: "matched1 = map (\<lambda>i. matched ! i \<or> i \<in> set (bn_outputs (bs ! r))) [0..<length matched]"
    unfolding matched1_def by (rule mark_outputs_slice [OF compiledD(5) [OF c r(2)]])
  have len1: "length matched1 = length (km_terms m)" using m1 Cons.prems(3) by simp
  have hit: "matched1 ! i \<longleftrightarrow> matched ! i \<or> suffix (km_terms m ! i) (seen @ [label])"
    if i: "i < length (km_terms m)" for i
  proof -
    have "km_terms m ! i \<in> ?P" using nth_mem [OF i] compiledD(2) [OF c] by blast
    then show ?thesis
      using m1 i Cons.prems(3) compiledD(3) [OF c r(2)] pr by (simp add: linked_def suffix_longest_iff)
  qed
  obtain matched' where m': "scan m r rest matched1 = Some matched'" "length matched' = length (km_terms m)"
      "\<And>i. i < length (km_terms m) \<Longrightarrow> matched' ! i
         \<longleftrightarrow> matched1 ! i \<or> (\<exists>t. prefix t rest \<and> t \<noteq> [] \<and> suffix (km_terms m ! i) ((seen @ [label]) @ t))"
    using Cons.IH [OF r(2) pr len1] by blast
  show ?case
    using m' hit r(1) by (auto simp: matched1_def prefix_snoc_ex)
qed

lemma contains_iff: "contains s sub \<longleftrightarrow> (\<exists>t. prefix t s \<and> suffix sub t)"
proof (induction s)
  case Nil
  then show ?case by simp
next
  case (Cons c s)
  have "(\<exists>t. prefix t (c # s) \<and> suffix sub t) \<longleftrightarrow> sub = [] \<or> (\<exists>t. prefix t s \<and> suffix sub (c # t))"
    by (auto simp: prefix_Cons)
  also have "\<dots> \<longleftrightarrow> prefix sub (c # s) \<or> (\<exists>t. prefix t s \<and> suffix sub t)"
    by (auto simp: suffix_Cons prefix_Cons)
  finally show ?case using Cons by (simp add: has_prefix_iff)
qed

lemma contains_nonempty:
  "sub \<noteq> [] \<Longrightarrow> contains s sub \<longleftrightarrow> (\<exists>t. prefix t s \<and> t \<noteq> [] \<and> suffix sub t)"
  by (auto simp: contains_iff)

lemma scan_finds_terms:
  assumes c: "compiled m bs path" and terms: "[] \<notin> set (km_terms m)"
  shows "\<exists>matched. scan m 0 s (replicate (length (km_terms m)) False) = Some matched
    \<and> length matched = length (km_terms m)
    \<and> (\<forall>i < length (km_terms m). matched ! i \<longleftrightarrow> contains s (km_terms m ! i))"
proof -
  have "path 0 = longest (paths bs path) []" using trieD(2) [OF compiledD(1) [OF c]] by simp
  then obtain matched where m: "scan m 0 s (replicate (length (km_terms m)) False) = Some matched"
      "length matched = length (km_terms m)"
      "\<And>i. i < length (km_terms m) \<Longrightarrow> matched ! i
         \<longleftrightarrow> (\<exists>t. prefix t s \<and> t \<noteq> [] \<and> suffix (km_terms m ! i) t)"
    using scan_marks [OF c trieD(1) [OF compiledD(1) [OF c]], of "[]" "replicate (length (km_terms m)) False" s]
    by auto
  moreover have "km_terms m ! i \<noteq> []" if "i < length (km_terms m)" for i
    using nth_mem [OF that] terms by metis
  ultimately show ?thesis by (auto simp: contains_nonempty)
qed

end
