(* ===== verification/KeywordMatcher.thy ===== *)
theory KeywordMatcher
  imports KeywordAutomaton
begin

text \<open>
  The keyword filter of the content moderation
  (\<open>backend/internal/service/content_moderation_keyword_matcher.go\<close>): the rules an
  administrator writes, the matcher built from them, and \<open>Match\<close>; and that the automaton
  decides exactly what testing every rule on the text, one after the other, would.

  \<open>strings.ToLower\<close> is a parameter (its Unicode table is the library's); the theorems use
  of it only that a text with bytes does not become empty.  It maps a rune to one rune, so that a
  keyword whose lower case starts with the nine bytes \<open>contains:\<close> has nine bytes itself and
  the slice behind them exists.
\<close>

section \<open>\<open>strings.Split\<close> and \<open>strings.Fields\<close>\<close>

text \<open>Splitting at every \<open>&&\<close>.\<close>

fun split_ands :: "string \<Rightarrow> string \<Rightarrow> string list" where
  "split_ands cur [] = [rev cur]"
| "split_ands cur (c # cs) =
     (case cs of
        [] \<Rightarrow> split_ands (c # cur) []
      | d # ds \<Rightarrow>
          if c = CHR ''&'' \<and> d = CHR ''&'' then rev cur # split_ands [] ds
          else split_ands (c # cur) cs)"

definition flush :: "string \<Rightarrow> string list \<Rightarrow> string list" where
  "flush cur words = (if cur = [] then words else rev cur # words)"

fun fields_from :: "string \<Rightarrow> string \<Rightarrow> string list" where
  "fields_from cur [] = flush cur []"
| "fields_from cur (c # cs) =
     (if space1 c then flush cur (fields_from [] cs)
      else case cs of
        [] \<Rightarrow> fields_from (c # cur) []
      | d # ds \<Rightarrow>
          if space2 c d then flush cur (fields_from [] ds)
          else (case ds of
                  [] \<Rightarrow> fields_from (c # cur) cs
                | e # es \<Rightarrow>
                    if space3 c d e then flush cur (fields_from [] es) else fields_from (c # cur) cs))"

definition string_fields :: "string \<Rightarrow> string list" where
  "string_fields s = fields_from [] s"

definition lower_ok :: "(string \<Rightarrow> string) \<Rightarrow> bool" where
  "lower_ok lower \<longleftrightarrow> (\<forall>s. s \<noteq> [] \<longrightarrow> lower s \<noteq> [])"

section \<open>Rules\<close>

record rule_spec =
  rs_mode :: match_mode
  rs_terms :: "string list"
  rs_exact :: string
  rs_valid :: bool

definition invalid_spec :: rule_spec where
  "invalid_spec = \<lparr>rs_mode = Match_Exact, rs_terms = [], rs_exact = [], rs_valid = False\<rparr>"

definition normalize_text :: "(string \<Rightarrow> string) \<Rightarrow> string \<Rightarrow> string" where
  "normalize_text lower s = join '' '' (string_fields (lower (trim_space s)))"

fun all_terms :: "(string \<Rightarrow> string) \<Rightarrow> string list \<Rightarrow> string list \<Rightarrow> string list \<Rightarrow> string list option" where
  "all_terms lower [] seen terms = Some terms"
| "all_terms lower (raw_part # parts) seen terms =
     (let t = lower (trim_space raw_part)
      in if t = [] then None
         else if t \<in> set seen then all_terms lower parts seen terms
         else all_terms lower parts (t # seen) (terms @ [t]))"

definition parse_rule :: "(string \<Rightarrow> string) \<Rightarrow> string \<Rightarrow> rule_spec" where
  "parse_rule lower raw =
     (let keyword = trim_space raw
      in if keyword = [] then invalid_spec
         else if has_prefix (lower keyword) ''contains:'' then
           (let t = trim_space (drop (length ''contains:'') keyword)
            in if t = [] then invalid_spec
               else \<lparr>rs_mode = Match_Contains, rs_terms = [lower t], rs_exact = [], rs_valid = True\<rparr>)
         else if contains keyword ''&&'' then
           (case all_terms lower (split_ands [] keyword) [] [] of
              None \<Rightarrow> invalid_spec
            | Some terms \<Rightarrow>
                if length terms < 2 then invalid_spec
                else \<lparr>rs_mode = Match_All, rs_terms = terms, rs_exact = [], rs_valid = True\<rparr>)
         else \<lparr>rs_mode = Match_Exact, rs_terms = [], rs_exact = normalize_text lower keyword, rs_valid = True\<rparr>)"

section \<open>\<open>newContentModerationKeywordMatcher\<close>\<close>

fun intern_terms :: "string list \<Rightarrow> (string, nat) gomap \<Rightarrow> string list \<Rightarrow> nat list
  \<Rightarrow> (string, nat) gomap \<times> string list \<times> nat list" where
  "intern_terms [] termIndexes terms ids = (termIndexes, terms, ids)"
| "intern_terms (t # ts) termIndexes terms ids =
     (case map_of termIndexes t of
        Some termID \<Rightarrow> intern_terms ts termIndexes terms (ids @ [termID])
      | None \<Rightarrow>
          let termID = length terms
          in intern_terms ts (AList.update t termID termIndexes) (terms @ [t]) (ids @ [termID]))"

fun add_keywords :: "(string \<Rightarrow> string) \<Rightarrow> string list \<Rightarrow> (string, nat) gomap \<Rightarrow> string list \<Rightarrow> kw_rule list
  \<Rightarrow> string list \<times> kw_rule list" where
  "add_keywords lower [] termIndexes terms rules = (terms, rules)"
| "add_keywords lower (raw # keywords) termIndexes terms rules =
     (let keyword = trim_space raw; spec = parse_rule lower keyword
      in if keyword = [] then add_keywords lower keywords termIndexes terms rules
         else if \<not> rs_valid spec then add_keywords lower keywords termIndexes terms rules
         else
           let rule = \<lparr>kr_raw = keyword, kr_mode = rs_mode spec, kr_term_ids = [], kr_exact = rs_exact spec\<rparr>
           in if rs_mode spec = Match_Exact
              then add_keywords lower keywords termIndexes terms (rules @ [rule])
              else (case intern_terms (rs_terms spec) termIndexes terms [] of
                      (termIndexes1, terms1, ids) \<Rightarrow>
                        add_keywords lower keywords termIndexes1 terms1 (rules @ [rule\<lparr>kr_term_ids := ids\<rparr>])))"

text \<open>
  The inner option is the pointer, \<open>None\<close> for \<open>nil\<close>; the outer one is \<open>None\<close> for a loop
  of \<open>buildAutomaton\<close> that would not end.
\<close>

definition new_matcher :: "(string \<Rightarrow> string) \<Rightarrow> kw_orders \<Rightarrow> string list \<Rightarrow> kw_matcher option option" where
  "new_matcher lower orders keywords =
     (if keywords = [] then Some None
      else
        let (terms, rules) = add_keywords lower keywords [] [] []
        in if rules = [] then Some None
           else
             let m = \<lparr>km_nodes = [], km_edges = [], km_outputs = [], km_root = no_transitions,
                      km_terms = terms, km_rules = rules\<rparr>
             in if terms = [] then Some (Some m)
                else (case build_automaton orders m of
                        None \<Rightarrow> None
                      | Some m1 \<Rightarrow> Some (Some m1)))"

section \<open>\<open>Match\<close>\<close>

fun all_matched :: "nat list \<Rightarrow> bool list \<Rightarrow> bool" where
  "all_matched [] matched = True"
| "all_matched (termID # ids) matched =
     (if length matched \<le> termID \<or> \<not> matched ! termID then False else all_matched ids matched)"

definition rule_matches :: "string \<Rightarrow> bool list \<Rightarrow> kw_rule \<Rightarrow> bool" where
  "rule_matches normalized matched rule =
     (case kr_mode rule of
        Match_Exact \<Rightarrow> normalized = kr_exact rule
      | Match_Contains \<Rightarrow> length (kr_term_ids rule) = 1 \<and> matched ! (kr_term_ids rule ! 0)
      | Match_All \<Rightarrow> all_matched (kr_term_ids rule) matched)"

fun first_rule :: "string \<Rightarrow> bool list \<Rightarrow> kw_rule list \<Rightarrow> string \<times> bool" where
  "first_rule normalized matched [] = ([], False)"
| "first_rule normalized matched (rule # rules) =
     (if rule_matches normalized matched rule then (kr_raw rule, True)
      else first_rule normalized matched rules)"

definition match_text :: "(string \<Rightarrow> string) \<Rightarrow> kw_matcher option \<Rightarrow> string \<Rightarrow> (string \<times> bool) option" where
  "match_text lower mo s =
     (case mo of
        None \<Rightarrow> Some ([], False)
      | Some m \<Rightarrow>
          if s = [] \<or> km_rules m = [] then Some ([], False)
          else
            let normalized = normalize_text lower s;
                matched = replicate (length (km_terms m)) False
            in (case (if km_nodes m \<noteq> [] then scan m 0 (lower s) matched else Some matched) of
                  None \<Rightarrow> None
                | Some matched1 \<Rightarrow> Some (first_rule normalized matched1 (km_rules m))))"

text \<open>A filter built from the keywords and asked about a text.\<close>

definition filter_text :: "(string \<Rightarrow> string) \<Rightarrow> kw_orders \<Rightarrow> string list \<Rightarrow> string \<Rightarrow> (string \<times> bool) option" where
  "filter_text lower orders keywords s =
     (case new_matcher lower orders keywords of None \<Rightarrow> None | Some mo \<Rightarrow> match_text lower mo s)"

section \<open>The reference\<close>

text \<open>One keyword tested on the text without an automaton, and the first that matches.\<close>

definition keyword_matches :: "(string \<Rightarrow> string) \<Rightarrow> string \<Rightarrow> string \<Rightarrow> bool" where
  "keyword_matches lower s keyword \<longleftrightarrow>
     (let spec = parse_rule lower keyword
      in rs_valid spec
         \<and> (if rs_mode spec = Match_Exact then normalize_text lower s = rs_exact spec
            else \<forall>t \<in> set (rs_terms spec). contains (lower s) t))"

definition first_match :: "(string \<Rightarrow> string) \<Rightarrow> string list \<Rightarrow> string \<Rightarrow> string \<times> bool" where
  "first_match lower keywords s =
     (if s = [] then ([], False)
      else case find (keyword_matches lower s) (map trim_space keywords) of
        None \<Rightarrow> ([], False)
      | Some keyword \<Rightarrow> (keyword, True))"

section \<open>What the rules hold\<close>

lemma all_terms_nonempty:
  "all_terms lower parts seen terms = Some ts \<Longrightarrow> [] \<notin> set terms \<Longrightarrow> [] \<notin> set ts"
  by (induction lower parts seen terms rule: all_terms.induct) (auto simp: Let_def split: if_splits)

lemma parse_rule_terms:
  assumes "lower_ok lower" "rs_valid (parse_rule lower raw)"
  shows "[] \<notin> set (rs_terms (parse_rule lower raw))"
    "rs_mode (parse_rule lower raw) = Match_Exact \<Longrightarrow> rs_terms (parse_rule lower raw) = []"
    "rs_mode (parse_rule lower raw) = Match_Contains \<Longrightarrow> length (rs_terms (parse_rule lower raw)) = 1"
  using assms all_terms_nonempty [of lower "split_ands [] (trim_space raw)" "[]" "[]"]
  unfolding parse_rule_def lower_ok_def
  by (auto simp: invalid_spec_def Let_def split: if_splits option.splits)

lemma parse_rule_empty [simp]: "parse_rule lower [] = invalid_spec"
  by (simp add: parse_rule_def)

definition indexes :: "(string, nat) gomap \<Rightarrow> string list \<Rightarrow> bool" where
  "indexes idx terms \<longleftrightarrow> (\<forall>t i. map_of idx t = Some i \<longrightarrow> i < length terms \<and> terms ! i = t)"

lemma intern_terms_indexes:
  assumes "indexes idx terms" "intern_terms ts idx terms ids = (idx', terms', ids')"
    and "\<And>i. i \<in> set ids \<Longrightarrow> i < length terms"
  shows "indexes idx' terms' \<and> prefix terms terms' \<and> set terms' \<subseteq> set terms \<union> set ts
    \<and> (\<forall>i \<in> set ids'. i < length terms')
    \<and> map ((!) terms') ids' = map ((!) terms) ids @ ts"
  using assms
proof (induction ts idx terms ids rule: intern_terms.induct)
  case (1 idx terms ids)
  then show ?case by auto
next
  case (2 t ts idx terms ids)
  show ?case
  proof (cases "map_of idx t")
    case (Some i)
    then have i: "i < length terms" "terms ! i = t" using 2(3) by (auto simp: indexes_def)
    have "intern_terms ts idx terms (ids @ [i]) = (idx', terms', ids')" using 2(4) Some by simp
    from 2(2) [OF Some 2(3) this] show ?thesis using 2(5) i by auto
  next
    case None
    have run: "intern_terms ts (AList.update t (length terms) idx) (terms @ [t]) (ids @ [length terms]) = (idx', terms', ids')"
      using 2(4) None by (simp add: Let_def)
    have idx: "indexes (AList.update t (length terms) idx) (terms @ [t])"
      using 2(3) by (auto simp: indexes_def nth_append less_SucI)
    have "i < length (terms @ [t])" if "i \<in> set (ids @ [length terms])" for i
      using that 2(5) by fastforce
    from 2(1) [OF None refl idx run this]
    have res: "indexes idx' terms'" "prefix (terms @ [t]) terms'" "set terms' \<subseteq> set (terms @ [t]) \<union> set ts"
        "\<forall>i \<in> set ids'. i < length terms'"
        "map ((!) terms') ids' = map ((!) (terms @ [t])) (ids @ [length terms]) @ ts"
      by blast+
    have "map ((!) (terms @ [t])) ids = map ((!) terms) ids"
      using 2(5) by (simp add: nth_append)
    then show ?thesis using res append_prefixD [OF res(2)] by auto
  qed
qed

text \<open>A rule of the matcher for a keyword.\<close>

definition rule_for :: "(string \<Rightarrow> string) \<Rightarrow> string list \<Rightarrow> string \<Rightarrow> kw_rule \<Rightarrow> bool" where
  "rule_for lower terms keyword rule \<longleftrightarrow>
     kr_raw rule = keyword \<and> kr_mode rule = rs_mode (parse_rule lower keyword)
     \<and> kr_exact rule = rs_exact (parse_rule lower keyword)
     \<and> (\<forall>i \<in> set (kr_term_ids rule). i < length terms)
     \<and> map ((!) terms) (kr_term_ids rule) = rs_terms (parse_rule lower keyword)"

lemma rule_for_mono:
  assumes "prefix terms terms'" "rule_for lower terms keyword rule"
  shows "rule_for lower terms' keyword rule"
proof -
  obtain us where us: "terms' = terms @ us" using assms(1) by (auto simp: prefix_def)
  have "map ((!) terms') (kr_term_ids rule) = map ((!) terms) (kr_term_ids rule)"
    using assms(2) by (intro map_cong) (simp_all add: us rule_for_def nth_append)
  then have "map ((!) terms') (kr_term_ids rule) = rs_terms (parse_rule lower keyword)"
    using assms(2) unfolding rule_for_def by metis
  moreover have "length terms \<le> length terms'" by (simp add: us)
  ultimately show ?thesis using assms(2) unfolding rule_for_def by fastforce
qed

definition kept_keywords :: "(string \<Rightarrow> string) \<Rightarrow> string list \<Rightarrow> string list" where
  "kept_keywords lower keywords = filter (\<lambda>k. rs_valid (parse_rule lower k)) (map trim_space keywords)"

lemma add_keywords_rules:
  assumes "lower_ok lower" "indexes idx terms" "[] \<notin> set terms"
    and "list_all2 (rule_for lower terms) ks rules"
    and "add_keywords lower kws idx terms rules = (terms', rules')"
  shows "[] \<notin> set terms' \<and> list_all2 (rule_for lower terms') (ks @ kept_keywords lower kws) rules'"
  using assms
proof (induction lower kws idx terms rules arbitrary: ks rule: add_keywords.induct)
  case (1 lower idx terms rules)
  then show ?case by (simp add: kept_keywords_def)
next
  case (2 lower raw kws idx terms rules)
  define k where "k = trim_space raw"
  define spec where "spec = parse_rule lower k"
  define rule where "rule = \<lparr>kr_raw = k, kr_mode = rs_mode spec, kr_term_ids = [], kr_exact = rs_exact spec\<rparr>"
  note IH = 2(1-4) [OF k_def spec_def]
  note prems = 2(5-9)
  have step: "add_keywords lower (raw # kws) idx terms rules =
     (if k = [] then add_keywords lower kws idx terms rules
      else if \<not> rs_valid spec then add_keywords lower kws idx terms rules
      else if rs_mode spec = Match_Exact then add_keywords lower kws idx terms (rules @ [rule])
      else case intern_terms (rs_terms spec) idx terms [] of
        (idx1, terms1, ids) \<Rightarrow> add_keywords lower kws idx1 terms1 (rules @ [rule\<lparr>kr_term_ids := ids\<rparr>]))"
    by (simp add: k_def spec_def rule_def Let_def)
  show ?case
  proof (cases "rs_valid spec")
    case False
    then have "add_keywords lower kws idx terms rules = (terms', rules')"
      using prems(5) step by simp
    moreover have "kept_keywords lower (raw # kws) = kept_keywords lower kws"
      using False by (simp add: kept_keywords_def spec_def k_def)
    ultimately show ?thesis using IH(1,2) prems(1-4) False by (cases "k = []") auto
  next
    case valid: True
    then have k: "k \<noteq> []" by (auto simp: spec_def invalid_spec_def)
    have kept: "kept_keywords lower (raw # kws) = k # kept_keywords lower kws"
      using valid by (simp add: kept_keywords_def spec_def k_def)
    note terms = parse_rule_terms [OF prems(1) valid [unfolded spec_def], folded spec_def]
    show ?thesis
    proof (cases "rs_mode spec = Match_Exact")
      case True
      have run: "add_keywords lower kws idx terms (rules @ [rule]) = (terms', rules')"
        using prems(5) step k valid True by simp
      have "rule_for lower terms k rule"
        using terms(2) True by (simp add: rule_for_def rule_def spec_def)
      then have "list_all2 (rule_for lower terms) (ks @ [k]) (rules @ [rule])"
        using prems(4) by (simp add: list_all2_appendI)
      from IH(3) [OF k _ rule_def True prems(1-3) this run] valid show ?thesis by (simp add: kept)
    next
      case False
      obtain idx1 terms1 ids where i: "intern_terms (rs_terms spec) idx terms [] = (idx1, terms1, ids)"
        using prod_cases3 by blast
      have run: "add_keywords lower kws idx1 terms1 (rules @ [rule\<lparr>kr_term_ids := ids\<rparr>]) = (terms', rules')"
        using prems(5) step k valid False i by simp
      have res: "indexes idx1 terms1" "prefix terms terms1" "set terms1 \<subseteq> set terms \<union> set (rs_terms spec)"
          "\<forall>i \<in> set ids. i < length terms1" "map ((!) terms1) ids = rs_terms spec"
        using intern_terms_indexes [OF prems(2) i] by simp_all
      have "rule_for lower terms1 k (rule\<lparr>kr_term_ids := ids\<rparr>)"
        using res(4,5) by (simp add: rule_for_def rule_def spec_def)
      moreover have "list_all2 (rule_for lower terms1) ks rules"
        using prems(4) rule_for_mono [OF res(2)] by (rule list_all2_mono)
      ultimately have rules: "list_all2 (rule_for lower terms1) (ks @ [k]) (rules @ [rule\<lparr>kr_term_ids := ids\<rparr>])"
        by (simp add: list_all2_appendI)
      have "[] \<notin> set terms1" using res(3) prems(3) terms(1) by blast
      from IH(4) [OF k _ rule_def False i [symmetric] refl prems(1) res(1) this rules run] valid
      show ?thesis by (simp add: kept)
    qed
  qed
qed

section \<open>The filter decides as the reference\<close>

lemma all_matched_iff: "all_matched ids matched \<longleftrightarrow> (\<forall>i \<in> set ids. i < length matched \<and> matched ! i)"
  by (induction ids matched rule: all_matched.induct) auto

definition marks :: "string \<Rightarrow> string list \<Rightarrow> bool list \<Rightarrow> bool" where
  "marks s terms matched \<longleftrightarrow>
     length matched = length terms \<and> (\<forall>i < length terms. matched ! i \<longleftrightarrow> contains s (terms ! i))"

lemma rule_matches_keyword:
  assumes lower: "lower_ok lower" and marks: "marks (lower s) terms matched"
    and rule: "rule_for lower terms keyword rule" and valid: "rs_valid (parse_rule lower keyword)"
  shows "rule_matches (normalize_text lower s) matched rule \<longleftrightarrow> keyword_matches lower s keyword"
proof -
  let ?spec = "parse_rule lower keyword"
  have ids: "i < length terms" if "i \<in> set (kr_term_ids rule)" for i
    using rule that by (simp add: rule_for_def)
  have terms: "map ((!) terms) (kr_term_ids rule) = rs_terms ?spec" using rule by (simp add: rule_for_def)
  have mode: "kr_mode rule = rs_mode ?spec" "kr_exact rule = rs_exact ?spec" using rule by (simp_all add: rule_for_def)
  have hit: "matched ! i \<longleftrightarrow> contains (lower s) (terms ! i)" if "i \<in> set (kr_term_ids rule)" for i
    using marks ids [OF that] by (simp add: marks_def)
  have len: "length matched = length terms" using marks by (simp add: marks_def)
  have all: "(\<forall>t \<in> set (rs_terms ?spec). contains (lower s) t) \<longleftrightarrow> (\<forall>i \<in> set (kr_term_ids rule). matched ! i)"
    unfolding terms [symmetric] using hit by simp
  show ?thesis
  proof (cases "rs_mode ?spec")
    case Match_Exact
    then show ?thesis using mode valid by (simp add: rule_matches_def keyword_matches_def Let_def)
  next
    case Match_Contains
    then have "length (kr_term_ids rule) = 1"
      using parse_rule_terms(3) [OF lower valid] terms by (metis length_map)
    then obtain i where "kr_term_ids rule = [i]" by (metis One_nat_def length_0_conv length_Suc_conv)
    then show ?thesis
      using Match_Contains mode valid all by (simp add: rule_matches_def keyword_matches_def Let_def)
  next
    case Match_All
    then show ?thesis
      using mode valid all ids len by (simp add: rule_matches_def keyword_matches_def Let_def all_matched_iff)
  qed
qed

lemma first_rule_finds:
  assumes lower: "lower_ok lower" and marks: "marks (lower s) terms matched"
    and "list_all2 (rule_for lower terms) ks rules" "\<And>k. k \<in> set ks \<Longrightarrow> rs_valid (parse_rule lower k)"
  shows "first_rule (normalize_text lower s) matched rules
    = (case find (keyword_matches lower s) ks of None \<Rightarrow> ([], False) | Some k \<Rightarrow> (k, True))"
  using assms(3,4)
proof (induction rule: list_all2_induct)
  case Nil
  then show ?case by simp
next
  case (Cons k ks rule rules)
  have "rule_matches (normalize_text lower s) matched rule \<longleftrightarrow> keyword_matches lower s k"
    using Cons.hyps(1) Cons.prems by (intro rule_matches_keyword [OF lower marks]) simp_all
  then show ?case using Cons by (simp add: rule_for_def)
qed

lemma find_filter: "(\<And>x. P x \<Longrightarrow> Q x) \<Longrightarrow> find P (filter Q xs) = find P xs"
  by (induction xs) auto

lemma first_match_kept:
  "s \<noteq> [] \<Longrightarrow> first_match lower kws s
     = (case find (keyword_matches lower s) (kept_keywords lower kws) of None \<Rightarrow> ([], False) | Some k \<Rightarrow> (k, True))"
  unfolding first_match_def kept_keywords_def
  by (subst find_filter) (simp_all add: keyword_matches_def Let_def)

definition fair_orders :: "kw_orders \<Rightarrow> bool" where
  "fair_orders orders \<longleftrightarrow> fair (link_order orders) \<and> iteration_order (root_order orders)
     \<and> fair (label_order orders)"

text \<open>What the constructor returns.\<close>

definition ready :: "(string \<Rightarrow> string) \<Rightarrow> string list \<Rightarrow> kw_matcher \<Rightarrow> bool" where
  "ready lower kws m \<longleftrightarrow>
     [] \<notin> set (km_terms m) \<and> list_all2 (rule_for lower (km_terms m)) (kept_keywords lower kws) (km_rules m)
     \<and> km_rules m \<noteq> []
     \<and> (if km_nodes m = [] then km_terms m = [] else (\<exists>bs path. compiled m bs path))"

lemma new_matcher_ready:
  assumes lower: "lower_ok lower" and orders: "fair_orders orders"
  shows "\<exists>mo. new_matcher lower orders kws = Some mo
    \<and> (case mo of None \<Rightarrow> kept_keywords lower kws = [] | Some m \<Rightarrow> ready lower kws m)"
proof (cases "kws = []")
  case True
  then show ?thesis by (simp add: new_matcher_def kept_keywords_def)
next
  case False
  obtain terms rules where add: "add_keywords lower kws [] [] [] = (terms, rules)" by fastforce
  have start: "indexes [] []" "[] \<notin> set []" "list_all2 (rule_for lower []) [] []"
    by (simp_all add: indexes_def)
  have terms: "[] \<notin> set terms" and rules: "list_all2 (rule_for lower terms) (kept_keywords lower kws) rules"
    using add_keywords_rules [OF lower start add] by simp_all
  define m where "m = \<lparr>km_nodes = [], km_edges = [], km_outputs = [], km_root = no_transitions,
    km_terms = terms, km_rules = rules\<rparr>"
  consider "rules = []" | "rules \<noteq> []" "terms = []" | "rules \<noteq> []" "terms \<noteq> []" by blast
  then show ?thesis
  proof cases
    case 1
    then have "kept_keywords lower kws = []" using rules by simp
    then show ?thesis using 1 add False by (simp add: new_matcher_def)
  next
    case 2
    then have "ready lower kws m" using rules by (simp add: ready_def m_def)
    then show ?thesis using 2 add False by (simp add: new_matcher_def Let_def m_def)
  next
    case 3
    have "[] \<notin> set (km_terms m)" "km_root m = no_transitions" using terms by (simp_all add: m_def)
    then obtain m' bs path where b: "build_automaton orders m = Some m'" "compiled m' bs path"
        "km_terms m' = terms" "km_rules m' = rules"
      using build_automaton_compiled [of orders m] orders
      by (auto simp: fair_orders_def fair_def m_def)
    have "km_nodes m' \<noteq> []"
      using compiledD(4) [OF b(2)] trieD(1) [OF compiledD(1) [OF b(2)]] by auto
    then have "ready lower kws m'" using b(2-4) terms rules 3(1) by (auto simp: ready_def)
    moreover have "new_matcher lower orders kws = Some (Some m')"
      using add False 3 b(1) by (simp add: new_matcher_def m_def Let_def)
    ultimately show ?thesis by simp
  qed
qed

lemma ready_decides:
  assumes lower: "lower_ok lower" and ready: "ready lower kws m"
  shows "match_text lower (Some m) s = Some (first_match lower kws s)"
proof (cases "s = []")
  case True
  then show ?thesis by (simp add: match_text_def first_match_def)
next
  case False
  have terms: "[] \<notin> set (km_terms m)" using ready by (simp add: ready_def)
  obtain matched where run: "(if km_nodes m \<noteq> [] then scan m 0 (lower s) (replicate (length (km_terms m)) False)
        else Some (replicate (length (km_terms m)) False)) = Some matched"
      and marks: "marks (lower s) (km_terms m) matched"
  proof (cases "km_nodes m = []")
    case True
    then show ?thesis using ready that by (simp add: ready_def marks_def)
  next
    case False
    then obtain bs path where "compiled m bs path" using ready by (auto simp: ready_def)
    from scan_finds_terms [OF this terms, of "lower s"]
    obtain matched where "scan m 0 (lower s) (replicate (length (km_terms m)) False) = Some matched"
        "marks (lower s) (km_terms m) matched"
      unfolding marks_def by blast
    with False show ?thesis by (intro that) simp_all
  qed
  have rules: "list_all2 (rule_for lower (km_terms m)) (kept_keywords lower kws) (km_rules m)"
      "km_rules m \<noteq> []"
    using ready by (simp_all add: ready_def)
  have "first_rule (normalize_text lower s) matched (km_rules m) = first_match lower kws s"
    unfolding first_match_kept [OF False]
    by (rule first_rule_finds [OF lower marks rules(1)]) (simp add: kept_keywords_def)
  moreover have "match_text lower (Some m) s = Some (first_rule (normalize_text lower s) matched (km_rules m))"
    using run rules(2) False unfolding match_text_def Let_def by simp
  ultimately show ?thesis by simp
qed

text \<open>C22 (filter_equals_reference): A filter built from any list of keywords and asked about any
  text returns, in every iteration order of its maps, and its answer is that of the reference: the
  first keyword, trimmed, whose rule holds of the text when its terms are looked up in the lower-cased
  text one by one, or that there is none.\<close>

theorem filter_equals_reference:
  assumes "lower_ok lower" "fair_orders orders"
  shows "filter_text lower orders kws s = Some (first_match lower kws s)"
proof -
  obtain mo where mo: "new_matcher lower orders kws = Some mo"
      "case mo of None \<Rightarrow> kept_keywords lower kws = [] | Some m \<Rightarrow> ready lower kws m"
    using new_matcher_ready [OF assms] by blast
  show ?thesis
  proof (cases mo)
    case None
    then have "first_match lower kws s = ([], False)"
      using mo(2) first_match_kept [of s lower kws] by (cases "s = []") (simp_all add: first_match_def)
    then show ?thesis using mo(1) None by (simp add: filter_text_def match_text_def)
  next
    case (Some m)
    then show ?thesis using mo ready_decides [OF assms(1)] by (simp add: filter_text_def)
  qed
qed

definition ascii_lower :: "string \<Rightarrow> string" where
  "ascii_lower s = map to_lower_byte s"

definition stored_orders :: kw_orders where
  "stored_orders = \<lparr>link_order = \<lambda>v xs. rev xs, root_order = \<lambda>xs. xs, label_order = \<lambda>v xs. rev xs\<rparr>"

theorem filter_equals_reference_witness:
  "filter_text ascii_lower stored_orders [''he && she'', ''contains: Hers'', ''say it''] ''aHErs''
     = Some (''contains: Hers'', True)"
proof -
  have "lower_ok ascii_lower" by (simp add: lower_ok_def ascii_lower_def)
  moreover have "fair_orders stored_orders"
    by (simp add: fair_orders_def fair_def stored_orders_def iteration_order_id iteration_order_rev)
  moreover have "first_match ascii_lower [''he && she'', ''contains: Hers'', ''say it''] ''aHErs''
      = (''contains: Hers'', True)"
    by code_simp
  ultimately show ?thesis using filter_equals_reference by metis
qed

end
