(* ===== verification/RedisStore.thy ===== *)
theory RedisStore
  imports GoStrings "HOL-Library.List_Lexorder"
begin

text \<open>
  What the concurrency control uses of Redis: sorted sets and counters under string keys, with
  times to live.

  The clock is the server's, in milliseconds; a script's \<open>TIME\<close> is its whole seconds.  A key
  exists up to its expiry.  A sorted set is a map from members to scores, which are seconds and
  exact in binary64; one that becomes empty is deleted with its time to live.
\<close>

type_synonym scores = "(string, int) gomap"

record sorted_set =
  ss_members :: scores
  ss_expire :: "int option"

record redis_store =
  rd_sets :: "string \<rightharpoonup> sorted_set"
  rd_counts :: "string \<rightharpoonup> int \<times> int option"

definition not_expired :: "int \<Rightarrow> int option \<Rightarrow> bool" where
  "not_expired clock expire = (case expire of None \<Rightarrow> True | Some e \<Rightarrow> clock \<le> e)"

definition no_set :: sorted_set where
  "no_set = \<lparr>ss_members = [], ss_expire = None\<rparr>"

definition get_set :: "int \<Rightarrow> string \<Rightarrow> redis_store \<Rightarrow> sorted_set" where
  "get_set clock key db =
     (case rd_sets db key of
        None \<Rightarrow> no_set
      | Some z \<Rightarrow> if not_expired clock (ss_expire z) then z else no_set)"

definition put_set :: "string \<Rightarrow> sorted_set \<Rightarrow> redis_store \<Rightarrow> redis_store" where
  "put_set key z db =
     (if ss_members z = [] then db\<lparr>rd_sets := (rd_sets db)(key := None)\<rparr>
      else db\<lparr>rd_sets := (rd_sets db)(key \<mapsto> z)\<rparr>)"

section \<open>Commands\<close>

definition members :: "int \<Rightarrow> string \<Rightarrow> redis_store \<Rightarrow> scores" where
  "members clock key db = ss_members (get_set clock key db)"

text \<open>\<open>ZREMRANGEBYSCORE key -inf most\<close>, \<open>ZADD\<close>, \<open>ZREM\<close>, \<open>EXPIRE\<close> and \<open>DEL\<close>.\<close>

definition zremrangebyscore :: "int \<Rightarrow> string \<Rightarrow> int \<Rightarrow> redis_store \<Rightarrow> redis_store" where
  "zremrangebyscore clock key most db =
     (let z = get_set clock key db
      in put_set key (z\<lparr>ss_members := filter (\<lambda>p. most < snd p) (ss_members z)\<rparr>) db)"

definition zadd :: "int \<Rightarrow> string \<Rightarrow> int \<Rightarrow> string \<Rightarrow> redis_store \<Rightarrow> redis_store" where
  "zadd clock key score member db =
     (let z = get_set clock key db
      in put_set key (z\<lparr>ss_members := AList.update member score (ss_members z)\<rparr>) db)"

definition zrem :: "int \<Rightarrow> string \<Rightarrow> string \<Rightarrow> redis_store \<Rightarrow> redis_store" where
  "zrem clock key member db =
     (let z = get_set clock key db
      in put_set key (z\<lparr>ss_members := AList.delete member (ss_members z)\<rparr>) db)"

definition expire_set :: "int \<Rightarrow> string \<Rightarrow> int \<Rightarrow> redis_store \<Rightarrow> redis_store" where
  "expire_set clock key ttl db =
     (let z = get_set clock key db
      in if ttl \<le> 0 then put_set key no_set db
         else put_set key (z\<lparr>ss_expire := Some (clock + ttl * 1000)\<rparr>) db)"

definition del_set :: "string \<Rightarrow> redis_store \<Rightarrow> redis_store" where
  "del_set key db = put_set key no_set db"

definition zcard :: "int \<Rightarrow> string \<Rightarrow> redis_store \<Rightarrow> int" where
  "zcard clock key db = int (length (members clock key db))"

definition zscore :: "int \<Rightarrow> string \<Rightarrow> string \<Rightarrow> redis_store \<Rightarrow> int option" where
  "zscore clock key member db = map_of (members clock key db) member"

text \<open>\<open>ZRANGE key 0 -1\<close> and \<open>ZRANGEBYSCORE key -inf most LIMIT 0 n\<close>: by score, then by member.\<close>

definition in_order :: "scores \<Rightarrow> string list" where
  "in_order z = map fst (sort_key snd (sort_key fst z))"

definition zrange_all :: "int \<Rightarrow> string \<Rightarrow> redis_store \<Rightarrow> string list" where
  "zrange_all clock key db = in_order (members clock key db)"

definition zrangebyscore :: "int \<Rightarrow> string \<Rightarrow> int \<Rightarrow> nat \<Rightarrow> redis_store \<Rightarrow> string list" where
  "zrangebyscore clock key most n db = take n (in_order (filter (\<lambda>p. snd p \<le> most) (members clock key db)))"

definition get_count :: "int \<Rightarrow> string \<Rightarrow> redis_store \<Rightarrow> int option" where
  "get_count clock key db =
     (case rd_counts db key of
        None \<Rightarrow> None
      | Some (n, expire) \<Rightarrow> if not_expired clock expire then Some n else None)"

text \<open>\<open>INCR\<close> and \<open>DECR\<close> keep the time to live of a counter; \<open>EXPIRE\<close> sets it.\<close>

definition add_count :: "int \<Rightarrow> string \<Rightarrow> int \<Rightarrow> redis_store \<Rightarrow> redis_store" where
  "add_count clock key d db =
     (case rd_counts db key of
        Some (n, expire) \<Rightarrow>
          if not_expired clock expire
          then db\<lparr>rd_counts := (rd_counts db)(key \<mapsto> (n + d, expire))\<rparr>
          else db\<lparr>rd_counts := (rd_counts db)(key \<mapsto> (d, None))\<rparr>
      | None \<Rightarrow> db\<lparr>rd_counts := (rd_counts db)(key \<mapsto> (d, None))\<rparr>)"

definition expire_count :: "int \<Rightarrow> string \<Rightarrow> int \<Rightarrow> redis_store \<Rightarrow> redis_store" where
  "expire_count clock key ttl db =
     (case get_count clock key db of
        None \<Rightarrow> db
      | Some n \<Rightarrow>
          if ttl \<le> 0 then db\<lparr>rd_counts := (rd_counts db)(key := None)\<rparr>
          else db\<lparr>rd_counts := (rd_counts db)(key \<mapsto> (n, Some (clock + ttl * 1000)))\<rparr>)"

section \<open>Laws\<close>

named_theorems redis_simps \<open>what the members of a sorted set are after a command\<close>

lemma not_expired_get_set [simp]: "not_expired clock (ss_expire (get_set clock key db))"
  by (simp add: get_set_def no_set_def not_expired_def split: option.split)

lemma get_put_same:
  "not_expired clock (ss_expire z) \<Longrightarrow> ss_members (get_set clock key (put_set key z db)) = ss_members z"
  by (simp add: get_set_def put_set_def no_set_def)

lemma get_put_other: "key' \<noteq> key \<Longrightarrow> get_set clock key' (put_set key z db) = get_set clock key' db"
  by (simp add: get_set_def put_set_def)

lemma members_zadd [redis_simps]:
  "members clock key' (zadd clock key score m db)
     = (if key' = key then AList.update m score (members clock key db) else members clock key' db)"
  by (simp add: members_def zadd_def Let_def get_put_same get_put_other)

lemma members_zrem [redis_simps]:
  "members clock key' (zrem clock key m db)
     = (if key' = key then AList.delete m (members clock key db) else members clock key' db)"
  by (simp add: members_def zrem_def Let_def get_put_same get_put_other)

lemma members_zremrangebyscore [redis_simps]:
  "members clock key' (zremrangebyscore clock key most db)
     = (if key' = key then filter (\<lambda>p. most < snd p) (members clock key db) else members clock key' db)"
  by (simp add: members_def zremrangebyscore_def Let_def get_put_same get_put_other)

lemma members_del_set [redis_simps]:
  "members clock key' (del_set key db) = (if key' = key then [] else members clock key' db)"
  by (simp add: members_def del_set_def get_set_def put_set_def no_set_def)

lemma members_expire_set [redis_simps]:
  "members clock key' (expire_set clock key ttl db)
     = (if key' = key \<and> ttl \<le> 0 then [] else members clock key' db)"
  using members_del_set [of clock key' key db]
  by (cases "key' = key"; cases "ttl \<le> 0")
     (simp_all add: members_def expire_set_def del_set_def Let_def get_put_same get_put_other not_expired_def)

lemma members_counts [redis_simps]:
  "members clock key' (add_count c key d db) = members clock key' db"
  "members clock key' (expire_count c key ttl db) = members clock key' db"
  by (simp_all add: members_def get_set_def add_count_def expire_count_def split: option.split)

text \<open>A set only loses its members with the time, all at once.\<close>

lemma members_later: "clock \<le> clock' \<Longrightarrow> members clock' key db = members clock key db \<or> members clock' key db = []"
  by (auto simp: members_def get_set_def no_set_def not_expired_def split: option.split)

definition store_wf :: "redis_store \<Rightarrow> bool" where
  "store_wf db \<longleftrightarrow> (\<forall>key z. rd_sets db key = Some z \<longrightarrow> gomap_wf (ss_members z))"

lemma store_wf_members [simp]: "store_wf db \<Longrightarrow> gomap_wf (members clock key db)"
  unfolding store_wf_def members_def get_set_def no_set_def by (auto split: option.split)

lemma store_wf_put_set: "store_wf db \<Longrightarrow> gomap_wf (ss_members z) \<Longrightarrow> store_wf (put_set key z db)"
  unfolding store_wf_def put_set_def by auto

lemma store_wf_commands [simp]:
  assumes "store_wf db"
  shows "store_wf (zadd clock key score m db)" "store_wf (zrem clock key m db)"
    "store_wf (zremrangebyscore clock key most db)" "store_wf (expire_set clock key ttl db)"
    "store_wf (del_set key db)" "store_wf (add_count clock key d db)" "store_wf (expire_count clock key ttl db)"
  using assms store_wf_members [OF assms, of clock key]
  unfolding zadd_def zrem_def zremrangebyscore_def expire_set_def del_set_def members_def Let_def
  by (auto intro!: store_wf_put_set simp: no_set_def)
     (auto simp: store_wf_def add_count_def expire_count_def split: option.split)

section \<open>Members that have not outlived their time\<close>

definition in_time :: "int \<Rightarrow> int \<Rightarrow> string \<Rightarrow> redis_store \<Rightarrow> scores" where
  "in_time ttl clock key db = filter (\<lambda>p. clock div 1000 - ttl < snd p) (members clock key db)"

lemma in_time_later:
  assumes "clock \<le> clock'"
  shows "set (in_time ttl clock' key db) \<subseteq> set (in_time ttl clock key db)"
    "length (in_time ttl clock' key db) \<le> length (in_time ttl clock key db)"
proof -
  have sec: "clock div 1000 \<le> clock' div 1000" using assms by (simp add: zdiv_mono1)
  have eq: "in_time ttl clock' key db = filter (\<lambda>p. clock' div 1000 - ttl < snd p) (in_time ttl clock key db)
      \<or> in_time ttl clock' key db = []"
    using members_later [OF assms, of key db] sec
    by (auto simp: in_time_def intro!: filter_cong)
  then show "set (in_time ttl clock' key db) \<subseteq> set (in_time ttl clock key db)"
    "length (in_time ttl clock' key db) \<le> length (in_time ttl clock key db)"
    by auto
qed

end
