(* ===== verification/ConcurrencyKeys.thy ===== *)
theory ConcurrencyKeys
  imports RedisStore
begin

text \<open>
  The Redis keys and members of the concurrency control
  (\<open>backend/internal/repository/concurrency_cache.go\<close>), and that no two of them collide.
\<close>

section \<open>Keys\<close>

definition accountSlotKey :: "int \<Rightarrow> string" where
  "accountSlotKey accountID = ''concurrency:account:'' @ itoa accountID"

definition userSlotKey :: "int \<Rightarrow> string" where
  "userSlotKey userID = ''concurrency:user:'' @ itoa userID"

definition apiKeySlotKey :: "int \<Rightarrow> string" where
  "apiKeySlotKey apiKeyID = ''concurrency:api_key:'' @ itoa apiKeyID"

definition groupSlotKey :: "int \<Rightarrow> string" where
  "groupSlotKey groupID = ''concurrency:group:'' @ itoa groupID"

definition userGroupAccountSlotKey :: "int \<Rightarrow> int \<Rightarrow> string" where
  "userGroupAccountSlotKey userID groupID =
     ''concurrency:user-group-account:'' @ itoa userID @ '':'' @ itoa groupID"

definition userGroupAccountActiveUsersKey :: "int \<Rightarrow> string" where
  "userGroupAccountActiveUsersKey groupID =
     ''concurrency:user-group-account:group:'' @ itoa groupID @ '':active_users''"

definition liveAccountSlotKey :: "int \<Rightarrow> string" where
  "liveAccountSlotKey accountID = ''concurrency:live:account:'' @ itoa accountID"

definition liveUserSlotKey :: "int \<Rightarrow> string" where
  "liveUserSlotKey userID = ''concurrency:live:user:'' @ itoa userID"

definition liveAPIKeySlotKey :: "int \<Rightarrow> string" where
  "liveAPIKeySlotKey apiKeyID = ''concurrency:live:api_key:'' @ itoa apiKeyID"

definition openAIWSIngressLeaseKey :: "int \<Rightarrow> string" where
  "openAIWSIngressLeaseKey apiKeyID = ''concurrency:openai_ws_ingress:api_key:'' @ itoa apiKeyID"

definition waitQueueKey :: "int \<Rightarrow> string" where
  "waitQueueKey userID = ''concurrency:wait:'' @ itoa userID"

definition accountWaitKey :: "int \<Rightarrow> string" where
  "accountWaitKey accountID = ''wait:account:'' @ itoa accountID"

definition accountActiveIndexKey :: string where
  "accountActiveIndexKey = ''concurrency:account:active_index''"

definition userActiveIndexKey :: string where
  "userActiveIndexKey = ''concurrency:user:active_index''"

text \<open>The active indexes with the keys of their members.\<close>

record slotIndexSpec =
  indexKey :: string
  slotKey :: "int \<Rightarrow> string"
  waitKey :: "int \<Rightarrow> string"

definition accountSlotIndex :: slotIndexSpec where
  "accountSlotIndex = \<lparr>indexKey = accountActiveIndexKey, slotKey = accountSlotKey, waitKey = accountWaitKey\<rparr>"

definition userSlotIndex :: slotIndexSpec where
  "userSlotIndex = \<lparr>indexKey = userActiveIndexKey, slotKey = userSlotKey, waitKey = waitQueueKey\<rparr>"

section \<open>Members of a group's set\<close>

definition groupSlotMember :: "int \<Rightarrow> string \<Rightarrow> string" where
  "groupSlotMember accountID requestID = ''v1'' @ '':'' @ itoa accountID @ '':'' @ requestID"

text \<open>\<open>strings.SplitN (member, ":", 3)\<close>, if it has three parts.\<close>

definition split_colon :: "string \<Rightarrow> (string \<times> string) option" where
  "split_colon s =
     (case dropWhile (\<lambda>c. c \<noteq> CHR '':'') s of
        [] \<Rightarrow> None
      | c # rest \<Rightarrow> Some (takeWhile (\<lambda>c. c \<noteq> CHR '':'') s, rest))"

definition split_three :: "string \<Rightarrow> (string \<times> string \<times> string) option" where
  "split_three s =
     (case split_colon s of
        None \<Rightarrow> None
      | Some (first, rest) \<Rightarrow>
          (case split_colon rest of
             None \<Rightarrow> None
           | Some (second, third) \<Rightarrow> Some (first, second, third)))"

definition parseGroupSlotMember :: "string \<Rightarrow> int \<times> bool" where
  "parseGroupSlotMember member =
     (case split_three member of
        None \<Rightarrow> (0, False)
      | Some (version, account, request) \<Rightarrow>
          if version \<noteq> ''v1'' \<or> request = [] then (0, False)
          else (case atoi account of
                  None \<Rightarrow> (0, False)
                | Some accountID \<Rightarrow> (accountID, 0 < accountID)))"

section \<open>No collisions\<close>

lemma itoa_chars: "c \<in> set (itoa i) \<Longrightarrow> c = CHR ''-'' \<or> 48 \<le> (of_char c :: nat) \<and> (of_char c :: nat) \<le> 57"
  by (auto simp: itoa_def dest: nat_digits_digits split: if_splits)

lemma itoa_no_colon: "CHR '':'' \<notin> set (itoa i)"
  using itoa_chars by fastforce

lemma itoa_inj [simp]: "itoa i = itoa j \<longleftrightarrow> i = j"
proof
  assume eq: "itoa i = itoa j"
  have digits: "nat_digits m = nat_digits n \<Longrightarrow> m = n" for m n
    by (metis option.inject parse_nat_digits)
  have sign: "nat_digits n \<noteq> CHR ''-'' # cs" for n cs
  proof
    assume "nat_digits n = CHR ''-'' # cs"
    moreover obtain d ds where "nat_digits n = digit_char d # ds" "d < 10" using nat_digits_Cons by blast
    ultimately show False using digit_char_not_sign by (metis list.inject)
  qed
  show "i = j"
  proof (cases "i < 0"; cases "j < 0")
    assume "i < 0" "j < 0"
    then show ?thesis using eq digits [of "nat (- i)" "nat (- j)"] by (simp add: itoa_def)
  next
    assume "\<not> i < 0" "\<not> j < 0"
    then show ?thesis using eq digits [of "nat i" "nat j"] by (simp add: itoa_def)
  next
    assume "i < 0" "\<not> j < 0"
    then show ?thesis using eq sign [of "nat j"] by (metis itoa_def)
  next
    assume "\<not> i < 0" "j < 0"
    then show ?thesis using eq sign [of "nat i"] by (metis itoa_def)
  qed
qed simp

lemma itoa_not_index [simp]: "itoa i \<noteq> ''active_index''" "''active_index'' \<noteq> itoa i"
proof -
  have "itoa i = ''active_index'' \<Longrightarrow> CHR ''a'' \<in> set (itoa i)" by simp
  then show "itoa i \<noteq> ''active_index''" using itoa_chars [of "CHR ''a''" i] by auto
  then show "''active_index'' \<noteq> itoa i" by metis
qed

lemmas slot_key_defs = accountSlotKey_def userSlotKey_def apiKeySlotKey_def groupSlotKey_def
  userGroupAccountSlotKey_def userGroupAccountActiveUsersKey_def liveAccountSlotKey_def
  liveUserSlotKey_def liveAPIKeySlotKey_def openAIWSIngressLeaseKey_def
  accountActiveIndexKey_def userActiveIndexKey_def

named_theorems slot_keys \<open>the keys of the slot sets are distinct\<close>

lemma account_key_eq [slot_keys]:
  "accountSlotKey a = accountSlotKey b \<longleftrightarrow> a = b" "liveAccountSlotKey a = liveAccountSlotKey b \<longleftrightarrow> a = b"
  "userSlotKey a = userSlotKey b \<longleftrightarrow> a = b" "liveUserSlotKey a = liveUserSlotKey b \<longleftrightarrow> a = b"
  "openAIWSIngressLeaseKey a = openAIWSIngressLeaseKey b \<longleftrightarrow> a = b"
  "groupSlotKey a = groupSlotKey b \<longleftrightarrow> a = b"
  by (simp_all add: slot_key_defs)

definition other_sets :: "string set" where
  "other_sets = range apiKeySlotKey \<union> range groupSlotKey \<union> range liveAPIKeySlotKey
     \<union> range (\<lambda>(u, g). userGroupAccountSlotKey u g) \<union> range userGroupAccountActiveUsersKey
     \<union> range openAIWSIngressLeaseKey \<union> {accountActiveIndexKey, userActiveIndexKey}"

lemma slot_set_keys [slot_keys]:
  "accountSlotKey a \<noteq> liveAccountSlotKey b" "liveAccountSlotKey b \<noteq> accountSlotKey a"
  "accountSlotKey a \<noteq> userSlotKey b" "userSlotKey b \<noteq> accountSlotKey a"
  "accountSlotKey a \<noteq> liveUserSlotKey b" "liveUserSlotKey b \<noteq> accountSlotKey a"
  "liveAccountSlotKey a \<noteq> userSlotKey b" "userSlotKey b \<noteq> liveAccountSlotKey a"
  "liveAccountSlotKey a \<noteq> liveUserSlotKey b" "liveUserSlotKey b \<noteq> liveAccountSlotKey a"
  "userSlotKey a \<noteq> liveUserSlotKey b" "liveUserSlotKey b \<noteq> userSlotKey a"
  by (simp_all add: slot_key_defs)

lemma other_set_keys [slot_keys]:
  "accountSlotKey a \<notin> other_sets" "liveAccountSlotKey a \<notin> other_sets"
  "userSlotKey a \<notin> other_sets" "liveUserSlotKey a \<notin> other_sets"
  unfolding other_sets_def by (auto simp: slot_key_defs)

lemma member_other_sets [slot_keys]:
  "apiKeySlotKey k \<in> other_sets" "groupSlotKey k \<in> other_sets" "liveAPIKeySlotKey k \<in> other_sets"
  "userGroupAccountSlotKey u k \<in> other_sets" "userGroupAccountActiveUsersKey k \<in> other_sets"
  "openAIWSIngressLeaseKey k \<in> other_sets" "accountActiveIndexKey \<in> other_sets" "userActiveIndexKey \<in> other_sets"
  unfolding other_sets_def by auto

section \<open>Reading a member back\<close>

lemma split_colon_append: "CHR '':'' \<notin> set s \<Longrightarrow> split_colon (s @ CHR '':'' # rest) = Some (s, rest)"
proof -
  assume "CHR '':'' \<notin> set s"
  then have "\<forall>c \<in> set s. c \<noteq> CHR '':''" by auto
  then show ?thesis by (simp add: split_colon_def dropWhile_append2 takeWhile_append2)
qed

lemma split_groupSlotMember: "split_three (groupSlotMember i r) = Some (''v1'', itoa i, r)"
  using split_colon_append [of "''v1''" "itoa i @ CHR '':'' # r"] split_colon_append [OF itoa_no_colon, of i r]
  by (simp add: split_three_def groupSlotMember_def)

lemma groupSlotMember_inj [simp]: "groupSlotMember i r = groupSlotMember j q \<longleftrightarrow> i = j \<and> r = q"
  by (metis split_groupSlotMember itoa_inj option.inject prod.inject)

text \<open>The member written for an account and a request is read back as that
  account, whatever characters the request's identifier has; and members of different accounts or
  requests are different.\<close>

theorem group_member_roundtrip:
  assumes "0 < accountID" "accountID < 2 ^ 63" "requestID \<noteq> []"
  shows "parseGroupSlotMember (groupSlotMember accountID requestID) = (accountID, True)
    \<and> (groupSlotMember accountID' requestID' = groupSlotMember accountID requestID
         \<longleftrightarrow> accountID' = accountID \<and> requestID' = requestID)"
proof
  show "parseGroupSlotMember (groupSlotMember accountID requestID) = (accountID, True)"
    using assms by (simp add: parseGroupSlotMember_def split_groupSlotMember atoi_itoa)
qed simp

theorem group_member_roundtrip_witness:
  "parseGroupSlotMember (groupSlotMember 42 ''r1:x'') = (42, True)
   \<and> groupSlotMember 42 ''r1:x'' = ''v1:42:r1:x''"
proof -
  have "groupSlotMember 42 ''r1:x'' = ''v1:42:r1:x''" by code_simp
  then show ?thesis using group_member_roundtrip [of 42 "''r1:x''" 42 "''r1:x''"] by simp
qed

end
