(* ===== verification/ConcurrencyCache.thy ===== *)
theory ConcurrencyCache
  imports ConcurrencyKeys "HOL-Library.Signed_Division"
begin

text \<open>
  The concurrency control on Redis (\<open>backend/internal/repository/concurrency_cache.go\<close>): slots
  of accounts and users with their Live leases, WebSocket leases, displayed group slots, wait
  counters and the active indexes.

  An operation is a sequence of calls to the server, each with its own clock reading and outcome:
  it is executed and answered, or not executed, or executed and its answer lost.  A script and
  each pipeline is one call; log output and the nil receiver are left out.
\<close>

section \<open>Calls\<close>

datatype call_outcome = Answered | NotExecuted | AnswerLost

datatype conc_error = RedisFailed | CacheUnavailable

type_synonym conc_env = "nat \<Rightarrow> call_outcome \<times> int"
type_synonym 'a command = "int \<Rightarrow> redis_store \<Rightarrow> 'a \<times> redis_store"
type_synonym 'a conc = "redis_store \<Rightarrow> (conc_error + 'a) \<times> redis_store"

definition call :: "conc_env \<Rightarrow> nat \<Rightarrow> 'a command \<Rightarrow> 'a conc" where
  "call env n f db =
     (case env n of (outcome, clock) \<Rightarrow>
        (case outcome of
           Answered \<Rightarrow> (case f clock db of (r, db1) \<Rightarrow> (Inr r, db1))
         | NotExecuted \<Rightarrow> (Inl RedisFailed, db)
         | AnswerLost \<Rightarrow> (Inl RedisFailed, snd (f clock db))))"

definition seconds :: "int \<Rightarrow> int" where
  "seconds clock = clock div 1000"

record conc_conf =
  slotTTLSeconds :: int
  waitQueueTTLSeconds :: int

definition NewConcurrencyCache :: "int \<Rightarrow> int \<Rightarrow> conc_conf" where
  "NewConcurrencyCache slotTTLMinutes waitTTL =
     (let minutes = (if slotTTLMinutes \<le> 0 then 15 else slotTTLMinutes)
      in \<lparr>slotTTLSeconds = minutes * 60, waitQueueTTLSeconds = (if waitTTL \<le> 0 then minutes * 60 else waitTTL)\<rparr>)"

definition liveLeaseTTLSeconds :: int where
  "liveLeaseTTLSeconds = 60"

definition openAIWSIngressLeaseTTLSeconds :: int where
  "openAIWSIngressLeaseTTLSeconds = 60"

definition groupSlotTTLSeconds :: int where
  "groupSlotTTLSeconds = 75"

section \<open>Scripts\<close>

definition acquireScript :: "string \<Rightarrow> string \<Rightarrow> int \<Rightarrow> int \<Rightarrow> string \<Rightarrow> (int \<times> int) command" where
  "acquireScript key liveKey maxConcurrency ttl requestID clock db =
     (let now = seconds clock;
          db1 = zremrangebyscore clock liveKey (now - 60) (zremrangebyscore clock key (now - ttl) db);
          taken = expire_set clock key ttl (zadd clock key now requestID db1)
      in if zscore clock key requestID db1 \<noteq> None then ((1, now), taken)
         else if zcard clock key db1 + zcard clock liveKey db1 < maxConcurrency then ((1, now), taken)
         else ((0, now), db1))"

definition getCountScript :: "string \<Rightarrow> string \<Rightarrow> int \<Rightarrow> int command" where
  "getCountScript key liveKey ttl clock db =
     (let now = seconds clock;
          db1 = zremrangebyscore clock liveKey (now - 60) (zremrangebyscore clock key (now - ttl) db)
      in (zcard clock key db1 + zcard clock liveKey db1, db1))"

text \<open>The keys of a Live lease: the slots of the account and of the user, and the three live sets.\<close>

record lease_keys =
  accountRegular :: string
  accountLive :: string
  userRegular :: string
  userLive :: string
  apiLive :: string

definition acquireLiveLeaseScript ::
  "lease_keys \<Rightarrow> int \<Rightarrow> int \<Rightarrow> int \<Rightarrow> string \<Rightarrow> int \<Rightarrow> int command" where
  "acquireLiveLeaseScript ks accountMax userMax ttl leaseID replacing clock db =
     (let now = seconds clock;
          db1 = zremrangebyscore clock (apiLive ks) (now - ttl)
                  (zremrangebyscore clock (userLive ks) (now - ttl)
                    (zremrangebyscore clock (accountLive ks) (now - ttl) db))
      in if zscore clock (accountLive ks) leaseID db1 \<noteq> None then (1, db1)
         else
           let accountCount = zcard clock (accountRegular ks) db1 + zcard clock (accountLive ks) db1;
               userCount = zcard clock (userRegular ks) db1 + zcard clock (userLive ks) db1;
               allowance = (if replacing = 1 then 1 else 0)
           in if accountMax > 0 \<and> accountCount \<ge> accountMax + allowance then (0, db1)
              else if userMax > 0 \<and> userCount \<ge> userMax + allowance then (0, db1)
              else
                let db2 = zadd clock (apiLive ks) now leaseID
                            (zadd clock (userLive ks) now leaseID (zadd clock (accountLive ks) now leaseID db1))
                in (1, expire_set clock (apiLive ks) ttl
                         (expire_set clock (userLive ks) ttl (expire_set clock (accountLive ks) ttl db2))))"

fun lease_present :: "string list \<Rightarrow> int \<Rightarrow> string \<Rightarrow> bool command" where
  "lease_present [] expireBefore leaseID clock db = (True, db)"
| "lease_present (key # keys) expireBefore leaseID clock db =
     (let db1 = zremrangebyscore clock key expireBefore db
      in if zscore clock key leaseID db1 = None then (False, db1)
         else lease_present keys expireBefore leaseID clock db1)"

fun lease_renew :: "string list \<Rightarrow> int \<Rightarrow> string \<Rightarrow> int \<Rightarrow> redis_store \<Rightarrow> redis_store" where
  "lease_renew [] ttl leaseID clock db = db"
| "lease_renew (key # keys) ttl leaseID clock db =
     lease_renew keys ttl leaseID clock (expire_set clock key ttl (zadd clock key (seconds clock) leaseID db))"

definition refreshLiveLeaseScript :: "string list \<Rightarrow> int \<Rightarrow> string \<Rightarrow> int command" where
  "refreshLiveLeaseScript keys ttl leaseID clock db =
     (case lease_present keys (seconds clock - ttl) leaseID clock db of
        (present, db1) \<Rightarrow> if present then (1, lease_renew keys ttl leaseID clock db1) else (0, db1))"

definition trackSlotScript :: "string \<Rightarrow> int \<Rightarrow> string \<Rightarrow> unit command" where
  "trackSlotScript key ttl requestID clock db =
     (let now = seconds clock
      in ((), expire_set clock key ttl (zadd clock key now requestID (zremrangebyscore clock key (now - ttl) db))))"

definition groupAccountSnapshotScript :: "string \<Rightarrow> int \<Rightarrow> (int \<times> string list) command" where
  "groupAccountSnapshotScript key ttl clock db =
     (let now = seconds clock; db1 = zremrangebyscore clock key (now - ttl) db
      in ((now, zrange_all clock key db1), db1))"

definition acquireOpenAIWSIngressLeaseScript :: "string \<Rightarrow> int \<Rightarrow> int \<Rightarrow> string \<Rightarrow> int command" where
  "acquireOpenAIWSIngressLeaseScript key maxConnections ttl leaseID clock db =
     (let now = seconds clock;
          db1 = zremrangebyscore clock key (now - ttl) db;
          taken = expire_set clock key ttl (zadd clock key now leaseID db1)
      in if zscore clock key leaseID db1 \<noteq> None then (1, taken)
         else if zcard clock key db1 < maxConnections then (1, taken)
         else (0, db1))"

definition refreshOpenAIWSIngressLeaseScript :: "string \<Rightarrow> int \<Rightarrow> string \<Rightarrow> int command" where
  "refreshOpenAIWSIngressLeaseScript key ttl leaseID clock db =
     (let now = seconds clock; db1 = zremrangebyscore clock key (now - ttl) db
      in if zscore clock key leaseID db1 = None then (0, db1)
         else (1, expire_set clock key ttl (zadd clock key now leaseID db1)))"

definition incrementWaitScript :: "string \<Rightarrow> int \<Rightarrow> int \<Rightarrow> (int \<times> int) command" where
  "incrementWaitScript key maxWait ttl clock db =
     (let current = (case get_count clock key db of None \<Rightarrow> 0 | Some n \<Rightarrow> n);
          now = seconds clock
      in if current \<ge> maxWait then ((0, now), db)
         else ((1, now), expire_count clock key ttl (add_count clock key 1 db)))"

definition incrementAccountWaitScript :: "string \<Rightarrow> int \<Rightarrow> int \<Rightarrow> (int \<times> int) command" where
  "incrementAccountWaitScript key maxWait ttl clock db =
     (let current = (case get_count clock key db of None \<Rightarrow> 0 | Some n \<Rightarrow> n);
          now = seconds clock
      in if current \<ge> maxWait then ((0, now), db)
         else ((1, now), expire_count clock key ttl (add_count clock key 1 db)))"

definition decrementWaitScript :: "string \<Rightarrow> unit command" where
  "decrementWaitScript key clock db =
     ((), case get_count clock key db of
            None \<Rightarrow> db | Some n \<Rightarrow> if n > 0 then add_count clock key (- 1) db else db)"

definition cleanupExpiredSlotsScript :: "string \<Rightarrow> int \<Rightarrow> unit command" where
  "cleanupExpiredSlotsScript key ttl clock db =
     (let now = seconds clock; db1 = zremrangebyscore clock key (now - ttl) db
      in ((), if zcard clock key db1 = 0 then del_set key db1 else expire_set clock key ttl db1))"

section \<open>The active indexes\<close>

text \<open>Keeping an index is best effort: a call that fails is only logged.\<close>

definition touchActiveIndexAt :: "conc_env \<Rightarrow> nat \<Rightarrow> string \<Rightarrow> int \<Rightarrow> int \<Rightarrow> redis_store \<Rightarrow> redis_store" where
  "touchActiveIndexAt env n index i expireAt db =
     (if i \<le> 0 \<or> expireAt \<le> 0 then db
      else snd (call env n (\<lambda>clock db. ((), zadd clock index expireAt (itoa i) db)) db))"

definition redisUnixSeconds :: "conc_env \<Rightarrow> nat \<Rightarrow> int conc" where
  "redisUnixSeconds env n = call env n (\<lambda>clock db. (seconds clock, db))"

definition activeIndexTTL :: "conc_conf \<Rightarrow> int \<Rightarrow> int \<Rightarrow> int" where
  "activeIndexTTL conf slotCount waitCount =
     (let ttl = (if slotCount > 0 then slotTTLSeconds conf else 0)
      in if waitCount > 0 \<and> waitQueueTTLSeconds conf > ttl then waitQueueTTLSeconds conf else ttl)"

record activeIndexLoad =
  load_id :: int
  load_member :: string
  slotCount :: int
  waitCount :: int

definition positive_count :: "int option \<Rightarrow> int" where
  "positive_count c = (case c of None \<Rightarrow> 0 | Some v \<Rightarrow> if v > 0 then v else 0)"

definition readActiveLoadForKey ::
  "conc_conf \<Rightarrow> conc_env \<Rightarrow> nat \<Rightarrow> int \<Rightarrow> string \<Rightarrow> string \<Rightarrow> int \<Rightarrow> activeIndexLoad conc" where
  "readActiveLoadForKey conf env n i slots waits now =
     call env n (\<lambda>clock db.
       let db1 = zremrangebyscore clock slots (now - slotTTLSeconds conf) db
       in (\<lparr>load_id = i, load_member = itoa i, slotCount = zcard clock slots db1,
            waitCount = positive_count (get_count clock waits db1)\<rparr>, db1))"

definition refreshActiveIndex ::
  "conc_conf \<Rightarrow> conc_env \<Rightarrow> nat \<Rightarrow> string \<Rightarrow> int \<Rightarrow> string \<Rightarrow> string \<Rightarrow> redis_store \<Rightarrow> redis_store" where
  "refreshActiveIndex conf env n index i slots waits db =
     (if i \<le> 0 then db
      else case redisUnixSeconds env n db of
        (Inl e, db1) \<Rightarrow> db1
      | (Inr now, db1) \<Rightarrow>
          (case readActiveLoadForKey conf env (n + 1) i slots waits now db1 of
             (Inl e, db2) \<Rightarrow> db2
           | (Inr load, db2) \<Rightarrow>
               if slotCount load = 0 \<and> waitCount load \<le> 0
               then snd (call env (n + 2) (\<lambda>clock db. ((), zrem clock index (itoa i) db)) db2)
               else
                 let ttl = activeIndexTTL conf (slotCount load) (waitCount load)
                 in if ttl \<le> 0 then db2 else touchActiveIndexAt env (n + 2) index i (now + ttl) db2))"

definition refreshAccountActiveIndex :: "conc_conf \<Rightarrow> conc_env \<Rightarrow> nat \<Rightarrow> int \<Rightarrow> redis_store \<Rightarrow> redis_store" where
  "refreshAccountActiveIndex conf env n accountID =
     refreshActiveIndex conf env n accountActiveIndexKey accountID (accountSlotKey accountID) (accountWaitKey accountID)"

definition refreshUserActiveIndex :: "conc_conf \<Rightarrow> conc_env \<Rightarrow> nat \<Rightarrow> int \<Rightarrow> redis_store \<Rightarrow> redis_store" where
  "refreshUserActiveIndex conf env n userID =
     refreshActiveIndex conf env n userActiveIndexKey userID (userSlotKey userID) (waitQueueKey userID)"

section \<open>Slots\<close>

definition AcquireAccountSlot :: "conc_conf \<Rightarrow> conc_env \<Rightarrow> int \<Rightarrow> int \<Rightarrow> string \<Rightarrow> bool conc" where
  "AcquireAccountSlot conf env accountID maxConcurrency requestID db =
     (case call env 0 (acquireScript (accountSlotKey accountID) (liveAccountSlotKey accountID)
                         maxConcurrency (slotTTLSeconds conf) requestID) db of
        (Inl e, db1) \<Rightarrow> (Inl e, db1)
      | (Inr (result, now), db1) \<Rightarrow>
          (Inr (result = 1),
           if result = 1
           then touchActiveIndexAt env 1 accountActiveIndexKey accountID (now + slotTTLSeconds conf) db1
           else db1))"

definition ReleaseAccountSlot :: "conc_conf \<Rightarrow> conc_env \<Rightarrow> int \<Rightarrow> string \<Rightarrow> unit conc" where
  "ReleaseAccountSlot conf env accountID requestID db =
     (case call env 0 (\<lambda>clock db. ((), zrem clock (accountSlotKey accountID) requestID db)) db of
        (Inl e, db1) \<Rightarrow> (Inl e, db1)
      | (Inr u, db1) \<Rightarrow> (Inr (), refreshAccountActiveIndex conf env 1 accountID db1))"

definition GetAccountConcurrency :: "conc_conf \<Rightarrow> conc_env \<Rightarrow> int \<Rightarrow> int conc" where
  "GetAccountConcurrency conf env accountID =
     call env 0 (getCountScript (accountSlotKey accountID) (liveAccountSlotKey accountID) (slotTTLSeconds conf))"

definition AcquireUserSlot :: "conc_conf \<Rightarrow> conc_env \<Rightarrow> int \<Rightarrow> int \<Rightarrow> string \<Rightarrow> bool conc" where
  "AcquireUserSlot conf env userID maxConcurrency requestID db =
     (case call env 0 (acquireScript (userSlotKey userID) (liveUserSlotKey userID)
                         maxConcurrency (slotTTLSeconds conf) requestID) db of
        (Inl e, db1) \<Rightarrow> (Inl e, db1)
      | (Inr (result, now), db1) \<Rightarrow>
          (Inr (result = 1),
           if result = 1
           then touchActiveIndexAt env 1 userActiveIndexKey userID (now + slotTTLSeconds conf) db1
           else db1))"

definition ReleaseUserSlot :: "conc_conf \<Rightarrow> conc_env \<Rightarrow> int \<Rightarrow> string \<Rightarrow> unit conc" where
  "ReleaseUserSlot conf env userID requestID db =
     (case call env 0 (\<lambda>clock db. ((), zrem clock (userSlotKey userID) requestID db)) db of
        (Inl e, db1) \<Rightarrow> (Inl e, db1)
      | (Inr u, db1) \<Rightarrow> (Inr (), refreshUserActiveIndex conf env 1 userID db1))"

definition GetUserConcurrency :: "conc_conf \<Rightarrow> conc_env \<Rightarrow> int \<Rightarrow> int conc" where
  "GetUserConcurrency conf env userID =
     call env 0 (getCountScript (userSlotKey userID) (liveUserSlotKey userID) (slotTTLSeconds conf))"

text \<open>The pipelines of the batch reads: for every identifier its sets are pruned and counted.\<close>

fun count_sets :: "(int \<Rightarrow> (string \<times> int) list) \<Rightarrow> int list \<Rightarrow> (int \<times> int) list command" where
  "count_sets sets [] clock db = ([], db)"
| "count_sets sets (i # ids) clock db =
     (let db1 = fold (\<lambda>(key, cutoff). zremrangebyscore clock key cutoff) (sets i) db;
          n = sum_list (map (\<lambda>(key, cutoff). zcard clock key db1) (sets i))
      in case count_sets sets ids clock db1 of (counts, db2) \<Rightarrow> ((i, n) # counts, db2))"

definition result_map :: "(int \<times> 'a) list \<Rightarrow> int \<rightharpoonup> 'a" where
  "result_map counts = fold (\<lambda>(i, n) m. m(i \<mapsto> n)) counts Map.empty"

definition GetAccountConcurrencyBatch :: "conc_conf \<Rightarrow> conc_env \<Rightarrow> int list \<Rightarrow> (int \<rightharpoonup> int) conc" where
  "GetAccountConcurrencyBatch conf env accountIDs db =
     (if accountIDs = [] then (Inr Map.empty, db)
      else case redisUnixSeconds env 0 db of
        (Inl e, db1) \<Rightarrow> (Inl e, db1)
      | (Inr now, db1) \<Rightarrow>
          (case call env 1 (count_sets (\<lambda>i. [(accountSlotKey i, now - slotTTLSeconds conf),
                                            (liveAccountSlotKey i, now - liveLeaseTTLSeconds)]) accountIDs) db1 of
             (Inl e, db2) \<Rightarrow> (Inl e, db2)
           | (Inr counts, db2) \<Rightarrow> (Inr (result_map counts), db2)))"

definition GetAPIKeyConcurrencyBatch :: "conc_conf \<Rightarrow> conc_env \<Rightarrow> int list \<Rightarrow> (int \<rightharpoonup> int) conc" where
  "GetAPIKeyConcurrencyBatch conf env apiKeyIDs db =
     (if apiKeyIDs = [] then (Inr Map.empty, db)
      else case redisUnixSeconds env 0 db of
        (Inl e, db1) \<Rightarrow> (Inl e, db1)
      | (Inr now, db1) \<Rightarrow>
          (case call env 1 (count_sets (\<lambda>i. [(apiKeySlotKey i, now - slotTTLSeconds conf),
                                            (liveAPIKeySlotKey i, now - liveLeaseTTLSeconds)]) apiKeyIDs) db1 of
             (Inl e, db2) \<Rightarrow> (Inl e, db2)
           | (Inr counts, db2) \<Rightarrow> (Inr (result_map counts), db2)))"

definition GetGroupConcurrencyBatch :: "conc_env \<Rightarrow> int list \<Rightarrow> (int \<rightharpoonup> int) conc" where
  "GetGroupConcurrencyBatch env groupIDs db =
     (if groupIDs = [] then (Inr Map.empty, db)
      else case redisUnixSeconds env 0 db of
        (Inl e, db1) \<Rightarrow> (Inl e, db1)
      | (Inr now, db1) \<Rightarrow>
          (case call env 1 (count_sets (\<lambda>i. [(groupSlotKey i, now - groupSlotTTLSeconds)]) groupIDs) db1 of
             (Inl e, db2) \<Rightarrow> (Inl e, db2)
           | (Inr counts, db2) \<Rightarrow> (Inr (result_map counts), db2)))"

section \<open>Displayed slots\<close>

definition TrackAPIKeySlot :: "conc_conf \<Rightarrow> conc_env \<Rightarrow> int \<Rightarrow> string \<Rightarrow> unit conc" where
  "TrackAPIKeySlot conf env apiKeyID requestID =
     call env 0 (trackSlotScript (apiKeySlotKey apiKeyID) (slotTTLSeconds conf) requestID)"

definition ReleaseAPIKeySlot :: "conc_env \<Rightarrow> int \<Rightarrow> string \<Rightarrow> unit conc" where
  "ReleaseAPIKeySlot env apiKeyID requestID =
     call env 0 (\<lambda>clock db. ((), zrem clock (apiKeySlotKey apiKeyID) requestID db))"

definition TrackGroupSlot :: "conc_env \<Rightarrow> int \<Rightarrow> int \<Rightarrow> string \<Rightarrow> unit conc" where
  "TrackGroupSlot env groupID accountID requestID db =
     (if groupID \<le> 0 \<or> accountID \<le> 0 \<or> requestID = [] then (Inr (), db)
      else call env 0 (trackSlotScript (groupSlotKey groupID) groupSlotTTLSeconds
                         (groupSlotMember accountID requestID)) db)"

definition ReleaseGroupSlot :: "conc_env \<Rightarrow> int \<Rightarrow> int \<Rightarrow> string \<Rightarrow> unit conc" where
  "ReleaseGroupSlot env groupID accountID requestID db =
     (if groupID \<le> 0 \<or> accountID \<le> 0 \<or> requestID = [] then (Inr (), db)
      else call env 0 (\<lambda>clock db.
             ((), zrem clock (groupSlotKey groupID) (groupSlotMember accountID requestID) db)) db)"

text \<open>The expiry in the index of active users is of the local clock \<open>local_now\<close>, in seconds.\<close>

definition TrackUserGroupAccountSlot :: "int \<Rightarrow> conc_env \<Rightarrow> int \<Rightarrow> int \<Rightarrow> int \<Rightarrow> string \<Rightarrow> unit conc" where
  "TrackUserGroupAccountSlot local_now env userID groupID accountID requestID db =
     (if userID \<le> 0 \<or> groupID \<le> 0 \<or> accountID \<le> 0 \<or> requestID = [] then (Inr (), db)
      else case call env 0 (trackSlotScript (userGroupAccountSlotKey userID groupID) groupSlotTTLSeconds
                              (groupSlotMember accountID requestID)) db of
        (Inl e, db1) \<Rightarrow> (Inl e, db1)
      | (Inr u, db1) \<Rightarrow>
          let index = userGroupAccountActiveUsersKey groupID
          in case call env 1 (\<lambda>clock db. ((), zadd clock index (local_now + groupSlotTTLSeconds) (itoa userID) db)) db1 of
               (Inl e, db2) \<Rightarrow> (Inr (), db2)
             | (Inr u, db2) \<Rightarrow>
                 (Inr (), snd (call env 2 (\<lambda>clock db. ((), expire_set clock index groupSlotTTLSeconds db)) db2)))"

definition ReleaseUserGroupAccountSlot :: "conc_env \<Rightarrow> int \<Rightarrow> int \<Rightarrow> int \<Rightarrow> string \<Rightarrow> unit conc" where
  "ReleaseUserGroupAccountSlot env userID groupID accountID requestID db =
     (if userID \<le> 0 \<or> groupID \<le> 0 \<or> accountID \<le> 0 \<or> requestID = [] then (Inr (), db)
      else call env 0 (\<lambda>clock db.
             ((), zrem clock (userGroupAccountSlotKey userID groupID) (groupSlotMember accountID requestID) db)) db)"

text \<open>The counts of the members that can be read, and whether all of them could.\<close>

fun count_members :: "string list \<Rightarrow> (int \<rightharpoonup> int) \<Rightarrow> bool \<Rightarrow> (int \<rightharpoonup> int) \<times> bool" where
  "count_members [] counts complete = (counts, complete)"
| "count_members (member # ms) counts complete =
     (case parseGroupSlotMember member of (accountID, ok) \<Rightarrow>
        if \<not> ok then count_members ms counts False
        else count_members ms
               (counts(accountID \<mapsto> (case counts accountID of None \<Rightarrow> 0 | Some n \<Rightarrow> n) + 1)) complete)"

definition GetGroupAccountConcurrency :: "conc_env \<Rightarrow> int \<Rightarrow> ((int \<rightharpoonup> int) \<times> bool \<times> int) conc" where
  "GetGroupAccountConcurrency env groupID db =
     (if groupID \<le> 0 then (Inl CacheUnavailable, db)
      else case call env 0 (groupAccountSnapshotScript (groupSlotKey groupID) groupSlotTTLSeconds) db of
        (Inl e, db1) \<Rightarrow> (Inl e, db1)
      | (Inr (snapshot, ms), db1) \<Rightarrow>
          (case count_members ms Map.empty True of (counts, complete) \<Rightarrow>
             (Inr (counts, complete, snapshot), db1)))"

text \<open>The users of a group's index: of each a set is pruned and listed, of one whose identifier
  cannot be read nothing.\<close>

definition user_of_member :: "string \<Rightarrow> int option" where
  "user_of_member member =
     (case atoi member of None \<Rightarrow> None | Some i \<Rightarrow> if i \<le> 0 then None else Some i)"

fun list_user_sets :: "int \<Rightarrow> int \<Rightarrow> string list \<Rightarrow> (int \<times> string list) list command" where
  "list_user_sets groupID cutoff [] clock db = ([], db)"
| "list_user_sets groupID cutoff (m # ms) clock db =
     (case user_of_member m of
        None \<Rightarrow> list_user_sets groupID cutoff ms clock db
      | Some userID \<Rightarrow>
          let key = userGroupAccountSlotKey userID groupID;
              db1 = zremrangebyscore clock key cutoff db
          in case list_user_sets groupID cutoff ms clock db1 of
               (sets, db2) \<Rightarrow> ((userID, zrange_all clock key db1) # sets, db2))"

fun count_users :: "(int \<times> string list) list \<Rightarrow> (int \<rightharpoonup> int \<rightharpoonup> int) \<Rightarrow> bool \<Rightarrow> (int \<rightharpoonup> int \<rightharpoonup> int) \<times> bool" where
  "count_users [] counts complete = (counts, complete)"
| "count_users ((userID, ms) # sets) counts complete =
     (case count_members ms Map.empty complete of (accountCounts, complete1) \<Rightarrow>
        count_users sets
          (if \<exists>m \<in> set ms. snd (parseGroupSlotMember m) then counts(userID \<mapsto> accountCounts) else counts)
          complete1)"

definition GetUserGroupAccountConcurrency ::
  "conc_env \<Rightarrow> int \<Rightarrow> ((int \<rightharpoonup> int \<rightharpoonup> int) \<times> bool \<times> int) conc" where
  "GetUserGroupAccountConcurrency env groupID db =
     (if groupID \<le> 0 then (Inl CacheUnavailable, db)
      else case redisUnixSeconds env 0 db of
        (Inl e, db1) \<Rightarrow> (Inl e, db1)
      | (Inr now, db1) \<Rightarrow>
          let index = userGroupAccountActiveUsersKey groupID
          in case call env 1 (\<lambda>clock db. ((), zremrangebyscore clock index now db)) db1 of
               (Inl e, db2) \<Rightarrow> (Inl e, db2)
             | (Inr u, db2) \<Rightarrow>
                 (case call env 2 (\<lambda>clock db. (zrange_all clock index db, db)) db2 of
                    (Inl e, db3) \<Rightarrow> (Inl e, db3)
                  | (Inr users, db3) \<Rightarrow>
                      let valid = filter (\<lambda>m. user_of_member m \<noteq> None) users;
                          complete = (valid = users)
                      in case (if valid = [] then (Inr [], db3)
                               else call env 3 (list_user_sets groupID (now - groupSlotTTLSeconds) users) db3) of
                           (Inl e, db4) \<Rightarrow> (Inl e, db4)
                         | (Inr sets, db4) \<Rightarrow>
                             (case count_users sets Map.empty complete of
                                (counts, complete1) \<Rightarrow> (Inr (counts, complete1, now), db4))))"

section \<open>Leases\<close>

definition AcquireOpenAIWSIngressLease :: "conc_env \<Rightarrow> int \<Rightarrow> int \<Rightarrow> string \<Rightarrow> bool conc" where
  "AcquireOpenAIWSIngressLease env apiKeyID maxConnections leaseID db =
     (if apiKeyID \<le> 0 \<or> maxConnections \<le> 0 \<or> leaseID = [] then (Inr False, db)
      else case call env 0 (acquireOpenAIWSIngressLeaseScript (openAIWSIngressLeaseKey apiKeyID)
                              maxConnections openAIWSIngressLeaseTTLSeconds leaseID) db of
        (Inl e, db1) \<Rightarrow> (Inl e, db1) | (Inr result, db1) \<Rightarrow> (Inr (result = 1), db1))"

definition RefreshOpenAIWSIngressLease :: "conc_env \<Rightarrow> int \<Rightarrow> string \<Rightarrow> bool conc" where
  "RefreshOpenAIWSIngressLease env apiKeyID leaseID db =
     (if apiKeyID \<le> 0 \<or> leaseID = [] then (Inr False, db)
      else case call env 0 (refreshOpenAIWSIngressLeaseScript (openAIWSIngressLeaseKey apiKeyID)
                              openAIWSIngressLeaseTTLSeconds leaseID) db of
        (Inl e, db1) \<Rightarrow> (Inl e, db1) | (Inr result, db1) \<Rightarrow> (Inr (result = 1), db1))"

definition ReleaseOpenAIWSIngressLease :: "conc_env \<Rightarrow> int \<Rightarrow> string \<Rightarrow> unit conc" where
  "ReleaseOpenAIWSIngressLease env apiKeyID leaseID db =
     (if apiKeyID \<le> 0 \<or> leaseID = [] then (Inr (), db)
      else call env 0 (\<lambda>clock db. ((), zrem clock (openAIWSIngressLeaseKey apiKeyID) leaseID db)) db)"

definition lease_keys_of :: "int \<Rightarrow> int \<Rightarrow> int \<Rightarrow> lease_keys" where
  "lease_keys_of accountID userID apiKeyID =
     \<lparr>accountRegular = accountSlotKey accountID, accountLive = liveAccountSlotKey accountID,
      userRegular = userSlotKey userID, userLive = liveUserSlotKey userID, apiLive = liveAPIKeySlotKey apiKeyID\<rparr>"

definition AcquireLiveLease ::
  "conc_env \<Rightarrow> int \<Rightarrow> int \<Rightarrow> int \<Rightarrow> int \<Rightarrow> int \<Rightarrow> string \<Rightarrow> bool \<Rightarrow> bool conc" where
  "AcquireLiveLease env accountID accountMax userID userMax apiKeyID leaseID replacingRegularSlots db =
     (if accountID \<le> 0 \<or> userID \<le> 0 \<or> apiKeyID \<le> 0 \<or> leaseID = [] then (Inr False, db)
      else case call env 0 (acquireLiveLeaseScript (lease_keys_of accountID userID apiKeyID) accountMax userMax
                              liveLeaseTTLSeconds leaseID (if replacingRegularSlots then 1 else 0)) db of
        (Inl e, db1) \<Rightarrow> (Inl e, db1) | (Inr result, db1) \<Rightarrow> (Inr (result = 1), db1))"

definition RefreshLiveLease :: "conc_env \<Rightarrow> int \<Rightarrow> int \<Rightarrow> int \<Rightarrow> string \<Rightarrow> bool conc" where
  "RefreshLiveLease env accountID userID apiKeyID leaseID db =
     (if leaseID = [] then (Inr False, db)
      else case call env 0 (refreshLiveLeaseScript
                  [liveAccountSlotKey accountID, liveUserSlotKey userID, liveAPIKeySlotKey apiKeyID]
                  liveLeaseTTLSeconds leaseID) db of
        (Inl e, db1) \<Rightarrow> (Inl e, db1) | (Inr result, db1) \<Rightarrow> (Inr (result = 1), db1))"

definition ReleaseLiveLease :: "conc_env \<Rightarrow> int \<Rightarrow> int \<Rightarrow> int \<Rightarrow> string \<Rightarrow> unit conc" where
  "ReleaseLiveLease env accountID userID apiKeyID leaseID db =
     (if leaseID = [] then (Inr (), db)
      else call env 0 (\<lambda>clock db.
             ((), zrem clock (liveAPIKeySlotKey apiKeyID) leaseID
                    (zrem clock (liveUserSlotKey userID) leaseID
                      (zrem clock (liveAccountSlotKey accountID) leaseID db)))) db)"

section \<open>Wait counters\<close>

definition IncrementWaitCount :: "conc_conf \<Rightarrow> conc_env \<Rightarrow> int \<Rightarrow> int \<Rightarrow> bool conc" where
  "IncrementWaitCount conf env userID maxWait db =
     (case call env 0 (incrementWaitScript (waitQueueKey userID) maxWait (waitQueueTTLSeconds conf)) db of
        (Inl e, db1) \<Rightarrow> (Inl e, db1)
      | (Inr (result, now), db1) \<Rightarrow>
          (Inr (result = 1),
           if result = 1
           then touchActiveIndexAt env 1 userActiveIndexKey userID (now + waitQueueTTLSeconds conf) db1
           else db1))"

definition DecrementWaitCount :: "conc_conf \<Rightarrow> conc_env \<Rightarrow> int \<Rightarrow> unit conc" where
  "DecrementWaitCount conf env userID db =
     (case call env 0 (decrementWaitScript (waitQueueKey userID)) db of
        (Inl e, db1) \<Rightarrow> (Inl e, db1)
      | (Inr u, db1) \<Rightarrow> (Inr (), refreshUserActiveIndex conf env 1 userID db1))"

definition IncrementAccountWaitCount :: "conc_conf \<Rightarrow> conc_env \<Rightarrow> int \<Rightarrow> int \<Rightarrow> bool conc" where
  "IncrementAccountWaitCount conf env accountID maxWait db =
     (case call env 0 (incrementAccountWaitScript (accountWaitKey accountID) maxWait (waitQueueTTLSeconds conf)) db of
        (Inl e, db1) \<Rightarrow> (Inl e, db1)
      | (Inr (result, now), db1) \<Rightarrow>
          (Inr (result = 1),
           if result = 1
           then touchActiveIndexAt env 1 accountActiveIndexKey accountID (now + waitQueueTTLSeconds conf) db1
           else db1))"

definition DecrementAccountWaitCount :: "conc_conf \<Rightarrow> conc_env \<Rightarrow> int \<Rightarrow> unit conc" where
  "DecrementAccountWaitCount conf env accountID db =
     (case call env 0 (decrementWaitScript (accountWaitKey accountID)) db of
        (Inl e, db1) \<Rightarrow> (Inl e, db1)
      | (Inr u, db1) \<Rightarrow> (Inr (), refreshAccountActiveIndex conf env 1 accountID db1))"

definition GetAccountWaitingCount :: "conc_env \<Rightarrow> int \<Rightarrow> int conc" where
  "GetAccountWaitingCount env accountID =
     call env 0 (\<lambda>clock db.
       (case get_count clock (accountWaitKey accountID) db of None \<Rightarrow> 0 | Some n \<Rightarrow> n, db))"

section \<open>Load\<close>

record load_info =
  li_id :: int
  li_current :: int
  li_waiting :: int
  li_rate :: int

definition load_of :: "int \<Rightarrow> int \<Rightarrow> int \<Rightarrow> int \<Rightarrow> load_info" where
  "load_of i maxConcurrency current waiting =
     \<lparr>li_id = i, li_current = current, li_waiting = waiting,
      li_rate = (if maxConcurrency > 0 then (current + waiting) * 100 sdiv maxConcurrency else 0)\<rparr>"

fun load_sets :: "(int \<Rightarrow> (string \<times> int) list) \<Rightarrow> (int \<Rightarrow> string) \<Rightarrow> (int \<times> int) list
  \<Rightarrow> (int \<times> load_info) list command" where
  "load_sets sets waits [] clock db = ([], db)"
| "load_sets sets waits ((i, maxConcurrency) # rest) clock db =
     (let db1 = fold (\<lambda>(key, cutoff). zremrangebyscore clock key cutoff) (sets i) db;
          n = sum_list (map (\<lambda>(key, cutoff). zcard clock key db1) (sets i));
          w = (case get_count clock (waits i) db1 of None \<Rightarrow> 0 | Some v \<Rightarrow> v)
      in case load_sets sets waits rest clock db1 of
           (loads, db2) \<Rightarrow> ((i, load_of i maxConcurrency n w) # loads, db2))"

definition GetAccountsLoadBatch :: "conc_conf \<Rightarrow> conc_env \<Rightarrow> (int \<times> int) list \<Rightarrow> (int \<rightharpoonup> load_info) conc" where
  "GetAccountsLoadBatch conf env accounts db =
     (if accounts = [] then (Inr Map.empty, db)
      else case redisUnixSeconds env 0 db of
        (Inl e, db1) \<Rightarrow> (Inl e, db1)
      | (Inr now, db1) \<Rightarrow>
          (case call env 1 (load_sets (\<lambda>i. [(accountSlotKey i, now - slotTTLSeconds conf),
                                           (liveAccountSlotKey i, now - liveLeaseTTLSeconds)])
                              accountWaitKey accounts) db1 of
             (Inl e, db2) \<Rightarrow> (Inl e, db2)
           | (Inr loads, db2) \<Rightarrow> (Inr (result_map loads), db2)))"

definition GetUsersLoadBatch :: "conc_conf \<Rightarrow> conc_env \<Rightarrow> (int \<times> int) list \<Rightarrow> (int \<rightharpoonup> load_info) conc" where
  "GetUsersLoadBatch conf env users db =
     (if users = [] then (Inr Map.empty, db)
      else case redisUnixSeconds env 0 db of
        (Inl e, db1) \<Rightarrow> (Inl e, db1)
      | (Inr now, db1) \<Rightarrow>
          (case call env 1 (load_sets (\<lambda>i. [(userSlotKey i, now - slotTTLSeconds conf),
                                           (liveUserSlotKey i, now - liveLeaseTTLSeconds)])
                              waitQueueKey users) db1 of
             (Inl e, db2) \<Rightarrow> (Inl e, db2)
           | (Inr loads, db2) \<Rightarrow> (Inr (result_map loads), db2)))"

section \<open>Cleanup\<close>

definition CleanupExpiredAccountSlots :: "conc_conf \<Rightarrow> conc_env \<Rightarrow> int \<Rightarrow> unit conc" where
  "CleanupExpiredAccountSlots conf env accountID db =
     (case call env 0 (cleanupExpiredSlotsScript (accountSlotKey accountID) (slotTTLSeconds conf)) db of
        (Inl e, db1) \<Rightarrow> (Inl e, db1)
      | (Inr u, db1) \<Rightarrow> (Inr (), refreshAccountActiveIndex conf env 1 accountID db1))"

fun read_chunk :: "slotIndexSpec \<Rightarrow> int \<Rightarrow> (int \<times> string) list \<Rightarrow> activeIndexLoad list command" where
  "read_chunk spec cutoff [] clock db = ([], db)"
| "read_chunk spec cutoff ((i, member) # rest) clock db =
     (let db1 = zremrangebyscore clock (slotKey spec i) cutoff db;
          load = \<lparr>load_id = i, load_member = member, slotCount = zcard clock (slotKey spec i) db1,
                  waitCount = positive_count (get_count clock (waitKey spec i) db1)\<rparr>
      in case read_chunk spec cutoff rest clock db1 of (loads, db2) \<Rightarrow> (load # loads, db2))"

function read_chunks :: "conc_env \<Rightarrow> nat \<Rightarrow> slotIndexSpec \<Rightarrow> int \<Rightarrow> (int \<times> string) list \<Rightarrow> activeIndexLoad list conc" where
  "read_chunks env n spec cutoff candidates db =
     (if candidates = [] then (Inr [], db)
      else case call env n (read_chunk spec cutoff (take 500 candidates)) db of
        (Inl e, db1) \<Rightarrow> (Inl e, db1)
      | (Inr loads, db1) \<Rightarrow>
          (case read_chunks env (n + 1) spec cutoff (drop 500 candidates) db1 of
             (Inl e, db2) \<Rightarrow> (Inl e, db2)
           | (Inr loads1, db2) \<Rightarrow> (Inr (loads @ loads1), db2)))"
  by pat_completeness auto
termination by (relation "measure (\<lambda>(_, _, _, _, candidates, _). length candidates)") auto

declare read_chunks.simps [simp del]

definition chunk_calls :: "string list \<Rightarrow> nat" where
  "chunk_calls ms = (length (filter (\<lambda>m. user_of_member m \<noteq> None) ms) + 499) div 500"

definition readIndexLoads ::
  "conc_conf \<Rightarrow> conc_env \<Rightarrow> nat \<Rightarrow> slotIndexSpec \<Rightarrow> string list \<Rightarrow> int \<Rightarrow> (activeIndexLoad list \<times> string list) conc" where
  "readIndexLoads conf env n spec ms now db =
     (let stale = filter (\<lambda>m. user_of_member m = None) ms;
          candidates = map (\<lambda>m. (the (user_of_member m), m)) (filter (\<lambda>m. user_of_member m \<noteq> None) ms)
      in case read_chunks env n spec (now - slotTTLSeconds conf) candidates db of
           (Inl e, db1) \<Rightarrow> (Inl e, db1) | (Inr loads, db1) \<Rightarrow> (Inr (loads, stale), db1))"

definition removeActiveIndexMembers :: "conc_env \<Rightarrow> nat \<Rightarrow> string \<Rightarrow> string list \<Rightarrow> redis_store \<Rightarrow> redis_store" where
  "removeActiveIndexMembers env n index ms db =
     (if ms = [] then db else snd (call env n (\<lambda>clock db. ((), fold (zrem clock index) ms db)) db))"

definition has_load :: "activeIndexLoad \<Rightarrow> bool" where
  "has_load load \<longleftrightarrow> \<not> (slotCount load = 0 \<and> waitCount load \<le> 0)"

text \<open>What the two cleanups do with the loads: the members that have load are refreshed, the others
  and those that cannot be read are removed.\<close>

definition settle_index ::
  "conc_conf \<Rightarrow> conc_env \<Rightarrow> nat \<Rightarrow> string \<Rightarrow> int \<Rightarrow> activeIndexLoad list \<times> string list \<Rightarrow> redis_store \<Rightarrow> redis_store" where
  "settle_index conf env n index now r db =
     (case r of (loads, stale) \<Rightarrow>
        let refreshed = map (\<lambda>l. (load_member l, now + activeIndexTTL conf (slotCount l) (waitCount l))) (filter has_load loads);
            stale1 = stale @ map load_member (filter (\<lambda>l. \<not> has_load l) loads);
            db1 = (if refreshed = [] then db
                   else snd (call env n (\<lambda>clock db. ((), fold (\<lambda>(m, score). zadd clock index score m) refreshed db)) db))
        in removeActiveIndexMembers env (n + 1) index stale1 db1)"

definition reconcileExpiredIndexCandidates :: "conc_conf \<Rightarrow> conc_env \<Rightarrow> slotIndexSpec \<Rightarrow> unit conc" where
  "reconcileExpiredIndexCandidates conf env spec db =
     (case redisUnixSeconds env 0 db of
        (Inl e, db1) \<Rightarrow> (Inl e, db1)
      | (Inr now, db1) \<Rightarrow>
          (case call env 1 (\<lambda>clock db. (zrangebyscore clock (indexKey spec) now 1000 db, db)) db1 of
             (Inl e, db2) \<Rightarrow> (Inl e, db2)
           | (Inr ms, db2) \<Rightarrow>
               (case readIndexLoads conf env 2 spec ms now db2 of
                  (Inl e, db3) \<Rightarrow> (Inl e, db3)
                | (Inr r, db3) \<Rightarrow> (Inr (), settle_index conf env (2 + chunk_calls ms) (indexKey spec) now r db3))))"

definition CleanupExpiredAccountSlotKeys :: "conc_conf \<Rightarrow> conc_env \<Rightarrow> conc_env \<Rightarrow> unit conc" where
  "CleanupExpiredAccountSlotKeys conf env env' db =
     (case reconcileExpiredIndexCandidates conf env accountSlotIndex db of
        (Inl e, db1) \<Rightarrow> (Inl e, db1)
      | (Inr u, db1) \<Rightarrow> reconcileExpiredIndexCandidates conf env' userSlotIndex db1)"

definition allIndexMembers :: "conc_env \<Rightarrow> nat \<Rightarrow> string \<Rightarrow> string list conc" where
  "allIndexMembers env n index = call env n (\<lambda>clock db. (zrange_all clock index db, db))"

definition cleanupStaleProcessSlotsForIndex ::
  "conc_conf \<Rightarrow> conc_env \<Rightarrow> slotIndexSpec \<Rightarrow> string list \<Rightarrow> int \<Rightarrow> unit conc" where
  "cleanupStaleProcessSlotsForIndex conf env spec ms now db =
     (case readIndexLoads conf env 2 spec ms now db of
        (Inl e, db1) \<Rightarrow> (Inl e, db1)
      | (Inr r, db1) \<Rightarrow> (Inr (), settle_index conf env (2 + chunk_calls ms) (indexKey spec) now r db1))"

definition CleanupStaleProcessSlots :: "conc_conf \<Rightarrow> conc_env \<Rightarrow> conc_env \<Rightarrow> string \<Rightarrow> unit conc" where
  "CleanupStaleProcessSlots conf env env' activeRequestPrefix db =
     (if activeRequestPrefix = [] then (Inr (), db)
      else case redisUnixSeconds env 0 db of
        (Inl e, db1) \<Rightarrow> (Inl e, db1)
      | (Inr now, db1) \<Rightarrow>
          (case allIndexMembers env 1 accountActiveIndexKey db1 of
             (Inl e, db2) \<Rightarrow> (Inl e, db2)
           | (Inr accounts, db2) \<Rightarrow>
               (case cleanupStaleProcessSlotsForIndex conf env accountSlotIndex accounts now db2 of
                  (Inl e, db3) \<Rightarrow> (Inl e, db3)
                | (Inr u, db3) \<Rightarrow>
                    (case allIndexMembers env' 1 userActiveIndexKey db3 of
                       (Inl e, db4) \<Rightarrow> (Inl e, db4)
                     | (Inr users, db4) \<Rightarrow> cleanupStaleProcessSlotsForIndex conf env' userSlotIndex users now db4))))"

end
