(* ===== verification/ConcurrencyLimits.thy ===== *)
theory ConcurrencyLimits
  imports ConcurrencyCache
begin

text \<open>
  What the concurrency control guarantees: the slots of an account stay within its limit under any
  interleaving of calls, an acquisition succeeds exactly when there is room, cleanups leave every
  slot in time alone, and a group's snapshot counts exactly its requests.
\<close>

section \<open>Slots held\<close>

text \<open>The members of a set that have not outlived their time.\<close>

definition holders :: "int \<Rightarrow> int \<Rightarrow> string \<Rightarrow> redis_store \<Rightarrow> string set" where
  "holders ttl clock key db = fst ` set (in_time ttl clock key db)"

lemma finite_holders [simp]: "finite (holders ttl clock key db)"
  by (simp add: holders_def)

lemma map_of_filter_snd:
  "gomap_wf m \<Longrightarrow> map_of (filter (\<lambda>p. Q (snd p)) m) k = Some v \<longleftrightarrow> map_of m k = Some v \<and> Q v"
  by (auto simp: map_of_Some_iff)

lemma holders_iff:
  "store_wf db \<Longrightarrow> k \<in> holders ttl clock key db
     \<longleftrightarrow> (\<exists>v. map_of (members clock key db) k = Some v \<and> seconds clock - ttl < v)"
  by (force simp: holders_def in_time_def map_of_Some_iff seconds_def)

lemma holders_members:
  "members clock key db' = members clock key db \<Longrightarrow> holders ttl clock key db' = holders ttl clock key db"
  by (simp add: holders_def in_time_def)

lemma holders_zadd:
  "store_wf db \<Longrightarrow> 0 < ttl \<Longrightarrow>
   holders ttl clock key' (zadd clock key (seconds clock) m db)
     = (if key' = key then insert m (holders ttl clock key db) else holders ttl clock key' db)"
  by (cases "key' = key") (auto simp: set_eq_iff holders_iff redis_simps)

lemma holders_prune:
  assumes "store_wf db" "key' = key \<Longrightarrow> most \<le> seconds clock - ttl"
  shows "holders ttl clock key' (zremrangebyscore clock key most db) = holders ttl clock key' db"
proof (cases "key' = key")
  case True
  have "k \<in> holders ttl clock key (zremrangebyscore clock key most db) \<longleftrightarrow> k \<in> holders ttl clock key db" for k
    using map_of_filter_snd [OF store_wf_members [OF assms(1)], where Q = "\<lambda>v. most < v"] assms True
    by (fastforce simp: holders_iff redis_simps)
  then show ?thesis using True by blast
next
  case False
  then show ?thesis by (intro holders_members) (simp add: redis_simps)
qed

lemma holders_expire [simp]:
  "0 < n \<Longrightarrow> holders ttl clock key' (expire_set clock key n db) = holders ttl clock key' db"
  by (intro holders_members) (simp add: redis_simps)

lemma holders_shrink:
  "store_wf db \<Longrightarrow> store_wf db' \<Longrightarrow> map_of (members clock key db') \<subseteq>\<^sub>m map_of (members clock key db) \<Longrightarrow>
   holders ttl clock key db' \<subseteq> holders ttl clock key db"
  unfolding map_le_def by (auto simp: holders_iff dom_def)

lemma zcard_holders:
  assumes "store_wf db"
  shows "int (card (holders ttl clock key db)) \<le> zcard clock key db"
    "zcard clock key (zremrangebyscore clock key (seconds clock - ttl) db) = int (card (holders ttl clock key db))"
proof -
  let ?ms = "members clock key db"
  have wf: "gomap_wf ?ms" using assms by simp
  have d: "distinct (map fst (in_time ttl clock key db))"
    using wf unfolding in_time_def gomap_wf_def by (rule distinct_map_filter)
  have c: "card (holders ttl clock key db) = length (in_time ttl clock key db)"
    using distinct_card [OF d] by (simp add: holders_def)
  then show "int (card (holders ttl clock key db)) \<le> zcard clock key db"
    by (simp add: zcard_def in_time_def)
  show "zcard clock key (zremrangebyscore clock key (seconds clock - ttl) db) = int (card (holders ttl clock key db))"
    by (simp add: c zcard_def in_time_def redis_simps seconds_def)
qed

lemma holders_later:
  "clock \<le> clock' \<Longrightarrow> holders ttl clock' key db \<subseteq> holders ttl clock key db"
  using in_time_later(1) unfolding holders_def by blast

lemma zscore_holders:
  "store_wf db \<Longrightarrow> zscore clock key m (zremrangebyscore clock key (seconds clock - ttl) db) \<noteq> None
     \<longleftrightarrow> m \<in> holders ttl clock key db"
  unfolding zscore_def redis_simps
  using map_of_filter_snd [OF store_wf_members, of db "\<lambda>v. seconds clock - ttl < v"]
  by (auto simp: holders_iff)

text \<open>The slots of an account, ordinary and Live.\<close>

definition slots_held :: "conc_conf \<Rightarrow> int \<Rightarrow> int \<Rightarrow> redis_store \<Rightarrow> nat" where
  "slots_held conf a clock db =
     card (holders (slotTTLSeconds conf) clock (accountSlotKey a) db)
     + card (holders liveLeaseTTLSeconds clock (liveAccountSlotKey a) db)"

lemma slots_held_later: "clock \<le> clock' \<Longrightarrow> slots_held conf a clock' db \<le> slots_held conf a clock db"
  unfolding slots_held_def by (intro add_mono card_mono holders_later finite_holders)

section \<open>Acquisitions\<close>

lemma acquireScript_store_wf: "store_wf db \<Longrightarrow> store_wf (snd (acquireScript key liveKey n ttl r clock db))"
  by (simp add: acquireScript_def Let_def)


definition has_room :: "string \<Rightarrow> string \<Rightarrow> int \<Rightarrow> int \<Rightarrow> string \<Rightarrow> int \<Rightarrow> redis_store \<Rightarrow> bool" where
  "has_room key liveKey n ttl r clock db \<longleftrightarrow>
     r \<in> holders ttl clock key db
     \<or> int (card (holders ttl clock key db)) + int (card (holders 60 clock liveKey db)) < n"

lemma acquireScript_result:
  assumes "store_wf db" "key \<noteq> liveKey"
  shows "fst (acquireScript key liveKey n ttl r clock db)
    = (if has_room key liveKey n ttl r clock db then 1 else 0, seconds clock)"
proof -
  define pruned where "pruned = zremrangebyscore clock key (seconds clock - ttl) db"
  define db1 where "db1 = zremrangebyscore clock liveKey (seconds clock - 60) pruned"
  have wf: "store_wf pruned" using assms(1) by (simp add: pruned_def)
  have same: "members clock key db1 = members clock key pruned"
    using assms(2) by (simp add: db1_def redis_simps)
  have "zscore clock key r db1 \<noteq> None \<longleftrightarrow> r \<in> holders ttl clock key db"
    using zscore_holders [OF assms(1), of clock key r ttl] same by (simp add: zscore_def pruned_def)
  moreover have "zcard clock key db1 = int (card (holders ttl clock key db))"
    using zcard_holders(2) [OF assms(1), of clock key ttl] same by (simp add: zcard_def pruned_def)
  moreover have "holders 60 clock liveKey pruned = holders 60 clock liveKey db"
    unfolding pruned_def using assms by (intro holders_prune) simp_all
  then have "zcard clock liveKey db1 = int (card (holders 60 clock liveKey db))"
    using zcard_holders(2) [OF wf, of clock liveKey 60] by (simp add: db1_def)
  ultimately show ?thesis
    by (simp add: acquireScript_def Let_def has_room_def db1_def pruned_def)
qed

lemma acquireScript_holders:
  assumes "store_wf db" "key \<noteq> liveKey" "0 < ttl"
    and "key' = key \<Longrightarrow> t = ttl" "key' = liveKey \<Longrightarrow> t = 60"
  shows "holders t clock key' (snd (acquireScript key liveKey n ttl r clock db))
    = (if key' = key \<and> has_room key liveKey n ttl r clock db
       then insert r (holders t clock key db) else holders t clock key' db)"
proof -
  define pruned where "pruned = zremrangebyscore clock key (seconds clock - ttl) db"
  define db1 where "db1 = zremrangebyscore clock liveKey (seconds clock - 60) pruned"
  define taken where "taken = expire_set clock key ttl (zadd clock key (seconds clock) r db1)"
  have wf: "store_wf pruned" "store_wf db1" using assms(1) by (simp_all add: pruned_def db1_def)
  have h1: "holders t clock key' db1 = holders t clock key' db"
  proof -
    have "holders t clock key' db1 = holders t clock key' pruned"
      unfolding db1_def using wf(1) assms(5) by (intro holders_prune) simp_all
    also have "\<dots> = holders t clock key' db"
      unfolding pruned_def using assms(1,4) by (intro holders_prune) simp_all
    finally show ?thesis .
  qed
  have "acquireScript key liveKey n ttl r clock db
      = (if zscore clock key r db1 \<noteq> None then ((1, seconds clock), taken)
         else if zcard clock key db1 + zcard clock liveKey db1 < n then ((1, seconds clock), taken)
         else ((0, seconds clock), db1))"
    by (simp add: acquireScript_def Let_def taken_def db1_def pruned_def)
  then have "snd (acquireScript key liveKey n ttl r clock db)
      = (if fst (fst (acquireScript key liveKey n ttl r clock db)) = 1 then taken else db1)"
    by (simp split: if_splits)
  then have run: "snd (acquireScript key liveKey n ttl r clock db) = (if has_room key liveKey n ttl r clock db then taken else db1)"
    unfolding acquireScript_result [OF assms(1,2)] by simp
  have taken: "holders t clock key' taken = (if key' = key then insert r (holders t clock key db1) else holders t clock key' db1)"
  proof -
    have "holders t clock key' taken = holders t clock key' (zadd clock key (seconds clock) r db1)"
      unfolding taken_def by (rule holders_expire [OF assms(3)])
    also have "\<dots> = (if key' = key then insert r (holders t clock key db1) else holders t clock key' db1)"
    proof (cases "key' = key")
      case True
      then show ?thesis using holders_zadd [OF wf(2), of t clock key' key r] assms(3,4) by simp
    next
      case False
      then have "holders t clock key' (zadd clock key (seconds clock) r db1) = holders t clock key' db1"
        by (intro holders_members) (simp add: redis_simps)
      then show ?thesis using False by simp
    qed
    finally show ?thesis .
  qed
  show ?thesis
    unfolding run using h1 taken by (cases "key' = key") simp_all
qed

lemma acquireScript_key:
  assumes "store_wf db" "key \<noteq> liveKey" "0 < ttl"
  shows "holders ttl clock key (snd (acquireScript key liveKey n ttl r clock db))
    = (if has_room key liveKey n ttl r clock db then insert r (holders ttl clock key db) else holders ttl clock key db)"
  by (subst acquireScript_holders [OF assms]) (use assms(2) in simp_all)

lemma acquireScript_live:
  assumes "store_wf db" "key \<noteq> liveKey" "0 < ttl"
  shows "holders 60 clock liveKey (snd (acquireScript key liveKey n ttl r clock db)) = holders 60 clock liveKey db"
  by (subst acquireScript_holders [OF assms]) (use assms(2) in simp_all)

text \<open>A Live lease takes a slot of its account when there is room, one more than the limit when it
  replaces an ordinary slot.\<close>

definition lease_keys_ok :: "lease_keys \<Rightarrow> bool" where
  "lease_keys_ok ks \<longleftrightarrow> distinct [accountRegular ks, accountLive ks, userRegular ks, userLive ks, apiLive ks]"

lemma acquireLiveLease_holders:
  assumes wf: "store_wf db" and keys: "lease_keys_ok ks" and max: "0 < accountMax" and ttl: "0 < ttl"
    and t: "key' = accountRegular ks \<or> key' = accountLive ks \<and> t = ttl"
  shows "holders t clock key' (snd (acquireLiveLeaseScript ks accountMax userMax ttl lease rep clock db)) = holders t clock key' db
    \<or> key' = accountLive ks \<and> lease \<notin> holders ttl clock (accountLive ks) db
       \<and> holders t clock key' (snd (acquireLiveLeaseScript ks accountMax userMax ttl lease rep clock db))
           = insert lease (holders t clock key' db)
       \<and> zcard clock (accountRegular ks) db + int (card (holders ttl clock (accountLive ks) db))
           < accountMax + (if rep = 1 then 1 else 0)"
proof -
  define now where "now = seconds clock"
  define pruned where "pruned = zremrangebyscore clock (accountLive ks) (now - ttl) db"
  define db1 where "db1 = zremrangebyscore clock (apiLive ks) (now - ttl)
                  (zremrangebyscore clock (userLive ks) (now - ttl) pruned)"
  define db2 where "db2 = zadd clock (apiLive ks) now lease
      (zadd clock (userLive ks) now lease (zadd clock (accountLive ks) now lease db1))"
  define db3 where "db3 = expire_set clock (apiLive ks) ttl
      (expire_set clock (userLive ks) ttl (expire_set clock (accountLive ks) ttl db2))"
  have ks: "accountLive ks \<noteq> apiLive ks" "accountLive ks \<noteq> userLive ks" "accountRegular ks \<noteq> apiLive ks"
    "accountRegular ks \<noteq> userLive ks" "accountRegular ks \<noteq> accountLive ks"
    using keys by (auto simp: lease_keys_ok_def)
  have wf1: "store_wf pruned" "store_wf db1" using wf by (simp_all add: pruned_def db1_def)
  have live1: "members clock (accountLive ks) db1 = members clock (accountLive ks) pruned"
    and reg1: "members clock (accountRegular ks) db1 = members clock (accountRegular ks) db"
    using ks by (simp_all add: db1_def pruned_def redis_simps)
  have h1: "holders t clock key' db1 = holders t clock key' db"
  proof (cases "key' = accountLive ks")
    case True
    then have "t = ttl" using t ks by auto
    have "holders t clock key' db1 = holders t clock key' pruned"
      unfolding True by (rule holders_members [OF live1])
    also have "\<dots> = holders t clock key' db"
      unfolding pruned_def now_def by (rule holders_prune [OF wf]) (simp add: \<open>t = ttl\<close>)
    finally show ?thesis .
  next
    case False
    then show ?thesis using t reg1 by (intro holders_members) auto
  qed
  have zs: "zscore clock (accountLive ks) lease db1 \<noteq> None \<longleftrightarrow> lease \<in> holders ttl clock (accountLive ks) db"
    using zscore_holders [OF wf, of clock "accountLive ks" lease ttl] live1 by (simp add: zscore_def pruned_def now_def)
  have zc: "zcard clock (accountLive ks) db1 = int (card (holders ttl clock (accountLive ks) db))"
    "zcard clock (accountRegular ks) db1 = zcard clock (accountRegular ks) db"
    using zcard_holders(2) [OF wf, of clock "accountLive ks" ttl] live1 reg1
    by (simp_all add: zcard_def pruned_def now_def)
  have h3: "holders t clock key' db3 = (if key' = accountLive ks then insert lease (holders t clock key' db) else holders t clock key' db)"
  proof -
    have "holders t clock key' db3 = holders t clock key' db2"
      unfolding db3_def using ttl by simp
    also have "\<dots> = holders t clock key' (zadd clock (accountLive ks) now lease db1)"
      unfolding db2_def using t ks by (intro holders_members) (auto simp: redis_simps)
    also have "\<dots> = (if key' = accountLive ks then insert lease (holders t clock key' db1) else holders t clock key' db1)"
    proof (cases "key' = accountLive ks")
      case True
      then have "t = ttl" using t ks by auto
      then show ?thesis using holders_zadd [OF wf1(2), of t clock key' "accountLive ks" lease] True ttl by (simp add: now_def)
    next
      case False
      then have "holders t clock key' (zadd clock (accountLive ks) now lease db1) = holders t clock key' db1"
        by (intro holders_members) (simp add: redis_simps)
      then show ?thesis using False by simp
    qed
    finally show ?thesis unfolding h1 .
  qed
  have run: "snd (acquireLiveLeaseScript ks accountMax userMax ttl lease rep clock db) = db1
    \<or> snd (acquireLiveLeaseScript ks accountMax userMax ttl lease rep clock db) = db3
        \<and> zscore clock (accountLive ks) lease db1 = None
        \<and> zcard clock (accountRegular ks) db1 + zcard clock (accountLive ks) db1 < accountMax + (if rep = 1 then 1 else 0)"
    using max unfolding acquireLiveLeaseScript_def Let_def now_def [symmetric] pruned_def [symmetric]
      db1_def [symmetric] db2_def [symmetric] db3_def [symmetric]
    by (simp split: if_splits)
  show ?thesis
    using run
  proof (elim disjE conjE)
    assume "snd (acquireLiveLeaseScript ks accountMax userMax ttl lease rep clock db) = db1"
    then show ?thesis using h1 by simp
  next
    assume a: "snd (acquireLiveLeaseScript ks accountMax userMax ttl lease rep clock db) = db3"
      "zscore clock (accountLive ks) lease db1 = None"
      "zcard clock (accountRegular ks) db1 + zcard clock (accountLive ks) db1 < accountMax + (if rep = 1 then 1 else 0)"
    then show ?thesis using h3 zs zc by (cases "key' = accountLive ks") simp_all
  qed
qed

text \<open>Renewing a lease adds none.\<close>

lemma lease_present_members:
  "store_wf db \<Longrightarrow> key' \<notin> set keys \<Longrightarrow> members clock key' (snd (lease_present keys most lease clock db)) = members clock key' db"
  by (induction keys arbitrary: db) (simp_all add: Let_def redis_simps)

lemma lease_present_wf [simp]: "store_wf db \<Longrightarrow> store_wf (snd (lease_present keys most lease clock db))"
  by (induction keys arbitrary: db) (simp_all add: Let_def)

lemma lease_renew_wf [simp]: "store_wf db \<Longrightarrow> store_wf (lease_renew keys ttl lease clock db)"
  by (induction keys arbitrary: db) simp_all

lemma lease_renew_members:
  "0 < ttl \<Longrightarrow> key' \<notin> set keys \<Longrightarrow> members clock key' (lease_renew keys ttl lease clock db) = members clock key' db"
  by (induction keys arbitrary: db) (simp_all add: redis_simps)

lemma refreshLiveLease_wf [simp]: "store_wf db \<Longrightarrow> store_wf (snd (refreshLiveLeaseScript keys ttl lease clock db))"
  using lease_present_wf [of db keys "seconds clock - ttl" lease clock]
  by (cases "lease_present keys (seconds clock - ttl) lease clock db") (simp add: refreshLiveLeaseScript_def)

lemma refreshLiveLease_holders:
  assumes wf: "store_wf db" and ttl: "0 < ttl" and key: "key \<notin> set keys"
    and t: "key' \<notin> set (key # keys) \<or> key' = key \<and> t = ttl"
  shows "holders t clock key' (snd (refreshLiveLeaseScript (key # keys) ttl lease clock db)) = holders t clock key' db"
proof -
  define pruned where "pruned = zremrangebyscore clock key (seconds clock - ttl) db"
  define checked where "checked = snd (lease_present keys (seconds clock - ttl) lease clock pruned)"
  have wfp: "store_wf pruned" using wf by (simp add: pruned_def)
  have h0: "holders t clock key' pruned = holders t clock key' db"
    unfolding pruned_def using wf t by (intro holders_prune) auto
  have h1: "holders t clock key' checked = holders t clock key' pruned"
    unfolding checked_def using t key by (intro holders_members lease_present_members [OF wfp]) auto
  show ?thesis
  proof (cases "zscore clock key lease pruned \<noteq> None \<and> fst (lease_present keys (seconds clock - ttl) lease clock pruned)")
    case False
    then have "snd (refreshLiveLeaseScript (key # keys) ttl lease clock db) \<in> {pruned, checked}"
      by (auto simp: refreshLiveLeaseScript_def Let_def pruned_def checked_def split: prod.split)
    then show ?thesis using h0 h1 by auto
  next
    case True
    define final where "final = lease_renew (key # keys) ttl lease clock checked"
    have wfc: "store_wf checked" using wfp by (simp add: checked_def)
    have run: "snd (refreshLiveLeaseScript (key # keys) ttl lease clock db) = final"
      using True by (auto simp: refreshLiveLeaseScript_def Let_def pruned_def checked_def final_def split: prod.split)
    have "holders t clock key' final = holders t clock key' (expire_set clock key ttl (zadd clock key (seconds clock) lease checked))"
    proof (rule holders_members)
      have "key' \<notin> set keys" using key t by auto
      then show "members clock key' final
          = members clock key' (expire_set clock key ttl (zadd clock key (seconds clock) lease checked))"
        unfolding final_def by (simp add: lease_renew_members [OF ttl])
    qed
    also have "\<dots> = holders t clock key' (zadd clock key (seconds clock) lease checked)"
      by (rule holders_expire [OF ttl])
    also have "\<dots> = holders t clock key' checked"
    proof (cases "key' = key")
      case False
      then show ?thesis by (intro holders_members) (simp add: redis_simps)
    next
      case eq: True
      then have "t = ttl" using t by auto
      have "lease \<in> holders ttl clock key db"
        using zscore_holders [OF wf, of clock key lease ttl] True by (simp add: pruned_def)
      then have "lease \<in> holders ttl clock key checked" using h0 h1 eq \<open>t = ttl\<close> by simp
      then show ?thesis
        using holders_zadd [OF wfc ttl, of clock key key lease] eq \<open>t = ttl\<close> by (simp add: insert_absorb)
    qed
    finally show ?thesis unfolding run using h0 h1 by simp
  qed
qed

lemma acquireLiveLease_wf [simp]:
  "store_wf db \<Longrightarrow> store_wf (snd (acquireLiveLeaseScript ks accountMax userMax ttl lease rep clock db))"
  unfolding acquireLiveLeaseScript_def Let_def by simp

section \<open>The limit of an account\<close>

text \<open>
  The calls that reach the slots of account \<open>a\<close>: acquisitions with at most its limit, Live
  leases (those that replace a slot only where \<open>replacing\<close>) and their renewals; any other call
  adds no slot to it.
\<close>

definition adds_no_slot :: "int \<Rightarrow> (int \<Rightarrow> redis_store \<Rightarrow> redis_store) \<Rightarrow> bool" where
  "adds_no_slot a f \<longleftrightarrow> (\<forall>clock db. store_wf db \<longrightarrow> store_wf (f clock db)
     \<and> (\<forall>key \<in> {accountSlotKey a, liveAccountSlotKey a}.
          map_of (members clock key (f clock db)) \<subseteq>\<^sub>m map_of (members clock key db)))"

inductive slot_call :: "conc_conf \<Rightarrow> int \<Rightarrow> int \<Rightarrow> bool \<Rightarrow> (int \<Rightarrow> redis_store \<Rightarrow> redis_store) \<Rightarrow> bool"
  for conf a limit replacing where
  acquire: "n \<le> limit \<Longrightarrow> slot_call conf a limit replacing
    (\<lambda>clock db. snd (acquireScript (accountSlotKey a) (liveAccountSlotKey a) n (slotTTLSeconds conf) r clock db))"
| lease: "0 < n \<Longrightarrow> n \<le> limit \<Longrightarrow> (rep = 1 \<longrightarrow> replacing) \<Longrightarrow> slot_call conf a limit replacing
    (\<lambda>clock db. snd (acquireLiveLeaseScript (lease_keys_of a u k) n um liveLeaseTTLSeconds l rep clock db))"
| renew: "slot_call conf a limit replacing
    (\<lambda>clock db. snd (refreshLiveLeaseScript [liveAccountSlotKey a, liveUserSlotKey u, liveAPIKeySlotKey k]
       liveLeaseTTLSeconds l clock db))"
| other: "adds_no_slot a f \<Longrightarrow> slot_call conf a limit replacing f"

text \<open>The server executes calls one after the other while its clock runs.\<close>

inductive slot_run :: "conc_conf \<Rightarrow> int \<Rightarrow> int \<Rightarrow> bool \<Rightarrow> int \<Rightarrow> redis_store \<Rightarrow> int \<Rightarrow> redis_store \<Rightarrow> bool"
  for conf a limit replacing clock0 db0 where
  start: "slot_run conf a limit replacing clock0 db0 clock0 db0"
| step: "slot_run conf a limit replacing clock0 db0 clock db \<Longrightarrow> clock \<le> clock' \<Longrightarrow>
    slot_call conf a limit replacing f \<Longrightarrow>
    slot_run conf a limit replacing clock0 db0 clock' (f clock' db)"

definition slot_bound :: "int \<Rightarrow> bool \<Rightarrow> int" where
  "slot_bound limit replacing = limit + (if replacing then 1 else 0)"

lemma lease_keys_of_ok: "lease_keys_ok (lease_keys_of a u k)"
proof -
  have "accountSlotKey a \<noteq> liveAPIKeySlotKey k" "liveAccountSlotKey a \<noteq> liveAPIKeySlotKey k"
    "userSlotKey u \<noteq> liveAPIKeySlotKey k" "liveUserSlotKey u \<noteq> liveAPIKeySlotKey k"
    by (simp_all add: slot_key_defs)
  then show ?thesis by (auto simp: lease_keys_ok_def lease_keys_of_def slot_keys)
qed

lemma slot_call_bound:
  assumes "slot_call conf a limit replacing f" and wf: "store_wf db" and ttl: "0 < slotTTLSeconds conf"
    and bound: "int (slots_held conf a clock db) \<le> slot_bound limit replacing"
  shows "store_wf (f clock db) \<and> int (slots_held conf a clock (f clock db)) \<le> slot_bound limit replacing"
  using assms(1)
proof cases
  case (acquire n r)
  let ?R = "accountSlotKey a" and ?V = "liveAccountSlotKey a"
  have ne: "?R \<noteq> ?V" by (simp add: slot_keys)
  have reg: "holders (slotTTLSeconds conf) clock ?R (f clock db)
      = (if has_room ?R ?V n (slotTTLSeconds conf) r clock db
         then insert r (holders (slotTTLSeconds conf) clock ?R db) else holders (slotTTLSeconds conf) clock ?R db)"
    unfolding acquire(1) by (rule acquireScript_key [OF wf ne ttl])
  have live: "holders liveLeaseTTLSeconds clock ?V (f clock db) = holders liveLeaseTTLSeconds clock ?V db"
    unfolding acquire(1) liveLeaseTTLSeconds_def by (rule acquireScript_live [OF wf ne ttl])
  have "int (slots_held conf a clock (f clock db)) \<le> slot_bound limit replacing"
  proof (cases "has_room ?R ?V n (slotTTLSeconds conf) r clock db \<and> r \<notin> holders (slotTTLSeconds conf) clock ?R db")
    case True
    then have "int (card (holders (slotTTLSeconds conf) clock ?R db)) + int (card (holders liveLeaseTTLSeconds clock ?V db)) < n"
      unfolding has_room_def liveLeaseTTLSeconds_def by blast
    then have "int (slots_held conf a clock (f clock db)) \<le> n"
      using True unfolding slots_held_def reg live by simp
    then show ?thesis using acquire(2) by (simp add: slot_bound_def split: if_splits)
  next
    case False
    then have "holders (slotTTLSeconds conf) clock ?R (f clock db) = holders (slotTTLSeconds conf) clock ?R db"
      using reg by (auto simp: insert_absorb)
    then show ?thesis using bound unfolding slots_held_def live by simp
  qed
  then show ?thesis using acquireScript_store_wf [OF wf] by (simp add: acquire(1))
next
  case (lease n rep u k um l)
  let ?ks = "lease_keys_of a u k"
  have ks: "accountRegular ?ks = accountSlotKey a" "accountLive ?ks = liveAccountSlotKey a"
    by (simp_all add: lease_keys_of_def)
  have live60: "0 < liveLeaseTTLSeconds" by (simp add: liveLeaseTTLSeconds_def)
  note spec = acquireLiveLease_holders [OF wf lease_keys_of_ok [of a u k] lease(2) live60, where userMax = um]
  have reg: "holders (slotTTLSeconds conf) clock (accountSlotKey a) (f clock db) = holders (slotTTLSeconds conf) clock (accountSlotKey a) db"
    using spec [where key' = "accountSlotKey a" and t = "slotTTLSeconds conf" and lease = l and rep = rep and clock = clock] unfolding lease(1) ks
    by (simp add: slot_keys)
  let ?V = "holders liveLeaseTTLSeconds clock (liveAccountSlotKey a)"
  have "?V (f clock db) = ?V db
      \<or> ?V (f clock db) = insert l (?V db) \<and> l \<notin> ?V db
        \<and> zcard clock (accountSlotKey a) db + int (card (?V db)) < n + (if rep = 1 then 1 else 0)"
    using spec [where key' = "liveAccountSlotKey a" and t = liveLeaseTTLSeconds and lease = l and rep = rep and clock = clock] unfolding lease(1) ks by blast
  then have "int (slots_held conf a clock (f clock db)) \<le> slot_bound limit replacing"
  proof (elim disjE conjE)
    assume "?V (f clock db) = ?V db"
    then show ?thesis using bound unfolding slots_held_def reg by simp
  next
    assume v: "?V (f clock db) = insert l (?V db)" "l \<notin> ?V db"
      "zcard clock (accountSlotKey a) db + int (card (?V db)) < n + (if rep = 1 then 1 else 0)"
    have "card (?V (f clock db)) = Suc (card (?V db))" unfolding v(1) using v(2) by simp
    moreover have "n + (if rep = 1 then 1 else 0) \<le> slot_bound limit replacing"
      using lease(3,4) by (auto simp: slot_bound_def)
    ultimately show ?thesis
      using v(3) zcard_holders(1) [OF wf, where ttl = "slotTTLSeconds conf" and clock = clock and key = "accountSlotKey a"]
      unfolding slots_held_def reg by simp
  qed
  then show ?thesis using acquireLiveLease_wf [OF wf] by (simp add: lease(1))
next
  case (renew u k l)
  have live60: "0 < liveLeaseTTLSeconds" by (simp add: liveLeaseTTLSeconds_def)
  let ?ks = "[liveUserSlotKey u, liveAPIKeySlotKey k]"
  have ne: "liveAccountSlotKey a \<notin> set ?ks" "accountSlotKey a \<notin> set (liveAccountSlotKey a # ?ks)"
    by (simp_all add: slot_key_defs)
  have "holders (slotTTLSeconds conf) clock (accountSlotKey a) (f clock db) = holders (slotTTLSeconds conf) clock (accountSlotKey a) db"
    unfolding renew using ne by (intro refreshLiveLease_holders [OF wf live60 ne(1)]) blast
  moreover have "holders liveLeaseTTLSeconds clock (liveAccountSlotKey a) (f clock db) = holders liveLeaseTTLSeconds clock (liveAccountSlotKey a) db"
    unfolding renew by (intro refreshLiveLease_holders [OF wf live60 ne(1)]) blast
  ultimately have "int (slots_held conf a clock (f clock db)) \<le> slot_bound limit replacing"
    using bound unfolding slots_held_def by simp
  then show ?thesis using refreshLiveLease_wf [OF wf] by (simp add: renew)
next
  case other
  then have o: "store_wf (f clock db)"
    "map_of (members clock (accountSlotKey a) (f clock db)) \<subseteq>\<^sub>m map_of (members clock (accountSlotKey a) db)"
    "map_of (members clock (liveAccountSlotKey a) (f clock db)) \<subseteq>\<^sub>m map_of (members clock (liveAccountSlotKey a) db)"
    using wf unfolding adds_no_slot_def by blast+
  have "slots_held conf a clock (f clock db) \<le> slots_held conf a clock db"
    unfolding slots_held_def
    using o by (intro add_mono card_mono holders_shrink [OF wf] finite_holders)
  then show ?thesis using o(1) bound by simp
qed

text \<open>C23 (account_slots_bounded): However the calls of any number of processes interleave, an account
  never has more slots in time, ordinary and Live together, than its limit, or one more where a Live
  lease may take the place of a slot that is about to be released.\<close>

theorem account_slots_bounded:
  assumes "slot_run conf a limit replacing clock0 db0 clock db"
    and "store_wf db0" "0 < slotTTLSeconds conf"
    and "int (slots_held conf a clock0 db0) \<le> slot_bound limit replacing"
  shows "int (slots_held conf a clock db) \<le> slot_bound limit replacing"
proof -
  have "store_wf db \<and> int (slots_held conf a clock db) \<le> slot_bound limit replacing"
    using assms(1)
  proof induction
    case start
    then show ?case using assms(2,4) by simp
  next
    case (step clock db clock' f)
    have "int (slots_held conf a clock' db) \<le> slot_bound limit replacing"
      using slots_held_later [OF step.hyps(2), of conf a db] step.IH by linarith
    then show ?case using slot_call_bound [OF step.hyps(3)] step.IH assms(3) by blast
  qed
  then show ?thesis ..
qed

definition empty_store :: redis_store where
  "empty_store = \<lparr>rd_sets = Map.empty, rd_counts = Map.empty\<rparr>"

lemma empty_store_wf [simp]: "store_wf empty_store"
  by (simp add: store_wf_def empty_store_def)

lemma empty_store_held [simp]: "slots_held conf a clock empty_store = 0"
  by (simp add: slots_held_def holders_def in_time_def members_def get_set_def no_set_def empty_store_def)

definition two_acquired :: redis_store where
  "two_acquired =
     snd (acquireScript (accountSlotKey 7) (liveAccountSlotKey 7) 1 900 ''r2'' 5000
       (snd (acquireScript (accountSlotKey 7) (liveAccountSlotKey 7) 1 900 ''r1'' 3000 empty_store)))"

theorem account_slots_bounded_witness:
  "int (slots_held (NewConcurrencyCache 15 0) 7 5000 two_acquired) \<le> 1"
proof -
  let ?conf = "NewConcurrencyCache 15 0"
  have ttl: "slotTTLSeconds ?conf = 900" by (simp add: NewConcurrencyCache_def)
  define f where "f r = (\<lambda>clock db. snd (acquireScript (accountSlotKey 7) (liveAccountSlotKey 7) 1 (slotTTLSeconds ?conf) r clock db))" for r
  have f: "slot_call ?conf 7 1 False (f r)" for r
    unfolding f_def by (rule slot_call.acquire) simp
  have "slot_run ?conf 7 1 False 0 empty_store 3000 (f ''r1'' 3000 empty_store)"
    by (rule slot_run.step [OF slot_run.start _ f]) simp
  then have "slot_run ?conf 7 1 False 0 empty_store 5000 (f ''r2'' 5000 (f ''r1'' 3000 empty_store))"
    by (rule slot_run.step [OF _ _ f]) simp
  then have "slot_run ?conf 7 1 False 0 empty_store 5000 two_acquired"
    by (simp add: f_def two_acquired_def ttl)
  from account_slots_bounded [OF this] show ?thesis by (simp add: ttl slot_bound_def)
qed

text \<open>C29 (slot_acquired_iff_room): When the call is answered, an acquisition succeeds exactly if the
  request holds a slot in time already or the account has fewer slots in time than the limit; it
  then holds one and the others keep theirs, and a refusal changes no slot in time.\<close>

theorem slot_acquired_iff_room:
  assumes "store_wf db" "0 < slotTTLSeconds conf" "fst (env 0) = Answered" "snd (env 0) = clock" "snd (env 1) = clock"
  shows "fst (AcquireAccountSlot conf env a n r db)
      = Inr (r \<in> holders (slotTTLSeconds conf) clock (accountSlotKey a) db \<or> int (slots_held conf a clock db) < n)
    \<and> holders (slotTTLSeconds conf) clock (accountSlotKey a) (snd (AcquireAccountSlot conf env a n r db))
      = (if fst (AcquireAccountSlot conf env a n r db) = Inr True
         then insert r (holders (slotTTLSeconds conf) clock (accountSlotKey a) db)
         else holders (slotTTLSeconds conf) clock (accountSlotKey a) db)"
proof -
  let ?R = "accountSlotKey a" and ?V = "liveAccountSlotKey a" and ?ttl = "slotTTLSeconds conf"
  have ne: "?R \<noteq> ?V" by (simp add: slot_keys)
  have room: "has_room ?R ?V n ?ttl r clock db
      \<longleftrightarrow> r \<in> holders ?ttl clock ?R db \<or> int (slots_held conf a clock db) < n"
    by (simp add: has_room_def slots_held_def liveLeaseTTLSeconds_def)
  define db1 where "db1 = snd (acquireScript ?R ?V n ?ttl r clock db)"
  have called: "call env 0 (acquireScript ?R ?V n ?ttl r) db
      = (Inr (if has_room ?R ?V n ?ttl r clock db then 1 else 0, seconds clock), db1)"
    using acquireScript_result [OF assms(1) ne, of n ?ttl r clock] assms(3,4)
    by (cases "env 0"; cases "acquireScript ?R ?V n ?ttl r clock db") (simp add: call_def db1_def)
  then have result: "fst (AcquireAccountSlot conf env a n r db)
      = Inr (r \<in> holders ?ttl clock ?R db \<or> int (slots_held conf a clock db) < n)"
    unfolding AcquireAccountSlot_def room by simp
  have index: "holders ?ttl clock ?R (touchActiveIndexAt env 1 accountActiveIndexKey a e db1) = holders ?ttl clock ?R db1" for e
  proof (rule holders_members)
    have "?R \<noteq> accountActiveIndexKey" by (simp add: slot_key_defs)
    then show "members clock ?R (touchActiveIndexAt env 1 accountActiveIndexKey a e db1) = members clock ?R db1"
      using assms(5) by (cases "env 1"; cases "fst (env 1)")
        (simp_all add: touchActiveIndexAt_def call_def redis_simps)
  qed
  have "holders ?ttl clock ?R (snd (AcquireAccountSlot conf env a n r db)) = holders ?ttl clock ?R db1"
    using called index unfolding AcquireAccountSlot_def by simp
  then have "holders ?ttl clock ?R (snd (AcquireAccountSlot conf env a n r db))
      = (if fst (AcquireAccountSlot conf env a n r db) = Inr True
         then insert r (holders ?ttl clock ?R db) else holders ?ttl clock ?R db)"
    using acquireScript_key [OF assms(1) ne assms(2), of clock n r] unfolding result room db1_def by simp
  then show ?thesis using result by blast
qed

theorem slot_acquired_iff_room_witness:
  "fst (AcquireAccountSlot (NewConcurrencyCache 15 0) (\<lambda>_. (Answered, 3000)) 7 1 ''r1'' empty_store) = Inr True"
  using slot_acquired_iff_room [of empty_store "NewConcurrencyCache 15 0" "\<lambda>_. (Answered, 3000)" 3000 7 1 "''r1''"]
  by (simp add: NewConcurrencyCache_def)

end
