(* ===== verification/ConcurrencyRuns.thy ===== *)
theory ConcurrencyRuns
  imports ConcurrencyLimits
begin

text \<open>
  Operations as sequences of calls: each operation of the cache is a run of the kind the limit is
  proved for, whatever its calls answer; the cleanups keep every slot that is in time; and what a
  group's snapshot shows.
\<close>

section \<open>Operations are runs\<close>

lemma adds_no_slotI:
  assumes "\<And>clock db. store_wf db \<Longrightarrow> store_wf (f clock db)"
    and "\<And>clock db key. store_wf db \<Longrightarrow> key = accountSlotKey a \<or> key = liveAccountSlotKey a \<Longrightarrow>
      map_of (members clock key (f clock db)) \<subseteq>\<^sub>m map_of (members clock key db)"
  shows "adds_no_slot a f"
  using assms unfolding adds_no_slot_def by blast

lemma map_le_delete: "(m(k := None)) \<subseteq>\<^sub>m m"
  by (simp add: map_le_def)

lemma map_le_filter: "gomap_wf m \<Longrightarrow> map_of (filter (\<lambda>p. Q (snd p)) m) \<subseteq>\<^sub>m map_of m"
  using map_of_filter_snd [of m Q] by (fastforce simp: map_le_def)

lemma prune_le:
  "store_wf db \<Longrightarrow> map_of (members clock key' (zremrangebyscore clock key most db)) \<subseteq>\<^sub>m map_of (members clock key' db)"
  using map_le_filter [OF store_wf_members, where Q = "\<lambda>v. most < v"] by (simp add: redis_simps)

lemma adds_no_slot_zrem: "adds_no_slot a (\<lambda>clock db. zrem clock key m db)"
  by (rule adds_no_slotI) (simp_all add: redis_simps map_le_delete)

lemma adds_no_slot_prune: "adds_no_slot a (\<lambda>clock db. zremrangebyscore clock key most db)"
  by (rule adds_no_slotI) (simp_all add: prune_le)

lemma adds_no_slot_zadd: "key \<in> other_sets \<Longrightarrow> adds_no_slot a (\<lambda>clock db. zadd clock key score m db)"
  by (rule adds_no_slotI) (use slot_keys in \<open>auto simp: redis_simps\<close>)

lemma adds_no_slot_id: "adds_no_slot a (\<lambda>clock db. db)"
  by (rule adds_no_slotI) simp_all

lemma adds_no_slot_acquire:
  assumes "key \<noteq> accountSlotKey a" "liveKey \<noteq> accountSlotKey a" "key \<noteq> liveAccountSlotKey a" "liveKey \<noteq> liveAccountSlotKey a"
    and "0 < ttl"
  shows "adds_no_slot a (\<lambda>clock db. snd (acquireScript key liveKey n ttl r clock db))"
  using assms by (intro adds_no_slotI) (auto simp: acquireScript_def Let_def redis_simps)


definition in_sequence :: "int \<Rightarrow> conc_env \<Rightarrow> bool" where
  "in_sequence clock env \<longleftrightarrow> clock \<le> snd (env 0) \<and> (\<forall>n. snd (env n) \<le> snd (env (Suc n)))"

definition reached ::
  "conc_conf \<Rightarrow> int \<Rightarrow> int \<Rightarrow> bool \<Rightarrow> int \<Rightarrow> redis_store \<Rightarrow> conc_env \<Rightarrow> nat \<Rightarrow> redis_store \<Rightarrow> bool" where
  "reached conf a limit replacing clock0 db0 env n db \<longleftrightarrow>
     (\<forall>n. snd (env n) \<le> snd (env (Suc n)))
     \<and> (\<exists>clock \<le> snd (env n). slot_run conf a limit replacing clock0 db0 clock db)"

lemma reached_Suc: "reached conf a limit replacing clock0 db0 env n db \<Longrightarrow> reached conf a limit replacing clock0 db0 env (Suc n) db"
  unfolding reached_def by (meson order_trans)

lemma call_reached:
  assumes "reached conf a limit replacing clock0 db0 env n db"
    and "slot_call conf a limit replacing (\<lambda>clock db. snd (f clock db))"
  shows "reached conf a limit replacing clock0 db0 env (Suc n) (snd (call env n f db))"
proof -
  obtain clock where c: "clock \<le> snd (env n)" "slot_run conf a limit replacing clock0 db0 clock db"
    using assms(1) unfolding reached_def by blast
  have "slot_run conf a limit replacing clock0 db0 (snd (env n)) (snd (f (snd (env n)) db))"
    using slot_run.step [OF c(2,1) assms(2)] by simp
  moreover have "snd (call env n f db) = snd (f (snd (env n)) db) \<or> snd (call env n f db) = db"
    by (cases "env n"; cases "fst (env n)") (simp_all add: call_def split: prod.split)
  ultimately show ?thesis
    using assms(1) c unfolding reached_def by (metis order_trans)
qed

lemma other_reached:
  "reached conf a limit replacing clock0 db0 env n db \<Longrightarrow> adds_no_slot a (\<lambda>clock db. snd (f clock db)) \<Longrightarrow>
   reached conf a limit replacing clock0 db0 env (Suc n) (snd (call env n f db))"
  using call_reached slot_call.other by blast

lemma touch_reached:
  "reached conf a limit replacing clock0 db0 env n db \<Longrightarrow> index \<in> other_sets \<Longrightarrow>
   reached conf a limit replacing clock0 db0 env (Suc n) (touchActiveIndexAt env n index i e db)"
  unfolding touchActiveIndexAt_def by (simp add: reached_Suc other_reached adds_no_slot_zadd)

lemma refresh_reached:
  assumes r: "reached conf a limit replacing clock0 db0 env n db" and index: "index \<in> other_sets"
  shows "\<exists>k. reached conf a limit replacing clock0 db0 env k (refreshActiveIndex cf env n index i slots waits db)"
proof -
  obtain now db1 where t: "redisUnixSeconds env n db = (now, db1)" by fastforce
  have r1: "reached conf a limit replacing clock0 db0 env (Suc n) db1"
    using other_reached [OF r, of "\<lambda>clock db. (seconds clock, db)"] t adds_no_slot_id
    by (simp add: redisUnixSeconds_def)
  show ?thesis
  proof (cases now)
    case (Inl e)
    then show ?thesis using r r1 t by (auto simp: refreshActiveIndex_def)
  next
    case (Inr secs)
    obtain load db2 where l: "readActiveLoadForKey cf env (n + 1) i slots waits secs db1 = (load, db2)" by fastforce
    have r2: "reached conf a limit replacing clock0 db0 env (Suc (Suc n)) db2"
      using other_reached [OF r1, where f = "\<lambda>clock db. let db1 = zremrangebyscore clock slots (secs - slotTTLSeconds cf) db
          in (\<lparr>load_id = i, load_member = itoa i, slotCount = zcard clock slots db1,
            waitCount = positive_count (get_count clock waits db1)\<rparr>, db1)"] l adds_no_slot_prune
      by (simp add: readActiveLoadForKey_def Let_def)
    have r3: "reached conf a limit replacing clock0 db0 env (Suc (Suc (Suc n)))
        (snd (call env (n + 2) (\<lambda>clock db. ((), zrem clock index (itoa i) db)) db2))"
      using other_reached [OF r2, where f = "\<lambda>clock db. ((), zrem clock index (itoa i) db)"] adds_no_slot_zrem by simp
    have r4: "reached conf a limit replacing clock0 db0 env (Suc (Suc (Suc n))) (touchActiveIndexAt env (n + 2) index i e db2)" for e
      using touch_reached [OF r2 index] by simp
    show ?thesis
      using r r2 r3 r4 t l Inr by (cases load) (auto simp: refreshActiveIndex_def Let_def)
  qed
qed

lemma start_reached:
  "slot_run conf a limit replacing clock0 db0 clock db \<Longrightarrow> in_sequence clock env \<Longrightarrow>
   reached conf a limit replacing clock0 db0 env 0 db"
  unfolding reached_def in_sequence_def by blast

text \<open>Every operation on account slots and on leases continues a run.\<close>

lemma acquire_account_runs:
  assumes run: "slot_run conf a limit replacing clock0 db0 clock db" "in_sequence clock env" and n: "b = a \<Longrightarrow> n \<le> limit"
    and ttl: "0 < slotTTLSeconds conf"
  shows "\<exists>clock'. slot_run conf a limit replacing clock0 db0 clock' (snd (AcquireAccountSlot conf env b n r db))"
proof -
  let ?f = "acquireScript (accountSlotKey b) (liveAccountSlotKey b) n (slotTTLSeconds conf) r"
  have "slot_call conf a limit replacing (\<lambda>clock db. snd (?f clock db))"
  proof (cases "b = a")
    case True
    then show ?thesis using slot_call.acquire [OF n] by simp
  next
    case False
    then show ?thesis using ttl by (intro slot_call.other adds_no_slot_acquire) (auto simp: slot_keys)
  qed
  from call_reached [OF start_reached [OF run] this]
  obtain res db1 where c: "call env 0 ?f db = (res, db1)" "reached conf a limit replacing clock0 db0 env (Suc 0) db1"
    by (cases "call env 0 ?f db") simp
  have "reached conf a limit replacing clock0 db0 env (Suc 1) (touchActiveIndexAt env 1 accountActiveIndexKey b e db1)" for e
    using touch_reached [of conf a limit replacing clock0 db0 env 1] c(2) slot_keys by simp
  then show ?thesis
    using c unfolding AcquireAccountSlot_def reached_def by (cases res) (auto split: prod.split)
qed

lemma release_account_runs:
  assumes run: "slot_run conf a limit replacing clock0 db0 clock db" "in_sequence clock env"
  shows "\<exists>clock'. slot_run conf a limit replacing clock0 db0 clock' (snd (ReleaseAccountSlot conf env b r db))"
proof -
  let ?f = "\<lambda>clock db. ((), zrem clock (accountSlotKey b) r db)"
  obtain res db1 where c: "call env 0 ?f db = (res, db1)" "reached conf a limit replacing clock0 db0 env (Suc 0) db1"
    using other_reached [OF start_reached [OF run], of ?f] adds_no_slot_zrem by (cases "call env 0 ?f db") simp
  then obtain k where "reached conf a limit replacing clock0 db0 env k (refreshAccountActiveIndex conf env 1 b db1)"
    unfolding refreshAccountActiveIndex_def One_nat_def
    using refresh_reached [OF c(2) member_other_sets(7)] by blast
  then show ?thesis using c unfolding ReleaseAccountSlot_def reached_def by (cases res) auto
qed

lemma live_lease_runs:
  assumes run: "slot_run conf a limit replacing clock0 db0 clock db" "in_sequence clock env"
    and n: "0 < n" "n \<le> limit" "rep \<longrightarrow> replacing"
  shows "\<exists>clock'. slot_run conf a limit replacing clock0 db0 clock' (snd (AcquireLiveLease env a n u um k l rep db))"
    and "\<exists>clock'. slot_run conf a limit replacing clock0 db0 clock' (snd (RefreshLiveLease env a u k l db))"
    and "\<exists>clock'. slot_run conf a limit replacing clock0 db0 clock' (snd (ReleaseLiveLease env a u k l db))"
proof -
  note s = start_reached [OF run]
  have l: "reached conf a limit replacing clock0 db0 env (Suc 0) (snd (call env 0 (acquireLiveLeaseScript (lease_keys_of a u k) n um
                              liveLeaseTTLSeconds l (if rep then 1 else 0)) db))"
    by (rule call_reached [OF s slot_call.lease]) (use n in auto)
  show "\<exists>clock'. slot_run conf a limit replacing clock0 db0 clock' (snd (AcquireLiveLease env a n u um k l rep db))"
    using l s unfolding AcquireLiveLease_def reached_def by (auto split: prod.split sum.split)
  have r: "reached conf a limit replacing clock0 db0 env (Suc 0) (snd (call env 0 (refreshLiveLeaseScript
                  [liveAccountSlotKey a, liveUserSlotKey u, liveAPIKeySlotKey k] liveLeaseTTLSeconds l) db))"
    by (rule call_reached [OF s slot_call.renew])
  show "\<exists>clock'. slot_run conf a limit replacing clock0 db0 clock' (snd (RefreshLiveLease env a u k l db))"
    using r s unfolding RefreshLiveLease_def reached_def by (auto split: prod.split sum.split)
  have "adds_no_slot a (\<lambda>clock db. zrem clock (liveAPIKeySlotKey k) l
                    (zrem clock (liveUserSlotKey u) l (zrem clock (liveAccountSlotKey a) l db)))"
    by (rule adds_no_slotI) (auto simp: redis_simps slot_key_defs map_le_delete)
  then have "reached conf a limit replacing clock0 db0 env (Suc 0) (snd (call env 0 (\<lambda>clock db.
             ((), zrem clock (liveAPIKeySlotKey k) l
                    (zrem clock (liveUserSlotKey u) l (zrem clock (liveAccountSlotKey a) l db)))) db))"
    by (intro other_reached [OF s]) simp
  then show "\<exists>clock'. slot_run conf a limit replacing clock0 db0 clock' (snd (ReleaseLiveLease env a u k l db))"
    using s unfolding ReleaseLiveLease_def reached_def by auto
qed

section \<open>Cleanups keep slots\<close>

definition slot_sets :: "string set" where
  "slot_sets = range accountSlotKey \<union> range userSlotKey"

text \<open>Nothing in time at the later \<open>clock\<close> is gained or lost, and no counter changes.\<close>

definition keeps_slots :: "int \<Rightarrow> int \<Rightarrow> redis_store \<Rightarrow> redis_store \<Rightarrow> bool" where
  "keeps_slots ttl clock db db' \<longleftrightarrow>
     (store_wf db \<longrightarrow> store_wf db') \<and> rd_counts db' = rd_counts db
     \<and> (store_wf db \<longrightarrow> (\<forall>key \<in> slot_sets. holders ttl clock key db' = holders ttl clock key db))"

lemma keeps_refl [simp]: "keeps_slots ttl clock db db"
  by (simp add: keeps_slots_def)

lemma keeps_trans: "keeps_slots ttl clock db db1 \<Longrightarrow> keeps_slots ttl clock db1 db2 \<Longrightarrow> keeps_slots ttl clock db db2"
  unfolding keeps_slots_def by auto

lemma members_put_other: "key' \<noteq> key \<Longrightarrow> members clock' key' (put_set key z db) = members clock' key' db"
  by (simp add: members_def get_put_other)

lemma members_prune_later:
  assumes "clock \<le> clock'"
  shows "members clock' key (zremrangebyscore clock key most db) = filter (\<lambda>p. most < snd p) (members clock' key db)"
proof -
  have keep: "not_expired clock e" if "not_expired clock' e" for e
    using assms that by (auto simp: not_expired_def split: option.splits)
  show ?thesis
    using keep
    by (auto simp: members_def zremrangebyscore_def Let_def put_set_def get_set_def no_set_def filter_empty_conv
        split: option.split)
qed

lemma keeps_prune:
  assumes "clock' \<le> clock" "most \<le> seconds clock - ttl"
  shows "keeps_slots ttl clock db (zremrangebyscore clock' key most db)"
proof -
  have "holders ttl clock key' (zremrangebyscore clock' key most db) = holders ttl clock key' db" for key'
  proof (cases "key' = key")
    case True
    have eq: "in_time ttl clock key (zremrangebyscore clock' key most db) = in_time ttl clock key db"
      using assms unfolding in_time_def members_prune_later [OF assms(1)]
      by (auto simp: seconds_def intro!: filter_cong)
    show ?thesis unfolding holders_def True eq ..
  next
    case False
    then show ?thesis
      by (intro holders_members) (simp add: zremrangebyscore_def Let_def members_put_other)
  qed
  moreover have "rd_counts (zremrangebyscore clock' key most db) = rd_counts db"
    by (simp add: zremrangebyscore_def put_set_def Let_def)
  ultimately show ?thesis by (simp add: keeps_slots_def)
qed

lemma keeps_slotsI:
  assumes "store_wf db \<Longrightarrow> store_wf db'" "rd_counts db' = rd_counts db"
    and "\<And>key. key \<in> slot_sets \<Longrightarrow> members clock key db' = members clock key db"
  shows "keeps_slots ttl clock db db'"
proof -
  have "holders ttl clock key db' = holders ttl clock key db" if "key \<in> slot_sets" for key
    by (rule holders_members [OF assms(3) [OF that]])
  then show ?thesis unfolding keeps_slots_def using assms(1,2) by blast
qed

lemma index_not_slots: "key \<in> slot_sets \<Longrightarrow> key \<notin> other_sets"
  by (auto simp: slot_sets_def slot_keys)

lemma keeps_index:
  assumes "index \<in> other_sets"
  shows "keeps_slots ttl clock db (zadd clock' index score m db)" "keeps_slots ttl clock db (zrem clock' index m db)"
proof -
  have ne: "key \<noteq> index" if "key \<in> slot_sets" for key
    using index_not_slots [OF that] assms by auto
  have same: "members clock key (zadd clock' index score m db) = members clock key db"
    "members clock key (zrem clock' index m db) = members clock key db" if "key \<in> slot_sets" for key
    using ne [OF that] by (simp_all add: zadd_def zrem_def Let_def members_put_other)
  have counts: "rd_counts (zadd clock' index score m db) = rd_counts db" "rd_counts (zrem clock' index m db) = rd_counts db"
    by (simp_all add: zadd_def zrem_def put_set_def Let_def)
  show "keeps_slots ttl clock db (zadd clock' index score m db)" "keeps_slots ttl clock db (zrem clock' index m db)"
    using same counts by (intro keeps_slotsI; simp)+
qed

lemma keeps_fold:
  "(\<And>x db. keeps_slots ttl clock db (f x db)) \<Longrightarrow> keeps_slots ttl clock db (fold f xs db)"
  by (induction xs arbitrary: db) (auto intro: keeps_trans)

lemma keeps_call:
  assumes "\<And>clock' db. clock' \<le> clock \<Longrightarrow> keeps_slots ttl clock db (snd (f clock' db))" "snd (env n) \<le> clock"
  shows "keeps_slots ttl clock db (snd (call env n f db))"
  using assms(1) [OF assms(2), of db]
  by (cases "env n"; cases "fst (env n)") (auto simp: call_def split: prod.split)

lemma keeps_read_chunk:
  "clock' \<le> clock \<Longrightarrow> most \<le> seconds clock - ttl \<Longrightarrow> keeps_slots ttl clock db (snd (read_chunk spec most cs clock' db))"
proof (induction spec most cs clock' db rule: read_chunk.induct)
  case (2 spec most i member rest clock' db)
  have "keeps_slots ttl clock (zremrangebyscore clock' (slotKey spec i) most db)
      (snd (read_chunk spec most rest clock' (zremrangebyscore clock' (slotKey spec i) most db)))"
    using 2 by simp
  then show ?case
    using keeps_trans [OF keeps_prune [OF 2(2,3)]] by (auto simp: Let_def split: prod.split)
qed simp

lemma keeps_read_chunks:
  assumes "\<forall>n. snd (env n) \<le> clock" "most \<le> seconds clock - ttl"
  shows "keeps_slots ttl clock db (snd (read_chunks env n spec most cs db))"
  using assms
proof (induction env n spec most cs db rule: read_chunks.induct)
  case (1 env n spec most cs db)
  show ?case
  proof (cases "cs = []")
    case True
    then show ?thesis by (simp add: read_chunks.simps)
  next
    case False
    obtain res db1 where c: "call env n (read_chunk spec most (take 500 cs)) db = (res, db1)" by fastforce
    have k1: "keeps_slots ttl clock db db1"
      using keeps_call [of clock ttl "read_chunk spec most (take 500 cs)" env n db] keeps_read_chunk 1(2,3) c
      by (metis snd_conv)
    show ?thesis
    proof (cases res)
      case (Inl e)
      then show ?thesis using k1 c False by (simp add: read_chunks.simps [of env n spec most cs])
    next
      case (Inr loads)
      have "keeps_slots ttl clock db1 (snd (read_chunks env (n + 1) spec most (drop 500 cs) db1))"
        using 1(1) [OF False c [symmetric] Inr 1(2,3)] .
      then show ?thesis
        using keeps_trans [OF k1] c Inr False
        by (cases "read_chunks env (n + 1) spec most (drop 500 cs) db1"; cases "fst (read_chunks env (n + 1) spec most (drop 500 cs) db1)")
           (simp_all add: read_chunks.simps [of env n spec most cs])
    qed
  qed
qed

lemma keeps_settle:
  assumes "index \<in> other_sets" "\<forall>n. snd (env n) \<le> clock"
  shows "keeps_slots ttl clock db (settle_index conf env n index now r db)"
proof (cases r)
  case (Pair loads stale)
  define refreshed where "refreshed = map (\<lambda>l. (load_member l, now + activeIndexTTL conf (slotCount l) (waitCount l))) (filter has_load loads)"
  define db1 where "db1 = (if refreshed = [] then db
      else snd (call env n (\<lambda>clock db. ((), fold (\<lambda>(m, score). zadd clock index score m) refreshed db)) db))"
  have "keeps_slots ttl clock db db1"
    unfolding db1_def
    using keeps_call [of clock ttl "\<lambda>clock db. ((), fold (\<lambda>(m, score). zadd clock index score m) refreshed db)" env n db]
      keeps_fold [of ttl clock "\<lambda>(m, score). zadd c index score m" for c] keeps_index(1) [OF assms(1)] assms(2)
    by (simp add: case_prod_beta)
  moreover have "keeps_slots ttl clock db1 (removeActiveIndexMembers env (n + 1) index ms db1)" for ms
    unfolding removeActiveIndexMembers_def
    using keeps_call [of clock ttl "\<lambda>clock db. ((), fold (zrem clock index) ms db)" env "n + 1" db1]
      keeps_fold [of ttl clock "zrem c index" for c] keeps_index(2) [OF assms(1)] assms(2) by simp
  ultimately show ?thesis
    unfolding settle_index_def Pair Let_def prod.case refreshed_def [symmetric] db1_def [symmetric]
    by (rule keeps_trans)
qed

lemma unix_seconds:
  "redisUnixSeconds env n db = (res, db1) \<Longrightarrow> db1 = db \<and> (\<forall>now. res = Inr now \<longrightarrow> now = seconds (snd (env n)))"
  by (cases "env n"; cases "fst (env n)") (auto simp: redisUnixSeconds_def call_def)

lemma keeps_loads_settle:
  assumes env: "\<forall>n. snd (env n) \<le> clock" and index: "indexKey spec \<in> other_sets"
    and now: "now \<le> seconds clock"
  shows "keeps_slots (slotTTLSeconds conf) clock db (snd (cleanupStaleProcessSlotsForIndex conf env spec ms now db))"
proof -
  obtain res db1 where r: "readIndexLoads conf env 2 spec ms now db = (res, db1)" by fastforce
  have k1: "keeps_slots (slotTTLSeconds conf) clock db db1"
    using keeps_read_chunks [OF env, of "now - slotTTLSeconds conf" "slotTTLSeconds conf" db 2 spec
        "map (\<lambda>m. (the (user_of_member m), m)) (filter (\<lambda>m. user_of_member m \<noteq> None) ms)"] r now
    unfolding readIndexLoads_def Let_def by (auto split: prod.splits sum.splits)
  then show ?thesis
    using r keeps_trans [OF k1 keeps_settle [OF index env]]
    by (cases res) (simp_all add: cleanupStaleProcessSlotsForIndex_def)
qed

lemma seconds_mono: "a \<le> b \<Longrightarrow> seconds a \<le> seconds b"
  by (simp add: seconds_def zdiv_mono1)

lemma spec_indexes [simp]:
  "indexKey accountSlotIndex \<in> other_sets" "indexKey userSlotIndex \<in> other_sets"
  by (simp_all add: accountSlotIndex_def userSlotIndex_def slot_keys)

lemma keeps_reads: "snd (call env n (\<lambda>clock db. (f clock db, db)) db) = db"
  by (cases "env n"; cases "fst (env n)") (simp_all add: call_def)

lemma all_members_reads: "snd (allIndexMembers env n index db) = db"
  unfolding allIndexMembers_def by (rule keeps_reads)

lemma keeps_reconcile:
  assumes env: "\<forall>n. snd (env n) \<le> clock" and index: "indexKey spec \<in> other_sets"
  shows "keeps_slots (slotTTLSeconds conf) clock db (snd (reconcileExpiredIndexCandidates conf env spec db))"
proof -
  obtain res db1 where t: "redisUnixSeconds env 0 db = (res, db1)" by fastforce
  note u = unix_seconds [OF t]
  show ?thesis
  proof (cases res)
    case (Inl e)
    then show ?thesis using t u by (simp add: reconcileExpiredIndexCandidates_def)
  next
    case (Inr now)
    then have now: "now \<le> seconds clock" using u seconds_mono env by simp
    obtain res2 db2 where m: "call env 1 (\<lambda>clock db. (zrangebyscore clock (indexKey spec) now 1000 db, db)) db = (res2, db2)"
      by fastforce
    then have "db2 = db"
      using keeps_reads [of env 1 "\<lambda>clock db. zrangebyscore clock (indexKey spec) now 1000 db" db] by simp
    have eq: "reconcileExpiredIndexCandidates conf env spec db
        = (case res2 of Inl e \<Rightarrow> (Inl e, db2) | Inr ms \<Rightarrow> cleanupStaleProcessSlotsForIndex conf env spec ms now db2)"
      unfolding reconcileExpiredIndexCandidates_def cleanupStaleProcessSlotsForIndex_def t Inr prod.case sum.case
        conjunct1 [OF u] m by (rule refl)
    show ?thesis
      unfolding eq using keeps_loads_settle [OF env index now] \<open>db2 = db\<close> by (cases res2) simp_all
  qed
qed

text \<open>C30 (cleanup_keeps_slots): The periodic cleanup and the one at the start of a process, whatever their
  calls answer, take away no slot of an account or a user that is in time when they end, whichever
  process holds it, and change no wait counter.\<close>

theorem cleanup_keeps_slots:
  assumes "store_wf db" "\<forall>n. snd (env n) \<le> clock" "\<forall>n. snd (env' n) \<le> clock" "key \<in> slot_sets"
    and "cleanup = CleanupExpiredAccountSlotKeys conf env env'
      \<or> cleanup = CleanupStaleProcessSlots conf env env' activeRequestPrefix"
  shows "holders (slotTTLSeconds conf) clock key (snd (cleanup db)) = holders (slotTTLSeconds conf) clock key db
    \<and> rd_counts (snd (cleanup db)) = rd_counts db"
proof -
  let ?keeps = "keeps_slots (slotTTLSeconds conf) clock"
  have periodic: "?keeps db (snd (CleanupExpiredAccountSlotKeys conf env env' db))"
  proof -
    obtain res db1 where r: "reconcileExpiredIndexCandidates conf env accountSlotIndex db = (res, db1)" by fastforce
    then have k: "?keeps db db1" using keeps_reconcile [OF assms(2), of accountSlotIndex conf db] by simp
    then show ?thesis
      using r keeps_trans [OF k keeps_reconcile [OF assms(3)]]
      by (cases res) (simp_all add: CleanupExpiredAccountSlotKeys_def)
  qed
  have start: "?keeps db (snd (CleanupStaleProcessSlots conf env env' activeRequestPrefix db))"
  proof -
    obtain res db1 where t: "redisUnixSeconds env 0 db = (res, db1)" by fastforce
    note u = unix_seconds [OF t]
    show ?thesis
    proof (cases res)
      case (Inl e)
      then show ?thesis using t u by (simp add: CleanupStaleProcessSlots_def)
    next
      case (Inr now)
      then have now: "now \<le> seconds clock" using u seconds_mono assms(2) by simp
      obtain res2 db2 where m: "allIndexMembers env 1 accountActiveIndexKey db = (res2, db2)" by fastforce
      have eq2: "db2 = db" using m all_members_reads [of env 1 accountActiveIndexKey db] by simp
      have eq: "CleanupStaleProcessSlots conf env env' activeRequestPrefix db
          = (if activeRequestPrefix = [] then (Inr (), db)
             else case res2 of Inl e \<Rightarrow> (Inl e, db)
             | Inr accounts \<Rightarrow>
                 (case cleanupStaleProcessSlotsForIndex conf env accountSlotIndex accounts now db of
                    (Inl e, db3) \<Rightarrow> (Inl e, db3)
                  | (Inr u, db3) \<Rightarrow>
                      (case allIndexMembers env' 1 userActiveIndexKey db3 of
                         (Inl e, db4) \<Rightarrow> (Inl e, db4)
                       | (Inr users, db4) \<Rightarrow> cleanupStaleProcessSlotsForIndex conf env' userSlotIndex users now db4)))"
        unfolding CleanupStaleProcessSlots_def t Inr prod.case sum.case conjunct1 [OF u] m eq2 by (rule refl)
      have users: "?keeps db3 (snd (case allIndexMembers env' 1 userActiveIndexKey db3 of
                         (Inl e, db4) \<Rightarrow> (Inl e, db4)
                       | (Inr users, db4) \<Rightarrow> cleanupStaleProcessSlotsForIndex conf env' userSlotIndex users now db4))" for db3
      proof -
        obtain res4 db4 where m': "allIndexMembers env' 1 userActiveIndexKey db3 = (res4, db4)" by fastforce
        have "db4 = db3" using m' all_members_reads [of env' 1 userActiveIndexKey db3] by simp
        then show ?thesis
          unfolding m' using keeps_loads_settle [OF assms(3) _ now, of userSlotIndex conf db3] by (cases res4) simp_all
      qed
      show ?thesis
      proof (cases res2)
        case (Inl e)
        then show ?thesis unfolding eq by simp
      next
        case (Inr accounts)
        obtain res3 db3 where c: "cleanupStaleProcessSlotsForIndex conf env accountSlotIndex accounts now db = (res3, db3)"
          by fastforce
        have k3: "?keeps db db3"
          using keeps_loads_settle [OF assms(2) _ now, of accountSlotIndex conf db accounts] c by simp
        show ?thesis
          unfolding eq Inr sum.case c prod.case
          using k3 keeps_trans [OF k3 users] by (cases res3) simp_all
      qed
    qed
  qed
  show ?thesis
    using assms(1,4,5) periodic start unfolding keeps_slots_def by auto
qed

theorem cleanup_keeps_slots_witness:
  "holders 900 5000 (accountSlotKey 7)
     (snd (CleanupStaleProcessSlots (NewConcurrencyCache 15 0) (\<lambda>_. (Answered, 5000)) (\<lambda>_. (AnswerLost, 5000)) ''r9'' two_acquired))
   = holders 900 5000 (accountSlotKey 7) two_acquired"
proof -
  have wf: "store_wf two_acquired" by (simp add: two_acquired_def acquireScript_store_wf)
  have key: "accountSlotKey 7 \<in> slot_sets" by (simp add: slot_sets_def)
  have ttl: "slotTTLSeconds (NewConcurrencyCache 15 0) = 900" by (simp add: NewConcurrencyCache_def)
  show ?thesis
    using cleanup_keeps_slots [OF wf _ _ key, of "\<lambda>_. (Answered, 5000)" 5000 "\<lambda>_. (AnswerLost, 5000)"
        "CleanupStaleProcessSlots (NewConcurrencyCache 15 0) (\<lambda>_. (Answered, 5000)) (\<lambda>_. (AnswerLost, 5000)) ''r9''"
        "NewConcurrencyCache 15 0" "''r9''"]
    by (simp add: ttl)
qed

section \<open>The snapshot of a group\<close>

text \<open>What happens to the set of a group: requests are tracked, tracked again and released, in any
  order and with any outcome of the calls, and other keys are written.\<close>

inductive group_run :: "int \<Rightarrow> int \<Rightarrow> redis_store \<Rightarrow> bool" for g where
  start: "group_run g clock empty_store"
| track: "group_run g clock db \<Longrightarrow> clock \<le> snd (env 0) \<Longrightarrow> a < 2 ^ 63 \<Longrightarrow>
    group_run g (snd (env 0)) (snd (TrackGroupSlot env g a r db))"
| release: "group_run g clock db \<Longrightarrow> clock \<le> snd (env 0) \<Longrightarrow>
    group_run g (snd (env 0)) (snd (ReleaseGroupSlot env g a r db))"
| foreign: "group_run g clock db \<Longrightarrow> clock \<le> clock' \<Longrightarrow> store_wf (f db) \<Longrightarrow>
    rd_sets (f db) (groupSlotKey g) = rd_sets db (groupSlotKey g) \<Longrightarrow> group_run g clock' (f db)"

definition readable :: "string \<Rightarrow> bool" where
  "readable m \<longleftrightarrow> (\<exists>a r. m = groupSlotMember a r \<and> 0 < a \<and> a < 2 ^ 63 \<and> r \<noteq> [])"

lemma parse_readable:
  assumes "0 < a" "a < 2 ^ 63" "r \<noteq> []"
  shows "parseGroupSlotMember (groupSlotMember a r) = (a, True)"
  using assms by (simp add: parseGroupSlotMember_def split_groupSlotMember atoi_itoa)

definition all_readable :: "int \<Rightarrow> string \<Rightarrow> redis_store \<Rightarrow> bool" where
  "all_readable clock key db \<longleftrightarrow> store_wf db \<and> (\<forall>m \<in> fst ` set (members clock key db). readable m)"

lemma all_readable_later: "all_readable clock key db \<Longrightarrow> clock \<le> clock' \<Longrightarrow> all_readable clock' key db"
  using members_later [of clock clock' key db] by (auto simp: all_readable_def)

lemma readable_call:
  assumes "all_readable (snd (env n)) key db" "all_readable (snd (env n)) key (snd (f (snd (env n)) db))"
  shows "all_readable (snd (env n)) key (snd (call env n f db))"
  using assms by (cases "env n"; cases "fst (env n)") (auto simp: call_def split: prod.split)

lemma fst_filter_subset: "fst ` set (filter P xs) \<subseteq> fst ` set xs"
  by auto

lemma group_run_readable: "group_run g clock db \<Longrightarrow> all_readable clock (groupSlotKey g) db"
proof (induction rule: group_run.induct)
  case (start clock)
  have "members clock (groupSlotKey g) empty_store = []"
    by (simp add: members_def get_set_def no_set_def empty_store_def)
  then show ?case by (simp add: all_readable_def)
next
  case (track clock db env a r)
  let ?k = "groupSlotKey g"
  have now: "all_readable (snd (env 0)) ?k db" using track.IH track.hyps(2) by (rule all_readable_later)
  show ?case
  proof (cases "g \<le> 0 \<or> a \<le> 0 \<or> r = []")
    case True
    then show ?thesis using now by (simp add: TrackGroupSlot_def)
  next
    case False
    then have "readable (groupSlotMember a r)" using track.hyps(3) by (force simp: readable_def)
    then have "all_readable (snd (env 0)) ?k (snd (trackSlotScript ?k groupSlotTTLSeconds (groupSlotMember a r) (snd (env 0)) db))"
      using now fst_filter_subset
      by (fastforce simp: all_readable_def trackSlotScript_def Let_def redis_simps groupSlotTTLSeconds_def)
    then show ?thesis using False readable_call [where env = env and n = 0, OF now] by (simp add: TrackGroupSlot_def)
  qed
next
  case (release clock db env a r)
  let ?k = "groupSlotKey g"
  have now: "all_readable (snd (env 0)) ?k db" using release.IH release.hyps(2) by (rule all_readable_later)
  then have "all_readable (snd (env 0)) ?k (zrem (snd (env 0)) ?k (groupSlotMember a r) db)"
    by (auto simp: all_readable_def redis_simps)
  then have "all_readable (snd (env 0)) ?k
      (snd (call env 0 (\<lambda>clock db. ((), zrem clock ?k (groupSlotMember a r) db)) db))"
    using now by (intro readable_call) simp_all
  then show ?case using now by (simp add: ReleaseGroupSlot_def)
next
  case (foreign clock db clock' f)
  have "members clock' (groupSlotKey g) (f db) = members clock' (groupSlotKey g) db"
    using foreign.hyps(4) by (simp add: members_def get_set_def)
  then show ?case using all_readable_later [OF foreign.IH foreign.hyps(2)] foreign.hyps(3) by (simp add: all_readable_def)
qed

definition count_of :: "(int \<rightharpoonup> int) \<Rightarrow> int \<Rightarrow> int" where
  "count_of counts a = (case counts a of None \<Rightarrow> 0 | Some n \<Rightarrow> n)"

lemma count_members_counts:
  assumes "\<forall>m \<in> set ms. readable m"
  shows "snd (count_members ms counts complete) = complete
    \<and> count_of (fst (count_members ms counts complete)) a
        = count_of counts a + int (length (filter (\<lambda>m. \<exists>r. m = groupSlotMember a r) ms))"
  using assms
proof (induction ms counts complete rule: count_members.induct)
  case (2 m ms counts complete)
  then obtain b r where m: "m = groupSlotMember b r" "0 < b" "b < 2 ^ 63" "r \<noteq> []" by (auto simp: readable_def)
  have p: "parseGroupSlotMember m = (b, True)" unfolding m(1) using m(2-4) by (rule parse_readable)
  define counts1 where "counts1 = counts(b \<mapsto> (case counts b of None \<Rightarrow> 0 | Some n \<Rightarrow> n) + 1)"
  have run: "count_members (m # ms) counts complete = count_members ms counts1 complete"
    by (simp add: p counts1_def)
  have "snd (count_members ms counts1 complete) = complete
    \<and> count_of (fst (count_members ms counts1 complete)) a
        = count_of counts1 a + int (length (filter (\<lambda>m. \<exists>r. m = groupSlotMember a r) ms))"
    unfolding counts1_def by (rule 2(2) [OF p [symmetric]]) (use 2(3) in simp_all)
  moreover have "count_of counts1 a = count_of counts a + (if a = b then 1 else 0)"
    by (simp add: count_of_def counts1_def)
  moreover have "(\<exists>r. m = groupSlotMember a r) \<longleftrightarrow> a = b" by (auto simp: m(1))
  ultimately show ?case unfolding run by simp
qed simp

lemma in_order_members: "set (in_order z) = fst ` set z" "distinct (map fst z) \<Longrightarrow> distinct (in_order z)"
proof -
  show "set (in_order z) = fst ` set z" by (simp add: in_order_def)
  assume "distinct (map fst z)"
  moreover have "mset (in_order z) = mset (map fst z)" by (simp add: in_order_def)
  ultimately show "distinct (in_order z)" by (metis mset_eq_imp_distinct_iff)
qed

text \<open>After any history of tracked, renewed and released requests of a group,
  whatever the calls answered, an answered snapshot is complete and counts for every account exactly
  its requests that are in time.\<close>

theorem group_snapshot_exact:
  assumes "group_run g clock db" "0 < g" "env 0 = (Answered, now)" "clock \<le> now"
  shows "\<exists>counts. fst (GetGroupAccountConcurrency env g db) = Inr (counts, True, seconds now)
    \<and> (\<forall>a. count_of counts a
          = int (card {r. groupSlotMember a r \<in> holders groupSlotTTLSeconds now (groupSlotKey g) db}))"
proof -
  let ?k = "groupSlotKey g" and ?ttl = groupSlotTTLSeconds
  have ok: "all_readable now ?k db" using all_readable_later [OF group_run_readable [OF assms(1)] assms(4)] .
  then have wf: "store_wf db" by (simp add: all_readable_def)
  define pruned where "pruned = zremrangebyscore now ?k (seconds now - ?ttl) db"
  define ms where "ms = zrange_all now ?k pruned"
  have mem: "members now ?k pruned = in_time ?ttl now ?k db"
    by (simp add: pruned_def redis_simps in_time_def seconds_def)
  have set_ms: "set ms = holders ?ttl now ?k db"
    by (simp add: ms_def zrange_all_def in_order_members mem holders_def)
  have "gomap_wf (members now ?k pruned)" using wf by (simp add: pruned_def)
  then have dist: "distinct ms" unfolding ms_def zrange_all_def gomap_wf_def by (rule in_order_members)
  have read: "\<forall>m \<in> set ms. readable m"
    using ok unfolding set_ms holders_def in_time_def all_readable_def by auto
  define counts where "counts = fst (count_members ms Map.empty True)"
  have run: "fst (GetGroupAccountConcurrency env g db) = Inr (counts, snd (count_members ms Map.empty True), seconds now)"
    using assms(2,3)
    by (simp add: GetGroupAccountConcurrency_def call_def groupAccountSnapshotScript_def Let_def
        counts_def ms_def pruned_def split: prod.split)
  have "count_of counts a = int (card {r. groupSlotMember a r \<in> set ms})" for a
  proof -
    have "filter (\<lambda>m. \<exists>r. m = groupSlotMember a r) ms = filter (\<lambda>m. m \<in> range (groupSlotMember a)) ms"
      by (rule filter_cong) auto
    then have "count_of counts a = int (length (filter (\<lambda>m. m \<in> range (groupSlotMember a)) ms))"
      using count_members_counts [OF read, of Map.empty True a] by (simp add: counts_def count_of_def)
    also have "length (filter (\<lambda>m. m \<in> range (groupSlotMember a)) ms) = card (set (filter (\<lambda>m. m \<in> range (groupSlotMember a)) ms))"
      using distinct_card [OF distinct_filter [OF dist]] by (rule sym)
    also have "set (filter (\<lambda>m. m \<in> range (groupSlotMember a)) ms) = groupSlotMember a ` {r. groupSlotMember a r \<in> set ms}"
      by auto
    also have "card \<dots> = card {r. groupSlotMember a r \<in> set ms}"
      by (rule card_image) (simp add: inj_on_def)
    finally show ?thesis .
  qed
  then show ?thesis
    using run count_members_counts [OF read, of Map.empty True] unfolding set_ms by simp
qed

theorem group_snapshot_exact_witness:
  "\<exists>counts. fst (GetGroupAccountConcurrency (\<lambda>_. (Answered, 9000)) 3
      (snd (TrackGroupSlot (\<lambda>_. (Answered, 8000)) 3 42 ''r1'' empty_store))) = Inr (counts, True, 9)"
proof -
  have "group_run 3 8000 (snd (TrackGroupSlot (\<lambda>_. (Answered, 8000)) 3 42 ''r1'' empty_store))"
    using group_run.track [OF group_run.start [of 3 0], of "\<lambda>_. (Answered, 8000)" 42 "''r1''"] by simp
  from group_snapshot_exact [OF this, of "\<lambda>_. (Answered, 9000)" 9000] show ?thesis
    by (auto simp: seconds_def)
qed

end
