(* ===== verification/Interleaving.thy ===== *)
theory Interleaving
  imports Prelude
begin

text \<open>
  Operations that share a database with others: an operation is a tree of calls, each of which acts
  on the database in one atomic step and may fail before or after its effect.  Operations are
  interleaved call by call; an operation that crashes is one that is never continued.

  \<open>honours\<close> says that an operation keeps a relation between successive states of the database
  however the others, who keep it too, interfere; the locale collects its rules and what they give
  for a system of operations.
\<close>

section \<open>Operations\<close>

datatype fault = Works | Refused | Lost

record call_env =
  ce_now :: go_time
  ce_fault :: fault

datatype ('s, 'a) prog = Return 'a | Call "call_env \<Rightarrow> 's \<Rightarrow> 's \<times> ('s, 'a) prog"

primrec bind :: "('s, 'a) prog \<Rightarrow> ('a \<Rightarrow> ('s, 'b) prog) \<Rightarrow> ('s, 'b) prog" where
  "bind (Return x) k = k x"
| "bind (Call f) k = Call (\<lambda>e s. map_prod id (\<lambda>p. bind p k) (f e s))"

text \<open>A call that answers \<open>None\<close> when it is refused or its answer is lost; it sees its own clock.\<close>

definition call :: "(go_time \<Rightarrow> 's \<Rightarrow> 'r \<times> 's) \<Rightarrow> ('s, 'r option) prog" where
  "call f = Call (\<lambda>e s.
     case ce_fault e of
       Works \<Rightarrow> (snd (f (ce_now e) s), Return (Some (fst (f (ce_now e) s))))
     | Refused \<Rightarrow> (s, Return None)
     | Lost \<Rightarrow> (snd (f (ce_now e) s), Return None))"

definition query :: "(go_time \<Rightarrow> 's \<Rightarrow> 'r) \<Rightarrow> ('s, 'r option) prog" where
  "query g = call (\<lambda>t s. (g t s, s))"

text \<open>The program's own clock, which is read without a call that may fail.\<close>

definition clock :: "(go_time \<Rightarrow> ('s, 'a) prog) \<Rightarrow> ('s, 'a) prog" where
  "clock k = Call (\<lambda>e s. (s, k (ce_now e)))"

lemma bind_assoc: "bind (bind p f) g = bind p (\<lambda>x. bind (f x) g)"
  by (induction p) (auto simp: fun_eq_iff map_prod_def split_beta intro!: prod_eqI, metis prod.collapse snds.intros rangeI)

text \<open>An operation on its own, with what others do before each of its calls; \<open>None\<close>: it has not
  finished within the calls that are given.\<close>

fun run :: "(('s \<Rightarrow> 's) \<times> call_env) list \<Rightarrow> ('s, 'a) prog \<Rightarrow> 's \<Rightarrow> 'a option \<times> 's" where
  "run es (Return x) s = (Some x, s)"
| "run [] (Call f) s = (None, s)"
| "run ((g, e) # es) (Call f) s = (case f e (g s) of (s', p) \<Rightarrow> run es p s')"

section \<open>Systems\<close>

text \<open>\<open>starts\<close> says which operations are started in which states.\<close>

inductive sys_step :: "(('s, 'a) prog \<Rightarrow> 's \<Rightarrow> bool) \<Rightarrow> 's \<times> ('s, 'a) prog list \<Rightarrow> 's \<times> ('s, 'a) prog list \<Rightarrow> bool"
  for starts where
  start: "starts p s \<Longrightarrow> sys_step starts (s, ps) (s, ps @ [p])"
| act: "i < length ps \<Longrightarrow> ps ! i = Call f \<Longrightarrow> f e s = (s', p) \<Longrightarrow> sys_step starts (s, ps) (s', ps[i := p])"

inductive_cases sys_stepE: "sys_step starts c c'"

definition sys_reach :: "(('s, 'a) prog \<Rightarrow> 's \<Rightarrow> bool) \<Rightarrow> 's \<Rightarrow> 's \<Rightarrow> bool" where
  "sys_reach starts s s' \<longleftrightarrow> (\<exists>ps. (sys_step starts)\<^sup>*\<^sup>* (s, []) (s', ps))"

section \<open>Keeping a relation\<close>

inductive honours :: "('s \<Rightarrow> 's \<Rightarrow> bool) \<Rightarrow> ('a \<Rightarrow> 's \<Rightarrow> bool) \<Rightarrow> ('s, 'a) prog \<Rightarrow> 's \<Rightarrow> bool" for G Q where
  Return: "(\<And>s'. G s s' \<Longrightarrow> Q x s') \<Longrightarrow> honours G Q (Return x) s"
| Call: "(\<And>s' e s'' p. G s s' \<Longrightarrow> f e s' = (s'', p) \<Longrightarrow> G s' s'' \<and> honours G Q p s'') \<Longrightarrow> honours G Q (Call f) s"

inductive_cases honours_CallE: "honours G Q (Call f) s"

inductive_cases honours_ReturnE: "honours G Q (Return x) s"

locale shared_database =
  fixes G :: "'s \<Rightarrow> 's \<Rightarrow> bool"
  assumes stays: "G s s"
    and goes_on: "G s s' \<Longrightarrow> G s' s'' \<Longrightarrow> G s s''"
begin

lemma later: "honours G Q p s \<Longrightarrow> G s s' \<Longrightarrow> honours G Q p s'"
  by (erule honours.cases) (auto intro!: honours.intros dest: goes_on)

lemma return: "(\<And>s'. G s s' \<Longrightarrow> Q x s') \<Longrightarrow> honours G Q (Return x) s"
  by (rule honours.Return)

lemma weaken: "honours G Q p s \<Longrightarrow> (\<And>x s'. G s s' \<Longrightarrow> Q x s' \<Longrightarrow> Q' x s') \<Longrightarrow> honours G Q' p s"
proof (induction p s rule: honours.induct)
  case (Call s f)
  show ?case
  proof (rule honours.Call, intro conjI)
    fix s' e s'' p
    assume g: "G s s'" "f e s' = (s'', p)"
    with Call.IH show "G s' s''" by blast
    show "honours G Q' p s''"
      using Call.IH [OF g] Call.prems g(1) by (meson goes_on)
  qed
qed (auto intro!: honours.intros)

lemma bind: "honours G Q p s \<Longrightarrow> (\<And>x s'. G s s' \<Longrightarrow> Q x s' \<Longrightarrow> honours G Q' (k x) s') \<Longrightarrow> honours G Q' (bind p k) s"
proof (induction p s rule: honours.induct)
  case (Call s f)
  show ?case unfolding bind.simps
  proof (rule honours.Call, intro conjI)
    fix s' e s'' q
    assume g: "G s s'" "map_prod id (\<lambda>p. Interleaving.bind p k) (f e s') = (s'', q)"
    then obtain p where p: "f e s' = (s'', p)" "q = Interleaving.bind p k" by (cases "f e s'") auto
    then show "G s' s''" using Call.IH g(1) by blast
    then show "honours G Q' q s''"
      unfolding p(2) using Call.IH [OF g(1) p(1)] Call.prems g(1) by (meson goes_on)
  qed
qed (simp add: stays)

lemma call:
  fixes Q :: "'r option \<Rightarrow> 's \<Rightarrow> bool"
  assumes "\<And>s' t. G s s' \<Longrightarrow> G s' (snd (f t s'))"
    and "\<And>s' t s''. G s s' \<Longrightarrow> G (snd (f t s')) s'' \<Longrightarrow> Q (Some (fst (f t s'))) s''"
    and "\<And>s'. G s s' \<Longrightarrow> Q None s'"
  shows "honours G Q (call f) s"
  unfolding call_def
proof (rule honours.Call, intro conjI)
  fix s' e s'' and p :: "('s, 'r option) prog"
  assume g: "G s s'" and step: "(case ce_fault e of
      Works \<Rightarrow> (snd (f (ce_now e) s'), Return (Some (fst (f (ce_now e) s'))))
    | Refused \<Rightarrow> (s', Return None) | Lost \<Rightarrow> (snd (f (ce_now e) s'), Return None)) = (s'', p)"
  have moved: "G s' (snd (f (ce_now e) s'))" by (rule assms(1) [OF g])
  show "G s' s''" using step moved stays by (cases "ce_fault e") simp_all
  show "honours G Q p s''"
  proof (cases "ce_fault e")
    case Works
    then have p: "p = Return (Some (fst (f (ce_now e) s')))" "s'' = snd (f (ce_now e) s')" using step by simp_all
    show ?thesis unfolding p by (rule honours.Return, rule assms(2) [OF g])
  next
    case Refused
    then have p: "p = Return None" "s'' = s'" using step by simp_all
    show ?thesis unfolding p by (rule honours.Return, rule assms(3), rule goes_on [OF g])
  next
    case Lost
    then have p: "p = Return None" "s'' = snd (f (ce_now e) s')" using step by simp_all
    show ?thesis unfolding p by (rule honours.Return, rule assms(3), rule goes_on [OF g goes_on [OF moved]])
  qed
qed

lemma query:
  assumes "\<And>s' t s''. G s s' \<Longrightarrow> G s' s'' \<Longrightarrow> Q (Some (g t s')) s''" "\<And>s'. G s s' \<Longrightarrow> Q None s'"
  shows "honours G Q (query g) s"
  unfolding query_def using assms by (intro call) (simp_all add: stays)

lemma clock: "(\<And>t s'. G s s' \<Longrightarrow> honours G Q (k t) s') \<Longrightarrow> honours G Q (clock k) s"
  unfolding clock_def by (rule honours.Call) (auto simp: stays)

text \<open>A run of one operation, with others before each of its calls.\<close>

lemma ran:
  assumes "honours G Q p s" "\<forall>x\<in>set es. \<forall>s. G s (fst x s)" "run es p s = (r, s')"
  shows "G s s' \<and> (\<forall>x. r = Some x \<longrightarrow> Q x s')"
  using assms
proof (induction es p s arbitrary: r s' rule: run.induct)
  case (1 es x s)
  then show ?case by (auto simp: stays elim!: honours_ReturnE)
next
  case (3 g e es f s)
  obtain s1 p1 where step: "f e (g s) = (s1, p1)" by (cases "f e (g s)")
  have g: "G s (g s)" using 3(3) by simp
  have moved: "G (g s) s1" "honours G Q p1 s1" using 3(2) step g by (blast elim: honours_CallE)+
  have "G s1 s' \<and> (\<forall>x. r = Some x \<longrightarrow> Q x s')"
    by (rule 3(1) [OF step [symmetric] moved(2)]) (use 3(3,4) step in auto)
  then show ?case using goes_on [OF g goes_on [OF moved(1)]] by blast
qed (simp add: stays)

text \<open>A system whose operations all keep the relation keeps it.\<close>

lemma system:
  assumes "\<And>p s. G (fst c) s \<Longrightarrow> starts p s \<Longrightarrow> honours G (\<lambda>_ _. True) p s"
    and "(sys_step starts)\<^sup>*\<^sup>* c c'" "\<forall>p\<in>set (snd c). honours G (\<lambda>_ _. True) p (fst c)"
  shows "G (fst c) (fst c') \<and> (\<forall>p\<in>set (snd c'). honours G (\<lambda>_ _. True) p (fst c'))"
  using assms(2)
proof (induction rule: rtranclp_induct)
  case base
  then show ?case using assms(3) by (simp add: stays)
next
  case (step c1 c2)
  from step.hyps(2) show ?case
  proof (cases rule: sys_step.cases)
    case (start p s ps)
    then show ?thesis using step.IH assms(1) by auto
  next
    case (act i ps f e s s' p)
    then have "honours G (\<lambda>_ _. True) (Call f) s" using step.IH by (metis fst_conv nth_mem snd_conv)
    then have moved: "G s s'" "honours G (\<lambda>_ _. True) p s'" using act(5) stays by (blast elim: honours_CallE)+
    have "honours G (\<lambda>_ _. True) q s'" if "q \<in> set (ps[i := p])" for q
    proof (cases "q = p")
      case False
      with that have "q \<in> set ps" by (metis insert_iff set_update_subset_insert subset_iff)
      then show ?thesis using step.IH act(1) by (intro later [OF _ moved(1)]) auto
    qed (simp add: moved)
    then show ?thesis using step.IH act moved(1) goes_on by auto
  qed
qed

lemma reached:
  "(\<And>p s'. G s s' \<Longrightarrow> starts p s' \<Longrightarrow> honours G (\<lambda>_ _. True) p s') \<Longrightarrow> sys_reach starts s s' \<Longrightarrow> G s s'"
  using system [of "(s, [])" starts] unfolding sys_reach_def by fastforce

end

section \<open>Keeping an invariant\<close>

text \<open>
  \<open>keeps I D Q p s\<close>: from a state with the invariant \<open>I\<close> the operation keeps it, moves along \<open>D\<close>, and ends
  with a result that satisfies \<open>Q\<close> from then on.
\<close>

definition moves :: "('s \<Rightarrow> bool) \<Rightarrow> ('s \<Rightarrow> 's \<Rightarrow> bool) \<Rightarrow> 's \<Rightarrow> 's \<Rightarrow> bool" where
  "moves I D s s' \<longleftrightarrow> (I s \<longrightarrow> I s' \<and> D s s')"

definition keeps :: "('s \<Rightarrow> bool) \<Rightarrow> ('s \<Rightarrow> 's \<Rightarrow> bool) \<Rightarrow> ('a \<Rightarrow> 's \<Rightarrow> bool) \<Rightarrow> ('s, 'a) prog \<Rightarrow> 's \<Rightarrow> bool" where
  "keeps I D Q p s \<longleftrightarrow> (I s \<longrightarrow> honours (moves I D) Q p s)"

locale evolving =
  fixes I :: "'s \<Rightarrow> bool" and D :: "'s \<Rightarrow> 's \<Rightarrow> bool"
  assumes same: "I s \<Longrightarrow> D s s"
    and further: "I s \<Longrightarrow> I s' \<Longrightarrow> I s'' \<Longrightarrow> D s s' \<Longrightarrow> D s' s'' \<Longrightarrow> D s s''"

sublocale evolving \<subseteq> db: shared_database "moves I D"
  by unfold_locales (auto simp: moves_def same intro: further)

context evolving begin

lemma keep_return: "(\<And>s'. I s' \<Longrightarrow> D s s' \<Longrightarrow> Q x s') \<Longrightarrow> keeps I D Q (Return x) s"
  unfolding keeps_def by (intro impI db.return) (auto simp: moves_def)

lemma keep_bind:
  "keeps I D R p s \<Longrightarrow> (\<And>x s'. I s' \<Longrightarrow> D s s' \<Longrightarrow> R x s' \<Longrightarrow> keeps I D Q (k x) s') \<Longrightarrow> keeps I D Q (bind p k) s"
  unfolding keeps_def
proof (intro impI)
  assume p: "I s \<longrightarrow> honours (moves I D) R p s" and k: "\<And>x s'. I s' \<Longrightarrow> D s s' \<Longrightarrow> R x s' \<Longrightarrow> I s' \<longrightarrow> honours (moves I D) Q (k x) s'"
    and s: "I s"
  show "honours (moves I D) Q (bind p k) s"
    by (rule db.bind [OF p [rule_format, OF s]], rule k [rule_format]) (use s in \<open>auto simp: moves_def\<close>)
qed

lemma keep_weaken:
  "keeps I D R p s \<Longrightarrow> (\<And>x s'. I s' \<Longrightarrow> D s s' \<Longrightarrow> R x s' \<Longrightarrow> Q x s') \<Longrightarrow> keeps I D Q p s"
  unfolding keeps_def by (auto simp: moves_def intro: db.weaken)

lemma keep_call:
  fixes Q :: "'r option \<Rightarrow> 's \<Rightarrow> bool"
  assumes f: "\<And>s' t. I s' \<Longrightarrow> D s s' \<Longrightarrow> I (snd (f t s')) \<and> D s' (snd (f t s'))"
    and some: "\<And>s' t s''. I s' \<Longrightarrow> D s s' \<Longrightarrow> I s'' \<Longrightarrow> D (snd (f t s')) s'' \<Longrightarrow> Q (Some (fst (f t s'))) s''"
    and none: "\<And>s'. I s' \<Longrightarrow> D s s' \<Longrightarrow> Q None s'"
  shows "keeps I D Q (call f) s"
  unfolding keeps_def
proof (intro impI db.call)
  assume s: "I s"
  show "moves I D s' (snd (f t s'))" if "moves I D s s'" for s' t using that s f by (auto simp: moves_def)
  show "Q (Some (fst (f t s'))) s''" if "moves I D s s'" "moves I D (snd (f t s')) s''" for s' t s''
    using that s f some by (auto simp: moves_def)
  show "Q None s'" if "moves I D s s'" for s' using that s none by (auto simp: moves_def)
qed

lemma keep_query:
  assumes "\<And>s' t s''. I s' \<Longrightarrow> D s s' \<Longrightarrow> I s'' \<Longrightarrow> D s' s'' \<Longrightarrow> Q (Some (g t s')) s''" "\<And>s'. I s' \<Longrightarrow> D s s' \<Longrightarrow> Q None s'"
  shows "keeps I D Q (query g) s"
  unfolding query_def using assms by (intro keep_call) (simp_all add: same)

lemma keep_clock: "(\<And>t s'. I s' \<Longrightarrow> D s s' \<Longrightarrow> keeps I D Q (k t) s') \<Longrightarrow> keeps I D Q (clock k) s"
  unfolding keeps_def by (intro impI db.clock) (auto simp: moves_def)

lemma keep_reached:
  assumes "\<And>p s'. I s' \<Longrightarrow> D s s' \<Longrightarrow> starts p s' \<Longrightarrow> keeps I D (\<lambda>_ _. True) p s'" "sys_reach starts s s'" "I s"
  shows "I s' \<and> D s s'"
proof -
  have "moves I D s s'"
    by (rule db.reached [OF _ assms(2)]) (use assms(1,3) in \<open>auto simp: moves_def keeps_def\<close>)
  then show ?thesis using assms(3) by (simp add: moves_def)
qed

end

end
