(* ===== verification/PaymentTables.thy ===== *)
theory PaymentTables
  imports Interleaving BalanceHold
begin

text \<open>
  The data of recharges: payment orders with their audit log, redeem codes, users, subscriptions and
  affiliate accounts (\<open>backend/ent/schema/\<close>, \<open>backend/migrations\<close>), as tables of rows with the
  statements that act on them, and the Redis keys of the redeem service.

  A clock reading is a whole number of microseconds, the precision of \<open>timestamptz\<close>, in nanoseconds.
  Amounts of orders are NUMERIC at scale two, balances and values of codes at scale eight.  A
  transaction is one step with one clock reading: its statements take effect together or not at all.
\<close>

section \<open>Rows\<close>

text \<open>The statuses of an order (\<open>backend/internal/payment/types.go\<close>).\<close>

named_theorems pay_strings \<open>the strings behind the names of statuses and kinds\<close>

definition OrderStatusPending :: string where [pay_strings]: "OrderStatusPending = ''PENDING''"
definition OrderStatusPaid :: string where [pay_strings]: "OrderStatusPaid = ''PAID''"
definition OrderStatusRecharging :: string where [pay_strings]: "OrderStatusRecharging = ''RECHARGING''"
definition OrderStatusCompleted :: string where [pay_strings]: "OrderStatusCompleted = ''COMPLETED''"
definition OrderStatusExpired :: string where [pay_strings]: "OrderStatusExpired = ''EXPIRED''"
definition OrderStatusCancelled :: string where [pay_strings]: "OrderStatusCancelled = ''CANCELLED''"
definition OrderStatusFailed :: string where [pay_strings]: "OrderStatusFailed = ''FAILED''"
definition OrderStatusRefundRequested :: string where [pay_strings]: "OrderStatusRefundRequested = ''REFUND_REQUESTED''"
definition OrderStatusRefunding :: string where [pay_strings]: "OrderStatusRefunding = ''REFUNDING''"
definition OrderStatusRefundPending :: string where [pay_strings]: "OrderStatusRefundPending = ''REFUND_PENDING''"
definition OrderStatusPartiallyRefunded :: string where [pay_strings]: "OrderStatusPartiallyRefunded = ''PARTIALLY_REFUNDED''"
definition OrderStatusRefunded :: string where [pay_strings]: "OrderStatusRefunded = ''REFUNDED''"
definition OrderStatusRefundFailed :: string where [pay_strings]: "OrderStatusRefundFailed = ''REFUND_FAILED''"

definition psIsRefundStatus :: "string \<Rightarrow> bool" where
  "psIsRefundStatus st \<longleftrightarrow>
     st \<in> {OrderStatusRefundRequested, OrderStatusRefunding, OrderStatusRefundPending,
           OrderStatusPartiallyRefunded, OrderStatusRefunded, OrderStatusRefundFailed}"

text \<open>The values of a JSON column, as far as they are looked at.\<close>

datatype snap_value = SnapStr string | SnapNum rat | SnapOther

record payment_order =
  po_ID :: int
  po_UserID :: int
  po_Amount :: decimal
  po_PayAmount :: decimal
  po_RechargeCode :: string
  po_OutTradeNo :: string
  po_PaymentType :: string
  po_PaymentTradeNo :: string
  po_OrderType :: string
  po_SubscriptionGroupID :: "int option"
  po_SubscriptionDays :: "int option"
  po_ProviderInstanceID :: "string option"
  po_ProviderKey :: "string option"
  po_ProviderSnapshot :: "(string, snap_value) gomap"
  po_Status :: string
  po_RefundAmount :: decimal
  po_RefundReason :: "string option"
  po_RefundAt :: "go_time option"
  po_ForceRefund :: bool
  po_RefundRequestedAt :: "go_time option"
  po_RefundRequestReason :: "string option"
  po_RefundRequestedBy :: "string option"
  po_ExpiresAt :: go_time
  po_PaidAt :: "go_time option"
  po_CompletedAt :: "go_time option"
  po_FailedAt :: "go_time option"
  po_FailedReason :: "string option"
  po_UpdatedAt :: go_time

datatype audit_value = AudStr string | AudNum decimal | AudBool bool | AudInt int | AudTime go_time

record audit_log =
  al_OrderID :: string
  al_Action :: string
  al_Detail :: "(string \<times> audit_value) list"
  al_Operator :: string
  al_CreatedAt :: go_time

text \<open>The statuses and types of redeem codes (\<open>backend/internal/domain/constants.go\<close>).\<close>

definition StatusUnused :: string where [pay_strings]: "StatusUnused = ''unused''"
definition StatusUsed :: string where [pay_strings]: "StatusUsed = ''used''"
definition StatusExpired :: string where [pay_strings]: "StatusExpired = ''expired''"
definition StatusDisabled :: string where [pay_strings]: "StatusDisabled = ''disabled''"
definition RedeemTypeBalance :: string where [pay_strings]: "RedeemTypeBalance = ''balance''"
definition RedeemTypeConcurrency :: string where [pay_strings]: "RedeemTypeConcurrency = ''concurrency''"
definition RedeemTypeSubscription :: string where [pay_strings]: "RedeemTypeSubscription = ''subscription''"
definition RedeemTypeInvitation :: string where [pay_strings]: "RedeemTypeInvitation = ''invitation''"

record redeem_code =
  rc_ID :: int
  rc_Code :: string
  rc_Type :: string
  rc_Value :: decimal
  rc_Status :: string
  rc_UsedBy :: "int option"
  rc_UsedAt :: "go_time option"
  rc_Notes :: string
  rc_ExpiresAt :: "go_time option"
  rc_GroupID :: "int option"
  rc_ValidityDays :: int

record pay_user =
  py_Balance :: decimal
  py_TotalRecharged :: decimal
  py_Concurrency :: int
  py_Deleted :: bool

record sub_group =
  sg_Active :: bool
  sg_SubscriptionType :: bool

record user_sub =
  us_ID :: int
  us_UserID :: int
  us_GroupID :: int
  us_StartsAt :: go_time
  us_ExpiresAt :: go_time
  us_Status :: string
  us_DailyWindowStart :: "go_time option"
  us_WeeklyWindowStart :: "go_time option"
  us_MonthlyWindowStart :: "go_time option"
  us_DailyUsage :: decimal
  us_WeeklyUsage :: decimal
  us_MonthlyUsage :: decimal
  us_AssignedBy :: "int option"
  us_AssignedAt :: go_time
  us_Notes :: string
  us_Deleted :: bool

record affiliate_row =
  af_Code :: string
  af_RatePercent :: "decimal option"
  af_InviterID :: "int option"
  af_Quota :: decimal
  af_FrozenQuota :: decimal
  af_HistoryQuota :: decimal
  af_CreatedAt :: go_time

record affiliate_entry =
  ae_UserID :: int
  ae_Amount :: decimal
  ae_SourceUserID :: int
  ae_SourceOrderID :: "int option"
  ae_FrozenUntil :: "go_time option"

record provider_instance =
  pi_ID :: int
  pi_ProviderKey :: string
  pi_SupportedTypes :: string
  pi_Enabled :: bool
  pi_RefundEnabled :: bool
  pi_AllowUserRefund :: bool

text \<open>A Redis lock is its expiry, a counter its value and its expiry.  Users and groups are tables under
  their identifier; the next identifiers of codes and subscriptions come from sequences.\<close>

record pay_db =
  db_orders :: "payment_order list"
  db_audit :: "audit_log list"
  db_codes :: "redeem_code list"
  db_next_code :: int
  db_users :: "int \<Rightarrow> pay_user option"
  db_groups :: "int \<Rightarrow> sub_group option"
  db_subs :: "user_sub list"
  db_next_sub :: int
  db_affiliates :: "int \<Rightarrow> affiliate_row option"
  db_aff_codes :: "string list"
  db_ledger :: "affiliate_entry list"
  db_instances :: "provider_instance list"
  db_locks :: "string \<Rightarrow> go_time option"
  db_attempts :: "int \<Rightarrow> (int \<times> go_time) option"

section \<open>Errors and calls\<close>

datatype pay_error =
  DbFailed
| UniqueViolation
| PayNotFound
| InvalidStatus
| PayConflict
| PayForbidden
| InvalidOutTradeNo
| ErrOrderNotFound
| ProviderMismatch
| ProviderMetadataMismatch string
| InvalidPaidAmount
| AmountMismatch
| MissingSubscriptionInfo
| GroupInactive
| NotesLookupFailed
| ErrRedeemCodeNotFound
| ErrRedeemCodeUsed
| ErrRedeemCodeExpired
| ErrRedeemRateLimited
| ErrRedeemCodeLocked
| RedeemCodeInvalid
| RedeemCodeUnsupportedType string
| RedeemCodeDeleteUsed
| RedeemBatchInvalid string
| CodeIsRequired
| ValueMustNotBeZero
| PayUserNotFound
| PaySubscriptionNotFound
| ErrSubscriptionAlreadyExists
| ErrGroupNotSubscriptionType
| ErrAdjustWouldExpire
| CannotShortenExpired
| SubscriptionServiceUnavailable
| ProviderInstanceInvalid
| ProviderUnavailable
| UserRefundDisabled
| RefundDisabled
| ProviderLookupFailed
| InvalidOrderType
| BalanceNotEnough
| NegativeDeduction
| RefundAmountExceeded
| RefundQueryUnsupported
| GatewayError string
| RefundResponseMissing
| RefundStatusFailed string
| RefundStatusUnknown string
| RefundFailed pay_error

type_synonym 'a pay_op = "(pay_db, pay_error + 'a) prog"
type_synonym 'a pay_tx = "go_time \<Rightarrow> pay_db \<Rightarrow> (pay_error + 'a) \<times> pay_db"

text \<open>A transaction, or a single statement: an error rolls it back.\<close>

definition committed :: "'a pay_tx \<Rightarrow> 'a pay_tx" where
  "committed f t s = (case f t s of (Inl e, s') \<Rightarrow> (Inl e, s) | (Inr x, s') \<Rightarrow> (Inr x, s'))"

definition tx :: "'a pay_tx \<Rightarrow> 'a pay_op" where
  "tx f = bind (call (committed f)) (\<lambda>r. Return (case r of None \<Rightarrow> Inl DbFailed | Some x \<Rightarrow> x))"

definition ask :: "(go_time \<Rightarrow> pay_db \<Rightarrow> pay_error + 'a) \<Rightarrow> 'a pay_op" where
  "ask g = tx (\<lambda>t s. (g t s, s))"

definition attempt :: "'a pay_op \<Rightarrow> ('a \<Rightarrow> 'b pay_op) \<Rightarrow> 'b pay_op" where
  "attempt p k = bind p (\<lambda>r. case r of Inl e \<Rightarrow> Return (Inl e) | Inr x \<Rightarrow> k x)"

text \<open>A call whose result is ignored.\<close>

definition ignoring :: "(pay_db, 'a) prog \<Rightarrow> (pay_db, 'b) prog \<Rightarrow> (pay_db, 'b) prog" where
  "ignoring p q = bind p (\<lambda>_. q)"

text \<open>Statements in a transaction one after the other.\<close>

definition tx_then :: "'a pay_tx \<Rightarrow> ('a \<Rightarrow> 'b pay_tx) \<Rightarrow> 'b pay_tx" where
  "tx_then f k t s = (case f t s of (Inl e, s') \<Rightarrow> (Inl e, s') | (Inr x, s') \<Rightarrow> k x t s')"

definition tx_return :: "'a \<Rightarrow> 'a pay_tx" where
  "tx_return x t s = (Inr x, s)"

definition tx_fail :: "pay_error \<Rightarrow> 'a pay_tx" where
  "tx_fail e t s = (Inl e, s)"

section \<open>Statements on orders and on the audit log\<close>

definition find_order :: "int \<Rightarrow> pay_db \<Rightarrow> payment_order option" where
  "find_order oid s = find (\<lambda>o'. po_ID o' = oid) (db_orders s)"

definition get_order :: "int \<Rightarrow> payment_order pay_op" where
  "get_order oid = ask (\<lambda>t s. case find_order oid s of None \<Rightarrow> Inl PayNotFound | Some o' \<Rightarrow> Inr o')"

text \<open>\<open>Update().Where(...).Set...\<close>: the number of rows changed.  Every update sets \<open>updated_at\<close>.\<close>

definition touch_order :: "go_time \<Rightarrow> payment_order \<Rightarrow> payment_order" where
  "touch_order t o' = o'\<lparr>po_UpdatedAt := t\<rparr>"

definition update_orders ::
  "(go_time \<Rightarrow> payment_order \<Rightarrow> bool) \<Rightarrow> (go_time \<Rightarrow> payment_order \<Rightarrow> payment_order) \<Rightarrow> nat pay_tx" where
  "update_orders guard change t s =
     (Inr (length (filter (guard t) (db_orders s))),
      s\<lparr>db_orders := map (\<lambda>o'. if guard t o' then touch_order t (change t o') else o') (db_orders s)\<rparr>)"

text \<open>\<open>UpdateOneID\<close>: a missing row is an error.\<close>

definition update_order :: "int \<Rightarrow> (go_time \<Rightarrow> payment_order \<Rightarrow> payment_order) \<Rightarrow> unit pay_tx" where
  "update_order oid change =
     tx_then (update_orders (\<lambda>t o'. po_ID o' = oid) change)
       (\<lambda>n. if n = 0 then tx_fail PayNotFound else tx_return ())"

definition audited :: "int \<Rightarrow> string \<Rightarrow> pay_db \<Rightarrow> bool" where
  "audited oid action s \<longleftrightarrow> (\<exists>l\<in>set (db_audit s). al_OrderID l = itoa oid \<and> al_Action l = action)"

text \<open>The index on order and action is unique (migration 131).\<close>

definition insert_audit :: "int \<Rightarrow> string \<Rightarrow> string \<Rightarrow> (string \<times> audit_value) list \<Rightarrow> unit pay_tx" where
  "insert_audit oid action operator detail t s =
     (if audited oid action s then (Inl UniqueViolation, s)
      else (Inr (), s\<lparr>db_audit := db_audit s @ [\<lparr>al_OrderID = itoa oid, al_Action = action, al_Detail = detail,
                                               al_Operator = operator, al_CreatedAt = t\<rparr>]\<rparr>))"

definition writeAuditLog ::
  "int \<Rightarrow> string \<Rightarrow> string \<Rightarrow> (string \<times> audit_value) list \<Rightarrow> (pay_db, 'a) prog \<Rightarrow> (pay_db, 'a) prog" where
  "writeAuditLog oid action operator detail rest = ignoring (tx (insert_audit oid action operator detail)) rest"

text \<open>An error of the query counts as no entry.\<close>

definition hasAuditLog :: "int \<Rightarrow> string \<Rightarrow> (bool \<Rightarrow> (pay_db, 'a) prog) \<Rightarrow> (pay_db, 'a) prog" where
  "hasAuditLog oid action k = bind (query (\<lambda>t s. audited oid action s)) (\<lambda>r. k (r = Some True))"

section \<open>Users\<close>

definition get_user :: "int \<Rightarrow> pay_user pay_op" where
  "get_user uid = ask (\<lambda>t s.
     case db_users s uid of None \<Rightarrow> Inl PayUserNotFound
     | Some u \<Rightarrow> if py_Deleted u then Inl PayUserNotFound else Inr u)"

definition change_user :: "(pay_user \<Rightarrow> bool) \<Rightarrow> (pay_user \<Rightarrow> pay_user) \<Rightarrow> int \<Rightarrow> unit pay_tx" where
  "change_user guard change uid t s =
     (case db_users s uid of
        None \<Rightarrow> (Inl PayUserNotFound, s)
      | Some u \<Rightarrow> if guard u then (Inr (), s\<lparr>db_users := (db_users s)(uid \<mapsto> change u)\<rparr>) else (Inl PayUserNotFound, s))"

text \<open>Ent's update does not look at \<open>deleted_at\<close>.\<close>

definition UpdateBalance :: "int \<Rightarrow> decimal \<Rightarrow> unit pay_tx" where
  "UpdateBalance uid amount =
     change_user (\<lambda>u. True)
       (\<lambda>u. u\<lparr>py_Balance := round_half_away 8 (py_Balance u + amount),
              py_TotalRecharged := (if amount > 0 then round_half_away 8 (py_TotalRecharged u + amount)
                                    else py_TotalRecharged u)\<rparr>) uid"

definition ApplyRedeemBalanceAdjustment :: "int \<Rightarrow> decimal \<Rightarrow> unit pay_tx" where
  "ApplyRedeemBalanceAdjustment uid delta =
     change_user (\<lambda>u. \<not> py_Deleted u) (\<lambda>u. u\<lparr>py_Balance := max (round_half_away 8 (py_Balance u + delta)) 0\<rparr>) uid"

definition UpdateConcurrency :: "int \<Rightarrow> int \<Rightarrow> unit pay_tx" where
  "UpdateConcurrency uid amount = change_user (\<lambda>u. True) (\<lambda>u. u\<lparr>py_Concurrency := py_Concurrency u + amount\<rparr>) uid"

definition ApplyRedeemConcurrencyAdjustment :: "int \<Rightarrow> int \<Rightarrow> unit pay_tx" where
  "ApplyRedeemConcurrencyAdjustment uid delta =
     change_user (\<lambda>u. \<not> py_Deleted u) (\<lambda>u. u\<lparr>py_Concurrency := max (py_Concurrency u + delta) 0\<rparr>) uid"

text \<open>\<open>min(amount, max(balance, 0))\<close> is taken off and returned.\<close>

definition DeductAvailableBalance :: "int \<Rightarrow> decimal \<Rightarrow> decimal pay_tx" where
  "DeductAvailableBalance uid amount t s =
     (if amount < 0 then (Inl NegativeDeduction, s)
      else case db_users s uid of
        None \<Rightarrow> (Inl PayUserNotFound, s)
      | Some u \<Rightarrow>
          if py_Deleted u then (Inl PayUserNotFound, s)
          else (let after = round_half_away 8 (py_Balance u - min amount (max (py_Balance u) 0))
                in (Inr (py_Balance u - after), s\<lparr>db_users := (db_users s)(uid \<mapsto> u\<lparr>py_Balance := after\<rparr>)\<rparr>)))"

section \<open>What the services are configured with\<close>

text \<open>
  The affiliate settings, after \<open>SettingService\<close> has read them; a limit of zero is no limit.
  \<open>pl_add_days\<close> is \<open>AddDate(0, 0, n)\<close> and \<open>pl_start_of_day\<close> the start of the calendar day, both in
  the server's time zone; \<open>pl_provider_key\<close> is the registry's key of a payment type, empty when there
  is none; \<open>pl_upper\<close> and \<open>pl_equal_fold\<close> are \<open>strings.ToUpper\<close> and \<open>EqualFold\<close>; \<open>pl_aff_code\<close> is a random code; the last two are
  the remarks on a subscription, in Chinese.
\<close>

record affiliate_conf =
  ac_Enabled :: bool
  ac_RatePercent :: decimal
  ac_DurationDays :: int
  ac_PerInviteeCap :: decimal
  ac_FreezeHours :: int

record pay_lib =
  pl_add_days :: "go_time \<Rightarrow> int \<Rightarrow> go_time"
  pl_start_of_day :: "go_time \<Rightarrow> go_time"
  pl_error_text :: "pay_error \<Rightarrow> string"
  pl_upper :: "string \<Rightarrow> string"
  pl_equal_fold :: "string \<Rightarrow> string \<Rightarrow> bool"
  pl_provider_key :: "string \<Rightarrow> string"
  pl_redeem_cache :: bool
  pl_subscriptions :: bool
  pl_affiliate :: "affiliate_conf option"
  pl_aff_code :: string
  pl_redeem_note :: "string \<Rightarrow> string"
  pl_reduce_note :: "string \<Rightarrow> int \<Rightarrow> string"

end
