(* ===== verification/Subscriptions.thy ===== *)
theory Subscriptions
  imports PaymentTables
begin

text \<open>
  The term of a subscription (\<open>backend/internal/service/subscription_service.go\<close>,
  \<open>backend/internal/repository/user_subscription_repo.go\<close>): assigning or renewing one, lengthening,
  shortening and revoking it.  Each is part of a transaction or runs its statements one by one.  Of the
  caches only the invalidation that may fail is kept, a call without effect on the database.
  A subscription is deleted softly, and at most one that is not deleted belongs to a user and a group.
\<close>

section \<open>Rows\<close>

definition SubscriptionStatusActive :: string where [pay_strings]: "SubscriptionStatusActive = ''active''"
definition SubscriptionStatusExpired :: string where [pay_strings]: "SubscriptionStatusExpired = ''expired''"
definition SubscriptionStatusSuspended :: string where [pay_strings]: "SubscriptionStatusSuspended = ''suspended''"

text \<open>2099-12-31 23:59:59 UTC, in nanoseconds since the year 1.\<close>

definition MaxExpiresAt :: go_time where
  "MaxExpiresAt = 66238041599 * second_ns"

definition MaxValidityDays :: int where
  "MaxValidityDays = 36500"

definition sub_by_id :: "int \<Rightarrow> pay_db \<Rightarrow> user_sub option" where
  "sub_by_id sid s = find (\<lambda>u. us_ID u = sid \<and> \<not> us_Deleted u) (db_subs s)"

definition sub_of :: "int \<Rightarrow> int \<Rightarrow> pay_db \<Rightarrow> user_sub option" where
  "sub_of uid gid s = find (\<lambda>u. us_UserID u = uid \<and> us_GroupID u = gid \<and> \<not> us_Deleted u) (db_subs s)"

definition GetByIDForUpdate :: "int \<Rightarrow> user_sub pay_tx" where
  "GetByIDForUpdate sid t s = (case sub_by_id sid s of None \<Rightarrow> (Inl PaySubscriptionNotFound, s) | Some u \<Rightarrow> (Inr u, s))"

definition update_sub :: "int \<Rightarrow> (user_sub \<Rightarrow> user_sub) \<Rightarrow> unit pay_tx" where
  "update_sub sid change t s =
     (case sub_by_id sid s of
        None \<Rightarrow> (Inl PaySubscriptionNotFound, s)
      | Some u \<Rightarrow>
          (Inr (), s\<lparr>db_subs := map (\<lambda>u. if us_ID u = sid \<and> \<not> us_Deleted u then change u else u) (db_subs s)\<rparr>))"

definition ExtendExpiry :: "int \<Rightarrow> go_time \<Rightarrow> unit pay_tx" where
  "ExtendExpiry sid newExpiresAt = update_sub sid (\<lambda>u. u\<lparr>us_ExpiresAt := newExpiresAt\<rparr>)"

definition UpdateSubStatus :: "int \<Rightarrow> string \<Rightarrow> unit pay_tx" where
  "UpdateSubStatus sid st = update_sub sid (\<lambda>u. u\<lparr>us_Status := st\<rparr>)"

definition UpdateSubNotes :: "int \<Rightarrow> string \<Rightarrow> unit pay_tx" where
  "UpdateSubNotes sid notes = update_sub sid (\<lambda>u. u\<lparr>us_Notes := notes\<rparr>)"

text \<open>The row that is written keeps the identifier and the owner it was read with.\<close>

definition UpdateSub :: "user_sub \<Rightarrow> unit pay_tx" where
  "UpdateSub sub = update_sub (us_ID sub) (\<lambda>u. sub)"

definition CreateSub :: "user_sub \<Rightarrow> user_sub pay_tx" where
  "CreateSub sub t s =
     (if sub_of (us_UserID sub) (us_GroupID sub) s \<noteq> None then (Inl ErrSubscriptionAlreadyExists, s)
      else (let row = sub\<lparr>us_ID := db_next_sub s\<rparr>
            in (Inr row, s\<lparr>db_subs := db_subs s @ [row], db_next_sub := db_next_sub s + 1\<rparr>)))"

definition DeleteSub :: "int \<Rightarrow> unit pay_tx" where
  "DeleteSub sid t s = (Inr (), s\<lparr>db_subs := map (\<lambda>u. if us_ID u = sid then u\<lparr>us_Deleted := True\<rparr> else u) (db_subs s)\<rparr>)"

section \<open>Assigning and renewing\<close>

record assign_input =
  as_UserID :: int
  as_GroupID :: int
  as_ValidityDays :: int
  as_AssignedBy :: int
  as_Notes :: string

definition normalizeAssignValidityDays :: "int \<Rightarrow> int" where
  "normalizeAssignValidityDays days = min MaxValidityDays (if days \<le> 0 then 30 else days)"

definition appendSubscriptionNotes :: "string \<Rightarrow> string \<Rightarrow> string" where
  "appendSubscriptionNotes existingNotes newNotes =
     (if newNotes = '''' then existingNotes else if existingNotes = '''' then newNotes
      else existingNotes @ [CHR 0x0A] @ newNotes)"

definition renewedSubscriptionTerm :: "pay_lib \<Rightarrow> user_sub \<Rightarrow> string \<Rightarrow> go_time \<Rightarrow> go_time \<Rightarrow> user_sub" where
  "renewedSubscriptionTerm lib sub notes startsAt expiresAt =
     sub\<lparr>us_StartsAt := startsAt, us_ExpiresAt := expiresAt, us_Status := SubscriptionStatusActive,
         us_DailyWindowStart := Some (pl_start_of_day lib startsAt), us_WeeklyWindowStart := Some startsAt,
         us_MonthlyWindowStart := Some startsAt, us_DailyUsage := 0, us_WeeklyUsage := 0, us_MonthlyUsage := 0,
         us_Notes := appendSubscriptionNotes (us_Notes sub) notes\<rparr>"

text \<open>The renewal of \<open>assignOrExtendSubscription\<close> (\<open>assignmentSemantics\<close> is false there).\<close>

definition updateExistingSubscriptionTerm :: "pay_lib \<Rightarrow> int \<Rightarrow> int \<Rightarrow> string \<Rightarrow> unit pay_tx" where
  "updateExistingSubscriptionTerm lib sid validityDays notes =
     tx_then (GetByIDForUpdate sid) (\<lambda>sub now.
       let expired = us_ExpiresAt sub \<le> now;
           newExpiresAt = min MaxExpiresAt (pl_add_days lib (if expired then now else us_ExpiresAt sub) validityDays)
       in if expired then UpdateSub (renewedSubscriptionTerm lib sub notes now newExpiresAt) now
          else tx_then (ExtendExpiry sid newExpiresAt) (\<lambda>_.
                 tx_then (if us_Status sub \<noteq> SubscriptionStatusActive
                          then UpdateSubStatus sid SubscriptionStatusActive else tx_return ()) (\<lambda>_.
                   if notes \<noteq> '''' then UpdateSubNotes sid (appendSubscriptionNotes (us_Notes sub) notes)
                   else tx_return ())) now)"

definition createSubscription :: "pay_lib \<Rightarrow> assign_input \<Rightarrow> user_sub pay_tx" where
  "createSubscription lib input now =
     CreateSub \<lparr>us_ID = 0, us_UserID = as_UserID input, us_GroupID = as_GroupID input, us_StartsAt = now,
                us_ExpiresAt = min MaxExpiresAt (pl_add_days lib now (normalizeAssignValidityDays (as_ValidityDays input))),
                us_Status = SubscriptionStatusActive, us_DailyWindowStart = None, us_WeeklyWindowStart = None,
                us_MonthlyWindowStart = None, us_DailyUsage = 0, us_WeeklyUsage = 0, us_MonthlyUsage = 0,
                us_AssignedBy = (if as_AssignedBy input > 0 then Some (as_AssignedBy input) else None),
                us_AssignedAt = now, us_Notes = as_Notes input, us_Deleted = False\<rparr> now"

text \<open>The answer says whether a subscription was renewed.\<close>

definition assignOrExtendSubscription :: "pay_lib \<Rightarrow> assign_input \<Rightarrow> (user_sub \<times> bool) pay_tx" where
  "assignOrExtendSubscription lib input now s =
     (case db_groups s (as_GroupID input) of
        None \<Rightarrow> (Inl PayNotFound, s)
      | Some g \<Rightarrow>
          if \<not> sg_SubscriptionType g then (Inl ErrGroupNotSubscriptionType, s)
          else (case sub_of (as_UserID input) (as_GroupID input) s of
             Some sub \<Rightarrow>
               tx_then (updateExistingSubscriptionTerm lib (us_ID sub)
                          (normalizeAssignValidityDays (as_ValidityDays input)) (as_Notes input))
                 (\<lambda>_. tx_then (GetByIDForUpdate (us_ID sub)) (\<lambda>sub'. tx_return (sub', True))) now s
           | None \<Rightarrow>
               tx_then (createSubscription lib input)
                 (\<lambda>sub. tx_then (GetByIDForUpdate (us_ID sub)) (\<lambda>sub'. tx_return (sub', False))) now s))"

section \<open>Changing the term\<close>

text \<open>
  Outside a transaction: the row is read, the expiry computed and written, and an expired status
  lifted, each in a statement of its own.
\<close>

definition ExtendSubscription :: "pay_lib \<Rightarrow> int \<Rightarrow> int \<Rightarrow> user_sub pay_op" where
  "ExtendSubscription lib sid days0 =
     bind (tx (GetByIDForUpdate sid)) (\<lambda>r.
       case r of
         Inl e \<Rightarrow> Return (Inl PaySubscriptionNotFound)
       | Inr sub \<Rightarrow>
           (let days = max (- MaxValidityDays) (min MaxValidityDays days0) in
            clock (\<lambda>now.
              let expired = us_ExpiresAt sub \<le> now;
                  newExpiresAt = min MaxExpiresAt (pl_add_days lib (if expired then now else us_ExpiresAt sub) days)
              in if expired \<and> days < 0 then Return (Inl CannotShortenExpired)
                 else if newExpiresAt \<le> now then Return (Inl ErrAdjustWouldExpire)
                 else attempt (tx (ExtendExpiry sid newExpiresAt)) (\<lambda>_.
                        attempt (if us_Status sub = SubscriptionStatusExpired
                                 then tx (UpdateSubStatus sid SubscriptionStatusActive) else Return (Inr ())) (\<lambda>_.
                          tx (GetByIDForUpdate sid))))))"

definition invalidateSubscriptionCaches :: "unit pay_op" where
  "invalidateSubscriptionCaches = ask (\<lambda>t s. Inr ())"

definition RevokeSubscription :: "int \<Rightarrow> unit pay_op" where
  "RevokeSubscription sid =
     attempt (tx (GetByIDForUpdate sid)) (\<lambda>sub. attempt (tx (DeleteSub sid)) (\<lambda>_. invalidateSubscriptionCaches))"

text \<open>\<open>int(d.Hours() / 24)\<close> of a duration that is at most some centuries: whole days, towards zero.\<close>

definition whole_days :: "duration \<Rightarrow> int" where
  "whole_days d = (if d < 0 then - ((- d) div (24 * hour_ns)) else d div (24 * hour_ns))"

text \<open>In the transaction of a redemption.  \<open>note\<close> is the remark that is appended.\<close>

definition reduceOrCancelSubscription :: "pay_lib \<Rightarrow> int \<Rightarrow> int \<Rightarrow> int \<Rightarrow> string \<Rightarrow> unit pay_tx" where
  "reduceOrCancelSubscription lib uid gid reduceDays note now s =
     (case sub_of uid gid s of
        None \<Rightarrow> (Inl PaySubscriptionNotFound, s)
      | Some sub \<Rightarrow>
          (let remaining = max 0 (whole_days (time_sub (us_ExpiresAt sub) now))
           in tx_then
                (if remaining \<le> reduceDays
                 then tx_then (UpdateSubStatus (us_ID sub) SubscriptionStatusExpired) (\<lambda>_. ExtendExpiry (us_ID sub) now)
                 else ExtendExpiry (us_ID sub) (pl_add_days lib (us_ExpiresAt sub) (- reduceDays)))
                (\<lambda>_. UpdateSubNotes (us_ID sub) (appendSubscriptionNotes (us_Notes sub) note)) now s))"

end
