(* ===== verification/Affiliates.thy ===== *)
theory Affiliates
  imports PaymentTables Amounts
begin

text \<open>
  The rebate an inviter gets for what an invited user recharges
  (\<open>backend/internal/service/affiliate_service.go\<close>, \<open>backend/internal/repository/affiliate_repo.go\<close>):
  the affiliate profile of a user, the amount of the rebate, and its booking with an entry of the ledger.
\<close>

section \<open>Profiles and bookings\<close>

text \<open>
  \<open>EnsureUserAffiliate\<close> in a transaction: a code that is taken aborts it, also for the attempts that
  follow.
\<close>

definition EnsureUserAffiliate :: "pay_lib \<Rightarrow> int \<Rightarrow> affiliate_row pay_tx" where
  "EnsureUserAffiliate lib uid t s =
     (if uid \<le> 0 then (Inl PayUserNotFound, s)
      else case db_affiliates s uid of
        Some a \<Rightarrow> (Inr a, s)
      | None \<Rightarrow>
          if pl_aff_code lib \<in> set (db_aff_codes s) then (Inl DbFailed, s)
          else (let a = \<lparr>af_Code = pl_aff_code lib, af_RatePercent = None, af_InviterID = None, af_Quota = 0,
                        af_FrozenQuota = 0, af_HistoryQuota = 0, af_CreatedAt = t\<rparr>
                in (Inr a, s\<lparr>db_affiliates := (db_affiliates s)(uid \<mapsto> a),
                             db_aff_codes := pl_aff_code lib # db_aff_codes s\<rparr>)))"

definition GetAccruedRebateFromInvitee :: "int \<Rightarrow> int \<Rightarrow> decimal pay_tx" where
  "GetAccruedRebateFromInvitee inviter invitee t s =
     (Inr (\<Sum>e\<leftarrow>filter (\<lambda>e. ae_UserID e = inviter \<and> ae_SourceUserID e = invitee) (db_ledger s). ae_Amount e), s)"

text \<open>The answer says whether the inviter has a profile to book on.\<close>

definition AccrueQuota :: "int \<Rightarrow> int \<Rightarrow> decimal \<Rightarrow> int \<Rightarrow> int option \<Rightarrow> bool pay_tx" where
  "AccrueQuota inviter invitee amount freezeHours sourceOrder t s =
     (if amount \<le> 0 then (Inr False, s)
      else case db_affiliates s inviter of
        None \<Rightarrow> (Inr False, s)
      | Some a \<Rightarrow>
          (let a1 = (if freezeHours > 0
                     then a\<lparr>af_FrozenQuota := round_half_away 8 (af_FrozenQuota a + amount),
                            af_HistoryQuota := round_half_away 8 (af_HistoryQuota a + amount)\<rparr>
                     else a\<lparr>af_Quota := round_half_away 8 (af_Quota a + amount),
                            af_HistoryQuota := round_half_away 8 (af_HistoryQuota a + amount)\<rparr>)
           in (Inr True, s\<lparr>db_affiliates := (db_affiliates s)(inviter \<mapsto> a1),
                 db_ledger := db_ledger s @ [\<lparr>ae_UserID = inviter, ae_Amount = round_half_away 8 amount,
                   ae_SourceUserID = invitee, ae_SourceOrderID = sourceOrder,
                   ae_FrozenUntil = (if freezeHours > 0 then Some (t + freezeHours * hour_ns) else None)\<rparr>]\<rparr>)))"

section \<open>The amount\<close>

text \<open>\<open>math.Round(v * factor) / factor\<close> in \<open>float64\<close>; the result under its shortest decimal.\<close>

definition roundTo8 :: "rat \<Rightarrow> decimal" where
  "roundTo8 v = shortest_decimal (f64 (round_half_away 0 (f64 (f64 v * 10 ^ 8)) / 10 ^ 8))"

definition clampAffiliateRebateRate :: "decimal \<Rightarrow> decimal" where
  "clampAffiliateRebateRate r = min 100 (max 0 r)"

definition resolveRebateRatePercent :: "affiliate_conf \<Rightarrow> affiliate_row \<Rightarrow> decimal" where
  "resolveRebateRatePercent conf inviter =
     (case af_RatePercent inviter of Some r \<Rightarrow> clampAffiliateRebateRate r | None \<Rightarrow> ac_RatePercent conf)"

definition rebate_for :: "affiliate_conf \<Rightarrow> affiliate_row \<Rightarrow> decimal \<Rightarrow> decimal" where
  "rebate_for conf inviter base =
     roundTo8 (f64 base * f64 (f64 (resolveRebateRatePercent conf inviter) / 100))"

text \<open>What is left of an inviter's cap for one invited user: \<open>None\<close> when it is used up.\<close>

definition cap_rebate :: "affiliate_conf \<Rightarrow> decimal \<Rightarrow> decimal \<Rightarrow> decimal option" where
  "cap_rebate conf existing rebate =
     (if ac_PerInviteeCap conf \<le> 0 then Some rebate
      else if existing \<ge> ac_PerInviteeCap conf then None
      else (let remaining = f64 (f64 (ac_PerInviteeCap conf) - f64 existing)
            in if f64 rebate > remaining then Some (roundTo8 remaining) else Some rebate))"

definition too_late :: "pay_lib \<Rightarrow> affiliate_conf \<Rightarrow> affiliate_row \<Rightarrow> go_time \<Rightarrow> bool" where
  "too_late lib conf invitee now \<longleftrightarrow>
     ac_DurationDays conf > 0 \<and> pl_add_days lib (af_CreatedAt invitee) (ac_DurationDays conf) < now"

text \<open>In the transaction of an order: the rebate that was booked, zero when there is none.\<close>

definition AccrueInviteRebateForOrder :: "pay_lib \<Rightarrow> affiliate_conf \<Rightarrow> int \<Rightarrow> decimal \<Rightarrow> int option \<Rightarrow> decimal pay_tx" where
  "AccrueInviteRebateForOrder lib conf invitee base sourceOrder =
     (if invitee \<le> 0 \<or> base \<le> 0 \<or> \<not> ac_Enabled conf then tx_return 0
      else tx_then (EnsureUserAffiliate lib invitee) (\<lambda>a.
        case af_InviterID a of
          None \<Rightarrow> tx_return 0
        | Some inviter \<Rightarrow>
            if inviter \<le> 0 then tx_return 0
            else tx_then (EnsureUserAffiliate lib inviter) (\<lambda>b now.
              if too_late lib conf a now then tx_return 0 now
              else if rebate_for conf b base \<le> 0 then tx_return 0 now
              else tx_then (GetAccruedRebateFromInvitee inviter invitee) (\<lambda>existing.
                case cap_rebate conf existing (rebate_for conf b base) of
                  None \<Rightarrow> tx_return 0
                | Some rebate \<Rightarrow>
                    tx_then (AccrueQuota inviter invitee rebate (ac_FreezeHours conf) sourceOrder) (\<lambda>applied.
                      tx_return (if applied then rebate else 0))) now)))"

end
