(* ===== verification/RedeemCodes.thy ===== *)
theory RedeemCodes
  imports Subscriptions Affiliates
begin

text \<open>
  Redeem codes (\<open>backend/internal/service/redeem_service.go\<close>, \<open>redeem_code.go\<close>,
  \<open>backend/internal/repository/redeem_code_repo.go\<close>, \<open>redeem_cache.go\<close>): creating, redeeming, changing
  and deleting them.

  A redemption looks the code up, checks it, and then, in one transaction, marks it used provided it is
  still unused and hands out what it is worth.  The Redis lock and the count of failed attempts are
  best effort: a Redis error is no obstacle.
\<close>

section \<open>The repository\<close>

definition code_by_id :: "int \<Rightarrow> pay_db \<Rightarrow> redeem_code option" where
  "code_by_id cid s = find (\<lambda>c. rc_ID c = cid) (db_codes s)"

definition code_named :: "string \<Rightarrow> pay_db \<Rightarrow> redeem_code option" where
  "code_named code s = find (\<lambda>c. rc_Code c = code) (db_codes s)"

definition repo_GetByID :: "int \<Rightarrow> redeem_code pay_op" where
  "repo_GetByID cid = ask (\<lambda>t s. case code_by_id cid s of None \<Rightarrow> Inl ErrRedeemCodeNotFound | Some c \<Rightarrow> Inr c)"

definition repo_GetByCode :: "string \<Rightarrow> redeem_code pay_op" where
  "repo_GetByCode code = ask (\<lambda>t s. case code_named code s of None \<Rightarrow> Inl ErrRedeemCodeNotFound | Some c \<Rightarrow> Inr c)"

text \<open>The column is unique; ent refuses a code that is empty or longer than 32 bytes.\<close>

definition insert_code :: "redeem_code \<Rightarrow> redeem_code pay_tx" where
  "insert_code c t s =
     (if rc_Code c = '''' \<or> length (rc_Code c) > 32 then (Inl DbFailed, s)
      else if code_named (rc_Code c) s \<noteq> None then (Inl UniqueViolation, s)
      else (let row = c\<lparr>rc_ID := db_next_code s, rc_Value := round_half_away 8 (rc_Value c)\<rparr>
            in (Inr row, s\<lparr>db_codes := db_codes s @ [row], db_next_code := db_next_code s + 1\<rparr>)))"

fun insert_codes :: "redeem_code list \<Rightarrow> unit pay_tx" where
  "insert_codes [] = tx_return ()"
| "insert_codes (c # cs) = tx_then (insert_code c) (\<lambda>_. insert_codes cs)"

text \<open>The code is marked only while it is unused.\<close>

definition Use :: "int \<Rightarrow> int \<Rightarrow> unit pay_tx" where
  "Use cid uid t s =
     (if \<exists>c\<in>set (db_codes s). rc_ID c = cid \<and> rc_Status c = StatusUnused
      then (Inr (), s\<lparr>db_codes := map (\<lambda>c. if rc_ID c = cid \<and> rc_Status c = StatusUnused
                          then c\<lparr>rc_Status := StatusUsed, rc_UsedBy := Some uid, rc_UsedAt := Some t\<rparr> else c) (db_codes s)\<rparr>)
      else (Inl ErrRedeemCodeUsed, s))"

definition delete_code :: "int \<Rightarrow> unit pay_tx" where
  "delete_code cid t s = (Inr (), s\<lparr>db_codes := filter (\<lambda>c. rc_ID c \<noteq> cid) (db_codes s)\<rparr>)"

section \<open>Redis\<close>

definition live :: "go_time \<Rightarrow> go_time option \<Rightarrow> bool" where
  "live t expiry = (case expiry of None \<Rightarrow> False | Some e \<Rightarrow> t < e)"

definition GetRedeemAttemptCount :: "int \<Rightarrow> int pay_op" where
  "GetRedeemAttemptCount uid =
     ask (\<lambda>t s. Inr (case db_attempts s uid of None \<Rightarrow> 0 | Some (n, e) \<Rightarrow> if t < e then n else 0))"

text \<open>The window of a day starts anew with every failed attempt.\<close>

definition IncrementRedeemAttemptCount :: "int \<Rightarrow> unit pay_op" where
  "IncrementRedeemAttemptCount uid =
     tx (\<lambda>t s. (Inr (), s\<lparr>db_attempts := (db_attempts s)(uid \<mapsto>
        (1 + (case db_attempts s uid of None \<Rightarrow> 0 | Some (n, e) \<Rightarrow> if t < e then n else 0), t + 24 * hour_ns))\<rparr>))"

definition AcquireRedeemLock :: "string \<Rightarrow> duration \<Rightarrow> bool pay_op" where
  "AcquireRedeemLock code ttl =
     tx (\<lambda>t s. if live t (db_locks s code) then (Inr False, s)
               else (Inr True, s\<lparr>db_locks := (db_locks s)(code \<mapsto> t + ttl)\<rparr>))"

definition ReleaseRedeemLock :: "string \<Rightarrow> unit pay_op" where
  "ReleaseRedeemLock code = tx (\<lambda>t s. (Inr (), s\<lparr>db_locks := (db_locks s)(code := None)\<rparr>))"

section \<open>Creating codes\<close>

definition IsExpiredAt :: "redeem_code \<Rightarrow> go_time \<Rightarrow> bool" where
  "IsExpiredAt c now \<longleftrightarrow> rc_Status c = StatusExpired
     \<or> rc_Status c = StatusUnused \<and> (case rc_ExpiresAt c of None \<Rightarrow> False | Some e \<Rightarrow> e \<le> now)"

definition CanUse :: "redeem_code \<Rightarrow> go_time \<Rightarrow> bool" where
  "CanUse c now \<longleftrightarrow> rc_Status c = StatusUnused \<and> \<not> IsExpiredAt c now"

definition plain_code :: "string \<Rightarrow> string \<Rightarrow> decimal \<Rightarrow> redeem_code" where
  "plain_code code ty val =
     \<lparr>rc_ID = 0, rc_Code = code, rc_Type = ty, rc_Value = val, rc_Status = StatusUnused, rc_UsedBy = None,
      rc_UsedAt = None, rc_Notes = '''', rc_ExpiresAt = None, rc_GroupID = None, rc_ValidityDays = 0\<rparr>"

definition CreateCode :: "redeem_code \<Rightarrow> redeem_code pay_op" where
  "CreateCode c0 =
     (let c = c0\<lparr>rc_Code := trim_space (rc_Code c0),
                 rc_Type := (if rc_Type c0 = '''' then RedeemTypeBalance else rc_Type c0),
                 rc_Status := (if rc_Status c0 = '''' then StatusUnused else rc_Status c0)\<rparr>
      in if rc_Code c = '''' then Return (Inl CodeIsRequired)
         else if rc_Type c \<noteq> RedeemTypeInvitation \<and> rc_Value c = 0 then Return (Inl ValueMustNotBeZero)
         else clock (\<lambda>now. if IsExpiredAt c now then Return (Inl ErrRedeemCodeExpired) else tx (insert_code c)))"

text \<open>\<open>fresh\<close> are the random codes.\<close>

definition GenerateCodes :: "string list \<Rightarrow> int \<Rightarrow> decimal \<Rightarrow> string \<Rightarrow> redeem_code list pay_op" where
  "GenerateCodes fresh n val ty0 =
     (if n \<le> 0 then Return (Inl (RedeemBatchInvalid ''count''))
      else if ty0 \<noteq> RedeemTypeInvitation \<and> val = 0 then Return (Inl ValueMustNotBeZero)
      else if n > 1000 then Return (Inl (RedeemBatchInvalid ''count''))
      else (let ty = (if ty0 = '''' then RedeemTypeBalance else ty0);
                codes = map (\<lambda>code. plain_code code ty (if ty = RedeemTypeInvitation then 0 else val))
                            (take (nat n) fresh)
            in attempt (tx (insert_codes codes)) (\<lambda>_. Return (Inr codes))))"

section \<open>Redeeming\<close>

text \<open>A Go conversion of a \<open>float64\<close> to \<open>int\<close>.\<close>

definition trunc :: "decimal \<Rightarrow> int" where
  "trunc x = (if x < 0 then - \<lfloor>- x\<rfloor> else \<lfloor>x\<rfloor>)"

text \<open>What is handed out, in the transaction.\<close>

definition hand_out :: "pay_lib \<Rightarrow> int \<Rightarrow> redeem_code \<Rightarrow> unit pay_tx" where
  "hand_out lib uid c =
     (if rc_Type c = RedeemTypeBalance then
        (if rc_Value c < 0 then ApplyRedeemBalanceAdjustment uid (rc_Value c) else UpdateBalance uid (rc_Value c))
      else if rc_Type c = RedeemTypeConcurrency then
        (if trunc (rc_Value c) < 0 then ApplyRedeemConcurrencyAdjustment uid (trunc (rc_Value c))
         else UpdateConcurrency uid (trunc (rc_Value c)))
      else if rc_Type c = RedeemTypeSubscription then
        (case rc_GroupID c of
           None \<Rightarrow> tx_fail RedeemCodeInvalid
         | Some gid \<Rightarrow>
             if rc_ValidityDays c < 0
             then reduceOrCancelSubscription lib uid gid (- rc_ValidityDays c)
                    (pl_reduce_note lib (rc_Code c) (- rc_ValidityDays c))
             else tx_then (assignOrExtendSubscription lib
                     \<lparr>as_UserID = uid, as_GroupID = gid,
                      as_ValidityDays = (if rc_ValidityDays c = 0 then 30 else rc_ValidityDays c),
                      as_AssignedBy = 0, as_Notes = pl_redeem_note lib (rc_Code c)\<rparr>) (\<lambda>_. tx_return ()))
      else tx_fail (RedeemCodeUnsupportedType (rc_Type c)))"

definition redeem_tx :: "pay_lib \<Rightarrow> int \<Rightarrow> redeem_code \<Rightarrow> unit pay_tx" where
  "redeem_tx lib uid c = tx_then (Use (rc_ID c) uid) (\<lambda>_. hand_out lib uid c)"

text \<open>The rebate of a redemption, outside a transaction and with its result ignored.\<close>

definition tryAccrueAffiliateRebateForRedeem :: "pay_lib \<Rightarrow> int \<Rightarrow> decimal \<Rightarrow> unit pay_op" where
  "tryAccrueAffiliateRebateForRedeem lib uid amount =
     (case pl_affiliate lib of
        None \<Rightarrow> Return (Inr ())
      | Some conf \<Rightarrow>
          if \<not> ac_Enabled conf \<or> uid \<le> 0 \<or> amount \<le> 0 then Return (Inr ())
          else attempt (tx (EnsureUserAffiliate lib uid)) (\<lambda>a.
            case af_InviterID a of
              None \<Rightarrow> Return (Inr ())
            | Some inviter \<Rightarrow>
                attempt (tx (EnsureUserAffiliate lib inviter)) (\<lambda>b.
                  clock (\<lambda>now.
                    if too_late lib conf a now \<or> rebate_for conf b amount \<le> 0 then Return (Inr ())
                    else attempt (if ac_PerInviteeCap conf > 0 then tx (GetAccruedRebateFromInvitee inviter uid)
                                  else Return (Inr 0)) (\<lambda>existing.
                      case cap_rebate conf existing (rebate_for conf b amount) of
                        None \<Rightarrow> Return (Inr ())
                      | Some rebate \<Rightarrow>
                          attempt (tx (AccrueQuota inviter uid rebate (ac_FreezeHours conf) None))
                            (\<lambda>_. Return (Inr ())))))))"

text \<open>From the lookup of the code on, under the lock.\<close>

definition redeem_locked :: "pay_lib \<Rightarrow> bool \<Rightarrow> int \<Rightarrow> string \<Rightarrow> redeem_code pay_op" where
  "redeem_locked lib skipRebate uid code =
     (let failed = (\<lambda>e. if pl_redeem_cache lib then ignoring (IncrementRedeemAttemptCount uid) (Return (Inl e))
                        else Return (Inl e))
      in bind (repo_GetByCode code) (\<lambda>r. case r of
           Inl e \<Rightarrow> if e = ErrRedeemCodeNotFound then failed ErrRedeemCodeNotFound else Return (Inl e)
         | Inr c \<Rightarrow> clock (\<lambda>now.
             if IsExpiredAt c now then failed ErrRedeemCodeExpired
             else if \<not> CanUse c now then failed ErrRedeemCodeUsed
             else if rc_Type c \<notin> {RedeemTypeBalance, RedeemTypeConcurrency, RedeemTypeSubscription}
             then Return (Inl (RedeemCodeUnsupportedType (rc_Type c)))
             else if rc_Type c = RedeemTypeSubscription \<and> rc_GroupID c = None then Return (Inl RedeemCodeInvalid)
             else attempt (get_user uid) (\<lambda>_.
               attempt (tx (redeem_tx lib uid c)) (\<lambda>_.
                 if rc_Type c = RedeemTypeBalance \<and> rc_Value c > 0 \<and> \<not> skipRebate
                 then ignoring (tryAccrueAffiliateRebateForRedeem lib uid (rc_Value c)) (repo_GetByID (rc_ID c))
                 else repo_GetByID (rc_ID c))))))"

definition Redeem :: "pay_lib \<Rightarrow> bool \<Rightarrow> int \<Rightarrow> string \<Rightarrow> redeem_code pay_op" where
  "Redeem lib skipRebate uid code =
     (if \<not> pl_redeem_cache lib then redeem_locked lib skipRebate uid code
      else bind (GetRedeemAttemptCount uid) (\<lambda>n.
        if (case n of Inl e \<Rightarrow> False | Inr k \<Rightarrow> k \<ge> 20) then Return (Inl ErrRedeemRateLimited)
        else bind (AcquireRedeemLock code (10 * second_ns)) (\<lambda>l.
          if l = Inr False then Return (Inl ErrRedeemCodeLocked)
          else bind (redeem_locked lib skipRebate uid code) (\<lambda>r. ignoring (ReleaseRedeemLock code) (Return r)))))"

section \<open>Changing and deleting codes\<close>

text \<open>The first of every identifier, in order.\<close>

definition remdups_first :: "int list \<Rightarrow> int list" where
  "remdups_first ids = rev (remdups (rev ids))"

text \<open>The fields of a batch update; \<open>Some None\<close> clears one.\<close>

record code_changes =
  cc_Status :: "string option"
  cc_ExpiresAt :: "go_time option option"
  cc_Notes :: "string option"
  cc_GroupID :: "int option option"
  cc_core :: bool

definition change_code :: "code_changes \<Rightarrow> redeem_code \<Rightarrow> redeem_code" where
  "change_code f c =
     c\<lparr>rc_Status := (case cc_Status f of None \<Rightarrow> rc_Status c | Some v \<Rightarrow> v),
       rc_ExpiresAt := (case cc_ExpiresAt f of None \<Rightarrow> rc_ExpiresAt c | Some v \<Rightarrow> v),
       rc_Notes := (case cc_Notes f of None \<Rightarrow> rc_Notes c | Some v \<Rightarrow> v),
       rc_GroupID := (case cc_GroupID f of None \<Rightarrow> rc_GroupID c | Some v \<Rightarrow> v)\<rparr>"

definition touches_used :: "code_changes \<Rightarrow> bool" where
  "touches_used f \<longleftrightarrow> cc_Status f \<noteq> None \<or> cc_ExpiresAt f \<noteq> None \<or> cc_GroupID f \<noteq> None"

text \<open>
  The transaction reads the rows and then updates them, without a lock in between; what others commit
  between the two statements is therefore visible to the second one only.
\<close>

definition read_for_update :: "int list \<Rightarrow> code_changes \<Rightarrow> unit pay_op" where
  "read_for_update ids f =
     ask (\<lambda>t s. let existing = filter (\<lambda>c. rc_ID c \<in> set ids) (db_codes s)
                in if length existing \<noteq> length ids then Inl ErrRedeemCodeNotFound
                   else if touches_used f \<and> (\<exists>c\<in>set existing. rc_Status c = StatusUsed) then Inl ErrRedeemCodeUsed
                   else Inr ())"

definition write_changes :: "int list \<Rightarrow> code_changes \<Rightarrow> nat pay_tx" where
  "write_changes ids f t s =
     (let n = length (filter (\<lambda>c. rc_ID c \<in> set ids) (db_codes s))
      in if n \<noteq> length ids then (Inl ErrRedeemCodeNotFound, s)
         else (Inr n, s\<lparr>db_codes := map (\<lambda>c. if rc_ID c \<in> set ids then change_code f c else c) (db_codes s)\<rparr>))"

definition repo_BatchUpdate :: "int list \<Rightarrow> code_changes \<Rightarrow> nat pay_op" where
  "repo_BatchUpdate ids f =
     (if ids = [] then Return (Inr 0)
      else attempt (read_for_update ids f) (\<lambda>_. tx (write_changes ids f)))"

definition BatchUpdate :: "int list \<Rightarrow> code_changes \<Rightarrow> nat pay_op" where
  "BatchUpdate ids0 f =
     (if ids0 = [] then Return (Inl (RedeemBatchInvalid ''ids''))
      else if cc_Status f = None \<and> cc_ExpiresAt f = None \<and> cc_Notes f = None \<and> cc_GroupID f = None \<and> \<not> cc_core f
      then Return (Inl (RedeemBatchInvalid ''empty''))
      else if cc_core f then Return (Inl (RedeemBatchInvalid ''core''))
      else if \<exists>i\<in>set ids0. i \<le> 0 then Return (Inl (RedeemBatchInvalid ''id''))
      else if \<not> (case cc_Status f of None \<Rightarrow> True | Some v \<Rightarrow> v \<in> {StatusUnused, StatusDisabled}) then Return (Inl (RedeemBatchInvalid ''status''))
      else clock (\<lambda>now.
        if (case cc_ExpiresAt f of Some (Some e) \<Rightarrow> e \<le> now | _ \<Rightarrow> False) then Return (Inl (RedeemBatchInvalid ''expires_at''))
        else if (case cc_GroupID f of Some (Some g) \<Rightarrow> g \<le> 0 | _ \<Rightarrow> False) then Return (Inl (RedeemBatchInvalid ''group_id''))
        else repo_BatchUpdate (remdups_first ids0) f))"

text \<open>Used codes may not be deleted; the check and the deletion are two statements.\<close>

definition DeleteCode :: "int \<Rightarrow> unit pay_op" where
  "DeleteCode cid =
     attempt (repo_GetByID cid) (\<lambda>c.
       if rc_Status c = StatusUsed then Return (Inl RedeemCodeDeleteUsed) else tx (delete_code cid))"

end
