(* ===== verification/PaymentProviders.thy ===== *)
theory PaymentProviders
  imports PaymentTables
begin

text \<open>
  Which provider an order belongs to, and its currency
  (\<open>backend/internal/service/payment_order_provider_snapshot.go\<close>, \<open>payment_refund.go\<close>,
  \<open>payment_currency.go\<close>, \<open>backend/internal/payment/currency.go\<close>, \<open>types.go\<close>): the snapshot taken when
  the order was created, the provider instance it names, and the checks of a notification against it.
\<close>

section \<open>Currencies\<close>

definition NormalizePaymentCurrency :: "pay_lib \<Rightarrow> string \<Rightarrow> string option" where
  "NormalizePaymentCurrency lib raw =
     (let c = pl_upper lib (trim_space raw) in
      if c = '''' then Some ''CNY''
      else if length c \<noteq> 3 then None
      else if \<forall>ch\<in>set c. 65 \<le> (of_char ch :: nat) \<and> (of_char ch :: nat) \<le> 90 then Some c else None)"

text \<open>The minor unit of the provider's interface and the decimals of an amount.\<close>

definition paymentCurrencyAmountUnitFor :: "pay_lib \<Rightarrow> string \<Rightarrow> nat \<times> nat" where
  "paymentCurrencyAmountUnitFor lib currency =
     (case NormalizePaymentCurrency lib currency of
        None \<Rightarrow> (2, 2)
      | Some c \<Rightarrow>
          if c \<in> set [''BIF'', ''CLP'', ''DJF'', ''GNF'', ''JPY'', ''KMF'', ''KRW'', ''MGA'', ''PYG'', ''RWF'', ''VND'',
                     ''VUV'', ''XAF'', ''XOF'', ''XPF''] then (0, 0)
          else if c \<in> set [''ISK'', ''UGX''] then (2, 0)
          else if c \<in> set [''BHD'', ''IQD'', ''JOD'', ''KWD'', ''LYD'', ''OMR'', ''TND''] then (3, 3)
          else (2, 2))"

definition CurrencyMinorUnit :: "pay_lib \<Rightarrow> string \<Rightarrow> nat" where
  "CurrencyMinorUnit lib currency = fst (paymentCurrencyAmountUnitFor lib currency)"

definition CurrencyMaxFractionDigits :: "pay_lib \<Rightarrow> string \<Rightarrow> nat" where
  "CurrencyMaxFractionDigits lib currency = snd (paymentCurrencyAmountUnitFor lib currency)"

definition paymentAmountToleranceForCurrency :: "pay_lib \<Rightarrow> string \<Rightarrow> rat" where
  "paymentAmountToleranceForCurrency lib currency =
     (let m = CurrencyMinorUnit lib currency
      in if m \<le> 2 then f64 (1 / 100) else f64 (f64 (1 / 10 ^ m) / 2))"

section \<open>The snapshot of an order\<close>

record provider_snapshot =
  sn_SchemaVersion :: int
  sn_ProviderInstanceID :: string
  sn_ProviderKey :: string
  sn_PaymentMode :: string
  sn_MerchantAppID :: string
  sn_MerchantID :: string
  sn_Currency :: string

definition psSnapshotStringValue :: "snap_value option \<Rightarrow> string" where
  "psSnapshotStringValue v = (case v of Some (SnapStr s) \<Rightarrow> trim_space s | _ \<Rightarrow> '''')"

definition psSnapshotIntValue :: "snap_value option \<Rightarrow> int" where
  "psSnapshotIntValue v =
     (case v of
        Some (SnapNum x) \<Rightarrow> (if x < 0 then - \<lfloor>- x\<rfloor> else \<lfloor>x\<rfloor>)
      | Some (SnapStr s) \<Rightarrow> (case atoi (trim_space s) of Some n \<Rightarrow> n | None \<Rightarrow> 0)
      | _ \<Rightarrow> 0)"

definition psOrderProviderSnapshot :: "payment_order \<Rightarrow> provider_snapshot option" where
  "psOrderProviderSnapshot o' =
     (let get = (\<lambda>k. map_of (po_ProviderSnapshot o') k);
          sn = \<lparr>sn_SchemaVersion = psSnapshotIntValue (get ''schema_version''),
                sn_ProviderInstanceID = psSnapshotStringValue (get ''provider_instance_id''),
                sn_ProviderKey = psSnapshotStringValue (get ''provider_key''),
                sn_PaymentMode = psSnapshotStringValue (get ''payment_mode''),
                sn_MerchantAppID = psSnapshotStringValue (get ''merchant_app_id''),
                sn_MerchantID = psSnapshotStringValue (get ''merchant_id''),
                sn_Currency = psSnapshotStringValue (get ''currency'')\<rparr>
      in if po_ProviderSnapshot o' = [] then None
         else if sn_SchemaVersion sn = 0 \<and> sn_ProviderInstanceID sn = '''' \<and> sn_ProviderKey sn = ''''
           \<and> sn_PaymentMode sn = '''' \<and> sn_MerchantAppID sn = '''' \<and> sn_MerchantID sn = '''' \<and> sn_Currency sn = ''''
         then None else Some sn)"

definition PaymentOrderCurrency :: "pay_lib \<Rightarrow> payment_order \<Rightarrow> string" where
  "PaymentOrderCurrency lib o' =
     (case psOrderProviderSnapshot o' of
        None \<Rightarrow> ''CNY''
      | Some sn \<Rightarrow> (case NormalizePaymentCurrency lib (sn_Currency sn) of Some c \<Rightarrow> c | None \<Rightarrow> ''CNY''))"

definition psStringValue :: "string option \<Rightarrow> string" where
  "psStringValue v = (case v of None \<Rightarrow> '''' | Some s \<Rightarrow> s)"

section \<open>The provider instance of an order\<close>

definition GetBasePaymentType :: "string \<Rightarrow> string" where
  "GetBasePaymentType t =
     (if t = ''easypay'' then ''easypay''
      else if t = ''airwallex'' then ''airwallex''
      else if t = ''stripe'' \<or> t = ''card'' \<or> t = ''link'' then ''stripe''
      else if has_prefix t ''alipay'' then ''alipay''
      else if has_prefix t ''wxpay'' then ''wxpay'' else t)"

fun split_commas :: "string \<Rightarrow> string list" where
  "split_commas [] = [[]]"
| "split_commas (c # cs) =
     (if c = CHR '','' then [] # split_commas cs
      else case split_commas cs of [] \<Rightarrow> [[c]] | w # ws \<Rightarrow> (c # w) # ws)"

definition normalizeVisibleMethodSupportType :: "string \<Rightarrow> string" where
  "normalizeVisibleMethodSupportType t =
     (let s = trim_space t in
      if s \<in> {''alipay'', ''alipay_direct''} then ''alipay''
      else if s \<in> {''wxpay'', ''wxpay_direct''} then ''wxpay'' else s)"

definition InstanceSupportsType :: "string \<Rightarrow> string \<Rightarrow> bool" where
  "InstanceSupportsType supportedTypes target \<longleftrightarrow>
     supportedTypes = ''''
     \<or> (\<exists>t\<in>set (split_commas supportedTypes).
          trim_space t = target
          \<or> normalizeVisibleMethodSupportType (trim_space t) = normalizeVisibleMethodSupportType target)"

definition psLegacyOrderMatchesInstance :: "string \<Rightarrow> provider_instance \<Rightarrow> bool" where
  "psLegacyOrderMatchesInstance orderPaymentType inst =
     (let base = GetBasePaymentType (trim_space orderPaymentType); key = trim_space (pi_ProviderKey inst) in
      if base = '''' then False
      else if base = ''stripe'' then key = ''stripe''
      else if key = ''stripe'' then False
      else if key = base then True
      else InstanceSupportsType (pi_SupportedTypes inst) base)"

definition psFilterLegacyOrderProviderInstances :: "string \<Rightarrow> provider_instance list \<Rightarrow> provider_instance list" where
  "psFilterLegacyOrderProviderInstances orderPaymentType instances =
     (if trim_space orderPaymentType = '''' then instances
      else filter (psLegacyOrderMatchesInstance orderPaymentType) instances)"

text \<open>\<open>None\<close> is a nil instance.\<close>

definition resolveUniqueLegacyOrderProviderInstance :: "payment_order \<Rightarrow> pay_db \<Rightarrow> pay_error + provider_instance option" where
  "resolveUniqueLegacyOrderProviderInstance o' s =
     (let paymentType = GetBasePaymentType (trim_space (po_PaymentType o'));
          key = trim_space (psStringValue (po_ProviderKey o'));
          one = (\<lambda>l. case l of [i] \<Rightarrow> Inr (Some i) | _ \<Rightarrow> Inr None)
      in if key \<noteq> ''''
         then one (psFilterLegacyOrderProviderInstances paymentType
                     (filter (\<lambda>i. pi_ProviderKey i = key) (db_instances s)))
         else if paymentType = '''' then Inr None
         else one (psFilterLegacyOrderProviderInstances paymentType (db_instances s)))"

definition instance_by_id :: "int \<Rightarrow> pay_db \<Rightarrow> provider_instance option" where
  "instance_by_id i s = find (\<lambda>inst. pi_ID inst = i) (db_instances s)"

definition resolveSnapshotOrderProviderInstance ::
  "pay_lib \<Rightarrow> payment_order \<Rightarrow> provider_snapshot \<Rightarrow> pay_db \<Rightarrow> pay_error + provider_instance option" where
  "resolveSnapshotOrderProviderInstance lib o' sn s =
     (let column = trim_space (psStringValue (po_ProviderInstanceID o'));
          sid = (if trim_space (sn_ProviderInstanceID sn) = '''' then column else trim_space (sn_ProviderInstanceID sn))
      in if sid = '''' then Inl ProviderInstanceInvalid
         else if column \<noteq> '''' \<and> sn_ProviderInstanceID sn \<noteq> '''' \<and> \<not> pl_equal_fold lib column (sn_ProviderInstanceID sn)
         then Inl ProviderInstanceInvalid
         else case atoi sid of
           None \<Rightarrow> Inl ProviderInstanceInvalid
         | Some i \<Rightarrow>
             (case instance_by_id i s of
                None \<Rightarrow> Inl ProviderInstanceInvalid
              | Some inst \<Rightarrow>
                  if sn_ProviderKey sn \<noteq> '''' \<and> \<not> pl_equal_fold lib (trim_space (pi_ProviderKey inst)) (sn_ProviderKey sn)
                  then Inl ProviderInstanceInvalid else Inr (Some inst)))"

definition getOrderProviderInstance :: "pay_lib \<Rightarrow> payment_order \<Rightarrow> provider_instance option pay_op" where
  "getOrderProviderInstance lib o' = ask (\<lambda>t s.
     case psOrderProviderSnapshot o' of
       Some sn \<Rightarrow> resolveSnapshotOrderProviderInstance lib o' sn s
     | None \<Rightarrow>
         (let sid = trim_space (psStringValue (po_ProviderInstanceID o')) in
          if sid = '''' then resolveUniqueLegacyOrderProviderInstance o' s
          else case atoi sid of
            None \<Rightarrow> Inr None
          | Some i \<Rightarrow> (case instance_by_id i s of None \<Rightarrow> Inl PayNotFound | Some inst \<Rightarrow> Inr (Some inst))))"

text \<open>For refunds an order without a binding has no instance.\<close>

definition getRefundOrderProviderInstance :: "pay_lib \<Rightarrow> payment_order \<Rightarrow> provider_instance option pay_op" where
  "getRefundOrderProviderInstance lib o' = ask (\<lambda>t s.
     case psOrderProviderSnapshot o' of
       Some sn \<Rightarrow> resolveSnapshotOrderProviderInstance lib o' sn s
     | None \<Rightarrow>
         (let sid = trim_space (psStringValue (po_ProviderInstanceID o')) in
          if sid = '''' then Inr None
          else case atoi sid of
            None \<Rightarrow> Inl ProviderInstanceInvalid
          | Some i \<Rightarrow> (case instance_by_id i s of None \<Rightarrow> Inl ProviderInstanceInvalid | Some inst \<Rightarrow> Inr (Some inst))))"

section \<open>Checking a notification\<close>

definition expectedNotificationProviderKey :: "pay_lib \<Rightarrow> payment_order \<Rightarrow> string \<Rightarrow> string" where
  "expectedNotificationProviderKey lib o' instanceKey =
     (let orderKey = (case psOrderProviderSnapshot o' of
                        Some sn \<Rightarrow> if sn_ProviderKey sn \<noteq> '''' then sn_ProviderKey sn else psStringValue (po_ProviderKey o')
                      | None \<Rightarrow> psStringValue (po_ProviderKey o'))
      in if trim_space instanceKey \<noteq> '''' then trim_space instanceKey
         else if trim_space orderKey \<noteq> '''' then trim_space orderKey
         else if trim_space (pl_provider_key lib (po_PaymentType o')) \<noteq> ''''
         then trim_space (pl_provider_key lib (po_PaymentType o'))
         else trim_space (po_PaymentType o'))"

text \<open>One field of the metadata against the snapshot: the message of the error, abbreviated, if there is one.\<close>

definition match_field :: "pay_lib \<Rightarrow> string \<Rightarrow> string \<Rightarrow> string \<Rightarrow> string option" where
  "match_field lib what expected actual =
     (if expected = '''' then None
      else if actual = '''' then Some (what @ '' missing'')
      else if \<not> pl_equal_fold lib expected actual then Some (what @ '' mismatch'') else None)"

fun first_error :: "string option list \<Rightarrow> string option" where
  "first_error [] = None"
| "first_error (e # es) = (case e of Some m \<Rightarrow> Some m | None \<Rightarrow> first_error es)"

definition match_state :: "pay_lib \<Rightarrow> string \<Rightarrow> string \<Rightarrow> string \<Rightarrow> string option" where
  "match_state lib what expected actual =
     (if actual \<noteq> '''' \<and> \<not> pl_equal_fold lib actual expected then Some (what @ '' mismatch'') else None)"

definition validateProviderSnapshotMetadata ::
  "pay_lib \<Rightarrow> payment_order \<Rightarrow> string \<Rightarrow> (string, string) gomap \<Rightarrow> string option" where
  "validateProviderSnapshotMetadata lib o' providerKey metadata =
     (let get = (\<lambda>k. trim_space (case map_of metadata k of None \<Rightarrow> '''' | Some v \<Rightarrow> v));
          key = trim_space providerKey
      in if metadata = [] then None
         else case psOrderProviderSnapshot o' of
           None \<Rightarrow> None
         | Some sn \<Rightarrow>
             if key = ''wxpay'' then
               first_error [match_field lib ''wxpay appid'' (trim_space (sn_MerchantAppID sn)) (get ''appid''),
                            match_field lib ''wxpay mchid'' (trim_space (sn_MerchantID sn)) (get ''mchid''),
                            match_field lib ''wxpay currency'' (trim_space (sn_Currency sn)) (pl_upper lib (get ''currency'')),
                            match_state lib ''wxpay trade_state'' ''SUCCESS'' (get ''trade_state'')]
             else if key = ''alipay'' then
               match_field lib ''alipay app_id'' (trim_space (sn_MerchantAppID sn)) (get ''app_id'')
             else if key = ''easypay'' then
               match_field lib ''easypay pid'' (trim_space (sn_MerchantID sn)) (get ''pid'')
             else if key = ''stripe'' then
               match_field lib ''stripe currency'' (trim_space (sn_Currency sn)) (pl_upper lib (get ''currency''))
             else if key = ''airwallex'' then
               first_error [match_field lib ''airwallex account_id'' (trim_space (sn_MerchantID sn)) (get ''account_id''),
                            match_field lib ''airwallex currency'' (trim_space (sn_Currency sn)) (pl_upper lib (get ''currency'')),
                            match_state lib ''airwallex status'' ''SUCCEEDED'' (get ''status'')]
             else None)"

end
