(* ===== verification/PaymentFulfillment.thy ===== *)
theory PaymentFulfillment
  imports RedeemCodes PaymentProviders
begin

text \<open>
  From a provider's notification to the credit
  (\<open>backend/internal/service/payment_fulfillment.go\<close>, \<open>payment_stats.go\<close>): an order that is paid is
  marked, fulfilled under a lease, and marked completed.  A balance order is fulfilled by creating a
  redeem code and redeeming it, a subscription order by assigning the subscription in a transaction that
  notes so in the audit log; both give the inviter a rebate, once.

  Each operation is cut at its statements and transactions.  Mails to the user and log output are
  left out.
\<close>

section \<open>Leases\<close>

definition paymentFulfillmentLeaseDuration :: duration where
  "paymentFulfillmentLeaseDuration = 5 * minute_ns"

definition set_status :: "string \<Rightarrow> go_time \<Rightarrow> payment_order \<Rightarrow> payment_order" where
  "set_status st t o' = o'\<lparr>po_Status := st\<rparr>"

text \<open>A lease is the \<open>updated_at\<close> the order has when it is read back; no lease, no error: the order is completed.\<close>

definition acquirePaymentFulfillmentLease :: "int \<Rightarrow> go_time option pay_op" where
  "acquirePaymentFulfillmentLease oid =
     attempt (tx (update_orders
         (\<lambda>t o'. po_ID o' = oid
            \<and> (po_Status o' \<in> {OrderStatusPaid, OrderStatusFailed}
               \<or> po_Status o' = OrderStatusRecharging \<and> po_UpdatedAt o' \<le> t - paymentFulfillmentLeaseDuration))
         (\<lambda>t o'. o'\<lparr>po_Status := OrderStatusRecharging, po_FailedAt := None, po_FailedReason := None\<rparr>)))
       (\<lambda>updated. attempt (get_order oid) (\<lambda>o'.
          if updated = 0
          then (if po_Status o' = OrderStatusCompleted then Return (Inr None) else Return (Inl PayConflict))
          else if po_Status o' \<noteq> OrderStatusRecharging then Return (Inl PayConflict)
          else Return (Inr (Some (po_UpdatedAt o')))))"

text \<open>The rows the holder of a lease may change.\<close>

definition leased :: "int \<Rightarrow> go_time \<Rightarrow> payment_order \<Rightarrow> bool" where
  "leased oid version o' \<longleftrightarrow> po_ID o' = oid \<and> po_Status o' = OrderStatusRecharging \<and> po_UpdatedAt o' = version"

definition markCompleted :: "payment_order \<Rightarrow> go_time \<Rightarrow> string \<Rightarrow> unit pay_op" where
  "markCompleted o' version action =
     attempt (tx (update_orders (\<lambda>t. leased (po_ID o') version)
                (\<lambda>t p. p\<lparr>po_Status := OrderStatusCompleted, po_CompletedAt := Some t\<rparr>)))
       (\<lambda>updated.
          if updated = 0
          then bind (get_order (po_ID o')) (\<lambda>r. case r of
                 Inr current \<Rightarrow> if po_Status current = OrderStatusCompleted then Return (Inr ()) else Return (Inl PayConflict)
               | Inl e \<Rightarrow> Return (Inl PayConflict))
          else hasAuditLog (po_ID o') action (\<lambda>found.
                 if found then Return (Inr ())
                 else writeAuditLog (po_ID o') action ''system''
                        [(''rechargeCode'', AudStr (po_RechargeCode o')), (''creditedAmount'', AudNum (po_Amount o')),
                         (''payAmount'', AudNum (po_PayAmount o'))] (Return (Inr ()))))"

definition markFailed :: "pay_lib \<Rightarrow> int \<Rightarrow> go_time \<Rightarrow> pay_error \<Rightarrow> unit pay_op" where
  "markFailed lib oid version cause =
     bind (tx (update_orders (\<lambda>t. leased oid version)
             (\<lambda>t p. p\<lparr>po_Status := OrderStatusFailed, po_FailedAt := Some t,
                      po_FailedReason := Some (pl_error_text lib cause)\<rparr>)))
       (\<lambda>r. case r of
          Inr n \<Rightarrow> if n > 0 then writeAuditLog oid ''FULFILLMENT_FAILED'' ''system''
                                [(''reason'', AudStr (pl_error_text lib cause))] (Return (Inr ()))
                   else Return (Inr ())
        | Inl e \<Rightarrow> Return (Inr ()))"

section \<open>The inviter's rebate\<close>

definition affiliateRebateBaseAmount :: "payment_order \<Rightarrow> decimal" where
  "affiliateRebateBaseAmount o' =
     (if po_OrderType o' \<in> {''balance'', ''subscription''} then po_Amount o' else 0)"

text \<open>\<open>INSERT ... WHERE NOT EXISTS ... ON CONFLICT DO NOTHING\<close>: whether the claim was free.\<close>

definition tryClaimAffiliateRebateAudit :: "int \<Rightarrow> decimal \<Rightarrow> bool pay_tx" where
  "tryClaimAffiliateRebateAudit oid base t s =
     (if audited oid ''AFFILIATE_REBATE_APPLIED'' s \<or> audited oid ''AFFILIATE_REBATE_SKIPPED'' s then (Inr False, s)
      else (case insert_audit oid ''AFFILIATE_REBATE_APPLIED'' ''system''
                   [(''baseAmount'', AudNum base), (''status'', AudStr ''reserved'')] t s of
              (Inl e, s') \<Rightarrow> (Inr False, s') | (Inr u, s') \<Rightarrow> (Inr True, s')))"

definition updateClaimedAffiliateRebateAudit :: "int \<Rightarrow> string \<Rightarrow> (string \<times> audit_value) list \<Rightarrow> unit pay_tx" where
  "updateClaimedAffiliateRebateAudit oid action detail t s =
     (if \<not> audited oid ''AFFILIATE_REBATE_APPLIED'' s then (Inl PayNotFound, s)
      else (Inr (), s\<lparr>db_audit := map (\<lambda>l. if al_OrderID l = itoa oid \<and> al_Action l = ''AFFILIATE_REBATE_APPLIED''
                        then l\<lparr>al_Action := action, al_Detail := detail, al_Operator := ''system''\<rparr> else l) (db_audit s)\<rparr>))"

definition affiliate_rebate_tx :: "pay_lib \<Rightarrow> affiliate_conf \<Rightarrow> payment_order \<Rightarrow> unit pay_tx" where
  "affiliate_rebate_tx lib conf o' =
     tx_then (tryClaimAffiliateRebateAudit (po_ID o') (affiliateRebateBaseAmount o')) (\<lambda>claimed.
       if \<not> claimed then tx_return ()
       else tx_then (AccrueInviteRebateForOrder lib conf (po_UserID o') (affiliateRebateBaseAmount o') (Some (po_ID o')))
         (\<lambda>rebate.
            if rebate \<le> 0
            then updateClaimedAffiliateRebateAudit (po_ID o') ''AFFILIATE_REBATE_SKIPPED''
                   [(''baseAmount'', AudNum (affiliateRebateBaseAmount o')),
                    (''reason'', AudStr ''no inviter bound or rebate amount <= 0'')]
            else updateClaimedAffiliateRebateAudit (po_ID o') ''AFFILIATE_REBATE_APPLIED''
                   [(''baseAmount'', AudNum (affiliateRebateBaseAmount o')), (''rebateAmount'', AudNum rebate)]))"

definition applyAffiliateRebateForOrder :: "pay_lib \<Rightarrow> payment_order \<Rightarrow> unit pay_op" where
  "applyAffiliateRebateForOrder lib o' =
     (if affiliateRebateBaseAmount o' \<le> 0 then Return (Inr ())
      else case pl_affiliate lib of
        None \<Rightarrow> Return (Inr ())
      | Some conf \<Rightarrow>
          bind (tx (affiliate_rebate_tx lib conf o')) (\<lambda>r. case r of
            Inl e \<Rightarrow> writeAuditLog (po_ID o') ''AFFILIATE_REBATE_FAILED'' ''system''
                      [(''error'', AudStr (pl_error_text lib e))] (Return (Inl e))
          | Inr u \<Rightarrow> Return (Inr ())))"

section \<open>Balance orders\<close>

datatype redeemAction = redeemActionCreate | redeemActionRedeem | redeemActionSkipCompleted

definition resolveRedeemAction :: "pay_error + redeem_code \<Rightarrow> redeemAction" where
  "resolveRedeemAction r =
     (case r of
        Inl e \<Rightarrow> redeemActionCreate
      | Inr c \<Rightarrow> if rc_Status c = StatusUsed then redeemActionSkipCompleted else redeemActionRedeem)"

definition finish_balance :: "pay_lib \<Rightarrow> payment_order \<Rightarrow> go_time \<Rightarrow> unit pay_op" where
  "finish_balance lib o' version =
     attempt (applyAffiliateRebateForOrder lib o') (\<lambda>_. markCompleted o' version ''RECHARGE_SUCCESS'')"

definition redeem_balance :: "pay_lib \<Rightarrow> payment_order \<Rightarrow> go_time \<Rightarrow> unit pay_op" where
  "redeem_balance lib o' version =
     attempt (Redeem lib True (po_UserID o') (po_RechargeCode o')) (\<lambda>_. finish_balance lib o' version)"

definition doBalance :: "pay_lib \<Rightarrow> payment_order \<Rightarrow> go_time \<Rightarrow> unit pay_op" where
  "doBalance lib o' version =
     bind (repo_GetByCode (po_RechargeCode o')) (\<lambda>r.
       case resolveRedeemAction r of
         redeemActionSkipCompleted \<Rightarrow> finish_balance lib o' version
       | redeemActionCreate \<Rightarrow>
           attempt (CreateCode (plain_code (po_RechargeCode o') RedeemTypeBalance (po_Amount o')))
             (\<lambda>_. redeem_balance lib o' version)
       | redeemActionRedeem \<Rightarrow> redeem_balance lib o' version)"

section \<open>Subscription orders\<close>

definition paymentSubscriptionOrderNote :: "int \<Rightarrow> string" where
  "paymentSubscriptionOrderNote oid = ''payment order '' @ itoa oid"

text \<open>The lines of a text; a carriage return before the end of a line is dropped.\<close>

fun note_lines :: "string \<Rightarrow> string list" where
  "note_lines [] = [[]]"
| "note_lines (c # cs) =
     (if c = CHR 0x0A then [] # note_lines cs
      else if c = CHR 0x0D \<and> (case cs of [] \<Rightarrow> False | d # ds \<Rightarrow> d = CHR 0x0A) then note_lines cs
      else case note_lines cs of [] \<Rightarrow> [[c]] | l # ls \<Rightarrow> (c # l) # ls)"

definition hasPaymentSubscriptionOrderNote :: "string \<Rightarrow> string \<Rightarrow> bool" where
  "hasPaymentSubscriptionOrderNote notes note \<longleftrightarrow> (\<exists>l\<in>set (note_lines notes). trim_space l = note)"

definition hasPaymentSubscriptionAssignmentAudit :: "int \<Rightarrow> pay_db \<Rightarrow> bool" where
  "hasPaymentSubscriptionAssignmentAudit oid s \<longleftrightarrow>
     audited oid ''SUBSCRIPTION_ASSIGNED'' s \<or> audited oid ''SUBSCRIPTION_SUCCESS'' s"

definition assign_for_order :: "pay_lib \<Rightarrow> payment_order \<Rightarrow> int \<Rightarrow> int \<Rightarrow> unit pay_tx" where
  "assign_for_order lib o' gid days t s =
     (let note = paymentSubscriptionOrderNote (po_ID o');
          noted = (case sub_of (po_UserID o') gid s of
                     Some sub \<Rightarrow> hasPaymentSubscriptionOrderNote (us_Notes sub) note | None \<Rightarrow> False);
          record_it = (\<lambda>recovered. insert_audit (po_ID o') ''SUBSCRIPTION_ASSIGNED'' ''system''
             [(''groupID'', AudInt gid), (''validityDays'', AudInt days), (''recoveredFromNote'', AudBool recovered)])
      in if noted then record_it True t s
         else tx_then (assignOrExtendSubscription lib
                 \<lparr>as_UserID = po_UserID o', as_GroupID = gid, as_ValidityDays = days, as_AssignedBy = 0, as_Notes = note\<rparr>)
                (\<lambda>_. record_it False) t s)"

text \<open>
  The transaction first looks for the entry of the audit log; a concurrent one that commits in between
  makes its own entry fail, and is then found by the check that follows.
\<close>

definition ensurePaymentSubscriptionAssigned :: "pay_lib \<Rightarrow> payment_order \<Rightarrow> int \<Rightarrow> int \<Rightarrow> unit pay_op" where
  "ensurePaymentSubscriptionAssigned lib o' gid days =
     (if \<not> pl_subscriptions lib then Return (Inl SubscriptionServiceUnavailable)
      else attempt (ask (\<lambda>t s. Inr (hasPaymentSubscriptionAssignmentAudit (po_ID o') s))) (\<lambda>already.
        if already then invalidateSubscriptionCaches
        else bind (tx (assign_for_order lib o' gid days)) (\<lambda>r. case r of
          Inr u \<Rightarrow> invalidateSubscriptionCaches
        | Inl e \<Rightarrow>
            if e = UniqueViolation
            then bind (ask (\<lambda>t s. Inr (hasPaymentSubscriptionAssignmentAudit (po_ID o') s))) (\<lambda>c.
                   if c = Inr True then invalidateSubscriptionCaches else Return (Inl e))
            else Return (Inl e))))"

definition doSub :: "pay_lib \<Rightarrow> payment_order \<Rightarrow> int \<Rightarrow> int \<Rightarrow> go_time \<Rightarrow> unit pay_op" where
  "doSub lib o' gid days version =
     bind (ask (\<lambda>t s. case db_groups s gid of None \<Rightarrow> Inl PayNotFound | Some g \<Rightarrow> Inr (sg_Active g))) (\<lambda>r.
       if r \<noteq> Inr True then Return (Inl GroupInactive)
       else attempt (ensurePaymentSubscriptionAssigned lib o' gid days) (\<lambda>_.
         attempt (applyAffiliateRebateForOrder lib o') (\<lambda>_. markCompleted o' version ''SUBSCRIPTION_SUCCESS'')))"

section \<open>Fulfilling\<close>

definition under_lease :: "pay_lib \<Rightarrow> int \<Rightarrow> (go_time \<Rightarrow> unit pay_op) \<Rightarrow> unit pay_op" where
  "under_lease lib oid work =
     attempt (acquirePaymentFulfillmentLease oid) (\<lambda>lease.
       case lease of
         None \<Rightarrow> Return (Inr ())
       | Some version \<Rightarrow>
           bind (work version) (\<lambda>r. case r of
             Inl e \<Rightarrow> ignoring (markFailed lib oid version e) (Return (Inl e))
           | Inr u \<Rightarrow> Return (Inr ())))"

text \<open>The checks before the lease; \<open>None\<close>: go on.\<close>

definition fulfillable :: "payment_order \<Rightarrow> (pay_error + unit) option" where
  "fulfillable o' =
     (if po_Status o' = OrderStatusCompleted then Some (Inr ())
      else if psIsRefundStatus (po_Status o') then Some (Inl InvalidStatus)
      else if po_Status o' \<notin> {OrderStatusPaid, OrderStatusFailed, OrderStatusRecharging} then Some (Inl InvalidStatus)
      else None)"

definition ExecuteBalanceFulfillment :: "pay_lib \<Rightarrow> int \<Rightarrow> unit pay_op" where
  "ExecuteBalanceFulfillment lib oid =
     bind (get_order oid) (\<lambda>r. case r of
       Inl e \<Rightarrow> Return (Inl PayNotFound)
     | Inr o' \<Rightarrow> (case fulfillable o' of Some res \<Rightarrow> Return res | None \<Rightarrow> under_lease lib oid (doBalance lib o')))"

definition ExecuteSubscriptionFulfillment :: "pay_lib \<Rightarrow> int \<Rightarrow> unit pay_op" where
  "ExecuteSubscriptionFulfillment lib oid =
     bind (get_order oid) (\<lambda>r. case r of
       Inl e \<Rightarrow> Return (Inl PayNotFound)
     | Inr o' \<Rightarrow>
         (case fulfillable o' of
            Some res \<Rightarrow> Return res
          | None \<Rightarrow>
              (case (po_SubscriptionGroupID o', po_SubscriptionDays o') of
                 (Some gid, Some days) \<Rightarrow> under_lease lib oid (doSub lib o' gid days)
               | _ \<Rightarrow> Return (Inl MissingSubscriptionInfo))))"

definition executeFulfillment :: "pay_lib \<Rightarrow> int \<Rightarrow> unit pay_op" where
  "executeFulfillment lib oid =
     attempt (get_order oid) (\<lambda>o'.
       if po_OrderType o' = ''subscription'' then ExecuteSubscriptionFulfillment lib oid
       else ExecuteBalanceFulfillment lib oid)"

definition RetryFulfillment :: "pay_lib \<Rightarrow> int \<Rightarrow> unit pay_op" where
  "RetryFulfillment lib oid =
     bind (get_order oid) (\<lambda>r. case r of
       Inl e \<Rightarrow> Return (Inl PayNotFound)
     | Inr o' \<Rightarrow>
         if po_PaidAt o' = None then Return (Inl InvalidStatus)
         else if psIsRefundStatus (po_Status o') then Return (Inl InvalidStatus)
         else if po_Status o' = OrderStatusCompleted then Return (Inl InvalidStatus)
         else if po_Status o' \<notin> {OrderStatusFailed, OrderStatusPaid, OrderStatusRecharging} then Return (Inl InvalidStatus)
         else writeAuditLog oid ''RECHARGE_RETRY'' ''admin'' [(''detail'', AudStr ''admin manual retry'')]
                (executeFulfillment lib oid))"

section \<open>Notifications\<close>

definition paymentGraceMinutes :: int where
  "paymentGraceMinutes = 5"

definition alreadyProcessed :: "pay_lib \<Rightarrow> int \<Rightarrow> unit pay_op" where
  "alreadyProcessed lib oid =
     bind (get_order oid) (\<lambda>r. case r of
       Inl e \<Rightarrow> Return (Inr ())
     | Inr cur \<Rightarrow>
         if po_Status cur \<in> {OrderStatusCompleted, OrderStatusRefunded} then Return (Inr ())
         else if po_Status cur \<in> {OrderStatusFailed, OrderStatusPaid, OrderStatusRecharging}
         then executeFulfillment lib oid
         else if po_Status cur = OrderStatusExpired
         then writeAuditLog oid ''PAYMENT_AFTER_EXPIRY'' ''system''
                [(''status'', AudStr (po_Status cur)), (''updatedAt'', AudTime (po_UpdatedAt cur)),
                 (''reason'', AudStr ''payment arrived after expiry grace period'')] (Return (Inr ()))
         else Return (Inr ()))"

definition toPaid :: "pay_lib \<Rightarrow> payment_order \<Rightarrow> string \<Rightarrow> decimal \<Rightarrow> string \<Rightarrow> unit pay_op" where
  "toPaid lib o' tradeNo paid pk =
     attempt (tx (update_orders
         (\<lambda>t p. po_ID p = po_ID o'
            \<and> (po_Status p = OrderStatusPending \<or> po_Status p = OrderStatusCancelled
               \<or> po_Status p = OrderStatusExpired \<and> t - paymentGraceMinutes * minute_ns \<le> po_UpdatedAt p))
         (\<lambda>t p. p\<lparr>po_Status := OrderStatusPaid, po_PayAmount := round_half_away 2 paid, po_PaymentTradeNo := tradeNo,
                  po_PaidAt := Some t, po_FailedAt := None, po_FailedReason := None\<rparr>)))
       (\<lambda>n. if n = 0 then alreadyProcessed lib (po_ID o')
            else (let go_on = writeAuditLog (po_ID o') ''ORDER_PAID'' pk
                        [(''tradeNo'', AudStr tradeNo), (''paidAmount'', AudNum paid)] (executeFulfillment lib (po_ID o'))
                  in if po_Status o' \<in> {OrderStatusCancelled, OrderStatusExpired}
                     then writeAuditLog (po_ID o') ''ORDER_RECOVERED'' pk
                            [(''previous_status'', AudStr (po_Status o')), (''tradeNo'', AudStr tradeNo),
                             (''paidAmount'', AudNum paid),
                             (''reason'', AudStr (''webhook payment success received after order '' @ po_Status o'))] go_on
                     else go_on))"

text \<open>\<open>float64\<close> values of a provider are finite here.\<close>

definition isValidProviderAmount :: "decimal \<Rightarrow> bool" where
  "isValidProviderAmount amount \<longleftrightarrow> 0 < amount"

definition confirmPayment ::
  "pay_lib \<Rightarrow> int \<Rightarrow> string \<Rightarrow> decimal \<Rightarrow> string \<Rightarrow> (string, string) gomap \<Rightarrow> unit pay_op" where
  "confirmPayment lib oid tradeNo paid pk metadata =
     bind (get_order oid) (\<lambda>r. case r of
       Inl e \<Rightarrow> Return (Inr ())
     | Inr o' \<Rightarrow>
         bind (getOrderProviderInstance lib o') (\<lambda>i.
           let instanceKey = (case i of Inr (Some inst) \<Rightarrow> pi_ProviderKey inst | _ \<Rightarrow> '''');
               expected = expectedNotificationProviderKey lib o' instanceKey
           in if expected \<noteq> '''' \<and> trim_space pk \<noteq> '''' \<and> \<not> pl_equal_fold lib expected (trim_space pk)
              then writeAuditLog oid ''PAYMENT_PROVIDER_MISMATCH'' pk
                     [(''expectedProvider'', AudStr expected), (''actualProvider'', AudStr pk), (''tradeNo'', AudStr tradeNo)]
                     (Return (Inl ProviderMismatch))
              else case validateProviderSnapshotMetadata lib o' pk metadata of
                Some m \<Rightarrow>
                  writeAuditLog oid ''PAYMENT_PROVIDER_METADATA_MISMATCH'' pk
                    [(''detail'', AudStr m), (''tradeNo'', AudStr tradeNo)] (Return (Inl (ProviderMetadataMismatch m)))
              | None \<Rightarrow>
                  if \<not> isValidProviderAmount paid
                  then writeAuditLog oid ''PAYMENT_INVALID_AMOUNT'' pk
                         [(''expected'', AudNum (po_PayAmount o')), (''paid'', AudNum paid), (''tradeNo'', AudStr tradeNo)]
                         (Return (Inl InvalidPaidAmount))
                  else if \<bar>f64 (f64 paid - f64 (po_PayAmount o'))\<bar>
                            > paymentAmountToleranceForCurrency lib (PaymentOrderCurrency lib o')
                  then writeAuditLog oid ''PAYMENT_AMOUNT_MISMATCH'' pk
                         [(''expected'', AudNum (po_PayAmount o')), (''paid'', AudNum paid), (''tradeNo'', AudStr tradeNo)]
                         (Return (Inl AmountMismatch))
                  else toPaid lib o' tradeNo paid pk))"

definition parseLegacyPaymentOrderID :: "string \<Rightarrow> int option" where
  "parseLegacyPaymentOrderID orderID0 =
     (let orderID = trim_space orderID0 in
      if \<not> has_prefix orderID ''sub2_'' then None
      else if drop 5 orderID = '''' then None
      else case atoi (drop 5 orderID) of None \<Rightarrow> None | Some i \<Rightarrow> if i \<le> 0 then None else Some i)"

record payment_notification =
  pn_TradeNo :: string
  pn_OrderID :: string
  pn_Amount :: decimal
  pn_Status :: string
  pn_Metadata :: "(string, string) gomap"

text \<open>\<open>Only\<close>: several orders with one number are an error that is not \<open>NotFound\<close>.\<close>

definition order_numbered :: "string \<Rightarrow> payment_order pay_op" where
  "order_numbered outTradeNo = ask (\<lambda>t s.
     case filter (\<lambda>o'. po_OutTradeNo o' = outTradeNo) (db_orders s) of
       [] \<Rightarrow> Inl PayNotFound | [o'] \<Rightarrow> Inr o' | _ \<Rightarrow> Inl DbFailed)"

definition HandlePaymentNotification :: "pay_lib \<Rightarrow> payment_notification \<Rightarrow> string \<Rightarrow> unit pay_op" where
  "HandlePaymentNotification lib n pk =
     (if pn_Status n \<noteq> ''success'' then Return (Inr ())
      else bind (order_numbered (pn_OrderID n)) (\<lambda>r. case r of
        Inr o' \<Rightarrow> confirmPayment lib (po_ID o') (pn_TradeNo n) (pn_Amount n) pk (pn_Metadata n)
      | Inl e \<Rightarrow>
          if e \<noteq> PayNotFound then Return (Inl e)
          else case parseLegacyPaymentOrderID (pn_OrderID n) of
            Some oid \<Rightarrow> confirmPayment lib oid (pn_TradeNo n) (pn_Amount n) pk (pn_Metadata n)
          | None \<Rightarrow> Return (Inl ErrOrderNotFound)))"

end
