(* ===== verification/PaymentCredit.thy ===== *)
theory PaymentCredit
  imports PaymentFulfillment
begin

text \<open>
  What recharges preserve: \<open>pay_ok\<close> is the invariant of the tables, \<open>pay_grows\<close> how they may change,
  and every transaction of a redemption or a fulfilment keeps both.  The sum of the values of the codes
  a user has redeemed is what the balance and the recharged total of the user have grown by.
\<close>

section \<open>The invariant\<close>

definition order_core :: "payment_order \<Rightarrow> int \<times> int \<times> decimal \<times> string \<times> string" where
  "order_core o' = (po_ID o', po_UserID o', po_Amount o', po_RechargeCode o', po_OrderType o')"

definition code_core :: "redeem_code \<Rightarrow> int \<times> string \<times> string \<times> decimal" where
  "code_core c = (rc_ID c, rc_Code c, rc_Type c, rc_Value c)"

definition redeemed_by :: "int \<Rightarrow> redeem_code \<Rightarrow> bool" where
  "redeemed_by uid c \<longleftrightarrow> rc_Status c = StatusUsed \<and> rc_UsedBy c = Some uid"

text \<open>What a code adds to the balance.\<close>

definition credit_value :: "redeem_code \<Rightarrow> decimal" where
  "credit_value c = (if rc_Type c = RedeemTypeBalance then max 0 (rc_Value c) else 0)"

definition recharged :: "int \<Rightarrow> pay_db \<Rightarrow> decimal" where
  "recharged uid s = (\<Sum>c\<leftarrow>db_codes s. if redeemed_by uid c then credit_value c else 0)"

text \<open>A balance code of negative value takes from the balance, but not below zero.\<close>

definition debit_value :: "redeem_code \<Rightarrow> decimal" where
  "debit_value c = (if rc_Type c = RedeemTypeBalance then max 0 (- rc_Value c) else 0)"

definition debited :: "int \<Rightarrow> pay_db \<Rightarrow> decimal" where
  "debited uid s = (\<Sum>c\<leftarrow>db_codes s. if redeemed_by uid c then debit_value c else 0)"

definition code_spent :: "payment_order \<Rightarrow> pay_db \<Rightarrow> bool" where
  "code_spent o' s \<longleftrightarrow> (\<exists>c\<in>set (db_codes s). rc_Code c = po_RechargeCode o' \<and> rc_Status c = StatusUsed)"

text \<open>
  A code with the name of an order's is for its amount and, once used, used by its user or by somebody
  else who redeems it: \<open>who uid code\<close> says that user \<open>uid\<close> may call \<open>Redeem\<close> with \<open>code\<close>.  No code of the
  program restricts that.
\<close>

definition code_matches :: "(int \<Rightarrow> string \<Rightarrow> bool) \<Rightarrow> payment_order \<Rightarrow> redeem_code \<Rightarrow> bool" where
  "code_matches who o' c \<longleftrightarrow>
     (rc_Code c = po_RechargeCode o' \<longrightarrow>
        rc_Type c = RedeemTypeBalance \<and> rc_Value c = po_Amount o'
        \<and> (rc_Status c = StatusUsed \<longrightarrow>
             (\<exists>v. rc_UsedBy c = Some v \<and> (v = po_UserID o' \<or> who v (po_RechargeCode o')))))"

definition rebate_claimed :: "int \<Rightarrow> pay_db \<Rightarrow> bool" where
  "rebate_claimed oid s \<longleftrightarrow> audited oid ''AFFILIATE_REBATE_APPLIED'' s \<or> audited oid ''AFFILIATE_REBATE_SKIPPED'' s"

definition rebates_of :: "int \<Rightarrow> pay_db \<Rightarrow> affiliate_entry list" where
  "rebates_of oid s = filter (\<lambda>e. ae_SourceOrderID e = Some oid) (db_ledger s)"

definition orders_ok :: "pay_db \<Rightarrow> bool" where
  "orders_ok s \<longleftrightarrow> distinct (map po_ID (db_orders s)) \<and> distinct (map po_RechargeCode (db_orders s))
     \<and> (\<forall>o'\<in>set (db_orders s). trim_space (po_RechargeCode o') = po_RechargeCode o' \<and> on_scale 8 (po_Amount o')
          \<and> (po_Status o' = OrderStatusCompleted \<and> po_OrderType o' \<noteq> ''subscription'' \<longrightarrow> code_spent o' s))"

definition codes_ok :: "(int \<Rightarrow> string \<Rightarrow> bool) \<Rightarrow> pay_db \<Rightarrow> bool" where
  "codes_ok who s \<longleftrightarrow> distinct (map rc_ID (db_codes s)) \<and> distinct (map rc_Code (db_codes s))
     \<and> (\<forall>c\<in>set (db_codes s). rc_ID c < db_next_code s \<and> on_scale 8 (rc_Value c) \<and> (\<forall>o'\<in>set (db_orders s). code_matches who o' c))"

definition users_ok :: "pay_db \<Rightarrow> bool" where
  "users_ok s \<longleftrightarrow> (\<forall>uid u. db_users s uid = Some u \<longrightarrow> on_scale 8 (py_Balance u) \<and> on_scale 8 (py_TotalRecharged u))"

definition rebates_ok :: "pay_db \<Rightarrow> bool" where
  "rebates_ok s \<longleftrightarrow> (\<forall>oid. rebates_of oid s \<noteq> [] \<longrightarrow> rebate_claimed oid s \<and> length (rebates_of oid s) \<le> 1)"

definition pay_ok :: "(int \<Rightarrow> string \<Rightarrow> bool) \<Rightarrow> pay_db \<Rightarrow> bool" where
  "pay_ok who s \<longleftrightarrow> orders_ok s \<and> codes_ok who s \<and> users_ok s \<and> rebates_ok s"

section \<open>How the tables change\<close>

definition codes_grow :: "pay_db \<Rightarrow> pay_db \<Rightarrow> bool" where
  "codes_grow s s' \<longleftrightarrow> (\<forall>c\<in>set (db_codes s). \<exists>c'\<in>set (db_codes s'). code_core c' = code_core c \<and> (rc_Status c = StatusUsed \<longrightarrow> c' = c))"

text \<open>The balance of a user grows by the codes redeemed; those of negative value take at most their amount
  and never more than there is (a balance that is below zero already is raised to it).\<close>

definition credited_exactly :: "pay_db \<Rightarrow> pay_db \<Rightarrow> int \<Rightarrow> pay_user \<Rightarrow> pay_user \<Rightarrow> bool" where
  "credited_exactly s s' uid u u' \<longleftrightarrow>
     recharged uid s \<le> recharged uid s' \<and> debited uid s \<le> debited uid s'
     \<and> py_TotalRecharged u' - py_TotalRecharged u = recharged uid s' - recharged uid s
     \<and> (recharged uid s' - recharged uid s) - (debited uid s' - debited uid s) \<le> py_Balance u' - py_Balance u
     \<and> py_Balance u' \<le> max 0 (py_Balance u) + (recharged uid s' - recharged uid s)
     \<and> (debited uid s' = debited uid s \<longrightarrow> py_Balance u' - py_Balance u = recharged uid s' - recharged uid s)"

definition users_grow :: "pay_db \<Rightarrow> pay_db \<Rightarrow> bool" where
  "users_grow s s' \<longleftrightarrow>
     (\<forall>uid. case db_users s uid of None \<Rightarrow> True | Some u \<Rightarrow>
        (case db_users s' uid of None \<Rightarrow> False | Some u' \<Rightarrow> credited_exactly s s' uid u u'))"

text \<open>Once paid, an order is never pending, cancelled or expired again; a completed one stays so.\<close>

definition unpaid :: "payment_order \<Rightarrow> bool" where
  "unpaid o' \<longleftrightarrow> po_Status o' \<in> {OrderStatusPending, OrderStatusCancelled, OrderStatusExpired}"

definition order_progress :: "payment_order \<Rightarrow> payment_order \<Rightarrow> bool" where
  "order_progress p q \<longleftrightarrow> (unpaid q \<longrightarrow> unpaid p) \<and> (po_Status p = OrderStatusCompleted \<longrightarrow> po_Status q = OrderStatusCompleted)"

definition pay_grows :: "pay_db \<Rightarrow> pay_db \<Rightarrow> bool" where
  "pay_grows s s' \<longleftrightarrow> map order_core (db_orders s') = map order_core (db_orders s)
     \<and> list_all2 order_progress (db_orders s) (db_orders s')
     \<and> codes_grow s s' \<and> users_grow s s' \<and> (\<forall>oid. rebate_claimed oid s \<longrightarrow> rebate_claimed oid s')"

lemma order_progress_refl [simp]: "order_progress p p" "list_all2 order_progress ps ps"
  by (simp_all add: order_progress_def list.rel_refl)

lemma order_progress_trans: "list_all2 order_progress ps qs \<Longrightarrow> list_all2 order_progress qs rs \<Longrightarrow> list_all2 order_progress ps rs"
  by (rule list_all2_trans [of order_progress order_progress order_progress]) (auto simp: order_progress_def)

lemma credited_exactly_refl: "credited_exactly s s uid u u"
  by (simp add: credited_exactly_def)

lemma credited_exactly_trans:
  "credited_exactly s s' uid u u1 \<Longrightarrow> credited_exactly s' s'' uid u1 u2 \<Longrightarrow> credited_exactly s s'' uid u u2"
  unfolding credited_exactly_def by (auto simp: max_def split: if_splits)

lemma codes_grow_trans: "codes_grow s s' \<Longrightarrow> codes_grow s' s'' \<Longrightarrow> codes_grow s s''"
  unfolding codes_grow_def by metis

lemma users_grow_trans:
  assumes "users_grow s s'" "users_grow s' s''"
  shows "users_grow s s''"
  unfolding users_grow_def
proof
  fix uid
  show "case db_users s uid of None \<Rightarrow> True | Some u \<Rightarrow>
      (case db_users s'' uid of None \<Rightarrow> False | Some u' \<Rightarrow> credited_exactly s s'' uid u u')"
  proof (cases "db_users s uid")
    case (Some u)
    then obtain u1 where u1: "db_users s' uid = Some u1" "credited_exactly s s' uid u u1"
      using assms(1) [unfolded users_grow_def, rule_format, of uid] by (auto split: option.splits)
    then obtain u2 where u2: "db_users s'' uid = Some u2" "credited_exactly s' s'' uid u1 u2"
      using assms(2) [unfolded users_grow_def, rule_format, of uid] by (auto split: option.splits)
    have "credited_exactly s s'' uid u u2" by (rule credited_exactly_trans [OF u1(2) u2(2)])
    then show ?thesis using Some u2(1) by simp
  qed simp
qed

lemma pay_grows_refl: "pay_grows s s"
  by (auto simp: pay_grows_def codes_grow_def users_grow_def credited_exactly_def split: option.splits)

lemma pay_grows_trans: "pay_grows s s' \<Longrightarrow> pay_grows s' s'' \<Longrightarrow> pay_grows s s''"
  unfolding pay_grows_def by (auto intro: codes_grow_trans users_grow_trans order_progress_trans)

interpretation pay: evolving "pay_ok who" pay_grows for who
  by unfold_locales (auto intro: pay_grows_refl pay_grows_trans)

section \<open>Transactions\<close>

text \<open>What the invariant looks at.\<close>

definition money_view :: "pay_db \<Rightarrow>
  payment_order list \<times> redeem_code list \<times> int \<times> (int \<Rightarrow> pay_user option) \<times> audit_log list \<times> affiliate_entry list" where
  "money_view s = (db_orders s, db_codes s, db_next_code s, db_users s, db_audit s, db_ledger s)"

definition pay_step :: "(int \<Rightarrow> string \<Rightarrow> bool) \<Rightarrow> pay_db \<Rightarrow> pay_db \<Rightarrow> bool" where
  "pay_step who s s' \<longleftrightarrow> (pay_ok who s \<longrightarrow> pay_ok who s' \<and> pay_grows s s')"

lemma pay_step_same:
  assumes "money_view s' = money_view s"
  shows "pay_step who s s'"
proof -
  have eq: "db_orders s' = db_orders s" "db_codes s' = db_codes s" "db_next_code s' = db_next_code s"
    "db_users s' = db_users s" "db_audit s' = db_audit s" "db_ledger s' = db_ledger s"
    using assms by (simp_all add: money_view_def)
  have "recharged uid s' = recharged uid s" "debited uid s' = debited uid s" "rebate_claimed oid s' = rebate_claimed oid s"
    "code_spent o' s' = code_spent o' s" "rebates_of oid s' = rebates_of oid s" for uid oid o'
    by (simp_all add: recharged_def debited_def rebate_claimed_def audited_def code_spent_def rebates_of_def eq)
  then show ?thesis
    by (auto simp: pay_step_def pay_ok_def orders_ok_def codes_ok_def users_ok_def rebates_ok_def pay_grows_def
        codes_grow_def users_grow_def credited_exactly_def eq split: option.splits)
qed

lemma pay_step_trans: "pay_step who s s' \<Longrightarrow> pay_step who s' s'' \<Longrightarrow> pay_step who s s''"
  unfolding pay_step_def using pay_grows_trans by blast

lemma pay_step_refl [simp]: "pay_step who s s"
  by (simp add: pay_step_same)

text \<open>Transactions that keep the invariant, and those that do not touch what it looks at.\<close>

definition keeping :: "(int \<Rightarrow> string \<Rightarrow> bool) \<Rightarrow> 'a pay_tx \<Rightarrow> bool" where
  "keeping who f \<longleftrightarrow> (\<forall>t s. pay_step who s (snd (committed f t s)))"

definition quiet_tx :: "'a pay_tx \<Rightarrow> bool" where
  "quiet_tx f \<longleftrightarrow> (\<forall>t s. money_view (snd (f t s)) = money_view s)"

lemma snd_committed: "snd (committed f t s) = (case fst (f t s) of Inl e \<Rightarrow> s | Inr x \<Rightarrow> snd (f t s))"
  by (auto simp: committed_def split: prod.split sum.split)

lemma fst_committed: "fst (committed f t s) = fst (f t s)"
  by (auto simp: committed_def split: prod.split sum.split)

lemma keeping_quiet: "quiet_tx f \<Longrightarrow> keeping who f"
  unfolding keeping_def snd_committed quiet_tx_def by (auto intro!: pay_step_same split: sum.split)

lemma keepingI: "(\<And>t s x. fst (f t s) = Inr x \<Longrightarrow> pay_step who s (snd (f t s))) \<Longrightarrow> keeping who f"
  unfolding keeping_def snd_committed by (auto split: sum.split)

lemma quiet_then: "quiet_tx f \<Longrightarrow> (\<And>x. quiet_tx (k x)) \<Longrightarrow> quiet_tx (tx_then f k)"
  unfolding quiet_tx_def tx_then_def by (auto split: prod.split sum.split) (metis snd_conv)+

lemma quiet_return: "quiet_tx (tx_return x)" and quiet_fail: "quiet_tx (tx_fail e)"
  by (auto simp: quiet_tx_def tx_return_def tx_fail_def)

lemma quiet_query: "quiet_tx (\<lambda>t s. (g t s, s))"
  by (simp add: quiet_tx_def)

subsection \<open>Orders\<close>

text \<open>An update keeps what identifies an order, and completes one only when its code is spent.\<close>

definition order_update :: "(go_time \<Rightarrow> payment_order \<Rightarrow> bool) \<Rightarrow> (go_time \<Rightarrow> payment_order \<Rightarrow> payment_order) \<Rightarrow> pay_db \<Rightarrow> bool" where
  "order_update guard change s \<longleftrightarrow>
     (\<forall>t p. order_core (change t p) = order_core p) \<and> (\<forall>t p. guard t p \<longrightarrow> order_progress p (change t p))
     \<and> (\<forall>t p. p \<in> set (db_orders s) \<and> guard t p \<and> po_OrderType p \<noteq> ''subscription''
          \<and> po_Status (change t p) = OrderStatusCompleted \<longrightarrow> code_spent p s)"

lemma order_core_touch [simp]: "order_core (touch_order t p) = order_core p"
  and status_touch [simp]: "po_Status (touch_order t p) = po_Status p"
  and progress_touch [simp]: "order_progress q (touch_order t p) = order_progress q p"
  by (simp_all add: touch_order_def order_core_def order_progress_def unpaid_def)

lemma order_coreD:
  assumes "order_core p = order_core q"
  shows "po_ID p = po_ID q" "po_UserID p = po_UserID q" "po_Amount p = po_Amount q"
    "po_RechargeCode p = po_RechargeCode q" "po_OrderType p = po_OrderType q"
  using assms by (simp_all add: order_core_def)

lemma same_cores:
  assumes "map order_core ps = map order_core qs"
  shows "map po_ID ps = map po_ID qs" "map po_RechargeCode ps = map po_RechargeCode qs"
    "p \<in> set ps \<Longrightarrow> \<exists>q\<in>set qs. order_core q = order_core p"
proof -
  have "po_ID = fst \<circ> order_core" "po_RechargeCode = (fst \<circ> snd \<circ> snd \<circ> snd) \<circ> order_core"
    by (simp_all add: fun_eq_iff order_core_def)
  then show "map po_ID ps = map po_ID qs" "map po_RechargeCode ps = map po_RechargeCode qs"
    by (metis assms map_map)+
  show "\<exists>q\<in>set qs. order_core q = order_core p" if "p \<in> set ps"
  proof -
    have "order_core p \<in> set (map order_core qs)" using that unfolding assms [symmetric] by simp
    then show ?thesis by force
  qed
qed

lemma pay_step_orders:
  assumes update: "order_update guard change s"
  shows "pay_step who s (snd (update_orders guard change t s))"
proof -
  define f where "f = (\<lambda>p. if guard t p then touch_order t (change t p) else p)"
  let ?s = "snd (update_orders guard change t s)"
  have eq: "db_orders ?s = map f (db_orders s)" "db_codes ?s = db_codes s" "db_next_code ?s = db_next_code s"
    "db_users ?s = db_users s" "db_audit ?s = db_audit s" "db_ledger ?s = db_ledger s"
    by (simp_all add: update_orders_def f_def)
  have core: "order_core (f p) = order_core p" for p using update by (simp add: order_update_def f_def)
  then have cores: "map order_core (map f (db_orders s)) = map order_core (db_orders s)" by simp
  have same: "recharged uid ?s = recharged uid s" "debited uid ?s = debited uid s" "rebate_claimed oid ?s = rebate_claimed oid s"
    "code_spent o' ?s = code_spent o' s" "rebates_of oid ?s = rebates_of oid s" for uid oid o'
    by (simp_all add: recharged_def debited_def rebate_claimed_def audited_def code_spent_def rebates_of_def eq)
  have "list_all2 order_progress ps (map f ps)" for ps
    using update by (simp add: list_all2_map2 list.rel_refl_strong order_update_def f_def)
  then have grows: "pay_grows s ?s"
    by (auto simp: pay_grows_def codes_grow_def users_grow_def credited_exactly_def eq same core split: option.splits)
  have spent: "code_spent (f p) s = code_spent p s" and match: "code_matches who (f p) c = code_matches who p c" for p c
    using order_coreD [OF core [of p]] by (simp_all add: code_spent_def code_matches_def)
  have "pay_ok who ?s" if ok: "pay_ok who s"
    unfolding pay_ok_def
  proof (intro conjI)
    have "trim_space (po_RechargeCode (f p)) = po_RechargeCode (f p) \<and> on_scale 8 (po_Amount (f p))
        \<and> (po_Status (f p) = OrderStatusCompleted \<and> po_OrderType (f p) \<noteq> ''subscription'' \<longrightarrow> code_spent (f p) ?s)"
      if p: "p \<in> set (db_orders s)" for p
    proof -
      have old: "trim_space (po_RechargeCode p) = po_RechargeCode p \<and> on_scale 8 (po_Amount p)
        \<and> (po_Status p = OrderStatusCompleted \<and> po_OrderType p \<noteq> ''subscription'' \<longrightarrow> code_spent p s)"
        using ok p by (simp add: pay_ok_def orders_ok_def)
      show ?thesis
      proof (cases "guard t p")
        case True
        then have status: "po_Status (f p) = po_Status (change t p)" by (simp add: f_def)
        have new: "po_Status (change t p) = OrderStatusCompleted \<Longrightarrow> po_OrderType p \<noteq> ''subscription'' \<Longrightarrow> code_spent p s"
          using update True p unfolding order_update_def by simp
        show ?thesis unfolding same spent order_coreD [OF core [of p]] status
          by (intro conjI impI) (use old new in simp_all)
      qed (use old same in \<open>simp add: f_def\<close>)
    qed
    moreover have "distinct (map po_ID (map f (db_orders s)))" "distinct (map po_RechargeCode (map f (db_orders s)))"
      unfolding same_cores(1,2) [OF cores] using ok by (simp_all add: pay_ok_def orders_ok_def)
    ultimately show "orders_ok ?s" unfolding orders_ok_def eq(1) by (auto simp del: map_map)
    show "codes_ok who ?s" using ok unfolding pay_ok_def codes_ok_def eq by (simp add: match)
    show "users_ok ?s" using ok by (simp add: pay_ok_def users_ok_def eq)
    show "rebates_ok ?s" using ok by (simp add: pay_ok_def rebates_ok_def same)
  qed
  then show ?thesis using grows by (simp add: pay_step_def)
qed

subsection \<open>The audit log and the ledger\<close>

lemma pay_step_ledger:
  assumes eq: "db_orders s' = db_orders s" "db_codes s' = db_codes s" "db_next_code s' = db_next_code s" "db_users s' = db_users s"
    and claims: "\<And>oid. rebate_claimed oid s \<Longrightarrow> rebate_claimed oid s'" and ledger: "rebates_ok s \<Longrightarrow> rebates_ok s'"
  shows "pay_step who s s'"
proof -
  have same: "recharged uid s' = recharged uid s" "debited uid s' = debited uid s" "code_spent o' s' = code_spent o' s" for uid o'
    by (simp_all add: recharged_def debited_def code_spent_def eq)
  have "pay_grows s s'"
    using claims by (auto simp: pay_grows_def codes_grow_def users_grow_def credited_exactly_def eq same split: option.splits)
  moreover have "pay_ok who s \<Longrightarrow> pay_ok who s'"
    using ledger by (simp add: pay_ok_def orders_ok_def codes_ok_def users_ok_def eq same)
  ultimately show ?thesis by (simp add: pay_step_def)
qed

lemma audited_append [simp]:
  "audited oid a (s\<lparr>db_audit := db_audit s @ [l]\<rparr>) \<longleftrightarrow> audited oid a s \<or> al_OrderID l = itoa oid \<and> al_Action l = a"
  by (auto simp: audited_def)

lemma rebates_of_audit [simp]: "rebates_of oid (s\<lparr>db_audit := ls\<rparr>) = rebates_of oid s"
  by (simp add: rebates_of_def)

lemma keeping_insert_audit: "keeping who (insert_audit oid action operator detail)"
proof (rule keepingI)
  fix t s x
  assume ok: "fst (insert_audit oid action operator detail t s) = Inr x"
  then have "snd (insert_audit oid action operator detail t s)
      = s\<lparr>db_audit := db_audit s @ [\<lparr>al_OrderID = itoa oid, al_Action = action, al_Detail = detail,
                                    al_Operator = operator, al_CreatedAt = t\<rparr>]\<rparr>"
    by (auto simp: insert_audit_def split: if_splits)
  then show "pay_step who s (snd (insert_audit oid action operator detail t s))"
    by (auto intro!: pay_step_ledger simp: rebate_claimed_def rebates_ok_def)
qed

subsection \<open>Codes\<close>

lemma sum_list_change:
  fixes g :: "'a \<Rightarrow> 'b :: ab_group_add"
  assumes "distinct (map k xs)" "x \<in> set xs" "\<And>y. y \<in> set xs \<Longrightarrow> k y \<noteq> k x \<Longrightarrow> f y = y"
  shows "(\<Sum>y\<leftarrow>map f xs. g y) = (\<Sum>y\<leftarrow>xs. g y) + (g (f x) - g x)"
  using assms
proof (induction xs)
  case (Cons a xs)
  show ?case
  proof (cases "a = x")
    case True
    have "f y = y" if "y \<in> set xs" for y using Cons.prems True that by (metis distinct.simps(2) image_eqI list.simps(9) list.set_intros(2) list.set_map)
    then have "map f xs = xs" by (rule map_idI)
    then show ?thesis using True by (simp add: algebra_simps)
  next
    case False
    then have "x \<in> set xs" "f a = a" using Cons.prems by auto
    then show ?thesis using Cons by (simp add: algebra_simps)
  qed
qed simp

lemma code_named_None: "code_named code s = None \<longleftrightarrow> (\<forall>c\<in>set (db_codes s). rc_Code c \<noteq> code)"
  by (auto simp: code_named_def find_None_iff)

lemma pay_step_insert_code:
  assumes fits: "\<And>o'. o' \<in> set (db_orders s) \<Longrightarrow> rc_Code c = po_RechargeCode o' \<Longrightarrow>
      rc_Type c = RedeemTypeBalance \<and> round_half_away 8 (rc_Value c) = po_Amount o'"
    and unused: "rc_Status c \<noteq> StatusUsed"
  shows "pay_step who s (snd (insert_code c t s))"
proof (cases "fst (insert_code c t s)")
  case (Inl e)
  then have "snd (insert_code c t s) = s" by (auto simp: insert_code_def Let_def split: if_splits)
  then show ?thesis by simp
next
  case (Inr row)
  let ?s = "snd (insert_code c t s)"
  define r where "r = c\<lparr>rc_ID := db_next_code s, rc_Value := round_half_away 8 (rc_Value c)\<rparr>"
  have new: "code_named (rc_Code c) s = None" and s: "?s = s\<lparr>db_codes := db_codes s @ [r], db_next_code := db_next_code s + 1\<rparr>"
    using Inr by (auto simp: insert_code_def Let_def r_def split: if_splits)
  have eq: "db_orders ?s = db_orders s" "db_codes ?s = db_codes s @ [r]" "db_next_code ?s = db_next_code s + 1"
    "db_users ?s = db_users s" "db_audit ?s = db_audit s" "db_ledger ?s = db_ledger s"
    by (simp_all add: s)
  have r: "rc_ID r = db_next_code s" "rc_Code r = rc_Code c" "rc_Status r \<noteq> StatusUsed" "on_scale 8 (rc_Value r)"
    using unused by (simp_all add: r_def)
  have match: "code_matches who o' r" if "o' \<in> set (db_orders s)" for o'
    using fits [OF that] r(3) by (auto simp: code_matches_def r_def)
  have same: "recharged uid ?s = recharged uid s" "debited uid ?s = debited uid s"
    "rebate_claimed oid ?s = rebate_claimed oid s"
    "code_spent o' ?s = code_spent o' s" "rebates_of oid ?s = rebates_of oid s" for uid oid o'
    using r(3) by (auto simp: recharged_def debited_def rebate_claimed_def audited_def code_spent_def rebates_of_def redeemed_by_def eq)
  have grows: "pay_grows s ?s"
    by (auto simp: pay_grows_def codes_grow_def users_grow_def credited_exactly_def eq same split: option.splits)
  have "codes_ok who ?s" if "pay_ok who s"
  proof -
    have old: "codes_ok who s" using that by (simp add: pay_ok_def)
    then have fresh: "rc_ID r \<notin> set (map rc_ID (db_codes s))" unfolding codes_ok_def r(1) by force
    have name: "rc_Code r \<notin> set (map rc_Code (db_codes s))" using new unfolding code_named_None r(2) by force
    show ?thesis unfolding codes_ok_def eq
      using old fresh name r match by (auto simp: codes_ok_def)
  qed
  then have "pay_ok who s \<Longrightarrow> pay_ok who ?s"
    by (simp add: pay_ok_def orders_ok_def users_ok_def rebates_ok_def eq same)
  then show ?thesis using grows by (simp add: pay_step_def)
qed

text \<open>A code is spent and its value goes to the user.\<close>

definition user_credited :: "redeem_code \<Rightarrow> pay_user \<Rightarrow> pay_user \<Rightarrow> bool" where
  "user_credited c u u' \<longleftrightarrow>
     on_scale 8 (py_Balance u') \<and> on_scale 8 (py_TotalRecharged u')
     \<and> py_TotalRecharged u' = py_TotalRecharged u + credit_value c
     \<and> py_Balance u' = (if debit_value c = 0 then py_Balance u + credit_value c
                          else max 0 (py_Balance u - debit_value c))"

definition spend :: "int \<Rightarrow> int \<Rightarrow> go_time \<Rightarrow> redeem_code \<Rightarrow> redeem_code" where
  "spend cid uid t c =
     (if rc_ID c = cid \<and> rc_Status c = StatusUnused
      then c\<lparr>rc_Status := StatusUsed, rc_UsedBy := Some uid, rc_UsedAt := Some t\<rparr> else c)"

lemma Use_spends: "db_codes (snd (Use cid uid t s)) = map (spend cid uid t) (db_codes s)"
  by (auto simp: Use_def spend_def intro!: map_idI [symmetric])

lemma code_core_spend [simp]: "code_core (spend cid uid t c) = code_core c"
  by (simp add: spend_def code_core_def)

lemma code_coreD:
  assumes "code_core c = code_core d"
  shows "rc_ID c = rc_ID d" "rc_Code c = rc_Code d" "rc_Type c = rc_Type d" "rc_Value c = rc_Value d"
  using assms by (simp_all add: code_core_def)

lemma spend_used: "rc_Status c = StatusUsed \<Longrightarrow> spend cid uid t c = c"
  by (simp add: spend_def StatusUsed_def StatusUnused_def)

lemma map_spend_cores [simp]:
  "map rc_ID (map (spend cid uid t) cs) = map rc_ID cs" "map rc_Code (map (spend cid uid t) cs) = map rc_Code cs"
  by (simp_all add: spend_def)

lemma recharged_spend:
  assumes "distinct (map rc_ID (db_codes s))" "c \<in> set (db_codes s)" "rc_Status c = StatusUnused"
    and "db_codes s' = map (spend (rc_ID c) uid t) (db_codes s)"
  shows "recharged v s' = recharged v s + (if v = uid then credit_value c else 0)"
proof -
  let ?g = "\<lambda>d. if redeemed_by v d then credit_value d else 0"
  have "recharged v s' = recharged v s + (?g (spend (rc_ID c) uid t c) - ?g c)"
    unfolding recharged_def assms(4) by (rule sum_list_change [OF assms(1,2)]) (simp add: spend_def)
  then show ?thesis
    using assms(3) by (auto simp: spend_def redeemed_by_def credit_value_def pay_strings)
qed

lemma debited_spend:
  assumes "distinct (map rc_ID (db_codes s))" "c \<in> set (db_codes s)" "rc_Status c = StatusUnused"
    and "db_codes s' = map (spend (rc_ID c) uid t) (db_codes s)"
  shows "debited v s' = debited v s + (if v = uid then debit_value c else 0)"
proof -
  let ?g = "\<lambda>d. if redeemed_by v d then debit_value d else 0"
  have "debited v s' = debited v s + (?g (spend (rc_ID c) uid t c) - ?g c)"
    unfolding debited_def assms(4) by (rule sum_list_change [OF assms(1,2)]) (simp add: spend_def)
  then show ?thesis
    using assms(3) by (auto simp: spend_def redeemed_by_def debit_value_def pay_strings)
qed

lemma credit_debit: "0 \<le> credit_value c" "0 \<le> debit_value c" "debit_value c = 0 \<or> credit_value c = 0"
  by (auto simp: credit_value_def debit_value_def max_def)

lemma pay_step_spend:
  assumes c: "c \<in> set (db_codes s)" "rc_Status c = StatusUnused"
    and eq: "db_orders s' = db_orders s" "db_codes s' = map (spend (rc_ID c) uid t) (db_codes s)"
      "db_next_code s' = db_next_code s" "db_audit s' = db_audit s" "db_ledger s' = db_ledger s"
    and owner: "\<And>o'. o' \<in> set (db_orders s) \<Longrightarrow> rc_Code c = po_RechargeCode o' \<Longrightarrow>
      uid = po_UserID o' \<or> who uid (po_RechargeCode o')"
    and others: "\<And>v. v \<noteq> uid \<Longrightarrow> db_users s' v = db_users s v"
    and nobody: "db_users s uid = None \<Longrightarrow> db_users s' uid = None"
    and credit: "\<And>u. db_users s uid = Some u \<Longrightarrow> users_ok s \<Longrightarrow> codes_ok who s \<Longrightarrow> \<exists>u'. db_users s' uid = Some u' \<and> user_credited c u u'"
  shows "pay_step who s s'"
  unfolding pay_step_def
proof
  assume ok: "pay_ok who s"
  then have oks: "orders_ok s" "codes_ok who s" "users_ok s" "rebates_ok s" by (simp_all add: pay_ok_def)
  then have ids: "distinct (map rc_ID (db_codes s))" by (simp add: codes_ok_def)
  let ?f = "spend (rc_ID c) uid t"
  have sum: "recharged v s' = recharged v s + (if v = uid then credit_value c else 0)" for v
    by (rule recharged_spend [OF ids c eq(2)])
  have neg: "debited v s' = debited v s + (if v = uid then debit_value c else 0)" for v
    by (rule debited_spend [OF ids c eq(2)])
  have claims: "rebate_claimed oid s' = rebate_claimed oid s" "rebates_of oid s' = rebates_of oid s" for oid
    by (simp_all add: rebate_claimed_def audited_def rebates_of_def eq)
  have grow: "codes_grow s s'"
    unfolding codes_grow_def eq using spend_used by (metis code_core_spend image_eqI list.set_map)
  have "case db_users s v of None \<Rightarrow> True | Some u \<Rightarrow>
      (case db_users s' v of None \<Rightarrow> False | Some u' \<Rightarrow> credited_exactly s s' v u u')" for v
  proof (cases "db_users s v")
    case (Some u)
    show ?thesis
    proof (cases "v = uid")
      case True
      obtain u' where "db_users s' uid = Some u'" "user_credited c u u'" using credit Some oks True by blast
      then show ?thesis using Some True credit_debit [of c]
        by (auto simp: credited_exactly_def user_credited_def sum neg max_def split: if_splits)
    next
      case False
      then show ?thesis using Some others [OF False] by (simp add: credited_exactly_def sum neg)
    qed
  qed simp
  then have "users_grow s s'" by (simp add: users_grow_def)
  then have "pay_grows s s'" using grow claims by (simp add: pay_grows_def eq)
  moreover have "orders_ok s'"
  proof -
    have "code_spent o' s'" if "code_spent o' s" for o'
    proof -
      from that obtain d where d: "d \<in> set (db_codes s)" "rc_Code d = po_RechargeCode o'" "rc_Status d = StatusUsed"
        by (auto simp: code_spent_def)
      have "d \<in> set (db_codes s')" unfolding eq(2) set_map using d(1) spend_used [OF d(3)] by (metis image_eqI)
      then show ?thesis using d by (auto simp: code_spent_def)
    qed
    then show ?thesis using oks(1) by (auto simp: orders_ok_def eq)
  qed
  moreover have "codes_ok who s'"
  proof -
    have "code_matches who o' (?f d)" if "o' \<in> set (db_orders s)" "d \<in> set (db_codes s)" for o' d
    proof (cases "d = c")
      case True
      then show ?thesis using oks(2) that owner by (auto simp: codes_ok_def code_matches_def spend_def)
    next
      case False
      then have "rc_ID d \<noteq> rc_ID c" using ids c(1) that(2) by (meson distinct_map inj_onD)
      then show ?thesis using oks(2) that by (simp add: codes_ok_def spend_def)
    qed
    moreover have "rc_ID (?f d) = rc_ID d" "rc_Value (?f d) = rc_Value d" for d by (simp_all add: spend_def)
    ultimately show ?thesis using oks(2) unfolding codes_ok_def eq map_spend_cores by auto
  qed
  moreover have "users_ok s'"
    unfolding users_ok_def
  proof (intro allI impI)
    fix v w
    assume w: "db_users s' v = Some w"
    show "on_scale 8 (py_Balance w) \<and> on_scale 8 (py_TotalRecharged w)"
    proof (cases "v = uid")
      case True
      then obtain u where "db_users s uid = Some u" using w nobody by (cases "db_users s uid") auto
      then show ?thesis using credit oks w True by (fastforce simp: user_credited_def)
    next
      case False
      then show ?thesis using w others oks(3) by (simp add: users_ok_def)
    qed
  qed
  moreover have "rebates_ok s'" using oks(4) by (simp add: rebates_ok_def claims)
  ultimately show "pay_ok who s' \<and> pay_grows s s'" by (simp add: pay_ok_def)
qed

subsection \<open>Redeeming\<close>

lemma quiet_update_sub: "quiet_tx (update_sub sid change)"
  by (auto simp: quiet_tx_def update_sub_def money_view_def split: option.split)

lemma quiet_GetByIDForUpdate: "quiet_tx (GetByIDForUpdate sid)"
  by (auto simp: quiet_tx_def GetByIDForUpdate_def split: option.split)

lemma quiet_CreateSub: "quiet_tx (CreateSub sub)"
  by (auto simp: quiet_tx_def CreateSub_def money_view_def Let_def)

lemmas quiet_rules = quiet_then quiet_return quiet_fail quiet_query quiet_update_sub quiet_GetByIDForUpdate quiet_CreateSub

lemma quiet_at: "(\<And>now. quiet_tx (f now)) \<Longrightarrow> quiet_tx (\<lambda>now. f now now)"
  by (simp add: quiet_tx_def)

lemma quiet_at2: "(\<And>s. quiet_tx (f s)) \<Longrightarrow> quiet_tx (\<lambda>now s. f s now s)"
  by (simp add: quiet_tx_def)

lemma quiet_if: "quiet_tx f \<Longrightarrow> quiet_tx g \<Longrightarrow> quiet_tx (if b then f else g)"
  by simp

lemma quiet_updateExisting: "quiet_tx (updateExistingSubscriptionTerm lib sid days notes)"
  unfolding updateExistingSubscriptionTerm_def Let_def UpdateSub_def ExtendExpiry_def UpdateSubStatus_def UpdateSubNotes_def
  by (rule quiet_then [OF quiet_GetByIDForUpdate], rule quiet_at) (auto intro!: quiet_rules)

lemma quiet_createSubscription: "quiet_tx (createSubscription lib input)"
  unfolding createSubscription_def by (rule quiet_at) (rule quiet_CreateSub)

lemma quiet_assign: "quiet_tx (assignOrExtendSubscription lib input)"
proof -
  have "quiet_tx (tx_then (updateExistingSubscriptionTerm lib sid days n)
      (\<lambda>_. tx_then (GetByIDForUpdate sid) (\<lambda>sub'. tx_return (sub', True))))" for sid days n
    by (intro quiet_rules quiet_updateExisting)
  moreover have "quiet_tx (tx_then (createSubscription lib input)
      (\<lambda>sub. tx_then (GetByIDForUpdate (us_ID sub)) (\<lambda>sub'. tx_return (sub', False))))"
    by (intro quiet_rules quiet_createSubscription)
  ultimately show ?thesis
    unfolding quiet_tx_def assignOrExtendSubscription_def by (auto split: option.split)
qed

lemma quiet_reduce: "quiet_tx (reduceOrCancelSubscription lib uid gid days note)"
proof -
  have quiet: "quiet_tx (tx_then (if b then tx_then (UpdateSubStatus sid st) (\<lambda>_. ExtendExpiry sid now) else ExtendExpiry sid e)
      (\<lambda>_. UpdateSubNotes sid n))" for b sid st now e n
    unfolding UpdateSubStatus_def ExtendExpiry_def UpdateSubNotes_def by (intro quiet_rules quiet_if)
  show ?thesis
    unfolding quiet_tx_def
  proof (intro allI)
    fix t s
    show "money_view (snd (reduceOrCancelSubscription lib uid gid days note t s)) = money_view s"
    proof (cases "sub_of uid gid s")
      case (Some sub)
      then show ?thesis
        unfolding reduceOrCancelSubscription_def Let_def option.case(2) using quiet unfolding quiet_tx_def by (simp only: option.case(2))
    qed (simp add: reduceOrCancelSubscription_def)
  qed
qed

text \<open>What a redemption hands out goes to its user, and to nobody else.\<close>

definition rest_view :: "pay_db \<Rightarrow> payment_order list \<times> redeem_code list \<times> int \<times> audit_log list \<times> affiliate_entry list" where
  "rest_view s = (db_orders s, db_codes s, db_next_code s, db_audit s, db_ledger s)"

definition hands_out :: "int \<Rightarrow> redeem_code \<Rightarrow> pay_db \<Rightarrow> pay_db \<Rightarrow> bool" where
  "hands_out uid c s s' \<longleftrightarrow> rest_view s' = rest_view s \<and> (\<forall>v. v \<noteq> uid \<longrightarrow> db_users s' v = db_users s v)
     \<and> (case db_users s uid of
          None \<Rightarrow> db_users s' uid = None
        | Some u \<Rightarrow> on_scale 8 (py_Balance u) \<and> on_scale 8 (py_TotalRecharged u) \<and> on_scale 8 (rc_Value c) \<longrightarrow>
            (case db_users s' uid of None \<Rightarrow> False | Some u' \<Rightarrow> user_credited c u u'))"

lemma on_scale_max: "on_scale k x \<Longrightarrow> on_scale k y \<Longrightarrow> on_scale k (max x y)"
  by (simp add: max_def)

lemma hands_out_user:
  assumes "fst (change_user guard change uid t s) = Inr x"
    and "\<And>u. on_scale 8 (py_Balance u) \<Longrightarrow> on_scale 8 (py_TotalRecharged u) \<Longrightarrow> on_scale 8 (rc_Value c) \<Longrightarrow> user_credited c u (change u)"
  shows "hands_out uid c s (snd (change_user guard change uid t s))"
  using assms by (auto simp: hands_out_def change_user_def rest_view_def split: option.split if_splits)

lemma hands_out_quiet:
  assumes "quiet_tx f" "credit_value c = 0" "rc_Type c \<noteq> RedeemTypeBalance"
  shows "hands_out uid c s (snd (f t s))"
proof -
  have "money_view (snd (f t s)) = money_view s" using assms(1) by (simp add: quiet_tx_def)
  then show ?thesis
    using assms(2,3)
    by (auto simp: hands_out_def money_view_def rest_view_def user_credited_def debit_value_def split: option.split)
qed

lemma hand_out_credits:
  assumes "fst (hand_out lib uid c t s) = Inr x"
  shows "hands_out uid c s (snd (hand_out lib uid c t s))"
proof -
  consider (debit) "rc_Type c = RedeemTypeBalance" "rc_Value c < 0" | (credit) "rc_Type c = RedeemTypeBalance" "\<not> rc_Value c < 0"
    | (conc) "rc_Type c = RedeemTypeConcurrency" "trunc (rc_Value c) < 0" | (conc2) "rc_Type c = RedeemTypeConcurrency" "\<not> trunc (rc_Value c) < 0"
    | (sub) "rc_Type c = RedeemTypeSubscription"
    using assms by (fastforce simp: hand_out_def tx_fail_def split: if_splits)
  then show ?thesis
  proof cases
    case debit
    then show ?thesis using assms unfolding hand_out_def ApplyRedeemBalanceAdjustment_def
      by (auto intro!: hands_out_user on_scale_max simp: user_credited_def credit_value_def debit_value_def max.commute)
  next
    case credit
    then show ?thesis using assms unfolding hand_out_def UpdateBalance_def
      by (auto intro!: hands_out_user simp: user_credited_def credit_value_def debit_value_def max.commute)
  next
    case conc
    then show ?thesis using assms unfolding hand_out_def ApplyRedeemConcurrencyAdjustment_def
      by (auto intro!: hands_out_user simp: user_credited_def credit_value_def debit_value_def pay_strings)
  next
    case conc2
    then show ?thesis using assms unfolding hand_out_def UpdateConcurrency_def
      by (auto intro!: hands_out_user simp: user_credited_def credit_value_def debit_value_def pay_strings)
  next
    case sub
    then have "quiet_tx (hand_out lib uid c)" unfolding hand_out_def
      by (auto simp: pay_strings intro!: quiet_rules quiet_assign quiet_reduce split: option.split)
    then show ?thesis by (rule hands_out_quiet) (use sub in \<open>simp_all add: credit_value_def pay_strings\<close>)
  qed
qed

text \<open>A code that was read, possibly some time ago.\<close>

definition known_code :: "redeem_code \<Rightarrow> pay_db \<Rightarrow> bool" where
  "known_code c s \<longleftrightarrow> (\<exists>c'\<in>set (db_codes s). code_core c' = code_core c \<and> (rc_Status c = StatusUsed \<longrightarrow> c' = c))"

lemma known_code_grows: "known_code c s \<Longrightarrow> pay_grows s s' \<Longrightarrow> known_code c s'"
  unfolding known_code_def pay_grows_def codes_grow_def by metis

lemma known_codeI: "c \<in> set (db_codes s) \<Longrightarrow> known_code c s"
  unfolding known_code_def by blast

lemma redeem_tx_parts:
  assumes "fst (redeem_tx lib uid c t s) = Inr x"
  obtains s1 where "Use (rc_ID c) uid t s = (Inr (), s1)" "fst (hand_out lib uid c t s1) = Inr x"
    "snd (redeem_tx lib uid c t s) = snd (hand_out lib uid c t s1)"
proof -
  obtain r s1 where use: "Use (rc_ID c) uid t s = (r, s1)" by (cases "Use (rc_ID c) uid t s")
  then show thesis using that assms by (cases r) (auto simp: redeem_tx_def tx_then_def)
qed

lemma used_code:
  assumes "Use cid uid t s = (Inr (), s1)"
  obtains c where "c \<in> set (db_codes s)" "rc_ID c = cid" "rc_Status c = StatusUnused"
    "db_codes s1 = map (spend cid uid t) (db_codes s)" "s1 = s\<lparr>db_codes := db_codes s1\<rparr>"
  using assms Use_spends [of cid uid t s] by (auto simp: Use_def split: if_splits)

definition may_redeem :: "(int \<Rightarrow> string \<Rightarrow> bool) \<Rightarrow> int \<Rightarrow> string \<Rightarrow> pay_db \<Rightarrow> bool" where
  "may_redeem who uid code s \<longleftrightarrow>
     (\<forall>o'\<in>set (db_orders s). po_RechargeCode o' = code \<longrightarrow> uid = po_UserID o' \<or> who uid code)"

lemma rest_viewD:
  "rest_view s' = rest_view s \<Longrightarrow> db_orders s' = db_orders s"
  "rest_view s' = rest_view s \<Longrightarrow> db_codes s' = db_codes s"
  "rest_view s' = rest_view s \<Longrightarrow> db_next_code s' = db_next_code s"
  "rest_view s' = rest_view s \<Longrightarrow> db_audit s' = db_audit s"
  "rest_view s' = rest_view s \<Longrightarrow> db_ledger s' = db_ledger s"
  by (simp_all add: rest_view_def)

lemma pay_step_redeem:
  assumes ok: "fst (redeem_tx lib uid c t s) = Inr x"
    and c: "known_code c s" "may_redeem who uid (rc_Code c) s"
  shows "pay_step who s (snd (redeem_tx lib uid c t s))"
  unfolding pay_step_def
proof (intro impI)
  assume inv: "pay_ok who s"
  obtain s1 where use: "Use (rc_ID c) uid t s = (Inr (), s1)" and ho: "fst (hand_out lib uid c t s1) = Inr x"
    and s': "snd (redeem_tx lib uid c t s) = snd (hand_out lib uid c t s1)"
    by (rule redeem_tx_parts [OF ok])
  obtain d where d: "d \<in> set (db_codes s)" "rc_ID d = rc_ID c" "rc_Status d = StatusUnused"
    and s1: "db_codes s1 = map (spend (rc_ID c) uid t) (db_codes s)" "s1 = s\<lparr>db_codes := db_codes s1\<rparr>"
    by (rule used_code [OF use])
  have same: "db_orders s1 = db_orders s" "db_next_code s1 = db_next_code s" "db_audit s1 = db_audit s"
    "db_ledger s1 = db_ledger s" "db_users s1 = db_users s"
    by (subst s1(2), simp)+
  obtain e where e: "e \<in> set (db_codes s)" "code_core e = code_core c" using c(1) by (auto simp: known_code_def)
  have "distinct (map rc_ID (db_codes s))" using inv by (simp add: pay_ok_def codes_ok_def)
  then have "e = d" using e d code_coreD(1) [OF e(2)] by (metis distinct_map inj_onD)
  then have core: "code_core d = code_core c" using e by simp
  have worth: "credit_value d = credit_value c" "debit_value d = debit_value c" "rc_Value d = rc_Value c"
    using code_coreD [OF core] by (simp_all add: credit_value_def debit_value_def)
  let ?s = "snd (hand_out lib uid c t s1)"
  have out: "hands_out uid c s1 ?s" by (rule hand_out_credits [OF ho])
  then have rest: "rest_view ?s = rest_view s1" by (simp add: hands_out_def)
  have "pay_step who s ?s"
  proof (rule pay_step_spend [OF d(1,3)])
    show "db_codes ?s = map (spend (rc_ID d) uid t) (db_codes s)" using rest_viewD(2) [OF rest] s1 d(2) by simp
    show "uid = po_UserID o' \<or> who uid (po_RechargeCode o')" if "o' \<in> set (db_orders s)" "rc_Code d = po_RechargeCode o'" for o'
      using c(2) that code_coreD(2) [OF core] by (auto simp: may_redeem_def)
    show "db_users ?s v = db_users s v" if "v \<noteq> uid" for v using out that same by (simp add: hands_out_def)
    show "db_users ?s uid = None" if "db_users s uid = None" using out that same by (simp add: hands_out_def)
    show "\<exists>u'. db_users ?s uid = Some u' \<and> user_credited d u u'"
      if "db_users s uid = Some u" "users_ok s" "codes_ok who s" for u
    proof -
      have "on_scale 8 (py_Balance u)" "on_scale 8 (py_TotalRecharged u)" "on_scale 8 (rc_Value c)"
        using that d(1) worth(3) by (auto simp: users_ok_def codes_ok_def)
      then show ?thesis using out that(1) same
        by (auto simp: hands_out_def user_credited_def worth split: option.splits)
    qed
  qed (use rest_viewD [OF rest] same in simp_all)
  then show "pay_ok who (snd (redeem_tx lib uid c t s)) \<and> pay_grows s (snd (redeem_tx lib uid c t s))"
    using inv unfolding s' by (simp add: pay_step_def)
qed

text \<open>Afterwards a code with this identifier is used.\<close>

lemma redeem_tx_spends:
  assumes ok: "fst (redeem_tx lib uid c t s) = Inr x"
  shows "\<exists>d\<in>set (db_codes (snd (redeem_tx lib uid c t s))). rc_ID d = rc_ID c \<and> rc_Status d = StatusUsed"
proof -
  obtain s1 where use: "Use (rc_ID c) uid t s = (Inr (), s1)" and ho: "fst (hand_out lib uid c t s1) = Inr x"
    and s': "snd (redeem_tx lib uid c t s) = snd (hand_out lib uid c t s1)"
    by (rule redeem_tx_parts [OF ok])
  obtain d where d: "d \<in> set (db_codes s)" "rc_ID d = rc_ID c" "rc_Status d = StatusUnused"
    and s1: "db_codes s1 = map (spend (rc_ID c) uid t) (db_codes s)"
    by (rule used_code [OF use])
  have "rest_view (snd (hand_out lib uid c t s1)) = rest_view s1"
    using hand_out_credits [OF ho] by (simp add: hands_out_def)
  then have "db_codes (snd (redeem_tx lib uid c t s)) = map (spend (rc_ID c) uid t) (db_codes s)"
    unfolding s' using s1 rest_viewD(2) by metis
  then have "spend (rc_ID c) uid t d \<in> set (db_codes (snd (redeem_tx lib uid c t s)))" using d(1) by simp
  moreover have "rc_ID (spend (rc_ID c) uid t d) = rc_ID c" "rc_Status (spend (rc_ID c) uid t d) = StatusUsed"
    using d by (simp_all add: spend_def)
  ultimately show ?thesis by blast
qed

subsection \<open>Rebates\<close>

text \<open>Transactions on the affiliate tables only, with at most one entry of the ledger, for \<open>src\<close>.\<close>

definition books :: "int option \<Rightarrow> pay_db \<Rightarrow> pay_db \<Rightarrow> bool" where
  "books src s s' \<longleftrightarrow> db_orders s' = db_orders s \<and> db_codes s' = db_codes s \<and> db_next_code s' = db_next_code s
     \<and> db_users s' = db_users s \<and> db_audit s' = db_audit s
     \<and> (db_ledger s' = db_ledger s \<or> (\<exists>e. ae_SourceOrderID e = src \<and> db_ledger s' = db_ledger s @ [e]))"

definition booking_tx :: "int option \<Rightarrow> 'a pay_tx \<Rightarrow> bool" where
  "booking_tx src f \<longleftrightarrow> (\<forall>t s. books src s (snd (f t s)))"

lemma books_quiet: "money_view s' = money_view s \<Longrightarrow> books src s s'"
  by (simp add: books_def money_view_def)

lemma booking_quiet: "quiet_tx f \<Longrightarrow> booking_tx src f"
  by (simp add: booking_tx_def quiet_tx_def books_quiet)

lemma booking_then_quiet: "booking_tx src f \<Longrightarrow> (\<And>x. quiet_tx (k x)) \<Longrightarrow> booking_tx src (tx_then f k)"
  unfolding booking_tx_def
proof (intro allI)
  fix t s
  assume "\<forall>t s. books src s (snd (f t s))" and k: "\<And>x. quiet_tx (k x)"
  then have f: "books src s (snd (f t s))" by blast
  obtain r s1 where r: "f t s = (r, s1)" by (cases "f t s")
  show "books src s (snd (tx_then f k t s))"
  proof (cases r)
    case (Inr x)
    then have "money_view (snd (k x t s1)) = money_view s1" using k by (simp add: quiet_tx_def)
    then show ?thesis using f r Inr by (simp add: tx_then_def books_def money_view_def)
  qed (use f r in \<open>simp add: tx_then_def\<close>)
qed

lemma quiet_then_booking: "quiet_tx f \<Longrightarrow> (\<And>x. booking_tx src (k x)) \<Longrightarrow> booking_tx src (tx_then f k)"
  unfolding booking_tx_def
proof (intro allI)
  fix t s
  assume f: "quiet_tx f" and k: "\<And>x. \<forall>t s. books src s (snd (k x t s))"
  obtain r s1 where r: "f t s = (r, s1)" by (cases "f t s")
  then have q: "money_view s1 = money_view s" using f by (metis quiet_tx_def snd_conv)
  show "books src s (snd (tx_then f k t s))"
  proof (cases r)
    case (Inr x)
    then have "books src s1 (snd (tx_then f k t s))" using r k by (simp add: tx_then_def)
    then show ?thesis using q by (simp add: books_def money_view_def)
  qed (use q r in \<open>simp add: tx_then_def books_quiet\<close>)
qed

lemma booking_if_at:
  "booking_tx src f \<Longrightarrow> booking_tx src g \<Longrightarrow> booking_tx src (\<lambda>now. if P now then f now else g now)"
  by (simp add: booking_tx_def)

lemma quiet_EnsureUserAffiliate: "quiet_tx (EnsureUserAffiliate lib uid)"
  by (auto simp: quiet_tx_def EnsureUserAffiliate_def money_view_def Let_def split: option.split)

lemma quiet_GetAccrued: "quiet_tx (GetAccruedRebateFromInvitee inviter invitee)"
  by (simp add: quiet_tx_def GetAccruedRebateFromInvitee_def)

lemma booking_AccrueQuota: "booking_tx src (AccrueQuota inviter invitee amount freezeHours src)"
  by (auto simp: booking_tx_def books_def AccrueQuota_def Let_def split: option.split)

lemma booking_AccrueInviteRebate: "booking_tx src (AccrueInviteRebateForOrder lib conf invitee base src)"
proof -
  have inner: "booking_tx src (\<lambda>now.
      if too_late lib conf a now then tx_return 0 now
      else if rebate_for conf b base \<le> 0 then tx_return 0 now
      else tx_then (GetAccruedRebateFromInvitee inviter invitee) (\<lambda>existing.
        case cap_rebate conf existing (rebate_for conf b base) of
          None \<Rightarrow> tx_return 0
        | Some rebate \<Rightarrow>
            tx_then (AccrueQuota inviter invitee rebate (ac_FreezeHours conf) src) (\<lambda>applied.
              tx_return (if applied then rebate else 0))) now)" for a b inviter
  proof -
    have accrue: "booking_tx src (tx_then (AccrueQuota inviter invitee r (ac_FreezeHours conf) src)
        (\<lambda>applied. tx_return (if applied then r else 0)))" for r
      by (intro booking_then_quiet booking_AccrueQuota quiet_return)
    have capped: "booking_tx src (case m of None \<Rightarrow> tx_return 0
        | Some r \<Rightarrow> tx_then (AccrueQuota inviter invitee r (ac_FreezeHours conf) src)
            (\<lambda>applied. tx_return (if applied then r else 0)))" for m
      using accrue by (cases m) (simp_all add: booking_quiet quiet_return)
    have "booking_tx src (tx_then (GetAccruedRebateFromInvitee inviter invitee) (\<lambda>existing.
        case cap_rebate conf existing (rebate_for conf b base) of
          None \<Rightarrow> tx_return 0
        | Some rebate \<Rightarrow>
            tx_then (AccrueQuota inviter invitee rebate (ac_FreezeHours conf) src) (\<lambda>applied.
              tx_return (if applied then rebate else 0))))"
      by (intro quiet_then_booking quiet_GetAccrued capped)
    then show ?thesis by (intro booking_if_at booking_quiet [OF quiet_return])
  qed
  have "booking_tx src (case af_InviterID a of None \<Rightarrow> tx_return 0
      | Some inviter \<Rightarrow> if inviter \<le> 0 then tx_return 0
          else tx_then (EnsureUserAffiliate lib inviter) (\<lambda>b now.
              if too_late lib conf a now then tx_return 0 now
              else if rebate_for conf b base \<le> 0 then tx_return 0 now
              else tx_then (GetAccruedRebateFromInvitee inviter invitee) (\<lambda>existing.
                case cap_rebate conf existing (rebate_for conf b base) of
                  None \<Rightarrow> tx_return 0
                | Some rebate \<Rightarrow>
                    tx_then (AccrueQuota inviter invitee rebate (ac_FreezeHours conf) src) (\<lambda>applied.
                      tx_return (if applied then rebate else 0))) now))" for a
    by (cases "af_InviterID a") (auto intro!: booking_quiet [OF quiet_return] quiet_then_booking quiet_EnsureUserAffiliate inner)
  then show ?thesis
    unfolding AccrueInviteRebateForOrder_def
    by (auto intro!: booking_quiet [OF quiet_return] quiet_then_booking quiet_EnsureUserAffiliate)
qed

lemma pay_step_books_none: "books None s s' \<Longrightarrow> pay_step who s s'"
  by (rule pay_step_ledger) (auto simp: books_def rebate_claimed_def audited_def rebates_ok_def rebates_of_def)

lemma keeping_booking_none: "booking_tx None f \<Longrightarrow> keeping who f"
  by (rule keepingI) (simp add: booking_tx_def pay_step_books_none)

lemma claim_audit:
  assumes "tryClaimAffiliateRebateAudit oid base t s = (Inr True, s1)"
  shows "\<not> rebate_claimed oid s" "al_OrderID (last (db_audit s1)) = itoa oid"
    "al_Action (last (db_audit s1)) = ''AFFILIATE_REBATE_APPLIED''" "s1 = s\<lparr>db_audit := db_audit s @ [last (db_audit s1)]\<rparr>"
  using assms by (auto simp: tryClaimAffiliateRebateAudit_def insert_audit_def rebate_claimed_def split: if_splits)

lemma claim_refused:
  assumes "tryClaimAffiliateRebateAudit oid base t s = (r, s1)" "r \<noteq> Inr True"
  shows "s1 = s"
  using assms by (auto simp: tryClaimAffiliateRebateAudit_def insert_audit_def split: if_splits)

lemma updated_claim:
  assumes "fst (updateClaimedAffiliateRebateAudit oid action detail t s) = Inr x"
    and "action \<in> {''AFFILIATE_REBATE_APPLIED'', ''AFFILIATE_REBATE_SKIPPED''}"
  defines "s' \<equiv> snd (updateClaimedAffiliateRebateAudit oid action detail t s)"
  shows "db_orders s' = db_orders s" "db_codes s' = db_codes s" "db_next_code s' = db_next_code s" "db_users s' = db_users s"
    "db_ledger s' = db_ledger s" "rebate_claimed v s \<Longrightarrow> rebate_claimed v s'"
proof -
  define f :: "audit_log \<Rightarrow> audit_log" where "f = (\<lambda>l. if al_OrderID l = itoa oid \<and> al_Action l = ''AFFILIATE_REBATE_APPLIED''
      then l\<lparr>al_Action := action, al_Detail := detail, al_Operator := ''system''\<rparr> else l)"
  have s': "s' = s\<lparr>db_audit := map f (db_audit s)\<rparr>"
    using assms(1) unfolding s'_def by (auto simp: updateClaimedAffiliateRebateAudit_def f_def split: if_splits)
  then show "db_orders s' = db_orders s" "db_codes s' = db_codes s" "db_next_code s' = db_next_code s"
    "db_users s' = db_users s" "db_ledger s' = db_ledger s"
    by simp_all
  have kept: "al_OrderID (f l) = al_OrderID l"
    "al_Action l = ''AFFILIATE_REBATE_SKIPPED'' \<Longrightarrow> al_Action (f l) = ''AFFILIATE_REBATE_SKIPPED''"
    "al_Action l = ''AFFILIATE_REBATE_APPLIED'' \<Longrightarrow>
      al_Action (f l) = ''AFFILIATE_REBATE_APPLIED'' \<or> al_Action (f l) = ''AFFILIATE_REBATE_SKIPPED''" for l
    using assms(2) by (auto simp: f_def)
  have there: "audited v (al_Action (f l)) s'" if "l \<in> set (db_audit s)" "al_OrderID l = itoa v" for l
    unfolding audited_def s' by (rule bexI [of _ "f l"]) (use that kept(1) [of l] in simp_all)
  assume "rebate_claimed v s"
  then obtain l where l: "l \<in> set (db_audit s)" "al_OrderID l = itoa v"
    "al_Action l = ''AFFILIATE_REBATE_APPLIED'' \<or> al_Action l = ''AFFILIATE_REBATE_SKIPPED''"
    unfolding rebate_claimed_def audited_def by metis
  then show "rebate_claimed v s'" using there [OF l(1,2)] kept(2,3) [of l] unfolding rebate_claimed_def by metis
qed

lemma keeping_affiliate_rebate: "keeping who (affiliate_rebate_tx lib conf o')"
proof (rule keepingI)
  fix t s x
  let ?base = "affiliateRebateBaseAmount o'" and ?oid = "po_ID o'"
  let ?accrue = "AccrueInviteRebateForOrder lib conf (po_UserID o') ?base (Some ?oid)"
  assume ok: "fst (affiliate_rebate_tx lib conf o' t s) = Inr x"
  obtain r s1 where r: "tryClaimAffiliateRebateAudit ?oid ?base t s = (r, s1)"
    by (cases "tryClaimAffiliateRebateAudit ?oid ?base t s")
  show "pay_step who s (snd (affiliate_rebate_tx lib conf o' t s))"
  proof (cases "r = Inr True")
    case False
    then have "s1 = s" by (rule claim_refused [OF r])
    then show ?thesis using r False ok
      by (cases r) (auto simp: affiliate_rebate_tx_def tx_then_def tx_return_def)
  next
    case True
    note claim = claim_audit [OF r [unfolded True]]
    obtain q s2 where q: "?accrue t s1 = (q, s2)" by (cases "?accrue t s1")
    have booked: "books (Some ?oid) s1 s2"
      using booking_AccrueInviteRebate q unfolding booking_tx_def by (metis snd_conv)
    obtain m where m: "q = Inr m" using ok r True q
      by (cases q) (auto simp: affiliate_rebate_tx_def tx_then_def)
    define action detail where "action = (if m \<le> 0 then ''AFFILIATE_REBATE_SKIPPED'' else ''AFFILIATE_REBATE_APPLIED'')"
      and "detail = (if m \<le> 0 then [(''baseAmount'', AudNum ?base),
                    (''reason'', AudStr ''no inviter bound or rebate amount <= 0'')]
             else [(''baseAmount'', AudNum ?base), (''rebateAmount'', AudNum m)])"
    have last: "affiliate_rebate_tx lib conf o' t s = updateClaimedAffiliateRebateAudit ?oid action detail t s2"
      using r True q m by (simp add: affiliate_rebate_tx_def tx_then_def action_def detail_def)
    let ?s = "snd (updateClaimedAffiliateRebateAudit ?oid action detail t s2)"
    have "fst (updateClaimedAffiliateRebateAudit ?oid action detail t s2) = Inr x" using ok unfolding last .
    note upd = updated_claim [OF this]
    have act: "action \<in> {''AFFILIATE_REBATE_APPLIED'', ''AFFILIATE_REBATE_SKIPPED''}" by (simp add: action_def)
    define l where "l = last (db_audit s1)"
    note l = claim(2,3) [folded l_def] and s1 = claim(4) [folded l_def]
    have claims: "rebate_claimed v s2 \<longleftrightarrow> rebate_claimed v s1" for v
      using booked by (simp add: books_def rebate_claimed_def audited_def)
    have here: "rebate_claimed ?oid ?s" using upd(6) [OF act] claims l by (simp add: s1 rebate_claimed_def)
    have keep: "rebate_claimed v ?s" if "rebate_claimed v s" for v
      using upd(6) [OF act] claims that by (auto simp: s1 rebate_claimed_def)
    have ledger: "rebates_ok ?s" if rok: "rebates_ok s"
      unfolding rebates_ok_def
    proof (intro allI impI)
      fix v assume some: "rebates_of v ?s \<noteq> []"
      have led: "db_ledger s1 = db_ledger s" "rebates_of v ?s = rebates_of v s2" using upd(5) [OF act] by (simp_all add: s1 rebates_of_def)
      show "rebate_claimed v ?s \<and> length (rebates_of v ?s) \<le> 1"
      proof (cases "v = ?oid")
        case True
        then have "rebates_of v s = []" using claim(1) rok by (auto simp: rebates_ok_def)
        then have "length (rebates_of v s2) \<le> 1" using booked led(1) by (auto simp: books_def rebates_of_def)
        then show ?thesis using here led True by simp
      next
        case False
        then have "rebates_of v s2 = rebates_of v s" using booked led(1) by (auto simp: books_def rebates_of_def)
        then show ?thesis using rok some led keep by (auto simp: rebates_ok_def)
      qed
    qed
    have "pay_step who s ?s"
      by (rule pay_step_ledger) (use upd(1-5) [OF act] booked s1 keep ledger in \<open>simp_all add: books_def\<close>)
    then show ?thesis unfolding last .
  qed
qed

lemma keeping_then: "quiet_tx f \<Longrightarrow> (\<And>x. keeping who (k x)) \<Longrightarrow> keeping who (tx_then f k)"
proof (rule keepingI)
  fix t s y
  assume f: "quiet_tx f" and k: "\<And>x. keeping who (k x)" and ok: "fst (tx_then f k t s) = Inr y"
  obtain r s1 where r: "f t s = (r, s1)" by (cases "f t s")
  then have first: "pay_step who s s1" using f by (metis pay_step_same quiet_tx_def snd_conv)
  obtain x where x: "r = Inr x" using ok r by (cases r) (auto simp: tx_then_def)
  then have "snd (tx_then f k t s) = snd (k x t s1)" "fst (k x t s1) = Inr y" using ok r by (simp_all add: tx_then_def)
  then show "pay_step who s (snd (tx_then f k t s))"
    using pay_step_trans [OF first] k [of x] unfolding keeping_def snd_committed by (metis sum.case(2))
qed

lemma keeping_assign: "keeping who (assign_for_order lib o' gid days)"
proof -
  have "keeping who (tx_then (assignOrExtendSubscription lib input) (\<lambda>_. insert_audit oid a op d))" for input oid a op d
    by (intro keeping_then quiet_assign keeping_insert_audit)
  then show ?thesis
    using keeping_insert_audit unfolding keeping_def committed_def assign_for_order_def Let_def
    by (simp split: option.split if_split)
qed

end
