(* ===== verification/PaymentLifecycle.thy ===== *)
theory PaymentLifecycle
  imports PaymentFulfillment
begin

text \<open>
  Cancelling, expiring and verifying orders
  (\<open>backend/internal/service/payment_order_lifecycle.go\<close>, \<open>payment_webhook_provider.go\<close>): before an
  order is given up, its provider is asked whether it has been paid after all, and an answer that it has
  is handled like a notification.

  The providers are parameters: a gateway answers a query with what it says at the time, and its calls
  have no effect on the tables.
\<close>

section \<open>Gateways\<close>

record query_response =
  qr_TradeNo :: string
  qr_Status :: string
  qr_Amount :: decimal
  qr_Metadata :: "(string, string) gomap"

record refund_request =
  rq_TradeNo :: string
  rq_OrderID :: string
  rq_Amount :: string
  rq_Reason :: string

record refund_query =
  rf_TradeNo :: string
  rf_OrderID :: string
  rf_RefundID :: string
  rf_Amount :: string

record refund_response =
  rr_RefundID :: string
  rr_Status :: string

text \<open>
  \<open>gw_refund\<close> answers with a response and an error, each of which may be missing; \<open>gw_query_refund\<close> is there
  when the provider can be asked about refunds; \<open>gw_merchant\<close> is the identity of the merchant.
\<close>

record gateway =
  gw_key :: string
  gw_query :: "go_time \<Rightarrow> string \<Rightarrow> pay_error + query_response"
  gw_cancels :: bool
  gw_merchant :: "(string, string) gomap"
  gw_refund :: "go_time \<Rightarrow> refund_request \<Rightarrow> refund_response option \<times> pay_error option"
  gw_query_refund :: "(go_time \<Rightarrow> refund_query \<Rightarrow> pay_error + refund_response) option"

text \<open>The gateway of a provider instance, and the registered one of a payment type.\<close>

record gateways =
  gws_instance :: "provider_instance \<Rightarrow> pay_error + gateway"
  gws_registry :: "string \<Rightarrow> pay_error + gateway"

section \<open>The gateway of an order\<close>

definition paymentOrderAllowsRegistryFallback :: "payment_order \<Rightarrow> bool" where
  "paymentOrderAllowsRegistryFallback o' \<longleftrightarrow>
     psOrderProviderSnapshot o' = None \<and> trim_space (psStringValue (po_ProviderInstanceID o')) = ''''
     \<and> trim_space (psStringValue (po_ProviderKey o')) = ''''"

definition paymentOrderFallbackProviderKey :: "pay_lib \<Rightarrow> payment_order \<Rightarrow> string" where
  "paymentOrderFallbackProviderKey lib o' =
     (let key = trim_space (pl_provider_key lib (po_PaymentType o'))
      in if key \<noteq> '''' then key else trim_space (GetBasePaymentType (trim_space (po_PaymentType o'))))"

definition webhookRegistryFallbackAllowed :: "string \<Rightarrow> bool pay_op" where
  "webhookRegistryFallbackAllowed key0 =
     (let key = trim_space key0
      in if key = '''' then Return (Inr False)
         else bind (ask (\<lambda>t s. Inr (length (filter (\<lambda>i. pi_ProviderKey i = key \<and> pi_Enabled i) (db_instances s)))))
                (\<lambda>r. case r of Inl e \<Rightarrow> Return (Inr False) | Inr n \<Rightarrow> Return (Inr (n \<le> 1))))"

definition getOrderProvider :: "pay_lib \<Rightarrow> gateways \<Rightarrow> payment_order \<Rightarrow> gateway pay_op" where
  "getOrderProvider lib gws o' =
     attempt (getOrderProviderInstance lib o') (\<lambda>i.
       case i of
         Some inst \<Rightarrow> Return (gws_instance gws inst)
       | None \<Rightarrow>
           if \<not> paymentOrderAllowsRegistryFallback o' then Return (Inl ProviderUnavailable)
           else if paymentOrderFallbackProviderKey lib o' = '''' then Return (Inl ProviderUnavailable)
           else attempt (webhookRegistryFallbackAllowed (paymentOrderFallbackProviderKey lib o')) (\<lambda>allowed.
             if \<not> allowed then Return (Inl ProviderUnavailable) else Return (gws_registry gws (po_PaymentType o'))))"

definition paymentOrderQueryReference :: "payment_order \<Rightarrow> gateway \<Rightarrow> string" where
  "paymentOrderQueryReference o' gw =
     (let snap = (case psOrderProviderSnapshot o' of Some sn \<Rightarrow> trim_space (sn_ProviderKey sn) | None \<Rightarrow> '''');
          key = (if trim_space (gw_key gw) \<noteq> '''' then trim_space (gw_key gw)
                 else if snap \<noteq> '''' then snap
                 else if trim_space (psStringValue (po_ProviderKey o')) \<noteq> '''' then trim_space (psStringValue (po_ProviderKey o'))
                 else trim_space (po_PaymentType o'))
      in if GetBasePaymentType key \<in> {''alipay'', ''easypay'', ''wxpay''} then trim_space (po_OutTradeNo o')
         else if trim_space (po_PaymentTradeNo o') \<noteq> '''' then trim_space (po_PaymentTradeNo o')
         else trim_space (po_OutTradeNo o'))"

definition paymentOrderShouldPersistUpstreamTradeNo :: "pay_lib \<Rightarrow> string \<Rightarrow> string \<Rightarrow> string \<Rightarrow> bool" where
  "paymentOrderShouldPersistUpstreamTradeNo lib queryRef upstream current \<longleftrightarrow>
     trim_space upstream \<noteq> ''''
     \<and> \<not> pl_equal_fold lib (trim_space upstream) (trim_space current)
     \<and> \<not> pl_equal_fold lib (trim_space upstream) (trim_space queryRef)"

section \<open>Asking whether an order is paid\<close>

definition requeryPaidOrderOnce :: "gateway \<Rightarrow> string \<Rightarrow> query_response option pay_op" where
  "requeryPaidOrderOnce gw queryRef =
     (if trim_space queryRef = '''' then Return (Inr None)
      else clock (\<lambda>now. case gw_query gw now queryRef of
             Inl e \<Rightarrow> Return (Inr None)
           | Inr resp \<Rightarrow>
               if qr_Status resp \<noteq> ''paid'' \<or> \<not> isValidProviderAmount (qr_Amount resp) then Return (Inr None)
               else Return (Inr (Some resp))))"

text \<open>From a response with a valid amount on.\<close>

definition confirm_paid :: "pay_lib \<Rightarrow> gateway \<Rightarrow> payment_order \<Rightarrow> string \<Rightarrow> query_response \<Rightarrow> bool pay_op" where
  "confirm_paid lib gw o' queryRef resp =
     (let upstream = trim_space (qr_TradeNo resp);
          notify = (\<lambda>tradeNo. ignoring (HandlePaymentNotification lib
             \<lparr>pn_TradeNo = tradeNo, pn_OrderID = po_OutTradeNo o', pn_Amount = qr_Amount resp,
              pn_Status = ''success'', pn_Metadata = qr_Metadata resp\<rparr> (gw_key gw)) (Return (Inr True)))
      in if paymentOrderShouldPersistUpstreamTradeNo lib queryRef upstream (po_PaymentTradeNo o')
         then ignoring (tx (update_orders (\<lambda>t p. po_ID p = po_ID o') (\<lambda>t p. p\<lparr>po_PaymentTradeNo := upstream\<rparr>))) (notify upstream)
         else notify (po_PaymentTradeNo o'))"

text \<open>The answer: whether the order has been paid.\<close>

definition checkPaidWithOptions :: "pay_lib \<Rightarrow> gateways \<Rightarrow> bool \<Rightarrow> payment_order \<Rightarrow> bool pay_op" where
  "checkPaidWithOptions lib gws cancelIfUnpaid o' =
     bind (getOrderProvider lib gws o') (\<lambda>r. case r of
       Inl e \<Rightarrow> Return (Inr False)
     | Inr gw \<Rightarrow>
         (let queryRef = paymentOrderQueryReference o' gw
          in if queryRef = '''' then Return (Inr False)
             else clock (\<lambda>now. case gw_query gw now queryRef of
               Inl e \<Rightarrow> Return (Inr False)
             | Inr resp \<Rightarrow>
                 if qr_Status resp = ''paid'' then
                   (if \<not> isValidProviderAmount (qr_Amount resp)
                    then writeAuditLog (po_ID o') ''PAYMENT_INVALID_AMOUNT'' (gw_key gw)
                           [(''expected'', AudNum (po_PayAmount o')), (''paid'', AudNum (qr_Amount resp)),
                            (''tradeNo'', AudStr (qr_TradeNo resp)), (''queryRef'', AudStr queryRef)]
                           (attempt (requeryPaidOrderOnce gw queryRef) (\<lambda>again.
                              case again of None \<Rightarrow> Return (Inr False) | Some resp' \<Rightarrow> confirm_paid lib gw o' queryRef resp'))
                    else confirm_paid lib gw o' queryRef resp)
                 else if cancelIfUnpaid \<and> gw_cancels gw then ignoring (ask (\<lambda>t s. Inr ())) (Return (Inr False))
                 else Return (Inr False))))"

definition checkPaid :: "pay_lib \<Rightarrow> gateways \<Rightarrow> payment_order \<Rightarrow> bool pay_op" where
  "checkPaid lib gws = checkPaidWithOptions lib gws True"

definition reconcilePaid :: "pay_lib \<Rightarrow> gateways \<Rightarrow> payment_order \<Rightarrow> bool pay_op" where
  "reconcilePaid lib gws = checkPaidWithOptions lib gws False"

section \<open>Cancelling and expiring\<close>

text \<open>The answer: whether the order turned out to be paid.\<close>

definition cancelCore :: "pay_lib \<Rightarrow> gateways \<Rightarrow> payment_order \<Rightarrow> string \<Rightarrow> string \<Rightarrow> string \<Rightarrow> bool pay_op" where
  "cancelCore lib gws o' fs op ad =
     attempt (if po_PaymentTradeNo o' \<noteq> '''' \<or> po_PaymentType o' \<noteq> '''' then checkPaid lib gws o' else Return (Inr False))
       (\<lambda>paid.
          if paid then Return (Inr True)
          else attempt (tx (update_orders (\<lambda>t p. po_ID p = po_ID o' \<and> po_Status p = OrderStatusPending) (set_status fs)))
            (\<lambda>c. if c > 0
                 then writeAuditLog (po_ID o') (if fs = OrderStatusExpired then ''ORDER_EXPIRED'' else ''ORDER_CANCELLED'') op
                        [(''detail'', AudStr ad)] (Return (Inr False))
                 else Return (Inr False)))"

definition CancelOrder :: "pay_lib \<Rightarrow> gateways \<Rightarrow> int \<Rightarrow> int \<Rightarrow> bool pay_op" where
  "CancelOrder lib gws oid uid =
     bind (get_order oid) (\<lambda>r. case r of
       Inl e \<Rightarrow> Return (Inl PayNotFound)
     | Inr o' \<Rightarrow>
         if po_UserID o' \<noteq> uid then Return (Inl PayForbidden)
         else if po_Status o' \<noteq> OrderStatusPending then Return (Inl InvalidStatus)
         else cancelCore lib gws o' OrderStatusCancelled (''user:'' @ itoa uid) ''user cancelled order'')"

definition AdminCancelOrder :: "pay_lib \<Rightarrow> gateways \<Rightarrow> int \<Rightarrow> bool pay_op" where
  "AdminCancelOrder lib gws oid =
     bind (get_order oid) (\<lambda>r. case r of
       Inl e \<Rightarrow> Return (Inl PayNotFound)
     | Inr o' \<Rightarrow>
         if po_Status o' \<noteq> OrderStatusPending then Return (Inl InvalidStatus)
         else cancelCore lib gws o' OrderStatusCancelled ''admin'' ''admin cancelled order'')"

text \<open>How many orders are cancelled; an error of one does not stop the others.\<close>

fun expire_all :: "pay_lib \<Rightarrow> gateways \<Rightarrow> nat \<Rightarrow> payment_order list \<Rightarrow> nat pay_op" where
  "expire_all lib gws n [] = Return (Inr n)"
| "expire_all lib gws n (o' # os) =
     bind (cancelCore lib gws o' OrderStatusExpired ''system'' ''order expired'')
       (\<lambda>r. expire_all lib gws (if r = Inr False then Suc n else n) os)"

definition ExpireTimedOutOrders :: "pay_lib \<Rightarrow> gateways \<Rightarrow> nat pay_op" where
  "ExpireTimedOutOrders lib gws =
     clock (\<lambda>now.
       attempt (ask (\<lambda>t s. Inr (filter (\<lambda>o'. po_Status o' = OrderStatusPending \<and> po_ExpiresAt o' \<le> now) (db_orders s))))
         (expire_all lib gws 0))"

section \<open>Verifying and reconciling\<close>

definition normalizeOrderLookupOutTradeNo :: "string \<Rightarrow> pay_error + string" where
  "normalizeOrderLookupOutTradeNo raw =
     (let n = trim_space raw
      in if n = '''' then Inl InvalidOutTradeNo
         else if length n > 64 then Inl InvalidOutTradeNo
         else if \<forall>ch\<in>set n. (let k = (of_char ch :: nat) in
              97 \<le> k \<and> k \<le> 122 \<or> 65 \<le> k \<and> k \<le> 90 \<or> 48 \<le> k \<and> k \<le> 57 \<or> ch = CHR ''_'' \<or> ch = CHR ''-'')
         then Inr n else Inl InvalidOutTradeNo)"

definition VerifyOrderByOutTradeNo :: "pay_lib \<Rightarrow> gateways \<Rightarrow> string \<Rightarrow> int \<Rightarrow> payment_order pay_op" where
  "VerifyOrderByOutTradeNo lib gws raw uid =
     (case normalizeOrderLookupOutTradeNo raw of
        Inl e \<Rightarrow> Return (Inl e)
      | Inr outTradeNo \<Rightarrow>
          bind (order_numbered outTradeNo) (\<lambda>r. case r of
            Inl e \<Rightarrow> Return (Inl PayNotFound)
          | Inr o' \<Rightarrow>
              if po_UserID o' \<noteq> uid then Return (Inl PayForbidden)
              else if po_Status o' \<in> {OrderStatusPending, OrderStatusExpired}
              then attempt (reconcilePaid lib gws o') (\<lambda>paid. if paid then get_order (po_ID o') else Return (Inr o'))
              else Return (Inr o')))"

definition VerifyOrderPublic :: "string \<Rightarrow> payment_order pay_op" where
  "VerifyOrderPublic raw =
     (case normalizeOrderLookupOutTradeNo raw of
        Inl e \<Rightarrow> Return (Inl e)
      | Inr outTradeNo \<Rightarrow>
          bind (order_numbered outTradeNo) (\<lambda>r. case r of Inl e \<Rightarrow> Return (Inl PayNotFound) | Inr o' \<Rightarrow> Return (Inr o')))"

definition pendingWxpayReconcileLimit :: nat where
  "pendingWxpayReconcileLimit = 20"

definition wxpay_order :: "payment_order \<Rightarrow> bool" where
  "wxpay_order o' \<longleftrightarrow>
     po_PaymentType o' = ''wxpay'' \<or> has_prefix (po_PaymentType o') ''wxpay_''
     \<or> (case po_ProviderKey o' of None \<Rightarrow> False | Some k \<Rightarrow> k = ''wxpay'' \<or> has_prefix k ''wxpay_'')"

fun reconcile_all :: "pay_lib \<Rightarrow> gateways \<Rightarrow> nat \<Rightarrow> payment_order list \<Rightarrow> nat pay_op" where
  "reconcile_all lib gws n [] = Return (Inr n)"
| "reconcile_all lib gws n (o' # os) =
     bind (reconcilePaid lib gws o') (\<lambda>r. reconcile_all lib gws (if r = Inr True then Suc n else n) os)"

text \<open>The rows are in the order of their creation.\<close>

definition ReconcilePendingWxpayOrders :: "pay_lib \<Rightarrow> gateways \<Rightarrow> nat pay_op" where
  "ReconcilePendingWxpayOrders lib gws =
     clock (\<lambda>now.
       attempt (ask (\<lambda>t s. Inr (take pendingWxpayReconcileLimit
           (filter (\<lambda>o'. po_Status o' = OrderStatusPending \<and> now < po_ExpiresAt o' \<and> wxpay_order o') (db_orders s)))))
         (reconcile_all lib gws 0))"

section \<open>How often a user may cancel\<close>

record cancel_conf =
  cl_Enabled :: bool
  cl_Max :: nat
  cl_Window :: int
  cl_Unit :: string
  cl_Mode :: string

definition cancelRateLimitWindowStart :: "pay_lib \<Rightarrow> cancel_conf \<Rightarrow> go_time \<Rightarrow> go_time" where
  "cancelRateLimitWindowStart lib cfg now =
     (let w = (if cl_Window cfg \<le> 0 then 1 else cl_Window cfg);
          unit = (if cl_Unit cfg = '''' then ''day'' else cl_Unit cfg)
      in if cl_Mode cfg = ''fixed''
         then (if unit = ''minute'' then (now - now mod minute_ns) + int64 (- (w - 1) * minute_ns)
               else if unit = ''day'' then pl_add_days lib (pl_start_of_day lib now) (- (w - 1))
               else (now - now mod hour_ns) + int64 (- (w - 1) * hour_ns))
         else (if unit = ''minute'' then now + int64 (- w * minute_ns)
               else if unit = ''day'' then pl_add_days lib now (- w)
               else now + int64 (- w * hour_ns)))"

text \<open>The answer: whether the user may go on; an error of the query lets him.\<close>

definition checkCancelRateLimit :: "pay_lib \<Rightarrow> cancel_conf \<Rightarrow> int \<Rightarrow> bool pay_op" where
  "checkCancelRateLimit lib cfg uid =
     (if \<not> cl_Enabled cfg \<or> cl_Max cfg = 0 then Return (Inr True)
      else clock (\<lambda>now.
        bind (ask (\<lambda>t s. Inr (length (filter (\<lambda>l. al_Action l = ''ORDER_CANCELLED'' \<and> al_Operator l = ''user:'' @ itoa uid
                   \<and> cancelRateLimitWindowStart lib cfg now \<le> al_CreatedAt l) (db_audit s)))))
          (\<lambda>r. case r of Inl e \<Rightarrow> Return (Inr True) | Inr n \<Rightarrow> Return (Inr (n < cl_Max cfg)))))"

end
