(* ===== verification/PaymentSystem.thy ===== *)
theory PaymentSystem
  imports PaymentCredit PaymentLifecycle
begin

text \<open>
  Any number of notifications, retries, redemptions and new codes side by side, each cut at its
  transactions, with failures and crashes: the invariant of recharges holds throughout, every user has
  been credited exactly for the codes that were redeemed, and a completed order has been credited once.
\<close>

section \<open>Rules\<close>

text \<open>Only results without an error are of interest.\<close>

definition fine :: "('a \<Rightarrow> pay_db \<Rightarrow> bool) \<Rightarrow> pay_error + 'a \<Rightarrow> pay_db \<Rightarrow> bool" where
  "fine P r s = (case r of Inl e \<Rightarrow> True | Inr x \<Rightarrow> P x s)"

lemma fine_simps [simp]: "fine P (Inl e) s" "fine P (Inr x) s = P x s"
  by (simp_all add: fine_def)

definition safe :: "(int \<Rightarrow> string \<Rightarrow> bool) \<Rightarrow> ('a \<Rightarrow> pay_db \<Rightarrow> bool) \<Rightarrow> 'a pay_op \<Rightarrow> pay_db \<Rightarrow> bool" where
  "safe who P p s \<longleftrightarrow> keeps (pay_ok who) pay_grows (fine P) p s"

lemma safe_fail: "safe who P (Return (Inl e)) s"
  unfolding safe_def by (rule pay.keep_return) simp

lemma safe_return: "(\<And>s'. pay_ok who s' \<Longrightarrow> pay_grows s s' \<Longrightarrow> P x s') \<Longrightarrow> safe who P (Return (Inr x)) s"
  unfolding safe_def by (rule pay.keep_return) simp

lemma safe_done: "(\<And>x s'. P x s') \<Longrightarrow> safe who P (Return r) s"
  unfolding safe_def by (rule pay.keep_return) (simp add: fine_def split: sum.split)

lemma safe_bind:
  "safe who R p s \<Longrightarrow> (\<And>r s'. pay_ok who s' \<Longrightarrow> pay_grows s s' \<Longrightarrow> fine R r s' \<Longrightarrow> safe who P (k r) s') \<Longrightarrow> safe who P (bind p k) s"
  unfolding safe_def by (rule pay.keep_bind)

lemma safe_attempt:
  assumes "safe who R p s" "\<And>x s'. pay_ok who s' \<Longrightarrow> pay_grows s s' \<Longrightarrow> R x s' \<Longrightarrow> safe who P (k x) s'"
  shows "safe who P (attempt p k) s"
  unfolding attempt_def
proof (rule safe_bind [OF assms(1)])
  fix r s'
  assume "pay_ok who s'" "pay_grows s s'" "fine R r s'"
  then show "safe who P (case r of Inl e \<Rightarrow> Return (Inl e) | Inr x \<Rightarrow> k x) s'"
    using assms(2) by (cases r) (simp_all add: safe_fail)
qed

lemma safe_case:
  "(\<And>e. r = Inl e \<Longrightarrow> safe who P (f e) s) \<Longrightarrow> (\<And>x. r = Inr x \<Longrightarrow> safe who P (g x) s) \<Longrightarrow> safe who P (case r of Inl e \<Rightarrow> f e | Inr x \<Rightarrow> g x) s"
  by (cases r) simp_all

lemma safe_if: "(b \<Longrightarrow> safe who P p s) \<Longrightarrow> (\<not> b \<Longrightarrow> safe who P q s) \<Longrightarrow> safe who P (if b then p else q) s"
  by simp

lemma safe_ignoring:
  "safe who R p s \<Longrightarrow> (\<And>s'. pay_ok who s' \<Longrightarrow> pay_grows s s' \<Longrightarrow> safe who P q s') \<Longrightarrow> safe who P (ignoring p q) s"
  unfolding ignoring_def by (rule safe_bind)

lemma safe_clock: "(\<And>t s'. pay_ok who s' \<Longrightarrow> pay_grows s s' \<Longrightarrow> safe who P (k t) s') \<Longrightarrow> safe who P (clock k) s"
  unfolding safe_def by (rule pay.keep_clock)

lemma safe_tx:
  assumes step: "\<And>t s'. pay_ok who s' \<Longrightarrow> pay_grows s s' \<Longrightarrow> pay_step who s' (snd (committed f t s'))"
    and post: "\<And>t s' x s''. pay_ok who s' \<Longrightarrow> pay_grows s s' \<Longrightarrow> fst (f t s') = Inr x \<Longrightarrow> pay_ok who s'' \<Longrightarrow> pay_grows (snd (f t s')) s'' \<Longrightarrow> P x s''"
  shows "safe who P (tx f) s"
  unfolding safe_def tx_def
proof (rule pay.keep_bind)
  show "keeps (pay_ok who) pay_grows (\<lambda>r s''. \<forall>s3. pay_ok who s3 \<longrightarrow> pay_grows s'' s3 \<longrightarrow> (case r of None \<Rightarrow> True | Some x \<Rightarrow> fine P x s3)) (call (committed f)) s"
  proof (rule pay.keep_call)
    show "pay_ok who (snd (committed f t s')) \<and> pay_grows s' (snd (committed f t s'))" if "pay_ok who s'" "pay_grows s s'" for s' t
      using step [OF that] that by (simp add: pay_step_def)
    fix s' t s''
    assume that: "pay_ok who s'" "pay_grows s s'" "pay_ok who s''" "pay_grows (snd (committed f t s')) s''"
    show "\<forall>s3. pay_ok who s3 \<longrightarrow> pay_grows s'' s3 \<longrightarrow> (case Some (fst (committed f t s')) of None \<Rightarrow> True | Some x \<Rightarrow> fine P x s3)"
    proof (intro allI impI)
      fix s3
      assume s3: "pay_ok who s3" "pay_grows s'' s3"
      show "case Some (fst (committed f t s')) of None \<Rightarrow> True | Some x \<Rightarrow> fine P x s3"
      proof (cases "fst (f t s')")
        case (Inr x)
        then have "pay_grows (snd (f t s')) s3" using pay_grows_trans [OF that(4) s3(2)] by (simp add: snd_committed)
        then show ?thesis using post [OF that(1,2) Inr s3(1)] Inr by (simp add: fst_committed)
      qed (simp add: fst_committed)
    qed
  qed simp
next
  fix r s'
  assume "\<forall>s3. pay_ok who s3 \<longrightarrow> pay_grows s' s3 \<longrightarrow> (case r of None \<Rightarrow> True | Some x \<Rightarrow> fine P x s3)"
  then show "keeps (pay_ok who) pay_grows (fine P) (Return (case r of None \<Rightarrow> Inl DbFailed | Some x \<Rightarrow> x)) s'"
    by (intro pay.keep_return) (auto split: option.splits)
qed

lemma safe_keeping: "keeping who f \<Longrightarrow> (\<And>x s'. P x s') \<Longrightarrow> safe who P (tx f) s"
  by (rule safe_tx) (simp_all add: keeping_def)

lemma safe_ask:
  "(\<And>t s' x s''. pay_ok who s' \<Longrightarrow> pay_grows s s' \<Longrightarrow> g t s' = Inr x \<Longrightarrow> pay_ok who s'' \<Longrightarrow> pay_grows s' s'' \<Longrightarrow> P x s'') \<Longrightarrow> safe who P (ask g) s"
  unfolding ask_def by (rule safe_tx) (auto simp: snd_committed split: sum.split)

lemma safe_weaken: "safe who R p s \<Longrightarrow> (\<And>x s'. pay_ok who s' \<Longrightarrow> pay_grows s s' \<Longrightarrow> R x s' \<Longrightarrow> P x s') \<Longrightarrow> safe who P p s"
  unfolding safe_def by (erule pay.keep_weaken) (auto simp: fine_def split: sum.splits)

lemma safe_audit: "(\<And>s'. pay_ok who s' \<Longrightarrow> pay_grows s s' \<Longrightarrow> safe who P q s') \<Longrightarrow> safe who P (writeAuditLog oid action operator detail q) s"
  unfolding writeAuditLog_def by (rule safe_ignoring [OF safe_keeping [OF keeping_insert_audit TrueI]])

lemma safe_hasAudit: "(\<And>b s'. pay_ok who s' \<Longrightarrow> pay_grows s s' \<Longrightarrow> safe who P (k b) s') \<Longrightarrow> safe who P (hasAuditLog oid action k) s"
  unfolding hasAuditLog_def safe_def by (rule pay.keep_bind [where R = "\<lambda>_ _. True", OF pay.keep_query]) simp_all

section \<open>Codes\<close>

definition name_spent :: "string \<Rightarrow> pay_db \<Rightarrow> bool" where
  "name_spent code s \<longleftrightarrow> (\<exists>c\<in>set (db_codes s). rc_Code c = code \<and> rc_Status c = StatusUsed)"

lemma code_spent_name: "code_spent o' s \<longleftrightarrow> name_spent (po_RechargeCode o') s"
  by (simp add: code_spent_def name_spent_def)

lemma name_spent_grows: "name_spent code s \<Longrightarrow> pay_grows s s' \<Longrightarrow> name_spent code s'"
  unfolding name_spent_def pay_grows_def codes_grow_def by metis

lemma may_redeem_grows: "pay_grows s s' \<Longrightarrow> may_redeem who uid code s' \<longleftrightarrow> may_redeem who uid code s"
proof -
  assume "pay_grows s s'"
  then have cores: "map order_core (db_orders s') = map order_core (db_orders s)" by (simp add: pay_grows_def)
  have eq: "may_redeem who uid code s \<longleftrightarrow> (\<forall>(i, u, a, c, ty)\<in>set (map order_core (db_orders s)). c = code \<longrightarrow> uid = u \<or> who uid code)" for s
    by (auto simp: may_redeem_def order_core_def)
  show ?thesis by (simp only: eq cores)
qed

lemma safe_GetByCode: "safe who (\<lambda>c s'. known_code c s' \<and> rc_Code c = code) (repo_GetByCode code) s"
  unfolding repo_GetByCode_def
proof (rule safe_ask)
  fix t s' c s''
  assume "(case code_named code s' of None \<Rightarrow> Inl ErrRedeemCodeNotFound | Some c \<Rightarrow> Inr c) = Inr c" and later: "pay_grows s' s''"
  then have "find (\<lambda>c. rc_Code c = code) (db_codes s') = Some c" by (simp add: code_named_def split: option.splits)
  then have "c \<in> set (db_codes s')" "rc_Code c = code" by (auto simp: find_Some_iff)
  then show "known_code c s'' \<and> rc_Code c = code" using known_code_grows [OF known_codeI later] by blast
qed

lemma safe_GetByID: "safe who (\<lambda>_ _. True) (repo_GetByID cid) s"
  unfolding repo_GetByID_def by (rule safe_ask) simp

text \<open>What is created must not be mistaken for the code of an order.\<close>

definition fits_orders :: "string \<Rightarrow> string \<Rightarrow> decimal \<Rightarrow> pay_db \<Rightarrow> bool" where
  "fits_orders name ty val s \<longleftrightarrow>
     (\<forall>o'\<in>set (db_orders s). po_RechargeCode o' = name \<longrightarrow> ty = RedeemTypeBalance \<and> round_half_away 8 val = po_Amount o')"

lemma fits_orders_grows: "pay_grows s s' \<Longrightarrow> fits_orders name ty val s' \<longleftrightarrow> fits_orders name ty val s"
proof -
  assume "pay_grows s s'"
  then have cores: "map order_core (db_orders s') = map order_core (db_orders s)" by (simp add: pay_grows_def)
  have eq: "fits_orders name ty val s \<longleftrightarrow>
      (\<forall>(i, u, a, c, t)\<in>set (map order_core (db_orders s)). c = name \<longrightarrow> ty = RedeemTypeBalance \<and> round_half_away 8 val = a)" for s
    by (auto simp: fits_orders_def order_core_def)
  show ?thesis by (simp only: eq cores)
qed

lemma pay_step_insert:
  "fits_orders (rc_Code c) (rc_Type c) (rc_Value c) s \<Longrightarrow> rc_Status c \<noteq> StatusUsed \<Longrightarrow> pay_step who s (snd (committed (insert_code c) t s))"
  unfolding snd_committed
  by (cases "fst (insert_code c t s)") (auto simp: fits_orders_def intro!: pay_step_insert_code)

lemma safe_CreateCode:
  assumes "fits_orders (trim_space (rc_Code c)) (if rc_Type c = '''' then RedeemTypeBalance else rc_Type c) (rc_Value c) s"
    and "rc_Status c \<noteq> StatusUsed"
  shows "safe who (\<lambda>_ _. True) (CreateCode c) s"
proof -
  let ?c = "c\<lparr>rc_Code := trim_space (rc_Code c), rc_Type := (if rc_Type c = '''' then RedeemTypeBalance else rc_Type c),
      rc_Status := (if rc_Status c = '''' then StatusUnused else rc_Status c)\<rparr>"
  have unused: "rc_Status ?c \<noteq> StatusUsed" using assms(2) by (simp add: pay_strings)
  have insert: "safe who (\<lambda>_ _. True) (tx (insert_code ?c)) s1" if "pay_grows s s1" for s1
  proof (rule safe_tx)
    fix t s'
    assume "pay_grows s1 s'"
    then have "pay_grows s s'" by (rule pay_grows_trans [OF that])
    then show "pay_step who s' (snd (committed (insert_code ?c) t s'))"
      using assms(1) unused by (intro pay_step_insert) (simp_all add: fits_orders_grows)
  qed simp
  show ?thesis
    unfolding CreateCode_def Let_def
    by (intro if_split [of "\<lambda>p. safe who _ p s", THEN iffD2] conjI impI safe_fail safe_clock)
       (use insert in \<open>auto intro: safe_fail\<close>)
qed

lemma quiet_locks: "quiet_tx (\<lambda>t s. (Inr x, s\<lparr>db_locks := f t s\<rparr>))" "quiet_tx (\<lambda>t s. (Inr x, s\<lparr>db_attempts := g t s\<rparr>))"
  by (simp_all add: quiet_tx_def money_view_def)

lemma safe_attempts: "safe who (\<lambda>_ _. True) (IncrementRedeemAttemptCount uid) s"
  unfolding IncrementRedeemAttemptCount_def by (rule safe_keeping [OF keeping_quiet [OF quiet_locks(2)] TrueI])

lemma safe_release: "safe who (\<lambda>_ _. True) (ReleaseRedeemLock code) s"
  unfolding ReleaseRedeemLock_def by (rule safe_keeping [OF keeping_quiet [OF quiet_locks(1)] TrueI])

lemma safe_acquire: "safe who (\<lambda>_ _. True) (AcquireRedeemLock code ttl) s"
proof -
  have "quiet_tx (\<lambda>t s. if live t (db_locks s code) then (Inr False, s) else (Inr True, s\<lparr>db_locks := (db_locks s)(code \<mapsto> t + ttl)\<rparr>))"
    by (simp add: quiet_tx_def money_view_def)
  then show ?thesis unfolding AcquireRedeemLock_def by (rule safe_keeping [OF keeping_quiet TrueI])
qed

lemma safe_count: "safe who (\<lambda>_ _. True) (GetRedeemAttemptCount uid) s"
  unfolding GetRedeemAttemptCount_def by (rule safe_ask) simp

lemma safe_get_user: "safe who (\<lambda>_ _. True) (get_user uid) s"
  unfolding get_user_def by (rule safe_ask) simp

section \<open>Redeeming\<close>

lemma safe_rebate_for_redeem: "safe who (\<lambda>_ _. True) (tryAccrueAffiliateRebateForRedeem lib uid amount) s"
proof -
  have ensure: "safe who (\<lambda>_ _. True) (tx (EnsureUserAffiliate lib v)) s" for v s
    by (rule safe_keeping [OF keeping_quiet [OF quiet_EnsureUserAffiliate] TrueI])
  have accrued: "safe who (\<lambda>_ _. True) (if b then tx (GetAccruedRebateFromInvitee v uid) else Return (Inr 0)) s" for b v s
    by (simp add: safe_done safe_keeping [OF keeping_quiet [OF quiet_GetAccrued] TrueI])
  have accrue: "safe who (\<lambda>_ _. True) (attempt (tx (AccrueQuota v uid r h None)) (\<lambda>_. Return (Inr ()))) s" for v r h s
    by (rule safe_attempt [OF safe_keeping [OF keeping_booking_none [OF booking_AccrueQuota] TrueI]]) (simp add: safe_done)
  have book: "safe who (\<lambda>_ _. True) (case cap_rebate conf existing q of None \<Rightarrow> Return (Inr ())
      | Some rebate \<Rightarrow> attempt (tx (AccrueQuota v uid rebate h None)) (\<lambda>_. Return (Inr ()))) s" for conf existing q v h s
    by (cases "cap_rebate conf existing q") (simp_all add: accrue safe_done)
  have late: "safe who (\<lambda>_ _. True) (if c then Return (Inr ()) else attempt p k) s"
    if "safe who (\<lambda>_ _. True) p s" "\<And>x s. safe who (\<lambda>_ _. True) (k x) s"
    for c s and p :: "decimal pay_op" and k :: "decimal \<Rightarrow> unit pay_op"
    using that by (cases c) (auto intro: safe_attempt safe_done)
  have inviter: "safe who (\<lambda>_ _. True)
      (case af_InviterID a of
         None \<Rightarrow> Return (Inr ())
       | Some inviter \<Rightarrow>
           attempt (tx (EnsureUserAffiliate lib inviter)) (\<lambda>b.
             clock (\<lambda>now.
               if too_late lib conf a now \<or> rebate_for conf b amount \<le> 0 then Return (Inr ())
               else attempt (if ac_PerInviteeCap conf > 0 then tx (GetAccruedRebateFromInvitee inviter uid)
                             else Return (Inr 0)) (\<lambda>existing.
                 case cap_rebate conf existing (rebate_for conf b amount) of
                   None \<Rightarrow> Return (Inr ())
                 | Some rebate \<Rightarrow>
                     attempt (tx (AccrueQuota inviter uid rebate (ac_FreezeHours conf) None))
                       (\<lambda>_. Return (Inr ())))))) s" for a conf s
    by (cases "af_InviterID a")
       (simp_all only: option.case safe_done TrueI, rule safe_attempt [OF ensure], rule safe_clock, rule late [OF accrued book])
  show ?thesis
    unfolding tryAccrueAffiliateRebateForRedeem_def
    by (auto split: option.split intro!: safe_done safe_attempt [OF ensure] inviter)
qed

lemma safe_redeem_tx:
  assumes "known_code c s" "rc_Code c = code" "may_redeem who uid code s"
  shows "safe who (\<lambda>_ s'. name_spent code s') (tx (redeem_tx lib uid c)) s"
proof (rule safe_tx)
  fix t s'
  assume ok: "pay_ok who s'" and g: "pay_grows s s'"
  have known: "known_code c s'" "may_redeem who uid (rc_Code c) s'"
    using known_code_grows [OF assms(1) g] may_redeem_grows [OF g] assms(2,3) by auto
  then show "pay_step who s' (snd (committed (redeem_tx lib uid c) t s'))"
    unfolding snd_committed by (auto split: sum.split intro: pay_step_redeem)
  fix x s''
  assume got: "fst (redeem_tx lib uid c t s') = Inr x" and later: "pay_grows (snd (redeem_tx lib uid c t s')) s''"
  let ?s = "snd (redeem_tx lib uid c t s')"
  have "pay_step who s' ?s" by (rule pay_step_redeem [OF got known])
  then have after: "pay_ok who ?s" "pay_grows s' ?s" using ok by (simp_all add: pay_step_def)
  obtain d where d: "d \<in> set (db_codes ?s)" "rc_ID d = rc_ID c" "rc_Status d = StatusUsed"
    using redeem_tx_spends [OF got] by blast
  obtain e where e: "e \<in> set (db_codes ?s)" "code_core e = code_core c"
    using known_code_grows [OF known(1) after(2)] by (auto simp: known_code_def)
  have "distinct (map rc_ID (db_codes ?s))" using after(1) by (simp add: pay_ok_def codes_ok_def)
  then have "d = e" using d(1,2) e(1) code_coreD(1) [OF e(2)] by (metis distinct_map inj_onD)
  then have "rc_Code d = code" using code_coreD(2) [OF e(2)] assms(2) by simp
  then have "name_spent code ?s" using d(1,3) unfolding name_spent_def by blast
  then show "name_spent code s''" using later by (rule name_spent_grows)
qed

lemma safe_redeem_locked:
  assumes owner: "may_redeem who uid code s"
  shows "safe who (\<lambda>_ s'. name_spent code s') (redeem_locked lib skipRebate uid code) s"
proof -
  have failed: "safe who P (ignoring (IncrementRedeemAttemptCount uid) (Return (Inl e))) s" for P e s
    by (rule safe_ignoring [OF safe_attempts safe_fail])
  have last: "safe who (\<lambda>_ s'. name_spent code s')
      (if b then ignoring (tryAccrueAffiliateRebateForRedeem lib uid v) (repo_GetByID i) else repo_GetByID i) s1"
    if "name_spent code s1" for b v i s1
  proof -
    have get: "safe who (\<lambda>_ s'. name_spent code s') (repo_GetByID i) s2" if "pay_grows s1 s2" for s2
      unfolding repo_GetByID_def
      by (rule safe_ask) (meson \<open>name_spent code s1\<close> pay_grows_trans name_spent_grows that)
    show ?thesis using get pay_grows_refl by (auto intro: safe_ignoring [OF safe_rebate_for_redeem])
  qed
  have tail: "safe who (\<lambda>_ s'. name_spent code s') (attempt (get_user uid) (\<lambda>_.
           attempt (tx (redeem_tx lib uid c)) (\<lambda>_.
             if b then ignoring (tryAccrueAffiliateRebateForRedeem lib uid (rc_Value c)) (repo_GetByID (rc_ID c))
             else repo_GetByID (rc_ID c)))) s2"
    if c: "known_code c s1" "rc_Code c = code" and g1: "pay_grows s s1" and g2: "pay_grows s1 s2" for b c s1 s2
  proof (rule safe_attempt [OF safe_get_user], rule safe_attempt [OF safe_redeem_tx last])
    fix s3
    assume "pay_grows s2 s3"
    then have g: "pay_grows s1 s3" by (rule pay_grows_trans [OF g2])
    show "known_code c s3" using c(1) g by (rule known_code_grows)
    show "may_redeem who uid code s3" using owner may_redeem_grows [OF pay_grows_trans [OF g1 g]] by simp
  qed (rule c(2), assumption)
  show ?thesis
    unfolding redeem_locked_def Let_def
  proof (rule safe_bind [OF safe_GetByCode], rule safe_case, goal_cases)
    case (1 r s1 e)
    then show ?case by (intro safe_if failed safe_fail)
  next
    case (2 r s1 c)
    then have c: "known_code c s1" "rc_Code c = code" by simp_all
    show ?case by (rule safe_clock, intro safe_if failed safe_fail tail [OF c 2(2)])
  qed
qed

lemma safe_Redeem:
  assumes owner: "may_redeem who uid code s"
  shows "safe who (\<lambda>_ s'. name_spent code s') (Redeem lib skipRebate uid code) s"
proof -
  have locked: "safe who (\<lambda>_ s'. name_spent code s') (redeem_locked lib skipRebate uid code) s1" if "pay_grows s s1" for s1
    using owner may_redeem_grows [OF that] by (intro safe_redeem_locked) simp
  have release: "safe who (\<lambda>_ s'. name_spent code s') (ignoring (ReleaseRedeemLock code) (Return r)) s1"
    if "fine (\<lambda>_ s'. name_spent code s') r s1" for r s1
  proof (rule safe_ignoring [OF safe_release])
    fix s2
    assume g: "pay_grows s1 s2"
    show "safe who (\<lambda>_ s'. name_spent code s') (Return r) s2"
      using that by (cases r) (auto intro!: safe_fail safe_return intro: name_spent_grows pay_grows_trans [OF g])
  qed
  show ?thesis
    unfolding Redeem_def
  proof (rule safe_if)
    show "safe who (\<lambda>_ s'. name_spent code s') (redeem_locked lib skipRebate uid code) s" by (rule locked [OF pay_grows_refl])
    show "safe who (\<lambda>_ s'. name_spent code s') (bind (GetRedeemAttemptCount uid) (\<lambda>n.
        if (case n of Inl e \<Rightarrow> False | Inr k \<Rightarrow> k \<ge> 20) then Return (Inl ErrRedeemRateLimited)
        else bind (AcquireRedeemLock code (10 * second_ns)) (\<lambda>l.
          if l = Inr False then Return (Inl ErrRedeemCodeLocked)
          else bind (redeem_locked lib skipRebate uid code) (\<lambda>r. ignoring (ReleaseRedeemLock code) (Return r))))) s"
    proof (rule safe_bind [OF safe_count], intro safe_if safe_fail)
      fix s1
      assume g1: "pay_grows s s1"
      show "safe who (\<lambda>_ s'. name_spent code s') (bind (AcquireRedeemLock code (10 * second_ns)) (\<lambda>l.
          if l = Inr False then Return (Inl ErrRedeemCodeLocked)
          else bind (redeem_locked lib skipRebate uid code) (\<lambda>r. ignoring (ReleaseRedeemLock code) (Return r)))) s1"
        by (rule safe_bind [OF safe_acquire], intro safe_if safe_fail, rule safe_bind [OF locked release])
           (auto intro: pay_grows_trans [OF g1])
    qed
  qed
qed

section \<open>Orders\<close>

definition known_order :: "payment_order \<Rightarrow> pay_db \<Rightarrow> bool" where
  "known_order o' s \<longleftrightarrow> order_core o' \<in> set (map order_core (db_orders s))"

lemma known_order_grows: "known_order o' s \<Longrightarrow> pay_grows s s' \<Longrightarrow> known_order o' s'"
  unfolding known_order_def pay_grows_def by metis

lemma known_order_row:
  assumes "pay_ok who s" "known_order o' s" "p \<in> set (db_orders s)" "po_ID p = po_ID o' \<or> po_RechargeCode p = po_RechargeCode o'"
  shows "order_core p = order_core o'"
proof -
  obtain q where q: "q \<in> set (db_orders s)" "order_core q = order_core o'" using assms(2) by (auto simp: known_order_def)
  have "distinct (map po_ID (db_orders s))" "distinct (map po_RechargeCode (db_orders s))"
    using assms(1) by (simp_all add: pay_ok_def orders_ok_def)
  then have "p = q" using assms(3,4) q(1) order_coreD(1,4) [OF q(2)] by (metis distinct_map inj_onD)
  then show ?thesis using q(2) by simp
qed

lemma known_order_facts:
  assumes "pay_ok who s" "known_order o' s"
  shows "trim_space (po_RechargeCode o') = po_RechargeCode o'" "on_scale 8 (po_Amount o')"
    "may_redeem who (po_UserID o') (po_RechargeCode o') s"
    "fits_orders (po_RechargeCode o') RedeemTypeBalance (po_Amount o') s"
proof -
  obtain q where q: "q \<in> set (db_orders s)" "order_core q = order_core o'" using assms(2) by (auto simp: known_order_def)
  then show trim: "trim_space (po_RechargeCode o') = po_RechargeCode o'" and scale: "on_scale 8 (po_Amount o')"
    using assms(1) order_coreD [OF q(2)] by (auto simp: pay_ok_def orders_ok_def)
  have same: "po_UserID p = po_UserID o'" "po_Amount p = po_Amount o'"
    if "p \<in> set (db_orders s)" "po_RechargeCode p = po_RechargeCode o'" for p
    using order_coreD(2,3) [OF known_order_row [OF assms that(1)]] that(2) by simp_all
  show "may_redeem who (po_UserID o') (po_RechargeCode o') s" using same by (simp add: may_redeem_def)
  show "fits_orders (po_RechargeCode o') RedeemTypeBalance (po_Amount o') s" using same scale by (simp add: fits_orders_def)
qed

lemma safe_get_order: "safe who (\<lambda>o' s'. known_order o' s' \<and> po_ID o' = oid) (get_order oid) s"
  unfolding get_order_def
proof (rule safe_ask)
  fix t s' o' s''
  assume "(case find_order oid s' of None \<Rightarrow> Inl PayNotFound | Some o' \<Rightarrow> Inr o') = Inr o'" and g: "pay_grows s' s''"
  then have "find (\<lambda>p. po_ID p = oid) (db_orders s') = Some o'" by (simp add: find_order_def split: option.splits)
  then have "o' \<in> set (db_orders s')" "po_ID o' = oid" by (auto simp: find_Some_iff)
  then show "known_order o' s'' \<and> po_ID o' = oid" using known_order_grows [OF _ g] by (simp add: known_order_def)
qed

lemma safe_update_orders:
  assumes "\<And>s'. pay_ok who s' \<Longrightarrow> pay_grows s s' \<Longrightarrow> order_update guard change s'"
  shows "safe who (\<lambda>_ _. True) (tx (update_orders guard change)) s"
proof (rule safe_tx)
  fix t s'
  assume "pay_ok who s'" "pay_grows s s'"
  then have "pay_step who s' (snd (update_orders guard change t s'))" by (intro pay_step_orders assms)
  then show "pay_step who s' (snd (committed (update_orders guard change) t s'))" by (simp add: snd_committed split: sum.split)
qed simp

lemma update_not_completed:
  "(\<And>t p. order_core (change t p) = order_core p) \<Longrightarrow> (\<And>t p. po_Status (change t p) \<noteq> OrderStatusCompleted) \<Longrightarrow>
    (\<And>t p. guard t p \<Longrightarrow> order_progress p (change t p)) \<Longrightarrow> order_update guard change s"
  by (simp add: order_update_def)

section \<open>Fulfilling\<close>

lemma safe_lease: "safe who (\<lambda>_ _. True) (acquirePaymentFulfillmentLease oid) s"
proof -
  have update: "safe who (\<lambda>_ _. True) (tx (update_orders guard
      (\<lambda>t o'. o'\<lparr>po_Status := OrderStatusRecharging, po_FailedAt := None, po_FailedReason := None\<rparr>))) s"
    if "\<And>t p. guard t p \<Longrightarrow> po_Status p \<noteq> OrderStatusCompleted" for guard
    by (rule safe_update_orders, rule update_not_completed)
       (use that in \<open>simp_all add: order_core_def order_progress_def unpaid_def pay_strings\<close>)
  show ?thesis unfolding acquirePaymentFulfillmentLease_def
    by (rule safe_attempt, rule update, force simp: pay_strings, rule safe_attempt [OF safe_get_order]) (intro safe_if safe_done TrueI)
qed

lemma safe_markFailed: "safe who (\<lambda>_ _. True) (markFailed lib oid version cause) s"
proof -
  have update: "safe who (\<lambda>_ _. True) (tx (update_orders guard
      (\<lambda>t p. p\<lparr>po_Status := OrderStatusFailed, po_FailedAt := Some t, po_FailedReason := Some (pl_error_text lib cause)\<rparr>))) s"
    if "\<And>t p. guard t p \<Longrightarrow> po_Status p \<noteq> OrderStatusCompleted" for guard
    by (rule safe_update_orders, rule update_not_completed)
       (use that in \<open>simp_all add: order_core_def order_progress_def unpaid_def pay_strings\<close>)
  show ?thesis unfolding markFailed_def
    by (rule safe_bind, rule update, force simp: leased_def pay_strings, rule safe_case) (intro safe_if safe_audit safe_done TrueI)+
qed

lemma safe_markCompleted:
  assumes known: "known_order o' s" and spent: "po_OrderType o' \<noteq> ''subscription'' \<Longrightarrow> name_spent (po_RechargeCode o') s"
  shows "safe who (\<lambda>_ _. True) (markCompleted o' version action) s"
proof -
  have "safe who (\<lambda>_ _. True) (tx (update_orders (\<lambda>t. leased (po_ID o') version)
      (\<lambda>t p. p\<lparr>po_Status := OrderStatusCompleted, po_CompletedAt := Some t\<rparr>))) s"
  proof (rule safe_update_orders)
    fix s'
    assume s': "pay_ok who s'" "pay_grows s s'"
    have "code_spent p s'" if "p \<in> set (db_orders s')" "leased (po_ID o') version p" "po_OrderType p \<noteq> ''subscription''" for p
    proof -
      have core: "order_core p = order_core o'"
        using that(1,2) by (intro known_order_row [OF s'(1) known_order_grows [OF known s'(2)]]) (simp_all add: leased_def)
      then show ?thesis
        using that(3) name_spent_grows [OF spent s'(2)] order_coreD(4,5) [OF core] by (simp add: code_spent_name)
    qed
    then show "order_update (\<lambda>t. leased (po_ID o') version) (\<lambda>t p. p\<lparr>po_Status := OrderStatusCompleted, po_CompletedAt := Some t\<rparr>) s'"
      by (simp add: order_update_def order_core_def order_progress_def unpaid_def pay_strings)
  qed
  then show ?thesis unfolding markCompleted_def
    by (rule safe_attempt)
       (intro safe_if safe_bind [OF safe_get_order] safe_case safe_hasAudit safe_audit safe_done TrueI)
qed

lemma safe_applyRebate: "safe who (\<lambda>_ _. True) (applyAffiliateRebateForOrder lib o') s"
  unfolding applyAffiliateRebateForOrder_def
  by (intro safe_if safe_done TrueI)
     (auto split: option.split intro!: safe_done safe_bind [OF safe_keeping [OF keeping_affiliate_rebate TrueI]] safe_case safe_audit)

lemma safe_finish:
  assumes "known_order o' s" "po_OrderType o' \<noteq> ''subscription'' \<Longrightarrow> name_spent (po_RechargeCode o') s"
  shows "safe who (\<lambda>_ _. True) (attempt (applyAffiliateRebateForOrder lib o') (\<lambda>_. markCompleted o' version action)) s"
  by (rule safe_attempt [OF safe_applyRebate], rule safe_markCompleted)
     (use assms known_order_grows name_spent_grows in blast)+

lemma safe_doBalance:
  assumes known: "known_order o' s"
  shows "safe who (\<lambda>_ _. True) (doBalance lib o' version) s"
proof -
  have redeem: "safe who (\<lambda>_ _. True) (redeem_balance lib o' version) s1" if "pay_ok who s1" "pay_grows s s1" for s1
    unfolding redeem_balance_def finish_balance_def
  proof (rule safe_attempt [OF safe_Redeem])
    have here: "known_order o' s1" by (rule known_order_grows [OF known that(2)])
    show "may_redeem who (po_UserID o') (po_RechargeCode o') s1" by (rule known_order_facts(3) [OF that(1) here])
    show "safe who (\<lambda>_ _. True) (attempt (applyAffiliateRebateForOrder lib o') (\<lambda>_. markCompleted o' version ''RECHARGE_SUCCESS'')) s2"
      if "pay_grows s1 s2" "name_spent (po_RechargeCode o') s2" for s2
      by (rule safe_finish) (use known_order_grows [OF here that(1)] that(2) in simp_all)
  qed
  have create: "safe who (\<lambda>_ _. True) (CreateCode (plain_code (po_RechargeCode o') RedeemTypeBalance (po_Amount o'))) s1"
    if "pay_ok who s1" "pay_grows s s1" for s1
    using known_order_facts [OF that(1) known_order_grows [OF known that(2)]]
    by (intro safe_CreateCode) (simp_all add: plain_code_def pay_strings)
  show ?thesis
    unfolding doBalance_def
  proof (rule safe_bind [OF safe_GetByCode])
    fix r s1
    assume s1: "pay_ok who s1" "pay_grows s s1" and r: "fine (\<lambda>c s'. known_code c s' \<and> rc_Code c = po_RechargeCode o') r s1"
    show "safe who (\<lambda>_ _. True) (case resolveRedeemAction r of
         redeemActionSkipCompleted \<Rightarrow> finish_balance lib o' version
       | redeemActionCreate \<Rightarrow>
           attempt (CreateCode (plain_code (po_RechargeCode o') RedeemTypeBalance (po_Amount o')))
             (\<lambda>_. redeem_balance lib o' version)
       | redeemActionRedeem \<Rightarrow> redeem_balance lib o' version) s1"
    proof (cases "resolveRedeemAction r")
      case redeemActionSkipCompleted
      then obtain c where c: "r = Inr c" "rc_Status c = StatusUsed" by (auto simp: resolveRedeemAction_def split: sum.splits if_splits)
      then have "name_spent (po_RechargeCode o') s1" using r by (auto simp: known_code_def name_spent_def)
      then show ?thesis unfolding redeemActionSkipCompleted redeemAction.case finish_balance_def
        by (intro safe_finish known_order_grows [OF known s1(2)])
    next
      case redeemActionCreate
      then show ?thesis using create [OF s1] redeem pay_grows_trans [OF s1(2)] by (auto intro!: safe_attempt)
    qed (use redeem s1 in simp)
  qed
qed

lemma safe_caches: "safe who (\<lambda>_ _. True) invalidateSubscriptionCaches s"
  unfolding invalidateSubscriptionCaches_def by (rule safe_ask) simp

lemma safe_ask_any: "safe who (\<lambda>_ _. True) (ask g) s"
  by (rule safe_ask) simp

lemma safe_ensureAssigned: "safe who (\<lambda>_ _. True) (ensurePaymentSubscriptionAssigned lib o' gid days) s"
  unfolding ensurePaymentSubscriptionAssigned_def
  by (intro safe_if safe_fail safe_attempt [OF safe_ask_any] safe_caches
      safe_bind [OF safe_keeping [OF keeping_assign TrueI]] safe_case safe_bind [OF safe_ask_any])

lemma safe_doSub:
  assumes "known_order o' s" "po_OrderType o' = ''subscription''"
  shows "safe who (\<lambda>_ _. True) (doSub lib o' gid days version) s"
  unfolding doSub_def
proof (rule safe_bind [OF safe_ask_any], intro safe_if safe_fail, rule safe_attempt [OF safe_ensureAssigned])
  fix s1 s2
  assume "pay_grows s s1" "pay_grows s1 s2"
  then have "known_order o' s2" using known_order_grows assms(1) by blast
  then show "safe who (\<lambda>_ _. True) (attempt (applyAffiliateRebateForOrder lib o') (\<lambda>_. markCompleted o' version ''SUBSCRIPTION_SUCCESS'')) s2"
    by (rule safe_finish) (simp add: assms(2))
qed

lemma safe_under_lease:
  assumes "\<And>version s'. pay_grows s s' \<Longrightarrow> safe who (\<lambda>_ _. True) (work version) s'"
  shows "safe who (\<lambda>_ _. True) (under_lease lib oid work) s"
  unfolding under_lease_def
proof (rule safe_attempt [OF safe_lease])
  fix lease s1
  assume g: "pay_grows s s1"
  show "safe who (\<lambda>_ _. True) (case lease of None \<Rightarrow> Return (Inr ()) | Some version \<Rightarrow>
      bind (work version) (\<lambda>r. case r of Inl e \<Rightarrow> ignoring (markFailed lib oid version e) (Return (Inl e)) | Inr u \<Rightarrow> Return (Inr ()))) s1"
    by (cases lease) (simp_all add: safe_done safe_bind [OF assms [OF g]] safe_case safe_ignoring [OF safe_markFailed])
qed

lemma safe_ExecuteBalance: "safe who (\<lambda>_ _. True) (ExecuteBalanceFulfillment lib oid) s"
  unfolding ExecuteBalanceFulfillment_def
proof (rule safe_bind [OF safe_get_order], rule safe_case)
  fix r s1 o'
  assume "fine (\<lambda>o' s'. known_order o' s' \<and> po_ID o' = oid) r s1" "r = Inr o'"
  then have "known_order o' s1" by simp
  then have "safe who (\<lambda>_ _. True) (under_lease lib oid (doBalance lib o')) s1"
    by (intro safe_under_lease safe_doBalance) (rule known_order_grows)
  then show "safe who (\<lambda>_ _. True) (case fulfillable o' of Some res \<Rightarrow> Return res | None \<Rightarrow> under_lease lib oid (doBalance lib o')) s1"
    by (cases "fulfillable o'") (simp_all add: safe_done)
qed (rule safe_fail)

lemma safe_ExecuteSub:
  assumes "known_order q s" "po_ID q = oid" "po_OrderType q = ''subscription''"
  shows "safe who (\<lambda>_ _. True) (ExecuteSubscriptionFulfillment lib oid) s"
  unfolding ExecuteSubscriptionFulfillment_def
proof (rule safe_bind [OF safe_get_order], rule safe_case)
  fix r s1 o'
  assume s1: "pay_ok who s1" "pay_grows s s1" and "fine (\<lambda>o' s'. known_order o' s' \<and> po_ID o' = oid) r s1" "r = Inr o'"
  then have o': "known_order o' s1" "po_ID o' = oid" unfolding fine_simps by simp_all
  obtain p where p: "p \<in> set (db_orders s1)" "order_core p = order_core o'" using o'(1) by (auto simp: known_order_def)
  have "order_core p = order_core q"
    using o'(2) order_coreD(1) [OF p(2)] assms(2) by (intro known_order_row [OF s1(1) known_order_grows [OF assms(1) s1(2)] p(1)]) simp
  then have "po_OrderType o' = ''subscription''" using p(2) assms(3) order_coreD(5) by metis
  then have "safe who (\<lambda>_ _. True) (under_lease lib oid (doSub lib o' gid days)) s1" for gid days
    by (intro safe_under_lease safe_doSub known_order_grows [OF o'(1)])
  then show "safe who (\<lambda>_ _. True) (case fulfillable o' of Some res \<Rightarrow> Return res | None \<Rightarrow>
      (case (po_SubscriptionGroupID o', po_SubscriptionDays o') of
         (Some gid, Some days) \<Rightarrow> under_lease lib oid (doSub lib o' gid days)
       | _ \<Rightarrow> Return (Inl MissingSubscriptionInfo))) s1"
    by (auto split: option.split intro: safe_done)
qed (rule safe_fail)

lemma safe_executeFulfillment: "safe who (\<lambda>_ _. True) (executeFulfillment lib oid) s"
  unfolding executeFulfillment_def
  by (rule safe_attempt [OF safe_get_order]) (auto intro: safe_if safe_ExecuteSub safe_ExecuteBalance)

lemma safe_RetryFulfillment: "safe who (\<lambda>_ _. True) (RetryFulfillment lib oid) s"
  unfolding RetryFulfillment_def
  by (rule safe_bind [OF safe_get_order], rule safe_case) (intro safe_if safe_fail safe_audit safe_executeFulfillment)+

section \<open>Notifications\<close>

lemma safe_alreadyProcessed: "safe who (\<lambda>_ _. True) (alreadyProcessed lib oid) s"
  unfolding alreadyProcessed_def
  by (rule safe_bind [OF safe_get_order], rule safe_case) (intro safe_if safe_audit safe_executeFulfillment safe_done TrueI)+

lemma safe_toPaid: "safe who (\<lambda>_ _. True) (toPaid lib o' tradeNo paid pk) s"
proof -
  have update: "safe who (\<lambda>_ _. True) (tx (update_orders guard
      (\<lambda>t p. p\<lparr>po_Status := OrderStatusPaid, po_PayAmount := round_half_away 2 paid, po_PaymentTradeNo := tradeNo,
               po_PaidAt := Some t, po_FailedAt := None, po_FailedReason := None\<rparr>))) s"
    if "\<And>t p. guard t p \<Longrightarrow> po_Status p \<noteq> OrderStatusCompleted" for guard
    by (rule safe_update_orders, rule update_not_completed)
       (use that in \<open>simp_all add: order_core_def order_progress_def unpaid_def pay_strings\<close>)
  show ?thesis unfolding toPaid_def Let_def
    by (rule safe_attempt, rule update, force simp: pay_strings) (intro safe_if safe_alreadyProcessed safe_audit safe_executeFulfillment)
qed

lemma safe_instance: "safe who (\<lambda>_ _. True) (getOrderProviderInstance lib o') s"
  unfolding getOrderProviderInstance_def by (rule safe_ask_any)

lemma safe_confirmPayment: "safe who (\<lambda>_ _. True) (confirmPayment lib oid tradeNo paid pk metadata) s"
proof -
  have checked: "safe who (\<lambda>_ _. True) (case m of Some x \<Rightarrow> p x | None \<Rightarrow> q) s1"
    if "\<And>x. safe who (\<lambda>_ _. True) (p x) s1" "safe who (\<lambda>_ _. True) q s1" for m :: "string option" and p q s1
    using that by (cases m) simp_all
  show ?thesis unfolding confirmPayment_def Let_def
    by (rule safe_bind [OF safe_get_order], rule safe_case, rule safe_done, rule TrueI, rule safe_bind [OF safe_instance])
       (intro safe_if checked safe_audit safe_fail safe_toPaid)
qed

lemma safe_numbered: "safe who (\<lambda>_ _. True) (order_numbered outTradeNo) s"
  unfolding order_numbered_def by (rule safe_ask_any)

lemma safe_notification: "safe who (\<lambda>_ _. True) (HandlePaymentNotification lib n pk) s"
  unfolding HandlePaymentNotification_def
proof (intro safe_if safe_done TrueI, rule safe_bind [OF safe_numbered], rule safe_case)
  fix e s1
  show "safe who (\<lambda>_ _. True) (if e \<noteq> PayNotFound then Return (Inl e)
      else case parseLegacyPaymentOrderID (pn_OrderID n) of
        Some oid \<Rightarrow> confirmPayment lib oid (pn_TradeNo n) (pn_Amount n) pk (pn_Metadata n)
      | None \<Rightarrow> Return (Inl ErrOrderNotFound)) s1"
    by (cases "parseLegacyPaymentOrderID (pn_OrderID n)") (simp_all add: safe_fail safe_confirmPayment)
qed (rule safe_confirmPayment)

section \<open>Cancelling, expiring and verifying\<close>

text \<open>An update that leaves the status alone.\<close>

lemma safe_update_trade_no: "safe who (\<lambda>_ _. True) (tx (update_orders guard (\<lambda>t p. p\<lparr>po_PaymentTradeNo := x\<rparr>))) s"
proof (rule safe_tx)
  fix t s'
  assume ok: "pay_ok who s'"
  have "pay_step who s' (snd (update_orders guard (\<lambda>t p. p\<lparr>po_PaymentTradeNo := x\<rparr>) t s'))"
    by (rule pay_step_orders) (use ok in \<open>auto simp: order_update_def order_core_def order_progress_def unpaid_def pay_ok_def orders_ok_def\<close>)
  then show "pay_step who s' (snd (committed (update_orders guard (\<lambda>t p. p\<lparr>po_PaymentTradeNo := x\<rparr>)) t s'))"
    by (simp add: snd_committed split: sum.split)
qed simp

lemma safe_getOrderProvider: "safe who (\<lambda>_ _. True) (getOrderProvider lib gws o') s"
proof -
  have allowed: "safe who (\<lambda>_ _. True) (webhookRegistryFallbackAllowed key) s" for key s
    unfolding webhookRegistryFallbackAllowed_def Let_def
    by (intro safe_if safe_done TrueI safe_bind [OF safe_ask_any] safe_case)
  have "safe who (\<lambda>_ _. True) (case i of Some inst \<Rightarrow> Return (gws_instance gws inst) | None \<Rightarrow>
      if \<not> paymentOrderAllowsRegistryFallback o' then Return (Inl ProviderUnavailable)
      else if paymentOrderFallbackProviderKey lib o' = '''' then Return (Inl ProviderUnavailable)
      else attempt (webhookRegistryFallbackAllowed (paymentOrderFallbackProviderKey lib o')) (\<lambda>allowed.
        if \<not> allowed then Return (Inl ProviderUnavailable) else Return (gws_registry gws (po_PaymentType o')))) s1" for i s1
    by (cases i) (auto intro: safe_if safe_done safe_attempt [OF allowed])
  then show ?thesis unfolding getOrderProvider_def by (rule safe_attempt [OF safe_instance])
qed

lemma safe_confirm_paid: "safe who (\<lambda>_ _. True) (confirm_paid lib gw o' queryRef resp) s"
  unfolding confirm_paid_def Let_def
  by (intro safe_if safe_ignoring [OF safe_update_trade_no] safe_ignoring [OF safe_notification] safe_done TrueI)

lemma safe_checkPaid: "safe who (\<lambda>_ _. True) (checkPaidWithOptions lib gws cancelIfUnpaid o') s"
proof -
  have again: "safe who (\<lambda>_ _. True) (requeryPaidOrderOnce gw queryRef) s1" for gw queryRef s1
    unfolding requeryPaidOrderOnce_def by (intro safe_if safe_done safe_clock safe_case TrueI)
  have asked: "safe who (\<lambda>_ _. True) (case m of None \<Rightarrow> Return (Inr False) | Some resp \<Rightarrow> confirm_paid lib gw o' queryRef resp) s1"
    for m gw queryRef s1
    by (cases m) (simp_all add: safe_done safe_confirm_paid)
  show ?thesis unfolding checkPaidWithOptions_def Let_def
    by (rule safe_bind [OF safe_getOrderProvider], rule safe_case)
       (intro safe_if safe_done TrueI safe_clock safe_case safe_audit safe_attempt [OF again] asked safe_confirm_paid
         safe_ignoring [OF safe_ask_any])+
qed

lemma safe_cancelCore:
  assumes "fs \<noteq> OrderStatusCompleted"
  shows "safe who (\<lambda>_ _. True) (cancelCore lib gws o' fs op ad) s"
proof -
  have check: "safe who (\<lambda>_ _. True) (if b then checkPaid lib gws o' else Return (Inr False)) s1" for b s1
    unfolding checkPaid_def by (intro safe_if safe_checkPaid safe_done TrueI)
  have update: "safe who (\<lambda>_ _. True) (tx (update_orders guard (set_status fs))) s1"
    if "\<And>t p. guard t p \<Longrightarrow> po_Status p = OrderStatusPending" for guard s1
    by (rule safe_update_orders, rule update_not_completed)
       (use that assms in \<open>simp_all add: set_status_def order_core_def order_progress_def unpaid_def pay_strings\<close>)
  have cancel: "safe who (\<lambda>_ _. True) (attempt (tx (update_orders (\<lambda>t p. po_ID p = po_ID o' \<and> po_Status p = OrderStatusPending) (set_status fs)))
      (\<lambda>c. if c > 0 then writeAuditLog oid act op det (Return (Inr False)) else Return (Inr False))) s1" for oid act det s1
    by (rule safe_attempt [OF update]) (simp, intro safe_if safe_done TrueI safe_audit)
  show ?thesis unfolding cancelCore_def
    by (rule safe_attempt [OF check]) (intro safe_if safe_done TrueI cancel)
qed

lemma not_completed [simp]: "OrderStatusCancelled \<noteq> OrderStatusCompleted" "OrderStatusExpired \<noteq> OrderStatusCompleted"
  by (simp_all add: pay_strings)

lemma safe_CancelOrder: "safe who (\<lambda>_ _. True) (CancelOrder lib gws oid uid) s"
  unfolding CancelOrder_def
  by (rule safe_bind [OF safe_get_order], rule safe_case) (intro safe_if safe_fail safe_cancelCore not_completed)+

lemma safe_AdminCancelOrder: "safe who (\<lambda>_ _. True) (AdminCancelOrder lib gws oid) s"
  unfolding AdminCancelOrder_def
  by (rule safe_bind [OF safe_get_order], rule safe_case) (intro safe_if safe_fail safe_cancelCore not_completed)+

lemma safe_expire_all: "safe who (\<lambda>_ _. True) (expire_all lib gws n os) s"
  by (induction os arbitrary: n s) (auto intro!: safe_done safe_bind [OF safe_cancelCore])

lemma safe_Expire: "safe who (\<lambda>_ _. True) (ExpireTimedOutOrders lib gws) s"
  unfolding ExpireTimedOutOrders_def by (intro safe_clock safe_attempt [OF safe_ask_any] safe_expire_all)

lemma safe_reconcile_all: "safe who (\<lambda>_ _. True) (reconcile_all lib gws n os) s"
  by (induction os arbitrary: n s) (auto simp: reconcilePaid_def intro!: safe_done safe_bind [OF safe_checkPaid])

lemma safe_Reconcile: "safe who (\<lambda>_ _. True) (ReconcilePendingWxpayOrders lib gws) s"
  unfolding ReconcilePendingWxpayOrders_def by (intro safe_clock safe_attempt [OF safe_ask_any] safe_reconcile_all)

lemma safe_get_order_any: "safe who (\<lambda>_ _. True) (get_order oid) s"
  by (rule safe_weaken [OF safe_get_order]) simp

lemma safe_Verify: "safe who (\<lambda>_ _. True) (VerifyOrderByOutTradeNo lib gws raw uid) s"
  unfolding VerifyOrderByOutTradeNo_def reconcilePaid_def
  by (intro safe_case safe_fail safe_done TrueI safe_bind [OF safe_numbered] safe_if safe_attempt [OF safe_checkPaid] safe_get_order_any)

section \<open>Generated codes\<close>

lemma keeping_insert_codes:
  assumes "\<And>c. c \<in> set cs \<Longrightarrow> rc_Status c \<noteq> StatusUsed \<and> fits_orders (rc_Code c) (rc_Type c) (rc_Value c) s"
    and "fst (insert_codes cs t s) = Inr x"
  shows "pay_step who s (snd (insert_codes cs t s))"
  using assms
proof (induction cs arbitrary: s)
  case (Cons c cs)
  obtain r s1 where r: "insert_code c t s = (r, s1)" by (cases "insert_code c t s")
  obtain row where row: "r = Inr row" using Cons.prems(2) r by (cases r) (auto simp: tx_then_def)
  have "pay_step who s (snd (committed (insert_code c) t s))" using Cons.prems(1) by (intro pay_step_insert) simp_all
  then have first: "pay_step who s s1" by (simp add: snd_committed r row)
  have orders: "db_orders s1 = db_orders s" using r row by (auto simp: insert_code_def Let_def split: if_splits)
  have "pay_step who s1 (snd (insert_codes cs t s1))"
    by (rule Cons.IH) (use Cons.prems r row orders in \<open>auto simp: tx_then_def fits_orders_def\<close>)
  then show ?case using pay_step_trans [OF first] r row by (simp add: tx_then_def)
qed (simp add: tx_return_def)

lemma safe_GenerateCodes:
  assumes "\<forall>name\<in>set fresh. name \<notin> po_RechargeCode ` set (db_orders s)"
  shows "safe who (\<lambda>_ _. True) (GenerateCodes fresh n val ty) s"
proof -
  have insert: "safe who (\<lambda>_ _. True) (tx (insert_codes (map (\<lambda>code. plain_code code ty' v) (take k fresh)))) s1"
    if s1: "pay_grows s s1" for ty' v k s1
  proof (rule safe_tx)
    fix t s'
    assume "pay_grows s1 s'"
    then have g: "pay_grows s s'" by (rule pay_grows_trans [OF s1])
    have "fits_orders name ty' v s" if "name \<in> set fresh" for name
      using assms that by (force simp: fits_orders_def)
    then have "fits_orders name ty' v s'" if "name \<in> set (take k fresh)" for name
      using that fits_orders_grows [OF g] by (meson in_set_takeD)
    then have "rc_Status c \<noteq> StatusUsed \<and> fits_orders (rc_Code c) (rc_Type c) (rc_Value c) s'"
      if "c \<in> set (map (\<lambda>code. plain_code code ty' v) (take k fresh))" for c
      using that by (auto simp: plain_code_def pay_strings)
    then show "pay_step who s' (snd (committed (insert_codes (map (\<lambda>code. plain_code code ty' v) (take k fresh))) t s'))"
      unfolding snd_committed by (auto split: sum.split intro: keeping_insert_codes)
  qed simp
  show ?thesis unfolding GenerateCodes_def Let_def
    by (intro safe_if safe_fail safe_attempt [OF insert] safe_done TrueI pay_grows_refl)
qed

section \<open>The system\<close>

text \<open>The operation, without its answer.\<close>

definition silently :: "'a pay_op \<Rightarrow> unit pay_op" where
  "silently p = attempt p (\<lambda>_. Return (Inr ()))"

text \<open>
  What may be started, and when: any notification, retry, cancellation, check and expiry; any redemption
  that \<open>who\<close> admits, given the user and the code (with \<open>\<lambda>_ _. True\<close>, all of them); new codes, not used
  and not named like an order's.  Not among them: refunds, the administrator's changes to codes
  (\<open>BatchUpdate\<close>, \<open>DeleteCode\<close>, \<open>ExpireCode\<close>), the creation of orders, and what else moves balances.
\<close>

inductive pay_starts :: "(int \<Rightarrow> string \<Rightarrow> bool) \<Rightarrow> pay_lib \<Rightarrow> gateways \<Rightarrow> unit pay_op \<Rightarrow> pay_db \<Rightarrow> bool"
  for who lib gws where
  notify: "pay_starts who lib gws (HandlePaymentNotification lib n pk) s"
| retry: "pay_starts who lib gws (RetryFulfillment lib oid) s"
| cancel: "pay_starts who lib gws (silently (CancelOrder lib gws oid uid)) s"
| admin_cancel: "pay_starts who lib gws (silently (AdminCancelOrder lib gws oid)) s"
| verify: "pay_starts who lib gws (silently (VerifyOrderByOutTradeNo lib gws raw uid)) s"
| reconcile: "pay_starts who lib gws (silently (ReconcilePendingWxpayOrders lib gws)) s"
| expire: "pay_starts who lib gws (silently (ExpireTimedOutOrders lib gws)) s"
| redeem: "who uid code \<Longrightarrow> pay_starts who lib gws (silently (Redeem lib skip uid code)) s"
| create: "rc_Status c \<noteq> StatusUsed \<Longrightarrow> trim_space (rc_Code c) \<notin> po_RechargeCode ` set (db_orders s) \<Longrightarrow>
    pay_starts who lib gws (silently (CreateCode c)) s"
| generate: "\<forall>name\<in>set fresh. name \<notin> po_RechargeCode ` set (db_orders s) \<Longrightarrow>
    pay_starts who lib gws (silently (GenerateCodes fresh n val ty)) s"

inductive_cases pay_startsE: "pay_starts who lib gws p s"

lemma safe_silently: "safe who P p s \<Longrightarrow> safe who (\<lambda>_ _. True) (silently p) s"
  unfolding silently_def by (rule safe_attempt, assumption, rule safe_done, rule TrueI)

lemma safe_started: "pay_starts who lib gws p s \<Longrightarrow> safe who (\<lambda>_ _. True) p s"
proof (induction rule: pay_starts.induct)
  case (create c s)
  then have "fits_orders (trim_space (rc_Code c)) ty v s" for ty v by (force simp: fits_orders_def)
  then show ?case using create by (intro safe_silently [OF safe_CreateCode])
next
  case (redeem uid code skip s)
  then show ?case by (intro safe_silently [OF safe_Redeem]) (simp add: may_redeem_def)
qed (rule safe_notification safe_RetryFulfillment safe_silently [OF safe_CancelOrder] safe_silently [OF safe_AdminCancelOrder]
    safe_silently [OF safe_Verify] safe_silently [OF safe_Reconcile] safe_silently [OF safe_Expire]
    safe_silently [OF safe_GenerateCodes]; assumption?)+

lemma pay_system:
  assumes "sys_reach (pay_starts who lib gws) s s'" "pay_ok who s"
  shows "pay_ok who s' \<and> pay_grows s s'"
proof (rule pay.keep_reached [OF _ assms])
  fix p :: "unit pay_op" and s1
  assume "pay_starts who lib gws p s1"
  then have "safe who (\<lambda>_ _. True) p s1" by (rule safe_started)
  then show "keeps (pay_ok who) pay_grows (\<lambda>_ _. True) p s1" unfolding safe_def by (rule pay.keep_weaken) simp
qed

end
