(* ===== verification/PaymentProperties.thy ===== *)
theory PaymentProperties
  imports PaymentSystem
begin

text \<open>
  What the system of recharges guarantees, with a run of a notification as the example.
\<close>

section \<open>Runs of one operation\<close>

text \<open>Environments in which every call works, one reading of the clock after the other.\<close>

definition working :: "go_time list \<Rightarrow> ((pay_db \<Rightarrow> pay_db) \<times> call_env) list" where
  "working ts = map (\<lambda>t. (\<lambda>s. s, \<lparr>ce_now = t, ce_fault = Works\<rparr>)) ts"

lemma run_steps:
  assumes "\<forall>x\<in>set es. fst x = (\<lambda>s. s)" "run es p s = (r, s')"
  shows "\<exists>p'. (sys_step starts)\<^sup>*\<^sup>* (s, [p]) (s', [p'])"
  using assms
proof (induction es p s arbitrary: r s' rule: run.induct)
  case (3 g e es f s)
  obtain s1 p1 where step: "f e (g s) = (s1, p1)" by (cases "f e (g s)")
  have "g = (\<lambda>s. s)" using 3(2) by simp
  then have "sys_step starts (s, [Call f]) (s1, [p1])"
    using sys_step.act [of 0 "[Call f]" f e s s1 p1 starts] step by simp
  moreover obtain p' where "(sys_step starts)\<^sup>*\<^sup>* (s1, [p1]) (s', [p'])"
    using 3(1) [OF step [symmetric], of r s'] 3(2,3) step by auto
  ultimately show ?case by (meson converse_rtranclp_into_rtranclp)
qed auto

lemma run_reach:
  assumes "starts p s" "\<forall>x\<in>set es. fst x = (\<lambda>s. s)"
  shows "sys_reach starts s (snd (run es p s))"
proof -
  obtain p' where "(sys_step starts)\<^sup>*\<^sup>* (s, [p]) (snd (run es p s), [p'])"
    using run_steps [OF assms(2), of p s _ "snd (run es p s)"] prod.collapse by metis
  moreover have "sys_step starts (s, []) (s, [p])"
    using sys_step.start [where ps = "[]" and starts = starts and p = p and s = s] assms(1) by simp
  ultimately show ?thesis unfolding sys_reach_def by (meson converse_rtranclp_into_rtranclp)
qed

lemma filter_distinct_key: "distinct (map k xs) \<Longrightarrow> x \<in> set xs \<Longrightarrow> filter (\<lambda>y. k y = k x) xs = [x]"
  by (induction xs) (auto simp: filter_empty_conv image_iff)

section \<open>An example\<close>

definition pay_sample_lib :: pay_lib where
  "pay_sample_lib = \<lparr>pl_add_days = (\<lambda>t n. t + n * 24 * hour_ns), pl_start_of_day = (\<lambda>t. t - t mod (24 * hour_ns)),
     pl_error_text = (\<lambda>e. ''''), pl_upper = (\<lambda>x. x), pl_equal_fold = (=), pl_provider_key = (\<lambda>x. x),
     pl_redeem_cache = True, pl_subscriptions = True, pl_affiliate = None, pl_aff_code = ''AAAA'',
     pl_redeem_note = (\<lambda>x. x), pl_reduce_note = (\<lambda>x n. x)\<rparr>"

definition pay_sample_order :: payment_order where
  "pay_sample_order = \<lparr>po_ID = 1, po_UserID = 7, po_Amount = 10, po_PayAmount = 10, po_RechargeCode = ''PAY-1'',
     po_OutTradeNo = ''T1'', po_PaymentType = ''alipay'', po_PaymentTradeNo = '''', po_OrderType = ''balance'',
     po_SubscriptionGroupID = None, po_SubscriptionDays = None, po_ProviderInstanceID = None, po_ProviderKey = None,
     po_ProviderSnapshot = [], po_Status = OrderStatusPending, po_RefundAmount = 0, po_RefundReason = None,
     po_RefundAt = None, po_ForceRefund = False, po_RefundRequestedAt = None, po_RefundRequestReason = None,
     po_RefundRequestedBy = None, po_ExpiresAt = 1000, po_PaidAt = None, po_CompletedAt = None, po_FailedAt = None,
     po_FailedReason = None, po_UpdatedAt = 0\<rparr>"

definition pay_sample_db :: pay_db where
  "pay_sample_db = \<lparr>db_orders = [pay_sample_order], db_audit = [], db_codes = [], db_next_code = 1,
     db_users = [7 \<mapsto> \<lparr>py_Balance = 3, py_TotalRecharged = 0, py_Concurrency = 5, py_Deleted = False\<rparr>],
     db_groups = (\<lambda>_. None), db_subs = [], db_next_sub = 1, db_affiliates = (\<lambda>_. None), db_aff_codes = [], db_ledger = [],
     db_instances = [], db_locks = (\<lambda>_. None), db_attempts = (\<lambda>_. None)\<rparr>"

definition pay_sample_notification :: payment_notification where
  "pay_sample_notification = \<lparr>pn_TradeNo = ''N1'', pn_OrderID = ''T1'', pn_Amount = 10, pn_Status = ''success'', pn_Metadata = []\<rparr>"

definition pay_sample_run :: "unit pay_op \<Rightarrow> pay_db" where
  "pay_sample_run p = snd (run (working [1..40]) p pay_sample_db)"

definition notified :: pay_db where
  "notified = pay_sample_run (HandlePaymentNotification pay_sample_lib pay_sample_notification ''alipay'')"

lemma pay_sample_ok: "pay_ok who pay_sample_db"
proof -
  have "trim_space ''PAY-1'' = ''PAY-1''" by code_simp
  then show ?thesis
    by (simp add: pay_ok_def orders_ok_def codes_ok_def users_ok_def rebates_ok_def rebates_of_def pay_sample_db_def
        pay_sample_order_def pay_strings sample_amount)
qed

lemma notified_orders: "map po_Status (db_orders notified) = [OrderStatusCompleted]"
  by code_simp

lemma notified_reached: "sys_reach (pay_starts who pay_sample_lib gws) pay_sample_db notified"
  unfolding notified_def pay_sample_run_def
  by (rule run_reach) (auto simp: working_def intro: pay_starts.notify)

section \<open>What is guaranteed\<close>

text \<open>C4 (recharges_credited_exactly): whatever notifications, retries, cancellations, checks, expiries,
  redemptions and creations of codes run side by side, cut at their transactions, with calls that fail or
  whose answer is lost and operations that crash, the recharged total of every user grows by exactly the
  positive values of the balance codes that became used by that user (\<open>credits\<close>), and so does the balance,
  if the user redeemed no code of negative value.  With such codes (\<open>debits\<close>) the balance grows by at least
  the credits less the debits, and is never more than the credits above what it was (or above zero, to
  which a debit raises a negative balance).  The tables are consistent at the start (\<open>pay_ok\<close>): unique
  identifiers and codes, amounts with eight decimals, a code named like an order's worth its amount, a
  completed order's code used.  Refunds, the creation of orders, of codes named like an order's, \<open>BatchUpdate\<close>,
  \<open>ExpireCode\<close> and deletion of codes, and other changes to balances (charges, transfers,
  administration) are not among the operations (\<open>pay_starts\<close>).\<close>

theorem recharges_credited_exactly:
  assumes "pay_ok who s" "sys_reach (pay_starts who lib gws) s s'" "db_users s uid = Some u"
    and "credits = recharged uid s' - recharged uid s" "debits = debited uid s' - debited uid s"
  shows "\<exists>u'. db_users s' uid = Some u'
    \<and> py_TotalRecharged u' = py_TotalRecharged u + credits
    \<and> (debits = 0 \<longrightarrow> py_Balance u' = py_Balance u + credits)
    \<and> py_Balance u + credits - debits \<le> py_Balance u' \<and> py_Balance u' \<le> max 0 (py_Balance u) + credits
    \<and> 0 \<le> credits \<and> 0 \<le> debits"
proof -
  have "users_grow s s'" using pay_system [OF assms(2,1)] by (simp add: pay_grows_def)
  then obtain u' where "db_users s' uid = Some u'" "credited_exactly s s' uid u u'"
    using assms(3) unfolding users_grow_def by (auto split: option.splits dest!: spec [of _ uid])
  then show ?thesis unfolding assms(4,5) by (auto simp: credited_exactly_def algebra_simps)
qed

theorem recharges_credited_exactly_witness:
  "\<exists>u'. db_users notified 7 = Some u' \<and> py_TotalRecharged u' = 10 \<and> py_Balance u' = 13"
proof -
  have u: "db_users pay_sample_db 7 = Some \<lparr>py_Balance = 3, py_TotalRecharged = 0, py_Concurrency = 5, py_Deleted = False\<rparr>"
    by (simp add: pay_sample_db_def)
  have "recharged 7 notified = 10" "recharged 7 pay_sample_db = 0" "debited 7 notified = 0" "debited 7 pay_sample_db = 0"
    by code_simp+
  then show ?thesis
    using recharges_credited_exactly [OF pay_sample_ok notified_reached u refl refl] by auto
qed

text \<open>C5 (completed_order_credited_once): under the same interleavings and failures, a completed balance
  order has exactly one code of its name; it is used, a balance code, and worth the amount of the order.
  It was used by the user of the order, or by another user who redeemed that very code (\<open>who\<close>): the code
  names no owner, so the program does not exclude the latter.  If nobody but the order's user redeems it,
  it is that user who has been credited.  The start is consistent and the operations are those of C4, so
  without \<open>BatchUpdate\<close>, \<open>ExpireCode\<close>, deletion of codes, refunds and the creation of orders.\<close>

theorem completed_order_credited_once:
  assumes "pay_ok who s" "sys_reach (pay_starts who lib gws) s s'"
    and "o' \<in> set (db_orders s')" "po_Status o' = OrderStatusCompleted" "po_OrderType o' \<noteq> ''subscription''"
  shows "\<exists>c v. filter (\<lambda>c. rc_Code c = po_RechargeCode o') (db_codes s') = [c]
    \<and> redeemed_by v c \<and> rc_Type c = RedeemTypeBalance \<and> rc_Value c = po_Amount o'
    \<and> (v = po_UserID o' \<or> who v (po_RechargeCode o'))"
proof -
  have ok: "orders_ok s'" "codes_ok who s'" using pay_system [OF assms(2,1)] by (simp_all add: pay_ok_def)
  then have "code_spent o' s'" using assms(3-5) by (simp add: orders_ok_def)
  then obtain c where c: "c \<in> set (db_codes s')" "rc_Code c = po_RechargeCode o'" "rc_Status c = StatusUsed"
    by (auto simp: code_spent_def)
  have "filter (\<lambda>d. rc_Code d = rc_Code c) (db_codes s') = [c]"
    using ok(2) c(1) by (intro filter_distinct_key) (simp_all add: codes_ok_def)
  moreover have "code_matches who o' c" using ok(2) c(1) assms(3) by (simp add: codes_ok_def)
  ultimately show ?thesis using c by (auto simp: code_matches_def redeemed_by_def)
qed

text \<open>Nobody but user 7, whose order it is, redeems the code of the example.\<close>

theorem completed_order_credited_once_witness:
  "\<exists>c. filter (\<lambda>c. rc_Code c = ''PAY-1'') (db_codes notified) = [c]
    \<and> redeemed_by 7 c \<and> rc_Type c = RedeemTypeBalance \<and> rc_Value c = 10"
proof -
  define o' where "o' = hd (db_orders notified)"
  have "db_orders notified \<noteq> []" "po_Status (hd (db_orders notified)) = OrderStatusCompleted"
    "po_OrderType (hd (db_orders notified)) \<noteq> ''subscription''" "po_RechargeCode (hd (db_orders notified)) = ''PAY-1''"
    "po_UserID (hd (db_orders notified)) = 7" "po_Amount (hd (db_orders notified)) = 10"
    by code_simp+
  then show ?thesis
    using completed_order_credited_once [OF pay_sample_ok [where who = "\<lambda>uid code. code = ''PAY-1'' \<longrightarrow> uid = 7"]
        notified_reached, of o'] by (auto simp: o'_def)
qed

text \<open>
  Without that condition the payer may get nothing.  The order of the example is paid and its code has
  been created by a fulfilment that crashed before it redeemed it; user 9 redeems the code.  The next
  fulfilment finds a used code and completes the order: user 7 has paid 10 and been credited nothing.
\<close>

definition half_fulfilled :: pay_db where
  "half_fulfilled = pay_sample_db\<lparr>
     db_orders := [pay_sample_order\<lparr>po_Status := OrderStatusFailed, po_PaidAt := Some 1\<rparr>],
     db_codes := [\<lparr>rc_ID = 1, rc_Code = ''PAY-1'', rc_Type = RedeemTypeBalance, rc_Value = 10,
       rc_Status = StatusUnused, rc_UsedBy = None, rc_UsedAt = None, rc_Notes = [],
       rc_ExpiresAt = None, rc_GroupID = None, rc_ValidityDays = 0\<rparr>],
     db_next_code := 2,
     db_users := (db_users pay_sample_db)(9 \<mapsto> \<lparr>py_Balance = 0, py_TotalRecharged = 0, py_Concurrency = 5, py_Deleted = False\<rparr>)\<rparr>"

definition taken_by_other :: pay_db where
  "taken_by_other = snd (run (working [61..90]) (RetryFulfillment pay_sample_lib 1)
     (snd (run (working [1..60]) (silently (Redeem pay_sample_lib False 9 ''PAY-1'')) half_fulfilled)))"

lemma order_code_has_no_owner:
  "map po_Status (db_orders taken_by_other) = [OrderStatusCompleted]
   \<and> map_option py_Balance (db_users taken_by_other 7) = Some 3
   \<and> map_option py_TotalRecharged (db_users taken_by_other 7) = Some 0
   \<and> map_option py_Balance (db_users taken_by_other 9) = Some 10"
  by code_simp

text \<open>C6 (paid_orders_stay_paid): under the same interleavings and failures, the orders stay the same orders
  (user, amount, recharge code and type), one that has left the statuses pending, cancelled and expired never
  returns to them, and a completed one stays completed: a payment wins over a concurrent cancellation or
  expiry.  The start is consistent and the operations are those of C4; refunds, which do move completed
  orders on, are not among them.\<close>

theorem paid_orders_stay_paid:
  assumes "pay_ok who s" "sys_reach (pay_starts who lib gws) s s'" "i < length (db_orders s)"
  shows "i < length (db_orders s') \<and> order_core (db_orders s' ! i) = order_core (db_orders s ! i)
    \<and> (unpaid (db_orders s' ! i) \<longrightarrow> unpaid (db_orders s ! i))
    \<and> (po_Status (db_orders s ! i) = OrderStatusCompleted \<longrightarrow> po_Status (db_orders s' ! i) = OrderStatusCompleted)"
proof -
  have g: "map order_core (db_orders s') = map order_core (db_orders s)" "list_all2 order_progress (db_orders s) (db_orders s')"
    using pay_system [OF assms(2,1)] by (simp_all add: pay_grows_def)
  then have len: "length (db_orders s') = length (db_orders s)" by (metis length_map)
  moreover have "order_core (db_orders s' ! i) = order_core (db_orders s ! i)" using g(1) assms(3) len by (metis nth_map)
  moreover have "order_progress (db_orders s ! i) (db_orders s' ! i)" using g(2) assms(3) by (rule list_all2_nthD)
  ultimately show ?thesis using assms(3) by (simp add: order_progress_def)
qed

text \<open>The notification of the example, then a cancellation by the user.\<close>

definition pay_sample_gateways :: gateways where
  "pay_sample_gateways = \<lparr>gws_instance = (\<lambda>i. Inl ProviderUnavailable), gws_registry = (\<lambda>t. Inl ProviderUnavailable)\<rparr>"

definition cancelled_late :: pay_db where
  "cancelled_late = snd (run (working [50..90]) (silently (CancelOrder pay_sample_lib pay_sample_gateways 1 7)) notified)"

theorem paid_orders_stay_paid_witness:
  "po_Status (db_orders cancelled_late ! 0) = OrderStatusCompleted \<and> order_core (db_orders cancelled_late ! 0) = order_core pay_sample_order"
proof -
  have start: "pay_starts who pay_sample_lib pay_sample_gateways (silently (CancelOrder pay_sample_lib pay_sample_gateways 1 7)) notified"
    by (rule pay_starts.cancel)
  have reach: "sys_reach (pay_starts who pay_sample_lib pay_sample_gateways) notified cancelled_late"
    unfolding cancelled_late_def by (rule run_reach, rule start) (auto simp: working_def)
  have ok: "pay_ok who notified" using pay_system [OF notified_reached pay_sample_ok] by blast
  have "0 < length (db_orders notified)" "po_Status (db_orders notified ! 0) = OrderStatusCompleted"
    "order_core (db_orders notified ! 0) = order_core pay_sample_order"
    by code_simp+
  then show ?thesis using paid_orders_stay_paid [OF ok reach, of 0] by simp
qed

text \<open>C7 (rebate_once_per_order): under the same interleavings and failures, the ledger never holds more
  than one rebate for the same order, however often and by how many workers the order is fulfilled.\<close>

theorem rebate_once_per_order:
  assumes "pay_ok who s" "sys_reach (pay_starts who lib gws) s s'"
  shows "length (filter (\<lambda>e. ae_SourceOrderID e = Some oid) (db_ledger s')) \<le> 1"
proof -
  have "rebates_ok s'" using pay_system [OF assms(2,1)] by (simp add: pay_ok_def)
  then show ?thesis by (cases "rebates_of oid s' = []") (auto simp: rebates_ok_def rebates_of_def)
qed

text \<open>The order of the example belongs to a user who was invited by user 8; a first fulfilment has booked the
  rebate and crashed, and the order is fulfilled once more.\<close>

definition invited_lib :: pay_lib where
  "invited_lib = pay_sample_lib\<lparr>pl_affiliate := Some \<lparr>ac_Enabled = True, ac_RatePercent = 10, ac_DurationDays = 0,
     ac_PerInviteeCap = 0, ac_FreezeHours = 0\<rparr>\<rparr>"

definition invited_db :: pay_db where
  "invited_db = pay_sample_db\<lparr>db_orders := [pay_sample_order\<lparr>po_Status := OrderStatusPaid, po_PaidAt := Some 1\<rparr>],
     db_affiliates := [7 \<mapsto> \<lparr>af_Code = ''A'', af_RatePercent = None, af_InviterID = Some 8, af_Quota = 0,
       af_FrozenQuota = 0, af_HistoryQuota = 0, af_CreatedAt = 0\<rparr>,
       8 \<mapsto> \<lparr>af_Code = ''B'', af_RatePercent = None, af_InviterID = None, af_Quota = 1, af_FrozenQuota = 0,
         af_HistoryQuota = 1, af_CreatedAt = 0\<rparr>],
     db_ledger := [\<lparr>ae_UserID = 8, ae_Amount = 1, ae_SourceUserID = 7, ae_SourceOrderID = Some 1, ae_FrozenUntil = None\<rparr>],
     db_audit := [\<lparr>al_OrderID = itoa 1, al_Action = ''AFFILIATE_REBATE_APPLIED'', al_Detail = [], al_Operator = ''system'',
       al_CreatedAt = 1\<rparr>]\<rparr>"

definition rebated :: pay_db where
  "rebated = snd (run (working [1..60]) (RetryFulfillment invited_lib 1) invited_db)"

lemma invited_ok: "pay_ok who invited_db"
proof -
  have "trim_space ''PAY-1'' = ''PAY-1''" by code_simp
  then show ?thesis
    by (simp add: pay_ok_def orders_ok_def codes_ok_def users_ok_def rebates_ok_def rebates_of_def rebate_claimed_def
        audited_def pay_sample_db_def invited_db_def pay_sample_order_def pay_strings sample_amount)
qed

theorem rebate_once_per_order_witness:
  "length (filter (\<lambda>e. ae_SourceOrderID e = Some 1) (db_ledger rebated)) \<le> 1
   \<and> db_ledger rebated \<noteq> [] \<and> map po_Status (db_orders rebated) = [OrderStatusCompleted]"
proof (intro conjI)
  have reach: "sys_reach (pay_starts who invited_lib pay_sample_gateways) invited_db rebated"
    unfolding rebated_def by (rule run_reach, rule pay_starts.retry) (auto simp: working_def)
  show "length (filter (\<lambda>e. ae_SourceOrderID e = Some 1) (db_ledger rebated)) \<le> 1"
    by (rule rebate_once_per_order [OF invited_ok reach])
  show "db_ledger rebated \<noteq> []" "map po_Status (db_orders rebated) = [OrderStatusCompleted]" by code_simp+
qed

end
