(* ===== verification/PaymentRefusals.thy ===== *)
theory PaymentRefusals
  imports PaymentProperties
begin

text \<open>
  Notifications that must not be honoured, and three places where the handling of errors and races lets
  something through: a notification whose order cannot be read for a moment is acknowledged, a batch update
  that overlaps a redemption makes the code unused again, and an amount in a currency of three decimals is
  stored with two.
\<close>

section \<open>Operations that leave the money alone\<close>

locale payment_database = shared_database G for G :: "pay_db \<Rightarrow> pay_db \<Rightarrow> bool" +
  assumes audit_only: "G s (s\<lparr>db_audit := ls\<rparr>)"
begin

lemma asked:
  assumes "\<And>t s' s''. G s s' \<Longrightarrow> G s' s'' \<Longrightarrow> Q (g t s') s''" "\<And>s'. G s s' \<Longrightarrow> Q (Inl DbFailed) s'"
  shows "honours G Q (ask g) s"
  unfolding ask_def tx_def
proof (rule bind)
  have id: "committed (\<lambda>t s. (g t s, s)) = (\<lambda>t s. (g t s, s))" by (auto simp: committed_def fun_eq_iff split: sum.split)
  show "honours G (\<lambda>r s'. \<forall>s''. G s' s'' \<longrightarrow> Q (case r of None \<Rightarrow> Inl DbFailed | Some x \<Rightarrow> x) s'') (call (committed (\<lambda>t s. (g t s, s)))) s"
    unfolding id by (rule call) (auto simp: stays intro: assms goes_on)
  show "honours G Q (Return (case r of None \<Rightarrow> Inl DbFailed | Some x \<Rightarrow> x)) s'"
    if "\<forall>s''. G s' s'' \<longrightarrow> Q (case r of None \<Rightarrow> Inl DbFailed | Some x \<Rightarrow> x) s''" for r s'
    using that by (intro return) simp
qed

lemma branch:
  "(\<And>e. r = Inl e \<Longrightarrow> honours G Q (f e) s) \<Longrightarrow> (\<And>x. r = Inr x \<Longrightarrow> honours G Q (g x) s) \<Longrightarrow>
    honours G Q (case r of Inl e \<Rightarrow> f e | Inr x \<Rightarrow> g x) s"
  by (cases r) simp_all

lemma audit: "(\<And>s'. G s s' \<Longrightarrow> honours G Q p s') \<Longrightarrow> honours G Q (writeAuditLog oid action operator detail p) s"
  unfolding writeAuditLog_def ignoring_def tx_def
proof (rule bind [where Q = "\<lambda>_ _. True"], rule bind [where Q = "\<lambda>_ _. True"])
  show "honours G (\<lambda>_ _. True) (call (committed (insert_audit oid action operator detail))) s"
    by (rule call) (auto simp: committed_def insert_audit_def stays audit_only)
qed (auto intro: return)

end

definition money_still :: "pay_db \<Rightarrow> pay_db \<Rightarrow> bool" where
  "money_still s s' \<longleftrightarrow> db_orders s' = db_orders s \<and> db_codes s' = db_codes s \<and> db_users s' = db_users s \<and> db_subs s' = db_subs s"

interpretation still: payment_database money_still
  by unfold_locales (simp_all add: money_still_def)

definition amount_refused :: "pay_lib \<Rightarrow> payment_order \<Rightarrow> decimal \<Rightarrow> bool" where
  "amount_refused lib o' paid \<longleftrightarrow>
     paid \<le> 0 \<or> paymentAmountToleranceForCurrency lib (PaymentOrderCurrency lib o') < \<bar>f64 (f64 paid - f64 (po_PayAmount o'))\<bar>"

lemma still_confirm:
  assumes "find_order oid s = Some o'" "amount_refused lib o' paid"
  shows "honours money_still (\<lambda>_ _. True) (confirmPayment lib oid tradeNo paid pk metadata) s"
proof -
  have "honours money_still (\<lambda>r _. \<forall>x. r = Inr x \<longrightarrow> x = o') (get_order oid) s"
    unfolding get_order_def by (rule still.asked) (use assms(1) in \<open>auto simp: money_still_def find_order_def split: option.splits\<close>)
  then show ?thesis unfolding confirmPayment_def
  proof (rule still.bind, goal_cases)
    case (1 r s1)
    have refused: "\<not> isValidProviderAmount paid
        \<or> \<bar>f64 (f64 paid - f64 (po_PayAmount o'))\<bar> > paymentAmountToleranceForCurrency lib (PaymentOrderCurrency lib o')"
      using assms(2) by (auto simp: amount_refused_def isValidProviderAmount_def)
    have inst: "honours money_still (\<lambda>_ _. True) (getOrderProviderInstance lib o') s1"
      unfolding getOrderProviderInstance_def by (rule still.asked) simp_all
    show ?case
    proof (rule still.branch, goal_cases)
      case (2 p)
      then have p: "p = o'" using \<open>\<forall>x. r = Inr x \<longrightarrow> x = o'\<close> by simp
      show ?case unfolding p Let_def
        by (rule still.bind [OF inst]) (use refused in \<open>auto split: option.split intro!: still.audit still.return\<close>)
    qed (rule still.return, rule TrueI)
  qed
qed

text \<open>The tolerance, and the difference of two \<open>float64\<close> amounts of at most a billion.\<close>

lemma float_above: "0 \<le> x \<Longrightarrow> f64 x \<le> x + (x / 2 ^ 53 + 1 / 10 ^ 30)"
  using error_bound [of x] by (simp add: abs_le_iff)

lemma tolerance_bound: "paymentAmountToleranceForCurrency lib c \<le> 1 / 100 + 1 / 10 ^ 6"
proof -
  have cent: "f64 (1 / 100) \<le> 1 / 100 + 1 / 10 ^ 6" by (rule order_trans [OF float_above]) simp_all
  have "CurrencyMinorUnit lib c \<le> 2 \<or> CurrencyMinorUnit lib c = 3"
    by (simp add: CurrencyMinorUnit_def paymentCurrencyAmountUnitFor_def split: option.split)
  then show ?thesis
  proof
    assume "CurrencyMinorUnit lib c = 3"
    moreover have "f64 (f64 (1 / 10 ^ 3) / 2) \<le> f64 (1 / 100)"
    proof (rule f64_mono)
      have "f64 (1 / 10 ^ 3) \<le> 2 / 10 ^ 3" by (rule order_trans [OF float_above]) simp_all
      then show "f64 (1 / 10 ^ 3) / 2 \<le> 1 / 100" by simp
    qed
    ultimately show ?thesis using cent by (simp add: paymentAmountToleranceForCurrency_def)
  qed (use cent in \<open>simp add: paymentAmountToleranceForCurrency_def\<close>)
qed

lemma minor_unit_three:
  assumes "c \<in> {''BHD'', ''IQD'', ''JOD'', ''KWD'', ''LYD'', ''OMR'', ''TND''}" "pl_upper lib c = c"
  shows "paymentAmountToleranceForCurrency lib c \<le> 5 / 10 ^ 4 + 1 / 10 ^ 6"
proof -
  have "trim_space c = c" "length c = 3" "\<forall>ch\<in>set c. 65 \<le> (of_char ch :: nat) \<and> (of_char ch :: nat) \<le> 90"
    using assms(1) by (elim insertE emptyE; simp; code_simp)+
  then have "NormalizePaymentCurrency lib c = Some c"
    using assms(2) by (auto simp: NormalizePaymentCurrency_def)
  then have unit: "CurrencyMinorUnit lib c = 3"
    using assms(1) by (auto simp: CurrencyMinorUnit_def paymentCurrencyAmountUnitFor_def)
  have "f64 (1 / 10 ^ 3) \<le> 1 / 10 ^ 3 + 1 / 10 ^ 6" by (rule order_trans [OF float_above]) simp_all
  then have "f64 (f64 (1 / 10 ^ 3) / 2) \<le> f64 (5 / 10 ^ 4 + 5 / 10 ^ 7)" by (intro f64_mono) simp
  also have "\<dots> \<le> 5 / 10 ^ 4 + 1 / 10 ^ 6" by (rule order_trans [OF float_above]) simp_all
  finally have "f64 (f64 (1 / 10 ^ 3) / 2) \<le> 5 / 10 ^ 4 + 1 / 10 ^ 6" .
  then show ?thesis by (simp add: paymentAmountToleranceForCurrency_def unit)
qed

lemma float_difference:
  assumes "\<bar>x\<bar> \<le> 10 ^ 9" "\<bar>y\<bar> \<le> 10 ^ 9"
  shows "\<bar>x - y\<bar> - 1 / 10 ^ 6 \<le> \<bar>f64 (f64 x - f64 y)\<bar>"
proof -
  define e :: rat where "e = 10 ^ 9 / 2 ^ 53 + 1 / 10 ^ 30"
  have err: "\<bar>f64 z - z\<bar> \<le> e" if "\<bar>z\<bar> \<le> 10 ^ 9" for z
    using error_bound [of z] divide_right_mono [OF that, of "2 ^ 53"] by (simp add: e_def)
  have e: "e \<le> 1" by (simp add: e_def)
  have "\<bar>f64 x - f64 y\<bar> \<le> 2 * 10 ^ 9 + 2" using err [OF assms(1)] err [OF assms(2)] e assms by linarith
  then have "\<bar>f64 (f64 x - f64 y) - (f64 x - f64 y)\<bar> \<le> (2 * 10 ^ 9 + 2) / 2 ^ 53 + 1 / 10 ^ 30"
    using error_bound [of "f64 x - f64 y"] divide_right_mono [of "\<bar>f64 x - f64 y\<bar>" "2 * 10 ^ 9 + 2" "2 ^ 53"] by simp
  then have "\<bar>f64 (f64 x - f64 y) - (x - y)\<bar> \<le> (2 * 10 ^ 9 + 2) / 2 ^ 53 + 1 / 10 ^ 30 + 2 * e"
    using err [OF assms(1)] err [OF assms(2)] by linarith
  also have "\<dots> \<le> 1 / 10 ^ 6" by (simp add: e_def)
  finally show ?thesis by linarith
qed

text \<open>
  Amounts that are not those of the order: not positive, or off by 0.011 or more, or, in a currency of
  three decimals, by 0.0006 or more.  (The tolerance is a cent, respectively half of a thousandth.)
\<close>

definition wrong_amount :: "pay_lib \<Rightarrow> payment_order \<Rightarrow> decimal \<Rightarrow> bool" where
  "wrong_amount lib o' paid \<longleftrightarrow>
     paid \<le> 0
     \<or> \<bar>paid\<bar> \<le> 10 ^ 9 \<and> \<bar>po_PayAmount o'\<bar> \<le> 10 ^ 9
       \<and> (11 / 1000 \<le> \<bar>paid - po_PayAmount o'\<bar>
          \<or> PaymentOrderCurrency lib o' \<in> {''BHD'', ''IQD'', ''JOD'', ''KWD'', ''LYD'', ''OMR'', ''TND''}
            \<and> pl_upper lib (PaymentOrderCurrency lib o') = PaymentOrderCurrency lib o'
            \<and> 6 / 10 ^ 4 \<le> \<bar>paid - po_PayAmount o'\<bar>)"

lemma wrong_amount_refused: "wrong_amount lib o' paid \<Longrightarrow> amount_refused lib o' paid"
proof (cases "paid \<le> 0")
  case False
  assume wrong: "wrong_amount lib o' paid"
  with False have "\<bar>paid\<bar> \<le> 10 ^ 9" "\<bar>po_PayAmount o'\<bar> \<le> 10 ^ 9" by (auto simp: wrong_amount_def)
  note diff = float_difference [OF this]
  let ?c = "PaymentOrderCurrency lib o'"
  from wrong False consider "11 / 1000 \<le> \<bar>paid - po_PayAmount o'\<bar>"
    | "?c \<in> {''BHD'', ''IQD'', ''JOD'', ''KWD'', ''LYD'', ''OMR'', ''TND''}" "pl_upper lib ?c = ?c"
      "6 / 10 ^ 4 \<le> \<bar>paid - po_PayAmount o'\<bar>"
    by (auto simp: wrong_amount_def)
  then have "paymentAmountToleranceForCurrency lib ?c < \<bar>f64 (f64 paid - f64 (po_PayAmount o'))\<bar>"
  proof cases
    case 1
    then show ?thesis using diff tolerance_bound [of lib ?c] by simp
  next
    case 2
    then show ?thesis using diff minor_unit_three [OF 2(1,2)] by simp
  qed
  then show ?thesis by (simp add: amount_refused_def)
qed (simp add: amount_refused_def)

text \<open>C8 (refused_amount_changes_nothing): a notification of success whose amount is not positive, or off
  the order's by 0.011 or more (0.0006 in a currency of three decimals; amounts of at most a billion),
  leaves orders, codes, balances and subscriptions as they are, whether the order is found by its number or
  by the identifier in an old number \<open>sub2_<id>\<close>, whichever calls fail and whatever others do meanwhile
  on the rest of the tables.  A difference of up to a cent, the code's tolerance, is accepted.\<close>

theorem refused_amount_changes_nothing:
  assumes order: "find_order (po_ID o') s = Some o'"
    and found: "filter (\<lambda>p. po_OutTradeNo p = pn_OrderID n) (db_orders s) = [o']
      \<or> filter (\<lambda>p. po_OutTradeNo p = pn_OrderID n) (db_orders s) = []
        \<and> parseLegacyPaymentOrderID (pn_OrderID n) = Some (po_ID o')"
    and wrong: "wrong_amount lib o' (pn_Amount n)"
    and others: "\<forall>x\<in>set es. \<forall>s. money_still s (fst x s)"
    and ran: "run es (HandlePaymentNotification lib n pk) s = (r, s')"
  shows "db_orders s' = db_orders s \<and> db_codes s' = db_codes s \<and> db_users s' = db_users s \<and> db_subs s' = db_subs s"
proof -
  let ?named = "filter (\<lambda>p. po_OutTradeNo p = pn_OrderID n)"
  have numbered: "honours money_still (\<lambda>r s1. money_still s s1 \<and> (\<forall>x. r = Inr x \<longrightarrow> x = o')
        \<and> (r = Inl PayNotFound \<longrightarrow> ?named (db_orders s) = [])) (order_numbered (pn_OrderID n)) s"
    unfolding order_numbered_def
    by (rule still.asked) (use found in \<open>auto simp: money_still_def split: list.splits\<close>)
  have "honours money_still (\<lambda>_ _. True) (HandlePaymentNotification lib n pk) s"
    unfolding HandlePaymentNotification_def
  proof (split if_split, intro conjI impI still.return TrueI, rule still.bind [OF numbered], goal_cases)
    case outer: (1 r s1)
    have here: "find_order (po_ID o') s1 = Some o'"
      using order outer by (simp add: money_still_def find_order_def)
    note confirmed = still_confirm [OF here wrong_amount_refused [OF wrong]]
    show ?case
    proof (rule still.branch, goal_cases)
      case (1 e)
      show ?case
      proof (cases "e = PayNotFound")
        case True
        then have "parseLegacyPaymentOrderID (pn_OrderID n) = Some (po_ID o')" using outer 1 found by auto
        then show ?thesis using True confirmed by simp
      qed (auto intro: still.return)
    next
      case (2 p)
      then show ?case using confirmed outer by simp
    qed
  qed
  then show ?thesis using still.ran [OF _ others ran] by (simp add: money_still_def)
qed

text \<open>Ten have to be paid; nine are refused.  An amount one cent short is accepted.\<close>

definition short_notification :: "decimal \<Rightarrow> payment_notification" where
  "short_notification paid = pay_sample_notification\<lparr>pn_Amount := paid\<rparr>"

theorem refused_amount_changes_nothing_witness:
  "db_orders (snd (run (working [1..9]) (HandlePaymentNotification pay_sample_lib (short_notification 9) ''alipay'') pay_sample_db)) = [pay_sample_order]"
proof -
  obtain r s' where r: "run (working [1..9]) (HandlePaymentNotification pay_sample_lib (short_notification 9) ''alipay'') pay_sample_db = (r, s')"
    by (cases "run (working [1..9]) (HandlePaymentNotification pay_sample_lib (short_notification 9) ''alipay'') pay_sample_db")
  have "find_order (po_ID pay_sample_order) pay_sample_db = Some pay_sample_order"
    "filter (\<lambda>p. po_OutTradeNo p = pn_OrderID (short_notification 9)) (db_orders pay_sample_db) = [pay_sample_order]"
    by (simp_all add: pay_sample_db_def pay_sample_order_def short_notification_def pay_sample_notification_def find_order_def)
  moreover have "wrong_amount pay_sample_lib pay_sample_order (pn_Amount (short_notification 9))"
    by (simp add: wrong_amount_def pay_sample_order_def short_notification_def)
  moreover have "\<forall>x\<in>set (working [1..9]). \<forall>s. money_still s (fst x s)" by (simp add: working_def money_still_def)
  ultimately show ?thesis using refused_amount_changes_nothing [OF _ _ _ _ r] r by (simp add: pay_sample_db_def)
qed

lemma cent_short_accepted:
  "map (\<lambda>o'. (po_Status o', po_PayAmount o')) (db_orders (snd (run (working [1..40])
      (HandlePaymentNotification pay_sample_lib (short_notification (999 / 100)) ''alipay'') pay_sample_db)))
   = [(OrderStatusCompleted, 999 / 100)]"
  by code_simp

section \<open>Acknowledged and lost\<close>

text \<open>C19 (unread_order_acknowledged): when the order of a notification is found but cannot be read again for
  a moment, the notification is answered as handled and nothing is recorded, although the order is unpaid.\<close>

theorem unread_order_acknowledged:
  assumes "pn_Status n = ''success''" "filter (\<lambda>p. po_OutTradeNo p = pn_OrderID n) (db_orders s) = [o']"
  shows "run [(\<lambda>s. s, \<lparr>ce_now = t, ce_fault = Works\<rparr>), (\<lambda>s. s, \<lparr>ce_now = t', ce_fault = Refused\<rparr>)]
      (HandlePaymentNotification lib n pk) s = (Some (Inr ()), s)"
  using assms
  by (simp add: HandlePaymentNotification_def order_numbered_def confirmPayment_def get_order_def ask_def tx_def call_def
      committed_def)

theorem unread_order_acknowledged_witness:
  "run [(\<lambda>s. s, \<lparr>ce_now = 1, ce_fault = Works\<rparr>), (\<lambda>s. s, \<lparr>ce_now = 2, ce_fault = Refused\<rparr>)]
      (HandlePaymentNotification pay_sample_lib pay_sample_notification ''alipay'') pay_sample_db = (Some (Inr ()), pay_sample_db)
   \<and> unpaid pay_sample_order"
proof
  have "filter (\<lambda>p. po_OutTradeNo p = pn_OrderID pay_sample_notification) (db_orders pay_sample_db) = [pay_sample_order]"
    by (simp add: pay_sample_db_def pay_sample_order_def pay_sample_notification_def)
  then show "run [(\<lambda>s. s, \<lparr>ce_now = 1, ce_fault = Works\<rparr>), (\<lambda>s. s, \<lparr>ce_now = 2, ce_fault = Refused\<rparr>)]
      (HandlePaymentNotification pay_sample_lib pay_sample_notification ''alipay'') pay_sample_db = (Some (Inr ()), pay_sample_db)"
    by (intro unread_order_acknowledged) (simp_all add: pay_sample_notification_def)
  show "unpaid pay_sample_order" by (simp add: unpaid_def pay_sample_order_def)
qed

section \<open>A batch update that overlaps a redemption\<close>

lemma redeem_balance_code:
  assumes "\<exists>d\<in>set (db_codes s). rc_ID d = rc_ID c \<and> rc_Status d = StatusUnused"
    and "rc_Type c = RedeemTypeBalance" "0 \<le> rc_Value c" "on_scale 8 (rc_Value c)"
    and "db_users s uid = Some u" "on_scale 8 (py_Balance u)"
  shows "\<exists>u'. redeem_tx lib uid c t s = (Inr (), s\<lparr>db_codes := map (spend (rc_ID c) uid t) (db_codes s),
      db_users := (db_users s)(uid \<mapsto> u')\<rparr>) \<and> py_Balance u' = py_Balance u + rc_Value c"
proof -
  have "Use (rc_ID c) uid t s = (Inr (), s\<lparr>db_codes := map (spend (rc_ID c) uid t) (db_codes s)\<rparr>)"
    using assms(1) by (simp add: Use_def spend_def [abs_def])
  then show ?thesis
    using assms(2-6)
    by (intro exI [of _ "u\<lparr>py_Balance := round_half_away 8 (py_Balance u + rc_Value c),
          py_TotalRecharged := (if rc_Value c > 0 then round_half_away 8 (py_TotalRecharged u + rc_Value c)
                                else py_TotalRecharged u)\<rparr>"])
       (simp add: redeem_tx_def tx_then_def hand_out_def UpdateBalance_def change_user_def)
qed

text \<open>C20 (batch_update_reopens_code): a batch update that sets codes to unused checks first that none is
  used; if a redemption of one of them commits between the check and the write, the code is unused again,
  although the user has been credited, and its next redemption credits the user a second time.  So for every
  state of the tables, every unused balance code of no negative value, every user, and every update that
  its check lets pass and that sets nothing that makes a code unredeemable (expiry, group);
  amounts have the eight decimals of their columns.\<close>

theorem batch_update_reopens_code:
  assumes code: "c \<in> set (db_codes s)" "rc_Status c = StatusUnused" "rc_Type c = RedeemTypeBalance"
      "0 \<le> rc_Value c" "on_scale 8 (rc_Value c)"
    and user: "db_users s uid = Some u" "on_scale 8 (py_Balance u)"
    and ids: "distinct ids" "\<forall>i\<in>set ids. 0 < i" "rc_ID c \<in> set ids"
      "length (filter (\<lambda>d. rc_ID d \<in> set ids) (db_codes s)) = length ids"
      "\<forall>d\<in>set (db_codes s). rc_ID d \<in> set ids \<longrightarrow> rc_Status d \<noteq> StatusUsed"
    and update: "cc_Status f = Some StatusUnused" "cc_ExpiresAt f = None" "cc_GroupID f = None" "\<not> cc_core f"
    and ran: "run [(\<lambda>s. s, \<lparr>ce_now = t0, ce_fault = Works\<rparr>), (\<lambda>s. s, \<lparr>ce_now = t1, ce_fault = Works\<rparr>),
        (\<lambda>s. snd (redeem_tx lib uid c t s), \<lparr>ce_now = t2, ce_fault = Works\<rparr>)] (BatchUpdate ids f) s = (r, s')"
  shows "r = Some (Inr (length ids))
    \<and> (\<exists>d\<in>set (db_codes s'). rc_ID d = rc_ID c \<and> rc_Status d = StatusUnused)
    \<and> map_option py_Balance (db_users s' uid) = Some (py_Balance u + rc_Value c)
    \<and> fst (redeem_tx lib uid c t' s') = Inr ()
    \<and> map_option py_Balance (db_users (snd (redeem_tx lib uid c t' s')) uid) = Some (py_Balance u + 2 * rc_Value c)"
proof -
  have "\<exists>d\<in>set (db_codes s). rc_ID d = rc_ID c \<and> rc_Status d = StatusUnused" using code(1,2) by blast
  from redeem_balance_code [OF this code(3-5) user, of lib t] obtain u1 where
    first: "redeem_tx lib uid c t s = (Inr (), s\<lparr>db_codes := map (spend (rc_ID c) uid t) (db_codes s),
      db_users := (db_users s)(uid \<mapsto> u1)\<rparr>)" and u1: "py_Balance u1 = py_Balance u + rc_Value c" by blast
  let ?codes = "map (spend (rc_ID c) uid t) (db_codes s)"
  let ?s = "s\<lparr>db_users := (db_users s)(uid \<mapsto> u1),
      db_codes := map (\<lambda>d. if rc_ID d \<in> set ids then change_code f d else d) ?codes\<rparr>"
  have same: "rc_ID (spend k v w d) = rc_ID d" for k v w d by (simp add: spend_def)
  have n: "length (filter (\<lambda>d. rc_ID d \<in> set ids) ?codes) = length ids"
    using ids(4) by (simp add: filter_map o_def same)
  have "remdups_first ids = ids" using ids(1) by (simp add: remdups_first_def distinct_remdups_id)
  moreover have "ids \<noteq> []" using ids(3) by auto
  moreover have "\<not> (\<exists>i\<in>set ids. i \<le> 0)" using ids(2) by fastforce
  moreover have "\<not> (\<exists>d\<in>set (filter (\<lambda>d. rc_ID d \<in> set ids) (db_codes s)). rc_Status d = StatusUsed)"
    using ids(5) by auto
  ultimately have rs: "r = Some (Inr (length ids))" "s' = ?s"
    using ran update first n ids(4)
    by (simp_all add: BatchUpdate_def repo_BatchUpdate_def read_for_update_def write_changes_def ask_def tx_def
        attempt_def call_def committed_def clock_def Let_def)
  have "change_code f (spend (rc_ID c) uid t c) \<in> set (db_codes s')"
    using code(1) ids(3) unfolding rs(2) by (auto simp: same intro!: image_eqI [of _ _ c])
  moreover have "rc_ID (change_code f (spend (rc_ID c) uid t c)) = rc_ID c"
    "rc_Status (change_code f (spend (rc_ID c) uid t c)) = StatusUnused"
    using update(1) by (simp_all add: change_code_def same)
  ultimately have open_again: "\<exists>d\<in>set (db_codes s'). rc_ID d = rc_ID c \<and> rc_Status d = StatusUnused" by blast
  have user1: "db_users s' uid = Some u1" by (simp add: rs(2))
  have "on_scale 8 (py_Balance u1)" using code(5) user(2) by (simp add: u1)
  from redeem_balance_code [OF open_again code(3-5) user1 this, of lib t'] show ?thesis
    using rs(1) open_again user1 u1 by auto
qed

definition gift_code :: redeem_code where
  "gift_code = (plain_code ''GIFT'' RedeemTypeBalance 5)\<lparr>rc_ID := 4\<rparr>"

definition gift_db :: pay_db where
  "gift_db = pay_sample_db\<lparr>db_orders := [], db_codes := [gift_code], db_next_code := 5\<rparr>"

definition reactivate :: code_changes where
  "reactivate = \<lparr>cc_Status = Some StatusUnused, cc_ExpiresAt = None, cc_Notes = None, cc_GroupID = None, cc_core = False\<rparr>"

definition overlapped :: pay_db where
  "overlapped = snd (run [(\<lambda>s. s, \<lparr>ce_now = 1, ce_fault = Works\<rparr>), (\<lambda>s. s, \<lparr>ce_now = 2, ce_fault = Works\<rparr>),
      (\<lambda>s. snd (redeem_tx pay_sample_lib 7 gift_code 20 s), \<lparr>ce_now = 50, ce_fault = Works\<rparr>)] (BatchUpdate [4] reactivate) gift_db)"

theorem batch_update_reopens_code_witness:
  "map_option py_Balance (db_users overlapped 7) = Some 8
   \<and> map_option py_Balance (db_users (snd (redeem_tx pay_sample_lib 7 gift_code 60 overlapped)) 7) = Some 13"
proof -
  obtain r where ran: "run [(\<lambda>s. s, \<lparr>ce_now = 1, ce_fault = Works\<rparr>), (\<lambda>s. s, \<lparr>ce_now = 2, ce_fault = Works\<rparr>),
      (\<lambda>s. snd (redeem_tx pay_sample_lib 7 gift_code 20 s), \<lparr>ce_now = 50, ce_fault = Works\<rparr>)] (BatchUpdate [4] reactivate) gift_db
      = (r, overlapped)"
    unfolding overlapped_def by (metis prod.collapse)
  have "gift_code \<in> set (db_codes gift_db)" "rc_Status gift_code = StatusUnused" "rc_Type gift_code = RedeemTypeBalance"
    "0 \<le> rc_Value gift_code" "on_scale 8 (rc_Value gift_code)"
    "db_users gift_db 7 = Some \<lparr>py_Balance = 3, py_TotalRecharged = 0, py_Concurrency = 5, py_Deleted = False\<rparr>"
    "rc_Value gift_code = 5" "rc_ID gift_code = 4" "db_codes gift_db = [gift_code]"
    by (simp_all add: gift_db_def gift_code_def plain_code_def pay_sample_db_def sample_amount)
  then show ?thesis
    using batch_update_reopens_code [OF _ _ _ _ _ _ _ _ _ _ _ _ _ _ _ _ ran, of _ 60]
    by (simp add: reactivate_def sample_amount pay_strings)
qed

text \<open>The whole operation under its locks: redeemed, reopened, redeemed again.\<close>

definition redeemed_once :: "pay_db \<Rightarrow> pay_db" where
  "redeemed_once s = snd (run (working [10..40]) (Redeem pay_sample_lib True 7 ''GIFT'') s)"

lemma gift_redeemed_twice:
  "map_option py_Balance (db_users gift_db 7) = Some 3
   \<and> map rc_Status (db_codes overlapped) = [StatusUnused]
   \<and> map_option py_Balance (db_users (redeemed_once overlapped) 7) = Some 13"
  by (intro conjI; code_simp)

section \<open>Three decimals\<close>

text \<open>An order over 1.005 Kuwaiti dinars, stored in a column of two decimals, and what the provider reports.\<close>

definition dinar_order :: payment_order where
  "dinar_order = pay_sample_order\<lparr>po_PayAmount := round_half_away 2 (1005 / 1000),
     po_ProviderSnapshot := [(''schema_version'', SnapNum 2), (''currency'', SnapStr ''KWD'')]\<rparr>"

text \<open>The amount of such an order is refused when it is paid exactly.\<close>

theorem three_decimals_refused:
  "PaymentOrderCurrency pay_sample_lib dinar_order = ''KWD'' \<and> CurrencyMaxFractionDigits pay_sample_lib ''KWD'' = 3
   \<and> amount_refused pay_sample_lib dinar_order (1005 / 1000)"
  by (intro conjI; code_simp)

end
