(* ===== verification/Spec2Isabelle.thy ===== *)
theory Spec2Isabelle
  imports ProxyCircuit AuthAbuse IdempotencyRaces BatchImageRecovery BatchImageWorker BatchImageSubmitExamples KeywordMatcher ConcurrencyRuns PaymentRefusals
begin

text \<open>
  A verification library for the XIASS API gateway, a relay between API users and upstream model
  providers.  The library models components of its Go backend (\<open>backend/internal/\<close>), mostly those that
  handle money and exclusive access; a reader who has the repository can put each definition beside
  the function of the same name.

  \<^bold>\<open>How the code is modelled.\<close>  A struct is a record, an enumeration a datatype or the Go string
  itself, an error a value of an error datatype, and a function that may fail returns a sum.  A table is
  a function from its key or a list of rows, a Redis key space a record of maps.  State is passed
  explicitly.  Each SQL statement, Redis script or call of a collaborator takes an environment that
  decides whether it fails; a theorem that does not restrict the environments holds for all failures.
  In the queue, the concurrency slots, the idempotency records and the payments a call may also take
  effect and lose its answer.  In the billing and batch-image repositories it may not: a COMMIT that
  fails (\<open>in_transaction\<close>, \<open>bm_tx\<close>) has rolled back.  There an operation that commits and is reported as an
  error is, for the tables, the applied operation, so what is said of sequences of operations on the
  tables covers it; what is said of a service that acts on the answer (submission, settlement,
  recovery) does not.  What runs concurrently is cut at
  the calls to shared state and interleaved by a step relation or by sequences of calls.  Times are
  integers (nanoseconds, or what the store keeps), durations wrap at 64 bits, amounts are rational
  numbers that stand for \<open>float64\<close> values or NUMERIC columns and are rounded where the code or the
  database rounds them.  A definition says in its comment where Go's notion and its own differ.

  \<^bold>\<open>Foundations.\<close>
  \<^item> \<open>Prelude\<close>: times, durations, Go maps as association lists whose iteration order is a parameter,
    and the collections \<open>go_simps\<close> and \<open>inv_intros\<close>.
  \<^item> \<open>GoStrings\<close>: byte strings, \<open>strings.TrimSpace\<close>, \<open>strconv\<close>, case folding.  \<open>Float64\<close>: rounding to
    binary64.  \<open>Amounts\<close>: the decimal under which a computed amount is stored, and its error.
  \<^item> \<open>RedisStore\<close>: sorted sets and counters with times to live.

  \<^bold>\<open>Billing\<close> (\<open>repository/usage_billing_repo.go\<close>, \<open>service/usage_billing.go\<close>).
  \<^item> \<open>BillingTables\<close>: users, subscriptions, API keys, accounts, the deduplication table; commands and
    their normalisation.  \<open>UsageBilling\<close>: \<open>Apply\<close> with its claim and five effects.  \<open>BalanceHold\<close>: reserve,
    capture and release of a batch's hold, and the whole repository as an \<open>idempotent_ledger\<close>
    (a locale, interpreted on \<open>billing_step\<close>): a key takes effect at most once, money is conserved up to
    the rounding of the columns, frozen balances stay non-negative, a hold ends in its charge or is
    restored.  The code rounds charges to the eight decimals of the balance columns but not the amounts
    of holds, so statements on holds carry the rounding (\<open>off_scale\<close>, \<open>half_unit\<close>, \<open>charged\<close>,
    \<open>hold_returned\<close>, \<open>hold_taken\<close>) and are exact for holds of eight decimals; \<open>unquantized_hold_stuck\<close> is what
    goes wrong with others.

  \<^bold>\<open>Idempotent requests\<close> (\<open>service/idempotency.go\<close>, \<open>repository/idempotency_repo.go\<close>).
  \<^item> \<open>IdempotencyStore\<close>: records, the contract of the repository as a locale, and the SQL statements, on which
    it is interpreted.  \<open>Idempotency\<close>: \<open>Execute\<close>, cut at its calls; replay, conflict and retry
    behaviour.  \<open>IdempotencyRaces\<close>: concurrent calls as a step relation; no two clients execute under
    one key while owners report in time.

  \<^bold>\<open>Batches of images.\<close>  A user submits a batch, its price is held, a provider works on it, a worker
  follows it, indexes its result and settles it.
  \<^item> \<open>BatchImageTables\<close>, \<open>BatchImageRepo\<close> (\<open>service/batch_image.go\<close>, \<open>repository/batch_image_repo.go\<close>): rows,
    statuses, every method of the repository.  \<open>BatchImageLifecycle\<close>: a calculus for what methods may do to
    a row (locales \<open>row_policy\<close> and \<open>job_policy\<close>, interpreted on three policies); terminal jobs stay
    terminal, what is set once is never changed.  \<open>BatchImageQuiet\<close>: the methods without faults.
  \<^item> \<open>BatchImageRequest\<close>, \<open>BatchImagePricing\<close>, \<open>BatchImagePublic\<close>, \<open>BatchImageSubmit\<close>
    (\<open>service/batch_image_public.go\<close>): validation, price and hold, public views and listings, and the
    compositions \<open>Submit\<close> and \<open>Cancel\<close>.  \<open>BatchImageSubmission\<close>, \<open>BatchImageCancel\<close>,
    \<open>BatchImageSubmitOutcome\<close>, \<open>BatchImageSubmitQuiet\<close>, \<open>BatchImageSubmitExamples\<close>: that money and job belong
    together whatever fails, refunds, races between the two, repeated requests.
  \<^item> \<open>BatchImageSettlement\<close>, \<open>BatchImageIndexer\<close>, \<open>BatchImageProcessor\<close>, \<open>BatchImageRecovery\<close>: following a
    submitted job to its charge or refund; the result file line by line; settlements that fail come to
    an end after the retry limit; lost submissions are refunded.
  \<^item> \<open>BatchImageQueue\<close> (\<open>repository/batch_image_queue.go\<close>): the Redis queue, its refinement of a pool of jobs,
    job locks, and the locale \<open>job_queue\<close> its client relies on.  \<open>BatchImageWorker\<close>: one round of the worker,
    which drops only jobs that are finished.

  \<^bold>\<open>Payments and recharges.\<close>  An order is paid at a gateway, which notifies the server; the order is
  fulfilled by creating a redeem code for its amount and redeeming it for the user, or by extending a
  subscription, and the user's inviter gets a rebate.
  \<^item> \<open>Interleaving\<close>: operations as trees of calls on a shared database, each of which may be refused or lose
    its answer; systems of operations (\<open>sys_step\<close>, \<open>sys_reach\<close>), runs with given environments (\<open>run\<close>), and
    the locales \<open>shared_database\<close> and \<open>evolving\<close>, whose rules carry an invariant through every interleaving.
  \<^item> \<open>PaymentTables\<close>: orders, codes, users, audit log, ledger, locks and what a statement does to them.
    \<open>Subscriptions\<close> (\<open>service/subscription_service.go\<close>), \<open>Affiliates\<close> (\<open>service/affiliate_service.go\<close>,
    \<open>repository/affiliate_repo.go\<close>), \<open>RedeemCodes\<close> (\<open>service/redeem_service.go\<close>,
    \<open>repository/redeem_code_repo.go\<close>), \<open>PaymentProviders\<close> (\<open>service/payment_order_provider_snapshot.go\<close>,
    \<open>payment/currency.go\<close>), \<open>PaymentFulfillment\<close> (\<open>service/payment_fulfillment.go\<close>) and \<open>PaymentLifecycle\<close>
    (\<open>service/payment_order_lifecycle.go\<close>): the operations, cut at their statements and transactions.
  \<^item> \<open>PaymentCredit\<close>: the invariant \<open>pay_ok\<close> of the tables, the relation \<open>pay_grows\<close> between their states
    (\<open>evolving\<close> is interpreted on the two), and that every transaction keeps them.  \<open>PaymentSystem\<close>: the same
    for every operation, and the system \<open>pay_starts\<close> of all of them.  \<open>PaymentProperties\<close>: credits equal
    redeemed codes, a completed order has been credited once, payments win over cancellations, one rebate
    per order.  \<open>PaymentRefusals\<close>: wrong amounts change nothing; what goes wrong in three places.
  \<^item> The system consists of notifications, retries, cancellations, checks, expiries, redemptions and new
    codes.  Refunds, the administrator's changes to codes, the creation of orders and other changes to
    balances are not in it.  Who redeems which code is a parameter (\<open>who\<close>), because the program does not
    restrict it.

  \<^bold>\<open>Protection.\<close>
  \<^item> \<open>ProxyCircuit\<close> (\<open>service/openai_proxy_stream_circuit.go\<close>) and \<open>AuthAbuse\<close>
    (\<open>service/invalid_auth_abuse_limiter.go\<close>): in-memory breakers with bounded tables.
  \<^item> \<open>ConcurrencyKeys\<close>, \<open>ConcurrencyCache\<close>, \<open>ConcurrencyLimits\<close>, \<open>ConcurrencyRuns\<close>
    (\<open>repository/concurrency_cache.go\<close>): slots on Redis; their limit holds under every interleaving.
  \<^item> \<open>KeywordTrie\<close>, \<open>KeywordAutomaton\<close>, \<open>KeywordMatcher\<close>
    (\<open>service/content_moderation_keyword_matcher.go\<close>): an Aho-Corasick automaton in compressed arrays decides
    exactly what testing each rule would.

  \<^bold>\<open>Termination.\<close>  No definition uses fuel (\<open>run\<close> takes one environment for each call).  Loops are structural recursions, or functions with a
  measure: the rank of the program counter in \<open>run_client\<close>, the rows not yet read in \<open>expected_from\<close>
  and \<open>read_chunks\<close>, the bytes left in \<open>scan_lines\<close>.  The automaton's loops (\<open>find_fallback\<close>, \<open>link_queue\<close>,
  \<open>advance\<close>) and the polling of \<open>reserve_polls\<close> may fail to return, which is the value \<open>None\<close>; that the
  automaton's return on every matcher the code builds is part of what is proved.

  \<^bold>\<open>Parameters.\<close>  SHA-256, \<open>encoding/json\<close>, \<open>strings.ToLower\<close> and \<open>ToUpper\<close> where not restricted to ASCII, date
  formats, time zones, random identifiers and lock tokens, the order in which Go visits a map, Redis
  clocks, the answers of upstream providers, the choice of a provider account, and log output
  (left out).

  \<^bold>\<open>Not modelled.\<close>  Forwarding of requests, streaming and protocol conversion (HTTP, JSON and SSE against
  external services); the creation of payment orders, the clients of the gateways, refunds; account
  scheduling; authentication and sessions; the administration,
  statistics and monitoring services; execution nodes and proxies; handlers and wiring; the
  database client that ent generates, about half of the Go lines; the web and mobile clients.
  Endless loops and goroutine management around the modelled passes are left out.
\<close>

end
